(* ===== verification/Dss_Prelude.thy ===== *)
theory Dss_Prelude
  imports Main "HOL-Library.Word"
begin

text \<open>
  Shared vocabulary of the development.  It holds the machine integer types of the C++
  sources, the operations of \<^verbatim>\<open>std::string\<close> that the sources use (a string is a list
  of bytes, \<^verbatim>\<open>npos\<close> is \<open>None\<close>), generic lemmas on lists, and the
  collections of rewrite rules the component theories add to.

  It also states the interface that every pair of C++ functions \<open>xName\<close> and
  \<open>xFromName\<close> has, as the locale \<open>name_table\<close>.
\<close>

unbundle bit_operations_syntax

section \<open>Types\<close>

type_synonym u8 = "8 word"
type_synonym u16 = "16 word"
type_synonym u32 = "32 word"
type_synonym u64 = "64 word"

named_theorems str_simps \<open>unfolding rules for the string operations\<close>

section \<open>Operations of std::string\<close>

text \<open>Position of the first element that satisfies a predicate.\<close>

fun find_index :: "('a \<Rightarrow> bool) \<Rightarrow> 'a list \<Rightarrow> nat option" where
  "find_index P [] = None"
| "find_index P (x # xs) = (if P x then Some 0 else map_option Suc (find_index P xs))"

text \<open>\<^verbatim>\<open>s.find(c, pos)\<close>.\<close>

definition str_find :: "char \<Rightarrow> string \<Rightarrow> nat \<Rightarrow> nat option" where
  "str_find c s pos = map_option (\<lambda>i. pos + i) (find_index (\<lambda>x. x = c) (drop pos s))"

text \<open>\<^verbatim>\<open>s.substr(pos, n)\<close> for a position inside the string.\<close>

definition substr :: "string \<Rightarrow> nat \<Rightarrow> nat \<Rightarrow> string" where
  "substr s pos n = take n (drop pos s)"

text \<open>\<^verbatim>\<open>s.erase(pos, n)\<close> for a position inside the string.\<close>

definition str_erase :: "string \<Rightarrow> nat \<Rightarrow> nat \<Rightarrow> string" where
  "str_erase s pos n = take pos s @ drop (pos + n) s"

text \<open>The C string a \<^verbatim>\<open>std::string\<close> yields through \<^verbatim>\<open>c_str()\<close>: it ends at the first NUL.\<close>

definition c_str :: "string \<Rightarrow> string" where
  "c_str s = takeWhile (\<lambda>c. c \<noteq> CHR 0x00) s"

section \<open>Lemmas on lists\<close>

lemma find_index_None_iff: "find_index P xs = None \<longleftrightarrow> (\<forall>x \<in> set xs. \<not> P x)"
  by (induction xs) auto

lemma find_index_Some_bound: "find_index P xs = Some i \<Longrightarrow> i < length xs"
  by (induction xs arbitrary: i) (auto split: if_splits)

lemma find_index_Some_nth: "find_index P xs = Some i \<Longrightarrow> P (xs ! i)"
  by (induction xs arbitrary: i) (auto split: if_splits)

lemma find_index_Some_before:
  "find_index P xs = Some i \<Longrightarrow> j < i \<Longrightarrow> \<not> P (xs ! j)"
  by (induction xs arbitrary: i j) (auto simp: nth_Cons' split: if_splits)

lemma find_index_append:
  "find_index P (xs @ ys) =
     (case find_index P xs of Some i \<Rightarrow> Some i
      | None \<Rightarrow> map_option (\<lambda>i. length xs + i) (find_index P ys))"
proof (induction xs)
  case Nil
  then show ?case by (cases "find_index P ys") simp_all
next
  case (Cons x xs)
  then show ?case
    by (cases "find_index P xs"; cases "find_index P ys") simp_all
qed

lemma find_index_takeWhile:
  "find_index P xs = Some i \<Longrightarrow> take i xs = takeWhile (\<lambda>x. \<not> P x) xs"
  by (induction xs arbitrary: i) (auto split: if_splits)

lemma find_index_dropWhile:
  "find_index P xs = Some i \<Longrightarrow> drop i xs = dropWhile (\<lambda>x. \<not> P x) xs"
  by (induction xs arbitrary: i) (auto split: if_splits)

lemma takeWhile_all [simp]: "\<forall>x \<in> set xs. P x \<Longrightarrow> takeWhile P xs = xs"
  by (induction xs) auto

lemma dropWhile_none: "xs \<noteq> [] \<Longrightarrow> \<not> P (hd xs) \<Longrightarrow> dropWhile P xs = xs"
  by (cases xs) auto

lemma c_str_id [simp]: "CHR 0x00 \<notin> set s \<Longrightarrow> c_str s = s"
  unfolding c_str_def by (rule takeWhile_all) auto

lemma str_find_bounds: "str_find c s pos = Some i \<Longrightarrow> pos \<le> i \<and> i < length s"
  using find_index_Some_bound by (fastforce simp: str_find_def)

section \<open>The interface of name tables\<close>

text \<open>
  The sources translate several enumerations to names and back with a pair of functions
  \<open>xName\<close> (a partial map, because an enumeration value that arrived from the bus may be
  outside the declared ones) and \<open>xFromName\<close>.  The contract is that a name that is printed
  is read back as the value it was printed for, and that nothing else is read.
\<close>

locale name_table =
  fixes to_name :: "'a \<Rightarrow> string option"
    and from_name :: "string \<Rightarrow> 'a option"
  assumes print_parse: "to_name x = Some s \<Longrightarrow> from_name s = Some x"
    and parse_print: "from_name s = Some x \<Longrightarrow> to_name x = Some s"
begin

lemma parse_iff_print: "from_name s = Some x \<longleftrightarrow> to_name x = Some s"
  using print_parse parse_print by blast

lemma name_unique: "to_name x = Some s \<Longrightarrow> to_name y = Some s \<Longrightarrow> x = y"
  using print_parse by (metis option.inject)

lemma parse_unique: "from_name s = Some x \<Longrightarrow> from_name t = Some x \<Longrightarrow> s = t"
  using parse_print by (metis option.inject)

lemma parse_image: "{x. \<exists>s. from_name s = Some x} = {x. to_name x \<noteq> None}"
  using parse_iff_print by auto

end

end
