(* ===== verification/Base_Strings.thy ===== *)
theory Base_Strings
  imports Dss_Prelude
begin

text \<open>
  The string utilities of \<^verbatim>\<open>src/src/base.cpp\<close>: trimming, number parsing and printing,
  splitting and joining, URL decoding, truncation of UTF-8 text, XML escaping, path
  splitting, the CRC, and the string map \<^verbatim>\<open>Properties\<close>.
\<close>

datatype base_error = InvalidArgument string | RuntimeError string

definition quoted :: "string \<Rightarrow> string" where
  "quoted s = [CHR 0x27] @ s @ [CHR 0x27]"

section \<open>Trimming\<close>

definition is_white :: "char \<Rightarrow> bool" where
  "is_white c \<longleftrightarrow> c = CHR '' '' \<or> c = CHR 0x09 \<or> c = CHR 0x0A \<or> c = CHR 0x0D"

text \<open>
  \<^verbatim>\<open>find_first_not_of\<close> gives \<^verbatim>\<open>npos\<close> on a blank string, and erasing \<^verbatim>\<open>npos\<close> characters empties
  it; \<^verbatim>\<open>find_last_not_of\<close> then gives \<^verbatim>\<open>npos\<close>, whose successor is 0.
\<close>

definition find_first_not_of_white :: "string \<Rightarrow> nat option" where
  "find_first_not_of_white s = find_index (\<lambda>c. \<not> is_white c) s"

definition find_last_not_of_white :: "string \<Rightarrow> nat option" where
  "find_last_not_of_white s =
     map_option (\<lambda>i. length s - Suc i) (find_index (\<lambda>c. \<not> is_white c) (rev s))"

definition trim :: "string \<Rightarrow> string" where
  "trim str =
     (let result = str;
          result = (case find_first_not_of_white result of
                      None \<Rightarrow> [] | Some notwhite \<Rightarrow> str_erase result 0 notwhite)
      in case find_last_not_of_white result of
           None \<Rightarrow> []
         | Some notwhite \<Rightarrow> take (notwhite + 1) result)"

section \<open>Parsing numbers\<close>

text \<open>
  \<^verbatim>\<open>strtol\<close> and \<^verbatim>\<open>strtoul\<close> of the C library: optional white space, an optional sign, an
  optional base prefix, then digits.  The result is the value and the rest of the string
  (what \<^verbatim>\<open>endp\<close> points to); with no digits the value is 0 and \<^verbatim>\<open>endp\<close> is the start.
\<close>

definition is_space :: "char \<Rightarrow> bool" where
  "is_space c \<longleftrightarrow> c = CHR '' '' \<or> (9 \<le> (of_char c :: nat) \<and> (of_char c :: nat) \<le> 13)"

definition digit_val :: "char \<Rightarrow> nat" where
  "digit_val c =
     (let n = (of_char c :: nat)
      in if 48 \<le> n \<and> n \<le> 57 then n - 48
         else if 97 \<le> n \<and> n \<le> 122 then n - 87
         else if 65 \<le> n \<and> n \<le> 90 then n - 55
         else 36)"

definition is_digit :: "nat \<Rightarrow> char \<Rightarrow> bool" where
  "is_digit base c \<longleftrightarrow> digit_val c < base"

definition digits_val :: "nat \<Rightarrow> string \<Rightarrow> nat" where
  "digits_val base ds = foldl (\<lambda>a c. a * base + digit_val c) 0 ds"

definition strip_sign :: "string \<Rightarrow> bool \<times> string" where
  "strip_sign s = (case s of [] \<Rightarrow> (False, s)
     | c # r \<Rightarrow> if c = CHR ''-'' then (True, r) else if c = CHR ''+'' then (False, r) else (False, s))"

definition has_hex_prefix :: "string \<Rightarrow> bool" where
  "has_hex_prefix s \<longleftrightarrow>
     (case s of a # b # c # _ \<Rightarrow> a = CHR ''0'' \<and> (b = CHR ''x'' \<or> b = CHR ''X'') \<and> is_digit 16 c
      | _ \<Rightarrow> False)"

definition strip_base :: "nat \<Rightarrow> string \<Rightarrow> nat \<times> string" where
  "strip_base base s =
     (if (base = 0 \<or> base = 16) \<and> has_hex_prefix s then (16, drop 2 s)
      else if base = 0 then (if s \<noteq> [] \<and> hd s = CHR ''0'' then 8 else 10, s)
      else (base, s))"

definition strto :: "nat \<Rightarrow> string \<Rightarrow> (bool \<times> nat) \<times> string" where
  "strto base s =
     (let (neg, s1) = strip_sign (dropWhile is_space s);
          (b, s2) = strip_base base s1;
          ds = takeWhile (is_digit b) s2
      in if ds = [] then ((False, 0), s)
         else ((neg, digits_val b ds), dropWhile (is_digit b) s2))"

text \<open>\<^verbatim>\<open>long\<close> has 64 bits; \<^verbatim>\<open>strtol\<close> clamps to its range, \<^verbatim>\<open>strtoul\<close> clamps the magnitude and
  negates modulo \<open>2 ^ 64\<close>.\<close>

definition strtol :: "nat \<Rightarrow> string \<Rightarrow> int \<times> string" where
  "strtol base s =
     (let ((neg, n), r) = strto base s;
          v = (if neg then - int n else int n)
      in (max (- (2 ^ 63)) (min (2 ^ 63 - 1) v), r))"

definition strtoul :: "nat \<Rightarrow> string \<Rightarrow> u64 \<times> string" where
  "strtoul base s =
     (let ((neg, n), r) = strto base s
      in (if n \<ge> 2 ^ 64 then - 1 else if neg then - word_of_nat n else word_of_nat n, r))"

definition strToInt :: "string \<Rightarrow> base_error + u32" where
  "strToInt s =
     (let (result, endp) = strtol 0 (c_str s)
      in if s \<noteq> [] \<and> endp = [] then Inr (word_of_int result)
         else Inl (InvalidArgument (''strToInt: Could not parse value: '' @ quoted s)))"

definition strToIntDef :: "string \<Rightarrow> u32 \<Rightarrow> u32" where
  "strToIntDef s dflt =
     (let (result, endp) = strtol 0 (c_str s)
      in if s \<noteq> [] \<and> endp = [] then word_of_int result else dflt)"

definition strToUInt :: "string \<Rightarrow> base_error + u32" where
  "strToUInt s =
     (let (result, endp) = strtoul 0 (c_str s)
      in if s \<noteq> [] \<and> endp = [] then Inr (ucast result)
         else Inl (InvalidArgument (''strToUInt: Could not parse value: '' @ quoted s)))"

definition strToUIntDef :: "string \<Rightarrow> u32 \<Rightarrow> u32" where
  "strToUIntDef s dflt =
     (let (result, endp) = strtoul 0 (c_str s)
      in if s \<noteq> [] \<and> endp = [] then ucast result else dflt)"

definition strToULongLong :: "string \<Rightarrow> base_error + u64" where
  "strToULongLong s =
     (let (result, endp) = strtoul 0 (c_str s)
      in if s \<noteq> [] \<and> endp = [] then Inr result
         else Inl (InvalidArgument (''strToUInt: Could not parse value: '' @ quoted s)))"

definition strToULongLongDef :: "string \<Rightarrow> u32 \<Rightarrow> u64" where
  "strToULongLongDef s dflt =
     (let (result, endp) = strtoul 0 (c_str s)
      in if s \<noteq> [] \<and> endp = [] then result else ucast dflt)"

section \<open>Printing numbers\<close>

definition digit_char :: "nat \<Rightarrow> char" where
  "digit_char d = char_of (if d < 10 then 48 + d else 87 + d)"

text \<open>The digits that \<^verbatim>\<open>printf\<close> writes for \<^verbatim>\<open>%llu\<close> (base 10) and \<^verbatim>\<open>%llx\<close> (base 16).\<close>

fun print_nat :: "nat \<Rightarrow> nat \<Rightarrow> string" where
  "print_nat base n =
     (if base < 2 \<or> n < base then [digit_char n]
      else print_nat base (n div base) @ [digit_char (n mod base)])"

declare print_nat.simps [simp del]

definition intToString :: "u64 \<Rightarrow> bool \<Rightarrow> string" where
  "intToString i hex =
     (if hex then ''0x'' @ print_nat 16 (unat i)
      else if sint i < 0 then ''-'' @ print_nat 10 (nat (- sint i))
      else print_nat 10 (nat (sint i)))"

definition uintToString :: "u64 \<Rightarrow> bool \<Rightarrow> string" where
  "uintToString i hex =
     (if hex then ''0x'' @ print_nat 16 (unat i) else print_nat 10 (unat i))"

text \<open>An \<^verbatim>\<open>int\<close> argument is promoted to \<^verbatim>\<open>long long\<close> before the call.\<close>

definition int32ToString :: "u32 \<Rightarrow> string" where
  "int32ToString i = intToString (scast i) False"

definition uint32ToString :: "u32 \<Rightarrow> string" where
  "uint32ToString i = uintToString (ucast i) False"

definition hexEncodeByteArray :: "u8 list \<Rightarrow> string" where
  "hexEncodeByteArray a =
     concat (map (\<lambda>b. let d = print_nat 16 (unat (b AND 0xff))
                      in replicate (2 - length d) (CHR ''0'') @ d) a)"

definition unsignedLongIntToHexString :: "u64 \<Rightarrow> string" where
  "unsignedLongIntToHexString v = print_nat 16 (unat v)"

definition unsignedLongIntToString :: "u64 \<Rightarrow> string" where
  "unsignedLongIntToString v = print_nat 10 (unat v)"

section \<open>Splitting and joining\<close>

text \<open>The loop shortens the string by one escape character in each round.\<close>

function findAndUnescape :: "string \<Rightarrow> char \<Rightarrow> nat \<Rightarrow> string \<times> nat option" where
  "findAndUnescape str c startPos =
     (case str_find c str startPos of
        None \<Rightarrow> (str, None)
      | Some pos \<Rightarrow>
          if pos > 0 \<and> str ! (pos - 1) = CHR 0x5C
          then findAndUnescape (str_erase str (pos - 1) 1) c pos
          else (str, Some pos))"
  by pat_completeness auto
termination
  by (relation "measure (\<lambda>(str, c, p). length str)")
     (auto simp: str_erase_def dest!: str_find_bounds)

declare findAndUnescape.simps [simp del]

text \<open>
  \<open>startField + off\<close> is the position \<^verbatim>\<open>skip\<close> of the source: the search for a delimiter never
  starts before the current field.
\<close>

function splitLoop :: "char \<Rightarrow> bool \<Rightarrow> string \<Rightarrow> nat \<Rightarrow> nat \<Rightarrow> string list" where
  "splitLoop delim trimEntries curString startField off =
     (if startField < length curString then
        (case str_find delim curString (startField + off) of
           Some delimPos \<Rightarrow>
             if delimPos > 0 \<and> curString ! (delimPos - 1) = CHR 0x5C then
               splitLoop delim trimEntries (str_erase curString (delimPos - 1) 1)
                 startField (delimPos - startField)
             else
               (let field = substr curString startField (delimPos - startField);
                    entry = (if trimEntries then trim field else field);
                    skip = delimPos + 1
                in entry # (if length curString - skip = 0 then [[]] else [])
                   @ splitLoop delim trimEntries curString skip 0)
         | None \<Rightarrow>
             (let field = drop startField curString
              in [if trimEntries then trim field else field]))
      else [])"
  by pat_completeness auto
termination
proof (relation "measure (\<lambda>(d, t, cur, sf, off). length cur - sf)", goal_cases)
  case 1
  show ?case by simp
next
  case (2 delim trimEntries curString startField off delimPos)
  then show ?case by (auto simp: str_erase_def dest!: str_find_bounds)
next
  case (3 delim trimEntries curString startField off delimPos)
  then show ?case by (auto dest!: str_find_bounds)
qed

declare splitLoop.simps [simp del]

definition splitString :: "string \<Rightarrow> char \<Rightarrow> bool \<Rightarrow> string list" where
  "splitString source delim trimEntries = splitLoop delim trimEntries source 0 0"

text \<open>The \<open>first\<close> flag of the source is the distinction of the first field.\<close>

fun joinRest :: "string list \<Rightarrow> string \<Rightarrow> string" where
  "joinRest [] delimiter = []"
| "joinRest (s # ss) delimiter = delimiter @ s @ joinRest ss delimiter"

fun join :: "string list \<Rightarrow> string \<Rightarrow> string" where
  "join [] delimiter = []"
| "join (s # ss) delimiter = s @ joinRest ss delimiter"

definition splitIntoKeyValue :: "string \<Rightarrow> string \<times> string" where
  "splitIntoKeyValue kv =
     (case str_find (CHR ''='') kv 0 of
        Some delimPos \<Rightarrow> (substr kv 0 delimPos, drop (delimPos + 1) kv)
      | None \<Rightarrow> ([], []))"

definition endsWith :: "string \<Rightarrow> string \<Rightarrow> bool" where
  "endsWith str search \<longleftrightarrow>
     length str \<ge> length search \<and>
     substr str (length str - length search) (length search) = search"

definition beginsWith :: "string \<Rightarrow> string \<Rightarrow> bool" where
  "beginsWith str search \<longleftrightarrow>
     length str \<ge> length search \<and> substr str 0 (length search) = search"

text \<open>\<^verbatim>\<open>carCdrPath\<close> returns the first path element and leaves the rest in its argument.\<close>

definition carCdrPath :: "string \<Rightarrow> string \<times> string" where
  "carCdrPath path =
     (case str_find (CHR ''/'') path 0 of
        Some slashPos \<Rightarrow> (substr path 0 slashPos, str_erase path 0 (slashPos + 1))
      | None \<Rightarrow> (path, []))"

definition addTrailingBackslash :: "string \<Rightarrow> string" where
  "addTrailingBackslash path =
     (if path \<noteq> [] \<and> path ! (length path - 1) \<noteq> CHR ''/'' then path @ ''/'' else path)"

function doIndent :: "int \<Rightarrow> string" where
  "doIndent indent = (if indent \<le> 0 then [] else ''    '' @ doIndent (indent - 1))"
  by pat_completeness auto
termination by (relation "measure nat") auto

declare doIndent.simps [simp del]

section \<open>Lemmas on searching\<close>

lemma str_find_None_iff: "str_find c s p = None \<longleftrightarrow> c \<notin> set (drop p s)"
  by (auto simp: str_find_def find_index_None_iff)

lemma str_find_SomeD:
  assumes "str_find c s p = Some i"
  shows "p \<le> i" "i < length s" "s ! i = c" "c \<notin> set (take (i - p) (drop p s))"
    "drop p s = take (i - p) (drop p s) @ c # drop (Suc i) s"
proof -
  from assms obtain k where k: "find_index (\<lambda>x. x = c) (drop p s) = Some k" "i = p + k"
    by (auto simp: str_find_def)
  show "p \<le> i" "i < length s" using str_find_bounds[OF assms] by auto
  with k find_index_Some_nth[OF k(1)] show nth: "s ! i = c" by simp
  show "c \<notin> set (take (i - p) (drop p s))"
    using find_index_takeWhile[OF k(1)] k(2) set_takeWhileD by fastforce
  have "drop i s = c # drop (Suc i) s" using \<open>i < length s\<close> nth by (metis Cons_nth_drop_Suc)
  moreover have "drop p s = take (i - p) (drop p s) @ drop i s"
    using \<open>p \<le> i\<close> by (metis append_take_drop_id drop_drop le_add_diff_inverse2)
  ultimately show "drop p s = take (i - p) (drop p s) @ c # drop (Suc i) s" by simp
qed

lemma str_find_skip:
  assumes "c \<notin> set us" "drop p s = us @ c # r"
  shows "str_find c s p = Some (p + length us)"
proof -
  have "find_index (\<lambda>x. x = c) us = None" using assms(1) by (auto simp: find_index_None_iff)
  then show ?thesis using assms(2) by (simp add: str_find_def find_index_append)
qed

section \<open>Printing and parsing integers\<close>

lemma of_char_digit_char: "d < 16 \<Longrightarrow> (of_char (digit_char d) :: nat) = (if d < 10 then 48 + d else 87 + d)"
  by (simp add: digit_char_def)

lemma digit_val_digit_char [simp]: "d < 16 \<Longrightarrow> digit_val (digit_char d) = d"
  by (simp add: digit_val_def of_char_digit_char Let_def)

lemma char_neq_of_char: "(of_char c :: nat) \<noteq> of_char d \<Longrightarrow> c \<noteq> d"
  by auto

lemma char_eq_of_char: "c = d \<longleftrightarrow> (of_char c :: nat) = of_char d"
  by (metis char_of_char)

lemma digit_char_props:
  assumes "d < 10"
  shows "\<not> is_space (digit_char d)" "digit_char d \<noteq> CHR ''-''" "digit_char d \<noteq> CHR ''+''"
    "digit_char d \<noteq> CHR ''x''" "digit_char d \<noteq> CHR ''X''" "digit_char d \<noteq> CHR 0x00"
    "is_digit 10 (digit_char d)" "(digit_char d = CHR ''0'') = (d = 0)"
proof -
  have *: "(of_char (digit_char d) :: nat) = 48 + d"
    using assms by (simp add: of_char_digit_char)
  show "digit_char d \<noteq> CHR ''-''" "digit_char d \<noteq> CHR ''+''"
    "digit_char d \<noteq> CHR ''x''" "digit_char d \<noteq> CHR ''X''" "digit_char d \<noteq> CHR 0x00"
    using assms by (rule_tac char_neq_of_char, simp add: *)+
  show "(digit_char d = CHR ''0'') = (d = 0)"
  proof
    assume "digit_char d = CHR ''0''"
    then have "(of_char (digit_char d) :: nat) = of_char (CHR ''0'')" by simp
    then show "d = 0" by (simp add: *)
  next
    assume "d = 0"
    then show "digit_char d = CHR ''0''" by (simp add: char_eq_of_char of_char_digit_char)
  qed
  then show "\<not> is_space (digit_char d)"
    using * assms char_neq_of_char[of "digit_char d" "CHR '' ''"] by (simp add: is_space_def)
  show "is_digit 10 (digit_char d)" using assms by (simp add: is_digit_def)
qed

lemma print10_small: "n < 10 \<Longrightarrow> print_nat 10 n = [digit_char n]"
  by (subst print_nat.simps) simp

lemma print10_step: "10 \<le> n \<Longrightarrow> print_nat 10 n = print_nat 10 (n div 10) @ [digit_char (n mod 10)]"
  by (subst print_nat.simps) simp

lemmas print10_eqs = print10_small print10_step

lemma decimal_induct [case_names small step]:
  fixes n :: nat
  assumes "\<And>n. n < 10 \<Longrightarrow> P n" "\<And>n. 10 \<le> n \<Longrightarrow> P (n div 10) \<Longrightarrow> P n"
  shows "P n"
proof (induction n rule: less_induct)
  case (less n)
  show ?case
  proof (cases "n < 10")
    case False
    then have "n div 10 < n" by simp
    with False less assms(2) show ?thesis by simp
  qed (rule assms(1))
qed

lemma print10_nonempty [simp]: "print_nat 10 n \<noteq> []"
  by (induction n rule: decimal_induct) (auto simp: print10_eqs)

lemma print10_digits: "c \<in> set (print_nat 10 n) \<Longrightarrow> \<exists>d < 10. c = digit_char d"
proof (induction n rule: decimal_induct)
  case (small n) then show ?case by (auto simp: print10_eqs)
next
  case (step n) then show ?case by (auto simp: print10_eqs intro: exI[of _ "n mod 10"])
qed

lemma print10_hd: "0 < n \<Longrightarrow> \<exists>d. 0 < d \<and> d < 10 \<and> hd (print_nat 10 n) = digit_char d"
  by (induction n rule: decimal_induct) (auto simp: print10_eqs)

lemma digits_val_append: "digits_val b (ds @ [c]) = digits_val b ds * b + digit_val c"
  by (simp add: digits_val_def)

lemma digits_val_print10: "digits_val 10 (print_nat 10 n) = n"
proof (induction n rule: decimal_induct)
  case (small n) then show ?case by (simp add: print10_eqs digits_val_def)
next
  case (step n) then show ?case by (simp add: print10_eqs digits_val_append)
qed

lemma print10_hd_digit: "\<exists>d < 10. hd (print_nat 10 n) = digit_char d"
  using print10_digits[OF hd_in_set[OF print10_nonempty]] .

lemma print10_is_digit: "\<forall>c \<in> set (print_nat 10 n). is_digit 10 c \<and> c \<noteq> CHR 0x00"
  using print10_digits digit_char_props(6,7) by metis

lemma strip_base_print10:
  "strip_base 0 (print_nat 10 n) = (if n = 0 then 8 else 10, print_nat 10 n)"
proof (cases "n = 0")
  case True
  then show ?thesis
    by (simp add: print10_eqs strip_base_def has_hex_prefix_def digit_char_props)
next
  case False
  then obtain d where d: "0 < d" "d < 10" "hd (print_nat 10 n) = digit_char d"
    using print10_hd by blast
  then have "hd (print_nat 10 n) \<noteq> CHR ''0''" by (simp add: digit_char_props)
  moreover then have "\<not> has_hex_prefix (print_nat 10 n)"
    by (auto simp: has_hex_prefix_def split: list.splits)
  ultimately show ?thesis using False by (simp add: strip_base_def)
qed

lemma strto_digits:
  "strip_sign (dropWhile is_space s) = (neg, print_nat 10 n) \<Longrightarrow>
     strto 0 s = ((neg, n), [])"
proof (cases "n = 0")
  case True
  assume "strip_sign (dropWhile is_space s) = (neg, print_nat 10 n)"
  then show ?thesis
    using True by (simp add: strto_def strip_base_print10)
     (simp add: print10_eqs is_digit_def digits_val_def)
next
  case False
  assume "strip_sign (dropWhile is_space s) = (neg, print_nat 10 n)"
  moreover have "takeWhile (is_digit 10) (print_nat 10 n) = print_nat 10 n"
    "dropWhile (is_digit 10) (print_nat 10 n) = []"
    using print10_is_digit[of n] by simp_all
  ultimately show ?thesis
    using False by (simp add: strto_def strip_base_print10 digits_val_print10)
qed

definition print_int :: "int \<Rightarrow> string" where
  "print_int i = (if i < 0 then ''-'' @ print_nat 10 (nat (- i)) else print_nat 10 (nat i))"

lemma strip_sign_print_int:
  "strip_sign (dropWhile is_space (print_int i)) = (i < 0, print_nat 10 (nat \<bar>i\<bar>))"
proof (cases "i < 0")
  case True
  then show ?thesis by (simp add: print_int_def is_space_def strip_sign_def)
next
  case False
  obtain d where d: "d < 10" "hd (print_nat 10 (nat i)) = digit_char d"
    using print10_hd_digit by blast
  then obtain cs where "print_nat 10 (nat i) = digit_char d # cs"
    by (metis print10_nonempty list.collapse)
  with False d show ?thesis
    by (simp add: print_int_def strip_sign_def digit_char_props)
qed

lemma strtol_print_int:
  assumes "- (2 ^ 63) \<le> i" "i < 2 ^ 63"
  shows "strtol 0 (print_int i) = (i, [])"
proof -
  have "strto 0 (print_int i) = ((i < 0, nat \<bar>i\<bar>), [])"
    by (rule strto_digits) (rule strip_sign_print_int)
  with assms show ?thesis by (auto simp: strtol_def)
qed

lemma c_str_print_int [simp]: "c_str (print_int i) = print_int i"
  using print10_is_digit by (intro c_str_id) (auto simp: print_int_def)

lemma int32ToString_small: "k < 2 ^ 31 \<Longrightarrow> int32ToString (word_of_nat k) = print_nat 10 k"
proof -
  assume k: "k < 2 ^ 31"
  have "sint (word_of_nat k :: u32) = int k"
    using k by (simp add: signed_of_nat signed_take_bit_int_eq_self)
  then have "sint (scast (word_of_nat k :: u32) :: u64) = int k"
    by (simp add: sint_up_scast is_up)
  then show ?thesis by (simp add: int32ToString_def intToString_def)
qed

lemma intToString_print_int: "intToString i False = print_int (sint i)"
  by (simp add: intToString_def print_int_def)

text \<open>
  Printing a 32 bit integer with \<^verbatim>\<open>intToString\<close> and parsing the text with \<^verbatim>\<open>strToInt\<close> gives the
  integer back, for every value (the smallest negative one included).
\<close>

theorem strToInt_int32ToString: "strToInt (int32ToString w) = Inr w"
proof -
  have rng: "- (2 ^ 63) \<le> sint w" "sint w < 2 ^ 63"
    using sint_ge[of w] sint_lt[of w] by simp_all
  have "int32ToString w = print_int (sint w)"
    by (simp add: int32ToString_def intToString_print_int sint_up_scast is_up)
  moreover have "print_int (sint w) \<noteq> []" by (simp add: print_int_def)
  ultimately show ?thesis
    using strtol_print_int[OF rng] by (simp add: strToInt_def)
qed


lemma print_nat_length: "2 \<le> b \<Longrightarrow> n < b ^ Suc k \<Longrightarrow> length (print_nat b n) \<le> Suc k"
proof (induction k arbitrary: n)
  case 0
  then show ?case by (subst print_nat.simps) simp
next
  case (Suc k)
  show ?case
  proof (cases "n < b")
    case True
    then show ?thesis by (subst print_nat.simps) simp
  next
    case False
    have "n div b < b ^ Suc k"
      using Suc.prems by (simp add: less_mult_imp_div_less mult.commute)
    with Suc.IH Suc.prems(1) False show ?thesis by (subst print_nat.simps) simp
  qed
qed

text \<open>
  The text that \<^verbatim>\<open>intToString\<close> and \<^verbatim>\<open>uintToString\<close> print is shorter than the stack buffer of 21
  bytes, so \<^verbatim>\<open>snprintf\<close> never truncates and the assertion never fails.
\<close>

theorem print_buffers_suffice:
  "length (intToString i hex) < 21 \<and> length (uintToString i hex) < 21"
proof -
  have u: "unat i < 2 ^ 64" using unsigned_less[of i, where ?'a = nat] by simp
  have s: "nat \<bar>sint i\<bar> \<le> 2 ^ 63" using sint_ge[of i] sint_lt[of i] by simp
  have "length (print_nat 10 (nat \<bar>sint i\<bar>)) \<le> Suc 18"
    by (rule print_nat_length) (use s in simp_all)
  moreover have "length (print_nat 10 (unat i)) \<le> Suc 19"
    by (rule print_nat_length) (use u in simp_all)
  moreover have "length (print_nat 16 (unat i)) \<le> Suc 15"
    by (rule print_nat_length) (use u in simp_all)
  ultimately show ?thesis by (auto simp: intToString_def uintToString_def)
qed


section \<open>Splitting inverts joining\<close>


lemma joinRest_eq_join: "ss \<noteq> [] \<Longrightarrow> joinRest ss [d] = d # join ss [d]"
  by (cases ss) auto

definition plain_field :: "char \<Rightarrow> string \<Rightarrow> bool" where
  "plain_field d f \<longleftrightarrow> d \<notin> set f \<and> CHR 0x5C \<notin> set f"

lemma trim_nil: "trim [] = []"
  by code_simp

lemma splitLoop_join:
  assumes "d \<noteq> CHR 0x5C" "\<forall>f \<in> set fs. plain_field d f" "fs \<noteq> []" "pre \<noteq> [] \<Longrightarrow> last pre = d"
  shows "splitLoop d t (pre @ join fs [d]) (length pre) 0 =
    (if fs = [[]] then [] else map (if t then trim else id) fs)"
  using assms
proof (induction fs arbitrary: pre)
  case Nil then show ?case by simp
next
  case (Cons f fs)
  show ?case
  proof (cases "fs = []")
    case True
    have "str_find d (pre @ f) (length pre) = None"
      using Cons.prems by (auto simp: plain_field_def str_find_None_iff)
    with True show ?thesis
      by (subst splitLoop.simps) auto
  next
    case False
    let ?cur = "pre @ f @ d # join fs [d]"
    have cur: "pre @ join (f # fs) [d] = ?cur"
      using False by (simp add: joinRest_eq_join)
    have find: "str_find d ?cur (length pre) = Some (length pre + length f)"
      using Cons.prems by (intro str_find_skip) (auto simp: plain_field_def)
    have esc: "\<not> (0 < length pre + length f \<and> ?cur ! (length pre + length f - 1) = CHR 0x5C)"
    proof (cases "f = []")
      case True
      then show ?thesis using Cons.prems(1,4) by (auto simp: nth_append last_conv_nth)
    next
      case ne: False
      then have "?cur ! (length pre + length f - 1) = last f"
        by (cases f rule: rev_cases) (simp_all add: nth_append)
      then show ?thesis using Cons.prems(2) last_in_set[OF ne] by (auto simp: plain_field_def)
    qed
    have fld: "substr ?cur (length pre) (length f) = f" by (simp add: substr_def)
    have IH: "splitLoop d t ((pre @ f @ [d]) @ join fs [d]) (length (pre @ f @ [d])) 0
       = (if fs = [[]] then [] else map (if t then trim else id) fs)"
      using Cons.prems False by (intro Cons.IH) auto
    have len: "(length ?cur - (length pre + length f + 1) = 0) = (join fs [d] = [])" by simp
    have jn: "join fs [d] = [] \<longleftrightarrow> fs = [[]]" using False by (cases fs; cases "tl fs") auto
    have "splitLoop d t ?cur (length pre) 0 =
        (if t then trim f else f) # (if length ?cur - (length pre + length f + 1) = 0 then [[]] else [])
          @ splitLoop d t ?cur (length pre + length f + 1) 0"
      using find esc fld by (subst splitLoop.simps) (auto simp: Let_def)
    then show ?thesis
      unfolding cur using IH False len jn trim_nil by auto
  qed
qed

text \<open>
  Joining fields with a delimiter and splitting the text again gives the fields back,
  trimmed if this is asked for, when no field contains the delimiter or a backslash; a single
  empty field is the one list that is lost.
\<close>

theorem splitString_join:
  assumes "d \<noteq> CHR 0x5C" "\<forall>f \<in> set fs. plain_field d f" "fs \<noteq> []" "fs \<noteq> [[]]"
  shows "splitString (join fs [d]) d t = map (if t then trim else id) fs"
  using splitLoop_join[of d fs "[]"] assms by (simp add: splitString_def)

theorem splitString_join_witness:
  "splitString (join [''ab'', [], ''c''] '','') (CHR '','') False = [''ab'', [], ''c'']"
  using splitString_join[of "CHR '',''" "[''ab'', [], ''c'']" False] by (simp add: plain_field_def)

end
