(* ===== verification/Base_Encoding.thy ===== *)
theory Base_Encoding
  imports Base_Strings
begin

text \<open>
  The encoders of \<^verbatim>\<open>src/src/base.cpp\<close>: substring replacement, URL decoding, truncation of
  UTF-8 text, XML escaping, the 16 bit CRC, and the string map \<^verbatim>\<open>Properties\<close>.
\<close>

section \<open>Replacing substrings\<close>

text \<open>\<^verbatim>\<open>s.find(a, pos)\<close> for a string \<open>a\<close>.\<close>

fun find_sub :: "string \<Rightarrow> string \<Rightarrow> nat option" where
  "find_sub a [] = (if a = [] then Some 0 else None)"
| "find_sub a (c # cs) =
     (if take (length a) (c # cs) = a then Some 0 else map_option Suc (find_sub a cs))"

definition str_find_sub :: "string \<Rightarrow> string \<Rightarrow> nat \<Rightarrow> nat option" where
  "str_find_sub a s pos =
     (if pos \<le> length s then map_option (\<lambda>i. pos + i) (find_sub a (drop pos s)) else None)"

lemma find_sub_bound: "find_sub a s = Some i \<Longrightarrow> i + length a \<le> length s"
proof (induction s arbitrary: i)
  case Nil
  then show ?case by (auto split: if_splits)
next
  case (Cons c cs)
  show ?case
  proof (cases "take (length a) (c # cs) = a")
    case True
    then have "length a \<le> length (c # cs)"
      by (metis length_take min.cobounded1)
    with True Cons.prems show ?thesis by simp
  next
    case False
    with Cons.prems obtain j where "find_sub a cs = Some j" "i = Suc j"
      by auto
    with Cons.IH show ?thesis by fastforce
  qed
qed

lemma str_find_sub_bound:
  "str_find_sub a s p = Some k \<Longrightarrow> p \<le> k \<and> k + length a \<le> length s"
  unfolding str_find_sub_def
  by (auto split: if_splits dest!: find_sub_bound)

text \<open>
  \<open>None\<close> is the loop that never ends: an empty search string is found again after every
  replacement.
\<close>

function replaceLoop :: "string \<Rightarrow> string \<Rightarrow> nat option \<Rightarrow> string \<Rightarrow> string option" where
  "replaceLoop a b None s = Some s"
| "replaceLoop a b (Some i) s =
     (if a = [] \<or> length s < i + length a then None
      else let s' = take i s @ b @ drop (i + length a) s
           in replaceLoop a b (str_find_sub a s' (i + length b)) s')"
  by pat_completeness auto
termination
proof (relation "measure (\<lambda>(a, b, io, s). case io of None \<Rightarrow> 0 | Some i \<Rightarrow> Suc (length s - i))",
    goal_cases)
  case 1
  show ?case by simp
next
  case (2 a b i s x)
  then have len: "length x = length s - length a + length b" and a: "a \<noteq> []"
    and fit: "i + length a \<le> length s" by auto
  show ?case
  proof (cases "str_find_sub a x (i + length b)")
    case None
    then show ?thesis by simp
  next
    case (Some k)
    with str_find_sub_bound[OF Some] len a fit show ?thesis
      by (cases a) auto
  qed
qed

definition replaceAll :: "string \<Rightarrow> string \<Rightarrow> string \<Rightarrow> string option" where
  "replaceAll s a b = replaceLoop a b (str_find_sub a s 0) s"

section \<open>URL decoding\<close>

definition plus_to_space :: "string \<Rightarrow> string" where
  "plus_to_space s = (case replaceAll s ''+'' '' '' of Some r \<Rightarrow> r | None \<Rightarrow> [])"

text \<open>One round per percent sign; \<open>None\<close> is the early return of the unchanged input.\<close>

function urlDecodeLoop :: "string \<Rightarrow> nat \<Rightarrow> string \<Rightarrow> string option" where
  "urlDecodeLoop inp lastPos result =
     (case str_find (CHR ''%'') inp lastPos of
        Some pos \<Rightarrow>
          if length inp > pos + 2 then
            (let result1 = (if lastPos \<noteq> pos
                            then result @ plus_to_space (substr inp lastPos (pos - lastPos))
                            else result);
                 hex = c_str (substr inp (pos + 1) 2);
                 (v, ptr) = strtol 16 hex
             in if ptr \<noteq> [] then None
                else urlDecodeLoop inp (pos + 3) (result1 @ [char_of v]))
          else Some (if lastPos < length inp
                     then result @ plus_to_space (drop lastPos inp) else result)
      | None \<Rightarrow> Some (if lastPos < length inp
                     then result @ plus_to_space (drop lastPos inp) else result))"
  by pat_completeness auto
termination
  by (relation "measure (\<lambda>(inp, lastPos, r). length inp - lastPos)")
     (auto dest!: str_find_bounds)

declare urlDecodeLoop.simps [simp del]

definition urlDecode :: "string \<Rightarrow> string" where
  "urlDecode inp = (case urlDecodeLoop inp 0 [] of Some r \<Rightarrow> r | None \<Rightarrow> inp)"

section \<open>Truncating UTF-8 text\<close>

definition byte_at :: "string \<Rightarrow> nat \<Rightarrow> u8" where
  "byte_at s i = word_of_nat (of_char (s ! i))"

text \<open>Walk back from the last byte to a byte that is not a continuation byte.\<close>

fun utf8_back :: "string \<Rightarrow> nat \<Rightarrow> nat" where
  "utf8_back buffer 0 = 0"
| "utf8_back buffer (Suc pos) =
     (if byte_at buffer (Suc pos) AND 0xC0 = 0x80 then utf8_back buffer pos else Suc pos)"

definition utf8_mask :: "nat \<Rightarrow> u8 \<times> u8" where
  "utf8_mask skippedBytes =
     (if skippedBytes = 6 then (0xFE, 0xFC)
      else if skippedBytes = 5 then (0xFC, 0xF8)
      else if skippedBytes = 4 then (0xF8, 0xF0)
      else if skippedBytes = 3 then (0xF0, 0xE0)
      else if skippedBytes = 2 then (0xE0, 0xC0)
      else (0xFF, 0xFF))"

text \<open>What is done with a full buffer that does not end in an ASCII character.\<close>

definition utf8_cut :: "string \<Rightarrow> string" where
  "utf8_cut buffer =
     (let len = length buffer;
          pos = utf8_back buffer (len - 1);
          skippedBytes = len - pos;
          (mask, compareTo) = utf8_mask skippedBytes
      in if mask \<noteq> 0xFF
         then if byte_at buffer pos AND mask \<noteq> compareTo then take pos buffer else buffer
         else take pos buffer)"

definition truncateUTF8String :: "string \<Rightarrow> nat \<Rightarrow> string" where
  "truncateUTF8String inp maxBytes =
     (if maxBytes = 0 then []
      else if maxBytes \<ge> length inp then inp
      else
        (let buffer = c_str (take maxBytes inp); len = length buffer
         in if len = maxBytes \<and> byte_at buffer (maxBytes - 1) AND 0x80 = 0x80
            then utf8_cut buffer else buffer))"

section \<open>XML escaping\<close>

definition is_control :: "char \<Rightarrow> bool" where
  "is_control c \<longleftrightarrow>
     (let n = (of_char c :: nat)
      in (n \<le> 0x1f \<and> n \<noteq> 0x09 \<and> n \<noteq> 0x0d \<and> n \<noteq> 0x0a) \<or> n = 0x7f)"

definition control_code :: "char \<Rightarrow> string" where
  "control_code c =
     (let ch = (of_char c :: nat)
      in ''&#'' @ [char_of (ch div 10 + 48), char_of (ch mod 10 + 48)] @ '';'')"

text \<open>
  The loop over the C string.  In the branch for control codes the pointer moves twice, so
  the character after a control code is skipped; when the control code is the last
  character the pointer passes the terminating NUL and the loop reads outside the string
  (\<open>None\<close>).
\<close>

fun xmlEscapeLoop :: "string \<Rightarrow> string option" where
  "xmlEscapeLoop [] = Some []"
| "xmlEscapeLoop (c # cs) =
     (if c = CHR ''<'' then map_option (\<lambda>r. ''&lt;'' @ r) (xmlEscapeLoop cs)
      else if c = CHR ''>'' then map_option (\<lambda>r. ''&gt;'' @ r) (xmlEscapeLoop cs)
      else if c = CHR ''&'' then map_option (\<lambda>r. ''&amp;'' @ r) (xmlEscapeLoop cs)
      else if c = CHR 0x22 then map_option (\<lambda>r. ''&quot;'' @ r) (xmlEscapeLoop cs)
      else if c = CHR 0x27 then map_option (\<lambda>r. ''&apos;'' @ r) (xmlEscapeLoop cs)
      else if is_control c then
        (case cs of
           [] \<Rightarrow> None
         | skipped # cs' \<Rightarrow> map_option (\<lambda>r. control_code c @ r) (xmlEscapeLoop cs'))
      else map_option (\<lambda>r. c # r) (xmlEscapeLoop cs))"

text \<open>
  \<open>valid\<close> stands for the conversion from UTF-8 to UTF-8 through \<^verbatim>\<open>iconv\<close>, which throws on
  invalid input.
\<close>

definition XMLStringEscape :: "(string \<Rightarrow> bool) \<Rightarrow> string \<Rightarrow> string option" where
  "XMLStringEscape valid str = (if valid str then xmlEscapeLoop (c_str str) else Some [])"

section \<open>The CRC\<close>

fun crc_rounds :: "nat \<Rightarrow> u16 \<Rightarrow> u16" where
  "crc_rounds 0 result = result"
| "crc_rounds (Suc i) result =
     crc_rounds i (drop_bit 1 result XOR (if result AND 1 \<noteq> 0 then 0x8408 else 0))"

definition update_crc :: "u16 \<Rightarrow> u8 \<Rightarrow> u16" where
  "update_crc crc c = crc_rounds 8 (crc XOR ucast c)"

definition crc16 :: "u8 list \<Rightarrow> u16" where
  "crc16 data = foldl update_crc 0 data"

section \<open>Properties\<close>

type_synonym properties = "string \<rightharpoonup> string"

definition prop_has :: "properties \<Rightarrow> string \<Rightarrow> bool" where
  "prop_has m key \<longleftrightarrow> m key \<noteq> None"

definition prop_set :: "properties \<Rightarrow> string \<Rightarrow> string \<Rightarrow> properties" where
  "prop_set m key val = m(key \<mapsto> val)"

definition prop_get :: "properties \<Rightarrow> string \<Rightarrow> base_error + string" where
  "prop_get m key =
     (if \<not> prop_has m key
      then Inl (RuntimeError (''could not find value for '' @ quoted key @ '' in properties''))
      else Inr (the (m key)))"

definition prop_get_default :: "properties \<Rightarrow> string \<Rightarrow> string \<Rightarrow> string" where
  "prop_get_default m key dflt = (if prop_has m key then the (m key) else dflt)"

definition prop_unset :: "properties \<Rightarrow> string \<Rightarrow> bool \<times> properties" where
  "prop_unset m key =
     (case m key of Some _ \<Rightarrow> (True, m(key := None)) | None \<Rightarrow> (False, m))"

section \<open>The CRC of a message with its CRC\<close>


lemma crc_rounds_zero: "take_bit i x = 0 \<Longrightarrow> crc_rounds i x = drop_bit i x"
proof (induction i arbitrary: x)
  case 0
  then show ?case by simp
next
  case (Suc i)
  have bits: "\<not> bit x k" if "k < Suc i" for k
    using Suc.prems that by (metis bit_0_eq bit_take_bit_iff bot_apply bot_bool_def)
  have "x AND 1 = 0"
    using bits[of 0] by (intro bit_word_eqI) (auto simp: bit_simps intro: gr0I)
  moreover have "take_bit i (drop_bit 1 x) = 0"
    using bits by (intro bit_word_eqI) (auto simp: bit_simps)
  ultimately show ?case
    using Suc.IH by (simp add: drop_bit_drop_bit)
qed

lemma update_crc_own_byte: "update_crc crc (ucast crc) = drop_bit 8 crc"
proof -
  have low: "take_bit 8 (crc XOR ucast (ucast crc :: u8)) = 0"
    by (rule bit_word_eqI) (auto simp: bit_simps)
  have "drop_bit 8 (crc XOR ucast (ucast crc :: u8)) = drop_bit 8 crc"
    by (rule bit_word_eqI) (auto simp: bit_simps)
  with crc_rounds_zero[OF low] show ?thesis by (simp add: update_crc_def)
qed

text \<open>
  A message followed by its own CRC, low byte first, has CRC 0.
\<close>

theorem crc16_residue_zero:
  "crc16 (data @ [ucast (crc16 data), ucast (drop_bit 8 (crc16 data))]) = 0"
proof -
  have "drop_bit 8 (drop_bit 8 (crc16 data)) = 0"
    by (rule bit_word_eqI) (auto simp: bit_simps)
  then show ?thesis
    by (simp add: crc16_def update_crc_own_byte)
qed


section \<open>URL decoding inverts percent encoding\<close>

lemma find_sub_single: "find_sub [a] s = find_index (\<lambda>x. x = a) s"
  by (induction s) auto

lemma str_find_sub_single: "p \<le> length s \<Longrightarrow> str_find_sub [a] s p = str_find a s p"
  by (simp add: str_find_sub_def str_find_def find_sub_single)

definition subst_char :: "char \<Rightarrow> char \<Rightarrow> string \<Rightarrow> string" where
  "subst_char a b s = map (\<lambda>c. if c = a then b else c) s"

lemma subst_char_notin: "a \<notin> set s \<Longrightarrow> subst_char a b s = s"
  by (induction s) (auto simp: subst_char_def)

lemma replaceLoop_single:
  "p \<le> length s \<Longrightarrow> io = str_find_sub [a] s p \<Longrightarrow>
     replaceLoop [a] [b] io s = Some (take p s @ subst_char a b (drop p s))"
proof (induction "[a]" "[b]" io s arbitrary: p rule: replaceLoop.induct)
  case (1 s)
  then have "a \<notin> set (drop p s)"
    by (simp add: str_find_sub_single flip: str_find_None_iff)
  then show ?case by (simp add: subst_char_notin)
next
  case (2 i s)
  then have f: "str_find a s p = Some i" by (simp add: str_find_sub_single)
  note i = str_find_SomeD[OF f]
  let ?s' = "take i s @ [b] @ drop (i + 1) s"
  have "replaceLoop [a] [b] (str_find_sub [a] ?s' (i + 1)) ?s'
      = Some (take (i + 1) ?s' @ subst_char a b (drop (i + 1) ?s'))"
    using "2.hyps"[of ?s' "i + 1"] i by simp
  moreover have "replaceLoop [a] [b] (Some i) s = replaceLoop [a] [b] (str_find_sub [a] ?s' (i + 1)) ?s'"
    using i by (simp add: Let_def)
  moreover have "take (i + 1) ?s' @ subst_char a b (drop (i + 1) ?s')
      = take p s @ subst_char a b (drop p s)"
  proof -
    have "take i s = take p s @ take (i - p) (drop p s)"
      using i(1) by (metis le_add_diff_inverse take_add)
    moreover have "subst_char a b (drop p s) =
        take (i - p) (drop p s) @ b # subst_char a b (drop (Suc i) s)"
      by (subst i(5)) (use subst_char_notin[OF i(4)] in \<open>simp add: subst_char_def\<close>)
    moreover have "take (i + 1) ?s' = take i s @ [b]" "drop (i + 1) ?s' = drop (Suc i) s"
      using i(2) by simp_all
    ultimately show ?thesis by simp
  qed
  ultimately show ?case by simp
qed

lemma replaceAll_single: "replaceAll s [a] [b] = Some (subst_char a b s)"
  using replaceLoop_single[of 0 s _ a b] by (simp add: replaceAll_def)

lemma plus_to_space_eq: "plus_to_space s = subst_char (CHR ''+'') (CHR '' '') s"
  by (simp add: plus_to_space_def replaceAll_single)

definition percent_encodes :: "(char \<Rightarrow> string) \<Rightarrow> bool" where
  "percent_encodes enc \<longleftrightarrow>
     (\<forall>c. (enc c = [c] \<and> c \<noteq> CHR ''%'' \<and> c \<noteq> CHR ''+'') \<or>
          (\<exists>h l. enc c = [CHR ''%'', h, l] \<and> is_digit 16 h \<and> is_digit 16 l \<and>
                 digit_val h * 16 + digit_val l = of_char c))"

lemma hex_digit_plain:
  assumes "is_digit 16 h"
  shows "\<not> is_space h" "h \<noteq> CHR ''-''" "h \<noteq> CHR ''+''" "h \<noteq> CHR 0x00"
proof -
  have *: "digit_val h < 16" using assms by (simp add: is_digit_def)
  show "h \<noteq> CHR ''-''" "h \<noteq> CHR ''+''" "h \<noteq> CHR 0x00"
    using * by (auto simp: digit_val_def)
  show "\<not> is_space h"
    using * by (auto simp: digit_val_def is_space_def Let_def split: if_splits)
qed

lemma strtol_hex2:
  assumes "is_digit 16 h" "is_digit 16 l"
  shows "strtol 16 [h, l] = (int (digit_val h * 16 + digit_val l), [])"
proof -
  have "digit_val h < 16" "digit_val l < 16" using assms by (auto simp: is_digit_def)
  then have "int (digit_val h * 16 + digit_val l) < 2 ^ 63" by simp
  moreover have "strto 16 [h, l] = ((False, digit_val h * 16 + digit_val l), [])"
    using assms hex_digit_plain[OF assms(1)]
    by (simp add: strto_def strip_sign_def strip_base_def has_hex_prefix_def digits_val_def)
  ultimately show ?thesis by (simp add: strtol_def)
qed

lemma urlDecodeLoop_encoded:
  assumes enc: "percent_encodes enc"
  shows "drop lastPos inp = us @ concat (map enc cs) \<Longrightarrow> lastPos \<le> length inp \<Longrightarrow>
     CHR ''%'' \<notin> set us \<Longrightarrow> CHR ''+'' \<notin> set us \<Longrightarrow>
     urlDecodeLoop inp lastPos result = Some (result @ us @ cs)"
proof (induction cs arbitrary: lastPos us result)
  case Nil
  then have "str_find (CHR ''%'') inp lastPos = None" by (simp add: str_find_None_iff)
  with Nil show ?case
    by (subst urlDecodeLoop.simps) (auto simp: plus_to_space_eq subst_char_notin)
next
  case (Cons c cs)
  consider (plain) "enc c = [c]" "c \<noteq> CHR ''%''" "c \<noteq> CHR ''+''"
    | (hex) h l where "enc c = [CHR ''%'', h, l]" "is_digit 16 h" "is_digit 16 l"
        "digit_val h * 16 + digit_val l = of_char c"
    using enc[unfolded percent_encodes_def, THEN spec, of c]
    by (elim disjE exE conjE) (rule that; assumption)+
  then show ?case
  proof cases
    case plain
    have "urlDecodeLoop inp lastPos result = Some (result @ (us @ [c]) @ cs)"
      using Cons.prems plain by (intro Cons.IH) auto
    then show ?thesis by simp
  next
    case hex
    let ?pos = "lastPos + length us"
    have inp: "drop lastPos inp = us @ CHR ''%'' # h # l # concat (map enc cs)"
      using Cons.prems hex by simp
    have find: "str_find (CHR ''%'') inp lastPos = Some ?pos"
      using Cons.prems(3) inp by (rule str_find_skip)
    have len: "length inp > ?pos + 2"
      using arg_cong[OF inp, of length] by simp
    have dpos: "drop (?pos + k) inp = drop k (CHR ''%'' # h # l # concat (map enc cs))" for k
    proof -
      have "drop (?pos + k) inp = drop k (drop (length us) (drop lastPos inp))"
        by (simp add: add.commute add.left_commute)
      then show ?thesis by (simp add: inp)
    qed
    have hx: "c_str (substr inp (?pos + 1) 2) = [h, l]"
      using dpos[of 1] hex_digit_plain(4)[OF hex(2)] hex_digit_plain(4)[OF hex(3)]
      by (simp add: substr_def c_str_def numeral_2_eq_2)
    have pre: "(if lastPos \<noteq> ?pos then result @ plus_to_space (substr inp lastPos (?pos - lastPos))
        else result) = result @ us"
      using Cons.prems(4) by (simp add: substr_def inp plus_to_space_eq subst_char_notin)
    have chr: "char_of (int (digit_val h * 16 + digit_val l)) = c"
      by (simp add: hex(4))
    have "urlDecodeLoop inp (?pos + 3) ((result @ us) @ [c]) = Some (((result @ us) @ [c]) @ [] @ cs)"
      using dpos[of 3] len by (intro Cons.IH) (auto simp: numeral_3_eq_3)
    moreover have "urlDecodeLoop inp lastPos result = urlDecodeLoop inp (?pos + 3) ((result @ us) @ [c])"
      by (subst urlDecodeLoop.simps)
        (simp only: find option.case len if_True Let_def pre hx strtol_hex2[OF hex(2,3)] chr prod.case
          not_True_eq_False simp_thms if_False)
    ultimately show ?thesis by simp
  qed
qed

text \<open>
  \<^verbatim>\<open>urlDecode\<close> inverts percent encoding: for every encoder that leaves a byte as it is or
  writes it as a percent sign and two hexadecimal digits (what \<^verbatim>\<open>curl_easy_escape\<close>, which \<^verbatim>\<open>urlEncode\<close>
  calls, does), decoding the encoded text gives the text back.
\<close>

theorem urlDecode_encoded:
  assumes "percent_encodes enc"
  shows "urlDecode (concat (map enc s)) = s"
  using urlDecodeLoop_encoded[OF assms, of 0 "concat (map enc s)" "[]" s "[]"]
  by (simp add: urlDecode_def)

theorem urlDecode_encoded_witness:
  "urlDecode (concat (map (\<lambda>c. [CHR ''%'', digit_char (of_char c div 16), digit_char (of_char c mod 16)])
     ''a+b%'')) = ''a+b%''"
proof (rule urlDecode_encoded)
  have "(of_char c :: nat) div 16 < 16" for c :: char
    using nat_of_char_less_256[of c] by (simp add: less_mult_imp_div_less)
  then show "percent_encodes (\<lambda>c. [CHR ''%'', digit_char (of_char c div 16), digit_char (of_char c mod 16)])"
    unfolding percent_encodes_def by (simp add: is_digit_def)
qed


section \<open>Truncation keeps whole characters\<close>

definition byte_of :: "char \<Rightarrow> u8" where "byte_of c = word_of_nat (of_char c)"

lemma byte_at_eq: "byte_at s i = byte_of (s ! i)" by (simp add: byte_at_def byte_of_def)

definition is_cont :: "char \<Rightarrow> bool" where "is_cont c \<longleftrightarrow> byte_of c AND 0xC0 = 0x80"

definition utf8_char :: "string \<Rightarrow> bool" where
  "utf8_char cs \<longleftrightarrow>
     (case cs of [] \<Rightarrow> False
      | c # rest \<Rightarrow>
          (if rest = [] then byte_of c AND 0x80 = 0
           else length cs \<le> 6 \<and> byte_of c AND fst (utf8_mask (length cs)) = snd (utf8_mask (length cs))
                \<and> (\<forall>x \<in> set rest. is_cont x)))"

lemma less8: "(k::nat) < 8 \<longleftrightarrow> k = 0 \<or> k = 1 \<or> k = 2 \<or> k = 3 \<or> k = 4 \<or> k = 5 \<or> k = 6 \<or> k = 7"
  by auto

lemma utf8_mask_bits:
  assumes "2 \<le> n" "n \<le> 6" "k < 8"
  shows "bit (fst (utf8_mask n)) k \<longleftrightarrow> 7 - n \<le> k" "bit (snd (utf8_mask n)) k \<longleftrightarrow> 7 - n < k"
proof -
  have n: "n = 2 \<or> n = 3 \<or> n = 4 \<or> n = 5 \<or> n = 6" using assms by auto
  show "bit (fst (utf8_mask n)) k \<longleftrightarrow> 7 - n \<le> k"
    using assms(3)[unfolded less8] n by (elim disjE) (simp_all add: utf8_mask_def)
  show "bit (snd (utf8_mask n)) k \<longleftrightarrow> 7 - n < k"
    using assms(3)[unfolded less8] n by (elim disjE) (simp_all add: utf8_mask_def)
qed

lemma utf8_start_bits:
  assumes "2 \<le> n" "n \<le> 6" "b AND fst (utf8_mask n) = snd (utf8_mask n)" "7 - n \<le> k" "k < 8"
  shows "bit (b::u8) k \<longleftrightarrow> 7 - n < k"
proof -
  have "bit (b AND fst (utf8_mask n)) k = bit (snd (utf8_mask n)) k" by (simp add: assms(3))
  then show ?thesis using utf8_mask_bits[OF assms(1,2,5)] assms(4) by (simp add: bit_and_iff)
qed

lemma utf8_start_other_length:
  assumes "2 \<le> j" "j < n" "n \<le> 6" "b AND fst (utf8_mask n) = snd (utf8_mask n)"
  shows "b AND fst (utf8_mask j) \<noteq> snd (utf8_mask j)"
proof
  assume "b AND fst (utf8_mask j) = snd (utf8_mask j)"
  then have "\<not> bit b (7 - j)"
    using utf8_start_bits[of j b "7 - j"] assms by simp
  moreover have "bit b (7 - j)"
    using utf8_start_bits[of n b "7 - j"] assms by simp
  ultimately show False by simp
qed

lemma and80: "(b::u8) AND 0x80 = (if bit b 7 then 0x80 else 0)"
  by (rule bit_word_eqI) (auto simp: bit_and_iff less8)

lemma utf8_start_not_cont:
  assumes "2 \<le> n" "n \<le> 6" "b AND fst (utf8_mask n) = snd (utf8_mask n)"
  shows "b AND 0xC0 \<noteq> 0x80" "b AND 0x80 = 0x80"
proof -
  have "bit b 7" "bit b 6"
    using utf8_start_bits[OF assms, of 7] utf8_start_bits[OF assms, of 6] assms by auto
  then show "b AND 0x80 = 0x80" by (simp add: and80)
  have "bit (b AND 0xC0) 6" using \<open>bit b 6\<close> by (simp add: bit_and_iff)
  moreover have "\<not> bit (0x80::u8) 6" by simp
  ultimately show "b AND 0xC0 \<noteq> 0x80" by metis
qed

lemma is_cont_bit7: "is_cont c \<Longrightarrow> byte_of c AND 0x80 = 0x80"
proof -
  assume "is_cont c"
  then have "bit (byte_of c AND 0xC0) 7 = bit (0x80::u8) 7" by (simp add: is_cont_def)
  then show ?thesis by (simp add: and80 bit_and_iff)
qed

text \<open>Walking back over a start byte followed by continuation bytes stops at the start byte.\<close>

lemma utf8_back_char:
  assumes "buffer = pre @ c # rest" "\<forall>x \<in> set rest. is_cont x" "\<not> is_cont c \<or> pre = []"
  shows "k \<le> length rest \<Longrightarrow> utf8_back buffer (length pre + k) = length pre"
proof (induction k)
  case 0
  show ?case
  proof (cases "length pre")
    case (Suc m)
    then have "pre \<noteq> []" by auto
    with assms Suc show ?thesis by (simp add: byte_at_eq is_cont_def nth_append)
  qed (use assms in simp)
next
  case (Suc k)
  then have "buffer ! (Suc (length pre + k)) = rest ! k" by (simp add: assms(1) nth_append)
  moreover have "is_cont (rest ! k)" using assms(2) Suc.prems by simp
  ultimately show ?case using Suc by (simp add: byte_at_eq is_cont_def)
qed

lemma utf8_mask_simps: "utf8_mask n = (fst (utf8_mask n), snd (utf8_mask n))" by simp

lemma utf8_mask_2to6: "2 \<le> n \<Longrightarrow> n \<le> 6 \<Longrightarrow> fst (utf8_mask n) \<noteq> 0xFF"
proof
  assume "2 \<le> n" "n \<le> 6" "fst (utf8_mask n) = 0xFF"
  then have "bit (fst (utf8_mask n)) 0" by simp
  with utf8_mask_bits(1)[OF \<open>2 \<le> n\<close> \<open>n \<le> 6\<close>, of 0] \<open>n \<le> 6\<close> show False by simp
qed

lemma utf8_cut_eq:
  "utf8_cut buffer =
     (let pos = utf8_back buffer (length buffer - 1); n = length buffer - pos
      in if 2 \<le> n \<and> n \<le> 6 \<and> byte_at buffer pos AND fst (utf8_mask n) = snd (utf8_mask n)
         then buffer else take pos buffer)"
proof -
  have "fst (utf8_mask n) = 0xFF" if "\<not> (2 \<le> n \<and> n \<le> 6)" for n
    using that by (auto simp: utf8_mask_def)
  then show ?thesis
    by (auto simp: utf8_cut_def Let_def case_prod_beta dest: utf8_mask_2to6)
qed

lemma utf8_cut_complete:
  assumes ch: "utf8_char ch" and buf: "buffer = pre @ ch" and hi: "byte_of (last ch) AND 0x80 = 0x80"
  shows "utf8_cut buffer = buffer"
proof -
  from ch obtain c rest where cr: "ch = c # rest" by (auto simp: utf8_char_def split: list.splits)
  with ch hi have ne: "rest \<noteq> []" by (auto simp: utf8_char_def)
  let ?n = "length ch"
  have n: "2 \<le> ?n" "?n \<le> 6" "byte_of c AND fst (utf8_mask ?n) = snd (utf8_mask ?n)"
    "\<forall>x \<in> set rest. is_cont x"
    using ch ne cr by (auto simp: utf8_char_def Suc_le_eq)
  have "utf8_back buffer (length pre + length rest) = length pre"
    using buf cr n(4) utf8_start_not_cont(1)[OF n(1-3)]
    by (intro utf8_back_char[where c = c and rest = rest]) (auto simp: is_cont_def)
  moreover have "length buffer - 1 = length pre + length rest" "byte_at buffer (length pre) = byte_of c"
    by (simp_all add: buf cr byte_at_eq)
  moreover have "length buffer - length pre = ?n" by (simp add: buf)
  ultimately show ?thesis using n by (simp add: utf8_cut_eq Let_def)
qed

lemma utf8_cut_partial:
  assumes ch: "utf8_char (part @ rest)" and ne: "part \<noteq> []" "rest \<noteq> []" and buf: "buffer = pre @ part"
  shows "utf8_cut buffer = pre" "byte_of (last part) AND 0x80 = 0x80"
proof -
  obtain c ps where cr: "part = c # ps" using ne by (cases part) auto
  let ?n = "length (part @ rest)" and ?j = "length part"
  have n: "2 \<le> ?n" "?n \<le> 6" "byte_of c AND fst (utf8_mask ?n) = snd (utf8_mask ?n)"
    "\<forall>x \<in> set ps. is_cont x"
    using ch ne cr by (auto simp: utf8_char_def Suc_le_eq)
  have "utf8_back buffer (length pre + length ps) = length pre"
    using buf cr n(4) utf8_start_not_cont(1)[OF n(1-3)]
    by (intro utf8_back_char[where c = c and rest = ps]) (auto simp: is_cont_def)
  moreover have "length buffer - 1 = length pre + length ps" "byte_at buffer (length pre) = byte_of c"
    by (simp_all add: buf cr byte_at_eq)
  moreover have "length buffer - length pre = ?j" "take (length pre) buffer = pre" by (simp_all add: buf)
  moreover have "\<not> (2 \<le> ?j \<and> byte_of c AND fst (utf8_mask ?j) = snd (utf8_mask ?j))"
    using utf8_start_other_length[of ?j ?n "byte_of c"] n ne by auto
  ultimately show "utf8_cut buffer = pre" by (auto simp: utf8_cut_eq Let_def)
  show "byte_of (last part) AND 0x80 = 0x80"
    using n(4) is_cont_bit7 utf8_start_not_cont(2)[OF n(1-3)] last_in_set[of ps]
    by (cases "ps = []") (auto simp: cr)
qed

lemma take_concat_chars:
  assumes "\<forall>c \<in> set cs. c \<noteq> []" "n < length (concat cs)"
  shows "\<exists>k part rest. k < length cs \<and> take n (concat cs) = concat (take k cs) @ part \<and>
           cs ! k = part @ rest \<and> rest \<noteq> []"
  using assms
proof (induction cs arbitrary: n)
  case (Cons c cs)
  show ?case
  proof (cases "n < length c")
    case True
    then show ?thesis
      by (intro exI[of _ 0] exI[of _ "take n c"] exI[of _ "drop n c"]) simp
  next
    case False
    then have "n - length c < length (concat cs)" using Cons.prems by auto
    with Cons obtain k part rest where "k < length cs"
      "take (n - length c) (concat cs) = concat (take k cs) @ part" "cs ! k = part @ rest" "rest \<noteq> []"
      by (meson list.set_intros(2))
    with False show ?thesis
      by (intro exI[of _ "Suc k"] exI[of _ part] exI[of _ rest]) simp
  qed
qed simp

lemma truncate_at_char:
  assumes chars: "\<forall>c \<in> set cs. utf8_char c" and pos: "0 < n" "n < length (concat cs)"
    and k: "k < length cs" "cs ! k = part @ rest" "rest \<noteq> []"
    and buf: "c_str (take n (concat cs)) = concat (take k cs) @ part"
    and len: "length (concat (take k cs)) + length part = n"
  shows "truncateUTF8String (concat cs) n = concat (take k cs)"
proof -
  have trunc: "truncateUTF8String (concat cs) n =
      (if byte_of (last (concat (take k cs) @ part)) AND 0x80 = 0x80
       then utf8_cut (concat (take k cs) @ part) else concat (take k cs) @ part)"
    using pos len by (auto simp: truncateUTF8String_def buf byte_at_eq last_conv_nth Let_def)
  show ?thesis
  proof (cases "part = []")
    case True
    with len pos obtain m where m: "k = Suc m" by (cases k) auto
    then have split: "concat (take k cs) = concat (take m cs) @ cs ! m" and ch: "utf8_char (cs ! m)"
      using k(1) chars by (auto simp: take_Suc_conv_app_nth)
    have "last (concat (take k cs)) = last (cs ! m)"
      using ch split by (cases "cs ! m") (simp_all add: utf8_char_def)
    then show ?thesis using trunc True utf8_cut_complete[OF ch split] by auto
  next
    case False
    have ch: "utf8_char (part @ rest)" using k chars by (metis nth_mem)
    show ?thesis using trunc False utf8_cut_partial[OF ch False k(3) refl] by simp
  qed
qed

text \<open>
  Truncation of valid UTF-8 text never cuts a character: the result is the longest
  sequence of whole characters that fits the byte limit.
\<close>

theorem truncateUTF8String_chars:
  assumes chars: "\<forall>c \<in> set cs. utf8_char c" and nul: "CHR 0x00 \<notin> set (concat cs)"
  shows "\<exists>k. truncateUTF8String (concat cs) n = concat (take k cs) \<and>
           length (concat (take k cs)) \<le> n \<and>
           (k < length cs \<longrightarrow> n < length (concat (take (Suc k) cs)))"
proof (cases "n < length (concat cs)")
  case False
  then have "truncateUTF8String (concat cs) n = concat cs"
    by (auto simp: truncateUTF8String_def)
  with False show ?thesis by (intro exI[of _ "length cs"]) simp
next
  case True
  have "\<forall>c \<in> set cs. c \<noteq> []" using chars by (auto simp: utf8_char_def)
  then obtain k part rest where k: "k < length cs" "take n (concat cs) = concat (take k cs) @ part"
    "cs ! k = part @ rest" "rest \<noteq> []" using take_concat_chars True by blast
  have len: "length (concat (take k cs)) + length part = n"
    using k(2) True by (metis length_append length_take min.absorb4)
  have nxt: "n < length (concat (take (Suc k) cs))"
    using k(1,3,4) by (simp add: take_Suc_conv_app_nth len[symmetric])
  have buf: "c_str (take n (concat cs)) = concat (take k cs) @ part"
    using c_str_id[of "take n (concat cs)"] nul in_set_takeD[of "CHR 0x00" n "concat cs"] k(2)
    by metis
  have "truncateUTF8String (concat cs) n = concat (take k cs)"
  proof (cases "n = 0")
    case True
    with len show ?thesis by (simp add: truncateUTF8String_def)
  next
    case False
    then show ?thesis using truncate_at_char[OF chars _ True k(1,3,4) buf len] by simp
  qed
  with len nxt show ?thesis by (intro exI[of _ k]) simp
qed

theorem truncateUTF8String_chars_witness:
  "\<exists>k. truncateUTF8String (concat [''a'', [CHR 0xC3, CHR 0xA9], ''b'']) 2
         = concat (take k [''a'', [CHR 0xC3, CHR 0xA9], ''b'']) \<and>
       length (concat (take k [''a'', [CHR 0xC3, CHR 0xA9], ''b''])) \<le> 2 \<and>
       (k < length [''a'', [CHR 0xC3, CHR 0xA9], ''b''] \<longrightarrow>
          2 < length (concat (take (Suc k) [''a'', [CHR 0xC3, CHR 0xA9], ''b''])))"
  by (rule truncateUTF8String_chars)
     (simp_all add: utf8_char_def byte_of_def is_cont_def utf8_mask_def)


section \<open>XML escaping\<close>

definition xml_entity :: "char \<Rightarrow> string" where
  "xml_entity c =
     (if c = CHR ''<'' then ''&lt;'' else if c = CHR ''>'' then ''&gt;''
      else if c = CHR ''&'' then ''&amp;'' else if c = CHR 0x22 then ''&quot;''
      else if c = CHR 0x27 then ''&apos;'' else [c])"

lemma xmlEscapeLoop_plain:
  "\<forall>c \<in> set s. \<not> is_control c \<Longrightarrow> xmlEscapeLoop s = Some (concat (map xml_entity s))"
  by (induction s) (auto simp: xml_entity_def)

definition entities :: "(string \<times> char) list" where
  "entities = [(''&lt;'', CHR ''<''), (''&gt;'', CHR ''>''), (''&amp;'', CHR ''&''),
     (''&quot;'', CHR 0x22), (''&apos;'', CHR 0x27)]"

function xml_decode :: "string \<Rightarrow> string" where
  "xml_decode [] = []"
| "xml_decode (c # cs) =
     (case find (\<lambda>(e, x). take (length e) (c # cs) = e) entities of
        Some (e, x) \<Rightarrow> x # xml_decode (drop (length e - 1) cs)
      | None \<Rightarrow> c # xml_decode cs)"
  by pat_completeness auto
termination by (relation "measure length") auto

lemma xml_decode_entity: "xml_decode (xml_entity c @ r) = c # xml_decode r"
proof (cases "c \<in> set (map snd entities)")
  case True
  then have "c = CHR ''<'' \<or> c = CHR ''>'' \<or> c = CHR ''&'' \<or> c = CHR 0x22 \<or> c = CHR 0x27"
    by (simp add: entities_def)
  then show ?thesis by (elim disjE) (simp_all add: xml_entity_def entities_def)
next
  case False
  then have "c \<noteq> CHR ''<''" "c \<noteq> CHR ''>''" "c \<noteq> CHR ''&''" "c \<noteq> CHR 0x22" "c \<noteq> CHR 0x27"
    by (simp_all add: entities_def)
  then show ?thesis by (simp add: xml_entity_def entities_def)
qed

lemma xml_decode_escaped: "xml_decode (concat (map xml_entity s)) = s"
  by (induction s) (simp_all add: xml_decode_entity)

text \<open>
  Escaping text without control codes succeeds, leaves none of the characters that end an
  XML text or attribute, and replacing the five entities gives the text back.
\<close>

theorem XMLStringEscape_roundtrip:
  assumes "valid s" "\<forall>c \<in> set s. \<not> is_control c"
  shows "\<exists>r. XMLStringEscape valid s = Some r \<and> xml_decode r = s \<and>
     CHR ''<'' \<notin> set r \<and> CHR ''>'' \<notin> set r \<and> CHR 0x22 \<notin> set r \<and> CHR 0x27 \<notin> set r"
proof -
  have "is_control (CHR 0x00)" by (simp add: is_control_def)
  then have "c_str s = s" using assms(2) by (intro c_str_id) blast
  then have "XMLStringEscape valid s = Some (concat (map xml_entity s))"
    using assms by (simp add: XMLStringEscape_def xmlEscapeLoop_plain)
  moreover have "CHR ''<'' \<notin> set (xml_entity c) \<and> CHR ''>'' \<notin> set (xml_entity c)
      \<and> CHR 0x22 \<notin> set (xml_entity c) \<and> CHR 0x27 \<notin> set (xml_entity c)" for c
    by (simp add: xml_entity_def)
  ultimately show ?thesis using xml_decode_escaped[of s] by auto
qed

theorem XMLStringEscape_roundtrip_witness:
  "\<exists>r. XMLStringEscape (\<lambda>_. True) ''a<b'' = Some r \<and> xml_decode r = ''a<b'' \<and>
     CHR ''<'' \<notin> set r \<and> CHR ''>'' \<notin> set r \<and> CHR 0x22 \<notin> set r \<and> CHR 0x27 \<notin> set r"
  by (rule XMLStringEscape_roundtrip) (simp_all add: is_control_def)


text \<open>
  A control code makes the escaper lose data: it skips the character that follows, reads
  past the end of the string when nothing follows, and writes a bare less-than sign for DEL.
\<close>

theorem xmlEscape_control_defect:
  assumes "is_control c"
  shows "xmlEscapeLoop [c] = None \<and> xmlEscapeLoop (c # x # s) = xmlEscapeLoop (c # y # s)
    \<and> control_code (CHR 0x7F) = ''&#<7;''"
proof -
  have "c \<noteq> CHR ''<''" "c \<noteq> CHR ''>''" "c \<noteq> CHR ''&''" "c \<noteq> CHR 0x22" "c \<noteq> CHR 0x27"
    using assms by (auto simp: is_control_def)
  moreover have "control_code (CHR 0x7F) = ''&#<7;''"
    by (simp add: control_code_def char_eq_of_char)
  ultimately show ?thesis using assms by simp
qed

theorem xmlEscape_control_defect_witness:
  "xmlEscapeLoop [CHR 0x7F] = None \<and>
     xmlEscapeLoop (CHR 0x7F # CHR ''a'' # ''b'') = xmlEscapeLoop (CHR 0x7F # CHR ''z'' # ''b'') \<and>
     control_code (CHR 0x7F) = ''&#<7;''"
  by (rule xmlEscape_control_defect) (simp add: is_control_def)

end
