(* ===== verification/Ds485_Types.thy ===== *)
theory Ds485_Types
  imports Base_Strings
begin

text \<open>
  Device identifiers, \<^verbatim>\<open>src/src/ds485types.cpp\<close>: the 17 bytes of a dSUID, the 12 bytes of the
  older dSID, and the texts of both.  The functions of libdsuid that the file wraps are not part of
  the repository; they are the fields of the record \<open>dsuidlib\<close>, where \<open>None\<close> is a return code
  other than \<^verbatim>\<open>DSUID_RC_OK\<close>.
\<close>

type_synonym dsuid = "u8 list"
type_synonym dsid = "u8 list"

record dsuidlib =
  lib_from_string :: "string \<Rightarrow> dsuid option"
  lib_from_dsid :: "dsid \<Rightarrow> dsuid"
  lib_to_dsid :: "dsuid \<Rightarrow> dsid option"
  lib_serial_number :: "dsuid \<Rightarrow> u32 option"
  lib_next_dsuid :: "dsuid \<Rightarrow> dsuid option"
  lib_null :: dsuid

section \<open>Operations\<close>

text \<open>\<^verbatim>\<open>std::hex << std::setw(2) << std::setfill('0')\<close> of one byte.\<close>

definition hexByte :: "u8 \<Rightarrow> string" where
  "hexByte b = (let d = print_nat 16 (unat b) in replicate (2 - length d) (CHR ''0'') @ d)"

definition dsuid2str :: "dsuid \<Rightarrow> string" where
  "dsuid2str dsuid = concat (map hexByte dsuid)"

definition str2dsuid :: "(string \<Rightarrow> dsuid option) \<Rightarrow> string \<Rightarrow> base_error + dsuid" where
  "str2dsuid from_string s =
     (case from_string (c_str s) of
        None \<Rightarrow> Inl (RuntimeError ''can not convert from string, invalid dSUID'')
      | Some d \<Rightarrow> Inr d)"

text \<open>The loop of \<^verbatim>\<open>str2dsid\<close>, which reads two characters in each round.\<close>

fun readBytes :: "string \<Rightarrow> u8 list" where
  "readBytes (a # b # s) = word_of_int (fst (strtol 16 (c_str [a, b]))) # readBytes s"
| "readBytes _ = []"

definition str2dsid :: "string \<Rightarrow> base_error + dsid" where
  "str2dsid s =
     (if length s \<noteq> 24 then Inl (RuntimeError ''can not convert from string, invalid dSID'')
      else Inr (readBytes s))"

definition dsid2str :: "dsid \<Rightarrow> string" where
  "dsid2str d = concat (map hexByte d)"

definition dsidOrDsuid2dsuid :: "dsuidlib \<Rightarrow> string \<Rightarrow> string \<Rightarrow> base_error + dsuid" where
  "dsidOrDsuid2dsuid L dsidStr dsuidStr =
     (if dsuidStr = [] then
        (case str2dsid dsidStr of Inl e \<Rightarrow> Inl e | Inr d \<Rightarrow> Inr (lib_from_dsid L d))
      else str2dsuid (lib_from_string L) dsuidStr)"

definition dsuid2serial :: "dsuidlib \<Rightarrow> dsuid \<Rightarrow> base_error + u32" where
  "dsuid2serial L d =
     (case lib_serial_number L d of
        None \<Rightarrow> Inl (RuntimeError (''could not extract serial number from dSUID'' @ dsuid2str d))
      | Some serial \<Rightarrow> Inr serial)"

definition IsEvenDsuid :: "dsuidlib \<Rightarrow> dsuid \<Rightarrow> base_error + bool" where
  "IsEvenDsuid L d =
     (case lib_serial_number L d of
        None \<Rightarrow> Inl (RuntimeError (''could not extract serial number from dSUID'' @ dsuid2str d))
      | Some serial \<Rightarrow> Inr (serial mod 2 = 0))"

text \<open>The last three return the flag and the value of the out parameter.\<close>

definition dsuid_get_next_dsuid :: "dsuidlib \<Rightarrow> dsuid \<Rightarrow> bool \<times> dsuid" where
  "dsuid_get_next_dsuid L d =
     (case lib_next_dsuid L d of None \<Rightarrow> (False, lib_null L) | Some n \<Rightarrow> (True, n))"

definition dsuid_to_dsid :: "dsuidlib \<Rightarrow> dsuid \<Rightarrow> bool \<times> dsid" where
  "dsuid_to_dsid L d =
     (case lib_to_dsid L d of None \<Rightarrow> (False, replicate 12 0) | Some x \<Rightarrow> (True, x))"

definition dsuid_from_dsid :: "dsuidlib \<Rightarrow> dsid \<Rightarrow> dsuid" where
  "dsuid_from_dsid L d = lib_from_dsid L d"

section \<open>Lemmas\<close>

lemma print16_small: "n < 16 \<Longrightarrow> print_nat 16 n = [digit_char n]"
  by (subst print_nat.simps) simp

lemma print16_two: "16 \<le> n \<Longrightarrow> n < 256 \<Longrightarrow> print_nat 16 n = [digit_char (n div 16), digit_char (n mod 16)]"
  by (subst print_nat.simps) (simp add: print16_small)

lemma hexByte_digits: "hexByte b = [digit_char (unat b div 16), digit_char (unat b mod 16)]"
proof -
  have u: "unat b < 256" using unsigned_less [of b] by simp
  have z: "digit_char 0 = CHR ''0''" by code_simp
  show ?thesis
  proof (cases "unat b < 16")
    case True
    then show ?thesis by (simp add: hexByte_def print16_small z numeral_2_eq_2)
  next
    case False
    with u show ?thesis by (simp add: hexByte_def print16_two)
  qed
qed

lemma hexByte_length [simp]: "length (hexByte b) = 2"
  by (simp add: hexByte_digits)

lemma dsid2str_length: "length (dsid2str d) = 2 * length d"
  unfolding dsid2str_def by (induction d) simp_all

text \<open>One hexadecimal digit: what the character is and what \<^verbatim>\<open>strtol\<close> makes of it.\<close>

lemma hex_digits:
  assumes "n < 16"
  shows "digit_val (digit_char n) = n \<and> \<not> is_space (digit_char n) \<and> digit_char n \<noteq> CHR ''-'' \<and>
    digit_char n \<noteq> CHR ''+'' \<and> digit_char n \<noteq> CHR 0x00"
  using assms by (simp add: char_eq_of_char of_char_digit_char is_space_def)

lemma strtol_two_digits:
  assumes "i < 16" and "j < 16"
  shows "fst (strtol 16 (c_str [digit_char i, digit_char j])) = int (16 * i + j)"
proof -
  note p = hex_digits [OF assms(1)] hex_digits [OF assms(2)]
  have "c_str [digit_char i, digit_char j] = [digit_char i, digit_char j]" using p by (simp add: c_str_def)
  moreover have "digits_val 16 [digit_char i, digit_char j] = 16 * i + j"
    using p by (simp add: digits_val_def)
  ultimately show ?thesis using p assms
    by (simp add: strtol_def strto_def strip_sign_def strip_base_def has_hex_prefix_def is_digit_def)
qed

lemma readBytes_hex: "readBytes (concat (map hexByte d)) = d"
proof (induction d)
  case (Cons b d)
  have u: "unat b < 256" using unsigned_less [of b] by simp
  then have "fst (strtol 16 (c_str [digit_char (unat b div 16), digit_char (unat b mod 16)]))
      = int (16 * (unat b div 16) + unat b mod 16)"
    by (intro strtol_two_digits) auto
  also have "\<dots> = int (unat b)" by simp
  finally have "word_of_int (fst (strtol 16 (c_str [digit_char (unat b div 16), digit_char (unat b mod 16)]))) = b"
    by simp
  then show ?case using Cons by (simp add: hexByte_digits)
qed simp

lemma readBytes_length: "length (readBytes s) = length s div 2"
  by (induction s rule: readBytes.induct) simp_all

section \<open>Properties\<close>

text \<open>
  A dSID of 12 bytes is printed as 24 characters which are read back as the same bytes.  Conversely
  the reader looks at nothing but the length: every text of 24 characters is accepted and gives 12
  bytes, also one with no hexadecimal digit in it, and every other text is refused.
\<close>

theorem dsid_roundtrip:
  "(length d = 12 \<longrightarrow> str2dsid (dsid2str d) = Inr d) \<and>
   (if length s = 24 then \<exists>x. str2dsid s = Inr x \<and> length x = 12
    else str2dsid s = Inl (RuntimeError ''can not convert from string, invalid dSID''))"
  by (simp add: str2dsid_def dsid2str_length readBytes_length) (simp add: dsid2str_def readBytes_hex)

theorem dsid_roundtrip_witness:
  "str2dsid (dsid2str (map word_of_nat [0x35, 4, 0x17, 0x5f, 0xe0, 0, 0, 0, 0, 0, 0xab, 0xcd]))
     = Inr (map word_of_nat [0x35, 4, 0x17, 0x5f, 0xe0, 0, 0, 0, 0, 0, 0xab, 0xcd])"
  using dsid_roundtrip [of "map word_of_nat [0x35, 4, 0x17, 0x5f, 0xe0, 0, 0, 0, 0, 0, 0xab, 0xcd]" "[]"]
  by simp

end
