(* ===== verification/Model_Const.thy ===== *)
theory Model_Const
  imports Base_Strings
begin

text \<open>
  The constants and enumerations of \<^verbatim>\<open>src/src/model/modelconst.h\<close> and the functions over them
  in \<^verbatim>\<open>src/src/model/modelconst.cpp\<close>: names of status fields, heating modes and model
  features, colours of application types, and the classes of group numbers.

  A scoped enumeration of C++ can hold any value of its underlying type (the values arrive
  from the bus and are cast), so each datatype has, beside the declared enumerators, a
  constructor for the other values; the code after a \<^verbatim>\<open>switch\<close> is the branch it takes.
\<close>

section \<open>Scene numbers\<close>

definition SceneOff :: nat where
  "SceneOff = 0x00"

definition SceneOffA1 :: nat where
  "SceneOffA1 = 0x01"

definition SceneOffA2 :: nat where
  "SceneOffA2 = 0x02"

definition SceneOffA3 :: nat where
  "SceneOffA3 = 0x03"

definition SceneOffA4 :: nat where
  "SceneOffA4 = 0x04"

definition Scene1 :: nat where
  "Scene1 = 0x05"

definition SceneA11 :: nat where
  "SceneA11 = 0x06"

definition SceneA21 :: nat where
  "SceneA21 = 0x07"

definition SceneA31 :: nat where
  "SceneA31 = 0x08"

definition SceneA41 :: nat where
  "SceneA41 = 0x09"

definition SceneDimArea :: nat where
  "SceneDimArea = 0x0A"

definition SceneDec :: nat where
  "SceneDec = 0x0B"

definition SceneInc :: nat where
  "SceneInc = 0x0C"

definition SceneMin :: nat where
  "SceneMin = 0x0D"

definition SceneMax :: nat where
  "SceneMax = 0x0E"

definition SceneStop :: nat where
  "SceneStop = 0x0F"

definition Scene2 :: nat where
  "Scene2 = 0x11"

definition Scene3 :: nat where
  "Scene3 = 0x12"

definition Scene4 :: nat where
  "Scene4 = 0x13"

definition Scene12 :: nat where
  "Scene12 = 0x14"

definition Scene13 :: nat where
  "Scene13 = 0x15"

definition Scene14 :: nat where
  "Scene14 = 0x16"

definition Scene22 :: nat where
  "Scene22 = 0x17"

definition Scene23 :: nat where
  "Scene23 = 0x18"

definition Scene24 :: nat where
  "Scene24 = 0x19"

definition Scene32 :: nat where
  "Scene32 = 0x1A"

definition Scene33 :: nat where
  "Scene33 = 0x1B"

definition Scene34 :: nat where
  "Scene34 = 0x1C"

definition Scene42 :: nat where
  "Scene42 = 0x1D"

definition Scene43 :: nat where
  "Scene43 = 0x1E"

definition Scene44 :: nat where
  "Scene44 = 0x1F"

definition SceneOffE1 :: nat where
  "SceneOffE1 = 0x20"

definition SceneOnE1 :: nat where
  "SceneOnE1 = 0x21"

definition SceneOffE2 :: nat where
  "SceneOffE2 = 0x22"

definition SceneOnE2 :: nat where
  "SceneOnE2 = 0x23"

definition SceneOffE3 :: nat where
  "SceneOffE3 = 0x24"

definition SceneBoost :: nat where
  "SceneBoost = 0x24"

definition SceneOnE3 :: nat where
  "SceneOnE3 = 0x25"

definition SceneOffE4 :: nat where
  "SceneOffE4 = 0x26"

definition SceneOnE4 :: nat where
  "SceneOnE4 = 0x27"

definition SceneAutoOff :: nat where
  "SceneAutoOff = 0x28"

definition SceneImpulse :: nat where
  "SceneImpulse = 0x29"

definition SceneDecA1 :: nat where
  "SceneDecA1 = 0x2A"

definition SceneIncA1 :: nat where
  "SceneIncA1 = 0x2B"

definition SceneDecA2 :: nat where
  "SceneDecA2 = 0x2C"

definition SceneIncA2 :: nat where
  "SceneIncA2 = 0x2D"

definition SceneDecA3 :: nat where
  "SceneDecA3 = 0x2E"

definition SceneIncA3 :: nat where
  "SceneIncA3 = 0x2F"

definition SceneDecA4 :: nat where
  "SceneDecA4 = 0x30"

definition SceneIncA4 :: nat where
  "SceneIncA4 = 0x32"

definition SceneLocalOff :: nat where
  "SceneLocalOff = 0x32"

definition SceneLocalOn :: nat where
  "SceneLocalOn = 0x33"

definition SceneStopA1 :: nat where
  "SceneStopA1 = 0x34"

definition SceneStopA2 :: nat where
  "SceneStopA2 = 0x35"

definition SceneStopA3 :: nat where
  "SceneStopA3 = 0x36"

definition SceneStopA4 :: nat where
  "SceneStopA4 = 0x37"

definition SceneSunProtection :: nat where
  "SceneSunProtection = 0x38"

definition SceneAutoStandBy :: nat where
  "SceneAutoStandBy = 0x40"

definition ScenePanic :: nat where
  "ScenePanic = 0x41"

definition SceneEnergyOverload :: nat where
  "SceneEnergyOverload = 0x42"

definition SceneStandBy :: nat where
  "SceneStandBy = 0x43"

definition SceneDeepOff :: nat where
  "SceneDeepOff = 0x44"

definition SceneSleeping :: nat where
  "SceneSleeping = 0x45"

definition SceneWakeUp :: nat where
  "SceneWakeUp = 0x46"

definition ScenePresent :: nat where
  "ScenePresent = 0x47"

definition SceneAbsent :: nat where
  "SceneAbsent = 0x48"

definition SceneBell :: nat where
  "SceneBell = 0x49"

definition SceneAlarm :: nat where
  "SceneAlarm = 0x4A"

definition SceneRoomActivate :: nat where
  "SceneRoomActivate = 0x4B"

definition SceneFire :: nat where
  "SceneFire = 0x4C"

definition SceneSmoke :: nat where
  "SceneSmoke = 0x4D"

definition SceneWater :: nat where
  "SceneWater = 0x4E"

definition SceneGas :: nat where
  "SceneGas = 0x4F"

definition SceneBell2 :: nat where
  "SceneBell2 = 0x50"

definition SceneBell3 :: nat where
  "SceneBell3 = 0x51"

definition SceneBell4 :: nat where
  "SceneBell4 = 0x52"

definition SceneAlarm2 :: nat where
  "SceneAlarm2 = 0x53"

definition SceneAlarm3 :: nat where
  "SceneAlarm3 = 0x54"

definition SceneAlarm4 :: nat where
  "SceneAlarm4 = 0x55"

definition SceneWindActive :: nat where
  "SceneWindActive = 0x56"

definition SceneWindInactive :: nat where
  "SceneWindInactive = 0x57"

definition SceneRainActive :: nat where
  "SceneRainActive = 0x58"

definition SceneRainInactive :: nat where
  "SceneRainInactive = 0x59"

definition SceneHailActive :: nat where
  "SceneHailActive = 0x5a"

definition SceneHailInactive :: nat where
  "SceneHailInactive = 0x5b"

definition MaxSceneNumber :: nat where
  "MaxSceneNumber = 127"

definition MaxSceneNumberOutsideZoneZero :: nat where
  "MaxSceneNumberOutsideZoneZero = 63"

definition SceneFlagLocalOff :: nat where
  "SceneFlagLocalOff = 0x0100"

lemmas scene_consts =
  SceneOff_def SceneOffA1_def SceneOffA2_def SceneOffA3_def SceneOffA4_def
  Scene1_def SceneA11_def SceneA21_def SceneA31_def SceneA41_def
  SceneDimArea_def SceneDec_def SceneInc_def SceneMin_def SceneMax_def
  SceneStop_def Scene2_def Scene3_def Scene4_def Scene12_def
  Scene13_def Scene14_def Scene22_def Scene23_def Scene24_def
  Scene32_def Scene33_def Scene34_def Scene42_def Scene43_def
  Scene44_def SceneOffE1_def SceneOnE1_def SceneOffE2_def SceneOnE2_def
  SceneOffE3_def SceneBoost_def SceneOnE3_def SceneOffE4_def SceneOnE4_def
  SceneAutoOff_def SceneImpulse_def SceneDecA1_def SceneIncA1_def SceneDecA2_def
  SceneIncA2_def SceneDecA3_def SceneIncA3_def SceneDecA4_def SceneIncA4_def
  SceneLocalOff_def SceneLocalOn_def SceneStopA1_def SceneStopA2_def SceneStopA3_def
  SceneStopA4_def SceneSunProtection_def SceneAutoStandBy_def ScenePanic_def SceneEnergyOverload_def
  SceneStandBy_def SceneDeepOff_def SceneSleeping_def SceneWakeUp_def ScenePresent_def
  SceneAbsent_def SceneBell_def SceneAlarm_def SceneRoomActivate_def SceneFire_def
  SceneSmoke_def SceneWater_def SceneGas_def SceneBell2_def SceneBell3_def
  SceneBell4_def SceneAlarm2_def SceneAlarm3_def SceneAlarm4_def SceneWindActive_def
  SceneWindInactive_def SceneRainActive_def SceneRainInactive_def SceneHailActive_def SceneHailInactive_def
  MaxSceneNumber_def MaxSceneNumberOutsideZoneZero_def SceneFlagLocalOff_def

section \<open>Group numbers and colours\<close>

definition ColorIDYellow :: int where
  "ColorIDYellow = 1"

definition ColorIDGray :: int where
  "ColorIDGray = 2"

definition ColorIDBlue :: int where
  "ColorIDBlue = 3"

definition ColorIDCyan :: int where
  "ColorIDCyan = 4"

definition ColorIDViolet :: int where
  "ColorIDViolet = 5"

definition ColorIDRed :: int where
  "ColorIDRed = 6"

definition ColorIDGreen :: int where
  "ColorIDGreen = 7"

definition ColorIDBlack :: int where
  "ColorIDBlack = 8"

definition ColorIDWhite :: int where
  "ColorIDWhite = 9"

definition GroupIDBroadcast :: int where
  "GroupIDBroadcast = 0"

definition GroupIDYellow :: int where
  "GroupIDYellow = 1"

definition GroupIDGray :: int where
  "GroupIDGray = 2"

definition GroupIDHeating :: int where
  "GroupIDHeating = 3"

definition GroupIDCyan :: int where
  "GroupIDCyan = 4"

definition GroupIDViolet :: int where
  "GroupIDViolet = 5"

definition GroupIDRed :: int where
  "GroupIDRed = 6"

definition GroupIDGreen :: int where
  "GroupIDGreen = 7"

definition GroupIDBlack :: int where
  "GroupIDBlack = 8"

definition GroupIDCooling :: int where
  "GroupIDCooling = 9"

definition GroupIDVentilation :: int where
  "GroupIDVentilation = 10"

definition GroupIDWindow :: int where
  "GroupIDWindow = 11"

definition GroupIDRecirculation :: int where
  "GroupIDRecirculation = 12"

definition GroupIDReserved3 :: int where
  "GroupIDReserved3 = 13"

definition GroupIDReserved4 :: int where
  "GroupIDReserved4 = 14"

definition GroupIDReserved5 :: int where
  "GroupIDReserved5 = 15"

definition GroupIDStandardMax :: int where
  "GroupIDStandardMax = 15"

definition GroupIDAppUserMin :: int where
  "GroupIDAppUserMin = 16"

definition GroupIDAppUserMax :: int where
  "GroupIDAppUserMax = 39"

definition GroupIDUserGroupStart :: int where
  "GroupIDUserGroupStart = GroupIDAppUserMax + 1"

definition GroupIDUserGroupEnd :: int where
  "GroupIDUserGroupEnd = 47"

definition GroupIDControlGroupMin :: int where
  "GroupIDControlGroupMin = 48"

definition GroupIDControlTemperature :: int where
  "GroupIDControlTemperature = 48"

definition GroupIDControlGroupMax :: int where
  "GroupIDControlGroupMax = 55"

definition GroupIDMax :: int where
  "GroupIDMax = 63"

definition GroupIDGlobalAppMin :: int where
  "GroupIDGlobalAppMin = 64"

definition GroupIDGlobalAppDsMin :: int where
  "GroupIDGlobalAppDsMin = 64"

definition GroupIDGlobalAppDsVentilation :: int where
  "GroupIDGlobalAppDsVentilation = 64"

definition GroupIDGlobalAppDsRecirculation :: int where
  "GroupIDGlobalAppDsRecirculation = 69"

definition GroupIDGlobalAppDsMax :: int where
  "GroupIDGlobalAppDsMax = 187"

definition GroupIDGlobalAppUserMin :: int where
  "GroupIDGlobalAppUserMin = 188"

definition GroupIDGlobalAppUserMax :: int where
  "GroupIDGlobalAppUserMax = 249"

definition GroupIDGlobalAppMax :: int where
  "GroupIDGlobalAppMax = 249"

definition GroupIDNotApplicable :: int where
  "GroupIDNotApplicable = 255"

lemmas group_consts =
  ColorIDYellow_def ColorIDGray_def ColorIDBlue_def ColorIDCyan_def
  ColorIDViolet_def ColorIDRed_def ColorIDGreen_def ColorIDBlack_def
  ColorIDWhite_def GroupIDBroadcast_def GroupIDYellow_def GroupIDGray_def
  GroupIDHeating_def GroupIDCyan_def GroupIDViolet_def GroupIDRed_def
  GroupIDGreen_def GroupIDBlack_def GroupIDCooling_def GroupIDVentilation_def
  GroupIDWindow_def GroupIDRecirculation_def GroupIDReserved3_def GroupIDReserved4_def
  GroupIDReserved5_def GroupIDStandardMax_def GroupIDAppUserMin_def GroupIDAppUserMax_def
  GroupIDUserGroupStart_def GroupIDUserGroupEnd_def GroupIDControlGroupMin_def GroupIDControlTemperature_def
  GroupIDControlGroupMax_def GroupIDMax_def GroupIDGlobalAppMin_def GroupIDGlobalAppDsMin_def
  GroupIDGlobalAppDsVentilation_def GroupIDGlobalAppDsRecirculation_def GroupIDGlobalAppDsMax_def GroupIDGlobalAppUserMin_def
  GroupIDGlobalAppUserMax_def GroupIDGlobalAppMax_def GroupIDNotApplicable_def

definition isDefaultGroup :: "int \<Rightarrow> bool" where
  "isDefaultGroup g \<longleftrightarrow>
     (g \<ge> GroupIDYellow \<and> g \<le> GroupIDStandardMax) \<or> g = GroupIDControlTemperature"

definition isAppUserGroup :: "int \<Rightarrow> bool" where
  "isAppUserGroup g \<longleftrightarrow>
     g \<ge> GroupIDAppUserMin \<and> g \<le> GroupIDAppUserMax"

definition isZoneUserGroup :: "int \<Rightarrow> bool" where
  "isZoneUserGroup g \<longleftrightarrow>
     g \<ge> GroupIDUserGroupStart \<and> g \<le> GroupIDUserGroupEnd"

definition isControlGroup :: "int \<Rightarrow> bool" where
  "isControlGroup g \<longleftrightarrow>
     g \<ge> GroupIDControlGroupMin \<and> g \<le> GroupIDControlGroupMax"

definition isGlobalAppDsGroup :: "int \<Rightarrow> bool" where
  "isGlobalAppDsGroup g \<longleftrightarrow>
     g \<ge> GroupIDGlobalAppDsMin \<and> g \<le> GroupIDGlobalAppDsMax"

definition isGlobalAppUserGroup :: "int \<Rightarrow> bool" where
  "isGlobalAppUserGroup g \<longleftrightarrow>
     g \<ge> GroupIDGlobalAppUserMin \<and> g \<le> GroupIDGlobalAppUserMax"

definition isGlobalAppGroup :: "int \<Rightarrow> bool" where
  "isGlobalAppGroup g \<longleftrightarrow>
     isGlobalAppDsGroup g \<or> isGlobalAppUserGroup g"

definition isValidGroup :: "int \<Rightarrow> bool" where
  "isValidGroup g \<longleftrightarrow>
     isDefaultGroup g \<or> isAppUserGroup g \<or> isZoneUserGroup g \<or> isControlGroup g \<or>
     isGlobalAppGroup g"

section \<open>Enumerations\<close>

text \<open>
  The chains of string comparisons in the \<open>xFromName\<close> functions are lookups in the list of the
  pairs, in the order of the comparisons.
\<close>

datatype (plugins only: code size) StatusFieldType =
    SFT_MALFUNCTION | SFT_SERVICE
  | SFT_other int

text \<open>The integer value of an enumerator, \<^verbatim>\<open>static_cast<int>(x)\<close>.\<close>

primrec StatusFieldType_value :: "StatusFieldType \<Rightarrow> int" where
  "StatusFieldType_value SFT_MALFUNCTION = 1"
| "StatusFieldType_value SFT_SERVICE = 2"
| "StatusFieldType_value (SFT_other i) = i"

primrec statusFieldTypeName :: "StatusFieldType \<Rightarrow> string option" where
  "statusFieldTypeName SFT_MALFUNCTION = Some ''malfunction''"
| "statusFieldTypeName SFT_SERVICE = Some ''service''"
| "statusFieldTypeName (SFT_other i) = None"

definition statusFieldTypeFromName_table :: "(string \<times> StatusFieldType) list" where
  "statusFieldTypeFromName_table =
    [(''malfunction'', SFT_MALFUNCTION),
     (''service'', SFT_SERVICE)]"

definition statusFieldTypeFromName :: "string \<Rightarrow> StatusFieldType option" where
  "statusFieldTypeFromName x = map_of statusFieldTypeFromName_table x"

datatype (plugins only: code size) StatusFieldValue =
    SFV_ACTIVE | SFV_INACTIVE
  | SFV_other int

text \<open>The integer value of an enumerator, \<^verbatim>\<open>static_cast<int>(x)\<close>.\<close>

primrec StatusFieldValue_value :: "StatusFieldValue \<Rightarrow> int" where
  "StatusFieldValue_value SFV_ACTIVE = 0"
| "StatusFieldValue_value SFV_INACTIVE = 1"
| "StatusFieldValue_value (SFV_other i) = i"

primrec statusFieldValueName :: "StatusFieldValue \<Rightarrow> string option" where
  "statusFieldValueName SFV_INACTIVE = Some ''inactive''"
| "statusFieldValueName SFV_ACTIVE = Some ''active''"
| "statusFieldValueName (SFV_other i) = None"

definition statusFieldValueFromName_table :: "(string \<times> StatusFieldValue) list" where
  "statusFieldValueFromName_table =
    [(''inactive'', SFV_INACTIVE),
     (''active'', SFV_ACTIVE)]"

definition statusFieldValueFromName :: "string \<Rightarrow> StatusFieldValue option" where
  "statusFieldValueFromName x = map_of statusFieldValueFromName_table x"

datatype (plugins only: code size) HeatingControlMode =
    HCM_OFF | HCM_PID | HCM_ZONE_FOLLOWER | HCM_FIXED
  | HCM_MANUAL
  | HCM_other int

text \<open>The integer value of an enumerator, \<^verbatim>\<open>static_cast<int>(x)\<close>.\<close>

primrec HeatingControlMode_value :: "HeatingControlMode \<Rightarrow> int" where
  "HeatingControlMode_value HCM_OFF = 0"
| "HeatingControlMode_value HCM_PID = 1"
| "HeatingControlMode_value HCM_ZONE_FOLLOWER = 2"
| "HeatingControlMode_value HCM_FIXED = 3"
| "HeatingControlMode_value HCM_MANUAL = 4"
| "HeatingControlMode_value (HCM_other i) = i"

primrec heatingControlModeName :: "HeatingControlMode \<Rightarrow> string option" where
  "heatingControlModeName HCM_OFF = Some ''off''"
| "heatingControlModeName HCM_PID = Some ''control''"
| "heatingControlModeName HCM_ZONE_FOLLOWER = Some ''zoneFollower''"
| "heatingControlModeName HCM_FIXED = Some ''fixed''"
| "heatingControlModeName HCM_MANUAL = Some ''manual''"
| "heatingControlModeName (HCM_other i) = None"

definition heatingControlModeFromName_table :: "(string \<times> HeatingControlMode) list" where
  "heatingControlModeFromName_table =
    [(''off'', HCM_OFF),
     (''control'', HCM_PID),
     (''zoneFollower'', HCM_ZONE_FOLLOWER),
     (''fixed'', HCM_FIXED),
     (''manual'', HCM_MANUAL)]"

definition heatingControlModeFromName :: "string \<Rightarrow> HeatingControlMode option" where
  "heatingControlModeFromName x = map_of heatingControlModeFromName_table x"

datatype (plugins only: code size) ModelFeatureId =
    MF_dontcare | MF_blink | MF_ledauto | MF_leddark
  | MF_transt | MF_outmode | MF_outmodeswitch | MF_outvalue8
  | MF_pushbutton | MF_pushbdevice | MF_pushbsensor | MF_pushbarea
  | MF_pushbadvanced | MF_pushbcombined | MF_shadeprops | MF_shadeposition
  | MF_motiontimefins | MF_optypeconfig | MF_shadebladeang | MF_highlevel
  | MF_consumption | MF_jokerconfig | MF_akmsensor | MF_akminput
  | MF_akmdelay | MF_twowayconfig | MF_outputchannels | MF_heatinggroup
  | MF_heatingoutmode | MF_heatingprops | MF_pwmvalue | MF_valvetype
  | MF_extradimmer | MF_umvrelay | MF_blinkconfig | MF_umroutmode
  | MF_locationconfig | MF_windprotectionconfigawning | MF_windprotectionconfigblind | MF_impulseconfig
  | MF_outmodegeneric | MF_outconfigswitch | MF_temperatureoffset | MF_apartmentapplication
  | MF_ftwtempcontrolventilationselect | MF_ftwdisplaysettings | MF_ftwbacklighttimeout | MF_ventconfig
  | MF_fcu | MF_pushbdisabled | MF_consumptioneventled | MF_consumptiontimer
  | MF_jokertempcontrol
  | MF_other int

text \<open>The integer value of an enumerator, \<^verbatim>\<open>static_cast<int>(x)\<close>.\<close>

primrec ModelFeatureId_value :: "ModelFeatureId \<Rightarrow> int" where
  "ModelFeatureId_value MF_dontcare = 0"
| "ModelFeatureId_value MF_blink = 1"
| "ModelFeatureId_value MF_ledauto = 2"
| "ModelFeatureId_value MF_leddark = 3"
| "ModelFeatureId_value MF_transt = 4"
| "ModelFeatureId_value MF_outmode = 5"
| "ModelFeatureId_value MF_outmodeswitch = 6"
| "ModelFeatureId_value MF_outvalue8 = 7"
| "ModelFeatureId_value MF_pushbutton = 8"
| "ModelFeatureId_value MF_pushbdevice = 9"
| "ModelFeatureId_value MF_pushbsensor = 10"
| "ModelFeatureId_value MF_pushbarea = 11"
| "ModelFeatureId_value MF_pushbadvanced = 12"
| "ModelFeatureId_value MF_pushbcombined = 13"
| "ModelFeatureId_value MF_shadeprops = 14"
| "ModelFeatureId_value MF_shadeposition = 15"
| "ModelFeatureId_value MF_motiontimefins = 16"
| "ModelFeatureId_value MF_optypeconfig = 17"
| "ModelFeatureId_value MF_shadebladeang = 18"
| "ModelFeatureId_value MF_highlevel = 19"
| "ModelFeatureId_value MF_consumption = 20"
| "ModelFeatureId_value MF_jokerconfig = 21"
| "ModelFeatureId_value MF_akmsensor = 22"
| "ModelFeatureId_value MF_akminput = 23"
| "ModelFeatureId_value MF_akmdelay = 24"
| "ModelFeatureId_value MF_twowayconfig = 25"
| "ModelFeatureId_value MF_outputchannels = 26"
| "ModelFeatureId_value MF_heatinggroup = 27"
| "ModelFeatureId_value MF_heatingoutmode = 28"
| "ModelFeatureId_value MF_heatingprops = 29"
| "ModelFeatureId_value MF_pwmvalue = 30"
| "ModelFeatureId_value MF_valvetype = 31"
| "ModelFeatureId_value MF_extradimmer = 32"
| "ModelFeatureId_value MF_umvrelay = 33"
| "ModelFeatureId_value MF_blinkconfig = 34"
| "ModelFeatureId_value MF_umroutmode = 35"
| "ModelFeatureId_value MF_locationconfig = 36"
| "ModelFeatureId_value MF_windprotectionconfigawning = 37"
| "ModelFeatureId_value MF_windprotectionconfigblind = 38"
| "ModelFeatureId_value MF_impulseconfig = 39"
| "ModelFeatureId_value MF_outmodegeneric = 40"
| "ModelFeatureId_value MF_outconfigswitch = 41"
| "ModelFeatureId_value MF_temperatureoffset = 42"
| "ModelFeatureId_value MF_apartmentapplication = 43"
| "ModelFeatureId_value MF_ftwtempcontrolventilationselect = 44"
| "ModelFeatureId_value MF_ftwdisplaysettings = 45"
| "ModelFeatureId_value MF_ftwbacklighttimeout = 46"
| "ModelFeatureId_value MF_ventconfig = 47"
| "ModelFeatureId_value MF_fcu = 48"
| "ModelFeatureId_value MF_pushbdisabled = 49"
| "ModelFeatureId_value MF_consumptioneventled = 50"
| "ModelFeatureId_value MF_consumptiontimer = 51"
| "ModelFeatureId_value MF_jokertempcontrol = 52"
| "ModelFeatureId_value (MF_other i) = i"

primrec modelFeatureName :: "ModelFeatureId \<Rightarrow> string option" where
  "modelFeatureName MF_dontcare = Some ''dontcare''"
| "modelFeatureName MF_blink = Some ''blink''"
| "modelFeatureName MF_ledauto = Some ''ledauto''"
| "modelFeatureName MF_leddark = Some ''leddark''"
| "modelFeatureName MF_transt = Some ''transt''"
| "modelFeatureName MF_outmode = Some ''outmode''"
| "modelFeatureName MF_outmodeswitch = Some ''outmodeswitch''"
| "modelFeatureName MF_outvalue8 = Some ''outvalue8''"
| "modelFeatureName MF_pushbutton = Some ''pushbutton''"
| "modelFeatureName MF_pushbdevice = Some ''pushbdevice''"
| "modelFeatureName MF_pushbarea = Some ''pushbarea''"
| "modelFeatureName MF_pushbadvanced = Some ''pushbadvanced''"
| "modelFeatureName MF_pushbcombined = Some ''pushbcombined''"
| "modelFeatureName MF_shadeprops = Some ''shadeprops''"
| "modelFeatureName MF_shadeposition = Some ''shadeposition''"
| "modelFeatureName MF_motiontimefins = Some ''motiontimefins''"
| "modelFeatureName MF_optypeconfig = Some ''optypeconfig''"
| "modelFeatureName MF_shadebladeang = Some ''shadebladeang''"
| "modelFeatureName MF_highlevel = Some ''highlevel''"
| "modelFeatureName MF_consumption = Some ''consumption''"
| "modelFeatureName MF_jokerconfig = Some ''jokerconfig''"
| "modelFeatureName MF_akmsensor = Some ''akmsensor''"
| "modelFeatureName MF_akminput = Some ''akminput''"
| "modelFeatureName MF_akmdelay = Some ''akmdelay''"
| "modelFeatureName MF_twowayconfig = Some ''twowayconfig''"
| "modelFeatureName MF_outputchannels = Some ''outputchannels''"
| "modelFeatureName MF_heatinggroup = Some ''heatinggroup''"
| "modelFeatureName MF_heatingoutmode = Some ''heatingoutmode''"
| "modelFeatureName MF_heatingprops = Some ''heatingprops''"
| "modelFeatureName MF_pwmvalue = Some ''pwmvalue''"
| "modelFeatureName MF_valvetype = Some ''valvetype''"
| "modelFeatureName MF_extradimmer = Some ''extradimmer''"
| "modelFeatureName MF_umvrelay = Some ''umvrelay''"
| "modelFeatureName MF_blinkconfig = Some ''blinkconfig''"
| "modelFeatureName MF_impulseconfig = Some ''impulseconfig''"
| "modelFeatureName MF_umroutmode = Some ''umroutmode''"
| "modelFeatureName MF_pushbsensor = Some ''pushbsensor''"
| "modelFeatureName MF_locationconfig = Some ''locationconfig''"
| "modelFeatureName MF_windprotectionconfigawning = Some ''windprotectionconfigawning''"
| "modelFeatureName MF_windprotectionconfigblind = Some ''windprotectionconfigblind''"
| "modelFeatureName MF_outmodegeneric = Some ''outmodegeneric''"
| "modelFeatureName MF_outconfigswitch = Some ''outconfigswitch''"
| "modelFeatureName MF_temperatureoffset = Some ''temperatureoffset''"
| "modelFeatureName MF_apartmentapplication = Some ''apartmentapplication''"
| "modelFeatureName MF_ftwtempcontrolventilationselect = Some ''ftwtempcontrolventilationselect''"
| "modelFeatureName MF_ftwdisplaysettings = Some ''ftwdisplaysettings''"
| "modelFeatureName MF_ftwbacklighttimeout = Some ''ftwbacklighttimeout''"
| "modelFeatureName MF_ventconfig = Some ''ventconfig''"
| "modelFeatureName MF_fcu = Some ''fcu''"
| "modelFeatureName MF_pushbdisabled = Some ''pushbdisabled''"
| "modelFeatureName MF_consumptioneventled = Some ''consumptioneventled''"
| "modelFeatureName MF_consumptiontimer = Some ''consumptiontimer''"
| "modelFeatureName MF_jokertempcontrol = Some ''jokertempcontrol''"
| "modelFeatureName (MF_other i) = None"

definition modelFeatureFromName_table :: "(string \<times> ModelFeatureId) list" where
  "modelFeatureFromName_table =
    [(''dontcare'', MF_dontcare),
     (''blink'', MF_blink),
     (''ledauto'', MF_ledauto),
     (''leddark'', MF_leddark),
     (''transt'', MF_transt),
     (''outmode'', MF_outmode),
     (''outmodeswitch'', MF_outmodeswitch),
     (''outvalue8'', MF_outvalue8),
     (''pushbutton'', MF_pushbutton),
     (''pushbdevice'', MF_pushbdevice),
     (''pushbarea'', MF_pushbarea),
     (''pushbadvanced'', MF_pushbadvanced),
     (''pushbcombined'', MF_pushbcombined),
     (''shadeprops'', MF_shadeprops),
     (''shadeposition'', MF_shadeposition),
     (''motiontimefins'', MF_motiontimefins),
     (''optypeconfig'', MF_optypeconfig),
     (''shadebladeang'', MF_shadebladeang),
     (''highlevel'', MF_highlevel),
     (''consumption'', MF_consumption),
     (''jokerconfig'', MF_jokerconfig),
     (''akmsensor'', MF_akmsensor),
     (''akminput'', MF_akminput),
     (''akmdelay'', MF_akmdelay),
     (''twowayconfig'', MF_twowayconfig),
     (''outputchannels'', MF_outputchannels),
     (''heatinggroup'', MF_heatinggroup),
     (''heatingoutmode'', MF_heatingoutmode),
     (''heatingprops'', MF_heatingprops),
     (''pwmvalue'', MF_pwmvalue),
     (''valvetype'', MF_valvetype),
     (''extradimmer'', MF_extradimmer),
     (''umvrelay'', MF_umvrelay),
     (''blinkconfig'', MF_blinkconfig),
     (''impulseconfig'', MF_impulseconfig),
     (''umroutmode'', MF_umroutmode),
     (''pushbsensor'', MF_pushbsensor),
     (''locationconfig'', MF_locationconfig),
     (''windprotectionconfigblind'', MF_windprotectionconfigblind),
     (''windprotectionconfigawning'', MF_windprotectionconfigawning),
     (''outmodegeneric'', MF_outmodegeneric),
     (''outconfigswitch'', MF_outconfigswitch),
     (''temperatureoffset'', MF_temperatureoffset),
     (''apartmentapplication'', MF_apartmentapplication),
     (''ftwtempcontrolventilationselect'', MF_ftwtempcontrolventilationselect),
     (''ftwdisplaysettings'', MF_ftwdisplaysettings),
     (''ftwbacklighttimeout'', MF_ftwbacklighttimeout),
     (''ventconfig'', MF_ventconfig),
     (''fcu'', MF_fcu),
     (''pushbdisabled'', MF_pushbdisabled),
     (''consumptioneventled'', MF_consumptioneventled),
     (''consumptiontimer'', MF_consumptiontimer),
     (''jokertempcontrol'', MF_jokertempcontrol)]"

definition modelFeatureFromName :: "string \<Rightarrow> ModelFeatureId option" where
  "modelFeatureFromName x = map_of modelFeatureFromName_table x"

text \<open>The stream operators print the name and, in brackets, the integer value.\<close>

definition print_enum :: "string \<Rightarrow> int \<Rightarrow> string" where
  "print_enum name v = name @ ''('' @ int32ToString (word_of_int v) @ '')''"

definition opt_name :: "string option \<Rightarrow> string" where
  "opt_name n = (case n of Some s \<Rightarrow> s | None \<Rightarrow> ''unknown'')"

definition print_StatusFieldType :: "StatusFieldType \<Rightarrow> string" where
  "print_StatusFieldType x = print_enum (opt_name (statusFieldTypeName x)) (StatusFieldType_value x)"

definition print_StatusFieldValue :: "StatusFieldValue \<Rightarrow> string" where
  "print_StatusFieldValue x = print_enum (opt_name (statusFieldValueName x)) (StatusFieldValue_value x)"

definition print_HeatingControlMode :: "HeatingControlMode \<Rightarrow> string" where
  "print_HeatingControlMode x = print_enum (opt_name (heatingControlModeName x)) (HeatingControlMode_value x)"

definition print_ModelFeatureId :: "ModelFeatureId \<Rightarrow> string" where
  "print_ModelFeatureId x = print_enum (opt_name (modelFeatureName x)) (ModelFeatureId_value x)"

datatype (plugins only: code size) BinaryInputType =
    BI_Presence | BI_RoomBrightness | BI_PresenceInDarkness | BI_TwilightExternal
  | BI_Movement | BI_MovementInDarkness | BI_SmokeDetector | BI_WindDetector
  | BI_RainDetector | BI_SunRadiation | BI_RoomThermostat | BI_BatteryLow
  | BI_WindowContact | BI_DoorContact | BI_WindowTilt | BI_GarageDoorContact
  | BI_SunProtection | BI_FrostDetector | BI_HeatingSystem | BI_HeatingSystemMode
  | BI_PowerUp | BI_Malfunction | BI_Service
  | BI_other int

text \<open>The integer value of an enumerator, \<^verbatim>\<open>static_cast<int>(x)\<close>.\<close>

primrec BinaryInputType_value :: "BinaryInputType \<Rightarrow> int" where
  "BinaryInputType_value BI_Presence = 1"
| "BinaryInputType_value BI_RoomBrightness = 2"
| "BinaryInputType_value BI_PresenceInDarkness = 3"
| "BinaryInputType_value BI_TwilightExternal = 4"
| "BinaryInputType_value BI_Movement = 5"
| "BinaryInputType_value BI_MovementInDarkness = 6"
| "BinaryInputType_value BI_SmokeDetector = 7"
| "BinaryInputType_value BI_WindDetector = 8"
| "BinaryInputType_value BI_RainDetector = 9"
| "BinaryInputType_value BI_SunRadiation = 10"
| "BinaryInputType_value BI_RoomThermostat = 11"
| "BinaryInputType_value BI_BatteryLow = 12"
| "BinaryInputType_value BI_WindowContact = 13"
| "BinaryInputType_value BI_DoorContact = 14"
| "BinaryInputType_value BI_WindowTilt = 15"
| "BinaryInputType_value BI_GarageDoorContact = 16"
| "BinaryInputType_value BI_SunProtection = 17"
| "BinaryInputType_value BI_FrostDetector = 18"
| "BinaryInputType_value BI_HeatingSystem = 19"
| "BinaryInputType_value BI_HeatingSystemMode = 20"
| "BinaryInputType_value BI_PowerUp = 21"
| "BinaryInputType_value BI_Malfunction = 22"
| "BinaryInputType_value BI_Service = 23"
| "BinaryInputType_value (BI_other i) = i"

fun BinaryInputType_label :: "BinaryInputType \<Rightarrow> string" where
  "BinaryInputType_label BI_Presence = ''presence''"
| "BinaryInputType_label BI_RoomBrightness = ''roomBrightness''"
| "BinaryInputType_label BI_PresenceInDarkness = ''presenceInDarkness''"
| "BinaryInputType_label BI_TwilightExternal = ''twilightExternal''"
| "BinaryInputType_label BI_Movement = ''movement''"
| "BinaryInputType_label BI_MovementInDarkness = ''movementInDarkness''"
| "BinaryInputType_label BI_SmokeDetector = ''smokeDetector''"
| "BinaryInputType_label BI_WindDetector = ''windDetector''"
| "BinaryInputType_label BI_RainDetector = ''rainDetector''"
| "BinaryInputType_label BI_SunRadiation = ''sunRadiation''"
| "BinaryInputType_label BI_RoomThermostat = ''roomThermostat''"
| "BinaryInputType_label BI_BatteryLow = ''batteryLow''"
| "BinaryInputType_label BI_WindowContact = ''windowContact''"
| "BinaryInputType_label BI_DoorContact = ''doorContact''"
| "BinaryInputType_label BI_WindowTilt = ''windowTilt''"
| "BinaryInputType_label BI_GarageDoorContact = ''garageDoorContact''"
| "BinaryInputType_label BI_SunProtection = ''sunProtection''"
| "BinaryInputType_label BI_FrostDetector = ''frostDetector''"
| "BinaryInputType_label BI_HeatingSystem = ''heatingSystem''"
| "BinaryInputType_label BI_HeatingSystemMode = ''heatingSystemMode''"
| "BinaryInputType_label BI_PowerUp = ''powerUp''"
| "BinaryInputType_label BI_Malfunction = ''malfunction''"
| "BinaryInputType_label BI_Service = ''service''"
| "BinaryInputType_label _ = ''unknown''"

definition print_BinaryInputType :: "BinaryInputType \<Rightarrow> string" where
  "print_BinaryInputType x = print_enum (BinaryInputType_label x) (BinaryInputType_value x)"

datatype (plugins only: code size) ApplicationType =
    AT_None | AT_Lights | AT_Blinds | AT_Heating
  | AT_Audio | AT_Video | AT_Joker | AT_Cooling
  | AT_Ventilation | AT_Window | AT_Recirculation | AT_ControlTemperature
  | AT_ApartmentVentilation | AT_ApartmentRecirculation
  | AT_other int

text \<open>The integer value of an enumerator, \<^verbatim>\<open>static_cast<int>(x)\<close>.\<close>

primrec ApplicationType_value :: "ApplicationType \<Rightarrow> int" where
  "ApplicationType_value AT_None = 0"
| "ApplicationType_value AT_Lights = 1"
| "ApplicationType_value AT_Blinds = 2"
| "ApplicationType_value AT_Heating = 3"
| "ApplicationType_value AT_Audio = 4"
| "ApplicationType_value AT_Video = 5"
| "ApplicationType_value AT_Joker = 8"
| "ApplicationType_value AT_Cooling = 9"
| "ApplicationType_value AT_Ventilation = 10"
| "ApplicationType_value AT_Window = 11"
| "ApplicationType_value AT_Recirculation = 12"
| "ApplicationType_value AT_ControlTemperature = 48"
| "ApplicationType_value AT_ApartmentVentilation = 64"
| "ApplicationType_value AT_ApartmentRecirculation = 69"
| "ApplicationType_value (AT_other i) = i"

fun ApplicationType_label :: "ApplicationType \<Rightarrow> string" where
  "ApplicationType_label AT_None = ''none''"
| "ApplicationType_label AT_Lights = ''lights''"
| "ApplicationType_label AT_Blinds = ''blinds''"
| "ApplicationType_label AT_Heating = ''heating''"
| "ApplicationType_label AT_Audio = ''audio''"
| "ApplicationType_label AT_Video = ''video''"
| "ApplicationType_label AT_Joker = ''joker''"
| "ApplicationType_label AT_Cooling = ''cooling''"
| "ApplicationType_label AT_Ventilation = ''ventilation''"
| "ApplicationType_label AT_Window = ''window''"
| "ApplicationType_label AT_Recirculation = ''recirculation''"
| "ApplicationType_label AT_ControlTemperature = ''controlTemperature''"
| "ApplicationType_label AT_ApartmentVentilation = ''apartmentVentilation''"
| "ApplicationType_label AT_ApartmentRecirculation = ''apartmentRecirculation''"
| "ApplicationType_label _ = ''unknown''"

definition print_ApplicationType :: "ApplicationType \<Rightarrow> string" where
  "print_ApplicationType x = print_enum (ApplicationType_label x) (ApplicationType_value x)"

datatype (plugins only: code size) ButtonInputMode =
    BIM_STANDARD | BIM_TURBO | BIM_SWITCHED | BIM_TWO_WAY_DW_WITH_INPUT1
  | BIM_TWO_WAY_DW_WITH_INPUT2 | BIM_TWO_WAY_DW_WITH_INPUT3 | BIM_TWO_WAY_DW_WITH_INPUT4 | BIM_TWO_WAY_UP_WITH_INPUT1
  | BIM_TWO_WAY_UP_WITH_INPUT2 | BIM_TWO_WAY_UP_WITH_INPUT3 | BIM_TWO_WAY_UP_WITH_INPUT4 | BIM_TWO_WAY
  | BIM_ONE_WAY | BIM_AKM_STANDARD | BIM_AKM_INVERTED | BIM_AKM_ON_RISING_EDGE
  | BIM_AKM_ON_FALLING_EDGE | BIM_AKM_OFF_RISING_EDGE | BIM_AKM_OFF_FALLING_EDGE | BIM_AKM_RISING_EDGE
  | BIM_AKM_FALLING_EDGE | BIM_HEATING_PUSHBUTTON | BIM_SDS_SLAVE_M1_M2
  | BIM_other int

text \<open>The integer value of an enumerator, \<^verbatim>\<open>static_cast<int>(x)\<close>.\<close>

primrec ButtonInputMode_value :: "ButtonInputMode \<Rightarrow> int" where
  "ButtonInputMode_value BIM_STANDARD = 0"
| "ButtonInputMode_value BIM_TURBO = 1"
| "ButtonInputMode_value BIM_SWITCHED = 2"
| "ButtonInputMode_value BIM_TWO_WAY_DW_WITH_INPUT1 = 5"
| "ButtonInputMode_value BIM_TWO_WAY_DW_WITH_INPUT2 = 6"
| "ButtonInputMode_value BIM_TWO_WAY_DW_WITH_INPUT3 = 7"
| "ButtonInputMode_value BIM_TWO_WAY_DW_WITH_INPUT4 = 8"
| "ButtonInputMode_value BIM_TWO_WAY_UP_WITH_INPUT1 = 9"
| "ButtonInputMode_value BIM_TWO_WAY_UP_WITH_INPUT2 = 10"
| "ButtonInputMode_value BIM_TWO_WAY_UP_WITH_INPUT3 = 11"
| "ButtonInputMode_value BIM_TWO_WAY_UP_WITH_INPUT4 = 12"
| "ButtonInputMode_value BIM_TWO_WAY = 13"
| "ButtonInputMode_value BIM_ONE_WAY = 14"
| "ButtonInputMode_value BIM_AKM_STANDARD = 16"
| "ButtonInputMode_value BIM_AKM_INVERTED = 17"
| "ButtonInputMode_value BIM_AKM_ON_RISING_EDGE = 18"
| "ButtonInputMode_value BIM_AKM_ON_FALLING_EDGE = 19"
| "ButtonInputMode_value BIM_AKM_OFF_RISING_EDGE = 20"
| "ButtonInputMode_value BIM_AKM_OFF_FALLING_EDGE = 21"
| "ButtonInputMode_value BIM_AKM_RISING_EDGE = 22"
| "ButtonInputMode_value BIM_AKM_FALLING_EDGE = 23"
| "ButtonInputMode_value BIM_HEATING_PUSHBUTTON = 65"
| "ButtonInputMode_value BIM_SDS_SLAVE_M1_M2 = 255"
| "ButtonInputMode_value (BIM_other i) = i"

fun ButtonInputMode_label :: "ButtonInputMode \<Rightarrow> string" where
  "ButtonInputMode_label BIM_STANDARD = ''standard''"
| "ButtonInputMode_label BIM_TURBO = ''turbo''"
| "ButtonInputMode_label BIM_SWITCHED = ''switched''"
| "ButtonInputMode_label BIM_TWO_WAY_DW_WITH_INPUT1 = ''twoWayDwWithInput1''"
| "ButtonInputMode_label BIM_TWO_WAY_DW_WITH_INPUT2 = ''twoWayDwWithInput2''"
| "ButtonInputMode_label BIM_TWO_WAY_DW_WITH_INPUT3 = ''twoWayDwWithInput3''"
| "ButtonInputMode_label BIM_TWO_WAY_DW_WITH_INPUT4 = ''twoWayDwWithInput4''"
| "ButtonInputMode_label BIM_TWO_WAY_UP_WITH_INPUT1 = ''twoWayUpWithInput1''"
| "ButtonInputMode_label BIM_TWO_WAY_UP_WITH_INPUT2 = ''twoWayUpWithInput2''"
| "ButtonInputMode_label BIM_TWO_WAY_UP_WITH_INPUT3 = ''twoWayUpWithInput3''"
| "ButtonInputMode_label BIM_TWO_WAY_UP_WITH_INPUT4 = ''twoWayUpWithInput4''"
| "ButtonInputMode_label BIM_TWO_WAY = ''twoWay''"
| "ButtonInputMode_label BIM_ONE_WAY = ''oneWay''"
| "ButtonInputMode_label BIM_AKM_STANDARD = ''akmStandard''"
| "ButtonInputMode_label BIM_AKM_INVERTED = ''akmInverted''"
| "ButtonInputMode_label BIM_AKM_ON_RISING_EDGE = ''akmOnRisingEdge''"
| "ButtonInputMode_label BIM_AKM_ON_FALLING_EDGE = ''akmOnFallingEdge''"
| "ButtonInputMode_label BIM_AKM_OFF_RISING_EDGE = ''akmOffRisingEdge''"
| "ButtonInputMode_label BIM_AKM_OFF_FALLING_EDGE = ''akmOffFallingEdge''"
| "ButtonInputMode_label BIM_AKM_RISING_EDGE = ''akmRisingEdge''"
| "ButtonInputMode_label BIM_AKM_FALLING_EDGE = ''akmFallingEdge''"
| "ButtonInputMode_label BIM_SDS_SLAVE_M1_M2 = ''sdsSlaveM1M2''"
| "ButtonInputMode_label _ = ''unknown''"

definition print_ButtonInputMode :: "ButtonInputMode \<Rightarrow> string" where
  "print_ButtonInputMode x = print_enum (ButtonInputMode_label x) (ButtonInputMode_value x)"

fun statusFieldTypeForBinaryInputType :: "BinaryInputType \<Rightarrow> StatusFieldType option" where
  "statusFieldTypeForBinaryInputType BI_Malfunction = Some SFT_MALFUNCTION"
| "statusFieldTypeForBinaryInputType BI_Service = Some SFT_SERVICE"
| "statusFieldTypeForBinaryInputType _ = None"

primrec getApplicationTypeColor :: "ApplicationType \<Rightarrow> int" where
  "getApplicationTypeColor AT_Lights = ColorIDYellow"
| "getApplicationTypeColor AT_Blinds = ColorIDGray"
| "getApplicationTypeColor AT_Heating = ColorIDBlue"
| "getApplicationTypeColor AT_Cooling = ColorIDBlue"
| "getApplicationTypeColor AT_Ventilation = ColorIDBlue"
| "getApplicationTypeColor AT_Recirculation = ColorIDBlue"
| "getApplicationTypeColor AT_Window = ColorIDBlue"
| "getApplicationTypeColor AT_ControlTemperature = ColorIDBlue"
| "getApplicationTypeColor AT_ApartmentVentilation = ColorIDBlue"
| "getApplicationTypeColor AT_ApartmentRecirculation = ColorIDBlue"
| "getApplicationTypeColor AT_Audio = ColorIDCyan"
| "getApplicationTypeColor AT_Video = ColorIDViolet"
| "getApplicationTypeColor AT_Joker = ColorIDBlack"
| "getApplicationTypeColor AT_None = 0"
| "getApplicationTypeColor (AT_other i) = 0"

datatype (plugins only: code size) RgbBitmask =
    RGB_blue | RGB_green | RGB_red | RGB_cyan
  | RGB_magenta | RGB_yellow | RGB_gray

text \<open>The integer value of an enumerator, \<^verbatim>\<open>static_cast<int>(x)\<close>.\<close>

primrec RgbBitmask_value :: "RgbBitmask \<Rightarrow> int" where
  "RgbBitmask_value RGB_blue = 1"
| "RgbBitmask_value RGB_green = 2"
| "RgbBitmask_value RGB_red = 4"
| "RgbBitmask_value RGB_cyan = 3"
| "RgbBitmask_value RGB_magenta = 5"
| "RgbBitmask_value RGB_yellow = 6"
| "RgbBitmask_value RGB_gray = 7"

definition getApplicationTypeRgbBitmask :: "ApplicationType \<Rightarrow> RgbBitmask" where
  "getApplicationTypeRgbBitmask t =
     (let c = getApplicationTypeColor t
      in if c = ColorIDYellow then RGB_yellow
         else if c = ColorIDGray then RGB_gray
         else if c = ColorIDBlue then RGB_blue
         else if c = ColorIDCyan then RGB_cyan
         else if c = ColorIDViolet then RGB_magenta
         else if c = ColorIDRed then RGB_red
         else if c = ColorIDGreen then RGB_green
         else if c = ColorIDBlack then RGB_gray
         else if c = ColorIDWhite then RGB_gray
         else RGB_gray)"

datatype (plugins only: code size) SensorType =
    ST_ActivePower | ST_OutputCurrent | ST_ElectricMeter | ST_TemperatureIndoors
  | ST_TemperatureOutdoors | ST_BrightnessIndoors | ST_BrightnessOutdoors | ST_HumidityIndoors
  | ST_HumidityOutdoors | ST_AirPressure | ST_GustSpeed | ST_GustDirection
  | ST_WindSpeed | ST_WindDirection | ST_Precipitation | ST_CO2Concentration
  | ST_COConcentration | ST_SoundPressureLevel | ST_RoomTemperatureSetpoint | ST_RoomTemperatureControlVariable
  | ST_Status | ST_Reserved1 | ST_Reserved2 | ST_OutputCurrent16A
  | ST_ActivePowerVA | ST_NotUsed | ST_UnknownType
  | ST_other int

text \<open>The integer value of an enumerator, \<^verbatim>\<open>static_cast<int>(x)\<close>.\<close>

primrec SensorType_value :: "SensorType \<Rightarrow> int" where
  "SensorType_value ST_ActivePower = 4"
| "SensorType_value ST_OutputCurrent = 5"
| "SensorType_value ST_ElectricMeter = 6"
| "SensorType_value ST_TemperatureIndoors = 9"
| "SensorType_value ST_TemperatureOutdoors = 10"
| "SensorType_value ST_BrightnessIndoors = 11"
| "SensorType_value ST_BrightnessOutdoors = 12"
| "SensorType_value ST_HumidityIndoors = 13"
| "SensorType_value ST_HumidityOutdoors = 14"
| "SensorType_value ST_AirPressure = 15"
| "SensorType_value ST_GustSpeed = 16"
| "SensorType_value ST_GustDirection = 17"
| "SensorType_value ST_WindSpeed = 18"
| "SensorType_value ST_WindDirection = 19"
| "SensorType_value ST_Precipitation = 20"
| "SensorType_value ST_CO2Concentration = 21"
| "SensorType_value ST_COConcentration = 22"
| "SensorType_value ST_SoundPressureLevel = 25"
| "SensorType_value ST_RoomTemperatureSetpoint = 50"
| "SensorType_value ST_RoomTemperatureControlVariable = 51"
| "SensorType_value ST_Status = 60"
| "SensorType_value ST_Reserved1 = 61"
| "SensorType_value ST_Reserved2 = 62"
| "SensorType_value ST_OutputCurrent16A = 64"
| "SensorType_value ST_ActivePowerVA = 65"
| "SensorType_value ST_NotUsed = 253"
| "SensorType_value ST_UnknownType = 255"
| "SensorType_value (ST_other i) = i"

primrec sensorTypeName :: "SensorType \<Rightarrow> string" where
  "sensorTypeName ST_Status = ''Status''"
| "sensorTypeName ST_ActivePower = ''Active Power''"
| "sensorTypeName ST_OutputCurrent = ''Output Current''"
| "sensorTypeName ST_ElectricMeter = ''Electric Meter''"
| "sensorTypeName ST_OutputCurrent16A = ''Output Current Ex''"
| "sensorTypeName ST_ActivePowerVA = ''Active Power Ex''"
| "sensorTypeName ST_TemperatureIndoors = ''Temperature Indoors''"
| "sensorTypeName ST_TemperatureOutdoors = ''Temperature Outdoors''"
| "sensorTypeName ST_BrightnessIndoors = ''Brightness Indoors''"
| "sensorTypeName ST_BrightnessOutdoors = ''Brightness Outdoors''"
| "sensorTypeName ST_HumidityIndoors = ''Humidity Indoors''"
| "sensorTypeName ST_HumidityOutdoors = ''Humidity Outdoors''"
| "sensorTypeName ST_AirPressure = ''Air Pressure''"
| "sensorTypeName ST_GustSpeed = ''Gust Speed''"
| "sensorTypeName ST_GustDirection = ''Gust Direction''"
| "sensorTypeName ST_WindSpeed = ''Wind Speed''"
| "sensorTypeName ST_WindDirection = ''Wind Direction''"
| "sensorTypeName ST_SoundPressureLevel = ''Sound Pressure Level''"
| "sensorTypeName ST_Precipitation = ''Precipitation''"
| "sensorTypeName ST_RoomTemperatureSetpoint = ''Nominal Temperature''"
| "sensorTypeName ST_RoomTemperatureControlVariable = ''Temperature Control Value''"
| "sensorTypeName ST_CO2Concentration = ''Carbon Dioxide Concentration''"
| "sensorTypeName ST_COConcentration = ''Carbon Monoxide Concentration''"
| "sensorTypeName ST_UnknownType = ''Unknown Type''"
| "sensorTypeName ST_Reserved1 = ''Reserved1''"
| "sensorTypeName ST_Reserved2 = ''Reserved2''"
| "sensorTypeName ST_NotUsed = ''NotUsed''"
| "sensorTypeName (ST_other i) = ''Invalid Type: '' @ int32ToString (word_of_int i)"

fun sensorTypeToPrecision :: "SensorType \<Rightarrow> u8" where
  "sensorTypeToPrecision ST_Status = 1"
| "sensorTypeToPrecision ST_RoomTemperatureControlVariable = 1"
| "sensorTypeToPrecision _ = 0"

section \<open>State values\<close>

definition State_Invalid :: int where
  "State_Invalid = 0"

definition State_Active :: int where
  "State_Active = 1"

definition State_Inactive :: int where
  "State_Inactive = 2"

definition State_Unknown :: int where
  "State_Unknown = 3"

lemmas state_consts = State_Invalid_def State_Active_def State_Inactive_def State_Unknown_def

datatype eStateType =
    StateType_Apartment | StateType_Device | StateType_Service | StateType_Group
  | StateType_Script | StateType_SensorZone | StateType_SensorDevice | StateType_Circuit

section \<open>The name tables\<close>

lemma map_of_table_print:
  assumes "\<And>s x. (s, x) \<in> set t \<Longrightarrow> f x = Some s"
  shows "map_of t s = Some x \<Longrightarrow> f x = Some s"
  using assms map_of_SomeD by metis

interpretation sft: name_table statusFieldTypeName statusFieldTypeFromName
proof
  fix x s
  assume "statusFieldTypeName x = Some s"
  moreover have "statusFieldTypeName x \<noteq> None \<Longrightarrow> statusFieldTypeFromName (the (statusFieldTypeName x)) = Some x"
    by (cases x) (simp_all add: statusFieldTypeFromName_def statusFieldTypeFromName_table_def)
  ultimately show "statusFieldTypeFromName s = Some x" by simp
next
  fix x s
  assume "statusFieldTypeFromName s = Some x"
  then have "map_of statusFieldTypeFromName_table s = Some x" by (simp only: statusFieldTypeFromName_def)
  then show "statusFieldTypeName x = Some s"
    by (rule map_of_table_print[rotated]) (auto simp: statusFieldTypeFromName_table_def)
qed

interpretation sfv: name_table statusFieldValueName statusFieldValueFromName
proof
  fix x s
  assume "statusFieldValueName x = Some s"
  moreover have "statusFieldValueName x \<noteq> None \<Longrightarrow> statusFieldValueFromName (the (statusFieldValueName x)) = Some x"
    by (cases x) (simp_all add: statusFieldValueFromName_def statusFieldValueFromName_table_def)
  ultimately show "statusFieldValueFromName s = Some x" by simp
next
  fix x s
  assume "statusFieldValueFromName s = Some x"
  then have "map_of statusFieldValueFromName_table s = Some x" by (simp only: statusFieldValueFromName_def)
  then show "statusFieldValueName x = Some s"
    by (rule map_of_table_print[rotated]) (auto simp: statusFieldValueFromName_table_def)
qed

interpretation hcm: name_table heatingControlModeName heatingControlModeFromName
proof
  fix x s
  assume "heatingControlModeName x = Some s"
  moreover have "heatingControlModeName x \<noteq> None \<Longrightarrow> heatingControlModeFromName (the (heatingControlModeName x)) = Some x"
    by (cases x) (simp_all add: heatingControlModeFromName_def heatingControlModeFromName_table_def)
  ultimately show "heatingControlModeFromName s = Some x" by simp
next
  fix x s
  assume "heatingControlModeFromName s = Some x"
  then have "map_of heatingControlModeFromName_table s = Some x" by (simp only: heatingControlModeFromName_def)
  then show "heatingControlModeName x = Some s"
    by (rule map_of_table_print[rotated]) (auto simp: heatingControlModeFromName_table_def)
qed

interpretation mf: name_table modelFeatureName modelFeatureFromName
proof
  fix x s
  assume "modelFeatureName x = Some s"
  moreover have "modelFeatureName x \<noteq> None \<Longrightarrow> modelFeatureFromName (the (modelFeatureName x)) = Some x"
    by (cases x) (simp_all add: modelFeatureFromName_def modelFeatureFromName_table_def)
  ultimately show "modelFeatureFromName s = Some x" by simp
next
  fix x s
  assume "modelFeatureFromName s = Some x"
  then have "map_of modelFeatureFromName_table s = Some x" by (simp only: modelFeatureFromName_def)
  then show "modelFeatureName x = Some s"
    by (rule map_of_table_print[rotated]) (auto simp: modelFeatureFromName_table_def)
qed

text \<open>
  The four name tables are exact inverses: a text is read as an enumerator if and only
  if it is the name printed for that enumerator; values outside the enumeration have no name
  and are never read.
\<close>

theorem name_tables_exact:
  "(modelFeatureFromName s = Some f \<longleftrightarrow> modelFeatureName f = Some s) \<and>
   (heatingControlModeFromName s = Some h \<longleftrightarrow> heatingControlModeName h = Some s) \<and>
   (statusFieldTypeFromName s = Some t \<longleftrightarrow> statusFieldTypeName t = Some s) \<and>
   (statusFieldValueFromName s = Some v \<longleftrightarrow> statusFieldValueName v = Some s)"
  by (simp only: mf.parse_iff_print hcm.parse_iff_print sft.parse_iff_print sfv.parse_iff_print)

section \<open>Classes of group numbers\<close>

lemmas group_class_defs =
  isDefaultGroup_def isAppUserGroup_def isZoneUserGroup_def isControlGroup_def
  isGlobalAppDsGroup_def isGlobalAppUserGroup_def isGlobalAppGroup_def isValidGroup_def

lemma isValidGroup_iff: "isValidGroup g \<longleftrightarrow> (1 \<le> g \<and> g \<le> 55) \<or> (64 \<le> g \<and> g \<le> 249)"
  by (auto simp: group_class_defs group_consts)

text \<open>
  The classes of group numbers partition the valid numbers, which are 1 to 55 and 64 to
  249: a number outside has no class, every other number has exactly one, and only the
  temperature control group 48 has two (it is a default and a control group).
\<close>

theorem group_classes_partition:
  "(isValidGroup g \<longleftrightarrow> (1 \<le> g \<and> g \<le> 55) \<or> (64 \<le> g \<and> g \<le> 249)) \<and>
   length (filter (\<lambda>p. p g) [isDefaultGroup, isAppUserGroup, isZoneUserGroup, isControlGroup,
     isGlobalAppDsGroup, isGlobalAppUserGroup])
     = (if g = GroupIDControlTemperature then 2 else if isValidGroup g then 1 else 0)"
proof -
  consider "g < 1" | "1 \<le> g \<and> g \<le> 15" | "16 \<le> g \<and> g \<le> 39" | "40 \<le> g \<and> g \<le> 47" | "g = 48"
    | "49 \<le> g \<and> g \<le> 55" | "56 \<le> g \<and> g \<le> 63" | "64 \<le> g \<and> g \<le> 187" | "188 \<le> g \<and> g \<le> 249"
    | "250 \<le> g" by linarith
  then show ?thesis
    by cases (simp_all add: group_class_defs group_consts)
qed

lemma getApplicationTypeColor_range: "getApplicationTypeColor t \<in> {0..8}"
  by (cases t) (simp_all add: group_consts)


end
