(* ===== verification/Scene_Helper.thy ===== *)
theory Scene_Helper
  imports Model_Const
begin

text \<open>
  The scene helper of \<^verbatim>\<open>src/src/model/scenehelper.cpp\<close>: which scene follows a scene when a
  push button is pressed again, which scenes a zone remembers, which scenes switch a group on
  or off, the names of scenes and the scenes a push button can reach.  Scene numbers are
  \<^verbatim>\<open>unsigned int\<close> values, no operation computes with them, so they are natural numbers.
\<close>

section \<open>Stepping through scenes\<close>

definition getNextScene :: "nat \<Rightarrow> nat" where
  "getNextScene s =
     (if s = SceneOff then Scene1
      else if s = Scene1 then Scene2
      else if s = Scene2 then Scene3
      else if s = Scene3 then Scene4
      else if s = Scene4 then Scene2
      else if s = SceneOnE1 then Scene12
      else if s = Scene12 then Scene13
      else if s = Scene13 then Scene14
      else if s = Scene14 then Scene12
      else if s = SceneOnE2 then Scene22
      else if s = Scene22 then Scene23
      else if s = Scene23 then Scene24
      else if s = Scene24 then Scene22
      else if s = SceneOnE3 then Scene32
      else if s = Scene32 then Scene33
      else if s = Scene33 then Scene34
      else if s = Scene34 then Scene32
      else if s = SceneOnE4 then Scene42
      else if s = Scene42 then Scene43
      else if s = Scene43 then Scene44
      else if s = Scene44 then Scene42
      else SceneOff)"

definition getPreviousScene :: "nat \<Rightarrow> nat" where
  "getPreviousScene s =
     (if s = Scene1 then Scene4
      else if s = Scene2 then Scene1
      else if s = Scene3 then Scene2
      else if s = Scene4 then Scene3
      else if s = SceneOnE1 then Scene14
      else if s = Scene12 then SceneOnE1
      else if s = Scene13 then Scene12
      else if s = Scene14 then Scene13
      else if s = SceneOnE2 then Scene24
      else if s = Scene22 then SceneOnE2
      else if s = Scene23 then Scene22
      else if s = Scene24 then Scene23
      else if s = SceneOnE3 then Scene34
      else if s = Scene32 then SceneOnE3
      else if s = Scene33 then Scene32
      else if s = Scene34 then Scene33
      else if s = SceneOnE4 then Scene44
      else if s = Scene42 then SceneOnE4
      else if s = Scene43 then Scene42
      else if s = Scene44 then Scene43
      else SceneOff)"

section \<open>Classes of scenes\<close>

text \<open>The bits that \<^verbatim>\<open>initialize\<close> sets in \<^verbatim>\<open>m_ZonesToIgnore\<close>.\<close>

definition zonesToIgnore :: "nat list" where
  "zonesToIgnore =
    [SceneInc, SceneIncA1, SceneIncA2, SceneIncA3, SceneIncA4,
     SceneDec, SceneDecA1, SceneDecA2, SceneDecA3, SceneDecA4,
     SceneDimArea, SceneStop, SceneStopA1, SceneStopA2, SceneStopA3,
     SceneStopA4, SceneBell, SceneEnergyOverload, SceneLocalOff, SceneLocalOn,
     SceneImpulse]"

definition rememberScene :: "nat \<Rightarrow> bool" where
  "rememberScene s = (if s \<le> MaxSceneNumber then s \<notin> set zonesToIgnore else False)"

definition isMultiTipSequence :: "nat \<Rightarrow> bool" where
  "isMultiTipSequence s \<longleftrightarrow> s \<in> set
    [Scene1, SceneA11, SceneA21, SceneA31, SceneA41,
     Scene2, Scene3, Scene4, SceneOnE1, Scene12,
     Scene13, Scene14, SceneOnE2, Scene22, Scene23,
     Scene24, SceneOnE3, Scene32, Scene33, Scene34,
     SceneOnE4, Scene42, Scene43, Scene44, SceneOff,
     SceneOffA1, SceneOffA2, SceneOffA3, SceneOffA4, SceneOffE1,
     SceneOffE2, SceneOffE3, SceneOffE4]"

definition isDimSequence :: "nat \<Rightarrow> bool" where
  "isDimSequence s \<longleftrightarrow> s \<in> set
    [SceneInc, SceneDec, SceneDimArea, SceneDecA1, SceneIncA1,
     SceneDecA2, SceneIncA2, SceneDecA3, SceneIncA3, SceneDecA4,
     SceneIncA4]"

definition isInRange :: "int \<Rightarrow> int \<Rightarrow> bool" where
  "isInRange sceneNumber zoneNumber =
     (let aboveZero = sceneNumber \<ge> 0;
          validForZone = (if zoneNumber = 0 then sceneNumber \<le> int MaxSceneNumber
                          else sceneNumber \<le> int MaxSceneNumberOutsideZoneZero)
      in aboveZero \<and> validForZone)"

datatype SceneOnState = SceneTrue | SceneFalse | SceneDontCare

definition lightOffScenes :: "nat list" where
  "lightOffScenes =
    [SceneOff, SceneDeepOff, SceneSleeping, SceneAutoOff, SceneAutoStandBy,
     SceneStandBy, SceneAbsent, SceneOffE1, SceneOffE2, SceneOffE3,
     SceneOffE4]"

definition lightOnScenes :: "nat list" where
  "lightOnScenes =
    [Scene1, Scene2, Scene3, Scene4, SceneOnE1,
     SceneOnE2, SceneOnE3, SceneOnE4, Scene12, Scene13,
     Scene14, Scene22, Scene23, Scene24, Scene32,
     Scene33, Scene34, Scene42, Scene43, Scene44,
     ScenePanic, SceneFire]"

definition heatingOffScenes :: "nat list" where
  "heatingOffScenes =
    [SceneOff, SceneDeepOff, SceneSleeping, SceneAutoOff, SceneAutoStandBy,
     SceneStandBy, SceneAbsent, SceneOffE1, SceneOffE2, SceneOffE3,
     SceneOffE4]"

definition heatingOnScenes :: "nat list" where
  "heatingOnScenes =
    [Scene1, Scene2, Scene3, Scene4, SceneOnE1,
     SceneOnE2, SceneOnE3, SceneOnE4, Scene12, Scene13,
     Scene14, Scene22, Scene23, Scene24, Scene32,
     Scene33, Scene34, Scene42, Scene43, Scene44]"

definition isOnScene :: "int \<Rightarrow> nat \<Rightarrow> SceneOnState" where
  "isOnScene groupID scene =
     (let ret = SceneDontCare;
          ret = (if groupID = GroupIDYellow
                 then if scene \<in> set lightOffScenes then SceneFalse
                      else if scene \<in> set lightOnScenes then SceneTrue else ret
                 else ret)
      in if groupID = GroupIDHeating
         then if scene \<in> set heatingOffScenes then SceneFalse
              else if scene \<in> set heatingOnScenes then SceneTrue else ret
         else ret)"

section \<open>Names of scenes\<close>

text \<open>
  A \<^verbatim>\<open>std::map\<close> built from a list of pairs keeps the first pair of each key, as \<open>map_of\<close> does.
\<close>

definition defaultSceneNames :: "(int \<times> string) list" where
  "defaultSceneNames =
    [(int SceneOff, ''Off''), (int SceneOffA1, ''Off-Area1''), (int SceneOffA2, ''Off-Area2''),
     (int SceneOffA3, ''Off-Area3''), (int SceneOffA4, ''Off-Area4''), (int Scene1, ''Preset1''),
     (int SceneA11, ''On-Area1''), (int SceneA21, ''On-Area2''), (int SceneA31, ''On-Area3''),
     (int SceneA41, ''On-Area4''), (int SceneDimArea, ''Dimm-Area''), (int SceneDec, ''Dec''),
     (int SceneInc, ''Inc''), (int SceneMin, ''Min''), (int SceneMax, ''Max''),
     (int SceneStop, ''Stop''), (int Scene2, ''Preset2''), (int Scene3, ''Preset3''),
     (int Scene4, ''Preset4''), (int Scene12, ''Preset12''), (int Scene13, ''Preset13''),
     (int Scene14, ''Preset14''), (int Scene22, ''Preset22''), (int Scene23, ''Preset23''),
     (int Scene24, ''Preset24''), (int Scene32, ''Preset32''), (int Scene33, ''Preset33''),
     (int Scene34, ''Preset34''), (int Scene42, ''Preset42''), (int Scene43, ''Preset43''),
     (int Scene44, ''Preset44''), (int SceneOffE1, ''Off-Preset10''), (int SceneOnE1, ''On-Preset11''),
     (int SceneOffE2, ''Off-Preset20''), (int SceneOnE2, ''On-Preset21''), (int SceneOffE3, ''Off-Preset30''),
     (int SceneOnE3, ''On-Preset31''), (int SceneOffE4, ''Off-Preset40''), (int SceneOnE4, ''On-Preset41''),
     (int SceneAutoOff, ''Off-Automatic''), (int SceneImpulse, ''Impuls''), (int SceneDecA1, ''Dec-Area1''),
     (int SceneIncA1, ''Inc-Area1''), (int SceneDecA2, ''Dec-Area2''), (int SceneIncA2, ''Inc-Area2''),
     (int SceneDecA3, ''Dec-Area3''), (int SceneIncA3, ''Inc-Area3''), (int SceneDecA4, ''Dec-Area4''),
     (int SceneIncA4, ''Inc-Area4''), (int SceneLocalOff, ''Off-Device''), (int SceneLocalOn, ''On-Device''),
     (int SceneStopA1, ''Stop-Area1''), (int SceneStopA2, ''Stop-Area2''), (int SceneStopA3, ''Stop-Area3''),
     (int SceneStopA4, ''Stop-Area4''), (int SceneSunProtection, ''Sunprotection''), (int SceneAutoStandBy, ''AutoStandBy''),
     (int ScenePanic, ''Panic''), (int SceneEnergyOverload, ''Overload''), (int SceneStandBy, ''Zone-Standby''),
     (int SceneDeepOff, ''Zone-Deep-Off''), (int SceneSleeping, ''Sleeping''), (int SceneWakeUp, ''Wake-Up''),
     (int ScenePresent, ''Present''), (int SceneAbsent, ''Absent''), (int SceneBell, ''Bell''),
     (int SceneAlarm, ''Alarm''), (int SceneRoomActivate, ''Zone-Activate''), (int SceneFire, ''Fire''),
     (int SceneSmoke, ''Smoke''), (int SceneWater, ''Water''), (int SceneGas, ''Gas''),
     (int SceneBell2, ''Bell2''), (int SceneBell3, ''Bell3''), (int SceneBell4, ''Bell4''),
     (int SceneAlarm2, ''Alarm2''), (int SceneAlarm3, ''Alarm3''), (int SceneAlarm4, ''Alarm4''),
     (int SceneWindActive, ''Wind''), (int SceneWindInactive, ''WindN''), (int SceneRainActive, ''Rain''),
     (int SceneRainInactive, ''RainN''), (int SceneHailActive, ''Hail''), (int SceneHailInactive, ''HailN'')]"

definition temperatureSceneNames :: "(int \<times> string) list" where
  "temperatureSceneNames =
    [(0, ''Off''), (1, ''Comfort''), (2, ''Economy''),
     (4, ''Night''), (5, ''Holiday''), (6, ''Cooling''),
     (7, ''CoolingOff''), (8, ''Manual''), (29, ''ClimateControlOn''),
     (30, ''ClimateControlOff''), (31, ''ValveProtection'')]"

definition ventilationSceneNames :: "(int \<times> string) list" where
  "ventilationSceneNames =
    [(int SceneOff, ''Off''), (int Scene1, ''Level1''), (int Scene2, ''Level2''),
     (int Scene3, ''Level3''), (int Scene4, ''Level4''), (int SceneBoost, ''Boost'')]"

definition name_or_unknown :: "string option \<Rightarrow> string" where
  "name_or_unknown r = (case r of Some s \<Rightarrow> s | None \<Rightarrow> ''Unknown'')"

definition getSceneName :: "int \<Rightarrow> int \<Rightarrow> string" where
  "getSceneName sceneId groupId =
     (if groupId = GroupIDControlTemperature
      then name_or_unknown (map_of temperatureSceneNames sceneId)
      else if groupId = GroupIDVentilation \<or> groupId = GroupIDGlobalAppDsVentilation
      then name_or_unknown (map_of ventilationSceneNames sceneId)
      else name_or_unknown (map_of defaultSceneNames sceneId))"

definition getAvailableScenes :: "nat list" where
  "getAvailableScenes =
    [SceneOff, SceneOffA1, SceneOffA2, SceneOffA3, SceneOffA4,
     Scene1, SceneA11, SceneA21, SceneA31, SceneA41,
     SceneDimArea, SceneDec, SceneInc, SceneMin, SceneMax,
     SceneStop, Scene2, Scene3, Scene4, Scene12,
     Scene13, Scene14, Scene22, Scene23, Scene24,
     Scene32, Scene33, Scene34, Scene42, Scene43,
     Scene44, SceneOffE1, SceneOnE1, SceneOffE2, SceneOnE2,
     SceneOffE3, SceneBoost, SceneOnE3, SceneOffE4, SceneOnE4,
     SceneAutoOff, SceneImpulse, SceneDecA1, SceneIncA1, SceneDecA2,
     SceneIncA2, SceneDecA3, SceneIncA3, SceneDecA4, SceneIncA4,
     SceneLocalOff, SceneLocalOn, SceneStopA1, SceneStopA2, SceneStopA3,
     SceneStopA4, SceneSunProtection, SceneAutoStandBy, ScenePanic, SceneEnergyOverload,
     SceneStandBy, SceneDeepOff, SceneSleeping, SceneWakeUp, ScenePresent,
     SceneAbsent, SceneBell, SceneAlarm, SceneRoomActivate, SceneFire,
     SceneSmoke, SceneWater, SceneGas, SceneBell2, SceneBell3,
     SceneBell4, SceneAlarm2, SceneAlarm3, SceneAlarm4, SceneWindActive,
     SceneWindInactive, SceneRainActive, SceneRainInactive, SceneHailActive, SceneHailInactive]"

definition defaultReachableScenes :: "(int \<times> nat list) list" where
  "defaultReachableScenes =
    [(0, [SceneOff, Scene2, Scene3, Scene4]),
     (1, [SceneOff, SceneOffA1, SceneA11, Scene2, Scene3, Scene4]),
     (2, [SceneOff, SceneOffA2, SceneA21, Scene2, Scene3, Scene4]),
     (3, [SceneOff, SceneOffA3, SceneA31, Scene2, Scene3, Scene4]),
     (4, [SceneOff, SceneOffA4, SceneA41, Scene2, Scene3, Scene4]),
     (5, [SceneOff, Scene1, Scene2, Scene3, Scene4]),
     (6, [SceneOff, SceneOffE1, SceneOnE1, Scene12, Scene13, Scene14]),
     (7, [SceneOff, SceneOffE2, SceneOnE2, Scene22, Scene23, Scene24]),
     (8, [SceneOff, SceneOffE3, SceneOnE3, Scene32, Scene33, Scene34]),
     (9, [SceneOff, SceneOffE4, SceneOnE4, Scene42, Scene43, Scene44]),
     (10, [SceneOff, SceneOffA1, SceneA11, Scene12, Scene13, Scene14]),
     (11, [SceneOff, SceneOffA2, SceneA21, Scene22, Scene23, Scene24]),
     (12, [SceneOff, SceneOffA3, SceneA31, Scene32, Scene33, Scene33]),
     (13, [SceneOff, SceneOffA4, SceneA41, Scene42, Scene43, Scene44])]"

definition jokerReachableScenes :: "(int \<times> nat list) list" where
  "jokerReachableScenes =
    [(1, [SceneAlarm]),
     (2, [ScenePanic]),
     (3, [SceneAbsent]),
     (5, [SceneBell])]"

definition ventilationReachableScenes :: "(int \<times> nat list) list" where
  "ventilationReachableScenes =
    [(5, [SceneOff, Scene1, Scene2, Scene3, Scene4, SceneBoost])]"

definition scenes_or_empty :: "nat list option \<Rightarrow> nat list" where
  "scenes_or_empty r = (case r of Some s \<Rightarrow> s | None \<Rightarrow> [])"

definition getReachableScenes :: "int \<Rightarrow> int \<Rightarrow> nat list" where
  "getReachableScenes buttonId grp =
     (if grp = GroupIDBlack then scenes_or_empty (map_of jokerReachableScenes buttonId)
      else if grp = GroupIDVentilation \<or> grp = GroupIDGlobalAppDsVentilation
      then scenes_or_empty (map_of ventilationReachableScenes buttonId)
      else scenes_or_empty (map_of defaultReachableScenes buttonId))"

section \<open>Cycles of scenes\<close>

text \<open>The scenes of the four presets of a push button and its four extended rows.\<close>

definition preset_scenes :: "nat list" where
  "preset_scenes =
     [Scene1, Scene2, Scene3, Scene4, SceneOnE1, Scene12, Scene13, Scene14, SceneOnE2, Scene22,
      Scene23, Scene24, SceneOnE3, Scene32, Scene33, Scene34, SceneOnE4, Scene42, Scene43, Scene44]"

lemma next_default: "s \<notin> set preset_scenes \<Longrightarrow> s \<noteq> SceneOff \<Longrightarrow> getNextScene s = SceneOff"
  by (simp add: getNextScene_def preset_scenes_def)

lemma prev_default: "s \<notin> set preset_scenes \<Longrightarrow> getPreviousScene s = SceneOff"
  by (simp add: getPreviousScene_def preset_scenes_def)

lemma next_preset:
  "s \<in> set (SceneOff # preset_scenes) \<Longrightarrow>
     getNextScene s \<in> set preset_scenes \<and>
     getNextScene (getNextScene (getNextScene (getNextScene (getNextScene s))))
       = getNextScene (getNextScene s)"
  unfolding preset_scenes_def
  by (simp only: list.set insert_iff empty_iff simp_thms)
     (elim disjE; simp add: getNextScene_def scene_consts)

lemma prev_preset:
  "s \<in> set preset_scenes \<Longrightarrow>
     getPreviousScene s \<in> set preset_scenes \<and>
     getPreviousScene (getPreviousScene (getPreviousScene (getPreviousScene s))) = s"
  unfolding preset_scenes_def
  by (simp only: list.set insert_iff empty_iff simp_thms)
     (elim disjE; simp add: getPreviousScene_def scene_consts)

lemma SceneOff_next: "getNextScene SceneOff = Scene1" "getPreviousScene SceneOff = SceneOff"
  by (simp_all add: getNextScene_def getPreviousScene_def scene_consts)

text \<open>
  Stepping through scenes is eventually periodic from every scene number: after three
  steps forward the scenes repeat with period three (presets 2, 3, 4 of a row), and after one
  step backward they repeat with period four.
\<close>

theorem scene_stepping_periodic:
  "(getNextScene ^^ 6) s = (getNextScene ^^ 3) s \<and>
   (getPreviousScene ^^ 5) s = getPreviousScene s"
proof
  show "(getNextScene ^^ 6) s = (getNextScene ^^ 3) s"
  proof (cases "s \<in> set (SceneOff # preset_scenes)")
    case True
    from next_preset[OF True] have "getNextScene (getNextScene (getNextScene (getNextScene
        (getNextScene (getNextScene s))))) = getNextScene (getNextScene (getNextScene s))"
      by metis
    then show ?thesis by (simp add: eval_nat_numeral)
  next
    case False
    then have "getNextScene s = SceneOff" using next_default by simp
    with next_preset[of SceneOff] show ?thesis by (simp add: eval_nat_numeral)
  qed
  show "(getPreviousScene ^^ 5) s = getPreviousScene s"
  proof (cases "s \<in> set preset_scenes")
    case True
    with prev_preset[OF True] show ?thesis by (simp add: eval_nat_numeral)
  next
    case False
    then show ?thesis by (simp add: eval_nat_numeral prev_default SceneOff_next)
  qed
qed

section \<open>Scenes that switch on or off\<close>

lemmas on_scene_defs =
  isOnScene_def lightOffScenes_def lightOnScenes_def heatingOffScenes_def heatingOnScenes_def

lemma preset_on:
  "s \<in> set preset_scenes \<Longrightarrow> isOnScene GroupIDYellow s = SceneTrue"
  unfolding preset_scenes_def
  by (simp only: list.set insert_iff empty_iff simp_thms)
     (elim disjE; simp add: on_scene_defs scene_consts group_consts)

text \<open>
  A step forward always reaches a scene with a definite light state: from the off scene
  or a preset it reaches a preset, which switches the light on, and from every other scene it
  reaches the off scene, which switches it off.
\<close>

theorem next_scene_light_state:
  "isOnScene GroupIDYellow (getNextScene s) =
     (if s \<in> set (SceneOff # preset_scenes) then SceneTrue else SceneFalse)"
proof (cases "s \<in> set (SceneOff # preset_scenes)")
  case True
  then show ?thesis using next_preset[OF True] preset_on by simp
next
  case False
  then show ?thesis
    using next_default[of s] by (simp add: on_scene_defs scene_consts group_consts)
qed

lemma light_scenes_eq:
  "lightOffScenes = heatingOffScenes" "lightOnScenes = heatingOnScenes @ [ScenePanic, SceneFire]"
  by (simp_all add: on_scene_defs)

text \<open>
  Only lights and heating track a state; heating follows the light groups on every scene
  except panic and fire, which switch the light on and leave the heating alone.
\<close>

theorem isOnScene_groups:
  "isOnScene GroupIDHeating s =
     (if s = ScenePanic \<or> s = SceneFire then SceneDontCare else isOnScene GroupIDYellow s) \<and>
   (g = GroupIDYellow \<or> g = GroupIDHeating \<or> isOnScene g s = SceneDontCare)"
proof -
  have "ScenePanic \<notin> set (heatingOffScenes @ heatingOnScenes)"
    "SceneFire \<notin> set (heatingOffScenes @ heatingOnScenes)"
    by (simp_all add: heatingOffScenes_def heatingOnScenes_def scene_consts)
  then show ?thesis by (auto simp: isOnScene_def light_scenes_eq group_consts)
qed

section \<open>Consistency of the scene classes\<close>

text \<open>
  The scenes of a multi-tip sequence are remembered by a zone, the scenes of a dimming
  sequence are not, and remembered scenes are at most 127.
\<close>

theorem scene_classes_consistent:
  "\<not> (isMultiTipSequence s \<and> \<not> rememberScene s) \<and>
   \<not> (isDimSequence s \<and> rememberScene s) \<and>
   \<not> (rememberScene s \<and> s > MaxSceneNumber)"
  by (auto simp: isMultiTipSequence_def isDimSequence_def rememberScene_def zonesToIgnore_def scene_consts)

text \<open>
  Two scene constants collide: the dimming scene of area 4 has the number of the local
  off scene, so local off is classified as dimming and is called Inc-Area4 outside the
  temperature and ventilation groups, although the table also gives it the name Off-Device.
\<close>

theorem scene_constants_collide:
  "SceneIncA4 = SceneLocalOff \<and> isDimSequence SceneLocalOff \<and>
   (int SceneLocalOff, ''Off-Device'') \<in> set defaultSceneNames \<and>
   getSceneName (int SceneLocalOff) GroupIDYellow = ''Inc-Area4''"
proof -
  have "SceneIncA4 = SceneLocalOff" by (simp add: scene_consts)
  moreover have "(int SceneLocalOff, ''Off-Device'') \<in> set defaultSceneNames"
    by (simp add: defaultSceneNames_def)
  moreover have "map_of defaultSceneNames (int SceneLocalOff) = Some ''Inc-Area4''"
    by (simp add: defaultSceneNames_def scene_consts)
  ultimately show ?thesis
    by (simp add: getSceneName_def name_or_unknown_def isDimSequence_def group_consts)
qed

section \<open>Reachable scenes\<close>

lemma scenes_or_empty_map_of:
  assumes "\<forall>(k, xs) \<in> set t. P xs" "P []"
  shows "P (scenes_or_empty (map_of t b))"
  using assms by (auto simp: scenes_or_empty_def split: option.split dest!: map_of_SomeD)

lemma getReachableScenes_ind:
  assumes "P []" "\<forall>(k, xs) \<in> set defaultReachableScenes. P xs"
    "\<forall>(k, xs) \<in> set jokerReachableScenes. P xs"
    "\<forall>(k, xs) \<in> set ventilationReachableScenes. P xs"
  shows "P (getReachableScenes b g)"
  using assms scenes_or_empty_map_of[of _ P b] by (auto simp: getReachableScenes_def)

lemmas reachable_defs =
  defaultReachableScenes_def jokerReachableScenes_def ventilationReachableScenes_def

text \<open>
  Every scene a push button can reach is one of the available scenes and a valid apartment
  scene number.
\<close>

theorem reachable_scenes_available:
  "set (getReachableScenes b g) \<subseteq> set getAvailableScenes \<and>
   list_all (\<lambda>s. isInRange (int s) 0) (getReachableScenes b g)"
proof (rule getReachableScenes_ind)
  show "\<forall>(k, xs) \<in> set defaultReachableScenes.
      set xs \<subseteq> set getAvailableScenes \<and> list_all (\<lambda>s. isInRange (int s) 0) xs"
    by (simp add: reachable_defs getAvailableScenes_def isInRange_def) (simp add: scene_consts)
  show "\<forall>(k, xs) \<in> set jokerReachableScenes.
      set xs \<subseteq> set getAvailableScenes \<and> list_all (\<lambda>s. isInRange (int s) 0) xs"
    by (simp add: reachable_defs getAvailableScenes_def isInRange_def) (simp add: scene_consts)
  show "\<forall>(k, xs) \<in> set ventilationReachableScenes.
      set xs \<subseteq> set getAvailableScenes \<and> list_all (\<lambda>s. isInRange (int s) 0) xs"
    by (simp add: reachable_defs getAvailableScenes_def isInRange_def) (simp add: scene_consts)
qed simp

text \<open>
  The extended push button of area 3 (button 12) reaches preset 33 twice and never preset
  34, whereas its three siblings reach the last preset of their row.
\<close>

theorem area3_extended_lacks_preset34:
  "getReachableScenes 12 GroupIDYellow = [SceneOff, SceneOffA3, SceneA31, Scene32, Scene33, Scene33] \<and>
   Scene34 \<notin> set (getReachableScenes 12 GroupIDYellow) \<and>
   Scene14 \<in> set (getReachableScenes 10 GroupIDYellow) \<and>
   Scene24 \<in> set (getReachableScenes 11 GroupIDYellow) \<and>
   Scene44 \<in> set (getReachableScenes 13 GroupIDYellow)"
  by (simp add: getReachableScenes_def scenes_or_empty_def reachable_defs group_consts scene_consts)


end
