(* ===== verification/Property_Node.thy ===== *)
theory Property_Node
  imports Base_Encoding
begin

text \<open>
  The property tree of \<^verbatim>\<open>src/src/propertysystem.cpp\<close> and \<^verbatim>\<open>src/src/propertysystem.h\<close>: its data
  and the operations of \<^verbatim>\<open>PropertyNode\<close> on values, proxies, aliases, children and paths.
  Listeners, the destructor, XML output and \<^verbatim>\<open>PropertySystem\<close> follow in \<open>Property_System\<close>.

  Nodes point at each other (parent, children, alias target, aliases), so the tree is an
  explicit heap from node numbers to node records; a node number below \<open>nextId\<close> is allocated.
  The program variables that proxies read and write are a second store, \<open>memory\<close>.  An
  operation returns the heap and either an error, which is the exception the source throws or
  the undefined behaviour it runs into, or a result.  A method of a node with an alias target
  calls itself on the target; a cycle of aliases makes it call itself forever, which is the
  error \<open>Diverges\<close>.  The callbacks of listeners are recorded in order; listeners that change
  the tree from a callback are not modelled.
\<close>

section \<open>Data\<close>

type_synonym nodeid = nat
type_synonym listener = nat

datatype aValueType =
    vTypeNone | vTypeInteger | vTypeString | vTypeBoolean | vTypeFloating | vTypeUnsignedInteger

text \<open>The union \<^verbatim>\<open>actualValue\<close>; \<open>UZero\<close> is the state after \<^verbatim>\<open>memset\<close>, with a NULL string pointer.\<close>

datatype actualValue =
    UZero | UString string | UInteger u32 | UUnsigned u32 | UBoolean bool | UFloating u64

text \<open>Values of the five C++ types a property can have; a double is its bit pattern.\<close>

datatype cvalue =
    CString string | CInteger u32 | CUnsigned u32 | CBoolean bool | CFloating u64

fun type_of :: "cvalue \<Rightarrow> aValueType" where
  "type_of (CString _) = vTypeString"
| "type_of (CInteger _) = vTypeInteger"
| "type_of (CUnsigned _) = vTypeUnsignedInteger"
| "type_of (CBoolean _) = vTypeBoolean"
| "type_of (CFloating _) = vTypeFloating"

fun actual_of :: "cvalue \<Rightarrow> actualValue" where
  "actual_of (CString s) = UString s"
| "actual_of (CInteger i) = UInteger i"
| "actual_of (CUnsigned i) = UUnsigned i"
| "actual_of (CBoolean b) = UBoolean b"
| "actual_of (CFloating d) = UFloating d"

type_synonym memory = "nat \<Rightarrow> cvalue"

text \<open>A proxy object: the type parameter of its class and its two virtual methods.\<close>

record proxy =
  p_type :: aValueType
  p_get :: "memory \<Rightarrow> cvalue"
  p_set :: "cvalue \<Rightarrow> memory \<Rightarrow> memory"

record pnode =
  m_Name :: string
  m_Index :: int
  m_ValueType :: aValueType
  m_Actual :: actualValue
  m_Proxy :: "proxy option"
  m_ChildNodes :: "nodeid list option"
  m_AliasedBy :: "nodeid list"
  m_Listeners :: "listener list option"
  m_ParentNode :: "nodeid option"
  m_AliasTarget :: "nodeid option"
  m_Flags :: u8

datatype callback = propertyChangedCb | propertyRemovedCb | propertyAddedCb

text \<open>A call of a listener: which callback, on whom, from which node, about which node.\<close>

datatype notification = Notify callback listener nodeid nodeid

text \<open>\<open>m_Properties\<close> holds, for each listener, the nodes it is registered with.\<close>

record pheap =
  nodes :: "nodeid \<Rightarrow> pnode"
  nextId :: nodeid
  mem :: memory
  m_Properties :: "listener \<Rightarrow> nodeid list"
  trace :: "notification list"

datatype perror =
    PropertyTypeMismatch string
  | StdRuntimeError string
  | StdLogicError
  | StdOutOfRange
  | RequireFailed string
  | AssertionFailed
  | Terminate
  | ReadPastEnd
  | UnionPun
  | NullDeref
  | BadConversion
  | Diverges

type_synonym 'a result = "pheap \<times> (perror + 'a)"

abbreviation node :: "pheap \<Rightarrow> nodeid \<Rightarrow> pnode" where
  "node h n \<equiv> nodes h n"

definition upd :: "pheap \<Rightarrow> nodeid \<Rightarrow> (pnode \<Rightarrow> pnode) \<Rightarrow> pheap" where
  "upd h n f = h\<lparr>nodes := (nodes h)(n := f (nodes h n))\<rparr>"

text \<open>The flags \<^verbatim>\<open>Readable\<close>, \<^verbatim>\<open>Writeable\<close> and \<^verbatim>\<open>Archive\<close>.\<close>

definition Readable :: u8 where "Readable = 1"
definition Writeable :: u8 where "Writeable = 2"
definition Archive :: u8 where "Archive = 4"

text \<open>The constructor.\<close>

definition newPropertyNode :: "string \<Rightarrow> int \<Rightarrow> pnode" where
  "newPropertyNode name index =
     \<lparr>m_Name = name, m_Index = index, m_ValueType = vTypeNone, m_Actual = UZero, m_Proxy = None,
      m_ChildNodes = None, m_AliasedBy = [], m_Listeners = None, m_ParentNode = None,
      m_AliasTarget = None, m_Flags = Readable OR Writeable\<rparr>"

definition make_shared :: "pheap \<Rightarrow> string \<Rightarrow> int \<Rightarrow> pheap \<times> nodeid" where
  "make_shared h name index =
     (h\<lparr>nodes := (nodes h)(nextId h := newPropertyNode name index), nextId := nextId h + 1\<rparr>, nextId h)"

text \<open>A property system starts with its root node, number 0.\<close>

definition emptySystem :: pheap where
  "emptySystem =
     \<lparr>nodes = (\<lambda>_. newPropertyNode ''/'' 0), nextId = 1, mem = (\<lambda>_. CInteger 0),
      m_Properties = (\<lambda>_. []), trace = []\<rparr>"

section \<open>Proxies\<close>

fun DefaultValue :: "aValueType \<Rightarrow> cvalue" where
  "DefaultValue vTypeString = CString []"
| "DefaultValue vTypeUnsignedInteger = CUnsigned 0"
| "DefaultValue vTypeBoolean = CBoolean False"
| "DefaultValue vTypeFloating = CFloating 0"
| "DefaultValue _ = CInteger 0"

definition PropertyProxyReference :: "aValueType \<Rightarrow> nat \<Rightarrow> bool \<Rightarrow> proxy" where
  "PropertyProxyReference t var writeable =
     \<lparr>p_type = t, p_get = (\<lambda>m. m var), p_set = (\<lambda>v m. if writeable then m(var := v) else m)\<rparr>"

text \<open>\<open>ts\<close> stands for the overload of \<^verbatim>\<open>toString\<close> for the referenced type.\<close>

definition PropertyProxyToString :: "(cvalue \<Rightarrow> string) \<Rightarrow> nat \<Rightarrow> proxy" where
  "PropertyProxyToString ts var =
     \<lparr>p_type = vTypeString, p_get = (\<lambda>m. CString (ts (m var))), p_set = (\<lambda>_ m. m)\<rparr>"

definition PropertyProxyPointer :: "aValueType \<Rightarrow> nat \<Rightarrow> proxy" where
  "PropertyProxyPointer t var =
     \<lparr>p_type = t, p_get = (\<lambda>m. m var), p_set = (\<lambda>v m. m(var := v))\<rparr>"

definition PropertyProxyStaticFunction ::
    "aValueType \<Rightarrow> (memory \<Rightarrow> cvalue) option \<Rightarrow> (cvalue \<Rightarrow> memory \<Rightarrow> memory) option \<Rightarrow> proxy" where
  "PropertyProxyStaticFunction t getter setter =
     \<lparr>p_type = t,
      p_get = (case getter of Some g \<Rightarrow> g | None \<Rightarrow> (\<lambda>_. DefaultValue t)),
      p_set = (case setter of Some s \<Rightarrow> s | None \<Rightarrow> (\<lambda>_ m. m))\<rparr>"

text \<open>The object is present either as mutable or as constant; only a mutable one is set.\<close>

definition PropertyProxyMemberFunction ::
    "aValueType \<Rightarrow> bool \<Rightarrow> bool \<Rightarrow> (memory \<Rightarrow> cvalue) option \<Rightarrow> (cvalue \<Rightarrow> memory \<Rightarrow> memory) option \<Rightarrow> proxy" where
  "PropertyProxyMemberFunction t hasObj hasConstObj getter setter =
     \<lparr>p_type = t,
      p_get = (case getter of
                 Some g \<Rightarrow> if hasObj then g else if hasConstObj then g else (\<lambda>_. DefaultValue t)
               | None \<Rightarrow> (\<lambda>_. DefaultValue t)),
      p_set = (case setter of Some s \<Rightarrow> if hasObj then s else (\<lambda>_ m. m) | None \<Rightarrow> (\<lambda>_ m. m))\<rparr>"

definition IsLinkedToProxy :: "pheap \<Rightarrow> nodeid \<Rightarrow> bool" where
  "IsLinkedToProxy h n \<longleftrightarrow> m_Proxy (node h n) \<noteq> None"

section \<open>Following aliases and parents\<close>

partial_function (option) alias_end :: "pheap \<Rightarrow> nodeid \<Rightarrow> nodeid option" where
  "alias_end h n =
     (case m_AliasTarget (node h n) of None \<Rightarrow> Some n | Some t \<Rightarrow> alias_end h t)"

text \<open>A method that forwards to the alias target runs on the end of the alias chain.\<close>

definition forward :: "pheap \<Rightarrow> nodeid \<Rightarrow> (nodeid \<Rightarrow> 'a result) \<Rightarrow> 'a result" where
  "forward h n f = (case alias_end h n of None \<Rightarrow> (h, Inl Diverges) | Some m \<Rightarrow> f m)"

definition forwardGet :: "pheap \<Rightarrow> nodeid \<Rightarrow> (nodeid \<Rightarrow> perror + 'a) \<Rightarrow> perror + 'a" where
  "forwardGet h n f = (case alias_end h n of None \<Rightarrow> Inl Diverges | Some m \<Rightarrow> f m)"

text \<open>The calls \<^verbatim>\<open>notifyListeners\<close> makes on a node and then on its ancestors.\<close>

partial_function (option) notifications ::
    "pheap \<Rightarrow> callback \<Rightarrow> nodeid \<Rightarrow> nodeid \<Rightarrow> notification list option" where
  "notifications h cb n about =
     (let here = (case m_Listeners (node h n) of
                    None \<Rightarrow> [] | Some ls \<Rightarrow> map (\<lambda>l. Notify cb l n about) ls)
      in case m_ParentNode (node h n) of
           None \<Rightarrow> Some here
         | Some p \<Rightarrow> Option.bind (notifications h cb p about) (\<lambda>r. Some (here @ r)))"

definition notifyListeners :: "pheap \<Rightarrow> callback \<Rightarrow> nodeid \<Rightarrow> nodeid \<Rightarrow> 'a \<Rightarrow> 'a result" where
  "notifyListeners h cb n about ret =
     (case notifications h cb n about of
        None \<Rightarrow> (h, Inl Diverges)
      | Some ns \<Rightarrow> (h\<lparr>trace := trace h @ ns\<rparr>, Inr ret))"

definition propertyChanged :: "pheap \<Rightarrow> nodeid \<Rightarrow> unit result" where
  "propertyChanged h n = notifyListeners h propertyChangedCb n n ()"

definition childAdded :: "pheap \<Rightarrow> nodeid \<Rightarrow> nodeid \<Rightarrow> unit result" where
  "childAdded h n child = notifyListeners h propertyAddedCb n child ()"

definition childRemoved :: "pheap \<Rightarrow> nodeid \<Rightarrow> nodeid \<Rightarrow> unit result" where
  "childRemoved h n child = notifyListeners h propertyRemovedCb n child ()"

definition andThen :: "'a result \<Rightarrow> (pheap \<Rightarrow> 'a \<Rightarrow> 'b result) \<Rightarrow> 'b result" where
  "andThen r f = (case r of (h, Inl e) \<Rightarrow> (h, Inl e) | (h, Inr x) \<Rightarrow> f h x)"

section \<open>Values\<close>

definition mismatch :: "pheap \<Rightarrow> nodeid \<Rightarrow> perror" where
  "mismatch h n = PropertyTypeMismatch (''Property-Type mismatch: '' @ m_Name (node h n))"

text \<open>
  \<^verbatim>\<open>clearValue\<close> frees the string pointer when the type is string; with another member of the
  union written last, the pointer is garbage.
\<close>

fun owns_string :: "actualValue \<Rightarrow> bool" where
  "owns_string UZero = True"
| "owns_string (UString _) = True"
| "owns_string _ = False"

definition clearValue :: "pnode \<Rightarrow> perror + pnode" where
  "clearValue x =
     (if m_ValueType x = vTypeString \<and> \<not> owns_string (m_Actual x) then Inl UnionPun
      else Inr (x\<lparr>m_ValueType := vTypeNone, m_Actual := UZero\<rparr>))"

text \<open>
  The body the five setters share once the alias is resolved: \<open>v\<close> is the value handed to the
  proxy, \<open>a\<close> the member of the union that is written.
\<close>

definition setTyped :: "pheap \<Rightarrow> nodeid \<Rightarrow> aValueType \<Rightarrow> cvalue \<Rightarrow> actualValue \<Rightarrow> unit result" where
  "setTyped h n t v a =
     (let x = node h n;
          finish = (\<lambda>h. propertyChanged (upd h n (\<lambda>x. x\<lparr>m_ValueType := t\<rparr>)) n)
      in case m_Proxy x of
           Some p \<Rightarrow> if m_ValueType x = t then finish (h\<lparr>mem := p_set p v (mem h)\<rparr>)
                     else (h, Inl (mismatch h n))
         | None \<Rightarrow> (case clearValue x of
                      Inl e \<Rightarrow> (h, Inl e)
                    | Inr y \<Rightarrow> finish (upd h n (\<lambda>_. y\<lparr>m_Actual := a\<rparr>))))"

text \<open>\<^verbatim>\<open>setStringValue(const char*)\<close>; \<open>None\<close> is NULL, from which no \<^verbatim>\<open>std::string\<close> for a proxy can be made.\<close>

definition setStringPtr :: "pheap \<Rightarrow> nodeid \<Rightarrow> string option \<Rightarrow> unit result" where
  "setStringPtr h n value =
     forward h n (\<lambda>m.
       case value of
         Some s \<Rightarrow> setTyped h m vTypeString (CString s) (UString s)
       | None \<Rightarrow> if IsLinkedToProxy h m \<and> m_ValueType (node h m) = vTypeString
                 then (h, Inl StdLogicError)
                 else setTyped h m vTypeString (CString []) UZero)"

definition setStringValue :: "pheap \<Rightarrow> nodeid \<Rightarrow> string \<Rightarrow> unit result" where
  "setStringValue h n value = setStringPtr h n (Some (c_str value))"

definition setIntegerValue :: "pheap \<Rightarrow> nodeid \<Rightarrow> u32 \<Rightarrow> unit result" where
  "setIntegerValue h n value =
     forward h n (\<lambda>m. setTyped h m vTypeInteger (CInteger value) (UInteger value))"

definition setUnsignedIntegerValue :: "pheap \<Rightarrow> nodeid \<Rightarrow> u32 \<Rightarrow> unit result" where
  "setUnsignedIntegerValue h n value =
     forward h n (\<lambda>m. setTyped h m vTypeUnsignedInteger (CUnsigned value) (UUnsigned value))"

definition setBooleanValue :: "pheap \<Rightarrow> nodeid \<Rightarrow> bool \<Rightarrow> unit result" where
  "setBooleanValue h n value =
     forward h n (\<lambda>m. setTyped h m vTypeBoolean (CBoolean value) (UBoolean value))"

definition setFloatingValue :: "pheap \<Rightarrow> nodeid \<Rightarrow> u64 \<Rightarrow> unit result" where
  "setFloatingValue h n value =
     forward h n (\<lambda>m. setTyped h m vTypeFloating (CFloating value) (UFloating value))"

text \<open>The template \<^verbatim>\<open>setValue<T>\<close>: the type of the value selects the setter.\<close>

fun setValue :: "pheap \<Rightarrow> nodeid \<Rightarrow> cvalue \<Rightarrow> unit result" where
  "setValue h n (CString s) = setStringValue h n s"
| "setValue h n (CInteger i) = setIntegerValue h n i"
| "setValue h n (CUnsigned i) = setUnsignedIntegerValue h n i"
| "setValue h n (CBoolean b) = setBooleanValue h n b"
| "setValue h n (CFloating d) = setFloatingValue h n d"

text \<open>
  Reading a member of the union: after \<^verbatim>\<open>memset\<close> all members are zero, and a \<^verbatim>\<open>std::string\<close>
  made from a NULL pointer raises \<^verbatim>\<open>std::logic_error\<close>.
\<close>

fun readUnion :: "aValueType \<Rightarrow> actualValue \<Rightarrow> perror + cvalue" where
  "readUnion vTypeString (UString s) = Inr (CString s)"
| "readUnion vTypeString UZero = Inl StdLogicError"
| "readUnion vTypeInteger (UInteger i) = Inr (CInteger i)"
| "readUnion vTypeInteger UZero = Inr (CInteger 0)"
| "readUnion vTypeUnsignedInteger (UUnsigned i) = Inr (CUnsigned i)"
| "readUnion vTypeUnsignedInteger UZero = Inr (CUnsigned 0)"
| "readUnion vTypeBoolean (UBoolean b) = Inr (CBoolean b)"
| "readUnion vTypeBoolean UZero = Inr (CBoolean False)"
| "readUnion vTypeFloating (UFloating d) = Inr (CFloating d)"
| "readUnion vTypeFloating UZero = Inr (CFloating 0)"
| "readUnion _ _ = Inl UnionPun"

definition getTyped :: "pheap \<Rightarrow> nodeid \<Rightarrow> aValueType \<Rightarrow> perror + cvalue" where
  "getTyped h n t =
     (let x = node h n
      in if m_ValueType x = t then
           (case m_Proxy x of
              Some p \<Rightarrow> Inr (p_get p (mem h))
            | None \<Rightarrow> readUnion t (m_Actual x))
         else Inl (mismatch h n))"

definition getStringValue :: "pheap \<Rightarrow> nodeid \<Rightarrow> perror + string" where
  "getStringValue h n =
     forwardGet h n (\<lambda>m. case getTyped h m vTypeString of
        Inl e \<Rightarrow> Inl e | Inr (CString s) \<Rightarrow> Inr s | _ \<Rightarrow> Inl UnionPun)"

definition getIntegerValue :: "pheap \<Rightarrow> nodeid \<Rightarrow> perror + u32" where
  "getIntegerValue h n =
     forwardGet h n (\<lambda>m. case getTyped h m vTypeInteger of
        Inl e \<Rightarrow> Inl e | Inr (CInteger i) \<Rightarrow> Inr i | _ \<Rightarrow> Inl UnionPun)"

definition getUnsignedIntegerValue :: "pheap \<Rightarrow> nodeid \<Rightarrow> perror + u32" where
  "getUnsignedIntegerValue h n =
     forwardGet h n (\<lambda>m. case getTyped h m vTypeUnsignedInteger of
        Inl e \<Rightarrow> Inl e | Inr (CUnsigned i) \<Rightarrow> Inr i | _ \<Rightarrow> Inl UnionPun)"

definition getBoolValue :: "pheap \<Rightarrow> nodeid \<Rightarrow> perror + bool" where
  "getBoolValue h n =
     forwardGet h n (\<lambda>m. case getTyped h m vTypeBoolean of
        Inl e \<Rightarrow> Inl e | Inr (CBoolean b) \<Rightarrow> Inr b | _ \<Rightarrow> Inl UnionPun)"

definition getFloatingValue :: "pheap \<Rightarrow> nodeid \<Rightarrow> perror + u64" where
  "getFloatingValue h n =
     forwardGet h n (\<lambda>m. case getTyped h m vTypeFloating of
        Inl e \<Rightarrow> Inl e | Inr (CFloating d) \<Rightarrow> Inr d | _ \<Rightarrow> Inl UnionPun)"

text \<open>\<^verbatim>\<open>getValueType\<close> looks through one alias only.\<close>

definition getValueType :: "pheap \<Rightarrow> nodeid \<Rightarrow> aValueType" where
  "getValueType h n =
     (case m_AliasTarget (node h n) of
        Some t \<Rightarrow> m_ValueType (node h t) | None \<Rightarrow> m_ValueType (node h n))"

text \<open>\<open>dts\<close> stands for \<^verbatim>\<open>doubleToString\<close>, which prints through a C++ stream.\<close>

definition getAsString :: "(u64 \<Rightarrow> string) \<Rightarrow> pheap \<Rightarrow> nodeid \<Rightarrow> perror + string" where
  "getAsString dts h n =
     forwardGet h n (\<lambda>m. case getValueType h m of
        vTypeString \<Rightarrow> getStringValue h m
      | vTypeInteger \<Rightarrow> map_sum id int32ToString (getIntegerValue h m)
      | vTypeFloating \<Rightarrow> map_sum id dts (getFloatingValue h m)
      | vTypeUnsignedInteger \<Rightarrow> map_sum id uint32ToString (getUnsignedIntegerValue h m)
      | vTypeBoolean \<Rightarrow> map_sum id (\<lambda>b. if b then ''true'' else ''false'') (getBoolValue h m)
      | vTypeNone \<Rightarrow> Inr [])"

definition hasFlag :: "pheap \<Rightarrow> nodeid \<Rightarrow> u8 \<Rightarrow> bool" where
  "hasFlag h n flag \<longleftrightarrow> m_Flags (node h n) AND flag = flag"

definition setFlag :: "pheap \<Rightarrow> nodeid \<Rightarrow> u8 \<Rightarrow> bool \<Rightarrow> unit result" where
  "setFlag h n flag value =
     (let oldFlags = m_Flags (node h n);
          newFlags = (if value then oldFlags OR flag else oldFlags AND NOT flag);
          h1 = upd h n (\<lambda>x. x\<lparr>m_Flags := newFlags\<rparr>)
      in if oldFlags \<noteq> newFlags then propertyChanged h1 n else (h1, Inr ()))"

section \<open>Proxies and aliases of a node\<close>

definition linkToProxy :: "pheap \<Rightarrow> nodeid \<Rightarrow> proxy \<Rightarrow> pheap \<times> bool" where
  "linkToProxy h n p =
     (if IsLinkedToProxy h n \<or> m_AliasTarget (node h n) \<noteq> None then (h, False)
      else (upd h n (\<lambda>x. x\<lparr>m_Proxy := Some p, m_ValueType := p_type p\<rparr>), True))"

definition children :: "pheap \<Rightarrow> nodeid \<Rightarrow> nodeid list" where
  "children h n = (case m_ChildNodes (node h n) of None \<Rightarrow> [] | Some cs \<Rightarrow> cs)"

text \<open>\<open>fuel\<close> bounds the depth of the nested calls; without enough of it the call does not return.\<close>

fun unlinkProxy :: "nat \<Rightarrow> pheap \<Rightarrow> nodeid \<Rightarrow> bool \<Rightarrow> bool result"
and unlinkChildren :: "nat \<Rightarrow> pheap \<Rightarrow> nodeid list \<Rightarrow> unit result" where
  "unlinkProxy 0 h n recurse = (h, Inl Diverges)"
| "unlinkProxy (Suc fuel) h n recurse =
     andThen (if recurse then unlinkChildren fuel h (children h n) else (h, Inr ())) (\<lambda>h _.
       if IsLinkedToProxy h n then
         (if getValueType h n = vTypeNone then (h, Inl AssertionFailed)
          else (upd h n (\<lambda>x. x\<lparr>m_Proxy := None\<rparr>), Inr True))
       else (h, Inr False))"
| "unlinkChildren fuel h [] = (h, Inr ())"
| "unlinkChildren fuel h (c # cs) =
     andThen (unlinkProxy fuel h c True) (\<lambda>h _. unlinkChildren fuel h cs)"

definition aliasTo :: "pheap \<Rightarrow> nodeid \<Rightarrow> nodeid option \<Rightarrow> unit result" where
  "aliasTo h n target =
     (if children h n \<noteq> [] then (h, Inl (StdRuntimeError ''Cannot alias node if it has children''))
      else if IsLinkedToProxy h n
      then (h, Inl (StdRuntimeError ''Cannot alias node if it is linked to a proxy''))
      else case target of
             None \<Rightarrow>
               (case m_AliasTarget (node h n) of
                  None \<Rightarrow> (h, Inr ())
                | Some t \<Rightarrow>
                    if n \<in> set (m_AliasedBy (node h t)) then
                      (let h1 = upd h t (\<lambda>x. x\<lparr>m_AliasedBy := remove1 n (m_AliasedBy x)\<rparr>)
                       in (upd h1 n (\<lambda>x. x\<lparr>m_AliasTarget := None\<rparr>), Inr ()))
                    else (h, Inl AssertionFailed))
           | Some t \<Rightarrow>
               (case clearValue (node h n) of
                  Inl e \<Rightarrow> (h, Inl e)
                | Inr y \<Rightarrow>
                    (let h1 = upd h n (\<lambda>_. y\<lparr>m_AliasTarget := Some t\<rparr>)
                     in (upd h1 t (\<lambda>x. x\<lparr>m_AliasedBy := m_AliasedBy x @ [n]\<rparr>), Inr ()))))"

section \<open>Children\<close>

text \<open>\<^verbatim>\<open>getChildNodes\<close>, \<^verbatim>\<open>getChildCount\<close> and \<^verbatim>\<open>getChild\<close> look through one alias only, \<^verbatim>\<open>size\<close> through none.\<close>

definition getChildNodes :: "pheap \<Rightarrow> nodeid \<Rightarrow> nodeid list" where
  "getChildNodes h n =
     (case m_AliasTarget (node h n) of Some t \<Rightarrow> children h t | None \<Rightarrow> children h n)"

definition getChildCount :: "pheap \<Rightarrow> nodeid \<Rightarrow> nat" where
  "getChildCount h n =
     (case m_AliasTarget (node h n) of
        Some t \<Rightarrow> length (children h t) | None \<Rightarrow> length (children h n))"

text \<open>\<^verbatim>\<open>at\<close> throws on an index outside the vector; a negative \<^verbatim>\<open>int\<close> converts to a huge one.\<close>

definition getChild :: "pheap \<Rightarrow> nodeid \<Rightarrow> int \<Rightarrow> perror + nodeid option" where
  "getChild h n index =
     (let t = (case m_AliasTarget (node h n) of Some t \<Rightarrow> t | None \<Rightarrow> n)
      in case m_ChildNodes (node h t) of
           None \<Rightarrow> Inr None
         | Some cs \<Rightarrow> if 0 \<le> index \<and> index < int (length cs) then Inr (Some (cs ! nat index))
                      else Inl StdOutOfRange)"

definition sizeNode :: "pheap \<Rightarrow> nodeid \<Rightarrow> nat" where
  "sizeNode h n = length (children h n)"

text \<open>\<^verbatim>\<open>count\<close>, on the end of the alias chain.\<close>

definition countNamed :: "pheap \<Rightarrow> nodeid \<Rightarrow> string \<Rightarrow> nat" where
  "countNamed h n name = length (filter (\<lambda>c. m_Name (node h c) = name) (children h n))"

definition count :: "pheap \<Rightarrow> nodeid \<Rightarrow> string \<Rightarrow> perror + nat" where
  "count h n name = forwardGet h n (\<lambda>m. Inr (countNamed h m name))"

definition removeChild :: "pheap \<Rightarrow> nodeid \<Rightarrow> nodeid option \<Rightarrow> nodeid option result" where
  "removeChild h n childNode =
     forward h n (\<lambda>m.
       case m_ChildNodes (node h m) of
         None \<Rightarrow> (h, Inr None)
       | Some cs \<Rightarrow>
           (case childNode of
              None \<Rightarrow> (h, Inl NullDeref)
            | Some c \<Rightarrow>
                (let h1 = upd h m (\<lambda>x. x\<lparr>m_ChildNodes := Some (remove1 c cs)\<rparr>);
                     h2 = upd h1 c (\<lambda>x. x\<lparr>m_ParentNode := None\<rparr>)
                 in andThen (childRemoved h2 m c) (\<lambda>h _. (h, Inr (Some c))))))"

text \<open>The largest index among the children with a given name, \<open>-1\<close> without any.\<close>

definition maxIndex :: "pheap \<Rightarrow> nodeid list \<Rightarrow> string \<Rightarrow> int" where
  "maxIndex h cs name =
     foldl (\<lambda>m c. if m_Name (node h c) = name then max (m_Index (node h c)) m else m) (-1) cs"

definition attachChild :: "pheap \<Rightarrow> nodeid \<Rightarrow> nodeid \<Rightarrow> pheap" where
  "attachChild h m c =
     (let cs = children h m;
          h1 = upd h c (\<lambda>x. x\<lparr>m_ParentNode := Some m\<rparr>);
          h2 = upd h1 c (\<lambda>x. x\<lparr>m_Index := maxIndex h1 cs (m_Name x) + 1\<rparr>)
      in upd h2 m (\<lambda>x. x\<lparr>m_ChildNodes := Some (cs @ [c])\<rparr>))"

definition addChild :: "pheap \<Rightarrow> nodeid \<Rightarrow> nodeid option \<Rightarrow> unit result" where
  "addChild h n childNode =
     forward h n (\<lambda>m.
       if childNode = Some m then (h, Inl (StdRuntimeError ''Adding self as child node''))
       else case childNode of
              None \<Rightarrow> (h, Inl (StdRuntimeError ''Adding NULL as child node''))
            | Some c \<Rightarrow>
                andThen (case m_ParentNode (node h c) of
                           None \<Rightarrow> (h, Inr None)
                         | Some p \<Rightarrow> removeChild h p (Some c)) (\<lambda>h _.
                  childAdded (attachChild h m c) m c))"

definition getDisplayName :: "pheap \<Rightarrow> nodeid \<Rightarrow> perror + string" where
  "getDisplayName h n =
     (let x = node h n
      in case m_ParentNode x of
           None \<Rightarrow> Inr (m_Name x)
         | Some p \<Rightarrow>
             (case count h p (m_Name x) of
                Inl e \<Rightarrow> Inl e
              | Inr k \<Rightarrow> Inr (if k > 1
                              then m_Name x @ ''['' @ intToString (word_of_int (m_Index x)) False @ '']''
                              else m_Name x)))"

section \<open>Paths\<close>

text \<open>\<^verbatim>\<open>atoi\<close> is \<^verbatim>\<open>strtol\<close> in base 10, cut to an \<^verbatim>\<open>int\<close>.\<close>

definition atoi :: "string \<Rightarrow> int" where
  "atoi s = sint (word_of_int (fst (strtol 10 s)) :: u32)"

text \<open>
  The name is the text before the bracket; \<^verbatim>\<open>erase\<close> is called with a position and an end where
  it takes a length.  Without a closing bracket \<^verbatim>\<open>end\<close> is \<^verbatim>\<open>npos\<close>; with one before the opening
  bracket the length \<^verbatim>\<open>end - pos - 1\<close> wraps to a huge one.
\<close>

definition getAndRemoveIndexFromPropertyName :: "string \<Rightarrow> int \<times> string" where
  "getAndRemoveIndexFromPropertyName propName =
     (case str_find (CHR ''['') propName 0 of
        None \<Rightarrow> (0, propName)
      | Some pos \<Rightarrow>
          (let (indexAsString, rest) =
                 (case str_find (CHR '']'') propName 0 of
                    None \<Rightarrow> (drop (pos + 1) propName, take pos propName)
                  | Some end' \<Rightarrow>
                      (if end' > pos then substr propName (pos + 1) (end' - pos - 1)
                       else drop (pos + 1) propName,
                       str_erase propName pos end'))
           in (if trim indexAsString = ''last'' then -1 else atoi (c_str indexAsString), rest)))"

text \<open>The loop over the children; \<open>lastMatch\<close> is the last child seen with the right name.\<close>

fun findChild :: "pheap \<Rightarrow> nodeid list \<Rightarrow> string \<Rightarrow> int \<Rightarrow> nodeid option \<Rightarrow> nodeid option" where
  "findChild h [] propName index lastMatch = (if index = -1 then lastMatch else None)"
| "findChild h (c # cs) propName index lastMatch =
     (if m_Name (node h c) = propName then
        if m_Index (node h c) = index then Some c
        else findChild h cs propName index (Some c)
      else findChild h cs propName index lastMatch)"

definition getPropertyByName :: "pheap \<Rightarrow> nodeid \<Rightarrow> string \<Rightarrow> perror + nodeid option" where
  "getPropertyByName h n name =
     forwardGet h n (\<lambda>m.
       case m_ChildNodes (node h m) of
         None \<Rightarrow> Inr None
       | Some cs \<Rightarrow>
           (let (index, propName) = getAndRemoveIndexFromPropertyName name
            in Inr (findChild h cs propName index None)))"

lemma carCdrPath_tail_shorter:
  "carCdrPath p = (head, tail) \<Longrightarrow> tail \<noteq> [] \<Longrightarrow> length tail < length p"
  by (auto simp: carCdrPath_def str_erase_def split: option.splits dest!: str_find_bounds)

function getProperty :: "pheap \<Rightarrow> nodeid \<Rightarrow> string \<Rightarrow> perror + nodeid option" where
  "getProperty h n propPath =
     (case alias_end h n of
        None \<Rightarrow> Inl Diverges
      | Some m \<Rightarrow>
          if propPath = [] \<or> propPath = ''/'' then Inr (Some m)
          else
            (let (head, tail) = carCdrPath propPath
             in case getPropertyByName h m head of
                  Inl e \<Rightarrow> Inl e
                | Inr None \<Rightarrow> Inr None
                | Inr (Some child) \<Rightarrow>
                    if tail = [] then Inr (Some child) else getProperty h child tail))"
  by pat_completeness auto
termination
  by (relation "measure (\<lambda>(h, n, p). length p)") (auto dest: carCdrPath_tail_shorter[OF sym])

declare getProperty.simps [simp del]

definition stripPlus :: "string \<Rightarrow> string" where
  "stripPlus s = (if s \<noteq> [] \<and> s ! (length s - 1) = CHR ''+'' then str_erase s (length s - 1) 1 else s)"

text \<open>
  The part of \<^verbatim>\<open>createProperty\<close> that adds a missing child to the node \<open>m\<close>.  The index chosen
  here is replaced by \<^verbatim>\<open>addChild\<close>.
\<close>

definition createChild :: "pheap \<Rightarrow> nodeid \<Rightarrow> string \<Rightarrow> string \<Rightarrow> nodeid result" where
  "createChild h m nextOne propPath =
     (let (index, name) = getAndRemoveIndexFromPropertyName (stripPlus nextOne);
          index = (if index = 0 then int (countNamed h m name) + 1 else index)
      in if name = [] then (h, Inl (RequireFailed propPath))
         else (let (h1, nextNode) = make_shared h (c_str name) index
               in andThen (addChild h1 m (Some nextNode)) (\<lambda>h _. (h, Inr nextNode))))"

function createProperty :: "pheap \<Rightarrow> nodeid \<Rightarrow> string \<Rightarrow> nodeid result" where
  "createProperty h n propPath =
     (case alias_end h n of
        None \<Rightarrow> (h, Inl Diverges)
      | Some m \<Rightarrow>
          if propPath = [] \<or> propPath = ''/'' then (h, Inr m)
          else
            (let (nextOne, tail) = carCdrPath propPath;
                 (h1, nextNode) =
                   (case getPropertyByName h m nextOne of
                      Inl e \<Rightarrow> (h, Inl e)
                    | Inr (Some c) \<Rightarrow> (h, Inr c)
                    | Inr None \<Rightarrow> createChild h m nextOne propPath)
             in case nextNode of
                  Inl e \<Rightarrow> (h1, Inl e)
                | Inr c \<Rightarrow> if tail = [] then (h1, Inr c) else createProperty h1 c tail))"
  by pat_completeness auto
termination
  by (relation "measure (\<lambda>(h, n, p). length p)") (auto dest: carCdrPath_tail_shorter[OF sym])

declare createProperty.simps [simp del]

text \<open>\<^verbatim>\<open>getOrCreateChild<T>\<close>.\<close>

definition getOrCreateChild :: "pheap \<Rightarrow> nodeid \<Rightarrow> string \<Rightarrow> cvalue \<Rightarrow> nodeid result" where
  "getOrCreateChild h n childPath defaultValue =
     (case getProperty h n childPath of
        Inl e \<Rightarrow> (h, Inl e)
      | Inr (Some c) \<Rightarrow> (h, Inr c)
      | Inr None \<Rightarrow>
          andThen (createProperty h n childPath) (\<lambda>h c.
            andThen (setValue h c defaultValue) (\<lambda>h _. (h, Inr c))))"

end
