(* ===== verification/Property_System.thy ===== *)
theory Property_System
  imports Property_Node
begin

text \<open>
  The rest of \<^verbatim>\<open>src/src/propertysystem.cpp\<close>: the listeners, the destructor of a node, the XML
  output, the names of the value types and the class \<^verbatim>\<open>PropertySystem\<close>, whose root is node 0.
\<close>

section \<open>Listeners\<close>

definition registerProperty :: "pheap \<Rightarrow> listener \<Rightarrow> nodeid \<Rightarrow> pheap" where
  "registerProperty h l n = h\<lparr>m_Properties := (m_Properties h)(l := m_Properties h l @ [n])\<rparr>"

definition unregisterProperty :: "pheap \<Rightarrow> listener \<Rightarrow> nodeid \<Rightarrow> pheap" where
  "unregisterProperty h l n = h\<lparr>m_Properties := (m_Properties h)(l := remove1 n (m_Properties h l))\<rparr>"

definition isListening :: "pheap \<Rightarrow> listener \<Rightarrow> bool" where
  "isListening h l \<longleftrightarrow> m_Properties h l \<noteq> []"

definition addListener :: "pheap \<Rightarrow> nodeid \<Rightarrow> listener \<Rightarrow> pheap" where
  "addListener h n l =
     upd (registerProperty h l n) n
       (\<lambda>x. x\<lparr>m_Listeners := Some ((case m_Listeners x of None \<Rightarrow> [] | Some ls \<Rightarrow> ls) @ [l])\<rparr>)"

text \<open>The list of a node without listeners is a NULL pointer that is dereferenced.\<close>

definition removeListener :: "pheap \<Rightarrow> nodeid \<Rightarrow> listener \<Rightarrow> unit result" where
  "removeListener h n l =
     (case m_Listeners (node h n) of
        None \<Rightarrow> (h, Inl NullDeref)
      | Some ls \<Rightarrow>
          if l \<in> set ls then
            (unregisterProperty (upd h n (\<lambda>x. x\<lparr>m_Listeners := Some (remove1 l ls)\<rparr>)) l n, Inr ())
          else (h, Inr ()))"

text \<open>The loop of \<^verbatim>\<open>PropertyListener::unsubscribe\<close>; each round removes the first registration.\<close>

partial_function (option) unsubscribe_loop :: "pheap \<Rightarrow> listener \<Rightarrow> unit result option" where
  "unsubscribe_loop h l =
     (case m_Properties h l of
        [] \<Rightarrow> Some (h, Inr ())
      | n # _ \<Rightarrow>
          (case removeListener h n l of
             (h1, Inl e) \<Rightarrow> Some (h1, Inl e)
           | (h1, Inr _) \<Rightarrow> unsubscribe_loop h1 l))"

definition unsubscribe :: "pheap \<Rightarrow> listener \<Rightarrow> unit result" where
  "unsubscribe h l = (case unsubscribe_loop h l of None \<Rightarrow> (h, Inl Diverges) | Some r \<Rightarrow> r)"

section \<open>The destructor\<close>

text \<open>
  \<open>aliasedBy\<close> is the vector the loop walks, read again after every call because \<open>aliasTo\<close>
  changes it; \<^verbatim>\<open>it\<close> stays at the front.
\<close>

fun unaliasAll :: "nat \<Rightarrow> pheap \<Rightarrow> nodeid \<Rightarrow> unit result" where
  "unaliasAll 0 h n = (h, Inl Diverges)"
| "unaliasAll (Suc fuel) h n =
     (case m_AliasedBy (node h n) of
        [] \<Rightarrow> (h, Inr ())
      | a # rest \<Rightarrow>
          andThen (aliasTo h a None) (\<lambda>h1 _.
            let now = m_AliasedBy (node h1 n)
            in unaliasAll fuel
                 (if length now \<ge> Suc (length rest)
                  then upd h1 n (\<lambda>x. x\<lparr>m_AliasedBy := tl now\<rparr>) else h1) n))"

definition dropListeners :: "pheap \<Rightarrow> nodeid \<Rightarrow> pheap" where
  "dropListeners h n =
     (case m_Listeners (node h n) of
        None \<Rightarrow> h
      | Some ls \<Rightarrow>
          upd (foldl (\<lambda>h l. unregisterProperty h l n) h ls) n (\<lambda>x. x\<lparr>m_Listeners := Some []\<rparr>))"

fun orphanChildren :: "pheap \<Rightarrow> nodeid \<Rightarrow> nodeid list \<Rightarrow> unit result" where
  "orphanChildren h n [] = (h, Inr ())"
| "orphanChildren h n (c # cs) =
     andThen (childRemoved h n c) (\<lambda>h _.
       orphanChildren (upd h c (\<lambda>x. x\<lparr>m_ParentNode := None\<rparr>)) n cs)"

text \<open>
  The destructor of one node.  With a parent, \<^verbatim>\<open>shared_from_this\<close> on an object that is being
  destroyed throws out of the destructor, which ends the program.  The memory of the node and
  references it was the last to hold are not modelled.
\<close>

definition destroyNode :: "pheap \<Rightarrow> nodeid \<Rightarrow> unit result" where
  "destroyNode h n =
     (let h = dropListeners h n
      in if m_ParentNode (node h n) \<noteq> None then (h, Inl Terminate)
         else
           andThen (unaliasAll (Suc (length (m_AliasedBy (node h n)))) h n) (\<lambda>h _.
             let h = upd h n (\<lambda>x. x\<lparr>m_Proxy := None\<rparr>)
             in andThen
                  (case m_AliasTarget (node h n) of
                     None \<Rightarrow> (h, Inr ())
                   | Some t \<Rightarrow>
                       if n \<in> set (m_AliasedBy (node h t)) then
                         (let h = upd h t (\<lambda>x. x\<lparr>m_AliasedBy := remove1 n (m_AliasedBy x)\<rparr>)
                          in (upd h n (\<lambda>x. x\<lparr>m_AliasTarget := None\<rparr>), Inr ()))
                       else (h, Inl AssertionFailed)) (\<lambda>h _.
                  andThen (orphanChildren h n (children h n)) (\<lambda>h _.
                    let h = upd h n (\<lambda>x. x\<lparr>m_ChildNodes := None\<rparr>)
                    in case clearValue (node h n) of
                         Inl e \<Rightarrow> (h, Inl e)
                       | Inr y \<Rightarrow> (upd h n (\<lambda>_. y), Inr ())))))"

section \<open>Names of the value types\<close>

fun getValueTypeAsString :: "aValueType \<Rightarrow> string" where
  "getValueTypeAsString vTypeNone = ''none''"
| "getValueTypeAsString vTypeInteger = ''integer''"
| "getValueTypeAsString vTypeUnsignedInteger = ''unsignedinteger''"
| "getValueTypeAsString vTypeString = ''string''"
| "getValueTypeAsString vTypeBoolean = ''boolean''"
| "getValueTypeAsString vTypeFloating = ''floating''"

text \<open>\<open>None\<close> is the failed assertion.\<close>

definition getValueTypeFromString :: "string \<Rightarrow> aValueType option" where
  "getValueTypeFromString strVal =
     (if strVal = ''none'' then Some vTypeNone
      else if strVal = ''integer'' then Some vTypeInteger
      else if strVal = ''unsignedinteger'' then Some vTypeUnsignedInteger
      else if strVal = ''boolean'' then Some vTypeBoolean
      else if strVal = ''string'' then Some vTypeString
      else if strVal = ''floating'' then Some vTypeFloating
      else None)"

section \<open>XML output\<close>

fun searchForFlag :: "nat \<Rightarrow> pheap \<Rightarrow> nodeid \<Rightarrow> u8 \<Rightarrow> perror + bool"
and searchChildren :: "nat \<Rightarrow> pheap \<Rightarrow> nodeid list \<Rightarrow> u8 \<Rightarrow> perror + bool" where
  "searchForFlag 0 h n flag = Inl Diverges"
| "searchForFlag (Suc fuel) h n flag =
     (if \<not> hasFlag h n flag then searchChildren fuel h (children h n) flag else Inr True)"
| "searchChildren fuel h [] flag = Inr False"
| "searchChildren fuel h (c # cs) flag =
     (case searchForFlag fuel h c flag of
        Inl e \<Rightarrow> Inl e
      | Inr b \<Rightarrow> if b then Inr True else searchChildren fuel h cs flag)"

definition dq :: string where "dq = [CHR 0x22]"
definition endl :: string where "endl = [CHR 0x0A]"

text \<open>
  \<open>valid\<close> is the check of the UTF-8 conversion in \<open>XMLStringEscape\<close>, \<open>dts\<close> is
  \<^verbatim>\<open>doubleToString\<close>.
\<close>

definition escapeXML :: "(string \<Rightarrow> bool) \<Rightarrow> string \<Rightarrow> perror + string" where
  "escapeXML valid s = (case XMLStringEscape valid s of None \<Rightarrow> Inl ReadPastEnd | Some r \<Rightarrow> Inr r)"

definition flagAttributes :: "pheap \<Rightarrow> nodeid \<Rightarrow> string" where
  "flagAttributes h n =
     (if hasFlag h n Archive then '' archive='' @ dq @ ''true'' @ dq else []) @
     (if hasFlag h n Readable then '' readable='' @ dq @ ''true'' @ dq else []) @
     (if hasFlag h n Writeable then '' writeable='' @ dq @ ''true'' @ dq else [])"

definition openTag :: "(string \<Rightarrow> bool) \<Rightarrow> pheap \<Rightarrow> nodeid \<Rightarrow> int \<Rightarrow> perror + string" where
  "openTag valid h n indent =
     (case getDisplayName h n of
        Inl e \<Rightarrow> Inl e
      | Inr name \<Rightarrow>
          map_sum id (\<lambda>name. doIndent indent @ ''<property type='' @ dq @
              getValueTypeAsString (getValueType h n) @ dq @ '' name='' @ dq @ name @ dq @
              flagAttributes h n)
            (escapeXML valid name))"

definition valueElement ::
    "(string \<Rightarrow> bool) \<Rightarrow> (u64 \<Rightarrow> string) \<Rightarrow> pheap \<Rightarrow> nodeid \<Rightarrow> int \<Rightarrow> perror + string" where
  "valueElement valid dts h n indent =
     (if getValueType h n \<noteq> vTypeNone then
        (case getAsString dts h n of
           Inl e \<Rightarrow> Inl e
         | Inr v \<Rightarrow>
             map_sum id (\<lambda>v. doIndent (indent + 1) @ ''<value>'' @ v @ ''</value>'' @ endl)
               (escapeXML valid v))
      else Inr [])"

text \<open>Both functions return \<^verbatim>\<open>true\<close> on every path, so only the text written is kept.\<close>

fun saveAsXML ::
    "nat \<Rightarrow> (string \<Rightarrow> bool) \<Rightarrow> (u64 \<Rightarrow> string) \<Rightarrow> pheap \<Rightarrow> nodeid \<Rightarrow> int \<Rightarrow> u8 \<Rightarrow> perror + string"
and saveChildrenAsXML ::
    "nat \<Rightarrow> (string \<Rightarrow> bool) \<Rightarrow> (u64 \<Rightarrow> string) \<Rightarrow> pheap \<Rightarrow> nodeid list \<Rightarrow> int \<Rightarrow> u8 \<Rightarrow> perror + string"
where
  "saveAsXML 0 valid dts h n indent flagsMask = Inl Diverges"
| "saveAsXML (Suc fuel) valid dts h n indent flagsMask =
     (case openTag valid h n indent of
        Inl e \<Rightarrow> Inl e
      | Inr start \<Rightarrow>
          if m_ChildNodes (node h n) = Some [] \<and> getValueType h n = vTypeNone
          then Inr (start @ ''/>'' @ endl)
          else
            (case valueElement valid dts h n indent of
               Inl e \<Rightarrow> Inl e
             | Inr v \<Rightarrow>
                 (case saveChildrenAsXML fuel valid dts h (children h n) (indent + 1) flagsMask of
                    Inl e \<Rightarrow> Inl e
                  | Inr cs \<Rightarrow>
                      Inr (start @ ''>'' @ endl @ v @ cs @ doIndent indent @ ''</property>'' @ endl))))"
| "saveChildrenAsXML fuel valid dts h [] indent flagsMask = Inr []"
| "saveChildrenAsXML fuel valid dts h (c # cs) indent flagsMask =
     (case (if flagsMask = 0 then Inr True else searchForFlag fuel h c flagsMask) of
        Inl e \<Rightarrow> Inl e
      | Inr sel \<Rightarrow>
          (case (if sel then saveAsXML fuel valid dts h c indent flagsMask else Inr []) of
             Inl e \<Rightarrow> Inl e
           | Inr s \<Rightarrow>
               (case saveChildrenAsXML fuel valid dts h cs indent flagsMask of
                  Inl e \<Rightarrow> Inl e | Inr r \<Rightarrow> Inr (s @ r))))"

section \<open>PropertySystem\<close>

definition sysGetProperty :: "pheap \<Rightarrow> string \<Rightarrow> perror + nodeid option" where
  "sysGetProperty h propPath =
     (if propPath = [] \<or> hd propPath \<noteq> CHR ''/'' then Inr None
      else if tl propPath = [] then Inr (Some 0)
      else getProperty h 0 (tl propPath))"

definition sysCreateProperty :: "pheap \<Rightarrow> string \<Rightarrow> nodeid option result" where
  "sysCreateProperty h propPath =
     (if propPath = [] \<or> hd propPath \<noteq> CHR ''/'' then (h, Inr None)
      else if tl propPath = [] then (h, Inr (Some 0))
      else andThen (createProperty h 0 (tl propPath)) (\<lambda>h c. (h, Inr (Some c))))"

definition sysGetIntValue :: "pheap \<Rightarrow> string \<Rightarrow> perror + u32" where
  "sysGetIntValue h propPath =
     (case sysGetProperty h propPath of
        Inl e \<Rightarrow> Inl e | Inr (Some n) \<Rightarrow> getIntegerValue h n | Inr None \<Rightarrow> Inr 0)"

definition sysGetBoolValue :: "pheap \<Rightarrow> string \<Rightarrow> perror + bool" where
  "sysGetBoolValue h propPath =
     (case sysGetProperty h propPath of
        Inl e \<Rightarrow> Inl e | Inr (Some n) \<Rightarrow> getBoolValue h n | Inr None \<Rightarrow> Inr False)"

definition sysGetStringValue :: "pheap \<Rightarrow> string \<Rightarrow> perror + string" where
  "sysGetStringValue h propPath =
     (case sysGetProperty h propPath of
        Inl e \<Rightarrow> Inl e | Inr (Some n) \<Rightarrow> getStringValue h n | Inr None \<Rightarrow> Inr [])"

text \<open>
  The body the three setters share.  A created node that is NULL, because the path does not
  start with a slash, is dereferenced.
\<close>

definition sysSetValue ::
    "pheap \<Rightarrow> string \<Rightarrow> (pheap \<Rightarrow> nodeid \<Rightarrow> unit result) \<Rightarrow> bool \<Rightarrow> bool \<Rightarrow> bool result" where
  "sysSetValue h propPath setter mayCreate mayOverwrite =
     (case sysGetProperty h propPath of
        Inl e \<Rightarrow> (h, Inl e)
      | Inr prop \<Rightarrow>
          if prop = None \<and> mayCreate then
            andThen (sysCreateProperty h propPath) (\<lambda>h p.
              case p of
                None \<Rightarrow> (h, Inl NullDeref)
              | Some n \<Rightarrow> andThen (setter h n) (\<lambda>h _. (h, Inr True)))
          else
            (case prop of
               Some n \<Rightarrow> if mayOverwrite then andThen (setter h n) (\<lambda>h _. (h, Inr True))
                         else (h, Inr False)
             | None \<Rightarrow> (h, Inr False)))"

definition sysSetIntValue :: "pheap \<Rightarrow> string \<Rightarrow> u32 \<Rightarrow> bool \<Rightarrow> bool \<Rightarrow> bool result" where
  "sysSetIntValue h propPath value =
     sysSetValue h propPath (\<lambda>h n. setIntegerValue h n value)"

definition sysSetBoolValue :: "pheap \<Rightarrow> string \<Rightarrow> bool \<Rightarrow> bool \<Rightarrow> bool \<Rightarrow> bool result" where
  "sysSetBoolValue h propPath value =
     sysSetValue h propPath (\<lambda>h n. setBooleanValue h n value)"

definition sysSetStringValue :: "pheap \<Rightarrow> string \<Rightarrow> string \<Rightarrow> bool \<Rightarrow> bool \<Rightarrow> bool result" where
  "sysSetStringValue h propPath value =
     sysSetValue h propPath (\<lambda>h n. setStringValue h n value)"

end
