(* ===== verification/Property_Values.thy ===== *)
theory Property_Values
  imports Property_System
begin

text \<open>
  The contract of property values: what a setter stores a getter returns, through any chain of
  aliases and through proxies; a setter that is refused changes nothing; every change is
  reported once to each listener of the node and of its ancestors, the nearest first.
\<close>

section \<open>Heap updates\<close>

lemma node_upd [simp]: "node (upd h n f) k = (if k = n then f (node h n) else node h k)"
  by (simp add: upd_def)

lemma upd_fields [simp]:
  "nextId (upd h n f) = nextId h" "mem (upd h n f) = mem h"
  "m_Properties (upd h n f) = m_Properties h" "trace (upd h n f) = trace h"
  by (simp_all add: upd_def)

lemma andThen_simps [simp]:
  "andThen (h, Inl e) f = (h, Inl e)" "andThen (h, Inr x) f = f h x"
  by (simp_all add: andThen_def)

lemma andThen_Inr_iff:
  "andThen r f = (h', Inr y) \<longleftrightarrow> (\<exists>h x. r = (h, Inr x) \<and> f h x = (h', Inr y))"
  by (auto simp: andThen_def split: prod.splits sum.splits)

section \<open>Following aliases\<close>

inductive alias_path :: "pheap \<Rightarrow> nodeid \<Rightarrow> nodeid \<Rightarrow> bool" for h where
  path_end: "m_AliasTarget (node h n) = None \<Longrightarrow> alias_path h n n"
| path_step: "m_AliasTarget (node h n) = Some t \<Longrightarrow> alias_path h t m \<Longrightarrow> alias_path h n m"

lemma alias_end_path: "alias_end h n = Some m \<Longrightarrow> alias_path h n m"
  by (erule alias_end.raw_induct[of "\<lambda>h n m. alias_path h n m", rotated])
     (auto intro: alias_path.intros split: option.splits)

lemma alias_path_end: "alias_path h n m \<Longrightarrow> alias_end h n = Some m"
  by (induction rule: alias_path.induct) (simp_all add: alias_end.simps)

lemma alias_end_iff: "alias_end h n = Some m \<longleftrightarrow> alias_path h n m"
  using alias_end_path alias_path_end by blast

lemma alias_path_unaliased: "alias_path h n m \<Longrightarrow> m_AliasTarget (node h m) = None"
  by (induction rule: alias_path.induct)

lemma alias_end_unaliased: "alias_end h n = Some m \<Longrightarrow> m_AliasTarget (node h m) = None"
  using alias_end_path alias_path_unaliased by blast

lemma alias_end_self [simp]: "m_AliasTarget (node h n) = None \<Longrightarrow> alias_end h n = Some n"
  by (simp add: alias_end.simps)

lemma alias_path_cong:
  "alias_path h n m \<Longrightarrow> (\<And>k. m_AliasTarget (node h' k) = m_AliasTarget (node h k)) \<Longrightarrow> alias_path h' n m"
  by (induction rule: alias_path.induct) (auto intro: alias_path.intros)

lemma alias_end_cong:
  assumes "\<And>k. m_AliasTarget (node h' k) = m_AliasTarget (node h k)"
  shows "alias_end h' n = alias_end h n"
  using alias_path_cong[of h n _ h'] alias_path_cong[of h' n _ h] assms
  by (metis alias_end_iff not_None_eq)

text \<open>A measure that decreases along aliases makes every chain end.\<close>

lemma alias_end_total:
  fixes rank :: "nodeid \<Rightarrow> nat"
  assumes "\<And>k t. m_AliasTarget (node h k) = Some t \<Longrightarrow> rank t < rank k"
  shows "\<exists>m. alias_end h n = Some m"
proof (induction "rank n" arbitrary: n rule: less_induct)
  case less
  then show ?case using assms
    by (cases "m_AliasTarget (node h n)") (auto simp: alias_end.simps[of h n])
qed

section \<open>Following parents\<close>

inductive ancestors :: "pheap \<Rightarrow> nodeid \<Rightarrow> nodeid list \<Rightarrow> bool" for h where
  anc_root: "m_ParentNode (node h n) = None \<Longrightarrow> ancestors h n [n]"
| anc_step: "m_ParentNode (node h n) = Some p \<Longrightarrow> ancestors h p ps \<Longrightarrow> ancestors h n (n # ps)"

definition listenersOf :: "pheap \<Rightarrow> nodeid \<Rightarrow> listener list" where
  "listenersOf h n = (case m_Listeners (node h n) of None \<Rightarrow> [] | Some ls \<Rightarrow> ls)"

text \<open>The notifications a change reported at a node causes, given the path to the root.\<close>

definition notified :: "pheap \<Rightarrow> callback \<Rightarrow> nodeid \<Rightarrow> nodeid list \<Rightarrow> notification list" where
  "notified h cb about ps = concat (map (\<lambda>n. map (\<lambda>l. Notify cb l n about) (listenersOf h n)) ps)"

lemma listenersOf_alt:
  "(case m_Listeners (node h n) of None \<Rightarrow> [] | Some ls \<Rightarrow> map f ls) = map f (listenersOf h n)"
  by (simp add: listenersOf_def split: option.splits)

lemma notifications_ancestors:
  "ancestors h n ps \<Longrightarrow> notifications h cb n about = Some (notified h cb about ps)"
  by (induction rule: ancestors.induct)
     (simp_all add: notifications.simps[of h] notified_def listenersOf_alt Let_def)

lemma notifications_Some_ancestors:
  "notifications h cb n about = Some ns \<Longrightarrow> \<exists>ps. ancestors h n ps \<and> ns = notified h cb about ps"
proof -
  have "notifications h cb n about = Some ns \<Longrightarrow> \<exists>ps. ancestors h n ps"
    by (erule notifications.raw_induct[of "\<lambda>h cb n about ns. \<exists>ps. ancestors h n ps", rotated])
       (auto intro: ancestors.intros simp: Let_def bind_eq_Some_conv split: option.splits,
        (metis anc_step)+)
  then show "notifications h cb n about = Some ns \<Longrightarrow> ?thesis"
    using notifications_ancestors by fastforce
qed

lemma ancestors_cong:
  "ancestors h n ps \<Longrightarrow> (\<And>k. m_ParentNode (node h' k) = m_ParentNode (node h k)) \<Longrightarrow> ancestors h' n ps"
  by (induction rule: ancestors.induct) (auto intro: ancestors.intros)

lemma notified_cong:
  "(\<And>k. m_Listeners (node h' k) = m_Listeners (node h k)) \<Longrightarrow> notified h' cb about ps = notified h cb about ps"
  by (simp add: notified_def listenersOf_def)

lemma ancestors_unique: "ancestors h n ps \<Longrightarrow> ancestors h n qs \<Longrightarrow> ps = qs"
proof (induction arbitrary: qs rule: ancestors.induct)
  case (anc_root n)
  from anc_root(2,1) show ?case by cases auto
next
  case (anc_step n p ps)
  from anc_step.prems anc_step.hyps show ?case
    by cases (auto dest: anc_step.IH)
qed

section \<open>Well-typed nodes\<close>

text \<open>
  The union holds the member the type says, or the type is the one of the proxy.
\<close>

fun union_ok :: "aValueType \<Rightarrow> actualValue \<Rightarrow> bool" where
  "union_ok _ UZero = True"
| "union_ok t (UString _) = (t = vTypeString)"
| "union_ok t (UInteger _) = (t = vTypeInteger)"
| "union_ok t (UUnsigned _) = (t = vTypeUnsignedInteger)"
| "union_ok t (UBoolean _) = (t = vTypeBoolean)"
| "union_ok t (UFloating _) = (t = vTypeFloating)"

definition node_ok :: "pnode \<Rightarrow> bool" where
  "node_ok x \<longleftrightarrow>
     (case m_Proxy x of
        Some p \<Rightarrow> m_ValueType x = p_type p \<and> p_type p \<noteq> vTypeNone \<and> m_AliasTarget x = None
      | None \<Rightarrow> union_ok (m_ValueType x) (m_Actual x))"

lemma node_ok_new [simp]: "node_ok (newPropertyNode name index)"
  by (simp add: node_ok_def newPropertyNode_def)

lemma clearValue_ok:
  "node_ok x \<Longrightarrow> m_Proxy x = None \<Longrightarrow> clearValue x = Inr (x\<lparr>m_ValueType := vTypeNone, m_Actual := UZero\<rparr>)"
  by (cases "m_Actual x") (simp_all add: node_ok_def clearValue_def)

fun canon :: "cvalue \<Rightarrow> cvalue" where
  "canon (CString s) = CString (c_str s)"
| "canon v = v"

lemma type_of_canon [simp]: "type_of (canon v) = type_of v"
  by (cases v) simp_all

lemma union_ok_actual [simp]: "union_ok (type_of v) (actual_of v)"
  by (cases v) simp_all

lemma type_of_not_none [simp]: "type_of v \<noteq> vTypeNone"
  by (cases v) simp_all

lemma setValue_setTyped:
  "setValue h n v = forward h n (\<lambda>m. setTyped h m (type_of v) (canon v) (actual_of (canon v)))"
  by (cases v)
     (simp_all add: setStringValue_def setStringPtr_def setIntegerValue_def setUnsignedIntegerValue_def
        setBooleanValue_def setFloatingValue_def)

text \<open>The heap after a value was stored in a node of its own.\<close>

definition store :: "pheap \<Rightarrow> nodeid \<Rightarrow> cvalue \<Rightarrow> pheap" where
  "store h m v = upd h m (\<lambda>x. x\<lparr>m_Actual := actual_of v, m_ValueType := type_of v\<rparr>)"

definition changed :: "pheap \<Rightarrow> nodeid \<Rightarrow> nodeid list \<Rightarrow> pheap" where
  "changed h m ps = h\<lparr>trace := trace h @ notified h propertyChangedCb m ps\<rparr>"

lemma propertyChanged_ancestors:
  "ancestors h n ps \<Longrightarrow> propertyChanged h n = (changed h n ps, Inr ())"
  by (simp add: propertyChanged_def notifyListeners_def notifications_ancestors changed_def)

lemma upd_const_upd: "upd (upd h n (\<lambda>_. y)) n f = upd h n (\<lambda>_. f y)"
  by (simp add: upd_def)

lemma setTyped_store:
  assumes "m_Proxy (node h m) = None" "node_ok (node h m)"
  shows "setTyped h m (type_of v) w (actual_of v) = propertyChanged (store h m v) m"
proof -
  have "upd (upd h m (\<lambda>_. (node h m)\<lparr>m_ValueType := vTypeNone, m_Actual := actual_of v\<rparr>)) m
      (\<lambda>x. x\<lparr>m_ValueType := type_of v\<rparr>) = store h m v"
    by (simp add: upd_def store_def)
  then show ?thesis using assms by (simp add: setTyped_def clearValue_ok)
qed

lemma setTyped_proxy:
  assumes "m_Proxy (node h m) = Some p" "m_ValueType (node h m) = t"
  shows "setTyped h m t w a = propertyChanged (h\<lparr>mem := p_set p w (mem h)\<rparr>) m"
proof -
  have "upd (h\<lparr>mem := p_set p w (mem h)\<rparr>) m (\<lambda>x. x\<lparr>m_ValueType := t\<rparr>) = h\<lparr>mem := p_set p w (mem h)\<rparr>"
    using assms(2) by (auto simp: upd_def)
  then show ?thesis using assms by (simp add: setTyped_def)
qed

lemma setTyped_unlinked:
  assumes "m_Proxy (node h m) = None" "node_ok (node h m)" "ancestors h m ps"
  shows "setTyped h m (type_of v) w (actual_of v) = (changed (store h m v) m ps, Inr ())"
proof -
  have "ancestors (store h m v) m ps"
    by (rule ancestors_cong[OF assms(3)]) (simp add: store_def)
  then show ?thesis by (simp add: setTyped_store[OF assms(1,2)] propertyChanged_ancestors)
qed

lemma setTyped_linked:
  assumes "m_Proxy (node h m) = Some p" "m_ValueType (node h m) = t" "ancestors h m ps"
  shows "setTyped h m t w a = (changed (h\<lparr>mem := p_set p w (mem h)\<rparr>) m ps, Inr ())"
proof -
  have "ancestors (h\<lparr>mem := p_set p w (mem h)\<rparr>) m ps"
    by (rule ancestors_cong[OF assms(3)]) simp
  then show ?thesis by (simp add: setTyped_proxy[OF assms(1,2)] propertyChanged_ancestors)
qed

lemma setTyped_mismatch:
  assumes "m_Proxy (node h m) = Some p" "m_ValueType (node h m) \<noteq> t"
  shows "setTyped h m t w a = (h, Inl (mismatch h m))"
  using assms by (simp add: setTyped_def)

lemma setValue_eq:
  assumes "alias_end h n = Some m" "ancestors h m ps" "node_ok (node h m)"
  shows "setValue h n v =
     (case m_Proxy (node h m) of
        None \<Rightarrow> (changed (store h m (canon v)) m ps, Inr ())
      | Some p \<Rightarrow>
          if p_type p = type_of v
          then (changed (h\<lparr>mem := p_set p (canon v) (mem h)\<rparr>) m ps, Inr ())
          else (h, Inl (mismatch h m)))"
proof (cases "m_Proxy (node h m)")
  case None
  with assms setTyped_unlinked[of h m ps "canon v"] show ?thesis
    by (simp add: setValue_setTyped forward_def)
next
  case (Some p)
  with assms have "m_ValueType (node h m) = p_type p" by (simp add: node_ok_def)
  with Some assms show ?thesis
    by (simp add: setValue_setTyped forward_def setTyped_linked setTyped_mismatch)
qed

text \<open>
  C31: A setter acts on the end of the alias chain.  A node with its own value takes the type
  and the value (a string up to its first NUL); a linked node hands the value to its proxy if
  the type is the one of the proxy, and otherwise the call throws and nothing changes.  On
  success each listener registration on the node and its ancestors is called once with the
  node as argument, the nearest first, and nothing else in the tree changes.
\<close>

theorem setValue_spec:
  assumes "alias_end h n = Some m" "ancestors h m ps" "node_ok (node h m)"
  shows "setValue h n v =
     (case m_Proxy (node h m) of
        None \<Rightarrow> (changed (store h m (canon v)) m ps, Inr ())
      | Some p \<Rightarrow>
          if p_type p = type_of v
          then (changed (h\<lparr>mem := p_set p (canon v) (mem h)\<rparr>) m ps, Inr ())
          else (h, Inl (mismatch h m)))"
  by (rule setValue_eq[OF assms])

theorem setValue_spec_witness:
  "setValue emptySystem 0 (CInteger 7) = (changed (store emptySystem 0 (CInteger 7)) 0 [0], Inr ())"
proof -
  have "ancestors emptySystem 0 [0]"
    by (rule anc_root) (simp add: emptySystem_def newPropertyNode_def)
  moreover have "alias_end emptySystem 0 = Some 0"
    by (rule alias_end_self) (simp add: emptySystem_def newPropertyNode_def)
  moreover have "node_ok (node emptySystem 0)" by (simp add: emptySystem_def)
  moreover have "m_Proxy (node emptySystem 0) = None" by (simp add: emptySystem_def newPropertyNode_def)
  ultimately show ?thesis using setValue_spec[of emptySystem 0 0 "[0]" "CInteger 7"] by simp
qed

section \<open>Proxies that store and proxies that do not\<close>

text \<open>A proxy of the first kind gives back what it was handed; one of the second kind ignores it.\<close>

locale storing_proxy =
  fixes p :: proxy
  assumes get_set: "p_get p (p_set p v m) = v"
begin

lemma linked_get_set: "m_Proxy (node h k) = Some p \<Longrightarrow> m_ValueType (node h k) = t \<Longrightarrow>
    getTyped (h\<lparr>mem := p_set p v (mem h)\<rparr>) k t = Inr v"
  by (simp add: getTyped_def get_set)

lemma last_write_wins: "p_get p (p_set p v (p_set p w m)) = v"
  by (rule get_set)

end

locale readonly_proxy =
  fixes p :: proxy
  assumes set_ignored: "p_set p v m = m"
begin

lemma write_keeps_value: "p_get p (p_set p v m) = p_get p m"
  by (simp add: set_ignored)

lemma set_keeps_memory: "m_Proxy (node h k) = Some p \<Longrightarrow> m_ValueType (node h k) = t \<Longrightarrow>
    ancestors h k ps \<Longrightarrow> setTyped h k t v a = (changed h k ps, Inr ())"
  using setTyped_linked[of h k p t ps v a] by (simp add: set_ignored)

end

interpretation ptr: storing_proxy "PropertyProxyPointer t var" for t var
  by unfold_locales (simp add: PropertyProxyPointer_def)

interpretation ref: storing_proxy "PropertyProxyReference t var True" for t var
  by unfold_locales (simp add: PropertyProxyReference_def)

interpretation cref: readonly_proxy "PropertyProxyReference t var False" for t var
  by unfold_locales (simp add: PropertyProxyReference_def)

interpretation tostr: readonly_proxy "PropertyProxyToString ts var" for ts var
  by unfold_locales (simp add: PropertyProxyToString_def)

interpretation cmember: readonly_proxy "PropertyProxyMemberFunction t False hasConst g s" for t hasConst g s
  by unfold_locales (simp add: PropertyProxyMemberFunction_def split: option.splits)

section \<open>Round trips\<close>

text \<open>The typed getter for the type of a value returns that value.\<close>

fun reads_back :: "pheap \<Rightarrow> nodeid \<Rightarrow> cvalue \<Rightarrow> bool" where
  "reads_back h n (CString s) = (getStringValue h n = Inr s)"
| "reads_back h n (CInteger i) = (getIntegerValue h n = Inr i)"
| "reads_back h n (CUnsigned i) = (getUnsignedIntegerValue h n = Inr i)"
| "reads_back h n (CBoolean b) = (getBoolValue h n = Inr b)"
| "reads_back h n (CFloating d) = (getFloatingValue h n = Inr d)"

lemmas getter_defs = getStringValue_def getIntegerValue_def getUnsignedIntegerValue_def
  getBoolValue_def getFloatingValue_def

lemma reads_back_getTyped:
  "alias_end h n = Some m \<Longrightarrow> getTyped h m (type_of v) = Inr v \<Longrightarrow> reads_back h n v"
  by (cases v) (simp_all add: getter_defs forwardGet_def)

lemma alias_end_changed [simp]: "alias_end (changed h k ps) n = alias_end h n"
  by (rule alias_end_cong) (simp add: changed_def)

lemma alias_end_store [simp]: "alias_end (store h k v) n = alias_end h n"
  by (rule alias_end_cong) (simp add: store_def)

lemma alias_end_mem [simp]: "alias_end (h\<lparr>mem := m\<rparr>) n = alias_end h n"
  by (rule alias_end_cong) simp

lemma getTyped_changed [simp]: "getTyped (changed h k ps) m t = getTyped h m t"
  by (simp add: getTyped_def changed_def mismatch_def Let_def split: option.split)

lemma getTyped_store:
  "m_Proxy (node h m) = None \<Longrightarrow> getTyped (store h m v) m (type_of v) = Inr v"
  by (cases v) (simp_all add: getTyped_def store_def)

lemma propertyChanged_success:
  "propertyChanged h m = (h', Inr ()) \<Longrightarrow> \<exists>ps. ancestors h m ps"
  by (auto simp: propertyChanged_def notifyListeners_def split: option.splits
      dest!: notifications_Some_ancestors)

lemma setTyped_success_ancestors:
  assumes "setTyped h m t v a = (h', Inr ())"
  shows "\<exists>ps. ancestors h m ps"
proof -
  from assms obtain h1 where h1: "propertyChanged h1 m = (h', Inr ())"
      "\<And>k. m_ParentNode (node h k) = m_ParentNode (node h1 k)"
    by (auto simp: setTyped_def Let_def clearValue_def split: option.splits if_splits sum.splits)
  then obtain ps where "ancestors h1 m ps" using propertyChanged_success by blast
  then show ?thesis using ancestors_cong[of h1 m ps h] h1(2) by blast
qed

text \<open>
  What a setter stored, the getter of the same type returns, through any chain of aliases:
  always for a node with its own value, and for a linked node when its proxy is a pointer or a
  writeable reference to a variable.
\<close>

theorem set_get_roundtrip:
  assumes "setValue h n v = (h', Inr ())" "alias_end h n = Some m" "node_ok (node h m)"
    and "m_Proxy (node h m) \<in>
      {None, Some (PropertyProxyPointer t var), Some (PropertyProxyReference t var True)}"
  shows "reads_back h' n (canon v)"
proof -
  have st: "setTyped h m (type_of v) (canon v) (actual_of (canon v)) = (h', Inr ())"
    using assms(1,2) by (simp add: setValue_setTyped forward_def)
  then obtain ps where ps: "ancestors h m ps"
    using setTyped_success_ancestors by blast
  show ?thesis
  proof (cases "m_Proxy (node h m)")
    case None
    then have "h' = changed (store h m (canon v)) m ps"
      using setValue_eq[OF assms(2) ps assms(3), of v] assms(1) by simp
    then show ?thesis
      using assms(2) getTyped_store[OF None, of "canon v"] by (intro reads_back_getTyped[of _ _ m]) simp_all
  next
    case (Some p)
    then have "p_type p = type_of v" "h' = changed (h\<lparr>mem := p_set p (canon v) (mem h)\<rparr>) m ps"
      using setValue_eq[OF assms(2) ps assms(3), of v] assms(1) by (simp_all split: if_splits)
    moreover have "getTyped (h\<lparr>mem := p_set p (canon v) (mem h)\<rparr>) m (p_type p) = Inr (canon v)"
      using Some assms(3,4) ptr.linked_get_set[of h m t var "p_type p" "canon v"]
        ref.linked_get_set[of h m t var "p_type p" "canon v"] by (auto simp: node_ok_def)
    ultimately show ?thesis using assms(2) by (intro reads_back_getTyped[of _ _ m]) simp_all
  qed
qed

text \<open>Node 1 is an alias of the root, which is linked to variable 0.\<close>

definition aliasExample :: pheap where
  "aliasExample =
     (let (h, n) = make_shared emptySystem ''a'' 0;
          (h, _) = linkToProxy h 0 (PropertyProxyPointer vTypeInteger 0)
      in fst (aliasTo h n (Some 0)))"

lemma aliasExample_nodes:
  "node aliasExample 0 = (newPropertyNode ''/'' 0)\<lparr>m_Proxy := Some (PropertyProxyPointer vTypeInteger 0),
      m_ValueType := vTypeInteger, m_AliasedBy := [1]\<rparr>"
  "m_AliasTarget (node aliasExample 1) = Some 0"
  by (simp_all add: aliasExample_def make_shared_def emptySystem_def linkToProxy_def IsLinkedToProxy_def
      newPropertyNode_def aliasTo_def children_def clearValue_def PropertyProxyPointer_def)

theorem set_get_roundtrip_witness:
  "\<exists>h'. setValue aliasExample 1 (CInteger 7) = (h', Inr ()) \<and> reads_back h' 1 (CInteger 7)"
proof -
  have ae: "alias_end aliasExample 1 = Some 0"
    by (subst alias_end.simps) (simp add: aliasExample_nodes newPropertyNode_def del: One_nat_def)
  have ok: "node_ok (node aliasExample 0)"
    by (simp add: aliasExample_nodes node_ok_def PropertyProxyPointer_def newPropertyNode_def)
  have px: "m_Proxy (node aliasExample 0) = Some (PropertyProxyPointer vTypeInteger 0)"
    by (simp add: aliasExample_nodes newPropertyNode_def)
  have "ancestors aliasExample 0 [0]"
    by (rule anc_root) (simp add: aliasExample_nodes newPropertyNode_def)
  then obtain h' where h': "setValue aliasExample 1 (CInteger 7) = (h', Inr ())"
    using setValue_eq[OF ae _ ok, of "[0]" "CInteger 7"] px by (simp add: PropertyProxyPointer_def)
  then show ?thesis using set_get_roundtrip[OF h' ae ok, of vTypeInteger 0] px by simp
qed

end
