(* ===== verification/Property_Invariant.thy ===== *)
theory Property_Invariant
  imports Property_Values
begin

text \<open>
  The type invariant of the property tree.  The operations of the tree are the transitions of
  a state machine; in every reachable state the union of a node holds the member its type
  names, or the node has the type of its proxy.  \<open>unlinkProxy\<close> is not among the transitions,
  and the last theorems show why.
\<close>

section \<open>Preservation by each operation\<close>

definition nodes_ok :: "pheap \<Rightarrow> bool" where
  "nodes_ok h \<longleftrightarrow> (\<forall>k. node_ok (node h k))"

lemma node_ok_fields [simp]:
  "node_ok (x\<lparr>m_ChildNodes := cs\<rparr>) = node_ok x" "node_ok (x\<lparr>m_ParentNode := p\<rparr>) = node_ok x"
  "node_ok (x\<lparr>m_Index := i\<rparr>) = node_ok x" "node_ok (x\<lparr>m_AliasedBy := as\<rparr>) = node_ok x"
  "node_ok (x\<lparr>m_Listeners := ls\<rparr>) = node_ok x" "node_ok (x\<lparr>m_Flags := fl\<rparr>) = node_ok x"
  by (simp_all add: node_ok_def split: option.split)

lemma nodes_ok_upd: "nodes_ok h \<Longrightarrow> node_ok (f (node h n)) \<Longrightarrow> nodes_ok (upd h n f)"
  by (simp add: nodes_ok_def)

lemma nodes_ok_node [simp]: "nodes_ok h \<Longrightarrow> node_ok (node h k)"
  by (simp add: nodes_ok_def)

lemma nodes_ok_fields [simp]:
  "nodes_ok (h\<lparr>mem := m\<rparr>) = nodes_ok h" "nodes_ok (h\<lparr>trace := tr\<rparr>) = nodes_ok h"
  "nodes_ok (h\<lparr>m_Properties := ps\<rparr>) = nodes_ok h"
  by (simp_all add: nodes_ok_def)

lemma notifyListeners_cases:
  assumes "notifyListeners h cb n about r = (h', e)"
  obtains "h' = h" "e = Inl Diverges"
  | ns where "h' = h\<lparr>trace := trace h @ ns\<rparr>" "e = Inr r"
  using assms by (auto simp: notifyListeners_def split: option.splits)

lemmas notify_defs = propertyChanged_def childAdded_def childRemoved_def

lemma notify_ok:
  "notifyListeners h cb n about r = (h', e) \<Longrightarrow> nodes_ok h \<Longrightarrow> nodes_ok h'"
  "propertyChanged h n = (h', u) \<Longrightarrow> nodes_ok h \<Longrightarrow> nodes_ok h'"
  "childAdded h n c = (h', u) \<Longrightarrow> nodes_ok h \<Longrightarrow> nodes_ok h'"
  "childRemoved h n c = (h', u) \<Longrightarrow> nodes_ok h \<Longrightarrow> nodes_ok h'"
  unfolding notify_defs by (erule notifyListeners_cases; simp)+

lemma store_ok: "nodes_ok h \<Longrightarrow> m_Proxy (node h m) = None \<Longrightarrow> nodes_ok (store h m v)"
  unfolding store_def by (rule nodes_ok_upd) (simp_all add: node_ok_def)

lemma setTyped_ok:
  assumes "setTyped h m (type_of v) w (actual_of v) = (h', r)" "nodes_ok h"
  shows "nodes_ok h'"
proof (cases "m_Proxy (node h m)")
  case None
  then have "propertyChanged (store h m v) m = (h', r)"
    using assms setTyped_store[of h m v w] by simp
  then show ?thesis using store_ok[OF assms(2) None, of v] by (rule notify_ok)
next
  case (Some p)
  show ?thesis
  proof (cases "m_ValueType (node h m) = type_of v")
    case True
    then have "propertyChanged (h\<lparr>mem := p_set p w (mem h)\<rparr>) m = (h', r)"
      using assms(1) setTyped_proxy[OF Some] by simp
    then show ?thesis by (rule notify_ok) (simp add: assms(2))
  next
    case False
    then show ?thesis using assms setTyped_mismatch[OF Some] by simp
  qed
qed

lemma forward_cases:
  assumes "forward h n f = (h', r)"
  obtains "h' = h" "r = Inl Diverges" | m where "alias_end h n = Some m" "f m = (h', r)"
  using assms by (auto simp: forward_def split: option.splits)

lemma setValue_ok: "setValue h n v = (h', r) \<Longrightarrow> nodes_ok h \<Longrightarrow> nodes_ok h'"
  unfolding setValue_setTyped
  by (erule forward_cases) (auto dest: setTyped_ok[where v = "canon v", unfolded type_of_canon])

text \<open>\<^verbatim>\<open>setStringValue(NULL)\<close> leaves a string with a NULL pointer.\<close>

lemma setStringPtr_ok:
  assumes "setStringPtr h n s = (h', r)" "nodes_ok h"
  shows "nodes_ok h'"
proof (cases s)
  case (Some t)
  have "setTyped h m vTypeString (CString t) (UString t) = (h', r) \<Longrightarrow> nodes_ok h'" for m
    using setTyped_ok[of h m "CString t"] assms(2) by simp
  with assms Some show ?thesis
    unfolding setStringPtr_def by (auto elim!: forward_cases)
next
  case None
  have "setTyped h m vTypeString w UZero = (h', r) \<Longrightarrow> nodes_ok h'" if "m_Proxy (node h m) = None" for m w
  proof -
    assume st: "setTyped h m vTypeString w UZero = (h', r)"
    let ?h = "upd (upd h m (\<lambda>_. (node h m)\<lparr>m_ValueType := vTypeNone, m_Actual := UZero\<rparr>)) m
        (\<lambda>x. x\<lparr>m_ValueType := vTypeString\<rparr>)"
    have "propertyChanged ?h m = (h', r)"
      using st that assms(2) by (simp add: setTyped_def clearValue_ok)
    moreover have "nodes_ok ?h" by (intro nodes_ok_upd assms(2)) (simp_all add: node_ok_def that)
    ultimately show ?thesis by (rule notify_ok)
  qed
  moreover have "setTyped h m vTypeString w UZero = (h', r) \<Longrightarrow> nodes_ok h'"
    if "m_Proxy (node h m) = Some p" "m_ValueType (node h m) \<noteq> vTypeString" for m w p
    using setTyped_mismatch[OF that, of w UZero] assms(2) by simp
  ultimately show ?thesis using assms None
    unfolding setStringPtr_def IsLinkedToProxy_def by (fastforce elim!: forward_cases split: if_splits)
qed

lemma linkToProxy_ok:
  "linkToProxy h n p = (h', b) \<Longrightarrow> p_type p \<noteq> vTypeNone \<Longrightarrow> nodes_ok h \<Longrightarrow> nodes_ok h'"
  by (auto simp: linkToProxy_def IsLinkedToProxy_def node_ok_def[of "_\<lparr>m_Proxy := _, m_ValueType := _\<rparr>"]
      split: if_splits intro!: nodes_ok_upd)

lemma aliasTo_ok:
  assumes "aliasTo h n target = (h', r)" "nodes_ok h"
  shows "nodes_ok h'"
proof -
  have unl: "node_ok (x\<lparr>m_AliasTarget := t\<rparr>)" if "node_ok x" "m_Proxy x = None" for x t
    using that by (simp add: node_ok_def)
  have z: "node_ok (x\<lparr>m_ValueType := vTypeNone, m_Actual := UZero, m_AliasTarget := t\<rparr>)"
    if "m_Proxy x = None" for x t
    using that by (simp add: node_ok_def)
  show ?thesis
    using assms
    by (auto simp: aliasTo_def IsLinkedToProxy_def Let_def clearValue_ok unl z
        split: if_splits option.splits intro!: nodes_ok_upd)
qed

lemma detach_ok:
  "childRemoved (upd (upd h m (\<lambda>x. x\<lparr>m_ChildNodes := cs\<rparr>)) k (\<lambda>x. x\<lparr>m_ParentNode := None\<rparr>)) m k = (h', u)
     \<Longrightarrow> nodes_ok h \<Longrightarrow> nodes_ok h'"
  by (erule notify_ok(4)) (auto intro!: nodes_ok_upd)

lemma removeChild_ok:
  assumes "removeChild h n c = (h', r)" "nodes_ok h"
  shows "nodes_ok h'"
  using assms unfolding removeChild_def Let_def
  by (auto elim!: forward_cases simp: andThen_def split: option.splits prod.splits sum.splits;
      blast intro: detach_ok)

lemma attachChild_ok: "nodes_ok h \<Longrightarrow> nodes_ok (attachChild h m c)"
  by (auto simp: attachChild_def Let_def intro!: nodes_ok_upd)

lemma addChild_ok:
  assumes "addChild h n c = (h', r)" "nodes_ok h"
  shows "nodes_ok h'"
  using assms unfolding addChild_def
  by (auto elim!: forward_cases simp: andThen_def split: option.splits prod.splits sum.splits if_splits;
      blast intro: notify_ok removeChild_ok attachChild_ok)

lemma make_shared_ok: "make_shared h name i = (h', n) \<Longrightarrow> nodes_ok h \<Longrightarrow> nodes_ok h'"
  by (auto simp: make_shared_def nodes_ok_def)

lemma createChild_ok:
  assumes "createChild h m x p = (h', r)" "nodes_ok h"
  shows "nodes_ok h'"
  using assms
  by (auto simp: createChild_def andThen_def Let_def split: prod.splits sum.splits if_splits
      dest: addChild_ok make_shared_ok)

lemma createProperty_ok: "createProperty h n p = (h', r) \<Longrightarrow> nodes_ok h \<Longrightarrow> nodes_ok h'"
proof (induction h n p rule: createProperty.induct)
  case (1 h n p)
  show ?case
  proof (cases "alias_end h n")
    case None
    with 1(2,3) show ?thesis by (simp add: createProperty.simps)
  next
    case (Some m)
    obtain a b where ab: "carCdrPath p = (a, b)" by fastforce
    obtain h1 x where hx: "(case getPropertyByName h m a of Inl e \<Rightarrow> (h, Inl e)
        | Inr (Some c) \<Rightarrow> (h, Inr c) | Inr None \<Rightarrow> createChild h m a p) = (h1, x)" by fastforce
    then have ok1: "nodes_ok h1" using 1(3) createChild_ok
      by (fastforce split: sum.splits option.splits)
    show ?thesis
      using 1(1)[OF Some _ ab[symmetric] refl hx[symmetric] refl] 1(2,3) ok1 Some ab hx
      by (auto simp: createProperty.simps[of h n p] Let_def split: if_splits sum.splits prod.splits)
  qed
qed

lemma setFlag_ok: "setFlag h n f b = (h', r) \<Longrightarrow> nodes_ok h \<Longrightarrow> nodes_ok h'"
  by (auto simp: setFlag_def Let_def split: if_splits intro!: nodes_ok_upd dest!: notify_ok(2))

lemma addListener_ok: "nodes_ok h \<Longrightarrow> nodes_ok (addListener h n l)"
  by (auto simp: addListener_def registerProperty_def intro!: nodes_ok_upd)

lemma removeListener_ok: "removeListener h n l = (h', r) \<Longrightarrow> nodes_ok h \<Longrightarrow> nodes_ok h'"
  by (auto simp: removeListener_def unregisterProperty_def split: option.splits if_splits
      intro!: nodes_ok_upd)

section \<open>Reachable states\<close>

text \<open>One call of an operation, whether it succeeds or throws.\<close>

inductive prop_step :: "pheap \<Rightarrow> pheap \<Rightarrow> bool" where
  do_set: "setValue h n v = (h', r) \<Longrightarrow> prop_step h h'"
| do_setString: "setStringPtr h n s = (h', r') \<Longrightarrow> prop_step h h'"
| do_link: "linkToProxy h n p = (h', b) \<Longrightarrow> p_type p \<noteq> vTypeNone \<Longrightarrow> prop_step h h'"
| do_alias: "aliasTo h n t = (h', r') \<Longrightarrow> prop_step h h'"
| do_create: "createProperty h n path = (h', c) \<Longrightarrow> prop_step h h'"
| do_new: "make_shared h name i = (h', k) \<Longrightarrow> prop_step h h'"
| do_add: "addChild h n co = (h', r') \<Longrightarrow> prop_step h h'"
| do_remove: "removeChild h n co = (h', ro) \<Longrightarrow> prop_step h h'"
| do_flag: "setFlag h n f fb = (h', r') \<Longrightarrow> prop_step h h'"
| do_listen: "prop_step h (addListener h n l)"
| do_unlisten: "removeListener h n l = (h', r') \<Longrightarrow> prop_step h h'"

lemma prop_step_ok: "prop_step h h' \<Longrightarrow> nodes_ok h \<Longrightarrow> nodes_ok h'"
  by (induction rule: prop_step.induct)
     (blast intro: setValue_ok setStringPtr_ok linkToProxy_ok aliasTo_ok createProperty_ok
        make_shared_ok addChild_ok removeChild_ok setFlag_ok addListener_ok removeListener_ok)+

lemma nodes_ok_empty: "nodes_ok emptySystem"
  by (simp add: nodes_ok_def emptySystem_def)

lemma reachable_ok: "prop_step\<^sup>*\<^sup>* emptySystem h \<Longrightarrow> nodes_ok h"
  by (induction rule: rtranclp_induct) (auto intro: nodes_ok_empty prop_step_ok)

lemma readUnion_ok: "union_ok t a \<Longrightarrow> t \<noteq> vTypeNone \<Longrightarrow> readUnion t a \<noteq> Inl UnionPun"
  by (cases "(t, a)" rule: readUnion.cases) simp_all

lemma reads_typed: "union_ok t a \<Longrightarrow> readUnion t a = Inr v \<Longrightarrow> type_of v = t"
  by (cases "(t, a)" rule: readUnion.cases) auto

lemma setTyped_no_pun:
  assumes "nodes_ok h"
  shows "snd (setTyped h m t v a) \<noteq> Inl UnionPun"
proof -
  have "snd (propertyChanged k n) \<noteq> Inl UnionPun" for k n
    by (simp add: propertyChanged_def notifyListeners_def split: option.splits)
  with assms show ?thesis
    by (simp add: setTyped_def Let_def clearValue_ok mismatch_def split: option.split)
qed


lemma reachable_example: "prop_step\<^sup>*\<^sup>* emptySystem (fst (setValue emptySystem 0 (CInteger 7)))"
  by (rule r_into_rtranclp, rule do_set[of _ 0 "CInteger 7"]) (rule prod.collapse[symmetric])


section \<open>Where the contract breaks\<close>

text \<open>
  Linking a node that holds an integer to a string proxy and unlinking it again leaves the
  type string on the integer's bits: the next setter frees them as a pointer.
\<close>

theorem unlink_leaves_stale_union:
  assumes "m_Proxy (node h n) = None" "m_AliasTarget (node h n) = None"
    "m_Actual (node h n) = UInteger i" "p_type p = vTypeString"
    "linkToProxy h n p = (h1, b)" "unlinkProxy (Suc fuel) h1 n False = (h2, r)"
  shows "b \<and> r = Inr True \<and> snd (setValue h2 n v) = Inl UnionPun \<and> getStringValue h2 n = Inl UnionPun"
proof -
  have h1: "h1 = upd h n (\<lambda>x. x\<lparr>m_Proxy := Some p, m_ValueType := vTypeString\<rparr>)" and b
    using assms by (auto simp: linkToProxy_def IsLinkedToProxy_def)
  have h2: "h2 = upd h1 n (\<lambda>x. x\<lparr>m_Proxy := None\<rparr>)" "r = Inr True"
    using assms(2,6) by (auto simp: h1 IsLinkedToProxy_def getValueType_def split: if_splits)
  have nd: "m_AliasTarget (node h2 n) = None" "m_ValueType (node h2 n) = vTypeString"
    "m_Actual (node h2 n) = UInteger i" "m_Proxy (node h2 n) = None"
    using assms by (simp_all add: h1 h2)
  then have "snd (setTyped h2 n (type_of v) w a) = Inl UnionPun" for w a
    by (simp add: setTyped_def clearValue_def Let_def)
  then show ?thesis using nd h2 \<open>b\<close>
    by (simp add: setValue_setTyped forward_def getStringValue_def forwardGet_def getTyped_def)
qed

theorem unlink_leaves_stale_union_witness:
  "\<exists>h1 h2. linkToProxy (store emptySystem 0 (CInteger 5)) 0 (PropertyProxyPointer vTypeString 0) = (h1, True)
     \<and> unlinkProxy 1 h1 0 False = (h2, Inr True) \<and> snd (setValue h2 0 (CInteger 6)) = Inl UnionPun"
proof -
  let ?h = "store emptySystem 0 (CInteger 5)" and ?p = "PropertyProxyPointer vTypeString 0"
  obtain h1 b where l: "linkToProxy ?h 0 ?p = (h1, b)" by fastforce
  obtain h2 r where u: "unlinkProxy (Suc 0) h1 0 False = (h2, r)" by fastforce
  have "b \<and> r = Inr True \<and> snd (setValue h2 0 (CInteger 6)) = Inl UnionPun \<and> getStringValue h2 0 = Inl UnionPun"
    by (rule unlink_leaves_stale_union[OF _ _ _ _ l u, of 5])
       (simp_all add: store_def emptySystem_def newPropertyNode_def PropertyProxyPointer_def)
  then show ?thesis using l u by auto
qed

lemma alias_path_loop: "alias_path h n m \<Longrightarrow> m_AliasTarget (node h n) \<noteq> Some n"
  by (induction rule: alias_path.induct) auto

text \<open>
  Nothing stops a node from being aliased to itself; then every setter and getter of the
  node calls itself forever.
\<close>

theorem self_alias_diverges:
  assumes "children h n = []" "m_Proxy (node h n) = None" "node_ok (node h n)"
  shows "\<exists>h'. aliasTo h n (Some n) = (h', Inr ()) \<and> snd (setValue h' n v) = Inl Diverges
    \<and> getIntegerValue h' n = Inl Diverges \<and> getProperty h' n path = Inl Diverges"
proof -
  obtain h' where h': "aliasTo h n (Some n) = (h', Inr ())" "m_AliasTarget (node h' n) = Some n"
    using assms by (auto simp: aliasTo_def IsLinkedToProxy_def clearValue_ok Let_def)
  have "alias_end h' n = None"
  proof (rule ccontr)
    assume "alias_end h' n \<noteq> None"
    then obtain m where "alias_path h' n m" using alias_end_path by blast
    then show False using alias_path_loop h'(2) by blast
  qed
  then show ?thesis using h'(1)
    by (simp add: setValue_setTyped forward_def getIntegerValue_def forwardGet_def getProperty.simps)
qed

theorem self_alias_diverges_witness:
  "\<exists>h'. aliasTo emptySystem 0 (Some 0) = (h', Inr ()) \<and> snd (setValue h' 0 (CBoolean True)) = Inl Diverges
    \<and> getIntegerValue h' 0 = Inl Diverges \<and> getProperty h' 0 ''a'' = Inl Diverges"
  by (rule self_alias_diverges) (simp_all add: emptySystem_def children_def newPropertyNode_def node_ok_def)

text \<open>Node 1 is aliased to node 2 and then to the root.\<close>

definition realiased :: pheap where
  "realiased =
     (let (h, n) = make_shared emptySystem ''n'' 0;
          (h, a) = make_shared h ''a'' 0;
          h = fst (aliasTo h n (Some a))
      in fst (aliasTo h n (Some 0)))"

text \<open>
  Aliasing an aliased node again does not take it out of the list of its old target: when
  the old target is destroyed, the node loses its new target.
\<close>

theorem realias_lost_with_old_target:
  "m_AliasTarget (node realiased 1) = Some 0 \<and> snd (destroyNode realiased 2) = Inr ()
   \<and> m_AliasTarget (node (fst (destroyNode realiased 2)) 1) = None"
  by (simp add: realiased_def make_shared_def emptySystem_def newPropertyNode_def aliasTo_def children_def
      IsLinkedToProxy_def clearValue_def destroyNode_def dropListeners_def Let_def numeral_2_eq_2)

end
