(* ===== verification/Property_Tree.thy ===== *)
theory Property_Tree
  imports Property_Invariant
begin

text \<open>
  The shape of the property tree: parent and child pointers agree, every node has a finite path
  to its root, siblings with the same name have different indices.  The operations preserve
  this shape as long as nobody adds an ancestor as a child or removes a child from a node that
  is not its parent; both are possible in the code and the last section shows what happens.
\<close>

section \<open>The invariant\<close>

definition key :: "pheap \<Rightarrow> nodeid \<Rightarrow> string \<times> int" where
  "key h c = (m_Name (node h c), m_Index (node h c))"

definition linked_ok :: "pheap \<Rightarrow> bool" where
  "linked_ok h \<longleftrightarrow> (\<forall>n c. c \<in> set (children h n) \<longleftrightarrow> m_ParentNode (node h c) = Some n)"

definition siblings_ok :: "pheap \<Rightarrow> nodeid \<Rightarrow> bool" where
  "siblings_ok h n \<longleftrightarrow> distinct (map (key h) (children h n))
     \<and> (\<forall>c \<in> set (children h n). 0 \<le> m_Index (node h c))"

definition fresh_ok :: "pheap \<Rightarrow> bool" where
  "fresh_ok h \<longleftrightarrow> (\<forall>k \<ge> nextId h. m_ParentNode (node h k) = None \<and> children h k = []
     \<and> m_AliasTarget (node h k) = None)"

definition alias_ok :: "pheap \<Rightarrow> bool" where
  "alias_ok h \<longleftrightarrow> (\<forall>k t. m_AliasTarget (node h k) = Some t \<longrightarrow> t < nextId h \<and> children h k = [])"

definition tree_ok :: "pheap \<Rightarrow> bool" where
  "tree_ok h \<longleftrightarrow> linked_ok h \<and> (\<forall>n. siblings_ok h n) \<and> (\<forall>n. \<exists>ps. ancestors h n ps)
     \<and> fresh_ok h \<and> alias_ok h"

lemma tree_okI:
  assumes "linked_ok h" "\<And>n. siblings_ok h n" "\<And>n. \<exists>ps. ancestors h n ps" "fresh_ok h" "alias_ok h"
  shows "tree_ok h"
  using assms by (simp add: tree_ok_def)

lemma tree_okD:
  assumes "tree_ok h"
  shows "linked_ok h" "siblings_ok h n" "\<exists>ps. ancestors h n ps" "fresh_ok h" "alias_ok h"
  using assms by (simp_all add: tree_ok_def)

lemma child_parent: "tree_ok h \<Longrightarrow> c \<in> set (children h n) \<longleftrightarrow> m_ParentNode (node h c) = Some n"
  by (simp add: tree_ok_def linked_ok_def)

lemma siblings_distinct: "siblings_ok h n \<Longrightarrow> distinct (children h n)"
  by (auto simp: siblings_ok_def distinct_map)

lemma children_distinct: "tree_ok h \<Longrightarrow> distinct (children h n)"
  using tree_okD(2) siblings_distinct by blast

lemma fresh_node:
  assumes "tree_ok h" "nextId h \<le> k"
  shows "m_ParentNode (node h k) = None" "children h k = []" "m_AliasTarget (node h k) = None"
  using assms by (simp_all add: tree_ok_def fresh_ok_def)

text \<open>The fields the shape depends on.\<close>

definition same_shape :: "pheap \<Rightarrow> pheap \<Rightarrow> bool" where
  "same_shape h h' \<longleftrightarrow> nextId h' = nextId h \<and>
     (\<forall>k. m_ParentNode (node h' k) = m_ParentNode (node h k) \<and> children h' k = children h k
        \<and> m_AliasTarget (node h' k) = m_AliasTarget (node h k)
        \<and> m_Name (node h' k) = m_Name (node h k) \<and> m_Index (node h' k) = m_Index (node h k))"

lemma same_shape_sym: "same_shape h h' \<Longrightarrow> same_shape h' h"
  by (simp add: same_shape_def)

lemma same_shape_trans: "same_shape a b \<Longrightarrow> same_shape b c \<Longrightarrow> same_shape a c"
  by (simp add: same_shape_def)

lemma same_shape_refl [simp]: "same_shape h h"
  by (simp add: same_shape_def)

lemma same_shape_key: "same_shape h h' \<Longrightarrow> key h' = key h"
  by (simp add: same_shape_def key_def fun_eq_iff)

lemma same_shape_ancestors: "same_shape h h' \<Longrightarrow> ancestors h n ps \<Longrightarrow> ancestors h' n ps"
  by (erule ancestors_cong) (simp add: same_shape_def)

lemma same_shape_tree:
  assumes "same_shape h h'" "tree_ok h"
  shows "tree_ok h'"
proof (rule tree_okI)
  have eqs: "\<And>k. m_ParentNode (node h' k) = m_ParentNode (node h k)" "\<And>k. children h' k = children h k"
    "\<And>k. m_AliasTarget (node h' k) = m_AliasTarget (node h k)" "nextId h' = nextId h"
    "\<And>k. m_Index (node h' k) = m_Index (node h k)"
    using assms(1) by (simp_all add: same_shape_def)
  show "linked_ok h'" "fresh_ok h'" "alias_ok h'"
    using tree_okD[OF assms(2)] by (simp_all add: linked_ok_def fresh_ok_def alias_ok_def eqs)
  show "siblings_ok h' n" for n
    using tree_okD(2)[OF assms(2), of n] same_shape_key[OF assms(1)] by (simp add: siblings_ok_def eqs)
  show "\<exists>ps. ancestors h' n ps" for n
    using tree_okD(3)[OF assms(2), of n] same_shape_ancestors[OF assms(1)] by blast
qed

lemma upd_same_shape:
  assumes "\<And>x. m_ParentNode (f x) = m_ParentNode x" "\<And>x. m_ChildNodes (f x) = m_ChildNodes x"
    "\<And>x. m_AliasTarget (f x) = m_AliasTarget x" "\<And>x. m_Name (f x) = m_Name x"
    "\<And>x. m_Index (f x) = m_Index x"
  shows "same_shape h (upd h n f)"
  using assms by (simp add: same_shape_def children_def)

lemma fields_same_shape [simp]:
  "same_shape h (h\<lparr>mem := m\<rparr>)" "same_shape h (h\<lparr>trace := tr\<rparr>)" "same_shape h (h\<lparr>m_Properties := ps\<rparr>)"
  by (simp_all add: same_shape_def children_def)

lemma notify_same_shape:
  "notifyListeners h cb n about r = (h', e) \<Longrightarrow> same_shape h h'"
  "propertyChanged h n = (h', u) \<Longrightarrow> same_shape h h'"
  "childAdded h n c = (h', u) \<Longrightarrow> same_shape h h'"
  "childRemoved h n c = (h', u) \<Longrightarrow> same_shape h h'"
  unfolding notify_defs by (erule notifyListeners_cases; simp)+

section \<open>Attaching and detaching a node\<close>

text \<open>A node without a parent, not above \<open>m\<close>, is attached to \<open>m\<close>.\<close>

lemma maxIndex_bound:
  "c \<in> set cs \<Longrightarrow> m_Name (node h c) = name \<Longrightarrow> m_Index (node h c) \<le> maxIndex h cs name"
proof -
  let ?f = "\<lambda>m c. if m_Name (node h c) = name then max (m_Index (node h c)) m else m"
  have mono: "a \<le> foldl ?f a ds" for a ds by (induction ds rule: rev_induct) auto
  have "c \<in> set ds \<Longrightarrow> m_Name (node h c) = name \<Longrightarrow> m_Index (node h c) \<le> foldl ?f a ds" for a ds
    by (induction ds rule: rev_induct) auto
  then show "c \<in> set cs \<Longrightarrow> m_Name (node h c) = name \<Longrightarrow> m_Index (node h c) \<le> maxIndex h cs name"
    by (simp add: maxIndex_def)
qed

lemma maxIndex_lower: "-1 \<le> maxIndex h cs name"
proof -
  have "a \<le> foldl (\<lambda>m c. if m_Name (node h c) = name then max (m_Index (node h c)) m else m) a ds" for a ds
    by (induction ds rule: rev_induct) auto
  then show ?thesis by (simp add: maxIndex_def)
qed

lemma maxIndex_cong:
  "(\<And>k. m_Name (node h' k) = m_Name (node h k)) \<Longrightarrow> (\<And>k. m_Index (node h' k) = m_Index (node h k)) \<Longrightarrow>
     maxIndex h' cs name = maxIndex h cs name"
  by (simp add: maxIndex_def cong: if_cong)

lemma maxIndex_parent [simp]:
  "maxIndex (upd h c (\<lambda>x. x\<lparr>m_ParentNode := p\<rparr>)) cs name = maxIndex h cs name"
  by (rule maxIndex_cong) simp_all

lemma attachChild_nodes:
  assumes "c \<noteq> m"
  shows "children (attachChild h m c) k = (if k = m then children h m @ [c] else children h k)"
    "m_ParentNode (node (attachChild h m c) k) = (if k = c then Some m else m_ParentNode (node h k))"
    "m_AliasTarget (node (attachChild h m c) k) = m_AliasTarget (node h k)"
    "m_Name (node (attachChild h m c) k) = m_Name (node h k)"
    "m_Index (node (attachChild h m c) k) =
       (if k = c then maxIndex h (children h m) (m_Name (node h c)) + 1 else m_Index (node h k))"
    "nextId (attachChild h m c) = nextId h"
  using assms by (simp_all add: attachChild_def Let_def children_def)

lemma attach_ancestors_other:
  assumes "ancestors h n qs" "c \<notin> set qs" "c \<noteq> m"
  shows "ancestors (attachChild h m c) n qs"
  using assms(1,2)
proof (induction rule: ancestors.induct)
  case (anc_root n)
  then show ?case by (intro ancestors.anc_root) (simp add: attachChild_nodes[OF assms(3)])
next
  case (anc_step n p ps)
  then show ?case by (intro ancestors.anc_step[of _ _ p]) (simp_all add: attachChild_nodes[OF assms(3)])
qed

lemma attach_ancestors:
  assumes "ancestors h n ps" "ancestors h m qs" "c \<notin> set qs" "c \<noteq> m" "m_ParentNode (node h c) = None"
  shows "\<exists>rs. ancestors (attachChild h m c) n rs"
  using assms(1)
proof (induction rule: ancestors.induct)
  case (anc_root n)
  show ?case
  proof (cases "n = c")
    case True
    have "m_ParentNode (node (attachChild h m c) c) = Some m" by (simp add: attachChild_nodes[OF assms(4)])
    then show ?thesis using True attach_ancestors_other[OF assms(2,3,4)] ancestors.anc_step by blast
  next
    case False
    then have "m_ParentNode (node (attachChild h m c) n) = None"
      using anc_root by (simp add: attachChild_nodes[OF assms(4)])
    then show ?thesis using ancestors.anc_root by blast
  qed
next
  case (anc_step n p ps)
  then have "m_ParentNode (node (attachChild h m c) n) = Some p"
    using assms(5) by (auto simp: attachChild_nodes[OF assms(4)])
  then show ?case using anc_step.IH ancestors.anc_step by blast
qed

lemma ancestors_hd: "ancestors h n ps \<Longrightarrow> n \<in> set ps"
  by (induction rule: ancestors.induct) auto

lemma attach_siblings:
  assumes "siblings_ok h n" "c \<notin> set (children h n)" "c \<noteq> m"
  shows "siblings_ok (attachChild h m c) n"
proof -
  let ?h = "attachChild h m c"
  have old: "key ?h k = key h k" "m_Index (node ?h k) = m_Index (node h k)" if "k \<in> set (children h n)" for k
    using that assms(2) by (auto simp: key_def attachChild_nodes[OF assms(3)])
  then have m: "distinct (map (key ?h) (children h n))"
    using assms(1) by (simp add: siblings_ok_def cong: map_cong)
  have "key ?h c \<notin> key h ` set (children h n)" if "n = m"
    using maxIndex_bound[of _ "children h n" h] that
    by (auto simp: key_def attachChild_nodes[OF assms(3)]) force
  moreover have "0 \<le> m_Index (node ?h c)"
    using maxIndex_lower[of h "children h m" "m_Name (node h c)"] by (simp add: attachChild_nodes[OF assms(3)])
  ultimately show ?thesis using assms old m
    by (auto simp: siblings_ok_def attachChild_nodes(1)[OF assms(3)])
qed

lemma attach_tree:
  assumes ok: "tree_ok h" and free: "m_ParentNode (node h c) = None"
    and anc: "ancestors h m qs" "c \<notin> set qs" and alloc: "c < nextId h" "m < nextId h"
    and al: "m_AliasTarget (node h m) = None"
  shows "tree_ok (attachChild h m c)"
proof (rule tree_okI)
  have ne: "c \<noteq> m" using anc ancestors_hd by blast
  have notin: "c \<notin> set (children h n)" for n using child_parent[OF ok] free by simp
  note nodes = attachChild_nodes[OF ne]
  show "linked_ok (attachChild h m c)"
    using child_parent[OF ok] free by (auto simp: linked_ok_def nodes)
  show "siblings_ok (attachChild h m c) n" for n
    using attach_siblings[OF tree_okD(2)[OF ok] notin ne] .
  show "\<exists>ps. ancestors (attachChild h m c) n ps" for n
    using tree_okD(3)[OF ok, of n] attach_ancestors[OF _ anc ne free] by blast
  show "fresh_ok (attachChild h m c)"
    using tree_okD(4)[OF ok] alloc by (auto simp: fresh_ok_def nodes)
  show "alias_ok (attachChild h m c)"
    using tree_okD(5)[OF ok] al by (auto simp: alias_ok_def nodes)
qed

text \<open>A child is detached from its parent.\<close>

definition detachChild :: "pheap \<Rightarrow> nodeid \<Rightarrow> nodeid \<Rightarrow> pheap" where
  "detachChild h m c =
     upd (upd h m (\<lambda>x. x\<lparr>m_ChildNodes := Some (remove1 c (children h m))\<rparr>)) c (\<lambda>x. x\<lparr>m_ParentNode := None\<rparr>)"

lemma detachChild_nodes:
  "children (detachChild h m c) k = (if k = m then remove1 c (children h m) else children h k)"
  "m_ParentNode (node (detachChild h m c) k) = (if k = c then None else m_ParentNode (node h k))"
  "m_AliasTarget (node (detachChild h m c) k) = m_AliasTarget (node h k)"
  "m_Name (node (detachChild h m c) k) = m_Name (node h k)"
  "m_Index (node (detachChild h m c) k) = m_Index (node h k)"
  "nextId (detachChild h m c) = nextId h"
  by (simp_all add: detachChild_def children_def)

lemma detach_ancestors: "ancestors h n ps \<Longrightarrow> \<exists>rs. ancestors (detachChild h m c) n rs"
proof (induction rule: ancestors.induct)
  case (anc_root n)
  then have "m_ParentNode (node (detachChild h m c) n) = None" by (simp add: detachChild_nodes)
  then show ?case using ancestors.anc_root by blast
next
  case (anc_step n p ps)
  then show ?case
    by (cases "n = c") (metis ancestors.intros detachChild_nodes(2))+
qed

lemma detach_tree:
  assumes ok: "tree_ok h" and child: "c \<in> set (children h m) \<or> m_ParentNode (node h c) = None"
  shows "tree_ok (detachChild h m c)"
proof (rule tree_okI)
  note nodes = detachChild_nodes
  have d: "distinct (children h n)" for n using children_distinct[OF ok] .
  show "linked_ok (detachChild h m c)"
    using child_parent[OF ok] child d by (auto simp: linked_ok_def nodes)
  have key: "key (detachChild h m c) = key h" by (simp add: key_def fun_eq_iff nodes)
  show "siblings_ok (detachChild h m c) n" for n
    using tree_okD(2)[OF ok, of n]
    by (auto simp: siblings_ok_def nodes key distinct_map inj_on_def dest: set_remove1_subset[THEN subsetD])
  show "\<exists>ps. ancestors (detachChild h m c) n ps" for n
    using tree_okD(3)[OF ok, of n] detach_ancestors by blast
  show "fresh_ok (detachChild h m c)" using tree_okD(4)[OF ok] by (auto simp: fresh_ok_def nodes)
  show "alias_ok (detachChild h m c)" using tree_okD(5)[OF ok] by (auto simp: alias_ok_def nodes)
qed

lemma removeChild_eq:
  assumes "m_AliasTarget (node h m) = None" "c \<in> set (children h m)"
  shows "removeChild h m (Some c) = andThen (childRemoved (detachChild h m c) m c) (\<lambda>h _. (h, Inr (Some c)))"
  using assms by (auto simp: removeChild_def forward_def detachChild_def children_def split: option.splits)

lemma parent_unaliased:
  assumes "tree_ok h" "m_ParentNode (node h c) = Some p"
  shows "m_AliasTarget (node h p) = None"
proof -
  have "children h p \<noteq> []" using child_parent[OF assms(1), of c p] assms(2) by auto
  then show ?thesis using tree_okD(5)[OF assms(1)] by (cases "m_AliasTarget (node h p)") (auto simp: alias_ok_def)
qed

lemma removeChild_shape:
  assumes "tree_ok h" "m_ParentNode (node h c) = Some p" "removeChild h p (Some c) = (h', r)"
  shows "same_shape (detachChild h p c) h'"
proof -
  have "c \<in> set (children h p)" using child_parent[OF assms(1)] assms(2) by simp
  then show ?thesis
    using assms(3) removeChild_eq[OF parent_unaliased[OF assms(1,2)]] notify_same_shape(4)
    by (fastforce simp: andThen_def split: prod.splits sum.splits)
qed

lemma removeChild_tree:
  assumes "tree_ok h" "m_ParentNode (node h c) = Some p" "removeChild h p (Some c) = (h', r)"
  shows "tree_ok h'"
proof -
  have "c \<in> set (children h p)" using child_parent[OF assms(1)] assms(2) by simp
  then show ?thesis using detach_tree[OF assms(1)] removeChild_shape[OF assms] same_shape_tree by blast
qed

lemma allocated:
  assumes "tree_ok h" "m_ParentNode (node h c) = Some p"
  shows "c < nextId h" "p < nextId h"
proof -
  show "c < nextId h" using fresh_node(1)[OF assms(1), of c] assms(2) by (cases "c < nextId h") auto
  have "children h p \<noteq> []" using child_parent[OF assms(1), of c p] assms(2) by auto
  then show "p < nextId h" using fresh_node(2)[OF assms(1), of p] leI by blast
qed

lemma alias_path_alloc: "alias_path h n m \<Longrightarrow> alias_ok h \<Longrightarrow> n < nextId h \<Longrightarrow> m < nextId h"
  by (induction rule: alias_path.induct) (auto simp: alias_ok_def)

lemma alias_end_alloc: "alias_end h n = Some m \<Longrightarrow> tree_ok h \<Longrightarrow> n < nextId h \<Longrightarrow> m < nextId h"
  using alias_end_path alias_path_alloc tree_okD(5) by blast

lemma detach_ancestors_other:
  assumes "ancestors h n qs" "c \<notin> set qs"
  shows "ancestors (detachChild h p c) n qs"
  using assms
proof (induction rule: ancestors.induct)
  case (anc_root n)
  then show ?case by (intro ancestors.anc_root) (simp add: detachChild_nodes)
next
  case (anc_step n p' ps)
  then show ?case by (intro ancestors.anc_step[of _ _ p']) (simp_all add: detachChild_nodes)
qed

lemma addChild_unfold:
  assumes "alias_end h n = Some m" "c \<noteq> m"
  shows "addChild h n (Some c) =
     andThen (case m_ParentNode (node h c) of None \<Rightarrow> (h, Inr None) | Some p \<Rightarrow> removeChild h p (Some c))
       (\<lambda>h _. childAdded (attachChild h m c) m c)"
  using assms by (simp add: addChild_def forward_def)

lemma addChild_tree:
  assumes ok: "tree_ok h" and al: "alias_end h n = Some m" and "n < nextId h" "c < nextId h"
    and anc: "ancestors h m qs" "c \<notin> set qs" and run: "addChild h n (Some c) = (h', r)"
  shows "tree_ok h'"
proof -
  have m: "m < nextId h" "m_AliasTarget (node h m) = None"
    using alias_end_alloc[OF al ok] assms(3) alias_end_unaliased[OF al] by blast+
  have ne: "c \<noteq> m" using anc ancestors_hd by blast
  note run' = run[unfolded addChild_unfold[OF al ne]]
  show ?thesis
  proof (cases "m_ParentNode (node h c)")
    case None
    then have "same_shape (attachChild h m c) h'" using run' notify_same_shape(3) by simp
    then show ?thesis
      using attach_tree[OF ok None anc assms(4) m] same_shape_tree by blast
  next
    case (Some p)
    obtain h1 r1 where rm: "removeChild h p (Some c) = (h1, r1)" by fastforce
    have ok1: "tree_ok h1" using removeChild_tree[OF ok Some rm] .
    have sh: "same_shape (detachChild h p c) h1" using removeChild_shape[OF ok Some rm] .
    then have "m_ParentNode (node h1 c) = None" "nextId h1 = nextId h" "m_AliasTarget (node h1 m) = None"
      using m(2) by (simp_all add: same_shape_def detachChild_nodes)
    moreover have "ancestors h1 m qs"
      using same_shape_ancestors[OF sh detach_ancestors_other[OF anc]] .
    ultimately have "tree_ok (attachChild h1 m c)"
      using attach_tree[OF ok1 _ _ anc(2)] assms(4) m(1) by simp
    then show ?thesis using run' Some rm ok1 notify_same_shape(3) same_shape_tree
      by (cases r1) (auto, blast)
  qed
qed

section \<open>The other operations\<close>

lemma make_shared_nodes:
  assumes "make_shared h name i = (h', k)"
  shows "k = nextId h" "nextId h' = Suc (nextId h)"
    "node h' j = (if j = nextId h then newPropertyNode name i else node h j)"
    "mem h' = mem h" "trace h' = trace h" "m_Properties h' = m_Properties h"
  using assms by (auto simp: make_shared_def)

lemma make_shared_tree:
  assumes ok: "tree_ok h" and mk: "make_shared h name i = (h', k)"
  shows "tree_ok h'"
proof -
  note mk = make_shared_nodes[OF mk] and fr = fresh_node[OF ok order_refl]
  have same: "m_ParentNode (node h' j) = m_ParentNode (node h j)" "children h' j = children h j"
    "m_AliasTarget (node h' j) = m_AliasTarget (node h j)" for j
    using fr by (auto simp: mk newPropertyNode_def children_def split: option.splits)
  have notin: "nextId h \<notin> set (children h n)" for n using child_parent[OF ok] fr(1) by simp
  have old: "key h' c = key h c" "m_Index (node h' c) = m_Index (node h c)" if "c \<in> set (children h n)" for n c
    using that notin by (auto simp: key_def mk)
  show ?thesis
  proof (rule tree_okI)
    show "linked_ok h'" using tree_okD(1)[OF ok] by (simp add: linked_ok_def same)
    show "siblings_ok h' n" for n
      using tree_okD(2)[OF ok, of n] old[of _ n] by (simp add: siblings_ok_def same cong: map_cong)
    show "\<exists>ps. ancestors h' n ps" for n
      using tree_okD(3)[OF ok, of n] ancestors_cong[of h n _ h'] same by blast
    show "fresh_ok h'" using tree_okD(4)[OF ok] by (simp add: fresh_ok_def same mk)
    show "alias_ok h'" using tree_okD(5)[OF ok] by (auto simp: alias_ok_def same mk(2) less_SucI)
  qed
qed

lemma setTyped_shape: "setTyped h m t v a = (h', r) \<Longrightarrow> same_shape h h'"
proof -
  have upd: "same_shape h (upd g n (\<lambda>x. x\<lparr>m_ValueType := ty\<rparr>))" if "same_shape h g" for g n ty
    using same_shape_trans[OF that upd_same_shape] by simp
  have put: "same_shape h (upd h m (\<lambda>_. (node h m)\<lparr>m_ValueType := vTypeNone, m_Actual := a\<rparr>))"
    by (simp add: same_shape_def children_def)
  assume "setTyped h m t v a = (h', r)"
  then show ?thesis
    using same_shape_trans[OF upd[OF put] notify_same_shape(2)]
      same_shape_trans[OF upd[OF fields_same_shape(1)] notify_same_shape(2)]
    by (auto simp: setTyped_def Let_def clearValue_def split: option.splits if_splits sum.splits)
qed

lemma setValue_shape: "setValue h n v = (h', r) \<Longrightarrow> same_shape h h'"
  unfolding setValue_setTyped by (erule forward_cases) (auto dest: setTyped_shape)

lemma setStringPtr_shape: "setStringPtr h n s = (h', r) \<Longrightarrow> same_shape h h'"
  unfolding setStringPtr_def
  by (erule forward_cases) (auto dest: setTyped_shape split: option.splits if_splits)

lemma setFlag_shape: "setFlag h n f b = (h', r) \<Longrightarrow> same_shape h h'"
proof -
  have u: "same_shape h (upd h n (\<lambda>x. x\<lparr>m_Flags := fl\<rparr>))" for fl by (rule upd_same_shape) simp_all
  show "setFlag h n f b = (h', r) \<Longrightarrow> ?thesis"
    using u same_shape_trans[OF u notify_same_shape(2)] by (auto simp: setFlag_def Let_def split: if_splits)
qed

lemma linkToProxy_shape: "linkToProxy h n p = (h', b) \<Longrightarrow> same_shape h h'"
  using upd_same_shape[of "\<lambda>x. x\<lparr>m_Proxy := Some p, m_ValueType := p_type p\<rparr>" h n]
  by (auto simp: linkToProxy_def split: if_splits)

lemma addListener_shape: "same_shape h (addListener h n l)"
  unfolding addListener_def registerProperty_def
  by (rule same_shape_trans[OF fields_same_shape(3) upd_same_shape]) simp_all

lemma removeListener_shape: "removeListener h n l = (h', r) \<Longrightarrow> same_shape h h'"
  by (auto simp: removeListener_def unregisterProperty_def split: option.splits if_splits
      intro!: same_shape_trans[OF upd_same_shape fields_same_shape(3)])

lemma unlink_shape:
  "unlinkProxy fuel h n rec = (h', r) \<Longrightarrow> same_shape h h'"
  "unlinkChildren fuel h cs = (h', u) \<Longrightarrow> same_shape h h'"
proof (induction fuel h n rec and fuel h cs arbitrary: h' r and h' u rule: unlinkProxy_unlinkChildren.induct)
  case (2 fuel h n rec)
  have u: "same_shape g (upd g n (\<lambda>x. x\<lparr>m_Proxy := None\<rparr>))" for g by (rule upd_same_shape) simp_all
  show ?case
  proof (cases rec)
    case True
    then obtain g v where g: "unlinkChildren fuel h (children h n) = (g, v)" by fastforce
    with 2(1) True have "same_shape h g" by simp
    then show ?thesis using 2(2) True g same_shape_trans[OF _ u] by (cases v) (auto split: if_splits)
  next
    case False
    then show ?thesis using 2(2) u by (auto split: if_splits)
  qed
next
  case (4 fuel h c cs)
  obtain g v where g: "unlinkProxy fuel h c True = (g, v)" by fastforce
  with 4 show ?case by (cases v) (auto intro: same_shape_trans)
qed simp_all

lemma aliasTo_tree:
  assumes "aliasTo h n t = (h', r)" "tree_ok h" "\<And>k. t = Some k \<Longrightarrow> k < nextId h" "n < nextId h"
  shows "tree_ok h'"
proof -
  have set: "tree_ok g" if "children h n = []" "nextId g = nextId h"
    "\<And>j. m_ParentNode (node g j) = m_ParentNode (node h j)" "\<And>j. children g j = children h j"
    "\<And>j. m_Name (node g j) = m_Name (node h j)" "\<And>j. m_Index (node g j) = m_Index (node h j)"
    "\<And>j. j \<noteq> n \<Longrightarrow> m_AliasTarget (node g j) = m_AliasTarget (node h j)"
    "\<And>j. m_AliasTarget (node g n) = Some j \<Longrightarrow> j < nextId h" for g
  proof (rule tree_okI)
    have "key g = key h" by (simp add: key_def fun_eq_iff that)
    then show "siblings_ok g j" for j using tree_okD(2)[OF assms(2), of j] by (simp add: siblings_ok_def that)
    show "linked_ok g" using tree_okD(1)[OF assms(2)] by (simp add: linked_ok_def that)
    show "\<exists>ps. ancestors g j ps" for j
      using tree_okD(3)[OF assms(2), of j] ancestors_cong[of h j _ g] that(3) by blast
    show "fresh_ok g" using tree_okD(4)[OF assms(2)] assms(4) that(7)
      by (auto simp: fresh_ok_def that(2,3,4))
    show "alias_ok g" unfolding alias_ok_def
    proof (intro allI impI)
      fix j t assume "m_AliasTarget (node g j) = Some t"
      then show "t < nextId g \<and> children g j = []"
        using tree_okD(5)[OF assms(2)] that by (cases "j = n") (auto simp: alias_ok_def)
    qed
  qed
  show ?thesis
  proof (cases "children h n = [] \<and> m_Proxy (node h n) = None")
    case False
    then show ?thesis using assms by (auto simp: aliasTo_def IsLinkedToProxy_def split: if_splits)
  next
    case True
    then show ?thesis using assms
      by (auto simp: aliasTo_def IsLinkedToProxy_def Let_def clearValue_def children_def
          split: if_splits option.splits sum.splits intro!: set)
  qed
qed

lemma ancestors_alloc:
  "ancestors h n ps \<Longrightarrow> tree_ok h \<Longrightarrow> n < nextId h \<Longrightarrow> \<forall>k \<in> set ps. k < nextId h"
  by (induction rule: ancestors.induct) (auto dest: allocated)

lemma fresh_attach_tree:
  assumes ok: "tree_ok h" and m: "m < nextId h" "m_AliasTarget (node h m) = None"
    and mk: "make_shared h nm j = (h1, nextId h)"
  shows "tree_ok (attachChild h1 m (nextId h))" "m_ParentNode (node h1 (nextId h)) = None"
    "m_AliasTarget (node h1 m) = None"
proof -
  let ?k = "nextId h"
  note mkn = make_shared_nodes[OF mk]
  have ok1: "tree_ok h1" using make_shared_tree[OF ok mk] .
  obtain qs where "ancestors h m qs" using tree_okD(3)[OF ok] by blast
  then have k: "?k \<notin> set qs" using ancestors_alloc[OF _ ok m(1)] by blast
  have "m_ParentNode (node h1 l) = m_ParentNode (node h l)" for l
    using fresh_node(1)[OF ok order_refl] by (simp add: mkn(3) newPropertyNode_def)
  then have anc: "ancestors h1 m qs" by (rule ancestors_cong[OF \<open>ancestors h m qs\<close>])
  show free: "m_ParentNode (node h1 ?k) = None" by (simp add: mkn(3) newPropertyNode_def)
  show al1: "m_AliasTarget (node h1 m) = None" using m by (simp add: mkn(3))
  show "tree_ok (attachChild h1 m ?k)"
    using attach_tree[OF ok1 free anc k] m al1 by (simp add: mkn(2))
qed

text \<open>What \<open>createChild\<close> does to the tree when it succeeds.\<close>

lemma createChild_success:
  assumes ok: "tree_ok h" and m: "m < nextId h" "m_AliasTarget (node h m) = None"
    and name: "getAndRemoveIndexFromPropertyName (stripPlus x) = (i, name)" "name \<noteq> []"
  shows "\<exists>h1 j h'. make_shared h (c_str name) j = (h1, nextId h) \<and> tree_ok (attachChild h1 m (nextId h))
     \<and> createChild h m x p = (h', Inr (nextId h))
     \<and> childAdded (attachChild h1 m (nextId h)) m (nextId h) = (h', Inr ())
     \<and> tree_ok h' \<and> nextId h' = Suc (nextId h)"
proof -
  define j where "j = (if i = 0 then int (countNamed h m name) + 1 else i)"
  obtain h1 where mk: "make_shared h (c_str name) j = (h1, nextId h)" by (auto simp: make_shared_def)
  let ?k = "nextId h"
  note fa = fresh_attach_tree[OF ok m mk]
  have ae: "alias_end h1 m = Some m" using fa(3) by simp
  obtain rs where rs: "ancestors (attachChild h1 m ?k) m rs" using tree_okD(3)[OF fa(1)] by blast
  obtain h' where h': "childAdded (attachChild h1 m ?k) m ?k = (h', Inr ())"
    using notifications_ancestors[OF rs] by (simp add: childAdded_def notifyListeners_def)
  have sh: "same_shape (attachChild h1 m ?k) h'" using notify_same_shape(3)[OF h'] .
  have "addChild h1 m (Some ?k) = (h', Inr ())"
    using addChild_unfold[OF ae, of ?k] m fa(2) h' by simp
  then have "createChild h m x p = (h', Inr ?k)"
    using name mk by (simp add: createChild_def j_def[symmetric])
  moreover have "nextId h' = Suc ?k"
    using sh attachChild_nodes(6)[of ?k m h1] m make_shared_nodes(2)[OF mk] by (simp add: same_shape_def)
  ultimately show ?thesis using mk fa(1) h' same_shape_tree[OF sh fa(1)] by blast
qed

lemma createChild_tree:
  assumes "tree_ok h" "m < nextId h" "m_AliasTarget (node h m) = None" "createChild h m x p = (h', r)"
  shows "tree_ok h' \<and> nextId h \<le> nextId h' \<and> (\<forall>c. r = Inr c \<longrightarrow> c < nextId h')"
proof -
  obtain i name where n: "getAndRemoveIndexFromPropertyName (stripPlus x) = (i, name)" by fastforce
  show ?thesis
  proof (cases "name = []")
    case True
    then show ?thesis using assms n by (auto simp: createChild_def)
  next
    case False
    then show ?thesis using createChild_success[OF assms(1,2,3) n False, of p] assms(4) by fastforce
  qed
qed

lemma findChild_mem: "findChild h cs name i l = Some c \<Longrightarrow> c \<in> set cs \<or> l = Some c"
  by (induction cs arbitrary: l) (auto split: if_splits)

lemma getPropertyByName_child:
  assumes "getPropertyByName h m a = Inr (Some c)" "m_AliasTarget (node h m) = None"
  shows "c \<in> set (children h m)"
  using assms findChild_mem[of h _ _ _ None c]
  by (auto simp: getPropertyByName_def forwardGet_def children_def split: option.splits prod.splits)

lemma getPropertyByName_alloc:
  assumes "tree_ok h" "getPropertyByName h m a = Inr (Some c)" "m_AliasTarget (node h m) = None"
  shows "c < nextId h"
  using getPropertyByName_child[OF assms(2,3)] child_parent[OF assms(1)] allocated(1)[OF assms(1)] by blast

lemma createProperty_tree:
  "createProperty h n p = (h', r) \<Longrightarrow> tree_ok h \<Longrightarrow> n < nextId h \<Longrightarrow>
     tree_ok h' \<and> nextId h \<le> nextId h' \<and> (\<forall>c. r = Inr c \<longrightarrow> c < nextId h')"
proof (induction h n p rule: createProperty.induct)
  case (1 h n p)
  show ?case
  proof (cases "alias_end h n")
    case None
    with 1(2,3) show ?thesis by (auto simp: createProperty.simps)
  next
    case (Some m)
    have m: "m < nextId h" "m_AliasTarget (node h m) = None"
      using alias_end_alloc[OF Some 1(3,4)] alias_end_unaliased[OF Some] by blast+
    obtain a b where ab: "carCdrPath p = (a, b)" by fastforce
    obtain h1 x where hx: "(case getPropertyByName h m a of Inl e \<Rightarrow> (h, Inl e)
        | Inr (Some c) \<Rightarrow> (h, Inr c) | Inr None \<Rightarrow> createChild h m a p) = (h1, x)" by fastforce
    have ok1: "tree_ok h1 \<and> nextId h \<le> nextId h1 \<and> (\<forall>c. x = Inr c \<longrightarrow> c < nextId h1)"
    proof (cases "getPropertyByName h m a")
      case (Inr o1)
      then show ?thesis
        using 1(3) hx createChild_tree[OF 1(3) m] getPropertyByName_alloc[OF 1(3) _ m(2)]
        by (cases o1) auto
    qed (use 1(3) hx in auto)
    show ?thesis
      using 1(1)[OF Some _ ab[symmetric] refl hx[symmetric] refl] 1(2,3) ok1 m Some ab hx
      by (auto simp: createProperty.simps[of h n p] Let_def split: if_splits sum.splits prod.splits)
  qed
qed

section \<open>Reachable trees\<close>

text \<open>
  The calls under which the shape is kept: nodes are allocated, a child that is added is not the
  node itself or above it, a child that is removed has no other parent.
\<close>

inductive tree_step :: "pheap \<Rightarrow> pheap \<Rightarrow> bool" where
  t_set: "setValue h n v = (h', r) \<Longrightarrow> tree_step h h'"
| t_setString: "setStringPtr h n s = (h', r) \<Longrightarrow> tree_step h h'"
| t_link: "linkToProxy h n p = (h', b) \<Longrightarrow> tree_step h h'"
| t_unlink: "unlinkProxy fuel h n b = (h', rb) \<Longrightarrow> tree_step h h'"
| t_alias: "n < nextId h \<Longrightarrow> (\<And>k. t = Some k \<Longrightarrow> k < nextId h) \<Longrightarrow> aliasTo h n t = (h', r) \<Longrightarrow> tree_step h h'"
| t_create: "n < nextId h \<Longrightarrow> createProperty h n path = (h', rn) \<Longrightarrow> tree_step h h'"
| t_new: "make_shared h name i = (h', k) \<Longrightarrow> tree_step h h'"
| t_add: "n < nextId h \<Longrightarrow> c < nextId h \<Longrightarrow> alias_end h n = Some m \<Longrightarrow> ancestors h m qs \<Longrightarrow> c \<notin> set qs
     \<Longrightarrow> addChild h n (Some c) = (h', r) \<Longrightarrow> tree_step h h'"
| t_remove: "m_ParentNode (node h c) = Some n \<Longrightarrow> removeChild h n (Some c) = (h', ro) \<Longrightarrow> tree_step h h'"
| t_flag: "setFlag h n f b = (h', r) \<Longrightarrow> tree_step h h'"
| t_listen: "tree_step h (addListener h n l)"
| t_unlisten: "removeListener h n l = (h', r) \<Longrightarrow> tree_step h h'"

lemmas shape_lemmas = setValue_shape setStringPtr_shape linkToProxy_shape unlink_shape(1) setFlag_shape
  removeListener_shape

lemma tree_step_ok:
  assumes "tree_step h h'" "tree_ok h"
  shows "tree_ok h'"
  using assms(1)
proof cases
  case t_alias
  then show ?thesis using aliasTo_tree[OF _ assms(2)] by blast
next
  case t_create
  then show ?thesis using createProperty_tree[OF _ assms(2)] by blast
next
  case t_new
  then show ?thesis using make_shared_tree[OF assms(2)] by blast
next
  case t_add
  then show ?thesis using addChild_tree[OF assms(2)] by blast
next
  case t_remove
  then show ?thesis using removeChild_tree[OF assms(2)] by blast
qed (rule same_shape_tree[OF _ assms(2)], (erule shape_lemmas | simp add: addListener_shape))+

lemma tree_ok_empty: "tree_ok emptySystem"
proof (rule tree_okI)
  have nd: "node emptySystem k = newPropertyNode ''/'' 0" for k by (simp add: emptySystem_def)
  then show "\<exists>ps. ancestors emptySystem n ps" for n
    using anc_root[of emptySystem n] by (auto simp: newPropertyNode_def)
qed (simp_all add: linked_ok_def siblings_ok_def fresh_ok_def alias_ok_def children_def emptySystem_def
    newPropertyNode_def)

lemma reachable_tree: "tree_step\<^sup>*\<^sup>* emptySystem h \<Longrightarrow> tree_ok h"
  by (induction rule: rtranclp_induct) (auto intro: tree_ok_empty tree_step_ok)


lemma reachable_tree_example: "tree_step\<^sup>*\<^sup>* emptySystem (fst (createProperty emptySystem 0 ''a/b''))"
  by (rule r_into_rtranclp, rule t_create[of 0 _ "''a/b''"])
     (simp add: emptySystem_def, rule prod.collapse[symmetric])


section \<open>Calls that break the shape\<close>

lemma ancestors_suffix:
  "ancestors h n ps \<Longrightarrow> k \<in> set ps \<Longrightarrow> \<exists>qs. ancestors h k qs \<and> length qs \<le> length ps"
proof (induction rule: ancestors.induct)
  case (anc_root n)
  then show ?case using ancestors.anc_root[of h n] by auto
next
  case (anc_step n p ps)
  show ?case
  proof (cases "k = n")
    case True
    then show ?thesis using ancestors.anc_step[OF anc_step.hyps] by fastforce
  next
    case False
    then show ?thesis using anc_step by fastforce
  qed
qed

lemma ancestors_reach:
  assumes "ancestors h n ps" "c \<in> set ps" "ancestors h' n qs"
    "\<And>k. k \<noteq> c \<Longrightarrow> m_ParentNode (node h' k) = m_ParentNode (node h k)"
  shows "c \<in> set qs"
  using assms(1-3)
proof (induction arbitrary: qs rule: ancestors.induct)
  case (anc_root n)
  then show ?case using ancestors_hd by auto
next
  case (anc_step n p ps)
  show ?case
  proof (cases "n = c")
    case True
    then show ?thesis using anc_step.prems(2) ancestors_hd by blast
  next
    case False
    then have "m_ParentNode (node h' n) = Some p" using anc_step.hyps(1) assms(4) by simp
    with anc_step.prems(2) obtain rs where "qs = n # rs" "ancestors h' p rs" by cases auto
    then show ?thesis using anc_step.IH[of rs] anc_step.prems(1) False by auto
  qed
qed

lemma cycle_diverges:
  assumes "ancestors h m ps" "c \<in> set ps" "m_ParentNode (node h' c) = Some m"
    "\<And>k. k \<noteq> c \<Longrightarrow> m_ParentNode (node h' k) = m_ParentNode (node h k)"
  shows "\<not> ancestors h' m qs"
proof
  assume q: "ancestors h' m qs"
  then have "c \<in> set qs" using ancestors_reach[OF assms(1,2) _ assms(4)] by blast
  then obtain rs where "ancestors h' c rs" "length rs \<le> length qs" using ancestors_suffix[OF q] by blast
  moreover have "ancestors h' c (c # qs)" using ancestors.anc_step[OF assms(3) q] .
  ultimately show False using ancestors_unique[of h' c rs "c # qs"] by simp
qed

text \<open>
  \<open>addChild\<close> only refuses the node itself.  Adding a node that is above it makes the parent
  pointers a cycle, and the notification that follows never returns.
\<close>

theorem addChild_ancestor_diverges:
  assumes "tree_ok h" "m_AliasTarget (node h m) = None" "ancestors h m ps" "c \<in> set ps" "c \<noteq> m"
  shows "snd (addChild h m (Some c)) = Inl Diverges"
proof -
  have ae: "alias_end h m = Some m" using assms(2) by simp
  have loop: "snd (childAdded (attachChild g m c) m c) = Inl Diverges"
    if "\<And>k. k \<noteq> c \<Longrightarrow> m_ParentNode (node g k) = m_ParentNode (node h k)" for g
  proof -
    have "\<not> ancestors (attachChild g m c) m qs" for qs
      by (rule cycle_diverges[OF assms(3,4)]) (simp_all add: attachChild_nodes[OF assms(5)] that)
    then have "notifications (attachChild g m c) propertyAddedCb m c = None"
      using notifications_Some_ancestors[of "attachChild g m c" propertyAddedCb m c]
      by (cases "notifications (attachChild g m c) propertyAddedCb m c") auto
    then show ?thesis by (simp add: childAdded_def notifyListeners_def)
  qed
  show ?thesis
  proof (cases "m_ParentNode (node h c)")
    case None
    then show ?thesis using addChild_unfold[OF ae assms(5)] loop[of h] by simp
  next
    case (Some p)
    have child: "c \<in> set (children h p)" using child_parent[OF assms(1)] Some by simp
    obtain qs where "ancestors (detachChild h p c) p qs"
      using tree_okD(3)[OF detach_tree[OF assms(1)]] child by blast
    then have "snd (removeChild h p (Some c)) = Inr (Some c)"
      using removeChild_eq[OF parent_unaliased[OF assms(1) Some] child] notifications_ancestors
      by (simp add: childRemoved_def notifyListeners_def)
    then obtain h1 where h1: "removeChild h p (Some c) = (h1, Inr (Some c))" by (metis prod.collapse)
    have "m_ParentNode (node h1 k) = m_ParentNode (node h k)" if "k \<noteq> c" for k
      using removeChild_shape[OF assms(1) Some h1] that by (simp add: same_shape_def detachChild_nodes)
    then show ?thesis using addChild_unfold[OF ae assms(5)] loop[of h1] Some h1 by simp
  qed
qed

lemma children_fresh [simp]:
  "children (fst (make_shared h nm i)) k = (if k = nextId h then [] else children h k)"
  by (simp add: make_shared_def children_def newPropertyNode_def)

lemma node_fresh [simp]:
  "node (fst (make_shared h nm i)) k = (if k = nextId h then newPropertyNode nm i else node h k)"
  by (simp add: make_shared_def)

lemma emptySystem_nodes [simp]:
  "node emptySystem k = newPropertyNode ''/'' 0" "children emptySystem k = []" "nextId emptySystem = 1"
  by (simp_all add: emptySystem_def children_def newPropertyNode_def)

text \<open>Node 1 below the root, and node 2 below it.\<close>

definition chain2 :: pheap where
  "chain2 = attachChild (fst (make_shared emptySystem ''a'' 0)) 0 1"

definition chain3 :: pheap where
  "chain3 = attachChild (fst (make_shared chain2 ''b'' 0)) 1 2"

lemma chain2_ok: "tree_ok chain2" "nextId chain2 = 2"
proof -
  have "make_shared emptySystem ''a'' 0 = (fst (make_shared emptySystem ''a'' 0), nextId emptySystem)"
    by (simp add: make_shared_def)
  from fresh_attach_tree(1)[OF tree_ok_empty _ _ this, of 0]
  show "tree_ok chain2" by (simp add: chain2_def emptySystem_def newPropertyNode_def)
  show "nextId chain2 = 2" by (simp add: chain2_def attachChild_nodes make_shared_def emptySystem_def)
qed

lemma chain2_nodes:
  "children chain2 k = (if k = 0 then [1] else [])"
  "m_ParentNode (node chain2 k) = (if k = 1 then Some 0 else None)" "m_AliasTarget (node chain2 k) = None"
  by (auto simp: chain2_def attachChild_nodes newPropertyNode_def)

lemma chain3_ok: "tree_ok chain3"
proof -
  have "make_shared chain2 ''b'' 0 = (fst (make_shared chain2 ''b'' 0), nextId chain2)"
    by (simp add: make_shared_def)
  from fresh_attach_tree(1)[OF chain2_ok(1) _ _ this, of 1]
  show ?thesis by (simp add: chain3_def chain2_ok(2) chain2_nodes)
qed

lemma chain3_nodes:
  "children chain3 0 = [1]" "children chain3 1 = [2]" "m_ParentNode (node chain3 2) = Some 1"
  "m_ParentNode (node chain3 1) = Some 0" "m_ParentNode (node chain3 0) = None"
  "m_AliasTarget (node chain3 0) = None"
  using chain2_nodes chain2_ok(2)
  by (simp_all add: chain3_def attachChild_nodes newPropertyNode_def)

theorem addChild_ancestor_diverges_witness: "snd (addChild chain2 1 (Some 0)) = Inl Diverges"
proof (rule addChild_ancestor_diverges)
  show "ancestors chain2 1 [1, 0]"
    by (rule anc_step[of _ _ 0], simp add: chain2_nodes) (rule anc_root, simp add: chain2_nodes)
qed (simp_all add: chain2_ok chain2_nodes)

text \<open>
  \<open>removeChild\<close> clears the parent of whatever node it is handed: called on a node that has
  children of its own but not this one, it leaves the real parent with a child whose parent
  pointer is NULL, and reports a removal that did not take place.
\<close>

theorem removeChild_stranger:
  assumes "tree_ok h" "m_ParentNode (node h c) = Some p" "q \<noteq> p" "m_ChildNodes (node h q) \<noteq> None"
    "m_AliasTarget (node h q) = None"
  shows "\<exists>h'. removeChild h q (Some c) = (h', Inr (Some c)) \<and> c \<in> set (children h' p)
    \<and> m_ParentNode (node h' c) = None"
proof -
  have child: "c \<in> set (children h p)" and no: "c \<notin> set (children h q)"
    using child_parent[OF assms(1)] assms(2,3) by auto
  let ?d = "detachChild h q c"
  obtain cs where cs: "m_ChildNodes (node h q) = Some cs" using assms(4) by blast
  have "removeChild h q (Some c) = andThen (childRemoved ?d q c) (\<lambda>h _. (h, Inr (Some c)))"
    using assms(5) cs by (simp add: removeChild_def forward_def detachChild_def children_def)
  moreover obtain qs where "ancestors ?d q qs"
    using tree_okD(3)[OF assms(1), of q] detach_ancestors by blast
  ultimately obtain h' where h': "removeChild h q (Some c) = (h', Inr (Some c))" "same_shape ?d h'"
    using notifications_ancestors notify_same_shape(4)[of ?d q c]
    by (auto simp: childRemoved_def notifyListeners_def)
  then show ?thesis using child assms(3) by (auto simp: same_shape_def detachChild_nodes)
qed

theorem removeChild_stranger_witness:
  "\<exists>h'. removeChild chain3 0 (Some 2) = (h', Inr (Some 2)) \<and> 2 \<in> set (children h' 1)
    \<and> m_ParentNode (node h' 2) = None"
proof (rule removeChild_stranger[OF chain3_ok chain3_nodes(3)])
  show "m_ChildNodes (node chain3 0) \<noteq> None"
    using chain3_nodes(1) by (cases "m_ChildNodes (node chain3 0)") (auto simp: children_def)
qed (simp_all add: chain3_nodes)

section \<open>Unlinking all nodes below a node returns\<close>

lemma ancestors_distinct: "ancestors h n ps \<Longrightarrow> distinct ps"
proof (induction rule: ancestors.induct)
  case (anc_step n p ps)
  have "n \<notin> set ps"
  proof
    assume "n \<in> set ps"
    then obtain qs where "ancestors h n qs" "length qs \<le> length ps" using ancestors_suffix anc_step(2) by blast
    then show False using ancestors_unique ancestors.anc_step [OF anc_step(1, 2)] by fastforce
  qed
  then show ?case using anc_step by simp
qed simp

lemma ancestors_bound:
  assumes "ancestors h n ps" "tree_ok h" "n < nextId h"
  shows "length ps \<le> nextId h"
proof -
  have "set ps \<subseteq> {..< nextId h}" using ancestors_alloc [OF assms] by auto
  then have "card (set ps) \<le> nextId h" using card_mono [of "{..< nextId h}" "set ps"] by simp
  then show ?thesis using distinct_card [OF ancestors_distinct [OF assms(1)]] by simp
qed

lemma unlink_returns:
  "unlinkProxy fuel h n rec = (h', r) \<Longrightarrow> tree_ok h \<Longrightarrow> ancestors h n ps \<Longrightarrow> n < nextId h \<Longrightarrow>
     nextId h < fuel + length ps \<Longrightarrow> r \<noteq> Inl Diverges"
  "unlinkChildren fuel h cs = (h', u) \<Longrightarrow> tree_ok h \<Longrightarrow> \<forall>c \<in> set cs. ancestors h c (c # ps) \<and> c < nextId h \<Longrightarrow>
     nextId h < fuel + Suc (length ps) \<Longrightarrow> u \<noteq> Inl Diverges"
proof (induction fuel h n rec and fuel h cs arbitrary: h' r ps and h' u ps rule: unlinkProxy_unlinkChildren.induct)
  case (1 h n rec)
  then show ?case using ancestors_bound by fastforce
next
  case (2 fuel h n rec)
  have ch: "\<forall>c \<in> set (children h n). ancestors h c (c # ps) \<and> c < nextId h"
    using 2(3, 4) child_parent ancestors.anc_step allocated(1) by metis
  have "v \<noteq> Inl Diverges" if r: rec and u: "unlinkChildren fuel h (children h n) = (g, v)" for g v
    by (rule 2(1) [OF r u 2(3) ch]) (use 2(6) in simp)
  then show ?case using 2(2)
    by (cases "unlinkChildren fuel h (children h n)"; cases "snd (unlinkChildren fuel h (children h n))")
      (auto split: if_splits)
next
  case (4 fuel h c cs)
  obtain g v where g: "unlinkProxy fuel h c True = (g, v)" by fastforce
  note sh = unlink_shape(1) [OF g]
  have v: "v \<noteq> Inl Diverges" using 4(1) [OF g 4(4), of "c # ps"] 4(5, 6) by simp
  have n: "nextId g = nextId h" using sh by (simp add: same_shape_def)
  have cs: "\<forall>c \<in> set cs. ancestors g c (c # ps) \<and> c < nextId g"
    using 4(5) n same_shape_ancestors [OF sh] by simp
  show ?case
  proof (cases v)
    case (Inl e)
    then show ?thesis using 4(3) g v by auto
  next
    case (Inr b)
    then have "unlinkChildren fuel g cs = (h', u)" using 4(3) g by simp
    then show ?thesis using 4(2) [of "g" h' u ps] same_shape_tree [OF sh 4(4)] cs 4(6) n g Inr by simp
  qed
qed simp_all

text \<open>The fuel that a state gives is enough.\<close>

lemma unlink_fuel:
  assumes "tree_ok h" "n < nextId h"
  shows "snd (unlinkProxy (Suc (nextId h)) h n rec) \<noteq> Inl Diverges"
proof -
  obtain ps where ps: "ancestors h n ps" using assms(1) tree_okD(3) by blast
  obtain h' r where u: "unlinkProxy (Suc (nextId h)) h n rec = (h', r)" by fastforce
  have "r \<noteq> Inl Diverges" by (rule unlink_returns(1) [OF u assms(1) ps assms(2)]) simp
  with u show ?thesis by simp
qed

end
