(* ===== verification/Property_Paths.thy ===== *)
theory Property_Paths
  imports Property_Tree
begin

text \<open>
  Paths: what \<open>createProperty\<close> creates is what \<open>getProperty\<close> finds, and a value that
  \<^verbatim>\<open>PropertySystem\<close> stores under a path is the one it returns for the path.  The theorems are
  about plain paths, that is names without brackets, plus signs at the end, slashes and NULs,
  and need that a name that is used at all is used with index 0; the last section shows that
  the code relies on this without keeping it.
\<close>

section \<open>Plain names\<close>

definition plain_name :: "string \<Rightarrow> bool" where
  "plain_name s \<longleftrightarrow> s \<noteq> [] \<and> CHR ''['' \<notin> set s \<and> CHR ''/'' \<notin> set s \<and> CHR 0x00 \<notin> set s
     \<and> last s \<noteq> CHR ''+''"

lemma plain_index: "plain_name s \<Longrightarrow> getAndRemoveIndexFromPropertyName s = (0, s)"
  using str_find_None_iff[of "CHR ''[''" s 0]
  by (simp add: plain_name_def getAndRemoveIndexFromPropertyName_def)

lemma plain_strip: "plain_name s \<Longrightarrow> stripPlus s = s"
  using last_conv_nth[of s] by (auto simp: plain_name_def stripPlus_def)

lemma plain_c_str: "plain_name s \<Longrightarrow> c_str s = s"
  by (simp add: plain_name_def)

lemma carCdr_single: "plain_name a \<Longrightarrow> carCdrPath a = (a, [])"
  using str_find_None_iff[of "CHR ''/''" a 0] by (simp add: plain_name_def carCdrPath_def)

lemma carCdr_join:
  assumes "plain_name a"
  shows "carCdrPath (join (a # b # rest) ''/'') = (a, join (b # rest) ''/'')"
proof -
  have "str_find (CHR ''/'') (join (a # b # rest) ''/'') 0 = Some (0 + length a)"
    by (rule str_find_skip) (use assms in \<open>auto simp: plain_name_def\<close>)
  then show ?thesis by (simp add: carCdrPath_def substr_def str_erase_def)
qed

lemma join_nonempty:
  assumes "plain_name a"
  shows "join (a # rest) ''/'' \<noteq> []" "join (a # rest) ''/'' \<noteq> ''/''"
proof -
  obtain c cs where "a = c # cs" "c \<noteq> CHR ''/''" using assms by (cases a) (auto simp: plain_name_def)
  then show "join (a # rest) ''/'' \<noteq> []" "join (a # rest) ''/'' \<noteq> ''/''" by auto
qed

section \<open>Looking up a child\<close>

definition childNamed :: "pheap \<Rightarrow> nodeid \<Rightarrow> string \<Rightarrow> nodeid option" where
  "childNamed h m name = List.find (\<lambda>c. key h c = (name, 0)) (children h m)"

lemma findChild_zero: "findChild h cs name 0 l = List.find (\<lambda>c. key h c = (name, 0)) cs"
  by (induction cs arbitrary: l) (simp_all add: key_def)

lemma getPropertyByName_plain:
  assumes "plain_name a" "m_AliasTarget (node h m) = None"
  shows "getPropertyByName h m a = Inr (childNamed h m a)"
  using assms(2)
  by (simp add: getPropertyByName_def forwardGet_def plain_index[OF assms(1)] childNamed_def children_def
      findChild_zero split: option.split)

text \<open>Every name in use among the children of a node is in use with index 0.\<close>

definition dense :: "pheap \<Rightarrow> bool" where
  "dense h \<longleftrightarrow> (\<forall>m. \<forall>c \<in> set (children h m). childNamed h m (m_Name (node h c)) \<noteq> None)"

text \<open>The later heap finds every child the earlier one finds, and follows the same aliases.\<close>

definition extends :: "pheap \<Rightarrow> pheap \<Rightarrow> bool" where
  "extends h h' \<longleftrightarrow> (\<forall>k. m_AliasTarget (node h' k) = m_AliasTarget (node h k))
     \<and> (\<forall>m a c. childNamed h m a = Some c \<longrightarrow> childNamed h' m a = Some c)"

lemma extends_refl [simp]: "extends h h"
  by (simp add: extends_def)

lemma extends_trans: "extends a b \<Longrightarrow> extends b c \<Longrightarrow> extends a c"
  by (simp add: extends_def)

lemma extends_alias_end: "extends h h' \<Longrightarrow> alias_end h' n = alias_end h n"
  by (rule alias_end_cong) (simp add: extends_def)

lemma same_shape_childNamed: "same_shape h h' \<Longrightarrow> childNamed h' m a = childNamed h m a"
  by (simp add: childNamed_def same_shape_key) (simp add: same_shape_def)

lemma same_shape_extends: "same_shape h h' \<Longrightarrow> extends h h'"
  using same_shape_childNamed[of h h'] by (simp add: extends_def same_shape_def)

lemma same_shape_dense: "same_shape h h' \<Longrightarrow> dense h \<Longrightarrow> dense h'"
  using same_shape_childNamed[of h h'] by (simp add: dense_def same_shape_def)

lemma getProperty_single:
  assumes "plain_name a" "alias_end h n = Some m"
  shows "getProperty h n (join [a] ''/'') = Inr (childNamed h m a)"
  using assms join_nonempty[OF assms(1), of "[]"] alias_end_unaliased[OF assms(2)]
  by (simp add: getProperty.simps[of h n] carCdr_single getPropertyByName_plain split: option.split)

lemma getProperty_cons:
  assumes "plain_name a" "plain_name b" "alias_end h n = Some m"
  shows "getProperty h n (join (a # b # rest) ''/'') =
     (case childNamed h m a of None \<Rightarrow> Inr None | Some c \<Rightarrow> getProperty h c (join (b # rest) ''/''))"
  using assms join_nonempty[OF assms(1), of "b # rest"] join_nonempty[OF assms(2), of rest]
    alias_end_unaliased[OF assms(3)]
  by (simp add: getProperty.simps[of h n] carCdr_join getPropertyByName_plain del: join.simps split: option.split)

lemma getProperty_extends:
  "extends h h' \<Longrightarrow> names \<noteq> [] \<Longrightarrow> \<forall>a \<in> set names. plain_name a \<Longrightarrow>
     getProperty h n (join names ''/'') = Inr (Some c) \<Longrightarrow> getProperty h' n (join names ''/'') = Inr (Some c)"
proof (induction names arbitrary: n)
  case (Cons a names)
  then obtain m where m: "alias_end h n = Some m"
    by (cases "alias_end h n") (auto simp: getProperty.simps[of h n])
  then have m': "alias_end h' n = Some m" using extends_alias_end[OF Cons.prems(1)] by simp
  show ?case
  proof (cases names)
    case Nil
    then show ?thesis using Cons.prems m m'
      by (auto simp: getProperty_single extends_def simp del: join.simps)
  next
    case (Cons b rest)
    then obtain d where d: "childNamed h m a = Some d" "getProperty h d (join names ''/'') = Inr (Some c)"
      using Cons.prems m
      by (auto simp: getProperty_cons simp del: join.simps split: option.splits)
    then have "getProperty h' d (join names ''/'') = Inr (Some c)" using Cons.IH Cons.prems Cons by simp
    moreover have "childNamed h' m a = Some d" using d Cons.prems(1) by (simp add: extends_def)
    ultimately show ?thesis using Cons Cons.prems m' by (simp add: getProperty_cons del: join.simps)
  qed
qed simp

section \<open>Creating a missing child\<close>

lemma find_append:
  "List.find P (xs @ ys) = (case List.find P xs of None \<Rightarrow> List.find P ys | Some x \<Rightarrow> Some x)"
  by (induction xs) simp_all

lemma maxIndex_none: "\<forall>c \<in> set cs. m_Name (node h c) \<noteq> name \<Longrightarrow> maxIndex h cs name = -1"
  unfolding maxIndex_def by (induction cs rule: rev_induct) simp_all

definition unlinked :: "pheap \<Rightarrow> bool" where
  "unlinked h \<longleftrightarrow> (\<forall>k. m_Proxy (node h k) = None)"

lemma attachChild_proxy [simp]: "m_Proxy (node (attachChild h m c) k) = m_Proxy (node h k)"
  by (simp add: attachChild_def Let_def)

lemma unlinked_same: "unlinked h \<Longrightarrow> (\<And>k. m_Proxy (node h' k) = m_Proxy (node h k)) \<Longrightarrow> unlinked h'"
  by (simp add: unlinked_def)

lemma make_shared_children:
  "tree_ok h \<Longrightarrow> make_shared h a j = (h1, k) \<Longrightarrow> children h1 l = children h l"
  using fresh_node(2)[of h "nextId h"] children_fresh[of h a j l] by (cases "l = nextId h") auto

lemma fresh_child_lookup:
  assumes ok: "tree_ok h" and m: "m < nextId h" "m_AliasTarget (node h m) = None"
    and mk: "make_shared h a j = (h1, nextId h)" and dn: "dense h" and new: "childNamed h m a = None"
  shows "childNamed (attachChild h1 m (nextId h)) i b =
     (case childNamed h i b of Some c \<Rightarrow> Some c | None \<Rightarrow> if i = m \<and> b = a then Some (nextId h) else None)"
proof -
  let ?k = "nextId h" and ?h2 = "attachChild h1 m (nextId h)"
  have ne: "?k \<noteq> m" using m by simp
  note mkn = make_shared_nodes[OF mk] and fr = fresh_node[OF ok order_refl]
  note ch1 = make_shared_children[OF ok mk]
  have notin: "?k \<notin> set (children h l)" for l using child_parent[OF ok] fr(1) by simp
  have "m_Name (node h c) \<noteq> a" if "c \<in> set (children h m)" for c
    using dn that new unfolding dense_def by (metis)
  then have "\<forall>c \<in> set (children h m). m_Name (node h1 c) \<noteq> a" using notin by (auto simp: mkn(3))
  then have "maxIndex h1 (children h1 m) a = -1" using ch1 maxIndex_none by simp
  then have keyk: "key ?h2 ?k = (a, 0)"
    by (simp add: key_def attachChild_nodes[OF ne] mkn(3) newPropertyNode_def)
  have old: "key ?h2 c = key h c" if "c \<in> set (children h i)" for c
    using that notin by (auto simp: key_def attachChild_nodes[OF ne] mkn(3))
  have "List.find (\<lambda>c. key ?h2 c = (b, 0)) (children h i) = childNamed h i b"
    unfolding childNamed_def using old by (intro find_cong) auto
  then show ?thesis
    using keyk by (auto simp: childNamed_def[of ?h2] attachChild_nodes(1)[OF ne] ch1 find_append split: option.split)
qed

lemma createChild_plain:
  assumes ok: "tree_ok h" and m: "m < nextId h" "m_AliasTarget (node h m) = None"
    and a: "plain_name a" and dn: "dense h" and new: "childNamed h m a = None"
  shows "\<exists>h' c. createChild h m a p = (h', Inr c) \<and> tree_ok h' \<and> dense h' \<and> extends h h'
    \<and> childNamed h' m a = Some c \<and> c < nextId h' \<and> (unlinked h \<longrightarrow> unlinked h')"
proof -
  let ?k = "nextId h"
  have ne: "?k \<noteq> m" using m by simp
  have nm: "getAndRemoveIndexFromPropertyName (stripPlus a) = (0, a)" "a \<noteq> []"
    using a by (simp_all add: plain_strip plain_index) (simp add: plain_name_def)
  from createChild_success[OF ok m nm, of p] plain_c_str[OF a]
  obtain h1 j h' where mk: "make_shared h a j = (h1, ?k)" and run: "createChild h m a p = (h', Inr ?k)"
    and h': "childAdded (attachChild h1 m ?k) m ?k = (h', Inr ())"
    and ok': "tree_ok h'" "nextId h' = Suc ?k" by auto
  note mkn = make_shared_nodes[OF mk]
  note look = fresh_child_lookup[OF ok m mk dn new]
  note sh = notify_same_shape(3)[OF h']
  have ch: "children (attachChild h1 m ?k) i = children h i @ (if i = m then [?k] else [])" for i
    by (simp add: attachChild_nodes[OF ne] make_shared_children[OF ok mk])
  have nme: "m_Name (node (attachChild h1 m ?k) c) = (if c = ?k then a else m_Name (node h c))" for c
    by (simp add: attachChild_nodes[OF ne] mkn(3) newPropertyNode_def)
  have kn: "?k \<notin> set (children h i)" for i
    using child_parent[OF ok] fresh_node(1)[OF ok order_refl] by simp
  have "dense (attachChild h1 m ?k)"
    unfolding dense_def
  proof (intro allI ballI)
    fix i c assume c: "c \<in> set (children (attachChild h1 m ?k) i)"
    have "childNamed h i (m_Name (node h c)) \<noteq> None" if "c \<in> set (children h i)"
      using dn that unfolding dense_def by blast
    moreover have "c \<in> set (children h i) \<and> c \<noteq> ?k \<or> c = ?k \<and> i = m"
      using c kn[of i] by (auto simp: ch split: if_splits)
    ultimately show "childNamed (attachChild h1 m ?k) i (m_Name (node (attachChild h1 m ?k) c)) \<noteq> None"
      using new by (auto simp: look nme)
  qed
  then have "dense h'" using same_shape_dense[OF sh] by blast
  moreover have "extends h (attachChild h1 m ?k)"
    using fresh_node(3)[OF ok order_refl]
    by (simp add: extends_def look attachChild_nodes(3)[OF ne] mkn(3) newPropertyNode_def)
  then have "extends h h'" using same_shape_extends[OF sh] extends_trans by blast
  moreover have "childNamed h' m a = Some ?k" using same_shape_childNamed[OF sh] look new by simp
  moreover have "unlinked h'" if "unlinked h"
  proof (rule unlinked_same[OF that])
    fix l
    have "nodes h' = nodes (attachChild h1 m ?k)"
      using h' unfolding childAdded_def by (rule notifyListeners_cases) simp_all
    then show "m_Proxy (node h' l) = m_Proxy (node h l)"
      using that by (simp add: mkn(3) newPropertyNode_def unlinked_def)
  qed
  ultimately show ?thesis using run ok' by auto
qed

section \<open>Creating and finding\<close>

definition aliases_end :: "pheap \<Rightarrow> bool" where
  "aliases_end h \<longleftrightarrow> (\<forall>n. alias_end h n \<noteq> None)"

lemma createProperty_plain:
  "names \<noteq> [] \<Longrightarrow> \<forall>a \<in> set names. plain_name a \<Longrightarrow> tree_ok h \<Longrightarrow> dense h \<Longrightarrow> aliases_end h \<Longrightarrow> n < nextId h \<Longrightarrow>
     \<exists>h' c. createProperty h n (join names ''/'') = (h', Inr c) \<and> tree_ok h' \<and> dense h' \<and> extends h h'
       \<and> getProperty h' n (join names ''/'') = Inr (Some c) \<and> (unlinked h \<longrightarrow> unlinked h')"
proof (induction names arbitrary: h n)
  case (Cons a names)
  obtain m where m: "alias_end h n = Some m" using Cons.prems(5) by (auto simp: aliases_end_def)
  have a: "plain_name a" using Cons.prems(2) by simp
  have un: "m_AliasTarget (node h m) = None" using alias_end_unaliased[OF m] .
  have mk: "m < nextId h" using alias_end_alloc[OF m Cons.prems(3,6)] .
  let ?p = "join (a # names) ''/''"
  have "\<exists>h1 c. (case childNamed h m a of None \<Rightarrow> createChild h m a ?p | Some c \<Rightarrow> (h, Inr c)) = (h1, Inr c)
      \<and> tree_ok h1 \<and> dense h1 \<and> extends h h1 \<and> childNamed h1 m a = Some c \<and> c < nextId h1
      \<and> (unlinked h \<longrightarrow> unlinked h1)"
  proof (cases "childNamed h m a")
    case None
    then show ?thesis using createChild_plain[OF Cons.prems(3) mk un a Cons.prems(4) None, of ?p] by simp
  next
    case (Some c)
    then have "c \<in> set (children h m)" unfolding childNamed_def by (auto simp: find_Some_iff)
    then have "c < nextId h" using child_parent[OF Cons.prems(3)] allocated(1)[OF Cons.prems(3)] by blast
    then show ?thesis using Some Cons.prems by simp
  qed
  then obtain h1 c where c: "(case childNamed h m a of None \<Rightarrow> createChild h m a ?p | Some c \<Rightarrow> (h, Inr c)) = (h1, Inr c)"
      "tree_ok h1" "dense h1" "extends h h1" "childNamed h1 m a = Some c" "c < nextId h1"
      "unlinked h \<longrightarrow> unlinked h1" by blast
  have step: "(case getPropertyByName h m a of Inl e \<Rightarrow> (h, Inl e) | Inr (Some c) \<Rightarrow> (h, Inr c)
      | Inr None \<Rightarrow> createChild h m a ?p) = (h1, Inr c)"
    using c(1) getPropertyByName_plain[OF a un] by (simp split: option.splits)
  have m1: "alias_end h1 n = Some m" using extends_alias_end[OF c(4)] m by simp
  show ?case
  proof (cases names)
    case Nil
    have "createProperty h n ?p = (h1, Inr c)"
      using m a step join_nonempty[OF a, of "[]"] unfolding Nil join.simps joinRest.simps append_Nil2
      by (simp add: createProperty.simps[of h n a] carCdr_single)
    moreover have "getProperty h1 n ?p = Inr (Some c)"
      using getProperty_single[OF a m1] c(5) Nil by simp
    ultimately show ?thesis using c by blast
  next
    case (Cons b rest)
    then have b: "plain_name b" using Cons.prems(2) by simp
    have "aliases_end h1" using Cons.prems(5) extends_alias_end[OF c(4)] by (simp add: aliases_end_def)
    from Cons.IH[of h1 c, OF _ _ c(2,3) this c(6)] Cons.prems(2) Cons obtain h' d where d:
      "createProperty h1 c (join names ''/'') = (h', Inr d)" "tree_ok h'" "dense h'" "extends h1 h'"
      "getProperty h' c (join names ''/'') = Inr (Some d)" "unlinked h1 \<longrightarrow> unlinked h'" by auto
    have "createProperty h n ?p = (h', Inr d)"
      using m step d(1) a join_nonempty[OF a, of names] join_nonempty[OF b, of rest] unfolding Cons
      by (simp add: createProperty.simps[of h n] carCdr_join del: join.simps)
    moreover have "childNamed h' m a = Some c" "alias_end h' n = Some m"
      using d(4) c(5) m1 extends_alias_end[OF d(4)] by (simp_all add: extends_def)
    then have "getProperty h' n ?p = Inr (Some d)" using getProperty_cons[OF a b] d(5) Cons by simp
    ultimately show ?thesis using d c extends_trans by blast
  qed
qed simp


lemma empty_facts: "dense emptySystem" "aliases_end emptySystem" "unlinked emptySystem"
proof -
  show "dense emptySystem" by (simp add: dense_def)
  have "m_AliasTarget (node emptySystem k) = None" for k by (simp add: newPropertyNode_def)
  then show "aliases_end emptySystem" unfolding aliases_end_def by (metis alias_end_self option.distinct(1))
  show "unlinked emptySystem" by (simp add: unlinked_def newPropertyNode_def)
qed


section \<open>PropertySystem as a store\<close>

text \<open>
  The contract of \<^verbatim>\<open>PropertySystem\<close> towards the rest of the server: storing a value under a
  path succeeds, and the value is there afterwards.
\<close>

fun putAll :: "('s \<Rightarrow> string \<Rightarrow> 'v \<Rightarrow> 's \<times> (perror + bool)) \<Rightarrow> 's \<Rightarrow> (string \<times> 'v) list \<Rightarrow> 's \<times> (perror + bool)" where
  "putAll put s [] = (s, Inr True)"
| "putAll put s ((p, v) # ws) = (case put s p v of (s', Inr True) \<Rightarrow> putAll put s' ws | r \<Rightarrow> r)"

locale path_store =
  fixes get :: "'s \<Rightarrow> string \<Rightarrow> perror + 'v"
    and put :: "'s \<Rightarrow> string \<Rightarrow> 'v \<Rightarrow> 's \<times> (perror + bool)"
    and inv :: "'s \<Rightarrow> bool" and path :: "string \<Rightarrow> bool" and norm :: "'v \<Rightarrow> 'v"
  assumes put_get: "inv s \<Longrightarrow> path p \<Longrightarrow> \<exists>s'. put s p v = (s', Inr True) \<and> inv s' \<and> get s' p = Inr (norm v)"
begin

lemma put_put_get:
  assumes "inv s" "path p"
  shows "\<exists>s1 s2. put s p v = (s1, Inr True) \<and> put s1 p w = (s2, Inr True) \<and> get s2 p = Inr (norm w)"
  using put_get[OF assms, of v] put_get[OF _ assms(2), of _ w] by blast

lemma putAll_last:
  "inv s \<Longrightarrow> \<forall>(p, v) \<in> set ws. path p \<Longrightarrow> path p \<Longrightarrow>
     \<exists>s'. putAll put s (ws @ [(p, v)]) = (s', Inr True) \<and> inv s' \<and> get s' p = Inr (norm v)"
proof (induction ws arbitrary: s)
  case Nil
  then show ?case using put_get[of s p v] by auto
next
  case (Cons w ws)
  obtain q u where w: "w = (q, u)" by fastforce
  with Cons.prems obtain s1 where s1: "put s q u = (s1, Inr True)" "inv s1" using put_get[of s q u] by auto
  then show ?case using Cons.IH[OF s1(2)] Cons.prems w by auto
qed

end

definition store_inv :: "pheap \<Rightarrow> bool" where
  "store_inv h \<longleftrightarrow> tree_ok h \<and> dense h \<and> aliases_end h \<and> nodes_ok h \<and> unlinked h \<and> 0 < nextId h"

definition abs_path :: "string \<Rightarrow> bool" where
  "abs_path p \<longleftrightarrow> (\<exists>names. names \<noteq> [] \<and> (\<forall>a \<in> set names. plain_name a) \<and> p = ''/'' @ join names ''/'')"

lemma getProperty_total:
  "names \<noteq> [] \<Longrightarrow> \<forall>a \<in> set names. plain_name a \<Longrightarrow> aliases_end h \<Longrightarrow> \<exists>x. getProperty h n (join names ''/'') = Inr x"
proof (induction names arbitrary: n)
  case (Cons a names)
  obtain m where m: "alias_end h n = Some m" using Cons.prems(3) by (auto simp: aliases_end_def)
  show ?case
  proof (cases names)
    case Nil
    then show ?thesis using getProperty_single[OF _ m] Cons.prems by auto
  next
    case (Cons b rest)
    then show ?thesis using getProperty_cons[OF _ _ m, of a b rest] Cons.IH Cons.prems
      by (auto split: option.split)
  qed
qed simp

lemma store_value:
  assumes "store_inv h"
  shows "\<exists>h'. setValue h c v = (h', Inr ()) \<and> store_inv h' \<and> same_shape h h' \<and> reads_back h' c (canon v)"
proof -
  from assms have ok: "tree_ok h" "dense h" "aliases_end h" "nodes_ok h" "unlinked h" "0 < nextId h"
    by (simp_all add: store_inv_def)
  obtain m where m: "alias_end h c = Some m" using ok(3) by (auto simp: aliases_end_def)
  obtain ps where ps: "ancestors h m ps" using tree_okD(3)[OF ok(1)] by blast
  have un: "m_Proxy (node h m) = None" using ok(5) by (simp add: unlinked_def)
  let ?h = "changed (store h m (canon v)) m ps"
  have run: "setValue h c v = (?h, Inr ())"
    using setValue_eq[OF m ps nodes_ok_node[OF ok(4)], of v] un by simp
  note sh = setValue_shape[OF run]
  have "unlinked ?h" using ok(5) by (simp add: unlinked_def changed_def store_def)
  moreover have "aliases_end ?h" using ok(3) by (simp add: aliases_end_def)
  moreover have "0 < nextId ?h" using ok(6) sh by (simp add: same_shape_def)
  ultimately have "store_inv ?h"
    using same_shape_tree[OF sh ok(1)] same_shape_dense[OF sh ok(2)] setValue_ok[OF run ok(4)]
    by (simp add: store_inv_def)
  moreover have "reads_back ?h c (canon v)"
    using reads_back_getTyped[of ?h c m "canon v"] m getTyped_store[OF un, of "canon v"] by simp
  ultimately show ?thesis using run sh by blast
qed

lemma sysSet_get:
  assumes "store_inv h" "abs_path p"
  shows "\<exists>h' c. sysSetValue h p (\<lambda>h n. setValue h n v) True True = (h', Inr True) \<and> store_inv h'
    \<and> sysGetProperty h' p = Inr (Some c) \<and> reads_back h' c (canon v)"
proof -
  obtain names where names: "names \<noteq> []" "\<forall>a \<in> set names. plain_name a" "p = ''/'' @ join names ''/''"
    using assms(2) by (auto simp: abs_path_def)
  let ?q = "join names ''/''"
  have q: "?q \<noteq> []" using names(1,2) join_nonempty(1) by (cases names) (simp_all del: join.simps)
  have get: "sysGetProperty g p = getProperty g 0 ?q" for g using names(3) q by (simp add: sysGetProperty_def)
  have crt: "sysCreateProperty g p = andThen (createProperty g 0 ?q) (\<lambda>h c. (h, Inr (Some c)))" for g
    using names(3) q by (simp add: sysCreateProperty_def)
  from assms(1) have ok: "tree_ok h" "dense h" "aliases_end h" "nodes_ok h" "unlinked h" "0 < nextId h"
    by (simp_all add: store_inv_def)
  obtain x where x: "getProperty h 0 ?q = Inr x" using getProperty_total[OF names(1,2) ok(3)] by blast
  have "\<exists>h1 c. store_inv h1 \<and> getProperty h1 0 ?q = Inr (Some c)
      \<and> sysSetValue h p (\<lambda>h n. setValue h n v) True True = andThen (setValue h1 c v) (\<lambda>h _. (h, Inr True))"
  proof (cases x)
    case (Some c)
    then show ?thesis using assms(1) x get by (auto simp: sysSetValue_def)
  next
    case None
    obtain h1 c where h1: "createProperty h 0 ?q = (h1, Inr c)" "tree_ok h1" "dense h1" "extends h h1"
        "getProperty h1 0 ?q = Inr (Some c)" "unlinked h \<longrightarrow> unlinked h1"
      using createProperty_plain[OF names(1,2) ok(1,2,3,6)] by blast
    have "aliases_end h1" using ok(3) extends_alias_end[OF h1(4)] by (simp add: aliases_end_def)
    moreover have "nextId h \<le> nextId h1" using createProperty_tree[OF h1(1) ok(1,6)] by simp
    ultimately have "store_inv h1"
      using h1 ok createProperty_ok[OF h1(1) ok(4)] by (simp add: store_inv_def)
    then show ?thesis using None x h1 get crt by (auto simp: sysSetValue_def)
  qed
  then obtain h1 c where h1: "store_inv h1" "getProperty h1 0 ?q = Inr (Some c)"
      "sysSetValue h p (\<lambda>h n. setValue h n v) True True = andThen (setValue h1 c v) (\<lambda>h _. (h, Inr True))" by blast
  obtain h' where h': "setValue h1 c v = (h', Inr ())" "store_inv h'" "same_shape h1 h'" "reads_back h' c (canon v)"
    using store_value[OF h1(1)] by blast
  have "getProperty h' 0 ?q = Inr (Some c)"
    using getProperty_extends[OF same_shape_extends[OF h'(3)] names(1,2) h1(2)] .
  then show ?thesis using h1 h' get by auto
qed

interpretation ints: path_store sysGetIntValue "\<lambda>h p v. sysSetIntValue h p v True True" store_inv abs_path "\<lambda>v. v"
proof
  fix h p and v :: u32 assume "store_inv h" "abs_path p"
  from sysSet_get[OF this, of "CInteger v"]
  show "\<exists>s'. sysSetIntValue h p v True True = (s', Inr True) \<and> store_inv s' \<and> sysGetIntValue s' p = Inr v"
    by (auto simp: sysSetIntValue_def sysGetIntValue_def)
qed

interpretation bools: path_store sysGetBoolValue "\<lambda>h p v. sysSetBoolValue h p v True True" store_inv abs_path "\<lambda>v. v"
proof
  fix h p v assume "store_inv h" "abs_path p"
  from sysSet_get[OF this, of "CBoolean v"]
  show "\<exists>s'. sysSetBoolValue h p v True True = (s', Inr True) \<and> store_inv s' \<and> sysGetBoolValue s' p = Inr v"
    by (auto simp: sysSetBoolValue_def sysGetBoolValue_def)
qed

interpretation strings: path_store sysGetStringValue "\<lambda>h p v. sysSetStringValue h p v True True" store_inv abs_path c_str
proof
  fix h p v assume "store_inv h" "abs_path p"
  from sysSet_get[OF this, of "CString v"]
  show "\<exists>s'. sysSetStringValue h p v True True = (s', Inr True) \<and> store_inv s' \<and> sysGetStringValue s' p = Inr (c_str v)"
    by (auto simp: sysSetStringValue_def sysGetStringValue_def)
qed

lemma store_inv_empty: "store_inv emptySystem"
  by (simp add: store_inv_def tree_ok_empty empty_facts nodes_ok_empty)

lemma abs_path_example: "abs_path ''/a''" "abs_path ''/b/c''"
  unfolding abs_path_def
  by (rule exI[of _ "[''a'']"], simp add: plain_name_def) (rule exI[of _ "[''b'', ''c'']"], simp add: plain_name_def)



text \<open>
  The same for a single boolean and a single string; a string comes back up to its first NUL.
\<close>

theorem system_set_get:
  assumes "store_inv h" "abs_path p"
  shows "(\<exists>h'. sysSetBoolValue h p b True True = (h', Inr True) \<and> store_inv h' \<and> sysGetBoolValue h' p = Inr b)
    \<and> (\<exists>h'. sysSetStringValue h p s True True = (h', Inr True) \<and> store_inv h' \<and> sysGetStringValue h' p = Inr (c_str s))"
  using bools.put_get[OF assms] strings.put_get[OF assms] by blast

theorem system_set_get_witness:
  "\<exists>h'. sysSetStringValue emptySystem ''/b/c'' ''x'' True True = (h', Inr True) \<and> store_inv h'
     \<and> sysGetStringValue h' ''/b/c'' = Inr (c_str ''x'')"
  using system_set_get[OF store_inv_empty abs_path_example(2), of True "''x''"] by blast

section \<open>Where paths break\<close>

text \<open>
  When the child with index 0 of a name is gone but another one of the name is left,
  \<open>createProperty\<close> adds a new node each time it is called with the name, and the node it
  returns is never found under the name.
\<close>

theorem sparse_name_never_found:
  assumes ok: "tree_ok h" and m: "m < nextId h" "m_AliasTarget (node h m) = None" and a: "plain_name a"
    and none: "childNamed h m a = None" and some: "c \<in> set (children h m)" "m_Name (node h c) = a"
  shows "\<exists>h' d. createProperty h m a = (h', Inr d) \<and> nextId h' = Suc (nextId h)
    \<and> getProperty h' m a = Inr None"
proof -
  let ?k = "nextId h"
  have ne: "?k \<noteq> m" using m by simp
  have nm: "getAndRemoveIndexFromPropertyName (stripPlus a) = (0, a)" "a \<noteq> []" "a \<noteq> ''/''"
    using a by (simp_all add: plain_strip plain_index) (auto simp: plain_name_def)
  from createChild_success[OF ok m nm(1,2), of a] plain_c_str[OF a]
  obtain h1 j h' where mk: "make_shared h a j = (h1, ?k)" and run: "createChild h m a a = (h', Inr ?k)"
    and h': "childAdded (attachChild h1 m ?k) m ?k = (h', Inr ())" and nx: "nextId h' = Suc ?k" by auto
  note mkn = make_shared_nodes[OF mk] and sh = notify_same_shape(3)[OF h'] and ch1 = make_shared_children[OF ok mk]
  have kn: "?k \<notin> set (children h m)" using child_parent[OF ok] fresh_node(1)[OF ok order_refl] by simp
  have "m_Index (node h1 c) \<le> maxIndex h1 (children h1 m) a"
    using some kn ch1 by (intro maxIndex_bound) (auto simp: mkn(3))
  moreover have "0 \<le> m_Index (node h1 c)"
    using some kn tree_okD(2)[OF ok, of m] by (auto simp: mkn(3) siblings_ok_def)
  ultimately have "key (attachChild h1 m ?k) ?k \<noteq> (a, 0)"
    by (simp add: key_def attachChild_nodes[OF ne] mkn(3) newPropertyNode_def)
  moreover have "key (attachChild h1 m ?k) d \<noteq> (a, 0)" if "d \<in> set (children h m)" for d
    using that none kn by (auto simp: key_def attachChild_nodes[OF ne] mkn(3) childNamed_def find_None_iff)
  ultimately have "childNamed (attachChild h1 m ?k) m a = None"
    by (auto simp: childNamed_def find_None_iff attachChild_nodes(1)[OF ne] ch1)
  then have "childNamed h' m a = None" using same_shape_childNamed[OF sh] by simp
  moreover have "m_AliasTarget (node h' m) = None"
    using sh m by (simp add: same_shape_def attachChild_nodes[OF ne] mkn(3))
  ultimately have "getProperty h' m a = Inr None" using getProperty_single[OF a, of h' m m] by simp
  moreover have "createProperty h m a = (h', Inr ?k)"
    using m run none a nm getPropertyByName_plain[OF a m(2)]
    by (simp add: createProperty.simps[of h m a] carCdr_single)
  ultimately show ?thesis using nx by blast
qed

text \<open>Two children \<open>a\<close> of the root, the first of which is removed.\<close>

definition sparse :: pheap where
  "sparse =
     (let h = attachChild (fst (make_shared chain2 ''a'' 0)) 0 2 in detachChild h 0 1)"

lemma sparse_nodes: "tree_ok sparse" "children sparse 0 = [2]" "m_AliasTarget (node sparse 0) = None"
  "key sparse 2 = (''a'', 1)" "nextId sparse = 3"
proof -
  have "make_shared chain2 ''a'' 0 = (fst (make_shared chain2 ''a'' 0), nextId chain2)"
    by (simp add: make_shared_def)
  from fresh_attach_tree(1)[OF chain2_ok(1) _ _ this, of 0]
  have t: "tree_ok (attachChild (fst (make_shared chain2 ''a'' 0)) 0 2)" by (simp add: chain2_ok(2) chain2_nodes)
  show "tree_ok sparse" unfolding sparse_def Let_def
    by (rule detach_tree[OF t]) (simp add: attachChild_nodes chain2_nodes chain2_ok(2))
  have k1: "m_Name (node chain2 1) = ''a''" "m_Index (node chain2 1) = 0"
    by (simp_all add: chain2_def attachChild_nodes newPropertyNode_def maxIndex_def)
  show "children sparse 0 = [2]" "m_AliasTarget (node sparse 0) = None" "key sparse 2 = (''a'', 1)"
    using k1 by (simp_all add: sparse_def detachChild_nodes attachChild_nodes key_def chain2_nodes chain2_ok(2)
        newPropertyNode_def maxIndex_def del: One_nat_def)
  show "nextId sparse = 3" using chain2_ok(2)
    by (simp add: sparse_def detachChild_nodes attachChild_nodes make_shared_def)
qed

theorem sparse_name_never_found_witness:
  "\<exists>h' d. createProperty sparse 0 ''a'' = (h', Inr d) \<and> nextId h' = Suc (nextId sparse)
    \<and> getProperty h' 0 ''a'' = Inr None"
proof (rule sparse_name_never_found[OF sparse_nodes(1) _ sparse_nodes(3)])
  show "childNamed sparse 0 ''a'' = None" by (simp add: childNamed_def sparse_nodes)
  show "2 \<in> set (children sparse 0)" "m_Name (node sparse 2) = ''a''" "0 < nextId sparse"
    using sparse_nodes by (simp_all add: key_def)
qed (simp add: plain_name_def)

text \<open>
  Reading a value under a path that does not exist gives 0, false or the empty string; the
  interface documents an exception.  Storing under a path without a leading slash, with
  permission to create it, dereferences a NULL pointer.
\<close>

theorem system_missing_paths:
  assumes "sysGetProperty h p = Inr None" "q = [] \<or> hd q \<noteq> CHR ''/''"
  shows "sysGetIntValue h p = Inr 0 \<and> sysGetBoolValue h p = Inr False \<and> sysGetStringValue h p = Inr []
    \<and> snd (sysSetIntValue h q i True w) = Inl NullDeref \<and> snd (sysSetIntValue h p i False w) = Inr False"
  using assms
  by (auto simp: sysGetIntValue_def sysGetBoolValue_def sysGetStringValue_def sysSetIntValue_def sysSetValue_def
      sysGetProperty_def[of h q] sysCreateProperty_def)

theorem system_missing_paths_witness:
  "sysGetIntValue emptySystem ''x'' = Inr 0 \<and> snd (sysSetIntValue emptySystem ''x'' 1 True True) = Inl NullDeref"
  using system_missing_paths[of emptySystem "''x''" "''x''" 1 True] by (simp add: sysGetProperty_def)

end
