(* ===== verification/Property_Listeners.thy ===== *)
theory Property_Listeners
  imports Property_Invariant
begin

text \<open>
  Registration of listeners.  A listener keeps the nodes it is registered with and a node keeps
  its listeners; the two lists agree, which is what makes the loop in
  \<^verbatim>\<open>PropertyListener::unsubscribe\<close> end.
\<close>

definition listeners_ok :: "pheap \<Rightarrow> bool" where
  "listeners_ok h \<longleftrightarrow> (\<forall>l n. count_list (m_Properties h l) n = count_list (listenersOf h n) l)"

lemma count_list_remove1: "count_list (remove1 x xs) y = count_list xs y - (if x = y then 1 else 0)"
  by (induction xs) auto

lemma count_list_in: "x \<in> set xs \<longleftrightarrow> 0 < count_list xs x"
  using count_list_0_iff[of xs x] by (cases "count_list xs x") auto

lemma addListener_registers: "listeners_ok h \<Longrightarrow> listeners_ok (addListener h n l)"
  by (auto simp: listeners_ok_def addListener_def registerProperty_def listenersOf_def upd_def
      split: option.splits)

text \<open>A registered listener is taken from both lists.\<close>

lemma removeListener_registered:
  assumes "listeners_ok h" "n \<in> set (m_Properties h l)"
  shows "\<exists>h'. removeListener h n l = (h', Inr ()) \<and> m_Properties h' l = remove1 n (m_Properties h l)
    \<and> (\<forall>k. k \<noteq> l \<longrightarrow> m_Properties h' k = m_Properties h k)
    \<and> (\<forall>j. listenersOf h' j = (if j = n then remove1 l (listenersOf h n) else listenersOf h j))"
proof -
  have "l \<in> set (listenersOf h n)" using assms by (simp add: listeners_ok_def count_list_in)
  then obtain ls where "m_Listeners (node h n) = Some ls" "l \<in> set ls"
    by (cases "m_Listeners (node h n)") (auto simp: listenersOf_def)
  then show ?thesis
    by (auto simp: removeListener_def unregisterProperty_def listenersOf_def upd_def)
qed

lemma removed_ok:
  assumes "listeners_ok h" "m_Properties h' l = remove1 n (m_Properties h l)"
    "\<forall>k. k \<noteq> l \<longrightarrow> m_Properties h' k = m_Properties h k"
    "\<forall>j. listenersOf h' j = (if j = n then remove1 l (listenersOf h n) else listenersOf h j)"
  shows "listeners_ok h'"
  unfolding listeners_ok_def
proof (intro allI)
  fix k j
  show "count_list (m_Properties h' k) j = count_list (listenersOf h' j) k"
    using assms by (cases "k = l"; cases "j = n") (auto simp: listeners_ok_def count_list_remove1)
qed

lemma removeListener_registers:
  assumes "removeListener h n l = (h', r)" "listeners_ok h"
  shows "listeners_ok h'"
proof (cases "n \<in> set (m_Properties h l)")
  case True
  then show ?thesis using removeListener_registered[OF assms(2) True] removed_ok[OF assms(2)] assms(1) by auto
next
  case False
  then have "l \<notin> set (listenersOf h n)" using assms(2) by (simp add: listeners_ok_def count_list_in)
  then show ?thesis using assms by (auto simp: removeListener_def listenersOf_def split: option.splits)
qed

lemma unsubscribe_loop_ends:
  "listeners_ok h \<Longrightarrow> \<exists>h'. unsubscribe_loop h l = Some (h', Inr ()) \<and> m_Properties h' l = [] \<and> listeners_ok h'
     \<and> (\<forall>k. k \<noteq> l \<longrightarrow> m_Properties h' k = m_Properties h k)"
proof (induction "length (m_Properties h l)" arbitrary: h rule: less_induct)
  case less
  show ?case
  proof (cases "m_Properties h l")
    case Nil
    then show ?thesis using less.prems by (simp add: unsubscribe_loop.simps)
  next
    case (Cons n ns)
    then obtain h1 where h1: "removeListener h n l = (h1, Inr ())" "m_Properties h1 l = ns"
      "\<forall>k. k \<noteq> l \<longrightarrow> m_Properties h1 k = m_Properties h k"
      using removeListener_registered[OF less.prems, of n l] by auto
    have "listeners_ok h1" using removeListener_registers[OF h1(1) less.prems] .
    then obtain h' where "unsubscribe_loop h1 l = Some (h', Inr ())" "m_Properties h' l = []" "listeners_ok h'"
      "\<forall>k. k \<noteq> l \<longrightarrow> m_Properties h' k = m_Properties h1 k"
      using less.hyps[of h1] h1(2) Cons by auto
    then show ?thesis using h1 Cons by (simp add: unsubscribe_loop.simps[of h])
  qed
qed

text \<open>
  Adding and removing a listener keep the two lists in agreement.  Hence the loop of
  \<open>unsubscribe\<close> ends, afterwards the listener is registered nowhere and no node calls it, and the
  registrations of other listeners are unchanged.
\<close>

theorem unsubscribe_complete:
  assumes "listeners_ok h"
  shows "listeners_ok (addListener h n l) \<and> listeners_ok (fst (removeListener h n l))
    \<and> (\<exists>h'. unsubscribe h l = (h', Inr ()) \<and> \<not> isListening h' l \<and> (\<forall>j. l \<notin> set (listenersOf h' j))
        \<and> (\<forall>k. k \<noteq> l \<longrightarrow> m_Properties h' k = m_Properties h k))"
proof -
  obtain h' where h': "unsubscribe_loop h l = Some (h', Inr ())" "m_Properties h' l = []" "listeners_ok h'"
     "\<forall>k. k \<noteq> l \<longrightarrow> m_Properties h' k = m_Properties h k"
    using unsubscribe_loop_ends[OF assms] by blast
  have "l \<notin> set (listenersOf h' j)" for j
    using h'(2,3) unfolding count_list_in listeners_ok_def by (metis count_list.simps(1) less_irrefl)
  then show ?thesis
    using h' addListener_registers[OF assms] removeListener_registers[OF prod.collapse[symmetric] assms]
    by (simp add: unsubscribe_def isListening_def)
qed

theorem unsubscribe_complete_witness:
  "\<exists>h'. unsubscribe (addListener emptySystem 0 5) 5 = (h', Inr ()) \<and> \<not> isListening h' 5"
proof -
  have "listeners_ok emptySystem"
    by (simp add: listeners_ok_def emptySystem_def newPropertyNode_def listenersOf_def)
  from unsubscribe_complete[OF addListener_registers[OF this], of 0 5 0 5] show ?thesis by blast
qed

end
