(* ===== verification/Event_Core.thy ===== *)
theory Event_Core
  imports Base_Encoding
begin

text \<open>
  Events, their properties, the filters of subscriptions and subscriptions of
  \<^verbatim>\<open>src/src/event.cpp\<close> and \<^verbatim>\<open>src/src/event.h\<close>.  Groups, states and devices an event was raised at
  are numbers.
\<close>

section \<open>Events\<close>

datatype EventRaiseLocation = erlGroup | erlDevice | erlApartment | erlState

record event =
  m_EventName :: string
  m_Location :: string
  m_LocationSet :: bool
  m_Context :: string
  m_ContextSet :: bool
  m_Time :: string
  m_TimeSet :: bool
  m_RaiseLocation :: EventRaiseLocation
  m_RaisedAtGroup :: "nat option"
  m_RaisedAtState :: "nat option"
  m_RaisedAtDevice :: "nat option"
  m_EventProperties :: properties

definition newEventAt ::
    "string \<Rightarrow> EventRaiseLocation \<Rightarrow> nat option \<Rightarrow> nat option \<Rightarrow> nat option \<Rightarrow> event" where
  "newEventAt name loc grp st dev =
     \<lparr>m_EventName = name, m_Location = [], m_LocationSet = False, m_Context = [], m_ContextSet = False,
      m_Time = [], m_TimeSet = False, m_RaiseLocation = loc, m_RaisedAtGroup = grp, m_RaisedAtState = st,
      m_RaisedAtDevice = dev, m_EventProperties = Map.empty\<rparr>"

text \<open>The constructors.\<close>

definition newEvent :: "string \<Rightarrow> event" where
  "newEvent name = newEventAt name erlApartment None None None"

definition newGroupEvent :: "string \<Rightarrow> nat \<Rightarrow> event" where
  "newGroupEvent name grp = newEventAt name erlGroup (Some grp) None None"

definition newStateEvent :: "string \<Rightarrow> nat \<Rightarrow> event" where
  "newStateEvent name st = newEventAt name erlState None (Some st) None"

definition newDeviceEvent :: "string \<Rightarrow> nat \<Rightarrow> event" where
  "newDeviceEvent name dev = newEventAt name erlDevice None None (Some dev)"

definition newUnnamedEvent :: event where
  "newUnnamedEvent = newEventAt ''unnamed_event'' erlDevice None None None"

definition evGet :: "event \<Rightarrow> string \<Rightarrow> string" where
  "evGet e name =
     (if name = ''name'' then m_EventName e
      else if name = ''location'' then m_Location e
      else if name = ''context'' then m_Context e
      else if name = ''time'' then m_Time e
      else prop_get_default (m_EventProperties e) name [])"

definition hasPropertySet :: "event \<Rightarrow> string \<Rightarrow> bool" where
  "hasPropertySet e name =
     (if name = ''name'' then True
      else if name = ''location'' then m_LocationSet e
      else if name = ''context'' then m_ContextSet e
      else if name = ''time'' then m_TimeSet e
      else prop_has (m_EventProperties e) name)"

definition unsetProperty :: "event \<Rightarrow> string \<Rightarrow> event" where
  "unsetProperty e name =
     (if name = ''location'' then e\<lparr>m_LocationSet := False, m_Location := []\<rparr>
      else if name = ''context'' then e\<lparr>m_ContextSet := False, m_Context := []\<rparr>
      else if name = ''time'' then e\<lparr>m_TimeSet := False, m_Time := []\<rparr>
      else e\<lparr>m_EventProperties := snd (prop_unset (m_EventProperties e) name)\<rparr>)"

definition setProperty :: "event \<Rightarrow> string \<Rightarrow> string \<Rightarrow> event \<times> bool" where
  "setProperty e name value =
     (if name \<noteq> [] then
        (if name = ''location'' then e\<lparr>m_LocationSet := True, m_Location := value\<rparr>
         else if name = ''context'' then e\<lparr>m_ContextSet := True, m_Context := value\<rparr>
         else if name = ''time'' then e\<lparr>m_TimeSet := True, m_Time := value\<rparr>
         else e\<lparr>m_EventProperties := prop_set (m_EventProperties e) name value\<rparr>, True)
      else (e, False))"

text \<open>The overload for numbers goes past the special names.\<close>

definition setPropertyInt :: "event \<Rightarrow> string \<Rightarrow> u32 \<Rightarrow> event" where
  "setPropertyInt e name value =
     e\<lparr>m_EventProperties := prop_set (m_EventProperties e) name (int32ToString value)\<rparr>"

definition setTime :: "event \<Rightarrow> string \<Rightarrow> event" where
  "setTime e value = e\<lparr>m_Time := value, m_TimeSet := True\<rparr>"

definition setProperties :: "event \<Rightarrow> properties \<Rightarrow> event" where
  "setProperties e ps = e\<lparr>m_EventProperties := ps\<rparr>"

definition isReplacementFor :: "event \<Rightarrow> event \<Rightarrow> bool" where
  "isReplacementFor e other \<longleftrightarrow>
     m_EventName e = m_EventName other \<and> evGet e ''context'' = evGet other ''context''
     \<and> evGet e ''location'' = evGet other ''location''"

text \<open>\<open>kvs\<close> lists the entries of the other map in the order the container has them.\<close>

definition applyProperties :: "event \<Rightarrow> (string \<times> string) list \<Rightarrow> event" where
  "applyProperties e kvs = foldl (\<lambda>e (k, v). fst (setProperty e k v)) e kvs"

section \<open>Filters and subscriptions\<close>

datatype EventPropertyFilter =
    EventPropertyMatchFilter string string
  | EventPropertyExistsFilter string
  | EventPropertyMissingFilter string

fun filterMatches :: "EventPropertyFilter \<Rightarrow> event \<Rightarrow> bool" where
  "filterMatches (EventPropertyMatchFilter p v) e = (evGet e p = v)"
| "filterMatches (EventPropertyExistsFilter p) e = hasPropertySet e p"
| "filterMatches (EventPropertyMissingFilter p) e = (\<not> hasPropertySet e p)"

datatype EventPropertyFilterOption = foMatchNone | foMatchAll | foMatchOne

record subscription =
  m_SubEventName :: string
  m_HandlerName :: string
  m_ID :: string
  m_Parameters :: "properties option"
  m_Filter :: "EventPropertyFilter list"
  m_FilterOption :: EventPropertyFilterOption

definition addPropertyFilter :: "subscription \<Rightarrow> EventPropertyFilter \<Rightarrow> subscription" where
  "addPropertyFilter s f = s\<lparr>m_Filter := m_Filter s @ [f]\<rparr>"

definition setFilterOption :: "subscription \<Rightarrow> EventPropertyFilterOption \<Rightarrow> subscription" where
  "setFilterOption s opt = s\<lparr>m_FilterOption := opt\<rparr>"

text \<open>
  The loop of \<^verbatim>\<open>EventSubscription::matches\<close>.  In the mode \<^verbatim>\<open>foMatchOne\<close> the filter that matched is
  cast to a match filter, and the cast throws \<^verbatim>\<open>std::bad_cast\<close> for the two other kinds.
\<close>

datatype match_error = BadCast

fun matchesLoop :: "EventPropertyFilterOption \<Rightarrow> EventPropertyFilter list \<Rightarrow> event \<Rightarrow> bool \<Rightarrow> match_error + bool" where
  "matchesLoop opt [] e fMatch = Inr fMatch"
| "matchesLoop opt (f # fs) e fMatch =
     (if filterMatches f e then
        (case opt of
           foMatchOne \<Rightarrow> (case f of EventPropertyMatchFilter _ _ \<Rightarrow> Inr True | _ \<Rightarrow> Inl BadCast)
         | foMatchNone \<Rightarrow> Inr False
         | foMatchAll \<Rightarrow> matchesLoop opt fs e True)
      else if opt = foMatchAll then Inr False
      else matchesLoop opt fs e fMatch)"

definition matches :: "subscription \<Rightarrow> event \<Rightarrow> match_error + bool" where
  "matches s e =
     (if m_Filter s = [] then Inr True else matchesLoop (m_FilterOption s) (m_Filter s) e False)"

section \<open>The interface of property bags\<close>

text \<open>
  \<^verbatim>\<open>Properties\<close> and \<^verbatim>\<open>Event\<close> offer the same four operations.  \<open>key\<close> says for which names
  the laws hold.
\<close>

locale property_bag =
  fixes get :: "'s \<Rightarrow> string \<Rightarrow> string" and has :: "'s \<Rightarrow> string \<Rightarrow> bool"
    and put :: "'s \<Rightarrow> string \<Rightarrow> string \<Rightarrow> 's" and unset :: "'s \<Rightarrow> string \<Rightarrow> 's"
    and key :: "string \<Rightarrow> bool"
  assumes get_put: "key k \<Longrightarrow> key j \<Longrightarrow> get (put s k v) j = (if j = k then v else get s j)"
    and has_put: "key k \<Longrightarrow> key j \<Longrightarrow> has (put s k v) j \<longleftrightarrow> j = k \<or> has s j"
    and get_unset: "key k \<Longrightarrow> key j \<Longrightarrow> get (unset s k) j = (if j = k then [] else get s j)"
    and has_unset: "key k \<Longrightarrow> key j \<Longrightarrow> has (unset s k) j \<longleftrightarrow> j \<noteq> k \<and> has s j"
begin

lemma unset_put: "key k \<Longrightarrow> key j \<Longrightarrow> \<not> has s k \<Longrightarrow> get s k = [] \<Longrightarrow>
    get (unset (put s k v) k) j = get s j \<and> has (unset (put s k v) k) j = has s j"
  by (auto simp: get_put has_put get_unset has_unset)

lemma put_twice: "key k \<Longrightarrow> key j \<Longrightarrow> get (put (put s k v) k w) j = get (put s k w) j"
  by (simp add: get_put)

lemma put_all: "\<forall>(k, v) \<in> set kvs. key k \<Longrightarrow> distinct (map fst kvs) \<Longrightarrow> (k, v) \<in> set kvs \<Longrightarrow>
    get (foldl (\<lambda>s (k, v). put s k v) s kvs) k = v \<and> has (foldl (\<lambda>s (k, v). put s k v) s kvs) k"
proof (induction kvs arbitrary: s rule: rev_induct)
  case (snoc kv kvs)
  obtain a b where kv: "kv = (a, b)" by fastforce
  have ka: "key a" using snoc.prems(1) kv by auto
  have kk: "key k" using snoc.prems(1,3) by auto
  show ?case
  proof (cases "(k, v) \<in> set kvs")
    case True
    then have "k \<noteq> a" using snoc.prems(2) kv by (auto simp: image_iff)
    then show ?thesis using snoc.IH[OF _ _ True] snoc.prems kv ka kk by (simp add: get_put has_put)
  next
    case False
    then have "k = a" "v = b" using snoc.prems(3) kv by auto
    then show ?thesis using kv ka by (simp add: get_put has_put)
  qed
qed simp

end

interpretation pb: property_bag "\<lambda>m k. prop_get_default m k []" prop_has prop_set "\<lambda>m k. snd (prop_unset m k)" "\<lambda>_. True"
  by unfold_locales
     (auto simp: prop_get_default_def prop_has_def prop_set_def prop_unset_def split: option.splits)

lemma names_distinct [simp]:
  "''location'' \<noteq> ''context''" "''location'' \<noteq> ''time''" "''context'' \<noteq> ''time''"
  "''context'' \<noteq> ''location''" "''time'' \<noteq> ''location''" "''time'' \<noteq> ''context''"
  by simp_all

lemmas event_ops = evGet_def hasPropertySet_def setProperty_def unsetProperty_def

interpretation ev: property_bag evGet hasPropertySet "\<lambda>e k v. fst (setProperty e k v)" unsetProperty
    "\<lambda>k. k \<noteq> [] \<and> k \<noteq> ''name''"
proof
  fix k j :: string and e v
  assume k: "k \<noteq> [] \<and> k \<noteq> ''name''" and j: "j \<noteq> [] \<and> j \<noteq> ''name''"
  let ?special = "k = ''location'' \<or> k = ''context'' \<or> k = ''time''"
  show "evGet (fst (setProperty e k v)) j = (if j = k then v else evGet e j)"
  proof (cases ?special)
    case True
    then show ?thesis by (elim disjE) (simp_all add: event_ops)
  next
    case False
    then show ?thesis using k j by (cases "j = k") (simp_all add: event_ops pb.get_put)
  qed
  show "hasPropertySet (fst (setProperty e k v)) j \<longleftrightarrow> j = k \<or> hasPropertySet e j"
  proof (cases ?special)
    case True
    then show ?thesis by (elim disjE) (simp_all add: event_ops)
  next
    case False
    then show ?thesis using k j by (cases "j = k") (simp_all add: event_ops pb.has_put)
  qed
  show "evGet (unsetProperty e k) j = (if j = k then [] else evGet e j)"
  proof (cases ?special)
    case True
    then show ?thesis by (elim disjE) (simp_all add: event_ops)
  next
    case False
    then show ?thesis using k j by (cases "j = k") (simp_all add: event_ops pb.get_unset)
  qed
  show "hasPropertySet (unsetProperty e k) j \<longleftrightarrow> j \<noteq> k \<and> hasPropertySet e j"
  proof (cases ?special)
    case True
    then show ?thesis by (elim disjE) (simp_all add: event_ops)
  next
    case False
    then show ?thesis using k j by (cases "j = k") (simp_all add: event_ops pb.has_unset)
  qed
qed

section \<open>What subscriptions match\<close>

lemma matchesLoop_all:
  "matchesLoop foMatchAll fs e b = Inr ((\<forall>f \<in> set fs. filterMatches f e) \<and> (fs \<noteq> [] \<or> b))"
  by (induction fs arbitrary: b) auto

lemma matchesLoop_none: "matchesLoop foMatchNone fs e False = Inr False"
  by (induction fs) auto

fun isMatchFilter :: "EventPropertyFilter \<Rightarrow> bool" where
  "isMatchFilter (EventPropertyMatchFilter _ _) = True"
| "isMatchFilter _ = False"

lemma matchesLoop_one:
  "matchesLoop foMatchOne fs e False =
     (case List.find (\<lambda>f. filterMatches f e) fs of
        None \<Rightarrow> Inr False | Some f \<Rightarrow> if isMatchFilter f then Inr True else Inl BadCast)"
proof (induction fs)
  case (Cons f fs)
  then show ?case by (cases f) simp_all
qed simp

text \<open>
  What a subscription matches.  Without filters it matches every event.  In the mode
  \<open>foMatchAll\<close> it matches when all filters do.  In the mode \<open>foMatchOne\<close> it matches when the first
  filter that matches compares a value, and throws \<^verbatim>\<open>std::bad_cast\<close> when that filter tests for
  the presence or absence of a property.  In the mode \<open>foMatchNone\<close> it never matches.
\<close>

theorem subscription_matches:
  "matches s e =
     (if m_Filter s = [] then Inr True
      else case m_FilterOption s of
        foMatchAll \<Rightarrow> Inr (\<forall>f \<in> set (m_Filter s). filterMatches f e)
      | foMatchOne \<Rightarrow> (case List.find (\<lambda>f. filterMatches f e) (m_Filter s) of
            None \<Rightarrow> Inr False | Some f \<Rightarrow> if isMatchFilter f then Inr True else Inl BadCast)
      | foMatchNone \<Rightarrow> Inr False)"
  by (simp add: matches_def matchesLoop_all matchesLoop_one matchesLoop_none split: EventPropertyFilterOption.split)

definition exampleSubscription :: "EventPropertyFilterOption \<Rightarrow> subscription" where
  "exampleSubscription opt = \<lparr>m_SubEventName = ''e'', m_HandlerName = ''h'', m_ID = ''e_h'', m_Parameters = None,
     m_Filter = [EventPropertyMissingFilter ''a''], m_FilterOption = opt\<rparr>"

theorem subscription_matches_witness:
  "matches (exampleSubscription foMatchAll) (newEvent ''e'') = Inr True
   \<and> matches (exampleSubscription foMatchOne) (newEvent ''e'') = Inl BadCast
   \<and> matches (exampleSubscription foMatchNone) (fst (setProperty (newEvent ''e'') ''a'' ''1'')) = Inr False"
  by (simp add: subscription_matches exampleSubscription_def newEvent_def newEventAt_def hasPropertySet_def prop_has_def)

end
