(* ===== verification/Date_Tools.thy ===== *)
theory Date_Tools
  imports Base_Encoding
begin

text \<open>
  Dates and times of \<^verbatim>\<open>src/src/datetools.cpp\<close> and \<^verbatim>\<open>src/src/datetools.h\<close>: \<^verbatim>\<open>DateTime\<close> and \<^verbatim>\<open>TimeStamp\<close>.
  The functions of the C library they call are modelled here: the Gregorian calendar of
  \<^verbatim>\<open>gmtime_r\<close> for times since 1970, and \<^verbatim>\<open>strftime\<close> and \<^verbatim>\<open>strptime\<close> for the conversions that the
  sources use.  The time zone of the machine is a parameter: its offset from UTC at a time, and
  the choice \<^verbatim>\<open>mktime\<close> makes for a wall clock time.  So is the conversion \<^verbatim>\<open>%z\<close> of \<^verbatim>\<open>strptime\<close>, on
  which C libraries differ.  The classes over libical are not modelled.
\<close>

section \<open>The calendar\<close>

definition leapYear :: "int \<Rightarrow> bool" where
  "leapYear y \<longleftrightarrow> 4 dvd y \<and> (\<not> 100 dvd y \<or> 400 dvd y)"

definition yearLen :: "int \<Rightarrow> nat" where
  "yearLen y = (if leapYear y then 366 else 365)"

definition monthLens :: "int \<Rightarrow> nat list" where
  "monthLens y = [31, if leapYear y then 29 else 28, 31, 30, 31, 30, 31, 31, 30, 31, 30, 31]"

text \<open>Days from the first of January 1970 to the first of January of a year.\<close>

definition daysBefore :: "int \<Rightarrow> int" where
  "daysBefore y = 365 * (y - 1970) + ((y - 1) div 4 - (y - 1) div 100 + (y - 1) div 400) - 477"

lemma yearLen_pos: "0 < yearLen y"
  by (simp add: yearLen_def)

function yearLoop :: "int \<Rightarrow> nat \<Rightarrow> int \<times> nat" where
  "yearLoop y d = (if d < yearLen y then (y, d) else yearLoop (y + 1) (d - yearLen y))"
  by pat_completeness auto
termination
  by (relation "measure snd") (auto simp: yearLen_def)

declare yearLoop.simps [simp del]

fun monthLoop :: "nat list \<Rightarrow> nat \<Rightarrow> nat \<Rightarrow> nat \<times> nat" where
  "monthLoop [] m d = (m, d)"
| "monthLoop (l # ls) m d = (if d < l then (m, d) else monthLoop ls (m + 1) (d - l))"

record tm =
  tm_sec :: int
  tm_min :: int
  tm_hour :: int
  tm_mday :: int
  tm_mon :: int
  tm_year :: int
  tm_wday :: int
  tm_yday :: int
  tm_isdst :: int
  tm_gmtoff :: int

definition zero_tm :: tm where
  "zero_tm = \<lparr>tm_sec = 0, tm_min = 0, tm_hour = 0, tm_mday = 0, tm_mon = 0, tm_year = 0, tm_wday = 0,
     tm_yday = 0, tm_isdst = 0, tm_gmtoff = 0\<rparr>"

text \<open>\<^verbatim>\<open>gmtime_r\<close> for a time that is not negative.\<close>

definition gmtime :: "int \<Rightarrow> tm" where
  "gmtime t =
     (let days = nat (t div 86400); s = t mod 86400;
          (y, yd) = yearLoop 1970 days; (m, d) = monthLoop (monthLens y) 0 yd
      in \<lparr>tm_sec = s mod 60, tm_min = s div 60 mod 60, tm_hour = s div 3600, tm_mday = int d + 1,
          tm_mon = int m, tm_year = y - 1900, tm_wday = (int days + 4) mod 7, tm_yday = int yd, tm_isdst = 0,
          tm_gmtoff = 0\<rparr>)"

text \<open>The seconds since 1970 of a broken-down time in UTC; months outside the year are carried.\<close>

definition timegm :: "tm \<Rightarrow> int" where
  "timegm t =
     (let y = tm_year t + 1900 + tm_mon t div 12; m = nat (tm_mon t mod 12);
          days = daysBefore y + int (sum_list (take m (monthLens y))) + tm_mday t - 1
      in days * 86400 + tm_hour t * 3600 + tm_min t * 60 + tm_sec t)"

section \<open>Printing and parsing\<close>

definition pad2 :: "int \<Rightarrow> string" where
  "pad2 n = (if n < 10 then ''0'' else []) @ print_nat 10 (nat n)"

definition expand_fmt :: "string \<Rightarrow> string" where
  "expand_fmt fmt =
     (if take 5 fmt = ''%FT%T'' then ''%Y-%m-%dT%H:%M:%S'' @ drop 5 fmt else fmt)"

text \<open>The offset \<^verbatim>\<open>%z\<close> is printed as a sign, hours and minutes.\<close>

definition strftime_field :: "tm \<Rightarrow> char \<Rightarrow> string" where
  "strftime_field t f =
     (if f = CHR ''Y'' then print_nat 10 (nat (tm_year t + 1900))
      else if f = CHR ''m'' then pad2 (tm_mon t + 1)
      else if f = CHR ''d'' then pad2 (tm_mday t)
      else if f = CHR ''H'' then pad2 (tm_hour t)
      else if f = CHR ''M'' then pad2 (tm_min t)
      else if f = CHR ''S'' then pad2 (tm_sec t)
      else if f = CHR ''z'' then
        (if tm_gmtoff t < 0 then ''-'' else ''+'') @ pad2 (\<bar>tm_gmtoff t\<bar> div 3600) @ pad2 (\<bar>tm_gmtoff t\<bar> div 60 mod 60)
      else [])"

fun strftime_items :: "tm \<Rightarrow> string \<Rightarrow> string" where
  "strftime_items t [] = []"
| "strftime_items t [c] = [c]"
| "strftime_items t (c # f # fs) =
     (if c = CHR ''%'' then strftime_field t f @ strftime_items t fs else c # strftime_items t (f # fs))"

definition strftime :: "string \<Rightarrow> tm \<Rightarrow> string" where
  "strftime fmt t = strftime_items t (expand_fmt fmt)"

text \<open>A number of at most \<open>n\<close> digits; reading stops when another digit would exceed the limit.\<close>

fun number_loop :: "nat \<Rightarrow> nat \<Rightarrow> nat \<Rightarrow> string \<Rightarrow> nat \<times> string" where
  "number_loop hi 0 val s = (val, s)"
| "number_loop hi (Suc n) val [] = (val, [])"
| "number_loop hi (Suc n) val (c # r) =
     (if is_digit 10 c \<and> val * 10 \<le> hi then number_loop hi n (val * 10 + digit_val c) r else (val, c # r))"

definition get_number :: "nat \<Rightarrow> nat \<Rightarrow> nat \<Rightarrow> string \<Rightarrow> (int \<times> string) option" where
  "get_number lo hi n s =
     (case dropWhile (\<lambda>c. c = CHR '' '') s of
        [] \<Rightarrow> None
      | c # r \<Rightarrow>
          if is_digit 10 c then
            (let (v, rest) = number_loop hi (n - 1) (digit_val c) r
             in if lo \<le> v \<and> v \<le> hi then Some (int v, rest) else None)
          else None)"

definition strptime_field ::
    "(string \<Rightarrow> (int \<times> string) option) \<Rightarrow> char \<Rightarrow> string \<Rightarrow> tm \<Rightarrow> (tm \<times> string) option" where
  "strptime_field tz f s t =
     (if f = CHR ''Y'' then map_option (\<lambda>(v, r). (t\<lparr>tm_year := v - 1900\<rparr>, r)) (get_number 0 9999 4 s)
      else if f = CHR ''m'' then map_option (\<lambda>(v, r). (t\<lparr>tm_mon := v - 1\<rparr>, r)) (get_number 1 12 2 s)
      else if f = CHR ''d'' then map_option (\<lambda>(v, r). (t\<lparr>tm_mday := v\<rparr>, r)) (get_number 1 31 2 s)
      else if f = CHR ''H'' then map_option (\<lambda>(v, r). (t\<lparr>tm_hour := v\<rparr>, r)) (get_number 0 23 2 s)
      else if f = CHR ''M'' then map_option (\<lambda>(v, r). (t\<lparr>tm_min := v\<rparr>, r)) (get_number 0 59 2 s)
      else if f = CHR ''S'' then map_option (\<lambda>(v, r). (t\<lparr>tm_sec := v\<rparr>, r)) (get_number 0 61 2 s)
      else if f = CHR ''z'' then map_option (\<lambda>(v, r). (t\<lparr>tm_gmtoff := v\<rparr>, r)) (tz s)
      else None)"

text \<open>A space of the format stands for any number of spaces.\<close>

definition match_char :: "char \<Rightarrow> string \<Rightarrow> string option" where
  "match_char c s =
     (if is_space c then Some (dropWhile is_space s)
      else case s of x # r \<Rightarrow> if x = c then Some r else None | [] \<Rightarrow> None)"

fun strptime_items ::
    "(string \<Rightarrow> (int \<times> string) option) \<Rightarrow> string \<Rightarrow> string \<Rightarrow> tm \<Rightarrow> (tm \<times> string) option" where
  "strptime_items tz [] s t = Some (t, s)"
| "strptime_items tz [c] s t = map_option (\<lambda>r. (t, r)) (match_char c s)"
| "strptime_items tz (c # f # fs) s t =
     (if c = CHR ''%'' then Option.bind (strptime_field tz f s t) (\<lambda>(t, r). strptime_items tz fs r t)
      else Option.bind (match_char c s) (\<lambda>r. strptime_items tz (f # fs) r t))"

definition strptime :: "(string \<Rightarrow> (int \<times> string) option) \<Rightarrow> string \<Rightarrow> string \<Rightarrow> (tm \<times> string) option" where
  "strptime tz fmt s = strptime_items tz (expand_fmt fmt) s zero_tm"

section \<open>DateTime\<close>

text \<open>
  The time zone: \<open>tz_off\<close> is the offset in seconds at a time, \<open>tz_dst\<close> the daylight saving flag, \<open>tz_mk\<close>
  the time for a flag (-1 to find it out) and a wall clock time, \<open>None\<close> the failure of \<^verbatim>\<open>mktime\<close>;
  \<open>tz_parse\<close> reads \<^verbatim>\<open>%z\<close>, and \<open>tz_minutes\<close> is the whole part of
  what \<^verbatim>\<open>strtod\<close> reads when it reads all of a text.
\<close>

record tzone =
  tz_off :: "int \<Rightarrow> int"
  tz_dst :: "int \<Rightarrow> int"
  tz_mk :: "int \<Rightarrow> int \<Rightarrow> int option"
  tz_parse :: "string \<Rightarrow> (int \<times> string) option"
  tz_minutes :: "string \<Rightarrow> int option"

definition localtime :: "tzone \<Rightarrow> int \<Rightarrow> tm" where
  "localtime Z t = (gmtime (t + tz_off Z t))\<lparr>tm_isdst := tz_dst Z t, tm_gmtoff := tz_off Z t\<rparr>"

definition mktime :: "tzone \<Rightarrow> tm \<Rightarrow> int option" where
  "mktime Z t = tz_mk Z (tm_isdst t) (timegm t)"

record DateTime =
  tv_sec :: int
  tv_usec :: int

text \<open>The products are computed with 32 bits.\<close>

definition addHour :: "DateTime \<Rightarrow> u32 \<Rightarrow> DateTime" where
  "addHour d hours = d\<lparr>tv_sec := tv_sec d + sint (hours * 60 * 60)\<rparr>"

definition addMinute :: "DateTime \<Rightarrow> u32 \<Rightarrow> DateTime" where
  "addMinute d minutes = d\<lparr>tv_sec := tv_sec d + sint (minutes * 60)\<rparr>"

definition addSeconds :: "DateTime \<Rightarrow> u32 \<Rightarrow> DateTime" where
  "addSeconds d seconds = d\<lparr>tv_sec := tv_sec d + sint seconds\<rparr>"

definition addDay :: "DateTime \<Rightarrow> u32 \<Rightarrow> DateTime" where
  "addDay d days = d\<lparr>tv_sec := tv_sec d + sint (days * 24 * 60 * 60)\<rparr>"

text \<open>\<^verbatim>\<open>timeradd\<close> and \<^verbatim>\<open>timersub\<close>.\<close>

definition timeradd :: "DateTime \<Rightarrow> DateTime \<Rightarrow> DateTime" where
  "timeradd a b =
     (let s = tv_sec a + tv_sec b; u = tv_usec a + tv_usec b
      in if u \<ge> 1000000 then \<lparr>tv_sec = s + 1, tv_usec = u - 1000000\<rparr> else \<lparr>tv_sec = s, tv_usec = u\<rparr>)"

definition timersub :: "DateTime \<Rightarrow> DateTime \<Rightarrow> DateTime" where
  "timersub a b =
     (let s = tv_sec a - tv_sec b; u = tv_usec a - tv_usec b
      in if u < 0 then \<lparr>tv_sec = s - 1, tv_usec = u + 1000000\<rparr> else \<lparr>tv_sec = s, tv_usec = u\<rparr>)"

definition addMilliSeconds :: "DateTime \<Rightarrow> int \<Rightarrow> DateTime" where
  "addMilliSeconds d ms =
     (let s = \<bar>ms\<bar> div 1000; add = \<lparr>tv_sec = s, tv_usec = (\<bar>ms\<bar> - s * 1000) * 1000\<rparr>
      in if ms < 0 then timersub d add else timeradd d add)"

text \<open>The failure value of \<^verbatim>\<open>mktime\<close> is not checked here.\<close>

definition mktime_value :: "tzone \<Rightarrow> tm \<Rightarrow> int" where
  "mktime_value Z t = (case mktime Z t of Some x \<Rightarrow> x | None \<Rightarrow> -1)"

definition addMonth :: "tzone \<Rightarrow> DateTime \<Rightarrow> int \<Rightarrow> DateTime" where
  "addMonth Z d month =
     (let t = localtime Z (tv_sec d) in d\<lparr>tv_sec := mktime_value Z (t\<lparr>tm_mon := tm_mon t + month\<rparr>)\<rparr>)"

definition addYear :: "tzone \<Rightarrow> DateTime \<Rightarrow> int \<Rightarrow> DateTime" where
  "addYear Z d years =
     (let t = localtime Z (tv_sec d) in d\<lparr>tv_sec := mktime_value Z (t\<lparr>tm_year := tm_year t + years\<rparr>)\<rparr>)"

definition getDay :: "tzone \<Rightarrow> DateTime \<Rightarrow> int" where "getDay Z d = tm_mday (localtime Z (tv_sec d))"
definition getMonth :: "tzone \<Rightarrow> DateTime \<Rightarrow> int" where "getMonth Z d = tm_mon (localtime Z (tv_sec d))"
definition getYear :: "tzone \<Rightarrow> DateTime \<Rightarrow> int" where "getYear Z d = tm_year (localtime Z (tv_sec d)) + 1900"
definition getHour :: "tzone \<Rightarrow> DateTime \<Rightarrow> int" where "getHour Z d = tm_hour (localtime Z (tv_sec d))"
definition getMinute :: "tzone \<Rightarrow> DateTime \<Rightarrow> int" where "getMinute Z d = tm_min (localtime Z (tv_sec d))"
definition getSecond :: "tzone \<Rightarrow> DateTime \<Rightarrow> int" where "getSecond Z d = tm_sec (localtime Z (tv_sec d))"
definition getDayOfYear :: "tzone \<Rightarrow> DateTime \<Rightarrow> int" where "getDayOfYear Z d = tm_yday (localtime Z (tv_sec d))"
definition getWeekday :: "tzone \<Rightarrow> DateTime \<Rightarrow> int" where "getWeekday Z d = tm_wday (localtime Z (tv_sec d))"

text \<open>The difference is converted from \<^verbatim>\<open>double\<close> to \<^verbatim>\<open>int\<close>; \<open>None\<close> is a difference that \<^verbatim>\<open>int\<close> cannot hold, for which C++ defines no result.\<close>

definition difference :: "DateTime \<Rightarrow> DateTime \<Rightarrow> int option" where
  "difference a b =
     (let d = tv_sec a - tv_sec b in if -(2 ^ 31) \<le> d \<and> d < 2 ^ 31 then Some d else None)"

definition dateEq :: "DateTime \<Rightarrow> DateTime \<Rightarrow> bool option" where "dateEq a b = map_option (\<lambda>d. d = 0) (difference a b)"
definition dateLess :: "DateTime \<Rightarrow> DateTime \<Rightarrow> bool option" where "dateLess a b = map_option (\<lambda>d. d < 0) (difference a b)"
definition dateLessEq :: "DateTime \<Rightarrow> DateTime \<Rightarrow> bool option" where "dateLessEq a b = map_option (\<lambda>d. d \<le> 0) (difference a b)"

definition getTimezoneOffset :: "tzone \<Rightarrow> DateTime \<Rightarrow> int" where
  "getTimezoneOffset Z d = tm_gmtoff (localtime Z (tv_sec d))"

definition toPrettyString :: "tzone \<Rightarrow> DateTime \<Rightarrow> string" where
  "toPrettyString Z d = strftime ''%Y-%m-%d %H:%M:%S'' (localtime Z (tv_sec d))"

definition toRFC2445IcalDataTime :: "tzone \<Rightarrow> DateTime \<Rightarrow> string" where
  "toRFC2445IcalDataTime Z d = strftime ''%Y%m%dT%H%M%S'' (localtime Z (tv_sec d))"

text \<open>The buffers hold the texts for years up to 9999.\<close>

definition toISO8601 :: "DateTime \<Rightarrow> string" where
  "toISO8601 d = strftime ''%FT%TZ'' (gmtime (tv_sec d))"

text \<open>A colon is put into the offset.\<close>

definition toISO8601_local :: "tzone \<Rightarrow> DateTime \<Rightarrow> string" where
  "toISO8601_local Z d =
     (let buf = strftime ''%FT%T%z'' (localtime Z (tv_sec d))
      in if buf ! 22 \<noteq> CHR '':'' then take 22 buf @ '':'' @ take 2 (drop 22 buf) else buf)"

text \<open>The milliseconds.\<close>

definition pad3 :: "int \<Rightarrow> string" where
  "pad3 n = (if n < 100 then ''0'' else []) @ pad2 n"

definition toISO8601_ms :: "DateTime \<Rightarrow> string" where
  "toISO8601_ms d = strftime ''%FT%T.'' (gmtime (tv_sec d)) @ pad3 (tv_usec d div 1000) @ ''Z''"

definition toISO8601_ms_local :: "tzone \<Rightarrow> DateTime \<Rightarrow> string" where
  "toISO8601_ms_local Z d =
     (let t = localtime Z (tv_sec d);
          buf = strftime ''%FT%T.'' t @ pad3 (tv_usec d div 1000) @ strftime ''%z'' t
      in if buf ! 26 \<noteq> CHR '':'' then take 26 buf @ '':'' @ take 2 (drop 26 buf) else buf)"

text \<open>
  The parsers; \<open>None\<close> is \<^verbatim>\<open>std::invalid_argument\<close>.  The wall clock time is first taken as local
  and then corrected by the local offset.
\<close>

definition atSecond :: "int \<Rightarrow> DateTime" where
  "atSecond t = \<lparr>tv_sec = t, tv_usec = 0\<rparr>"

definition convertTZ :: "tzone \<Rightarrow> tm \<Rightarrow> int \<Rightarrow> int option" where
  "convertTZ Z t tz_offset =
     (case mktime Z (t\<lparr>tm_isdst := -1\<rparr>) of None \<Rightarrow> None | Some t0 \<Rightarrow> Some (t0 - (tz_offset - tz_off Z t0)))"

definition parseRFC2445 :: "tzone \<Rightarrow> string \<Rightarrow> DateTime option" where
  "parseRFC2445 Z s =
     (let utc = (s \<noteq> [] \<and> last s = CHR ''Z'')
      in if length s \<noteq> 15 + (if utc then 1 else 0) then None
         else case strptime (tz_parse Z) ''%Y%m%dT%H%M%S'' (c_str s) of
                None \<Rightarrow> None
              | Some (t, rest) \<Rightarrow>
                  if length (c_str s) - length rest \<noteq> 15 then None
                  else case mktime Z (t\<lparr>tm_isdst := -1\<rparr>) of
                         None \<Rightarrow> None
                       | Some t0 \<Rightarrow> Some (atSecond (if utc then t0 + tz_off Z t0 else t0)))"

definition parsePrettyString :: "tzone \<Rightarrow> string \<Rightarrow> DateTime option" where
  "parsePrettyString Z s =
     (case strptime (tz_parse Z) ''%Y-%m-%d %H:%M:%S'' (c_str s) of
        None \<Rightarrow> None
      | Some (t, _) \<Rightarrow> map_option atSecond (mktime Z (t\<lparr>tm_isdst := -1\<rparr>)))"

text \<open>The minutes of the offset after a colon are added.\<close>

definition parseISO8601 :: "tzone \<Rightarrow> string \<Rightarrow> DateTime option" where
  "parseISO8601 Z s =
     (let utc = (s \<noteq> [] \<and> last s = CHR ''Z'')
      in if length s \<notin> {25, 24, 23, 22, 20} then None
         else case strptime (tz_parse Z) (if utc then ''%FT%TZ'' else ''%FT%T%z'') (c_str s) of
                None \<Rightarrow> None
              | Some (t, rest) \<Rightarrow>
                  if rest \<noteq> [] \<and> hd rest \<noteq> CHR '':'' then None
                  else if rest \<noteq> [] \<and> tl rest \<noteq> [] then
                    (case tz_minutes Z (tl rest) of
                       None \<Rightarrow> None
                     | Some m \<Rightarrow> map_option atSecond (convertTZ Z t (tm_gmtoff t + m * 60)))
                  else map_option atSecond (convertTZ Z t (tm_gmtoff t)))"

section \<open>TimeStamp\<close>

record TimeStamp =
  ts_sec :: int
  ts_nsec :: int

definition timespec_add :: "TimeStamp \<Rightarrow> TimeStamp \<Rightarrow> TimeStamp" where
  "timespec_add a b =
     (let s = ts_sec a + ts_sec b; n = ts_nsec a + ts_nsec b
      in if n \<ge> 1000000000 then \<lparr>ts_sec = s + 1, ts_nsec = n - 1000000000\<rparr> else \<lparr>ts_sec = s, ts_nsec = n\<rparr>)"

definition timespec_sub :: "TimeStamp \<Rightarrow> TimeStamp \<Rightarrow> TimeStamp" where
  "timespec_sub a b =
     (let s = ts_sec a - ts_sec b; n = ts_nsec a - ts_nsec b
      in if n < 0 then \<lparr>ts_sec = s - 1, ts_nsec = n + 1000000000\<rparr> else \<lparr>ts_sec = s, ts_nsec = n\<rparr>)"

definition timespec_less :: "TimeStamp \<Rightarrow> TimeStamp \<Rightarrow> bool" where
  "timespec_less a b \<longleftrightarrow> (if ts_sec a = ts_sec b then ts_nsec a < ts_nsec b else ts_sec a < ts_sec b)"

definition toMicroSec :: "TimeStamp \<Rightarrow> u32" where
  "toMicroSec a = word_of_int (ts_sec a * 1000 * 1000 + ts_nsec a div 1000)"

end
