(* ===== verification/Event_Queue.thy ===== *)
theory Event_Queue
  imports Event_Core Date_Tools
begin

text \<open>
  The event queue and the event runner of \<^verbatim>\<open>src/src/event.cpp\<close>.  Events are shared objects: the
  runner keeps a recurring event while the queue holds it too, so they live in a store and the
  queue and the runner hold numbers.  The clock is an argument of the operations, in seconds
  since the epoch; microseconds do not take part in the comparisons of the source, and the
  difference of two times that a comparison computes is taken to fit an \<^verbatim>\<open>int\<close>.  The runner
  is one without a monitor node, and its mutex is not modelled except for the one place where
  an operation that holds it could take it again.
\<close>

section \<open>Schedules\<close>

text \<open>
  What the sources take from other libraries: the time zone, and recurrence rules with libical.
  A rule has a state of type \<open>'r\<close>.
\<close>

record 'r timelib =
  zone :: tzone
  ical_new :: "string \<Rightarrow> string \<Rightarrow> int \<Rightarrow> 'r"
  ical_next :: "'r \<Rightarrow> int \<Rightarrow> int \<times> 'r"
  ical_leap :: "'r \<Rightarrow> int \<Rightarrow> 'r"

datatype 'r schedule = StaticSchedule int | ICalSchedule 'r

fun hasRecurrence :: "'r schedule \<Rightarrow> bool" where
  "hasRecurrence (StaticSchedule _) = False"
| "hasRecurrence (ICalSchedule _) = True"

definition NullDate :: int where "NullDate = 0"

fun getNextOccurence :: "'r timelib \<Rightarrow> 'r schedule \<Rightarrow> int \<Rightarrow> int \<times> 'r schedule" where
  "getNextOccurence L (StaticSchedule when) from =
     (if from \<le> when then when else from, StaticSchedule when)"
| "getNextOccurence L (ICalSchedule r) from =
     (let (t, r') = ical_next L r from in (t, ICalSchedule r'))"

fun leapAdjust :: "'r timelib \<Rightarrow> 'r schedule \<Rightarrow> int \<Rightarrow> 'r schedule" where
  "leapAdjust L (StaticSchedule when) endTime = StaticSchedule when"
| "leapAdjust L (ICalSchedule r) endTime = ICalSchedule (ical_leap L r endTime)"

text \<open>
  \<^verbatim>\<open>scheduleFromEvent\<close>.  A time that cannot be parsed gives no schedule, like no time at all.
\<close>

definition scheduleFromEvent :: "'r timelib \<Rightarrow> int \<Rightarrow> event \<Rightarrow> 'r schedule option" where
  "scheduleFromEvent L now e =
     (if hasPropertySet e ''time'' then
        (let timeStr = evGet e ''time''
         in if length timeStr \<ge> 2 then
              if hd timeStr = CHR ''+'' then
                (let offset = sint (strToIntDef (tl timeStr) (-1))
                 in if offset > 0 then Some (StaticSchedule (now + offset)) else None)
              else map_option (\<lambda>d. StaticSchedule (tv_sec d)) (parseRFC2445 (zone L) timeStr)
            else None)
      else if hasPropertySet e ''iCalStartTime'' \<and> hasPropertySet e ''iCalRRule'' then
        Some (ICalSchedule (ical_new L (evGet e ''iCalRRule'') (evGet e ''iCalStartTime'') now))
      else None)"

section \<open>Queue and runner\<close>

type_synonym eventid = nat

record 'r scheduled =
  sc_Event :: eventid
  sc_Schedule :: "'r schedule"
  sc_ID :: string

record 'r esys =
  store_of :: "eventid \<Rightarrow> event"
  m_EventQueue :: "eventid list"
  m_ScheduledEventCounter :: u64
  m_ScheduledEvents :: "'r scheduled list"
  hasQueue :: bool

definition modify :: "'r esys \<Rightarrow> eventid \<Rightarrow> (event \<Rightarrow> event) \<Rightarrow> 'r esys" where
  "modify s i f = s\<lparr>store_of := (store_of s)(i := f (store_of s i))\<rparr>"

definition scheduledID :: "u64 \<Rightarrow> int \<Rightarrow> string \<Rightarrow> string" where
  "scheduledID counter now name =
     uintToString counter False @ ''-'' @ uintToString (word_of_int now) False @ ''_'' @ name"

definition isUnique :: "event \<Rightarrow> bool" where
  "isUnique e \<longleftrightarrow> evGet e ''unique'' \<noteq> []"

text \<open>The new event \<open>e\<close> is merged into the old one \<open>i\<close>.\<close>

definition mergeInto :: "'r esys \<Rightarrow> eventid \<Rightarrow> event \<Rightarrow> 'r esys" where
  "mergeInto s i e =
     (let s1 = modify s i (\<lambda>p. setProperties p (m_EventProperties e))
      in if hasPropertySet e ''time'' then modify s1 i (\<lambda>p. setTime p (evGet e ''time'')) else s1)"

definition addEvent :: "'r esys \<Rightarrow> 'r scheduled \<Rightarrow> 'r esys" where
  "addEvent s sc =
     (let e = store_of s (sc_Event sc)
      in case (if isUnique e
               then List.find (\<lambda>o'. isReplacementFor e (store_of s (sc_Event o'))) (m_ScheduledEvents s)
               else None) of
           Some o' \<Rightarrow> mergeInto s (sc_Event o') e
         | None \<Rightarrow> s\<lparr>m_ScheduledEvents := m_ScheduledEvents s @ [sc]\<rparr>)"

definition newScheduled :: "'r esys \<Rightarrow> int \<Rightarrow> eventid \<Rightarrow> 'r schedule \<Rightarrow> 'r scheduled" where
  "newScheduled s now i sch =
     \<lparr>sc_Event = i, sc_Schedule = sch,
      sc_ID = scheduledID (m_ScheduledEventCounter s) now (m_EventName (store_of s i))\<rparr>"

definition countUp :: "'r esys \<Rightarrow> 'r esys" where
  "countUp s = s\<lparr>m_ScheduledEventCounter := m_ScheduledEventCounter s + 1\<rparr>"

definition enqueue :: "'r esys \<Rightarrow> eventid \<Rightarrow> 'r esys" where
  "enqueue s i =
     (let e = store_of s i
      in case (if isUnique e then List.find (\<lambda>q. isReplacementFor e (store_of s q)) (m_EventQueue s) else None) of
           Some q \<Rightarrow> mergeInto s q e
         | None \<Rightarrow> s\<lparr>m_EventQueue := m_EventQueue s @ [i]\<rparr>)"

definition pushEvent :: "'r timelib \<Rightarrow> int \<Rightarrow> 'r esys \<Rightarrow> eventid \<Rightarrow> 'r esys" where
  "pushEvent L now s i =
     (case scheduleFromEvent L now (store_of s i) of
        Some sch \<Rightarrow> addEvent (countUp s) (newScheduled s now i sch)
      | None \<Rightarrow> enqueue s i)"

definition pushTimedEvent :: "'r timelib \<Rightarrow> int \<Rightarrow> 'r esys \<Rightarrow> eventid \<Rightarrow> 'r esys \<times> string" where
  "pushTimedEvent L now s i =
     (case scheduleFromEvent L now (store_of s i) of
        Some sch \<Rightarrow>
          (let sc = newScheduled s now i sch in (addEvent (countUp s) sc, sc_ID sc))
      | None \<Rightarrow> (s, []))"

definition popEvent :: "'r esys \<Rightarrow> 'r esys \<times> eventid option" where
  "popEvent s =
     (case m_EventQueue s of
        [] \<Rightarrow> (s, None)
      | q # qs \<Rightarrow> (s\<lparr>m_EventQueue := qs\<rparr>, Some q))"

fun removeByID :: "'r scheduled list \<Rightarrow> string \<Rightarrow> 'r scheduled list" where
  "removeByID [] eventID = []"
| "removeByID (sc # scs) eventID = (if sc_ID sc = eventID then scs else sc # removeByID scs eventID)"

definition removeEvent :: "'r esys \<Rightarrow> string \<Rightarrow> 'r esys" where
  "removeEvent s eventID = s\<lparr>m_ScheduledEvents := removeByID (m_ScheduledEvents s) eventID\<rparr>"

definition removeEventByName :: "'r esys \<Rightarrow> string \<Rightarrow> 'r esys" where
  "removeEventByName s name =
     s\<lparr>m_ScheduledEvents := filter (\<lambda>sc. m_EventName (store_of s (sc_Event sc)) \<noteq> name) (m_ScheduledEvents s)\<rparr>"

definition getEvent :: "'r esys \<Rightarrow> string \<Rightarrow> 'r scheduled option" where
  "getEvent s eventID = List.find (\<lambda>sc. sc_ID sc = eventID) (m_ScheduledEvents s)"

section \<open>Raising pending events\<close>

definition unsetIfSet :: "string \<Rightarrow> event \<Rightarrow> event" where
  "unsetIfSet name e = (if hasPropertySet e name then unsetProperty e name else e)"

definition clearSchedule :: "event \<Rightarrow> event" where
  "clearSchedule e = unsetIfSet ''iCalRRule'' (unsetIfSet ''iCalStartTime'' (unsetIfSet ''time'' e))"

text \<open>
  One round of the loop: the new state, the scheduled event with its schedule moved on, whether
  it is to be removed and whether it was due.  \<open>None\<close> is the deadlock that a push would cause if
  the event were scheduled again, because the mutex of the runner is held.
\<close>

definition raiseOne ::
    "'r timelib \<Rightarrow> int \<Rightarrow> 'r esys \<Rightarrow> 'r scheduled \<Rightarrow> ('r esys \<times> 'r scheduled \<times> bool \<times> bool) option" where
  "raiseOne L now s sc =
     (let nextSecond = now + 1;
          (nextOccurence, sch) = getNextOccurence L (sc_Schedule sc) now
      in if nextOccurence = NullDate then Some (s, sc\<lparr>sc_Schedule := sch\<rparr>, True, False)
         else if nextOccurence \<le> now then
           if hasQueue s then
             (let s1 = modify s (sc_Event sc) clearSchedule
              in if scheduleFromEvent L now (store_of s1 (sc_Event sc)) \<noteq> None then None
                 else
                   (let s2 = pushEvent L now s1 (sc_Event sc);
                        (ended, sch) =
                          (if \<not> hasRecurrence sch then (True, sch)
                           else (let (t, sch) = getNextOccurence L sch nextSecond in (t = NullDate, sch)));
                        sch = (if hasRecurrence sch then leapAdjust L sch nextSecond else sch)
                    in Some (s2, sc\<lparr>sc_Schedule := sch\<rparr>, ended, True)))
           else Some (s, sc\<lparr>sc_Schedule := sch\<rparr>, False, True)
         else Some (s, sc\<lparr>sc_Schedule := sch\<rparr>, False, False))"

fun raiseLoop ::
    "'r timelib \<Rightarrow> int \<Rightarrow> 'r esys \<Rightarrow> 'r scheduled list \<Rightarrow>
       ('r esys \<times> 'r scheduled list \<times> string list \<times> bool) option" where
  "raiseLoop L now s [] = Some (s, [], [], False)"
| "raiseLoop L now s (sc # scs) =
     (case raiseOne L now s sc of
        None \<Rightarrow> None
      | Some (s1, sc1, remove, due) \<Rightarrow>
          (case raiseLoop L now s1 scs of
             None \<Rightarrow> None
           | Some (s2, scs2, removeIDs, result) \<Rightarrow>
               Some (s2, sc1 # scs2, (if remove then sc_ID sc # removeIDs else removeIDs), due \<or> result)))"

definition raisePendingEvents :: "'r timelib \<Rightarrow> int \<Rightarrow> 'r esys \<Rightarrow> ('r esys \<times> bool) option" where
  "raisePendingEvents L now s =
     (case raiseLoop L now s (m_ScheduledEvents s) of
        None \<Rightarrow> None
      | Some (s1, scs, removeIDs, result) \<Rightarrow>
          Some (foldl removeEvent (s1\<lparr>m_ScheduledEvents := scs\<rparr>) removeIDs, result))"

section \<open>Basic facts\<close>

lemma modify_simps [simp]:
  "m_EventQueue (modify s i f) = m_EventQueue s" "m_ScheduledEvents (modify s i f) = m_ScheduledEvents s"
  "hasQueue (modify s i f) = hasQueue s" "m_ScheduledEventCounter (modify s i f) = m_ScheduledEventCounter s"
  "store_of (modify s i f) k = (if k = i then f (store_of s i) else store_of s k)"
  by (simp_all add: modify_def)

lemma mergeInto_simps [simp]:
  "m_EventQueue (mergeInto s i e) = m_EventQueue s" "m_ScheduledEvents (mergeInto s i e) = m_ScheduledEvents s"
  "hasQueue (mergeInto s i e) = hasQueue s"
  by (simp_all add: mergeInto_def Let_def)

text \<open>What decides whether an event replaces another is not touched by a merge.\<close>

definition identity :: "event \<Rightarrow> string \<times> string \<times> string" where
  "identity e = (m_EventName e, m_Context e, m_Location e)"

lemma isReplacementFor_identity: "isReplacementFor e f \<longleftrightarrow> identity e = identity f"
  by (simp add: isReplacementFor_def identity_def evGet_def)

lemma identity_mergeInto [simp]: "identity (store_of (mergeInto s i e) k) = identity (store_of s k)"
  by (simp add: mergeInto_def Let_def identity_def setProperties_def setTime_def)

lemma enqueue_simps [simp]:
  "m_ScheduledEvents (enqueue s i) = m_ScheduledEvents s" "hasQueue (enqueue s i) = hasQueue s"
  "identity (store_of (enqueue s i) k) = identity (store_of s k)"
  by (simp_all add: enqueue_def Let_def split: option.split)

section \<open>Unique events\<close>

definition unique_ok :: "'r esys \<Rightarrow> bool" where
  "unique_ok s \<longleftrightarrow> distinct (map (\<lambda>q. identity (store_of s q)) (m_EventQueue s))
     \<and> distinct (map (\<lambda>sc. identity (store_of s (sc_Event sc))) (m_ScheduledEvents s))"

lemma unique_ok_store:
  "(\<And>k. identity (store_of t k) = identity (store_of s k)) \<Longrightarrow> m_EventQueue t = m_EventQueue s \<Longrightarrow>
     m_ScheduledEvents t = m_ScheduledEvents s \<Longrightarrow> unique_ok t = unique_ok s"
  by (simp add: unique_ok_def)

lemma find_identity_None:
  "List.find (\<lambda>q. isReplacementFor e (g q)) qs = None \<Longrightarrow> identity e \<notin> (\<lambda>q. identity (g q)) ` set qs"
  by (auto simp: find_None_iff isReplacementFor_identity)

lemma enqueue_unique:
  assumes "unique_ok s" "isUnique (store_of s i)"
  shows "unique_ok (enqueue s i)"
proof (cases "List.find (\<lambda>q. isReplacementFor (store_of s i) (store_of s q)) (m_EventQueue s)")
  case None
  then show ?thesis
    using assms find_identity_None[OF None] by (simp add: enqueue_def unique_ok_def image_image)
next
  case (Some q)
  then have "enqueue s i = mergeInto s q (store_of s i)" using assms(2) by (simp add: enqueue_def)
  then show ?thesis using assms(1) unique_ok_store[of "mergeInto s q (store_of s i)" s] by simp
qed

lemma addEvent_unique:
  assumes "unique_ok s" "isUnique (store_of s (sc_Event sc))"
  shows "unique_ok (addEvent s sc)"
proof (cases "List.find (\<lambda>o'. isReplacementFor (store_of s (sc_Event sc)) (store_of s (sc_Event o'))) (m_ScheduledEvents s)")
  case None
  then have "addEvent s sc = s\<lparr>m_ScheduledEvents := m_ScheduledEvents s @ [sc]\<rparr>"
    using assms(2) by (simp add: addEvent_def)
  then show ?thesis
    using assms(1) find_identity_None[OF None] by (simp add: unique_ok_def)
next
  case (Some q)
  then have "addEvent s sc = mergeInto s (sc_Event q) (store_of s (sc_Event sc))"
    using assms(2) by (simp add: addEvent_def)
  then show ?thesis
    using assms(1) unique_ok_store[of "mergeInto s (sc_Event q) (store_of s (sc_Event sc))" s] by simp
qed

text \<open>
  Pushing an event that is marked unique never gives the queue or the runner two events with
  the same name, context and location: it is merged into the one that is there.
\<close>

theorem push_unique:
  assumes "unique_ok s" "isUnique (store_of s i)"
  shows "unique_ok (pushEvent L now s i)"
proof (cases "scheduleFromEvent L now (store_of s i)")
  case None
  then show ?thesis using enqueue_unique[OF assms] by (simp add: pushEvent_def)
next
  case (Some sch)
  have "unique_ok (countUp s)" using assms(1) by (simp add: unique_ok_def countUp_def)
  moreover have "isUnique (store_of (countUp s) (sc_Event (newScheduled s now i sch)))"
    using assms(2) by (simp add: countUp_def newScheduled_def)
  ultimately show ?thesis using addEvent_unique Some by (simp add: pushEvent_def)
qed

definition exampleEvents :: "nat esys" where
  "exampleEvents =
     \<lparr>store_of = (\<lambda>i. fst (setProperty (newEvent (if i = 0 then ''a'' else ''b'')) ''unique'' ''Yes'')),
      m_EventQueue = [0], m_ScheduledEventCounter = 0, m_ScheduledEvents = [], hasQueue = True\<rparr>"

definition utcZone :: tzone where
  "utcZone = \<lparr>tz_off = (\<lambda>_. 0), tz_dst = (\<lambda>_. 0), tz_mk = (\<lambda>_ w. Some w), tz_parse = (\<lambda>_. None), tz_minutes = (\<lambda>_. None)\<rparr>"

definition noTimes :: "nat timelib" where
  "noTimes = \<lparr>zone = utcZone, ical_new = (\<lambda>_ _ _. 0), ical_next = (\<lambda>_ _. (0, 0)), ical_leap = (\<lambda>r _. r)\<rparr>"

theorem push_unique_witness: "unique_ok (pushEvent noTimes 1000 exampleEvents 0)"
proof (rule push_unique)
  show "unique_ok exampleEvents" by (simp add: unique_ok_def exampleEvents_def)
  show "isUnique (store_of exampleEvents 0)"
    by (simp add: isUnique_def exampleEvents_def newEvent_def ev.get_put)
qed

section \<open>Raising\<close>

lemma clearSchedule_has:
  "\<not> hasPropertySet (clearSchedule e) ''time''" "\<not> hasPropertySet (clearSchedule e) ''iCalStartTime''"
  by (simp_all add: clearSchedule_def unsetIfSet_def ev.has_unset)

lemma clearSchedule_keeps:
  "identity (clearSchedule e) = identity e" "isUnique (clearSchedule e) = isUnique e"
proof -
  have "identity (unsetIfSet n e) = identity e" if "n \<notin> {''location'', ''context''}" for n e
    using that by (simp add: unsetIfSet_def identity_def unsetProperty_def)
  then show "identity (clearSchedule e) = identity e" by (simp add: clearSchedule_def)
  show "isUnique (clearSchedule e) = isUnique e"
    by (simp add: clearSchedule_def unsetIfSet_def isUnique_def ev.get_unset)
qed

lemma clearSchedule_unscheduled: "scheduleFromEvent L now (clearSchedule e) = None"
  using clearSchedule_has[of e] by (simp add: scheduleFromEvent_def)

lemma pushEvent_cleared:
  "pushEvent L now (modify s i clearSchedule) i = enqueue (modify s i clearSchedule) i"
  by (simp add: pushEvent_def clearSchedule_unscheduled)

lemma raiseOne_total: "raiseOne L now s sc \<noteq> None"
  by (auto simp: raiseOne_def Let_def clearSchedule_unscheduled split: prod.split)

lemma raiseLoop_total: "raiseLoop L now s scs \<noteq> None"
proof (induction scs arbitrary: s)
  case (Cons sc scs)
  obtain s1 sc1 r d where "raiseOne L now s sc = Some (s1, sc1, r, d)" using raiseOne_total by fast
  moreover obtain s2 scs2 ids res where "raiseLoop L now s1 scs = Some (s2, scs2, ids, res)"
    using Cons.IH[of s1] by fast
  ultimately show ?case by simp
qed simp

definition due :: "int \<Rightarrow> 'r scheduled \<Rightarrow> bool" where
  "due now sc \<longleftrightarrow> (case sc_Schedule sc of StaticSchedule when \<Rightarrow> when \<le> now | ICalSchedule _ \<Rightarrow> False)"

lemma raiseOne_static:
  assumes "sc_Schedule sc = StaticSchedule w" "0 < now" "hasQueue s"
  shows "raiseOne L now s sc =
     Some (if due now sc
           then (enqueue (modify s (sc_Event sc) clearSchedule) (sc_Event sc), sc, True, True)
           else (s, sc, False, False))"
proof -
  have "sc\<lparr>sc_Schedule := StaticSchedule w\<rparr> = sc" using assms(1) by (cases sc) simp
  moreover have "now < w \<Longrightarrow> \<not> w \<le> now" by simp
  ultimately show ?thesis using assms
    by (auto simp: raiseOne_def due_def NullDate_def Let_def clearSchedule_unscheduled pushEvent_cleared)
qed

lemma enqueue_queue: "\<exists>new. m_EventQueue (enqueue s i) = m_EventQueue s @ new"
  by (simp add: enqueue_def Let_def split: option.split)

lemma enqueue_plain: "\<not> isUnique (store_of s i) \<Longrightarrow> m_EventQueue (enqueue s i) = m_EventQueue s @ [i]"
  by (simp add: enqueue_def)

lemma enqueue_represents:
  "\<exists>q \<in> set (m_EventQueue (enqueue s i)). identity (store_of s q) = identity (store_of s i)"
  by (auto simp: enqueue_def Let_def find_Some_iff isReplacementFor_identity split: option.split)

lemma enqueue_store_plain: "\<not> isUnique (store_of s i) \<Longrightarrow> store_of (enqueue s i) = store_of s"
  by (simp add: enqueue_def)

lemma raiseLoop_static:
  assumes "0 < now" "\<forall>sc \<in> set scs. \<exists>w. sc_Schedule sc = StaticSchedule w" "hasQueue s"
  shows "\<exists>s' new. raiseLoop L now s scs = Some (s', scs, map sc_ID (filter (due now) scs), \<exists>sc \<in> set scs. due now sc)
    \<and> m_EventQueue s' = m_EventQueue s @ new
    \<and> (\<forall>k. identity (store_of s' k) = identity (store_of s k))
    \<and> (\<forall>sc \<in> set scs. due now sc \<longrightarrow>
         (\<exists>q \<in> set (m_EventQueue s'). identity (store_of s q) = identity (store_of s (sc_Event sc))))
    \<and> ((\<forall>k. \<not> isUnique (store_of s k)) \<longrightarrow> new = map sc_Event (filter (due now) scs))"
  using assms(2,3)
proof (induction scs arbitrary: s)
  case (Cons sc scs)
  obtain w where w: "sc_Schedule sc = StaticSchedule w" using Cons.prems by auto
  have stat: "\<forall>sc \<in> set scs. \<exists>w. sc_Schedule sc = StaticSchedule w" using Cons.prems(1) by simp
  define s1 where "s1 = (if due now sc then enqueue (modify s (sc_Event sc) clearSchedule) (sc_Event sc) else s)"
  have one: "raiseOne L now s sc = Some (s1, sc, due now sc, due now sc)"
    using raiseOne_static[OF w assms(1) Cons.prems(2)] by (simp add: s1_def)
  have hq: "hasQueue s1" using Cons.prems(2) by (simp add: s1_def)
  have idt: "identity (store_of s1 k) = identity (store_of s k)" for k
    by (simp add: s1_def clearSchedule_keeps)
  obtain n1 where n1: "m_EventQueue s1 = m_EventQueue s @ n1"
    using enqueue_queue[of "modify s (sc_Event sc) clearSchedule" "sc_Event sc"]
    by (cases "due now sc") (auto simp: s1_def)
  obtain s' n2 where s': "raiseLoop L now s1 scs = Some (s', scs, map sc_ID (filter (due now) scs), \<exists>sc \<in> set scs. due now sc)"
    "m_EventQueue s' = m_EventQueue s1 @ n2" "\<forall>k. identity (store_of s' k) = identity (store_of s1 k)"
    "\<forall>sc \<in> set scs. due now sc \<longrightarrow>
       (\<exists>q \<in> set (m_EventQueue s'). identity (store_of s1 q) = identity (store_of s1 (sc_Event sc)))"
    "(\<forall>k. \<not> isUnique (store_of s1 k)) \<longrightarrow> n2 = map sc_Event (filter (due now) scs)"
    using Cons.IH[OF stat hq] by blast
  have here: "\<exists>q \<in> set (m_EventQueue s'). identity (store_of s q) = identity (store_of s (sc_Event sc))" if "due now sc"
    using enqueue_represents[of "modify s (sc_Event sc) clearSchedule" "sc_Event sc"] that s'(2)
    by (auto simp: s1_def clearSchedule_keeps split: if_splits)
  have plain: "n1 @ n2 = map sc_Event (filter (due now) (sc # scs))" if nu: "\<forall>k. \<not> isUnique (store_of s k)"
  proof -
    let ?m = "modify s (sc_Event sc) clearSchedule"
    have m: "\<not> isUnique (store_of ?m k)" for k using nu by (simp add: clearSchedule_keeps)
    then have "\<forall>k. \<not> isUnique (store_of s1 k)" using nu enqueue_store_plain[OF m] by (simp add: s1_def)
    moreover have "n1 = (if due now sc then [sc_Event sc] else [])"
      using n1 enqueue_plain[OF m, of "sc_Event sc"] by (simp add: s1_def split: if_splits)
    ultimately show ?thesis using s'(5) by simp
  qed
  have "raiseLoop L now s (sc # scs) =
      Some (s', sc # scs, map sc_ID (filter (due now) (sc # scs)), \<exists>x \<in> set (sc # scs). due now x)"
    using one s'(1) by simp
  moreover have "m_EventQueue s' = m_EventQueue s @ (n1 @ n2)" using s'(2) n1 by simp
  moreover have "\<forall>k. identity (store_of s' k) = identity (store_of s k)" using s'(3) idt by simp
  moreover have "\<forall>x \<in> set (sc # scs). due now x \<longrightarrow>
      (\<exists>q \<in> set (m_EventQueue s'). identity (store_of s q) = identity (store_of s (sc_Event x)))"
    using s'(4) idt here by auto
  ultimately show ?case using plain by blast
qed simp

lemma removeByID_filter:
  "distinct (map sc_ID scs) \<Longrightarrow> removeByID scs i = filter (\<lambda>sc. sc_ID sc \<noteq> i) scs"
proof (induction scs)
  case (Cons sc scs)
  show ?case
  proof (cases "sc_ID sc = i")
    case True
    then have "filter (\<lambda>x. sc_ID x \<noteq> i) scs = scs" using Cons.prems by (auto simp: filter_id_conv image_iff)
    then show ?thesis using True by simp
  next
    case False
    then show ?thesis using Cons by simp
  qed
qed simp

lemma removeEvents_filter:
  "distinct (map sc_ID (m_ScheduledEvents s)) \<Longrightarrow>
     m_ScheduledEvents (foldl removeEvent s ids) = filter (\<lambda>sc. sc_ID sc \<notin> set ids) (m_ScheduledEvents s)
     \<and> m_EventQueue (foldl removeEvent s ids) = m_EventQueue s
     \<and> store_of (foldl removeEvent s ids) = store_of s"
proof (induction ids arbitrary: s)
  case (Cons i ids)
  let ?s = "removeEvent s i"
  have m: "m_ScheduledEvents ?s = filter (\<lambda>sc. sc_ID sc \<noteq> i) (m_ScheduledEvents s)"
    using removeByID_filter[OF Cons.prems] by (simp add: removeEvent_def)
  then have "distinct (map sc_ID (m_ScheduledEvents ?s))"
    using Cons.prems by (simp add: distinct_map_filter)
  from Cons.IH[OF this] m show ?case
    by (auto simp: removeEvent_def intro!: filter_cong)
qed simp


definition twoScheduled :: "nat esys" where
  "twoScheduled =
     \<lparr>store_of = (\<lambda>i. newEvent ''a''), m_EventQueue = [], m_ScheduledEventCounter = 2,
      m_ScheduledEvents = [\<lparr>sc_Event = 0, sc_Schedule = StaticSchedule 5, sc_ID = ''0''\<rparr>,
        \<lparr>sc_Event = 1, sc_Schedule = StaticSchedule 50, sc_ID = ''1''\<rparr>], hasQueue = True\<rparr>"


section \<open>Identifiers of scheduled events\<close>

lemma scheduledID_inj:
  assumes "scheduledID c t n = scheduledID c' t' n'"
  shows "c = c'"
proof -
  have pre: "takeWhile (\<lambda>x. x \<noteq> CHR ''-'') (scheduledID c t n) = print_nat 10 (unat c)" for c t n
  proof -
    have "\<forall>x \<in> set (print_nat 10 (unat c)). x \<noteq> CHR ''-''"
      using print10_digits[of _ "unat c"] digit_char_props(2) by fastforce
    then show ?thesis
      by (simp add: scheduledID_def uintToString_def takeWhile_append2)
  qed
  have "print_nat 10 (unat c) = print_nat 10 (unat c')"
    using pre[of c t n] pre[of c' t' n'] assms by simp
  then have "unat c = unat c'" using digits_val_print10 by metis
  then show ?thesis by (rule word_unat_eq_iff[THEN iffD2])
qed

text \<open>Every identifier in the runner was made from a counter value that is in the past.\<close>

definition ids_ok :: "'r esys \<Rightarrow> bool" where
  "ids_ok s \<longleftrightarrow> distinct (map sc_ID (m_ScheduledEvents s))
     \<and> (\<forall>sc \<in> set (m_ScheduledEvents s). \<exists>c t n. sc_ID sc = scheduledID c t n \<and> c < m_ScheduledEventCounter s)"

lemma ids_ok_fresh:
  assumes "ids_ok s"
  shows "scheduledID (m_ScheduledEventCounter s) t n \<notin> set (map sc_ID (m_ScheduledEvents s))"
  using assms scheduledID_inj by (fastforce simp: ids_ok_def)

lemma mergeInto_counter [simp]: "m_ScheduledEventCounter (mergeInto s i e) = m_ScheduledEventCounter s"
  by (simp add: mergeInto_def Let_def)

lemma word_Suc_greater: "m \<noteq> - 1 \<Longrightarrow> m < m + (1 :: u64)"
proof -
  assume "m \<noteq> - 1"
  then have "1 + m \<noteq> 0" by (metis add_eq_0_iff)
  then have "unat (1 + m) = Suc (unat m)" by (rule unatSuc)
  then show "m < m + 1" by (simp add: word_less_nat_alt add.commute)
qed

lemma word_less_Suc: "c < m \<Longrightarrow> m \<noteq> - 1 \<Longrightarrow> c < m + (1 :: u64)"
  using word_Suc_greater[of m] by (auto intro: less_trans)

lemma ids_ok_addEvent:
  assumes "ids_ok s" "m_ScheduledEventCounter s \<noteq> - 1"
  shows "ids_ok (addEvent (countUp s) (newScheduled s now i sch))"
proof -
  have up: "ids_ok (countUp s)" using assms word_less_Suc by (fastforce simp: ids_ok_def countUp_def)
  let ?sc = "newScheduled s now i sch"
  have "sc_ID ?sc \<notin> set (map sc_ID (m_ScheduledEvents s))" using ids_ok_fresh[OF assms(1)] by (simp add: newScheduled_def)
  moreover have "m_ScheduledEventCounter s < m_ScheduledEventCounter s + 1"
    using assms(2) by (rule word_Suc_greater)
  ultimately have "ids_ok (countUp s\<lparr>m_ScheduledEvents := m_ScheduledEvents (countUp s) @ [?sc]\<rparr>)"
    using up by (auto simp: ids_ok_def countUp_def newScheduled_def)
  moreover have "ids_ok (mergeInto (countUp s) j e)" for j e using up by (simp add: ids_ok_def)
  ultimately show ?thesis by (simp add: addEvent_def Let_def split: option.split)
qed

text \<open>
  Pushing keeps the identifiers in the runner distinct until the counter wraps.  Yet when a
  unique timed event is merged into a scheduled one, the schedules stay as they were, so the new
  time does not take effect, and the identifier \<open>pushTimedEvent\<close> returns is not in the runner, so
  that the caller cannot remove the event again.
\<close>

theorem scheduled_ids:
  assumes "ids_ok s" "m_ScheduledEventCounter s \<noteq> - 1"
  shows "ids_ok (pushEvent L now s i)
    \<and> (scheduleFromEvent L now (store_of s i) \<noteq> None \<and> isUnique (store_of s i)
        \<and> (\<exists>sc \<in> set (m_ScheduledEvents s). isReplacementFor (store_of s i) (store_of s (sc_Event sc)))
       \<longrightarrow> m_ScheduledEvents (fst (pushTimedEvent L now s i)) = m_ScheduledEvents s
           \<and> getEvent (fst (pushTimedEvent L now s i)) (snd (pushTimedEvent L now s i)) = None)"
proof (intro conjI impI)
  have "ids_ok (enqueue s i)"
    using assms(1) by (simp add: enqueue_def ids_ok_def Let_def split: option.split)
  then show "ids_ok (pushEvent L now s i)"
    using ids_ok_addEvent[OF assms] by (simp add: pushEvent_def split: option.split)
  assume a: "scheduleFromEvent L now (store_of s i) \<noteq> None \<and> isUnique (store_of s i)
      \<and> (\<exists>sc \<in> set (m_ScheduledEvents s). isReplacementFor (store_of s i) (store_of s (sc_Event sc)))"
  then obtain sch where sch: "scheduleFromEvent L now (store_of s i) = Some sch" by blast
  let ?sc = "newScheduled s now i sch"
  have "List.find (\<lambda>o'. isReplacementFor (store_of s i) (store_of s (sc_Event o'))) (m_ScheduledEvents s) \<noteq> None"
    using a by (auto simp: find_None_iff)
  then have "m_ScheduledEvents (addEvent (countUp s) ?sc) = m_ScheduledEvents s"
    using a by (auto simp: addEvent_def countUp_def newScheduled_def)
  then show keep: "m_ScheduledEvents (fst (pushTimedEvent L now s i)) = m_ScheduledEvents s"
    using sch by (simp add: pushTimedEvent_def Let_def)
  show "getEvent (fst (pushTimedEvent L now s i)) (snd (pushTimedEvent L now s i)) = None"
    using sch keep ids_ok_fresh[OF assms(1), of now "m_EventName (store_of s i)"]
    by (force simp: pushTimedEvent_def getEvent_def find_None_iff newScheduled_def)
qed

text \<open>Event 0 is scheduled at 1010; event 1 replaces it and asks for 1005.\<close>

definition rescheduled :: "nat esys" where
  "rescheduled =
     \<lparr>store_of = (\<lambda>i. setTime (fst (setProperty (newEvent ''a'') ''unique'' ''Yes'')) (if i = 0 then ''+10'' else ''+5'')),
      m_EventQueue = [], m_ScheduledEventCounter = 1,
      m_ScheduledEvents = [\<lparr>sc_Event = 0, sc_Schedule = StaticSchedule 1010, sc_ID = scheduledID 0 1000 ''a''\<rparr>],
      hasQueue = True\<rparr>"

theorem scheduled_ids_witness:
  "ids_ok (pushEvent noTimes 1000 rescheduled 1)
   \<and> scheduleFromEvent noTimes 1000 (store_of rescheduled 1) = Some (StaticSchedule 1005)
   \<and> map sc_Schedule (m_ScheduledEvents (fst (pushTimedEvent noTimes 1000 rescheduled 1))) = [StaticSchedule 1010]
   \<and> getEvent (fst (pushTimedEvent noTimes 1000 rescheduled 1)) (snd (pushTimedEvent noTimes 1000 rescheduled 1)) = None"
proof -
  have ok: "ids_ok rescheduled" "m_ScheduledEventCounter rescheduled \<noteq> - 1"
    by (auto simp: ids_ok_def rescheduled_def intro!: exI[of _ "0 :: u64"])
  have u: "isUnique (store_of rescheduled 1)"
    by (simp add: isUnique_def rescheduled_def evGet_def setTime_def setProperty_def newEvent_def newEventAt_def
      prop_get_default_def prop_set_def prop_has_def)
  have "strToIntDef ''5'' (-1) = 5" by code_simp
  then have sch: "scheduleFromEvent noTimes 1000 (store_of rescheduled 1) = Some (StaticSchedule 1005)"
    by (simp add: scheduleFromEvent_def rescheduled_def setTime_def hasPropertySet_def evGet_def Let_def)
  have "isReplacementFor (store_of rescheduled 1) (store_of rescheduled 0)"
    by (simp add: isReplacementFor_def rescheduled_def evGet_def setTime_def)
  then have r: "\<exists>sc \<in> set (m_ScheduledEvents rescheduled). isReplacementFor (store_of rescheduled 1) (store_of rescheduled (sc_Event sc))"
    by (simp add: rescheduled_def)
  show ?thesis using scheduled_ids[OF ok, of noTimes 1000 1] u sch r by (simp add: rescheduled_def)
qed

text \<open>
  An event with a time that cannot be used is not dropped, as the log message says, but put
  into the queue at once, with the time still set.
\<close>

theorem invalid_time_runs_now:
  assumes "hasPropertySet (store_of s i) ''time''" "\<not> isUnique (store_of s i)"
    "length (evGet (store_of s i) ''time'') < 2 \<or> hd (evGet (store_of s i) ''time'') \<noteq> CHR ''+''
       \<and> parseRFC2445 (zone L) (evGet (store_of s i) ''time'') = None"
  shows "m_EventQueue (pushEvent L now s i) = m_EventQueue s @ [i]
    \<and> store_of (pushEvent L now s i) = store_of s"
proof -
  have "scheduleFromEvent L now (store_of s i) = None"
    using assms(1,3) by (auto simp: scheduleFromEvent_def Let_def)
  then show ?thesis using enqueue_plain[OF assms(2)] enqueue_store_plain[OF assms(2)] by (simp add: pushEvent_def)
qed

definition badTime :: "nat esys" where
  "badTime = exampleEvents\<lparr>store_of := (\<lambda>_. setTime (newEvent ''a'') ''soon'')\<rparr>"

theorem invalid_time_runs_now_witness: "m_EventQueue (pushEvent noTimes 1000 badTime 1) = [0, 1]"
proof -
  have "m_EventQueue (pushEvent noTimes 1000 badTime 1) = m_EventQueue badTime @ [1]
      \<and> store_of (pushEvent noTimes 1000 badTime 1) = store_of badTime"
    by (rule invalid_time_runs_now)
       (simp_all add: badTime_def noTimes_def setTime_def hasPropertySet_def evGet_def isUnique_def newEvent_def
         newEventAt_def prop_get_default_def prop_has_def parseRFC2445_def)
  then show ?thesis by (simp add: badTime_def exampleEvents_def)
qed

end
