(* ===== verification/Event_Interpreter.thy ===== *)
theory Event_Interpreter
  imports Event_Queue Property_System
begin

text \<open>
  The event interpreter of \<^verbatim>\<open>src/src/event.cpp\<close>: subscriptions and their identifiers, loading
  subscriptions from the property tree, and dispatching events to plugins.  A plugin is its name
  and a handler, which may change the event and the rest of the program, of type \<open>'w\<close>.  Logging,
  the monitor node below \<^verbatim>\<open>/system/EventInterpreter\<close> and web sockets are not modelled.
\<close>

section \<open>Subscriptions\<close>

record interp =
  m_Subscriptions :: "subscription list"
  m_Plugins :: "string list"
  m_EventsProcessed :: u32

definition subscriptionByID :: "interp \<Rightarrow> string \<Rightarrow> subscription option" where
  "subscriptionByID I subscriptionID = List.find (\<lambda>s. m_ID s = subscriptionID) (m_Subscriptions I)"

partial_function (option) uniqueIDLoop :: "interp \<Rightarrow> string \<Rightarrow> string \<Rightarrow> nat \<Rightarrow> string option" where
  "uniqueIDLoop I proposal result index =
     (if subscriptionByID I result \<noteq> None
      then uniqueIDLoop I proposal (proposal @ int32ToString (word_of_nat index)) (index + 1)
      else Some result)"

definition uniqueSubscriptionID :: "interp \<Rightarrow> string \<Rightarrow> string option" where
  "uniqueSubscriptionID I proposal = uniqueIDLoop I proposal proposal 1"

text \<open>The constructor of \<^verbatim>\<open>EventSubscription\<close>; \<open>None\<close> when the search for an identifier does not end.\<close>

definition newSubscription :: "interp \<Rightarrow> string \<Rightarrow> string \<Rightarrow> properties option \<Rightarrow> subscription option" where
  "newSubscription I eventName handlerName options =
     map_option (\<lambda>i. \<lparr>m_SubEventName = eventName, m_HandlerName = handlerName, m_ID = i, m_Parameters = options,
        m_Filter = [], m_FilterOption = foMatchAll\<rparr>)
       (uniqueSubscriptionID I (eventName @ ''_'' @ handlerName))"

text \<open>\<open>None\<close> is the failed assertion that the identifier is new.\<close>

definition subscribe :: "interp \<Rightarrow> subscription \<Rightarrow> interp option" where
  "subscribe I s =
     (if subscriptionByID I (m_ID s) \<noteq> None then None
      else Some (I\<lparr>m_Subscriptions := m_Subscriptions I @ [s]\<rparr>))"

fun removeSubscription :: "subscription list \<Rightarrow> string \<Rightarrow> subscription list" where
  "removeSubscription [] i = []"
| "removeSubscription (s # ss) i = (if m_ID s = i then ss else s # removeSubscription ss i)"

definition unsubscribeID :: "interp \<Rightarrow> string \<Rightarrow> interp" where
  "unsubscribeID I subscriptionID =
     I\<lparr>m_Subscriptions := removeSubscription (m_Subscriptions I) subscriptionID\<rparr>"

definition unsubscribeSub :: "interp \<Rightarrow> subscription \<Rightarrow> interp" where
  "unsubscribeSub I s = I\<lparr>m_Subscriptions := removeSubscription (m_Subscriptions I) (m_ID s)\<rparr>"

definition addPlugin :: "interp \<Rightarrow> string \<Rightarrow> interp" where
  "addPlugin I name = I\<lparr>m_Plugins := m_Plugins I @ [name]\<rparr>"

definition getPluginByName :: "interp \<Rightarrow> string \<Rightarrow> string option" where
  "getPluginByName I name = List.find (\<lambda>p. p = name) (m_Plugins I)"

section \<open>Dispatching\<close>

text \<open>
  The loop over the copy of the subscriptions.  \<open>handle\<close> runs the handler of a plugin; a
  \<^verbatim>\<open>std::runtime_error\<close> it throws is caught and logged.  The exception of a filter is not caught.
\<close>

fun dispatch ::
    "interp \<Rightarrow> (string \<Rightarrow> subscription \<Rightarrow> event \<times> 'w \<Rightarrow> event \<times> 'w) \<Rightarrow> subscription list \<Rightarrow> event \<times> 'w
       \<Rightarrow> (event \<times> 'w) \<times> match_error option" where
  "dispatch I handle [] ew = (ew, None)"
| "dispatch I handle (s # ss) (e, w) =
     (if m_SubEventName s = m_EventName e then
        (case matches s e of
           Inl err \<Rightarrow> ((e, w), Some err)
         | Inr True \<Rightarrow>
             (case getPluginByName I (m_HandlerName s) of
                Some p \<Rightarrow> dispatch I handle ss (handle p s (e, w))
              | None \<Rightarrow> dispatch I handle ss (e, w))
         | Inr False \<Rightarrow> dispatch I handle ss (e, w))
      else dispatch I handle ss (e, w))"

text \<open>
  One event is taken from the queue and dispatched; the counter only moves when no exception
  leaves the function.  The handlers may push events, so they run on the event system too.
\<close>

definition executePendingEvent ::
    "interp \<Rightarrow> (string \<Rightarrow> subscription \<Rightarrow> event \<times> 'r esys \<Rightarrow> event \<times> 'r esys) \<Rightarrow> 'r esys
       \<Rightarrow> (interp \<times> 'r esys) \<times> match_error option" where
  "executePendingEvent I handle S =
     (case popEvent S of
        (S1, None) \<Rightarrow> ((I, S1), None)
      | (S1, Some i) \<Rightarrow>
          (case dispatch I handle (m_Subscriptions I) (store_of S1 i, S1) of
             ((e, S2), None) \<Rightarrow>
               ((I\<lparr>m_EventsProcessed := m_EventsProcessed I + 1\<rparr>, modify S2 i (\<lambda>_. e)), None)
           | ((e, S2), Some err) \<Rightarrow> ((I, modify S2 i (\<lambda>_. e)), Some err)))"

section \<open>Loading subscriptions\<close>

definition stringChild :: "pheap \<Rightarrow> nodeid \<Rightarrow> string \<Rightarrow> perror + string" where
  "stringChild h n name =
     (case getProperty h n name of
        Inl e \<Rightarrow> Inl e
      | Inr None \<Rightarrow> Inr []
      | Inr (Some c) \<Rightarrow> getStringValue h c)"

definition filterFromNode :: "pheap \<Rightarrow> nodeid \<Rightarrow> perror + EventPropertyFilter option" where
  "filterFromNode h fProp =
     (case stringChild h fProp ''type'' of
        Inl e \<Rightarrow> Inl e
      | Inr fType \<Rightarrow>
          (case stringChild h fProp ''value'' of
             Inl e \<Rightarrow> Inl e
           | Inr fValue \<Rightarrow>
               (case stringChild h fProp ''property'' of
                  Inl e \<Rightarrow> Inl e
                | Inr fProperty \<Rightarrow>
                    Inr (if fType \<noteq> [] \<and> fProperty \<noteq> [] then
                           if fType = ''exists'' then Some (EventPropertyExistsFilter fProperty)
                           else if fType = ''missing'' then Some (EventPropertyMissingFilter fProperty)
                           else if fType = ''matches'' then Some (EventPropertyMatchFilter fProperty fValue)
                           else None
                         else None))))"

text \<open>The exceptions that the handlers for \<^verbatim>\<open>std::runtime_error\<close> catch.\<close>

fun isRuntimeError :: "perror \<Rightarrow> bool" where
  "isRuntimeError (PropertyTypeMismatch _) = True"
| "isRuntimeError (StdRuntimeError _) = True"
| "isRuntimeError (RequireFailed _) = True"
| "isRuntimeError _ = False"

text \<open>The filters added before an exception stay with the subscription.\<close>

fun loadFilters :: "pheap \<Rightarrow> nodeid list \<Rightarrow> subscription \<Rightarrow> subscription \<times> perror option" where
  "loadFilters h [] s = (s, None)"
| "loadFilters h (c # cs) s =
     (case filterFromNode h c of
        Inl e \<Rightarrow> (s, Some e)
      | Inr None \<Rightarrow> loadFilters h cs s
      | Inr (Some f) \<Rightarrow> loadFilters h cs (addPropertyFilter s f))"

definition matchOption :: "string \<Rightarrow> EventPropertyFilterOption" where
  "matchOption matchType =
     (if matchType = ''all'' then foMatchAll
      else if matchType = ''none'' then foMatchNone
      else if matchType = ''one'' then foMatchOne
      else foMatchAll)"

definition loadFilter :: "pheap \<Rightarrow> nodeid \<Rightarrow> subscription \<Rightarrow> subscription \<times> perror option" where
  "loadFilter h n s =
     (case getStringValue h n of
        Inl e \<Rightarrow> (s, Some e)
      | Inr matchType \<Rightarrow> loadFilters h (getChildNodes h n) (setFilterOption s (matchOption matchType)))"

fun loadParameters :: "pheap \<Rightarrow> nodeid list \<Rightarrow> properties \<Rightarrow> perror + properties" where
  "loadParameters h [] ps = Inr ps"
| "loadParameters h (c # cs) ps =
     (case getStringValue h c of
        Inl e \<Rightarrow> Inl e
      | Inr v \<Rightarrow> loadParameters h cs (prop_set ps (m_Name (node h c)) v))"

text \<open>The options are dropped when a parameter is not a string.\<close>

definition loadOptions :: "pheap \<Rightarrow> nodeid \<Rightarrow> perror + properties option" where
  "loadOptions h n =
     (case getPropertyByName h n ''parameter'' of
        Inl e \<Rightarrow> if isRuntimeError e then Inr None else Inl e
      | Inr None \<Rightarrow> Inr (Some Map.empty)
      | Inr (Some p) \<Rightarrow>
          (case loadParameters h (getChildNodes h p) Map.empty of
             Inl e \<Rightarrow> if isRuntimeError e then Inr None else Inl e
           | Inr ps \<Rightarrow> Inr (Some ps)))"

text \<open>The two names are read through pointers that are NULL when the node has no such child.\<close>

definition requiredString :: "pheap \<Rightarrow> nodeid \<Rightarrow> string \<Rightarrow> perror + string" where
  "requiredString h n name =
     (case getProperty h n name of
        Inl e \<Rightarrow> Inl e
      | Inr None \<Rightarrow> Inl NullDeref
      | Inr (Some c) \<Rightarrow> getStringValue h c)"

definition subscriptionFilter :: "pheap \<Rightarrow> nodeid \<Rightarrow> subscription \<Rightarrow> perror + subscription" where
  "subscriptionFilter h n s =
     (let (s1, err) = (case getPropertyByName h n ''filter'' of
                         Inl e \<Rightarrow> (s, Some e)
                       | Inr None \<Rightarrow> (s, None)
                       | Inr (Some f) \<Rightarrow> loadFilter h f s)
      in case err of
           None \<Rightarrow> Inr s1
         | Some e \<Rightarrow> if isRuntimeError e then Inr s1 else Inl e)"

definition loadSubscription :: "pheap \<Rightarrow> interp \<Rightarrow> nodeid \<Rightarrow> perror + interp" where
  "loadSubscription h I n =
     (case requiredString h n ''event-name'' of
        Inl e \<Rightarrow> Inl e
      | Inr evtName \<Rightarrow>
     (case requiredString h n ''handler-name'' of
        Inl e \<Rightarrow> Inl e
      | Inr handlerName \<Rightarrow>
          if evtName = [] \<or> handlerName = [] then Inr I
          else
     (case loadOptions h n of
        Inl e \<Rightarrow> Inl e
      | Inr opts \<Rightarrow>
     (case newSubscription I evtName handlerName opts of
        None \<Rightarrow> Inl Diverges
      | Some s \<Rightarrow>
     (case subscriptionFilter h n s of
        Inl e \<Rightarrow> Inl e
      | Inr s1 \<Rightarrow>
          (case subscribe I s1 of None \<Rightarrow> Inl AssertionFailed | Some I1 \<Rightarrow> Inr I1))))))"

fun loadSubscriptionsFromProperty :: "pheap \<Rightarrow> interp \<Rightarrow> nodeid list \<Rightarrow> perror + interp" where
  "loadSubscriptionsFromProperty h I [] = Inr I"
| "loadSubscriptionsFromProperty h I (c # cs) =
     (case loadSubscription h I c of
        Inl e \<Rightarrow> Inl e | Inr I1 \<Rightarrow> loadSubscriptionsFromProperty h I1 cs)"

section \<open>Identifiers are unique\<close>

definition subs_ok :: "interp \<Rightarrow> bool" where
  "subs_ok I \<longleftrightarrow> distinct (map m_ID (m_Subscriptions I))"

lemma subscriptionByID_None: "subscriptionByID I i = None \<longleftrightarrow> i \<notin> m_ID ` set (m_Subscriptions I)"
  by (auto simp: subscriptionByID_def find_None_iff)

definition candidate :: "string \<Rightarrow> nat \<Rightarrow> string" where
  "candidate proposal k = proposal @ int32ToString (word_of_nat k)"

lemma candidate_inj: "inj_on (candidate proposal) {..<2 ^ 31}"
proof (rule inj_onI)
  fix a b :: nat
  assume ab: "a \<in> {..<2 ^ 31}" "b \<in> {..<2 ^ 31}" "candidate proposal a = candidate proposal b"
  then have "print_nat 10 a = print_nat 10 b" by (simp add: candidate_def int32ToString_small)
  then show "a = b" using digits_val_print10 by metis
qed

lemma free_candidate:
  assumes "length (m_Subscriptions I) < 2 ^ 31 - 1"
  shows "\<exists>k \<in> {1..length (m_Subscriptions I) + 1}. subscriptionByID I (candidate proposal k) = None"
proof (rule ccontr)
  let ?ids = "m_ID ` set (m_Subscriptions I)" and ?K = "{1..length (m_Subscriptions I) + 1}"
  assume "\<not> ?thesis"
  then have sub: "candidate proposal ` ?K \<subseteq> ?ids" by (auto simp: subscriptionByID_None)
  have "inj_on (candidate proposal) ?K"
    by (rule inj_on_subset[OF candidate_inj]) (use assms in auto)
  then have "card (candidate proposal ` ?K) = length (m_Subscriptions I) + 1" by (simp add: card_image)
  moreover have "card (candidate proposal ` ?K) \<le> card ?ids" using sub by (intro card_mono) auto
  moreover have "card ?ids \<le> length (m_Subscriptions I)"
    using card_image_le[of "set (m_Subscriptions I)" m_ID] card_length[of "m_Subscriptions I"] by (auto intro: le_trans)
  ultimately show False by simp
qed

lemma uniqueIDLoop_returns:
  "i \<le> k \<Longrightarrow> subscriptionByID I (candidate proposal k) = None \<Longrightarrow>
     \<exists>r. uniqueIDLoop I proposal result i = Some r \<and> subscriptionByID I r = None"
proof (induction "Suc k - i" arbitrary: i result)
  case (Suc n)
  show ?case
  proof (cases "subscriptionByID I result = None")
    case True
    then show ?thesis by (simp add: uniqueIDLoop.simps)
  next
    case False
    then have step: "uniqueIDLoop I proposal result i = uniqueIDLoop I proposal (candidate proposal i) (i + 1)"
      by (simp add: uniqueIDLoop.simps[of I proposal result] candidate_def)
    show ?thesis
    proof (cases "i = k")
      case True
      then show ?thesis using Suc.prems step by (simp add: uniqueIDLoop.simps[of I proposal "candidate proposal k"])
    next
      case False
      then show ?thesis using Suc.hyps(1)[of "i + 1"] Suc.hyps(2) Suc.prems step by auto
    qed
  qed
qed simp

lemma newSubscription_fresh:
  assumes "length (m_Subscriptions I) < 2 ^ 31 - 1"
  shows "\<exists>s. newSubscription I en hn opts = Some s \<and> subscriptionByID I (m_ID s) = None
    \<and> m_SubEventName s = en \<and> m_HandlerName s = hn"
proof -
  obtain k where "1 \<le> k" "subscriptionByID I (candidate (en @ ''_'' @ hn) k) = None"
    using free_candidate[OF assms, of "en @ ''_'' @ hn"] by auto
  from uniqueIDLoop_returns[OF this]
  obtain r where "uniqueSubscriptionID I (en @ ''_'' @ hn) = Some r" "subscriptionByID I r = None"
    unfolding uniqueSubscriptionID_def by blast
  then show ?thesis by (simp add: newSubscription_def)
qed

lemma subscribe_ok: "subs_ok I \<Longrightarrow> subscribe I s = Some I1 \<Longrightarrow> subs_ok I1"
  by (auto simp: subs_ok_def subscribe_def subscriptionByID_None split: if_splits)

lemma removeSubscription_filter:
  "distinct (map m_ID ss) \<Longrightarrow> removeSubscription ss i = filter (\<lambda>s. m_ID s \<noteq> i) ss"
proof (induction ss)
  case (Cons s ss)
  show ?case
  proof (cases "m_ID s = i")
    case True
    then have "filter (\<lambda>x. m_ID x \<noteq> i) ss = ss" using Cons.prems by (auto simp: filter_id_conv image_iff)
    then show ?thesis using True by simp
  next
    case False
    then show ?thesis using Cons by simp
  qed
qed simp

text \<open>
  The search for a subscription identifier ends while there are fewer than \<open>2 ^ 31 - 1\<close>
  subscriptions, and its result is not in use, so that subscribing never fails its assertion;
  identifiers stay distinct, and unsubscribing removes exactly the subscription named.
\<close>

theorem subscription_ids:
  assumes "subs_ok I" "length (m_Subscriptions I) < 2 ^ 31 - 1"
  shows "\<exists>s I1. newSubscription I en hn opts = Some s \<and> subscribe I s = Some I1 \<and> subs_ok I1
    \<and> m_Subscriptions I1 = m_Subscriptions I @ [s]
    \<and> m_Subscriptions (unsubscribeID I1 (m_ID s)) = m_Subscriptions I"
proof -
  obtain s where s: "newSubscription I en hn opts = Some s" "subscriptionByID I (m_ID s) = None"
    using newSubscription_fresh[OF assms(2)] by blast
  let ?I1 = "I\<lparr>m_Subscriptions := m_Subscriptions I @ [s]\<rparr>"
  have sub: "subscribe I s = Some ?I1" using s(2) by (simp add: subscribe_def)
  have ok: "subs_ok ?I1" using subscribe_ok[OF assms(1) sub] .
  have "removeSubscription (m_Subscriptions I @ [s]) (m_ID s) = m_Subscriptions I"
    using removeSubscription_filter[of "m_Subscriptions I @ [s]" "m_ID s"] ok s(2)
    by (auto simp: subs_ok_def subscriptionByID_None filter_id_conv image_iff)
  then show ?thesis using s sub ok by (auto simp: unsubscribeID_def)
qed

definition noSubscriptions :: interp where
  "noSubscriptions = \<lparr>m_Subscriptions = [], m_Plugins = [''h''], m_EventsProcessed = 0\<rparr>"

theorem subscription_ids_witness:
  "\<exists>s I1. newSubscription noSubscriptions ''e'' ''h'' None = Some s \<and> subscribe noSubscriptions s = Some I1"
  using subscription_ids[of noSubscriptions "''e''" "''h''" None] by (auto simp: noSubscriptions_def subs_ok_def)

section \<open>Dispatching reaches the right handlers\<close>

definition selected :: "interp \<Rightarrow> event \<Rightarrow> subscription \<Rightarrow> bool" where
  "selected I e s \<longleftrightarrow> m_SubEventName s = m_EventName e \<and> matches s e = Inr True \<and> m_HandlerName s \<in> set (m_Plugins I)"

lemma getPluginByName_Some: "getPluginByName I n = (if n \<in> set (m_Plugins I) then Some n else None)"
proof -
  have "List.find (\<lambda>p. p = n) ps = (if n \<in> set ps then Some n else None)" for ps
    by (induction ps) auto
  then show ?thesis by (simp add: getPluginByName_def)
qed

text \<open>The handler that records its calls and leaves the event alone.\<close>

definition recordCall :: "string \<Rightarrow> subscription \<Rightarrow> event \<times> (string \<times> string) list \<Rightarrow> event \<times> (string \<times> string) list" where
  "recordCall p s ew = (fst ew, snd ew @ [(p, m_ID s)])"

text \<open>
  When no filter throws, an event reaches exactly the subscriptions to its name whose filters
  match and whose handler is registered, in the order of subscription; when a filter throws, the
  subscriptions after it do not see the event.
\<close>

theorem dispatch_selected:
  "dispatch I recordCall ss (e, w) =
     (let ok = takeWhile (\<lambda>s. m_SubEventName s = m_EventName e \<longrightarrow> matches s e \<noteq> Inl BadCast) ss
      in ((e, w @ map (\<lambda>s. (m_HandlerName s, m_ID s)) (filter (selected I e) ok)),
          if ok = ss then None else Some BadCast))"
proof (induction ss arbitrary: w)
  case (Cons s ss)
  show ?case
  proof (cases "matches s e")
    case (Inl err)
    then show ?thesis using Cons.IH[of w]
      by (cases err) (simp add: selected_def Let_def)
  next
    case (Inr b)
    then show ?thesis using Cons.IH[of w] Cons.IH[of "w @ [(m_HandlerName s, m_ID s)]"]
      by (cases b) (simp_all add: selected_def getPluginByName_Some recordCall_def Let_def, blast)
  qed
qed simp

theorem dispatch_selected_witness:
  "dispatch noSubscriptions recordCall
     [exampleSubscription foMatchAll, exampleSubscription foMatchOne, exampleSubscription foMatchAll] (newEvent ''e'', [])
   = ((newEvent ''e'', [(''h'', ''e_h'')]), Some BadCast)"
proof -
  have m: "matches (exampleSubscription foMatchAll) (newEvent ''e'') = Inr True"
    "matches (exampleSubscription foMatchOne) (newEvent ''e'') = Inl BadCast"
    by (simp_all add: matches_def exampleSubscription_def newEvent_def newEventAt_def hasPropertySet_def prop_has_def)
  have f: "m_SubEventName (exampleSubscription opt) = ''e''" "m_HandlerName (exampleSubscription opt) = ''h''"
    "m_ID (exampleSubscription opt) = ''e_h''" "m_EventName (newEvent ''e'') = ''e''" "m_Plugins noSubscriptions = [''h'']" for opt
    by (simp_all add: exampleSubscription_def newEvent_def newEventAt_def noSubscriptions_def)
  show ?thesis
    unfolding dispatch_selected by (simp add: m f selected_def Let_def)
qed

end
