(* ===== verification/Model_State.thy ===== *)
theory Model_State
  imports Model_Const Property_Paths Event_Queue Ds485_Types
begin

text \<open>
  States of \<^verbatim>\<open>src/src/model/state.cpp\<close> and \<^verbatim>\<open>src/src/model/state.h\<close>: the object, its file, its nodes
  in the property tree, the events it pushes, and the sensor states with their hysteresis.

  A state reads and writes three parts of the server, so the operations work on a \<open>world\<close>: the
  property tree, the files of the directory for saved properties, and the event queue.  What the
  \<^verbatim>\<open>DSS\<close> object answers is the record \<open>senv\<close>; \<^verbatim>\<open>DSUID_NULL\<close> comes from libdsuid.
  The proxies a state puts into the tree refer to its member variables and to its method
  \<^verbatim>\<open>toString\<close>; they read memory cells of the object, which \<open>sync\<close> writes after each change of a
  member.  A node that was taken out of the tree stays allocated; running its destructor is
  \<open>destroyNode\<close>.
\<close>

section \<open>Data\<close>

datatype StatePersistency = volatile | persistent

text \<open>The values of \<^verbatim>\<open>eState\<close> as an \<^verbatim>\<open>int\<close> member holds them.\<close>

abbreviation st_Invalid :: u32 where "st_Invalid \<equiv> word_of_int State_Invalid"
abbreviation st_Active :: u32 where "st_Active \<equiv> word_of_int State_Active"
abbreviation st_Inactive :: u32 where "st_Inactive \<equiv> word_of_int State_Inactive"
abbreviation st_Unknown :: u32 where "st_Unknown \<equiv> word_of_int State_Unknown"

definition coUnknown :: u32 where "coUnknown = 0"
definition coSystem :: u32 where "coSystem = 7"
definition coLast :: u32 where "coLast = 11"

definition validOrigin :: "u32 \<Rightarrow> bool" where
  "validOrigin origin \<longleftrightarrow> origin < coLast \<and> origin \<noteq> 5 \<and> origin \<noteq> 3"

text \<open>What a state uses of a device or a meter: its property node, if published, and its dSUID.\<close>

record provider =
  pv_node :: "nodeid option"
  pv_dsuid :: "u8 list"

record State =
  s_this :: nat
  m_pPropertyNode :: "nodeid option"
  m_name :: string
  m_persistency :: StatePersistency
  m_callOrigin :: u32
  m_originDeviceDSUID :: "u8 list"
  m_state :: u32
  m_type :: eStateType
  m_providerDev :: "provider option"
  m_providerDevInput :: u32
  m_providerDevStateName :: string
  m_providerDsm :: "provider option"
  m_serviceName :: string
  m_providerGroup :: "nat option"
  m_values :: "string list"

record senv =
  hasInstance :: bool
  ssRunning :: bool
  savedPropsDirectory :: string
  canWrite :: "string \<Rightarrow> bool"
  DSUID_NULL :: "u8 list"

record 'r world =
  w_heap :: pheap
  w_files :: "string \<rightharpoonup> u8 list"
  w_events :: "'r esys"
  w_nextEvent :: eventid

text \<open>The result of an operation: the world, the object and the exception, if any.\<close>

type_synonym 'r sres = "'r world \<times> State \<times> perror option"

section \<open>Values and names\<close>

definition INVALID :: string where "INVALID = ''invalid''"

definition toString :: "State \<Rightarrow> string" where
  "toString st =
     (if m_values st \<noteq> [] then
        if 0 \<le> sint (m_state st) \<and> sint (m_state st) < int (length (m_values st))
        then m_values st ! nat (sint (m_state st)) else INVALID
      else if m_state st = st_Unknown then ''unknown''
      else if m_state st = st_Active then ''active''
      else if m_state st = st_Inactive then ''inactive''
      else INVALID)"

definition tryValueFromName :: "State \<Rightarrow> string \<Rightarrow> u32 option" where
  "tryValueFromName st valueName =
     (if m_values st \<noteq> [] then map_option word_of_nat (find_index (\<lambda>v. v = valueName) (m_values st))
      else if valueName = ''active'' then Some st_Active
      else if valueName = ''inactive'' then Some st_Inactive
      else if valueName = ''unknown'' then Some st_Unknown
      else if valueName = INVALID then Some st_Invalid
      else None)"

text \<open>\<open>None\<close> is the failed requirement.\<close>

definition valueFromName :: "State \<Rightarrow> string \<Rightarrow> u32 option" where
  "valueFromName st valueName = tryValueFromName st valueName"

definition getState :: "State \<Rightarrow> u32" where
  "getState st = m_state st"

text \<open>The template for enumerations; the enumeration value is its number.\<close>

definition getStateEnum :: "State \<Rightarrow> u32 option" where
  "getStateEnum st = (if getState st = 0 then None else Some (getState st - 1))"

definition getValueRangeSize :: "State \<Rightarrow> u32" where
  "getValueRangeSize st =
     (if m_values st \<noteq> [] then word_of_nat (length (m_values st)) else st_Unknown + 1)"

section \<open>The file of a state\<close>

definition getStorageName :: "senv \<Rightarrow> State \<Rightarrow> string" where
  "getStorageName E st =
     (if \<not> hasInstance E then ''/tmp'' else savedPropsDirectory E) @ ''/'' @ ''state.'' @ m_name st"

definition save :: "senv \<Rightarrow> State \<Rightarrow> (string \<rightharpoonup> u8 list) \<Rightarrow> (string \<rightharpoonup> u8 list)" where
  "save E st files =
     (let path = c_str (getStorageName E st)
      in if \<not> canWrite E path then files
         else files(path \<mapsto> ucast (m_state st) # ucast (m_callOrigin st)
                      # take (length (DSUID_NULL E)) (m_originDeviceDSUID st)))"

text \<open>The loop over the bytes of the dSUID.\<close>

fun loadDSUID :: "u8 list \<Rightarrow> nat \<Rightarrow> u8 list \<Rightarrow> u8 list \<Rightarrow> u8 list" where
  "loadDSUID null i dsuid [] = (if i < length null then null else dsuid)"
| "loadDSUID null i dsuid (b # bs) =
     (if i < length null then loadDSUID null (i + 1) (dsuid[i := b]) bs else dsuid)"

definition load :: "senv \<Rightarrow> (string \<rightharpoonup> u8 list) \<Rightarrow> State \<Rightarrow> State" where
  "load E files st =
     (case files (c_str (getStorageName E st)) of
        None \<Rightarrow> st
      | Some bs \<Rightarrow>
          (let st = (case bs of [] \<Rightarrow> st | b # _ \<Rightarrow> st\<lparr>m_state := ucast b\<rparr>);
               st = (case drop 1 bs of [] \<Rightarrow> st | b # _ \<Rightarrow> st\<lparr>m_callOrigin := ucast b\<rparr>)
           in st\<lparr>m_originDeviceDSUID := loadDSUID (DSUID_NULL E) 0 (m_originDeviceDSUID st) (drop 2 bs)\<rparr>))"

definition getPersistence :: "State \<Rightarrow> bool" where
  "getPersistence st \<longleftrightarrow> m_persistency st = persistent"

definition hasPersistentData :: "senv \<Rightarrow> (string \<rightharpoonup> u8 list) \<Rightarrow> State \<Rightarrow> bool" where
  "hasPersistentData E files st \<longleftrightarrow> files (c_str (getStorageName E st)) \<noteq> None"

section \<open>The nodes of a state\<close>

text \<open>The cells of the object that proxies read.\<close>

definition cell :: "State \<Rightarrow> nat \<Rightarrow> nat" where
  "cell st k = 8 * s_this st + k"

definition sync :: "senv \<Rightarrow> State \<Rightarrow> pheap \<Rightarrow> pheap" where
  "sync E st h = h\<lparr>mem := (mem h)
     (cell st 0 := CString (m_name st), cell st 1 := CInteger (m_state st),
      cell st 2 := CString (toString st), cell st 3 := CInteger (m_callOrigin st),
      cell st 4 := CString (dsuid2str (m_originDeviceDSUID st)),
      cell st 5 := CInteger (m_providerDevInput st), cell st 6 := CString (m_providerDevStateName st),
      cell st 7 := CString (m_serviceName st))\<rparr>"

definition refProxy :: "aValueType \<Rightarrow> State \<Rightarrow> nat \<Rightarrow> proxy" where
  "refProxy t st k = PropertyProxyReference t (cell st k) False"

definition memberProxy :: "State \<Rightarrow> nat \<Rightarrow> proxy" where
  "memberProxy st k = PropertyProxyMemberFunction vTypeString True False (Some (\<lambda>m. m (cell st k))) None"

text \<open>\<^verbatim>\<open>createProperty(name)->linkToProxy(proxy)\<close>, whose result is not looked at.\<close>

definition linkChild :: "pheap \<Rightarrow> nodeid \<Rightarrow> string \<Rightarrow> proxy \<Rightarrow> unit result" where
  "linkChild h n name p = andThen (createProperty h n name) (\<lambda>h c. (fst (linkToProxy h c p), Inr ()))"

definition removeFromPropertyTree :: "pheap \<Rightarrow> State \<Rightarrow> State result" where
  "removeFromPropertyTree h st =
     (case m_pPropertyNode st of
        None \<Rightarrow> (h, Inr st)
      | Some n \<Rightarrow>
          andThen (unlinkProxy (Suc (nextId h)) h n True) (\<lambda>h _.
            andThen (case m_ParentNode (node h n) of
                       None \<Rightarrow> (h, Inr None)
                     | Some p \<Rightarrow> removeChild h p (Some n)) (\<lambda>h _.
              (h, Inr (st\<lparr>m_pPropertyNode := None\<rparr>)))))"

definition statePath :: "State \<Rightarrow> string" where
  "statePath st =
     (case m_type st of
        StateType_Script \<Rightarrow> ''/usr/addon-states/'' @ m_serviceName st @ ''/''
      | StateType_SensorDevice \<Rightarrow> ''/usr/addon-states/'' @ m_serviceName st @ ''/''
      | StateType_SensorZone \<Rightarrow> ''/usr/addon-states/'' @ m_serviceName st @ ''/''
      | _ \<Rightarrow> ''/usr/states/'') @ m_name st"

text \<open>The parts of \<^verbatim>\<open>publishToPropertyTree\<close> below the new node \<open>n\<close>, in order.\<close>

definition publishValues :: "senv \<Rightarrow> State \<Rightarrow> nodeid \<Rightarrow> pheap \<Rightarrow> unit result" where
  "publishValues E st n h =
     andThen (linkChild h n ''name'' (refProxy vTypeString st 0)) (\<lambda>h _.
     andThen (linkChild h n ''value'' (refProxy vTypeInteger st 1)) (\<lambda>h _.
     andThen (linkChild h n ''state'' (memberProxy st 2)) (\<lambda>h _.
     andThen (if m_callOrigin st \<noteq> coUnknown
              then linkChild h n ''callOrigin'' (refProxy vTypeInteger st 3) else (h, Inr ())) (\<lambda>h _.
     if m_originDeviceDSUID st \<noteq> DSUID_NULL E
     then linkChild h n ''originDeviceDSUID'' (memberProxy st 4) else (h, Inr ())))))"

definition publishCompat :: "State \<Rightarrow> nodeid \<Rightarrow> pheap \<Rightarrow> unit result" where
  "publishCompat st n h =
     (if m_name st = ''presence'' \<or> m_name st = ''hibernation'' then
        (case getPropertyByName h n ''value'' of
           Inl e \<Rightarrow> (h, Inl e)
         | Inr c \<Rightarrow>
             andThen (removeChild h n c) (\<lambda>h _.
             linkChild h n ''value'' (memberProxy st 2)))
      else (h, Inr ()))"

definition publishDevice :: "senv \<Rightarrow> State \<Rightarrow> nodeid \<Rightarrow> pheap \<Rightarrow> unit result" where
  "publishDevice E st n h =
     (case m_providerDev st of
        None \<Rightarrow> (h, Inr ())
      | Some dev \<Rightarrow>
          andThen (createProperty h n (''device/'' @ dsuid2str (pv_dsuid dev))) (\<lambda>h a.
          andThen (aliasTo h a (pv_node dev)) (\<lambda>h _.
          andThen (if m_providerDevInput st \<noteq> -1
                   then linkChild h n ''device/inputIndex'' (refProxy vTypeInteger st 5) else (h, Inr ())) (\<lambda>h _.
          if m_providerDevStateName st \<noteq> []
          then linkChild h n ''device/stateName'' (refProxy vTypeString st 6) else (h, Inr ())))))"

definition publishMeter :: "senv \<Rightarrow> State \<Rightarrow> nodeid \<Rightarrow> pheap \<Rightarrow> unit result" where
  "publishMeter E st n h =
     (case m_providerDsm st of
        None \<Rightarrow> (h, Inr ())
      | Some dsm \<Rightarrow>
          andThen (createProperty h n (''dSMeter/'' @ dsuid2str (pv_dsuid dsm))) (\<lambda>h a.
          andThen (aliasTo h a (pv_node dsm)) (\<lambda>h _.
          linkChild h n ''dSMeter/inputIndex'' (refProxy vTypeInteger st 5))))"

definition publishService :: "State \<Rightarrow> nodeid \<Rightarrow> pheap \<Rightarrow> unit result" where
  "publishService st n h =
     (if m_serviceName st \<noteq> []
      then linkChild h n ''service/name'' (refProxy vTypeString st 7) else (h, Inr ()))"

text \<open>
  The new object keeps the node also when an exception leaves the function later, so the object
  is part of the result.
\<close>

definition publishBelow :: "senv \<Rightarrow> State \<Rightarrow> nodeid \<Rightarrow> pheap \<Rightarrow> unit result" where
  "publishBelow E st n h =
     andThen (publishValues E st n h) (\<lambda>h _.
     andThen (publishCompat st n h) (\<lambda>h _.
     andThen (publishDevice E st n h) (\<lambda>h _.
     andThen (publishMeter E st n h) (\<lambda>h _.
     publishService st n h))))"

definition fails :: "'r world \<Rightarrow> State \<Rightarrow> 'a result \<Rightarrow> 'r sres" where
  "fails w st r = (w\<lparr>w_heap := fst r\<rparr>, st, (case snd r of Inl e \<Rightarrow> Some e | Inr _ \<Rightarrow> None))"

definition publishToPropertyTree :: "senv \<Rightarrow> 'r world \<Rightarrow> State \<Rightarrow> 'r sres" where
  "publishToPropertyTree E w st =
     (case removeFromPropertyTree (w_heap w) st of
        (h, Inl e) \<Rightarrow> (w\<lparr>w_heap := h\<rparr>, st, Some e)
      | (h, Inr st) \<Rightarrow>
          if hasInstance E then
            (case sysGetProperty h (statePath st) of
               Inl e \<Rightarrow> (w\<lparr>w_heap := h\<rparr>, st, Some e)
             | Inr (Some _) \<Rightarrow> (w\<lparr>w_heap := h\<rparr>, st, None)
             | Inr None \<Rightarrow>
                 (case sysCreateProperty h (statePath st) of
                    (h, Inl e) \<Rightarrow> (w\<lparr>w_heap := h\<rparr>, st, Some e)
                  | (h, Inr None) \<Rightarrow> (w\<lparr>w_heap := h\<rparr>, st, Some NullDeref)
                  | (h, Inr (Some n)) \<Rightarrow>
                      fails w (st\<lparr>m_pPropertyNode := Some n\<rparr>) (publishBelow E st n h)))
          else (w\<lparr>w_heap := h\<rparr>, st, None))"

section \<open>Changing a state\<close>

text \<open>\<^verbatim>\<open>createStateChangeEvent\<close> of \<^verbatim>\<open>src/src/event/event_create.cpp\<close>.\<close>

definition createStateChangeEvent :: "State \<Rightarrow> u32 \<Rightarrow> u32 \<Rightarrow> event" where
  "createStateChangeEvent st oldstate callOrigin =
     (let e = (if m_type st = StateType_Script
               then fst (setProperty (newStateEvent ''addonStateChange'' (s_this st)) ''scriptID'' (m_serviceName st))
               else newStateEvent ''stateChange'' (s_this st));
          e = fst (setProperty e ''statename'' (m_name st));
          e = fst (setProperty e ''state'' (toString st));
          e = fst (setProperty e ''value'' (int32ToString (getState st)));
          e = fst (setProperty e ''oldvalue'' (int32ToString oldstate))
      in fst (setProperty e ''callOrigin'' (int32ToString callOrigin)))"

text \<open>A new event object is pushed.\<close>

definition pushNew :: "'r timelib \<Rightarrow> int \<Rightarrow> event \<Rightarrow> 'r world \<Rightarrow> 'r world" where
  "pushNew L now e w =
     (let i = w_nextEvent w; s = w_events w
      in w\<lparr>w_events := pushEvent L now (s\<lparr>store_of := (store_of s)(i := e)\<rparr>) i, w_nextEvent := i + 1\<rparr>)"

definition setState :: "senv \<Rightarrow> 'r timelib \<Rightarrow> int \<Rightarrow> 'r world \<Rightarrow> State \<Rightarrow> u32 \<Rightarrow> u32 \<Rightarrow> 'r sres" where
  "setState E L now w st origin value =
     (if value \<noteq> m_state st then
        (let oldstate = m_state st;
             st = st\<lparr>m_state := value, m_callOrigin := origin\<rparr>;
             h = sync E st (w_heap w);
             r = (case m_pPropertyNode st of
                    Some n \<Rightarrow> if hasInstance E \<and> m_callOrigin st \<noteq> coUnknown
                              then linkChild h n ''callOrigin'' (refProxy vTypeInteger st 3) else (h, Inr ())
                  | None \<Rightarrow> (h, Inr ()));
             w = w\<lparr>w_heap := fst r\<rparr>
         in case snd r of
              Inl e \<Rightarrow> (w, st, Some e)
            | Inr _ \<Rightarrow>
                (let w = (if m_persistency st = persistent then w\<lparr>w_files := save E st (w_files w)\<rparr> else w);
                     w = (if hasInstance E \<and> ssRunning E
                          then pushNew L now (createStateChangeEvent st oldstate origin) w else w)
                 in (w, st, None)))
      else (w, st, None))"

definition setStateByName :: "senv \<Rightarrow> 'r timelib \<Rightarrow> int \<Rightarrow> 'r world \<Rightarrow> State \<Rightarrow> u32 \<Rightarrow> string \<Rightarrow> 'r sres" where
  "setStateByName E L now w st origin valueName =
     (case tryValueFromName st valueName of
        Some value \<Rightarrow> setState E L now w st origin value
      | None \<Rightarrow> (w, st, None))"

definition setStateEnum :: "senv \<Rightarrow> 'r timelib \<Rightarrow> int \<Rightarrow> 'r world \<Rightarrow> State \<Rightarrow> u32 \<Rightarrow> 'r sres" where
  "setStateEnum E L now w st value = setState E L now w st coSystem (value + 1)"

text \<open>The other setters; each is followed by a new look at the members through the proxies.\<close>

definition resync :: "senv \<Rightarrow> 'r world \<Rightarrow> State \<Rightarrow> 'r world" where
  "resync E w st = w\<lparr>w_heap := sync E st (w_heap w)\<rparr>"

definition setName :: "senv \<Rightarrow> 'r world \<Rightarrow> State \<Rightarrow> string \<Rightarrow> 'r world \<times> State" where
  "setName E w st name = (let st = st\<lparr>m_name := name\<rparr> in (resync E w st, st))"

definition setValueRange :: "senv \<Rightarrow> 'r world \<Rightarrow> State \<Rightarrow> string list \<Rightarrow> 'r world \<times> State" where
  "setValueRange E w st values = (let st = st\<lparr>m_values := values\<rparr> in (resync E w st, st))"

text \<open>Once called, with either argument, the state is persistent.\<close>

definition setPersistence :: "senv \<Rightarrow> 'r world \<Rightarrow> State \<Rightarrow> bool \<Rightarrow> 'r world \<times> State" where
  "setPersistence E w st persist =
     (let st = (if m_persistency st = volatile \<and> persist then load E (w_files w) st else st);
          st = st\<lparr>m_persistency := persistent\<rparr>
      in (resync E w st, st))"

definition setOriginDeviceDSUID :: "senv \<Rightarrow> 'r world \<Rightarrow> State \<Rightarrow> u8 list \<Rightarrow> 'r sres" where
  "setOriginDeviceDSUID E w st dsuid =
     (let st = st\<lparr>m_originDeviceDSUID := dsuid\<rparr>;
          h = sync E st (w_heap w)
      in case m_pPropertyNode st of
           None \<Rightarrow> (w\<lparr>w_heap := h\<rparr>, st, None)
         | Some n \<Rightarrow>
             if hasInstance E \<and> m_originDeviceDSUID st \<noteq> DSUID_NULL E then
               (case getProperty h n ''originDeviceDSUID'' of
                  Inl e \<Rightarrow> (w\<lparr>w_heap := h\<rparr>, st, Some e)
                | Inr (Some _) \<Rightarrow> (w\<lparr>w_heap := h\<rparr>, st, None)
                | Inr None \<Rightarrow> fails w st (linkChild h n ''originDeviceDSUID'' (memberProxy st 4)))
             else (w\<lparr>w_heap := h\<rparr>, st, None))"

definition republish :: "senv \<Rightarrow> 'r world \<Rightarrow> State \<Rightarrow> 'r sres" where
  "republish E w st =
     (case removeFromPropertyTree (w_heap w) st of
        (h, Inl e) \<Rightarrow> (w\<lparr>w_heap := h\<rparr>, st, Some e)
      | (h, Inr st) \<Rightarrow> publishToPropertyTree E (w\<lparr>w_heap := h\<rparr>) st)"

definition setProviderGroup :: "senv \<Rightarrow> 'r world \<Rightarrow> State \<Rightarrow> nat option \<Rightarrow> 'r sres" where
  "setProviderGroup E w st grp = republish E w (st\<lparr>m_providerGroup := grp\<rparr>)"

definition setProviderDevice :: "senv \<Rightarrow> 'r world \<Rightarrow> State \<Rightarrow> provider option \<Rightarrow> 'r sres" where
  "setProviderDevice E w st dev = republish E w (st\<lparr>m_providerDev := dev\<rparr>)"

section \<open>Constructors\<close>

text \<open>
  \<open>this\<close> is the place of the object; \<open>garbage\<close> is the value of the member \<^verbatim>\<open>m_providerDevInput\<close> where
  a constructor leaves it uninitialised.
\<close>

definition blankState :: "senv \<Rightarrow> nat \<Rightarrow> u32 \<Rightarrow> string \<Rightarrow> eStateType \<Rightarrow> u32 \<Rightarrow> StatePersistency \<Rightarrow> State" where
  "blankState E this garbage name type initState persistency =
     \<lparr>s_this = this, m_pPropertyNode = None, m_name = name, m_persistency = persistency,
      m_callOrigin = coUnknown, m_originDeviceDSUID = DSUID_NULL E, m_state = initState, m_type = type,
      m_providerDev = None, m_providerDevInput = garbage, m_providerDevStateName = [],
      m_providerDsm = None, m_serviceName = [], m_providerGroup = None, m_values = []\<rparr>"

definition finishState :: "senv \<Rightarrow> 'r world \<Rightarrow> State \<Rightarrow> 'r sres" where
  "finishState E w st =
     (let st = load E (w_files w) st in publishToPropertyTree E (resync E w st) st)"

definition newState :: "senv \<Rightarrow> nat \<Rightarrow> u32 \<Rightarrow> 'r world \<Rightarrow> string \<Rightarrow> 'r sres" where
  "newState E this garbage w name =
     finishState E w (blankState E this garbage name StateType_Apartment st_Inactive volatile)"

definition newTypedState ::
    "senv \<Rightarrow> nat \<Rightarrow> u32 \<Rightarrow> 'r world \<Rightarrow> eStateType \<Rightarrow> string \<Rightarrow> string \<Rightarrow> 'r sres" where
  "newTypedState E this garbage w type name identifier =
     finishState E w ((blankState E this garbage name type st_Inactive volatile)\<lparr>m_serviceName := identifier\<rparr>)"

definition newBinaryInputState :: "senv \<Rightarrow> nat \<Rightarrow> 'r world \<Rightarrow> provider \<Rightarrow> u32 \<Rightarrow> 'r sres" where
  "newBinaryInputState E this w dev inputIndex =
     finishState E w
       ((blankState E this inputIndex (''dev.'' @ dsuid2str (pv_dsuid dev) @ ''.'' @ int32ToString inputIndex)
           StateType_Device st_Invalid persistent)\<lparr>m_providerDev := Some dev\<rparr>)"

definition newDeviceState :: "senv \<Rightarrow> nat \<Rightarrow> 'r world \<Rightarrow> provider \<Rightarrow> string \<Rightarrow> 'r sres" where
  "newDeviceState E this w dev stateName =
     finishState E w
       ((blankState E this (-1) (''dev.'' @ dsuid2str (pv_dsuid dev) @ ''.'' @ stateName)
           StateType_Device st_Invalid persistent)
         \<lparr>m_providerDev := Some dev, m_providerDevStateName := stateName\<rparr>)"

definition newMeterState :: "senv \<Rightarrow> nat \<Rightarrow> 'r world \<Rightarrow> provider \<Rightarrow> u32 \<Rightarrow> 'r sres" where
  "newMeterState E this w dsm inputIndex =
     finishState E w
       ((blankState E this inputIndex (''dsm.'' @ dsuid2str (pv_dsuid dsm) @ ''.'' @ int32ToString inputIndex)
           StateType_Circuit st_Invalid persistent)\<lparr>m_providerDsm := Some dsm\<rparr>)"

definition makeGroupName :: "ApplicationType \<Rightarrow> u32 \<Rightarrow> string" where
  "makeGroupName applicationType zoneID =
     ''zone.'' @ int32ToString zoneID @ ''.'' @
     (case applicationType of AT_Lights \<Rightarrow> ''light'' | AT_Heating \<Rightarrow> ''heating'' | _ \<Rightarrow> ''unknown'')"

definition newGroupState :: "senv \<Rightarrow> nat \<Rightarrow> u32 \<Rightarrow> 'r world \<Rightarrow> nat \<Rightarrow> string \<Rightarrow> 'r sres" where
  "newGroupState E this garbage w grp name =
     finishState E w
       ((blankState E this garbage name StateType_Group st_Unknown volatile)\<lparr>m_providerGroup := Some grp\<rparr>)"

section \<open>Sensor states\<close>

text \<open>The order of doubles, on their bit patterns; it is false when one of them is not a number.\<close>

definition dbl_nan :: "u64 \<Rightarrow> bool" where
  "dbl_nan d \<longleftrightarrow> d AND 0x7FFFFFFFFFFFFFFF > 0x7FF0000000000000"

definition dbl_ord :: "u64 \<Rightarrow> int" where
  "dbl_ord d = (if bit d 63 then - uint (d AND 0x7FFFFFFFFFFFFFFF) else uint d)"

definition dbl_less :: "u64 \<Rightarrow> u64 \<Rightarrow> bool" where
  "dbl_less a b \<longleftrightarrow> \<not> dbl_nan a \<and> \<not> dbl_nan b \<and> dbl_ord a < dbl_ord b"

datatype eValueComparator = eComp_undef | eComp_lower | eComp_higher

record StateSensor =
  ss_state :: State
  m_activateComparator :: eValueComparator
  m_deactivateComparator :: eValueComparator
  m_activateValue :: u64
  m_deactivateValue :: u64

text \<open>\<^verbatim>\<open>strtod\<close> gives a value and the number of characters it read.\<close>

definition strToDouble :: "(string \<Rightarrow> u64 \<times> nat) \<Rightarrow> string \<Rightarrow> u64 option" where
  "strToDouble strtod s =
     (if s \<noteq> [] then
        (let (result, n) = strtod (c_str s) in if n \<ge> length (c_str s) then Some result else None)
      else None)"

text \<open>
  \<open>None\<close> is the access to a token that is not there: a text without a semicolon has only one.
\<close>

definition parseCondition :: "(string \<Rightarrow> u64 \<times> nat) \<Rightarrow> string \<Rightarrow> (eValueComparator \<times> u64) option" where
  "parseCondition strtod inp =
     (if inp = [] then Some (eComp_undef, 0)
      else
        (let tokens = splitString inp (CHR '';'') True;
             comp = (case tokens of
                       (CHR ''>'' # _) # _ \<Rightarrow> eComp_higher
                     | (CHR ''<'' # _) # _ \<Rightarrow> eComp_lower
                     | _ \<Rightarrow> eComp_undef)
         in if length tokens \<le> 1 then None
            else Some (comp, case strToDouble strtod (tokens ! 1) of Some d \<Rightarrow> d | None \<Rightarrow> 0)))"

text \<open>
  The two constructors; the provider is set after the state has been published, which publishes
  it again.
\<close>

definition newSensor ::
    "(string \<Rightarrow> u64 \<times> nat) \<Rightarrow> string \<Rightarrow> string \<Rightarrow> ('r world \<Rightarrow> State \<Rightarrow> 'r sres) \<Rightarrow> 'r sres
       \<Rightarrow> 'r world \<times> (perror + StateSensor)" where
  "newSensor strtod activateCondition deactivateCondition setProvider base =
     (case base of
        (w, st, Some e) \<Rightarrow> (w, Inl e)
      | (w, st, None) \<Rightarrow>
          (case (parseCondition strtod activateCondition, parseCondition strtod deactivateCondition) of
             (Some (ac, av), Some (dc, dv)) \<Rightarrow>
               (case setProvider w st of
                  (w, st, Some e) \<Rightarrow> (w, Inl e)
                | (w, st, None) \<Rightarrow>
                    (w, Inr \<lparr>ss_state = st, m_activateComparator = ac, m_deactivateComparator = dc,
                             m_activateValue = av, m_deactivateValue = dv\<rparr>))
           | _ \<Rightarrow> (w, Inl ReadPastEnd)))"

definition newDeviceSensor ::
    "senv \<Rightarrow> (string \<Rightarrow> u64 \<times> nat) \<Rightarrow> nat \<Rightarrow> u32 \<Rightarrow> 'r world \<Rightarrow> string \<Rightarrow> string \<Rightarrow> provider \<Rightarrow> u32
       \<Rightarrow> string \<Rightarrow> string \<Rightarrow> 'r world \<times> (perror + StateSensor)" where
  "newDeviceSensor E strtod this garbage w identifier scriptId dev sensorType act deact =
     newSensor strtod act deact (\<lambda>w st. setProviderDevice E w st (Some dev))
       (newTypedState E this garbage w StateType_SensorDevice
          (''dev.'' @ dsuid2str (pv_dsuid dev) @ ''.type'' @ int32ToString sensorType @ ''.'' @ identifier) scriptId)"

definition newZoneSensor ::
    "senv \<Rightarrow> (string \<Rightarrow> u64 \<times> nat) \<Rightarrow> nat \<Rightarrow> u32 \<Rightarrow> 'r world \<Rightarrow> string \<Rightarrow> string \<Rightarrow> nat \<Rightarrow> u32 \<Rightarrow> u32 \<Rightarrow> u32
       \<Rightarrow> string \<Rightarrow> string \<Rightarrow> 'r world \<times> (perror + StateSensor)" where
  "newZoneSensor E strtod this garbage w identifier scriptId grp zoneID groupID sensorType act deact =
     newSensor strtod act deact (\<lambda>w st. setProviderGroup E w st (Some grp))
       (newTypedState E this garbage w StateType_SensorZone
          (''zone.zone'' @ int32ToString zoneID @ ''.group'' @ int32ToString groupID @ ''.type'' @
           int32ToString sensorType @ ''.'' @ identifier) scriptId)"

fun condition :: "eValueComparator \<Rightarrow> u64 \<Rightarrow> u64 \<Rightarrow> bool" where
  "condition eComp_lower threshold value = dbl_less value threshold"
| "condition eComp_higher threshold value = dbl_less threshold value"
| "condition eComp_undef threshold value = False"

definition newValue ::
    "senv \<Rightarrow> 'r timelib \<Rightarrow> int \<Rightarrow> 'r world \<Rightarrow> StateSensor \<Rightarrow> u32 \<Rightarrow> u64 \<Rightarrow> 'r world \<times> StateSensor \<times> perror option" where
  "newValue E L now w sn origin value =
     (let cond1 = condition (m_activateComparator sn) (m_activateValue sn) value;
          cond0 = condition (m_deactivateComparator sn) (m_deactivateValue sn) value;
          st = ss_state sn;
          (w, st, r) =
            (if getState st = st_Active then
               (if \<not> cond1 \<and> cond0 then setState E L now w st origin st_Inactive
                else if cond1 \<and> cond0 then setState E L now w st origin st_Unknown
                else (w, st, None))
             else
               (if cond1 \<and> \<not> cond0 then setState E L now w st origin st_Active
                else if cond1 \<and> cond0 then setState E L now w st origin st_Unknown
                else (w, st, None)))
      in (w, sn\<lparr>ss_state := st\<rparr>, r))"

end
