(* ===== verification/State_Laws.thy ===== *)
theory State_Laws
  imports Model_State
begin

text \<open>
  Laws of the states of \<open>Model_State\<close>: what a state shows in the property tree, what its file
  holds, which events it pushes, how value names are read, and how sensor states switch.
\<close>

section \<open>Linking a child to a proxy\<close>

definition wf_tree :: "pheap \<Rightarrow> bool" where
  "wf_tree h \<longleftrightarrow> tree_ok h \<and> dense h \<and> aliases_end h"

text \<open>The program variables and all proxies in place stay as they are.\<close>

definition keeps :: "pheap \<Rightarrow> pheap \<Rightarrow> bool" where
  "keeps h h' \<longleftrightarrow> mem h' = mem h \<and> nextId h \<le> nextId h'
     \<and> (\<forall>k < nextId h. m_Proxy (node h k) \<noteq> None \<longrightarrow>
          m_Proxy (node h' k) = m_Proxy (node h k) \<and> m_ValueType (node h' k) = m_ValueType (node h k))"

text \<open>The child \<open>a\<close> of the node \<open>n\<close> is linked to the proxy \<open>p\<close>.\<close>

definition shows_proxy :: "pheap \<Rightarrow> nodeid \<Rightarrow> string \<Rightarrow> proxy \<Rightarrow> bool" where
  "shows_proxy h n a p \<longleftrightarrow> (\<exists>c. childNamed h n a = Some c \<and> c < nextId h \<and> m_AliasTarget (node h c) = None
     \<and> m_Proxy (node h c) = Some p \<and> m_ValueType (node h c) = p_type p)"

lemma keeps_refl [simp]: "keeps h h"
  by (simp add: keeps_def)

lemma keeps_trans: "keeps a b \<Longrightarrow> keeps b c \<Longrightarrow> keeps a c"
  by (auto simp: keeps_def)

lemma shows_mono: "shows_proxy h n a p \<Longrightarrow> extends h h' \<Longrightarrow> keeps h h' \<Longrightarrow> shows_proxy h' n a p"
  unfolding shows_proxy_def extends_def keeps_def by fastforce

lemma wf_extends: "extends h h' \<Longrightarrow> tree_ok h' \<Longrightarrow> dense h' \<Longrightarrow> wf_tree h \<Longrightarrow> wf_tree h'"
  by (simp add: wf_tree_def aliases_end_def extends_alias_end)

lemma link_child_node:
  assumes "wf_tree h" "c < nextId h" "m_AliasTarget (node h c) = None" "m_Proxy (node h c) = None"
    and run: "linkToProxy h c p = (h', b)"
  shows "wf_tree h'" "extends h h'" "keeps h h'" "same_shape h h'" "m_Proxy (node h' c) = Some p"
    "m_ValueType (node h' c) = p_type p"
proof -
  note sh = linkToProxy_shape[OF run]
  show "same_shape h h'" by (rule sh)
  show e: "extends h h'" using same_shape_extends[OF sh] .
  show "wf_tree h'"
    using wf_extends[OF e _ _ assms(1)] same_shape_tree[OF sh] same_shape_dense[OF sh] assms(1)
    by (simp add: wf_tree_def)
  have h': "h' = upd h c (\<lambda>x. x\<lparr>m_Proxy := Some p, m_ValueType := p_type p\<rparr>)"
    using run assms(3,4) by (simp add: linkToProxy_def IsLinkedToProxy_def)
  then show "keeps h h'" using assms(4) by (simp add: keeps_def)
  show "m_Proxy (node h' c) = Some p" "m_ValueType (node h' c) = p_type p" using h' by simp_all
qed

lemma childNamed_alloc:
  assumes "tree_ok h" "childNamed h n a = Some c"
  shows "c < nextId h"
proof -
  have "c \<in> set (children h n)" using assms(2) unfolding childNamed_def by (auto simp: find_Some_iff)
  then show ?thesis using child_parent[OF assms(1)] allocated(1)[OF assms(1)] by blast
qed

text \<open>A name that is not in use yet.\<close>

lemma createChild_frame:
  assumes ok: "tree_ok h" and m: "m < nextId h" "m_AliasTarget (node h m) = None"
    and a: "plain_name a" and dn: "dense h" and new: "childNamed h m a = None"
    and run: "createChild h m a p = (h', Inr c)"
  shows "c = nextId h" "keeps h h'" "m_Proxy (node h' c) = None" "m_AliasTarget (node h' c) = None"
    "b \<noteq> a \<Longrightarrow> childNamed h' m b = childNamed h m b" "children h' c = []"
proof -
  let ?k = "nextId h"
  have ne: "?k \<noteq> m" using m by simp
  have nm: "getAndRemoveIndexFromPropertyName (stripPlus a) = (0, a)" "a \<noteq> []"
    using a by (simp_all add: plain_strip plain_index) (simp add: plain_name_def)
  from createChild_success[OF ok m nm, of p] plain_c_str[OF a] run
  obtain h1 j where mk: "make_shared h a j = (h1, ?k)" and c: "c = ?k"
    and h': "childAdded (attachChild h1 m ?k) m ?k = (h', Inr ())" and nx: "nextId h' = Suc ?k" by auto
  note mkn = make_shared_nodes[OF mk]
  show "c = ?k" by (rule c)
  have nd: "nodes h' = nodes (attachChild h1 m ?k)" "mem h' = mem (attachChild h1 m ?k)"
    using h' unfolding childAdded_def by (rule notifyListeners_cases; simp)+
  have mem1: "mem h1 = mem h" using mk by (auto simp: make_shared_def)
  have "mem (attachChild h1 m ?k) = mem h1" by (simp add: attachChild_def Let_def)
  moreover have "m_ValueType (node (attachChild h1 m ?k) l) = m_ValueType (node h1 l)" for l
    by (simp add: attachChild_def Let_def)
  ultimately show "keeps h h'" using nx by (simp add: keeps_def nd mem1 mkn(3))
  show "m_Proxy (node h' c) = None" "m_AliasTarget (node h' c) = None"
    by (simp_all add: nd c mkn(3) newPropertyNode_def attachChild_nodes(3)[OF ne])
  have "childNamed h' m b = childNamed (attachChild h1 m ?k) m b"
    using same_shape_childNamed[OF notify_same_shape(3)[OF h']] .
  then show "b \<noteq> a \<Longrightarrow> childNamed h' m b = childNamed h m b"
    by (simp add: fresh_child_lookup[OF ok m mk dn new] split: option.split)
  have "children h' c = children (attachChild h1 m ?k) ?k" by (simp add: children_def nd c)
  then show "children h' c = []"
    using ne by (simp add: attachChild_nodes[OF ne] make_shared_children[OF ok mk] fresh_node(2)[OF ok])
qed

lemma createProperty_single:
  assumes "plain_name a" "m_AliasTarget (node h n) = None"
  shows "createProperty h n a =
    (case childNamed h n a of Some c \<Rightarrow> (h, Inr c) | None \<Rightarrow> createChild h n a a)"
proof -
  have ne: "a \<noteq> []" "a \<noteq> ''/''" using join_nonempty[OF assms(1), of "[]"] by simp_all
  obtain h1 r where c: "createChild h n a a = (h1, r)" by fastforce
  show ?thesis
    using ne assms carCdr_single[OF assms(1)] getPropertyByName_plain[OF assms] c
    by (simp add: createProperty.simps[of h n a] split: option.split sum.split)
qed

lemma linkChild_new:
  assumes wf: "wf_tree h" and n: "n < nextId h" "m_AliasTarget (node h n) = None"
    and a: "plain_name a" and new: "childNamed h n a = None"
  obtains h' where "linkChild h n a p = (h', Inr ())" "wf_tree h'" "extends h h'" "keeps h h'"
    "shows_proxy h' n a p" "\<And>b. b \<noteq> a \<Longrightarrow> childNamed h' n b = childNamed h n b"
proof -
  have ok: "tree_ok h" "dense h" "aliases_end h" using wf by (simp_all add: wf_tree_def)
  obtain h1 c where h1: "createChild h n a a = (h1, Inr c)" "tree_ok h1" "dense h1" "extends h h1"
      "childNamed h1 n a = Some c" "c < nextId h1"
    using createChild_plain[OF ok(1) n a ok(2) new, of a] by blast
  note fr = createChild_frame[OF ok(1) n a ok(2) new h1(1)]
  have wf1: "wf_tree h1" using wf_extends[OF h1(4,2,3) wf] .
  obtain h2 b where l: "linkToProxy h1 c p = (h2, b)" by fastforce
  note lk = link_child_node[OF wf1 h1(6) fr(4,3) l]
  have run: "linkChild h n a p = (h2, Inr ())"
    using createProperty_single[OF a n(2)] new h1(1) l by (simp add: linkChild_def)
  have cn: "childNamed h2 n d = childNamed h1 n d" for d using same_shape_childNamed[OF lk(4)] .
  have "shows_proxy h2 n a p"
    using cn[of a] h1(5,6) lk fr(4) by (auto simp: shows_proxy_def same_shape_def)
  then show thesis
    using that[OF run lk(1) extends_trans[OF h1(4) lk(2)] keeps_trans[OF fr(2) lk(3)]] cn fr(5) by simp
qed

text \<open>Any plain name: an existing child that is linked already stays as it is.\<close>

lemma linkChild_any:
  assumes wf: "wf_tree h" and n: "n < nextId h" "m_AliasTarget (node h n) = None" and a: "plain_name a"
  obtains h' where "linkChild h n a p = (h', Inr ())" "wf_tree h'" "extends h h'" "keeps h h'"
    "\<And>b. b \<noteq> a \<Longrightarrow> childNamed h' n b = childNamed h n b"
proof (cases "childNamed h n a")
  case None
  show thesis by (rule linkChild_new[OF wf n a None, of p]) (rule that)
next
  case (Some c)
  have run: "linkChild h n a p = (fst (linkToProxy h c p), Inr ())"
    using createProperty_single[OF a n(2)] Some by (simp add: linkChild_def)
  show thesis
  proof (cases "IsLinkedToProxy h c \<or> m_AliasTarget (node h c) \<noteq> None")
    case True
    then have "fst (linkToProxy h c p) = h" by (simp add: linkToProxy_def)
    then show thesis using that[OF run] wf by simp
  next
    case False
    obtain h2 b where l: "linkToProxy h c p = (h2, b)" by fastforce
    have c: "c < nextId h" using childNamed_alloc[OF _ Some] wf by (simp add: wf_tree_def)
    have free: "m_AliasTarget (node h c) = None" "m_Proxy (node h c) = None"
      using False by (simp_all add: IsLinkedToProxy_def)
    note lk = link_child_node[OF wf c free l]
    show thesis
      using that[OF run] lk(1-3) same_shape_childNamed[OF lk(4)] l by simp
  qed
qed

section \<open>Creating a path that is not there\<close>

lemma createProperty_cons:
  assumes "plain_name a" "plain_name b" "alias_end h n = Some m"
  shows "createProperty h n (join (a # b # rest) ''/'') =
    (case (case childNamed h m a of Some c \<Rightarrow> (h, Inr c) | None \<Rightarrow> createChild h m a (join (a # b # rest) ''/'')) of
       (h1, Inl e) \<Rightarrow> (h1, Inl e) | (h1, Inr c) \<Rightarrow> createProperty h1 c (join (b # rest) ''/''))"
  using assms join_nonempty[OF assms(1), of "b # rest"] join_nonempty[OF assms(2), of rest]
    alias_end_unaliased[OF assms(3)]
  by (simp add: createProperty.simps[of h n] carCdr_join getPropertyByName_plain del: join.simps
      split: option.split prod.split sum.split)

lemma createProperty_end:
  assumes "plain_name a" "alias_end h n = Some m"
  shows "createProperty h n a = createProperty h m a"
  using assms alias_end_unaliased[OF assms(2)] by (simp add: createProperty.simps[of _ _ a])

lemma getProperty_childless:
  assumes "plain_name a" "\<forall>x \<in> set names. plain_name x" "children h c = []" "m_AliasTarget (node h c) = None"
  shows "getProperty h c (join (a # names) ''/'') = Inr None"
proof -
  have "childNamed h c x = None" for x using assms(3) by (simp add: childNamed_def)
  then show ?thesis
    using assms getProperty_single[OF assms(1), of h c c] getProperty_cons[OF assms(1), of _ h c c]
    by (cases names) (simp_all del: join.simps)
qed

lemma createProperty_fresh:
  "names \<noteq> [] \<Longrightarrow> \<forall>a \<in> set names. plain_name a \<Longrightarrow> wf_tree h \<Longrightarrow> n < nextId h \<Longrightarrow>
     getProperty h n (join names ''/'') = Inr None \<Longrightarrow> createProperty h n (join names ''/'') = (h', Inr c) \<Longrightarrow>
     children h' c = [] \<and> m_AliasTarget (node h' c) = None \<and> m_Proxy (node h' c) = None \<and> keeps h h'"
proof (induction names arbitrary: h n)
  case (Cons a names)
  have ok: "tree_ok h" "dense h" "aliases_end h" using Cons.prems(3) by (simp_all add: wf_tree_def)
  obtain m where m: "alias_end h n = Some m" using ok(3) by (auto simp: aliases_end_def)
  have mm: "m < nextId h" "m_AliasTarget (node h m) = None"
    using alias_end_alloc[OF m ok(1)] alias_end_unaliased[OF m] Cons.prems(4) by blast+
  have a: "plain_name a" using Cons.prems(2) by simp
  show ?case
  proof (cases names)
    case Nil
    then have new: "childNamed h m a = None" using getProperty_single[OF a m] Cons.prems(5) by simp
    then have "createChild h m a a = (h', Inr c)"
      using Cons.prems(6) createProperty_end[OF a m] createProperty_single[OF a mm(2)] Nil by simp
    then show ?thesis using createChild_frame[OF ok(1) mm a ok(2) new] by blast
  next
    case (Cons b rest)
    then have b: "plain_name b" "\<forall>x \<in> set rest. plain_name x" using Cons.prems(2) by simp_all
    note crt = createProperty_cons[OF a b(1) m, of rest] and get = getProperty_cons[OF a b(1) m, of rest]
    show ?thesis
    proof (cases "childNamed h m a")
      case (Some d)
      then have "d < nextId h" using childNamed_alloc[OF ok(1)] by blast
      then show ?thesis
        using Cons.IH[of h d] Cons.prems Cons Some crt get by (simp del: join.simps)
    next
      case None
      obtain h1 d where h1: "createChild h m a (join (a # b # rest) ''/'') = (h1, Inr d)" "tree_ok h1" "dense h1"
          "extends h h1" "d < nextId h1"
        using createChild_plain[OF ok(1) mm a ok(2) None] by blast
      note fr = createChild_frame[OF ok(1) mm a ok(2) None h1(1)]
      have wf1: "wf_tree h1" using wf_extends[OF h1(4,2,3)] Cons.prems(3) .
      have "getProperty h1 d (join names ''/'') = Inr None"
        using getProperty_childless[OF b fr(6,4)] Cons by simp
      then show ?thesis
        using Cons.IH[of h1 d] Cons.prems Cons None crt h1 wf1 keeps_trans[OF fr(2)] by (simp del: join.simps)
    qed
  qed
qed simp

lemma getProperty_snoc:
  assumes "\<forall>x \<in> set names. plain_name x" "names \<noteq> []" "plain_name a"
    "getProperty h n (join names ''/'') = Inr (Some c)" "m_AliasTarget (node h c) = None"
  shows "getProperty h n (join (names @ [a]) ''/'') = Inr (childNamed h c a)"
  using assms
proof (induction names arbitrary: n)
  case (Cons x names)
  obtain m where m: "alias_end h n = Some m"
    using Cons.prems(4) by (cases "alias_end h n") (auto simp: getProperty.simps[of h n])
  have x: "plain_name x" using Cons.prems(1) by simp
  show ?case
  proof (cases names)
    case Nil
    then have "childNamed h m x = Some c" using getProperty_single[OF x m] Cons.prems(4) by simp
    then show ?thesis
      using getProperty_cons[OF x Cons.prems(3) m, of "[]"] getProperty_single[OF Cons.prems(3), of h c c] Cons.prems(5) Nil
      by simp
  next
    case (Cons y rest)
    then have y: "plain_name y" using Cons.prems(1) by simp
    note e = getProperty_cons[OF x y m]
    obtain d where d: "childNamed h m x = Some d" "getProperty h d (join names ''/'') = Inr (Some c)"
      using e[of rest] Cons.prems(4) Cons by (auto simp del: join.simps split: option.splits)
    then show ?thesis using Cons.IH[of d] Cons.prems Cons e[of "rest @ [a]"] by (simp del: join.simps)
  qed
qed simp

lemma linkPath_new:
  assumes names: "names \<noteq> []" "\<forall>a \<in> set names. plain_name a" and wf: "wf_tree h" and n: "n < nextId h"
    and new: "getProperty h n (join names ''/'') = Inr None"
  obtains h' where "linkChild h n (join names ''/'') p = (h', Inr ())" "wf_tree h'" "extends h h'" "keeps h h'"
proof -
  have ok: "tree_ok h" "dense h" "aliases_end h" using wf by (simp_all add: wf_tree_def)
  obtain h1 c where h1: "createProperty h n (join names ''/'') = (h1, Inr c)" "tree_ok h1" "dense h1" "extends h h1"
    using createProperty_plain[OF names ok n] by blast
  have c: "m_AliasTarget (node h1 c) = None" "m_Proxy (node h1 c) = None" "keeps h h1"
    using createProperty_fresh[OF names wf n new h1(1)] by blast+
  have "c < nextId h1" using createProperty_tree[OF h1(1) ok(1) n] by blast
  obtain h2 b where l: "linkToProxy h1 c p = (h2, b)" by fastforce
  note lk = link_child_node[OF wf_extends[OF h1(4,2,3) wf] \<open>c < nextId h1\<close> c(1,2) l]
  have "linkChild h n (join names ''/'') p = (h2, Inr ())" using h1(1) l by (simp add: linkChild_def)
  then show thesis
    using that[OF _ lk(1) extends_trans[OF h1(4) lk(2)] keeps_trans[OF c(3) lk(3)]] by simp
qed

section \<open>What a published state shows\<close>

definition stateNames :: "State \<Rightarrow> string list" where
  "stateNames st =
     (if m_type st \<in> {StateType_Script, StateType_SensorDevice, StateType_SensorZone}
      then [''usr'', ''addon-states'', m_serviceName st, m_name st]
      else [''usr'', ''states'', m_name st])"

lemma statePath_names: "statePath st = ''/'' @ join (stateNames st) ''/''"
  by (cases "m_type st") (simp_all add: statePath_def stateNames_def)

lemma stateNames_nonempty [simp]: "stateNames st \<noteq> []" "join (stateNames st) ''/'' \<noteq> []"
  by (simp_all add: stateNames_def)

lemma cell_inj [simp]: "cell st i = cell st j \<longleftrightarrow> i = j"
  by (simp add: cell_def)

lemma sync_cells [simp]:
  "mem (sync E st h) (cell st 0) = CString (m_name st)" "mem (sync E st h) (cell st (Suc 0)) = CInteger (m_state st)"
  "mem (sync E st h) (cell st 2) = CString (toString st)"
  by (simp_all add: sync_def)

text \<open>
  The state has a node under its path, with a well-shaped tree around it, and the children
  \<open>name\<close>, \<open>value\<close> and \<open>state\<close> of the node are linked to the members of the object.
\<close>

definition view_at :: "pheap \<Rightarrow> State \<Rightarrow> nodeid \<Rightarrow> bool" where
  "view_at h st n \<longleftrightarrow> wf_tree h \<and> n < nextId h \<and> m_AliasTarget (node h n) = None
     \<and> getProperty h 0 (join (stateNames st) ''/'') = Inr (Some n)
     \<and> shows_proxy h n ''name'' (refProxy vTypeString st 0)
     \<and> shows_proxy h n ''value'' (refProxy vTypeInteger st 1)
     \<and> shows_proxy h n ''state'' (memberProxy st 2)"

definition synced :: "pheap \<Rightarrow> State \<Rightarrow> bool" where
  "synced h st \<longleftrightarrow> mem h (cell st 0) = CString (m_name st) \<and> mem h (cell st 1) = CInteger (m_state st)
     \<and> mem h (cell st 2) = CString (toString st)"

definition plain_state :: "State \<Rightarrow> bool" where
  "plain_state st \<longleftrightarrow> (\<forall>a \<in> set (stateNames st). plain_name a)"

lemma view_mono:
  assumes "view_at h st n" "wf_tree h'" "extends h h'" "keeps h h'" "plain_state st"
  shows "view_at h' st n"
proof -
  have "n < nextId h'" using assms(1,4) by (auto simp: view_at_def keeps_def)
  then show ?thesis
    using assms shows_mono[OF _ assms(3,4)] getProperty_extends[OF assms(3)]
    by (simp add: view_at_def plain_state_def extends_def)
qed

lemma plain_names [simp]:
  "plain_name ''name''" "plain_name ''value''" "plain_name ''state''" "plain_name ''callOrigin''"
  "plain_name ''originDeviceDSUID''" "plain_name ''service''"
  by (simp_all add: plain_name_def)

text \<open>Reading through the paths of the state.\<close>

lemma view_reads:
  assumes v: "view_at h st n" and s: "synced h st" and p: "plain_state st"
  shows "sysGetStringValue h (statePath st @ ''/name'') = Inr (m_name st)"
    "sysGetIntValue h (statePath st @ ''/value'') = Inr (m_state st)"
    "sysGetStringValue h (statePath st @ ''/state'') = Inr (toString st)"
proof -
  have path: "sysGetProperty h (statePath st @ ''/'' @ a) = Inr (childNamed h n a)" if "plain_name a" for a
  proof -
    have "statePath st @ ''/'' @ a = ''/'' @ join (stateNames st @ [a]) ''/''"
      by (simp add: statePath_names stateNames_def)
    moreover have "getProperty h 0 (join (stateNames st @ [a]) ''/'') = Inr (childNamed h n a)"
      using getProperty_snoc[OF _ _ that, of "stateNames st" h 0 n] v p by (simp add: view_at_def plain_state_def)
    moreover have "join (stateNames st @ [a]) ''/'' \<noteq> []" by (simp add: stateNames_def)
    ultimately show ?thesis by (simp add: sysGetProperty_def)
  qed
  show "sysGetStringValue h (statePath st @ ''/name'') = Inr (m_name st)"
    "sysGetIntValue h (statePath st @ ''/value'') = Inr (m_state st)"
    "sysGetStringValue h (statePath st @ ''/state'') = Inr (toString st)"
    using v s path[of "''name''"] path[of "''value''"] path[of "''state''"]
    by (auto simp: view_at_def synced_def shows_proxy_def sysGetStringValue_def sysGetIntValue_def getStringValue_def
        getIntegerValue_def forwardGet_def getTyped_def refProxy_def memberProxy_def PropertyProxyReference_def
        PropertyProxyMemberFunction_def)
qed

section \<open>Publishing\<close>

text \<open>The node \<open>n\<close> is usable and has children with names of \<open>A\<close> only.\<close>

definition open_node :: "pheap \<Rightarrow> nodeid \<Rightarrow> string set \<Rightarrow> bool" where
  "open_node h n A \<longleftrightarrow> wf_tree h \<and> n < nextId h \<and> m_AliasTarget (node h n) = None
     \<and> (\<forall>b. b \<notin> A \<longrightarrow> childNamed h n b = None)"

lemma open_node_step:
  assumes "open_node h n A" "wf_tree h'" "extends h h'" "keeps h h'"
    "\<And>b. b \<noteq> a \<Longrightarrow> childNamed h' n b = childNamed h n b"
  shows "open_node h' n (insert a A)"
  using assms by (auto simp: open_node_def extends_def keeps_def)

lemma link_new:
  assumes "open_node h n A" "plain_name a" "a \<notin> A"
  shows "\<exists>h'. linkChild h n a p = (h', Inr ()) \<and> open_node h' n (insert a A) \<and> extends h h' \<and> keeps h h'
    \<and> shows_proxy h' n a p"
proof -
  have o: "wf_tree h" "n < nextId h" "m_AliasTarget (node h n) = None" "childNamed h n a = None"
    using assms by (simp_all add: open_node_def)
  show ?thesis
    by (rule linkChild_new[OF o(1-3) assms(2) o(4), of p]) (use open_node_step[OF assms(1)] in blast)
qed

lemma link_if:
  assumes "open_node h n A" "plain_name a"
  shows "\<exists>h'. (if b then linkChild h n a p else (h, Inr ())) = (h', Inr ()) \<and> open_node h' n (insert a A)
    \<and> extends h h' \<and> keeps h h'"
proof (cases b)
  case True
  have o: "wf_tree h" "n < nextId h" "m_AliasTarget (node h n) = None" using assms by (simp_all add: open_node_def)
  show ?thesis
    by (rule linkChild_any[OF o assms(2), of p]) (use True open_node_step[OF assms(1)] in auto)
next
  case False
  then show ?thesis using assms(1) by (auto simp: open_node_def)
qed

lemma publishValues_view:
  assumes n: "open_node h n {}" and path: "getProperty h 0 (join (stateNames st) ''/'') = Inr (Some n)"
    and p: "plain_state st"
  shows "\<exists>h'. publishValues E st n h = (h', Inr ()) \<and> view_at h' st n \<and> keeps h h'
    \<and> childNamed h' n ''service'' = None"
proof -
  from link_new[OF n plain_names(1), of "refProxy vTypeString st 0"]
  obtain h1 where h1: "linkChild h n ''name'' (refProxy vTypeString st 0) = (h1, Inr ())"
      "open_node h1 n {''name''}" "extends h h1" "keeps h h1" "shows_proxy h1 n ''name'' (refProxy vTypeString st 0)"
    by auto
  from link_new[OF h1(2) plain_names(2), of "refProxy vTypeInteger st 1"]
  obtain h2 where h2: "linkChild h1 n ''value'' (refProxy vTypeInteger st 1) = (h2, Inr ())"
      "open_node h2 n {''value'', ''name''}" "extends h1 h2" "keeps h1 h2"
      "shows_proxy h2 n ''value'' (refProxy vTypeInteger st 1)" by auto
  from link_new[OF h2(2) plain_names(3), of "memberProxy st 2"]
  obtain h3 where h3: "linkChild h2 n ''state'' (memberProxy st 2) = (h3, Inr ())"
      "open_node h3 n {''state'', ''value'', ''name''}" "extends h2 h3" "keeps h2 h3"
      "shows_proxy h3 n ''state'' (memberProxy st 2)" by auto
  let ?o = "m_callOrigin st \<noteq> coUnknown" and ?d = "m_originDeviceDSUID st \<noteq> DSUID_NULL E"
  from link_if[OF h3(2) plain_names(4), of ?o "refProxy vTypeInteger st 3"]
  obtain h4 where h4: "(if ?o then linkChild h3 n ''callOrigin'' (refProxy vTypeInteger st 3) else (h3, Inr ())) = (h4, Inr ())"
      "open_node h4 n {''callOrigin'', ''state'', ''value'', ''name''}" "extends h3 h4" "keeps h3 h4" by blast
  from link_if[OF h4(2) plain_names(5), of ?d "memberProxy st 4"]
  obtain h5 where h5: "(if ?d then linkChild h4 n ''originDeviceDSUID'' (memberProxy st 4) else (h4, Inr ())) = (h5, Inr ())"
      "open_node h5 n {''originDeviceDSUID'', ''callOrigin'', ''state'', ''value'', ''name''}"
      "extends h4 h5" "keeps h4 h5" by blast
  note e35 = extends_trans[OF h4(3) h5(3)] and k35 = keeps_trans[OF h4(4) h5(4)]
  note e25 = extends_trans[OF h3(3) e35] and k25 = keeps_trans[OF h3(4) k35]
  note e15 = extends_trans[OF h2(3) e25] and k15 = keeps_trans[OF h2(4) k25]
  note e = extends_trans[OF h1(3) e15] and k = keeps_trans[OF h1(4) k15]
  have "view_at h5 st n"
    using h5(2) shows_mono[OF h1(5) e15 k15] shows_mono[OF h2(5) e25 k25] shows_mono[OF h3(5) e35 k35]
      getProperty_extends[OF e _ _ path] p
    by (simp add: view_at_def open_node_def plain_state_def)
  moreover have "publishValues E st n h = (h5, Inr ())"
    unfolding publishValues_def by (simp only: h1(1) h2(1) h3(1) h4(1) h5(1) andThen_simps)
  ultimately show ?thesis using k h5(2) by (simp add: open_node_def)
qed

text \<open>A state that no device and no meter provides.\<close>

definition simple_state :: "State \<Rightarrow> bool" where
  "simple_state st \<longleftrightarrow> plain_state st \<and> m_providerDev st = None \<and> m_providerDsm st = None
     \<and> m_name st \<noteq> ''presence'' \<and> m_name st \<noteq> ''hibernation''"

lemma publish_view:
  assumes wf: "wf_tree (w_heap w)" "0 < nextId (w_heap w)" and inst: "hasInstance E"
    and st: "simple_state st" "m_pPropertyNode st = None" "synced (w_heap w) st"
    and new: "sysGetProperty (w_heap w) (statePath st) = Inr None"
  obtains w' n where "publishToPropertyTree E w st = (w', st\<lparr>m_pPropertyNode := Some n\<rparr>, None)"
    "view_at (w_heap w') st n" "synced (w_heap w') st" "w_files w' = w_files w" "w_events w' = w_events w"
    "w_nextEvent w' = w_nextEvent w"
proof -
  let ?h = "w_heap w" and ?q = "join (stateNames st) ''/''"
  have p: "plain_state st" "\<forall>a \<in> set (stateNames st). plain_name a"
    using st(1) by (simp_all add: simple_state_def plain_state_def)
  have ok: "tree_ok ?h" "dense ?h" "aliases_end ?h" using wf(1) by (simp_all add: wf_tree_def)
  have new': "getProperty ?h 0 ?q = Inr None" using new by (simp add: sysGetProperty_def statePath_names)
  obtain h1 n where h1: "createProperty ?h 0 ?q = (h1, Inr n)" "tree_ok h1" "dense h1" "extends ?h h1"
      "getProperty h1 0 ?q = Inr (Some n)"
    using createProperty_plain[OF stateNames_nonempty(1) p(2) ok wf(2)] by blast
  have n: "children h1 n = []" "m_AliasTarget (node h1 n) = None" "keeps ?h h1"
    using createProperty_fresh[OF stateNames_nonempty(1) p(2) wf new' h1(1)] by blast+
  have n1: "n < nextId h1" using createProperty_tree[OF h1(1) ok(1) wf(2)] by blast
  have wf1: "wf_tree h1" using wf_extends[OF h1(4,2,3) wf(1)] .
  have "open_node h1 n {}" using wf1 n1 n by (simp add: open_node_def childNamed_def)
  then obtain h2 where h2: "publishValues E st n h1 = (h2, Inr ())" "view_at h2 st n" "keeps h1 h2"
      "childNamed h2 n ''service'' = None"
    using publishValues_view[OF _ h1(5) p(1)] by blast
  have "\<exists>h3. publishService st n h2 = (h3, Inr ()) \<and> view_at h3 st n \<and> keeps h1 h3"
  proof (cases "m_serviceName st = []")
    case False
    have g: "wf_tree h2" "n < nextId h2" "m_AliasTarget (node h2 n) = None" using h2(2) by (simp_all add: view_at_def)
    have "getProperty h2 n (join [''service'', ''name''] ''/'') = Inr None"
      using getProperty_cons[of "''service''" "''name''" h2 n n "[]"] g(3) h2(4) by simp
    then obtain h3 where h3: "linkChild h2 n (join [''service'', ''name''] ''/'') (refProxy vTypeString st 7) = (h3, Inr ())"
        "wf_tree h3" "extends h2 h3" "keeps h2 h3"
      by (rule linkPath_new[rotated 4]) (use g in auto)
    then show ?thesis
      using False view_mono[OF h2(2) h3(2-4) p(1)] keeps_trans[OF h2(3) h3(4)] by (auto simp: publishService_def)
  qed (use h2 in \<open>simp add: publishService_def\<close>)
  then obtain h3 where h3: "publishService st n h2 = (h3, Inr ())" "view_at h3 st n" "keeps h1 h3" by blast
  have below: "publishBelow E st n h1 = (h3, Inr ())"
    using st(1) h2(1) h3(1)
    by (simp add: publishBelow_def publishCompat_def publishDevice_def publishMeter_def simple_state_def)
  have crt: "sysCreateProperty ?h (statePath st) = (h1, Inr (Some n))"
    using h1(1) by (simp add: sysCreateProperty_def statePath_names)
  have "publishToPropertyTree E w st = (w\<lparr>w_heap := h3\<rparr>, st\<lparr>m_pPropertyNode := Some n\<rparr>, None)"
    using st(2) inst new crt below by (simp add: publishToPropertyTree_def removeFromPropertyTree_def fails_def)
  moreover have "mem h3 = mem ?h" using n(3) h3(3) by (simp add: keeps_def)
  then have "synced h3 st" using st(3) by (simp add: synced_def)
  ultimately show thesis using that[of "w\<lparr>w_heap := h3\<rparr>" n] h3(2) by simp
qed

section \<open>Setting a state\<close>

definition state_inv :: "'r world \<Rightarrow> State \<Rightarrow> bool" where
  "state_inv w st \<longleftrightarrow> synced (w_heap w) st
     \<and> (\<forall>n. m_pPropertyNode st = Some n \<longrightarrow> view_at (w_heap w) st n \<and> plain_state st)"

lemma view_mem:
  assumes "view_at h st n" "plain_state st"
  shows "view_at (h\<lparr>mem := m\<rparr>) st n"
proof -
  have sh: "same_shape h (h\<lparr>mem := m\<rparr>)" by simp
  note e = same_shape_extends[OF sh]
  have "shows_proxy (h\<lparr>mem := m\<rparr>) n a p = shows_proxy h n a p" for a p
    using same_shape_childNamed[OF sh] by (simp add: shows_proxy_def)
  moreover have "wf_tree (h\<lparr>mem := m\<rparr>)"
    using wf_extends[OF e] same_shape_tree[OF sh] same_shape_dense[OF sh] assms(1)
    by (simp add: view_at_def wf_tree_def)
  ultimately show ?thesis
    using assms getProperty_extends[OF e] by (simp add: view_at_def plain_state_def)
qed

lemma view_value [simp]:
  "view_at h (st\<lparr>m_state := v, m_callOrigin := o'\<rparr>) n = view_at h st n"
  "plain_state (st\<lparr>m_state := v, m_callOrigin := o'\<rparr>) = plain_state st"
  by (simp_all add: view_at_def plain_state_def stateNames_def refProxy_def memberProxy_def cell_def)

lemma synced_sync [simp]: "synced (sync E st h) st"
  by (simp add: synced_def)

lemma synced_keeps: "keeps h h' \<Longrightarrow> synced h st \<Longrightarrow> synced h' st"
  by (simp add: synced_def keeps_def)

definition afterSet :: "senv \<Rightarrow> 'r timelib \<Rightarrow> int \<Rightarrow> State \<Rightarrow> u32 \<Rightarrow> u32 \<Rightarrow> 'r world \<Rightarrow> 'r world" where
  "afterSet E L now st oldstate origin w =
     (let w = (if m_persistency st = persistent then w\<lparr>w_files := save E st (w_files w)\<rparr> else w)
      in if hasInstance E \<and> ssRunning E then pushNew L now (createStateChangeEvent st oldstate origin) w else w)"

lemma afterSet_heap [simp]: "w_heap (afterSet E L now st old origin w) = w_heap w"
  by (simp add: afterSet_def pushNew_def Let_def)

lemma afterSet_files:
  "w_files (afterSet E L now st old origin w) =
     (if m_persistency st = persistent then save E st (w_files w) else w_files w)"
  by (simp add: afterSet_def pushNew_def Let_def)

text \<open>A new value: the tree, the file and the queue.\<close>

lemma setState_change:
  fixes origin x :: u32
  assumes inv: "state_inv w st" and ne: "x \<noteq> m_state st"
  defines "st' \<equiv> st\<lparr>m_state := x, m_callOrigin := origin\<rparr>"
  shows "\<exists>h'. setState E L now w st origin x
      = (afterSet E L now st' (m_state st) origin (w\<lparr>w_heap := h'\<rparr>), st', None)
    \<and> state_inv (w\<lparr>w_heap := h'\<rparr>) st'"
proof -
  let ?h = "sync E st' (w_heap w)"
  let ?r = "case m_pPropertyNode st' of
      Some n \<Rightarrow> if hasInstance E \<and> m_callOrigin st' \<noteq> coUnknown
                then linkChild ?h n ''callOrigin'' (refProxy vTypeInteger st' 3) else (?h, Inr ())
    | None \<Rightarrow> (?h, Inr ())"
  have "\<exists>h'. ?r = (h', Inr ()) \<and> state_inv (w\<lparr>w_heap := h'\<rparr>) st'"
  proof (cases "m_pPropertyNode st'")
    case None
    then show ?thesis by (simp add: state_inv_def)
  next
    case (Some n)
    then have n: "m_pPropertyNode st = Some n" "plain_state st" "view_at (w_heap w) st n"
      using inv by (simp_all add: state_inv_def st'_def)
    then have v': "view_at ?h st' n" using view_mem[OF n(3,2)] by (simp add: st'_def sync_def)
    show ?thesis
    proof (cases "hasInstance E \<and> m_callOrigin st' \<noteq> coUnknown")
      case True
      have o: "wf_tree ?h" "n < nextId ?h" "m_AliasTarget (node ?h n) = None" using v' by (simp_all add: view_at_def)
      obtain h' where h': "linkChild ?h n ''callOrigin'' (refProxy vTypeInteger st' 3) = (h', Inr ())" "wf_tree h'"
          "extends ?h h'" "keeps ?h h'"
        by (rule linkChild_any[OF o plain_names(4)])
      have "view_at h' st' n" using view_mono[OF v' h'(2-4)] n(2) by (simp add: st'_def)
      then show ?thesis using Some True h' synced_keeps[OF h'(4) synced_sync] n(2)
        by (simp add: state_inv_def st'_def)
    next
      case False
      then have "?r = (?h, Inr ())" using Some by auto
      moreover have "state_inv (w\<lparr>w_heap := ?h\<rparr>) st'" using Some v' n(1,2) by (simp add: state_inv_def st'_def)
      ultimately show ?thesis by blast
    qed
  qed
  then obtain h' where h': "?r = (h', Inr ())" "state_inv (w\<lparr>w_heap := h'\<rparr>) st'" by blast
  then have "setState E L now w st origin x
      = (afterSet E L now st' (m_state st) origin (w\<lparr>w_heap := h'\<rparr>), st', None)"
    using ne unfolding setState_def st'_def[symmetric] Let_def by (simp add: afterSet_def Let_def)
  then show ?thesis using h'(2) by blast
qed

lemma state_inv_heap: "w_heap w' = w_heap w \<Longrightarrow> state_inv w' st = state_inv w st"
  by (simp add: state_inv_def)

lemma setState_inv:
  assumes "state_inv w st"
  shows "\<exists>w' o'. setState E L now w st origin value = (w', st\<lparr>m_state := value, m_callOrigin := o'\<rparr>, None)
    \<and> state_inv w' (st\<lparr>m_state := value, m_callOrigin := o'\<rparr>)"
proof (cases "value = m_state st")
  case True
  then show ?thesis using assms by (intro exI[of _ w] exI[of _ "m_callOrigin st"]) (simp add: setState_def)
next
  case False
  from setState_change[OF assms False] show ?thesis
    using state_inv_heap[OF afterSet_heap] by fastforce
qed

text \<open>A sequence of changes.\<close>

fun setStates :: "senv \<Rightarrow> 'r timelib \<Rightarrow> int \<Rightarrow> 'r sres \<Rightarrow> (u32 \<times> u32) list \<Rightarrow> 'r sres" where
  "setStates E L now r [] = r"
| "setStates E L now r ((origin, x) # cs) =
     (case r of
        (w, st, Some e) \<Rightarrow> r
      | (w, st, None) \<Rightarrow> setStates E L now (setState E L now w st origin x) cs)"

lemma setStates_inv:
  "state_inv w st \<Longrightarrow> \<exists>w' o'. setStates E L now (w, st, None) cs
      = (w', st\<lparr>m_state := last (m_state st # map snd cs), m_callOrigin := o'\<rparr>, None)
    \<and> state_inv w' (st\<lparr>m_state := last (m_state st # map snd cs), m_callOrigin := o'\<rparr>)"
proof (induction cs arbitrary: w st)
  case Nil
  then show ?case by (intro exI[of _ w] exI[of _ "m_callOrigin st"]) simp
next
  case (Cons c cs)
  obtain origin x where c: "c = (origin, x)" by fastforce
  obtain w1 o1 where s: "setState E L now w st origin x = (w1, st\<lparr>m_state := x, m_callOrigin := o1\<rparr>, None)"
      "state_inv w1 (st\<lparr>m_state := x, m_callOrigin := o1\<rparr>)"
    using setState_inv[OF Cons.prems] by blast
  from Cons.IH[OF s(2)] show ?case using c s(1) by simp
qed

lemma load_fields [simp]:
  "m_name (load E f st) = m_name st" "m_type (load E f st) = m_type st" "m_serviceName (load E f st) = m_serviceName st"
  "m_pPropertyNode (load E f st) = m_pPropertyNode st" "m_providerDev (load E f st) = m_providerDev st"
  "m_providerDsm (load E f st) = m_providerDsm st" "m_persistency (load E f st) = m_persistency st"
  "m_values (load E f st) = m_values st" "s_this (load E f st) = s_this st"
  by (simp_all add: load_def Let_def split: option.split list.split)

lemma simple_load [simp]:
  "stateNames (load E f st) = stateNames st" "simple_state (load E f st) = simple_state st"
  "statePath (load E f st) = statePath st"
  by (simp_all add: simple_state_def plain_state_def statePath_names) (simp_all add: stateNames_def)


definition exampleEnv :: senv where
  "exampleEnv = \<lparr>hasInstance = True, ssRunning = True, savedPropsDirectory = ''/s'', canWrite = (\<lambda>_. True),
     DSUID_NULL = replicate 17 0\<rparr>"

definition exampleWorld :: "nat world" where
  "exampleWorld = \<lparr>w_heap = emptySystem, w_files = Map.empty, w_events = exampleEvents, w_nextEvent = 1\<rparr>"

definition exampleState :: State where
  "exampleState = blankState exampleEnv 0 0 ''rain'' StateType_Apartment st_Inactive persistent"

lemma exampleState_simple: "simple_state exampleState" "m_pPropertyNode exampleState = None"
  by (simp_all add: simple_state_def exampleState_def blankState_def plain_state_def stateNames_def plain_name_def)

lemma exampleWorld_tree: "wf_tree (w_heap exampleWorld)" "0 < nextId (w_heap exampleWorld)"
  using tree_ok_empty empty_facts by (simp_all add: wf_tree_def exampleWorld_def)


text \<open>The example state before it is published.\<close>

definition syncedWorld :: "nat world" where
  "syncedWorld = resync exampleEnv exampleWorld exampleState"

lemma exampleState_inv: "state_inv syncedWorld exampleState"
  by (simp add: state_inv_def syncedWorld_def resync_def exampleState_simple(2))

section \<open>The file\<close>

lemma loadDSUID_all:
  "length dsuid = length null \<Longrightarrow> i \<le> length null \<Longrightarrow> length bs = length null - i \<Longrightarrow>
     loadDSUID null i dsuid bs = take i dsuid @ bs"
proof (induction bs arbitrary: i dsuid)
  case (Cons b bs)
  then have "i < length null" by simp
  then show ?case using Cons by (simp add: upd_conv_take_nth_drop)
qed simp

text \<open>
  C33: Setting a persistent state writes a file from which any object with the same name restores
  the state, the origin and the dSUID of the origin device.  One byte is written for the value and
  one for the origin, so that values from 256 on come back changed.
\<close>

theorem state_survives_restart:
  assumes inv: "state_inv w st" and p: "m_persistency st = persistent" and ne: "x \<noteq> m_state st"
    and wr: "canWrite E (c_str (getStorageName E st))" and name: "m_name st0 = m_name st"
    and len: "length (m_originDeviceDSUID st) = length (DSUID_NULL E)" "length (m_originDeviceDSUID st0) = length (DSUID_NULL E)"
  shows "\<exists>w' st'. setState E L now w st origin x = (w', st', None)
    \<and> load E (w_files w') st0 =
        st0\<lparr>m_state := x mod 256, m_callOrigin := origin mod 256, m_originDeviceDSUID := m_originDeviceDSUID st\<rparr>"
proof -
  let ?st = "st\<lparr>m_state := x, m_callOrigin := origin\<rparr>"
  obtain h' where run: "setState E L now w st origin x
      = (afterSet E L now ?st (m_state st) origin (w\<lparr>w_heap := h'\<rparr>), ?st, None)"
    using setState_change[OF inv ne] by blast
  have path: "getStorageName E st0 = getStorageName E st" "getStorageName E ?st = getStorageName E st"
    using name by (simp_all add: getStorageName_def)
  have cut: "(ucast (ucast y :: u8) :: u32) = y mod 256" for y :: u32
  proof -
    have "(ucast (ucast y :: u8) :: u32) = take_bit 8 y"
      by (rule bit_word_eqI) (auto simp: bit_simps)
    then show ?thesis by (simp add: take_bit_eq_mod)
  qed
  have "w_files (afterSet E L now ?st (m_state st) origin (w\<lparr>w_heap := h'\<rparr>)) (c_str (getStorageName E st))
      = Some (ucast x # ucast origin # m_originDeviceDSUID st)"
    using p wr len(1) by (simp add: afterSet_files save_def path)
  then show ?thesis
    using run loadDSUID_all[OF len(2), of 0 "m_originDeviceDSUID st"] len(1) cut by (simp add: load_def path)
qed

theorem state_survives_restart_witness:
  "\<exists>w' st'. setState exampleEnv noTimes 1000 syncedWorld exampleState 7 258 = (w', st', None)
    \<and> load exampleEnv (w_files w') exampleState = exampleState\<lparr>m_state := 2, m_callOrigin := 7\<rparr>"
proof -
  have "\<exists>w' st'. setState exampleEnv noTimes 1000 syncedWorld exampleState 7 258 = (w', st', None)
    \<and> load exampleEnv (w_files w') exampleState = exampleState\<lparr>m_state := 258 mod 256, m_callOrigin := 7 mod 256,
        m_originDeviceDSUID := m_originDeviceDSUID exampleState\<rparr>"
    by (rule state_survives_restart[OF exampleState_inv])
       (simp_all add: exampleState_def blankState_def exampleEnv_def state_consts)
  then show ?thesis by simp
qed

section \<open>Events\<close>

lemma setState_pushes:
  fixes origin x :: u32
  assumes inv: "state_inv w st" and E: "hasInstance E" "ssRunning E" and ne: "x \<noteq> m_state st"
  defines "st' \<equiv> st\<lparr>m_state := x, m_callOrigin := origin\<rparr>"
  shows "\<exists>w'. setState E L now w st origin x = (w', st', None) \<and> w_events w' =
      (w_events w)\<lparr>store_of := (store_of (w_events w))(w_nextEvent w := createStateChangeEvent st' (m_state st) origin),
        m_EventQueue := m_EventQueue (w_events w) @ [w_nextEvent w]\<rparr>"
proof -
  let ?e = "createStateChangeEvent st' (m_state st) origin"
  obtain h' where run: "setState E L now w st origin x
      = (afterSet E L now st' (m_state st) origin (w\<lparr>w_heap := h'\<rparr>), st', None)"
    using setState_change[OF inv ne] unfolding st'_def by blast
  have plain: "scheduleFromEvent L now ?e = None" "\<not> isUnique ?e"
    by (simp_all add: scheduleFromEvent_def isUnique_def createStateChangeEvent_def Let_def newStateEvent_def
        newEventAt_def setProperty_def hasPropertySet_def evGet_def prop_has_def prop_set_def prop_get_default_def)
  have "w_events (afterSet E L now st' (m_state st) origin (w\<lparr>w_heap := h'\<rparr>)) =
      (w_events w)\<lparr>store_of := (store_of (w_events w))(w_nextEvent w := ?e),
        m_EventQueue := m_EventQueue (w_events w) @ [w_nextEvent w]\<rparr>"
    using E plain by (simp add: afterSet_def pushNew_def Let_def pushEvent_def enqueue_def)
  then show ?thesis using run by blast
qed

text \<open>
  A change of the value pushes exactly one event, at the end of the queue, that carries the
  name of the state, the new value with its name, the old value and the origin; setting the value
  the state has already does nothing at all.
\<close>

theorem state_change_event:
  assumes inv: "state_inv w st" and E: "hasInstance E" "ssRunning E"
  shows "\<exists>w' st' e. setState E L now w st origin x = (w', st', None) \<and> m_state st' = x
    \<and> (if x = m_state st then w' = w \<and> st' = st
       else m_EventQueue (w_events w') = m_EventQueue (w_events w) @ [w_nextEvent w]
         \<and> m_ScheduledEvents (w_events w') = m_ScheduledEvents (w_events w)
         \<and> store_of (w_events w') = (store_of (w_events w))(w_nextEvent w := e)
         \<and> m_EventName e = (if m_type st = StateType_Script then ''addonStateChange'' else ''stateChange'')
         \<and> m_RaisedAtState e = Some (s_this st)
         \<and> evGet e ''statename'' = m_name st \<and> evGet e ''state'' = toString st'
         \<and> evGet e ''value'' = int32ToString x \<and> evGet e ''oldvalue'' = int32ToString (m_state st)
         \<and> evGet e ''callOrigin'' = int32ToString origin)"
proof (cases "x = m_state st")
  case True
  then show ?thesis by (simp add: setState_def)
next
  case False
  let ?st = "st\<lparr>m_state := x, m_callOrigin := origin\<rparr>"
  let ?e = "createStateChangeEvent ?st (m_state st) origin"
  obtain w' where run: "setState E L now w st origin x = (w', ?st, None)" and ev: "w_events w' =
      (w_events w)\<lparr>store_of := (store_of (w_events w))(w_nextEvent w := ?e),
        m_EventQueue := m_EventQueue (w_events w) @ [w_nextEvent w]\<rparr>"
    using setState_pushes[OF inv E False] by blast
  have "m_EventName ?e = (if m_type st = StateType_Script then ''addonStateChange'' else ''stateChange'')"
      "m_RaisedAtState ?e = Some (s_this st)"
      "evGet ?e ''statename'' = m_name st" "evGet ?e ''state'' = toString ?st" "evGet ?e ''value'' = int32ToString x"
      "evGet ?e ''oldvalue'' = int32ToString (m_state st)" "evGet ?e ''callOrigin'' = int32ToString origin"
    by (simp_all add: createStateChangeEvent_def Let_def newStateEvent_def newEventAt_def setProperty_def evGet_def
        prop_has_def prop_set_def prop_get_default_def getState_def prop_get_def)
  then show ?thesis
    using run ev False by (intro exI[of _ w'] exI[of _ ?st] exI[of _ ?e]) simp
qed

theorem state_change_event_witness:
  "\<exists>w' st'. setState exampleEnv noTimes 1000 syncedWorld exampleState 7 1 = (w', st', None)
    \<and> m_EventQueue (w_events w') = [0, 1] \<and> evGet (store_of (w_events w') 1) ''state'' = ''active''"
proof -
  have E: "hasInstance exampleEnv" "ssRunning exampleEnv" by (simp_all add: exampleEnv_def)
  have q: "m_EventQueue (w_events syncedWorld) = [0]" "w_nextEvent syncedWorld = 1"
    by (simp_all add: syncedWorld_def resync_def exampleWorld_def exampleEvents_def)
  have st: "m_state exampleState = 2" "m_values exampleState = []"
    by (simp_all add: exampleState_def blankState_def state_consts)
  from state_change_event[OF exampleState_inv E, of noTimes 1000 7 1] setState_inv[OF exampleState_inv, of exampleEnv noTimes 1000 7 1]
  show ?thesis using q st by (auto simp: toString_def state_consts)
qed

section \<open>Value names\<close>

lemma toString_find:
  assumes "m_values st \<noteq> []" "length (m_values st) < 2 ^ 31" "find_index (\<lambda>v. v = name) (m_values st) = Some i"
  shows "toString (st\<lparr>m_state := word_of_nat i\<rparr>) = name"
proof -
  have i: "i < length (m_values st)" "m_values st ! i = name"
    using find_index_Some_bound[OF assms(3)] find_index_Some_nth[OF assms(3)] by simp_all
  have "sint (word_of_nat i :: u32) = int i"
    using i(1) assms(2) by (simp add: signed_of_nat signed_take_bit_int_eq_self)
  then show ?thesis using assms(1) i by (simp add: toString_def)
qed

lemma sint_small: "uint x < 2 ^ 31 \<Longrightarrow> sint (x :: u32) = uint x"
proof -
  assume "uint x < 2 ^ 31"
  moreover have "- (2 ^ 31) \<le> uint x" by (rule order_trans[of _ 0]) simp_all
  ultimately show "sint x = uint x" unfolding sint_uint by (simp add: signed_take_bit_int_eq_self)
qed

lemma find_index_distinct: "distinct xs \<Longrightarrow> i < length xs \<Longrightarrow> find_index (\<lambda>v. v = xs ! i) xs = Some i"
proof (induction xs arbitrary: i)
  case (Cons x xs)
  then show ?case by (cases i) (auto simp: nth_mem)
qed simp

text \<open>
  Value names and values agree: a name that is recognised stands for the value that is printed
  as this name, and a value inside the range is printed as a name that is read back as the value,
  when the custom names are distinct.
\<close>

theorem state_names_roundtrip:
  assumes "length (m_values st) < 2 ^ 31"
  shows "(\<forall>name x. tryValueFromName st name = Some x \<longrightarrow> toString (st\<lparr>m_state := x\<rparr>) = name)
    \<and> (distinct (m_values st) \<and> m_state st < getValueRangeSize st \<longrightarrow>
         tryValueFromName st (toString st) = Some (m_state st))"
proof (intro conjI allI impI)
  fix name x assume t: "tryValueFromName st name = Some x"
  show "toString (st\<lparr>m_state := x\<rparr>) = name"
  proof (cases "m_values st = []")
    case True
    then show ?thesis using t
      by (auto simp: tryValueFromName_def toString_def state_consts INVALID_def split: if_splits)
  next
    case False
    then show ?thesis using t toString_find[OF False assms] by (auto simp: tryValueFromName_def)
  qed
next
  assume a: "distinct (m_values st) \<and> m_state st < getValueRangeSize st"
  show "tryValueFromName st (toString st) = Some (m_state st)"
  proof (cases "m_values st = []")
    case True
    then have "m_state st < 4" using a by (simp add: getValueRangeSize_def state_consts)
    then have "m_state st \<in> {0, 1, 2, 3}" by (simp add: word_less_nat_alt unat_arith_simps) arith
    then show ?thesis
      using True by (auto simp: tryValueFromName_def toString_def state_consts INVALID_def)
  next
    case False
    then have "uint (m_state st) < int (length (m_values st))"
      using a assms by (simp add: getValueRangeSize_def word_less_def unsigned_of_nat take_bit_nat_eq_self)
    then have i: "int (unat (m_state st)) < int (length (m_values st))" by simp
    have b: "unat (m_state st) < length (m_values st)" using i by (rule of_nat_less_imp_less)
    have "int (length (m_values st)) < 2 ^ 31" using assms by simp
    then have u: "uint (m_state st) < 2 ^ 31" using i unfolding uint_nat by (rule less_trans[rotated])
    have "toString st = m_values st ! unat (m_state st)"
      using False i sint_small[OF u] by (simp add: toString_def)
    then show ?thesis using False b a by (simp add: tryValueFromName_def find_index_distinct)
  qed
qed

theorem state_names_roundtrip_witness:
  "toString (exampleState\<lparr>m_values := [''dry'', ''wet''], m_state := 1\<rparr>) = ''wet''
   \<and> tryValueFromName (exampleState\<lparr>m_values := [''dry'', ''wet''], m_state := 1\<rparr>) ''wet'' = Some 1"
proof -
  let ?st = "exampleState\<lparr>m_values := [''dry'', ''wet''], m_state := 1\<rparr>"
  have "toString ?st = ''wet''" by (simp add: toString_def)
  then show ?thesis
    using state_names_roundtrip[of ?st] by (simp add: getValueRangeSize_def)
qed

section \<open>Sensor states\<close>

text \<open>The abstract automaton.\<close>

definition sensorSpec :: "bool \<Rightarrow> bool \<Rightarrow> u32 \<Rightarrow> u32" where
  "sensorSpec act deact s =
     (if act \<and> deact then st_Unknown else if act then st_Active
      else if deact \<and> s = st_Active then st_Inactive else s)"

lemma setState_same: "setState E L now w st origin (m_state st) = (w, st, None)"
  by (simp add: setState_def)

text \<open>Each value is one step of the automaton.\<close>

lemma newValue_setState:
  "newValue E L now w sn origin d =
     (case setState E L now w (ss_state sn) origin
        (sensorSpec (condition (m_activateComparator sn) (m_activateValue sn) d)
           (condition (m_deactivateComparator sn) (m_deactivateValue sn) d) (m_state (ss_state sn))) of
      (w', st', r) \<Rightarrow> (w', sn\<lparr>ss_state := st'\<rparr>, r))"
proof -
  define act where "act = condition (m_activateComparator sn) (m_activateValue sn) d"
  define deact where "deact = condition (m_deactivateComparator sn) (m_deactivateValue sn) d"
  show ?thesis
    unfolding newValue_def getState_def Let_def act_def[symmetric] deact_def[symmetric]
    using setState_same[of E L now w "ss_state sn" origin]
    by (cases act; cases deact; cases "m_state (ss_state sn) = st_Active") (simp_all add: sensorSpec_def)
qed

fun newValues ::
    "senv \<Rightarrow> 'r timelib \<Rightarrow> int \<Rightarrow> u32 \<Rightarrow> 'r world \<times> StateSensor \<times> perror option \<Rightarrow> u64 list
       \<Rightarrow> 'r world \<times> StateSensor \<times> perror option" where
  "newValues E L now origin r [] = r"
| "newValues E L now origin r (d # ds) =
     (case r of
        (w, sn, Some e) \<Rightarrow> r
      | (w, sn, None) \<Rightarrow> newValues E L now origin (newValue E L now w sn origin d) ds)"

text \<open>The sequence refines runs of the automaton.\<close>

lemma newValues_spec:
  "state_inv w (ss_state sn) \<Longrightarrow> \<exists>w' st'. newValues E L now origin (w, sn, None) ds = (w', sn\<lparr>ss_state := st'\<rparr>, None)
     \<and> m_state st' = foldl (\<lambda>s d. sensorSpec (condition (m_activateComparator sn) (m_activateValue sn) d)
          (condition (m_deactivateComparator sn) (m_deactivateValue sn) d) s) (m_state (ss_state sn)) ds"
proof (induction ds arbitrary: w sn)
  case Nil
  show ?case by (intro exI[of _ w] exI[of _ "ss_state sn"]) simp
next
  case (Cons d ds)
  let ?x = "sensorSpec (condition (m_activateComparator sn) (m_activateValue sn) d)
          (condition (m_deactivateComparator sn) (m_deactivateValue sn) d) (m_state (ss_state sn))"
  obtain w1 o1 where v: "setState E L now w (ss_state sn) origin ?x = (w1, (ss_state sn)\<lparr>m_state := ?x, m_callOrigin := o1\<rparr>, None)"
      "state_inv w1 ((ss_state sn)\<lparr>m_state := ?x, m_callOrigin := o1\<rparr>)"
    using setState_inv[OF Cons.prems] by blast
  from Cons.IH[of w1 "sn\<lparr>ss_state := (ss_state sn)\<lparr>m_state := ?x, m_callOrigin := o1\<rparr>\<rparr>"] v
  show ?case by (simp add: newValue_setState)
qed

text \<open>
  A sensor state with an upper threshold to activate and a lower one, not above it, to
  deactivate is a hysteresis: after any sequence of values it is active if and only if the last
  value outside the band was above the upper threshold, or all values were inside the band and it
  was active before.
\<close>

theorem sensor_hysteresis:
  assumes inv: "state_inv w (ss_state sn)"
    and cmp: "m_activateComparator sn = eComp_higher" "m_deactivateComparator sn = eComp_lower"
    and band: "dbl_ord (m_deactivateValue sn) \<le> dbl_ord (m_activateValue sn)"
  shows "\<exists>w' sn'. newValues E L now origin (w, sn, None) ds = (w', sn', None)
    \<and> (m_state (ss_state sn') = st_Active \<longleftrightarrow>
        (let above = dbl_less (m_activateValue sn); below = (\<lambda>d. dbl_less d (m_deactivateValue sn));
             out = filter (\<lambda>d. above d \<or> below d) ds
         in if out = [] then m_state (ss_state sn) = st_Active else above (last out)))"
proof -
  let ?a = "dbl_less (m_activateValue sn)" and ?b = "\<lambda>d. dbl_less d (m_deactivateValue sn)"
  have disj: "\<not> (?a d \<and> ?b d)" for d using band by (auto simp: dbl_less_def)
  have ne: "st_Inactive \<noteq> st_Active" "st_Unknown \<noteq> st_Active" by (simp_all add: state_consts)
  have step: "sensorSpec (?a d) (?b d) s = st_Active \<longleftrightarrow> ?a d \<or> \<not> ?b d \<and> s = st_Active" for d s
    using disj[of d] ne by (auto simp: sensorSpec_def)
  have "foldl (\<lambda>s d. sensorSpec (?a d) (?b d) s) s ds = st_Active \<longleftrightarrow>
      (let out = filter (\<lambda>d. ?a d \<or> ?b d) ds in if out = [] then s = st_Active else ?a (last out))" for s
    using disj by (induction ds rule: rev_induct) (auto simp: step Let_def)
  then show ?thesis using newValues_spec[OF inv, of E L now origin ds] cmp by (fastforce simp: Let_def)
qed

definition exampleSensor :: StateSensor where
  "exampleSensor = \<lparr>ss_state = exampleState, m_activateComparator = eComp_higher, m_deactivateComparator = eComp_lower,
     m_activateValue = 0x4035000000000000, m_deactivateValue = 0x4033000000000000\<rparr>"

text \<open>The values are 22 and 20; the thresholds are 21 and 19.\<close>

theorem sensor_hysteresis_witness:
  "\<exists>w' sn'. newValues exampleEnv noTimes 1000 7 (syncedWorld, exampleSensor, None) [0x4036000000000000, 0x4034000000000000]
      = (w', sn', None) \<and> m_state (ss_state sn') = st_Active"
proof -
  have o: "dbl_less 0x4035000000000000 0x4036000000000000" "\<not> dbl_less 0x4035000000000000 0x4034000000000000"
      "\<not> dbl_less 0x4034000000000000 0x4033000000000000"
      "dbl_ord 0x4033000000000000 \<le> dbl_ord 0x4035000000000000"
    by code_simp+
  have inv: "state_inv syncedWorld (ss_state exampleSensor)" using exampleState_inv by (simp add: exampleSensor_def)
  from sensor_hysteresis[OF inv, of exampleEnv noTimes 1000 7 "[0x4036000000000000, 0x4034000000000000]"] o
  show ?thesis by (auto simp: exampleSensor_def)
qed

text \<open>
  The condition of a sensor state is a comparator and a number with a semicolon between them;
  a number that cannot be parsed counts as 0.  A text without a semicolon makes the code read a
  token that is not there.
\<close>

theorem sensor_conditions:
  assumes "plain_field (CHR '';'') c" "plain_field (CHR '';'') d" "d \<noteq> []"
  shows "parseCondition strtod (c @ '';'' @ d) =
      Some (case trim c of CHR ''>'' # _ \<Rightarrow> eComp_higher | CHR ''<'' # _ \<Rightarrow> eComp_lower | _ \<Rightarrow> eComp_undef,
            case strToDouble strtod (trim d) of Some x \<Rightarrow> x | None \<Rightarrow> 0)
    \<and> parseCondition strtod d = None"
proof -
  have "splitString (c @ '';'' @ d) (CHR '';'') True = [trim c, trim d]"
    using splitLoop_join[of "CHR '';''" "[c, d]" "[]" True] assms by (simp add: splitString_def)
  moreover have "splitString d (CHR '';'') True = [trim d]"
    using splitLoop_join[of "CHR '';''" "[d]" "[]" True] assms by (simp add: splitString_def)
  ultimately show ?thesis using assms(3) by (simp add: parseCondition_def Let_def split: list.split)
qed

theorem sensor_conditions_witness:
  "parseCondition (\<lambda>s. (7, length s)) ''>;21'' = Some (eComp_higher, 7) \<and> parseCondition (\<lambda>s. (7, length s)) ''21'' = None"
proof -
  have t: "trim ''>'' = ''>''" "trim ''21'' = ''21''" by code_simp+
  show ?thesis
    using sensor_conditions[of "''>''" "''21''" "\<lambda>s. (7, length s)"] t
    by (simp add: plain_field_def strToDouble_def c_str_def)
qed

end
