(* ===== verification/System_Condition.thy ===== *)
theory System_Condition
  imports Model_State
begin

text \<open>
  The conditions of triggers and scenes, \<^verbatim>\<open>src/src/systemcondition.cpp\<close>, with the class \<^verbatim>\<open>ICalEvent\<close>
  of \<^verbatim>\<open>src/src/datetools.cpp\<close> that they use for dates.  A check reads the property tree and gives
  an error, or whether the condition holds.  The clock is read once.  libical gives the occurrences
  of a rule, the first at number 0, as times on the local clock.  \<^verbatim>\<open>std::invalid_argument\<close> is the
  error \<open>StdLogicError\<close>.
\<close>

record cenv =
  c_dts :: "u64 \<Rightarrow> string"
  c_tz :: tzone
  c_now :: int
  c_recur :: "string \<Rightarrow> int \<Rightarrow> (nat \<Rightarrow> int option) option"

definition ebind :: "perror + 'a \<Rightarrow> ('a \<Rightarrow> perror + 'b) \<Rightarrow> perror + 'b" where
  "ebind r f = (case r of Inl e \<Rightarrow> Inl e | Inr x \<Rightarrow> f x)"

lemma ebind_simps [simp]: "ebind (Inl e) f = Inl e" "ebind (Inr x) f = f x"
  by (simp_all add: ebind_def)

text \<open>The check of one part and, when it holds, of the rest.\<close>

definition also_check :: "perror + bool \<Rightarrow> (unit \<Rightarrow> perror + bool) \<Rightarrow> perror + bool" where
  "also_check r rest = ebind r (\<lambda>b. if b then rest () else Inr False)"

definition parseInt :: "string \<Rightarrow> perror + u32" where
  "parseInt s = (case strToInt s of Inl _ \<Rightarrow> Inl StdLogicError | Inr i \<Rightarrow> Inr i)"

section \<open>Times of the day\<close>

text \<open>\<open>None\<close> leaves the variable of the caller as it is.  The sum is computed with 32 bits.\<close>

definition secondsFromHMS :: "string \<Rightarrow> perror + u32 option" where
  "secondsFromHMS s =
     (case splitString s (CHR '':'') False of
        [a, b, c] \<Rightarrow>
          ebind (parseInt a) (\<lambda>a. ebind (parseInt b) (\<lambda>b. ebind (parseInt c) (\<lambda>c.
            Inr (Some (a * 60 * 60 + b * 60 + c)))))
      | _ \<Rightarrow> Inr None)"

definition timeOfNode :: "cenv \<Rightarrow> pheap \<Rightarrow> u32 \<Rightarrow> nodeid option \<Rightarrow> perror + u32" where
  "timeOfNode C h dflt n =
     (case n of
        None \<Rightarrow> Inr dflt
      | Some n \<Rightarrow>
          ebind (getAsString (c_dts C) h n) (\<lambda>s. ebind (secondsFromHMS s) (\<lambda>t.
            Inr (case t of Some t \<Rightarrow> t | None \<Rightarrow> dflt))))"

definition checkTimeCondition :: "cenv \<Rightarrow> pheap \<Rightarrow> nodeid option \<Rightarrow> nodeid option \<Rightarrow> u32 \<Rightarrow> perror + bool" where
  "checkTimeCondition C h timeStartNode timeEndNode secNow =
     ebind (timeOfNode C h 0 timeStartNode) (\<lambda>startSinceMidnight.
     ebind (timeOfNode C h (24 * 60 * 60) timeEndNode) (\<lambda>endSinceMidnight.
     Inr (if startSinceMidnight < endSinceMidnight
          then \<not> (secNow < startSinceMidnight \<or> secNow > endSinceMidnight)
          else \<not> (secNow < startSinceMidnight \<and> secNow > endSinceMidnight))))"

section \<open>Calendar events\<close>

record ICalEvent =
  ie_rrule :: string
  ie_start :: int
  ie_duration :: int

definition localSeconds :: "tzone \<Rightarrow> DateTime \<Rightarrow> int" where
  "localSeconds Z d = tv_sec d + getTimezoneOffset Z d"

definition newICalEvent :: "tzone \<Rightarrow> string \<Rightarrow> string \<Rightarrow> string \<Rightarrow> perror + ICalEvent" where
  "newICalEvent Z rrule startDate endDate =
     (case parseRFC2445 Z startDate of
        None \<Rightarrow> Inl StdLogicError
      | Some s \<Rightarrow>
          (case parseRFC2445 Z endDate of
             None \<Rightarrow> Inl StdLogicError
           | Some e \<Rightarrow> Inr \<lparr>ie_rrule = c_str rrule, ie_start = localSeconds Z s,
                            ie_duration = localSeconds Z e - localSeconds Z s\<rparr>))"

text \<open>The loop over the occurrences; it does not end when they never pass the date.\<close>

partial_function (option) insideLoop :: "(nat \<Rightarrow> int option) \<Rightarrow> int \<Rightarrow> int \<Rightarrow> nat \<Rightarrow> bool option" where
  "insideLoop occ dur d i =
     (case occ i of
        None \<Rightarrow> Some False
      | Some r \<Rightarrow> if d < r then Some False
                  else if r \<le> d \<and> d \<le> r + dur then Some True
                  else insideLoop occ dur d (Suc i))"

definition isDateInside :: "cenv \<Rightarrow> ICalEvent \<Rightarrow> DateTime \<Rightarrow> perror + bool" where
  "isDateInside C ev date =
     (case c_recur C (ie_rrule ev) (ie_start ev) of
        None \<Rightarrow> Inr False
      | Some occ \<Rightarrow>
          (case insideLoop occ (ie_duration ev) (localSeconds (c_tz C) date) 0 of
             None \<Rightarrow> Inl Diverges
           | Some b \<Rightarrow> Inr b))"

section \<open>The parts of a condition\<close>

definition condEnabled :: "pheap \<Rightarrow> nodeid \<Rightarrow> perror + bool" where
  "condEnabled h base =
     ebind (getPropertyByName h base ''enabled'') (\<lambda>n.
       case n of None \<Rightarrow> Inr True | Some n \<Rightarrow> getBoolValue h n)"

text \<open>
  The loop over \<^verbatim>\<open>/usr/states\<close> for one required state: true goes on with the next required state,
  false is a return from the function.
\<close>

fun stateLoop :: "cenv \<Rightarrow> pheap \<Rightarrow> string \<Rightarrow> string \<Rightarrow> nodeid list \<Rightarrow> bool \<Rightarrow> perror + bool" where
  "stateLoop C h sName sValue [] fFound = Inr fFound"
| "stateLoop C h sName sValue (s # ss) fFound =
     ebind (getPropertyByName h s ''name'') (\<lambda>nameNode.
     ebind (getPropertyByName h s ''value'') (\<lambda>valueNode.
     ebind (getPropertyByName h s ''state'') (\<lambda>stateDescNode.
     case nameNode of
       None \<Rightarrow> stateLoop C h sName sValue ss fFound
     | Some nameNode \<Rightarrow>
         ebind (getStringValue h nameNode) (\<lambda>name.
         if sName \<noteq> name then stateLoop C h sName sValue ss fFound
         else if valueNode = None \<and> stateDescNode = None then stateLoop C h sName sValue ss True
         else
           ebind (case valueNode of None \<Rightarrow> Inr False
                  | Some v \<Rightarrow> ebind (getAsString (c_dts C) h v) (\<lambda>x. Inr (sValue = x))) (\<lambda>byValue.
           if byValue then Inr True
           else case stateDescNode of None \<Rightarrow> Inr False
                | Some d \<Rightarrow> ebind (getStringValue h d) (\<lambda>x. Inr (sValue = x)))))))"

fun statesLoop :: "cenv \<Rightarrow> pheap \<Rightarrow> nodeid list \<Rightarrow> nodeid list \<Rightarrow> perror + bool" where
  "statesLoop C h sys [] = Inr True"
| "statesLoop C h sys (c # cs) =
     ebind (getAsString (c_dts C) h c) (\<lambda>sValue.
     also_check (stateLoop C h (m_Name (node h c)) sValue sys False) (\<lambda>_. statesLoop C h sys cs))"

definition condStates :: "cenv \<Rightarrow> pheap \<Rightarrow> nodeid \<Rightarrow> perror + bool" where
  "condStates C h base =
     ebind (getPropertyByName h base ''states'') (\<lambda>oStateNode.
     ebind (sysGetProperty h ''/usr/states'') (\<lambda>oSystemStates.
     case (oStateNode, oSystemStates) of
       (Some st, Some sys) \<Rightarrow> statesLoop C h (getChildNodes h sys) (getChildNodes h st)
     | _ \<Rightarrow> Inr True))"

text \<open>The states of add-ons: all must match.\<close>

fun addonStateLoop :: "cenv \<Rightarrow> pheap \<Rightarrow> string \<Rightarrow> string \<Rightarrow> nodeid list \<Rightarrow> perror + bool" where
  "addonStateLoop C h sName sValue [] = Inr False"
| "addonStateLoop C h sName sValue (s # ss) =
     ebind (getPropertyByName h s ''name'') (\<lambda>nameNode.
     ebind (getPropertyByName h s ''value'') (\<lambda>valueNode.
     case (nameNode, valueNode) of
       (Some nameNode, Some valueNode) \<Rightarrow>
         ebind (getAsString (c_dts C) h nameNode) (\<lambda>name.
         if sName = name then ebind (getAsString (c_dts C) h valueNode) (\<lambda>x. Inr (sValue = x))
         else addonStateLoop C h sName sValue ss)
     | _ \<Rightarrow> addonStateLoop C h sName sValue ss))"

fun addonSubLoop :: "cenv \<Rightarrow> pheap \<Rightarrow> nodeid list \<Rightarrow> nodeid list \<Rightarrow> perror + bool" where
  "addonSubLoop C h sys [] = Inr True"
| "addonSubLoop C h sys (c # cs) =
     ebind (getAsString (c_dts C) h c) (\<lambda>sValue.
     also_check (addonStateLoop C h (m_Name (node h c)) sValue sys) (\<lambda>_. addonSubLoop C h sys cs))"

fun addonLoop :: "cenv \<Rightarrow> pheap \<Rightarrow> nodeid list \<Rightarrow> perror + bool" where
  "addonLoop C h [] = Inr True"
| "addonLoop C h (a # as) =
     ebind (sysGetProperty h (''/usr/addon-states/'' @ m_Name (node h a))) (\<lambda>sys.
     case sys of
       None \<Rightarrow> Inr False
     | Some sys \<Rightarrow>
         also_check (addonSubLoop C h (getChildNodes h sys) (getChildNodes h a)) (\<lambda>_. addonLoop C h as))"

definition condAddonStates :: "cenv \<Rightarrow> pheap \<Rightarrow> nodeid \<Rightarrow> perror + bool" where
  "condAddonStates C h base =
     ebind (getPropertyByName h base ''addon-states'') (\<lambda>n.
       case n of None \<Rightarrow> Inr True | Some n \<Rightarrow> addonLoop C h (getChildNodes h n))"

text \<open>The states of add-ons of which one must match; a loop gives whether it found one.\<close>

fun orStateLoop :: "cenv \<Rightarrow> pheap \<Rightarrow> string \<Rightarrow> string \<Rightarrow> nodeid list \<Rightarrow> perror + bool" where
  "orStateLoop C h sName sValue [] = Inr False"
| "orStateLoop C h sName sValue (s # ss) =
     ebind (getPropertyByName h s ''name'') (\<lambda>nameNode.
     ebind (getPropertyByName h s ''value'') (\<lambda>valueNode.
     case (nameNode, valueNode) of
       (Some nameNode, Some valueNode) \<Rightarrow>
         ebind (getAsString (c_dts C) h nameNode) (\<lambda>name.
         if sName = name then
           ebind (getAsString (c_dts C) h valueNode) (\<lambda>x.
             if sValue = x then Inr True else orStateLoop C h sName sValue ss)
         else orStateLoop C h sName sValue ss)
     | _ \<Rightarrow> orStateLoop C h sName sValue ss))"

fun orSubLoop :: "cenv \<Rightarrow> pheap \<Rightarrow> nodeid list \<Rightarrow> nodeid list \<Rightarrow> perror + bool" where
  "orSubLoop C h sys [] = Inr False"
| "orSubLoop C h sys (c # cs) =
     ebind (getAsString (c_dts C) h c) (\<lambda>sValue.
     ebind (orStateLoop C h (m_Name (node h c)) sValue sys) (\<lambda>found.
       if found then Inr True else orSubLoop C h sys cs))"

fun orLoop :: "cenv \<Rightarrow> pheap \<Rightarrow> nodeid list \<Rightarrow> perror + bool" where
  "orLoop C h [] = Inr False"
| "orLoop C h (a # as) =
     ebind (sysGetProperty h (''/usr/addon-states/'' @ m_Name (node h a))) (\<lambda>sys.
     case sys of
       None \<Rightarrow> orLoop C h as
     | Some sys \<Rightarrow>
         ebind (orSubLoop C h (getChildNodes h sys) (getChildNodes h a)) (\<lambda>found.
           if found then Inr True else orLoop C h as))"

definition condOrAddonStates :: "cenv \<Rightarrow> pheap \<Rightarrow> nodeid \<Rightarrow> perror + bool" where
  "condOrAddonStates C h base =
     ebind (getPropertyByName h base ''or-addon-states'') (\<lambda>n.
       case n of None \<Rightarrow> Inr True | Some n \<Rightarrow> orLoop C h (getChildNodes h n))"

text \<open>The last scene of a group; one of the zone states must match.\<close>

definition lastCalledScene :: "pheap \<Rightarrow> nodeid \<Rightarrow> perror + nodeid option" where
  "lastCalledScene h groupNode =
     ebind (getPropertyByName h groupNode ''lastCalledBasicScene'') (\<lambda>n.
       case n of None \<Rightarrow> getPropertyByName h groupNode ''lastCalledScene'' | Some n \<Rightarrow> Inr (Some n))"

definition zoneMatches :: "cenv \<Rightarrow> pheap \<Rightarrow> nodeid \<Rightarrow> nodeid \<Rightarrow> nodeid \<Rightarrow> perror + bool" where
  "zoneMatches C h zoneNode groupNode sceneNode =
     ebind (getAsString (c_dts C) h zoneNode) (\<lambda>zone.
     ebind (getAsString (c_dts C) h groupNode) (\<lambda>group.
     ebind (sysGetProperty h (''/apartment/zones/zone'' @ zone @ ''/groups/group'' @ group)) (\<lambda>g.
     case g of
       None \<Rightarrow> Inr False
     | Some g \<Rightarrow>
         ebind (lastCalledScene h g) (\<lambda>l.
         case l of
           None \<Rightarrow> Inr False
         | Some l \<Rightarrow>
             ebind (getAsString (c_dts C) h l) (\<lambda>x.
             ebind (getAsString (c_dts C) h sceneNode) (\<lambda>y. Inr (x = y)))))))"

fun zoneLoop :: "cenv \<Rightarrow> pheap \<Rightarrow> nodeid list \<Rightarrow> perror + bool" where
  "zoneLoop C h [] = Inr False"
| "zoneLoop C h (z # zs) =
     ebind (getPropertyByName h z ''zone'') (\<lambda>zoneNode.
     ebind (getPropertyByName h z ''group'') (\<lambda>groupNode.
     ebind (getPropertyByName h z ''scene'') (\<lambda>sceneNode.
     case (zoneNode, groupNode) of
       (Some zoneNode, Some groupNode) \<Rightarrow>
         (case sceneNode of
            None \<Rightarrow> zoneLoop C h zs
          | Some sceneNode \<Rightarrow>
              ebind (zoneMatches C h zoneNode groupNode sceneNode) (\<lambda>b.
                if b then Inr True else zoneLoop C h zs))
     | _ \<Rightarrow> Inr False)))"

definition condZoneStates :: "cenv \<Rightarrow> pheap \<Rightarrow> nodeid \<Rightarrow> perror + bool" where
  "condZoneStates C h base =
     ebind (getPropertyByName h base ''zone-states'') (\<lambda>n.
       case n of None \<Rightarrow> Inr True | Some n \<Rightarrow> zoneLoop C h (getChildNodes h n))"

fun weekdayLoop :: "int \<Rightarrow> string list \<Rightarrow> perror + bool" where
  "weekdayLoop today [] = Inr False"
| "weekdayLoop today (d # ds) =
     ebind (parseInt d) (\<lambda>i. if sint i = today then Inr True else weekdayLoop today ds)"

definition condWeekdays :: "cenv \<Rightarrow> pheap \<Rightarrow> nodeid \<Rightarrow> perror + bool" where
  "condWeekdays C h base =
     ebind (getPropertyByName h base ''weekdays'') (\<lambda>n.
     case n of
       None \<Rightarrow> Inr True
     | Some n \<Rightarrow>
         ebind (getAsString (c_dts C) h n) (\<lambda>s.
         if s = [] then Inr True
         else weekdayLoop (getWeekday (c_tz C) (atSecond (c_now C))) (splitString s (CHR '','') False)))"

definition secondOfDay :: "tzone \<Rightarrow> DateTime \<Rightarrow> u32" where
  "secondOfDay Z d = word_of_int ((getHour Z d * 60 + getMinute Z d) * 60 + getSecond Z d)"

definition condTime :: "cenv \<Rightarrow> pheap \<Rightarrow> nodeid \<Rightarrow> perror + bool" where
  "condTime C h base =
     ebind (getPropertyByName h base ''time-start'') (\<lambda>timeStartNode.
     ebind (getPropertyByName h base ''time-end'') (\<lambda>timeEndNode.
     if timeStartNode \<noteq> None \<or> timeEndNode \<noteq> None
     then checkTimeCondition C h timeStartNode timeEndNode (secondOfDay (c_tz C) (atSecond (c_now C)))
     else Inr True))"

text \<open>The test for the rule looks at the node of the end again, so a missing rule is a NULL pointer.\<close>

definition dateMatches :: "cenv \<Rightarrow> pheap \<Rightarrow> nodeid option \<Rightarrow> nodeid \<Rightarrow> nodeid \<Rightarrow> perror + bool" where
  "dateMatches C h rruleNode startNode endNode =
     (case rruleNode of
        None \<Rightarrow> Inl NullDeref
      | Some r \<Rightarrow>
          ebind (getAsString (c_dts C) h r) (\<lambda>rrule.
          ebind (getAsString (c_dts C) h startNode) (\<lambda>s.
          ebind (getAsString (c_dts C) h endNode) (\<lambda>e.
          ebind (newICalEvent (c_tz C) rrule s e) (\<lambda>ev. isDateInside C ev (atSecond (c_now C)))))))"

fun dateLoop :: "cenv \<Rightarrow> pheap \<Rightarrow> nodeid list \<Rightarrow> perror + bool" where
  "dateLoop C h [] = Inr False"
| "dateLoop C h (d # ds) =
     ebind (getPropertyByName h d ''start'') (\<lambda>dateStartNode.
     ebind (getPropertyByName h d ''end'') (\<lambda>dateEndNode.
     ebind (getPropertyByName h d ''rrule'') (\<lambda>dateRruleNode.
     case (dateStartNode, dateEndNode) of
       (Some s, Some e) \<Rightarrow>
         ebind (dateMatches C h dateRruleNode s e) (\<lambda>b. if b then Inr True else dateLoop C h ds)
     | _ \<Rightarrow> dateLoop C h ds)))"

definition condDate :: "cenv \<Rightarrow> pheap \<Rightarrow> nodeid \<Rightarrow> perror + bool" where
  "condDate C h base =
     ebind (getPropertyByName h base ''date'') (\<lambda>n.
       case n of None \<Rightarrow> Inr True | Some n \<Rightarrow> dateLoop C h (getChildNodes h n))"

section \<open>The whole condition\<close>

definition checkSystemCondition :: "cenv \<Rightarrow> pheap \<Rightarrow> string \<Rightarrow> perror + bool" where
  "checkSystemCondition C h path =
     ebind (sysGetProperty h (path @ ''/conditions'')) (\<lambda>n.
     case n of
       None \<Rightarrow> Inr True
     | Some base \<Rightarrow>
         also_check (condEnabled h base) (\<lambda>_.
         also_check (condStates C h base) (\<lambda>_.
         also_check (condAddonStates C h base) (\<lambda>_.
         also_check (condOrAddonStates C h base) (\<lambda>_.
         also_check (condZoneStates C h base) (\<lambda>_.
         also_check (condWeekdays C h base) (\<lambda>_.
         also_check (condTime C h base) (\<lambda>_.
         condDate C h base))))))))"

end
