(* ===== verification/System_Trigger.thy ===== *)
theory System_Trigger
  imports System_Condition Event_Interpreter
begin

text \<open>
  The handler that relays events to triggers, \<^verbatim>\<open>src/src/handler/system_triggers.cpp\<close>, with the base
  class of \<^verbatim>\<open>src/src/handler/system_handlers.cpp\<close>.

  The checks read the property tree.  Damping, rescheduling and relaying change the \<open>world\<close> of
  \<open>Model_State\<close>: the tree, and the queue and the runner of events.  The clock is read once in a
  run.  Logging and the login as system user are not modelled.
\<close>

section \<open>The handler object\<close>

text \<open>
  What is not the program's own: \<^verbatim>\<open>dsuid_from_string\<close> and \<^verbatim>\<open>DSUID_NULL\<close> of libdsuid, \<^verbatim>\<open>strtod\<close>, and the
  content of a local variable of type \<^verbatim>\<open>dsuid_t\<close> before it is written.
\<close>

record tenv = cenv +
  t_hasInstance :: bool
  t_dsuid_from_string :: "string \<Rightarrow> u8 list option"
  t_DSUID_NULL :: "u8 list"
  t_strtod :: "string \<Rightarrow> u64 \<times> nat"
  t_garbage :: "u8 list"

text \<open>What the handler reads of groups and devices.\<close>

record groupInfo =
  g_zoneID :: u32
  g_ID :: u32

record deviceInfo =
  d_zoneID :: u32
  d_DSID :: "u8 list"

record apartmentInfo =
  a_groups :: "nat \<rightharpoonup> groupInfo"
  a_broadcast :: groupInfo
  a_devices :: "nat \<rightharpoonup> deviceInfo"

record SystemTrigger =
  m_evtName :: string
  m_evtRaiseLocation :: EventRaiseLocation
  m_properties :: properties
  m_evtSrcIsGroup :: bool
  m_evtSrcIsDevice :: bool
  m_evtSrcZone :: u32
  m_evtSrcGroup :: u32
  m_evtSrcDSID :: "u8 list"

definition newSystemEvent :: "tenv \<Rightarrow> event \<Rightarrow> SystemTrigger" where
  "newSystemEvent V e =
     \<lparr>m_evtName = m_EventName e, m_evtRaiseLocation = m_RaiseLocation e, m_properties = m_EventProperties e,
      m_evtSrcIsGroup = False, m_evtSrcIsDevice = False, m_evtSrcZone = 0, m_evtSrcGroup = 0,
      m_evtSrcDSID = t_garbage V\<rparr>"

text \<open>\<^verbatim>\<open>Event::getRaisedAtGroup\<close> for the two locations at which the handler uses it.\<close>

definition getRaisedAtGroup :: "apartmentInfo \<Rightarrow> event \<Rightarrow> groupInfo option" where
  "getRaisedAtGroup A e =
     (if m_RaiseLocation e = erlGroup then Option.bind (m_RaisedAtGroup e) (a_groups A) else Some (a_broadcast A))"

definition newSystemTrigger :: "tenv \<Rightarrow> apartmentInfo \<Rightarrow> event \<Rightarrow> perror + SystemTrigger" where
  "newSystemTrigger V A e =
     (let T = newSystemEvent V e
      in case m_RaiseLocation e of
           erlState \<Rightarrow> Inr T
         | erlDevice \<Rightarrow>
             (case Option.bind (m_RaisedAtDevice e) (a_devices A) of
                None \<Rightarrow> Inl NullDeref
              | Some d \<Rightarrow> Inr (T\<lparr>m_evtSrcIsDevice := True, m_evtSrcZone := d_zoneID d, m_evtSrcDSID := d_DSID d\<rparr>))
         | loc \<Rightarrow>
             (case getRaisedAtGroup A e of
                None \<Rightarrow> Inl NullDeref
              | Some g \<Rightarrow> Inr (T\<lparr>m_evtSrcIsGroup := (loc = erlGroup), m_evtSrcZone := g_zoneID g,
                                 m_evtSrcGroup := g_ID g\<rparr>)))"

section \<open>Helpers\<close>

text \<open>\<^verbatim>\<open>m_properties.get(key)\<close> throws \<^verbatim>\<open>std::runtime_error\<close> for a missing key.\<close>

definition propGet :: "SystemTrigger \<Rightarrow> string \<Rightarrow> perror + string" where
  "propGet T k =
     (case prop_get (m_properties T) k of Inl _ \<Rightarrow> Inl (StdRuntimeError k) | Inr s \<Rightarrow> Inr s)"

text \<open>\<^verbatim>\<open>str2dsuid\<close> as the conditions call it: its exception is a \<^verbatim>\<open>std::runtime_error\<close>.\<close>

definition parseDSUID :: "tenv \<Rightarrow> string \<Rightarrow> perror + u8 list" where
  "parseDSUID V s =
     (case str2dsuid (t_dsuid_from_string V) s of
        Inl (RuntimeError e) \<Rightarrow> Inl (StdRuntimeError e)
      | Inl (InvalidArgument e) \<Rightarrow> Inl StdLogicError
      | Inr d \<Rightarrow> Inr d)"

definition parseDouble :: "tenv \<Rightarrow> string \<Rightarrow> perror + u64" where
  "parseDouble V s = (case strToDouble (t_strtod V) s of None \<Rightarrow> Inl StdLogicError | Some d \<Rightarrow> Inr d)"

text \<open>The origin of the event, uninitialised when the event does not say.\<close>

definition originDSUID :: "tenv \<Rightarrow> SystemTrigger \<Rightarrow> perror + u8 list" where
  "originDSUID V T =
     (if prop_has (m_properties T) ''originDSUID''
      then ebind (propGet T ''originDSUID'') (parseDSUID V) else Inr (t_garbage V))"

text \<open>
  A child read as an integer inside a \<^verbatim>\<open>try\<close> block that returns false on a type mismatch: \<open>None\<close> is
  that return, \<open>Some None\<close> a child that is missing.
\<close>

definition tryInt :: "pheap \<Rightarrow> nodeid \<Rightarrow> string \<Rightarrow> perror + u32 option option" where
  "tryInt h n name =
     ebind (getPropertyByName h n name) (\<lambda>c.
     case c of
       None \<Rightarrow> Inr (Some None)
     | Some c \<Rightarrow>
         (case getIntegerValue h c of
            Inl (PropertyTypeMismatch _) \<Rightarrow> Inr None
          | Inl e \<Rightarrow> Inl e
          | Inr i \<Rightarrow> Inr (Some (Some i))))"

definition nodeText :: "tenv \<Rightarrow> pheap \<Rightarrow> nodeid option \<Rightarrow> perror + string" where
  "nodeText V h c = (case c of None \<Rightarrow> Inr [] | Some c \<Rightarrow> getAsString (c_dts V) h c)"

definition childText :: "tenv \<Rightarrow> pheap \<Rightarrow> nodeid \<Rightarrow> string \<Rightarrow> perror + string option" where
  "childText V h n name =
     ebind (getPropertyByName h n name) (\<lambda>c.
       case c of None \<Rightarrow> Inr None | Some c \<Rightarrow> ebind (getAsString (c_dts V) h c) (\<lambda>s. Inr (Some s)))"

definition childString :: "pheap \<Rightarrow> nodeid \<Rightarrow> string \<Rightarrow> perror + string option" where
  "childString h n name =
     ebind (getPropertyByName h n name) (\<lambda>c.
       case c of None \<Rightarrow> Inr None | Some c \<Rightarrow> ebind (getStringValue h c) (\<lambda>s. Inr (Some s)))"

definition originMatches :: "tenv \<Rightarrow> pheap \<Rightarrow> nodeid \<Rightarrow> u8 list \<Rightarrow> perror + bool" where
  "originMatches V h n origin =
     ebind (childText V h n ''dsuid'') (\<lambda>iDevice.
       case iDevice of
         None \<Rightarrow> Inr True
       | Some s \<Rightarrow> Inr (\<not> (s \<noteq> [] \<and> s \<noteq> ''-1'' \<and> s \<noteq> dsuid2str origin)))"

text \<open>The pattern \<open>-1\<close> stands for everything.\<close>

definition pattern :: "string \<Rightarrow> string \<Rightarrow> bool" where
  "pattern p s \<longleftrightarrow> p = ''-1'' \<or> p = s"

section \<open>The checks\<close>

definition checkSceneZone :: "tenv \<Rightarrow> SystemTrigger \<Rightarrow> pheap \<Rightarrow> nodeid \<Rightarrow> perror + bool" where
  "checkSceneZone V T h n =
     (if m_evtName T \<noteq> ''callScene'' \<and> m_evtName T \<noteq> ''callSceneBus'' then Inr False
      else if \<not> m_evtSrcIsGroup T then Inr False
      else
        ebind (propGet T ''sceneID'') (\<lambda>sid. let scene = strToIntDef sid (-1) in
        ebind (originDSUID V T) (\<lambda>origin.
        ebind (if prop_has (m_properties T) ''forced''
               then ebind (propGet T ''forced'') (\<lambda>s. Inr (s = ''true'')) else Inr False) (\<lambda>forced.
        ebind (tryInt h n ''zone'') (\<lambda>z. case z of
          Some (Some iZone) \<Rightarrow>
            if 0 \<le> sint iZone \<and> iZone \<noteq> m_evtSrcZone T then Inr False else
            ebind (tryInt h n ''group'') (\<lambda>g. case g of
              Some (Some iGroup) \<Rightarrow>
                if 0 \<le> sint iGroup \<and> iGroup \<noteq> m_evtSrcGroup T then Inr False else
                ebind (tryInt h n ''scene'') (\<lambda>s. case s of
                  Some (Some iScene) \<Rightarrow>
                    if iScene \<noteq> scene then Inr False else
                    also_check (originMatches V h n origin) (\<lambda>_.
                    ebind (getPropertyByName h n ''forced'') (\<lambda>f. case f of
                      None \<Rightarrow> Inr True
                    | Some f \<Rightarrow>
                        (case getBoolValue h f of
                           Inl (PropertyTypeMismatch _) \<Rightarrow> Inr False
                         | Inl e \<Rightarrow> Inl e
                         | Inr iForced \<Rightarrow> Inr (\<not> (forced \<and> \<not> iForced) \<and> \<not> (\<not> forced \<and> iForced)))))
                | _ \<Rightarrow> Inr False)
            | _ \<Rightarrow> Inr False)
        | _ \<Rightarrow> Inr False)))))"

text \<open>Here a missing group or scene matches everything; the zone is needed.\<close>

definition checkUndoSceneZone :: "tenv \<Rightarrow> SystemTrigger \<Rightarrow> pheap \<Rightarrow> nodeid \<Rightarrow> perror + bool" where
  "checkUndoSceneZone V T h n =
     (if m_evtName T \<noteq> ''undoScene'' then Inr False
      else if \<not> m_evtSrcIsGroup T then Inr False
      else
        ebind (propGet T ''sceneID'') (\<lambda>sid. let scene = strToIntDef sid (-1) in
        ebind (originDSUID V T) (\<lambda>origin.
        ebind (tryInt h n ''zone'') (\<lambda>z. case z of
          None \<Rightarrow> Inr False
        | Some None \<Rightarrow> Inr False
        | Some (Some iZone) \<Rightarrow>
            if 0 \<le> sint iZone \<and> iZone \<noteq> m_evtSrcZone T then Inr False else
            ebind (tryInt h n ''group'') (\<lambda>g. case g of
              None \<Rightarrow> Inr False
            | Some g \<Rightarrow>
                (let iGroup = (case g of None \<Rightarrow> -1 | Some i \<Rightarrow> i) in
                if 0 \<le> sint iGroup \<and> iGroup \<noteq> m_evtSrcGroup T then Inr False else
                ebind (tryInt h n ''scene'') (\<lambda>s. case s of
                  None \<Rightarrow> Inr False
                | Some s \<Rightarrow>
                    (let iScene = (case s of None \<Rightarrow> -1 | Some i \<Rightarrow> i) in
                    if 0 \<le> sint iScene \<and> iScene \<noteq> scene then Inr False
                    else originMatches V h n origin))))))))"

definition checkDeviceScene :: "tenv \<Rightarrow> SystemTrigger \<Rightarrow> pheap \<Rightarrow> nodeid \<Rightarrow> perror + bool" where
  "checkDeviceScene V T h n =
     (if m_evtName T \<noteq> ''callScene'' then Inr False
      else if \<not> m_evtSrcIsDevice T then Inr False
      else
        ebind (propGet T ''sceneID'') (\<lambda>sid. let scene = strToIntDef sid (-1) in
        if m_evtSrcDSID T = t_DSUID_NULL V then Inr False else
        ebind (getPropertyByName h n ''dsuid'') (\<lambda>triggerDSID. case triggerDSID of
          None \<Rightarrow> Inr False
        | Some triggerDSID \<Rightarrow>
            ebind (getPropertyByName h n ''scene'') (\<lambda>triggerSCENE. case triggerSCENE of
              None \<Rightarrow> Inr False
            | Some triggerSCENE \<Rightarrow>
                ebind (getStringValue h triggerDSID) (\<lambda>sDSID.
                case getIntegerValue h triggerSCENE of
                  Inl (PropertyTypeMismatch _) \<Rightarrow> Inr False
                | Inl e \<Rightarrow> Inl e
                | Inr iScene \<Rightarrow>
                    if iScene \<noteq> scene then Inr False
                    else Inr ((sDSID = ''-1'' \<or> sDSID = dsuid2str (m_evtSrcDSID T))
                              \<and> (iScene = scene \<or> iScene = -1)))))))"

definition checkDeviceSensor :: "tenv \<Rightarrow> SystemTrigger \<Rightarrow> pheap \<Rightarrow> nodeid \<Rightarrow> perror + bool" where
  "checkDeviceSensor V T h n =
     (if m_evtName T \<noteq> ''deviceSensorEvent'' then Inr False
      else
        ebind (propGet T ''sensorEvent'') (\<lambda>eventName.
        ebind (propGet T ''sensorIndex'') (\<lambda>eventIndex.
        ebind (childString h n ''dsuid'') (\<lambda>sDSID. case sDSID of
          None \<Rightarrow> Inr False
        | Some sDSID \<Rightarrow>
            if \<not> (sDSID = ''-1'' \<or> sDSID = dsuid2str (m_evtSrcDSID T)) then Inr False else
            ebind (getPropertyByName h n ''eventid'') (\<lambda>triggerEventId.
            ebind (getPropertyByName h n ''evt'') (\<lambda>triggerName.
            case triggerEventId of
              None \<Rightarrow>
                (case triggerName of
                   None \<Rightarrow> Inr False
                 | Some nm \<Rightarrow> ebind (getStringValue h nm) (\<lambda>iName. Inr (iName = eventName \<or> iName = ''-1'')))
            | Some ei \<Rightarrow>
                ebind (getAsString (c_dts V) h ei) (\<lambda>iEventId. Inr (iEventId = eventIndex \<or> iEventId = ''-1''))))))))"

definition checkDeviceBinaryInput :: "tenv \<Rightarrow> SystemTrigger \<Rightarrow> pheap \<Rightarrow> nodeid \<Rightarrow> perror + bool" where
  "checkDeviceBinaryInput V T h n =
     (if m_evtName T \<noteq> ''deviceBinaryInputEvent'' then Inr False
      else
        ebind (propGet T ''inputIndex'') (\<lambda>eventIndex.
        ebind (propGet T ''inputType'') (\<lambda>eventType.
        ebind (propGet T ''inputState'') (\<lambda>eventState.
        ebind (getPropertyByName h n ''dsuid'') (\<lambda>triggerDSID.
        ebind (getPropertyByName h n ''index'') (\<lambda>triggerIndex.
        ebind (getPropertyByName h n ''stype'') (\<lambda>triggerType.
        ebind (getPropertyByName h n ''state'') (\<lambda>triggerState.
        if triggerDSID = None \<and> triggerType = None then Inr False else
        case triggerState of
          None \<Rightarrow> Inr False
        | Some ts \<Rightarrow>
            ebind (getAsString (c_dts V) h ts) (\<lambda>sState.
            let byType = (case triggerType of
                            None \<Rightarrow> Inr False
                          | Some t \<Rightarrow> ebind (getAsString (c_dts V) h t) (\<lambda>sType.
                                        Inr (sType = eventType \<and> sState = eventState)))
            in case triggerDSID of
                 None \<Rightarrow> byType
               | Some d \<Rightarrow>
                   ebind (getStringValue h d) (\<lambda>sDSID.
                   if \<not> (sDSID = ''-1'' \<or> sDSID = dsuid2str (m_evtSrcDSID T)) then Inr False else
                   case triggerIndex of
                     None \<Rightarrow> byType
                   | Some ix \<Rightarrow>
                       also_check (case triggerType of
                                     None \<Rightarrow> Inr True
                                   | Some t \<Rightarrow> ebind (getAsString (c_dts V) h t) (\<lambda>s. Inr (s = eventType))) (\<lambda>_.
                       ebind (getAsString (c_dts V) h ix) (\<lambda>sIndex.
                       if sIndex = eventIndex \<and> sState = eventState then Inr True else byType))))))))))))"

definition checkDevice :: "tenv \<Rightarrow> SystemTrigger \<Rightarrow> pheap \<Rightarrow> nodeid \<Rightarrow> perror + bool" where
  "checkDevice V T h n =
     (if m_evtName T \<noteq> ''buttonClick'' then Inr False
      else
        ebind (propGet T ''clickType'') (\<lambda>clickType.
        ebind (propGet T ''buttonIndex'') (\<lambda>buttonIndex.
        if m_evtSrcDSID T = t_DSUID_NULL V then Inr False
        else if clickType = [] \<or> clickType = ''-1'' then Inr False else
        ebind (getPropertyByName h n ''dsuid'') (\<lambda>triggerDSID. case triggerDSID of
          None \<Rightarrow> Inr False
        | Some triggerDSID \<Rightarrow>
            ebind (getPropertyByName h n ''msg'') (\<lambda>triggerMSG. case triggerMSG of
              None \<Rightarrow> Inr False
            | Some triggerMSG \<Rightarrow>
                ebind (childText V h n ''buttonIndex'') (\<lambda>ix.
                ebind (getAsString (c_dts V) h triggerDSID) (\<lambda>sDSID.
                ebind (getAsString (c_dts V) h triggerMSG) (\<lambda>iMSG.
                Inr (pattern sDSID (dsuid2str (m_evtSrcDSID T)) \<and> pattern iMSG clickType
                     \<and> pattern (case ix of None \<Rightarrow> ''-1'' | Some s \<Rightarrow> s) buttonIndex)))))))))"

text \<open>
  \<^verbatim>\<open>checkDirectDeviceAction\<close>, \<^verbatim>\<open>checkDeviceNamedAction\<close> and \<^verbatim>\<open>checkDeviceNamedEvent\<close> are the same code with
  other names: of the event, of its property and of the child of the trigger.
\<close>

definition checkNamed ::
    "string \<Rightarrow> string \<Rightarrow> string \<Rightarrow> tenv \<Rightarrow> SystemTrigger \<Rightarrow> pheap \<Rightarrow> nodeid \<Rightarrow> perror + bool" where
  "checkNamed event name child V T h n =
     (if m_evtName T \<noteq> event then Inr False
      else
        ebind (propGet T name) (\<lambda>action.
        if m_evtSrcDSID T = t_DSUID_NULL V then Inr False
        else if action = [] \<or> action = ''-1'' then Inr False else
        ebind (getPropertyByName h n ''dsuid'') (\<lambda>triggerDSID. case triggerDSID of
          None \<Rightarrow> Inr False
        | Some triggerDSID \<Rightarrow>
            ebind (getPropertyByName h n child) (\<lambda>idNode. case idNode of
              None \<Rightarrow> Inr False
            | Some idNode \<Rightarrow>
                ebind (getAsString (c_dts V) h triggerDSID) (\<lambda>sDSID.
                ebind (getAsString (c_dts V) h idNode) (\<lambda>sAction.
                Inr (pattern sDSID (dsuid2str (m_evtSrcDSID T)) \<and> pattern sAction action)))))))"

definition checkDirectDeviceAction :: "tenv \<Rightarrow> SystemTrigger \<Rightarrow> pheap \<Rightarrow> nodeid \<Rightarrow> perror + bool" where
  "checkDirectDeviceAction V T h n = checkNamed ''buttonDeviceAction'' ''actionID'' ''action'' V T h n"

definition checkDeviceNamedAction :: "tenv \<Rightarrow> SystemTrigger \<Rightarrow> pheap \<Rightarrow> nodeid \<Rightarrow> perror + bool" where
  "checkDeviceNamedAction V T h n = checkNamed ''deviceActionEvent'' ''actionId'' ''id'' V T h n"

definition checkDeviceNamedEvent :: "tenv \<Rightarrow> SystemTrigger \<Rightarrow> pheap \<Rightarrow> nodeid \<Rightarrow> perror + bool" where
  "checkDeviceNamedEvent V T h n = checkNamed ''deviceEventEvent'' ''eventId'' ''id'' V T h n"

definition checkHighlevel :: "tenv \<Rightarrow> SystemTrigger \<Rightarrow> pheap \<Rightarrow> nodeid \<Rightarrow> perror + bool" where
  "checkHighlevel V T h n =
     (if m_evtName T \<noteq> ''highlevelevent'' then Inr False
      else if \<not> prop_has (m_properties T) ''id'' then Inr False
      else
        ebind (propGet T ''id'') (\<lambda>id.
        if id = [] then Inr False else
        ebind (childText V h n ''event'') (\<lambda>sEvent.
          case sEvent of None \<Rightarrow> Inr False | Some s \<Rightarrow> Inr (s = id))))"

definition checkState :: "tenv \<Rightarrow> SystemTrigger \<Rightarrow> pheap \<Rightarrow> nodeid \<Rightarrow> perror + bool" where
  "checkState V T h n =
     (if m_evtName T \<noteq> ''addonStateChange'' \<and> m_evtName T \<noteq> ''stateChange'' then Inr False
      else
        ebind (propGet T ''statename'') (\<lambda>name.
        ebind (propGet T ''state'') (\<lambda>state.
        ebind (propGet T ''value'') (\<lambda>value.
        ebind (propGet T ''oldvalue'') (\<lambda>oldvalue.
        ebind (getPropertyByName h n ''name'') (\<lambda>triggerName.
        ebind (getPropertyByName h n ''state'') (\<lambda>triggerState.
        ebind (getPropertyByName h n ''value'') (\<lambda>triggerValue.
        ebind (getPropertyByName h n ''oldvalue'') (\<lambda>triggerOldvalue.
        also_check (if m_evtName T = ''addonStateChange'' then
                      ebind (propGet T ''scriptID'') (\<lambda>scriptID.
                      ebind (childText V h n ''addon-id'') (\<lambda>s. Inr (s = Some scriptID)))
                    else Inr True) (\<lambda>_.
        case triggerName of
          None \<Rightarrow> Inr False
        | Some tn \<Rightarrow>
            if triggerState = None \<and> triggerValue = None then Inr False else
            ebind (getAsString (c_dts V) h tn) (\<lambda>sName.
            if sName \<noteq> name then Inr False else
            ebind (nodeText V h triggerState) (\<lambda>sState.
            ebind (nodeText V h triggerValue) (\<lambda>sValue.
            ebind (nodeText V h triggerOldvalue) (\<lambda>sOldvalue.
            Inr ((sState = state \<or> sValue = value) \<and> (sOldvalue = [] \<or> sOldvalue = oldvalue))))))))))))))))"

definition checkSensorValue :: "tenv \<Rightarrow> SystemTrigger \<Rightarrow> pheap \<Rightarrow> nodeid \<Rightarrow> perror + bool" where
  "checkSensorValue V T h n =
     (if m_evtName T \<noteq> ''deviceSensorValue'' \<and> m_evtName T \<noteq> ''zoneSensorValue'' then Inr False
      else
        also_check
          (if m_evtName T = ''deviceSensorValue'' then
             ebind (getPropertyByName h n ''dsuid'') (\<lambda>c.
             ebind (nodeText V h c) (\<lambda>s. Inr (s = dsuid2str (m_evtSrcDSID T))))
           else
             ebind (getPropertyByName h n ''zone'') (\<lambda>c.
             ebind (nodeText V h c) (\<lambda>zone.
             ebind (parseInt zone) (\<lambda>z. Inr (z = m_evtSrcZone T))))) (\<lambda>_.
        ebind (propGet T ''sensorType'') (\<lambda>sensorType.
        ebind (getPropertyByName h n ''sensor'') (\<lambda>c.
        ebind (nodeText V h c) (\<lambda>sSensorType.
        if sSensorType \<noteq> sensorType then Inr False else
        ebind (getPropertyByName h n ''value'') (\<lambda>triggerValue.
        ebind (getPropertyByName h n ''operator'') (\<lambda>triggerOperator.
        case (triggerValue, triggerOperator) of
          (Some tv, Some op') \<Rightarrow>
            ebind (propGet T ''sensorValueFloat'') (\<lambda>sf.
            ebind (parseDouble V sf) (\<lambda>eventValueFloat.
            ebind (getAsString (c_dts V) h tv) (\<lambda>sValue.
            ebind (parseDouble V sValue) (\<lambda>triggerValueFloat.
            ebind (getAsString (c_dts V) h op') (\<lambda>sOperator.
            Inr (if sOperator = ''greater'' then dbl_less triggerValueFloat eventValueFloat
                 else if sOperator = ''lower'' then dbl_less eventValueFloat triggerValueFloat
                 else False))))))
        | _ \<Rightarrow> Inr False)))))))"

fun parameterLoop :: "tenv \<Rightarrow> SystemTrigger \<Rightarrow> pheap \<Rightarrow> nodeid list \<Rightarrow> perror + bool" where
  "parameterLoop V T h [] = Inr True"
| "parameterLoop V T h (p # ps) =
     (if \<not> prop_has (m_properties T) (m_Name (node h p)) then Inr False
      else
        ebind (propGet T (m_Name (node h p))) (\<lambda>eventValue.
        ebind (getAsString (c_dts V) h p) (\<lambda>triggerValue.
        if eventValue \<noteq> triggerValue then Inr False else parameterLoop V T h ps)))"

definition checkEvent :: "tenv \<Rightarrow> SystemTrigger \<Rightarrow> pheap \<Rightarrow> nodeid \<Rightarrow> perror + bool" where
  "checkEvent V T h n =
     ebind (childText V h n ''name'') (\<lambda>sName.
     case sName of
       None \<Rightarrow> Inr False
     | Some sName \<Rightarrow>
         if sName \<noteq> m_evtName T then Inr False else
         ebind (getPropertyByName h n ''parameter'') (\<lambda>ps.
           case ps of None \<Rightarrow> Inr True | Some ps \<Rightarrow> parameterLoop V T h (getChildNodes h ps)))"

text \<open>The name of the event says which type of trigger can match, and how it is checked.\<close>

definition checkTriggerNode :: "tenv \<Rightarrow> SystemTrigger \<Rightarrow> pheap \<Rightarrow> nodeid \<Rightarrow> perror + bool" where
  "checkTriggerNode V T h n =
     ebind (childText V h n ''type'') (\<lambda>triggerValue.
     case triggerValue of
       None \<Rightarrow> Inr False
     | Some t \<Rightarrow>
         (let name = m_evtName T;
              guard = (\<lambda>type check. if t = type then check V T h n else Inr False)
          in if name = ''callScene'' then
               (if t = ''zone-scene'' then checkSceneZone V T h n
                else if t = ''device-scene'' then checkDeviceScene V T h n else Inr False)
             else if name = ''callSceneBus'' then guard ''bus-zone-scene'' checkSceneZone
             else if name = ''undoScene'' then guard ''undo-zone-scene'' checkUndoSceneZone
             else if name = ''buttonClick'' then guard ''device-msg'' checkDevice
             else if name = ''buttonDeviceAction'' then guard ''device-action'' checkDirectDeviceAction
             else if name = ''deviceSensorEvent'' then guard ''device-sensor'' checkDeviceSensor
             else if name = ''deviceSensorValue'' then guard ''device-sensor-value'' checkSensorValue
             else if name = ''zoneSensorValue'' then guard ''zone-sensor-value'' checkSensorValue
             else if name = ''deviceBinaryInputEvent'' then guard ''device-binary-input'' checkDeviceBinaryInput
             else if name = ''deviceActionEvent'' then guard ''device-named-action'' checkDeviceNamedAction
             else if name = ''deviceEventEvent'' then guard ''device-named-event'' checkDeviceNamedEvent
             else if name = ''highlevelevent'' then guard ''custom-event'' checkHighlevel
             else if name = ''stateChange'' then guard ''state-change'' checkState
             else if name = ''addonStateChange'' then guard ''addon-state-change'' checkState
             else guard ''event'' checkEvent))"

fun triggerLoop :: "tenv \<Rightarrow> SystemTrigger \<Rightarrow> pheap \<Rightarrow> nodeid list \<Rightarrow> perror + bool" where
  "triggerLoop V T h [] = Inr False"
| "triggerLoop V T h (c # cs) =
     ebind (checkTriggerNode V T h c) (\<lambda>b. if b then Inr True else triggerLoop V T h cs)"

definition checkTrigger :: "tenv \<Rightarrow> SystemTrigger \<Rightarrow> pheap \<Rightarrow> nodeid \<Rightarrow> perror + bool" where
  "checkTrigger V T h n =
     ebind (getPropertyByName h n ''triggers'') (\<lambda>appTrigger.
       case appTrigger of None \<Rightarrow> Inr False | Some a \<Rightarrow> triggerLoop V T h (getChildNodes h a))"

section \<open>Damping\<close>

definition peek :: "pheap \<Rightarrow> perror + 'a \<Rightarrow> 'a result" where
  "peek h r = (h, r)"

definition nowText :: "tenv \<Rightarrow> string" where
  "nowText V = toISO8601 (atSecond (c_now V))"

text \<open>The age in seconds of a time in a node.\<close>

definition ageOf :: "tenv \<Rightarrow> pheap \<Rightarrow> nodeid \<Rightarrow> perror + DateTime" where
  "ageOf V h n =
     ebind (getAsString (c_dts V) h n) (\<lambda>s.
       case parseISO8601 (c_tz V) s of None \<Rightarrow> Inl StdLogicError | Some d \<Rightarrow> Inr d)"

definition secondsSince :: "tenv \<Rightarrow> DateTime \<Rightarrow> perror + int" where
  "secondsSince V d =
     (case difference (atSecond (c_now V)) d of None \<Rightarrow> Inl BadConversion | Some i \<Rightarrow> Inr i)"

definition damping :: "tenv \<Rightarrow> pheap \<Rightarrow> nodeid \<Rightarrow> bool result" where
  "damping V h n =
     andThen (peek h (getProperty h n ''damping'')) (\<lambda>h dampNode. case dampNode of
       None \<Rightarrow> (h, Inr False)
     | Some d \<Rightarrow>
         andThen (peek h (getProperty h d ''interval'')) (\<lambda>h iv. case iv of
           None \<Rightarrow> (h, Inr False)
         | Some iv \<Rightarrow>
             andThen (peek h (getProperty h d ''lastTrigger'')) (\<lambda>h ts. case ts of
               None \<Rightarrow>
                 andThen (createProperty h d ''lastTrigger'') (\<lambda>h tmp.
                 andThen (setStringValue h tmp (nowText V)) (\<lambda>h _. (h, Inr False)))
             | Some lastTsNode \<Rightarrow>
                 andThen (peek h (getIntegerValue h iv)) (\<lambda>h interval.
                 if sint interval < 0 then (h, Inr False) else
                 andThen (peek h (ageOf V h lastTsNode)) (\<lambda>h lastTS.
                 andThen (peek h (getProperty h d ''rewindTimer'')) (\<lambda>h rewindNode.
                 andThen (case rewindNode of
                            None \<Rightarrow> (h, Inr False) | Some r \<Rightarrow> peek h (getBoolValue h r)) (\<lambda>h rewind.
                 andThen (if rewind then setStringValue h lastTsNode (nowText V) else (h, Inr ())) (\<lambda>h _.
                 andThen (peek h (secondsSince V lastTS)) (\<lambda>h age.
                 if age < sint interval then (h, Inr True)
                 else andThen (setStringValue h lastTsNode (nowText V)) (\<lambda>h _. (h, Inr False)))))))))))"

section \<open>Relaying\<close>

definition wbind :: "'w \<times> (perror + 'a) \<Rightarrow> ('w \<Rightarrow> 'a \<Rightarrow> 'w \<times> (perror + 'b)) \<Rightarrow> 'w \<times> (perror + 'b)" where
  "wbind r f = (case r of (w, Inl e) \<Rightarrow> (w, Inl e) | (w, Inr x) \<Rightarrow> f w x)"

definition onHeap :: "'r world \<Rightarrow> 'a result \<Rightarrow> 'r world \<times> (perror + 'a)" where
  "onHeap w r = (w\<lparr>w_heap := fst r\<rparr>, snd r)"

definition look :: "'r world \<Rightarrow> (pheap \<Rightarrow> perror + 'a) \<Rightarrow> 'r world \<times> (perror + 'a)" where
  "look w f = (w, f (w_heap w))"

text \<open>
  \<^verbatim>\<open>applyProperties\<close> with the properties as a map: the order in which the container lists them does
  not matter.
\<close>

definition applyMap :: "event \<Rightarrow> properties \<Rightarrow> event" where
  "applyMap e ps =
     (let special = {''location'', ''context'', ''time''};
          e = (case ps ''location'' of None \<Rightarrow> e | Some v \<Rightarrow> fst (setProperty e ''location'' v));
          e = (case ps ''context'' of None \<Rightarrow> e | Some v \<Rightarrow> fst (setProperty e ''context'' v));
          e = (case ps ''time'' of None \<Rightarrow> e | Some v \<Rightarrow> fst (setProperty e ''time'' v))
      in e\<lparr>m_EventProperties := (\<lambda>k. if k \<noteq> [] \<and> k \<notin> special \<and> ps k \<noteq> None then ps k else m_EventProperties e k)\<rparr>)"

fun addParameters :: "event \<Rightarrow> string list \<Rightarrow> event" where
  "addParameters e [] = e"
| "addParameters e (p # ps) =
     (let (k, v) = splitIntoKeyValue p
      in addParameters (if k = [] \<or> v = [] then e else fst (setProperty e k v)) ps)"

definition relayedEvent :: "SystemTrigger \<Rightarrow> string \<Rightarrow> string \<Rightarrow> string \<Rightarrow> event" where
  "relayedEvent T name path additionalParameter =
     addParameters (fst (setProperty (applyMap (newEvent name) (m_properties T)) ''path'' path))
       (splitString additionalParameter (CHR '';'') False)"

text \<open>A new event object for the runner; the text is its identification.\<close>

definition pushNewTimed :: "'r timelib \<Rightarrow> int \<Rightarrow> event \<Rightarrow> 'r world \<Rightarrow> 'r world \<times> string" where
  "pushNewTimed L now e w =
     (let i = w_nextEvent w; s = w_events w;
          (s, id) = pushTimedEvent L now (s\<lparr>store_of := (store_of s)(i := e)\<rparr>) i
      in (w\<lparr>w_events := s, w_nextEvent := i + 1\<rparr>, id))"

definition relayTrigger ::
    "tenv \<Rightarrow> 'r timelib \<Rightarrow> SystemTrigger \<Rightarrow> 'r world \<Rightarrow> nodeid \<Rightarrow> nodeid \<Rightarrow> 'r world \<times> (perror + unit)" where
  "relayTrigger V L T w relay param =
     wbind (look w (\<lambda>h. childText V h relay ''triggerPath'')) (\<lambda>w sTriggerPath.
     wbind (look w (\<lambda>h. childText V h relay ''relayedEventName'')) (\<lambda>w sRelayedEventName.
     case (sTriggerPath, sRelayedEventName) of
       (Some path, Some name) \<Rightarrow>
         wbind (look w (\<lambda>h. childText V h relay ''additionalRelayingParameter'')) (\<lambda>w aParam.
         let evt = relayedEvent T name path (case aParam of None \<Rightarrow> [] | Some s \<Rightarrow> s) in
         if \<not> t_hasInstance V then (w, Inr ()) else
         wbind (look w (\<lambda>h. getProperty h param ''lag'')) (\<lambda>w lagNode.
         wbind (look w (\<lambda>h. case lagNode of None \<Rightarrow> Inr None | Some l \<Rightarrow> getProperty h l ''delay'')) (\<lambda>w delayNode.
         wbind (look w (\<lambda>h. case delayNode of None \<Rightarrow> Inr 0 | Some d \<Rightarrow> getIntegerValue h d)) (\<lambda>w delay.
         case (lagNode, delayNode) of
           (Some lag, Some dn) \<Rightarrow>
             if delay = 0 then (pushNew L (c_now V) evt w, Inr ())
             else if sint delay < 0 then (w, Inr ())
             else
               wbind (look w (\<lambda>h. getAsString (c_dts V) h dn)) (\<lambda>w s.
               let (w, id) = pushNewTimed L (c_now V) (fst (setProperty evt ''time'' (''+'' @ s))) w in
               if id = [] then (w, Inr ())
               else
                 wbind (onHeap w (createProperty (w_heap w) lag ''eventid'')) (\<lambda>w c.
                 wbind (onHeap w (setStringValue (w_heap w) c id)) (\<lambda>w _.
                 wbind (onHeap w (createProperty (w_heap w) lag ''last_event_scheduled_at'')) (\<lambda>w c.
                 onHeap w (setStringValue (w_heap w) c (nowText V))))))
         | _ \<Rightarrow> (pushNew L (c_now V) evt w, Inr ())))))
     | _ \<Rightarrow> (w, Inr ())))"

text \<open>Whether rescheduling is configured and an event is pending: the nodes of the delay and of the event.\<close>

definition rescheduleNodes :: "pheap \<Rightarrow> nodeid \<Rightarrow> perror + (nodeid \<times> nodeid) option" where
  "rescheduleNodes h lag =
     ebind (getProperty h lag ''reschedule'') (\<lambda>r. case r of None \<Rightarrow> Inr None | Some r \<Rightarrow>
     ebind (getBoolValue h r) (\<lambda>b. if \<not> b then Inr None else
     ebind (getProperty h lag ''delay'') (\<lambda>d. case d of None \<Rightarrow> Inr None | Some d \<Rightarrow>
     ebind (getProperty h lag ''eventid'') (\<lambda>e. case e of None \<Rightarrow> Inr None | Some e \<Rightarrow> Inr (Some (d, e))))))"

definition rescheduleAction ::
    "tenv \<Rightarrow> 'r timelib \<Rightarrow> SystemTrigger \<Rightarrow> 'r world \<Rightarrow> nodeid \<Rightarrow> nodeid \<Rightarrow> 'r world \<times> (perror + bool)" where
  "rescheduleAction V L T w triggerNode param =
     wbind (look w (\<lambda>h. getProperty h param ''lag'')) (\<lambda>w lagNode. case lagNode of
       None \<Rightarrow> (w, Inr False)
     | Some lag \<Rightarrow>
         wbind (look w (\<lambda>h. rescheduleNodes h lag)) (\<lambda>w ns. case ns of
           None \<Rightarrow> (w, Inr False)
         | Some (delayNode, idNode) \<Rightarrow>
             wbind (look w (\<lambda>h. getIntegerValue h delayNode)) (\<lambda>w delay.
             wbind (look w (\<lambda>h. getProperty h lag ''last_event_scheduled_at'')) (\<lambda>w ts. case ts of
               None \<Rightarrow> (w, Inl NullDeref)
             | Some lastTsNode \<Rightarrow>
                 wbind (look w (\<lambda>h. ageOf V h lastTsNode)) (\<lambda>w lastTS.
                 wbind (look w (\<lambda>_. secondsSince V lastTS)) (\<lambda>w age.
                 if age > sint delay then (w, Inr False) else
                 wbind (look w (\<lambda>h. getStringValue h idNode)) (\<lambda>w id.
                 wbind (onHeap (w\<lparr>w_events := removeEvent (w_events w) id\<rparr>)
                          (setStringValue (w_heap w) lastTsNode (nowText V))) (\<lambda>w _.
                 wbind (relayTrigger V L T w triggerNode param) (\<lambda>w _. (w, Inr True))))))))))"

section \<open>The run over all triggers\<close>

text \<open>
  The comparison of lag and interval only decides about a log message, but reading the two values
  may throw.
\<close>

definition lagWarning :: "pheap \<Rightarrow> nodeid \<Rightarrow> perror + unit" where
  "lagWarning h param =
     ebind (getProperty h param ''lag'') (\<lambda>lagNode.
     ebind (getProperty h param ''damping'') (\<lambda>dampNode.
     ebind (case lagNode of None \<Rightarrow> Inr None | Some l \<Rightarrow> getProperty h l ''lag'') (\<lambda>l.
     case l of None \<Rightarrow> Inr () | Some l \<Rightarrow>
     ebind (case dampNode of None \<Rightarrow> Inr None | Some d \<Rightarrow> getProperty h d ''interval'') (\<lambda>d.
     case d of None \<Rightarrow> Inr () | Some d \<Rightarrow>
     ebind (getIntegerValue h d) (\<lambda>_. ebind (getIntegerValue h l) (\<lambda>_. Inr ()))))))"

definition fireTrigger ::
    "tenv \<Rightarrow> 'r timelib \<Rightarrow> SystemTrigger \<Rightarrow> 'r world \<Rightarrow> nodeid \<Rightarrow> nodeid \<Rightarrow> 'r world \<times> (perror + unit)" where
  "fireTrigger V L T w triggerNode param =
     wbind (look w (\<lambda>h. lagWarning h param)) (\<lambda>w _.
     wbind (rescheduleAction V L T w triggerNode param) (\<lambda>w done'.
     if done' then (w, Inr ()) else
     wbind (onHeap w (damping V (w_heap w) param)) (\<lambda>w damped.
     if damped then (w, Inr ()) else relayTrigger V L T w triggerNode param)))"

definition runTrigger ::
    "tenv \<Rightarrow> 'r timelib \<Rightarrow> SystemTrigger \<Rightarrow> 'r world \<Rightarrow> nodeid \<Rightarrow> 'r world \<times> (perror + unit)" where
  "runTrigger V L T w triggerNode =
     wbind (look w (\<lambda>h. childString h triggerNode ''triggerPath'')) (\<lambda>w path. case path of
       None \<Rightarrow> (w, Inr ())
     | Some path \<Rightarrow>
         wbind (look w (\<lambda>h. sysGetProperty h path)) (\<lambda>w param. case param of
           None \<Rightarrow> (w, Inr ())
         | Some param \<Rightarrow>
             wbind (look w (\<lambda>h. also_check (checkTrigger V T h param)
                                   (\<lambda>_. checkSystemCondition (cenv.truncate V) h path))) (\<lambda>w fire.
             if fire then fireTrigger V L T w triggerNode param else (w, Inr ()))))"

text \<open>The children of \<^verbatim>\<open>/usr/triggers\<close> are not changed by the body of the loop.\<close>

fun runLoop ::
    "tenv \<Rightarrow> 'r timelib \<Rightarrow> SystemTrigger \<Rightarrow> 'r world \<Rightarrow> nodeid list \<Rightarrow> 'r world \<times> (perror + unit)" where
  "runLoop V L T w [] = (w, Inr ())"
| "runLoop V L T w (t # ts) = wbind (runTrigger V L T w t) (\<lambda>w _. runLoop V L T w ts)"

text \<open>Runtime errors end the loop and are caught; other exceptions leave the handler.\<close>

definition run :: "tenv \<Rightarrow> 'r timelib \<Rightarrow> SystemTrigger \<Rightarrow> 'r world \<Rightarrow> 'r world \<times> perror option" where
  "run V L T w =
     (if \<not> t_hasInstance V then (w, None)
      else case sysGetProperty (w_heap w) ''/usr/triggers'' of
             Inl e \<Rightarrow> (w, Some e)
           | Inr None \<Rightarrow> (w, None)
           | Inr (Some n) \<Rightarrow>
               (case runLoop V L T w (getChildNodes (w_heap w) n) of
                  (w, Inr _) \<Rightarrow> (w, None)
                | (w, Inl e) \<Rightarrow> (w, if isRuntimeError e then None else Some e)))"

end
