(* ===== verification/Date_Laws.thy ===== *)
theory Date_Laws
  imports Date_Tools
begin

text \<open>
  Laws of \<open>Date_Tools\<close>: the calendar round trip, printing and parsing of times, and the
  arithmetic of time stamps.
\<close>

section \<open>The calendar\<close>

lemma div_step:
  fixes y k :: int
  assumes "0 < k"
  shows "y div k = (y - 1) div k + (if k dvd y then 1 else 0)"
proof (cases "k dvd y")
  case True
  then obtain q where "y = k * q" by blast
  moreover have "(k * q - 1) div k = q - 1"
  proof -
    have e: "k * q - 1 = (k - 1) + (q - 1) * k" by (simp add: algebra_simps)
    have "((k - 1) + (q - 1) * k) div k = (q - 1) + (k - 1) div k" using assms by (intro div_mult_self1) simp
    then show ?thesis unfolding e using assms by (simp add: div_pos_pos_trivial)
  qed
  ultimately show ?thesis using True assms by simp
next
  case False
  then have "y mod k \<noteq> 0" by (simp add: dvd_eq_mod_eq_0)
  then have m: "0 < y mod k" "y mod k < k" using assms pos_mod_bound[of k y] pos_mod_sign[of k y] by linarith+
  have e: "y - 1 = (y mod k - 1) + (y div k) * k" using div_mult_mod_eq[of y k] by linarith
  have "((y mod k - 1) + (y div k) * k) div k = y div k + (y mod k - 1) div k" using assms by (intro div_mult_self1) simp
  moreover have "(y mod k - 1) div k = 0" using m by (simp add: div_pos_pos_trivial)
  ultimately have "(y - 1) div k = y div k" unfolding e by simp
  then show ?thesis using False by simp
qed

lemma daysBefore_Suc: "daysBefore (y + 1) = daysBefore y + int (yearLen y)"
proof -
  define p q r p' q' r' where "p = y div 4" "q = y div 100" "r = y div 400"
    and "p' = (y - 1) div 4" "q' = (y - 1) div 100" "r' = (y - 1) div 400"
  note defs = this
  define a b c where "a = (4 dvd y)" "b = (100 dvd y)" "c = (400 dvd y)"
  note dvds = this
  have "(4 :: int) dvd 100" "(100 :: int) dvd 400" by simp_all
  then have nest: "b \<Longrightarrow> a" "c \<Longrightarrow> b" unfolding dvds using dvd_trans by blast+
  have step: "p = p' + (if a then 1 else 0)" "q = q' + (if b then 1 else 0)" "r = r' + (if c then 1 else 0)"
    unfolding defs dvds by (rule div_step; simp)+
  have "daysBefore (y + 1) = 365 * (y - 1969) + (p - q + r) - 477"
    by (simp add: daysBefore_def defs)
  moreover have "daysBefore y = 365 * (y - 1970) + (p' - q' + r') - 477"
    by (simp add: daysBefore_def defs)
  moreover have "int (yearLen y) = (if a \<and> (\<not> b \<or> c) then 366 else 365)"
    by (simp add: yearLen_def leapYear_def dvds)
  ultimately show ?thesis using step nest by (cases a; cases b; cases c) simp_all
qed

lemma yearLoop_days:
  "yearLoop y d = (y', d') \<Longrightarrow> daysBefore y' + int d' = daysBefore y + int d \<and> d' < yearLen y' \<and> y \<le> y'"
proof (induction y d rule: yearLoop.induct)
  case (1 y d)
  show ?case
  proof (cases "d < yearLen y")
    case True
    then show ?thesis using 1(2) by (simp add: yearLoop.simps[of y d])
  next
    case False
    then have "yearLoop (y + 1) (d - yearLen y) = (y', d')" using 1(2) by (simp add: yearLoop.simps[of y d])
    from 1(1)[OF False this] False show ?thesis by (simp add: daysBefore_Suc)
  qed
qed

lemma monthLoop_days:
  "monthLoop ls m d = (m', d') \<Longrightarrow> d < sum_list ls \<Longrightarrow>
     \<exists>k. m' = m + k \<and> k < length ls \<and> sum_list (take k ls) + d' = d \<and> d' < ls ! k"
proof (induction ls arbitrary: m d)
  case (Cons l ls)
  show ?case
  proof (cases "d < l")
    case True
    then show ?thesis using Cons.prems by (intro exI[of _ 0]) simp
  next
    case False
    with Cons.prems have "monthLoop ls (m + 1) (d - l) = (m', d')" "d - l < sum_list ls" by auto
    from Cons.IH[OF this] obtain k where
      "m' = m + 1 + k" "k < length ls" "sum_list (take k ls) + d' = d - l" "d' < ls ! k" by blast
    then show ?thesis using False by (intro exI[of _ "Suc k"]) simp
  qed
qed simp

lemma monthLens_sum: "sum_list (monthLens y) = yearLen y" "length (monthLens y) = 12"
  by (simp_all add: monthLens_def yearLen_def)

lemma monthLens_bound: "k < 12 \<Longrightarrow> monthLens y ! k \<le> 31"
  by (simp add: monthLens_def nth_Cons' split: if_splits)

text \<open>The fields of a time since 1970.\<close>

lemma gmtime_fields:
  assumes "0 \<le> t"
  shows "timegm (gmtime t) = t" "0 \<le> tm_mon (gmtime t) \<and> tm_mon (gmtime t) < 12"
    "1 \<le> tm_mday (gmtime t) \<and> tm_mday (gmtime t) \<le> 31" "0 \<le> tm_hour (gmtime t) \<and> tm_hour (gmtime t) < 24"
    "0 \<le> tm_min (gmtime t) \<and> tm_min (gmtime t) < 60" "0 \<le> tm_sec (gmtime t) \<and> tm_sec (gmtime t) < 60"
    "70 \<le> tm_year (gmtime t)" "daysBefore (tm_year (gmtime t) + 1900) \<le> t div 86400" "tm_gmtoff (gmtime t) = 0"
proof -
  define days where "days = nat (t div 86400)"
  have days: "int days = t div 86400" using assms by (simp add: days_def pos_imp_zdiv_nonneg_iff)
  obtain y yd where y: "yearLoop 1970 days = (y, yd)" by fastforce
  obtain m d where m: "monthLoop (monthLens y) 0 yd = (m, d)" by fastforce
  have yy: "daysBefore y + int yd = int days" "yd < yearLen y" "1970 \<le> y"
    using yearLoop_days[OF y] by (simp_all add: daysBefore_def)
  obtain k where k: "m = k" "k < 12" "sum_list (take k (monthLens y)) + d = yd" "d < monthLens y ! k"
    using monthLoop_days[OF m] yy(2) monthLens_sum by force
  have g: "gmtime t = \<lparr>tm_sec = t mod 86400 mod 60, tm_min = t mod 86400 div 60 mod 60, tm_hour = t mod 86400 div 3600,
      tm_mday = int d + 1, tm_mon = int m, tm_year = y - 1900, tm_wday = (int days + 4) mod 7, tm_yday = int yd, tm_isdst = 0, tm_gmtoff = 0\<rparr>"
    using y m by (simp add: gmtime_def Let_def days_def)
  have sec: "r div 3600 * 3600 + r div 60 mod 60 * 60 + r mod 60 = r" for r :: int
  proof -
    have "r div 3600 = r div 60 div 60" using zdiv_zmult2_eq[of 60 r 60] by simp
    then show ?thesis using div_mult_mod_eq[of "r div 60" 60] div_mult_mod_eq[of r 60] by linarith
  qed
  have mon: "tm_mon (gmtime t) div 12 = 0" "nat (tm_mon (gmtime t) mod 12) = k" using k by (simp_all add: g)
  have "daysBefore y + int (sum_list (take k (monthLens y))) + int d = t div 86400" using k(3) yy(1) days by simp
  then have "timegm (gmtime t) = t div 86400 * 86400 + (t mod 86400 div 3600 * 3600 + t mod 86400 div 60 mod 60 * 60 + t mod 86400 mod 60)"
    unfolding timegm_def Let_def mon by (simp add: g)
  then show "timegm (gmtime t) = t" unfolding sec by simp
  show "0 \<le> tm_mon (gmtime t) \<and> tm_mon (gmtime t) < 12" "70 \<le> tm_year (gmtime t)" "tm_gmtoff (gmtime t) = 0"
    using k yy(3) by (simp_all add: g)
  show "1 \<le> tm_mday (gmtime t) \<and> tm_mday (gmtime t) \<le> 31" using k(4) monthLens_bound[OF k(2), of y] by (simp add: g)
  have r: "0 \<le> t mod 86400" "t mod 86400 < 86400" by simp_all
  then have "0 \<le> t mod 86400 div 3600" by (simp add: pos_imp_zdiv_nonneg_iff)
  moreover have "t mod 86400 div 3600 < 24" using r div_mult_mod_eq[of "t mod 86400" 3600] pos_mod_sign[of 3600 "t mod 86400"] by linarith
  ultimately have "t mod 86400 div 3600 < 24" "0 \<le> t mod 86400 div 3600" by blast+
  then show "0 \<le> tm_hour (gmtime t) \<and> tm_hour (gmtime t) < 24" by (simp add: g)
  show "0 \<le> tm_min (gmtime t) \<and> tm_min (gmtime t) < 60" "0 \<le> tm_sec (gmtime t) \<and> tm_sec (gmtime t) < 60" by (simp_all add: g)
  show "daysBefore (tm_year (gmtime t) + 1900) \<le> t div 86400" using yy(1) days by (simp add: g)
qed

section \<open>Printing and parsing\<close>

lemma digit_char_digit: "d < 10 \<Longrightarrow> is_digit 10 (digit_char d)" "d < 10 \<Longrightarrow> digit_char d \<noteq> CHR '' ''"
  using digit_char_props(1)[of d] char_neq_of_char[of "digit_char d" "CHR '' ''"]
  by (simp_all add: is_digit_def of_char_digit_char)

lemma pad2_digits: "0 \<le> n \<Longrightarrow> n < 100 \<Longrightarrow> pad2 n = [digit_char (nat n div 10), digit_char (nat n mod 10)]"
proof (cases "n < 10")
  case True
  moreover assume "0 \<le> n"
  moreover have "''0'' = [digit_char 0]" by code_simp
  ultimately show ?thesis by (simp add: pad2_def print10_small)
next
  case False
  moreover assume "n < 100"
  ultimately have "10 \<le> nat n" "nat n div 10 < 10" by auto
  then show ?thesis using False print10_step[of "nat n"] print10_small[of "nat n div 10"] by (simp add: pad2_def)
qed

lemma get_number_pad2:
  assumes "0 \<le> n" "n < 100" "lo \<le> nat n" "nat n \<le> hi"
  shows "get_number lo hi 2 (pad2 n @ r) = Some (n, r)"
proof -
  define a b where "a = nat n div 10" "b = nat n mod 10"
  note ab = this
  have lt: "a < 10" "b < 10" "a * 10 + b = nat n" using assms(1,2) by (auto simp: ab)
  have "a * 10 \<le> hi" using lt(3) assms(4) by linarith
  then have "get_number lo hi 2 ([digit_char a, digit_char b] @ r) = Some (int (nat n), r)"
    using assms(3,4) lt digit_char_digit[OF lt(1)] digit_char_digit[OF lt(2)]
    by (simp add: get_number_def numeral_2_eq_2)
  then show ?thesis using pad2_digits[OF assms(1,2)] assms(1) by (simp add: ab)
qed

lemma print10_four:
  assumes "1000 \<le> y" "y < 10000"
  shows "print_nat 10 y = [digit_char (y div 1000), digit_char (y div 100 mod 10), digit_char (y div 10 mod 10), digit_char (y mod 10)]"
proof -
  have "print_nat 10 y = print_nat 10 (y div 10 div 10 div 10) @ [digit_char (y div 10 div 10 mod 10)] @ [digit_char (y div 10 mod 10)] @ [digit_char (y mod 10)]"
    using assms print10_step[of y] print10_step[of "y div 10"] print10_step[of "y div 10 div 10"] by auto
  moreover have "y div 10 div 10 div 10 < 10" using assms by auto
  ultimately show ?thesis using print10_small[of "y div 10 div 10 div 10"] by (simp add: div_mult2_eq[symmetric])
qed

lemma get_number_year:
  assumes "1000 \<le> y" "y < 10000"
  shows "get_number 0 9999 4 (print_nat 10 y @ r) = Some (int y, r)"
proof -
  define a b c d where "a = y div 1000" "b = y div 100 mod 10" "c = y div 10 mod 10" "d = y mod 10"
  note abcd = this
  have lt: "a < 10" "b < 10" "c < 10" "d < 10" using assms by (auto simp: abcd)
  have v: "((a * 10 + b) * 10 + c) * 10 + d = y"
  proof -
    have "y div 1000 = y div 10 div 10 div 10" "y div 100 = y div 10 div 10" by (simp_all add: div_mult2_eq[symmetric])
    then show ?thesis unfolding abcd
      using div_mult_mod_eq[of "y div 10 div 10" 10] div_mult_mod_eq[of "y div 10" 10] div_mult_mod_eq[of y 10] by simp
  qed
  have four: "(4 :: nat) - 1 = Suc (Suc (Suc 0))" by simp
  have "get_number 0 9999 4 ([digit_char a, digit_char b, digit_char c, digit_char d] @ r) = Some (int y, r)"
    unfolding get_number_def four
    using lt v assms digit_char_digit[OF lt(1)] digit_char_digit[OF lt(2)] digit_char_digit[OF lt(3)] digit_char_digit[OF lt(4)]
    by simp
  then show ?thesis unfolding print10_four[OF assms] abcd .
qed

text \<open>A broken-down time that the conversions can print and read back.\<close>

definition tm_ok :: "tm \<Rightarrow> bool" where
  "tm_ok t \<longleftrightarrow> -900 \<le> tm_year t \<and> tm_year t < 8100 \<and> 0 \<le> tm_mon t \<and> tm_mon t < 12
     \<and> 1 \<le> tm_mday t \<and> tm_mday t \<le> 31 \<and> 0 \<le> tm_hour t \<and> tm_hour t < 24
     \<and> 0 \<le> tm_min t \<and> tm_min t < 60 \<and> 0 \<le> tm_sec t \<and> tm_sec t < 60"

lemma field_roundtrip:
  assumes "tm_ok t"
  shows "strptime_field z (CHR ''Y'') (strftime_field t (CHR ''Y'') @ r) u = Some (u\<lparr>tm_year := tm_year t\<rparr>, r)"
    "strptime_field z (CHR ''m'') (strftime_field t (CHR ''m'') @ r) u = Some (u\<lparr>tm_mon := tm_mon t\<rparr>, r)"
    "strptime_field z (CHR ''d'') (strftime_field t (CHR ''d'') @ r) u = Some (u\<lparr>tm_mday := tm_mday t\<rparr>, r)"
    "strptime_field z (CHR ''H'') (strftime_field t (CHR ''H'') @ r) u = Some (u\<lparr>tm_hour := tm_hour t\<rparr>, r)"
    "strptime_field z (CHR ''M'') (strftime_field t (CHR ''M'') @ r) u = Some (u\<lparr>tm_min := tm_min t\<rparr>, r)"
    "strptime_field z (CHR ''S'') (strftime_field t (CHR ''S'') @ r) u = Some (u\<lparr>tm_sec := tm_sec t\<rparr>, r)"
proof -
  have ok: "0 \<le> tm_mon t + 1" "tm_mon t + 1 < 100" "1 \<le> nat (tm_mon t + 1)" "nat (tm_mon t + 1) \<le> 12"
    "0 \<le> tm_mday t" "tm_mday t < 100" "1 \<le> nat (tm_mday t)" "nat (tm_mday t) \<le> 31"
    "0 \<le> tm_hour t" "tm_hour t < 100" "nat (tm_hour t) \<le> 23" "0 \<le> tm_min t" "tm_min t < 100" "nat (tm_min t) \<le> 59"
    "0 \<le> tm_sec t" "tm_sec t < 100" "nat (tm_sec t) \<le> 61" "1000 \<le> nat (tm_year t + 1900)" "nat (tm_year t + 1900) < 10000"
    using assms by (auto simp: tm_ok_def)
  have y: "get_number 0 9999 4 (print_nat 10 (nat (tm_year t + 1900)) @ r) = Some (tm_year t + 1900, r)"
    using get_number_year[OF ok(18,19)] ok(18) by simp
  note n = y get_number_pad2[OF ok(1-4)] get_number_pad2[OF ok(5-8)] get_number_pad2[OF ok(9,10) le0 ok(11)]
    get_number_pad2[OF ok(12,13) le0 ok(14)] get_number_pad2[OF ok(15,16) le0 ok(17)]
  show "strptime_field z (CHR ''Y'') (strftime_field t (CHR ''Y'') @ r) u = Some (u\<lparr>tm_year := tm_year t\<rparr>, r)"
    "strptime_field z (CHR ''m'') (strftime_field t (CHR ''m'') @ r) u = Some (u\<lparr>tm_mon := tm_mon t\<rparr>, r)"
    "strptime_field z (CHR ''d'') (strftime_field t (CHR ''d'') @ r) u = Some (u\<lparr>tm_mday := tm_mday t\<rparr>, r)"
    "strptime_field z (CHR ''H'') (strftime_field t (CHR ''H'') @ r) u = Some (u\<lparr>tm_hour := tm_hour t\<rparr>, r)"
    "strptime_field z (CHR ''M'') (strftime_field t (CHR ''M'') @ r) u = Some (u\<lparr>tm_min := tm_min t\<rparr>, r)"
    "strptime_field z (CHR ''S'') (strftime_field t (CHR ''S'') @ r) u = Some (u\<lparr>tm_sec := tm_sec t\<rparr>, r)"
    unfolding strptime_field_def strftime_field_def by (simp_all add: n del: One_nat_def)
qed

definition clock_fields :: "tm \<Rightarrow> tm" where
  "clock_fields t = zero_tm\<lparr>tm_year := tm_year t, tm_mon := tm_mon t, tm_mday := tm_mday t, tm_hour := tm_hour t,
     tm_min := tm_min t, tm_sec := tm_sec t\<rparr>"

lemma timegm_clock_fields [simp]: "timegm (clock_fields t) = timegm t"
  by (simp add: timegm_def clock_fields_def Let_def)

lemma match_literal:
  "match_char (CHR ''-'') (CHR ''-'' # r) = Some r" "match_char (CHR ''T'') (CHR ''T'' # r) = Some r"
  "match_char (CHR '':'') (CHR '':'' # r) = Some r" "match_char (CHR ''Z'') (CHR ''Z'' # r) = Some r"
  by (simp_all add: match_char_def is_space_def)

lemma match_space:
  assumes "tm_ok t"
  shows "match_char (CHR '' '') (CHR '' '' # strftime_field t (CHR ''H'') @ r) = Some (strftime_field t (CHR ''H'') @ r)"
proof -
  have "0 \<le> tm_hour t" "tm_hour t < 100" "nat (tm_hour t) div 10 < 10" using assms by (auto simp: tm_ok_def)
  moreover have "is_space (CHR '' '')" by (simp add: is_space_def)
  ultimately show ?thesis using digit_char_props(1)[of "nat (tm_hour t) div 10"]
    by (simp add: match_char_def strftime_field_def pad2_digits)
qed

lemmas scan_simps = field_roundtrip match_literal match_space strptime_def strftime_def expand_fmt_def

lemma iso_scan:
  assumes "tm_ok t"
  shows "strptime z ''%FT%TZ'' (strftime ''%FT%TZ'' t) = Some (clock_fields t, [])"
  using assms by (simp add: scan_simps clock_fields_def zero_tm_def)

lemma pretty_scan:
  assumes "tm_ok t"
  shows "strptime z ''%Y-%m-%d %H:%M:%S'' (strftime ''%Y-%m-%d %H:%M:%S'' t) = Some (clock_fields t, [])"
  using assms field_roundtrip(6)[OF assms, of z "[]"] by (simp add: scan_simps clock_fields_def zero_tm_def)

lemma rfc_scan:
  assumes "tm_ok t"
  shows "strptime z ''%Y%m%dT%H%M%S'' (strftime ''%Y%m%dT%H%M%S'' t @ r) = Some (clock_fields t, r)"
  using assms by (simp add: scan_simps clock_fields_def zero_tm_def)

lemma daysBefore_mono: "y \<le> z \<Longrightarrow> daysBefore y \<le> daysBefore z"
proof (induction z rule: int_ge_induct)
  case (step z)
  then show ?case by (simp add: daysBefore_Suc)
qed simp

lemma gmtime_ok:
  assumes "0 \<le> t" "t < 253402300800"
  shows "tm_ok (gmtime t)"
proof -
  have "t div 86400 < 2932897" using assms by linarith
  then have "daysBefore (tm_year (gmtime t) + 1900) < daysBefore 10000"
    using gmtime_fields(8)[OF assms(1)] by (simp add: daysBefore_def)
  then have "tm_year (gmtime t) + 1900 < 10000"
    using daysBefore_mono[of 10000 "tm_year (gmtime t) + 1900"] by linarith
  then show ?thesis using gmtime_fields[OF assms(1)] by (simp add: tm_ok_def)
qed

text \<open>The texts have no NUL, and their lengths are fixed.\<close>

lemma field_text:
  assumes "tm_ok t" "f \<in> {CHR ''Y'', CHR ''m'', CHR ''d'', CHR ''H'', CHR ''M'', CHR ''S''}"
  shows "CHR 0x00 \<notin> set (strftime_field t f)" "length (strftime_field t f) = (if f = CHR ''Y'' then 4 else 2)"
proof -
  have p: "CHR 0x00 \<notin> set (pad2 n) \<and> length (pad2 n) = 2" if "0 \<le> n" "n < 100" for n
  proof -
    have "nat n div 10 < 10" using that by auto
    then show ?thesis
    using that digit_char_props(6)[of "nat n div 10"] digit_char_props(6)[of "nat n mod 10"] by (simp add: pad2_digits)
  qed
  have y: "1000 \<le> nat (tm_year t + 1900)" "nat (tm_year t + 1900) < 10000" using assms(1) by (auto simp: tm_ok_def)
  have "CHR 0x00 \<notin> set (print_nat 10 (nat (tm_year t + 1900))) \<and> length (print_nat 10 (nat (tm_year t + 1900))) = 4"
    unfolding print10_four[OF y] using y digit_char_props(6) by (auto simp: eq_commute[of "CHR 0x00"])
  then show "CHR 0x00 \<notin> set (strftime_field t f)" "length (strftime_field t f) = (if f = CHR ''Y'' then 4 else 2)"
    using assms p[of "tm_mon t + 1"] p[of "tm_mday t"] p[of "tm_hour t"] p[of "tm_min t"] p[of "tm_sec t"]
    unfolding tm_ok_def strftime_field_def by auto
qed

lemma c_str_clean: "CHR 0x00 \<notin> set s \<Longrightarrow> c_str s = s"
  unfolding c_str_def by (rule takeWhile_eq_all_conv[THEN iffD2]) auto

lemma last_field_digit:
  assumes "tm_ok t"
  shows "last (strftime ''%Y%m%dT%H%M%S'' t) \<noteq> CHR ''Z''"
proof -
  have "0 \<le> tm_sec t" "tm_sec t < 100" using assms by (simp_all add: tm_ok_def)
  then have "strftime_field t (CHR ''S'') = [digit_char (nat (tm_sec t) div 10), digit_char (nat (tm_sec t) mod 10)]"
    by (simp add: strftime_field_def pad2_digits)
  moreover have "digit_char (nat (tm_sec t) mod 10) \<noteq> CHR ''Z''"
    by (rule char_neq_of_char) (simp add: of_char_digit_char)
  ultimately show ?thesis by (simp add: strftime_def expand_fmt_def)
qed

lemma printed_text:
  assumes "tm_ok t"
  shows "length (strftime ''%FT%TZ'' t) = 20" "last (strftime ''%FT%TZ'' t) = CHR ''Z''"
    "c_str (strftime ''%FT%TZ'' t) = strftime ''%FT%TZ'' t"
    "c_str (strftime ''%Y-%m-%d %H:%M:%S'' t) = strftime ''%Y-%m-%d %H:%M:%S'' t"
    "length (strftime ''%Y%m%dT%H%M%S'' t) = 15" "c_str (strftime ''%Y%m%dT%H%M%S'' t) = strftime ''%Y%m%dT%H%M%S'' t"
    "c_str (strftime ''%Y%m%dT%H%M%S'' t @ ''Z'') = strftime ''%Y%m%dT%H%M%S'' t @ ''Z''"
  using field_text[OF assms]
  by (simp_all add: strftime_def expand_fmt_def c_str_clean)

section \<open>Round trips\<close>

lemma mktime_clock [simp]: "mktime Z (t\<lparr>tm_isdst := f\<rparr>) = tz_mk Z f (timegm t)"
  by (simp add: mktime_def timegm_def Let_def)

lemma timegm_localtime: "0 \<le> t + tz_off Z t \<Longrightarrow> timegm (localtime Z t) = t + tz_off Z t"
  using gmtime_fields(1)[of "t + tz_off Z t"] by (simp add: localtime_def timegm_def Let_def)

lemma localtime_ok: "0 \<le> t + tz_off Z t \<Longrightarrow> t + tz_off Z t < 253402300800 \<Longrightarrow> tm_ok (localtime Z t)"
  using gmtime_ok[of "t + tz_off Z t"] by (simp add: localtime_def tm_ok_def)

lemma iso_parsed:
  assumes "0 \<le> t" "t < 253402300800"
  shows "parseISO8601 Z (toISO8601 (atSecond t)) = map_option (\<lambda>t0. atSecond (t0 + tz_off Z t0)) (tz_mk Z (-1) t)"
proof -
  note ok = gmtime_ok[OF assms]
  have ne: "strftime ''%FT%TZ'' (gmtime t) \<noteq> []" using printed_text(1)[OF ok] by auto
  have off: "tm_gmtoff (clock_fields (gmtime t)) = 0" by (simp add: clock_fields_def zero_tm_def)
  show ?thesis
    unfolding toISO8601_def atSecond_def parseISO8601_def Let_def
    using printed_text(1-3)[OF ok] iso_scan[OF ok, of "tz_parse Z"] ne gmtime_fields(1)[OF assms(1)]
    by (simp add: convertTZ_def off split: option.split)
qed

text \<open>
  C36: A time from 1970 to the end of 9999 printed in UTC by \<^verbatim>\<open>toISO8601\<close> is read back by \<^verbatim>\<open>parseISO8601\<close>,
  provided that the local clock shows the same date and time at some instant and \<^verbatim>\<open>mktime\<close> finds it.
\<close>

theorem iso_roundtrip:
  assumes "0 \<le> t" "t < 253402300800"
    and "tz_mk Z (-1) t = Some t0" "t0 + tz_off Z t0 = t"
  shows "parseISO8601 Z (toISO8601 (atSecond t)) = Some (atSecond t)"
  unfolding iso_parsed[OF assms(1,2)] using assms(3,4) by simp

text \<open>A zone with the change to summer time of March 2021 in central Europe.\<close>

definition zurich :: tzone where
  "zurich = \<lparr>tz_off = (\<lambda>t. if t < 1616893200 then 3600 else 7200), tz_dst = (\<lambda>t. if t < 1616893200 then 0 else 1),
     tz_mk = (\<lambda>f w. Some (if w - 3600 < 1616893200 then w - 3600 else w - 7200)),
     tz_parse = (\<lambda>s. None), tz_minutes = (\<lambda>s. None)\<rparr>"

theorem iso_roundtrip_witness:
  "parseISO8601 zurich (toISO8601 (atSecond 1616895000)) = Some (atSecond 1616895000)"
  by (rule iso_roundtrip[of _ _ 1616891400]) (simp_all add: zurich_def)

text \<open>
  When the local clock skips a date and time, as it does at the change to summer time, the text
  that \<^verbatim>\<open>toISO8601\<close> prints for that time in UTC is not read back as the same time, whatever
  \<^verbatim>\<open>mktime\<close> makes of it.
\<close>

theorem iso_gap_broken:
  assumes "0 \<le> t" "t < 253402300800" and gap: "\<forall>t0. t0 + tz_off Z t0 \<noteq> t"
  shows "parseISO8601 Z (toISO8601 (atSecond t)) \<noteq> Some (atSecond t)"
  unfolding iso_parsed[OF assms(1,2)] using gap by (simp add: atSecond_def)

theorem iso_gap_broken_witness:
  "parseISO8601 zurich (toISO8601 (atSecond 1616898600)) \<noteq> Some (atSecond 1616898600)"
proof (rule iso_gap_broken)
  show "\<forall>t0. t0 + tz_off zurich t0 \<noteq> 1616898600"
  proof
    fix t0 :: int
    show "t0 + tz_off zurich t0 \<noteq> 1616898600" by (cases "t0 < 1616893200") (simp_all add: zurich_def)
  qed
qed simp_all

text \<open>
  A time whose local date and time lie between 1970 and the end of 9999 is read back from the
  local texts of \<^verbatim>\<open>toPrettyString\<close> and \<^verbatim>\<open>toRFC2445IcalDataTime\<close>, when \<^verbatim>\<open>mktime\<close> undoes \<^verbatim>\<open>localtime_r\<close>.
\<close>

theorem local_text_roundtrip:
  assumes "0 \<le> t + tz_off Z t" "t + tz_off Z t < 253402300800"
    and "tz_mk Z (-1) (t + tz_off Z t) = Some t"
  shows "parsePrettyString Z (toPrettyString Z (atSecond t)) = Some (atSecond t)
       \<and> parseRFC2445 Z (toRFC2445IcalDataTime Z (atSecond t)) = Some (atSecond t)"
proof
  note ok = localtime_ok[OF assms(1,2)]
  show "parsePrettyString Z (toPrettyString Z (atSecond t)) = Some (atSecond t)"
    unfolding parsePrettyString_def toPrettyString_def
    using printed_text(4)[OF ok] pretty_scan[OF ok, of "tz_parse Z"] timegm_localtime[OF assms(1)] assms(3)
    by (simp add: atSecond_def)
  have nz: "last (strftime ''%Y%m%dT%H%M%S'' (localtime Z t)) \<noteq> CHR ''Z''" using last_field_digit[OF ok] .
  show "parseRFC2445 Z (toRFC2445IcalDataTime Z (atSecond t)) = Some (atSecond t)"
    unfolding parseRFC2445_def toRFC2445IcalDataTime_def
    using printed_text(5,6)[OF ok] rfc_scan[OF ok, of "tz_parse Z" "[]"] timegm_localtime[OF assms(1)] assms(3) nz
    by (simp add: atSecond_def)
qed

theorem local_text_roundtrip_witness:
  "parsePrettyString zurich (toPrettyString zurich (atSecond 1616893200)) = Some (atSecond 1616893200)
   \<and> parseRFC2445 zurich (toRFC2445IcalDataTime zurich (atSecond 1616893200)) = Some (atSecond 1616893200)"
  by (rule local_text_roundtrip) (simp_all add: zurich_def)

section \<open>Time stamps\<close>

definition nanos :: "TimeStamp \<Rightarrow> int" where
  "nanos a = ts_sec a * 1000000000 + ts_nsec a"

definition ts_norm :: "TimeStamp \<Rightarrow> bool" where
  "ts_norm a \<longleftrightarrow> 0 \<le> ts_nsec a \<and> ts_nsec a < 1000000000"

text \<open>
  C37: On normalised time stamps the operations compute with the nanoseconds they stand for: sums and
  differences are normalised and have the sum and the difference of the values, a sum minus one
  of its parts gives the other, and the order is that of the values.
\<close>

theorem timestamp_arithmetic:
  assumes "ts_norm a" "ts_norm b"
  shows "ts_norm (timespec_add a b) \<and> nanos (timespec_add a b) = nanos a + nanos b
       \<and> ts_norm (timespec_sub a b) \<and> nanos (timespec_sub a b) = nanos a - nanos b
       \<and> timespec_sub (timespec_add a b) b = a \<and> (timespec_less a b \<longleftrightarrow> nanos a < nanos b)"
proof -
  have less: "timespec_less a b \<longleftrightarrow> nanos a < nanos b"
    using assms unfolding timespec_less_def nanos_def ts_norm_def by (cases "ts_sec a = ts_sec b") auto
  show ?thesis using assms less
    by (cases a; cases b) (simp add: ts_norm_def nanos_def timespec_add_def timespec_sub_def Let_def)
qed

theorem timestamp_arithmetic_witness:
  "timespec_sub (timespec_add \<lparr>ts_sec = 1, ts_nsec = 999999999\<rparr> \<lparr>ts_sec = 2, ts_nsec = 5\<rparr>) \<lparr>ts_sec = 2, ts_nsec = 5\<rparr>
     = \<lparr>ts_sec = 1, ts_nsec = 999999999\<rparr>"
  using timestamp_arithmetic[of "\<lparr>ts_sec = 1, ts_nsec = 999999999\<rparr>" "\<lparr>ts_sec = 2, ts_nsec = 5\<rparr>"] by (simp add: ts_norm_def)

end
