(* ===== verification/Trigger_Laws.thy ===== *)
theory Trigger_Laws
  imports System_Trigger State_Laws Date_Laws
begin

text \<open>
  Laws of the conditions and of the trigger handler: the window of the day, calendar events,
  required states, state change triggers, and damping as a rate limiter.
\<close>

section \<open>The tree under a change of values\<close>

lemma same_shape_alias_end: "same_shape h h' \<Longrightarrow> alias_end h' n = alias_end h n"
  by (rule alias_end_cong) (simp add: same_shape_def)

lemma findChild_shape: "same_shape h h' \<Longrightarrow> findChild h' cs p i l = findChild h cs p i l"
  by (induction cs arbitrary: l) (simp_all add: same_shape_def)

lemma byName_children:
  "getPropertyByName h n name =
     forwardGet h n (\<lambda>m. let (i, p) = getAndRemoveIndexFromPropertyName name
                         in Inr (if m_ChildNodes (node h m) = None then None else findChild h (children h m) p i None))"
  by (auto simp: getPropertyByName_def forwardGet_def children_def Let_def split: option.split prod.split)

lemma findChild_nil [simp]: "findChild h [] p i None = None"
  by simp

lemma getPropertyByName_alt:
  "getPropertyByName h n name =
     forwardGet h n (\<lambda>m. let (i, p) = getAndRemoveIndexFromPropertyName name
                         in Inr (findChild h (children h m) p i None))"
  unfolding byName_children by (auto simp: forwardGet_def children_def Let_def split: option.split prod.split)

lemma getPropertyByName_shape:
  "same_shape h h' \<Longrightarrow> getPropertyByName h' n name = getPropertyByName h n name"
  by (simp add: getPropertyByName_alt forwardGet_def same_shape_alias_end findChild_shape split: option.split)
     (simp add: same_shape_def)

lemma getProperty_shape:
  "same_shape h h' \<Longrightarrow> getProperty h' n p = getProperty h n p"
proof (induction h n p rule: getProperty.induct)
  case (1 h n p)
  show ?case
  proof (cases "alias_end h n")
    case None
    then show ?thesis using same_shape_alias_end[OF 1(2)] by (simp add: getProperty.simps[of h] getProperty.simps[of h'])
  next
    case (Some m)
    obtain a t where at: "carCdrPath p = (a, t)" by fastforce
    have "getProperty h' c t = getProperty h c t"
      if "\<not> (p = [] \<or> p = ''/'')" "getPropertyByName h m a = Inr (Some c)" "t \<noteq> []" for c
      using 1(1)[OF Some that(1) at[symmetric] refl that(2) refl that(3) 1(2)] .
    then show ?thesis
      using Some same_shape_alias_end[OF 1(2)] getPropertyByName_shape[OF 1(2)] at
      by (auto simp: getProperty.simps[of h] getProperty.simps[of h'] split: sum.split option.split)
  qed
qed

text \<open>Storing a text in a node of its own.\<close>

lemma setString_eq:
  assumes "m_AliasTarget (node h ts) = None" "m_Proxy (node h ts) = None" "node_ok (node h ts)" "ancestors h ts ps"
  shows "setStringValue h ts s = (changed (store h ts (CString (c_str s))) ts ps, Inr ())"
  using setValue_eq[of h ts ts ps "CString s"] assms by simp

lemma stored_shape: "same_shape h (changed (store h k v) k ps)"
  unfolding changed_def store_def
  by (rule same_shape_trans[OF upd_same_shape fields_same_shape(2)]) simp_all

lemma stored_other:
  "m \<noteq> k \<Longrightarrow> getTyped (store h k v) m t = getTyped h m t"
  by (simp add: getTyped_def store_def changed_def mismatch_def Let_def split: option.split)

lemma stored_text:
  assumes "m_AliasTarget (node h ts) = None" "m_Proxy (node h ts) = None"
  shows "getAsString dts (changed (store h ts (CString s)) ts ps) ts = Inr s"
    "m_AliasTarget (node (changed (store h ts (CString s)) ts ps) ts) = None"
    "m_Proxy (node (changed (store h ts (CString s)) ts ps) ts) = None"
    "node_ok (node (changed (store h ts (CString s)) ts ps) ts)"
    "m_ValueType (node (changed (store h ts (CString s)) ts ps) ts) = vTypeString"
    "m_Actual (node (changed (store h ts (CString s)) ts ps) ts) = UString s"
  using assms
  by (simp_all add: getAsString_def forwardGet_def getValueType_def getStringValue_def getTyped_def changed_def
      store_def node_ok_def)

section \<open>Damping\<close>

text \<open>
  A trigger with damping: the interval, whether the timer is rewound, and the text of the last
  trigger.  The three values are in different nodes, and the node of the last trigger has its own value.
\<close>

definition own_text :: "pheap \<Rightarrow> nodeid \<Rightarrow> string \<Rightarrow> bool" where
  "own_text h ts text \<longleftrightarrow> m_AliasTarget (node h ts) = None \<and> m_Proxy (node h ts) = None
     \<and> m_ValueType (node h ts) = vTypeString \<and> m_Actual (node h ts) = UString text \<and> (\<exists>ps. ancestors h ts ps)"

definition rewind_at :: "pheap \<Rightarrow> nodeid \<Rightarrow> nodeid \<Rightarrow> bool \<Rightarrow> bool" where
  "rewind_at h d ts rewind \<longleftrightarrow>
     (case getProperty h d ''rewindTimer'' of
        Inl _ \<Rightarrow> False
      | Inr None \<Rightarrow> \<not> rewind
      | Inr (Some r) \<Rightarrow> getBoolValue h r = Inr rewind \<and> alias_end h r \<noteq> Some ts)"

definition damp_at :: "pheap \<Rightarrow> nodeid \<Rightarrow> nodeid \<Rightarrow> nodeid \<Rightarrow> nodeid \<Rightarrow> u32 \<Rightarrow> bool \<Rightarrow> string \<Rightarrow> bool" where
  "damp_at h n d iv ts interval rewind text \<longleftrightarrow>
     getProperty h n ''damping'' = Inr (Some d) \<and> getProperty h d ''interval'' = Inr (Some iv)
     \<and> getProperty h d ''lastTrigger'' = Inr (Some ts) \<and> getIntegerValue h iv = Inr interval
     \<and> alias_end h iv \<noteq> Some ts \<and> own_text h ts text \<and> rewind_at h d ts rewind"

lemma getter_stored:
  assumes "alias_end h k \<noteq> Some ts"
  shows "getIntegerValue (changed (store h ts v) ts ps) k = getIntegerValue h k"
    "getBoolValue (changed (store h ts v) ts ps) k = getBoolValue h k"
  using assms by (auto simp: getter_defs forwardGet_def stored_other split: option.split)

lemma own_text_stored:
  assumes "own_text h ts text"
  obtains h' where "setStringValue h ts s = (h', Inr ())" "own_text h' ts (c_str s)" "same_shape h h'"
    "\<And>k. alias_end h k \<noteq> Some ts \<Longrightarrow> getIntegerValue h' k = getIntegerValue h k \<and> getBoolValue h' k = getBoolValue h k"
proof -
  obtain ps where ts: "m_AliasTarget (node h ts) = None" "m_Proxy (node h ts) = None" "ancestors h ts ps"
      "node_ok (node h ts)"
    using assms by (auto simp: own_text_def node_ok_def)
  let ?h = "changed (store h ts (CString (c_str s))) ts ps"
  have "own_text ?h ts (c_str s)"
    using stored_text[OF ts(1,2)] same_shape_ancestors[OF stored_shape ts(3)] unfolding own_text_def by blast
  then show ?thesis using that[OF setString_eq[OF ts(1,2,4,3)]] stored_shape getter_stored by blast
qed

lemma damp_at_stored:
  assumes "damp_at h n d iv ts interval rewind text"
  shows "\<exists>h'. setStringValue h ts s = (h', Inr ()) \<and> damp_at h' n d iv ts interval rewind (c_str s)"
proof -
  have own: "own_text h ts text" using assms by (simp add: damp_at_def)
  obtain h' where h': "setStringValue h ts s = (h', Inr ())" "own_text h' ts (c_str s)" "same_shape h h'"
    "\<And>k. alias_end h k \<noteq> Some ts \<Longrightarrow> getIntegerValue h' k = getIntegerValue h k \<and> getBoolValue h' k = getBoolValue h k"
    using own_text_stored[OF own, of s] by metis
  have "rewind_at h' d ts rewind"
    using assms h'(4) same_shape_alias_end[OF h'(3)] getProperty_shape[OF h'(3)]
    by (auto simp: damp_at_def rewind_at_def split: sum.splits option.splits)
  then have "damp_at h' n d iv ts interval rewind (c_str s)"
    using assms h'(2,4) same_shape_alias_end[OF h'(3)] getProperty_shape[OF h'(3)] by (simp add: damp_at_def)
  then show ?thesis using h'(1) by blast
qed

text \<open>The clock and the time zone can be relied on at a time.\<close>

definition clock_ok :: "tzone \<Rightarrow> int \<Rightarrow> bool" where
  "clock_ok Z t \<longleftrightarrow> 0 \<le> t \<and> t < 253402300800 \<and> (\<exists>t0. tz_mk Z (-1) t = Some t0 \<and> t0 + tz_off Z t0 = t)"

lemma clock_text:
  assumes "clock_ok Z t"
  shows "parseISO8601 Z (toISO8601 (atSecond t)) = Some (atSecond t)" "c_str (toISO8601 (atSecond t)) = toISO8601 (atSecond t)"
proof -
  show "parseISO8601 Z (toISO8601 (atSecond t)) = Some (atSecond t)"
    using assms iso_parsed[of t Z] by (auto simp: clock_ok_def)
  show "c_str (toISO8601 (atSecond t)) = toISO8601 (atSecond t)"
    using assms printed_text(3)[OF gmtime_ok[of t]] by (simp add: clock_ok_def toISO8601_def atSecond_def)
qed

text \<open>What damping is meant to do, with the time of the last trigger as its state.\<close>

definition dampStep :: "int \<Rightarrow> bool \<Rightarrow> int \<Rightarrow> int \<Rightarrow> bool \<times> int" where
  "dampStep interval rewind prev now =
     (if now - prev < interval then (True, if rewind then now else prev) else (False, now))"

lemma damping_step:
  assumes st: "damp_at h n d iv ts interval rewind (toISO8601 (atSecond prev))" and i: "0 \<le> sint interval"
    and cl: "clock_ok (c_tz V) prev" "clock_ok (c_tz V) (c_now V)" and df: "\<bar>c_now V - prev\<bar> < 2 ^ 31"
  shows "\<exists>h'. damping V h n = (h', Inr (fst (dampStep (sint interval) rewind prev (c_now V))))
    \<and> damp_at h' n d iv ts interval rewind (toISO8601 (atSecond (snd (dampStep (sint interval) rewind prev (c_now V)))))"
proof -
  let ?t = "toISO8601 (atSecond (c_now V))"
  have tx: "c_str ?t = ?t" using clock_text(2)[OF cl(2)] .
  have age: "ageOf V h ts = Inr (atSecond prev)"
    using st clock_text(1)[OF cl(1)]
    by (simp add: ageOf_def damp_at_def own_text_def getAsString_def forwardGet_def getValueType_def getStringValue_def getTyped_def)
  have since: "secondsSince V (atSecond prev) = Inr (c_now V - prev)"
    using df by (auto simp: secondsSince_def difference_def atSecond_def Let_def)
  obtain h1 where h1: "setStringValue h ts (nowText V) = (h1, Inr ())" "damp_at h1 n d iv ts interval rewind ?t"
    using damp_at_stored[OF st, of ?t] tx by (auto simp: nowText_def)
  obtain h2 where h2: "setStringValue h1 ts (nowText V) = (h2, Inr ())" "damp_at h2 n d iv ts interval rewind ?t"
    using damp_at_stored[OF h1(2), of ?t] tx by (auto simp: nowText_def)
  have rw: "\<exists>r. getProperty h d ''rewindTimer'' = Inr r \<and>
      (case r of None \<Rightarrow> (h, Inr False) | Some r \<Rightarrow> peek h (getBoolValue h r)) = (h, Inr rewind)"
    using st by (auto simp: damp_at_def rewind_at_def peek_def split: sum.splits option.splits)
  have base: "damping V h n =
      andThen (if rewind then setStringValue h ts (nowText V) else (h, Inr ())) (\<lambda>h _.
        if c_now V - prev < sint interval then (h, Inr True)
        else andThen (setStringValue h ts (nowText V)) (\<lambda>h _. (h, Inr False)))"
    using st i age since rw unfolding damping_def damp_at_def
    by (auto simp: peek_def)
  show ?thesis
    unfolding base using st h1 h2 by (auto simp: dampStep_def)
qed

text \<open>
  C35: Damping is the rate limiter it is meant to be: on a tree that holds an interval, the flag for
  rewinding and the text of the last trigger, \<^verbatim>\<open>damping\<close> answers as \<open>dampStep\<close> does on the time of the
  last trigger, and leaves the text of the new one.
\<close>

theorem damping_refines:
  assumes "damp_at h n d iv ts interval rewind (toISO8601 (atSecond prev))" "0 \<le> sint interval"
    "clock_ok (c_tz V) prev" "clock_ok (c_tz V) (c_now V)" "\<bar>c_now V - prev\<bar> < 2 ^ 31"
  shows "\<exists>h'. damping V h n = (h', Inr (fst (dampStep (sint interval) rewind prev (c_now V))))
    \<and> damp_at h' n d iv ts interval rewind (toISO8601 (atSecond (snd (dampStep (sint interval) rewind prev (c_now V)))))"
  by (rule damping_step[OF assms])

text \<open>A sequence of calls at the given times: the tree, and the times that were not damped.\<close>

fun dampRun :: "tenv \<Rightarrow> nodeid \<Rightarrow> int list \<Rightarrow> pheap \<Rightarrow> (pheap \<times> int list) option" where
  "dampRun V n [] h = Some (h, [])"
| "dampRun V n (t # tms) h =
     (case damping (V\<lparr>c_now := t\<rparr>) h n of
        (h, Inr damped) \<Rightarrow>
          map_option (\<lambda>(h, acc). (h, if damped then acc else t # acc)) (dampRun V n tms h)
      | (h, Inl e) \<Rightarrow> None)"

lemma dampRun_spaced:
  assumes "damp_at h n d iv ts interval rewind (toISO8601 (atSecond prev))" "0 \<le> sint interval"
    "\<forall>t \<in> set (prev # tms). clock_ok (c_tz V) t \<and> t < start + 2 ^ 31" "sorted (prev # tms)" "start \<le> prev"
  shows "\<exists>h' acc. dampRun V n tms h = Some (h', acc) \<and> set acc \<subseteq> set tms
    \<and> (\<forall>a \<in> set acc. sint interval \<le> a - prev) \<and> sorted_wrt (\<lambda>a b. sint interval \<le> b - a) acc
    \<and> (rewind \<or> (\<forall>t \<in> set tms. t \<in> set acc \<or> (\<exists>a \<in> set (prev # acc). a \<le> t \<and> t - a < sint interval)))"
  using assms
proof (induction tms arbitrary: h prev)
  case (Cons t tms)
  let ?V = "V\<lparr>c_now := t\<rparr>"
  define nxt where "nxt = snd (dampStep (sint interval) rewind prev t)"
  have t: "prev \<le> t" "clock_ok (c_tz ?V) prev" "clock_ok (c_tz ?V) (c_now ?V)" "\<bar>c_now ?V - prev\<bar> < 2 ^ 31"
    using Cons.prems(3,4,5) by auto
  obtain h1 where h1: "damping ?V h n = (h1, Inr (fst (dampStep (sint interval) rewind prev t)))"
      "damp_at h1 n d iv ts interval rewind (toISO8601 (atSecond nxt))"
    using damping_step[OF Cons.prems(1,2) t(2-4)] unfolding nxt_def by auto
  have nx: "prev \<le> nxt" "nxt \<le> t" "nxt = prev \<or> nxt = t" using t(1) by (auto simp: nxt_def dampStep_def)
  have ok: "\<forall>u \<in> set (nxt # tms). clock_ok (c_tz V) u \<and> u < start + 2 ^ 31" using Cons.prems(3) nx(3) by auto
  have so: "sorted (nxt # tms)" "start \<le> nxt" using Cons.prems(4,5) nx by auto
  obtain h2 acc where r: "dampRun V n tms h1 = Some (h2, acc)" "set acc \<subseteq> set tms"
      "\<forall>a \<in> set acc. sint interval \<le> a - nxt" "sorted_wrt (\<lambda>a b. sint interval \<le> b - a) acc"
      "rewind \<or> (\<forall>t \<in> set tms. t \<in> set acc \<or> (\<exists>a \<in> set (nxt # acc). a \<le> t \<and> t - a < sint interval))"
    using Cons.IH[OF h1(2) Cons.prems(2) ok so] by blast
  have far: "\<forall>a \<in> set acc. sint interval \<le> a - prev" using r(3) nx(1) by auto
  show ?case
  proof (cases "t - prev < sint interval")
    case True
    then have "fst (dampStep (sint interval) rewind prev t)" "\<not> rewind \<Longrightarrow> nxt = prev"
      by (simp_all add: dampStep_def nxt_def)
    then show ?thesis using True h1(1) r far t(1) by auto
  next
    case False
    then have "\<not> fst (dampStep (sint interval) rewind prev t)" "nxt = t" by (simp_all add: dampStep_def nxt_def)
    then show ?thesis using False h1(1) r far t(1) by auto
  qed
qed simp

text \<open>
  C4: Whatever the times at which a trigger matches, the calls that \<^verbatim>\<open>damping\<close> lets through are at
  least the interval apart from each other and from the last one before; without rewinding, each
  call it stops comes within the interval after one that was let through.
\<close>

theorem damping_rate_limit:
  assumes "damp_at h n d iv ts interval rewind (toISO8601 (atSecond prev))" "0 \<le> sint interval"
    "\<forall>t \<in> set (prev # tms). clock_ok (c_tz V) t \<and> t < prev + 2 ^ 31" "sorted (prev # tms)"
  shows "\<exists>h' acc. dampRun V n tms h = Some (h', acc) \<and> set acc \<subseteq> set tms
    \<and> sorted_wrt (\<lambda>a b. sint interval \<le> b - a) (prev # acc)
    \<and> (rewind \<or> (\<forall>t \<in> set tms. t \<in> set acc \<or> (\<exists>a \<in> set (prev # acc). a \<le> t \<and> t - a < sint interval)))"
  using dampRun_spaced[OF assms order_refl] by auto

text \<open>A tree with a trigger that is damped for a minute.\<close>

definition dampHeap :: pheap where
  "dampHeap = emptySystem\<lparr>nextId := 4, nodes := (\<lambda>k. newPropertyNode ''/'' 0)
     (0 := (newPropertyNode ''/'' 0)\<lparr>m_ChildNodes := Some [1]\<rparr>,
      1 := (newPropertyNode ''damping'' 0)\<lparr>m_ParentNode := Some 0, m_ChildNodes := Some [2, 3]\<rparr>,
      2 := (newPropertyNode ''interval'' 0)\<lparr>m_ParentNode := Some 1, m_ValueType := vTypeInteger, m_Actual := UInteger 60\<rparr>,
      3 := (newPropertyNode ''lastTrigger'' 0)\<lparr>m_ParentNode := Some 1, m_ValueType := vTypeString,
             m_Actual := UString (toISO8601 (atSecond 1000))\<rparr>)\<rparr>"

definition plainEnv :: tenv where
  "plainEnv = \<lparr>c_dts = (\<lambda>_. []), c_tz = utcZone, c_now = 1000, c_recur = (\<lambda>_ _. None), t_hasInstance = True,
     t_dsuid_from_string = (\<lambda>_. None), t_DSUID_NULL = replicate 17 0, t_strtod = (\<lambda>_. (0, 0)), t_garbage = replicate 17 0\<rparr>"

lemma dampHeap_nodes:
  "node dampHeap 0 = (newPropertyNode ''/'' 0)\<lparr>m_ChildNodes := Some [1]\<rparr>"
  "node dampHeap (Suc 0) = (newPropertyNode ''damping'' 0)\<lparr>m_ParentNode := Some 0, m_ChildNodes := Some [2, 3]\<rparr>"
  "node dampHeap 2 = (newPropertyNode ''interval'' 0)\<lparr>m_ParentNode := Some 1, m_ValueType := vTypeInteger, m_Actual := UInteger 60\<rparr>"
  "node dampHeap 3 = (newPropertyNode ''lastTrigger'' 0)\<lparr>m_ParentNode := Some 1, m_ValueType := vTypeString,
     m_Actual := UString (toISO8601 (atSecond 1000))\<rparr>"
  by (simp_all add: dampHeap_def)

lemma dampHeap_at: "damp_at dampHeap 0 1 2 3 60 False (toISO8601 (atSecond 1000))"
proof -
  have al: "alias_end dampHeap 0 = Some 0" "alias_end dampHeap (Suc 0) = Some (Suc 0)" "alias_end dampHeap 2 = Some 2"
    by (rule alias_end_self; simp add: dampHeap_nodes newPropertyNode_def)+
  have ch: "childNamed dampHeap 0 ''damping'' = Some 1" "childNamed dampHeap (Suc 0) ''interval'' = Some 2"
      "childNamed dampHeap (Suc 0) ''lastTrigger'' = Some 3" "childNamed dampHeap (Suc 0) ''rewindTimer'' = None"
    by (simp_all add: childNamed_def children_def dampHeap_nodes newPropertyNode_def key_def)
  have pl: "plain_name ''damping''" "plain_name ''interval''" "plain_name ''lastTrigger''" "plain_name ''rewindTimer''"
    by (simp_all add: plain_name_def)
  have "ancestors dampHeap 0 [0]" by (rule anc_root) (simp add: dampHeap_nodes newPropertyNode_def)
  then have "ancestors dampHeap 1 [1, 0]" by (rule anc_step[rotated]) (simp add: dampHeap_nodes newPropertyNode_def)
  then have "ancestors dampHeap 3 [3, 1, 0]" by (rule anc_step[rotated]) (simp add: dampHeap_nodes newPropertyNode_def)
  then have "own_text dampHeap 3 (toISO8601 (atSecond 1000))"
    by (auto simp: own_text_def dampHeap_nodes newPropertyNode_def)
  then show ?thesis
    using getProperty_single[OF pl(1) al(1)] getProperty_single[OF pl(2) al(2)] getProperty_single[OF pl(3) al(2)]
      getProperty_single[OF pl(4) al(2)] ch al(3)
    by (simp add: damp_at_def rewind_at_def getIntegerValue_def forwardGet_def getTyped_def dampHeap_nodes newPropertyNode_def)
qed

theorem damping_refines_witness: "\<exists>h'. damping (plainEnv\<lparr>c_now := 1059\<rparr>) dampHeap 0 = (h', Inr True)"
proof -
  have "\<exists>h'. damping (plainEnv\<lparr>c_now := 1059\<rparr>) dampHeap 0
        = (h', Inr (fst (dampStep (sint (60 :: u32)) False 1000 (c_now (plainEnv\<lparr>c_now := 1059\<rparr>)))))
      \<and> damp_at h' 0 1 2 3 60 False
          (toISO8601 (atSecond (snd (dampStep (sint (60 :: u32)) False 1000 (c_now (plainEnv\<lparr>c_now := 1059\<rparr>))))))"
    by (rule damping_refines[OF dampHeap_at]) (simp_all add: clock_ok_def plainEnv_def utcZone_def)
  then show ?thesis by (auto simp: dampStep_def)
qed

theorem damping_rate_limit_witness:
  "\<exists>h' acc. dampRun plainEnv 0 [1010, 1060, 1119, 1120] dampHeap = Some (h', acc) \<and> 1060 \<in> set acc \<and> 1010 \<notin> set acc"
proof -
  have "\<exists>h' acc. dampRun plainEnv 0 [1010, 1060, 1119, 1120] dampHeap = Some (h', acc) \<and> set acc \<subseteq> set [1010, 1060, 1119, 1120]
    \<and> sorted_wrt (\<lambda>a b. sint (60 :: u32) \<le> b - a) (1000 # acc)
    \<and> (False \<or> (\<forall>t \<in> set [1010, 1060, 1119, 1120]. t \<in> set acc \<or> (\<exists>a \<in> set (1000 # acc). a \<le> t \<and> t - a < sint (60 :: u32))))"
    by (rule damping_rate_limit[OF dampHeap_at]) (simp_all add: clock_ok_def plainEnv_def utcZone_def)
  then obtain h' acc where r: "dampRun plainEnv 0 [1010, 1060, 1119, 1120] dampHeap = Some (h', acc)"
      "\<forall>a \<in> set acc. 60 \<le> a - 1000" "1060 \<in> set acc \<or> (\<exists>a \<in> set (1000 # acc). a \<le> 1060 \<and> 1060 - a < 60)" by auto
  have "1010 \<notin> set acc" using r(2) by auto
  moreover have "1060 \<in> set acc"
  proof (rule ccontr)
    assume n: "1060 \<notin> set acc"
    then obtain a where "a \<in> set (1000 # acc)" "a \<le> 1060" "1060 - a < 60" using r(3) by blast
    then have "a \<in> set acc" "a \<le> 1060" by auto
    then have "a = 1060" using r(2) by force
    then show False using n \<open>a \<in> set acc\<close> by simp
  qed
  ultimately show ?thesis using r(1) by blast
qed

section \<open>Calendar events\<close>

text \<open>
  The occurrences that libical gives are in order; then the loop ends, and finds the date inside
  exactly when an occurrence covers it.
\<close>

definition covers :: "(nat \<Rightarrow> int option) \<Rightarrow> int \<Rightarrow> int \<Rightarrow> nat \<Rightarrow> bool" where
  "covers occ dur d k \<longleftrightarrow> (\<exists>i r. k \<le> i \<and> (\<forall>j. k \<le> j \<and> j \<le> i \<longrightarrow> occ j \<noteq> None) \<and> occ i = Some r \<and> r \<le> d \<and> d \<le> r + dur)"

definition in_order :: "(nat \<Rightarrow> int option) \<Rightarrow> bool" where
  "in_order occ \<longleftrightarrow> (\<forall>i r r'. occ i = Some r \<longrightarrow> occ (Suc i) = Some r' \<longrightarrow> r < r')"

lemma increasing_le:
  assumes "in_order occ" "occ k = Some r" "k \<le> i" "\<forall>j. k \<le> j \<and> j \<le> i \<longrightarrow> occ j \<noteq> None" "occ i = Some r'"
  shows "r \<le> r'"
  using assms(3-5)
proof (induction i arbitrary: r' rule: nat_induct_at_least)
  case base
  then show ?case using assms(2) by simp
next
  case (Suc i)
  have "occ i \<noteq> None" using Suc.prems(1) Suc.hyps by auto
  then obtain q where q: "occ i = Some q" by blast
  then have "r \<le> q" using Suc.IH Suc.prems(1) by auto
  then show ?case using assms(1) q Suc.prems(2) unfolding in_order_def by fastforce
qed

lemma insideLoop_covers:
  assumes inc: "in_order occ"
  shows "insideLoop occ dur d k = Some (covers occ dur d k)"
proof (induction "case occ k of None \<Rightarrow> 0 | Some r \<Rightarrow> nat (d - r + 2)" arbitrary: k rule: less_induct)
  case less
  show ?case
  proof (cases "occ k")
    case None
    then have "\<not> covers occ dur d k" unfolding covers_def by blast
    then show ?thesis using None by (simp add: insideLoop.simps[of _ _ _ k])
  next
    case (Some r)
    show ?thesis
    proof (cases "d < r")
      case True
      have "\<not> covers occ dur d k"
        unfolding covers_def using increasing_le[OF inc Some] True by fastforce
      then show ?thesis using Some True by (simp add: insideLoop.simps[of _ _ _ k])
    next
      case ge: False
      show ?thesis
      proof (cases "d \<le> r + dur")
        case True
        then have "covers occ dur d k" unfolding covers_def using Some ge by (intro exI[of _ k] exI[of _ r]) auto
        then show ?thesis using Some ge True by (simp add: insideLoop.simps[of _ _ _ k])
      next
        case False
        have "(case occ (Suc k) of None \<Rightarrow> 0 | Some r \<Rightarrow> nat (d - r + 2)) < (case occ k of None \<Rightarrow> 0 | Some r \<Rightarrow> nat (d - r + 2))"
          using Some ge inc unfolding in_order_def by (auto split: option.split)
        then have "insideLoop occ dur d (Suc k) = Some (covers occ dur d (Suc k))" by (rule less)
        moreover have "covers occ dur d k = covers occ dur d (Suc k)"
        proof
          assume "covers occ dur d k"
          then obtain i r' where i: "k \<le> i" "\<forall>j. k \<le> j \<and> j \<le> i \<longrightarrow> occ j \<noteq> None" "occ i = Some r'" "r' \<le> d" "d \<le> r' + dur"
            unfolding covers_def by blast
          moreover have "i \<noteq> k" using i(3,5) Some False by auto
          ultimately show "covers occ dur d (Suc k)" unfolding covers_def by (intro exI[of _ i] exI[of _ r']) auto
        next
          assume "covers occ dur d (Suc k)"
          then obtain i r' where i: "Suc k \<le> i" "\<forall>j. Suc k \<le> j \<and> j \<le> i \<longrightarrow> occ j \<noteq> None" "occ i = Some r'" "r' \<le> d" "d \<le> r' + dur"
            unfolding covers_def by blast
          have "occ j \<noteq> None" if "k \<le> j" "j \<le> i" for j using that i(2) Some by (cases "j = k") auto
          then show "covers occ dur d k" unfolding covers_def using i by (intro exI[of _ i] exI[of _ r']) auto
        qed
        ultimately show ?thesis using Some ge False by (simp add: insideLoop.simps[of _ _ _ k])
      qed
    qed
  qed
qed

text \<open>
  With a rule whose occurrences come in order, \<^verbatim>\<open>isDateInside\<close> always returns, and its answer is
  whether the local time lies in the duration after one of the occurrences.
\<close>

theorem ical_inside:
  assumes "c_recur C (ie_rrule ev) (ie_start ev) = Some occ" "in_order occ"
  shows "isDateInside C ev date = Inr (covers occ (ie_duration ev) (localSeconds (c_tz C) date) 0)"
  using assms(1) insideLoop_covers[OF assms(2)] by (simp add: isDateInside_def)

definition dailyEnv :: cenv where
  "dailyEnv = \<lparr>c_dts = (\<lambda>_. []), c_tz = utcZone, c_now = 0, c_recur = (\<lambda>_ s. Some (\<lambda>i. Some (s + 86400 * int i)))\<rparr>"

theorem ical_inside_witness:
  "isDateInside dailyEnv \<lparr>ie_rrule = ''FREQ=DAILY'', ie_start = 3600, ie_duration = 60\<rparr> (atSecond 90030) = Inr True"
proof -
  let ?ev = "\<lparr>ie_rrule = ''FREQ=DAILY'', ie_start = 3600, ie_duration = 60\<rparr>" and ?occ = "\<lambda>i. Some (3600 + 86400 * int i)"
  have "isDateInside dailyEnv ?ev (atSecond 90030)
      = Inr (covers ?occ (ie_duration ?ev) (localSeconds (c_tz dailyEnv) (atSecond 90030)) 0)"
    by (rule ical_inside) (simp_all add: dailyEnv_def in_order_def)
  moreover have "localSeconds (c_tz dailyEnv) (atSecond 90030) = 90030"
    by (simp add: localSeconds_def getTimezoneOffset_def localtime_def dailyEnv_def utcZone_def atSecond_def)
  moreover have "covers ?occ 60 90030 0"
    unfolding covers_def by (intro exI[of _ 1] exI[of _ 90000]) simp
  ultimately show ?thesis by simp
qed

section \<open>The window of the day\<close>

definition hms :: "nat \<Rightarrow> nat \<Rightarrow> nat \<Rightarrow> string" where
  "hms a b c = join [print_nat 10 a, print_nat 10 b, print_nat 10 c] '':''"

lemma print10_plain: "plain_field (CHR '':'') (print_nat 10 n)"
proof -
  have "c \<noteq> CHR '':''" "c \<noteq> CHR 0x5C" if c: "c \<in> set (print_nat 10 n)" for c
  proof -
    obtain d where d: "d < 10" "c = digit_char d" using print10_digits[OF c] by blast
    then have "(of_char c :: nat) = 48 + d" by (simp add: of_char_digit_char)
    then show "c \<noteq> CHR '':''" "c \<noteq> CHR 0x5C" using d(1) by (auto simp: char_eq_of_char)
  qed
  then show ?thesis by (auto simp: plain_field_def)
qed

lemma parseInt_print10:
  assumes "n < 2 ^ 31"
  shows "parseInt (print_nat 10 n) = Inr (word_of_nat n)"
proof -
  have "print_nat 10 n = print_int (int n)" by (simp add: print_int_def)
  moreover have "print_int (int n) \<noteq> []" by (simp add: print_int_def)
  ultimately show ?thesis
    using strtol_print_int[of "int n"] assms by (simp add: parseInt_def strToInt_def)
qed

lemma split3:
  assumes "plain_field (CHR '':'') a" "plain_field (CHR '':'') b" "plain_field (CHR '':'') c"
  shows "splitString (join [a, b, c] '':'') (CHR '':'') False = [a, b, c]"
  using splitLoop_join[of "CHR '':''" "[a, b, c]" "[]" False] assms by (simp add: splitString_def)

lemma secondsFromHMS_hms:
  assumes "a < 100" "b < 100" "c < 100"
  shows "secondsFromHMS (hms a b c) = Inr (Some (word_of_nat (a * 3600 + b * 60 + c)))"
  using assms by (simp add: secondsFromHMS_def hms_def split3 print10_plain parseInt_print10 del: join.simps)

lemma secondOfDay_local:
  "secondOfDay Z (atSecond t) = word_of_nat (nat ((t + tz_off Z t) mod 86400))"
proof -
  define r where "r = (t + tz_off Z t) mod 86400"
  have r: "0 \<le> r" by (simp add: r_def)
  have f: "tm_hour (localtime Z t) = r div 3600" "tm_min (localtime Z t) = r div 60 mod 60" "tm_sec (localtime Z t) = r mod 60"
    by (simp_all add: localtime_def gmtime_def Let_def r_def split: prod.split)
  have "r div 3600 = r div 60 div 60" using zdiv_zmult2_eq[of 60 r 60] by simp
  then have "r div 3600 * 60 + r div 60 mod 60 = r div 60" using div_mult_mod_eq[of "r div 60" 60] by simp
  then have "(r div 3600 * 60 + r div 60 mod 60) * 60 + r mod 60 = r" using div_mult_mod_eq[of r 60] by simp
  then have "secondOfDay Z (atSecond t) = word_of_int r"
    by (simp add: secondOfDay_def getHour_def getMinute_def getSecond_def atSecond_def f)
  then show ?thesis using r by (simp add: r_def)
qed

lemma unat_small: "n < 2 ^ 32 \<Longrightarrow> unat (word_of_nat n :: u32) = n"
  by (simp add: unat_of_nat)

definition inWindow :: "nat \<Rightarrow> nat \<Rightarrow> nat \<Rightarrow> bool" where
  "inWindow s e x \<longleftrightarrow> (if s < e then s \<le> x \<and> x \<le> e else s \<le> x \<or> x \<le> e)"

text \<open>
  A condition with two times of the day holds exactly in the window between them, on the local
  clock: from the first to the second, both included, and over midnight when the first is not
  before the second.
\<close>

theorem time_window:
  assumes "getPropertyByName h base ''time-start'' = Inr (Some s)" "getPropertyByName h base ''time-end'' = Inr (Some e)"
    "getAsString (c_dts C) h s = Inr (hms a b c)" "getAsString (c_dts C) h e = Inr (hms a' b' c')"
    "a < 100" "b < 100" "c < 100" "a' < 100" "b' < 100" "c' < 100"
  shows "condTime C h base =
     Inr (inWindow (a * 3600 + b * 60 + c) (a' * 3600 + b' * 60 + c') (nat ((c_now C + tz_off (c_tz C) (c_now C)) mod 86400)))"
proof -
  define S where "S = a * 3600 + b * 60 + c"
  define E where "E = a' * 3600 + b' * 60 + c'"
  define x where "x = nat ((c_now C + tz_off (c_tz C) (c_now C)) mod 86400)"
  have "x < 86400" by (simp add: x_def nat_less_iff)
  then have lt: "S < 2 ^ 32" "E < 2 ^ 32" "x < 2 ^ 32" using assms(5-10) by (simp_all add: S_def E_def)
  have ts: "timeOfNode C h dflt (Some s) = Inr (word_of_nat S)" "timeOfNode C h dflt (Some e) = Inr (word_of_nat E)" for dflt
    using assms by (simp_all add: timeOfNode_def secondsFromHMS_hms S_def E_def)
  have sec: "secondOfDay (c_tz C) (atSecond (c_now C)) = word_of_nat x" by (simp add: secondOfDay_local x_def)
  have "condTime C h base = checkTimeCondition C h (Some s) (Some e) (word_of_nat x)"
    using assms(1,2) by (simp add: condTime_def sec)
  also have "\<dots> = Inr (inWindow S E x)"
    using unat_small[OF lt(1)] unat_small[OF lt(2)] unat_small[OF lt(3)]
    by (simp add: checkTimeCondition_def ts inWindow_def word_less_nat_alt not_less)
  finally show ?thesis by (simp only: S_def E_def x_def)
qed

text \<open>
  The numbers of a time are read by \<^verbatim>\<open>strToInt\<close>, which takes a leading zero for octal: an hour,
  minute or second written \<^verbatim>\<open>08\<close> or \<^verbatim>\<open>09\<close> makes the check throw.
\<close>

theorem padded_time_throws:
  assumes "k \<in> {8, 9}" "plain_field (CHR '':'') b" "plain_field (CHR '':'') c"
  shows "secondsFromHMS (join [''0'' @ [digit_char k], b, c] '':'') = Inl StdLogicError"
proof -
  have bad: "parseInt (''0'' @ [digit_char 8]) = Inl StdLogicError" "parseInt (''0'' @ [digit_char 9]) = Inl StdLogicError"
    by code_simp+
  have "plain_field (CHR '':'') (''0'' @ [digit_char 8])" "plain_field (CHR '':'') (''0'' @ [digit_char 9])"
    by code_simp+
  then have "plain_field (CHR '':'') (''0'' @ [digit_char k])" "parseInt (''0'' @ [digit_char k]) = Inl StdLogicError"
    using assms(1) bad by (auto simp del: append.simps)
  then show ?thesis using split3 assms(2,3) by (simp add: secondsFromHMS_def del: join.simps append.simps)
qed

theorem padded_time_throws_witness: "secondsFromHMS ''08:30:00'' = Inl StdLogicError"
proof -
  have "join [''0'' @ [digit_char 8], ''30'', ''00''] '':'' = ''08:30:00''" by code_simp
  then show ?thesis using padded_time_throws[of 8 "''30''" "''00''"] by (simp add: plain_field_def)
qed

section \<open>Example trees\<close>

definition heapOf :: "pnode list \<Rightarrow> pheap" where
  "heapOf xs = emptySystem\<lparr>nextId := length xs, nodes := (\<lambda>k. if k < length xs then xs ! k else newPropertyNode ''/'' 0)\<rparr>"

definition inner :: "string \<Rightarrow> nodeid \<Rightarrow> nodeid list \<Rightarrow> pnode" where
  "inner name parent cs = (newPropertyNode name 0)\<lparr>m_ParentNode := Some parent, m_ChildNodes := Some cs\<rparr>"

definition leaf :: "string \<Rightarrow> nodeid \<Rightarrow> string \<Rightarrow> pnode" where
  "leaf name parent t =
     (newPropertyNode name 0)\<lparr>m_ParentNode := Some parent, m_ValueType := vTypeString, m_Actual := UString t\<rparr>"

lemma leaf_fields [simp]:
  "m_Name (leaf name p t) = name" "m_Index (leaf name p t) = 0" "m_AliasTarget (leaf name p t) = None"
  "m_ValueType (leaf name p t) = vTypeString" "m_Actual (leaf name p t) = UString t" "m_Proxy (leaf name p t) = None"
  "m_ChildNodes (leaf name p t) = None"
  by (simp_all add: leaf_def newPropertyNode_def)

lemma inner_fields [simp]:
  "m_Name (inner name p cs) = name" "m_Index (inner name p cs) = 0" "m_AliasTarget (inner name p cs) = None"
  "m_ChildNodes (inner name p cs) = Some cs"
  by (simp_all add: inner_def newPropertyNode_def)

lemma heapOf_node: "k < length xs \<Longrightarrow> node (heapOf xs) k = xs ! k"
  by (simp add: heapOf_def)

lemma leaf_text:
  assumes "node h k = leaf name p t"
  shows "getAsString dts h k = Inr t" "getStringValue h k = Inr t"
  using assms by (simp_all add: getAsString_def forwardGet_def getValueType_def getStringValue_def getTyped_def)

lemma byName_here:
  assumes "plain_name a" "m_AliasTarget (node h n) = None" "m_ChildNodes (node h n) = Some cs"
  shows "getPropertyByName h n a = Inr (List.find (\<lambda>c. key h c = (a, 0)) cs)"
  using getPropertyByName_plain[OF assms(1,2)] assms(3) by (simp add: childNamed_def children_def)

definition nightHeap :: pheap where
  "nightHeap = heapOf [inner ''conditions'' 0 [1, 2], leaf ''time-start'' 0 (hms 22 0 0), leaf ''time-end'' 0 (hms 6 30 0)]"

theorem time_window_witness:
  "condTime (dailyEnv\<lparr>c_now := 86400 + 3600\<rparr>) nightHeap 0 = Inr True"
proof -
  let ?C = "dailyEnv\<lparr>c_now := 86400 + 3600\<rparr>"
  have n: "node nightHeap 0 = inner ''conditions'' 0 [1, 2]" "node nightHeap (Suc 0) = leaf ''time-start'' 0 (hms 22 0 0)"
      "node nightHeap 2 = leaf ''time-end'' 0 (hms 6 30 0)"
    by (simp_all add: nightHeap_def heapOf_node)
  have "getPropertyByName nightHeap 0 ''time-start'' = Inr (Some 1)" "getPropertyByName nightHeap 0 ''time-end'' = Inr (Some 2)"
    using byName_here[of _ nightHeap 0 "[1, 2]"] n by (simp_all add: plain_name_def key_def)
  from time_window[OF this, of ?C 22 0 0 6 30 0] show ?thesis
    using leaf_text(1)[of nightHeap 1] leaf_text(1)[of nightHeap 2] n
    by (simp add: inWindow_def dailyEnv_def utcZone_def)
qed

section \<open>State change triggers\<close>

lemma childText_node:
  assumes "childText V h n name = Inr t"
  shows "\<exists>c. getPropertyByName h n name = Inr c \<and> nodeText V h c = Inr (case t of None \<Rightarrow> [] | Some x \<Rightarrow> x)
    \<and> (c = None) = (t = None)"
  using assms
  by (cases "getPropertyByName h n name")
     (auto simp: childText_def nodeText_def ebind_def split: option.splits sum.splits)

lemma int32ToString_nonempty [simp]: "int32ToString w \<noteq> []"
  by (simp add: int32ToString_def intToString_print_int print_int_def)

lemma toString_nonempty:
  assumes "[] \<notin> set (m_values st)"
  shows "toString st \<noteq> []"
proof (cases "m_values st \<noteq> [] \<and> 0 \<le> sint (m_state st) \<and> sint (m_state st) < int (length (m_values st))")
  case True
  then have "nat (sint (m_state st)) < length (m_values st)" by linarith
  then have "m_values st ! nat (sint (m_state st)) \<noteq> []" using assms nth_mem by metis
  then show ?thesis unfolding toString_def using True by (simp only: if_True simp_thms)
next
  case False
  have "INVALID \<noteq> []" "''unknown'' \<noteq> []" "''active'' \<noteq> []" "''inactive'' \<noteq> []" by (simp_all add: INVALID_def)
  then show ?thesis unfolding toString_def using False by (simp only: simp_thms if_False split: if_split) blast
qed

lemma state_event_trigger:
  assumes "m_type st \<noteq> StateType_Script" "newSystemTrigger V A (createStateChangeEvent st old origin) = Inr T"
  shows "m_evtName T = ''stateChange''" "propGet T ''statename'' = Inr (m_name st)" "propGet T ''state'' = Inr (toString st)"
    "propGet T ''value'' = Inr (int32ToString (m_state st))" "propGet T ''oldvalue'' = Inr (int32ToString old)"
proof -
  let ?e = "createStateChangeEvent st old origin"
  have "m_RaiseLocation ?e = erlState"
    using assms(1) by (simp add: createStateChangeEvent_def Let_def newStateEvent_def newEventAt_def setProperty_def)
  then have T: "T = newSystemEvent V ?e" using assms(2) by (simp add: newSystemTrigger_def Let_def)
  show "m_evtName T = ''stateChange''" "propGet T ''statename'' = Inr (m_name st)" "propGet T ''state'' = Inr (toString st)"
    "propGet T ''value'' = Inr (int32ToString (m_state st))" "propGet T ''oldvalue'' = Inr (int32ToString old)"
    using assms(1)
    by (simp_all add: T newSystemEvent_def propGet_def createStateChangeEvent_def Let_def newStateEvent_def newEventAt_def
        setProperty_def prop_get_def prop_has_def prop_set_def getState_def)
qed

lemma checkState_iff:
  assumes st: "m_type st \<noteq> StateType_Script" "[] \<notin> set (m_values st)"
    and T: "newSystemTrigger V A (createStateChangeEvent st old origin) = Inr T"
    and n: "childText V h n ''name'' = Inr nm" "childText V h n ''state'' = Inr s"
      "childText V h n ''value'' = Inr v" "childText V h n ''oldvalue'' = Inr ov"
  shows "checkState V T h n =
     Inr (nm = Some (m_name st) \<and> (s = Some (toString st) \<or> v = Some (int32ToString (m_state st)))
          \<and> (ov = None \<or> ov = Some [] \<or> ov = Some (int32ToString old)))"
proof -
  note t = state_event_trigger[OF st(1) T]
  define s0 v0 o0 where "s0 = (case s of None \<Rightarrow> [] | Some x \<Rightarrow> x)" "v0 = (case v of None \<Rightarrow> [] | Some x \<Rightarrow> x)"
    "o0 = (case ov of None \<Rightarrow> [] | Some x \<Rightarrow> x)"
  note z = this
  obtain cn cs cv co where c:
    "getPropertyByName h n ''name'' = Inr cn" "nodeText V h cn = Inr (case nm of None \<Rightarrow> [] | Some x \<Rightarrow> x)" "(cn = None) = (nm = None)"
    "getPropertyByName h n ''state'' = Inr cs" "nodeText V h cs = Inr s0" "(cs = None) = (s = None)"
    "getPropertyByName h n ''value'' = Inr cv" "nodeText V h cv = Inr v0" "(cv = None) = (v = None)"
    "getPropertyByName h n ''oldvalue'' = Inr co" "nodeText V h co = Inr o0" "(co = None) = (ov = None)"
    using childText_node[OF n(1)] childText_node[OF n(2)] childText_node[OF n(3)] childText_node[OF n(4)] unfolding z by blast
  have red: "checkState V T h n =
      (case cn of None \<Rightarrow> Inr False
       | Some tn \<Rightarrow> if s = None \<and> v = None then Inr False else
           ebind (getAsString (c_dts V) h tn) (\<lambda>sName.
           if sName \<noteq> m_name st then Inr False else
           Inr ((s0 = toString st \<or> v0 = int32ToString (m_state st)) \<and> (o0 = [] \<or> o0 = int32ToString old))))"
    unfolding checkState_def t c(1,4,7,10) ebind_simps also_check_def c(5,6,8,9,11) by simp
  show ?thesis
  proof (cases cn)
    case None
    then show ?thesis using red c(3) by simp
  next
    case (Some tn)
    then obtain x where x: "nm = Some x" "getAsString (c_dts V) h tn = Inr x"
      using c(2,3) by (auto simp: nodeText_def)
    have "s0 = toString st \<longleftrightarrow> s = Some (toString st)" "v0 = int32ToString (m_state st) \<longleftrightarrow> v = Some (int32ToString (m_state st))"
      "(o0 = [] \<or> o0 = int32ToString old) \<longleftrightarrow> ov = None \<or> ov = Some [] \<or> ov = Some (int32ToString old)"
      using toString_nonempty[OF st(2)] int32ToString_nonempty[of "m_state st"] int32ToString_nonempty[of old]
      by (auto simp: z simp del: int32ToString_nonempty split: option.splits)
    then show ?thesis unfolding red using Some x by auto
  qed
qed

text \<open>
  C24: From the state to the trigger: a change of a state of the server pushes one event, and a trigger
  of the type \<^verbatim>\<open>state-change\<close> matches that event exactly when it names the state, gives the text or the
  number of the new value, and gives no old value or the one the state had.
\<close>

theorem state_change_fires:
  assumes inv: "state_inv w st" and E: "hasInstance E" "ssRunning E" and x: "x \<noteq> m_state st"
    and st: "m_type st \<noteq> StateType_Script" "[] \<notin> set (m_values st)"
    and n: "childText V h n ''type'' = Inr (Some ''state-change'')" "childText V h n ''name'' = Inr nm"
      "childText V h n ''state'' = Inr s" "childText V h n ''value'' = Inr v" "childText V h n ''oldvalue'' = Inr ov"
  shows "\<exists>w' st' e T. setState E L now w st origin x = (w', st', None) \<and> st' = st\<lparr>m_state := x, m_callOrigin := origin\<rparr>
    \<and> m_EventQueue (w_events w') = m_EventQueue (w_events w) @ [w_nextEvent w]
    \<and> store_of (w_events w') (w_nextEvent w) = e \<and> newSystemTrigger V A e = Inr T
    \<and> checkTriggerNode V T h n =
        Inr (nm = Some (m_name st) \<and> (s = Some (toString st') \<or> v = Some (int32ToString x))
             \<and> (ov = None \<or> ov = Some [] \<or> ov = Some (int32ToString (m_state st))))"
proof -
  let ?st = "st\<lparr>m_state := x, m_callOrigin := origin\<rparr>"
  let ?e = "createStateChangeEvent ?st (m_state st) origin"
  obtain w' where run: "setState E L now w st origin x = (w', ?st, None)" and ev: "w_events w' =
      (w_events w)\<lparr>store_of := (store_of (w_events w))(w_nextEvent w := ?e),
        m_EventQueue := m_EventQueue (w_events w) @ [w_nextEvent w]\<rparr>"
    using setState_pushes[OF inv E x] by blast
  have ty: "m_type ?st \<noteq> StateType_Script" "[] \<notin> set (m_values ?st)" using st by simp_all
  have "m_RaiseLocation ?e = erlState"
    using st(1) by (simp add: createStateChangeEvent_def Let_def newStateEvent_def newEventAt_def setProperty_def)
  then obtain T where T: "newSystemTrigger V A ?e = Inr T" by (simp add: newSystemTrigger_def Let_def)
  have "checkTriggerNode V T h n = checkState V T h n"
    unfolding checkTriggerNode_def n(1) ebind_simps option.case by (simp add: state_event_trigger(1)[OF ty(1) T])
  also have "\<dots> = Inr (nm = Some (m_name st) \<and> (s = Some (toString ?st) \<or> v = Some (int32ToString x))
             \<and> (ov = None \<or> ov = Some [] \<or> ov = Some (int32ToString (m_state st))))"
    using checkState_iff[OF ty T n(2-5)] by simp
  finally show ?thesis using run ev T by (intro exI[of _ w'] exI[of _ ?st] exI[of _ ?e] exI[of _ T]) simp
qed

lemma childText_find:
  assumes "plain_name a" "m_AliasTarget (node h n) = None" "m_ChildNodes (node h n) = Some cs"
  shows "childText V h n a = (case List.find (\<lambda>c. key h c = (a, 0)) cs of None \<Rightarrow> Inr None
     | Some c \<Rightarrow> ebind (getAsString (c_dts V) h c) (\<lambda>s. Inr (Some s)))"
  unfolding childText_def byName_here[OF assms] by simp

definition rainTrigger :: pheap where
  "rainTrigger = heapOf [inner ''t'' 0 [1, 2, 3], leaf ''type'' 0 ''state-change'', leaf ''name'' 0 ''rain'', leaf ''state'' 0 ''active'']"

lemma rainTrigger_texts:
  "childText V rainTrigger 0 ''type'' = Inr (Some ''state-change'')" "childText V rainTrigger 0 ''name'' = Inr (Some ''rain'')"
  "childText V rainTrigger 0 ''state'' = Inr (Some ''active'')" "childText V rainTrigger 0 ''value'' = Inr None"
  "childText V rainTrigger 0 ''oldvalue'' = Inr None"
proof -
  have n: "node rainTrigger 0 = inner ''t'' 0 [1, 2, 3]" "node rainTrigger (Suc 0) = leaf ''type'' 0 ''state-change''"
      "node rainTrigger 2 = leaf ''name'' 0 ''rain''" "node rainTrigger 3 = leaf ''state'' 0 ''active''"
    by (simp_all add: rainTrigger_def heapOf_node)
  note f = childText_find[of _ rainTrigger 0 "[1, 2, 3]" V] leaf_text(1)[OF n(2)] leaf_text(1)[OF n(3)] leaf_text(1)[OF n(4)]
  show "childText V rainTrigger 0 ''type'' = Inr (Some ''state-change'')" "childText V rainTrigger 0 ''name'' = Inr (Some ''rain'')"
    "childText V rainTrigger 0 ''state'' = Inr (Some ''active'')" "childText V rainTrigger 0 ''value'' = Inr None"
    "childText V rainTrigger 0 ''oldvalue'' = Inr None"
    using n by (simp_all add: f plain_name_def key_def)
qed

definition noApartment :: apartmentInfo where
  "noApartment = \<lparr>a_groups = Map.empty, a_broadcast = \<lparr>g_zoneID = 0, g_ID = 0\<rparr>, a_devices = Map.empty\<rparr>"

theorem state_change_fires_witness:
  "\<exists>w' st' T. setState exampleEnv noTimes 1000 syncedWorld exampleState 7 1 = (w', st', None)
    \<and> newSystemTrigger plainEnv noApartment (store_of (w_events w') 1) = Inr T
    \<and> checkTriggerNode plainEnv T rainTrigger 0 = Inr True"
proof -
  have E: "hasInstance exampleEnv" "ssRunning exampleEnv" by (simp_all add: exampleEnv_def)
  have st: "(1 :: u32) \<noteq> m_state exampleState" "m_type exampleState \<noteq> StateType_Script" "[] \<notin> set (m_values exampleState)"
      "w_nextEvent syncedWorld = 1" "m_name exampleState = ''rain''"
      "toString (exampleState\<lparr>m_state := 1, m_callOrigin := 7\<rparr>) = ''active''"
    by (simp_all add: exampleState_def blankState_def state_consts syncedWorld_def resync_def exampleWorld_def toString_def)
  from state_change_fires[OF exampleState_inv E st(1-3) rainTrigger_texts[of plainEnv], where L = noTimes and now = 1000 and origin = 7 and A = noApartment]
  show ?thesis using st(4-6) by auto
qed

section \<open>Required states\<close>

text \<open>A node of \<^verbatim>\<open>/usr/states\<close> with its name, the text of its value and the name of its value.\<close>

definition state_row :: "cenv \<Rightarrow> pheap \<Rightarrow> nodeid \<Rightarrow> string \<times> string option \<times> string option \<Rightarrow> bool" where
  "state_row C h s row \<longleftrightarrow> (\<exists>nn vn dn. getPropertyByName h s ''name'' = Inr (Some nn) \<and> getStringValue h nn = Inr (fst row)
     \<and> getPropertyByName h s ''value'' = Inr vn \<and> getPropertyByName h s ''state'' = Inr dn
     \<and> (case fst (snd row) of None \<Rightarrow> vn = None | Some t \<Rightarrow> \<exists>k. vn = Some k \<and> getAsString (c_dts C) h k = Inr t)
     \<and> (case snd (snd row) of None \<Rightarrow> dn = None | Some t \<Rightarrow> \<exists>k. dn = Some k \<and> getStringValue h k = Inr t)
     \<and> \<not> (fst (snd row) = None \<and> snd (snd row) = None))"

definition holds :: "(string \<times> string option \<times> string option) list \<Rightarrow> string \<Rightarrow> string \<Rightarrow> bool" where
  "holds rows name t \<longleftrightarrow> (\<exists>v d. (name, v, d) \<in> set rows \<and> (v = Some t \<or> d = Some t))"

lemma stateLoop_row:
  assumes "state_row C h s (nm, v, d)"
  shows "stateLoop C h name t (s # ss) b =
     (if name = nm then Inr (v = Some t \<or> d = Some t) else stateLoop C h name t ss b)"
proof -
  obtain nn vn dn where n: "getPropertyByName h s ''name'' = Inr (Some nn)" "getStringValue h nn = Inr nm"
      "getPropertyByName h s ''value'' = Inr vn" "getPropertyByName h s ''state'' = Inr dn"
      "case v of None \<Rightarrow> vn = None | Some t \<Rightarrow> \<exists>k. vn = Some k \<and> getAsString (c_dts C) h k = Inr t"
      "case d of None \<Rightarrow> dn = None | Some t \<Rightarrow> \<exists>k. dn = Some k \<and> getStringValue h k = Inr t" "\<not> (v = None \<and> d = None)"
    using assms unfolding state_row_def fst_conv snd_conv by blast
  show ?thesis using n(5-7) by (cases v; cases d) (auto simp: n(1-4))
qed

lemma stateLoop_rows:
  "list_all2 (state_row C h) ss rows \<Longrightarrow> distinct (map fst rows) \<Longrightarrow>
     stateLoop C h name t ss False = Inr (holds rows name t)"
proof (induction rule: list_all2_induct)
  case (Cons s ss row rows)
  obtain nm v d where row: "row = (nm, v, d)" by (cases row) auto
  have r: "stateLoop C h name t (s # ss) False =
     (if name = nm then Inr (v = Some t \<or> d = Some t) else stateLoop C h name t ss False)"
    using stateLoop_row Cons.hyps(1) unfolding row by blast
  show ?case
  proof (cases "name = nm")
    case True
    then have "(name, v', d') \<notin> set rows" for v' d' using Cons.prems row by (force simp: image_iff)
    then show ?thesis unfolding r using True by (auto simp: holds_def row)
  next
    case False
    then show ?thesis unfolding r using Cons.IH Cons.prems by (auto simp: holds_def row)
  qed
qed (simp add: holds_def)

text \<open>
  When the nodes of \<^verbatim>\<open>/usr/states\<close> have different names and each has a value, the part of a condition
  that requires states holds exactly when each required state is there with the required value,
  given by its text or by its name.
\<close>

theorem required_states:
  assumes "getPropertyByName h base ''states'' = Inr (Some st)" "sysGetProperty h ''/usr/states'' = Inr (Some sys)"
    and rows: "list_all2 (state_row C h) (getChildNodes h sys) rows" "distinct (map fst rows)"
    and req: "list_all2 (\<lambda>c (name, t). m_Name (node h c) = name \<and> getAsString (c_dts C) h c = Inr t) (getChildNodes h st) req"
  shows "condStates C h base = Inr (\<forall>(name, t) \<in> set req. holds rows name t)"
proof -
  have "statesLoop C h (getChildNodes h sys) cs = Inr (\<forall>(name, t) \<in> set req. holds rows name t)"
    if "list_all2 (\<lambda>c (name, t). m_Name (node h c) = name \<and> getAsString (c_dts C) h c = Inr t) cs req" for cs req
    using that by (induction rule: list_all2_induct) (auto simp: also_check_def stateLoop_rows[OF rows])
  then show ?thesis using assms by (simp add: condStates_def)
qed

definition statesHeap :: pheap where
  "statesHeap = heapOf
     [inner ''/'' 0 [1, 7], inner ''usr'' 0 [2], inner ''states'' 1 [3], inner ''rain'' 2 [4, 5, 6], leaf ''name'' 3 ''rain'',
      leaf ''value'' 3 ''2'', leaf ''state'' 3 ''inactive'', inner ''states'' 0 [8], leaf ''rain'' 7 ''active'']"

theorem required_states_witness: "condStates dailyEnv statesHeap 0 = Inr False"
proof -
  have n: "node statesHeap 0 = inner ''/'' 0 [1, 7]" "node statesHeap (Suc 0) = inner ''usr'' 0 [2]"
      "node statesHeap 2 = inner ''states'' 1 [3]" "node statesHeap 3 = inner ''rain'' 2 [4, 5, 6]"
      "node statesHeap 4 = leaf ''name'' 3 ''rain''" "node statesHeap 5 = leaf ''value'' 3 ''2''"
      "node statesHeap 6 = leaf ''state'' 3 ''inactive''" "node statesHeap 7 = inner ''states'' 0 [8]"
      "node statesHeap 8 = leaf ''rain'' 7 ''active''"
    by (simp_all add: statesHeap_def heapOf_node)
  have b: "getPropertyByName statesHeap 0 ''states'' = Inr (Some 7)"
    using byName_here[of "''states''" statesHeap 0 "[1, 7]"] n by (simp add: plain_name_def key_def)
  have r: "getPropertyByName statesHeap 3 ''name'' = Inr (Some 4)" "getPropertyByName statesHeap 3 ''value'' = Inr (Some 5)"
      "getPropertyByName statesHeap 3 ''state'' = Inr (Some 6)"
    using byName_here[of _ statesHeap 3 "[4, 5, 6]"] n by (simp_all add: plain_name_def key_def)
  have al: "alias_end statesHeap 0 = Some 0" "alias_end statesHeap (Suc 0) = Some (Suc 0)"
    by (rule alias_end_self; simp add: n)+
  have "getProperty statesHeap 0 (join [''usr'', ''states''] ''/'') = Inr (Some 2)"
    using getProperty_cons[OF _ _ al(1), of "''usr''" "''states''" "[]"] getProperty_single[OF _ al(2), of "''states''"] n
    by (simp add: plain_name_def childNamed_def children_def key_def)
  then have s: "sysGetProperty statesHeap ''/usr/states'' = Inr (Some 2)" by (simp add: sysGetProperty_def)
  have row: "state_row dailyEnv statesHeap 3 (''rain'', Some ''2'', Some ''inactive'')"
    using leaf_text[OF n(5)] leaf_text[OF n(6)] leaf_text[OF n(7)] by (simp add: state_row_def r)
  have "condStates dailyEnv statesHeap 0 = Inr (\<forall>(name, t) \<in> set [(''rain'', ''active'')]. holds [(''rain'', Some ''2'', Some ''inactive'')] name t)"
    by (rule required_states[OF b s])
       (use n row leaf_text(1)[OF n(9)] in \<open>simp_all add: getChildNodes_def children_def\<close>)
  then show ?thesis by (simp add: holds_def)
qed

text \<open>
  A date with a start and an end but without a rule dereferences a NULL pointer: the test looks at
  the node of the end twice.
\<close>

lemma date_without_rule:
  assumes "getPropertyByName h base ''date'' = Inr (Some n)" "getChildNodes h n = d # ds"
    "getPropertyByName h d ''start'' = Inr (Some s)" "getPropertyByName h d ''end'' = Inr (Some e)"
    "getPropertyByName h d ''rrule'' = Inr None"
  shows "condDate C h base = Inl NullDeref"
  using assms by (simp add: condDate_def dateMatches_def)

section \<open>Relaying\<close>

lemma wbind_simps [simp]: "wbind (w, Inl e) f = (w, Inl e)" "wbind (w, Inr x) f = f w x"
  by (simp_all add: wbind_def)

text \<open>A trigger without lag and damping: whether it matches, and the event that it relays.\<close>

definition plain_trigger :: "tenv \<Rightarrow> SystemTrigger \<Rightarrow> pheap \<Rightarrow> nodeid \<Rightarrow> bool \<times> event \<Rightarrow> bool" where
  "plain_trigger V T h t row \<longleftrightarrow> (\<exists>path param name add.
     childString h t ''triggerPath'' = Inr (Some path) \<and> sysGetProperty h path = Inr (Some param)
     \<and> also_check (checkTrigger V T h param) (\<lambda>_. checkSystemCondition (cenv.truncate V) h path) = Inr (fst row)
     \<and> childText V h t ''triggerPath'' = Inr (Some path) \<and> childText V h t ''relayedEventName'' = Inr (Some name)
     \<and> childText V h t ''additionalRelayingParameter'' = Inr add
     \<and> getProperty h param ''lag'' = Inr None \<and> getProperty h param ''damping'' = Inr None
     \<and> snd row = relayedEvent T name path (case add of None \<Rightarrow> [] | Some s \<Rightarrow> s))"

definition relayAll :: "'r timelib \<Rightarrow> int \<Rightarrow> 'r world \<Rightarrow> (bool \<times> event) list \<Rightarrow> 'r world" where
  "relayAll L now w rows = foldl (\<lambda>w (fires, e). if fires then pushNew L now e w else w) w rows"

lemma pushNew_heap [simp]: "w_heap (pushNew L now e w) = w_heap w"
  by (simp add: pushNew_def Let_def)

lemma fireTrigger_plain:
  assumes "childText V (w_heap w) t ''triggerPath'' = Inr (Some path)"
    "childText V (w_heap w) t ''relayedEventName'' = Inr (Some name)"
    "childText V (w_heap w) t ''additionalRelayingParameter'' = Inr add"
    "getProperty (w_heap w) param ''lag'' = Inr None" "getProperty (w_heap w) param ''damping'' = Inr None" "t_hasInstance V"
  shows "fireTrigger V L T w t param =
     (pushNew L (c_now V) (relayedEvent T name path (case add of None \<Rightarrow> [] | Some s \<Rightarrow> s)) w, Inr ())"
  using assms
  by (simp add: fireTrigger_def look_def lagWarning_def rescheduleAction_def damping_def peek_def onHeap_def relayTrigger_def Let_def)

lemma runTrigger_plain:
  assumes "plain_trigger V T (w_heap w) t row" "t_hasInstance V"
  shows "runTrigger V L T w t = (if fst row then pushNew L (c_now V) (snd row) w else w, Inr ())"
proof -
  obtain path param name add where p: "childString (w_heap w) t ''triggerPath'' = Inr (Some path)"
      "sysGetProperty (w_heap w) path = Inr (Some param)"
      "also_check (checkTrigger V T (w_heap w) param) (\<lambda>_. checkSystemCondition (cenv.truncate V) (w_heap w) path) = Inr (fst row)"
      "childText V (w_heap w) t ''triggerPath'' = Inr (Some path)" "childText V (w_heap w) t ''relayedEventName'' = Inr (Some name)"
      "childText V (w_heap w) t ''additionalRelayingParameter'' = Inr add"
      "getProperty (w_heap w) param ''lag'' = Inr None" "getProperty (w_heap w) param ''damping'' = Inr None"
      "snd row = relayedEvent T name path (case add of None \<Rightarrow> [] | Some s \<Rightarrow> s)"
    using assms(1) unfolding plain_trigger_def by blast
  show ?thesis
    using fireTrigger_plain[OF p(4-8) assms(2)] p(1-3,9) by (simp add: runTrigger_def look_def)
qed

lemma runLoop_plain:
  "list_all2 (plain_trigger V T (w_heap w)) ts rows \<Longrightarrow> t_hasInstance V \<Longrightarrow>
     runLoop V L T w ts = (relayAll L (c_now V) w rows, Inr ())"
proof (induction ts arbitrary: rows w)
  case (Cons t ts)
  then obtain row rest where r: "rows = row # rest" "plain_trigger V T (w_heap w) t row"
      "list_all2 (plain_trigger V T (w_heap w)) ts rest" by (auto simp: list_all2_Cons1)
  let ?w = "if fst row then pushNew L (c_now V) (snd row) w else w"
  have "w_heap ?w = w_heap w" by simp
  then have "runLoop V L T ?w ts = (relayAll L (c_now V) ?w rest, Inr ())" using Cons.IH[of ?w rest] Cons.prems(2) r(3) by simp
  then show ?case using runTrigger_plain[OF r(2) Cons.prems(2)] by (simp add: relayAll_def r(1) case_prod_unfold)
qed (simp add: relayAll_def)

text \<open>
  A run of the handler over triggers without lag and damping pushes, in the order of the
  triggers, one event for each trigger that matches and whose conditions hold, with the
  properties of the event that came in; it changes nothing in the tree and throws nothing.
\<close>

theorem run_relays:
  assumes "t_hasInstance V" "sysGetProperty (w_heap w) ''/usr/triggers'' = Inr (Some n)"
    "list_all2 (plain_trigger V T (w_heap w)) (getChildNodes (w_heap w) n) rows"
  shows "run V L T w = (relayAll L (c_now V) w rows, None) \<and> w_heap (relayAll L (c_now V) w rows) = w_heap w"
proof
  show "run V L T w = (relayAll L (c_now V) w rows, None)"
    using assms runLoop_plain[OF assms(3,1)] by (simp add: run_def)
  show "w_heap (relayAll L (c_now V) w rows) = w_heap w"
    unfolding relayAll_def by (induction rows rule: rev_induct) (auto simp: case_prod_unfold)
qed

definition pingHeap :: pheap where
  "pingHeap = heapOf
     [inner ''/'' 0 [1, 5], inner ''usr'' 0 [2], inner ''triggers'' 1 [3], inner ''a'' 2 [4, 10], leaf ''triggerPath'' 3 ''/app'',
      inner ''app'' 0 [6], inner ''triggers'' 5 [7], inner ''b'' 6 [8, 9], leaf ''type'' 7 ''event'', leaf ''name'' 7 ''ping'',
      leaf ''relayedEventName'' 3 ''pong'']"

definition pingWorld :: "nat world" where
  "pingWorld = exampleWorld\<lparr>w_heap := pingHeap\<rparr>"

lemma pingHeap_nodes:
  "node pingHeap 0 = inner ''/'' 0 [1, 5]" "node pingHeap (Suc 0) = inner ''usr'' 0 [2]" "node pingHeap 2 = inner ''triggers'' 1 [3]"
  "node pingHeap 3 = inner ''a'' 2 [4, 10]" "node pingHeap 4 = leaf ''triggerPath'' 3 ''/app''" "node pingHeap 5 = inner ''app'' 0 [6]"
  "node pingHeap 6 = inner ''triggers'' 5 [7]" "node pingHeap 7 = inner ''b'' 6 [8, 9]" "node pingHeap 8 = leaf ''type'' 7 ''event''"
  "node pingHeap 9 = leaf ''name'' 7 ''ping''" "node pingHeap 10 = leaf ''relayedEventName'' 3 ''pong''"
  by (simp_all add: pingHeap_def heapOf_node)

lemma pingHeap_paths:
  "sysGetProperty pingHeap ''/usr/triggers'' = Inr (Some 2)" "sysGetProperty pingHeap ''/app'' = Inr (Some 5)"
  "sysGetProperty pingHeap ''/app/conditions'' = Inr None" "getProperty pingHeap 5 ''lag'' = Inr None" "getProperty pingHeap 5 ''damping'' = Inr None"
proof -
  have al: "alias_end pingHeap 0 = Some 0" "alias_end pingHeap (Suc 0) = Some (Suc 0)" "alias_end pingHeap 5 = Some 5"
    by (rule alias_end_self; simp add: pingHeap_nodes)+
  have pl: "plain_name ''usr''" "plain_name ''triggers''" "plain_name ''app''" "plain_name ''conditions''" "plain_name ''lag''" "plain_name ''damping''"
    by (simp_all add: plain_name_def)
  note g = childNamed_def children_def key_def pingHeap_nodes
  have "getProperty pingHeap 0 (join [''usr'', ''triggers''] ''/'') = Inr (Some 2)"
    using getProperty_cons[OF pl(1,2) al(1), of "[]"] getProperty_single[OF pl(2) al(2)] by (simp add: g)
  then show "sysGetProperty pingHeap ''/usr/triggers'' = Inr (Some 2)" by (simp add: sysGetProperty_def)
  have "getProperty pingHeap 0 (join [''app''] ''/'') = Inr (Some 5)" using getProperty_single[OF pl(3) al(1)] by (simp add: g)
  then show "sysGetProperty pingHeap ''/app'' = Inr (Some 5)" by (simp add: sysGetProperty_def)
  have "getProperty pingHeap 0 (join [''app'', ''conditions''] ''/'') = Inr None"
    using getProperty_cons[OF pl(3,4) al(1), of "[]"] getProperty_single[OF pl(4) al(3)] by (simp add: g)
  then show "sysGetProperty pingHeap ''/app/conditions'' = Inr None" by (simp add: sysGetProperty_def)
  show "getProperty pingHeap 5 ''lag'' = Inr None" "getProperty pingHeap 5 ''damping'' = Inr None"
    using getProperty_single[OF pl(5) al(3)] getProperty_single[OF pl(6) al(3)] by (simp_all add: g)
qed

lemma pingHeap_trigger:
  assumes "m_evtName T = ''ping''"
  shows "plain_trigger plainEnv T pingHeap 3 (True, relayedEvent T ''pong'' ''/app'' [])"
proof -
  note n = pingHeap_nodes
  note f = childText_find[of _ pingHeap 3 "[4, 10]" plainEnv] childText_find[of _ pingHeap 7 "[8, 9]" plainEnv]
    leaf_text(1)[OF n(5)] leaf_text(1)[OF n(11)] leaf_text(1)[OF n(9)] leaf_text(1)[OF n(10)]
  have t: "childText plainEnv pingHeap 3 ''triggerPath'' = Inr (Some ''/app'')" "childText plainEnv pingHeap 3 ''relayedEventName'' = Inr (Some ''pong'')"
      "childText plainEnv pingHeap 3 ''additionalRelayingParameter'' = Inr None" "childText plainEnv pingHeap 7 ''type'' = Inr (Some ''event'')"
      "childText plainEnv pingHeap 7 ''name'' = Inr (Some ''ping'')"
    by (simp_all add: f n plain_name_def key_def)
  have b: "getPropertyByName pingHeap 3 ''triggerPath'' = Inr (Some 4)" "getPropertyByName pingHeap 5 ''triggers'' = Inr (Some 6)"
      "getPropertyByName pingHeap 7 ''parameter'' = Inr None"
    using byName_here[of _ pingHeap 3 "[4, 10]"] byName_here[of _ pingHeap 5 "[6]"] byName_here[of _ pingHeap 7 "[8, 9]"] n
    by (simp_all add: plain_name_def key_def)
  have "checkTriggerNode plainEnv T pingHeap 7 = Inr True"
    unfolding checkTriggerNode_def t(4) ebind_simps option.case assms by (simp add: checkEvent_def t(5) b(3) assms)
  then have "checkTrigger plainEnv T pingHeap 5 = Inr True"
    by (simp add: checkTrigger_def b(2) getChildNodes_def children_def n)
  then have "also_check (checkTrigger plainEnv T pingHeap 5) (\<lambda>_. checkSystemCondition (cenv.truncate plainEnv) pingHeap ''/app'') = Inr True"
    by (simp add: also_check_def checkSystemCondition_def pingHeap_paths)
  then show ?thesis
    unfolding plain_trigger_def using t(1-3) b(1) leaf_text(2)[OF n(5)] pingHeap_paths
    by (intro exI[of _ "''/app''"] exI[of _ 5] exI[of _ "''pong''"] exI[of _ None]) (simp add: childString_def)
qed

theorem run_relays_witness:
  "\<exists>T. newSystemTrigger plainEnv noApartment (newEvent ''ping'') = Inr T
    \<and> run plainEnv noTimes T pingWorld = (pushNew noTimes 1000 (relayedEvent T ''pong'' ''/app'' []) pingWorld, None)"
proof -
  define T where "T = newSystemEvent plainEnv (newEvent ''ping'')"
  have T: "newSystemTrigger plainEnv noApartment (newEvent ''ping'') = Inr T" "m_evtName T = ''ping''"
    by (simp_all add: T_def newSystemTrigger_def newSystemEvent_def newEvent_def newEventAt_def getRaisedAtGroup_def noApartment_def)
  have w: "w_heap pingWorld = pingHeap" by (simp add: pingWorld_def)
  have "list_all2 (plain_trigger plainEnv T (w_heap pingWorld)) (getChildNodes (w_heap pingWorld) 2) [(True, relayedEvent T ''pong'' ''/app'' [])]"
    using pingHeap_trigger[OF T(2)] by (simp add: w getChildNodes_def children_def pingHeap_nodes)
  from run_relays[OF _ _ this, of noTimes] show ?thesis
    using T(1) pingHeap_paths(1) by (simp add: w relayAll_def plainEnv_def)
qed

end
