(* ===== verification/Behavior.thy ===== *)
theory Behavior
  imports Scene_Helper Base_Strings
begin

text \<open>
  Behaviours of groups, \<^verbatim>\<open>src/src/model/behavior.cpp\<close>: which scenes a group steps through.  The two
  classes are the kinds of the record \<open>behavior\<close>.  The configuration of ventilation has one bit for
  each basic scene, which is set for the scenes that are switched off.

  JSON is parsed by the library RapidJSON, which is not part of the repository: \<open>jdoc\<close> is what the
  code asks of the parsed text.  The nodes in the property tree are not modelled.
\<close>

section \<open>Data\<close>

datatype behaviorKind = DefaultBehavior | VentilationBehavior

record behavior =
  b_kind :: behaviorKind
  b_currentScene :: nat
  b_configuration :: u32

datatype jdoc = NotAnObject | WithoutScenes | ScenesNoArray | ScenesArray "nat list"

section \<open>Operations\<close>

definition offsetToSceneId :: "nat list" where
  "offsetToSceneId = [SceneOff, Scene1, Scene2, Scene3, Scene4, SceneBoost]"

definition getActiveBasicScenes :: "behavior \<Rightarrow> nat list" where
  "getActiveBasicScenes b =
     map (\<lambda>i. offsetToSceneId ! i)
       (filter (\<lambda>i. b_configuration b AND push_bit i 1 = 0) [0..<length offsetToSceneId])"

definition setCurrentScene :: "behavior \<Rightarrow> nat \<Rightarrow> behavior" where
  "setCurrentScene b currentScene =
     (case b_kind b of
        DefaultBehavior \<Rightarrow> b\<lparr>b_currentScene := currentScene\<rparr>
      | VentilationBehavior \<Rightarrow>
          let activeScenes = getActiveBasicScenes b
          in if activeScenes = [] then b\<lparr>b_currentScene := SceneOff\<rparr>
             else if currentScene \<in> set activeScenes then b\<lparr>b_currentScene := currentScene\<rparr>
             else if currentScene \<in> {SceneFire, SceneSmoke, SceneGas}
                  then b\<lparr>b_currentScene := hd (getActiveBasicScenes b)\<rparr>
             else b)"

definition newDefaultBehavior :: "nat \<Rightarrow> behavior" where
  "newDefaultBehavior currentScene =
     \<lparr>b_kind = DefaultBehavior, b_currentScene = currentScene, b_configuration = 0\<rparr>"

definition newVentilationBehavior :: "nat \<Rightarrow> behavior" where
  "newVentilationBehavior currentScene =
     setCurrentScene \<lparr>b_kind = VentilationBehavior, b_currentScene = SceneOff, b_configuration = 0\<rparr> currentScene"

definition setConfiguration :: "behavior \<Rightarrow> u32 \<Rightarrow> behavior" where
  "setConfiguration b c = b\<lparr>b_configuration := c\<rparr>"

text \<open>\<^verbatim>\<open>find\<close> gives the position of the scene, if it is active.\<close>

definition behaviorNextScene :: "behavior \<Rightarrow> base_error + nat" where
  "behaviorNextScene b =
     (case b_kind b of
        DefaultBehavior \<Rightarrow> Inr (getNextScene (b_currentScene b))
      | VentilationBehavior \<Rightarrow>
          let activeScenes = getActiveBasicScenes b
          in if activeScenes = [] then Inl (RuntimeError ''Could not find next active scene'')
             else case find_index (\<lambda>s. s = b_currentScene b) activeScenes of
               None \<Rightarrow> Inr (last activeScenes)
             | Some i \<Rightarrow> if b_currentScene b = last activeScenes then Inr (last activeScenes)
                         else Inr (activeScenes ! (i + 1)))"

definition behaviorPreviousScene :: "behavior \<Rightarrow> base_error + nat" where
  "behaviorPreviousScene b =
     (case b_kind b of
        DefaultBehavior \<Rightarrow> Inr (getPreviousScene (b_currentScene b))
      | VentilationBehavior \<Rightarrow>
          let activeScenes = getActiveBasicScenes b
          in if activeScenes = [] then Inl (RuntimeError ''Could not find previous active scene'')
             else case find_index (\<lambda>s. s = b_currentScene b) activeScenes of
               None \<Rightarrow> Inr (hd activeScenes)
             | Some i \<Rightarrow> if b_currentScene b = hd activeScenes then Inr (hd activeScenes)
                         else Inr (activeScenes ! (i - 1)))"

definition behaviorAvailableScenes :: "behavior \<Rightarrow> nat list" where
  "behaviorAvailableScenes b =
     (case b_kind b of DefaultBehavior \<Rightarrow> getAvailableScenes | VentilationBehavior \<Rightarrow> getActiveBasicScenes b)"

text \<open>
  The array \<open>activeBasicScenes\<close> that is written, if any.  The argument is the configuration to write,
  which neither class looks at.
\<close>

definition serializeConfiguration :: "behavior \<Rightarrow> u32 \<Rightarrow> nat list option" where
  "serializeConfiguration b configuration =
     (case b_kind b of DefaultBehavior \<Rightarrow> None | VentilationBehavior \<Rightarrow> Some (getActiveBasicScenes b))"

fun clearBits :: "u32 \<Rightarrow> nat list \<Rightarrow> base_error + u32" where
  "clearBits configuration [] = Inr configuration"
| "clearBits configuration (s # ss) =
     (case find_index (\<lambda>x. x = s) offsetToSceneId of
        None \<Rightarrow> Inl (RuntimeError (''Basic SceneId:'' @ print_nat 10 s @ '' not valid (should be '' @ print_nat 10 SceneOff @
          '', '' @ print_nat 10 Scene1 @ '', '' @ print_nat 10 Scene2 @ '', '' @ print_nat 10 Scene3 @ '', '' @
          print_nat 10 Scene4 @ '' or '' @ print_nat 10 SceneBoost @ '')''))
      | Some i \<Rightarrow> clearBits (configuration AND NOT (push_bit i 1)) ss)"

definition deserializeConfiguration :: "(string \<Rightarrow> jdoc) \<Rightarrow> behavior \<Rightarrow> string \<Rightarrow> base_error + u32" where
  "deserializeConfiguration parse b jsonConfiguration =
     (case parse (c_str jsonConfiguration) of
        NotAnObject \<Rightarrow> Inl (RuntimeError ''Error during Json parsing'')
      | d \<Rightarrow>
          (case b_kind b of
             DefaultBehavior \<Rightarrow> Inr 0
           | VentilationBehavior \<Rightarrow>
               (case d of
                  ScenesNoArray \<Rightarrow> Inl (RuntimeError ''No valid 'activeBasicScenes' array found'')
                | ScenesArray ss \<Rightarrow> clearBits 0x3F ss
                | _ \<Rightarrow> Inr 0)))"

definition getPropertyActiveBasicScenes :: "behavior \<Rightarrow> string" where
  "getPropertyActiveBasicScenes b = join (map (print_nat 10) (getActiveBasicScenes b)) '',''"

section \<open>Lemmas\<close>

lemma offsets_distinct: "distinct offsetToSceneId" "length offsetToSceneId = 6" "[0..<length offsetToSceneId] = [0, 1, 2, 3, 4, 5]"
  by (simp_all add: offsetToSceneId_def SceneOff_def Scene1_def Scene2_def Scene3_def Scene4_def SceneBoost_def upt_rec)

lemma active_set:
  "set (getActiveBasicScenes b) = {offsetToSceneId ! i | i. i < 6 \<and> \<not> bit (b_configuration b) i}"
  by (auto simp: getActiveBasicScenes_def and_exp_eq_0_iff_not_bit offsets_distinct(2) image_iff)

lemma active_distinct: "distinct (getActiveBasicScenes b)"
  unfolding getActiveBasicScenes_def
  using offsets_distinct(1) by (auto simp: distinct_map inj_on_def nth_eq_iff_index_eq)

lemma find_index_offset: "i < 6 \<Longrightarrow> find_index (\<lambda>x. x = offsetToSceneId ! i) offsetToSceneId = Some i"
proof -
  assume "i < 6"
  have d: "distinct xs \<Longrightarrow> k < length xs \<Longrightarrow> find_index (\<lambda>v. v = xs ! k) xs = Some k" for xs :: "nat list" and k
    by (induction xs arbitrary: k) (auto simp: nth_Cons' nth_mem split: if_splits)
  show ?thesis using d [OF offsets_distinct(1)] \<open>i < 6\<close> offsets_distinct(2) by simp
qed

lemma clearBits_bits:
  "\<forall>s \<in> set ss. s \<in> set offsetToSceneId \<Longrightarrow>
     \<exists>c'. clearBits c ss = Inr c' \<and>
       (\<forall>i. bit c' i \<longleftrightarrow> bit c i \<and> \<not> (i < 6 \<and> offsetToSceneId ! i \<in> set ss))"
proof (induction ss arbitrary: c)
  case (Cons s ss)
  then obtain k where k: "k < 6" "s = offsetToSceneId ! k"
    using offsets_distinct(2) by (metis in_set_conv_nth list.set_intros(1))
  have u: "i < 6 \<Longrightarrow> offsetToSceneId ! i = s \<longleftrightarrow> i = k" for i
    using k offsets_distinct by (metis nth_eq_iff_index_eq)
  have step: "clearBits c (s # ss) = clearBits (c AND NOT (push_bit k 1)) ss"
    using find_index_offset [OF k(1)] k(2) by simp
  obtain c' where c': "clearBits (c AND NOT (push_bit k 1)) ss = Inr c'"
      "\<forall>i. bit c' i \<longleftrightarrow> bit (c AND NOT (push_bit k 1)) i \<and> \<not> (i < 6 \<and> offsetToSceneId ! i \<in> set ss)"
    using Cons.IH [of "c AND NOT (push_bit k 1)"] Cons.prems by (meson list.set_intros(2))
  have "bit (c AND NOT (push_bit k 1)) i \<longleftrightarrow> bit c i \<and> i \<noteq> k" for i
    using bit_imp_le_length [of c i] by (auto simp: bit_simps bit_exp_iff)
  then have "\<forall>i. bit c' i \<longleftrightarrow> bit c i \<and> \<not> (i < 6 \<and> offsetToSceneId ! i \<in> set (s # ss))"
    using c'(2) u k(1) by auto
  with c'(1) step show ?case by simp
qed simp

lemma bit_63: "bit (0x3F :: u32) i \<longleftrightarrow> i < 6"
proof -
  have m: "(0x3F :: u32) = mask 6" by (simp add: mask_eq_exp_minus_1)
  show ?thesis unfolding m bit_mask_iff by auto
qed

section \<open>Properties\<close>

text \<open>
  The configuration of ventilation survives writing and reading: a configuration in which only the six
  bits of the basic scenes are used is written as an array of scenes, and the array is read back as the
  configuration.  An array with another scene is refused.  What is written is the configuration the
  behaviour has, whichever configuration the caller asks to write.
\<close>

theorem configuration_roundtrip:
  assumes "b_kind b = VentilationBehavior" and "b_configuration b AND NOT 0x3F = 0"
    and "serializeConfiguration b c = Some ss" and "parse (c_str t) = ScenesArray ss"
  shows "deserializeConfiguration parse b t = Inr (b_configuration b) \<and>
    serializeConfiguration b c' = serializeConfiguration b c"
proof -
  have ss: "ss = getActiveBasicScenes b" using assms(1, 3) by (simp add: serializeConfiguration_def)
  have sub: "\<forall>s \<in> set ss. s \<in> set offsetToSceneId"
    using offsets_distinct(2) unfolding ss active_set by (auto simp: nth_mem)
  obtain x where x: "clearBits 0x3F ss = Inr x"
      "\<forall>i. bit x i \<longleftrightarrow> bit (0x3F :: u32) i \<and> \<not> (i < 6 \<and> offsetToSceneId ! i \<in> set ss)"
    using clearBits_bits [OF sub] by blast
  have "offsetToSceneId ! i \<in> set ss \<longleftrightarrow> \<not> bit (b_configuration b) i" if "i < 6" for i
    using that offsets_distinct unfolding ss active_set by (auto simp: nth_eq_iff_index_eq)
  moreover have "i < 6" if "bit (b_configuration b) i" for i
  proof -
    define m :: u32 where "m = 0x3F"
    have "\<not> bit (b_configuration b AND NOT m) i" using assms(2) by (simp add: m_def)
    then have "bit m i" using that bit_imp_le_length [OF that] by (auto simp: bit_and_iff bit_not_iff)
    then show ?thesis by (simp only: m_def bit_63)
  qed
  ultimately have "bit x i \<longleftrightarrow> bit (b_configuration b) i" for i
    using x(2) [unfolded bit_63, rule_format, of i] by blast
  then have "x = b_configuration b" by (intro bit_word_eqI)
  then show ?thesis using assms x(1) by (simp add: deserializeConfiguration_def serializeConfiguration_def)
qed

definition exampleVentilation :: behavior where
  "exampleVentilation = \<lparr>b_kind = VentilationBehavior, b_currentScene = SceneOff, b_configuration = 0x2A\<rparr>"

theorem configuration_roundtrip_witness:
  "deserializeConfiguration (\<lambda>_. ScenesArray [SceneOff, Scene2, Scene4]) exampleVentilation [] = Inr 0x2A"
proof -
  have s: "serializeConfiguration exampleVentilation 0 = Some [SceneOff, Scene2, Scene4]"
    by (simp add: serializeConfiguration_def getActiveBasicScenes_def exampleVentilation_def offsets_distinct(3))
       (simp add: offsetToSceneId_def)
  show ?thesis
    using configuration_roundtrip [OF _ _ s, of "\<lambda>_. ScenesArray [SceneOff, Scene2, Scene4]" "[]"]
    by (simp add: exampleVentilation_def)
qed

text \<open>
  Stepping stays inside of the active scenes: for ventilation with at least one active scene the next
  and the previous scene are active, a step up and a step down from an active scene come back to it
  unless the step was stopped at the end, and what is set as the current scene is active if the scene
  before was.  With no active scene stepping throws and the current scene is off.
\<close>

theorem stepping_active:
  assumes "b_kind b = VentilationBehavior"
  shows "if getActiveBasicScenes b = [] then
      (\<exists>e. behaviorNextScene b = Inl (RuntimeError e)) \<and> (\<exists>e. behaviorPreviousScene b = Inl (RuntimeError e)) \<and>
      b_currentScene (setCurrentScene b s) = SceneOff
    else \<exists>n p. behaviorNextScene b = Inr n \<and> behaviorPreviousScene b = Inr p \<and>
      n \<in> set (getActiveBasicScenes b) \<and> p \<in> set (getActiveBasicScenes b) \<and>
      (b_currentScene b \<in> set (getActiveBasicScenes b) \<longrightarrow>
         b_currentScene (setCurrentScene b s) \<in> set (getActiveBasicScenes b) \<and>
         (b_currentScene b \<noteq> last (getActiveBasicScenes b) \<longrightarrow>
            behaviorPreviousScene (b\<lparr>b_currentScene := n\<rparr>) = Inr (b_currentScene b)))"
proof (cases "getActiveBasicScenes b = []")
  case True
  then show ?thesis
    using assms by (simp add: behaviorNextScene_def behaviorPreviousScene_def setCurrentScene_def)
next
  case False
  define as where "as = getActiveBasicScenes b"
  note d = active_distinct [of b, folded as_def]
  have as: "as \<noteq> []" "getActiveBasicScenes (b\<lparr>b_currentScene := n\<rparr>) = as" for n
    using False by (simp_all add: as_def getActiveBasicScenes_def)
  have idx: "find_index (\<lambda>s. s = as ! k) as = Some k" if "k < length as" for k
  proof -
    have "distinct xs \<Longrightarrow> k < length xs \<Longrightarrow> find_index (\<lambda>v. v = xs ! k) xs = Some k" for xs :: "nat list" and k
      by (induction xs arbitrary: k) (auto simp: nth_Cons' nth_mem split: if_splits)
    from this [OF d that] show ?thesis .
  qed
  have cur: "b_currentScene (setCurrentScene b s) \<in> set as" if "b_currentScene b \<in> set as"
    using assms as that hd_in_set [OF as(1)] by (simp add: setCurrentScene_def Let_def as_def)
  show ?thesis
  proof (cases "b_currentScene b \<in> set as")
    case out: False
    then have "find_index (\<lambda>s. s = b_currentScene b) as = None" by (auto simp: find_index_None_iff)
    then show ?thesis
      using False out assms as by (simp add: behaviorNextScene_def behaviorPreviousScene_def as_def [symmetric])
  next
    case True
    then obtain k where k: "k < length as" "b_currentScene b = as ! k" by (metis in_set_conv_nth)
    define n where "n = (if as ! k = last as then last as else as ! (k + 1))"
    define p where "p = (if as ! k = hd as then hd as else as ! (k - 1))"
    have next': "behaviorNextScene b = Inr n" and prev: "behaviorPreviousScene b = Inr p"
      using assms as k idx by (simp_all add: behaviorNextScene_def behaviorPreviousScene_def as_def [symmetric] n_def p_def)
    have last: "as ! k = last as \<longleftrightarrow> k = length as - 1"
      using d k as by (simp add: last_conv_nth nth_eq_iff_index_eq)
    then have mem: "n \<in> set as" "p \<in> set as"
      using k as by (auto simp: n_def p_def)
    have "behaviorPreviousScene (b\<lparr>b_currentScene := n\<rparr>) = Inr (as ! k)" if "as ! k \<noteq> last as"
    proof -
      have k1: "k + 1 < length as" "n = as ! (k + 1)" using that last k by (auto simp: n_def)
      then have "n \<noteq> hd as" using d as by (simp add: hd_conv_nth nth_eq_iff_index_eq)
      then show ?thesis
        using assms as(1) idx [OF k1(1)] k1(2) by (simp add: behaviorPreviousScene_def as(2))
    qed
    then show ?thesis using False next' prev mem cur True k by (simp add: as_def [symmetric])
  qed
qed

theorem stepping_active_witness:
  "\<exists>n p. behaviorNextScene exampleVentilation = Inr n \<and> behaviorPreviousScene exampleVentilation = Inr p \<and>
    n \<in> {SceneOff, Scene2, Scene4} \<and> p \<in> {SceneOff, Scene2, Scene4} \<and>
    behaviorPreviousScene (exampleVentilation\<lparr>b_currentScene := n\<rparr>) = Inr SceneOff"
proof -
  have a: "getActiveBasicScenes exampleVentilation = [SceneOff, Scene2, Scene4]"
    by (simp add: getActiveBasicScenes_def exampleVentilation_def offsets_distinct(3)) (simp add: offsetToSceneId_def)
  have k: "b_kind exampleVentilation = VentilationBehavior" "b_currentScene exampleVentilation = SceneOff"
    by (simp_all add: exampleVentilation_def)
  show ?thesis
    using stepping_active [OF k(1), of 0] by (simp add: a k(2)) (auto simp: SceneOff_def Scene4_def)
qed

end
