(* ===== verification/Device_Set.thy ===== *)
theory Device_Set
  imports Ds485_Types Behavior
begin

text \<open>
  Sets of devices, \<^verbatim>\<open>src/src/model/set.cpp\<close>, with the parts of the data model they read: the
  lookups of \<^verbatim>\<open>src/src/model/apartment.cpp\<close>, \<^verbatim>\<open>src/src/model/zone.cpp\<close>, \<^verbatim>\<open>src/src/model/group.cpp\<close>,
  \<^verbatim>\<open>src/src/model/device.cpp\<close> and the references of \<^verbatim>\<open>src/src/model/devicereference.cpp\<close>.

  A reference to a device is its dSUID, and two references are equal when their dSUIDs are; the
  device is looked up in the apartment each time, which throws when it is gone.  A set is the vector
  of its references, in order.  Exceptions are the values of \<open>serror\<close>.  Locks are not modelled.
\<close>

section \<open>Data\<close>

datatype serror =
    ItemNotFound string
  | ItemDuplicate string
  | SceneAccessDenied string
  | StdRuntime string
  | StdInvalidArgument string
  | StdRangeError string
  | StdOutOfRangeError
  | AssertFailed
  | NullPointer
  | OutOfFuel

definition sbind :: "serror + 'a \<Rightarrow> ('a \<Rightarrow> serror + 'b) \<Rightarrow> serror + 'b" where
  "sbind r f = (case r of Inl e \<Rightarrow> Inl e | Inr x \<Rightarrow> f x)"

lemma sbind_simps [simp]: "sbind (Inl e) f = Inl e" "sbind (Inr x) f = f x"
  by (simp_all add: sbind_def)

text \<open>
  The members of a device, a group (or cluster) and a zone that sets and the structure of the apartment use.  \<open>d_tag\<close> says which names the device's node for tags has
  a child for (none without that node).
\<close>

record binaryInput =
  bi_inputType :: BinaryInputType
  bi_inputId :: int
  bi_targetGroupId :: int

record device =
  d_dsid :: dsuid
  d_name :: string
  d_zoneID :: int
  d_lastKnownZoneID :: int
  d_groupIds :: "int list"
  d_functionID :: u32
  d_dsMeterDSID :: dsuid
  d_lastKnownMeterDSID :: dsuid
  d_isPresent :: bool
  d_shortAddress :: u16
  d_isVdc :: bool
  d_sensorInputs :: "int list"
  d_consumption :: u64
  d_tag :: "string \<Rightarrow> bool"
  d_binaryInputs :: "binaryInput list"

record group =
  g_id :: int
  g_zoneID :: int
  g_name :: string
  g_applicationType :: ApplicationType
  g_isValid :: bool
  g_isCluster :: bool
  g_lastCalledScene :: nat
  g_lastButOneCalledScene :: nat
  g_behavior :: behavior

record zone =
  z_id :: int
  z_name :: string
  z_devices :: "dsuid list"
  z_groups :: "group list"
  z_heatingOperationMode :: int
  z_isPresent :: bool

record dsmeter =
  dm_dsid :: dsuid
  dm_name :: string
  dm_isVDSM :: bool
  dm_hasMetering :: bool
  dm_isPresent :: bool
  dm_devices :: "dsuid list"

record apartment =
  a_devices :: "device list"
  a_zones :: "zone list"
  a_dsMeters :: "dsmeter list"

type_synonym dset = "dsuid list"

section \<open>The lookups of the apartment\<close>

definition tryGetDeviceByDSID :: "apartment \<Rightarrow> dsuid \<Rightarrow> device option" where
  "tryGetDeviceByDSID A r = find (\<lambda>d. d_dsid d = r) (a_devices A)"

definition getDeviceByDSID :: "apartment \<Rightarrow> dsuid \<Rightarrow> serror + device" where
  "getDeviceByDSID A r =
     (case tryGetDeviceByDSID A r of None \<Rightarrow> Inl (ItemNotFound (dsuid2str r)) | Some d \<Rightarrow> Inr d)"

definition getDeviceByName :: "apartment \<Rightarrow> string \<Rightarrow> serror + device" where
  "getDeviceByName A name =
     (case find (\<lambda>d. d_name d = name) (a_devices A) of None \<Rightarrow> Inl (ItemNotFound name) | Some d \<Rightarrow> Inr d)"

definition getDevices :: "apartment \<Rightarrow> dset" where
  "getDevices A = map d_dsid (a_devices A)"

definition getZoneByName :: "apartment \<Rightarrow> string \<Rightarrow> serror + zone" where
  "getZoneByName A name =
     (case find (\<lambda>z. z_name z = name) (a_zones A) of None \<Rightarrow> Inl (ItemNotFound name) | Some z \<Rightarrow> Inr z)"

definition tryGetZone :: "apartment \<Rightarrow> int \<Rightarrow> zone option" where
  "tryGetZone A i = find (\<lambda>z. z_id z = i) (a_zones A)"

definition getZone :: "apartment \<Rightarrow> int \<Rightarrow> serror + zone" where
  "getZone A i =
     (case tryGetZone A i of None \<Rightarrow> Inl (ItemNotFound (print_int i)) | Some z \<Rightarrow> Inr z)"

definition getDSMeter :: "apartment \<Rightarrow> string \<Rightarrow> serror + dsmeter" where
  "getDSMeter A name =
     (case find (\<lambda>m. dm_name m = name) (a_dsMeters A) of None \<Rightarrow> Inl (ItemNotFound name) | Some m \<Rightarrow> Inr m)"

definition getDSMeterByDSID :: "apartment \<Rightarrow> dsuid \<Rightarrow> serror + dsmeter" where
  "getDSMeterByDSID A r =
     (case find (\<lambda>m. dm_dsid m = r) (a_dsMeters A) of
        None \<Rightarrow> Inl (ItemNotFound (dsuid2str r)) | Some m \<Rightarrow> Inr m)"

definition getDSMeters :: "apartment \<Rightarrow> dsmeter list" where
  "getDSMeters A = filter (\<lambda>m. \<not> dm_isVDSM m) (a_dsMeters A)"

text \<open>\<^verbatim>\<open>Zone::getGroup\<close> gives a null pointer for a group the zone does not have.\<close>

definition zoneGroupByName :: "zone \<Rightarrow> string \<Rightarrow> group option" where
  "zoneGroupByName z name = find (\<lambda>g. g_name g = name) (z_groups z)"

definition zoneGroup :: "zone \<Rightarrow> int \<Rightarrow> group option" where
  "zoneGroup z i = find (\<lambda>g. g_id g = i) (z_groups z)"

definition getGroupByName :: "apartment \<Rightarrow> string \<Rightarrow> serror + group" where
  "getGroupByName A name =
     sbind (getZone A 0) (\<lambda>z. case zoneGroupByName z name of None \<Rightarrow> Inl (ItemNotFound name) | Some g \<Rightarrow> Inr g)"

definition getGroup :: "apartment \<Rightarrow> int \<Rightarrow> serror + group" where
  "getGroup A i =
     sbind (getZone A 0) (\<lambda>z. case zoneGroup z i of None \<Rightarrow> Inl (ItemNotFound (print_int i)) | Some g \<Rightarrow> Inr g)"

section \<open>Devices\<close>

definition getGroupIdByIndex :: "device \<Rightarrow> nat \<Rightarrow> serror + int" where
  "getGroupIdByIndex d i = (if i < length (d_groupIds d) then Inr (d_groupIds d ! i) else Inl StdOutOfRangeError)"

definition getGroupByIndex :: "apartment \<Rightarrow> device \<Rightarrow> nat \<Rightarrow> serror + group" where
  "getGroupByIndex A d i = sbind (getGroupIdByIndex d i) (getGroup A)"

definition isInGroup :: "device \<Rightarrow> int \<Rightarrow> bool" where
  "isInGroup d g = (if g = 0 then True else if \<not> isValidGroup g then False else g \<in> set (d_groupIds d))"

datatype DeviceClasses =
    CLASS_INVALID | CLASS_GE | CLASS_GR | CLASS_BL | CLASS_TK | CLASS_MG | CLASS_RT | CLASS_GN | CLASS_SW | CLASS_WE

definition getDeviceClass :: "device \<Rightarrow> DeviceClasses" where
  "getDeviceClass d =
     (if d_functionID d = 0 then CLASS_INVALID else
      let c = drop_bit 12 (d_functionID d AND 0xf000)
      in if c = 1 then CLASS_GE else if c = 2 then CLASS_GR else if c = 3 then CLASS_BL
         else if c = 4 then CLASS_TK else if c = 5 then CLASS_MG else if c = 6 then CLASS_RT
         else if c = 7 then CLASS_GN else if c = 8 then CLASS_SW else if c = 9 then CLASS_WE
         else CLASS_INVALID)"

definition hasSensorType :: "device \<Rightarrow> int \<Rightarrow> bool" where
  "hasSensorType d t \<longleftrightarrow> find (\<lambda>s. s = t) (d_sensorInputs d) \<noteq> None"

section \<open>Sets\<close>

definition contains :: "dset \<Rightarrow> dsuid \<Rightarrow> bool" where
  "contains S r \<longleftrightarrow> r \<in> set S"

definition addDevice :: "dset \<Rightarrow> dsuid \<Rightarrow> dset" where
  "addDevice S r = (if \<not> contains S r then S @ [r] else S)"

text \<open>\<^verbatim>\<open>erase\<close> of the first position that \<^verbatim>\<open>find\<close> returns.\<close>

definition removeDevice :: "dset \<Rightarrow> dsuid \<Rightarrow> dset" where
  "removeDevice S r = remove1 r S"

definition setGet :: "dset \<Rightarrow> int \<Rightarrow> serror + dsuid" where
  "setGet S i = (if 0 \<le> i \<and> nat i < length S then Inr (S ! nat i) else Inl StdOutOfRangeError)"

definition combine :: "dset \<Rightarrow> dset \<Rightarrow> dset" where
  "combine S other = foldl (\<lambda>res r. if \<not> contains res r then addDevice res r else res) other S"

definition setRemove :: "dset \<Rightarrow> dset \<Rightarrow> dset" where
  "setRemove S other = foldl removeDevice S other"

text \<open>The loop every query is made of: look the device up, and add it if it is selected.\<close>

fun selectLoop :: "apartment \<Rightarrow> (device \<Rightarrow> bool) \<Rightarrow> dset \<Rightarrow> dset \<Rightarrow> serror + dset" where
  "selectLoop A sel result [] = Inr result"
| "selectLoop A sel result (r # rs) =
     sbind (getDeviceByDSID A r) (\<lambda>d. selectLoop A sel (if sel d then addDevice result r else result) rs)"

definition getSubset :: "apartment \<Rightarrow> (device \<Rightarrow> bool) \<Rightarrow> dset \<Rightarrow> serror + dset" where
  "getSubset A sel S = selectLoop A sel [] S"

definition getByGroup :: "apartment \<Rightarrow> dset \<Rightarrow> int \<Rightarrow> serror + dset" where
  "getByGroup A S g = (if g \<noteq> GroupIDBroadcast then getSubset A (\<lambda>d. isInGroup d g) S else Inr S)"

definition getByGroupName :: "apartment \<Rightarrow> dset \<Rightarrow> string \<Rightarrow> serror + dset" where
  "getByGroupName A S name =
     (if S = [] then Inr []
      else sbind (getDeviceByDSID A (S ! 0)) (\<lambda>_. sbind (getGroupByName A name) (\<lambda>g. getByGroup A S (g_id g))))"

definition getByColor :: "apartment \<Rightarrow> dset \<Rightarrow> DeviceClasses \<Rightarrow> serror + dset" where
  "getByColor A S color = getSubset A (\<lambda>d. getDeviceClass d = color) S"

definition getByZone :: "apartment \<Rightarrow> dset \<Rightarrow> int \<Rightarrow> serror + dset" where
  "getByZone A S i = (if i \<noteq> 0 then selectLoop A (\<lambda>d. d_zoneID d = i) [] S else Inr S)"

definition getByZoneName :: "apartment \<Rightarrow> dset \<Rightarrow> string \<Rightarrow> serror + dset" where
  "getByZoneName A S name =
     (if S = [] then Inr []
      else sbind (getDeviceByDSID A (S ! 0)) (\<lambda>_. sbind (getZoneByName A name) (\<lambda>z. getByZone A S (z_id z))))"

definition getByDSMeter :: "apartment \<Rightarrow> dset \<Rightarrow> dsuid \<Rightarrow> serror + dset" where
  "getByDSMeter A S m = selectLoop A (\<lambda>d. d_dsMeterDSID d = m) [] S"

definition getByLastKnownDSMeter :: "apartment \<Rightarrow> dset \<Rightarrow> dsuid \<Rightarrow> serror + dset" where
  "getByLastKnownDSMeter A S m = selectLoop A (\<lambda>d. d_lastKnownMeterDSID d = m) [] S"

definition getByFunctionID :: "apartment \<Rightarrow> dset \<Rightarrow> u32 \<Rightarrow> serror + dset" where
  "getByFunctionID A S fid = selectLoop A (\<lambda>d. d_functionID d = fid) [] S"

definition getByPresence :: "apartment \<Rightarrow> dset \<Rightarrow> bool \<Rightarrow> serror + dset" where
  "getByPresence A S p = selectLoop A (\<lambda>d. d_isPresent d = p) [] S"

definition getByTag :: "apartment \<Rightarrow> dset \<Rightarrow> string \<Rightarrow> serror + dset" where
  "getByTag A S t = selectLoop A (\<lambda>d. d_tag d t) [] S"

definition getBySensorType :: "apartment \<Rightarrow> dset \<Rightarrow> int \<Rightarrow> serror + dset" where
  "getBySensorType A S t = getSubset A (\<lambda>d. hasSensorType d t) S"

text \<open>The queries for one device give the first that is selected.\<close>

definition frontOr :: "string \<Rightarrow> dset \<Rightarrow> serror + dsuid" where
  "frontOr msg res = (case res of [] \<Rightarrow> Inl (ItemNotFound msg) | r # _ \<Rightarrow> Inr r)"

definition getByName :: "apartment \<Rightarrow> dset \<Rightarrow> string \<Rightarrow> serror + dsuid" where
  "getByName A S name = sbind (getSubset A (\<lambda>d. d_name d = name) S) (frontOr name)"

definition getByBusID :: "apartment \<Rightarrow> dset \<Rightarrow> u16 \<Rightarrow> dsuid \<Rightarrow> serror + dsuid" where
  "getByBusID A S i m =
     sbind (getSubset A (\<lambda>d. d_shortAddress d = i \<and> d_dsMeterDSID d = m) S)
       (frontOr (''with busid '' @ print_nat 10 (unat i)))"

definition getByDSID :: "apartment \<Rightarrow> dset \<Rightarrow> dsuid \<Rightarrow> serror + dsuid" where
  "getByDSID A S r =
     sbind (getSubset A (\<lambda>d. d_dsid d = r) S) (frontOr (''with dsid '' @ dsuid2str r))"

definition getBySerial :: "dsuidlib \<Rightarrow> apartment \<Rightarrow> dset \<Rightarrow> u32 \<Rightarrow> serror + dsuid" where
  "getBySerial L A S serial =
     sbind (getSubset A (\<lambda>d. \<not> d_isVdc d \<and> lib_serial_number L (d_dsid d) = Some serial) S)
       (frontOr (''with serial '' @ ''0x'' @ print_nat 16 (unat serial)))"

fun setPowerConsumption :: "apartment \<Rightarrow> dset \<Rightarrow> u64 \<Rightarrow> serror + u64" where
  "setPowerConsumption A [] result = Inr result"
| "setPowerConsumption A (r # rs) result =
     sbind (getDeviceByDSID A r) (\<lambda>d. setPowerConsumption A rs (result + d_consumption d))"

definition groupDevices :: "apartment \<Rightarrow> group \<Rightarrow> serror + dset" where
  "groupDevices A g = sbind (getZone A (g_zoneID g)) (\<lambda>z. getByGroup A (z_devices z) (g_id g))"

section \<open>The interface of a set\<close>

text \<open>
  What the clients of a set use: a vector without repetitions, of which every operation tells the
  members.  The operations on two sets are folds of the operations on one element.
\<close>

locale reference_set =
  fixes members :: "'s \<Rightarrow> 'e set"
    and ok :: "'s \<Rightarrow> bool"
    and ins :: "'s \<Rightarrow> 'e \<Rightarrow> 's"
    and del :: "'s \<Rightarrow> 'e \<Rightarrow> 's"
  assumes ok_ins: "ok s \<Longrightarrow> ok (ins s e)"
    and ok_del: "ok s \<Longrightarrow> ok (del s e)"
    and mem_ins: "ok s \<Longrightarrow> members (ins s e) = insert e (members s)"
    and mem_del: "ok s \<Longrightarrow> members (del s e) = members s - {e}"
begin

lemma ins_fold: "ok s \<Longrightarrow> ok (foldl ins s es) \<and> members (foldl ins s es) = members s \<union> set es"
  by (induction es arbitrary: s) (auto simp: ok_ins mem_ins)

lemma del_fold: "ok s \<Longrightarrow> ok (foldl del s es) \<and> members (foldl del s es) = members s - set es"
  by (induction es arbitrary: s) (auto simp: ok_del mem_del)

end

interpretation rs: reference_set set distinct addDevice removeDevice
  by unfold_locales (auto simp: addDevice_def removeDevice_def contains_def)

section \<open>Lemmas\<close>

definition known :: "apartment \<Rightarrow> dset \<Rightarrow> bool" where
  "known A S \<longleftrightarrow> (\<forall>r \<in> set S. tryGetDeviceByDSID A r \<noteq> None)"

definition dev :: "apartment \<Rightarrow> dsuid \<Rightarrow> device" where
  "dev A r = the (tryGetDeviceByDSID A r)"

lemma known_simps [simp]:
  "known A []" "known A (r # S) \<longleftrightarrow> tryGetDeviceByDSID A r \<noteq> None \<and> known A S"
  by (auto simp: known_def)

lemma known_subset: "known A S \<Longrightarrow> set T \<subseteq> set S \<Longrightarrow> known A T"
  by (auto simp: known_def)

lemma known_iff: "known A S \<longleftrightarrow> set S \<subseteq> set (getDevices A)"
  by (auto simp: known_def tryGetDeviceByDSID_def getDevices_def find_None_iff)

lemma getDevice_known: "tryGetDeviceByDSID A r \<noteq> None \<Longrightarrow> getDeviceByDSID A r = Inr (dev A r)"
  by (auto simp: getDeviceByDSID_def dev_def)

lemma tryGet_dsid: "tryGetDeviceByDSID A r = Some d \<Longrightarrow> d \<in> set (a_devices A) \<and> d_dsid d = r"
  by (auto simp: tryGetDeviceByDSID_def find_Some_iff)

lemma dev_dsid: "tryGetDeviceByDSID A r \<noteq> None \<Longrightarrow> dev A r \<in> set (a_devices A) \<and> d_dsid (dev A r) = r"
  using tryGet_dsid by (auto simp: dev_def)

lemma find_key: "distinct (map f xs) \<Longrightarrow> x \<in> set xs \<Longrightarrow> find (\<lambda>y. f y = f x) xs = Some x"
  by (induction xs) (auto simp: image_iff)

lemma dev_of:
  "distinct (getDevices A) \<Longrightarrow> d \<in> set (a_devices A) \<Longrightarrow> tryGetDeviceByDSID A (d_dsid d) = Some d"
  unfolding tryGetDeviceByDSID_def getDevices_def by (rule find_key)

lemma addDevice_fresh: "r \<notin> set S \<Longrightarrow> addDevice S r = S @ [r]"
  by (simp add: addDevice_def contains_def)

lemma selectLoop_known:
  "known A S \<Longrightarrow> distinct (result @ S) \<Longrightarrow>
     selectLoop A sel result S = Inr (result @ filter (\<lambda>r. sel (dev A r)) S)"
  by (induction S arbitrary: result) (auto simp: getDevice_known addDevice_fresh)

lemma selectLoop_unknown:
  "\<not> known A S \<Longrightarrow> \<exists>r \<in> set S. tryGetDeviceByDSID A r = None \<and>
     selectLoop A sel result S = Inl (ItemNotFound (dsuid2str r))"
proof (induction S arbitrary: result)
  case (Cons r S)
  show ?case
  proof (cases "tryGetDeviceByDSID A r")
    case None
    then show ?thesis by (simp add: getDeviceByDSID_def)
  next
    case (Some d)
    with Cons show ?thesis by (auto simp: getDeviceByDSID_def)
  qed
qed simp

lemma getSubset_known:
  "known A S \<Longrightarrow> distinct S \<Longrightarrow> getSubset A sel S = Inr (filter (\<lambda>r. sel (dev A r)) S)"
  by (simp add: getSubset_def selectLoop_known)

lemma isInGroup_zero [simp]: "isInGroup d 0"
  by (simp add: isInGroup_def)

lemma getByGroup_known:
  "known A S \<Longrightarrow> distinct S \<Longrightarrow> getByGroup A S g = Inr (filter (\<lambda>r. isInGroup (dev A r) g) S)"
  by (simp add: getByGroup_def getSubset_known GroupIDBroadcast_def)

lemma getByZone_known:
  "known A S \<Longrightarrow> distinct S \<Longrightarrow> getByZone A S i = Inr (filter (\<lambda>r. i = 0 \<or> d_zoneID (dev A r) = i) S)"
  by (simp add: getByZone_def selectLoop_known)

lemma combine_fold: "combine S T = foldl addDevice T S"
  unfolding combine_def by (rule arg_cong [where f = "\<lambda>f. foldl f T S"]) (auto simp: fun_eq_iff addDevice_def)

lemma combine_list:
  "distinct S \<Longrightarrow> combine S T = T @ filter (\<lambda>r. r \<notin> set T) S"
proof -
  have "foldl addDevice (T @ U) S = T @ U @ filter (\<lambda>r. r \<notin> set T \<and> r \<notin> set U) S" if "distinct S" for U
    using that
  proof (induction S arbitrary: U)
    case (Cons r S)
    then have "filter (\<lambda>x. x \<notin> set T \<and> x \<notin> set (U @ [r])) S = filter (\<lambda>x. x \<notin> set T \<and> x \<notin> set U) S"
      by (intro filter_cong) auto
    then show ?case using Cons.IH [of U] Cons.IH [of "U @ [r]"] Cons.prems
      by (simp add: addDevice_def contains_def)
  qed simp
  from this [of "[]"] show "distinct S \<Longrightarrow> combine S T = T @ filter (\<lambda>r. r \<notin> set T) S"
    by (simp add: combine_fold)
qed

lemma setRemove_list: "distinct S \<Longrightarrow> setRemove S T = filter (\<lambda>r. r \<notin> set T) S"
proof (induction T arbitrary: S)
  case (Cons t T)
  then show ?case
    by (simp add: setRemove_def removeDevice_def distinct_remove1_removeAll removeAll_filter_not_eq)
       (metis (mono_tags, lifting))
qed (simp add: setRemove_def)

section \<open>Properties\<close>

text \<open>
  The operations on sets without repetitions are those of finite sets, and keep the order: the union
  puts the members of the argument first, the difference keeps the rest in place, no operation
  introduces a repetition, and a set restricted to a zone or to a group keeps exactly its members in
  that zone or group when all of its references can be looked up; a reference to a device that is
  gone makes the query throw.
\<close>

theorem set_operations:
  assumes "distinct S" and "distinct T"
  shows "combine S T = T @ filter (\<lambda>r. r \<notin> set T) S \<and>
    setRemove S T = filter (\<lambda>r. r \<notin> set T) S \<and>
    distinct (combine S T) \<and> set (combine S T) = set S \<union> set T \<and>
    distinct (setRemove S T) \<and> set (setRemove S T) = set S - set T \<and>
    (if known A S then
       getByZone A S i = Inr (filter (\<lambda>r. i = 0 \<or> d_zoneID (dev A r) = i) S) \<and>
       getByGroup A S g = Inr (filter (\<lambda>r. isInGroup (dev A r) g) S)
     else g \<noteq> 0 \<longrightarrow> (\<exists>r \<in> set S. tryGetDeviceByDSID A r = None \<and>
       getByGroup A S g = Inl (ItemNotFound (dsuid2str r))))"
proof -
  have "distinct (combine S T) \<and> set (combine S T) = set S \<union> set T"
    using rs.ins_fold [OF assms(2), of S] by (auto simp: combine_fold)
  moreover have "distinct (setRemove S T) \<and> set (setRemove S T) = set S - set T"
    using rs.del_fold [OF assms(1), of T] by (simp add: setRemove_def)
  moreover have "\<exists>r \<in> set S. tryGetDeviceByDSID A r = None \<and> getByGroup A S g = Inl (ItemNotFound (dsuid2str r))"
    if "\<not> known A S" "g \<noteq> 0"
    using selectLoop_unknown [OF that(1)] that(2)
    by (simp add: getByGroup_def getSubset_def GroupIDBroadcast_def)
  ultimately show ?thesis
    using assms(1) by (simp add: combine_list setRemove_list getByZone_known getByGroup_known)
qed

text \<open>An example: two zones with two devices each.\<close>

definition exDevice :: "u8 \<Rightarrow> int \<Rightarrow> int list \<Rightarrow> device" where
  "exDevice i z gs = \<lparr>d_dsid = [i], d_name = '''', d_zoneID = z, d_lastKnownZoneID = z, d_groupIds = gs, d_functionID = 0,
     d_dsMeterDSID = [], d_lastKnownMeterDSID = [], d_isPresent = True, d_shortAddress = 0,
     d_isVdc = False, d_sensorInputs = [], d_consumption = 0, d_tag = (\<lambda>_. False), d_binaryInputs = []\<rparr>"

definition exGroup :: "int \<Rightarrow> int \<Rightarrow> group" where
  "exGroup z g = \<lparr>g_id = g, g_zoneID = z, g_name = '''', g_applicationType = AT_None, g_isValid = True,
     g_isCluster = False, g_lastCalledScene = SceneOff, g_lastButOneCalledScene = SceneOff,
     g_behavior = newDefaultBehavior SceneOff\<rparr>"

lemma exGroup_simps:
  "g_id (exGroup z i) = i" "g_zoneID (exGroup z i) = z" "exGroup z i = exGroup y j \<longleftrightarrow> z = y \<and> i = j"
  by (auto simp: exGroup_def)

definition exZone :: "int \<Rightarrow> int list \<Rightarrow> dsuid list \<Rightarrow> zone" where
  "exZone z gs ds = \<lparr>z_id = z, z_name = '''', z_devices = ds,
     z_groups = map (exGroup z) gs, z_heatingOperationMode = 0, z_isPresent = True\<rparr>"

definition exHouse :: apartment where
  "exHouse = \<lparr>
     a_devices = [exDevice 1 1 [1], exDevice 2 1 [2], exDevice 3 2 [1], exDevice 4 2 [2]],
     a_zones = [exZone 0 [0, 1, 2] [[1], [2], [3], [4]], exZone 1 [0, 1, 2] [[1], [2]],
                exZone 2 [0, 1, 2] [[3], [4]]],
     a_dsMeters = []\<rparr>"

lemmas ex_defs = exHouse_def exDevice_def exGroup_def exZone_def tryGetDeviceByDSID_def dev_def

theorem set_operations_witness:
  "combine [[1], [2]] [[2], [3]] = [[2], [3], [1 :: u8]] \<and>
   setRemove [[1], [2]] [[2], [3]] = [[1]] \<and>
   getByZone exHouse [[1], [2]] 2 = Inr [] \<and>
   getByGroup exHouse [[1], [2]] 1 = Inr [[1]] \<and>
   getByGroup exHouse [[1], [9]] 1 = Inl (ItemNotFound (dsuid2str [9]))"
proof -
  have "distinct [[1], [2 :: u8]]" "distinct [[2], [3 :: u8]]" "distinct [[1], [9 :: u8]]" by simp_all
  note t = set_operations [OF this(1, 2), of exHouse 2 1] set_operations [OF this(3, 2), of exHouse 2 1]
  show ?thesis using t by (simp add: ex_defs isInGroup_def isValidGroup_iff)
qed

end
