(* ===== verification/Set_Splitter.thy ===== *)
theory Set_Splitter
  imports Device_Set "HOL-Library.Multiset"
begin

text \<open>
  Splitting a set of devices into addressable items, \<^verbatim>\<open>src/src/model/setsplitter.cpp\<close>: a command for
  a set is sent to a few groups and single devices that cover the set, not to each device.

  The map from zones to sets is ordered by the addresses of the zone objects; the function \<open>addr\<close>
  gives the address for the number of a zone and is a parameter.  Two pointers to groups are equal
  when number, zone and name are: \<^verbatim>\<open>getGroup\<close> gives the same object for the same zone and number.
  Log output is not modelled.
\<close>

section \<open>Operations\<close>

text \<open>\<open>NullItem\<close> is a null pointer in the vector of items.\<close>

datatype item = GroupItem group | DeviceItem dsuid | NullItem

definition groupItem :: "group option \<Rightarrow> item" where
  "groupItem g = (case g of None \<Rightarrow> NullItem | Some g \<Rightarrow> GroupItem g)"

text \<open>\<^verbatim>\<open>std::set_intersection\<close> on sorted vectors.\<close>

fun set_intersection :: "int list \<Rightarrow> int list \<Rightarrow> int list" where
  "set_intersection (x # xs) (y # ys) =
     (if x < y then set_intersection xs (y # ys)
      else if y < x then set_intersection (x # xs) ys
      else x # set_intersection xs ys)"
| "set_intersection _ _ = []"

fun intersectLoop :: "apartment \<Rightarrow> int list \<Rightarrow> dset \<Rightarrow> serror + int list" where
  "intersectLoop A isect [] = Inr isect"
| "intersectLoop A isect (r # rs) =
     sbind (getDeviceByDSID A r) (\<lambda>d.
       let tmp = set_intersection isect (sort (d_groupIds d))
       in if tmp = [] then Inr [] else intersectLoop A tmp rs)"

definition findGroupContainingAllDevices :: "apartment \<Rightarrow> dset \<Rightarrow> zone \<Rightarrow> serror + group option" where
  "findGroupContainingAllDevices A S z =
     sbind (case S of [] \<Rightarrow> Inr []
            | r # rs \<Rightarrow> sbind (getDeviceByDSID A r) (\<lambda>d. intersectLoop A (sort (d_groupIds d)) rs))
       (\<lambda>isect. case isect of
          g # _ \<Rightarrow> Inr (zoneGroup z g)
        | [] \<Rightarrow> Inr (zoneGroup z GroupIDBroadcast))"

text \<open>
  The search for a group of the device \<open>d\<close> that has no member in the zone outside of the set, from
  index \<open>iGroup\<close> on.  \<open>us\<close> are the groups that were found unsuitable.
\<close>

function searchGroup :: "apartment \<Rightarrow> zone \<Rightarrow> dset \<Rightarrow> device \<Rightarrow> nat \<Rightarrow> group list
    \<Rightarrow> serror + (group \<times> dset) option \<times> group list" where
  "searchGroup A z S d iGroup us =
     (if iGroup < length (d_groupIds d) then
        sbind (getGroupByIndex A d iGroup) (\<lambda>g0.
          let g = (case zoneGroup z (g_id g0) of None \<Rightarrow> g0 | Some groupOfZone \<Rightarrow> groupOfZone)
          in if g \<in> set us then searchGroup A z S d (iGroup + 1) us else
             sbind (getByGroup A (z_devices z) (g_id g)) (\<lambda>devicesInGroup.
               if list_all (contains S) devicesInGroup then Inr (Some (g, devicesInGroup), us)
               else searchGroup A z S d (iGroup + 1) (us @ [g])))
      else Inr (None, us))"
  by pat_completeness auto
termination by (relation "measure (\<lambda>(A, z, S, d, i, us). length (d_groupIds d) - i)") auto

declare searchGroup.simps [simp del]

text \<open>The devices of the group leave the working copy one by one.\<close>

lemma removeDevice_length: "length (foldl removeDevice w ds) \<le> length w"
proof (induction ds arbitrary: w)
  case (Cons r ds)
  have "length (foldl removeDevice (removeDevice w r) ds) \<le> length (removeDevice w r)" by (rule Cons)
  also have "\<dots> \<le> length w" by (simp add: removeDevice_def length_remove1)
  finally show ?case by simp
qed simp

function fitLoop :: "apartment \<Rightarrow> zone \<Rightarrow> dset \<Rightarrow> dset \<Rightarrow> group list \<Rightarrow> item list \<Rightarrow> serror + item list" where
  "fitLoop A z S [] us result = Inr result"
| "fitLoop A z S (ref # workingCopy) us result =
     sbind (getDeviceByDSID A ref) (\<lambda>d.
     sbind (searchGroup A z S d 0 us) (\<lambda>(found, us). case found of
       Some (g, devicesInGroup) \<Rightarrow>
         fitLoop A z S (foldl removeDevice workingCopy devicesInGroup) us (result @ [GroupItem g])
     | None \<Rightarrow> fitLoop A z S workingCopy us (result @ [DeviceItem ref])))"
  by pat_completeness auto
termination
  by (relation "measure (\<lambda>(A, z, S, w, us, result). length w)") (auto simp: le_imp_less_Suc removeDevice_length)

definition bestFitZone :: "apartment \<Rightarrow> zone \<Rightarrow> dset \<Rightarrow> serror + item list" where
  "bestFitZone A z S =
     (if length (z_devices z) = length S
      then sbind (findGroupContainingAllDevices A S z) (\<lambda>g. Inr [groupItem g])
      else fitLoop A z S S [] [])"

text \<open>\<^verbatim>\<open>result[zone].addDevice(dev)\<close>.\<close>

fun addToZone :: "zone \<Rightarrow> dsuid \<Rightarrow> (zone \<times> dset) list \<Rightarrow> (zone \<times> dset) list" where
  "addToZone z r [] = [(z, addDevice [] r)]"
| "addToZone z r ((y, S) # m) =
     (if z_id y = z_id z then (y, addDevice S r) # m else (y, S) # addToZone z r m)"

fun splitByZone :: "apartment \<Rightarrow> dset \<Rightarrow> (zone \<times> dset) list \<Rightarrow> serror + (zone \<times> dset) list" where
  "splitByZone A [] result = Inr result"
| "splitByZone A (r # rs) result =
     sbind (getDeviceByDSID A r) (\<lambda>d.
     sbind (getZone A (d_zoneID d)) (\<lambda>z. splitByZone A rs (addToZone z r result)))"

fun fitZones :: "apartment \<Rightarrow> (zone \<times> dset) list \<Rightarrow> item list \<Rightarrow> serror + item list" where
  "fitZones A [] result = Inr result"
| "fitZones A ((z, S) # m) result = sbind (bestFitZone A z S) (\<lambda>part. fitZones A m (result @ part))"

definition bestFit :: "(int \<Rightarrow> nat) \<Rightarrow> apartment \<Rightarrow> dset \<Rightarrow> serror + item list" where
  "bestFit addr A S =
     sbind (splitByZone A S []) (\<lambda>zoneToSet.
     sbind (fitZones A (sort_key (\<lambda>e. addr (z_id (fst e))) zoneToSet) []) (\<lambda>result.
       if length result > 1 then
         sbind (setGet S 0) (\<lambda>r.
         sbind (getDeviceByDSID A r) (\<lambda>_.
         sbind (getZone A 0) (\<lambda>z.
         sbind (bestFitZone A z S) (\<lambda>partZoneZero.
           Inr (if length partZoneZero < length result then partZoneZero else result)))))
       else Inr result))"

definition splitUp :: "(int \<Rightarrow> nat) \<Rightarrow> apartment \<Rightarrow> dset \<Rightarrow> serror + item list" where
  "splitUp addr A S =
     (if length S > 0 then
        sbind (setGet S 0) (\<lambda>r.
        sbind (getDeviceByDSID A r) (\<lambda>_.
          if length S = length (getDevices A)
          then sbind (getZone A 0) (\<lambda>z. Inr [groupItem (zoneGroup z 0)])
          else bestFit addr A S))
      else Inr [])"

section \<open>What is addressed\<close>

text \<open>
  A group item addresses the devices that \<^verbatim>\<open>Group::getDevices\<close> gives: those of its zone that are in
  the group, where the zone 0 is the whole apartment.
\<close>

definition addressed :: "apartment \<Rightarrow> item \<Rightarrow> dsuid set" where
  "addressed A i =
     (case i of
        DeviceItem r \<Rightarrow> {r}
      | GroupItem g \<Rightarrow> (case groupDevices A g of Inl _ \<Rightarrow> {} | Inr S \<Rightarrow> set S)
      | NullItem \<Rightarrow> {})"

text \<open>
  A consistent apartment: devices and zones are told apart by their numbers; there is a zone 0 which
  lists every device; another zone lists the devices that say they are in it; the zone of a device
  exists; every zone has the broadcast group, its groups know their zone, and it has every group that
  one of its devices is in, which has a valid number.
\<close>

definition zoneOK :: "apartment \<Rightarrow> zone \<Rightarrow> bool" where
  "zoneOK A z \<longleftrightarrow>
     distinct (z_devices z) \<and>
     set (z_devices z) = d_dsid ` set (filter (\<lambda>d. z_id z = 0 \<or> d_zoneID d = z_id z) (a_devices A)) \<and>
     (\<forall>g \<in> set (z_groups z). g_zoneID g = z_id z) \<and>
     zoneGroup z 0 \<noteq> None \<and>
     (\<forall>d \<in> set (a_devices A). z_id z = 0 \<or> d_zoneID d = z_id z \<longrightarrow>
        (\<forall>i \<in> set (d_groupIds d). isValidGroup i \<and> zoneGroup z i \<noteq> None))"

definition consistent :: "apartment \<Rightarrow> bool" where
  "consistent A \<longleftrightarrow>
     distinct (getDevices A) \<and> distinct (map z_id (a_zones A)) \<and>
     tryGetZone A 0 \<noteq> None \<and>
     (\<forall>d \<in> set (a_devices A). tryGetZone A (d_zoneID d) \<noteq> None) \<and>
     (\<forall>z \<in> set (a_zones A). zoneOK A z)"

section \<open>Lemmas on the parts\<close>

lemma set_intersection_ok:
  "sorted xs \<Longrightarrow> sorted ys \<Longrightarrow>
     set (set_intersection xs ys) = set xs \<inter> set ys \<and> sorted (set_intersection xs ys)"
  by (induction xs ys rule: set_intersection.induct) (auto split: if_splits)

text \<open>The numbers of the groups that all devices of a set are in.\<close>

lemma intersectLoop_known:
  "known A S \<Longrightarrow> sorted isect \<Longrightarrow> \<exists>res. intersectLoop A isect S = Inr res \<and>
     set res = set isect \<inter> (\<Inter>r \<in> set S. set (d_groupIds (dev A r)))"
proof (induction S arbitrary: isect)
  case (Cons r S)
  let ?tmp = "set_intersection isect (sort (d_groupIds (dev A r)))"
  have t: "set ?tmp = set isect \<inter> set (d_groupIds (dev A r))" "sorted ?tmp"
    using set_intersection_ok [of isect "sort (d_groupIds (dev A r))"] Cons.prems by simp_all
  have step: "intersectLoop A isect (r # S) = (if ?tmp = [] then Inr [] else intersectLoop A ?tmp S)"
    using Cons.prems by (simp add: getDevice_known Let_def)
  show ?case
  proof (cases "?tmp = []")
    case True
    with step t(1) show ?thesis by auto
  next
    case False
    from Cons.IH [OF _ t(2)] Cons.prems obtain res where
      "intersectLoop A ?tmp S = Inr res" "set res = set ?tmp \<inter> (\<Inter>r \<in> set S. set (d_groupIds (dev A r)))"
      by auto
    with step False t(1) show ?thesis by auto
  qed
qed simp

lemma zoneGroup_SomeD: "zoneGroup z i = Some g \<Longrightarrow> g \<in> set (z_groups z) \<and> g_id g = i"
  by (auto simp: zoneGroup_def find_Some_iff)

lemma getZone_of: "consistent A \<Longrightarrow> z \<in> set (a_zones A) \<Longrightarrow> getZone A (z_id z) = Inr z"
  using find_key [of z_id "a_zones A" z] by (simp add: consistent_def getZone_def tryGetZone_def)

lemma getZone_SomeD:
  "tryGetZone A i = Some z \<Longrightarrow> z \<in> set (a_zones A) \<and> z_id z = i \<and> getZone A i = Inr z"
  by (simp add: getZone_def) (auto simp: tryGetZone_def find_Some_iff)

lemma zoneOK_devices:
  assumes "consistent A" and "z \<in> set (a_zones A)"
  shows "zoneOK A z" and "known A (z_devices z)" and "distinct (z_devices z)"
    and "r \<in> set (z_devices z) \<longleftrightarrow> r \<in> set (getDevices A) \<and> (z_id z = 0 \<or> d_zoneID (dev A r) = z_id z)"
proof -
  show ok: "zoneOK A z" using assms by (simp add: consistent_def)
  then show "distinct (z_devices z)" by (simp add: zoneOK_def)
  have dis: "distinct (getDevices A)" using assms by (simp add: consistent_def)
  have eq: "set (z_devices z) = d_dsid ` {d \<in> set (a_devices A). z_id z = 0 \<or> d_zoneID d = z_id z}"
    using ok by (simp add: zoneOK_def)
  then show "known A (z_devices z)" by (auto simp: known_iff getDevices_def)
  have "dev A (d_dsid d) = d" if "d \<in> set (a_devices A)" for d
    using dev_of [OF dis that] by (simp add: dev_def)
  with eq show "r \<in> set (z_devices z) \<longleftrightarrow>
      r \<in> set (getDevices A) \<and> (z_id z = 0 \<or> d_zoneID (dev A r) = z_id z)"
    by (auto simp: getDevices_def)
qed

lemma groups_present:
  assumes "consistent A" and "z \<in> set (a_zones A)" and "r \<in> set (z_devices z)"
    and "i \<in> set (d_groupIds (dev A r))"
  shows "isValidGroup i \<and> (\<exists>g. zoneGroup z i = Some g)"
proof -
  have r: "r \<in> set (getDevices A)" "z_id z = 0 \<or> d_zoneID (dev A r) = z_id z"
    using zoneOK_devices(4) [OF assms(1, 2)] assms(3) by auto
  then have "dev A r \<in> set (a_devices A)"
    using dev_dsid [of A r] by (auto simp: known_iff [of A "[r]", simplified])
  then show ?thesis
    using zoneOK_devices(1) [OF assms(1, 2)] r(2) assms(4) by (auto simp: zoneOK_def)
qed

lemma in_own_group:
  assumes "consistent A" and "z \<in> set (a_zones A)" and "r \<in> set (z_devices z)"
    and "i \<in> set (d_groupIds (dev A r))"
  shows "isInGroup (dev A r) i"
  using groups_present [OF assms] assms(4) by (simp add: isInGroup_def)

lemma addressed_group:
  assumes "consistent A" and "z \<in> set (a_zones A)" and "g \<in> set (z_groups z)"
  shows "addressed A (GroupItem g) = {r \<in> set (z_devices z). isInGroup (dev A r) (g_id g)}"
proof -
  have "g_zoneID g = z_id z" using zoneOK_devices(1) [OF assms(1, 2)] assms(3) by (auto simp: zoneOK_def)
  then have "groupDevices A g = Inr (filter (\<lambda>r. isInGroup (dev A r) (g_id g)) (z_devices z))"
    using getZone_of [OF assms(1, 2)] zoneOK_devices(2, 3) [OF assms(1, 2)]
    by (simp add: groupDevices_def getByGroup_known)
  then show ?thesis by (auto simp: addressed_def)
qed

lemma findGroup_all:
  assumes c: "consistent A" and z: "z \<in> set (a_zones A)" and S: "set S = set (z_devices z)"
  shows "\<exists>g. findGroupContainingAllDevices A S z = Inr (Some g) \<and> g \<in> set (z_groups z) \<and>
    (\<forall>r \<in> set S. isInGroup (dev A r) (g_id g))"
proof -
  have k: "known A S" using zoneOK_devices(2) [OF c z] S by (simp add: known_def)
  have b: "\<exists>g. zoneGroup z 0 = Some g \<and> g \<in> set (z_groups z) \<and> g_id g = 0"
    using zoneOK_devices(1) [OF c z] zoneGroup_SomeD [of z 0] by (auto simp: zoneOK_def)
  obtain isect where isect: "(case S of [] \<Rightarrow> Inr []
        | r # rs \<Rightarrow> sbind (getDeviceByDSID A r) (\<lambda>d. intersectLoop A (sort (d_groupIds d)) rs)) = Inr isect"
      and common: "\<forall>i \<in> set isect. S \<noteq> [] \<and> (\<forall>r \<in> set S. i \<in> set (d_groupIds (dev A r)))"
  proof (cases S)
    case Nil
    then show ?thesis using that [of "[]"] by simp
  next
    case (Cons r rs)
    with k intersectLoop_known [of A rs "sort (d_groupIds (dev A r))"] obtain res where
      "intersectLoop A (sort (d_groupIds (dev A r))) rs = Inr res"
      "set res = set (d_groupIds (dev A r)) \<inter> (\<Inter>r \<in> set rs. set (d_groupIds (dev A r)))" by auto
    with Cons k that [of res] show ?thesis by (auto simp: getDevice_known)
  qed
  show ?thesis
  proof (cases isect)
    case Nil
    then show ?thesis
      using isect b by (simp add: findGroupContainingAllDevices_def GroupIDBroadcast_def) force
  next
    case (Cons i js)
    with common have "S \<noteq> []" "\<forall>r \<in> set S. i \<in> set (d_groupIds (dev A r))" by simp_all
    moreover from \<open>S \<noteq> []\<close> have "S ! 0 \<in> set (z_devices z)" using nth_mem [of 0 S] S by simp
    ultimately have "\<exists>g. zoneGroup z i = Some g" and "\<forall>r \<in> set S. isInGroup (dev A r) i"
      using groups_present [OF c z, of "S ! 0" i] in_own_group [OF c z] S by simp_all
    with Cons isect zoneGroup_SomeD [of z i] show ?thesis
      by (auto simp: findGroupContainingAllDevices_def)
  qed
qed

lemma getGroupByIndex_ok:
  assumes c: "consistent A" and r: "tryGetDeviceByDSID A r \<noteq> None"
    and i: "i < length (d_groupIds (dev A r))"
  shows "\<exists>g. getGroupByIndex A (dev A r) i = Inr g \<and> g_id g = d_groupIds (dev A r) ! i"
proof -
  obtain z0 where z0: "z0 \<in> set (a_zones A)" "z_id z0 = 0" "getZone A 0 = Inr z0"
    using c getZone_SomeD [of A 0] by (auto simp: consistent_def)
  have "r \<in> set (z_devices z0)"
    using zoneOK_devices(4) [OF c z0(1)] z0(2) r known_iff [of A "[r]"] by simp
  then obtain g where "zoneGroup z0 (d_groupIds (dev A r) ! i) = Some g"
    using groups_present [OF c z0(1)] i by (meson nth_mem)
  then show ?thesis
    using z0(3) i zoneGroup_SomeD by (auto simp: getGroupByIndex_def getGroupIdByIndex_def getGroup_def)
qed

text \<open>A group that the search finds is a group of the zone, with the device, inside of the set.\<close>

lemma searchGroup_ok:
  assumes c: "consistent A" and z: "z \<in> set (a_zones A)" and r: "r \<in> set (z_devices z)"
  shows "\<exists>found us'. searchGroup A z S (dev A r) i us = Inr (found, us') \<and>
    (\<forall>g ds. found = Some (g, ds) \<longrightarrow> g \<in> set (z_groups z) \<and> r \<in> set ds \<and> set ds \<subseteq> set S \<and>
       set ds = addressed A (GroupItem g))"
proof (induction "length (d_groupIds (dev A r)) - i" arbitrary: i us rule: less_induct)
  case less
  show ?case
  proof (cases "i < length (d_groupIds (dev A r))")
    case False
    then show ?thesis by (subst searchGroup.simps) simp
  next
    case True
    let ?i = "d_groupIds (dev A r) ! i"
    have r': "tryGetDeviceByDSID A r \<noteq> None" using zoneOK_devices(2) [OF c z] r by (simp add: known_def)
    obtain g0 where g0: "getGroupByIndex A (dev A r) i = Inr g0" "g_id g0 = ?i"
      using getGroupByIndex_ok [OF c r' True] by auto
    obtain g where g: "zoneGroup z ?i = Some g" "g \<in> set (z_groups z)" "g_id g = ?i"
      using groups_present [OF c z r, of ?i] zoneGroup_SomeD [of z ?i] True by auto
    let ?ds = "filter (\<lambda>r. isInGroup (dev A r) ?i) (z_devices z)"
    have ds: "getByGroup A (z_devices z) ?i = Inr ?ds"
      using zoneOK_devices(2, 3) [OF c z] by (simp add: getByGroup_known)
    have step: "searchGroup A z S (dev A r) i us =
        (if g \<in> set us then searchGroup A z S (dev A r) (i + 1) us
         else if list_all (contains S) ?ds then Inr (Some (g, ?ds), us)
         else searchGroup A z S (dev A r) (i + 1) (us @ [g]))"
      using True g0 g ds by (subst searchGroup.simps) simp
    have fits: "r \<in> set ?ds \<and> set ?ds = addressed A (GroupItem g)"
      using in_own_group [OF c z r, of ?i] addressed_group [OF c z g(2)] g(3) r True by auto
    note IH = less [of "i + 1"]
    from True have less: "length (d_groupIds (dev A r)) - (i + 1) < length (d_groupIds (dev A r)) - i" by simp
    show ?thesis
    proof (cases "g \<notin> set us \<and> list_all (contains S) ?ds")
      case True
      then have "searchGroup A z S (dev A r) i us = Inr (Some (g, ?ds), us)" using step by simp
      moreover from True have "set ?ds \<subseteq> set S" by (auto simp: list_all_iff contains_def)
      ultimately show ?thesis using fits g(2) by blast
    next
      case False
      then show ?thesis using step IH [OF less, of us] IH [OF less, of "us @ [g]"] by (cases "g \<in> set us") simp_all
    qed
  qed
qed

lemma foldl_removeDevice_set:
  "set (foldl removeDevice w ds) \<subseteq> set w \<and> set w \<subseteq> set (foldl removeDevice w ds) \<union> set ds"
proof (induction ds arbitrary: w)
  case (Cons r ds)
  have "set (removeDevice w r) \<subseteq> set w" "set w \<subseteq> insert r (set (removeDevice w r))"
    using set_remove1_subset [of r w] in_set_remove1 [of _ r w] unfolding removeDevice_def by blast+
  with Cons [of "removeDevice w r"] show ?case by auto
qed simp

definition covered :: "apartment \<Rightarrow> item list \<Rightarrow> dsuid set" where
  "covered A items = (\<Union>i \<in> set items. addressed A i)"

lemma covered_simps [simp]:
  "covered A [] = {}" "covered A (i # is) = addressed A i \<union> covered A is"
  "covered A (xs @ ys) = covered A xs \<union> covered A ys"
  by (auto simp: covered_def)

lemma fitLoop_ok:
  assumes c: "consistent A" and z: "z \<in> set (a_zones A)" and S: "set S \<subseteq> set (z_devices z)"
  shows "set w \<subseteq> set S \<Longrightarrow> \<exists>items. fitLoop A z S w us result = Inr (result @ items) \<and>
    set w \<subseteq> covered A items \<and> covered A items \<subseteq> set S \<and> length items \<le> length w \<and> NullItem \<notin> set items"
proof (induction "length w" arbitrary: w us result rule: less_induct)
  case less
  show ?case
  proof (cases w)
    case (Cons r v)
    with less.prems S have r: "r \<in> set (z_devices z)" "r \<in> set S" "set v \<subseteq> set S" by auto
    have d: "getDeviceByDSID A r = Inr (dev A r)"
      using zoneOK_devices(2) [OF c z] r(1) by (intro getDevice_known) (simp add: known_def)
    obtain found us' where f: "searchGroup A z S (dev A r) 0 us = Inr (found, us')"
      and ok: "\<forall>g ds. found = Some (g, ds) \<longrightarrow> r \<in> set ds \<and> set ds \<subseteq> set S \<and> set ds = addressed A (GroupItem g)"
      using searchGroup_ok [OF c z r(1), of S 0 us] by blast
    show ?thesis
    proof (cases found)
      case None
      have "fitLoop A z S w us result = fitLoop A z S v us' (result @ [DeviceItem r])"
        using Cons d f None by simp
      moreover obtain items where
        "fitLoop A z S v us' (result @ [DeviceItem r]) = Inr ((result @ [DeviceItem r]) @ items)"
        "set v \<subseteq> covered A items" "covered A items \<subseteq> set S" "length items \<le> length v" "NullItem \<notin> set items"
        using less.hyps [of v us' "result @ [DeviceItem r]"] Cons r(3) by auto
      ultimately show ?thesis
        using Cons r(2) by (intro exI [of _ "DeviceItem r # items"]) (auto simp: addressed_def)
    next
      case (Some p)
      then obtain g ds where p: "found = Some (g, ds)" by (cases p) auto
      let ?v = "foldl removeDevice v ds"
      have "fitLoop A z S w us result = fitLoop A z S ?v us' (result @ [GroupItem g])"
        using Cons d f p by simp
      moreover have v: "length ?v < length w" "set ?v \<subseteq> set S" "set v \<subseteq> set ?v \<union> set ds"
        using Cons removeDevice_length [of v ds] foldl_removeDevice_set [of v ds] r(3) by auto
      moreover from less.hyps [OF v(1, 2)] obtain items where
        "fitLoop A z S ?v us' (result @ [GroupItem g]) = Inr ((result @ [GroupItem g]) @ items)"
        "set ?v \<subseteq> covered A items" "covered A items \<subseteq> set S" "length items \<le> length ?v" "NullItem \<notin> set items"
        by blast
      ultimately show ?thesis
        using ok p Cons by (intro exI [of _ "GroupItem g # items"]) auto
    qed
  qed simp
qed

lemma bestFitZone_ok:
  assumes c: "consistent A" and z: "z \<in> set (a_zones A)" and S: "set S \<subseteq> set (z_devices z)"
    and "distinct S" and "S \<noteq> []"
  shows "\<exists>items. bestFitZone A z S = Inr items \<and> covered A items = set S \<and> length items \<le> length S \<and>
    NullItem \<notin> set items"
proof (cases "length (z_devices z) = length S")
  case True
  then have "set S = set (z_devices z)"
    using assms(4) zoneOK_devices(3) [OF c z] S
    by (intro card_subset_eq) (simp_all add: distinct_card)
  with findGroup_all [OF c z this] addressed_group [OF c z] True assms(5) show ?thesis
    by (auto simp: bestFitZone_def groupItem_def Suc_le_eq)
next
  case False
  with fitLoop_ok [OF c z S, of S "[]" "[]"] show ?thesis by (auto simp: bestFitZone_def)
qed

text \<open>The map from zones to sets: each part is a set of devices of its zone.\<close>

definition partOK :: "apartment \<Rightarrow> zone \<times> dset \<Rightarrow> bool" where
  "partOK A e \<longleftrightarrow> fst e \<in> set (a_zones A) \<and> snd e \<noteq> [] \<and> distinct (snd e) \<and> set (snd e) \<subseteq> set (z_devices (fst e))"

abbreviation sizes :: "(zone \<times> dset) list \<Rightarrow> nat" where
  "sizes m \<equiv> (\<Sum>e\<leftarrow>m. length (snd e))"

lemma addToZone_ok:
  assumes c: "consistent A" and z: "z \<in> set (a_zones A)" and r: "r \<in> set (z_devices z)"
  shows "\<forall>e \<in> set m. partOK A e \<Longrightarrow> (\<forall>e \<in> set (addToZone z r m). partOK A e) \<and>
    \<Union> (set ` snd ` set (addToZone z r m)) = insert r (\<Union> (set ` snd ` set m)) \<and>
    sizes (addToZone z r m) \<le> Suc (sizes m)"
proof (induction m)
  case Nil
  then show ?case using z r by (simp add: partOK_def addDevice_def contains_def)
next
  case (Cons e m)
  obtain y T where e: "e = (y, T)" by (cases e)
  have "y = z" if "z_id y = z_id z"
    using getZone_of [OF c z] getZone_of [OF c, of y] Cons.prems that by (simp add: e partOK_def)
  moreover have "partOK A (z, addDevice T r) \<and> set (addDevice T r) = insert r (set T) \<and>
      length (addDevice T r) \<le> Suc (length T)" if "partOK A (z, T)"
    using that r rs.ok_ins [of T r] rs.mem_ins [of T r]
    by (auto simp: partOK_def) (simp_all add: addDevice_def split: if_splits)
  ultimately show ?case using Cons by (auto simp: e)
qed

lemma splitByZone_ok:
  assumes c: "consistent A"
  shows "known A S \<Longrightarrow> \<forall>e \<in> set m. partOK A e \<Longrightarrow> \<exists>m'. splitByZone A S m = Inr m' \<and>
    (\<forall>e \<in> set m'. partOK A e) \<and> \<Union> (set ` snd ` set m') = set S \<union> \<Union> (set ` snd ` set m) \<and>
    sizes m' \<le> length S + sizes m"
proof (induction S arbitrary: m)
  case (Cons r S)
  then have r: "tryGetDeviceByDSID A r \<noteq> None" and S: "known A S" by simp_all
  obtain z where z: "z \<in> set (a_zones A)" "z_id z = d_zoneID (dev A r)" "getZone A (d_zoneID (dev A r)) = Inr z"
    using c dev_dsid [OF r] getZone_SomeD [of A "d_zoneID (dev A r)"] by (auto simp: consistent_def)
  have rz: "r \<in> set (z_devices z)"
    using zoneOK_devices(4) [OF c z(1)] z(2) r known_iff [of A "[r]"] by simp
  have "splitByZone A (r # S) m = splitByZone A S (addToZone z r m)"
    using getDevice_known [OF r] z(3) by simp
  with addToZone_ok [OF c z(1) rz Cons.prems(2)] Cons.IH [OF S, of "addToZone z r m"] show ?case
    by auto
qed simp

lemma fitZones_ok:
  assumes c: "consistent A"
  shows "\<forall>e \<in> set m. partOK A e \<Longrightarrow> \<exists>items. fitZones A m result = Inr (result @ items) \<and>
    covered A items = \<Union> (set ` snd ` set m) \<and> length items \<le> sizes m \<and> NullItem \<notin> set items"
proof (induction m arbitrary: result)
  case (Cons e m)
  obtain z T where e: "e = (z, T)" by (cases e)
  with Cons.prems have "z \<in> set (a_zones A)" "set T \<subseteq> set (z_devices z)" "distinct T" "T \<noteq> []"
    by (simp_all add: partOK_def)
  from bestFitZone_ok [OF c this] obtain part where p: "bestFitZone A z T = Inr part"
      "covered A part = set T" "length part \<le> length T" "NullItem \<notin> set part" by blast
  obtain items where i: "fitZones A m (result @ part) = Inr ((result @ part) @ items)"
      "covered A items = \<Union> (set ` snd ` set m)" "length items \<le> sizes m" "NullItem \<notin> set items"
    using Cons.IH [of "result @ part"] Cons.prems by (meson list.set_intros(2))
  show ?case using p i by (intro exI [of _ "part @ items"]) (simp add: e)
qed simp

lemma bestFit_ok:
  assumes c: "consistent A" and k: "known A S" and "distinct S" and "S \<noteq> []"
  shows "\<exists>items. bestFit addr A S = Inr items \<and> covered A items = set S \<and> length items \<le> length S \<and>
    NullItem \<notin> set items"
proof -
  obtain m where m: "splitByZone A S [] = Inr m" "\<forall>e \<in> set m. partOK A e"
      "\<Union> (set ` snd ` set m) = set S" "sizes m \<le> length S"
    using splitByZone_ok [OF c k, of "[]"] by auto
  let ?m = "sort_key (\<lambda>e. addr (z_id (fst e))) m"
  have "mset (map (\<lambda>e. length (snd e)) ?m) = mset (map (\<lambda>e. length (snd e)) m)" by simp
  then have sz: "sizes ?m = sizes m" by (metis sum_mset_sum_list)
  obtain res where res: "fitZones A ?m [] = Inr res" "covered A res = set S" "length res \<le> length S" "NullItem \<notin> set res"
    using fitZones_ok [OF c, of ?m "[]"] m sz by auto
  obtain z0 where z0: "z0 \<in> set (a_zones A)" "z_id z0 = 0" "getZone A 0 = Inr z0"
    using c getZone_SomeD [of A 0] by (auto simp: consistent_def)
  have "set S \<subseteq> set (z_devices z0)"
    using zoneOK_devices(4) [OF c z0(1)] z0(2) k by (auto simp: known_iff)
  from bestFitZone_ok [OF c z0(1) this assms(3, 4)] obtain part where p: "bestFitZone A z0 S = Inr part"
      "covered A part = set S" "length part \<le> length S" "NullItem \<notin> set part" by blast
  have "getDeviceByDSID A (S ! 0) = Inr (dev A (S ! 0))"
    using k assms(4) by (intro getDevice_known) (simp add: known_def)
  with m res z0 p assms(4) show ?thesis by (simp add: bestFit_def setGet_def)
qed

section \<open>Properties\<close>

text \<open>
  C12: In a consistent apartment a set of its devices is split without error, in any order of the zone
  objects in memory, and the items address exactly the devices of the set: nothing outside of it and
  all of it.  There are never more items than devices, and no item is a null pointer.
\<close>

theorem split_exact:
  assumes "consistent A" and "known A S" and "distinct S"
  shows "\<exists>items. splitUp addr A S = Inr items \<and> (\<Union>i \<in> set items. addressed A i) = set S \<and>
    length items \<le> length S \<and> NullItem \<notin> set items"
proof (cases "S = []")
  case True
  then show ?thesis by (simp add: splitUp_def)
next
  case False
  have d: "getDeviceByDSID A (S ! 0) = Inr (dev A (S ! 0))"
    using assms(2) False by (intro getDevice_known) (simp add: known_def)
  show ?thesis
  proof (cases "length S = length (getDevices A)")
    case all: True
    have "set S = set (getDevices A)"
      using assms all by (intro card_subset_eq) (simp_all add: known_iff consistent_def distinct_card)
    moreover obtain z0 where z0: "z0 \<in> set (a_zones A)" "z_id z0 = 0" "getZone A 0 = Inr z0"
      using assms(1) getZone_SomeD [of A 0] by (auto simp: consistent_def)
    moreover obtain g where g: "zoneGroup z0 0 = Some g" "g \<in> set (z_groups z0)" "g_id g = 0"
      using zoneOK_devices(1) [OF assms(1) z0(1)] zoneGroup_SomeD [of z0 0] by (auto simp: zoneOK_def)
    ultimately have "addressed A (GroupItem g) = set S"
      using addressed_group [OF assms(1) z0(1) g(2)] zoneOK_devices(4) [OF assms(1) z0(1)] by auto
    moreover have "getDevices A \<noteq> []" using all False by auto
    ultimately show ?thesis
      using False all d z0 g by (simp add: splitUp_def setGet_def groupItem_def Suc_le_eq)
  next
    case False
    with \<open>S \<noteq> []\<close> d bestFit_ok [OF assms \<open>S \<noteq> []\<close>, of addr] show ?thesis
      by (simp add: splitUp_def setGet_def covered_def)
  qed
qed

lemma exHouse_consistent: "consistent exHouse"
  by (simp add: consistent_def zoneOK_def ex_defs getDevices_def tryGetZone_def zoneGroup_def isValidGroup_iff)

theorem split_exact_witness:
  "\<exists>items. splitUp nat exHouse [[1], [2], [3]] = Inr items \<and>
    (\<Union>i \<in> set items. addressed exHouse i) = {[1], [2], [3]} \<and> length items \<le> 3 \<and> NullItem \<notin> set items"
proof -
  have "known exHouse [[1], [2], [3]]" by (simp add: known_iff getDevices_def ex_defs)
  from split_exact [OF exHouse_consistent this, of nat] show ?thesis by (simp add: numeral_3_eq_3)
qed

text \<open>An apartment with a cluster.\<close>

definition clusterHouse :: apartment where
  "clusterHouse = \<lparr>
     a_devices = [exDevice 1 1 [1, 16], exDevice 2 1 [1], exDevice 3 2 [1, 16], exDevice 4 2 [2, 16]],
     a_zones = [exZone 0 [0, 1, 2, 16] [[1], [2], [3], [4]], exZone 1 [0, 1, 2] [[1], [2]],
                exZone 2 [0, 1, 2] [[3], [4]]],
     a_dsMeters = []\<rparr>"

text \<open>
  The condition that every zone has the groups of its devices matters.  A cluster is a group of the
  whole apartment and has no counterpart in a zone.  Here the devices 1, 3 and 4 of two rooms are in
  the cluster 16.  The splitter takes the cluster for the set of device 1 alone, because no other
  device of the room is in it, and so addresses the devices 3 and 4, which are not in the set.  For the
  set of all devices of the second room, which have only the cluster in common, it gives a null pointer.
\<close>

theorem cluster_leak:
  "splitUp addr clusterHouse [[1]] = Inr [GroupItem (exGroup 0 16)] \<and>
   addressed clusterHouse (GroupItem (exGroup 0 16)) = {[1], [3], [4]} \<and>
   splitUp addr clusterHouse [[3], [4]] = Inr [NullItem]"
proof -
  note defs = clusterHouse_def ex_defs getDeviceByDSID_def getZone_def tryGetZone_def zoneGroup_def
    getDevices_def setGet_def addDevice_def contains_def getGroupByIndex_def getGroupIdByIndex_def getGroup_def
    getByGroup_def getSubset_def isInGroup_def isValidGroup_iff GroupIDBroadcast_def
  let ?z = "exZone 1 [0, 1, 2] [[1], [2]]" and ?d = "exDevice 1 1 [1, 16]"
    and ?us = "[exGroup 1 1]"
    and ?g = "exGroup 0 16"
  have 1: "getGroupByIndex clusterHouse ?d 0 = Inr (exGroup 0 1)"
      "zoneGroup ?z 1 = Some (exGroup 1 1)"
      "getByGroup clusterHouse (z_devices ?z) 1 = Inr [[1], [2]]" by (simp_all add: defs)
  have 2: "getGroupByIndex clusterHouse ?d (Suc 0) = Inr ?g" "zoneGroup ?z 16 = None"
      "getByGroup clusterHouse (z_devices ?z) 16 = Inr [[1]]" by (simp_all add: defs)
  have l: "length (d_groupIds ?d) = 2" by (simp add: exDevice_def)
  have "searchGroup clusterHouse ?z [[1]] ?d (Suc 0) ?us = Inr (Some (?g, [[1]]), ?us)"
    by (subst searchGroup.simps) (simp add: 2 l contains_def exGroup_simps)
  moreover have "searchGroup clusterHouse ?z [[1]] ?d 0 [] = searchGroup clusterHouse ?z [[1]] ?d (Suc 0) ?us"
    by (subst searchGroup.simps) (simp add: 1 l contains_def exGroup_simps)
  ultimately have s: "searchGroup clusterHouse ?z [[1]] ?d 0 [] = Inr (Some (?g, [[1]]), ?us)" by simp
  have d: "getDeviceByDSID clusterHouse [1] = Inr ?d" by (simp add: defs)
  have "splitByZone clusterHouse [[1]] [] = Inr [(?z, [[1]])]" by (simp add: defs)
  moreover have "bestFitZone clusterHouse ?z [[1]] = Inr [GroupItem ?g]"
    using s d by (simp add: bestFitZone_def exZone_def removeDevice_def)
  ultimately have "splitUp addr clusterHouse [[1]] = Inr [GroupItem ?g]"
    using d by (simp add: splitUp_def bestFit_def setGet_def) (simp add: clusterHouse_def getDevices_def)
  moreover have "addressed clusterHouse (GroupItem ?g) = {[1], [3], [4]}"
    by (auto simp: addressed_def groupDevices_def defs)
  moreover have "splitUp addr clusterHouse [[3], [4]] = Inr [NullItem]"
    by (simp add: splitUp_def bestFit_def bestFitZone_def findGroupContainingAllDevices_def groupItem_def defs)
  ultimately show ?thesis by blast
qed

end
