(* ===== verification/Set_Builder.thy ===== *)
theory Set_Builder
  imports Device_Set
begin

text \<open>
  The descriptions of sets that clients send, \<^verbatim>\<open>src/src/setbuilder.cpp\<close>: a recursive descent over
  the text that restricts, unites and subtracts sets while it reads.

  The text \<open>s\<close> is the member \<^verbatim>\<open>m_SetDescription\<close>; a parser takes the position and returns its value
  with the new position.  Assertions are enabled.  \<^verbatim>\<open>parseSet\<close> and \<^verbatim>\<open>restrictByFunction\<close> call each
  other: the second takes the first as an argument, and the first has fuel.  Every call of
  \<^verbatim>\<open>parseSet\<close> starts further to the right, so \<open>length s + 1\<close> steps are enough, which is proved.
\<close>

section \<open>The reader\<close>

text \<open>\<^verbatim>\<open>s[i]\<close>, which is NUL at the end of the text.\<close>

definition charAt :: "string \<Rightarrow> nat \<Rightarrow> char" where
  "charAt s i = (if i < length s then s ! i else CHR 0x00)"

definition find_first_of :: "string \<Rightarrow> string \<Rightarrow> nat \<Rightarrow> nat option" where
  "find_first_of cs s pos = map_option (\<lambda>i. pos + i) (find_index (\<lambda>c. c \<in> set cs) (drop pos s))"

definition ofBase :: "base_error + 'a \<Rightarrow> serror + 'a" where
  "ofBase r = (case r of Inl (InvalidArgument e) \<Rightarrow> Inl (StdInvalidArgument e)
     | Inl (RuntimeError e) \<Rightarrow> Inl (StdRuntime e) | Inr x \<Rightarrow> Inr x)"

definition skipWhitespace :: "string \<Rightarrow> nat \<Rightarrow> nat" where
  "skipWhitespace s i = i + length (takeWhile is_space (drop i s))"

definition readParameter :: "string \<Rightarrow> nat \<Rightarrow> serror + string \<times> nat" where
  "readParameter s i =
     (let start = skipWhitespace s i
      in case find_first_of '',)'' s start of
           None \<Rightarrow> Inl (StdRuntime ''expected , or )'')
         | Some pos \<Rightarrow> Inr (substr s start (pos - start), skipWhitespace s pos))"

definition readInt :: "string \<Rightarrow> nat \<Rightarrow> serror + u32 \<times> nat" where
  "readInt s i = sbind (readParameter s i) (\<lambda>(p, i). sbind (ofBase (strToInt (trim p))) (\<lambda>v. Inr (v, i)))"

text \<open>A text of at most 24 characters is a dSID.\<close>

definition parseID :: "dsuidlib \<Rightarrow> string \<Rightarrow> base_error + dsuid" where
  "parseID L t =
     (if length t \<le> 24 then
        (case str2dsid t of Inl e \<Rightarrow> Inl e | Inr d \<Rightarrow> Inr (lib_from_dsid L d))
      else str2dsuid (lib_from_string L) t)"

definition readDSID :: "dsuidlib \<Rightarrow> string \<Rightarrow> nat \<Rightarrow> serror + dsuid \<times> nat" where
  "readDSID L s i =
     sbind (readParameter s i) (\<lambda>(p, i). sbind (ofBase (parseID L (trim p))) (\<lambda>v. Inr (v, i)))"

definition readString :: "string \<Rightarrow> nat \<Rightarrow> serror + string \<times> nat" where
  "readString s i =
     sbind (readParameter s i) (\<lambda>(p, i).
       let result = trim p
       in if length result \<ge> 2 \<and> result ! 0 = CHR 0x27 \<and> result ! (length result - 1) = CHR 0x27
          then Inr (substr result 1 (length result - 2), i)
          else Inl (StdRuntime (''String should be enclosed by '' @ [CHR 0x22, CHR 0x27, CHR 0x22])))"

section \<open>Restrictions\<close>

text \<open>The loop of \<^verbatim>\<open>addDevices\<close>; it has one round for each parameter.\<close>

fun addDevicesLoop :: "dsuidlib \<Rightarrow> apartment \<Rightarrow> string \<Rightarrow> nat \<Rightarrow> nat \<Rightarrow> dset \<Rightarrow> serror + dset \<times> nat" where
  "addDevicesLoop L A s 0 i result = Inl OutOfFuel"
| "addDevicesLoop L A s (Suc n) i result =
     (let i = (if charAt s i = CHR '','' then i + 1 else i)
      in sbind
          (if charAt s i = CHR 0x27
           then sbind (readString s i) (\<lambda>(name, i).
             sbind (getDeviceByName A name) (\<lambda>d. Inr (addDevice result (d_dsid d), i)))
           else sbind (readDSID L s i) (\<lambda>(dsuid, i).
             sbind (getDeviceByDSID A dsuid) (\<lambda>d. Inr (addDevice result (d_dsid d), i))))
          (\<lambda>(result, i). if charAt s i = CHR '','' then addDevicesLoop L A s n i result else Inr (result, i)))"

text \<open>\<^verbatim>\<open>_group->getDevices()\<close> of a pointer that may be null.\<close>

definition contextDevices :: "apartment \<Rightarrow> group option \<Rightarrow> serror + dset" where
  "contextDevices A ctx = (case ctx of None \<Rightarrow> Inl NullPointer | Some g \<Rightarrow> groupDevices A g)"

text \<open>The restriction that a function makes, before the closing bracket is checked.\<close>

definition applyFunction :: "dsuidlib \<Rightarrow> apartment \<Rightarrow> string \<Rightarrow> (nat \<Rightarrow> dset \<Rightarrow> serror + dset \<times> nat)
    \<Rightarrow> string \<Rightarrow> nat \<Rightarrow> dset \<Rightarrow> group option \<Rightarrow> serror + dset \<times> nat" where
  "applyFunction L A s parse f i S ctx =
     (if f = ''dsid'' \<or> f = ''dsuid'' then
        sbind (readDSID L s i) (\<lambda>(d, i). sbind (getByDSID A S d) (\<lambda>r. Inr (addDevice [] r, i)))
      else if f = ''zone'' then
        (if charAt s i = CHR 0x27
         then sbind (readString s i) (\<lambda>(n, i). sbind (getByZoneName A S n) (\<lambda>T. Inr (T, i)))
         else sbind (readInt s i) (\<lambda>(z, i). sbind (getByZone A S (sint z)) (\<lambda>T. Inr (T, i))))
      else if f = ''group'' then
        (if charAt s i = CHR 0x27
         then sbind (readString s i) (\<lambda>(n, i). sbind (getByGroupName A S n) (\<lambda>T. Inr (T, i)))
         else sbind (readInt s i) (\<lambda>(g, i). sbind (getByGroup A S (sint g)) (\<lambda>T. Inr (T, i))))
      else if f = ''fid'' then
        sbind (readInt s i) (\<lambda>(fid, i). sbind (getByFunctionID A S fid) (\<lambda>T. Inr (T, i)))
      else if f = ''tag'' then
        sbind (readString s i) (\<lambda>(t, i). sbind (getByTag A S t) (\<lambda>T. Inr (T, i)))
      else if f = ''add'' then
        sbind (contextDevices A ctx) (\<lambda>D. sbind (parse i D) (\<lambda>(T, i). Inr (combine S T, i)))
      else if f = ''remove'' then
        sbind (contextDevices A ctx) (\<lambda>D. sbind (parse i D) (\<lambda>(T, i). Inr (setRemove S T, i)))
      else if f = ''empty'' then Inr ([], i)
      else if f = ''addDevices'' then addDevicesLoop L A s (length s + 1) i S
      else Inr ([], i))"

definition restrictByFunction :: "dsuidlib \<Rightarrow> apartment \<Rightarrow> string \<Rightarrow> (nat \<Rightarrow> dset \<Rightarrow> serror + dset \<times> nat)
    \<Rightarrow> string \<Rightarrow> nat \<Rightarrow> dset \<Rightarrow> group option \<Rightarrow> serror + dset \<times> nat" where
  "restrictByFunction L A s parse f i S ctx =
     (if i \<ge> length s then Inl (StdRangeError ''_index is out of bounds'')
      else if \<not> (0 < i \<and> charAt s (i - 1) = CHR ''('') then Inl AssertFailed
      else sbind (applyFunction L A s parse f i S ctx) (\<lambda>(result, i).
        if charAt s i = CHR '','' then
          Inl (StdRuntime (''superfluous parameter detected at position '' @ print_nat 10 i))
        else if charAt s i = CHR '')'' then Inr (result, i + 1)
        else Inl AssertFailed))"

text \<open>\<^verbatim>\<open>try\<close> a query, and go on when it throws \<^verbatim>\<open>ItemNotFoundException\<close>.\<close>

definition orElse :: "serror + 'a \<Rightarrow> serror + 'a \<Rightarrow> serror + 'a" where
  "orElse r k = (case r of Inl (ItemNotFound _) \<Rightarrow> k | _ \<Rightarrow> r)"

definition restrictBy :: "apartment \<Rightarrow> string \<Rightarrow> dset \<Rightarrow> group option \<Rightarrow> serror + dset" where
  "restrictBy A ident S ctx =
     orElse (sbind (contextDevices A ctx) (\<lambda>D. sbind (getByName A D ident) (\<lambda>r. Inr (addDevice [] r))))
       (orElse (getByGroupName A S ident) (orElse (getByZoneName A S ident) (Inr [])))"

section \<open>The parser\<close>

fun parseSet :: "dsuidlib \<Rightarrow> apartment \<Rightarrow> string \<Rightarrow> nat \<Rightarrow> nat \<Rightarrow> dset \<Rightarrow> group option \<Rightarrow> serror + dset \<times> nat" where
  "parseSet L A s 0 i S ctx = Inl OutOfFuel"
| "parseSet L A s (Suc n) i S ctx =
     (let i = skipWhitespace s i
      in if i \<ge> length s then Inr (S, i) else
         let found = find_first_of ''.(),'' s i;
             pos = (case found of None \<Rightarrow> length s - 1 | Some p \<Rightarrow> p);
             atEnd = (pos = length s - 1);
             entry = substr s i (pos + 1 - i)
         in if entry = ''.'' then parseSet L A s n (pos + 1) (getDevices A) ctx
            else if charAt s pos = CHR ''('' then
              sbind (restrictByFunction L A s (\<lambda>i T. parseSet L A s n i T ctx) (butlast entry) (pos + 1) S ctx)
                (\<lambda>(tmp, i).
                  let i = skipWhitespace s i
                  in if i < length s \<and> charAt s i \<noteq> CHR '','' \<and> charAt s i \<noteq> CHR '')''
                     then parseSet L A s n (i + 1) tmp ctx else Inr (tmp, i))
            else
              let parsingParam = (endsWith entry '','' \<or> endsWith entry '')'');
                  item = (if \<not> atEnd \<or> parsingParam then butlast entry else entry)
              in sbind (restrictBy A (trim item) S ctx) (\<lambda>tmp.
                   if \<not> atEnd \<and> \<not> parsingParam then parseSet L A s n (pos + 1) tmp ctx
                   else Inr (tmp, if parsingParam then pos else pos + 1)))"

definition buildSetGroup :: "dsuidlib \<Rightarrow> apartment \<Rightarrow> string \<Rightarrow> group option \<Rightarrow> serror + dset" where
  "buildSetGroup L A s ctx =
     sbind
       (if beginsWith s ''.'' then
          sbind (getZone A 0) (\<lambda>z. let c = zoneGroup z GroupIDBroadcast
            in sbind (contextDevices A c) (\<lambda>D. Inr (c, D, 1)))
        else case ctx of
          Some g \<Rightarrow> sbind (groupDevices A g) (\<lambda>D. Inr (ctx, D, 0))
        | None \<Rightarrow> sbind (getZone A 0) (\<lambda>z. Inr (zoneGroup z GroupIDBroadcast, [], 0)))
       (\<lambda>(c, D, i). sbind (parseSet L A s (length s + 1) i D c) (\<lambda>(result, _). Inr result))"

definition buildSetZone :: "dsuidlib \<Rightarrow> apartment \<Rightarrow> string \<Rightarrow> zone option \<Rightarrow> serror + dset" where
  "buildSetZone L A s ctx =
     (case ctx of
        Some z \<Rightarrow> buildSetGroup L A s (zoneGroup z GroupIDBroadcast)
      | None \<Rightarrow> buildSetGroup L A s None)"

section \<open>Sets of meters\<close>

fun meterLoop :: "dsuidlib \<Rightarrow> apartment \<Rightarrow> string list \<Rightarrow> dsmeter list \<Rightarrow> serror + dsmeter list" where
  "meterLoop L A [] result = Inr result"
| "meterLoop L A (strId # ids) result =
     (if strId = [] then Inl (StdRuntime (''Invalid dsuid in description: '' @ strId)) else
      case parseID L strId of
        Inl (InvalidArgument _) \<Rightarrow> Inl (StdRuntime (''Invalid dsuid in description: '' @ strId))
      | Inl (RuntimeError e) \<Rightarrow> Inl (StdRuntime e)
      | Inr dsuid \<Rightarrow>
          (case getDSMeterByDSID A dsuid of
             Inl _ \<Rightarrow> Inl (StdRuntime ''Could not find dsMeter with given dsuid.'')
           | Inr m \<Rightarrow> meterLoop L A ids (result @ [m])))"

definition buildMeterSet :: "dsuidlib \<Rightarrow> apartment \<Rightarrow> string \<Rightarrow> bool \<Rightarrow> serror + dsmeter list" where
  "buildMeterSet L A desc meteringCapability =
     (if take 8 desc \<noteq> ''.meters('' then
        Inl (StdRuntime (''Expected '' @ quoted ''.meters('' @ '' at the start of the description'')) else
      let from = drop 8 desc
      in if \<not> (length from > 0 \<and> from ! (length from - 1) = CHR '')'') then
           Inl (StdRuntime (''No closing '' @ quoted '')'' @ '' found'')) else
         let from = take (length from - 1) from
         in sbind (if from = ''all'' then Inr (getDSMeters A) else meterLoop L A (splitString from (CHR '','') True) [])
              (\<lambda>result. Inr (if meteringCapability then filter dm_hasMetering result else result)))"

section \<open>Every description is read to its end\<close>

text \<open>A result that is not caused by a lack of fuel, and a position that did not move back.\<close>

definition noFuel :: "serror + 'a \<Rightarrow> bool" where
  "noFuel r \<longleftrightarrow> r \<noteq> Inl OutOfFuel"

definition advances :: "nat \<Rightarrow> serror + 'a \<times> nat \<Rightarrow> bool" where
  "advances i r \<longleftrightarrow> (case r of Inl e \<Rightarrow> e \<noteq> OutOfFuel | Inr (_, j) \<Rightarrow> i \<le> j)"

named_theorems total_intros \<open>operations that end, and whose position does not move back\<close>

lemma noFuel_simps [simp]: "noFuel (Inr x)" "noFuel (Inl e) \<longleftrightarrow> e \<noteq> OutOfFuel"
  by (simp_all add: noFuel_def)

lemma advances_simps [simp]:
  "advances i (Inl e) \<longleftrightarrow> e \<noteq> OutOfFuel" "advances i (Inr (x, j)) \<longleftrightarrow> i \<le> j"
  by (simp_all add: advances_def)

lemma noFuel_sbind [total_intros]: "noFuel r \<Longrightarrow> (\<And>x. noFuel (f x)) \<Longrightarrow> noFuel (sbind r f)"
  by (cases r) simp_all

lemma advances_sbind: "noFuel r \<Longrightarrow> (\<And>x. advances i (f x)) \<Longrightarrow> advances i (sbind r f)"
  by (cases r) simp_all

lemma advances_bind: "advances i r \<Longrightarrow> (\<And>x j. i \<le> j \<Longrightarrow> advances i (f (x, j))) \<Longrightarrow> advances i (sbind r f)"
  by (cases r) (auto split: prod.splits)

text \<open>The shapes that the reader, the restrictions and the parser are made of.\<close>

lemma advances_query:
  "advances i r \<Longrightarrow> (\<And>x. noFuel (q x)) \<Longrightarrow>
     advances i (sbind r (\<lambda>(x, j). sbind (q x) (\<lambda>T. Inr (h T, j))))"
  by (intro advances_bind) (auto intro: advances_sbind)

lemma advances_inner:
  "noFuel r \<Longrightarrow> (\<And>D. advances i (p D)) \<Longrightarrow> advances i (sbind r (\<lambda>D. sbind (p D) (\<lambda>(T, j). Inr (h T, j))))"
  by (intro advances_sbind advances_bind) auto

lemma advances_if: "(c \<Longrightarrow> advances i a) \<Longrightarrow> (\<not> c \<Longrightarrow> advances i b) \<Longrightarrow> advances i (if c then a else b)"
  by simp

lemma advances_trans: "advances j r \<Longrightarrow> i \<le> j \<Longrightarrow> advances i r"
  by (cases r) auto

lemma noFuel_lookups [total_intros]:
  "noFuel (getDeviceByDSID A r)" "noFuel (getDeviceByName A name)" "noFuel (getZone A z)"
  "noFuel (getZoneByName A name)" "noFuel (getGroupByName A name)" "noFuel (frontOr m S)"
  by (auto simp: getDeviceByDSID_def getDeviceByName_def getZone_def getZoneByName_def
      getGroupByName_def frontOr_def sbind_def split: option.splits list.splits sum.splits)

lemma noFuel_selectLoop [total_intros]: "noFuel (selectLoop A sel res S)"
  by (induction S arbitrary: res) (auto intro!: total_intros)

lemma noFuel_queries [total_intros]:
  "noFuel (getByGroup A S g)" "noFuel (getByZone A S z)" "noFuel (getByFunctionID A S fid)"
  "noFuel (getByTag A S t)" "noFuel (getByDSID A S r)" "noFuel (getByName A S t)"
  by (auto simp: getByGroup_def getSubset_def getByZone_def getByFunctionID_def getByTag_def getByDSID_def
      getByName_def intro!: total_intros)

lemma noFuel_named [total_intros]:
  "noFuel (getByGroupName A S n)" "noFuel (getByZoneName A S n)" "noFuel (groupDevices A g)"
  by (auto simp: getByGroupName_def getByZoneName_def groupDevices_def intro!: total_intros)

lemma noFuel_context [total_intros]: "noFuel (contextDevices A ctx)"
  by (auto simp: contextDevices_def intro: total_intros split: option.split)

lemma noFuel_restrictBy [total_intros]: "noFuel (restrictBy A t S ctx)"
proof -
  have o: "noFuel r \<Longrightarrow> noFuel k \<Longrightarrow> noFuel (orElse r k)" for r k :: "serror + dset"
    by (auto simp: orElse_def noFuel_def split: sum.splits serror.splits)
  show ?thesis unfolding restrictBy_def by (intro o total_intros) simp_all
qed

lemma noFuel_ofBase [total_intros]: "noFuel (ofBase r)"
  by (simp add: ofBase_def split: sum.split base_error.split)

lemma skipWhitespace_ge [simp]: "i \<le> skipWhitespace s i"
  by (simp add: skipWhitespace_def)

lemma find_first_of_bounds: "find_first_of cs s i = Some p \<Longrightarrow> i \<le> p \<and> p < length s \<and> s ! p \<in> set cs"
  using find_index_Some_bound [of "\<lambda>c. c \<in> set cs" "drop i s"] find_index_Some_nth [of "\<lambda>c. c \<in> set cs" "drop i s"]
  by (fastforce simp: find_first_of_def)

lemma advances_readParameter [total_intros]: "advances i (readParameter s i)"
proof -
  have "i \<le> skipWhitespace s p" if "find_first_of '',)'' s (skipWhitespace s i) = Some p" for p
    using find_first_of_bounds [OF that] skipWhitespace_ge [of i s] skipWhitespace_ge [of p s] by linarith
  then show ?thesis by (simp add: readParameter_def Let_def split: option.split)
qed

lemma advances_readers [total_intros]:
  "advances i (readInt s i)" "advances i (readDSID L s i)" "advances i (readString s i)"
proof -
  show "advances i (readInt s i)" "advances i (readDSID L s i)"
    unfolding readInt_def readDSID_def by (intro advances_query total_intros)+
  show "advances i (readString s i)"
    unfolding readString_def by (intro advances_bind total_intros) (simp add: Let_def)
qed

lemma charAt_bound: "charAt s i = c \<Longrightarrow> c \<noteq> CHR 0x00 \<Longrightarrow> i < length s"
  by (auto simp: charAt_def split: if_splits)

text \<open>One round of \<^verbatim>\<open>addDevices\<close>; after the first, a round starts at a comma and so moves on.\<close>

lemma addDevicesLoop_step:
  assumes "\<And>j res. (if charAt s i = CHR '','' then i + 1 else i) \<le> j \<Longrightarrow> charAt s j = CHR '','' \<Longrightarrow>
    advances i (addDevicesLoop L A s n j res)"
  shows "advances i (addDevicesLoop L A s (Suc n) i result)"
proof -
  let ?i = "if charAt s i = CHR '','' then i + 1 else i"
  have "advances ?i (if charAt s ?i = CHR 0x27
      then sbind (readString s ?i) (\<lambda>(name, i). sbind (getDeviceByName A name) (\<lambda>d. Inr (addDevice result (d_dsid d), i)))
      else sbind (readDSID L s ?i) (\<lambda>(dsuid, i). sbind (getDeviceByDSID A dsuid) (\<lambda>d. Inr (addDevice result (d_dsid d), i))))"
    by (simp only: if_split) (intro conjI impI advances_query total_intros)
  then have "advances i (sbind \<dots> (\<lambda>(result, i).
      if charAt s i = CHR '','' then addDevicesLoop L A s n i result else Inr (result, i)))" (is "advances i (sbind ?r ?f)")
    using assms by (cases ?r) (auto split: if_splits)
  then show ?thesis by (simp only: addDevicesLoop.simps Let_def)
qed

lemma comma_bound: "charAt s i = CHR '','' \<Longrightarrow> i < length s"
  by (erule charAt_bound) simp

lemma advances_addDevicesLoop:
  "charAt s i = CHR '','' \<Longrightarrow> length s - i < n \<Longrightarrow> advances i (addDevicesLoop L A s n i result)"
proof (induction n arbitrary: i result)
  case (Suc n)
  show ?case
  proof (rule addDevicesLoop_step)
    fix j res
    assume j: "(if charAt s i = CHR '','' then i + 1 else i) \<le> j" "charAt s j = CHR '',''"
    from j(1) have "i < j" by (simp only: Suc.prems(1) refl if_True less_eq_Suc_le Suc_eq_plus1)
    with comma_bound [OF j(2)] Suc.prems(2) have "length s - j < n" by linarith
    from Suc.IH [OF j(2) this] show "advances i (addDevicesLoop L A s n j res)"
      by (rule advances_trans) (rule less_imp_le [OF \<open>i < j\<close>])
  qed
qed simp

lemma advances_addDevices:
  assumes "0 < i"
  shows "advances i (addDevicesLoop L A s (length s + 1) i result)"
proof -
  have "advances i (addDevicesLoop L A s (length s) j res)" if "i \<le> j" "charAt s j = CHR '',''" for j res
  proof -
    have "length s - j < length s" using comma_bound [OF that(2)] that(1) assms by linarith
    then show ?thesis using that by (intro advances_trans [OF advances_addDevicesLoop [OF that(2)]])
  qed
  then show ?thesis using addDevicesLoop_step [of s i L A "length s" result] by (simp split: if_splits)
qed

lemma advances_restrictByFunction:
  assumes "\<And>D. advances i (parse i D)"
  shows "advances i (restrictByFunction L A s parse f i S ctx)"
proof -
  have "advances i (applyFunction L A s parse f i S ctx)" if "0 < i"
    unfolding applyFunction_def using advances_addDevices [OF that]
    by (simp only: if_split) (intro conjI impI advances_query advances_inner assms total_intros; simp)
  then show ?thesis
    by (auto simp: restrictByFunction_def intro!: advances_bind)
qed

lemma advances_parseSet: "length s - i < n \<Longrightarrow> advances i (parseSet L A s n i S ctx)"
proof (induction n arbitrary: i S)
  case (Suc n)
  let ?i = "skipWhitespace s i"
  show ?case
  proof (cases "?i < length s")
    case False
    then show ?thesis by (simp add: Let_def)
  next
    case True
    let ?p = "case find_first_of ''.(),'' s ?i of None \<Rightarrow> length s - 1 | Some p \<Rightarrow> p"
    have p: "i \<le> ?p \<and> ?p < length s"
    proof (cases "find_first_of ''.(),'' s ?i")
      case None
      with True skipWhitespace_ge [of i s] show ?thesis by (simp, linarith)
    next
      case (Some q)
      from find_first_of_bounds [OF this] skipWhitespace_ge [of i s] have "i \<le> q" "q < length s" by linarith+
      with Some show ?thesis by simp
    qed
    have rec: "advances i (parseSet L A s n j T ctx)" if "i < j" for j T
      using that Suc.IH [of j T] Suc.prems p by (intro advances_trans [OF Suc.IH]) auto
    have func: "advances i (restrictByFunction L A s (\<lambda>i T. parseSet L A s n i T ctx) f (?p + 1) S ctx)" for f
      using Suc.IH Suc.prems p by (intro advances_trans [OF advances_restrictByFunction]) auto
    have go: "i < skipWhitespace s j + 1" if "i \<le> j" for j
      using that skipWhitespace_ge [of j s] by linarith
    have stay: "i \<le> skipWhitespace s j" if "i \<le> j" for j using go [OF that] by simp
    let ?f = "\<lambda>(tmp, j). let j = skipWhitespace s j
        in if j < length s \<and> charAt s j \<noteq> CHR '','' \<and> charAt s j \<noteq> CHR '')''
           then parseSet L A s n (j + 1) tmp ctx else Inr (tmp, j)"
    have F: "advances i (sbind (restrictByFunction L A s (\<lambda>i T. parseSet L A s n i T ctx) f (?p + 1) S ctx) ?f)" for f
      using rec go stay by (intro advances_bind [OF func]) (simp add: Let_def)
    have R: "advances i (sbind (restrictBy A t S ctx) (\<lambda>tmp. if b then parseSet L A s n (?p + 1) tmp ctx
        else Inr (tmp, if c then ?p else ?p + 1)))" for t b c
      using rec p by (intro advances_sbind total_intros) (simp add: le_imp_less_Suc)
    have N: "advances i (parseSet L A s n (?p + 1) (getDevices A) ctx)" using rec p by (simp add: le_imp_less_Suc)
    show ?thesis
      unfolding parseSet.simps Let_def by (intro advances_if N F [unfolded Let_def] R) simp
  qed
qed simp

text \<open>
  C34: Reading a description of a set always ends, whatever the text: no position is read twice, so the
  steps that the parser may take, one more than there are characters, never run out.
\<close>

theorem build_terminates:
  "buildSetGroup L A s ctx \<noteq> Inl OutOfFuel"
proof -
  have "noFuel (sbind (parseSet L A s (length s + 1) i D c) (\<lambda>(result, _). Inr result))" for i D c
    using advances_parseSet [of s i "length s + 1" L A D c]
    by (cases "parseSet L A s (length s + 1) i D c") (auto simp: noFuel_def)
  then have p: "noFuel ((\<lambda>(c, D, i). sbind (parseSet L A s (length s + 1) i D c) (\<lambda>(result, _). Inr result)) x)" for x
    by (cases x) simp
  show ?thesis
    unfolding noFuel_def [symmetric] buildSetGroup_def Let_def
    by (intro noFuel_sbind p) (simp split: option.split add: noFuel_sbind noFuel_lookups noFuel_named noFuel_context)
qed

end
