(* ===== verification/Set_Expressions.thy ===== *)
theory Set_Expressions
  imports Set_Builder
begin

text \<open>
  The language of the descriptions of sets.  The parser of \<open>Set_Builder\<close> evaluates while it reads; here
  an expression is a list of steps with a meaning in terms of the operations on sets and a text, and the
  parser is shown to compute the meaning of the expression from its text, errors included.
\<close>

section \<open>Expressions\<close>

datatype setstep =
    SZone u32 | SZoneName string | SGroup u32 | SGroupName string | SFid u32 | STag string
  | SDsid dsid | SAdd "setstep list" | SRemove "setstep list" | SEmpty

fun stepName :: "setstep \<Rightarrow> string" where
  "stepName (SZone _) = ''zone''"
| "stepName (SZoneName _) = ''zone''"
| "stepName (SGroup _) = ''group''"
| "stepName (SGroupName _) = ''group''"
| "stepName (SFid _) = ''fid''"
| "stepName (STag _) = ''tag''"
| "stepName (SDsid _) = ''dsid''"
| "stepName (SAdd _) = ''add''"
| "stepName (SRemove _) = ''remove''"
| "stepName SEmpty = ''empty''"

fun showArg :: "setstep \<Rightarrow> string" and showChain :: "setstep list \<Rightarrow> string" where
  "showArg (SZone z) = int32ToString z"
| "showArg (SZoneName n) = quoted n"
| "showArg (SGroup g) = int32ToString g"
| "showArg (SGroupName n) = quoted n"
| "showArg (SFid f) = int32ToString f"
| "showArg (STag t) = quoted t"
| "showArg (SDsid d) = dsid2str d"
| "showArg (SAdd e) = showChain e"
| "showArg (SRemove e) = showChain e"
| "showArg SEmpty = []"
| "showChain [] = []"
| "showChain (x # xs) =
     stepName x @ ''('' @ showArg x @ '')'' @ (if xs = [] then [] else ''.'' @ showChain xs)"

text \<open>
  The meaning: a step restricts the set it gets; the argument of \<open>add\<close> and \<open>remove\<close> starts from all
  devices of the context.
\<close>

fun evalStep :: "dsuidlib \<Rightarrow> apartment \<Rightarrow> group \<Rightarrow> dset \<Rightarrow> setstep \<Rightarrow> serror + dset"
  and evalChain :: "dsuidlib \<Rightarrow> apartment \<Rightarrow> group \<Rightarrow> dset \<Rightarrow> setstep list \<Rightarrow> serror + dset" where
  "evalStep L A g S (SZone z) = getByZone A S (sint z)"
| "evalStep L A g S (SZoneName n) = getByZoneName A S n"
| "evalStep L A g S (SGroup i) = getByGroup A S (sint i)"
| "evalStep L A g S (SGroupName n) = getByGroupName A S n"
| "evalStep L A g S (SFid f) = getByFunctionID A S f"
| "evalStep L A g S (STag t) = getByTag A S t"
| "evalStep L A g S (SDsid d) = sbind (getByDSID A S (lib_from_dsid L d)) (\<lambda>r. Inr [r])"
| "evalStep L A g S (SAdd e) =
     sbind (groupDevices A g) (\<lambda>D. sbind (evalChain L A g D e) (\<lambda>T. Inr (combine S T)))"
| "evalStep L A g S (SRemove e) =
     sbind (groupDevices A g) (\<lambda>D. sbind (evalChain L A g D e) (\<lambda>T. Inr (setRemove S T)))"
| "evalStep L A g S SEmpty = Inr []"
| "evalChain L A g S [] = Inr S"
| "evalChain L A g S (x # xs) = sbind (evalStep L A g S x) (\<lambda>T. evalChain L A g T xs)"

text \<open>Names without the characters that end a parameter; a dSID has 12 bytes; no argument is empty.\<close>

definition plainName :: "string \<Rightarrow> bool" where
  "plainName t \<longleftrightarrow> (\<forall>c \<in> set t. c \<notin> set '',)'')"

fun stepOK :: "setstep \<Rightarrow> bool" where
  "stepOK (SZoneName n) = plainName n"
| "stepOK (SGroupName n) = plainName n"
| "stepOK (STag t) = plainName t"
| "stepOK (SDsid d) = (length d = 12)"
| "stepOK (SAdd e) = (e \<noteq> [] \<and> list_all stepOK e)"
| "stepOK (SRemove e) = (e \<noteq> [] \<and> list_all stepOK e)"
| "stepOK _ = True"

section \<open>Reading at a position\<close>

lemma drop_more: "drop i s = w @ r \<Longrightarrow> drop (i + length w) s = r"
  by (metis add.commute append_eq_conv_conj drop_drop)

lemma drop_bound: "drop i s = c # r \<Longrightarrow> i < length s"
  by (metis drop_eq_Nil2 list.distinct(1) not_le)

lemma charAt_drop: "drop i s = c # r \<Longrightarrow> charAt s i = c"
  using drop_bound [of i s c r] nth_via_drop [of i s c r] by (simp add: charAt_def)

lemma skip_stays: "drop i s = t \<Longrightarrow> t = [] \<or> \<not> is_space (hd t) \<Longrightarrow> skipWhitespace s i = i"
  unfolding skipWhitespace_def by (cases t) auto

lemma find_at:
  "drop i s = w @ c # r \<Longrightarrow> \<forall>x \<in> set w. x \<notin> set cs \<Longrightarrow> c \<in> set cs \<Longrightarrow> find_first_of cs s i = Some (i + length w)"
proof -
  assume d: "drop i s = w @ c # r" and w: "\<forall>x \<in> set w. x \<notin> set cs" and c: "c \<in> set cs"
  from w have "find_index (\<lambda>c. c \<in> set cs) w = None" by (simp add: find_index_None_iff)
  with d c show ?thesis by (simp add: find_first_of_def find_index_append)
qed

lemma substr_at: "drop i s = w @ r \<Longrightarrow> substr s i (length w) = w"
  by (simp add: substr_def)

lemma bracket_plain: "\<not> is_space (CHR '')'')" "\<not> is_space (CHR ''.'')" "\<not> is_space (CHR 0x27)"
  by (simp_all add: is_space_def)

lemma readParameter_at:
  assumes d: "drop i s = w @ CHR '')'' # r" and w: "plainName w" and h: "w = [] \<or> \<not> is_space (hd w)"
  shows "readParameter s i = Inr (w, i + length w)"
proof -
  have "skipWhitespace s i = i"
    using h bracket_plain(1) by (intro skip_stays [OF d]) (cases w; simp)
  moreover have "find_first_of '',)'' s i = Some (i + length w)"
    using w by (intro find_at [OF d]) (simp_all add: plainName_def)
  moreover have "skipWhitespace s (i + length w) = i + length w"
    by (rule skip_stays [OF drop_more [OF d]]) (simp add: bracket_plain)
  ultimately show ?thesis using substr_at [OF d] by (simp add: readParameter_def)
qed

lemma trim_id:
  assumes "w \<noteq> []" and "\<not> is_white (hd w)" and "\<not> is_white (last w)"
  shows "trim w = w"
proof -
  have "find_first_not_of_white w = Some 0"
    using assms by (cases w) (simp_all add: find_first_not_of_white_def)
  moreover have "find_last_not_of_white w = Some (length w - 1)"
    using assms by (cases w rule: rev_cases) (simp_all add: find_last_not_of_white_def)
  ultimately show ?thesis using assms(1) by (simp add: trim_def str_erase_def Suc_leI)
qed

text \<open>Texts without white space and separators: numbers and dSIDs.\<close>

definition solid :: "string \<Rightarrow> bool" where
  "solid w \<longleftrightarrow> w \<noteq> [] \<and> (\<forall>c \<in> set w. \<not> is_white c \<and> \<not> is_space c \<and> c \<notin> set '',)'' \<and> c \<noteq> CHR 0x27)"

lemma solid_param:
  assumes "drop i s = w @ CHR '')'' # r" and "solid w"
  shows "readParameter s i = Inr (w, i + length w)" and "trim w = w" and "charAt s i \<noteq> CHR 0x27"
proof -
  have "hd w \<in> set w" "last w \<in> set w" "w \<noteq> []" using assms(2) by (simp_all add: solid_def)
  moreover have "plainName w" using assms(2) unfolding solid_def plainName_def by blast
  ultimately show "readParameter s i = Inr (w, i + length w)" and "trim w = w"
    using assms(2) unfolding solid_def by (blast intro: readParameter_at [OF assms(1)] trim_id)+
  have "charAt s i = hd w" using assms(1) \<open>w \<noteq> []\<close> by (cases w) (simp_all add: charAt_drop)
  with assms(2) \<open>hd w \<in> set w\<close> show "charAt s i \<noteq> CHR 0x27" unfolding solid_def by metis
qed

lemma digit_solid:
  assumes "d < 16"
  shows "solid [digit_char d]"
  using assms by (simp add: solid_def char_eq_of_char of_char_digit_char is_space_def is_white_def)

lemma solid_append: "solid u \<Longrightarrow> solid v \<Longrightarrow> solid (u @ v)"
  by (auto simp: solid_def)

lemma solid_set: "w \<noteq> [] \<Longrightarrow> \<forall>c \<in> set w. solid [c] \<Longrightarrow> solid w"
  by (simp add: solid_def)

lemma solid_int: "solid (int32ToString v)"
proof -
  have p: "solid (print_nat 10 n)" for n
  proof (rule solid_set)
    show "\<forall>c \<in> set (print_nat 10 n). solid [c]"
    proof
      fix c assume "c \<in> set (print_nat 10 n)"
      then obtain d where "d < 10" "c = digit_char d" using print10_digits by blast
      then show "solid [c]" using digit_solid [of d] by simp
    qed
  qed simp
  have "solid ''-''" by (simp add: solid_def is_space_def is_white_def)
  then show ?thesis
    using p solid_append [OF \<open>solid ''-''\<close> p] by (simp add: int32ToString_def intToString_print_int print_int_def)
qed

lemma solid_dsid: "length d = 12 \<Longrightarrow> solid (dsid2str d)"
proof (rule solid_set)
  assume "length d = 12"
  then show "dsid2str d \<noteq> []" using dsid2str_length [of d] by auto
  have "solid [c]" if c: "c \<in> set (hexByte b)" for b c
  proof -
    have "unat b < 256" using unsigned_less [of b] by simp
    then have "unat b div 16 < 16" by simp
    with c digit_solid [of "unat b div 16"] digit_solid [of "unat b mod 16"] show ?thesis
      by (auto simp: hexByte_digits)
  qed
  then show "\<forall>c \<in> set (dsid2str d). solid [c]" by (auto simp: dsid2str_def)
qed

lemma int_word: "strToInt (int32ToString v) = Inr v"
proof -
  have "- (2 ^ 63) \<le> sint v \<and> sint v < 2 ^ 63"
    using sint_range_size [of v] by (simp add: word_size)
  then have "strtol 0 (print_int (sint v)) = (sint v, [])" by (intro strtol_print_int) simp_all
  moreover have "sint (scast v :: u64) = sint v" by (simp add: sint_up_scast is_up)
  moreover have "print_int (sint v) \<noteq> []" by (simp add: print_int_def)
  ultimately show ?thesis
    by (simp add: strToInt_def int32ToString_def intToString_print_int)
qed

lemma readInt_at:
  assumes "drop i s = int32ToString v @ CHR '')'' # r"
  shows "readInt s i = Inr (v, i + length (int32ToString v))"
  using solid_param(1, 2) [OF assms solid_int] by (simp add: readInt_def int_word ofBase_def)

lemma readDSID_at:
  assumes "drop i s = dsid2str d @ CHR '')'' # r" and "length d = 12"
  shows "readDSID L s i = Inr (lib_from_dsid L d, i + length (dsid2str d))"
proof -
  have "str2dsid (dsid2str d) = Inr d" "length (dsid2str d) = 24"
    using assms(2) by (simp_all add: str2dsid_def dsid2str_length) (simp add: dsid2str_def readBytes_hex)
  then show ?thesis
    using solid_param(1, 2) [OF assms(1) solid_dsid [OF assms(2)]]
    by (simp add: readDSID_def parseID_def ofBase_def)
qed

lemma readString_at:
  assumes "drop i s = quoted t @ CHR '')'' # r" and "plainName t"
  shows "readString s i = Inr (t, i + length (quoted t)) \<and> charAt s i = CHR 0x27"
proof -
  have q: "quoted t \<noteq> []" "hd (quoted t) = CHR 0x27" "last (quoted t) = CHR 0x27"
    by (simp_all add: quoted_def)
  have w: "\<not> is_white (CHR 0x27)" by (simp add: is_white_def)
  have "trim (quoted t) = quoted t" using q w by (intro trim_id) simp_all
  moreover have "plainName (quoted t)" using assms(2) by (auto simp: plainName_def quoted_def)
  then have "readParameter s i = Inr (quoted t, i + length (quoted t))"
    using q bracket_plain(3) by (intro readParameter_at [OF assms(1)]) simp_all
  moreover have "charAt s i = CHR 0x27"
    using assms(1) by (simp add: quoted_def charAt_drop)
  ultimately show ?thesis
    by (simp add: readString_def) (simp add: quoted_def substr_def nth_append)
qed

section \<open>One step\<close>

lemma stepName_plain: "\<forall>c \<in> set (stepName x). c \<notin> set ''.(),''" "stepName x \<noteq> []" "\<not> is_space (hd (stepName x))"
  by (cases x; simp add: is_space_def)+

lemmas at_simps = readInt_at readString_at readDSID_at solid_param(3) [OF _ solid_int]

text \<open>
  A function applied to its argument: the restriction is the meaning of the step, and the position is
  the one of the closing bracket.  \<open>inner\<close> is what the parser does with the argument of \<open>add\<close> or \<open>remove\<close>.
\<close>

lemma applyFunction_at:
  assumes d: "drop i s = showArg x @ CHR '')'' # r" and ok: "stepOK x"
    and inner: "\<And>e D. x = SAdd e \<or> x = SRemove e \<Longrightarrow>
      parse i D = sbind (evalChain L A g D e) (\<lambda>T. Inr (T, i + length (showChain e)))"
  shows "applyFunction L A s parse (stepName x) i S (Some g) =
    sbind (evalStep L A g S x) (\<lambda>T. Inr (T, i + length (showArg x)))"
proof (cases x)
  case (SZone z)
  with d have "drop i s = int32ToString z @ CHR '')'' # r" by simp
  note a = readInt_at [OF this] solid_param(3) [OF this solid_int]
  show ?thesis using a by (simp add: SZone applyFunction_def)
next
  case (SZoneName n)
  with d ok have "drop i s = quoted n @ CHR '')'' # r" "plainName n" by simp_all
  note a = readString_at [OF this]
  show ?thesis using a by (simp add: SZoneName applyFunction_def)
next
  case (SGroup z)
  with d have "drop i s = int32ToString z @ CHR '')'' # r" by simp
  note a = readInt_at [OF this] solid_param(3) [OF this solid_int]
  show ?thesis using a by (simp add: SGroup applyFunction_def)
next
  case (SGroupName n)
  with d ok have "drop i s = quoted n @ CHR '')'' # r" "plainName n" by simp_all
  note a = readString_at [OF this]
  show ?thesis using a by (simp add: SGroupName applyFunction_def)
next
  case (SFid z)
  with d have "drop i s = int32ToString z @ CHR '')'' # r" by simp
  note a = readInt_at [OF this]
  show ?thesis using a by (simp add: SFid applyFunction_def)
next
  case (STag n)
  with d ok have "drop i s = quoted n @ CHR '')'' # r" "plainName n" by simp_all
  note a = readString_at [OF this]
  show ?thesis using a by (simp add: STag applyFunction_def)
next
  case (SDsid u)
  with d ok have "drop i s = dsid2str u @ CHR '')'' # r" "length u = 12" by simp_all
  note a = readDSID_at [OF this]
  show ?thesis using a
    by (simp add: SDsid applyFunction_def addDevice_def contains_def)
       (cases "getByDSID A S (lib_from_dsid L u)"; simp)
next
  case (SAdd e)
  note a = inner [of e, OF disjI1 [OF SAdd]]
  show ?thesis using a by (simp add: SAdd applyFunction_def contextDevices_def)
      (cases "groupDevices A g"; simp add: sbind_def split: sum.split)
next
  case (SRemove e)
  note a = inner [of e, OF disjI2 [OF SRemove]]
  show ?thesis using a by (simp add: SRemove applyFunction_def contextDevices_def)
      (cases "groupDevices A g"; simp add: sbind_def split: sum.split)
next
  case SEmpty
  then show ?thesis by (simp add: applyFunction_def)
qed

lemma restrictByFunction_at:
  assumes p: "drop p s = CHR ''('' # showArg x @ CHR '')'' # r" and ok: "stepOK x"
    and inner: "\<And>e D. x = SAdd e \<or> x = SRemove e \<Longrightarrow>
      parse (p + 1) D = sbind (evalChain L A g D e) (\<lambda>T. Inr (T, p + 1 + length (showChain e)))"
  shows "restrictByFunction L A s parse (stepName x) (p + 1) S (Some g) =
    sbind (evalStep L A g S x) (\<lambda>T. Inr (T, p + 1 + length (showArg x) + 1))"
proof -
  have d: "drop (p + 1) s = showArg x @ CHR '')'' # r" using drop_more [of p s "''(''"] p by simp
  have b: "drop (p + 1 + length (showArg x)) s = CHR '')'' # r" by (rule drop_more [OF d])
  have "p + 1 < length s" using drop_bound [OF b] by simp
  moreover have "charAt s p = CHR ''(''" by (rule charAt_drop [OF p])
  moreover have "charAt s (p + 1 + length (showArg x)) = CHR '')''" by (rule charAt_drop [OF b])
  moreover have "applyFunction L A s parse (stepName x) (p + 1) S (Some g) =
      sbind (evalStep L A g S x) (\<lambda>T. Inr (T, p + 1 + length (showArg x)))"
    by (rule applyFunction_at [OF d ok]) (rule inner)
  ultimately show ?thesis
    by (cases "evalStep L A g S x") (simp_all add: restrictByFunction_def)
qed

section \<open>Chains\<close>

lemma parseSet_at:
  "drop i s = showChain xs @ r \<Longrightarrow> r = [] \<or> hd r = CHR '')'' \<Longrightarrow> length s - i < n \<Longrightarrow> xs \<noteq> [] \<Longrightarrow>
     list_all stepOK xs \<Longrightarrow>
     parseSet L A s n i S (Some g) = sbind (evalChain L A g S xs) (\<lambda>T. Inr (T, i + length (showChain xs)))"
proof (induction n arbitrary: i S xs r)
  case (Suc n)
  obtain x ys where xs: "xs = x # ys" using Suc.prems(4) by (cases xs) auto
  define more where "more = (if ys = [] then [] else ''.'' @ showChain ys) @ r"
  have d: "drop i s = stepName x @ CHR ''('' # showArg x @ CHR '')'' # more"
    using Suc.prems(1) by (simp add: xs more_def)
  let ?p = "i + length (stepName x)"
  let ?j = "?p + 1 + length (showArg x) + 1"
  have p: "drop ?p s = CHR ''('' # showArg x @ CHR '')'' # more" by (rule drop_more [OF d])
  have j: "drop ?j s = more" using drop_more [of ?p s "CHR ''('' # showArg x @ [CHR '')'']" more] p by simp
  have lt: "i < length s" "i \<le> ?p" "?p < length s"
    using drop_bound [OF p] by simp_all
  have skip: "skipWhitespace s i = i"
    using stepName_plain(2, 3) [of x] by (intro skip_stays [OF d]) simp
  have find: "find_first_of ''.(),'' s i = Some ?p"
    using stepName_plain(1) [of x] by (intro find_at [OF d]) simp_all
  have entry: "substr s i (?p + 1 - i) = stepName x @ ''(''"
    using substr_at [of i s "stepName x @ ''(''"] d by simp
  have c: "charAt s ?p = CHR ''(''" by (rule charAt_drop [OF p])
  have inner: "parseSet L A s n (?p + 1) D (Some g) =
      sbind (evalChain L A g D e) (\<lambda>T. Inr (T, ?p + 1 + length (showChain e)))"
    if "x = SAdd e \<or> x = SRemove e" for e D
  proof (rule Suc.IH)
    show "drop (?p + 1) s = showChain e @ CHR '')'' # more"
      using drop_more [of ?p s "''(''"] p that by auto
    show "e \<noteq> []" "list_all stepOK e" using Suc.prems(5) that by (auto simp: xs)
    show "length s - (?p + 1) < n" using lt Suc.prems(3) by linarith
  qed simp
  have step: "restrictByFunction L A s (\<lambda>i T. parseSet L A s n i T (Some g)) (stepName x) (?p + 1) S (Some g) =
      sbind (evalStep L A g S x) (\<lambda>T. Inr (T, ?j))"
    by (rule restrictByFunction_at [OF p]) (use Suc.prems(5) in \<open>simp add: xs\<close>, rule inner)
  have ne: "stepName x @ ''('' \<noteq> ''.''" using stepName_plain(2) [of x] by (cases "stepName x") auto
  have parse: "parseSet L A s (Suc n) i S (Some g) = sbind (evalStep L A g S x) (\<lambda>T.
      let j = skipWhitespace s ?j
      in if j < length s \<and> charAt s j \<noteq> CHR '','' \<and> charAt s j \<noteq> CHR '')''
         then parseSet L A s n (j + 1) T (Some g) else Inr (T, j))"
    using lt(1) skip find entry c step ne
    by (cases "evalStep L A g S x") (simp_all add: Let_def)
  show ?case
  proof (cases "ys = []")
    case True
    with Suc.prems(2) j have "drop ?j s = [] \<or> (\<exists>r'. drop ?j s = CHR '')'' # r')"
      by (cases r) (auto simp: more_def)
    moreover have "skipWhitespace s ?j = ?j"
      using True Suc.prems(2) j bracket_plain(1) by (intro skip_stays [OF refl]) (auto simp: more_def)
    ultimately have "skipWhitespace s ?j = ?j \<and> (\<not> ?j < length s \<or> charAt s ?j = CHR '')'')"
      using charAt_drop by auto
    then show ?thesis
      using parse True by (cases "evalStep L A g S x") (auto simp: xs Let_def)
  next
    case False
    then have dot: "drop ?j s = CHR ''.'' # showChain ys @ r" using j by (simp add: more_def)
    have sj: "skipWhitespace s ?j = ?j" using bracket_plain(2) by (intro skip_stays [OF dot]) simp
    have rest: "parseSet L A s n (?j + 1) T (Some g) =
        sbind (evalChain L A g T ys) (\<lambda>T. Inr (T, ?j + 1 + length (showChain ys)))" for T
    proof (rule Suc.IH)
      show "drop (?j + 1) s = showChain ys @ r" using drop_more [of ?j s "''.''"] dot by simp
      show "length s - (?j + 1) < n" using lt Suc.prems(3) by linarith
    qed (use Suc.prems False in \<open>simp_all add: xs\<close>)
    have "?j < length s \<and> charAt s ?j = CHR ''.''" using drop_bound [OF dot] charAt_drop [OF dot] by simp
    then show ?thesis
      using parse sj rest False by (cases "evalStep L A g S x") (simp_all add: xs Let_def add.assoc)
  qed
qed simp

section \<open>Properties\<close>

text \<open>
  C13: The parser computes what an expression means: for an apartment with a broadcast group \<open>g\<close> in its
  zone 0, the text of an expression after a dot is read as the expression, whose meaning starts from all
  devices of that group; an exception of the text is the exception of the meaning.
\<close>

theorem build_meaning:
  assumes "getZone A 0 = Inr z" and "zoneGroup z GroupIDBroadcast = Some g"
    and "xs \<noteq> []" and "list_all stepOK xs"
  shows "buildSetGroup L A (''.'' @ showChain xs) ctx = sbind (groupDevices A g) (\<lambda>D. evalChain L A g D xs)"
proof -
  let ?s = "''.'' @ showChain xs"
  have "parseSet L A ?s (length ?s + 1) 1 D (Some g) =
      sbind (evalChain L A g D xs) (\<lambda>T. Inr (T, 1 + length (showChain xs)))" for D
    using assms(3, 4) by (intro parseSet_at [where r = "[]"]) simp_all
  moreover have "beginsWith ?s ''.''" by (simp add: beginsWith_def substr_def)
  moreover have "(case r of Inl e \<Rightarrow> Inl e | Inr x \<Rightarrow> Inr x) = r" for r :: "serror + dset"
    by (cases r) simp_all
  ultimately show ?thesis
    using assms(1, 2) unfolding buildSetGroup_def
    by (cases "groupDevices A g") (auto simp: contextDevices_def Let_def sbind_def split: sum.split)
qed

definition exLib :: dsuidlib where
  "exLib = \<lparr>lib_from_string = (\<lambda>_. None), lib_from_dsid = (\<lambda>d. d), lib_to_dsid = (\<lambda>d. Some d),
     lib_serial_number = (\<lambda>_. None), lib_next_dsuid = (\<lambda>_. None), lib_null = []\<rparr>"

theorem build_meaning_witness:
  "buildSetGroup exLib exHouse ''.zone(1).add(group(2)).remove(zone(2))'' None = Inr [[2], [1]]"
proof -
  let ?xs = "[SZone 1, SAdd [SGroup 2], SRemove [SZone 2]]"
  let ?g = "exGroup 0 0"
  have "digit_char (Suc 0) = CHR ''1''" "digit_char 2 = CHR ''2''" by code_simp+
  then have n: "print_nat 10 (Suc 0) = ''1''" "print_nat 10 2 = ''2''" by (simp_all add: print10_small)
  have t: "''.'' @ showChain ?xs = ''.zone(1).add(group(2)).remove(zone(2))''"
    by (simp add: int32ToString_def intToString_print_int print_int_def n)
  have z: "getZone exHouse 0 = Inr (exZone 0 [0, 1, 2] [[1], [2], [3], [4]])"
    and g: "zoneGroup (exZone 0 [0, 1, 2] [[1], [2], [3], [4]]) GroupIDBroadcast = Some ?g"
    by (simp_all add: getZone_def tryGetZone_def zoneGroup_def GroupIDBroadcast_def ex_defs)
  have D: "groupDevices exHouse ?g = Inr [[1], [2], [3], [4]]"
    by (simp add: groupDevices_def getZone_def tryGetZone_def getByGroup_def GroupIDBroadcast_def ex_defs)
  have e: "evalChain exLib exHouse ?g [[1], [2], [3], [4]] ?xs = Inr [[2], [1]]"
    using D by (simp add: getByZone_def getByGroup_def GroupIDBroadcast_def getSubset_def getDeviceByDSID_def
        addDevice_def contains_def combine_def setRemove_def removeDevice_def isInGroup_def isValidGroup_iff ex_defs)
  have "buildSetGroup exLib exHouse (''.'' @ showChain ?xs) None =
      sbind (groupDevices exHouse ?g) (\<lambda>D. evalChain exLib exHouse ?g D ?xs)"
    by (rule build_meaning [OF z g]) simp_all
  then show ?thesis by (simp only: t D e sbind_simps)
qed

end
