(* ===== verification/State_Registry.thy ===== *)
theory State_Registry
  imports Device_Set Model_State
begin

text \<open>
  The states that the apartment holds, the functions on \<^verbatim>\<open>m_States\<close> of
  \<^verbatim>\<open>src/src/model/apartment.cpp\<close>.  The registry is the vector of states; a pointer to a state is its
  position in the vector.  Two pointers are the same when the places \<open>s_this\<close> of the objects are.  A
  sensor state is a subclass, which \<^verbatim>\<open>boost::dynamic_pointer_cast\<close> tells from the other states.
\<close>

section \<open>Data\<close>

datatype stateEntry = PlainState State | SensorState StateSensor

fun stateOf :: "stateEntry \<Rightarrow> State" where
  "stateOf (PlainState st) = st"
| "stateOf (SensorState sn) = ss_state sn"

fun withState :: "stateEntry \<Rightarrow> State \<Rightarrow> stateEntry" where
  "withState (PlainState _) st = PlainState st"
| "withState (SensorState sn) st = SensorState (sn\<lparr>ss_state := st\<rparr>)"

lemma stateOf_withState [simp]: "stateOf (withState e st) = st"
  by (cases e) simp_all

section \<open>Lookup\<close>

definition findState :: "(State \<Rightarrow> bool) \<Rightarrow> stateEntry list \<Rightarrow> nat option" where
  "findState P reg = find_index (\<lambda>e. P (stateOf e)) reg"

definition tryGetState :: "stateEntry list \<Rightarrow> eStateType \<Rightarrow> string \<Rightarrow> nat option" where
  "tryGetState reg type name = findState (\<lambda>s. m_type s = type \<and> m_name s = name) reg"

definition getStateOfType :: "stateEntry list \<Rightarrow> eStateType \<Rightarrow> string \<Rightarrow> serror + nat" where
  "getStateOfType reg type name =
     (case tryGetState reg type name of None \<Rightarrow> Inl (ItemNotFound name) | Some i \<Rightarrow> Inr i)"

definition getNonScriptState :: "stateEntry list \<Rightarrow> string \<Rightarrow> serror + nat" where
  "getNonScriptState reg name =
     (case findState (\<lambda>s. m_type s \<noteq> StateType_Script \<and> m_name s = name) reg of
        None \<Rightarrow> Inl (ItemNotFound name) | Some i \<Rightarrow> Inr i)"

definition getStateOfService :: "stateEntry list \<Rightarrow> eStateType \<Rightarrow> string \<Rightarrow> string \<Rightarrow> serror + nat" where
  "getStateOfService reg type identifier name =
     (case findState (\<lambda>s. m_type s = type \<and> m_serviceName s = identifier \<and> m_name s = name) reg of
        None \<Rightarrow> Inl (ItemNotFound name) | Some i \<Rightarrow> Inr i)"

definition requireState :: "stateEntry list \<Rightarrow> string \<Rightarrow> string \<Rightarrow> serror + nat" where
  "requireState reg identifier name =
     (case findState (\<lambda>s. m_serviceName s = identifier \<and> m_name s = name) reg of
        None \<Rightarrow> Inl (StdRuntime ''State not found'') | Some i \<Rightarrow> Inr i)"

section \<open>Changes\<close>

text \<open>\<open>this\<close> and \<open>garbage\<close> are the place and the uninitialised member of a state that is created.\<close>

definition allocateStateNamed ::
    "senv \<Rightarrow> nat \<Rightarrow> u32 \<Rightarrow> 'r world \<Rightarrow> stateEntry list \<Rightarrow> eStateType \<Rightarrow> string \<Rightarrow> string
       \<Rightarrow> 'r world \<times> stateEntry list \<times> (perror + nat)" where
  "allocateStateNamed E this garbage w reg type stateName scriptId =
     (case findState (\<lambda>s. m_name s = stateName \<and> m_type s = type \<and> m_serviceName s = scriptId) reg of
        Some i \<Rightarrow> (w, reg, Inr i)
      | None \<Rightarrow>
          (case (if length scriptId \<noteq> 0 then newTypedState E this garbage w type stateName scriptId
                 else newState E this garbage w stateName) of
             (w, st, Some e) \<Rightarrow> (w, reg, Inl e)
           | (w, st, None) \<Rightarrow> (w, reg @ [PlainState st], Inr (length reg))))"

definition allocateState :: "stateEntry list \<Rightarrow> stateEntry \<Rightarrow> serror + stateEntry list" where
  "allocateState reg e =
     (if findState (\<lambda>s. m_name s = m_name (stateOf e)) reg \<noteq> None
      then Inl (ItemDuplicate (''Duplicate state '' @ m_name (stateOf e)))
      else Inr (reg @ [e]))"

text \<open>
  \<^verbatim>\<open>m_States.erase(std::remove(...))\<close> with one iterator erases a single element at the new end, after
  the states that stay have been moved to the front.  Without a state to remove this is the past-the-end
  iterator, which may not be erased, and with more than one, moved-from pointers stay: both are \<open>None\<close>.
\<close>

definition removeState :: "stateEntry list \<Rightarrow> nat \<Rightarrow> stateEntry list option" where
  "removeState reg this =
     (let kept = filter (\<lambda>e. s_this (stateOf e) \<noteq> this) reg
      in if length kept + 1 = length reg then Some kept else None)"

text \<open>A state is changed in its place.\<close>

definition setStateAt ::
    "senv \<Rightarrow> 'r timelib \<Rightarrow> int \<Rightarrow> 'r world \<Rightarrow> stateEntry list \<Rightarrow> nat \<Rightarrow> u32 \<Rightarrow> u32
       \<Rightarrow> 'r world \<times> stateEntry list \<times> perror option" where
  "setStateAt E L now w reg i origin value =
     (case setState E L now w (stateOf (reg ! i)) origin value of
        (w, st, r) \<Rightarrow> (w, reg[i := withState (reg ! i) st], r))"

text \<open>
  Every state whose name starts with the prefix takes the value; a plain state with such a name is a
  failed cast.
\<close>

fun updateSensorLoop ::
    "senv \<Rightarrow> 'r timelib \<Rightarrow> int \<Rightarrow> string \<Rightarrow> u32 \<Rightarrow> u64 \<Rightarrow> 'r world \<Rightarrow> stateEntry list
       \<Rightarrow> 'r world \<times> stateEntry list \<times> perror option" where
  "updateSensorLoop E L now prefix origin value w [] = (w, [], None)"
| "updateSensorLoop E L now prefix origin value w (e # es) =
     (if beginsWith (m_name (stateOf e)) prefix then
        (case e of
           PlainState st \<Rightarrow> (w, e # es, Some NullDeref)
         | SensorState sn \<Rightarrow>
             (case newValue E L now w sn origin value of
                (w, sn, Some x) \<Rightarrow> (w, SensorState sn # es, Some x)
              | (w, sn, None) \<Rightarrow>
                  (case updateSensorLoop E L now prefix origin value w es of
                     (w, es, r) \<Rightarrow> (w, SensorState sn # es, r))))
      else
        (case updateSensorLoop E L now prefix origin value w es of (w, es, r) \<Rightarrow> (w, e # es, r)))"

definition updateDeviceSensorStates ::
    "senv \<Rightarrow> 'r timelib \<Rightarrow> int \<Rightarrow> 'r world \<Rightarrow> stateEntry list \<Rightarrow> dsuid \<Rightarrow> u32 \<Rightarrow> u64 \<Rightarrow> u32
       \<Rightarrow> 'r world \<times> stateEntry list \<times> perror option" where
  "updateDeviceSensorStates E L now w reg dsuid sensorType value origin =
     updateSensorLoop E L now (''dev.'' @ dsuid2str dsuid @ ''.type'' @ int32ToString sensorType) origin value w reg"

definition updateZoneSensorStates ::
    "senv \<Rightarrow> 'r timelib \<Rightarrow> int \<Rightarrow> 'r world \<Rightarrow> stateEntry list \<Rightarrow> u32 \<Rightarrow> u32 \<Rightarrow> u32 \<Rightarrow> u64 \<Rightarrow> u32
       \<Rightarrow> 'r world \<times> stateEntry list \<times> perror option" where
  "updateZoneSensorStates E L now w reg zoneId groupId sensorType value origin =
     updateSensorLoop E L now
       (''zone.zone'' @ int32ToString zoneId @ ''.group'' @ int32ToString groupId @ ''.type'' @
        int32ToString sensorType) origin value w reg"

section \<open>Lemmas\<close>

lemma findState_Some: "findState P reg = Some i \<Longrightarrow> i < length reg \<and> P (stateOf (reg ! i))"
  using find_index_Some_bound find_index_Some_nth unfolding findState_def by fastforce

lemma findState_None: "findState P reg = None \<longleftrightarrow> (\<forall>e \<in> set reg. \<not> P (stateOf e))"
  by (simp add: findState_def find_index_None_iff)

text \<open>Names of states are unique in a registry that only \<^verbatim>\<open>allocateState\<close> fills.\<close>

definition uniqueNames :: "stateEntry list \<Rightarrow> bool" where
  "uniqueNames reg \<longleftrightarrow> distinct (map (m_name \<circ> stateOf) reg)"

lemma allocateState_unique: "uniqueNames reg \<Longrightarrow> allocateState reg e = Inr reg' \<Longrightarrow> uniqueNames reg'"
  by (force simp: uniqueNames_def allocateState_def findState_None split: if_splits)

lemma find_index_unique:
  "distinct (map f xs) \<Longrightarrow> i < length xs \<Longrightarrow> P (f (xs ! i)) \<Longrightarrow> (\<And>j. j < length xs \<Longrightarrow> P (f (xs ! j)) \<Longrightarrow> f (xs ! j) = f (xs ! i)) \<Longrightarrow>
     find_index (\<lambda>x. P (f x)) xs = Some i"
proof -
  assume d: "distinct (map f xs)" and i: "i < length xs" "P (f (xs ! i))"
    and u: "\<And>j. j < length xs \<Longrightarrow> P (f (xs ! j)) \<Longrightarrow> f (xs ! j) = f (xs ! i)"
  then obtain k where k: "find_index (\<lambda>x. P (f x)) xs = Some k"
    using find_index_None_iff [of "\<lambda>x. P (f x)" xs] by (cases "find_index (\<lambda>x. P (f x)) xs") auto
  have "k < length xs" "P (f (xs ! k))" using find_index_Some_bound [OF k] find_index_Some_nth [OF k] by simp_all
  then have "map f xs ! k = map f xs ! i" using u i(1) by simp
  with d i(1) \<open>k < length xs\<close> have "k = i" using nth_eq_iff_index_eq [of "map f xs" k i] by simp
  with k show ?thesis by simp
qed

lemma removeState_once:
  assumes "distinct (map (s_this \<circ> stateOf) reg)" and "i < length reg"
  shows "removeState reg (s_this (stateOf (reg ! i))) = Some (take i reg @ drop (i + 1) reg)"
proof -
  let ?P = "\<lambda>e. s_this (stateOf e) \<noteq> s_this (stateOf (reg ! i))"
  have r: "reg = take i reg @ reg ! i # drop (i + 1) reg" using assms(2) by (simp add: id_take_nth_drop)
  have "?P (reg ! j)" if "j < length reg" "j \<noteq> i" for j
    using assms that nth_eq_iff_index_eq [of "map (s_this \<circ> stateOf) reg" j i] by auto
  then have "\<forall>e \<in> set (take i reg). ?P e" "\<forall>e \<in> set (drop (i + 1) reg). ?P e"
    using assms(2) by (auto simp: in_set_conv_nth)
  then have f: "filter ?P (take i reg) = take i reg" "filter ?P (drop (i + 1) reg) = drop (i + 1) reg" by simp_all
  have "filter ?P reg = take i reg @ drop (i + 1) reg"
    by (subst r) (simp only: filter_append filter.simps f if_False not_True_eq_False simp_thms)
  moreover have "length (take i reg @ drop (i + 1) reg) + 1 = length reg" using assms(2) by simp
  ultimately show ?thesis by (simp add: removeState_def Let_def)
qed

end
