(* ===== verification/Scene_Access.thy ===== *)
theory Scene_Access
  imports State_Registry
begin

text \<open>
  Which scene calls are allowed, \<^verbatim>\<open>src/src/sceneaccess.cpp\<close>, and the operations of addressable items
  that ask for it, \<^verbatim>\<open>src/src/model/addressablemodelitem.cpp\<close>.  The bus is not part of the model: an
  operation that is let through gives the request it makes to the \<^verbatim>\<open>ActionRequestInterface\<close> of the
  apartment.  A target is a group, a device, or an item of another class.
\<close>

section \<open>Data\<close>

datatype target = TGroup group | TDevice device | TOther

datatype category = SAC_MANUAL | SAC_TIMER | SAC_ALGORITHM | SAC_UNKNOWN

datatype request =
    ReqCallScene target u32 category nat string bool
  | ReqCallSceneMin target u32 category nat string
  | ReqSaveScene target u32 nat string
  | ReqUndoScene target u32 category nat string
  | ReqUndoSceneLast target u32 category string
  | ReqBlink target u32 category string
  | ReqSetValue target u32 category u8 string
  | ReqIncreaseOutputChannelValue target u32 category u8 string
  | ReqDecreaseOutputChannelValue target u32 category u8 string
  | ReqStopOutputChannelValue target u32 category u8 string
  | ReqPushSensor target u32 category dsuid int u64 string

definition coJSON :: u32 where "coJSON = 2"
definition DEVICE_CLASS_GR :: int where "DEVICE_CLASS_GR = 2"

definition stringToCategory :: "string \<Rightarrow> category" where
  "stringToCategory s =
     (if s = ''manual'' then SAC_MANUAL
      else if s = ''timer'' then SAC_TIMER
      else if s = ''algorithm'' then SAC_ALGORITHM
      else SAC_UNKNOWN)"

fun categoryToString :: "category \<Rightarrow> string" where
  "categoryToString SAC_MANUAL = ''manual''"
| "categoryToString SAC_TIMER = ''timer''"
| "categoryToString SAC_ALGORITHM = ''algorithm''"
| "categoryToString SAC_UNKNOWN = ''unknown''"

section \<open>Groups and clusters\<close>

definition groupIsValid :: "group \<Rightarrow> bool" where
  "groupIsValid g =
     (if isDefaultGroup (g_id g) \<or> isAppUserGroup (g_id g) then g_isValid g \<and> g_applicationType g \<noteq> AT_None
      else g_isValid g)"

definition getCluster :: "apartment \<Rightarrow> int \<Rightarrow> serror + group" where
  "getCluster A i =
     (if isAppUserGroup i then
        sbind (getZone A 0) (\<lambda>z. case zoneGroup z i of
          Some g \<Rightarrow> if g_isCluster g then Inr g else Inl (ItemNotFound (print_int i))
        | None \<Rightarrow> Inl (ItemNotFound (print_int i)))
      else Inl (ItemNotFound (print_int i)))"

section \<open>Access\<close>

definition isActive :: "stateEntry list \<Rightarrow> nat \<Rightarrow> bool" where
  "isActive reg i \<longleftrightarrow> getState (stateOf (reg ! i)) = st_Active"

text \<open>Fire and wind block the shades.\<close>

definition protectionMessage :: "bool \<Rightarrow> bool \<Rightarrow> string" where
  "protectionMessage fireActive windActive =
     ''Execution blocked: '' @
     (if fireActive \<and> windActive then ''fire and wind alarms are active''
      else if fireActive then ''fire is active''
      else if windActive then ''wind is active'' else [])"

definition checkProtection :: "target \<Rightarrow> bool \<Rightarrow> bool \<Rightarrow> serror + unit" where
  "checkProtection t fireActive windActive =
     (if windActive \<or> fireActive then
        (case t of
           TGroup g \<Rightarrow> if AT_Blinds = g_applicationType g
                       then Inl (SceneAccessDenied (protectionMessage fireActive windActive)) else Inr ()
         | TDevice d \<Rightarrow> if isInGroup d DEVICE_CLASS_GR
                       then Inl (SceneAccessDenied (protectionMessage fireActive windActive)) else Inr ()
         | TOther \<Rightarrow> Inr ())
      else Inr ())"

text \<open>A wind alarm of the cluster \<open>i\<close> blocks the cluster, groups of shades with a member of it and its members.\<close>

definition checkClusterWind :: "apartment \<Rightarrow> target \<Rightarrow> int \<Rightarrow> serror + unit" where
  "checkClusterWind A t i =
     (let denied = Inl (SceneAccessDenied ''Execution blocked: wind is active'')
      in case t of
        TGroup g \<Rightarrow>
          if g_id g = i then denied
          else if g_id g = DEVICE_CLASS_GR then
            sbind (groupDevices A g) (\<lambda>D. sbind (getByGroup A D i) (\<lambda>S. if length S > 0 then denied else Inr ()))
          else Inr ()
      | TDevice d \<Rightarrow> if isInGroup d i then denied else Inr ()
      | TOther \<Rightarrow> Inr ())"

fun clusterLoop :: "apartment \<Rightarrow> stateEntry list \<Rightarrow> target \<Rightarrow> int list \<Rightarrow> serror + unit" where
  "clusterLoop A reg t [] = Inr ()"
| "clusterLoop A reg t (i # is) =
     (case getCluster A i of
        Inl (ItemNotFound _) \<Rightarrow> clusterLoop A reg t is
      | Inl e \<Rightarrow> Inl e
      | Inr gr \<Rightarrow>
          if groupIsValid gr \<and> g_applicationType gr = AT_Blinds then
            (case getNonScriptState reg (''wind.group'' @ print_int i) of
               Inl (ItemNotFound _) \<Rightarrow> clusterLoop A reg t is
             | Inl e \<Rightarrow> Inl e
             | Inr wind \<Rightarrow>
                 if isActive reg wind then sbind (checkClusterWind A t i) (\<lambda>_. clusterLoop A reg t is)
                 else clusterLoop A reg t is)
          else clusterLoop A reg t is)"

definition checkAccess :: "bool \<Rightarrow> apartment \<Rightarrow> stateEntry list \<Rightarrow> target \<Rightarrow> category \<Rightarrow> serror + bool" where
  "checkAccess hasDSS A reg t cat =
     (if \<not> hasDSS then Inr True
      else if cat = SAC_MANUAL then Inr True
      else
        sbind (getNonScriptState reg ''fire'') (\<lambda>fire.
        sbind (getNonScriptState reg ''wind'') (\<lambda>wind.
        sbind (checkProtection t (isActive reg fire) (isActive reg wind)) (\<lambda>_.
        sbind (clusterLoop A reg t (map int [nat GroupIDAppUserMin..<nat (GroupIDAppUserMax + 1)])) (\<lambda>_. Inr True)))))"

definition sceneState :: "nat \<Rightarrow> string option" where
  "sceneState sceneNr =
     (if sceneNr = SceneWindActive then Some ''wind''
      else if sceneNr = SceneRainActive then Some ''rain''
      else if sceneNr = SceneHailActive then Some ''hail''
      else if sceneNr = SceneFire then Some ''fire''
      else if sceneNr = SceneAlarm then Some ''alarm''
      else if sceneNr = SceneAlarm2 then Some ''alarm2''
      else if sceneNr = SceneAlarm3 then Some ''alarm3''
      else if sceneNr = SceneAlarm4 then Some ''alarm4''
      else None)"

definition checkStates :: "bool \<Rightarrow> stateEntry list \<Rightarrow> nat \<Rightarrow> serror + bool" where
  "checkStates hasDSS reg sceneNr =
     (if \<not> hasDSS then Inr True
      else case sceneState sceneNr of
        None \<Rightarrow> Inr True
      | Some stateName \<Rightarrow>
          sbind (getNonScriptState reg stateName) (\<lambda>s.
            if isActive reg s
            then Inl (SceneAccessDenied (''Execution blocked: state '' @ stateName @ '' is already active''))
            else Inr True))"

section \<open>Addressable items\<close>

text \<open>The check that the operations begin with: nothing is requested when it says no.\<close>

definition guarded :: "bool \<Rightarrow> apartment \<Rightarrow> stateEntry list \<Rightarrow> target \<Rightarrow> category \<Rightarrow> (serror + request list)
    \<Rightarrow> serror + request list" where
  "guarded H A reg t cat act = sbind (checkAccess H A reg t cat) (\<lambda>b. if \<not> b then Inr [] else act)"

definition increaseValue where
  "increaseValue H A reg t origin cat = guarded H A reg t cat (Inr [ReqCallScene t origin cat SceneInc [] False])"

definition decreaseValue where
  "decreaseValue H A reg t origin cat = guarded H A reg t cat (Inr [ReqCallScene t origin cat SceneDec [] False])"

definition itemSetValue where
  "itemSetValue H A reg t origin cat value token = guarded H A reg t cat (Inr [ReqSetValue t origin cat value token])"

definition itemCallScene where
  "itemCallScene H A reg t origin cat sceneNr token force =
     guarded H A reg t cat
       (if origin = coJSON \<and> \<not> force
        then sbind (checkStates H reg sceneNr) (\<lambda>b.
          if \<not> b then Inr [] else Inr [ReqCallScene t origin cat sceneNr token force])
        else Inr [ReqCallScene t origin cat sceneNr token force])"

definition callSceneMin where
  "callSceneMin H A reg t origin cat sceneNr token =
     guarded H A reg t cat
       (if origin = coJSON
        then sbind (checkStates H reg sceneNr) (\<lambda>b.
          if \<not> b then Inr [] else Inr [ReqCallSceneMin t origin cat sceneNr token])
        else Inr [ReqCallSceneMin t origin cat sceneNr token])"

definition saveScene :: "target \<Rightarrow> u32 \<Rightarrow> nat \<Rightarrow> string \<Rightarrow> serror + request list" where
  "saveScene t origin sceneNr token = Inr [ReqSaveScene t origin sceneNr token]"

definition undoScene where
  "undoScene H A reg t origin cat sceneNr token = guarded H A reg t cat (Inr [ReqUndoScene t origin cat sceneNr token])"

definition undoSceneLast where
  "undoSceneLast H A reg t origin cat token = guarded H A reg t cat (Inr [ReqUndoSceneLast t origin cat token])"

definition blink where
  "blink H A reg t origin cat token = guarded H A reg t cat (Inr [ReqBlink t origin cat token])"

definition increaseOutputChannelValue where
  "increaseOutputChannelValue H A reg t origin cat ch token =
     guarded H A reg t cat (Inr [ReqIncreaseOutputChannelValue t origin cat ch token])"

definition decreaseOutputChannelValue where
  "decreaseOutputChannelValue H A reg t origin cat ch token =
     guarded H A reg t cat (Inr [ReqDecreaseOutputChannelValue t origin cat ch token])"

definition stopOutputChannelValue where
  "stopOutputChannelValue H A reg t origin cat ch token =
     guarded H A reg t cat (Inr [ReqStopOutputChannelValue t origin cat ch token])"

definition pushSensor where
  "pushSensor H A reg t origin cat source sensorType value token =
     guarded H A reg t cat (Inr [ReqPushSensor t origin cat source sensorType value token])"

end
