(* ===== verification/Scene_Call.thy ===== *)
theory Scene_Call
  imports Scene_Access
begin

text \<open>
  Scenes of groups, \<^verbatim>\<open>src/src/model/group.cpp\<close>: what a call changes in the group, in the state that says
  whether the lights or the heating of a zone are on, and in the heating mode of the zone; and the laws
  of the access check of \<^verbatim>\<open>src/src/sceneaccess.cpp\<close>.  A house is the world of the states, the registry of
  the states and the apartment; an operation of a group gives the house and the requests for the bus, or
  the exception that leaves it.  A group is named by its zone and its number.
\<close>

section \<open>Data\<close>

datatype gerror = GModel serror | GState perror

record 'r house =
  h_world :: "'r world"
  h_states :: "stateEntry list"
  h_apartment :: apartment

section \<open>A group in its apartment\<close>

definition sameGroup :: "group \<Rightarrow> group \<Rightarrow> bool" where
  "sameGroup g g' \<longleftrightarrow> g_zoneID g = g_zoneID g' \<and> g_id g = g_id g'"

definition putGroup :: "apartment \<Rightarrow> group \<Rightarrow> apartment" where
  "putGroup A g = A\<lparr>a_zones := map (\<lambda>z. if z_id z = g_zoneID g
     then z\<lparr>z_groups := map (\<lambda>g'. if sameGroup g g' then g else g') (z_groups z)\<rparr> else z) (a_zones A)\<rparr>"

definition HeatingOperationModeIDMax :: int where "HeatingOperationModeIDMax = 11"

definition setHeatingOperationMode :: "zone \<Rightarrow> int \<Rightarrow> zone" where
  "setHeatingOperationMode z mode =
     (if mode > HeatingOperationModeIDMax then z else z\<lparr>z_heatingOperationMode := mode\<rparr>)"

definition putMode :: "apartment \<Rightarrow> int \<Rightarrow> int \<Rightarrow> apartment" where
  "putMode A zid mode =
     A\<lparr>a_zones := map (\<lambda>z. if z_id z = zid then setHeatingOperationMode z mode else z) (a_zones A)\<rparr>"

definition setLastCalledScene :: "group \<Rightarrow> nat \<Rightarrow> group" where
  "setLastCalledScene g scene =
     (if g_id g = GroupIDControlTemperature \<and> scene \<ge> 16 then g
      else if scene \<noteq> g_lastCalledScene g then
        g\<lparr>g_lastButOneCalledScene := g_lastCalledScene g, g_lastCalledScene := scene,
          g_behavior := setCurrentScene (g_behavior g) scene\<rparr>
      else g)"

section \<open>The state of a group\<close>

definition groupStateName :: "group \<Rightarrow> string" where
  "groupStateName g = makeGroupName (g_applicationType g) (word_of_int (g_zoneID g))"

text \<open>The type that the assertions of a group with a state ask for.\<close>

definition stateGroupType :: "int \<Rightarrow> ApplicationType option" where
  "stateGroupType i =
     (if i = GroupIDYellow then Some AT_Lights else if i = GroupIDHeating then Some AT_Heating else None)"

definition groupGetState :: "stateEntry list \<Rightarrow> group \<Rightarrow> serror + u32" where
  "groupGetState reg g =
     (if g_zoneID g = 0 then Inr st_Unknown
      else case stateGroupType (g_id g) of
        None \<Rightarrow> Inr st_Unknown
      | Some at \<Rightarrow>
          if g_applicationType g \<noteq> at then Inl AssertFailed
          else case getNonScriptState reg (groupStateName g) of
            Inl _ \<Rightarrow> Inr st_Unknown
          | Inr i \<Rightarrow> Inr (getState (stateOf (reg ! i))))"

definition setGroupState ::
    "senv \<Rightarrow> 'r timelib \<Rightarrow> int \<Rightarrow> 'r house \<Rightarrow> group \<Rightarrow> ApplicationType \<Rightarrow> u32 \<Rightarrow> bool \<Rightarrow> 'r house \<times> gerror option" where
  "setGroupState E L now hs g at origin on =
     (if g_applicationType g \<noteq> at then (hs, Some (GModel AssertFailed))
      else case getNonScriptState (h_states hs) (groupStateName g) of
        Inl _ \<Rightarrow> (hs, None)
      | Inr i \<Rightarrow>
          (case setStateAt E L now (h_world hs) (h_states hs) i origin (if on then st_Active else st_Inactive) of
             (w, reg, r) \<Rightarrow> (hs\<lparr>h_world := w, h_states := reg\<rparr>, map_option GState r)))"

definition setOnState where
  "setOnState E L now hs g origin on =
     (if g_zoneID g = 0 then (hs, None)
      else case stateGroupType (g_id g) of
        None \<Rightarrow> (hs, None)
      | Some at \<Rightarrow> setGroupState E L now hs g at origin on)"

definition setOnStateByScene ::
    "senv \<Rightarrow> 'r timelib \<Rightarrow> int \<Rightarrow> 'r house \<Rightarrow> group \<Rightarrow> u32 \<Rightarrow> nat \<Rightarrow> 'r house \<times> gerror option" where
  "setOnStateByScene E L now hs g origin scene =
     (if g_zoneID g = 0 then (hs, None)
      else case stateGroupType (g_id g) of
        None \<Rightarrow> (hs, None)
      | Some at \<Rightarrow>
          (case isOnScene (g_id g) scene of
             SceneDontCare \<Rightarrow> (hs, None)
           | SceneTrue \<Rightarrow> setGroupState E L now hs g at origin True
           | SceneFalse \<Rightarrow> setGroupState E L now hs g at origin False))"

section \<open>Scene calls\<close>

definition rememberCall :: "group \<Rightarrow> nat \<Rightarrow> group" where
  "rememberCall g sceneNr =
     (if rememberScene (sceneNr mod 256) then setLastCalledScene g (sceneNr mod 256) else g)"

definition groupCallScene ::
    "senv \<Rightarrow> 'r timelib \<Rightarrow> int \<Rightarrow> 'r house \<Rightarrow> group \<Rightarrow> u32 \<Rightarrow> category \<Rightarrow> nat \<Rightarrow> string \<Rightarrow> bool
       \<Rightarrow> 'r house \<times> (gerror + request list)" where
  "groupCallScene E L now hs g origin cat sceneNr token force =
     (let g = rememberCall g sceneNr;
          hs = hs\<lparr>h_apartment := putGroup (h_apartment hs) g\<rparr>
      in case itemCallScene (hasInstance E) (h_apartment hs) (h_states hs) (TGroup g) origin cat sceneNr token force of
           Inl e \<Rightarrow> (hs, Inl (GModel e))
         | Inr reqs \<Rightarrow>
             if g_id g = GroupIDControlTemperature then
               (case getZone (h_apartment hs) (g_zoneID g) of
                  Inl e \<Rightarrow> (hs, Inl (GModel e))
                | Inr _ \<Rightarrow>
                    (if int sceneNr \<le> HeatingOperationModeIDMax
                     then hs\<lparr>h_apartment := putMode (h_apartment hs) (g_zoneID g) (int sceneNr)\<rparr> else hs, Inr reqs))
             else
               (case setOnStateByScene E L now hs g origin sceneNr of
                  (hs, Some e) \<Rightarrow> (hs, Inl e)
                | (hs, None) \<Rightarrow> (hs, Inr reqs)))"

text \<open>The exception of a behaviour without active scenes leaves before anything has changed.\<close>

definition liftBase :: "base_error \<Rightarrow> gerror" where
  "liftBase e = GModel (case e of RuntimeError s \<Rightarrow> StdRuntime s | InvalidArgument s \<Rightarrow> StdInvalidArgument s)"

definition groupNextScene where
  "groupNextScene E L now hs g origin cat =
     (case behaviorNextScene (g_behavior g) of
        Inl e \<Rightarrow> (hs, Inl (liftBase e))
      | Inr s \<Rightarrow> groupCallScene E L now hs g origin cat s [] False)"

definition groupPreviousScene where
  "groupPreviousScene E L now hs g origin cat =
     (case behaviorPreviousScene (g_behavior g) of
        Inl e \<Rightarrow> (hs, Inl (liftBase e))
      | Inr s \<Rightarrow> groupCallScene E L now hs g origin cat s [] False)"

section \<open>What the access check means\<close>

fun shadeTarget :: "target \<Rightarrow> bool" where
  "shadeTarget (TGroup g) \<longleftrightarrow> g_applicationType g = AT_Blinds"
| "shadeTarget (TDevice d) \<longleftrightarrow> isInGroup d DEVICE_CLASS_GR"
| "shadeTarget TOther \<longleftrightarrow> False"

text \<open>The devices of a group of shades can be looked up.\<close>

fun targetKnown :: "apartment \<Rightarrow> target \<Rightarrow> bool" where
  "targetKnown A (TGroup g) \<longleftrightarrow> (g_id g = DEVICE_CLASS_GR \<longrightarrow>
     (case getZone A (g_zoneID g) of Inl _ \<Rightarrow> False | Inr z \<Rightarrow> known A (z_devices z) \<and> distinct (z_devices z)))"
| "targetKnown A t \<longleftrightarrow> True"

definition clusterAlarm :: "apartment \<Rightarrow> stateEntry list \<Rightarrow> int \<Rightarrow> bool" where
  "clusterAlarm A reg i \<longleftrightarrow>
     (case getCluster A i of Inl _ \<Rightarrow> False | Inr g \<Rightarrow> groupIsValid g \<and> g_applicationType g = AT_Blinds) \<and>
     (case getNonScriptState reg (''wind.group'' @ print_int i) of Inl _ \<Rightarrow> False | Inr w \<Rightarrow> isActive reg w)"

fun inCluster :: "apartment \<Rightarrow> target \<Rightarrow> int \<Rightarrow> bool" where
  "inCluster A (TGroup g) i \<longleftrightarrow> g_id g = i \<or> g_id g = DEVICE_CLASS_GR \<and>
     (case getZone A (g_zoneID g) of Inl _ \<Rightarrow> False
      | Inr z \<Rightarrow> \<exists>r \<in> set (z_devices z). isInGroup (dev A r) DEVICE_CLASS_GR \<and> isInGroup (dev A r) i)"
| "inCluster A (TDevice d) i \<longleftrightarrow> isInGroup d i"
| "inCluster A TOther i \<longleftrightarrow> False"

definition clusterIDs :: "int list" where
  "clusterIDs = map int [nat GroupIDAppUserMin..<nat (GroupIDAppUserMax + 1)]"

lemma checkProtection_spec:
  "checkProtection t f w = (if (f \<or> w) \<and> shadeTarget t then Inl (SceneAccessDenied (protectionMessage f w)) else Inr ())"
  by (cases t) (auto simp: checkProtection_def)

lemma checkClusterWind_spec:
  assumes "targetKnown A t"
  shows "checkClusterWind A t i =
    (if inCluster A t i then Inl (SceneAccessDenied ''Execution blocked: wind is active'') else Inr ())"
proof (cases t)
  case (TGroup g)
  show ?thesis
  proof (cases "g_id g = DEVICE_CLASS_GR")
    case True
    then obtain z where z: "getZone A (g_zoneID g) = Inr z" "known A (z_devices z)" "distinct (z_devices z)"
      using assms TGroup by (auto split: sum.splits)
    define D where "D = filter (\<lambda>r. isInGroup (dev A r) DEVICE_CLASS_GR) (z_devices z)"
    have "known A D" "distinct D" using z by (auto simp: D_def known_def)
    then have "getByGroup A D i = Inr (filter (\<lambda>r. isInGroup (dev A r) i) D)" by (rule getByGroup_known)
    moreover have "groupDevices A g = Inr D"
      using z True by (simp add: groupDevices_def getByGroup_known D_def)
    ultimately show ?thesis
      using True TGroup z(1) by (auto simp: checkClusterWind_def Let_def D_def filter_empty_conv)
  qed (simp add: TGroup checkClusterWind_def Let_def)
qed (simp_all add: checkClusterWind_def Let_def)

lemma getCluster_error: "getCluster A i = Inl e \<Longrightarrow> \<exists>s. e = ItemNotFound s"
  by (auto simp: getCluster_def sbind_def getZone_def split: if_splits option.splits sum.splits)

lemma getNonScriptState_error: "getNonScriptState reg n = Inl e \<Longrightarrow> e = ItemNotFound n"
  by (auto simp: getNonScriptState_def split: option.splits)

lemma clusterLoop_spec:
  assumes "targetKnown A t"
  shows "clusterLoop A reg t is =
    (if \<exists>i \<in> set is. clusterAlarm A reg i \<and> inCluster A t i
     then Inl (SceneAccessDenied ''Execution blocked: wind is active'') else Inr ())"
proof (induction "is")
  case (Cons i "is")
  show ?case
  proof (cases "getCluster A i")
    case (Inl e)
    then show ?thesis using Cons getCluster_error [OF Inl] by (auto simp: clusterAlarm_def)
  next
    case gr: (Inr gr)
    show ?thesis
    proof (cases "getNonScriptState reg (''wind.group'' @ print_int i)")
      case (Inl e)
      then show ?thesis using Cons gr getNonScriptState_error [OF Inl] by (auto simp: clusterAlarm_def)
    next
      case (Inr w)
      then show ?thesis using Cons gr checkClusterWind_spec [OF assms, of i] by (auto simp: clusterAlarm_def)
    qed
  qed
qed simp

section \<open>Properties of the access check\<close>

text \<open>
  C25: The access check is exact: once the states of fire and wind are registered, a manual call passes, an
  automatic call on a shade (a group of shades, or a device in group 2) is refused while one of them is
  active, a call on a member of a cluster of shades with an active wind alarm (the cluster itself, a
  group 2 with a device in it, or such a device) is refused, and every other call passes.
\<close>

theorem access_exact:
  assumes "targetKnown A t"
    and "getNonScriptState reg ''fire'' = Inr f" and "getNonScriptState reg ''wind'' = Inr w"
  shows "checkAccess True A reg t cat =
    (if cat = SAC_MANUAL then Inr True
     else if (isActive reg f \<or> isActive reg w) \<and> shadeTarget t
     then Inl (SceneAccessDenied (protectionMessage (isActive reg f) (isActive reg w)))
     else if \<exists>i \<in> set clusterIDs. clusterAlarm A reg i \<and> inCluster A t i
     then Inl (SceneAccessDenied ''Execution blocked: wind is active'')
     else Inr True)"
  using assms
  by (auto simp: checkAccess_def checkProtection_spec clusterLoop_spec clusterIDs_def [symmetric])

text \<open>An example: an apartment with one shade, in which fire is active.\<close>

definition exEnv :: senv where
  "exEnv = \<lparr>hasInstance = True, ssRunning = False, savedPropsDirectory = [], canWrite = (\<lambda>_. False), DSUID_NULL = []\<rparr>"

definition exState :: "string \<Rightarrow> u32 \<Rightarrow> stateEntry" where
  "exState n v = PlainState (blankState exEnv 0 0 n StateType_Apartment v volatile)"

definition exStates :: "stateEntry list" where
  "exStates = [exState ''fire'' st_Active, exState ''wind'' st_Inactive, exState ''zone.1.light'' st_Unknown]"

lemma exStates_find:
  "getNonScriptState exStates ''fire'' = Inr 0" "getNonScriptState exStates ''wind'' = Inr (Suc 0)"
  "getNonScriptState exStates ''zone.1.light'' = Inr 2" "isActive exStates 0" "\<not> isActive exStates (Suc 0)"
  by (simp_all add: exStates_def exState_def blankState_def getNonScriptState_def findState_def isActive_def getState_def
      State_Active_def State_Inactive_def)

theorem access_exact_witness:
  "checkAccess True exHouse exStates (TDevice (exDevice 2 1 [2])) SAC_TIMER =
     Inl (SceneAccessDenied ''Execution blocked: fire is active'')"
proof -
  have "targetKnown exHouse (TDevice (exDevice 2 1 [2]))" by simp
  from access_exact [OF this exStates_find(1, 2), of SAC_TIMER] show ?thesis
    by (simp add: exStates_find protectionMessage_def isInGroup_def exDevice_def DEVICE_CLASS_GR_def isValidGroup_iff)
qed

text \<open>
  C5: Shades are protected: while fire or wind is active, no automatic operation on a shade makes a request
  for the bus, whether it calls or undoes a scene, sets or moves a value, blinks or pushes a sensor
  value; each of them throws.  Only saving a scene is never checked.
\<close>

theorem shade_protected:
  assumes "shadeTarget t" and "cat \<noteq> SAC_MANUAL"
    and "getNonScriptState reg ''fire'' = Inr f" and "getNonScriptState reg ''wind'' = Inr w"
    and "isActive reg f \<or> isActive reg w"
    and "r \<in> set [increaseValue True A reg t origin cat, decreaseValue True A reg t origin cat,
      itemSetValue True A reg t origin cat v token, itemCallScene True A reg t origin cat s token force,
      callSceneMin True A reg t origin cat s token, undoScene True A reg t origin cat s token,
      undoSceneLast True A reg t origin cat token, blink True A reg t origin cat token,
      increaseOutputChannelValue True A reg t origin cat ch token,
      decreaseOutputChannelValue True A reg t origin cat ch token,
      stopOutputChannelValue True A reg t origin cat ch token,
      pushSensor True A reg t origin cat source sensorType x token]"
  shows "r = Inl (SceneAccessDenied (protectionMessage (isActive reg f) (isActive reg w)))"
proof -
  have "guarded True A reg t cat act =
      Inl (SceneAccessDenied (protectionMessage (isActive reg f) (isActive reg w)))" for act
    using assms(1-5) by (auto simp: guarded_def checkAccess_def checkProtection_spec)
  then show ?thesis
    using assms(6)
    by (auto simp: increaseValue_def decreaseValue_def itemSetValue_def itemCallScene_def callSceneMin_def
        undoScene_def undoSceneLast_def blink_def increaseOutputChannelValue_def
        decreaseOutputChannelValue_def stopOutputChannelValue_def pushSensor_def)
qed

theorem shade_protected_witness:
  "blink True exHouse exStates (TDevice (exDevice 2 1 [2])) coJSON SAC_TIMER [] =
     Inl (SceneAccessDenied ''Execution blocked: fire is active'')"
proof -
  have s: "shadeTarget (TDevice (exDevice 2 1 [2]))"
    by (simp add: isInGroup_def exDevice_def DEVICE_CLASS_GR_def isValidGroup_iff)
  have "blink True exHouse exStates (TDevice (exDevice 2 1 [2])) coJSON SAC_TIMER [] =
      Inl (SceneAccessDenied (protectionMessage (isActive exStates 0) (isActive exStates (Suc 0))))"
    by (rule shade_protected [OF s _ exStates_find(1, 2), where v = 0 and s = 0 and force = False and ch = 0
          and source = "[]" and sensorType = 0 and x = 0 and origin = coJSON and token = "[]" and cat = SAC_TIMER and A = exHouse])
       (simp_all add: exStates_find)
  then show ?thesis by (simp add: exStates_find protectionMessage_def)
qed

text \<open>
  C39: The broadcast group escapes the protection.  While fire is active, a call on the group of all devices
  of a zone passes, also when the zone holds shades; a call on each of these shades is refused.  The set
  splitter replaces a set of all devices of a zone by this group, so the same set of shades is refused or
  let through depending on what else the zone holds.
\<close>

theorem broadcast_unprotected:
  assumes "g_id g = GroupIDBroadcast" and "g_applicationType g \<noteq> AT_Blinds"
    and "getNonScriptState reg ''fire'' = Inr f" and "getNonScriptState reg ''wind'' = Inr w"
    and "isActive reg f" and "isInGroup d DEVICE_CLASS_GR" and "cat \<noteq> SAC_MANUAL"
  shows "checkAccess True A reg (TGroup g) cat = Inr True \<and>
    (\<exists>m. checkAccess True A reg (TDevice d) cat = Inl (SceneAccessDenied m))"
proof -
  have k: "targetKnown A (TGroup g)" using assms(1) by (simp add: GroupIDBroadcast_def DEVICE_CLASS_GR_def)
  have "\<not> inCluster A (TGroup g) i" if "i \<in> set clusterIDs" for i
    using that assms(1)
    by (auto simp: GroupIDBroadcast_def DEVICE_CLASS_GR_def clusterIDs_def GroupIDAppUserMin_def)
  then have "clusterLoop A reg (TGroup g) clusterIDs = Inr ()" by (simp add: clusterLoop_spec [OF k])
  then show ?thesis
    using assms by (simp add: checkAccess_def checkProtection_spec clusterIDs_def [symmetric])
qed

theorem broadcast_unprotected_witness:
  "checkAccess True exHouse exStates (TGroup (exGroup 1 0)) SAC_TIMER = Inr True \<and>
   (\<exists>m. checkAccess True exHouse exStates (TDevice (exDevice 2 1 [2])) SAC_TIMER = Inl (SceneAccessDenied m))"
  by (rule broadcast_unprotected [OF _ _ exStates_find(1, 2, 4)])
     (simp_all add: exGroup_def GroupIDBroadcast_def isInGroup_def exDevice_def DEVICE_CLASS_GR_def isValidGroup_iff)

section \<open>Properties of scene calls\<close>

lemma setState_frame:
  "setState E L now w st origin v = (w', st', r) \<Longrightarrow>
     m_name st' = m_name st \<and> m_type st' = m_type st \<and> m_state st' = v"
  by (auto simp: setState_def Let_def split: if_splits sum.splits)

lemma findState_update:
  "i < length reg \<Longrightarrow> P (stateOf e) = P (stateOf (reg ! i)) \<Longrightarrow> findState P (reg[i := e]) = findState P reg"
  unfolding findState_def by (induction reg arbitrary: i) (auto split: nat.splits)

lemma getNonScriptState_bound: "getNonScriptState reg n = Inr i \<Longrightarrow> i < length reg"
  by (auto simp: getNonScriptState_def dest: findState_Some split: option.splits)

lemma setGroupState_spec:
  assumes "setGroupState E L now hs g at origin on = (hs', r)" and "g_applicationType g = at"
    and "getNonScriptState (h_states hs) (groupStateName g) = Inr i"
  shows "(r = None \<or> (\<exists>e. r = Some (GState e))) \<and> h_apartment hs' = h_apartment hs \<and>
    getNonScriptState (h_states hs') (groupStateName g) = Inr i \<and>
    length (h_states hs') = length (h_states hs) \<and>
    getState (stateOf (h_states hs' ! i)) = (if on then st_Active else st_Inactive) \<and>
    (\<forall>j. j \<noteq> i \<longrightarrow> h_states hs' ! j = h_states hs ! j)"
proof -
  note i = getNonScriptState_bound [OF assms(3)]
  obtain w st x where s: "setState E L now (h_world hs) (stateOf (h_states hs ! i)) origin
      (if on then st_Active else st_Inactive) = (w, st, x)" by (cases rule: prod_cases3)
  note f = setState_frame [OF s]
  have "hs' = hs\<lparr>h_world := w, h_states := (h_states hs)[i := withState (h_states hs ! i) st]\<rparr>" "r = map_option GState x"
    using assms s by (auto simp: setGroupState_def setStateAt_def)
  moreover have "getNonScriptState ((h_states hs)[i := withState (h_states hs ! i) st]) (groupStateName g) = Inr i"
    using assms(3) f by (simp add: getNonScriptState_def findState_update [OF i])
  ultimately show ?thesis using i f by (cases x) (auto simp: getState_def)
qed

lemma rememberCall_simps [simp]:
  "g_id (rememberCall g s) = g_id g" "g_zoneID (rememberCall g s) = g_zoneID g"
  "g_applicationType (rememberCall g s) = g_applicationType g"
  by (simp_all add: rememberCall_def setLastCalledScene_def)

lemma groupStateName_remember [simp]: "groupStateName (rememberCall g s) = groupStateName g"
  by (simp add: groupStateName_def)

lemma itemCallScene_requests:
  "itemCallScene H A reg t origin cat s token force = Inr reqs \<Longrightarrow>
     reqs = [] \<or> reqs = [ReqCallScene t origin cat s token force]"
  by (auto simp: itemCallScene_def guarded_def sbind_def split: sum.splits if_splits)

text \<open>
  C26: A scene call on the lights or the heating of a zone keeps the state of the group in step: if the call
  returns, the state that the group reports afterwards is active for a scene that switches on, inactive
  for one that switches off, and what it was before for the others.  No other state changes, and the
  call makes at most the one request.
\<close>

theorem on_state_follows_scene:
  assumes "g_zoneID g \<noteq> 0" and "stateGroupType (g_id g) = Some (g_applicationType g)"
    and "getNonScriptState (h_states hs) (groupStateName g) = Inr i"
    and "groupCallScene E L now hs g origin cat s token force = (hs', Inr reqs)"
  shows "groupGetState (h_states hs') g = (case isOnScene (g_id g) s of
      SceneTrue \<Rightarrow> Inr st_Active | SceneFalse \<Rightarrow> Inr st_Inactive
    | SceneDontCare \<Rightarrow> groupGetState (h_states hs) g) \<and>
    (\<forall>j. j \<noteq> i \<longrightarrow> h_states hs' ! j = h_states hs ! j) \<and>
    h_apartment hs' = putGroup (h_apartment hs) (rememberCall g s) \<and>
    set reqs \<subseteq> {ReqCallScene (TGroup (rememberCall g s)) origin cat s token force}"
proof -
  let ?g = "rememberCall g s" and ?hs = "hs\<lparr>h_apartment := putGroup (h_apartment hs) (rememberCall g s)\<rparr>"
  have id: "g_id g \<noteq> GroupIDControlTemperature"
    using assms(2) by (auto simp: stateGroupType_def GroupIDControlTemperature_def GroupIDYellow_def GroupIDHeating_def split: if_splits)
  from assms(4) id obtain
    c: "itemCallScene (hasInstance E) (h_apartment ?hs) (h_states ?hs) (TGroup ?g) origin cat s token force = Inr reqs"
    and o: "setOnStateByScene E L now ?hs ?g origin s = (hs', None)"
    by (auto simp: groupCallScene_def Let_def split: sum.splits option.splits prod.splits)
  have get: "groupGetState reg g = Inr (getState (stateOf (reg ! i)))"
    if "getNonScriptState reg (groupStateName g) = Inr i" for reg
    using assms(1, 2) that by (simp add: groupGetState_def)
  have set: "groupGetState (h_states hs') g = Inr (if on then st_Active else st_Inactive) \<and>
      (\<forall>j. j \<noteq> i \<longrightarrow> h_states hs' ! j = h_states hs ! j) \<and> h_apartment hs' = h_apartment ?hs"
    if "setGroupState E L now ?hs ?g (g_applicationType g) origin on = (hs', None)" for on
    using setGroupState_spec [OF that, of i] assms(3) get by simp
  have "groupGetState (h_states hs') g = (case isOnScene (g_id g) s of
      SceneTrue \<Rightarrow> Inr st_Active | SceneFalse \<Rightarrow> Inr st_Inactive
    | SceneDontCare \<Rightarrow> groupGetState (h_states hs) g) \<and>
    (\<forall>j. j \<noteq> i \<longrightarrow> h_states hs' ! j = h_states hs ! j) \<and> h_apartment hs' = h_apartment ?hs"
  proof (cases "isOnScene (g_id g) s")
    case SceneTrue
    then show ?thesis using o assms(1, 2) set [of True] by (simp add: setOnStateByScene_def)
  next
    case SceneFalse
    then show ?thesis using o assms(1, 2) set [of False] by (simp add: setOnStateByScene_def)
  next
    case SceneDontCare
    then show ?thesis using o assms(1, 2) by (auto simp: setOnStateByScene_def)
  qed
  then show ?thesis using itemCallScene_requests [OF c] by auto
qed

definition exLight :: group where
  "exLight = (exGroup 1 1)\<lparr>g_applicationType := AT_Lights\<rparr>"

definition exCall :: "'r world \<Rightarrow> 'r house" where
  "exCall w = \<lparr>h_world = w, h_states = exStates, h_apartment = exHouse\<rparr>"

lemma exLight_ids: "g_id exLight = 1" "g_zoneID exLight = 1" "g_applicationType exLight = AT_Lights"
    "(1 :: int) \<noteq> GroupIDControlTemperature"
  by (simp_all add: exLight_def exGroup_def GroupIDControlTemperature_def)

theorem on_state_follows_scene_witness:
  "\<forall>L now (w :: 'r world). \<exists>hs' reqs.
     groupCallScene exEnv L now (exCall w) exLight coJSON SAC_MANUAL Scene1 [] False = (hs', Inr reqs) \<and>
     groupGetState (h_states hs') exLight = Inr st_Active"
proof (intro allI)
  fix L now and w :: "'r world"
  have n: "groupStateName exLight = ''zone.1.light''"
    by (simp add: groupStateName_def exLight_def exGroup_def makeGroupName_def int32ToString_def intToString_def
        print_nat.simps digit_char_def char_of_def bit_iff_odd drop_bit_eq_div)
  have g: "g_zoneID exLight \<noteq> 0" "stateGroupType (g_id exLight) = Some (g_applicationType exLight)"
    "getNonScriptState (h_states (exCall w)) (groupStateName exLight) = Inr 2"
    by (simp_all add: n exCall_def exStates_find) (simp_all add: exLight_def exGroup_def stateGroupType_def GroupIDYellow_def)
  have on: "isOnScene (g_id exLight) Scene1 = SceneTrue"
    by (simp add: isOnScene_def exLight_def exGroup_def GroupIDYellow_def GroupIDHeating_def on_scene_defs scene_consts)
  have c: "\<exists>hs' reqs. groupCallScene exEnv L now (exCall w) exLight coJSON SAC_MANUAL Scene1 [] False = (hs', Inr reqs)"
    using g on
    by (simp add: groupCallScene_def Let_def itemCallScene_def guarded_def checkAccess_def checkStates_def
        sceneState_def scene_consts setOnStateByScene_def setGroupState_def exCall_def exLight_ids)
       (simp add: setStateAt_def setState_def exStates_def exState_def blankState_def Let_def exEnv_def
          State_Active_def State_Unknown_def)
  then obtain hs' reqs where r: "groupCallScene exEnv L now (exCall w) exLight coJSON SAC_MANUAL Scene1 [] False = (hs', Inr reqs)"
    by blast
  with on_state_follows_scene [OF g r] on
  show "\<exists>hs' reqs. groupCallScene exEnv L now (exCall w) exLight coJSON SAC_MANUAL Scene1 [] False = (hs', Inr reqs) \<and>
     groupGetState (h_states hs') exLight = Inr st_Active" by auto
qed

text \<open>
  A call that is refused has already changed the group: while fire or wind is active, an automatic call of
  a scene that is remembered throws and makes no request, but the last called scene of the group of
  shades is the refused scene, and the scene before it is pushed back.
\<close>

theorem refused_call_remembered:
  assumes "hasInstance E" and "g_applicationType g = AT_Blinds" and "cat \<noteq> SAC_MANUAL"
    and "getNonScriptState (h_states hs) ''fire'' = Inr f" and "getNonScriptState (h_states hs) ''wind'' = Inr w"
    and "isActive (h_states hs) f \<or> isActive (h_states hs) w"
    and "rememberScene (s mod 256)" and "s mod 256 \<noteq> g_lastCalledScene g" and "g_id g \<noteq> GroupIDControlTemperature"
  shows "\<exists>m g'. groupCallScene E L now hs g origin cat s token force =
      (hs\<lparr>h_apartment := putGroup (h_apartment hs) g'\<rparr>, Inl (GModel (SceneAccessDenied m))) \<and>
    g_lastCalledScene g' = s mod 256 \<and> g_lastButOneCalledScene g' = g_lastCalledScene g \<and> sameGroup g g'"
proof -
  have "g_lastCalledScene (rememberCall g s) = s mod 256 \<and>
      g_lastButOneCalledScene (rememberCall g s) = g_lastCalledScene g \<and> sameGroup g (rememberCall g s)"
    using assms(7-9) by (simp add: rememberCall_def setLastCalledScene_def sameGroup_def)
  moreover have "itemCallScene (hasInstance E) A (h_states hs) (TGroup (rememberCall g s)) origin cat s token force =
      Inl (SceneAccessDenied (protectionMessage (isActive (h_states hs) f) (isActive (h_states hs) w)))" for A
    using assms(1-6) by (simp add: itemCallScene_def guarded_def checkAccess_def checkProtection_spec)
  ultimately show ?thesis by (auto simp: groupCallScene_def Let_def)
qed

theorem refused_call_remembered_witness:
  "\<forall>L now (w :: 'r world). \<exists>m g'.
     groupCallScene exEnv L now (exCall w) ((exGroup 1 2)\<lparr>g_applicationType := AT_Blinds\<rparr>) coJSON SAC_TIMER Scene1 [] False =
       ((exCall w)\<lparr>h_apartment := putGroup (h_apartment (exCall w)) g'\<rparr>, Inl (GModel (SceneAccessDenied m))) \<and>
     g_lastCalledScene g' = Scene1"
proof (intro allI)
  fix L now and w :: "'r world"
  let ?g = "(exGroup 1 2)\<lparr>g_applicationType := AT_Blinds\<rparr>"
  have s: "h_states (exCall w) = exStates" by (simp add: exCall_def)
  have "\<exists>m g'. groupCallScene exEnv L now (exCall w) ?g coJSON SAC_TIMER Scene1 [] False =
      ((exCall w)\<lparr>h_apartment := putGroup (h_apartment (exCall w)) g'\<rparr>, Inl (GModel (SceneAccessDenied m))) \<and>
    g_lastCalledScene g' = Scene1 mod 256 \<and> g_lastButOneCalledScene g' = g_lastCalledScene ?g \<and> sameGroup ?g g'"
    by (rule refused_call_remembered [where f = 0 and w = "Suc 0"])
       (simp_all add: s exStates_find exEnv_def exGroup_def GroupIDControlTemperature_def rememberScene_def
          zonesToIgnore_def scene_consts)
  then show "\<exists>m g'. groupCallScene exEnv L now (exCall w) ?g coJSON SAC_TIMER Scene1 [] False =
      ((exCall w)\<lparr>h_apartment := putGroup (h_apartment (exCall w)) g'\<rparr>, Inl (GModel (SceneAccessDenied m))) \<and>
    g_lastCalledScene g' = Scene1" by (auto simp: scene_consts)
qed

end
