(* ===== verification/Registry_Laws.thy ===== *)
theory Registry_Laws
  imports State_Registry
begin

text \<open>
  What the updates of sensor states in \<^verbatim>\<open>src/src/model/apartment.cpp\<close> change, and which registries the
  creation and removal of states keep.
\<close>

section \<open>Sensor updates\<close>

text \<open>The value a sensor state takes for a measured value.\<close>

definition steppedState :: "StateSensor \<Rightarrow> u64 \<Rightarrow> u32" where
  "steppedState sn value =
     (let on = condition (m_activateComparator sn) (m_activateValue sn) value;
          off = condition (m_deactivateComparator sn) (m_deactivateValue sn) value;
          s = m_state (ss_state sn)
      in if on \<and> off then st_Unknown
         else if s = st_Active \<and> off then st_Inactive
         else if s \<noteq> st_Active \<and> on then st_Active
         else s)"

lemma setState_result:
  "setState E L now w st origin v = (w', st', r) \<Longrightarrow> m_name st' = m_name st \<and> m_state st' = v"
  by (auto simp: setState_def Let_def split: if_splits sum.splits)

lemma newValue_result:
  "newValue E L now w sn origin v = (w', sn', r) \<Longrightarrow>
     m_name (ss_state sn') = m_name (ss_state sn) \<and> m_state (ss_state sn') = steppedState sn v"
  by (auto simp: newValue_def steppedState_def getState_def Let_def split: if_splits prod.splits dest!: setState_result)

definition entryStep :: "string \<Rightarrow> u64 \<Rightarrow> stateEntry \<Rightarrow> u32" where
  "entryStep prefix v e =
     (case e of
        PlainState st \<Rightarrow> m_state st
      | SensorState sn \<Rightarrow> if beginsWith (m_name (ss_state sn)) prefix then steppedState sn v else m_state (ss_state sn))"

lemma updateSensorLoop_spec:
  "updateSensorLoop E L now prefix origin v w reg = (w', reg', None) \<Longrightarrow>
     length reg' = length reg \<and>
     (\<forall>j < length reg. m_name (stateOf (reg' ! j)) = m_name (stateOf (reg ! j)) \<and>
        m_state (stateOf (reg' ! j)) = entryStep prefix v (reg ! j))"
proof (induction reg arbitrary: w reg')
  case (Cons e es)
  show ?case
  proof (cases "beginsWith (m_name (stateOf e)) prefix")
    case True
    then obtain sn where e: "e = SensorState sn" using Cons.prems by (cases e) auto
    with True Cons.prems obtain w1 sn1 es1 where
      n: "newValue E L now w sn origin v = (w1, sn1, None)"
      and u: "updateSensorLoop E L now prefix origin v w1 es = (w', es1, None)" and r: "reg' = SensorState sn1 # es1"
      by (auto split: prod.splits option.splits)
    show ?thesis using Cons.IH [OF u] newValue_result [OF n] e r True
      by (auto simp: entryStep_def nth_Cons split: nat.splits)
  next
    case False
    then obtain es1 where u: "updateSensorLoop E L now prefix origin v w es = (w', es1, None)" and r: "reg' = e # es1"
      using Cons.prems by (auto split: prod.splits)
    show ?thesis using Cons.IH [OF u] r False
      by (auto simp: entryStep_def nth_Cons split: nat.splits stateEntry.splits)
  qed
qed simp

lemma print_nat_append: "0 < t \<Longrightarrow> k < 10 \<Longrightarrow> print_nat 10 (10 * t + k) = print_nat 10 t @ [digit_char k]"
  by (subst print_nat.simps) simp

lemma beginsWith_append: "beginsWith (p @ s) p"
  by (simp add: beginsWith_def substr_def)

text \<open>
  A value of a device for one sensor type reaches the states of other types: when an update for type
  \<open>t\<close> returns, every sensor state of the device for type \<open>10 t + k\<close> has taken the value as if it were of
  its own type, because the prefix of the names that is compared ends with the number of the type.
\<close>

theorem sensor_prefix_leak:
  assumes "0 < t" and "k < 10" and "10 * t + k < 2 ^ 31"
    and "j < length reg" and "reg ! j = SensorState sn"
    and "m_name (ss_state sn) =
      ''dev.'' @ dsuid2str d @ ''.type'' @ int32ToString (word_of_nat (10 * t + k)) @ ''.'' @ identifier"
    and "updateDeviceSensorStates E L now w reg d (word_of_nat t) v origin = (w', reg', None)"
  shows "m_state (stateOf (reg' ! j)) = steppedState sn v"
proof -
  let ?p = "''dev.'' @ dsuid2str d @ ''.type'' @ int32ToString (word_of_nat t)"
  have "int32ToString (word_of_nat (10 * t + k)) = int32ToString (word_of_nat t) @ [digit_char k]"
    using assms(1-3) by (simp only: int32ToString_small print_nat_append)
  then have n: "m_name (ss_state sn) = ?p @ (digit_char k # ''.'' @ identifier)"
    unfolding assms(6) by (simp only: append.simps append_assoc)
  have "beginsWith (m_name (ss_state sn)) ?p"
    unfolding n by (rule beginsWith_append)
  then show ?thesis
    using updateSensorLoop_spec [OF assms(7) [unfolded updateDeviceSensorStates_def]] assms(4, 5)
    by (simp only: entryStep_def stateEntry.case if_True)
qed

text \<open>An example: a state of the device 01 for the type 50, active above 0.\<close>

definition exSensorEnv :: senv where
  "exSensorEnv = \<lparr>hasInstance = False, ssRunning = False, savedPropsDirectory = [], canWrite = (\<lambda>_. False), DSUID_NULL = []\<rparr>"

definition exSensor :: StateSensor where
  "exSensor = \<lparr>ss_state = blankState exSensorEnv 0 0
       (''dev.'' @ dsuid2str [1] @ ''.type'' @ int32ToString (word_of_nat (10 * 5 + 0)) @ ''.'' @ ''x'')
       StateType_SensorDevice st_Inactive volatile,
     m_activateComparator = eComp_higher, m_deactivateComparator = eComp_lower,
     m_activateValue = 0, m_deactivateValue = 0\<rparr>"

lemma updateSensorLoop_single:
  "newValue E L now w sn origin v = (w1, sn1, None) \<Longrightarrow>
     \<exists>w' reg'. updateSensorLoop E L now prefix origin v w [SensorState sn] = (w', reg', None)"
  by simp

theorem sensor_prefix_leak_witness:
  "\<forall>L now (w :: 'r world). \<exists>w' reg'.
     updateDeviceSensorStates exSensorEnv L now w [SensorState exSensor] [1] (word_of_nat 5) 0x3FF0000000000000 0 = (w', reg', None) \<and>
     m_state (stateOf (reg' ! 0)) = st_Active"
proof (intro allI)
  fix L now and w :: "'r world"
  have n: "m_name (ss_state exSensor) =
      ''dev.'' @ dsuid2str [1] @ ''.type'' @ int32ToString (word_of_nat (10 * 5 + 0)) @ ''.'' @ ''x''"
    by (simp add: exSensor_def blankState_def)
  have "\<exists>w1 sn1. newValue exSensorEnv L now w exSensor 0 0x3FF0000000000000 = (w1, sn1, None)"
    by (simp add: newValue_def exSensor_def blankState_def getState_def setState_def Let_def)
  then obtain w1 sn1 where "newValue exSensorEnv L now w exSensor 0 0x3FF0000000000000 = (w1, sn1, None)" by blast
  then obtain w' reg' where u: "updateDeviceSensorStates exSensorEnv L now w [SensorState exSensor] [1] (word_of_nat 5) 0x3FF0000000000000 0
      = (w', reg', None)"
    using updateSensorLoop_single unfolding updateDeviceSensorStates_def by blast
  have "m_state (stateOf (reg' ! 0)) = steppedState exSensor 0x3FF0000000000000"
    by (rule sensor_prefix_leak [OF _ _ _ _ _ n u]) simp_all
  moreover have "steppedState exSensor 0x3FF0000000000000 = st_Active"
    by (simp add: steppedState_def exSensor_def blankState_def dbl_less_def dbl_nan_def dbl_ord_def
        State_Inactive_def State_Active_def)
  ultimately show "\<exists>w' reg'.
     updateDeviceSensorStates exSensorEnv L now w [SensorState exSensor] [1] (word_of_nat 5) 0x3FF0000000000000 0 = (w', reg', None) \<and>
     m_state (stateOf (reg' ! 0)) = st_Active" using u by auto
qed

end
