(* ===== verification/Event_Relay.thy ===== *)
theory Event_Relay
  imports Event_Interpreter
begin

text \<open>
  How events reach the clients of the web server: the relay plugin and its targets of
  \<^verbatim>\<open>src/src/eventinterpreterplugins.cpp\<close>, the collectors of \<^verbatim>\<open>src/src/eventcollector.cpp\<close>, the
  subscription sessions of \<^verbatim>\<open>src/src/eventsubscriptionsession.cpp\<close> and the subscriptions that a session
  of \<^verbatim>\<open>src/src/session.cpp\<close> holds.  A target is the number of a collector; the table of targets gives no
  target for an identifier that it does not have or that was reset to \<^verbatim>\<open>NULL\<close>.  Waiting for an event
  blocks a thread and is not modelled.
\<close>

section \<open>Data\<close>

definition relayName :: string where "relayName = ''internal_relay''"

record relay =
  r_interp :: interp
  r_targetMap :: "string \<Rightarrow> nat option"
  r_subscriptions :: "nat \<Rightarrow> subscription list"
  r_pending :: "nat \<Rightarrow> event list"
  r_nextTarget :: nat

record eventSession =
  es_id :: string
  es_collector :: "nat option"
  es_map :: "string \<rightharpoonup> string"

section \<open>The relay and its targets\<close>

definition registerSubscription :: "relay \<Rightarrow> nat \<Rightarrow> string \<Rightarrow> relay" where
  "registerSubscription rl t i = rl\<lparr>r_targetMap := (r_targetMap rl)(i := Some t)\<rparr>"

definition relayRemoveSubscription :: "relay \<Rightarrow> string \<Rightarrow> relay" where
  "relayRemoveSubscription rl i = rl\<lparr>r_targetMap := (r_targetMap rl)(i := None)\<rparr>"

definition targetSubscribeTo :: "relay \<Rightarrow> nat \<Rightarrow> subscription \<Rightarrow> perror + relay" where
  "targetSubscribeTo rl t s =
     (let rl = registerSubscription rl t (m_ID s);
          rl = rl\<lparr>r_subscriptions := (r_subscriptions rl)(t := r_subscriptions rl t @ [s])\<rparr>
      in case subscribe (r_interp rl) s of
           None \<Rightarrow> Inl AssertionFailed
         | Some I \<Rightarrow> Inr (rl\<lparr>r_interp := I\<rparr>))"

definition targetUnsubscribeFrom :: "relay \<Rightarrow> nat \<Rightarrow> string \<Rightarrow> relay" where
  "targetUnsubscribeFrom rl t i =
     (let rl = relayRemoveSubscription rl i;
          rl = rl\<lparr>r_interp := unsubscribeID (r_interp rl) i\<rparr>
      in rl\<lparr>r_subscriptions := (r_subscriptions rl)(t := removeSubscription (r_subscriptions rl t) i)\<rparr>)"

text \<open>The destructor of a target.\<close>

function destroyTarget :: "relay \<Rightarrow> nat \<Rightarrow> relay" where
  "destroyTarget rl t =
     (case r_subscriptions rl t of [] \<Rightarrow> rl | s # _ \<Rightarrow> destroyTarget (targetUnsubscribeFrom rl t (m_ID s)) t)"
  by pat_completeness auto
termination
  by (relation "measure (\<lambda>(rl, t). length (r_subscriptions rl t))")
     (auto simp: targetUnsubscribeFrom_def relayRemoveSubscription_def Let_def)

declare destroyTarget.simps [simp del]

section \<open>Collectors\<close>

definition newCollector :: "relay \<Rightarrow> relay \<times> nat" where
  "newCollector rl =
     (let t = r_nextTarget rl
      in (rl\<lparr>r_nextTarget := t + 1, r_subscriptions := (r_subscriptions rl)(t := []),
             r_pending := (r_pending rl)(t := [])\<rparr>, t))"

definition collectorHandleEvent :: "relay \<Rightarrow> nat \<Rightarrow> event \<Rightarrow> relay" where
  "collectorHandleEvent rl t e = rl\<lparr>r_pending := (r_pending rl)(t := r_pending rl t @ [e])\<rparr>"

definition relayHandleEvent :: "relay \<Rightarrow> subscription \<Rightarrow> event \<Rightarrow> relay" where
  "relayHandleEvent rl s e =
     (case r_targetMap rl (m_ID s) of None \<Rightarrow> rl | Some t \<Rightarrow> collectorHandleEvent rl t e)"

definition collectorHasEvent :: "relay \<Rightarrow> nat \<Rightarrow> bool" where
  "collectorHasEvent rl t \<longleftrightarrow> r_pending rl t \<noteq> []"

definition collectorPopEvent :: "relay \<Rightarrow> nat \<Rightarrow> perror + relay \<times> event" where
  "collectorPopEvent rl t =
     (case r_pending rl t of
        [] \<Rightarrow> Inl ReadPastEnd
      | e # es \<Rightarrow> Inr (rl\<lparr>r_pending := (r_pending rl)(t := es)\<rparr>, e))"

definition collectorSubscribeTo :: "relay \<Rightarrow> nat \<Rightarrow> string \<Rightarrow> perror + relay \<times> string" where
  "collectorSubscribeTo rl t eventName =
     (case newSubscription (r_interp rl) eventName relayName None of
        None \<Rightarrow> Inl Diverges
      | Some s \<Rightarrow> (case targetSubscribeTo rl t s of Inl e \<Rightarrow> Inl e | Inr rl \<Rightarrow> Inr (rl, m_ID s)))"

section \<open>Subscription sessions\<close>

definition newEventSession :: "string \<Rightarrow> eventSession" where
  "newEventSession i = \<lparr>es_id = i, es_collector = None, es_map = Map.empty\<rparr>"

definition createCollector :: "relay \<Rightarrow> eventSession \<Rightarrow> perror + relay \<times> eventSession \<times> nat" where
  "createCollector rl es =
     (case es_collector es of
        Some t \<Rightarrow> Inr (rl, es, t)
      | None \<Rightarrow>
          if getPluginByName (r_interp rl) relayName = None
          then Inl (StdRuntimeError ''Need EventInterpreterInternalRelay to be registered'')
          else (case newCollector rl of (rl, t) \<Rightarrow> Inr (rl, es\<lparr>es_collector := Some t\<rparr>, t)))"

definition esUnsubscribe :: "relay \<Rightarrow> eventSession \<Rightarrow> string \<Rightarrow> relay \<times> eventSession \<times> perror option" where
  "esUnsubscribe rl es eventName =
     (case createCollector rl es of
        Inl e \<Rightarrow> (rl, es, Some e)
      | Inr (rl, es, t) \<Rightarrow>
          (case es_map es eventName of
             None \<Rightarrow> (rl, es, Some (StdRuntimeError (''Event '' @ eventName @ '' is not subscribed in this session'')))
           | Some i \<Rightarrow> (targetUnsubscribeFrom rl t i, es\<lparr>es_map := (es_map es)(eventName := None)\<rparr>, None)))"

definition esSubscribe :: "relay \<Rightarrow> eventSession \<Rightarrow> string \<Rightarrow> relay \<times> eventSession \<times> perror option" where
  "esSubscribe rl es eventName =
     (case createCollector rl es of
        Inl e \<Rightarrow> (rl, es, Some e)
      | Inr (rl, es, t) \<Rightarrow>
          (case esUnsubscribe rl es eventName of
             (rl, es, err) \<Rightarrow>
               if (case err of None \<Rightarrow> True | Some e \<Rightarrow> isRuntimeError e) then
                 (case collectorSubscribeTo rl t eventName of
                    Inl e \<Rightarrow> (rl, es, Some e)
                  | Inr (rl, i) \<Rightarrow> (rl, es\<lparr>es_map := (es_map es)(eventName \<mapsto> i)\<rparr>, None))
               else (rl, es, err)))"

definition esHasEvent :: "relay \<Rightarrow> eventSession \<Rightarrow> perror + relay \<times> eventSession \<times> bool" where
  "esHasEvent rl es =
     (case createCollector rl es of
        Inl e \<Rightarrow> Inl e | Inr (rl, es, t) \<Rightarrow> Inr (rl, es, collectorHasEvent rl t))"

definition esPopEvent :: "relay \<Rightarrow> eventSession \<Rightarrow> perror + relay \<times> eventSession \<times> event" where
  "esPopEvent rl es =
     (case createCollector rl es of
        Inl e \<Rightarrow> Inl e
      | Inr (rl, es, t) \<Rightarrow>
          (case collectorPopEvent rl t of Inl e \<Rightarrow> Inl e | Inr (rl, e) \<Rightarrow> Inr (rl, es, e)))"

text \<open>The last owner of a subscription session destroys its collector.\<close>

definition destroyEventSession :: "relay \<Rightarrow> eventSession \<Rightarrow> relay" where
  "destroyEventSession rl es = (case es_collector es of None \<Rightarrow> rl | Some t \<Rightarrow> destroyTarget rl t)"

section \<open>The subscriptions of a session\<close>

definition getEventSubscription :: "eventSession list \<Rightarrow> string \<Rightarrow> perror + nat" where
  "getEventSubscription subs token =
     (case find_index (\<lambda>es. es_id es = token) subs of
        None \<Rightarrow> Inl (StdRuntimeError ('' Token '' @ token @ '' not found!''))
      | Some k \<Rightarrow> Inr k)"

definition createEventSubscription :: "eventSession list \<Rightarrow> string \<Rightarrow> eventSession list \<times> nat" where
  "createEventSubscription subs token =
     (case find_index (\<lambda>es. es_id es = token) subs of
        Some k \<Rightarrow> (subs, k)
      | None \<Rightarrow> (subs @ [newEventSession token], length subs))"

definition subscribeEventSubscription ::
    "relay \<Rightarrow> eventSession list \<Rightarrow> string \<Rightarrow> string \<Rightarrow> relay \<times> eventSession list \<times> perror option" where
  "subscribeEventSubscription rl subs token name =
     (case createEventSubscription subs token of
        (subs, k) \<Rightarrow> (case esSubscribe rl (subs ! k) name of (rl, es, err) \<Rightarrow> (rl, subs[k := es], err)))"

text \<open>
  The elements are compared by the identifiers of what they point to, so comparing with a null pointer
  fails the assertion of the pointer.
\<close>

definition deleteEventSubscription ::
    "relay \<Rightarrow> eventSession list \<Rightarrow> eventSession option \<Rightarrow> relay \<times> eventSession list \<times> perror option" where
  "deleteEventSubscription rl subs target =
     (case target of
        None \<Rightarrow> (rl, subs, if subs = [] then None else Some NullDeref)
      | Some es \<Rightarrow>
          (foldl destroyEventSession rl (filter (\<lambda>x. es_id x = es_id es) subs),
           filter (\<lambda>x. es_id x \<noteq> es_id es) subs, None))"

definition unsubscribeEventSubscription ::
    "relay \<Rightarrow> eventSession list \<Rightarrow> string \<Rightarrow> string \<Rightarrow> relay \<times> eventSession list \<times> perror option" where
  "unsubscribeEventSubscription rl subs token name =
     (case getEventSubscription subs token of
        Inl _ \<Rightarrow> deleteEventSubscription rl subs None
      | Inr k \<Rightarrow>
          (case esUnsubscribe rl (subs ! k) name of
             (rl, es, _) \<Rightarrow> deleteEventSubscription rl (subs[k := es]) (Some es)))"

end
