(* ===== verification/Relay_Laws.thy ===== *)
theory Relay_Laws
  imports Event_Relay
begin

text \<open>
  The subscriptions of the relay stay consistent: the table of targets, the lists of the targets, the
  interpreter and the maps of the subscription sessions name the same subscriptions, so that an event
  reaches a client exactly once.
\<close>

section \<open>The invariant\<close>

definition relay_ok :: "relay \<Rightarrow> bool" where
  "relay_ok rl \<longleftrightarrow> subs_ok (r_interp rl) \<and>
     (\<forall>t. distinct (map m_ID (r_subscriptions rl t))) \<and>
     (\<forall>t. \<forall>s \<in> set (r_subscriptions rl t). r_targetMap rl (m_ID s) = Some t \<and>
        s \<in> set (m_Subscriptions (r_interp rl)) \<and> m_HandlerName s = relayName \<and> m_Filter s = []) \<and>
     (\<forall>i t. r_targetMap rl i = Some t \<longrightarrow> (\<exists>s \<in> set (r_subscriptions rl t). m_ID s = i)) \<and>
     (\<forall>t \<ge> r_nextTarget rl. r_subscriptions rl t = [])"

definition es_ok :: "relay \<Rightarrow> eventSession \<Rightarrow> bool" where
  "es_ok rl es \<longleftrightarrow> (case es_collector es of
     None \<Rightarrow> es_map es = Map.empty
   | Some t \<Rightarrow> t < r_nextTarget rl \<and>
       (\<forall>n i. es_map es n = Some i \<longleftrightarrow> (\<exists>s \<in> set (r_subscriptions rl t). m_SubEventName s = n \<and> m_ID s = i)))"

definition session_ok :: "relay \<Rightarrow> eventSession list \<Rightarrow> bool" where
  "session_ok rl subs \<longleftrightarrow> relay_ok rl \<and> distinct (map es_id subs) \<and> (\<forall>es \<in> set subs. es_ok rl es) \<and>
     (\<forall>j k t. j < length subs \<longrightarrow> k < length subs \<longrightarrow> es_collector (subs ! j) = Some t \<longrightarrow>
        es_collector (subs ! k) = Some t \<longrightarrow> j = k)"

lemma relay_okD:
  assumes "relay_ok rl"
  shows "subs_ok (r_interp rl)" "distinct (map m_ID (r_subscriptions rl t))"
    "s \<in> set (r_subscriptions rl t) \<Longrightarrow> r_targetMap rl (m_ID s) = Some t"
    "s \<in> set (r_subscriptions rl t) \<Longrightarrow> s \<in> set (m_Subscriptions (r_interp rl))"
    "s \<in> set (r_subscriptions rl t) \<Longrightarrow> m_HandlerName s = relayName"
    "s \<in> set (r_subscriptions rl t) \<Longrightarrow> m_Filter s = []"
    "r_targetMap rl i = Some t \<Longrightarrow> \<exists>s \<in> set (r_subscriptions rl t). m_ID s = i"
    "t \<ge> r_nextTarget rl \<Longrightarrow> r_subscriptions rl t = []"
  using assms unfolding relay_ok_def by (elim conjE; blast)+

text \<open>Only the target itself changes; \<open>frame\<close> says what stays.\<close>

definition frame :: "relay \<Rightarrow> nat \<Rightarrow> relay \<Rightarrow> bool" where
  "frame rl t rl' \<longleftrightarrow> r_nextTarget rl' = r_nextTarget rl \<and>
     (\<forall>t'. t' \<noteq> t \<longrightarrow> r_subscriptions rl' t' = r_subscriptions rl t') \<and>
     m_Plugins (r_interp rl') = m_Plugins (r_interp rl) \<and> r_pending rl' = r_pending rl"

lemma frame_refl [simp]: "frame rl t rl"
  by (simp add: frame_def)

lemma frame_trans: "frame a t b \<Longrightarrow> frame b t c \<Longrightarrow> frame a t c"
  by (simp add: frame_def)

lemma subscribe_spec:
  assumes ok: "relay_ok rl" and t: "t < r_nextTarget rl" and len: "length (m_Subscriptions (r_interp rl)) < 2 ^ 31 - 1"
  shows "\<exists>rl' s. collectorSubscribeTo rl t n = Inr (rl', m_ID s) \<and> relay_ok rl' \<and> frame rl t rl' \<and>
    m_SubEventName s = n \<and> m_ID s \<notin> m_ID ` set (r_subscriptions rl t) \<and>
    r_subscriptions rl' t = r_subscriptions rl t @ [s] \<and>
    m_Subscriptions (r_interp rl') = m_Subscriptions (r_interp rl) @ [s]"
proof -
  from newSubscription_fresh [OF len, of n relayName None] obtain s where
    s: "newSubscription (r_interp rl) n relayName None = Some s" "subscriptionByID (r_interp rl) (m_ID s) = None"
      "m_SubEventName s = n" "m_HandlerName s = relayName" by blast
  have f: "m_Filter s = []" using s(1) by (auto simp: newSubscription_def)
  have new: "m_ID s \<notin> m_ID ` set (m_Subscriptions (r_interp rl))" using s(2) by (simp add: subscriptionByID_None)
  then have fresh: "m_ID s \<notin> m_ID ` set (r_subscriptions rl t')" for t' using relay_okD(4) [OF ok] by blast
  define I where "I = (r_interp rl)\<lparr>m_Subscriptions := m_Subscriptions (r_interp rl) @ [s]\<rparr>"
  have sub: "subscribe (r_interp rl) s = Some I" using s(2) by (simp add: subscribe_def I_def)
  define rl' where "rl' = rl\<lparr>r_targetMap := (r_targetMap rl)(m_ID s := Some t),
    r_subscriptions := (r_subscriptions rl)(t := r_subscriptions rl t @ [s]), r_interp := I\<rparr>"
  have c: "collectorSubscribeTo rl t n = Inr (rl', m_ID s)"
    by (simp add: collectorSubscribeTo_def s targetSubscribeTo_def registerSubscription_def Let_def sub rl'_def)
  have "relay_ok rl'"
    unfolding relay_ok_def
  proof (intro conjI allI impI ballI)
    show "subs_ok (r_interp rl')" using subscribe_ok [OF relay_okD(1) [OF ok] sub] by (simp add: rl'_def)
    show "distinct (map m_ID (r_subscriptions rl' t'))" for t'
      using relay_okD(2) [OF ok] fresh by (auto simp: rl'_def)
    show "r_targetMap rl' (m_ID x) = Some t'" if "x \<in> set (r_subscriptions rl' t')" for t' x
      using that fresh [of t'] relay_okD(3) [OF ok] by (auto simp: rl'_def image_iff split: if_splits)
    show "x \<in> set (m_Subscriptions (r_interp rl'))" if "x \<in> set (r_subscriptions rl' t')" for t' x
      using that relay_okD(4) [OF ok] by (auto simp: rl'_def I_def split: if_splits)
    show "m_HandlerName x = relayName" if "x \<in> set (r_subscriptions rl' t')" for t' x
      using that relay_okD(5) [OF ok] s(4) by (auto simp: rl'_def split: if_splits)
    show "m_Filter x = []" if "x \<in> set (r_subscriptions rl' t')" for t' x
      using that relay_okD(6) [OF ok] f by (auto simp: rl'_def split: if_splits)
    show "\<exists>x \<in> set (r_subscriptions rl' t'). m_ID x = i" if "r_targetMap rl' i = Some t'" for i t'
      using that relay_okD(7) [OF ok] by (fastforce simp: rl'_def split: if_splits)
    show "r_subscriptions rl' t' = []" if "r_nextTarget rl' \<le> t'" for t'
      using that t relay_okD(8) [OF ok] by (auto simp: rl'_def)
  qed
  moreover have "frame rl t rl'" by (auto simp: frame_def rl'_def I_def)
  ultimately show ?thesis using c s(3) fresh by (auto simp: rl'_def I_def)
qed

lemma unsubscribe_spec:
  assumes ok: "relay_ok rl" and i: "i \<in> m_ID ` set (r_subscriptions rl t)"
  shows "relay_ok (targetUnsubscribeFrom rl t i) \<and> frame rl t (targetUnsubscribeFrom rl t i) \<and>
    r_subscriptions (targetUnsubscribeFrom rl t i) t = filter (\<lambda>s. m_ID s \<noteq> i) (r_subscriptions rl t) \<and>
    m_Subscriptions (r_interp (targetUnsubscribeFrom rl t i)) =
      filter (\<lambda>s. m_ID s \<noteq> i) (m_Subscriptions (r_interp rl))"
proof -
  have d: "distinct (map m_ID (m_Subscriptions (r_interp rl)))" using relay_okD(1) [OF ok] by (simp add: subs_ok_def)
  note r = removeSubscription_filter [OF relay_okD(2) [OF ok], of t i] removeSubscription_filter [OF d, of i]
  let ?rl = "targetUnsubscribeFrom rl t i"
  have u: "?rl = rl\<lparr>r_targetMap := (r_targetMap rl)(i := None),
      r_interp := (r_interp rl)\<lparr>m_Subscriptions := filter (\<lambda>s. m_ID s \<noteq> i) (m_Subscriptions (r_interp rl))\<rparr>,
      r_subscriptions := (r_subscriptions rl)(t := filter (\<lambda>s. m_ID s \<noteq> i) (r_subscriptions rl t))\<rparr>"
    by (simp add: targetUnsubscribeFrom_def relayRemoveSubscription_def unsubscribeID_def Let_def r)
  have other: "m_ID x \<noteq> i" if "x \<in> set (r_subscriptions rl t')" "t' \<noteq> t" for x t'
    using that i relay_okD(3) [OF ok that(1)] relay_okD(3) [OF ok, of _ t] by (auto simp: image_iff)
  have "relay_ok ?rl"
    unfolding relay_ok_def u
  proof (intro conjI allI impI ballI, goal_cases)
    case 1 show ?case using d by (simp add: subs_ok_def distinct_map_filter)
  next
    case (2 t') show ?case using relay_okD(2) [OF ok] by (simp add: distinct_map_filter)
  next
    case (3 t' x) then show ?case using relay_okD(3) [OF ok] other by (auto split: if_splits)
  next
    case (4 t' x) then show ?case using relay_okD(4) [OF ok] other by (auto split: if_splits)
  next
    case (5 t' x) then show ?case using relay_okD(5) [OF ok] by (auto split: if_splits)
  next
    case (6 t' x) then show ?case using relay_okD(6) [OF ok] by (auto split: if_splits)
  next
    case (7 j t') then show ?case using relay_okD(7) [OF ok] by (fastforce split: if_splits)
  next
    case (8 t') then show ?case using relay_okD(8) [OF ok] by simp
  qed
  then show ?thesis by (simp add: u frame_def)
qed

lemma destroy_spec:
  "relay_ok rl \<Longrightarrow> relay_ok (destroyTarget rl t) \<and> frame rl t (destroyTarget rl t) \<and>
     r_subscriptions (destroyTarget rl t) t = [] \<and>
     m_Subscriptions (r_interp (destroyTarget rl t)) =
       filter (\<lambda>s. m_ID s \<notin> m_ID ` set (r_subscriptions rl t)) (m_Subscriptions (r_interp rl))"
proof (induction rl t rule: destroyTarget.induct)
  case (1 rl t)
  show ?case
  proof (cases "r_subscriptions rl t")
    case Nil
    then show ?thesis using 1 by (simp add: destroyTarget.simps [of rl t])
  next
    case (Cons s ss)
    let ?rl = "targetUnsubscribeFrom rl t (m_ID s)"
    have e: "destroyTarget rl t = destroyTarget ?rl t" using Cons by (simp add: destroyTarget.simps [of rl t])
    have u: "relay_ok ?rl" "frame rl t ?rl"
      "r_subscriptions ?rl t = filter (\<lambda>x. m_ID x \<noteq> m_ID s) (r_subscriptions rl t)"
      "m_Subscriptions (r_interp ?rl) = filter (\<lambda>x. m_ID x \<noteq> m_ID s) (m_Subscriptions (r_interp rl))"
      using unsubscribe_spec [OF 1(2), of "m_ID s" t] Cons by simp_all
    have ids: "m_ID ` set (r_subscriptions rl t) = insert (m_ID s) (m_ID ` set (r_subscriptions ?rl t))"
      using Cons by (auto simp: u(3))
    have "filter (\<lambda>x. m_ID x \<notin> m_ID ` set (r_subscriptions ?rl t)) (m_Subscriptions (r_interp ?rl)) =
        filter (\<lambda>x. m_ID x \<notin> m_ID ` set (r_subscriptions rl t)) (m_Subscriptions (r_interp rl))"
      unfolding u(4) ids by (auto intro: filter_cong)
    then show ?thesis using 1(1) [OF Cons u(1)] u(2) frame_trans unfolding e by auto
  qed
qed

section \<open>Subscription sessions\<close>

definition relaying :: "relay \<Rightarrow> bool" where
  "relaying rl \<longleftrightarrow> relayName \<in> set (m_Plugins (r_interp rl))"

text \<open>An operation on a subscription session changes its own collector only.\<close>

definition relayKeeps :: "relay \<Rightarrow> eventSession \<Rightarrow> relay \<Rightarrow> eventSession \<Rightarrow> bool" where
  "relayKeeps rl es rl' es' \<longleftrightarrow> relay_ok rl' \<and> es_ok rl' es' \<and> es_id es' = es_id es \<and>
     r_nextTarget rl \<le> r_nextTarget rl' \<and> m_Plugins (r_interp rl') = m_Plugins (r_interp rl) \<and>
     (\<forall>t < r_nextTarget rl. es_collector es \<noteq> Some t \<longrightarrow> r_subscriptions rl' t = r_subscriptions rl t) \<and>
     (case es_collector es of
        Some t \<Rightarrow> es_collector es' = Some t
      | None \<Rightarrow> \<forall>t. es_collector es' = Some t \<longrightarrow> r_nextTarget rl \<le> t)"

lemma newCollector_ok:
  assumes "relay_ok rl" and "newCollector rl = (rl', t)"
  shows "relay_ok rl' \<and> t = r_nextTarget rl \<and> r_nextTarget rl' = t + 1 \<and> r_subscriptions rl' = r_subscriptions rl \<and>
    r_interp rl' = r_interp rl"
proof -
  have "r_subscriptions rl (r_nextTarget rl) = []" using relay_okD(8) [OF assms(1)] by simp
  then have "(r_subscriptions rl)(r_nextTarget rl := []) = r_subscriptions rl" by auto
  then show ?thesis using assms by (auto simp: newCollector_def Let_def relay_ok_def)
qed

lemma createCollector_spec:
  assumes ok: "relay_ok rl" "es_ok rl es" and "relaying rl"
  shows "\<exists>rl' es' t. createCollector rl es = Inr (rl', es', t) \<and> relayKeeps rl es rl' es' \<and>
    es_collector es' = Some t \<and> es_map es' = es_map es \<and> r_interp rl' = r_interp rl"
proof (cases "es_collector es")
  case (Some t)
  then show ?thesis using ok by (auto simp: createCollector_def relayKeeps_def)
next
  case None
  obtain rl' t where n: "newCollector rl = (rl', t)" by fastforce
  note c = newCollector_ok [OF ok(1) n]
  have "es_ok rl' (es\<lparr>es_collector := Some t\<rparr>)"
    using ok(2) None c relay_okD(8) [OF ok(1)] by (auto simp: es_ok_def)
  moreover have "createCollector rl es = Inr (rl', es\<lparr>es_collector := Some t\<rparr>, t)"
    using None n assms(3) by (simp add: createCollector_def getPluginByName_Some relaying_def)
  ultimately show ?thesis using c None by (auto simp: relayKeeps_def)
qed

lemma relayKeeps_trans:
  assumes "relayKeeps a x b y" and "relayKeeps b y c z"
  shows "relayKeeps a x c z"
proof -
  have "es_collector y = Some t \<Longrightarrow> es_collector z = Some t" for t
    using assms(2) by (auto simp: relayKeeps_def)
  moreover have "r_subscriptions c t = r_subscriptions a t" if "t < r_nextTarget a" "es_collector x \<noteq> Some t" for t
  proof -
    have "es_collector y \<noteq> Some t" using that assms(1) by (auto simp: relayKeeps_def split: option.splits)
    then show ?thesis using that assms by (simp add: relayKeeps_def)
  qed
  ultimately show ?thesis using assms by (auto simp: relayKeeps_def split: option.splits)
qed

text \<open>A change of the collector that the map of the session follows.\<close>

lemma relayKeeps_frame:
  assumes "relay_ok rl'" and "frame rl t rl'" and "es_collector es = Some t" and "t < r_nextTarget rl"
    and "\<forall>n i. m n = Some i \<longleftrightarrow> (\<exists>s \<in> set (r_subscriptions rl' t). m_SubEventName s = n \<and> m_ID s = i)"
  shows "relayKeeps rl es rl' (es\<lparr>es_map := m\<rparr>)"
  using assms by (simp add: relayKeeps_def es_ok_def frame_def)

lemma esUnsubscribe_spec:
  assumes ok: "relay_ok rl" "es_ok rl es" and p: "relaying rl"
  shows "\<exists>rl' es' err. esUnsubscribe rl es n = (rl', es', err) \<and> relayKeeps rl es rl' es' \<and>
    es_map es' = (es_map es)(n := None) \<and> es_collector es' \<noteq> None \<and>
    (case err of None \<Rightarrow> True | Some e \<Rightarrow> isRuntimeError e) \<and>
    length (m_Subscriptions (r_interp rl')) \<le> length (m_Subscriptions (r_interp rl))"
proof -
  from createCollector_spec [OF assms] obtain rl1 es1 t where
    c: "createCollector rl es = Inr (rl1, es1, t)" "relayKeeps rl es rl1 es1" "es_collector es1 = Some t"
      "es_map es1 = es_map es" "r_interp rl1 = r_interp rl" by blast
  then have e1: "relay_ok rl1" "es_ok rl1 es1" by (simp_all add: relayKeeps_def)
  show ?thesis
  proof (cases "es_map es n")
    case None
    then have "es_map es = (es_map es)(n := None)" by auto
    then show ?thesis using None c by (auto simp: esUnsubscribe_def)
  next
    case (Some i)
    from e1(2) c(3, 4) have m: "t < r_nextTarget rl1"
      "\<forall>n i. es_map es n = Some i \<longleftrightarrow> (\<exists>s \<in> set (r_subscriptions rl1 t). m_SubEventName s = n \<and> m_ID s = i)"
      by (auto simp: es_ok_def)
    then obtain s where s: "s \<in> set (r_subscriptions rl1 t)" "m_SubEventName s = n" "m_ID s = i" using Some by blast
    then have i: "i \<in> m_ID ` set (r_subscriptions rl1 t)" by auto
    note u = unsubscribe_spec [OF e1(1) i]
    have uniq: "x = s" if "x \<in> set (r_subscriptions rl1 t)" "m_ID x = i" for x
      using relay_okD(2) [OF e1(1), of t] that s by (simp add: distinct_map inj_on_def)
    have "relayKeeps rl1 es1 (targetUnsubscribeFrom rl1 t i) (es1\<lparr>es_map := (es_map es)(n := None)\<rparr>)"
    proof (rule relayKeeps_frame [OF _ _ c(3) m(1)])
      show "\<forall>n' i'. ((es_map es)(n := None)) n' = Some i' \<longleftrightarrow>
          (\<exists>s \<in> set (r_subscriptions (targetUnsubscribeFrom rl1 t i) t). m_SubEventName s = n' \<and> m_ID s = i')"
      proof (intro allI)
        fix n' i'
        have "m_ID x = i" if "x \<in> set (r_subscriptions rl1 t)" "m_SubEventName x = n" for x
        proof -
          have "es_map es n = Some (m_ID x)" using m(2) that by blast
          then show ?thesis using Some by simp
        qed
        moreover have "m_SubEventName x = n" if "x \<in> set (r_subscriptions rl1 t)" "m_ID x = i" for x
          using uniq [OF that] s(2) by simp
        moreover have "r_subscriptions (targetUnsubscribeFrom rl1 t i) t = filter (\<lambda>s. m_ID s \<noteq> i) (r_subscriptions rl1 t)"
          using u by simp
        ultimately show "((es_map es)(n := None)) n' = Some i' \<longleftrightarrow>
            (\<exists>s \<in> set (r_subscriptions (targetUnsubscribeFrom rl1 t i) t). m_SubEventName s = n' \<and> m_ID s = i')"
          using m(2) by (cases "n' = n") auto
      qed
    qed (use u in simp_all)
    then have "relayKeeps rl es (targetUnsubscribeFrom rl1 t i) (es1\<lparr>es_map := (es_map es)(n := None)\<rparr>)"
      using c(2) relayKeeps_trans by blast
    moreover have "esUnsubscribe rl es n =
        (targetUnsubscribeFrom rl1 t i, es1\<lparr>es_map := (es_map es)(n := None)\<rparr>, None)"
      using c(1, 4) Some by (simp add: esUnsubscribe_def)
    moreover have "length (m_Subscriptions (r_interp (targetUnsubscribeFrom rl1 t i))) \<le> length (m_Subscriptions (r_interp rl))"
      using u by (simp add: c(5))
    ultimately show ?thesis using c(3)
      by (intro exI [of _ "targetUnsubscribeFrom rl1 t i"] exI [of _ "es1\<lparr>es_map := (es_map es)(n := None)\<rparr>"] exI [of _ None]) simp
  qed
qed

lemma esSubscribe_spec:
  assumes ok: "relay_ok rl" "es_ok rl es" and p: "relaying rl"
    and len: "length (m_Subscriptions (r_interp rl)) < 2 ^ 31 - 1"
  shows "\<exists>rl' es'. esSubscribe rl es n = (rl', es', None) \<and> relayKeeps rl es rl' es' \<and>
    dom (es_map es') = insert n (dom (es_map es)) \<and> es_collector es' \<noteq> None"
proof -
  from createCollector_spec [OF ok p] obtain rl1 es1 t where
    c: "createCollector rl es = Inr (rl1, es1, t)" "relayKeeps rl es rl1 es1" "es_collector es1 = Some t"
      "es_map es1 = es_map es" "r_interp rl1 = r_interp rl" by blast
  then have e1: "relay_ok rl1" "es_ok rl1 es1" "relaying rl1" using p by (simp_all add: relayKeeps_def relaying_def)
  from esUnsubscribe_spec [OF this, of n] obtain rl2 es2 err where
    u: "esUnsubscribe rl1 es1 n = (rl2, es2, err)" "relayKeeps rl1 es1 rl2 es2" "es_map es2 = (es_map es1)(n := None)"
      "case err of None \<Rightarrow> True | Some e \<Rightarrow> isRuntimeError e"
      "length (m_Subscriptions (r_interp rl2)) \<le> length (m_Subscriptions (r_interp rl1))" by blast
  then have e2: "relay_ok rl2" "es_ok rl2 es2" "es_collector es2 = Some t" using c(3) by (simp_all add: relayKeeps_def)
  from e2(2, 3) have m: "t < r_nextTarget rl2"
    "\<forall>n i. es_map es2 n = Some i \<longleftrightarrow> (\<exists>s \<in> set (r_subscriptions rl2 t). m_SubEventName s = n \<and> m_ID s = i)"
    by (auto simp: es_ok_def)
  have "length (m_Subscriptions (r_interp rl2)) < 2 ^ 31 - 1" using u(5) c(5) len by simp
  from subscribe_spec [OF e2(1) m(1) this, of n] obtain rl3 s where
    s: "collectorSubscribeTo rl2 t n = Inr (rl3, m_ID s)" "relay_ok rl3" "frame rl2 t rl3" "m_SubEventName s = n"
      "r_subscriptions rl3 t = r_subscriptions rl2 t @ [s]" by blast
  have none: "\<not> (\<exists>x \<in> set (r_subscriptions rl2 t). m_SubEventName x = n)" using m(2) u(3) by (metis fun_upd_same option.distinct(1))
  have "relayKeeps rl2 es2 rl3 (es2\<lparr>es_map := (es_map es2)(n \<mapsto> m_ID s)\<rparr>)"
  proof (rule relayKeeps_frame [OF s(2, 3) e2(3) m(1)])
    show "\<forall>n' i. ((es_map es2)(n \<mapsto> m_ID s)) n' = Some i \<longleftrightarrow>
        (\<exists>s \<in> set (r_subscriptions rl3 t). m_SubEventName s = n' \<and> m_ID s = i)"
      using m(2) none s(4) by (auto simp: s(5))
  qed
  moreover have "esSubscribe rl es n = (rl3, es2\<lparr>es_map := (es_map es2)(n \<mapsto> m_ID s)\<rparr>, None)"
    using c(1) u(1, 4) s(1) by (simp add: esSubscribe_def)
  moreover have "dom ((es_map es2)(n \<mapsto> m_ID s)) = insert n (dom (es_map es))" by (auto simp: u(3) c(4))
  ultimately show ?thesis
    using relayKeeps_trans [OF relayKeeps_trans [OF c(2) u(2)]] e2(3)
    by (intro exI [of _ rl3] exI [of _ "es2\<lparr>es_map := (es_map es2)(n \<mapsto> m_ID s)\<rparr>"]) simp
qed

lemma session_update:
  assumes s: "session_ok rl subs" and k: "k < length subs" and ke: "relayKeeps rl (subs ! k) rl' es'"
  shows "session_ok rl' (subs[k := es'])"
proof -
  let ?c = "\<lambda>j. es_collector (subs ! j)"
  have e: "es_ok rl (subs ! j)" if "j < length subs" for j using s that by (simp add: session_ok_def)
  have low: "t < r_nextTarget rl" if "j < length subs" "?c j = Some t" for j t
    using e [OF that(1)] that(2) by (simp add: es_ok_def)
  have dist: "?c j \<noteq> Some t" if "j < length subs" "j \<noteq> k" "?c k = Some t" for j t
    using s that k by (auto simp: session_ok_def)
  have new: "es_collector es' \<noteq> ?c j" if "j < length subs" "j \<noteq> k" "?c j = Some t" for j t
    using ke that dist [OF that(1, 2)] low [OF that(1, 3)] by (auto simp: relayKeeps_def split: option.splits)
  have other: "es_ok rl' (subs ! j)" if "j < length subs" "j \<noteq> k" for j
  proof (cases "?c j")
    case None
    then show ?thesis using e [OF that(1)] by (simp add: es_ok_def)
  next
    case (Some t)
    have "?c k \<noteq> Some t" using dist [OF that] Some by auto
    then have "r_subscriptions rl' t = r_subscriptions rl t" "r_nextTarget rl \<le> r_nextTarget rl'"
      using ke low [OF that(1) Some] by (auto simp: relayKeeps_def)
    then show ?thesis using Some e [OF that(1)] by (auto simp: es_ok_def)
  qed
  have "map es_id (subs[k := es']) = map es_id subs"
    using ke k by (simp add: relayKeeps_def map_update) (metis list_update_id map_update)
  moreover have "\<forall>es \<in> set (subs[k := es']). es_ok rl' es"
    using ke other k by (auto simp: in_set_conv_nth nth_list_update relayKeeps_def)
  moreover have "j = j'" if "j < length subs" "j' < length subs" "es_collector (subs[k := es'] ! j) = Some t"
      "es_collector (subs[k := es'] ! j') = Some t" for j j' t
    using that new [of j t] new [of j' t] s k by (cases "j = k"; cases "j' = k") (auto simp: session_ok_def)
  ultimately show ?thesis using s ke by (simp add: session_ok_def relayKeeps_def)
qed

lemma session_append:
  "session_ok rl subs \<Longrightarrow> token \<notin> es_id ` set subs \<Longrightarrow> session_ok rl (subs @ [newEventSession token])"
  by (auto simp: session_ok_def newEventSession_def es_ok_def nth_append split: if_splits)

section \<open>Properties\<close>

text \<open>
  Subscribing keeps the subscriptions of a session consistent: with the relay plugin registered and room
  for an identifier, subscribing to an event under a token always succeeds, afterwards the subscription
  session of the token has the event beside those it had before, and the other subscription sessions are
  what they were.
\<close>

theorem subscribing_keeps:
  assumes "session_ok rl subs" and "relaying rl" and "length (m_Subscriptions (r_interp rl)) < 2 ^ 31 - 1"
  shows "\<exists>rl' subs' k. subscribeEventSubscription rl subs token name = (rl', subs', None) \<and>
    session_ok rl' subs' \<and> k < length subs' \<and> es_id (subs' ! k) = token \<and>
    dom (es_map (subs' ! k)) = insert name
      (if k < length subs then dom (es_map (subs ! k)) else {}) \<and>
    (\<forall>j < length subs. j \<noteq> k \<longrightarrow> subs' ! j = subs ! j)"
proof -
  obtain subs1 k where c: "createEventSubscription subs token = (subs1, k)" by fastforce
  have s: "session_ok rl subs1" "k < length subs1" "es_id (subs1 ! k) = token"
      "\<forall>j < length subs. subs1 ! j = subs ! j" "k < length subs \<or> k = length subs \<and> es_map (subs1 ! k) = Map.empty"
    using c assms(1) session_append [OF assms(1), of token]
    by (auto simp: createEventSubscription_def find_index_None_iff nth_append newEventSession_def split: option.splits
        dest: find_index_Some_bound find_index_Some_nth)
  then have "relay_ok rl" "es_ok rl (subs1 ! k)" by (auto simp: session_ok_def)
  from esSubscribe_spec [OF this assms(2, 3), of name] obtain rl' es' where
    e: "esSubscribe rl (subs1 ! k) name = (rl', es', None)" "relayKeeps rl (subs1 ! k) rl' es'"
      "dom (es_map es') = insert name (dom (es_map (subs1 ! k)))" by blast
  have "session_ok rl' (subs1[k := es'])" by (rule session_update [OF s(1, 2) e(2)])
  moreover have "subscribeEventSubscription rl subs token name = (rl', subs1[k := es'], None)"
    using c e(1) by (simp add: subscribeEventSubscription_def)
  moreover have "es_id es' = token" using e(2) s(3) by (simp add: relayKeeps_def)
  ultimately show ?thesis using s e(3)
    by (intro exI [of _ rl'] exI [of _ "subs1[k := es']"] exI [of _ k]) auto
qed

text \<open>Destroying one collector leaves the rest of the session consistent.\<close>

lemma session_destroy:
  assumes s: "session_ok rl subs" and k: "k < length subs"
  shows "session_ok (destroyEventSession rl (subs ! k)) (filter (\<lambda>x. es_id x \<noteq> es_id (subs ! k)) subs)"
proof -
  let ?e = "subs ! k"
  have d: "distinct (map es_id subs)" and r: "relay_ok rl" using s by (simp_all add: session_ok_def)
  have fr: "relay_ok (destroyEventSession rl ?e) \<and> r_nextTarget (destroyEventSession rl ?e) = r_nextTarget rl \<and>
      (\<forall>t. es_collector ?e \<noteq> Some t \<longrightarrow> r_subscriptions (destroyEventSession rl ?e) t = r_subscriptions rl t)"
    using destroy_spec [OF r] r by (auto simp: destroyEventSession_def frame_def split: option.splits)
  have mem: "\<exists>j < length subs. j \<noteq> k \<and> x = subs ! j" if "x \<in> set subs" "es_id x \<noteq> es_id ?e" for x
    using that by (metis in_set_conv_nth)
  have ok: "es_ok (destroyEventSession rl ?e) x" if x: "x \<in> set subs" "es_id x \<noteq> es_id ?e" for x
  proof -
    from mem [OF x] obtain j where j: "j < length subs" "j \<noteq> k" "x = subs ! j" by blast
    then have "es_collector ?e \<noteq> Some t" if "es_collector x = Some t" for t
      using s k that by (auto simp: session_ok_def)
    moreover have "es_ok rl x" using s x(1) by (simp add: session_ok_def)
    ultimately show ?thesis using fr by (auto simp: es_ok_def split: option.splits)
  qed
  define F where "F = filter (\<lambda>x. es_id x \<noteq> es_id ?e) subs"
  have dF: "distinct (map es_id F)" using d by (simp add: F_def distinct_map_filter)
  have uniq: "j = j'" if "j < length F" "j' < length F" "es_collector (F ! j) = Some t" "es_collector (F ! j') = Some t" for j j' t
  proof -
    have "F ! j \<in> set subs" "F ! j' \<in> set subs" using that nth_mem [of _ F] by (auto simp: F_def)
    then obtain a b where ab: "a < length subs" "b < length subs" "F ! j = subs ! a" "F ! j' = subs ! b"
      by (metis in_set_conv_nth)
    then have "a = b" using s that by (auto simp: session_ok_def)
    then have "map es_id F ! j = map es_id F ! j'" using ab that by simp
    then show ?thesis using nth_eq_iff_index_eq [OF dF, of j j'] that by simp
  qed
  show ?thesis
    unfolding session_ok_def F_def [symmetric]
    using fr ok dF uniq by (auto simp: F_def)
qed

lemma filter_unique: "distinct (map f xs) \<Longrightarrow> k < length xs \<Longrightarrow> filter (\<lambda>x. f x = f (xs ! k)) xs = [xs ! k]"
proof (induction xs arbitrary: k)
  case (Cons x xs)
  show ?case
  proof (cases k)
    case 0
    then show ?thesis using Cons.prems by (auto simp: filter_empty_conv image_iff)
  next
    case (Suc j)
    then have "f x \<noteq> f (xs ! j)" using Cons.prems by (auto simp: image_iff)
    then show ?thesis using Cons Suc by simp
  qed
qed simp

text \<open>
  Unsubscribing from any event under a known token, subscribed or not, removes the whole subscription
  session of the token with all of its events, and what is left is consistent.  Under an unknown token it
  does nothing if the session has no subscription session, and otherwise dereferences a null pointer.
\<close>

theorem unsubscribing_removes:
  assumes "session_ok rl subs" and "relaying rl"
  shows "if token \<in> es_id ` set subs then
      \<exists>rl'. unsubscribeEventSubscription rl subs token name = (rl', filter (\<lambda>x. es_id x \<noteq> token) subs, None) \<and>
        session_ok rl' (filter (\<lambda>x. es_id x \<noteq> token) subs)
    else unsubscribeEventSubscription rl subs token name = (rl, subs, if subs = [] then None else Some NullDeref)"
proof (cases "find_index (\<lambda>es. es_id es = token) subs")
  case None
  then have "token \<notin> es_id ` set subs" by (auto simp: find_index_None_iff)
  then show ?thesis using None
    by (simp add: unsubscribeEventSubscription_def getEventSubscription_def deleteEventSubscription_def)
next
  case (Some k)
  note k = find_index_Some_bound [OF Some] find_index_Some_nth [OF Some]
  have "relay_ok rl" "es_ok rl (subs ! k)" using assms(1) k by (simp_all add: session_ok_def)
  from esUnsubscribe_spec [OF this assms(2), of name] obtain rl1 es err where
    u: "esUnsubscribe rl (subs ! k) name = (rl1, es, err)" "relayKeeps rl (subs ! k) rl1 es" by blast
  define subs1 where "subs1 = subs[k := es]"
  have ok1: "session_ok rl1 subs1" unfolding subs1_def by (rule session_update [OF assms(1) k(1) u(2)])
  have id: "es_id es = token" "subs1 ! k = es" "k < length subs1" using u(2) k by (simp_all add: relayKeeps_def subs1_def)
  have d: "distinct (map es_id subs1)" using ok1 by (simp add: session_ok_def)
  have f: "filter (\<lambda>x. es_id x = es_id es) subs1 = [es]" using filter_unique [OF d id(3)] id(2) by simp
  have rest: "filter (\<lambda>x. es_id x \<noteq> token) subs1 = filter (\<lambda>x. es_id x \<noteq> token) subs"
    using k id(1) by (simp add: subs1_def upd_conv_take_nth_drop) (subst (3) id_take_nth_drop [OF k(1)], simp)
  have "unsubscribeEventSubscription rl subs token name =
      (destroyEventSession rl1 es, filter (\<lambda>x. es_id x \<noteq> token) subs, None)"
    using Some u(1) f id(1) rest
    by (simp add: unsubscribeEventSubscription_def getEventSubscription_def deleteEventSubscription_def subs1_def [symmetric])
  moreover have "session_ok (destroyEventSession rl1 es) (filter (\<lambda>x. es_id x \<noteq> token) subs)"
    using session_destroy [OF ok1 id(3)] id rest by simp
  moreover have "token \<in> es_id ` set subs" using k by force
  ultimately show ?thesis by simp
qed

section \<open>Delivery\<close>

text \<open>The plugins, of which the relay is one and the others leave the event and the collectors alone.\<close>

definition relayHandler :: "string \<Rightarrow> subscription \<Rightarrow> event \<times> relay \<Rightarrow> event \<times> relay" where
  "relayHandler p s ew = (fst ew, if p = relayName then relayHandleEvent (snd ew) s (fst ew) else snd ew)"

lemma relayHandler_simps:
  "relayHandler p s (e, rl) = (e, if p = relayName then relayHandleEvent rl s e else rl)"
  by (simp add: relayHandler_def)

definition addressee :: "interp \<Rightarrow> relay \<Rightarrow> event \<Rightarrow> nat \<Rightarrow> subscription \<Rightarrow> bool" where
  "addressee I rl e t s \<longleftrightarrow> selected I e s \<and> m_HandlerName s = relayName \<and> r_targetMap rl (m_ID s) = Some t"

lemma relayHandleEvent_simps:
  "r_targetMap (relayHandleEvent rl s e) = r_targetMap rl"
  "r_pending (relayHandleEvent rl s e) t = r_pending rl t @ (if r_targetMap rl (m_ID s) = Some t then [e] else [])"
  by (auto simp: relayHandleEvent_def collectorHandleEvent_def split: option.splits)

lemma addressee_cong: "r_targetMap rl' = r_targetMap rl \<Longrightarrow> addressee I rl' e t = addressee I rl e t"
  by (auto simp: addressee_def fun_eq_iff)

lemma dispatch_pending:
  "dispatch I relayHandler ss (e, rl) = ((e', rl'), None) \<Longrightarrow>
     r_pending rl' t = r_pending rl t @ replicate (length (filter (addressee I rl e t) ss)) e"
proof (induction ss arbitrary: rl)
  case (Cons s ss)
  show ?case
  proof (cases "selected I e s")
    case False
    have "dispatch I relayHandler ss (e, rl) = ((e', rl'), None)"
      using Cons.prems False
      by (auto simp: selected_def getPluginByName_Some split: if_splits sum.splits bool.splits)
    then show ?thesis using Cons.IH [of rl] False by (simp add: addressee_def)
  next
    case True
    then have d: "dispatch I relayHandler ss (relayHandler (m_HandlerName s) s (e, rl)) = ((e', rl'), None)"
      using Cons.prems by (simp add: selected_def getPluginByName_Some)
    show ?thesis
    proof (cases "m_HandlerName s = relayName")
      case False
      then show ?thesis using d Cons.IH [of rl] by (simp add: relayHandler_simps addressee_def)
    next
      case h: True
      with d have "dispatch I relayHandler ss (e, relayHandleEvent rl s e) = ((e', rl'), None)"
        by (simp add: relayHandler_simps)
      from Cons.IH [OF this] show ?thesis
        using True h by (simp add: relayHandleEvent_simps addressee_cong [OF relayHandleEvent_simps(1)] addressee_def)
    qed
  qed
qed simp

lemma addressee_iff:
  assumes "relay_ok rl" and "relaying rl" and "s \<in> set (m_Subscriptions (r_interp rl))"
  shows "addressee (r_interp rl) rl e t s \<longleftrightarrow> s \<in> set (r_subscriptions rl t) \<and> m_SubEventName s = m_EventName e"
proof
  assume a: "addressee (r_interp rl) rl e t s"
  then obtain x where x: "x \<in> set (r_subscriptions rl t)" "m_ID x = m_ID s"
    using relay_okD(7) [OF assms(1)] by (auto simp: addressee_def)
  then have "x = s"
    using relay_okD(1) [OF assms(1)] relay_okD(4) [OF assms(1) x(1)] assms(3)
    by (simp add: subs_ok_def distinct_map inj_on_def)
  with a x show "s \<in> set (r_subscriptions rl t) \<and> m_SubEventName s = m_EventName e"
    by (simp add: addressee_def selected_def)
next
  assume a: "s \<in> set (r_subscriptions rl t) \<and> m_SubEventName s = m_EventName e"
  then show "addressee (r_interp rl) rl e t s"
    using relay_okD(3, 5, 6) [OF assms(1), of s t] assms(2)
    by (simp add: addressee_def selected_def matches_def relaying_def)
qed

text \<open>
  C14: An event reaches a client exactly once: when the interpreter has dispatched an event to all of its
  subscriptions, the collector of a subscription session has one copy of it behind what it had before if the
  session is subscribed to the name of the event, and nothing new otherwise, however often the client has
  subscribed, and whatever the other sessions are subscribed to.
\<close>

theorem delivered_once:
  assumes "session_ok rl subs" and "relaying rl" and "k < length subs" and "es_collector (subs ! k) = Some t"
    and "dispatch (r_interp rl) relayHandler (m_Subscriptions (r_interp rl)) (e, rl) = ((e', rl'), None)"
  shows "r_pending rl' t = r_pending rl t @ (if m_EventName e \<in> dom (es_map (subs ! k)) then [e] else [])"
proof -
  have ok: "relay_ok rl" "es_ok rl (subs ! k)" using assms(1, 3) by (simp_all add: session_ok_def)
  let ?n = "m_EventName e" and ?F = "filter (addressee (r_interp rl) rl e t) (m_Subscriptions (r_interp rl))"
  have F: "set ?F = {s \<in> set (r_subscriptions rl t). m_SubEventName s = ?n}"
    using addressee_iff [OF ok(1) assms(2)] relay_okD(4) [OF ok(1)] by auto
  have m: "es_map (subs ! k) n = Some i \<longleftrightarrow> (\<exists>s \<in> set (r_subscriptions rl t). m_SubEventName s = n \<and> m_ID s = i)" for n i
    using ok(2) assms(4) by (simp add: es_ok_def)
  have "distinct (map m_ID (m_Subscriptions (r_interp rl)))" using relay_okD(1) [OF ok(1)] by (simp add: subs_ok_def)
  then have d: "length ?F = card (set ?F)" by (intro distinct_card [symmetric]) (simp add: distinct_map)
  have "length ?F = (if ?n \<in> dom (es_map (subs ! k)) then 1 else 0)"
  proof (cases "es_map (subs ! k) ?n")
    case None
    have "m_SubEventName s \<noteq> ?n" if "s \<in> set (r_subscriptions rl t)" for s
    proof
      assume "m_SubEventName s = ?n"
      then have "es_map (subs ! k) ?n = Some (m_ID s)" using m that by blast
      then show False using None by simp
    qed
    then have "{s \<in> set (r_subscriptions rl t). m_SubEventName s = ?n} = {}" by blast
    then have "length ?F = card ({} :: subscription set)" unfolding d F by (simp only:)
    then show ?thesis using None by (simp add: dom_def)
  next
    case (Some i)
    then obtain s where s: "s \<in> set (r_subscriptions rl t)" "m_SubEventName s = ?n" "m_ID s = i" using m by blast
    have "x = s" if "x \<in> set (r_subscriptions rl t)" "m_SubEventName x = ?n" for x
    proof -
      have "es_map (subs ! k) ?n = Some (m_ID x)" using m that by blast
      then show ?thesis using relay_okD(2) [OF ok(1), of t] Some s that by (simp add: distinct_map inj_on_def)
    qed
    then have "{s \<in> set (r_subscriptions rl t). m_SubEventName s = ?n} = {s}" using s(1, 2) by blast
    then have "length ?F = card {s}" unfolding d F by (simp only:)
    moreover have "?n \<in> dom (es_map (subs ! k))" using Some by (simp add: dom_def)
    ultimately show ?thesis by simp
  qed
  then show ?thesis using dispatch_pending [OF assms(5), of t] by simp
qed

section \<open>Examples\<close>

text \<open>One session with one subscription session, subscribed to one event.\<close>

definition exSub :: subscription where
  "exSub = \<lparr>m_SubEventName = ''e'', m_HandlerName = relayName, m_ID = ''i'', m_Parameters = None,
     m_Filter = [], m_FilterOption = foMatchAll\<rparr>"

definition exRelay :: relay where
  "exRelay = \<lparr>r_interp = \<lparr>m_Subscriptions = [exSub], m_Plugins = [relayName], m_EventsProcessed = 0\<rparr>,
     r_targetMap = [''i'' \<mapsto> 0], r_subscriptions = (\<lambda>_. [])(0 := [exSub]), r_pending = (\<lambda>_. []), r_nextTarget = 1\<rparr>"

definition exSession :: eventSession where
  "exSession = \<lparr>es_id = ''2'', es_collector = Some 0, es_map = [''e'' \<mapsto> ''i'']\<rparr>"

lemma exSession_ok: "session_ok exRelay [exSession]" "relaying exRelay"
  by (auto simp: session_ok_def relay_ok_def es_ok_def subs_ok_def relaying_def exRelay_def exSession_def exSub_def)

theorem subscribing_keeps_witness:
  "\<exists>rl' subs' k. subscribeEventSubscription exRelay [exSession] ''2'' ''f'' = (rl', subs', None) \<and> session_ok rl' subs'"
  using subscribing_keeps [OF exSession_ok, of "''2''" "''f''"] by (auto simp: exRelay_def)

theorem unsubscribing_removes_witness:
  "unsubscribeEventSubscription exRelay [exSession] ''3'' ''e'' = (exRelay, [exSession], Some NullDeref) \<and>
   (\<exists>rl'. unsubscribeEventSubscription exRelay [exSession] ''2'' ''f'' = (rl', [], None))"
  using unsubscribing_removes [OF exSession_ok, of "''3''" "''e''"] unsubscribing_removes [OF exSession_ok, of "''2''" "''f''"]
  by (auto simp: exSession_def)

theorem delivered_once_witness:
  "\<exists>e' rl'. dispatch (r_interp exRelay) relayHandler [exSub] (newEvent ''e'', exRelay) = ((e', rl'), None) \<and>
     r_pending rl' 0 = [newEvent ''e'']"
proof -
  have n: "m_EventName (newEvent ''e'') = ''e''" by (simp add: newEvent_def newEventAt_def)
  have "\<exists>e' rl'. dispatch (r_interp exRelay) relayHandler (m_Subscriptions (r_interp exRelay)) (newEvent ''e'', exRelay) = ((e', rl'), None)"
    by (simp add: exRelay_def exSub_def n matches_def getPluginByName_Some relayHandler_simps)
  then obtain e' rl' where d: "dispatch (r_interp exRelay) relayHandler (m_Subscriptions (r_interp exRelay)) (newEvent ''e'', exRelay) = ((e', rl'), None)"
    by blast
  have "r_pending rl' 0 = [newEvent ''e'']"
    using delivered_once [OF exSession_ok, of 0 0, OF _ _ d] by (simp add: n) (simp add: exSession_def exRelay_def)
  then show ?thesis using d by (auto simp: exRelay_def)
qed

end
