(* ===== verification/Session_Manager.thy ===== *)
theory Session_Manager
  imports Event_Relay Date_Tools "HOL-Library.List_Lexorder" "HOL-Library.Char_ord"
begin

text \<open>
  The sessions of the web server, \<^verbatim>\<open>src/src/session.cpp\<close> and \<^verbatim>\<open>src/src/sessionmanager.cpp\<close>, with the
  hash objects of \<^verbatim>\<open>src/src/hasher.cpp\<close> that make their tokens; the hash functions are OpenSSL's and
  are parameters.  A \<^verbatim>\<open>std::map\<close> is the list of its entries in the order of the keys, and an entry may
  hold a null pointer.  A user is a copy of the user who is logged in.  Locks are not modelled, and an
  operation on a session acts on the entry of the map.
\<close>

section \<open>Hash objects\<close>

type_synonym digest = "u8 list \<Rightarrow> u8 list"

definition hashAddString :: "u8 list \<Rightarrow> string \<Rightarrow> u8 list" where
  "hashAddString h s = h @ map (\<lambda>c. word_of_nat (of_char c)) s"

text \<open>The bytes of an \<^verbatim>\<open>unsigned int\<close> as the machine, which is little endian, holds them.\<close>

definition hashAddUInt :: "u8 list \<Rightarrow> u32 \<Rightarrow> u8 list" where
  "hashAddUInt h i = h @ [ucast i, ucast (drop_bit 8 i), ucast (drop_bit 16 i), ucast (drop_bit 24 i)]"

definition hashStr :: "digest \<Rightarrow> u8 list \<Rightarrow> string" where
  "hashStr D h = hexEncodeByteArray (D h)"

record tokenGenerator =
  tg_salt :: string
  tg_versionInfo :: string
  tg_nextSessionID :: u32

definition generate :: "digest \<Rightarrow> tzone \<Rightarrow> DateTime \<Rightarrow> tokenGenerator \<Rightarrow> tokenGenerator \<times> string" where
  "generate D Z now g =
     (let h = (if tg_salt g \<noteq> [] then hashAddString [] (tg_salt g) else []);
          h = hashAddString h (tg_versionInfo g);
          h = hashAddUInt h (tg_nextSessionID g);
          h = hashAddString h (toPrettyString Z now);
          stage2 = hashAddString [] (hashStr D h)
      in (g\<lparr>tg_nextSessionID := tg_nextSessionID g + 1\<rparr>, hashStr D stage2))"

section \<open>Sessions\<close>

record 'u sess =
  s_token :: string
  s_usageCount :: u32
  s_lastTouched :: DateTime
  s_timeout :: u32
  s_user :: "'u option"
  s_isApplication :: bool
  s_subscriptions :: "eventSession list"

definition newSess :: "string \<Rightarrow> DateTime \<Rightarrow> 'u sess" where
  "newSess tokenID now = \<lparr>s_token = tokenID, s_usageCount = 0, s_lastTouched = now, s_timeout = 30, s_user = None,
     s_isApplication = False, s_subscriptions = []\<rparr>"

definition setSessionTimeout :: "'u sess \<Rightarrow> u32 \<Rightarrow> 'u sess" where
  "setSessionTimeout s t = s\<lparr>s_timeout := t\<rparr>"

definition isUsed :: "'u sess \<Rightarrow> bool" where
  "isUsed s \<longleftrightarrow> s_usageCount s \<noteq> 0"

definition dateGreater :: "DateTime \<Rightarrow> DateTime \<Rightarrow> bool option" where
  "dateGreater a b = map_option (\<lambda>d. d > 0) (difference a b)"

definition isStillValid :: "'u sess \<Rightarrow> DateTime \<Rightarrow> bool option" where
  "isStillValid s now =
     (if isUsed s then Some True else dateGreater (addSeconds (s_lastTouched s) (s_timeout s)) now)"

definition use_session :: "'u sess \<Rightarrow> 'u sess" where
  "use_session s = s\<lparr>s_usageCount := s_usageCount s + 1\<rparr>"

definition touch :: "'u sess \<Rightarrow> DateTime \<Rightarrow> 'u sess" where
  "touch s now = s\<lparr>s_lastTouched := now\<rparr>"

definition unuse :: "'u sess \<Rightarrow> DateTime \<Rightarrow> 'u sess" where
  "unuse s now =
     (let c = s_usageCount s - 1 in touch (s\<lparr>s_usageCount := if sint c < 0 then 0 else c\<rparr>) now)"

definition markAsApplicationSession :: "'u sess \<Rightarrow> 'u sess" where
  "markAsApplicationSession s = s\<lparr>s_isApplication := True\<rparr>"

definition inheritUserFromSecurity :: "'u sess \<Rightarrow> 'u option \<Rightarrow> 'u sess" where
  "inheritUserFromSecurity s loggedIn = s\<lparr>s_user := loggedIn\<rparr>"

definition getIdleTime :: "'u sess \<Rightarrow> u32" where
  "getIdleTime s = word_of_int (tv_sec (s_lastTouched s))"

section \<open>The map of sessions\<close>

type_synonym 'u sessions = "(string \<times> 'u sess option) list"

fun map_put :: "(string \<times> 'v) list \<Rightarrow> string \<Rightarrow> 'v \<Rightarrow> (string \<times> 'v) list" where
  "map_put [] k v = [(k, v)]"
| "map_put ((k', v') # m) k v =
     (if k = k' then (k, v) # m else if k < k' then (k, v) # (k', v') # m else (k', v') # map_put m k v)"

definition map_erase :: "(string \<times> 'v) list \<Rightarrow> string \<Rightarrow> (string \<times> 'v) list" where
  "map_erase m k = filter (\<lambda>(k', _). k' \<noteq> k) m"

text \<open>\<^verbatim>\<open>operator[]\<close> inserts a null pointer for a key that is not there.\<close>

definition map_at :: "'u sessions \<Rightarrow> string \<Rightarrow> 'u sessions \<times> 'u sess option" where
  "map_at m k = (case map_of m k of Some v \<Rightarrow> (m, v) | None \<Rightarrow> (map_put m k None, None))"

section \<open>The manager\<close>

record 'u manager =
  m_Sessions :: "'u sessions"
  m_timeoutSecs :: u32
  m_maxSessionCount :: u32
  m_generator :: tokenGenerator
  m_pRelayTarget :: "nat option"

definition newManager :: "tokenGenerator \<Rightarrow> 'u manager" where
  "newManager g = \<lparr>m_Sessions = [], m_timeoutSecs = 60, m_maxSessionCount = 100, m_generator = g, m_pRelayTarget = None\<rparr>"

definition setTimeout :: "'u manager \<Rightarrow> u32 \<Rightarrow> 'u manager" where
  "setTimeout m t = m\<lparr>m_timeoutSecs := t\<rparr>"

definition setMaxSessionCount :: "'u manager \<Rightarrow> u32 \<Rightarrow> 'u manager" where
  "setMaxSessionCount m n = m\<lparr>m_maxSessionCount := n\<rparr>"

definition kSessionCleanupInterval :: nat where "kSessionCleanupInterval = 30"
definition WebSessionCleanup :: string where "WebSessionCleanup = ''webSessionCleanup''"

definition sendCleanupEvent :: "tzone \<Rightarrow> DateTime \<Rightarrow> event" where
  "sendCleanupEvent Z now =
     (let e = fst (setProperty (newEvent WebSessionCleanup) ''iCalStartTime'' (toRFC2445IcalDataTime Z now))
      in fst (setProperty e ''iCalRRule''
           (''FREQ=SECONDLY;INTERVAL='' @ int32ToString (word_of_nat kSessionCleanupInterval))))"

text \<open>
  The first session subscribes the manager to the event for cleaning up; the event is in the result.
  Without the relay plugin a null pointer is dereferenced.
\<close>

definition setupCleanupEventRelayTarget ::
    "tzone \<Rightarrow> DateTime \<Rightarrow> relay \<Rightarrow> 'u manager \<Rightarrow> perror + relay \<times> 'u manager \<times> event list" where
  "setupCleanupEventRelayTarget Z now rl m =
     (case m_pRelayTarget m of
        Some _ \<Rightarrow> Inr (rl, m, [])
      | None \<Rightarrow>
          if getPluginByName (r_interp rl) relayName = None then Inl NullDeref
          else case newCollector rl of (rl, t) \<Rightarrow>
            (case newSubscription (r_interp rl) WebSessionCleanup relayName None of
               None \<Rightarrow> Inl Diverges
             | Some s \<Rightarrow>
                 (case targetSubscribeTo rl t s of
                    Inl e \<Rightarrow> Inl e
                  | Inr rl \<Rightarrow> Inr (rl, m\<lparr>m_pRelayTarget := Some t\<rparr>, [sendCleanupEvent Z now]))))"

definition createSession ::
    "digest \<Rightarrow> tzone \<Rightarrow> DateTime \<Rightarrow> relay \<Rightarrow> 'u manager \<Rightarrow> perror + relay \<times> 'u manager \<times> event list \<times> 'u sess" where
  "createSession D Z now rl m =
     (case setupCleanupEventRelayTarget Z now rl m of
        Inl e \<Rightarrow> Inl e
      | Inr (rl, m, evs) \<Rightarrow>
          (case generate D Z now (m_generator m) of
             (g, token) \<Rightarrow>
               Inr (rl, m\<lparr>m_generator := g\<rparr>, evs, setSessionTimeout (newSess token now) (m_timeoutSecs m))))"

definition registerWith ::
    "('u sess \<Rightarrow> 'u sess) \<Rightarrow> digest \<Rightarrow> tzone \<Rightarrow> DateTime \<Rightarrow> relay \<Rightarrow> 'u manager
       \<Rightarrow> perror + relay \<times> 'u manager \<times> event list \<times> string" where
  "registerWith mark D Z now rl m =
     (if length (m_Sessions m) \<ge> unat (m_maxSessionCount m) then Inr (rl, m, [], [])
      else case createSession D Z now rl m of
        Inl e \<Rightarrow> Inl e
      | Inr (rl, m, evs, s) \<Rightarrow>
          (let s = mark s; i = s_token s
           in Inr (rl, m\<lparr>m_Sessions := map_put (m_Sessions m) i (Some s)\<rparr>, evs, i)))"

definition registerSession ::
    "digest \<Rightarrow> tzone \<Rightarrow> DateTime \<Rightarrow> relay \<Rightarrow> 'u manager \<Rightarrow> perror + relay \<times> 'u manager \<times> event list \<times> string" where
  "registerSession = registerWith (\<lambda>s. s)"

definition registerApplicationSession ::
    "digest \<Rightarrow> tzone \<Rightarrow> DateTime \<Rightarrow> relay \<Rightarrow> 'u manager \<Rightarrow> perror + relay \<times> 'u manager \<times> event list \<times> string" where
  "registerApplicationSession = registerWith markAsApplicationSession"

definition getSession :: "'u manager \<Rightarrow> string \<Rightarrow> 'u manager \<times> 'u sess option" where
  "getSession m i = (case map_at (m_Sessions m) i of (ss, s) \<Rightarrow> (m\<lparr>m_Sessions := ss\<rparr>, s))"

definition removeSession :: "'u manager \<Rightarrow> string \<Rightarrow> 'u manager" where
  "removeSession m i = m\<lparr>m_Sessions := map_erase (m_Sessions m) i\<rparr>"

text \<open>\<open>None\<close> is the access through a null pointer.\<close>

definition touchSession :: "'u manager \<Rightarrow> string \<Rightarrow> DateTime \<Rightarrow> 'u manager option" where
  "touchSession m i now =
     (case map_of (m_Sessions m) i of
        None \<Rightarrow> Some m
      | Some None \<Rightarrow> None
      | Some (Some s) \<Rightarrow> Some (m\<lparr>m_Sessions := map_put (m_Sessions m) i (Some (touch s now))\<rparr>))"

text \<open>The loop looks for the last entry with an idle time above \<open>age\<close>, which it never changes.\<close>

fun oldestLoop :: "'u sessions \<Rightarrow> u32 \<Rightarrow> string option \<Rightarrow> string option" where
  "oldestLoop [] age oldest = oldest"
| "oldestLoop ((i, None) # m) age oldest = oldestLoop m age oldest"
| "oldestLoop ((i, Some s) # m) age oldest = oldestLoop m age (if getIdleTime s > age then Some i else oldest)"

definition cleanupOldestSession :: "'u manager \<Rightarrow> 'u manager" where
  "cleanupOldestSession m =
     (let ss = filter (\<lambda>(_, s). s \<noteq> None) (m_Sessions m)
      in case oldestLoop ss 0 None of
           None \<Rightarrow> m\<lparr>m_Sessions := ss\<rparr>
         | Some i \<Rightarrow> m\<lparr>m_Sessions := map_erase ss i\<rparr>)"

text \<open>\<open>None\<close> is a comparison of times that are too far apart.\<close>

fun cleanupLoop :: "'u sessions \<Rightarrow> DateTime \<Rightarrow> 'u sessions option" where
  "cleanupLoop [] now = Some []"
| "cleanupLoop ((i, None) # m) now = cleanupLoop m now"
| "cleanupLoop ((i, Some s) # m) now =
     (case isStillValid s now of
        None \<Rightarrow> None
      | Some True \<Rightarrow> map_option (\<lambda>m. (i, Some s) # m) (cleanupLoop m now)
      | Some False \<Rightarrow> cleanupLoop m now)"

definition cleanupSessions :: "'u manager \<Rightarrow> DateTime \<Rightarrow> 'u manager option" where
  "cleanupSessions m now = map_option (\<lambda>ss. m\<lparr>m_Sessions := ss\<rparr>) (cleanupLoop (m_Sessions m) now)"

end
