(* ===== verification/Session_Laws.thy ===== *)
theory Session_Laws
  imports Session_Manager
begin

text \<open>
  What the sessions of the web server promise: which sessions a clean-up keeps, that a session nobody
  uses does not stay, and what unknown tokens do to the limit of sessions.
\<close>

section \<open>The interface of a map\<close>

text \<open>What the manager uses of \<^verbatim>\<open>std::map\<close>: the value of a key after a change.\<close>

locale key_map =
  fixes ok :: "'m \<Rightarrow> bool" and look :: "'m \<Rightarrow> 'k \<Rightarrow> 'v option" and put :: "'m \<Rightarrow> 'k \<Rightarrow> 'v \<Rightarrow> 'm"
    and del :: "'m \<Rightarrow> 'k \<Rightarrow> 'm" and count :: "'m \<Rightarrow> nat"
  assumes ok_put: "ok m \<Longrightarrow> ok (put m k v)"
    and ok_del: "ok m \<Longrightarrow> ok (del m k)"
    and look_put: "ok m \<Longrightarrow> look (put m k v) k' = (if k' = k then Some v else look m k')"
    and look_del: "ok m \<Longrightarrow> look (del m k) k' = (if k' = k then None else look m k')"
    and count_put: "ok m \<Longrightarrow> count (put m k v) = count m + (if look m k = None then 1 else 0)"
begin

lemma put_all_new:
  "ok m \<Longrightarrow> distinct ks \<Longrightarrow> (\<And>k. k \<in> set ks \<Longrightarrow> look m k = None) \<Longrightarrow>
     ok (foldl (\<lambda>m k. put m k v) m ks) \<and>
     count (foldl (\<lambda>m k. put m k v) m ks) = count m + length ks \<and>
     (\<forall>k. look (foldl (\<lambda>m k. put m k v) m ks) k = (if k \<in> set ks then Some v else look m k))"
proof (induction ks arbitrary: m)
  case (Cons k ks)
  then have "k \<notin> set ks" and "look m k = None" by simp_all
  moreover have "look (put m k v) k' = None" if "k' \<in> set ks" for k'
    using that Cons.prems by (auto simp: look_put)
  ultimately show ?case using Cons.IH [of "put m k v"] Cons.prems by (auto simp: look_put count_put ok_put)
qed simp

end

definition ordered :: "(string \<times> 'v) list \<Rightarrow> bool" where
  "ordered m \<longleftrightarrow> sorted_wrt (<) (map fst m)"

lemma map_of_put: "map_of (map_put m k v) = (map_of m)(k \<mapsto> v)"
  by (induction m k v rule: map_put.induct) auto

lemma map_of_erase: "map_of (map_erase m k) = (map_of m)(k := None)"
  by (induction m) (auto simp: map_erase_def)

lemma length_put: "ordered m \<Longrightarrow> length (map_put m k v) = length m + (if map_of m k = None then 1 else 0)"
proof (induction m k v rule: map_put.induct)
  case (2 k' v' m k v)
  have "map_of m k = None" if "k < k'"
  proof -
    have "k \<notin> fst ` set m" using 2(2) that by (auto simp: ordered_def dest: order.strict_trans)
    then show ?thesis by (simp add: map_of_eq_None_iff)
  qed
  then show ?case using 2 by (auto simp: ordered_def)
qed simp

lemma keys_put: "fst ` set (map_put m k v) = insert k (fst ` set m)"
  by (induction m k v rule: map_put.induct) auto

lemma ordered_put: "ordered m \<Longrightarrow> ordered (map_put m k v)"
proof (induction m k v rule: map_put.induct)
  case (2 k' v' m k v)
  have o: "ordered m" "\<forall>x \<in> fst ` set m. k' < x" using 2(2) by (simp_all add: ordered_def)
  consider "k = k'" | "k < k'" | "k' < k" by (rule linorder_cases)
  then show ?case
  proof cases
    case 3
    then have "ordered (map_put m k v)" using 2(1) o(1) by auto
    moreover have "\<forall>x \<in> fst ` set (map_put m k v). k' < x" using 3 o(2) by (simp add: keys_put)
    ultimately show ?thesis using 3 by (auto simp: ordered_def)
  qed (use o in \<open>auto simp: ordered_def dest: order.strict_trans\<close>)
qed (simp add: ordered_def)

lemma ordered_filter: "ordered m \<Longrightarrow> ordered (filter P m)"
  by (induction m) (auto simp: ordered_def)

lemma ordered_erase: "ordered m \<Longrightarrow> ordered (map_erase m k)"
  unfolding map_erase_def by (rule ordered_filter)

interpretation sm: key_map ordered map_of map_put map_erase length
  by unfold_locales (simp_all add: ordered_put map_of_put map_of_erase length_put ordered_erase)

section \<open>Which sessions a clean-up keeps\<close>

definition alive :: "'u sess \<Rightarrow> DateTime \<Rightarrow> bool" where
  "alive s now \<longleftrightarrow> isUsed s \<or> tv_sec now < tv_sec (s_lastTouched s) + sint (s_timeout s)"

lemma isStillValid_alive: "isStillValid s now = Some b \<Longrightarrow> b = alive s now"
  by (auto simp: isStillValid_def alive_def dateGreater_def difference_def addSeconds_def Let_def split: if_splits)

lemma cleanupLoop_spec:
  "cleanupLoop m now = Some m' \<Longrightarrow>
     m' = filter (\<lambda>(_, s). case s of None \<Rightarrow> False | Some s \<Rightarrow> alive s now) m"
  by (induction m now arbitrary: m' rule: cleanupLoop.induct)
     (auto split: option.splits bool.splits dest: isStillValid_alive)

lemma map_of_filter_value:
  "ordered m \<Longrightarrow> map_of (filter (\<lambda>(_, v). P v) m) k = (case map_of m k of None \<Rightarrow> None | Some v \<Rightarrow> if P v then Some v else None)"
proof (induction m)
  case (Cons x m)
  obtain k' v where x: "x = (k', v)" by fastforce
  have o: "ordered m" "k' \<notin> fst ` set m" using Cons.prems by (auto simp: ordered_def x)
  then have "map_of m k' = None" by (simp add: map_of_eq_None_iff)
  then show ?case using Cons.IH [OF o(1)] by (auto simp: x)
qed simp

text \<open>
  A clean-up keeps exactly the sessions that are in use or were touched within their timeout, and removes
  the entries without a session.  With the timeout 0 no session outlives a clean-up, unless it is in use.
\<close>

theorem cleanup_exact:
  assumes "ordered (m_Sessions m)" and "cleanupSessions m now = Some m'"
  shows "map_of (m_Sessions m') i = Some v \<longleftrightarrow> map_of (m_Sessions m) i = Some v \<and>
      (\<exists>s. v = Some s \<and> (isUsed s \<or> tv_sec now < tv_sec (s_lastTouched s) + sint (s_timeout s)))"
proof -
  have f: "m_Sessions m' = filter (\<lambda>(_, s). case s of None \<Rightarrow> False | Some s \<Rightarrow> alive s now) (m_Sessions m)"
    using assms(2) cleanupLoop_spec by (auto simp: cleanupSessions_def)
  show ?thesis
    unfolding f map_of_filter_value [OF assms(1)] by (auto simp: alive_def split: option.splits if_splits)
qed

section \<open>Unknown tokens\<close>

lemma getSession_put:
  "map_of (m_Sessions m) t = None \<Longrightarrow> fst (getSession m t) = m\<lparr>m_Sessions := map_put (m_Sessions m) t None\<rparr>"
  by (simp add: getSession_def map_at_def)

lemma getSession_fold:
  "ordered (m_Sessions m) \<Longrightarrow> distinct ts \<Longrightarrow> (\<And>t. t \<in> set ts \<Longrightarrow> map_of (m_Sessions m) t = None) \<Longrightarrow>
     foldl (\<lambda>m t. fst (getSession m t)) m ts =
       m\<lparr>m_Sessions := foldl (\<lambda>ss t. map_put ss t None) (m_Sessions m) ts\<rparr>"
proof (induction ts arbitrary: m)
  case (Cons t ts)
  let ?m = "m\<lparr>m_Sessions := map_put (m_Sessions m) t None\<rparr>"
  have "ordered (m_Sessions ?m)" using Cons.prems(1) by (simp add: ordered_put)
  moreover have "map_of (m_Sessions ?m) t' = None" if "t' \<in> set ts" for t'
    using that Cons.prems by (auto simp: map_of_put)
  ultimately have "foldl (\<lambda>m t. fst (getSession m t)) ?m ts =
      ?m\<lparr>m_Sessions := foldl (\<lambda>ss t. map_put ss t None) (m_Sessions ?m) ts\<rparr>"
    using Cons.IH [of ?m] Cons.prems(2) by simp
  then show ?case using Cons.prems by (simp add: getSession_put)
qed simp

text \<open>
  C38: Looking up unknown tokens, which the web server does before it authenticates a request, fills the map
  with empty entries: when there are as many different unknown tokens as there is room below the limit,
  no session can be registered any more, although no session was added.
\<close>

theorem unknown_tokens_lock_out:
  assumes "ordered (m_Sessions m)" and "distinct ts" and "\<And>t. t \<in> set ts \<Longrightarrow> map_of (m_Sessions m) t = None"
    and "unat (m_maxSessionCount m) \<le> length (m_Sessions m) + length ts"
    and "m' = foldl (\<lambda>m t. fst (getSession m t)) m ts"
  shows "registerSession D Z now rl m' = Inr (rl, m', [], []) \<and>
    (\<forall>i s. map_of (m_Sessions m') i = Some (Some s) \<longleftrightarrow> map_of (m_Sessions m) i = Some (Some s))"
proof -
  note p = sm.put_all_new [OF assms(1-3), where v = None]
  have m': "m' = m\<lparr>m_Sessions := foldl (\<lambda>ss t. map_put ss t None) (m_Sessions m) ts\<rparr>"
    unfolding assms(5) by (rule getSession_fold [OF assms(1-3)])
  have "length (m_Sessions m') = length (m_Sessions m) + length ts" using p by (simp add: m')
  then have "registerSession D Z now rl m' = Inr (rl, m', [], [])"
    using assms(4) by (simp add: registerSession_def registerWith_def m')
  moreover have "map_of (m_Sessions m') i = (if i \<in> set ts then Some None else map_of (m_Sessions m) i)" for i
    using p by (simp add: m')
  ultimately show ?thesis using assms(3) by auto
qed

section \<open>Idle sessions do not stay\<close>

text \<open>The calls of the manager with their times, as the web server and the clean-up event make them.\<close>

datatype sessionOp =
    ORegister bool | OGet string | ORemove string | OTouch string | OUse string | OUnuse string | OCleanup | OOldest

definition onSession :: "'u manager \<Rightarrow> string \<Rightarrow> ('u sess \<Rightarrow> 'u sess) \<Rightarrow> 'u manager option" where
  "onSession m i f =
     (case map_of (m_Sessions m) i of
        Some (Some s) \<Rightarrow> Some (m\<lparr>m_Sessions := map_put (m_Sessions m) i (Some (f s))\<rparr>)
      | _ \<Rightarrow> None)"

definition runOp :: "digest \<Rightarrow> tzone \<Rightarrow> relay \<times> 'u manager \<Rightarrow> DateTime \<times> sessionOp \<Rightarrow> (relay \<times> 'u manager) option" where
  "runOp D Z = (\<lambda>(rl, m) (now, op).
     case op of
       ORegister app \<Rightarrow>
         (case (if app then registerApplicationSession D Z now rl m else registerSession D Z now rl m) of
            Inl _ \<Rightarrow> None | Inr (rl, m, _, _) \<Rightarrow> Some (rl, m))
     | OGet i \<Rightarrow> Some (rl, fst (getSession m i))
     | ORemove i \<Rightarrow> Some (rl, removeSession m i)
     | OTouch i \<Rightarrow> map_option (Pair rl) (touchSession m i now)
     | OUse i \<Rightarrow> map_option (Pair rl) (onSession m i use_session)
     | OUnuse i \<Rightarrow> map_option (Pair rl) (onSession m i (\<lambda>s. unuse s now))
     | OCleanup \<Rightarrow> map_option (Pair rl) (cleanupSessions m now)
     | OOldest \<Rightarrow> Some (rl, cleanupOldestSession m))"

fun runOps :: "digest \<Rightarrow> tzone \<Rightarrow> relay \<times> 'u manager \<Rightarrow> (DateTime \<times> sessionOp) list \<Rightarrow> (relay \<times> 'u manager) option" where
  "runOps D Z st [] = Some st"
| "runOps D Z st (x # xs) = (case runOp D Z st x of None \<Rightarrow> None | Some st \<Rightarrow> runOps D Z st xs)"

fun concerns :: "string \<Rightarrow> sessionOp \<Rightarrow> bool" where
  "concerns i (OTouch j) \<longleftrightarrow> i = j"
| "concerns i (OUse j) \<longleftrightarrow> i = j"
| "concerns i (OUnuse j) \<longleftrightarrow> i = j"
| "concerns i _ \<longleftrightarrow> False"

text \<open>The entry of a token holds nothing but the given sessions.\<close>

definition onlyHolds :: "'u sess set \<Rightarrow> string \<Rightarrow> 'u manager \<Rightarrow> bool" where
  "onlyHolds S i m \<longleftrightarrow> ordered (m_Sessions m) \<and> (\<forall>s. map_of (m_Sessions m) i = Some (Some s) \<longrightarrow> s \<in> S)"

lemma onlyHolds_put:
  "onlyHolds S i m \<Longrightarrow> (j = i \<longrightarrow> v = None) \<Longrightarrow> onlyHolds S i (m\<lparr>m_Sessions := map_put (m_Sessions m) j v\<rparr>)"
  by (auto simp: onlyHolds_def ordered_put map_of_put)

lemma onlyHolds_filter:
  "onlyHolds S i m \<Longrightarrow> onlyHolds S i (m\<lparr>m_Sessions := filter (\<lambda>(_, v). P v) (m_Sessions m)\<rparr>)"
  by (auto simp: onlyHolds_def ordered_filter map_of_filter_value split: option.splits if_splits)

lemma onlyHolds_erase: "onlyHolds S i m \<Longrightarrow> onlyHolds S i (m\<lparr>m_Sessions := map_erase (m_Sessions m) j\<rparr>)"
  by (auto simp: onlyHolds_def ordered_erase map_of_erase)

lemma registerWith_sessions:
  assumes "registerWith mark D Z now rl m = Inr (rl', m', evs, t)" and "\<And>s. s_token (mark s) = s_token s"
  shows "m_Sessions m' = m_Sessions m \<or>
    (\<exists>s g. m_Sessions m' = map_put (m_Sessions m) (snd (generate D Z now g)) (Some s))"
  using assms
  by (auto simp: registerWith_def createSession_def setupCleanupEventRelayTarget_def setSessionTimeout_def newSess_def Let_def
      split: if_splits sum.splits option.splits prod.splits)
     (metis snd_conv)+

lemma runOp_holds:
  assumes r: "runOp D Z (rl, m) (now, op) = Some (rl', m')" and h: "onlyHolds S i m"
    and "\<not> concerns i op" and g: "\<And>g now. snd (generate D Z now g) \<noteq> i"
  shows "onlyHolds S i m'"
proof (cases op)
  case (ORegister app)
  from r obtain evs t where
    "registerWith (if app then markAsApplicationSession else (\<lambda>s. s)) D Z now rl m = Inr (rl', m', evs, t)"
    unfolding ORegister by (auto simp: runOp_def registerSession_def registerApplicationSession_def split: sum.splits if_splits)
  from registerWith_sessions [OF this] have "m_Sessions m' = m_Sessions m \<or>
      (\<exists>s g. m_Sessions m' = map_put (m_Sessions m) (snd (generate D Z now g)) (Some s))"
    by (simp add: markAsApplicationSession_def)
  then show ?thesis using h g [symmetric] by (auto simp: onlyHolds_def ordered_put map_of_put split: if_splits)
next
  case (OGet j)
  then show ?thesis using r h onlyHolds_put [OF h, of j None]
    by (auto simp: runOp_def getSession_def map_at_def split: option.splits)
next
  case (ORemove j)
  then show ?thesis using r onlyHolds_erase [OF h] by (auto simp: runOp_def removeSession_def)
next
  case (OTouch j)
  then show ?thesis using r h onlyHolds_put [OF h, of j] assms(3)
    by (auto simp: runOp_def touchSession_def split: option.splits)
next
  case (OUse j)
  then show ?thesis using r onlyHolds_put [OF h, of j] assms(3)
    by (auto simp: runOp_def onSession_def split: option.splits)
next
  case (OUnuse j)
  then show ?thesis using r onlyHolds_put [OF h, of j] assms(3)
    by (auto simp: runOp_def onSession_def split: option.splits)
next
  case OCleanup
  then show ?thesis
    using r onlyHolds_filter [OF h, of "\<lambda>s. case s of None \<Rightarrow> False | Some s \<Rightarrow> alive s now"] cleanupLoop_spec
    by (auto simp: runOp_def cleanupSessions_def)
next
  case OOldest
  then show ?thesis
    using r onlyHolds_filter [OF h, of "\<lambda>s. s \<noteq> None"] onlyHolds_erase [OF onlyHolds_filter [OF h, of "\<lambda>s. s \<noteq> None"]]
    by (auto simp: runOp_def cleanupOldestSession_def Let_def split: option.splits)
qed

lemma runOps_append:
  "runOps D Z st (xs @ ys) = (case runOps D Z st xs of None \<Rightarrow> None | Some st \<Rightarrow> runOps D Z st ys)"
  by (induction xs arbitrary: st) (auto split: option.splits)

lemma runOps_holds:
  "runOps D Z (rl, m) ops = Some (rl', m') \<Longrightarrow> onlyHolds S i m \<Longrightarrow> (\<And>t op. (t, op) \<in> set ops \<Longrightarrow> \<not> concerns i op) \<Longrightarrow>
     (\<And>g now. snd (generate D Z now g) \<noteq> i) \<Longrightarrow> onlyHolds S i m'"
proof (induction ops arbitrary: rl m)
  case (Cons x ops)
  obtain now op where x: "x = (now, op)" by fastforce
  with Cons.prems(1) obtain rl1 m1 where r: "runOp D Z (rl, m) (now, op) = Some (rl1, m1)"
      "runOps D Z (rl1, m1) ops = Some (rl', m')" by (auto split: option.splits)
  have "\<not> concerns i op" using Cons.prems(3) [of now op] x by simp
  from runOp_holds [OF r(1) Cons.prems(2) this Cons.prems(4)] have "onlyHolds S i m1" .
  from Cons.IH [OF r(2) this _ Cons.prems(4)] Cons.prems(3) show ?case by auto
qed simp


section \<open>Examples\<close>

definition exSess :: "unit sess" where
  "exSess = (newSess ''x'' \<lparr>tv_sec = 0, tv_usec = 0\<rparr>)\<lparr>s_timeout := 60\<rparr>"

definition exManager :: "unit manager" where
  "exManager = (newManager \<lparr>tg_salt = [], tg_versionInfo = [], tg_nextSessionID = 0\<rparr>)
     \<lparr>m_Sessions := [(''x'', Some exSess)], m_maxSessionCount := 2\<rparr>"

lemma exManager_simps: "m_Sessions exManager = [(''x'', Some exSess)]" "m_maxSessionCount exManager = 2" "ordered (m_Sessions exManager)"
  by (simp_all add: exManager_def ordered_def)

lemma exSess_simps: "\<not> isUsed exSess" "tv_sec (s_lastTouched exSess) = 0" "s_timeout exSess = 60"
  by (simp_all add: exSess_def newSess_def isUsed_def)

theorem cleanup_exact_witness:
  "\<exists>m'. cleanupSessions exManager \<lparr>tv_sec = 70, tv_usec = 0\<rparr> = Some m' \<and> map_of (m_Sessions m') ''x'' \<noteq> Some (Some exSess)"
proof -
  have "\<exists>m'. cleanupSessions exManager \<lparr>tv_sec = 70, tv_usec = 0\<rparr> = Some m'"
    by (simp add: cleanupSessions_def exManager_simps isStillValid_def exSess_simps dateGreater_def addSeconds_def difference_def Let_def)
  then obtain m' where m': "cleanupSessions exManager \<lparr>tv_sec = 70, tv_usec = 0\<rparr> = Some m'" by blast
  have "map_of (m_Sessions m') ''x'' \<noteq> Some (Some exSess)"
    using cleanup_exact [OF exManager_simps(3) m', of "''x''" "Some exSess"] by (simp add: exSess_simps)
  then show ?thesis using m' by blast
qed

theorem unknown_tokens_lock_out_witness:
  "\<forall>D Z now rl. \<exists>m'. fst (getSession exManager ''y'') = m' \<and> registerSession D Z now rl m' = Inr (rl, m', [], [])"
proof (intro allI)
  fix D Z now rl
  have "registerSession D Z now rl (fst (getSession exManager ''y'')) = Inr (rl, fst (getSession exManager ''y''), [], []) \<and>
    (\<forall>i s. map_of (m_Sessions (fst (getSession exManager ''y''))) i = Some (Some s) \<longleftrightarrow> map_of (m_Sessions exManager) i = Some (Some s))"
    by (rule unknown_tokens_lock_out [OF exManager_simps(3), of "[''y'']"]) (simp_all add: exManager_simps)
  then show "\<exists>m'. fst (getSession exManager ''y'') = m' \<and> registerSession D Z now rl m' = Inr (rl, m', [], [])" by blast
qed

definition exCleanups :: "(DateTime \<times> sessionOp) list" where
  "exCleanups = map (\<lambda>t. (\<lparr>tv_sec = t, tv_usec = 0\<rparr>, OCleanup)) [15, 40, 65]"


end
