(* ===== verification/Apartment_Structure.thy ===== *)
theory Apartment_Structure
  imports Set_Splitter Event_Core
begin

text \<open>
  The structure of the apartment and how it changes: allocation and removal of zones, devices and meters
  in \<^verbatim>\<open>src/src/model/apartment.cpp\<close>, the members of zones in \<^verbatim>\<open>src/src/model/zone.cpp\<close>, the zone and
  the groups of a device in \<^verbatim>\<open>src/src/model/device.cpp\<close>, and the groups that are created with a zone in
  \<^verbatim>\<open>src/src/model/group.cpp\<close>.  A pointer to a zone or to a device is its number, which the model keeps
  apart.  The property tree, the binary inputs and the states of devices are not modelled here.
\<close>

section \<open>Devices\<close>

definition newDevice :: "dsuid \<Rightarrow> device" where
  "newDevice r = \<lparr>d_dsid = r, d_name = [], d_zoneID = 0, d_lastKnownZoneID = 0, d_groupIds = [], d_functionID = 0,
     d_dsMeterDSID = [], d_lastKnownMeterDSID = [], d_isPresent = False, d_shortAddress = 0xFFFF,
     d_isVdc = False, d_sensorInputs = [], d_consumption = 0, d_tag = (\<lambda>_. False),
     d_binaryInputs = []\<rparr>"

definition getGroupZoneID :: "device \<Rightarrow> int \<Rightarrow> int" where
  "getGroupZoneID d groupID =
     (if isAppUserGroup groupID \<or> isGlobalAppGroup groupID then 0
      else if d_zoneID d > 0 then d_zoneID d else d_lastKnownZoneID d)"

definition tryGetGroup :: "apartment \<Rightarrow> device \<Rightarrow> int \<Rightarrow> group option" where
  "tryGetGroup A d groupId =
     (case tryGetZone A (getGroupZoneID d groupId) of None \<Rightarrow> None | Some z \<Rightarrow> zoneGroup z groupId)"

definition setZoneID :: "device \<Rightarrow> int \<Rightarrow> device" where
  "setZoneID d v =
     (if v = d_zoneID d then d
      else (let d = (if v \<noteq> 0 then d\<lparr>d_lastKnownZoneID := v\<rparr> else d) in d\<lparr>d_zoneID := v\<rparr>))"

definition setLastKnownZoneID :: "device \<Rightarrow> int \<Rightarrow> device" where
  "setLastKnownZoneID d v = d\<lparr>d_lastKnownZoneID := v\<rparr>"

definition addToGroup :: "device \<Rightarrow> int \<Rightarrow> device" where
  "addToGroup d g =
     (if isValidGroup g then if g \<notin> set (d_groupIds d) then d\<lparr>d_groupIds := d_groupIds d @ [g]\<rparr> else d
      else d)"

definition removeFromGroup :: "device \<Rightarrow> int \<Rightarrow> device" where
  "removeFromGroup d g = (if isValidGroup g then d\<lparr>d_groupIds := remove1 g (d_groupIds d)\<rparr> else d)"

text \<open>The loop does not end when the first number is not valid.\<close>

partial_function (option) resetGroups :: "device \<Rightarrow> device option" where
  "resetGroups d =
     (if length (d_groupIds d) > 0 then resetGroups (removeFromGroup d (hd (d_groupIds d))) else Some d)"

section \<open>Groups\<close>

definition newGroup :: "int \<Rightarrow> int \<Rightarrow> group" where
  "newGroup i zoneID = \<lparr>g_id = i, g_zoneID = zoneID, g_name = [], g_applicationType = AT_None, g_isValid = False,
     g_isCluster = False, g_lastCalledScene = SceneOff, g_lastButOneCalledScene = SceneOff,
     g_behavior = newDefaultBehavior SceneOff\<rparr>"

definition newCluster :: "int \<Rightarrow> group" where
  "newCluster i = (newGroup i 0)\<lparr>g_isCluster := True\<rparr>"

text \<open>The new type, and whether the state of the group is to be allocated.\<close>

definition setApplicationType :: "group \<Rightarrow> ApplicationType \<Rightarrow> group \<times> bool" where
  "setApplicationType g at =
     (if g_applicationType g = at then (g, False)
      else if (isDefaultGroup (g_id g) \<or> isGlobalAppDsGroup (g_id g)) \<and> g_applicationType g \<noteq> AT_None then (g, False)
      else
        (let invalid = (case at of AT_other _ \<Rightarrow> True | _ \<Rightarrow> False);
             b = (if at \<in> {AT_Ventilation, AT_ApartmentVentilation, AT_Recirculation, AT_ApartmentRecirculation}
                  then newVentilationBehavior (g_lastCalledScene g)
                  else newDefaultBehavior (g_lastCalledScene g));
             g = g\<lparr>g_applicationType := if invalid then AT_None else at, g_behavior := b\<rparr>
         in (g, g_zoneID g \<noteq> 0 \<and> (g_id g = GroupIDYellow \<or> g_id g = GroupIDHeating))))"

definition madeGroup :: "int \<Rightarrow> int \<Rightarrow> string \<Rightarrow> ApplicationType \<Rightarrow> group" where
  "madeGroup zoneID i name at = (fst (setApplicationType ((newGroup i zoneID)\<lparr>g_name := name\<rparr>) at))\<lparr>g_isValid := True\<rparr>"

section \<open>Zones\<close>

definition newZone :: "int \<Rightarrow> zone" where
  "newZone i = \<lparr>z_id = i, z_name = [], z_devices = [], z_groups = [], z_heatingOperationMode = 255,
     z_isPresent = False\<rparr>"

definition addGroup :: "zone \<Rightarrow> group \<Rightarrow> serror + zone" where
  "addGroup z g =
     (if g_id g > GroupIDGlobalAppDsVentilation then Inr z
      else if g_zoneID g \<noteq> z_id z then Inl (StdRuntime ''Zone::addGroup: ZoneID of _group does not match own'')
      else Inr (z\<lparr>z_groups := z_groups z @ [g]\<rparr>))"

definition removeGroup :: "zone \<Rightarrow> group \<Rightarrow> zone" where
  "removeGroup z g = z\<lparr>z_groups := remove1 g (z_groups z)\<rparr>"

definition updZone :: "apartment \<Rightarrow> int \<Rightarrow> (zone \<Rightarrow> zone) \<Rightarrow> apartment" where
  "updZone A i f = A\<lparr>a_zones := map (\<lambda>z. if z_id z = i then f z else z) (a_zones A)\<rparr>"

definition updDevice :: "apartment \<Rightarrow> dsuid \<Rightarrow> (device \<Rightarrow> device) \<Rightarrow> apartment" where
  "updDevice A r f = A\<lparr>a_devices := map (\<lambda>d. if d_dsid d = r then f d else d) (a_devices A)\<rparr>"

definition zoneRemoveDevice :: "zone \<Rightarrow> dsuid \<Rightarrow> zone" where
  "zoneRemoveDevice z r = z\<lparr>z_devices := remove1 r (z_devices z)\<rparr>"

definition pushDevice :: "zone \<Rightarrow> dsuid \<Rightarrow> zone" where
  "pushDevice z r = (if contains (z_devices z) r then z else z\<lparr>z_devices := z_devices z @ [r]\<rparr>)"

text \<open>The old zone of the device may be gone, which is caught.\<close>

definition zoneAddDevice :: "apartment \<Rightarrow> int \<Rightarrow> dsuid \<Rightarrow> serror + apartment" where
  "zoneAddDevice A zoneID r =
     sbind (getDeviceByDSID A r) (\<lambda>d.
       let oldZoneID = d_zoneID d;
           A = (if oldZoneID \<noteq> -1 \<and> oldZoneID \<noteq> 0 then updZone A oldZoneID (\<lambda>z. zoneRemoveDevice z r) else A);
           A = updZone A zoneID (\<lambda>z. pushDevice z r)
       in Inr (updDevice A r (\<lambda>d. setZoneID d zoneID)))"

section \<open>The apartment\<close>

definition defaultGroups :: "int \<Rightarrow> group list" where
  "defaultGroups z =
     [(newGroup GroupIDBroadcast z)\<lparr>g_name := ''broadcast''\<rparr>,
      madeGroup z GroupIDYellow ''yellow'' AT_Lights,
      madeGroup z GroupIDGray ''gray'' AT_Blinds,
      madeGroup z GroupIDHeating ''heating'' AT_Heating,
      madeGroup z GroupIDCyan ''cyan'' AT_Audio,
      madeGroup z GroupIDViolet ''magenta'' AT_Video,
      madeGroup z GroupIDRed ''reserved1'' AT_None,
      madeGroup z GroupIDGreen ''reserved2'' AT_None,
      madeGroup z GroupIDBlack ''black'' AT_Joker,
      madeGroup z GroupIDCooling ''cooling'' AT_Cooling,
      madeGroup z GroupIDVentilation ''ventilation'' AT_Ventilation,
      madeGroup z GroupIDWindow ''window'' AT_Window,
      madeGroup z GroupIDRecirculation ''recirculation'' AT_Recirculation,
      madeGroup z GroupIDControlTemperature ''controltemperature'' AT_ControlTemperature]"

definition zoneZeroGroups :: "group list" where
  "zoneZeroGroups =
     map newCluster (map int [nat GroupIDAppUserMin..<nat (GroupIDAppUserMax + 1)]) @
     [madeGroup 0 GroupIDGlobalAppDsVentilation ''apartmentVentilation'' AT_ApartmentVentilation]"

fun addGroups :: "zone \<Rightarrow> group list \<Rightarrow> serror + zone" where
  "addGroups z [] = Inr z"
| "addGroups z (g # gs) = sbind (addGroup z g) (\<lambda>z. addGroups z gs)"

definition allocateZone :: "apartment \<Rightarrow> int \<Rightarrow> serror + apartment" where
  "allocateZone A zoneID =
     (case tryGetZone A zoneID of
        Some _ \<Rightarrow> Inr A
      | None \<Rightarrow>
          sbind (addGroups (newZone zoneID) (defaultGroups zoneID)) (\<lambda>z.
          sbind (if zoneID = 0 then addGroups z zoneZeroGroups else Inr z) (\<lambda>z.
            Inr (A\<lparr>a_zones := a_zones A @ [z]\<rparr>))))"

definition newApartment :: "serror + apartment" where
  "newApartment =
     sbind (allocateZone \<lparr>a_devices = [], a_zones = [], a_dsMeters = []\<rparr> 0) (\<lambda>A.
       Inr (updZone A 0 (\<lambda>z. z\<lparr>z_isPresent := True\<rparr>)))"

definition allocateDevice :: "apartment \<Rightarrow> dsuid \<Rightarrow> serror + apartment" where
  "allocateDevice A r =
     (let A = (case tryGetDeviceByDSID A r of
                 Some _ \<Rightarrow> A | None \<Rightarrow> A\<lparr>a_devices := a_devices A @ [newDevice r]\<rparr>)
      in sbind (getZone A 0) (\<lambda>_. zoneAddDevice A 0 r))"

definition allocateDSMeter :: "apartment \<Rightarrow> dsuid \<Rightarrow> apartment" where
  "allocateDSMeter A r =
     (if find (\<lambda>m. dm_dsid m = r) (a_dsMeters A) \<noteq> None then A
      else A\<lparr>a_dsMeters := a_dsMeters A @ [\<lparr>dm_dsid = r, dm_name = [], dm_isVDSM = False, dm_hasMetering = False,
              dm_isPresent = False, dm_devices = []\<rparr>]\<rparr>)"

fun eraseFirst :: "('a \<Rightarrow> bool) \<Rightarrow> 'a list \<Rightarrow> 'a list" where
  "eraseFirst P [] = []"
| "eraseFirst P (x # xs) = (if P x then xs else x # eraseFirst P xs)"

definition removeZone :: "apartment \<Rightarrow> int \<Rightarrow> apartment" where
  "removeZone A zoneID = A\<lparr>a_zones := eraseFirst (\<lambda>z. z_id z = zoneID) (a_zones A)\<rparr>"

definition removeDSMeter :: "apartment \<Rightarrow> dsuid \<Rightarrow> apartment" where
  "removeDSMeter A r = A\<lparr>a_dsMeters := eraseFirst (\<lambda>m. dm_dsid m = r) (a_dsMeters A)\<rparr>"

text \<open>The second part of the result says whether the model is marked as changed.\<close>

definition removeInactiveMeters :: "apartment \<Rightarrow> apartment \<times> bool" where
  "removeInactiveMeters A =
     (let gone = filter (\<lambda>m. \<not> dm_isPresent m) (getDSMeters A)
      in (foldl (\<lambda>A m. removeDSMeter A (dm_dsid m)) A gone, gone \<noteq> []))"

definition meterRemoveDevice :: "dsmeter \<Rightarrow> dsuid \<Rightarrow> dsmeter" where
  "meterRemoveDevice m r = m\<lparr>dm_devices := remove1 r (dm_devices m)\<rparr>"

definition meterAddDevice :: "dsmeter \<Rightarrow> dsuid \<Rightarrow> dsmeter" where
  "meterAddDevice m r = (if contains (dm_devices m) r then m else m\<lparr>dm_devices := dm_devices m @ [r]\<rparr>)"

text \<open>\<open>place\<close> is where the reference to the device is.\<close>

definition deviceRemoved :: "(dsuid \<Rightarrow> nat) \<Rightarrow> device \<Rightarrow> event" where
  "deviceRemoved place d =
     (let e = newDeviceEvent ''DeviceEvent'' (place (d_dsid d));
          e = fst (setProperty e ''action'' ''deleted'');
          e = fst (setProperty e ''dsuid'' (dsuid2str (d_dsid d)))
      in fst (setProperty e ''zoneID'' (print_int (d_zoneID d))))"

text \<open>The event is pushed before anything can fail.\<close>

definition removeDeviceByDSID :: "(dsuid \<Rightarrow> nat) \<Rightarrow> apartment \<Rightarrow> dsuid \<Rightarrow> event option \<times> (serror + apartment)" where
  "removeDeviceByDSID place A r =
     (case tryGetDeviceByDSID A r of
        None \<Rightarrow> (None, Inr A)
      | Some d \<Rightarrow>
          (Some (deviceRemoved place d),
           sbind (if d_zoneID d \<noteq> 0
                  then sbind (getZone A (d_zoneID d)) (\<lambda>_. Inr (updZone A (d_zoneID d) (\<lambda>z. zoneRemoveDevice z r)))
                  else Inr A) (\<lambda>A.
           sbind (getZone A 0) (\<lambda>_.
             let A = updZone A 0 (\<lambda>z. zoneRemoveDevice z r);
                 A = A\<lparr>a_dsMeters := map (\<lambda>m. if dm_dsid m = d_dsMeterDSID d then meterRemoveDevice m r else m) (a_dsMeters A)\<rparr>
             in Inr (A\<lparr>a_devices := eraseFirst (\<lambda>d. d_dsid d = r) (a_devices A)\<rparr>)))))"

text \<open>A pointer that is no cluster becomes null in the list of clusters.\<close>

definition getClusters :: "apartment \<Rightarrow> serror + group option list" where
  "getClusters A =
     sbind (getZone A 0) (\<lambda>z. Inr (map (\<lambda>g. if g_isCluster g then Some g else None)
       (filter (\<lambda>g. isAppUserGroup (g_id g)) (z_groups z))))"

fun emptyClusterLoop :: "group option list \<Rightarrow> serror + group option" where
  "emptyClusterLoop [] = Inr None"
| "emptyClusterLoop (None # gs) = Inl NullPointer"
| "emptyClusterLoop (Some g # gs) = (if g_applicationType g = AT_None then Inr (Some g) else emptyClusterLoop gs)"

definition getEmptyCluster :: "apartment \<Rightarrow> serror + group option" where
  "getEmptyCluster A = sbind (getClusters A) emptyClusterLoop"

definition getGlobalApps :: "apartment \<Rightarrow> serror + group list" where
  "getGlobalApps A = sbind (getZone A 0) (\<lambda>z. Inr (filter (\<lambda>g. isGlobalAppGroup (g_id g)) (z_groups z)))"

text \<open>A cluster is given free when no device is in it.\<close>

definition resetCluster :: "group \<Rightarrow> group" where
  "resetCluster g =
     (let g = (fst (setApplicationType g AT_None))\<lparr>g_name := []\<rparr>
      in g\<lparr>g_behavior := setConfiguration (g_behavior g) 0\<rparr>)"

definition releaseCluster :: "apartment \<Rightarrow> group \<Rightarrow> serror + group \<times> bool" where
  "releaseCluster A g =
     sbind (groupDevices A g) (\<lambda>S. Inr (if S = [] then (resetCluster g, True) else (g, False)))"

end
