(* ===== verification/Structure_Laws.thy ===== *)
theory Structure_Laws
  imports Apartment_Structure
begin

text \<open>
  Every sequence of changes keeps the structure of the apartment: the zones list the devices that say
  they are in them.  With the groups of the devices present this is the consistency that the splitter
  of sets needs.
\<close>

section \<open>The invariant\<close>

definition inZone :: "device list \<Rightarrow> int \<Rightarrow> dsuid \<Rightarrow> bool" where
  "inZone ds i r \<longleftrightarrow> (\<exists>d \<in> set ds. d_dsid d = r \<and> (i = 0 \<or> d_zoneID d = i))"

lemma inZone_map:
  "(\<And>d. d_dsid (h d) = d_dsid d) \<Longrightarrow>
     inZone (map h ds) i r \<longleftrightarrow> (\<exists>d \<in> set ds. d_dsid d = r \<and> (i = 0 \<or> d_zoneID (h d) = i))"
  by (simp add: inZone_def)

definition zoneListed :: "apartment \<Rightarrow> zone \<Rightarrow> bool" where
  "zoneListed A z \<longleftrightarrow> distinct (z_devices z) \<and>
     (\<forall>r. r \<in> set (z_devices z) \<longleftrightarrow> inZone (a_devices A) (z_id z) r) \<and>
     (\<forall>g \<in> set (z_groups z). g_zoneID g = z_id z) \<and> zoneGroup z 0 \<noteq> None"

definition structureOK :: "apartment \<Rightarrow> bool" where
  "structureOK A \<longleftrightarrow>
     distinct (getDevices A) \<and> distinct (map z_id (a_zones A)) \<and> 0 \<in> z_id ` set (a_zones A) \<and>
     (\<forall>z \<in> set (a_zones A). 0 \<le> z_id z) \<and>
     (\<forall>d \<in> set (a_devices A). d_zoneID d \<in> z_id ` set (a_zones A) \<and> distinct (d_groupIds d) \<and>
        (\<forall>g \<in> set (d_groupIds d). isValidGroup g)) \<and>
     (\<forall>z \<in> set (a_zones A). zoneListed A z)"

lemma structureOKD:
  assumes "structureOK A"
  shows "distinct (getDevices A)" "distinct (map z_id (a_zones A))" "0 \<in> z_id ` set (a_zones A)"
    "d \<in> set (a_devices A) \<Longrightarrow> d_zoneID d \<in> z_id ` set (a_zones A)"
    "d \<in> set (a_devices A) \<Longrightarrow> distinct (d_groupIds d)"
    "d \<in> set (a_devices A) \<Longrightarrow> g \<in> set (d_groupIds d) \<Longrightarrow> isValidGroup g"
    "z \<in> set (a_zones A) \<Longrightarrow> zoneListed A z" "z \<in> set (a_zones A) \<Longrightarrow> 0 \<le> z_id z"
  using assms unfolding structureOK_def by (elim conjE; blast)+

lemma structure_groups:
  "structureOK A \<Longrightarrow> d \<in> set (a_devices A) \<Longrightarrow> distinct (d_groupIds d) \<and> (\<forall>g \<in> set (d_groupIds d). isValidGroup g)"
  using structureOKD(5, 6) by blast

lemma structureOKI:
  assumes "distinct (getDevices A)" and "distinct (map z_id (a_zones A))" and "0 \<in> z_id ` set (a_zones A)"
    and "\<And>d. d \<in> set (a_devices A) \<Longrightarrow> d_zoneID d \<in> z_id ` set (a_zones A)"
    and "\<And>d. d \<in> set (a_devices A) \<Longrightarrow> distinct (d_groupIds d) \<and> (\<forall>g \<in> set (d_groupIds d). isValidGroup g)"
    and "\<And>z. z \<in> set (a_zones A) \<Longrightarrow> zoneListed A z \<and> 0 \<le> z_id z"
  shows "structureOK A"
  using assms unfolding structureOK_def by blast

lemma zone_known: "structureOK A \<Longrightarrow> i \<in> z_id ` set (a_zones A) \<longleftrightarrow> tryGetZone A i \<noteq> None"
  by (auto simp: tryGetZone_def find_None_iff)

lemma device_unique: "structureOK A \<Longrightarrow> d \<in> set (a_devices A) \<Longrightarrow> d' \<in> set (a_devices A) \<Longrightarrow> d_dsid d = d_dsid d' \<Longrightarrow> d = d'"
  using structureOKD(1) [of A] by (simp add: getDevices_def distinct_map inj_on_def)

text \<open>The groups of the devices are there; the bus says which groups a device is in.\<close>

definition groupsPresent :: "apartment \<Rightarrow> bool" where
  "groupsPresent A \<longleftrightarrow> (\<forall>z \<in> set (a_zones A). \<forall>d \<in> set (a_devices A).
     z_id z = 0 \<or> d_zoneID d = z_id z \<longrightarrow> (\<forall>i \<in> set (d_groupIds d). zoneGroup z i \<noteq> None))"

lemma structure_consistent: "structureOK A \<Longrightarrow> groupsPresent A \<Longrightarrow> consistent A"
proof -
  assume s: "structureOK A" and g: "groupsPresent A"
  have "zoneOK A z" if z: "z \<in> set (a_zones A)" for z
  proof -
    have "set (z_devices z) = d_dsid ` set (filter (\<lambda>d. z_id z = 0 \<or> d_zoneID d = z_id z) (a_devices A))"
      using structureOKD(7) [OF s z] by (auto simp: zoneListed_def inZone_def)
    then show ?thesis
      using structureOKD(7) [OF s z] structureOKD(6) [OF s] g z by (auto simp: zoneOK_def zoneListed_def groupsPresent_def)
  qed
  then show ?thesis
    using structureOKD(1, 2, 3, 4) [OF s] zone_known [OF s] by (auto simp: consistent_def)
qed

section \<open>Changes of one device or one zone\<close>

lemma updDevice_ids: "(\<And>d. d_dsid (f d) = d_dsid d) \<Longrightarrow> getDevices (updDevice A r f) = getDevices A"
  by (simp add: updDevice_def getDevices_def)

lemma updZone_ids: "(\<And>z. z_id (f z) = z_id z) \<Longrightarrow> map z_id (a_zones (updZone A i f)) = map z_id (a_zones A)"
  by (simp add: updZone_def)

text \<open>A change of a device that leaves its number and its zone alone.\<close>

lemma structure_updDevice:
  assumes "structureOK A" and "\<And>d. d_dsid (f d) = d_dsid d" and "\<And>d. d_zoneID (f d) = d_zoneID d"
    and "\<And>d. distinct (d_groupIds d) \<Longrightarrow> distinct (d_groupIds (f d))"
    and "\<And>d. (\<forall>g \<in> set (d_groupIds d). isValidGroup g) \<Longrightarrow> (\<forall>g \<in> set (d_groupIds (f d)). isValidGroup g)"
  shows "structureOK (updDevice A r f)"
proof -
  let ?f = "\<lambda>d. if d_dsid d = r then f d else d"
  have D: "a_devices (updDevice A r f) = map ?f (a_devices A)" and Z: "a_zones (updDevice A r f) = a_zones A"
    by (simp_all add: updDevice_def)
  have f: "d_dsid (?f d) = d_dsid d" "d_zoneID (?f d) = d_zoneID d" for d using assms(2, 3) by simp_all
  have "inZone (map ?f (a_devices A)) i y = inZone (a_devices A) i y" for i y
    unfolding inZone_map [of ?f, OF f(1)] f(2) by (simp add: inZone_def)
  then have l: "zoneListed (updDevice A r f) z = zoneListed A z" for z by (simp add: zoneListed_def D)
  have g: "distinct (d_groupIds (?f d)) \<and> (\<forall>g \<in> set (d_groupIds (?f d)). isValidGroup g)" if "d \<in> set (a_devices A)" for d
    using structureOKD(5, 6) [OF assms(1) that] assms(4, 5) [of d] by auto
  show ?thesis
    unfolding structureOK_def Z l updDevice_ids [OF assms(2)] D set_map ball_simps
    using structureOKD [OF assms(1)] g f by (intro conjI ballI) (simp_all only:)
qed

lemma addToGroup_simps:
  "d_dsid (addToGroup d g) = d_dsid d" "d_zoneID (addToGroup d g) = d_zoneID d"
  "distinct (d_groupIds d) \<Longrightarrow> distinct (d_groupIds (addToGroup d g))"
  "(\<forall>g \<in> set (d_groupIds d). isValidGroup g) \<Longrightarrow> (\<forall>i \<in> set (d_groupIds (addToGroup d g)). isValidGroup i)"
  by (auto simp: addToGroup_def)

lemma removeFromGroup_simps:
  "d_dsid (removeFromGroup d g) = d_dsid d" "d_zoneID (removeFromGroup d g) = d_zoneID d"
  "distinct (d_groupIds d) \<Longrightarrow> distinct (d_groupIds (removeFromGroup d g))"
  "(\<forall>g \<in> set (d_groupIds d). isValidGroup g) \<Longrightarrow> (\<forall>i \<in> set (d_groupIds (removeFromGroup d g)). isValidGroup i)"
  by (auto simp: removeFromGroup_def split: if_splits dest: notin_set_remove1)

section \<open>Moving a device\<close>

lemma pushDevice_set:
  "set (z_devices (pushDevice z r)) = insert r (set (z_devices z))"
  "distinct (z_devices z) \<Longrightarrow> distinct (z_devices (pushDevice z r))"
  by (auto simp: pushDevice_def contains_def)

text \<open>The lists of the zones after a device was moved.\<close>

lemma zoneAddDevice_result:
  assumes "structureOK A" and "tryGetDeviceByDSID A r = Some d" and "tryGetZone A zid \<noteq> None"
  shows "\<exists>A'. zoneAddDevice A zid r = Inr A' \<and> structureOK A' \<and>
    a_devices A' = map (\<lambda>d. if d_dsid d = r then setZoneID d zid else d) (a_devices A) \<and>
    map z_id (a_zones A') = map z_id (a_zones A) \<and> map z_groups (a_zones A') = map z_groups (a_zones A)"
proof -
  let ?f = "\<lambda>d. if d_dsid d = r then setZoneID d zid else d"
  let ?out = "\<lambda>z. if d_zoneID d \<noteq> -1 \<and> d_zoneID d \<noteq> 0 \<and> z_id z = d_zoneID d then zoneRemoveDevice z r else z"
  let ?in = "\<lambda>z. if z_id z = zid then pushDevice z r else z"
  define A' where "A' = A\<lparr>a_devices := map ?f (a_devices A), a_zones := map (\<lambda>z. ?in (?out z)) (a_zones A)\<rparr>"
  have d: "d \<in> set (a_devices A)" "d_dsid d = r" using tryGet_dsid [OF assms(2)] by simp_all
  have res: "zoneAddDevice A zid r = Inr A'"
    using assms(2)
    by (simp add: zoneAddDevice_def getDeviceByDSID_def Let_def updZone_def updDevice_def A'_def comp_def zoneRemoveDevice_def)
  have io: "z_id (?in (?out z)) = z_id z" "z_groups (?in (?out z)) = z_groups z" for z
    by (simp_all add: pushDevice_def zoneRemoveDevice_def)
  have f: "d_dsid (?f x) = d_dsid x" "d_groupIds (?f x) = d_groupIds x"
      "d_zoneID (?f x) = (if d_dsid x = r then zid else d_zoneID x)" for x
    by (simp_all add: setZoneID_def Let_def)
  have D: "set (a_devices A') = ?f ` set (a_devices A)" by (simp add: A'_def)
  have ids: "map z_id (a_zones A') = map z_id (a_zones A)" by (simp add: A'_def io comp_def)
  then have zs: "z_id ` set (a_zones A') = z_id ` set (a_zones A)" by (metis list.set_map)
  have uniq: "x = d" if "x \<in> set (a_devices A)" "d_dsid x = r" for x
    using device_unique [OF assms(1) that(1) d(1)] that(2) d(2) by simp
  have "zoneListed A' z'" if "z' \<in> set (a_zones A')" for z'
  proof -
    from that obtain z where z: "z \<in> set (a_zones A)" "z' = ?in (?out z)" by (auto simp: A'_def)
    note L = structureOKD(7) [OF assms(1) z(1), unfolded zoneListed_def]
    let ?i = "z_id z"
    have out: "distinct (z_devices (?out z))"
        "set (z_devices (?out z)) = set (z_devices z) - (if d_zoneID d \<noteq> -1 \<and> d_zoneID d \<noteq> 0 \<and> ?i = d_zoneID d then {r} else {})"
      using L by (auto simp: zoneRemoveDevice_def set_remove1_eq)
    have i: "z_id (?out z) = ?i" by (simp add: zoneRemoveDevice_def)
    have dev: "distinct (z_devices z')" "set (z_devices z') = set (z_devices (?out z)) \<union> (if ?i = zid then {r} else {})"
      unfolding z(2) i using pushDevice_set [of "?out z" r] out(1) by (simp_all only: split: if_split) simp_all
    have "y \<in> set (z_devices z') \<longleftrightarrow> inZone (map ?f (a_devices A)) ?i y" for y
    proof -
      have rhs: "inZone (map ?f (a_devices A)) ?i y \<longleftrightarrow>
          (\<exists>x \<in> set (a_devices A). d_dsid x = y \<and> (?i = 0 \<or> (if d_dsid x = r then zid else d_zoneID x) = ?i))"
        unfolding inZone_map [of ?f, OF f(1)] f(3) by (rule refl)
      have lhs: "y \<in> set (z_devices z) \<longleftrightarrow> inZone (a_devices A) ?i y" using L by simp
      show ?thesis
      proof (cases "y = r")
        case True
        have "r \<in> set (z_devices z) \<longleftrightarrow> ?i = 0 \<or> d_zoneID d = ?i"
          using lhs True uniq d unfolding inZone_def by blast
        moreover have "0 \<le> ?i" using structureOKD(8) [OF assms(1) z(1)] .
        ultimately have "r \<in> set (z_devices z') \<longleftrightarrow> ?i = 0 \<or> ?i = zid"
          unfolding dev(2) out(2) by auto
        moreover have "(\<exists>x \<in> set (a_devices A). d_dsid x = r \<and> (?i = 0 \<or> (if d_dsid x = r then zid else d_zoneID x) = ?i))
            \<longleftrightarrow> ?i = 0 \<or> ?i = zid"
          using d by auto
        ultimately show ?thesis unfolding True using rhs unfolding True by simp
      next
        case False
        then have "(\<exists>x \<in> set (a_devices A). d_dsid x = y \<and> (?i = 0 \<or> (if d_dsid x = r then zid else d_zoneID x) = ?i))
            \<longleftrightarrow> inZone (a_devices A) ?i y"
          unfolding inZone_def by (intro bex_cong) auto
        moreover have "y \<in> set (z_devices z') \<longleftrightarrow> y \<in> set (z_devices z)" using False dev(2) out(2) by auto
        ultimately show ?thesis unfolding rhs using lhs by simp
      qed
    qed
    then show ?thesis using dev(1) L by (simp add: zoneListed_def z(2) io zoneGroup_def) (simp add: A'_def)
  qed
  moreover have "d_zoneID (?f x) \<in> z_id ` set (a_zones A)" if "x \<in> set (a_devices A)" for x
    using structureOKD(4) [OF assms(1) that] assms(3) zone_known [OF assms(1), of zid] by (simp add: f(3))
  moreover have "0 \<le> z_id z'" if "z' \<in> set (a_zones A')" for z'
  proof -
    have "z_id z' \<in> z_id ` set (a_zones A)" using that zs by blast
    then show ?thesis using structureOKD(8) [OF assms(1)] by auto
  qed
  moreover have "getDevices A' = getDevices A" by (simp add: A'_def getDevices_def comp_def f(1))
  ultimately have "structureOK A'"
  proof (intro structureOKI, goal_cases)
    case 1
    then show ?case using structureOKD(1) [OF assms(1)] by simp
  next
    case 2
    show ?case unfolding ids by (rule structureOKD(2) [OF assms(1)])
  next
    case 3
    show ?case unfolding zs by (rule structureOKD(3) [OF assms(1)])
  next
    case (4 x)
    then obtain y where "y \<in> set (a_devices A)" "x = ?f y" by (auto simp: D)
    then show ?case using 4(2) unfolding zs by blast
  next
    case (5 x)
    then obtain y where "y \<in> set (a_devices A)" "x = ?f y" by (auto simp: D)
    then show ?case using structureOKD(5, 6) [OF assms(1)] by (simp only: f(2)) blast
  qed blast
  then show ?thesis using res ids io by (simp add: A'_def comp_def)
qed

section \<open>Allocation\<close>

lemma addGroups_all:
  "(\<And>g. g \<in> set gs \<Longrightarrow> g_zoneID g = z_id z \<and> g_id g \<le> GroupIDGlobalAppDsVentilation) \<Longrightarrow>
     addGroups z gs = Inr (z\<lparr>z_groups := z_groups z @ gs\<rparr>)"
proof (induction gs arbitrary: z)
  case (Cons g gs)
  from Cons.prems [of g] have "addGroup z g = Inr (z\<lparr>z_groups := z_groups z @ [g]\<rparr>)" by (simp add: addGroup_def)
  then show ?case using Cons.IH [of "z\<lparr>z_groups := z_groups z @ [g]\<rparr>"] Cons.prems by simp
qed simp

lemma madeGroup_simps [simp]: "g_id (madeGroup z i n at) = i" "g_zoneID (madeGroup z i n at) = z"
  by (simp_all add: madeGroup_def setApplicationType_def newGroup_def Let_def)

lemma newGroup_simps [simp]: "g_id (newGroup i z) = i" "g_zoneID (newGroup i z) = z"
  "g_id (newCluster i) = i" "g_zoneID (newCluster i) = 0"
  by (simp_all add: newGroup_def newCluster_def)

lemma defaultGroups_ok:
  "g \<in> set (defaultGroups z) \<Longrightarrow> g_zoneID g = z \<and> g_id g \<le> GroupIDGlobalAppDsVentilation"
  by (auto simp: defaultGroups_def group_consts)

lemma zoneZeroGroups_ok:
  "g \<in> set zoneZeroGroups \<Longrightarrow> g_zoneID g = 0 \<and> g_id g \<le> GroupIDGlobalAppDsVentilation"
  by (auto simp: zoneZeroGroups_def GroupIDAppUserMin_def GroupIDAppUserMax_def GroupIDGlobalAppDsVentilation_def)

lemma allocateZone_result:
  "\<exists>z. allocateZone A i = Inr (case tryGetZone A i of Some _ \<Rightarrow> A | None \<Rightarrow> A\<lparr>a_zones := a_zones A @ [z]\<rparr>) \<and>
     z_id z = i \<and> z_devices z = [] \<and> (\<forall>g \<in> set (z_groups z). g_zoneID g = i) \<and> zoneGroup z 0 \<noteq> None"
proof -
  let ?gs = "defaultGroups i @ (if i = 0 then zoneZeroGroups else [])"
  let ?z = "(newZone i)\<lparr>z_groups := ?gs\<rparr>"
  have d: "addGroups (newZone i) (defaultGroups i) = Inr ((newZone i)\<lparr>z_groups := defaultGroups i\<rparr>)"
    using addGroups_all [of "defaultGroups i" "newZone i"] defaultGroups_ok by (simp add: newZone_def)
  have "addGroups ((newZone 0)\<lparr>z_groups := defaultGroups 0\<rparr>) zoneZeroGroups =
      Inr ((newZone 0)\<lparr>z_groups := defaultGroups 0 @ zoneZeroGroups\<rparr>)"
    using addGroups_all [of zoneZeroGroups "(newZone 0)\<lparr>z_groups := defaultGroups 0\<rparr>"] zoneZeroGroups_ok
    by (simp add: newZone_def)
  with d have "allocateZone A i = Inr (case tryGetZone A i of Some _ \<Rightarrow> A | None \<Rightarrow> A\<lparr>a_zones := a_zones A @ [?z]\<rparr>)"
    by (auto simp: allocateZone_def split: option.splits)
  moreover have "zoneGroup ?z 0 \<noteq> None"
    by (simp add: zoneGroup_def defaultGroups_def GroupIDBroadcast_def)
  moreover have "\<forall>g \<in> set ?gs. g_zoneID g = i" using defaultGroups_ok zoneZeroGroups_ok by auto
  ultimately show ?thesis by (intro exI [of _ ?z]) (simp add: newZone_def)
qed

text \<open>A zone that is added lists nothing, because the zones of all devices are there.\<close>

lemma structure_addZone:
  assumes "structureOK A" and "tryGetZone A i = None" and "0 \<le> i" and "z_id z = i" and "z_devices z = []"
    and "\<forall>g \<in> set (z_groups z). g_zoneID g = i" and "zoneGroup z 0 \<noteq> None"
  shows "structureOK (A\<lparr>a_zones := a_zones A @ [z]\<rparr>)"
proof -
  have i: "i \<notin> z_id ` set (a_zones A)" using zone_known [OF assms(1)] assms(2) by auto
  then have "i \<noteq> 0" using structureOKD(3) [OF assms(1)] by auto
  then have "\<not> inZone (a_devices A) i r" for r
    using i structureOKD(4) [OF assms(1)] by (auto simp: inZone_def)
  then have new: "zoneListed (A\<lparr>a_zones := a_zones A @ [z]\<rparr>) z" using assms by (simp add: zoneListed_def)
  have old: "zoneListed (A\<lparr>a_zones := a_zones A @ [z]\<rparr>) y = zoneListed A y" for y by (simp add: zoneListed_def)
  show ?thesis
  proof (rule structureOKI, goal_cases)
    case 1
    then show ?case using structureOKD(1) [OF assms(1)] by (simp add: getDevices_def)
  next
    case 2
    then show ?case using structureOKD(2) [OF assms(1)] i assms(4) by simp
  next
    case 3
    then show ?case using structureOKD(3) [OF assms(1)] by simp
  next
    case (4 d)
    then show ?case using structureOKD(4) [OF assms(1), of d] by simp
  next
    case (5 d)
    then have "d \<in> set (a_devices A)" by simp
    then show ?case by (rule structure_groups [OF assms(1)])
  next
    case (6 y)
    then consider "y = z" | "y \<in> set (a_zones A)" by auto
    then show ?case
      using new assms(3, 4) structureOKD(7, 8) [OF assms(1), of y] by cases (simp_all add: old)
  qed
qed

lemma structure_new: "newApartment = Inr A \<Longrightarrow> structureOK A"
proof -
  assume n: "newApartment = Inr A"
  let ?E = "\<lparr>a_devices = [], a_zones = [], a_dsMeters = []\<rparr>"
  obtain z where z: "allocateZone ?E 0 = Inr (?E\<lparr>a_zones := [z]\<rparr>)" "z_id z = 0" "z_devices z = []"
      "\<forall>g \<in> set (z_groups z). g_zoneID g = 0" "zoneGroup z 0 \<noteq> None"
    using allocateZone_result [of ?E 0] by (auto simp: tryGetZone_def)
  with n have "A = ?E\<lparr>a_zones := [z\<lparr>z_isPresent := True\<rparr>]\<rparr>" by (simp add: newApartment_def sbind_def updZone_def)
  then show ?thesis using z(2-) by (auto simp: structureOK_def zoneListed_def inZone_def getDevices_def zoneGroup_def)
qed

lemma newDevice_simps:
  "d_dsid (newDevice r) = r" "d_zoneID (newDevice r) = 0" "d_groupIds (newDevice r) = []"
  by (simp_all add: newDevice_def)

lemma newDevice_groups: "distinct (d_groupIds (newDevice r)) \<and> (\<forall>g \<in> set (d_groupIds (newDevice r)). isValidGroup g)"
  by (simp add: newDevice_simps)

text \<open>A device that is not known yet is listed in zone 0 only.\<close>

lemma structure_newDevice:
  assumes "structureOK A" and "tryGetDeviceByDSID A r = None"
  shows "\<exists>A'. allocateDevice A r = Inr A' \<and> structureOK A' \<and> a_devices A' = a_devices A @ [newDevice r] \<and>
    map z_id (a_zones A') = map z_id (a_zones A) \<and> map z_groups (a_zones A') = map z_groups (a_zones A)"
proof -
  have r: "r \<notin> set (getDevices A)" using assms(2) by (auto simp: tryGetDeviceByDSID_def find_None_iff getDevices_def)
  define A' where "A' = A\<lparr>a_devices := a_devices A @ [newDevice r],
    a_zones := map (\<lambda>z. if z_id z = 0 then pushDevice z r else z) (a_zones A)\<rparr>"
  have f: "find (\<lambda>d. d_dsid d = r) (a_devices A @ [newDevice r]) = Some (newDevice r)"
  proof -
    have "find (\<lambda>d. d_dsid d = r) (ds @ [newDevice r]) = Some (newDevice r)" if "r \<notin> d_dsid ` set ds" for ds
      using that by (induction ds) (auto simp: newDevice_def)
    then show ?thesis using r by (simp add: getDevices_def)
  qed
  have m: "map (\<lambda>d. if d_dsid d = r then setZoneID d 0 else d) (a_devices A @ [newDevice r]) = a_devices A @ [newDevice r]"
    using r by (auto simp: getDevices_def setZoneID_def newDevice_def intro!: map_idI)
  obtain z0 where "getZone A 0 = Inr z0" using zone_known [OF assms(1), of 0] structureOKD(3) [OF assms(1)]
    by (auto simp: getZone_def)
  then have "allocateDevice A r = Inr A'"
    using assms(2) f m
    by (simp add: allocateDevice_def Let_def getZone_def tryGetZone_def zoneAddDevice_def getDeviceByDSID_def
        tryGetDeviceByDSID_def updZone_def updDevice_def A'_def newDevice_def split: option.splits)
  moreover have zs: "map z_id (a_zones A') = map z_id (a_zones A)" "map z_groups (a_zones A') = map z_groups (a_zones A)"
    by (simp_all add: A'_def pushDevice_def comp_def)
  moreover have "structureOK A'"
  proof (rule structureOKI, goal_cases)
    case 1
    then show ?case using structureOKD(1) [OF assms(1)] r by (simp add: A'_def getDevices_def newDevice_def)
  next
    case 2
    show ?case unfolding zs(1) by (rule structureOKD(2) [OF assms(1)])
  next
    case 3
    show ?case using structureOKD(3) [OF assms(1)] zs(1) by (metis list.set_map)
  next
    case (4 d)
    then consider "d = newDevice r" | "d \<in> set (a_devices A)" by (auto simp: A'_def)
    then have "d_zoneID d \<in> z_id ` set (a_zones A)"
      using structureOKD(3) [OF assms(1)] structureOKD(4) [OF assms(1), of d] by cases (simp_all add: newDevice_simps)
    then show ?case using zs(1) by (metis list.set_map)
  next
    case (5 d)
    then have "d = newDevice r \<or> d \<in> set (a_devices A)" by (auto simp: A'_def)
    then show ?case using structure_groups [OF assms(1), of d] newDevice_groups [of r] by blast
  next
    case (6 z')
    then obtain z where z: "z \<in> set (a_zones A)" "z' = (if z_id z = 0 then pushDevice z r else z)" by (auto simp: A'_def)
    note L = structureOKD(7) [OF assms(1) z(1), unfolded zoneListed_def]
    have id: "z_id z' = z_id z" "z_groups z' = z_groups z" by (simp_all add: z(2) pushDevice_def)
    have inz: "inZone (a_devices A') i y \<longleftrightarrow> inZone (a_devices A) i y \<or> y = r \<and> i = 0" for i y
      by (simp add: inZone_def A'_def newDevice_simps) blast
    have "distinct (z_devices z') \<and> (\<forall>y. y \<in> set (z_devices z') \<longleftrightarrow> y \<in> set (z_devices z) \<or> y = r \<and> z_id z = 0)"
      using pushDevice_set [of z r] L by (cases "z_id z = 0") (simp_all add: z(2), blast)
    then show ?case using L structureOKD(8) [OF assms(1) z(1)] by (simp add: zoneListed_def id zoneGroup_def inz)
  qed
  ultimately show ?thesis by (simp add: A'_def)
qed

section \<open>Removal\<close>

lemma eraseFirst_filter: "distinct (map f xs) \<Longrightarrow> eraseFirst (\<lambda>x. f x = k) xs = filter (\<lambda>x. f x \<noteq> k) xs"
proof (induction xs)
  case (Cons x xs)
  then show ?case by (cases "f x = k") (auto simp: image_iff intro!: filter_True [symmetric])
qed simp

text \<open>Only a zone without devices may go, and never the zone 0.\<close>

lemma structure_removeZone:
  assumes "structureOK A" and "i \<noteq> 0" and "\<And>z. tryGetZone A i = Some z \<Longrightarrow> z_devices z = []"
  shows "structureOK (removeZone A i)"
proof -
  have Z: "a_zones (removeZone A i) = filter (\<lambda>z. z_id z \<noteq> i) (a_zones A)" and D: "a_devices (removeZone A i) = a_devices A"
    using structureOKD(2) [OF assms(1)] by (simp_all add: removeZone_def eraseFirst_filter)
  have no: "d_zoneID d \<noteq> i" if d: "d \<in> set (a_devices A)" for d
  proof
    assume i: "d_zoneID d = i"
    then have "tryGetZone A i \<noteq> None" using structureOKD(4) [OF assms(1) d] zone_known [OF assms(1), of i] by simp
    then obtain z where z: "tryGetZone A i = Some z" by blast
    then have "z \<in> set (a_zones A)" "z_id z = i" by (auto simp: tryGetZone_def find_Some_iff)
    then have "d_dsid d \<in> set (z_devices z)"
      using structureOKD(7) [OF assms(1), of z] d i by (auto simp: zoneListed_def inZone_def)
    then show False using assms(3) [OF z] by simp
  qed
  have ids: "z_id ` set (a_zones (removeZone A i)) = z_id ` set (a_zones A) - {i}" by (auto simp: Z)
  show ?thesis
  proof (rule structureOKI, goal_cases)
    case 1
    then show ?case using structureOKD(1) [OF assms(1)] by (simp add: D getDevices_def)
  next
    case 2
    then show ?case using structureOKD(2) [OF assms(1)] by (simp add: Z distinct_map_filter)
  next
    case 3
    then show ?case using structureOKD(3) [OF assms(1)] assms(2) ids by simp
  next
    case (4 d)
    then show ?case using structureOKD(4) [OF assms(1), of d] no [of d] ids by (simp add: D)
  next
    case (5 d)
    then have "d \<in> set (a_devices A)" by (simp add: D)
    then show ?case by (rule structure_groups [OF assms(1)])
  next
    case (6 z)
    then have "z \<in> set (a_zones A)" by (simp add: Z)
    then show ?case using structureOKD(7, 8) [OF assms(1), of z] by (simp add: zoneListed_def D)
  qed
qed

lemma structure_removeDevice:
  assumes "structureOK A" and "snd (removeDeviceByDSID place A r) = Inr A'"
  shows "structureOK A' \<and> r \<notin> set (getDevices A') \<and> (\<forall>z \<in> set (a_zones A'). r \<notin> set (z_devices z))"
proof (cases "tryGetDeviceByDSID A r")
  case None
  then have A': "A' = A" using assms(2) by (simp add: removeDeviceByDSID_def)
  have r: "r \<notin> set (getDevices A)" using None by (auto simp: tryGetDeviceByDSID_def find_None_iff getDevices_def)
  have "r \<notin> set (z_devices z)" if "z \<in> set (a_zones A)" for z
    using structureOKD(7) [OF assms(1) that] r by (auto simp: zoneListed_def inZone_def getDevices_def)
  then show ?thesis using assms(1) r A' by simp
next
  case (Some d)
  note d = tryGet_dsid [OF Some]
  have uniq: "x = d" if "x \<in> set (a_devices A)" "d_dsid x = r" for x
    using device_unique [OF assms(1) that(1), of d] that(2) d by simp
  let ?h = "\<lambda>z. if z_id z = 0 \<or> z_id z = d_zoneID d then zoneRemoveDevice z r else z"
  have once: "zoneRemoveDevice (zoneRemoveDevice z r) r = zoneRemoveDevice z r" if "z \<in> set (a_zones A)" for z
    using structureOKD(7) [OF assms(1) that] by (simp add: zoneListed_def zoneRemoveDevice_def remove1_idem)
  have zid: "z_id (zoneRemoveDevice z r) = z_id z" for z by (simp add: zoneRemoveDevice_def)
  have D: "a_devices A' = filter (\<lambda>d. d_dsid d \<noteq> r) (a_devices A)"
    and Z: "a_zones A' = map ?h (a_zones A)"
    using assms(2) Some structureOKD(1) [OF assms(1)]
    by (auto simp: removeDeviceByDSID_def sbind_def Let_def updZone_def getDevices_def eraseFirst_filter zid comp_def
        split: if_splits sum.splits)
  have io: "z_id (?h z) = z_id z" "z_groups (?h z) = z_groups z" for z by (simp_all add: zoneRemoveDevice_def)
  have ids: "map z_id (a_zones A') = map z_id (a_zones A)" by (simp add: Z comp_def zid)
  then have zs: "z_id ` set (a_zones A') = z_id ` set (a_zones A)" by (metis list.set_map)
  have inz: "inZone (a_devices A') i y \<longleftrightarrow> inZone (a_devices A) i y \<and> y \<noteq> r" for i y
    by (auto simp: inZone_def D)
  have listed: "distinct (z_devices (?h z)) \<and> (\<forall>y. y \<in> set (z_devices (?h z)) \<longleftrightarrow> inZone (a_devices A') (z_id z) y)"
    if z: "z \<in> set (a_zones A)" for z
  proof -
    have L: "distinct (z_devices z)" "y \<in> set (z_devices z) \<longleftrightarrow> inZone (a_devices A) (z_id z) y" for y
      using structureOKD(7) [OF assms(1) z] by (simp_all add: zoneListed_def)
    show ?thesis
    proof (cases "z_id z = 0 \<or> z_id z = d_zoneID d")
      case True
      then show ?thesis using L by (auto simp: inz zoneRemoveDevice_def)
    next
      case False
      then have "\<not> inZone (a_devices A) (z_id z) r"
        using uniq unfolding inZone_def by metis
      then show ?thesis using L False by (auto simp: inz)
    qed
  qed
  have "structureOK A'"
  proof (rule structureOKI, goal_cases)
    case 1
    then show ?case using structureOKD(1) [OF assms(1)] by (simp add: D getDevices_def distinct_map_filter)
  next
    case 2
    show ?case unfolding ids by (rule structureOKD(2) [OF assms(1)])
  next
    case 3
    show ?case unfolding zs by (rule structureOKD(3) [OF assms(1)])
  next
    case (4 x)
    then show ?case unfolding zs using structureOKD(4) [OF assms(1), of x] by (simp add: D)
  next
    case (5 x)
    then have "x \<in> set (a_devices A)" by (simp add: D)
    then show ?case by (rule structure_groups [OF assms(1)])
  next
    case (6 z')
    then obtain z where z: "z \<in> set (a_zones A)" "z' = ?h z" by (auto simp: Z)
    have "\<forall>g \<in> set (z_groups z). g_zoneID g = z_id z" "zoneGroup z 0 \<noteq> None" "0 \<le> z_id z"
      using structureOKD(7, 8) [OF assms(1) z(1)] by (simp_all add: zoneListed_def)
    then show ?case using listed [OF z(1)] unfolding zoneListed_def z(2) io zoneGroup_def by simp
  qed
  moreover have "r \<notin> set (getDevices A')" by (auto simp: D getDevices_def)
  moreover have "r \<notin> set (z_devices z')" if "z' \<in> set (a_zones A')" for z'
  proof -
    from that obtain z where z: "z \<in> set (a_zones A)" "z' = ?h z" by (auto simp: Z)
    then show ?thesis using listed [OF z(1)] inz by blast
  qed
  ultimately show ?thesis by blast
qed

section \<open>Changes of the groups of a zone\<close>

lemma structure_groups_of:
  assumes "structureOK A" and "tryGetZone A i = Some z" and "z_id z' = i" and "z_devices z' = z_devices z"
    and "\<forall>g \<in> set (z_groups z'). g_zoneID g = i" and "zoneGroup z' 0 \<noteq> None"
  shows "structureOK (updZone A i (\<lambda>_. z'))"
proof -
  let ?h = "\<lambda>y. if z_id y = i then z' else y"
  have z: "z \<in> set (a_zones A)" "z_id z = i" using assms(2) by (auto simp: tryGetZone_def find_Some_iff)
  have Z: "a_zones (updZone A i (\<lambda>_. z')) = map ?h (a_zones A)" and D: "a_devices (updZone A i (\<lambda>_. z')) = a_devices A"
    by (simp_all add: updZone_def)
  have ids: "map z_id (a_zones (updZone A i (\<lambda>_. z'))) = map z_id (a_zones A)"
    unfolding Z map_map by (rule map_cong) (simp_all add: assms(3))
  then have zs: "z_id ` set (a_zones (updZone A i (\<lambda>_. z'))) = z_id ` set (a_zones A)" by (metis list.set_map)
  show ?thesis
  proof (rule structureOKI, goal_cases)
    case 1
    then show ?case using structureOKD(1) [OF assms(1)] by (simp add: D getDevices_def)
  next
    case 2
    show ?case unfolding ids by (rule structureOKD(2) [OF assms(1)])
  next
    case 3
    show ?case unfolding zs by (rule structureOKD(3) [OF assms(1)])
  next
    case (4 d)
    then show ?case unfolding zs using structureOKD(4) [OF assms(1), of d] by (simp add: D)
  next
    case (5 d)
    then have "d \<in> set (a_devices A)" by (simp add: D)
    then show ?case by (rule structure_groups [OF assms(1)])
  next
    case (6 y)
    then consider "y = z'" | "y \<in> set (a_zones A)" by (auto simp: Z split: if_splits)
    then show ?case
    proof cases
      case 1
      then show ?thesis using structureOKD(7, 8) [OF assms(1) z(1)] assms(3-6) z(2) by (simp add: zoneListed_def D)
    next
      case 2
      then show ?thesis using structureOKD(7, 8) [OF assms(1), of y] by (simp add: zoneListed_def D)
    qed
  qed
qed

section \<open>All changes\<close>

text \<open>
  The changes that the server makes, with what their callers see to: zones are numbered from 0, a zone is
  only removed when it is not the whole apartment and its devices have left it, and the broadcast group
  of a zone is never taken away.
\<close>

inductive structStep :: "apartment \<Rightarrow> apartment \<Rightarrow> bool" where
  StepDevice: "allocateDevice A r = Inr A' \<Longrightarrow> structStep A A'"
| StepMove: "tryGetZone A i \<noteq> None \<Longrightarrow> zoneAddDevice A i r = Inr A' \<Longrightarrow> structStep A A'"
| StepZone: "0 \<le> i \<Longrightarrow> allocateZone A i = Inr A' \<Longrightarrow> structStep A A'"
| StepMeter: "structStep A (allocateDSMeter A r)"
| StepRemoveMeter: "structStep A (removeDSMeter A r)"
| StepRemoveZone: "i \<noteq> 0 \<Longrightarrow> (\<And>z. tryGetZone A i = Some z \<Longrightarrow> z_devices z = []) \<Longrightarrow> structStep A (removeZone A i)"
| StepRemoveDevice: "snd (removeDeviceByDSID place A r) = Inr A' \<Longrightarrow> structStep A A'"
| StepJoin: "structStep A (updDevice A r (\<lambda>d. addToGroup d g))"
| StepLeave: "structStep A (updDevice A r (\<lambda>d. removeFromGroup d g))"
| StepLastKnown: "structStep A (updDevice A r (\<lambda>d. setLastKnownZoneID d i))"
| StepAddGroup: "tryGetZone A i = Some z \<Longrightarrow> addGroup z g = Inr z' \<Longrightarrow> structStep A (updZone A i (\<lambda>_. z'))"
| StepRemoveGroup: "tryGetZone A i = Some z \<Longrightarrow> g_id g \<noteq> 0 \<Longrightarrow> structStep A (updZone A i (\<lambda>_. removeGroup z g))"

inductive reachableApartment :: "apartment \<Rightarrow> bool" where
  ReachNew: "newApartment = Inr A \<Longrightarrow> reachableApartment A"
| ReachStep: "reachableApartment A \<Longrightarrow> structStep A A' \<Longrightarrow> reachableApartment A'"

inductive_cases structStepE: "structStep A A'"

lemma allocateDevice_known:
  assumes "structureOK A" and "allocateDevice A r = Inr A'"
  shows "structureOK A'"
proof (cases "tryGetDeviceByDSID A r")
  case None
  then show ?thesis using structure_newDevice [OF assms(1) None] assms(2) by auto
next
  case (Some d)
  obtain z0 where "tryGetZone A 0 = Some z0" using zone_known [OF assms(1), of 0] structureOKD(3) [OF assms(1)] by auto
  then have "tryGetZone A 0 \<noteq> None" "zoneAddDevice A 0 r = Inr A'"
    using assms(2) Some by (auto simp: allocateDevice_def getZone_def)
  then show ?thesis using zoneAddDevice_result [OF assms(1) Some, of 0] by auto
qed

lemma structure_meters: "structureOK A \<Longrightarrow> a_devices A' = a_devices A \<Longrightarrow> a_zones A' = a_zones A \<Longrightarrow> structureOK A'"
  by (simp add: structureOK_def zoneListed_def getDevices_def)

lemma structStep_structure: "structStep A A' \<Longrightarrow> structureOK A \<Longrightarrow> structureOK A'"
proof (induction rule: structStep.induct)
  case (StepDevice A r A')
  then show ?case using allocateDevice_known by blast
next
  case (StepMove A i r A')
  then obtain d where "tryGetDeviceByDSID A r = Some d"
    by (cases "tryGetDeviceByDSID A r") (auto simp: zoneAddDevice_def getDeviceByDSID_def)
  then show ?case using zoneAddDevice_result [of A r d i] StepMove by auto
next
  case (StepZone i A A')
  then show ?case
    using allocateZone_result [of A i] structure_addZone [of A i] by (auto split: option.splits)
next
  case (StepMeter A r)
  then show ?case by (rule structure_meters) (simp_all add: allocateDSMeter_def)
next
  case (StepRemoveMeter A r)
  then show ?case by (rule structure_meters) (simp_all add: removeDSMeter_def)
next
  case (StepRemoveZone i A)
  then show ?case using structure_removeZone by blast
next
  case (StepRemoveDevice place A r A')
  then show ?case using structure_removeDevice by blast
next
  case (StepJoin A r g)
  then show ?case by (rule structure_updDevice) (simp_all add: addToGroup_simps)
next
  case (StepLeave A r g)
  then show ?case by (rule structure_updDevice) (simp_all add: removeFromGroup_simps)
next
  case (StepLastKnown A r i)
  then show ?case by (rule structure_updDevice) (simp_all add: setLastKnownZoneID_def)
next
  case (StepAddGroup A i z g z')
  then have z: "z_id z = i" "zoneListed A z"
    using structureOKD(7) [of A z] by (auto simp: tryGetZone_def find_Some_iff)
  have "zoneGroup (z\<lparr>z_groups := z_groups z @ [g]\<rparr>) 0 \<noteq> None" using z(2)
    by (auto simp: zoneListed_def zoneGroup_def find_None_iff)
  then show ?case using StepAddGroup z
    by (intro structure_groups_of [OF StepAddGroup.prems StepAddGroup.hyps(1)])
       (auto simp: addGroup_def zoneListed_def split: if_splits)
next
  case (StepRemoveGroup A i z g)
  then have z: "z_id z = i" "zoneListed A z"
    using structureOKD(7) [of A z] by (auto simp: tryGetZone_def find_Some_iff)
  then obtain b where b: "b \<in> set (z_groups z)" "g_id b = 0"
    by (auto simp: zoneListed_def zoneGroup_def find_None_iff)
  then have "b \<in> set (remove1 g (z_groups z))" using StepRemoveGroup.hyps(2) in_set_remove1 [of b g] by metis
  then have "zoneGroup (removeGroup z g) 0 \<noteq> None" using b by (auto simp: zoneGroup_def removeGroup_def find_None_iff)
  moreover have "\<forall>x \<in> set (z_groups (removeGroup z g)). g_zoneID x = i"
    using z by (auto simp: removeGroup_def zoneListed_def dest: notin_set_remove1)
  ultimately show ?case using z
    by (intro structure_groups_of [OF StepRemoveGroup.prems StepRemoveGroup.hyps(1)]) (simp_all add: removeGroup_def)
qed

lemma reachableApartment_ok: "reachableApartment A \<Longrightarrow> structureOK A"
  by (induction rule: reachableApartment.induct) (blast intro: structure_new structStep_structure)+


definition exBuilt :: apartment where
  "exBuilt = (case sbind newApartment (\<lambda>A. allocateZone A 5) of Inr A \<Rightarrow> A | Inl _ \<Rightarrow> exHouse)"

lemma exBuilt_reachable: "reachableApartment exBuilt" "tryGetZone exBuilt 5 \<noteq> None"
proof -
  obtain A where A: "newApartment = Inr A" using allocateZone_result [of "\<lparr>a_devices = [], a_zones = [], a_dsMeters = []\<rparr>" 0]
    by (auto simp: newApartment_def)
  obtain z where z: "allocateZone A 5 = Inr (case tryGetZone A 5 of Some _ \<Rightarrow> A | None \<Rightarrow> A\<lparr>a_zones := a_zones A @ [z]\<rparr>)"
      "z_id z = 5" using allocateZone_result [of A 5] by blast
  then have B: "allocateZone A 5 = Inr exBuilt" by (simp add: exBuilt_def A)
  show "reachableApartment exBuilt"
    by (rule ReachStep [OF ReachNew [OF A] StepZone [OF _ B]]) simp
  show "tryGetZone exBuilt 5 \<noteq> None"
  proof (cases "tryGetZone A 5")
    case None
    then have "exBuilt = A\<lparr>a_zones := a_zones A @ [z]\<rparr>" using z B by simp
    then have "z \<in> set (a_zones exBuilt)" unfolding \<open>exBuilt = _\<close> by simp
    then show ?thesis using z(2) unfolding tryGetZone_def find_None_iff by blast
  next
    case (Some y)
    then show ?thesis using z(1) B by simp
  qed
qed


section \<open>What the changes do\<close>

lemma moved_lookup:
  assumes "a_devices A' = map (\<lambda>d. if d_dsid d = r then setZoneID d i else d) (a_devices A)"
  shows "tryGetDeviceByDSID A' r' = map_option (\<lambda>d. if d_dsid d = r then setZoneID d i else d) (tryGetDeviceByDSID A r')"
proof -
  have "find (\<lambda>d. d_dsid d = r') (map (\<lambda>d. if d_dsid d = r then setZoneID d i else d) ds) =
      map_option (\<lambda>d. if d_dsid d = r then setZoneID d i else d) (find (\<lambda>d. d_dsid d = r') ds)" for ds
    by (induction ds) (auto simp: setZoneID_def Let_def)
  then show ?thesis by (simp add: tryGetDeviceByDSID_def assms)
qed


text \<open>
  Resetting the groups of a device returns exactly when all of its group numbers are valid, and then the
  device is in no group; with an invalid number the loop does not end, because removing it does nothing.
\<close>

theorem resetGroups_returns:
  "resetGroups d = (if \<forall>g \<in> set (d_groupIds d). isValidGroup g then Some (d\<lparr>d_groupIds := []\<rparr>) else None)"
proof -
  have some: "resetGroups d = Some (d\<lparr>d_groupIds := []\<rparr>)" if "\<forall>g \<in> set (d_groupIds d). isValidGroup g" for d
    using that
  proof (induction "length (d_groupIds d)" arbitrary: d)
    case 0
    then show ?case by (simp add: resetGroups.simps [of d])
  next
    case (Suc n)
    then obtain g gs where g: "d_groupIds d = g # gs" by (cases "d_groupIds d") auto
    then have "resetGroups d = resetGroups (d\<lparr>d_groupIds := gs\<rparr>)"
      using Suc.prems by (simp add: resetGroups.simps [of d] removeFromGroup_def)
    then show ?case using Suc.hyps(1) [of "d\<lparr>d_groupIds := gs\<rparr>"] Suc.hyps(2) Suc.prems g by simp
  qed
  have all: "\<forall>g \<in> set (d_groupIds d). isValidGroup g" if r: "resetGroups d = Some d'" for d'
  proof (rule resetGroups.raw_induct [where P = "\<lambda>d _. \<forall>g \<in> set (d_groupIds d). isValidGroup g", OF _ r])
    fix reset :: "device \<Rightarrow> device option" and d d'
    assume *: "\<And>x y. reset x = Some y \<Longrightarrow> \<forall>g \<in> set (d_groupIds x). isValidGroup g"
      "(if 0 < length (d_groupIds d) then reset (removeFromGroup d (hd (d_groupIds d))) else Some d) = Some d'"
    show "\<forall>g \<in> set (d_groupIds d). isValidGroup g"
    proof (cases "d_groupIds d")
      case (Cons g gs)
      have "reset (removeFromGroup d g) = Some d'" using *(2) by (simp add: Cons)
      note groups = *(1) [OF this]
      have "d_groupIds (removeFromGroup d g) = (if isValidGroup g then gs else g # gs)"
        by (simp add: removeFromGroup_def Cons)
      then have "isValidGroup g \<and> (\<forall>g \<in> set gs. isValidGroup g)" using groups by (cases "isValidGroup g") auto
      then show ?thesis by (simp add: Cons)
    qed simp
  qed
  show ?thesis
  proof (cases "\<forall>g \<in> set (d_groupIds d). isValidGroup g")
    case False
    then show ?thesis using all by (cases "resetGroups d") auto
  qed (use some in simp)
qed

text \<open>
  A zone that is removed while a device is in it traps the device: the device still says that it is in
  the zone, and removing the device throws, each time, after the event that announces its removal.
\<close>

theorem removed_zone_traps:
  assumes "reachableApartment A" and "tryGetDeviceByDSID A r = Some d" and "d_zoneID d \<noteq> 0"
  shows "removeDeviceByDSID place (removeZone A (d_zoneID d)) r =
    (Some (deviceRemoved place d), Inl (ItemNotFound (print_int (d_zoneID d))))"
proof -
  note s = reachableApartment_ok [OF assms(1)]
  have "a_zones (removeZone A (d_zoneID d)) = filter (\<lambda>z. z_id z \<noteq> d_zoneID d) (a_zones A)"
    using structureOKD(2) [OF s] by (simp add: removeZone_def eraseFirst_filter)
  then have "tryGetZone (removeZone A (d_zoneID d)) (d_zoneID d) = None" by (auto simp: tryGetZone_def find_None_iff)
  moreover have "tryGetDeviceByDSID (removeZone A (d_zoneID d)) r = Some d"
    using assms(2) by (simp add: tryGetDeviceByDSID_def removeZone_def)
  ultimately show ?thesis using assms(3) by (simp add: removeDeviceByDSID_def getZone_def)
qed

text \<open>The example: a device is allocated and moved to zone 5.\<close>

lemma allocateDevice_result:
  assumes "structureOK A"
  shows "\<exists>A' d. allocateDevice A r = Inr A' \<and> structureOK A' \<and> tryGetDeviceByDSID A' r = Some d \<and>
    map z_id (a_zones A') = map z_id (a_zones A)"
proof (cases "tryGetDeviceByDSID A r")
  case None
  then obtain A' where A': "allocateDevice A r = Inr A'" "structureOK A'" "a_devices A' = a_devices A @ [newDevice r]"
      "map z_id (a_zones A') = map z_id (a_zones A)"
    using structure_newDevice [OF assms None] by blast
  have "tryGetDeviceByDSID A' r \<noteq> None"
    unfolding tryGetDeviceByDSID_def find_None_iff by (auto simp: A'(3) newDevice_simps)
  then show ?thesis using A' by blast
next
  case (Some d)
  have z: "tryGetZone A 0 \<noteq> None" using zone_known [OF assms, of 0] structureOKD(3) [OF assms] by simp
  obtain A' where A': "zoneAddDevice A 0 r = Inr A'" "structureOK A'"
      "a_devices A' = map (\<lambda>d. if d_dsid d = r then setZoneID d 0 else d) (a_devices A)"
      "map z_id (a_zones A') = map z_id (a_zones A)"
    using zoneAddDevice_result [OF assms Some z] by blast
  have "allocateDevice A r = Inr A'" using Some z A'(1) by (auto simp: allocateDevice_def getZone_def)
  then show ?thesis using A' Some by (auto simp: moved_lookup [OF A'(3)])
qed

lemma exBuilt_device:
  "\<exists>A d. reachableApartment A \<and> tryGetDeviceByDSID A [1] = Some d \<and> d_zoneID d = 5 \<and> tryGetZone A 5 \<noteq> None"
proof -
  obtain A d where A: "allocateDevice exBuilt [1] = Inr A" "structureOK A" "tryGetDeviceByDSID A [1] = Some d"
      "map z_id (a_zones A) = map z_id (a_zones exBuilt)"
    using allocateDevice_result [OF reachableApartment_ok [OF exBuilt_reachable(1)]] by blast
  have known: "tryGetZone B 5 \<noteq> None" if "map z_id (a_zones B) = map z_id (a_zones exBuilt)" "structureOK B" for B
    using exBuilt_reachable that zone_known [OF that(2)] zone_known [OF reachableApartment_ok [OF exBuilt_reachable(1)]]
    by (metis list.set_map)
  obtain B where B: "zoneAddDevice A 5 [1] = Inr B" "structureOK B" "map z_id (a_zones B) = map z_id (a_zones A)"
      "a_devices B = map (\<lambda>d. if d_dsid d = [1] then setZoneID d 5 else d) (a_devices A)"
    using zoneAddDevice_result [OF A(2, 3) known [OF A(4, 2)]] by blast
  have "reachableApartment B"
    using ReachStep [OF ReachStep [OF exBuilt_reachable(1) StepDevice [OF A(1)]] StepMove [OF known [OF A(4, 2)] B(1)]] .
  moreover have "tryGetDeviceByDSID B [1] = map_option (\<lambda>d. setZoneID d 5) (tryGetDeviceByDSID A [1])"
    using A(3) tryGet_dsid [OF A(3)] by (simp add: moved_lookup [OF B(4)])
  moreover have "d_zoneID (setZoneID d 5) = 5" by (simp add: setZoneID_def Let_def)
  ultimately show ?thesis using A(3) known [of B] B(2, 3) A(4) by auto
qed


theorem removed_zone_traps_witness:
  "\<exists>A d. reachableApartment A \<and> tryGetDeviceByDSID A [1] = Some d \<and> d_zoneID d = 5 \<and>
    snd (removeDeviceByDSID (\<lambda>_. 0) (removeZone A 5) [1]) = Inl (ItemNotFound ''5'')"
proof -
  obtain A d where A: "reachableApartment A" "tryGetDeviceByDSID A [1] = Some d" "d_zoneID d = 5" using exBuilt_device by blast
  have "print_int 5 = ''5''" by code_simp
  then have "snd (removeDeviceByDSID (\<lambda>_. 0) (removeZone A 5) [1]) = Inl (ItemNotFound ''5'')"
    using removed_zone_traps [OF A(1, 2), of "\<lambda>_. 0"] A(3) by simp
  then show ?thesis using A by blast
qed

end
