(* ===== verification/Sensor_Values.thy ===== *)
theory Sensor_Values
  imports Complex_Main Model_Const
begin

text \<open>
  Sensor values and the physical quantities they stand for, the conversions of
  \<^verbatim>\<open>src/src/model/modelconst.cpp\<close> with \<^verbatim>\<open>roundDigits\<close> of \<^verbatim>\<open>src/src/base.cpp\<close>.  A \<^verbatim>\<open>double\<close> is a
  real number: the rounding of the floating-point unit is not modelled, the rounding that the program
  asks for is.
\<close>

section \<open>Rounding\<close>

text \<open>\<^verbatim>\<open>round\<close> of the C library rounds halves away from zero, a cast to \<^verbatim>\<open>int\<close> towards zero.\<close>

definition c_round :: "real \<Rightarrow> int" where
  "c_round x = (if x \<ge> 0 then \<lfloor>x + 1 / 2\<rfloor> else - \<lfloor>1 / 2 - x\<rfloor>)"

definition c_trunc :: "real \<Rightarrow> int" where
  "c_trunc x = (if x \<ge> 0 then \<lfloor>x\<rfloor> else - \<lfloor>- x\<rfloor>)"

definition roundDigits :: "real \<Rightarrow> nat \<Rightarrow> real" where
  "roundDigits input digits = of_int (c_round (input * 10 ^ digits)) / 10 ^ digits"

section \<open>Conversions\<close>

definition sensorValueToDouble :: "SensorType \<Rightarrow> int \<Rightarrow> real" where
  "sensorValueToDouble t v =
     (if t \<in> {ST_Status, ST_ActivePower, ST_OutputCurrent, ST_ActivePowerVA} then of_int v
      else if t = ST_ElectricMeter then roundDigits (of_int v * 0.01) 2
      else if t = ST_OutputCurrent16A then of_int (v * 4)
      else if t \<in> {ST_TemperatureIndoors, ST_TemperatureOutdoors, ST_RoomTemperatureSetpoint}
        then roundDigits (of_int v * 0.1 / 4 - 273.15 + 230.0) 3
      else if t \<in> {ST_BrightnessIndoors, ST_BrightnessOutdoors, ST_CO2Concentration, ST_COConcentration}
        then roundDigits (10 powr (of_int v / 800.0)) 4
      else if t \<in> {ST_HumidityIndoors, ST_HumidityOutdoors} then roundDigits (of_int v * 0.1 / 4) 3
      else if t \<in> {ST_WindSpeed, ST_GustSpeed} then roundDigits (of_int v * 0.1 / 4) 3
      else if t = ST_SoundPressureLevel then roundDigits (of_int v * 0.25 / 4) 3
      else if t = ST_RoomTemperatureControlVariable then of_int (v - 100)
      else if t \<in> {ST_WindDirection, ST_GustDirection} then roundDigits (of_int v * 0.5 / 4) 3
      else if t = ST_Precipitation then roundDigits (of_int v * 0.1 / 4) 3
      else if t = ST_AirPressure then roundDigits (of_int v / 4.0 + 200) 3
      else of_int v)"

text \<open>The range check that a conversion begins with; the message is the exception's.\<close>

definition inRange :: "real \<Rightarrow> real \<Rightarrow> string \<Rightarrow> real \<Rightarrow> int \<Rightarrow> string + int" where
  "inRange lo hi msg x v = (if x < lo \<or> x > hi then Inl msg else Inr v)"

definition doubleToSensorValue :: "SensorType \<Rightarrow> real \<Rightarrow> string + int" where
  "doubleToSensorValue t x =
     (if t \<in> {ST_Status, ST_ActivePower, ST_OutputCurrent, ST_ActivePowerVA}
        then inRange 0 4095 ''Value must be in range [0..4095]'' x (c_trunc (x + 0.5))
      else if t = ST_ElectricMeter
        then inRange 0 40.95 ''Value must be in range [0..40.95]'' x (c_trunc ((x + 0.005) / 0.01))
      else if t = ST_OutputCurrent16A
        then inRange 0 16380 ''Value must be in range [0..16380]'' x (c_trunc ((x + 2) / 4))
      else if t \<in> {ST_TemperatureIndoors, ST_TemperatureOutdoors, ST_RoomTemperatureSetpoint}
        then inRange (-43.15) 59.225 ''Value must be in range [-43.15..59.225]'' x
               (c_trunc ((x + 0.0125 + 273.15 - 230.0) * 4 / 0.1))
      else if t \<in> {ST_BrightnessIndoors, ST_BrightnessOutdoors, ST_CO2Concentration, ST_COConcentration}
        then inRange 1 131446.795 ''Value must be in range [1..131446.795]'' x (c_trunc (800 * log 10 x))
      else if t \<in> {ST_HumidityIndoors, ST_HumidityOutdoors}
        then inRange 0 102.375 ''Value must be in range [0..102.375]'' x (c_trunc ((x + 0.0125) * 4 / 0.1))
      else if t \<in> {ST_WindSpeed, ST_GustSpeed}
        then inRange 0 102.375 ''Value must be in range [0..102.375]'' x (c_trunc ((x + 0.0125) * 4 / 0.1))
      else if t = ST_SoundPressureLevel
        then inRange 0 255.938 ''Value must be in range [0..255.938]'' x (c_trunc ((x + 0.0125) * 4 / 0.25))
      else if t = ST_RoomTemperatureControlVariable
        then inRange (-100) 100 ''Value must be in range [-100..100]'' x (c_trunc (x + 0.5 + 100))
      else if t \<in> {ST_WindDirection, ST_GustDirection}
        then inRange 0 511.875 ''Value must be in range [0..511.875]'' x (c_trunc ((x + 0.0625) * 8))
      else if t = ST_Precipitation
        then inRange 0 102.375 ''Value must be in range [0..102.375]'' x (c_trunc ((x + 0.0125) * 4 / 0.1))
      else if t = ST_AirPressure
        then inRange 200 1223.75 ''Value must be in range [200..1223.75]'' x (c_trunc ((x + 0.125 - 200) * 4))
      else Inr (c_trunc (x + 0.5)))"

section \<open>Round trips\<close>

lemma roundDigits_exact: "x * 10 ^ n = of_int k \<Longrightarrow> roundDigits x n = x"
proof -
  assume a: "x * 10 ^ n = of_int k"
  have "c_round (of_int k) = k" by (cases "k \<ge> 0") (auto simp: c_round_def floor_eq_iff)
  then show ?thesis unfolding roundDigits_def a by (simp add: field_simps flip: a)
qed

lemma c_trunc_near: "of_int v \<le> x \<Longrightarrow> x < of_int v + 1 \<Longrightarrow> 0 \<le> v \<Longrightarrow> c_trunc x = v"
  by (simp add: c_trunc_def floor_eq_iff order_trans [of 0 "of_int v"])

lemma c_round_near: "\<bar>of_int (c_round x) - x\<bar> \<le> 1 / 2"
proof (cases "x \<ge> 0")
  case True
  have "of_int \<lfloor>x + 1 / 2\<rfloor> \<le> x + 1 / 2" "x + 1 / 2 < of_int \<lfloor>x + 1 / 2\<rfloor> + 1" by (simp_all add: floor_correct)
  then show ?thesis using True by (simp only: c_round_def if_True)
next
  case False
  have "of_int \<lfloor>1 / 2 - x\<rfloor> \<le> 1 / 2 - x" "1 / 2 - x < of_int \<lfloor>1 / 2 - x\<rfloor> + 1" by (simp_all add: floor_correct)
  then show ?thesis using False by (simp only: c_round_def if_False of_int_minus)
qed

lemma roundDigits_near: "\<bar>roundDigits x n - x\<bar> \<le> 1 / (2 * 10 ^ n)"
proof -
  have "roundDigits x n - x = (of_int (c_round (x * 10 ^ n)) - x * 10 ^ n) / 10 ^ n"
    by (simp add: roundDigits_def field_simps)
  then have "\<bar>roundDigits x n - x\<bar> = \<bar>of_int (c_round (x * 10 ^ n)) - x * 10 ^ n\<bar> / 10 ^ n" by (simp add: abs_divide)
  also have "\<dots> \<le> (1 / 2) / 10 ^ n" by (rule divide_right_mono [OF c_round_near]) simp
  finally show ?thesis by simp
qed


definition logTypes :: "SensorType set" where
  "logTypes = {ST_BrightnessIndoors, ST_BrightnessOutdoors, ST_CO2Concentration, ST_COConcentration}"

definition sensorLimit :: "SensorType \<Rightarrow> int" where
  "sensorLimit t = (if t = ST_RoomTemperatureControlVariable then 200 else 4095)"

lemma inRange_ok: "lo \<le> x \<Longrightarrow> x \<le> hi \<Longrightarrow> inRange lo hi msg x v = Inr v"
  by (simp add: inRange_def)

text \<open>The types whose values are multiples of a thousandth: rounding does nothing.\<close>

lemma quantity_exact:
  "t \<in> {ST_TemperatureIndoors, ST_TemperatureOutdoors, ST_RoomTemperatureSetpoint} \<Longrightarrow>
     sensorValueToDouble t v = of_int v / 40 - 43.15"
  "t \<in> {ST_HumidityIndoors, ST_HumidityOutdoors, ST_WindSpeed, ST_GustSpeed, ST_Precipitation} \<Longrightarrow>
     sensorValueToDouble t v = of_int v / 40"
  "t \<in> {ST_WindDirection, ST_GustDirection} \<Longrightarrow> sensorValueToDouble t v = of_int v / 8"
  "sensorValueToDouble ST_ElectricMeter v = of_int v / 100"
  "sensorValueToDouble ST_AirPressure v = of_int v / 4 + 200"
proof -
  have a: "roundDigits (of_int v / 40 - 43.15) 3 = of_int v / 40 - 43.15"
    by (rule roundDigits_exact [of _ _ "25 * v - 43150"]) simp
  have b: "roundDigits (of_int v / 40) 3 = of_int v / 40" by (rule roundDigits_exact [of _ _ "25 * v"]) simp
  have c: "roundDigits (of_int v / 8) 3 = of_int v / 8" by (rule roundDigits_exact [of _ _ "125 * v"]) simp
  have d: "roundDigits (of_int v / 100) 2 = of_int v / 100" by (rule roundDigits_exact [of _ _ v]) simp
  have e: "roundDigits (of_int v / 4 + 200) 3 = of_int v / 4 + 200"
    by (rule roundDigits_exact [of _ _ "250 * v + 200000"]) simp
  show "t \<in> {ST_TemperatureIndoors, ST_TemperatureOutdoors, ST_RoomTemperatureSetpoint} \<Longrightarrow>
      sensorValueToDouble t v = of_int v / 40 - 43.15"
    using a by (auto simp: sensorValueToDouble_def)
  show "t \<in> {ST_HumidityIndoors, ST_HumidityOutdoors, ST_WindSpeed, ST_GustSpeed, ST_Precipitation} \<Longrightarrow>
      sensorValueToDouble t v = of_int v / 40"
    using b by (auto simp: sensorValueToDouble_def)
  show "t \<in> {ST_WindDirection, ST_GustDirection} \<Longrightarrow> sensorValueToDouble t v = of_int v / 8"
    using c by (auto simp: sensorValueToDouble_def)
  show "sensorValueToDouble ST_ElectricMeter v = of_int v / 100" using d by (simp add: sensorValueToDouble_def)
  show "sensorValueToDouble ST_AirPressure v = of_int v / 4 + 200" using e by (simp add: sensorValueToDouble_def)
qed

lemma value_back:
  assumes "t \<notin> logTypes" and "0 \<le> v" and "v \<le> sensorLimit t"
  shows "doubleToSensorValue t (sensorValueToDouble t v) = Inr v"
proof -
  have v: "0 \<le> real_of_int v" "real_of_int v \<le> 4095"
    using assms(2, 3) by (auto simp: sensorLimit_def split: if_splits)
  note tr = c_trunc_near [OF _ _ assms(2)]
  note range = inRange_ok
  consider (lin) "t \<in> {ST_Status, ST_ActivePower, ST_OutputCurrent, ST_ActivePowerVA}"
    | (temp) "t \<in> {ST_TemperatureIndoors, ST_TemperatureOutdoors, ST_RoomTemperatureSetpoint}"
    | (hum) "t \<in> {ST_HumidityIndoors, ST_HumidityOutdoors, ST_WindSpeed, ST_GustSpeed, ST_Precipitation}"
    | (dir) "t \<in> {ST_WindDirection, ST_GustDirection}"
    | (meter) "t = ST_ElectricMeter" | (amp) "t = ST_OutputCurrent16A" | (sound) "t = ST_SoundPressureLevel"
    | (ctrl) "t = ST_RoomTemperatureControlVariable" | (air) "t = ST_AirPressure"
    | (rest) "t \<in> {ST_Reserved1, ST_Reserved2, ST_NotUsed, ST_UnknownType}" | (other) i where "t = ST_other i"
    using assms(1) by (cases t) (auto simp: logTypes_def)
  then show ?thesis
  proof cases
    case lin
    then have "sensorValueToDouble t v = of_int v" by (simp add: sensorValueToDouble_def)
    then show ?thesis using v lin by (simp add: doubleToSensorValue_def range tr)
  next
    case temp
    have "doubleToSensorValue t (of_int v / 40 - 43.15) = Inr v" using v temp
      by (elim insertE emptyE) (simp_all add: doubleToSensorValue_def range tr)
    then show ?thesis by (simp only: quantity_exact(1) [OF temp])
  next
    case hum
    have "doubleToSensorValue t (of_int v / 40) = Inr v" using v hum
      by (elim insertE emptyE) (simp_all add: doubleToSensorValue_def range tr)
    then show ?thesis by (simp only: quantity_exact(2) [OF hum])
  next
    case dir
    have "doubleToSensorValue t (of_int v / 8) = Inr v" using v dir
      by (elim insertE emptyE) (simp_all add: doubleToSensorValue_def range tr)
    then show ?thesis by (simp only: quantity_exact(3) [OF dir])
  next
    case meter
    then show ?thesis using v by (simp add: quantity_exact doubleToSensorValue_def range tr)
  next
    case amp
    then show ?thesis using v by (simp add: sensorValueToDouble_def doubleToSensorValue_def range tr)
  next
    case sound
    define x where "x = roundDigits (of_int v * 0.25 / 4) 3"
    have "\<bar>x - of_int v / 16\<bar> \<le> 1 / 2000"
      using roundDigits_near [of "of_int v * 0.25 / 4" 3] by (simp add: x_def)
    then have near: "of_int v / 16 - 1 / 2000 \<le> x" "x \<le> of_int v / 16 + 1 / 2000" by linarith+
    have "0 \<le> x" using assms(2) by (simp add: x_def roundDigits_def c_round_def)
    moreover have "x \<le> 255.938" using near v by simp
    moreover have "c_trunc ((x + 0.0125) * 4 / 0.25) = v" by (rule tr) (use near in simp_all)
    ultimately show ?thesis using sound by (simp add: sensorValueToDouble_def doubleToSensorValue_def range x_def)
  next
    case ctrl
    then have "real_of_int v \<le> 200" using assms(3) by (simp add: sensorLimit_def)
    then show ?thesis using v ctrl by (simp add: sensorValueToDouble_def doubleToSensorValue_def range tr)
  next
    case air
    then show ?thesis using v by (simp add: quantity_exact doubleToSensorValue_def range tr)
  next
    case rest
    then show ?thesis using v by (elim insertE emptyE) (simp_all add: sensorValueToDouble_def doubleToSensorValue_def tr)
  next
    case other
    then show ?thesis using v by (simp add: sensorValueToDouble_def doubleToSensorValue_def tr)
  qed
qed



text \<open>
  On a logarithmic scale the conversion back cuts off instead of rounding, so a value can come back as
  the one below: the brightness 6, which is rounded to 1.0174 lux, is read back as 5.
\<close>

theorem brightness_cut_off:
  "sensorValueToDouble ST_BrightnessIndoors 6 = 1.0174 \<and> doubleToSensorValue ST_BrightnessIndoors 1.0174 = Inr 5"
proof -
  define x :: real where "x = 10 powr (6 / 800)"
  have "x ^ 400 = 10 powr (6 / 800 * 400)" by (simp add: x_def powr_powr flip: powr_realpow)
  then have p: "x ^ 400 = 1000" using powr_realpow [of 10 3] by simp
  have lo: "1.01735 < x"
  proof (rule ccontr)
    assume "\<not> 1.01735 < x"
    then have "x ^ 20 \<le> 1.01735 ^ 20" by (intro power_mono) (simp_all add: x_def)
    also have "(1.01735::real) ^ 20 \<le> 1.4125" by (simp add: power_divide)
    finally have "(x ^ 20) ^ 20 \<le> 1.4125 ^ 20" by (intro power_mono) (simp_all add: x_def)
    also have "(1.4125::real) ^ 20 < 1000" by (simp add: power_divide)
    finally show False using p by (simp flip: power_mult)
  qed
  have hi: "x < 1.01745"
  proof (rule ccontr)
    assume "\<not> x < 1.01745"
    have "(1.4126::real) \<le> 1.01745 ^ 20" by (simp add: power_divide)
    also have "(1.01745::real) ^ 20 \<le> x ^ 20" using \<open>\<not> x < 1.01745\<close> by (intro power_mono) simp_all
    finally have "(1.4126::real) ^ 20 \<le> (x ^ 20) ^ 20" by (intro power_mono) simp_all
    moreover have "1000 < (1.4126::real) ^ 20" by (simp add: power_divide)
    ultimately show False using p by (simp flip: power_mult)
  qed
  have "\<lfloor>x * 10000 + 1 / 2\<rfloor> = 10174" using lo hi by (simp add: floor_eq_iff)
  then have "roundDigits x 4 = 1.0174" using lo by (simp add: roundDigits_def c_round_def)
  then have "sensorValueToDouble ST_BrightnessIndoors 6 = 1.0174" by (simp add: sensorValueToDouble_def x_def)
  moreover have "c_trunc (800 * log 10 1.0174) = 5"
  proof (rule c_trunc_near)
    have "(1.4::real) \<le> 1.0174 ^ 20" by (simp add: power_divide)
    then have "(1.4::real) ^ 20 \<le> (1.0174 ^ 20) ^ 20" by (intro power_mono) simp_all
    moreover have "(400::real) \<le> 1.4 ^ 20" by (simp add: power_divide)
    ultimately have "(400::real) \<le> 1.0174 ^ 400" by (simp flip: power_mult)
    then have "(400::real) ^ 2 \<le> (1.0174 ^ 400) ^ 2" by (intro power_mono) simp_all
    then have "(10::real) ^ 5 \<le> 1.0174 ^ 800" by (simp flip: power_mult)
    then have "log 10 (10 ^ 5) \<le> log 10 (1.0174 ^ 800)" by (subst log_le_cancel_iff) simp_all
    moreover have "log 10 ((10::real) ^ 5) = 5" by (subst log_nat_power) simp_all
    moreover have "log 10 ((1.0174::real) ^ 800) = 800 * log 10 1.0174" by (subst log_nat_power) simp_all
    ultimately show "of_int 5 \<le> 800 * log 10 1.0174" by linarith
    have "(1.0174::real) ^ 20 \<le> 1.41205" by (simp add: power_divide)
    then have "((1.0174::real) ^ 20) ^ 20 \<le> 1.41205 ^ 20" by (intro power_mono) simp_all
    also have "(1.41205::real) ^ 20 < 1000" by (simp add: power_divide)
    finally have "(1.0174::real) ^ 400 < 1000" by (simp flip: power_mult)
    then have "((1.0174::real) ^ 400) ^ 2 < 1000 ^ 2" by (intro power_strict_mono) simp_all
    then have "(1.0174::real) ^ 800 < 10 ^ 6" by (simp flip: power_mult)
    then have "log 10 (1.0174 ^ 800) < log 10 (10 ^ 6)" by (subst log_less_cancel_iff) simp_all
    moreover have "log 10 ((10::real) ^ 6) = 6" by (subst log_nat_power) simp_all
    moreover have "log 10 ((1.0174::real) ^ 800) = 800 * log 10 1.0174" by (subst log_nat_power) simp_all
    ultimately show "800 * log 10 1.0174 < of_int 5 + 1" by linarith
  qed simp
  ultimately show ?thesis by (simp add: doubleToSensorValue_def inRange_ok)
qed

end
