(* ===== verification/Zone_Heating.thy ===== *)
theory Zone_Heating
  imports Sensor_Values Device_Set Date_Tools
begin

text \<open>
  The temperature control of a zone: its configuration and the meter that runs it, the functions on
  \<^verbatim>\<open>m_HeatingProperties\<close>, \<^verbatim>\<open>m_HeatingStatus\<close> and \<^verbatim>\<open>m_temperatureControlMeter\<close> of
  \<^verbatim>\<open>src/src/model/zone.cpp\<close>, and \<^verbatim>\<open>scanTemperatureControl\<close> of \<^verbatim>\<open>src/src/model/busscanner.cpp\<close>,
  which compares it with what a meter has.  What the bus answers is an argument, what is written to it
  is part of the result.  Quantities are real numbers, as in \<open>Sensor_Values\<close>.
\<close>

section \<open>Data\<close>

record heatingSpec =
  hs_mode :: HeatingControlMode
  hs_Kp :: u16
  hs_Ts :: u8
  hs_Ti :: u16
  hs_Kd :: u16
  hs_Imin :: "16 word"
  hs_Imax :: "16 word"
  hs_Ymin :: u8
  hs_Ymax :: u8
  hs_AntiWindUp :: u8
  hs_KeepFloorWarm :: u8
  hs_SourceZoneId :: u16
  hs_Offset :: "16 word"
  hs_EmergencyValue :: u8
  hs_ManualValue :: u8

record heatingProps =
  hp_mode :: HeatingControlMode
  hp_Kp :: u16
  hp_Ts :: u8
  hp_Ti :: u16
  hp_Kd :: u16
  hp_Imin :: "16 word"
  hp_Imax :: "16 word"
  hp_Ymin :: u8
  hp_Ymax :: u8
  hp_AntiWindUp :: u8
  hp_KeepFloorWarm :: u8
  hp_HeatingControlState :: u32
  hp_HeatingMasterZone :: u32
  hp_CtrlOffset :: u32
  hp_EmergencyValue :: u8
  hp_ManualValue :: u32
  hp_TeperatureSetpoints :: "real list"
  hp_FixedControlValues :: "real list"

text \<open>The time of a value is \<^verbatim>\<open>NullDate\<close> before it is set.\<close>

record zoneHeat =
  zh_id :: int
  zh_props :: heatingProps
  zh_valid :: bool
  zh_NominalValue :: "real option"
  zh_NominalValueTS :: DateTime
  zh_ControlValue :: "real option"
  zh_ControlValueTS :: DateTime
  zh_TemperatureValue :: "real option"
  zh_TemperatureValueTS :: DateTime
  zh_DSMeters :: "dsuid list"
  zh_temperatureControlMeter :: "dsuid option"

text \<open>What the zone asks of its meters.\<close>

record meters =
  mt_isPresent :: "dsuid \<Rightarrow> bool"
  mt_hasTemperatureControl :: "dsuid \<Rightarrow> bool"

section \<open>The configuration\<close>

definition NullTime :: DateTime where "NullTime = \<lparr>tv_sec = 0, tv_usec = 0\<rparr>"

definition resetHeating :: heatingProps where
  "resetHeating = \<lparr>hp_mode = HCM_OFF, hp_Kp = 0, hp_Ts = 0, hp_Ti = 0, hp_Kd = 0, hp_Imin = 0, hp_Imax = 0,
     hp_Ymin = 0, hp_Ymax = 0, hp_AntiWindUp = 0, hp_KeepFloorWarm = 0, hp_HeatingControlState = 0,
     hp_HeatingMasterZone = 0, hp_CtrlOffset = 0, hp_EmergencyValue = 175, hp_ManualValue = 0,
     hp_TeperatureSetpoints = replicate 16 0, hp_FixedControlValues = replicate 16 0\<rparr>"

definition setHeatingProperties :: "zoneHeat \<Rightarrow> heatingProps \<Rightarrow> zoneHeat" where
  "setHeatingProperties z p = z\<lparr>zh_props := p, zh_valid := True\<rparr>"

definition setHeatingConfig :: "zoneHeat \<Rightarrow> heatingSpec \<Rightarrow> zoneHeat" where
  "setHeatingConfig z s = z\<lparr>zh_props := (zh_props z)\<lparr>hp_mode := hs_mode s, hp_Kp := hs_Kp s, hp_Ts := hs_Ts s,
     hp_Ti := hs_Ti s, hp_Kd := hs_Kd s, hp_Imin := hs_Imin s, hp_Imax := hs_Imax s, hp_Ymin := hs_Ymin s,
     hp_Ymax := hs_Ymax s, hp_AntiWindUp := hs_AntiWindUp s, hp_KeepFloorWarm := hs_KeepFloorWarm s,
     hp_HeatingMasterZone := ucast (hs_SourceZoneId s), hp_CtrlOffset := scast (hs_Offset s),
     hp_EmergencyValue := hs_EmergencyValue s, hp_ManualValue := ucast (hs_ManualValue s)\<rparr>, zh_valid := True\<rparr>"

definition getHeatingConfig :: "zoneHeat \<Rightarrow> heatingSpec" where
  "getHeatingConfig z = (let p = zh_props z in
     \<lparr>hs_mode = hp_mode p, hs_Kp = hp_Kp p, hs_Ts = hp_Ts p, hs_Ti = hp_Ti p, hs_Kd = hp_Kd p, hs_Imin = hp_Imin p,
      hs_Imax = hp_Imax p, hs_Ymin = hp_Ymin p, hs_Ymax = hp_Ymax p, hs_AntiWindUp = hp_AntiWindUp p,
      hs_KeepFloorWarm = hp_KeepFloorWarm p, hs_SourceZoneId = ucast (hp_HeatingMasterZone p),
      hs_Offset = ucast (hp_CtrlOffset p), hs_EmergencyValue = hp_EmergencyValue p,
      hs_ManualValue = ucast (hp_ManualValue p)\<rparr>)"

definition setHeatingControlState :: "zoneHeat \<Rightarrow> u32 \<Rightarrow> zoneHeat" where
  "setHeatingControlState z c = z\<lparr>zh_props := (zh_props z)\<lparr>hp_HeatingControlState := c\<rparr>\<rparr>"

text \<open>The twelve modes that are in use; the arrays have room for sixteen.\<close>

definition opModeCount :: nat where "opModeCount = 12"

definition storeModes :: "SensorType \<Rightarrow> u16 list \<Rightarrow> real list \<Rightarrow> real list" where
  "storeModes t opModes old = map (\<lambda>m. sensorValueToDouble t (uint m)) (take opModeCount opModes) @ drop opModeCount old"

definition setHeatingControlOperationMode :: "zoneHeat \<Rightarrow> u16 list \<Rightarrow> zoneHeat" where
  "setHeatingControlOperationMode z opModes = z\<lparr>zh_props := (zh_props z)\<lparr>hp_TeperatureSetpoints :=
     storeModes ST_RoomTemperatureSetpoint opModes (hp_TeperatureSetpoints (zh_props z))\<rparr>\<rparr>"

definition setHeatingFixedOperationMode :: "zoneHeat \<Rightarrow> u16 list \<Rightarrow> zoneHeat" where
  "setHeatingFixedOperationMode z opModes = z\<lparr>zh_props := (zh_props z)\<lparr>hp_FixedControlValues :=
     storeModes ST_RoomTemperatureControlVariable opModes (hp_FixedControlValues (zh_props z))\<rparr>\<rparr>"

definition setHeatingOperationModes :: "zoneHeat \<Rightarrow> u16 list \<Rightarrow> zoneHeat" where
  "setHeatingOperationModes z opModes =
     (case hp_mode (zh_props z) of
        HCM_PID \<Rightarrow> setHeatingControlOperationMode z opModes
      | HCM_FIXED \<Rightarrow> setHeatingFixedOperationMode z opModes
      | _ \<Rightarrow> z)"

text \<open>The values of a list of quantities, or the exception for the first that is out of range.\<close>

fun readModes :: "SensorType \<Rightarrow> real list \<Rightarrow> string + u16 list" where
  "readModes t [] = Inr []"
| "readModes t (x # xs) =
     (case doubleToSensorValue t x of
        Inl e \<Rightarrow> Inl e
      | Inr v \<Rightarrow> (case readModes t xs of Inl e \<Rightarrow> Inl e | Inr vs \<Rightarrow> Inr (word_of_int v # vs)))"

text \<open>The structure that is returned is not initialised; \<open>garbage\<close> is what its memory held.\<close>

definition getHeatingOperationModeValues :: "zoneHeat \<Rightarrow> u16 list \<Rightarrow> string + u16 list" where
  "getHeatingOperationModeValues z garbage =
     (let fill = (\<lambda>t xs. case readModes t (take opModeCount xs) of
                           Inl e \<Rightarrow> Inl e | Inr vs \<Rightarrow> Inr (vs @ drop opModeCount garbage))
      in case hp_mode (zh_props z) of
           HCM_PID \<Rightarrow> fill ST_RoomTemperatureSetpoint (hp_TeperatureSetpoints (zh_props z))
         | HCM_FIXED \<Rightarrow> fill ST_RoomTemperatureControlVariable (hp_FixedControlValues (zh_props z))
         | _ \<Rightarrow> Inr (replicate 16 0))"

text \<open>The loop stops at the first difference.\<close>

fun modesEqual :: "SensorType \<Rightarrow> real list \<Rightarrow> u16 list \<Rightarrow> string + bool" where
  "modesEqual t (x # xs) (m # ms) =
     (case doubleToSensorValue t x of
        Inl e \<Rightarrow> Inl e
      | Inr v \<Rightarrow> if v \<noteq> uint m then Inr False else modesEqual t xs ms)"
| "modesEqual t xs ms = Inr True"

definition isEqual :: "heatingProps \<Rightarrow> heatingSpec \<Rightarrow> u16 list \<Rightarrow> string + bool" where
  "isEqual p c opModes =
     (let configEqual = (hs_mode c = hp_mode p \<and> hs_Kp c = hp_Kp p \<and> hs_Ts c = hp_Ts p \<and> hs_Ti c = hp_Ti p \<and>
            hs_Kd c = hp_Kd p \<and> hs_Imin c = hp_Imin p \<and> hs_Imax c = hp_Imax p \<and> hs_Ymin c = hp_Ymin p \<and>
            hs_Ymax c = hp_Ymax p \<and> hs_AntiWindUp c = hp_AntiWindUp p \<and> hs_KeepFloorWarm c = hp_KeepFloorWarm p \<and>
            ucast (hs_SourceZoneId c) = hp_HeatingMasterZone p \<and> scast (hs_Offset c) = hp_CtrlOffset p \<and>
            hs_EmergencyValue c = hp_EmergencyValue p \<and> ucast (hs_ManualValue c) = hp_ManualValue p);
          modes = (case hp_mode p of
                     HCM_PID \<Rightarrow> modesEqual ST_RoomTemperatureSetpoint (hp_TeperatureSetpoints p) opModes
                   | HCM_FIXED \<Rightarrow> modesEqual ST_RoomTemperatureControlVariable (hp_FixedControlValues p) opModes
                   | _ \<Rightarrow> Inr True)
      in case modes of Inl e \<Rightarrow> Inl e | Inr b \<Rightarrow> Inr (configEqual \<and> b))"

section \<open>The meter in control\<close>

definition tryGetPresentTemperatureControlMeter :: "meters \<Rightarrow> zoneHeat \<Rightarrow> serror + dsuid option" where
  "tryGetPresentTemperatureControlMeter M z =
     (case zh_temperatureControlMeter z of
        None \<Rightarrow> Inr None
      | Some m \<Rightarrow>
          if mt_isPresent M m then
            (if mt_hasTemperatureControl M m then Inr (Some m) else Inl AssertFailed)
          else Inr None)"

definition setTemperatureControlMeter :: "meters \<Rightarrow> zoneHeat \<Rightarrow> dsuid \<Rightarrow> serror + zoneHeat" where
  "setTemperatureControlMeter M z m =
     (if \<not> mt_hasTemperatureControl M m then Inl (StdRuntime ''meter->getCapability_HasTemperatureControl()'')
      else if \<not> mt_isPresent M m then Inl (StdRuntime ''meter->isPresent()'')
      else Inr (z\<lparr>zh_temperatureControlMeter := Some m\<rparr>))"

definition updateTemperatureControlMeter :: "meters \<Rightarrow> zoneHeat \<Rightarrow> serror + zoneHeat" where
  "updateTemperatureControlMeter M z =
     sbind (tryGetPresentTemperatureControlMeter M z) (\<lambda>c.
       if c \<noteq> None then Inr z
       else case find (\<lambda>m. mt_hasTemperatureControl M m \<and> mt_isPresent M m) (zh_DSMeters z) of
         None \<Rightarrow> Inr z
       | Some m \<Rightarrow> setTemperatureControlMeter M z m)"

definition addToDSMeter :: "zoneHeat \<Rightarrow> dsuid \<Rightarrow> zoneHeat" where
  "addToDSMeter z m = (if m \<in> set (zh_DSMeters z) then z else z\<lparr>zh_DSMeters := zh_DSMeters z @ [m]\<rparr>)"

text \<open>\<open>None\<close> is \<^verbatim>\<open>erase\<close> with the past-the-end iterator, for a meter that the zone is not on.\<close>

definition removeFromDSMeter :: "zoneHeat \<Rightarrow> dsuid \<Rightarrow> zoneHeat option" where
  "removeFromDSMeter z m =
     (if m \<notin> set (zh_DSMeters z) then None
      else let z = z\<lparr>zh_DSMeters := remove1 m (zh_DSMeters z)\<rparr>
           in Some (if zh_temperatureControlMeter z = Some m then z\<lparr>zh_temperatureControlMeter := None\<rparr> else z))"

definition registeredOnDSMeter :: "zoneHeat \<Rightarrow> dsuid \<Rightarrow> bool" where
  "registeredOnDSMeter z m \<longleftrightarrow> m \<in> set (zh_DSMeters z)"

definition isRegisteredOnAnyMeter :: "zoneHeat \<Rightarrow> bool" where
  "isRegisteredOnAnyMeter z \<longleftrightarrow> zh_DSMeters z \<noteq> []"

section \<open>Values\<close>

definition setTemperature :: "zoneHeat \<Rightarrow> real \<Rightarrow> DateTime \<Rightarrow> zoneHeat" where
  "setTemperature z v ts = z\<lparr>zh_TemperatureValue := Some v, zh_TemperatureValueTS := ts\<rparr>"

definition resetTemperature :: "zoneHeat \<Rightarrow> zoneHeat" where
  "resetTemperature z = z\<lparr>zh_TemperatureValue := None, zh_TemperatureValueTS := NullTime\<rparr>"

definition setNominalValue :: "zoneHeat \<Rightarrow> real \<Rightarrow> DateTime \<Rightarrow> zoneHeat" where
  "setNominalValue z v ts = z\<lparr>zh_NominalValue := Some v, zh_NominalValueTS := ts\<rparr>"

definition resetNominalValue :: "zoneHeat \<Rightarrow> zoneHeat" where
  "resetNominalValue z = z\<lparr>zh_NominalValue := None, zh_NominalValueTS := NullTime\<rparr>"

definition setControlValue :: "zoneHeat \<Rightarrow> real \<Rightarrow> DateTime \<Rightarrow> zoneHeat" where
  "setControlValue z v ts = z\<lparr>zh_ControlValue := Some v, zh_ControlValueTS := ts\<rparr>"

definition resetControlValue :: "zoneHeat \<Rightarrow> zoneHeat" where
  "resetControlValue z = z\<lparr>zh_ControlValue := None, zh_ControlValueTS := NullTime\<rparr>"

section \<open>Scanning a meter\<close>

datatype busWrite = SetZoneHeatingConfig dsuid int heatingSpec

text \<open>All members of \<^verbatim>\<open>ZoneHeatingConfigSpec_t{}\<close> are zero.\<close>

definition zeroSpec :: heatingSpec where
  "zeroSpec = \<lparr>hs_mode = HCM_OFF, hs_Kp = 0, hs_Ts = 0, hs_Ti = 0, hs_Kd = 0, hs_Imin = 0, hs_Imax = 0, hs_Ymin = 0,
     hs_Ymax = 0, hs_AntiWindUp = 0, hs_KeepFloorWarm = 0, hs_SourceZoneId = 0, hs_Offset = 0,
     hs_EmergencyValue = 0, hs_ManualValue = 0\<rparr>"

definition HEATING_MAX_SENSOR_AGE :: u32 where "HEATING_MAX_SENSOR_AGE = 3600"
definition SENSOR_MAX_AGE :: u32 where "SENSOR_MAX_AGE = 0xffffffff"

text \<open>The first part, which takes the configuration of the meter when the zone has none.\<close>

definition takeConfig :: "zoneHeat \<Rightarrow> heatingSpec \<Rightarrow> u16 list \<Rightarrow> zoneHeat" where
  "takeConfig z config modes =
     (if \<not> zh_valid z \<and> hs_mode config \<noteq> HCM_OFF
      then setHeatingOperationModes (setHeatingConfig z config) modes else z)"

text \<open>The second part, which chooses the meter in control and writes to the meter what differs.\<close>

definition syncMeter :: "meters \<Rightarrow> dsuid \<Rightarrow> zoneHeat \<Rightarrow> heatingSpec \<Rightarrow> u16 list \<Rightarrow> serror + zoneHeat \<times> busWrite list" where
  "syncMeter M meter z config modes =
     (if \<not> zh_valid z then Inr (z, [])
      else
        sbind (tryGetPresentTemperatureControlMeter M z) (\<lambda>zoneMeter.
        sbind (if zoneMeter = None \<and> hs_mode config \<noteq> HCM_OFF
               then sbind (setTemperatureControlMeter M z meter) (\<lambda>z.
                      sbind (tryGetPresentTemperatureControlMeter M z) (\<lambda>zoneMeter. Inr (z, zoneMeter)))
               else Inr (z, zoneMeter)) (\<lambda>(z, zoneMeter).
        if zoneMeter = Some meter then
          (case isEqual (zh_props z) config modes of
             Inl e \<Rightarrow> Inl (StdRuntime e)
           | Inr True \<Rightarrow> Inr (z, [])
           | Inr False \<Rightarrow> Inr (z, [SetZoneHeatingConfig meter (zh_id z) (getHeatingConfig z)]))
        else if hs_mode config \<noteq> HCM_OFF then Inr (z, [SetZoneHeatingConfig meter (zh_id z) zeroSpec])
        else Inr (z, []))))"

text \<open>
  The third part reads the values the zone does not have yet; \<open>read\<close> gives the value and its age, or
  nothing for a \<^verbatim>\<open>BusApiError\<close>.  Only the seconds of a time are compared with zero.
\<close>

definition syncValue :: "(SensorType \<Rightarrow> (u16 \<times> u32) option) \<Rightarrow> DateTime \<Rightarrow> SensorType \<Rightarrow> u32 \<Rightarrow> DateTime
    \<Rightarrow> (zoneHeat \<Rightarrow> real \<Rightarrow> DateTime \<Rightarrow> zoneHeat) \<Rightarrow> zoneHeat \<Rightarrow> zoneHeat" where
  "syncValue read now t maxAge ts put z =
     (if tv_sec ts = 0 then
        (case read t of
           None \<Rightarrow> z
         | Some (v, age) \<Rightarrow>
             if age \<le> maxAge then put z (sensorValueToDouble t (uint v)) (addSeconds now (- age)) else z)
      else z)"

definition syncValues :: "(SensorType \<Rightarrow> (u16 \<times> u32) option) \<Rightarrow> DateTime \<Rightarrow> zoneHeat \<Rightarrow> zoneHeat" where
  "syncValues read now z =
     (let nominalTS = zh_NominalValueTS z; controlTS = zh_ControlValueTS z;
          z = syncValue read now ST_TemperatureIndoors HEATING_MAX_SENSOR_AGE (zh_TemperatureValueTS z) setTemperature z;
          z = syncValue read now ST_RoomTemperatureSetpoint SENSOR_MAX_AGE nominalTS setNominalValue z
      in syncValue read now ST_RoomTemperatureControlVariable HEATING_MAX_SENSOR_AGE controlTS setControlValue z)"

text \<open>A configuration or modes that cannot be read stay zero.\<close>

definition scanTemperatureControl ::
    "meters \<Rightarrow> dsuid \<Rightarrow> zoneHeat \<Rightarrow> heatingSpec option \<Rightarrow> u16 list option \<Rightarrow> (SensorType \<Rightarrow> (u16 \<times> u32) option) \<Rightarrow> DateTime
       \<Rightarrow> serror + zoneHeat \<times> busWrite list" where
  "scanTemperatureControl M meter z busConfig busModes read now =
     (let config = (case busConfig of None \<Rightarrow> zeroSpec | Some c \<Rightarrow> c);
          modes = (case (busConfig, busModes) of (Some _, Some ms) \<Rightarrow> ms | _ \<Rightarrow> replicate 16 0)
      in sbind (syncMeter M meter (takeConfig z config modes) config modes) (\<lambda>(z, ws). Inr (syncValues read now z, ws)))"

end
