(* ===== verification/Heating_Laws.thy ===== *)
theory Heating_Laws
  imports Zone_Heating
begin

text \<open>
  Laws of the temperature control: the configuration survives its way through the zone, and scanning the
  meters of a zone leaves at most one of them in control.
\<close>

section \<open>Scales\<close>

definition onScale :: "SensorType \<Rightarrow> real \<Rightarrow> bool" where
  "onScale t x \<longleftrightarrow> (\<exists>v. doubleToSensorValue t x = Inr v)"

definition modesOnScale :: "HeatingControlMode \<Rightarrow> u16 list \<Rightarrow> bool" where
  "modesOnScale mode ms \<longleftrightarrow>
     (mode = HCM_PID \<longrightarrow> (\<forall>m \<in> set ms. uint m \<le> 4095)) \<and> (mode = HCM_FIXED \<longrightarrow> (\<forall>m \<in> set ms. uint m \<le> 200))"

definition heatOK :: "zoneHeat \<Rightarrow> bool" where
  "heatOK z \<longleftrightarrow>
     (\<forall>x \<in> set (hp_TeperatureSetpoints (zh_props z)). onScale ST_RoomTemperatureSetpoint x) \<and>
     (\<forall>x \<in> set (hp_FixedControlValues (zh_props z)). onScale ST_RoomTemperatureControlVariable x)"

lemma setpoint_back: "uint (m :: u16) \<le> 4095 \<Longrightarrow>
    doubleToSensorValue ST_RoomTemperatureSetpoint (sensorValueToDouble ST_RoomTemperatureSetpoint (uint m)) = Inr (uint m)"
  by (rule value_back) (simp_all add: logTypes_def sensorLimit_def)

lemma control_back: "uint (m :: u16) \<le> 200 \<Longrightarrow>
    doubleToSensorValue ST_RoomTemperatureControlVariable (sensorValueToDouble ST_RoomTemperatureControlVariable (uint m)) =
      Inr (uint m)"
  by (rule value_back) (simp_all add: logTypes_def sensorLimit_def)

lemma storeModes_scale:
  "\<forall>m \<in> set ms. onScale t (sensorValueToDouble t (uint m)) \<Longrightarrow> \<forall>x \<in> set old. onScale t x \<Longrightarrow>
     \<forall>x \<in> set (storeModes t ms old). onScale t x"
  unfolding storeModes_def by (auto dest!: in_set_takeD in_set_dropD)

lemma modesEqual_total: "\<forall>x \<in> set xs. onScale t x \<Longrightarrow> \<exists>b. modesEqual t xs ms = Inr b"
  by (induction t xs ms rule: modesEqual.induct) (auto simp: onScale_def split: sum.splits)

lemma isEqual_total: "heatOK z \<Longrightarrow> \<exists>b. isEqual (zh_props z) c ms = Inr b"
  using modesEqual_total unfolding heatOK_def isEqual_def Let_def
  by (cases "hp_mode (zh_props z)") (auto split: sum.splits, (metis Inl_Inr_False)+)

section \<open>The configuration\<close>

lemma there_and_back [simp]:
  "ucast (ucast x :: u32) = (x :: u16)" "ucast (ucast y :: u32) = (y :: u8)" "ucast (scast z :: u32) = (z :: 16 word)"
  by (intro bit_word_eqI; simp add: bit_simps)+

lemma setHeatingConfig_get: "getHeatingConfig (setHeatingConfig z s) = s"
  by (simp add: getHeatingConfig_def setHeatingConfig_def)

lemma isEqual_config: "isEqual (zh_props z) c ms = Inr True \<Longrightarrow> c = getHeatingConfig z"
  by (cases c) (auto simp: isEqual_def getHeatingConfig_def Let_def split: sum.splits, (metis there_and_back)+)

section \<open>One meter in control\<close>

fun applyWrites :: "(dsuid \<Rightarrow> heatingSpec) \<Rightarrow> busWrite list \<Rightarrow> (dsuid \<Rightarrow> heatingSpec)" where
  "applyWrites cfg [] = cfg"
| "applyWrites cfg (SetZoneHeatingConfig m i s # ws) = applyWrites (cfg(m := s)) ws"

text \<open>Scanning several meters, each of which has the configuration that was written to it last.\<close>

fun scanAll ::
    "meters \<Rightarrow> (dsuid \<Rightarrow> u16 list) \<Rightarrow> (SensorType \<Rightarrow> (u16 \<times> u32) option) \<Rightarrow> DateTime \<Rightarrow> dsuid list \<Rightarrow> zoneHeat
       \<Rightarrow> (dsuid \<Rightarrow> heatingSpec) \<Rightarrow> serror + zoneHeat \<times> (dsuid \<Rightarrow> heatingSpec)" where
  "scanAll M modes read now [] z cfg = Inr (z, cfg)"
| "scanAll M modes read now (m # ms) z cfg =
     sbind (scanTemperatureControl M m z (Some (cfg m)) (Some (modes m)) read now) (\<lambda>(z, ws).
       scanAll M modes read now ms z (applyWrites cfg ws))"

lemma syncValue_keeps:
  "(\<And>z v d. keep (put z v d) = keep z) \<Longrightarrow> keep (syncValue read now t a ts put z) = keep z"
  by (simp add: syncValue_def split: option.splits)

lemma syncValues_keep:
  "zh_props (syncValues read now z) = zh_props z" "zh_valid (syncValues read now z) = zh_valid z"
  "zh_temperatureControlMeter (syncValues read now z) = zh_temperatureControlMeter z"
  by (simp_all add: syncValues_def Let_def syncValue_keeps [of zh_props] syncValue_keeps [of zh_valid]
      syncValue_keeps [of zh_temperatureControlMeter] setTemperature_def setNominalValue_def setControlValue_def)

lemma config_of_props: "zh_props z = zh_props z' \<Longrightarrow> getHeatingConfig z = getHeatingConfig z'"
  by (simp add: getHeatingConfig_def)

text \<open>What is left of a meter after it was scanned: switched off, or in control with the configuration of the zone.\<close>

definition settled :: "zoneHeat \<Rightarrow> dsuid \<Rightarrow> heatingSpec \<Rightarrow> bool" where
  "settled z m c \<longleftrightarrow>
     (if zh_valid z \<and> zh_temperatureControlMeter z = Some m then c = getHeatingConfig z else hs_mode c = HCM_OFF)"

text \<open>The meter in control, if there is one, can be asked.\<close>

definition controlOK :: "meters \<Rightarrow> zoneHeat \<Rightarrow> bool" where
  "controlOK M z \<longleftrightarrow> (\<forall>m. zh_temperatureControlMeter z = Some m \<longrightarrow> mt_isPresent M m \<and> mt_hasTemperatureControl M m)"

lemma syncMeter_result:
  assumes "controlOK M z" and "heatOK z" and "mt_isPresent M m" and "mt_hasTemperatureControl M m" and "zh_valid z"
  shows "\<exists>z' ws. syncMeter M m z c ms = Inr (z', ws) \<and> zh_props z' = zh_props z \<and> zh_valid z' \<and> controlOK M z' \<and>
    (zh_temperatureControlMeter z \<noteq> None \<longrightarrow> zh_temperatureControlMeter z' = zh_temperatureControlMeter z) \<and>
    (zh_temperatureControlMeter z' = zh_temperatureControlMeter z \<or> zh_temperatureControlMeter z' = Some m) \<and>
    (\<forall>x. x \<noteq> m \<longrightarrow> applyWrites cfg ws x = cfg x) \<and> (cfg m = c \<longrightarrow> settled z' m (applyWrites cfg ws m))"
proof -
  have wr: "settled z' m ((cfg(m := getHeatingConfig z')) m)" if "zh_valid z'" "zh_temperatureControlMeter z' = Some m" for z'
    using that by (simp add: settled_def)
  obtain b where b: "isEqual (zh_props z) c ms = Inr b" using isEqual_total [OF assms(2)] by blast
  have eq: "b \<Longrightarrow> c = getHeatingConfig z" using isEqual_config b by auto
  consider "zh_temperatureControlMeter z = None" "hs_mode c \<noteq> HCM_OFF" | "zh_temperatureControlMeter z = None" "hs_mode c = HCM_OFF"
    | x where "zh_temperatureControlMeter z = Some x" by blast
  then show ?thesis
  proof cases
    case 1
    let ?z = "z\<lparr>zh_temperatureControlMeter := Some m\<rparr>"
    have g: "getHeatingConfig ?z = getHeatingConfig z" by (rule config_of_props) simp
    have s: "syncMeter M m z c ms = Inr (?z, if b then [] else [SetZoneHeatingConfig m (zh_id z) (getHeatingConfig ?z)])"
      using 1 assms b by (simp add: syncMeter_def tryGetPresentTemperatureControlMeter_def setTemperatureControlMeter_def sbind_def)
    show ?thesis
      by (intro exI conjI, rule s) (use 1 assms eq g in \<open>auto simp: controlOK_def settled_def\<close>)
  next
    case 2
    have s: "syncMeter M m z c ms = Inr (z, [])"
      using 2 assms by (simp add: syncMeter_def tryGetPresentTemperatureControlMeter_def sbind_def)
    show ?thesis by (intro exI conjI, rule s) (use 2 assms in \<open>auto simp: settled_def\<close>)
  next
    case (3 x)
    then have x: "mt_isPresent M x" "mt_hasTemperatureControl M x" using assms(1) by (auto simp: controlOK_def)
    have s: "syncMeter M m z c ms = Inr (z, if x = m then if b then [] else [SetZoneHeatingConfig m (zh_id z) (getHeatingConfig z)]
        else if hs_mode c \<noteq> HCM_OFF then [SetZoneHeatingConfig m (zh_id z) zeroSpec] else [])"
      using 3 x assms b by (simp add: syncMeter_def tryGetPresentTemperatureControlMeter_def sbind_def)
    show ?thesis by (intro exI conjI, rule s) (use 3 assms eq in \<open>auto simp: settled_def zeroSpec_def\<close>)
  qed
qed

lemma takeConfig_result:
  assumes "heatOK z" and "controlOK M z" and "modesOnScale (hs_mode c) ms"
  shows "heatOK (takeConfig z c ms)" "controlOK M (takeConfig z c ms)"
    "zh_temperatureControlMeter (takeConfig z c ms) = zh_temperatureControlMeter z"
    "zh_valid z \<Longrightarrow> takeConfig z c ms = z" "\<not> zh_valid z \<Longrightarrow> zh_valid (takeConfig z c ms) \<longleftrightarrow> hs_mode c \<noteq> HCM_OFF"
proof -
  have sp: "\<forall>m \<in> set ms. onScale ST_RoomTemperatureSetpoint (sensorValueToDouble ST_RoomTemperatureSetpoint (uint m))"
    if "hs_mode c = HCM_PID" using that assms(3) setpoint_back by (fastforce simp: onScale_def modesOnScale_def)
  have cv: "\<forall>m \<in> set ms. onScale ST_RoomTemperatureControlVariable (sensorValueToDouble ST_RoomTemperatureControlVariable (uint m))"
    if "hs_mode c = HCM_FIXED" using that assms(3) control_back by (fastforce simp: onScale_def modesOnScale_def)
  show "heatOK (takeConfig z c ms)"
    using assms(1) storeModes_scale [OF sp] storeModes_scale [OF cv]
    by (cases "hs_mode c") (simp_all add: takeConfig_def setHeatingConfig_def setHeatingOperationModes_def heatOK_def
        setHeatingControlOperationMode_def setHeatingFixedOperationMode_def, blast+)
  show t: "zh_temperatureControlMeter (takeConfig z c ms) = zh_temperatureControlMeter z"
    by (simp add: takeConfig_def setHeatingConfig_def setHeatingOperationModes_def setHeatingControlOperationMode_def
        setHeatingFixedOperationMode_def split: HeatingControlMode.split)
  then show "controlOK M (takeConfig z c ms)" using assms(2) by (simp add: controlOK_def)
  show "zh_valid z \<Longrightarrow> takeConfig z c ms = z" by (simp add: takeConfig_def)
  show "\<not> zh_valid z \<Longrightarrow> zh_valid (takeConfig z c ms) \<longleftrightarrow> hs_mode c \<noteq> HCM_OFF"
    by (simp add: takeConfig_def setHeatingConfig_def setHeatingOperationModes_def setHeatingControlOperationMode_def
        setHeatingFixedOperationMode_def split: HeatingControlMode.split)
qed


text \<open>One scan, seen from the scanned meter and from the others.\<close>

lemma scan_step:
  assumes "controlOK M z" and "heatOK z" and "mt_isPresent M m" and "mt_hasTemperatureControl M m"
    and "modesOnScale (hs_mode (cfg m)) ms"
  shows "\<exists>z' ws. scanTemperatureControl M m z (Some (cfg m)) (Some ms) read now = Inr (z', ws) \<and> controlOK M z' \<and> heatOK z' \<and>
    (zh_valid z \<longrightarrow> zh_valid z' \<and> zh_props z' = zh_props z) \<and>
    (zh_temperatureControlMeter z \<noteq> None \<longrightarrow> zh_temperatureControlMeter z' = zh_temperatureControlMeter z) \<and>
    (zh_temperatureControlMeter z' = zh_temperatureControlMeter z \<or> zh_temperatureControlMeter z' = Some m) \<and>
    (\<forall>x. x \<noteq> m \<longrightarrow> applyWrites cfg ws x = cfg x) \<and>
    (zh_valid z' \<longrightarrow> settled z' m (applyWrites cfg ws m)) \<and> (\<not> zh_valid z' \<longrightarrow> hs_mode (applyWrites cfg ws m) = HCM_OFF)"
proof -
  let ?t = "takeConfig z (cfg m) ms"
  note T = takeConfig_result [OF assms(2, 1, 5)]
  have scan: "scanTemperatureControl M m z (Some (cfg m)) (Some ms) read now =
      sbind (syncMeter M m ?t (cfg m) ms) (\<lambda>(z, ws). Inr (syncValues read now z, ws))"
    by (simp add: scanTemperatureControl_def Let_def)
  show ?thesis
  proof (cases "zh_valid ?t")
    case True
    obtain y ws where y: "syncMeter M m ?t (cfg m) ms = Inr (y, ws)" "zh_props y = zh_props ?t" "zh_valid y" "controlOK M y"
        "zh_temperatureControlMeter ?t \<noteq> None \<longrightarrow> zh_temperatureControlMeter y = zh_temperatureControlMeter ?t"
        "zh_temperatureControlMeter y = zh_temperatureControlMeter ?t \<or> zh_temperatureControlMeter y = Some m"
        "\<forall>x. x \<noteq> m \<longrightarrow> applyWrites cfg ws x = cfg x" "settled y m (applyWrites cfg ws m)"
      using syncMeter_result [OF T(2, 1) assms(3, 4) True, of "cfg m" ms cfg] by blast
    let ?y = "syncValues read now y"
    have "settled ?y m (applyWrites cfg ws m)" "controlOK M ?y" "heatOK ?y" "zh_valid ?y"
      using y T(1) config_of_props [of ?y y] by (simp_all add: settled_def controlOK_def heatOK_def syncValues_keep)
    moreover have "scanTemperatureControl M m z (Some (cfg m)) (Some ms) read now = Inr (?y, ws)"
      by (simp add: scan y(1) sbind_def)
    moreover have "zh_valid z \<Longrightarrow> zh_props ?y = zh_props z" using y(2) T(4) by (simp add: syncValues_keep)
    ultimately show ?thesis using y(5-7) T(3) by (intro exI [of _ ?y] exI [of _ ws]) (simp add: syncValues_keep)
  next
    case False
    have z: "\<not> zh_valid z" using False T(4) by (cases "zh_valid z") simp_all
    then have off: "hs_mode (cfg m) = HCM_OFF" using False T(5) by simp
    have t: "?t = z" using off by (simp add: takeConfig_def)
    have "scanTemperatureControl M m z (Some (cfg m)) (Some ms) read now = Inr (syncValues read now z, [])"
      using z by (simp add: scan t syncMeter_def sbind_def)
    moreover have "controlOK M (syncValues read now z)" "heatOK (syncValues read now z)"
      using assms(1, 2) by (simp_all add: controlOK_def heatOK_def syncValues_keep)
    ultimately show ?thesis using z off by (intro exI [of _ "syncValues read now z"] exI [of _ "[]"]) (simp add: syncValues_keep)
  qed
qed

definition holds :: "bool \<Rightarrow> zoneHeat \<Rightarrow> dsuid \<Rightarrow> heatingSpec \<Rightarrow> bool" where
  "holds v z m c \<longleftrightarrow>
     (hs_mode c \<noteq> HCM_OFF \<longrightarrow> zh_valid z \<and> zh_temperatureControlMeter z = Some m \<and> c = getHeatingConfig z) \<and>
     (v \<and> zh_temperatureControlMeter z = Some m \<longrightarrow> c = getHeatingConfig z)"

lemma scanAll_holds:
  assumes "controlOK M z" and "heatOK z" and "\<forall>m \<in> set ms. mt_isPresent M m \<and> mt_hasTemperatureControl M m" and "distinct ms"
    and "\<forall>m \<in> set ms. modesOnScale (hs_mode (cfg m)) (modes m)" and "v \<longrightarrow> zh_valid z"
    and "\<forall>m \<in> S. holds v z m (cfg m)" and "S \<inter> set ms = {}"
  shows "\<exists>z' cfg'. scanAll M modes read now ms z cfg = Inr (z', cfg') \<and> (\<forall>m \<in> S \<union> set ms. holds v z' m (cfg' m)) \<and>
    (zh_valid z \<longrightarrow> zh_props z' = zh_props z)"
  using assms
proof (induction ms arbitrary: z cfg S)
  case (Cons m ms)
  have p: "mt_isPresent M m" "mt_hasTemperatureControl M m" "modesOnScale (hs_mode (cfg m)) (modes m)" using Cons.prems(3, 5) by auto
  obtain z1 ws where s: "scanTemperatureControl M m z (Some (cfg m)) (Some (modes m)) read now = Inr (z1, ws)"
      "controlOK M z1" "heatOK z1" "zh_valid z \<longrightarrow> zh_valid z1 \<and> zh_props z1 = zh_props z"
      "zh_temperatureControlMeter z \<noteq> None \<longrightarrow> zh_temperatureControlMeter z1 = zh_temperatureControlMeter z"
      "zh_temperatureControlMeter z1 = zh_temperatureControlMeter z \<or> zh_temperatureControlMeter z1 = Some m"
      "\<forall>x. x \<noteq> m \<longrightarrow> applyWrites cfg ws x = cfg x"
      "zh_valid z1 \<longrightarrow> settled z1 m (applyWrites cfg ws m)" "\<not> zh_valid z1 \<longrightarrow> hs_mode (applyWrites cfg ws m) = HCM_OFF"
    using scan_step [where cfg = cfg and m = m and ms = "modes m", OF Cons.prems(1, 2) p, of read now] by blast
  let ?cfg = "applyWrites cfg ws"
  have v1: "v \<longrightarrow> zh_valid z1" using Cons.prems(6) s(4) by blast
  have "holds v z1 m (?cfg m)" using s(8, 9) v1 by (cases "zh_valid z1") (auto simp: holds_def settled_def split: if_splits)
  moreover have "holds v z1 x (?cfg x)" if "x \<in> S" for x
  proof -
    have x: "x \<noteq> m" "holds v z x (cfg x)" using that Cons.prems(7, 8) by auto
    then have c: "?cfg x = cfg x" using s(7) by blast
    have g: "zh_valid z \<longrightarrow> getHeatingConfig z1 = getHeatingConfig z" using s(4) config_of_props by blast
    show ?thesis using x s(4-6) g c Cons.prems(6) by (auto simp: holds_def)
  qed
  ultimately have h: "\<forall>x \<in> insert m S. holds v z1 x (?cfg x)" by blast
  have m: "\<forall>x \<in> set ms. modesOnScale (hs_mode (?cfg x)) (modes x)" using Cons.prems(4, 5) s(7) by auto
  have "\<exists>z' cfg'. scanAll M modes read now ms z1 ?cfg = Inr (z', cfg') \<and> (\<forall>x \<in> insert m S \<union> set ms. holds v z' x (cfg' x)) \<and>
      (zh_valid z1 \<longrightarrow> zh_props z' = zh_props z1)"
    by (rule Cons.IH [OF s(2, 3) _ _ m v1 h]) (use Cons.prems(3, 4, 8) in auto)
  then show ?case using s(1, 4) by (auto simp: sbind_def)
qed simp


definition freshZone :: zoneHeat where
  "freshZone = \<lparr>zh_id = 5, zh_props = resetHeating, zh_valid = False, zh_NominalValue = None, zh_NominalValueTS = NullTime,
     zh_ControlValue = None, zh_ControlValueTS = NullTime, zh_TemperatureValue = None, zh_TemperatureValueTS = NullTime,
     zh_DSMeters = [[1], [2]], zh_temperatureControlMeter = None\<rparr>"

definition goodMeters :: meters where
  "goodMeters = \<lparr>mt_isPresent = \<lambda>_. True, mt_hasTemperatureControl = \<lambda>_. True\<rparr>"


text \<open>
  A configuration that is stored in a zone is read back as it was, whatever the zone had, although the
  zone keeps four of its members in wider words.
\<close>

theorem heating_config_roundtrip: "getHeatingConfig (setHeatingConfig z s) = s \<and> zh_valid (setHeatingConfig z s)"
  by (simp add: setHeatingConfig_get) (simp add: setHeatingConfig_def)

section \<open>The unused modes\<close>

lemma modesEqual_stored:
  assumes "length ms = 16" and "\<forall>m \<in> set ms. uint m \<le> 4095"
  shows "modesEqual ST_RoomTemperatureSetpoint (storeModes ST_RoomTemperatureSetpoint ms (replicate 16 0)) ms =
    Inr (drop 12 ms = replicate 4 1726)"
proof -
  have zero: "doubleToSensorValue ST_RoomTemperatureSetpoint 0 = Inr 1726"
    by (simp add: doubleToSensorValue_def inRange_def c_trunc_def floor_eq_iff)
  have tail: "modesEqual ST_RoomTemperatureSetpoint (replicate n 0) xs = Inr (xs = replicate n 1726)" if "length xs = n" for n and xs :: "u16 list"
    using that
  proof (induction n arbitrary: xs)
    case (Suc n)
    then obtain x ys where "xs = x # ys" "length ys = n" by (cases xs) auto
    moreover have "1726 = uint x \<longleftrightarrow> x = 1726" using word_uint_eq_iff [of x 1726] by auto
    ultimately show ?case using Suc.IH [of ys] by (simp add: zero)
  qed simp
  have "modesEqual ST_RoomTemperatureSetpoint (map (\<lambda>m. sensorValueToDouble ST_RoomTemperatureSetpoint (uint m)) xs @ rs) (xs @ ys) =
      modesEqual ST_RoomTemperatureSetpoint rs ys" if "\<forall>m \<in> set xs. uint m \<le> 4095" for xs and rs ys
    using that by (induction xs) (simp_all add: setpoint_back)
  from this [of "take 12 ms" "replicate 4 0" "drop 12 ms"]
  show ?thesis using assms(2) tail [of "drop 12 ms" 4] assms(1)
    by (auto simp: storeModes_def opModeCount_def dest: in_set_takeD)
qed

lemma syncMeter_chosen:
  assumes "zh_valid y" and "zh_temperatureControlMeter y \<in> {None, Some m}" and "mt_isPresent M m" and "mt_hasTemperatureControl M m"
    and "hs_mode c \<noteq> HCM_OFF" and "isEqual (zh_props y) c ms = Inr b"
  shows "syncMeter M m y c ms =
    Inr (y\<lparr>zh_temperatureControlMeter := Some m\<rparr>, if b then [] else [SetZoneHeatingConfig m (zh_id y) (getHeatingConfig y)])"
proof (cases "zh_temperatureControlMeter y")
  case None
  have "getHeatingConfig (y\<lparr>zh_temperatureControlMeter := Some m\<rparr>) = getHeatingConfig y" by (rule config_of_props) simp
  then show ?thesis
    using None assms by (simp add: syncMeter_def tryGetPresentTemperatureControlMeter_def setTemperatureControlMeter_def sbind_def)
next
  case (Some x)
  then have "x = m" "y\<lparr>zh_temperatureControlMeter := Some m\<rparr> = y" using assms(2) by simp_all
  then show ?thesis using Some assms by (simp add: syncMeter_def tryGetPresentTemperatureControlMeter_def sbind_def)
qed

lemma stored_config:
  "\<not> zh_valid z \<Longrightarrow> hs_mode c = HCM_PID \<Longrightarrow>
     isEqual (zh_props (takeConfig z c ms)) c xs =
       modesEqual ST_RoomTemperatureSetpoint (hp_TeperatureSetpoints (zh_props (takeConfig z c ms))) xs"
  by (auto simp: takeConfig_def setHeatingConfig_def setHeatingOperationModes_def setHeatingControlOperationMode_def
      isEqual_def split: sum.split)

text \<open>
  A zone without configuration that takes the one of a PID controller writes it back to the meter in
  the same scan, and again in every later scan in which the meter answers the same, unless the last four
  of the sixteen modes happen to have the value of zero degrees: the comparison looks at all sixteen,
  and only twelve are stored.  What is written is the configuration that the meter has, never the modes.
\<close>

theorem unused_modes_resync:
  assumes "length ms = 16" and "\<forall>x \<in> set ms. uint x \<le> 4095" and "hs_mode c = HCM_PID"
    and "mt_isPresent M m" and "mt_hasTemperatureControl M m"
    and "zh_props z = resetHeating" and "\<not> zh_valid z" and "zh_temperatureControlMeter z = None"
  shows "\<exists>z'. scanTemperatureControl M m z (Some c) (Some ms) read now =
      Inr (z', if drop 12 ms = replicate 4 1726 then [] else [SetZoneHeatingConfig m (zh_id z) c]) \<and>
    (\<exists>z''. scanTemperatureControl M m z' (Some c) (Some ms) read' later =
      Inr (z'', if drop 12 ms = replicate 4 1726 then [] else [SetZoneHeatingConfig m (zh_id z) c]))"
proof -
  let ?t = "takeConfig z c ms" let ?w = "if drop 12 ms = replicate 4 1726 then [] else [SetZoneHeatingConfig m (zh_id z) c]"
  have t: "getHeatingConfig ?t = c" "zh_valid ?t" "hp_mode (zh_props ?t) = HCM_PID" "zh_temperatureControlMeter ?t = None"
      "zh_id ?t = zh_id z" "hp_TeperatureSetpoints (zh_props ?t) = storeModes ST_RoomTemperatureSetpoint ms (replicate 16 0)"
    using assms(3, 6-8) by (simp_all add: takeConfig_def setHeatingConfig_def setHeatingOperationModes_def getHeatingConfig_def
        setHeatingControlOperationMode_def resetHeating_def)
  have eq: "isEqual (zh_props y) c ms = Inr (drop 12 ms = replicate 4 1726)" if "zh_props y = zh_props ?t" for y
    using t(6) that modesEqual_stored [OF assms(1, 2)] stored_config [OF assms(7, 3), of ms ms] by simp
  have sync: "syncMeter M m y c ms = Inr (y\<lparr>zh_temperatureControlMeter := Some m\<rparr>, ?w)"
    if y: "zh_props y = zh_props ?t" "zh_valid y" "zh_id y = zh_id z" "zh_temperatureControlMeter y \<in> {None, Some m}" for y
  proof -
    have g: "getHeatingConfig y = c" using t(1) config_of_props [OF y(1)] by simp
    show ?thesis using syncMeter_chosen [OF y(2, 4) assms(4, 5) _ eq [OF y(1)]] assms(3) unfolding g y(3) by simp
  qed
  have id: "zh_id (syncValues read now y) = zh_id y" for y
    by (simp add: syncValues_def Let_def syncValue_keeps [of zh_id] setTemperature_def setNominalValue_def setControlValue_def)
  let ?z = "syncValues read now (?t\<lparr>zh_temperatureControlMeter := Some m\<rparr>)"
  have z: "zh_props ?z = zh_props ?t" "zh_valid ?z" "zh_id ?z = zh_id z" "zh_temperatureControlMeter ?z = Some m"
    using t by (simp_all add: syncValues_keep id)
  have "scanTemperatureControl M m z (Some c) (Some ms) read now = Inr (?z, ?w)"
    using sync [of ?t] t by (simp add: scanTemperatureControl_def Let_def sbind_def)
  moreover have "scanTemperatureControl M m ?z (Some c) (Some ms) read' later =
      Inr (syncValues read' later (?z\<lparr>zh_temperatureControlMeter := Some m\<rparr>), ?w)"
    using sync [of ?z] z by (simp add: scanTemperatureControl_def takeConfig_def sbind_def Let_def)
  ultimately show ?thesis by blast
qed

theorem unused_modes_resync_witness:
  "\<exists>z'. scanTemperatureControl goodMeters [1] freshZone (Some (zeroSpec\<lparr>hs_mode := HCM_PID\<rparr>)) (Some (replicate 16 0))
       (\<lambda>_. None) NullTime = Inr (z', [SetZoneHeatingConfig [1] 5 (zeroSpec\<lparr>hs_mode := HCM_PID\<rparr>)])"
proof -
  have "drop 12 (replicate 16 (0 :: u16)) \<noteq> replicate 4 1726" "zh_id freshZone = 5" by (simp_all add: freshZone_def)
  moreover have "length (replicate 16 (0 :: u16)) = 16" "\<forall>x \<in> set (replicate 16 (0 :: u16)). uint x \<le> 4095"
      "hs_mode (zeroSpec\<lparr>hs_mode := HCM_PID\<rparr>) = HCM_PID" "mt_isPresent goodMeters [1]" "mt_hasTemperatureControl goodMeters [1]"
      "zh_props freshZone = resetHeating" "\<not> zh_valid freshZone" "zh_temperatureControlMeter freshZone = None"
    by (simp_all add: freshZone_def goodMeters_def)
  ultimately show ?thesis
    using unused_modes_resync [of "replicate 16 0" "zeroSpec\<lparr>hs_mode := HCM_PID\<rparr>" goodMeters "[1]" freshZone
        "\<lambda>_. None" NullTime "\<lambda>_. None" NullTime] by auto
qed

end
