(* ===== verification/Bus_Run.thy ===== *)
theory Bus_Run
  imports Device_Set
begin

text \<open>
  Operations that change a part of the model and send commands: a run is the new state, the commands
  so far and the exception that ended it, if any.  What was changed and sent before an exception stays.
  The exceptions are those of the model, or of another type \<open>'e\<close> where an operation has more.
  The bus is a function that says with which exception a command fails, if it does; a command that fails
  is the last of the run.
\<close>

type_synonym ('s, 'c, 'e) erun = "'s \<times> 'c list \<times> 'e option"
type_synonym ('s, 'c, 'e) estep = "'s \<times> 'c list \<Rightarrow> ('s, 'c, 'e) erun"
type_synonym ('s, 'c) run = "('s, 'c, serror) erun"
type_synonym ('s, 'c) step = "('s, 'c, serror) estep"

definition okRun :: "('s, 'c, 'e) estep" where "okRun s = (fst s, snd s, None)"

definition failRun :: "'e \<Rightarrow> ('s, 'c, 'e) estep" where "failRun e s = (fst s, snd s, Some e)"

definition change :: "('s \<Rightarrow> 's) \<Rightarrow> ('s, 'c, 'e) estep" where "change f s = (f (fst s), snd s, None)"

definition send :: "('c \<Rightarrow> 'e option) \<Rightarrow> 'c \<Rightarrow> ('s, 'c, 'e) estep" where "send bus c s = (fst s, snd s @ [c], bus c)"

text \<open>What is pushed to a queue of the server itself does not fail.\<close>

definition push :: "'c \<Rightarrow> ('s, 'c, 'e) estep" where "push c s = (fst s, snd s @ [c], None)"

definition thenRun :: "('s, 'c, 'e) erun \<Rightarrow> ('s, 'c, 'e) estep \<Rightarrow> ('s, 'c, 'e) erun" where
  "thenRun r f = (case r of (z, cs, None) \<Rightarrow> f (z, cs) | (z, cs, Some e) \<Rightarrow> (z, cs, Some e))"

fun runAll :: "('s, 'c, 'e) estep list \<Rightarrow> ('s, 'c, 'e) estep" where
  "runAll [] s = okRun s"
| "runAll (f # fs) s = thenRun (f s) (runAll fs)"

definition onlyIf :: "('s \<Rightarrow> bool) \<Rightarrow> ('s, 'c, 'e) estep \<Rightarrow> ('s, 'c, 'e) estep" where
  "onlyIf P f s = (if P (fst s) then f s else okRun s)"

text \<open>A step that is chosen by what the state is when it starts.\<close>

definition reading :: "('s \<Rightarrow> ('s, 'c, 'e) estep) \<Rightarrow> ('s, 'c, 'e) estep" where
  "reading f s = f (fst s) s"

lemma run_simps [simp]:
  "okRun (z, cs) = (z, cs, None)" "failRun e (z, cs) = (z, cs, Some e)" "change f (z, cs) = (f z, cs, None)"
  "send bus c (z, cs) = (z, cs @ [c], bus c)" "push c (z, cs) = (z, cs @ [c], None)"
  "thenRun (z, cs, None) g = g (z, cs)" "thenRun (z, cs, Some e) g = (z, cs, Some e)"
  "onlyIf P g (z, cs) = (if P z then g (z, cs) else (z, cs, None))"
  "reading h (z, cs) = h z (z, cs)"
  by (simp_all add: okRun_def failRun_def change_def send_def push_def thenRun_def onlyIf_def reading_def)

text \<open>The first steps of a run, one at a time.\<close>

lemma run_first:
  "runAll (change f # fs) (z, cs) = runAll fs (f z, cs)" "runAll (push c # fs) (z, cs) = runAll fs (z, cs @ [c])"
  "bus c = None \<Longrightarrow> runAll (send bus c # fs) (z, cs) = runAll fs (z, cs @ [c])"
  "P z \<Longrightarrow> runAll (onlyIf P g # fs) (z, cs) = runAll (g # fs) (z, cs)"
  "\<not> P z \<Longrightarrow> runAll (onlyIf P g # fs) (z, cs) = runAll fs (z, cs)"
  "g (z, cs) = (z', cs', None) \<Longrightarrow> runAll (g # fs) (z, cs) = runAll fs (z', cs')"
  by simp_all

lemma runAll_single: "runAll [f] s = f s"
  by (cases "f s") (simp add: thenRun_def split: option.split)

lemma runAll_append: "runAll (fs @ gs) s = thenRun (runAll fs s) (runAll gs)"
  by (induction fs arbitrary: s) (auto simp: thenRun_def split: option.split prod.split)

text \<open>What a step may do to the state: the relation holds between the states before and after, whether it fails or not.\<close>

definition stepRel :: "('s \<Rightarrow> 's \<Rightarrow> bool) \<Rightarrow> ('s, 'c, 'e) estep \<Rightarrow> bool" where
  "stepRel R f \<longleftrightarrow> (\<forall>z cs. R z (fst (f (z, cs))))"

lemma stepRel_thenRun:
  assumes "transp R" and "stepRel R f" and "stepRel R g"
  shows "stepRel R (\<lambda>s. thenRun (f s) g)"
  unfolding stepRel_def
proof (intro allI)
  fix z cs
  obtain y ds e where y: "f (z, cs) = (y, ds, e)" by (cases "f (z, cs)")
  have "R z y" using assms(2) y unfolding stepRel_def by (metis fst_conv)
  moreover have "R y (fst (g (y, ds)))" using assms(3) unfolding stepRel_def by blast
  ultimately show "R z (fst (thenRun (f (z, cs)) g))" using assms(1) y by (cases e) (auto dest: transpD)
qed

lemma stepRel_runAll: "reflp R \<Longrightarrow> transp R \<Longrightarrow> \<forall>f \<in> set fs. stepRel R f \<Longrightarrow> stepRel R (runAll fs)"
proof (induction fs)
  case Nil
  then show ?case by (simp add: stepRel_def reflpD)
next
  case (Cons f fs)
  then have "stepRel R (\<lambda>s. thenRun (f s) (runAll fs))" by (intro stepRel_thenRun) simp_all
  then show ?case by (simp add: stepRel_def)
qed

named_theorems step_intros \<open>steps that keep a relation\<close>

lemma stepRel_basic [step_intros]:
  "reflp R \<Longrightarrow> stepRel R okRun" "reflp R \<Longrightarrow> stepRel R (failRun e)" "reflp R \<Longrightarrow> stepRel R (send bus c)"
  "reflp R \<Longrightarrow> stepRel R (push c)" "(\<And>z. R z (f z)) \<Longrightarrow> stepRel R (change f)"
  "reflp R \<Longrightarrow> stepRel R g \<Longrightarrow> stepRel R (onlyIf P g)" "(\<And>z. stepRel R (h z)) \<Longrightarrow> stepRel R (reading h)"
  by (auto simp: stepRel_def reflp_def)

lemma stepRel_list [step_intros]:
  "reflp R \<Longrightarrow> stepRel R (runAll [])"
  "transp R \<Longrightarrow> stepRel R f \<Longrightarrow> stepRel R (runAll fs) \<Longrightarrow> stepRel R (runAll (f # fs))"
proof -
  show "reflp R \<Longrightarrow> stepRel R (runAll [])" by (simp add: stepRel_def reflp_def)
  assume "transp R" "stepRel R f" "stepRel R (runAll fs)"
  then have "stepRel R (\<lambda>s. thenRun (f s) (runAll fs))" by (rule stepRel_thenRun)
  then show "stepRel R (runAll (f # fs))" by (simp add: stepRel_def)
qed

section \<open>Runs that return\<close>

text \<open>The step returns from the state, without an exception, in a state with the property, whatever was sent before.\<close>

definition yields :: "('s, 'c, 'e) estep \<Rightarrow> 's \<Rightarrow> ('s \<Rightarrow> bool) \<Rightarrow> bool" where
  "yields f z Q \<longleftrightarrow> (\<forall>cs. \<exists>z' cs'. f (z, cs) = (z', cs', None) \<and> Q z')"

lemma yieldsD: "yields f z Q \<Longrightarrow> \<exists>z' cs'. f (z, cs) = (z', cs', None) \<and> Q z'"
  by (simp add: yields_def)

lemma yields_mono: "yields f z P \<Longrightarrow> (\<And>z'. P z' \<Longrightarrow> Q z') \<Longrightarrow> yields f z Q"
  unfolding yields_def by blast

lemma yields_simps [simp]:
  "yields okRun z Q \<longleftrightarrow> Q z" "yields (change f) z Q \<longleftrightarrow> Q (f z)" "yields (push c) z Q \<longleftrightarrow> Q z"
  "yields (onlyIf P g) z Q \<longleftrightarrow> (if P z then yields g z Q else Q z)" "yields (reading h) z Q \<longleftrightarrow> yields (h z) z Q"
  "yields (runAll []) z Q \<longleftrightarrow> Q z"
  by (simp_all add: yields_def)

lemma yields_Cons: "yields f z (\<lambda>z'. yields (runAll fs) z' Q) \<Longrightarrow> yields (runAll (f # fs)) z Q"
  unfolding yields_def
proof
  fix cs
  assume "\<forall>cs. \<exists>z' cs'. f (z, cs) = (z', cs', None) \<and> (\<forall>cs. \<exists>z'' cs'. runAll fs (z', cs) = (z'', cs', None) \<and> Q z'')"
  then obtain z' cs' where "f (z, cs) = (z', cs', None)" "\<exists>z'' cs''. runAll fs (z', cs') = (z'', cs'', None) \<and> Q z''" by blast
  then show "\<exists>z' cs'. runAll (f # fs) (z, cs) = (z', cs', None) \<and> Q z'" by simp
qed

lemma yields_then:
  "yields f z P \<Longrightarrow> (\<And>z'. P z' \<Longrightarrow> yields (runAll fs) z' Q) \<Longrightarrow> yields (runAll (f # fs)) z Q"
  by (rule yields_Cons) (rule yields_mono)

lemma yields_last: "yields f z Q \<Longrightarrow> yields (runAll [f]) z Q"
  by (rule yields_Cons) simp

text \<open>
  A loop whose body keeps an invariant, moves along a preorder and establishes a property of its element
  that the preorder keeps, establishes the property for all elements.
\<close>

lemma yields_each:
  assumes "reflp R" and "transp R"
    and "\<And>x z. x \<in> set xs \<Longrightarrow> I z \<Longrightarrow> yields (f x) z (\<lambda>z'. R z z' \<and> I z' \<and> P x z')"
    and "\<And>x z z'. x \<in> set xs \<Longrightarrow> P x z \<Longrightarrow> R z z' \<Longrightarrow> P x z'"
  shows "I z \<Longrightarrow> yields (runAll (map f xs)) z (\<lambda>z'. R z z' \<and> I z' \<and> (\<forall>x \<in> set xs. P x z'))"
  using assms(3, 4)
proof (induction xs arbitrary: z)
  case Nil
  then show ?case using assms(1) by (simp add: reflpD)
next
  case (Cons x xs)
  have "yields (f x) z (\<lambda>z'. R z z' \<and> I z' \<and> P x z')" using Cons.prems(1, 2) by simp
  then have "yields (f x) z (\<lambda>z'. yields (runAll (map f xs)) z' (\<lambda>z''. R z z'' \<and> I z'' \<and> (\<forall>y \<in> set (x # xs). P y z'')))"
  proof (rule yields_mono)
    fix z' assume z': "R z z' \<and> I z' \<and> P x z'"
    have "yields (runAll (map f xs)) z' (\<lambda>z''. R z' z'' \<and> I z'' \<and> (\<forall>y \<in> set xs. P y z''))"
      by (rule Cons.IH) (blast intro: Cons.prems(2, 3) list.set_intros(2) z' [THEN conjunct2, THEN conjunct1])+
    then show "yields (runAll (map f xs)) z' (\<lambda>z''. R z z'' \<and> I z'' \<and> (\<forall>y \<in> set (x # xs). P y z''))"
    proof (rule yields_mono)
      fix z'' assume z'': "R z' z'' \<and> I z'' \<and> (\<forall>y \<in> set xs. P y z'')"
      moreover have "R z z''" using assms(2) z' z'' by (blast dest: transpD)
      moreover have "P x z''" using Cons.prems(3) [of x z' z''] z' z'' by simp
      ultimately show "R z z'' \<and> I z'' \<and> (\<forall>y \<in> set (x # xs). P y z'')" by simp
    qed
  qed
  then show ?case unfolding list.map(2) by (rule yields_Cons)
qed

end
