(* ===== verification/Zone_Sensors.thy ===== *)
theory Zone_Sensors
  imports Bus_Run Model_Const
begin

text \<open>
  The sensors of a zone: \<^verbatim>\<open>m_MainSensors\<close> of \<^verbatim>\<open>src/src/model/zone.cpp\<close>, at most one device for each kind of
  sensor that a zone may have, and the functions of \<^verbatim>\<open>src/src/structuremanipulator.cpp\<close> that assign
  them and tell the meters.  The bus is a parameter that says which commands fail; the commands that
  were sent, the failed one last, are part of the result.  A kind of sensor of a device is its number,
  as in \<open>Device_Set\<close>.
\<close>

section \<open>Data\<close>

record mainSensor =
  ms_DSUID :: dsuid
  ms_sensorIndex :: int
  ms_sensorType :: SensorType

record sensorZone =
  sz_id :: int
  sz_devices :: dset
  sz_MainSensors :: "mainSensor list"

datatype sensorCmd = SetZoneSensor int SensorType dsuid | ResetZoneSensor int SensorType

section \<open>The zone\<close>

definition outdoorSensors :: "SensorType list" where
  "outdoorSensors = [ST_TemperatureOutdoors, ST_BrightnessOutdoors, ST_HumidityOutdoors, ST_WindSpeed, ST_WindDirection,
     ST_GustSpeed, ST_GustDirection, ST_Precipitation, ST_AirPressure]"

definition indoorSensors :: "SensorType list" where
  "indoorSensors = [ST_TemperatureIndoors, ST_BrightnessIndoors, ST_HumidityIndoors, ST_CO2Concentration]"

definition isAllowedSensorType :: "sensorZone \<Rightarrow> SensorType \<Rightarrow> bool" where
  "isAllowedSensorType z t =
     (if sz_id z = 0
      then (case t of
              ST_TemperatureOutdoors \<Rightarrow> True | ST_BrightnessOutdoors \<Rightarrow> True | ST_HumidityOutdoors \<Rightarrow> True
            | ST_WindSpeed \<Rightarrow> True | ST_WindDirection \<Rightarrow> True | ST_GustSpeed \<Rightarrow> True | ST_GustDirection \<Rightarrow> True
            | ST_Precipitation \<Rightarrow> True | ST_AirPressure \<Rightarrow> True | _ \<Rightarrow> False)
      else (case t of
              ST_TemperatureIndoors \<Rightarrow> True | ST_BrightnessIndoors \<Rightarrow> True | ST_HumidityIndoors \<Rightarrow> True
            | ST_CO2Concentration \<Rightarrow> True | _ \<Rightarrow> False))"

text \<open>The sensors of a device are numbered in order; the first of the kind is taken.\<close>

fun sensorPosition :: "int \<Rightarrow> int list \<Rightarrow> int \<Rightarrow> int option" where
  "sensorPosition i [] t = None"
| "sensorPosition i (s # ss) t = (if s = t then Some i else sensorPosition (i + 1) ss t)"

definition getSensorByType :: "device \<Rightarrow> SensorType \<Rightarrow> serror + int" where
  "getSensorByType d t =
     (case sensorPosition 0 (d_sensorInputs d) (SensorType_value t) of
        None \<Rightarrow> Inl (ItemNotFound ''Device::getSensor: no sensor with given type found'')
      | Some i \<Rightarrow> Inr i)"

fun putSensor :: "mainSensor \<Rightarrow> mainSensor list \<Rightarrow> mainSensor list" where
  "putSensor s [] = [s]"
| "putSensor s (m # ms) =
     (if ms_sensorType m = ms_sensorType s
      then m\<lparr>ms_DSUID := ms_DSUID s, ms_sensorIndex := ms_sensorIndex s\<rparr> # ms
      else m # putSensor s ms)"

text \<open>The two overloads of \<^verbatim>\<open>setSensor\<close>, for a given assignment and for a device.\<close>

definition setMainSensor :: "sensorZone \<Rightarrow> mainSensor \<Rightarrow> serror + sensorZone" where
  "setMainSensor z s =
     (if \<not> isAllowedSensorType z (ms_sensorType s)
      then Inl (StdRuntime (''Assignment of sensor type '' @ sensorTypeName (ms_sensorType s) @ '' is not allowed!''))
      else Inr (z\<lparr>sz_MainSensors := putSensor s (sz_MainSensors z)\<rparr>))"

definition setSensor :: "sensorZone \<Rightarrow> device \<Rightarrow> SensorType \<Rightarrow> serror + sensorZone" where
  "setSensor z d t =
     sbind (getSensorByType d t) (\<lambda>i.
       setMainSensor z \<lparr>ms_DSUID = d_dsid d, ms_sensorIndex = i, ms_sensorType = t\<rparr>)"

definition resetSensor :: "sensorZone \<Rightarrow> SensorType \<Rightarrow> sensorZone" where
  "resetSensor z t =
     (if \<not> isAllowedSensorType z t then z
      else z\<lparr>sz_MainSensors := filter (\<lambda>s. ms_sensorType s \<noteq> t) (sz_MainSensors z)\<rparr>)"

definition isSensorAssigned :: "sensorZone \<Rightarrow> SensorType \<Rightarrow> bool" where
  "isSensorAssigned z t \<longleftrightarrow> find (\<lambda>s. ms_sensorType s = t) (sz_MainSensors z) \<noteq> None"

definition getUnassignedSensorTypes :: "sensorZone \<Rightarrow> SensorType list" where
  "getUnassignedSensorTypes z =
     filter (\<lambda>t. \<not> isSensorAssigned z t) (if sz_id z = 0 then outdoorSensors else indoorSensors)"

definition getAssignedSensorTypes :: "sensorZone \<Rightarrow> device \<Rightarrow> SensorType list" where
  "getAssignedSensorTypes z d = map ms_sensorType (filter (\<lambda>s. ms_DSUID s = d_dsid d) (sz_MainSensors z))"

definition removeInvalidZoneSensors :: "sensorZone \<Rightarrow> sensorZone" where
  "removeInvalidZoneSensors z =
     z\<lparr>sz_MainSensors := filter (\<lambda>s. contains (sz_devices z) (ms_DSUID s)) (sz_MainSensors z)\<rparr>"

definition getAssignedSensorDevice :: "apartment \<Rightarrow> sensorZone \<Rightarrow> SensorType \<Rightarrow> serror + device option" where
  "getAssignedSensorDevice A z t =
     (case find (\<lambda>s. ms_sensorType s = t) (sz_MainSensors z) of
        None \<Rightarrow> Inr None
      | Some s \<Rightarrow> sbind (getByDSID A (sz_devices z) (ms_DSUID s)) (\<lambda>r. sbind (getDeviceByDSID A r) (\<lambda>d. Inr (Some d))))"

definition isZoneSensor :: "apartment \<Rightarrow> sensorZone \<Rightarrow> device \<Rightarrow> SensorType \<Rightarrow> serror + bool" where
  "isZoneSensor A z d t =
     sbind (getAssignedSensorDevice A z t) (\<lambda>zoneSensor.
       Inr (case zoneSensor of None \<Rightarrow> False | Some x \<Rightarrow> d_dsid d = d_dsid x))"

section \<open>Telling the meters\<close>

type_synonym sensorRun = "(sensorZone, sensorCmd) run"

definition setZoneSensor :: "(sensorCmd \<Rightarrow> serror option) \<Rightarrow> SensorType \<Rightarrow> device \<Rightarrow> sensorZone \<times> sensorCmd list \<Rightarrow> sensorRun" where
  "setZoneSensor bus t d s =
     (case setSensor (fst s) d t of
        Inl e \<Rightarrow> (fst s, snd s, Some e)
      | Inr z \<Rightarrow> send bus (SetZoneSensor (sz_id z) t (d_dsid d)) (z, snd s))"

definition resetZoneSensor :: "(sensorCmd \<Rightarrow> serror option) \<Rightarrow> SensorType \<Rightarrow> sensorZone \<times> sensorCmd list \<Rightarrow> sensorRun" where
  "resetZoneSensor bus t s =
     (let z = resetSensor (fst s) t in send bus (ResetZoneSensor (sz_id z) t) (z, snd s))"

text \<open>The first device of a set that is present; each reference is looked up.\<close>

fun firstPresent :: "apartment \<Rightarrow> dset \<Rightarrow> serror + device option" where
  "firstPresent A [] = Inr None"
| "firstPresent A (r # rs) =
     sbind (getDeviceByDSID A r) (\<lambda>d. if d_isPresent d then Inr (Some d) else firstPresent A rs)"

fun assignLoop :: "apartment \<Rightarrow> (sensorCmd \<Rightarrow> serror option) \<Rightarrow> dset \<Rightarrow> SensorType list \<Rightarrow> sensorZone \<times> sensorCmd list \<Rightarrow> sensorRun" where
  "assignLoop A bus devices [] s = (fst s, snd s, None)"
| "assignLoop A bus devices (t # ts) s =
     (case sbind (getBySensorType A devices (SensorType_value t)) (firstPresent A) of
        Inl e \<Rightarrow> (fst s, snd s, Some e)
      | Inr None \<Rightarrow> assignLoop A bus devices ts s
      | Inr (Some d) \<Rightarrow> thenRun (setZoneSensor bus t d s) (assignLoop A bus devices ts))"

definition autoAssignZoneSensors :: "apartment \<Rightarrow> (sensorCmd \<Rightarrow> serror option) \<Rightarrow> sensorZone \<times> sensorCmd list \<Rightarrow> sensorRun" where
  "autoAssignZoneSensors A bus s =
     (if sz_devices (fst s) = [] then (fst s, snd s, None)
      else assignLoop A bus (sz_devices (fst s)) (getUnassignedSensorTypes (fst s)) s)"

fun resetLoop :: "(sensorCmd \<Rightarrow> serror option) \<Rightarrow> SensorType list \<Rightarrow> sensorZone \<times> sensorCmd list \<Rightarrow> sensorRun" where
  "resetLoop bus [] s = (fst s, snd s, None)"
| "resetLoop bus (t # ts) s = thenRun (resetZoneSensor bus t s) (resetLoop bus ts)"

definition checkSensorsOnDeviceRemoval ::
    "apartment \<Rightarrow> (sensorCmd \<Rightarrow> serror option) \<Rightarrow> device \<Rightarrow> sensorZone \<times> sensorCmd list \<Rightarrow> sensorRun" where
  "checkSensorsOnDeviceRemoval A bus d s =
     thenRun (resetLoop bus (getAssignedSensorTypes (fst s) d) s) (autoAssignZoneSensors A bus)"

fun sendAll :: "(sensorCmd \<Rightarrow> serror option) \<Rightarrow> sensorCmd list \<Rightarrow> sensorZone \<times> sensorCmd list \<Rightarrow> sensorRun" where
  "sendAll bus [] s = (fst s, snd s, None)"
| "sendAll bus (c # cs) s = thenRun (send bus c s) (sendAll bus cs)"

text \<open>A \<^verbatim>\<open>std::runtime_error\<close> ends the loops and is logged; the bus throws nothing else.\<close>

definition synchronizeZoneSensorAssignment :: "(sensorCmd \<Rightarrow> serror option) \<Rightarrow> sensorZone \<Rightarrow> sensorZone \<times> sensorCmd list" where
  "synchronizeZoneSensorAssignment bus zone =
     (let z = removeInvalidZoneSensors zone;
          (z, cs, e) = thenRun (sendAll bus (map (ResetZoneSensor (sz_id z)) (getUnassignedSensorTypes z)) (z, []))
            (sendAll bus (map (\<lambda>s. SetZoneSensor (sz_id z) (ms_sensorType s) (ms_DSUID s)) (sz_MainSensors z)))
      in (z, cs))"

end
