(* ===== verification/Sensor_Laws.thy ===== *)
theory Sensor_Laws
  imports Zone_Sensors
begin

text \<open>
  Laws of the sensors of a zone.  The vector of assignments implements a partial function from kinds of
  sensors to a device and the number of its sensor; what is assigned automatically is determined; and a
  synchronisation leaves the meters with the assignment of the zone.
\<close>

section \<open>The vector as a function\<close>

definition sensorOf :: "sensorZone \<Rightarrow> SensorType \<Rightarrow> (dsuid \<times> int) option" where
  "sensorOf z t = map_option (\<lambda>s. (ms_DSUID s, ms_sensorIndex s)) (find (\<lambda>s. ms_sensorType s = t) (sz_MainSensors z))"

definition sensorsOK :: "sensorZone \<Rightarrow> bool" where
  "sensorsOK z \<longleftrightarrow> distinct (map ms_sensorType (sz_MainSensors z)) \<and> (\<forall>s \<in> set (sz_MainSensors z). isAllowedSensorType z (ms_sensorType s))"

lemma allowed_cong: "sz_id z = sz_id z' \<Longrightarrow> isAllowedSensorType z = isAllowedSensorType z'"
  by (rule ext) (simp add: isAllowedSensorType_def)

lemma allowed_update [simp]: "isAllowedSensorType (z\<lparr>sz_MainSensors := ms\<rparr>) = isAllowedSensorType z"
  by (rule allowed_cong) simp

lemma allowed_table: "isAllowedSensorType z t \<longleftrightarrow> t \<in> set (if sz_id z = 0 then outdoorSensors else indoorSensors)"
  by (cases t) (simp_all add: isAllowedSensorType_def outdoorSensors_def indoorSensors_def)

lemma putSensor_types:
  "map ms_sensorType (putSensor s ms) =
     (if ms_sensorType s \<in> ms_sensorType ` set ms then map ms_sensorType ms else map ms_sensorType ms @ [ms_sensorType s])"
  by (induction ms) auto

lemma putSensor_set: "ms_sensorType ` set (putSensor s ms) = insert (ms_sensorType s) (ms_sensorType ` set ms)"
  by (induction ms) auto

lemma find_type: "find (\<lambda>s. ms_sensorType s = t) ms = Some m \<Longrightarrow> m \<in> set ms \<and> ms_sensorType m = t"
  by (auto simp: find_Some_iff)

lemma putSensor_find:
  "find (\<lambda>m. ms_sensorType m = t) (putSensor s ms) =
     (if t = ms_sensorType s
      then Some (case find (\<lambda>m. ms_sensorType m = t) ms of None \<Rightarrow> s
                 | Some m \<Rightarrow> m\<lparr>ms_DSUID := ms_DSUID s, ms_sensorIndex := ms_sensorIndex s\<rparr>)
      else find (\<lambda>m. ms_sensorType m = t) ms)"
  by (induction ms) auto

lemma find_filter_distinct:
  "distinct (map f ms) \<Longrightarrow>
     find (\<lambda>x. f x = t) (filter P ms) = (case find (\<lambda>x. f x = t) ms of None \<Rightarrow> None | Some m \<Rightarrow> if P m then Some m else None)"
proof (induction ms)
  case (Cons m ms)
  have "find (\<lambda>x. f x = t) (filter P ms) = None" if "f m = t" using Cons.prems that by (auto simp: find_None_iff) (metis image_eqI)
  then show ?case using Cons by auto
qed simp

lemma setMainSensor_of:
  "setMainSensor z s = Inr z' \<Longrightarrow> sensorOf z' = (sensorOf z)(ms_sensorType s \<mapsto> (ms_DSUID s, ms_sensorIndex s))"
  by (rule ext) (auto simp: setMainSensor_def sensorOf_def putSensor_find split: if_splits option.split)

lemma setMainSensor_ok: "sensorsOK z \<Longrightarrow> setMainSensor z s = Inr z' \<Longrightarrow> sensorsOK z'"
proof -
  assume a: "sensorsOK z" "setMainSensor z s = Inr z'"
  then have z': "z' = z\<lparr>sz_MainSensors := putSensor s (sz_MainSensors z)\<rparr>" "isAllowedSensorType z (ms_sensorType s)"
    by (auto simp: setMainSensor_def split: if_splits)
  have "\<forall>t \<in> ms_sensorType ` set (putSensor s (sz_MainSensors z)). isAllowedSensorType z t"
    using a(1) z'(2) unfolding putSensor_set by (auto simp: sensorsOK_def)
  then show ?thesis using a(1) z'(1) by (simp add: sensorsOK_def putSensor_types)
qed

lemma resetSensor_of: "sensorsOK z \<Longrightarrow> sensorOf (resetSensor z t) = (sensorOf z)(t := None)"
proof (rule ext)
  fix x assume a: "sensorsOK z"
  have "sensorOf z t = None" if "\<not> isAllowedSensorType z t" using a that by (auto simp: sensorOf_def sensorsOK_def find_None_iff)
  then show "sensorOf (resetSensor z t) x = ((sensorOf z)(t := None)) x"
    using a by (cases "find (\<lambda>s. ms_sensorType s = x) (sz_MainSensors z)")
      (auto simp: resetSensor_def sensorOf_def sensorsOK_def find_filter_distinct dest: find_type)
qed

lemma resetSensor_ok: "sensorsOK z \<Longrightarrow> sensorsOK (resetSensor z t)"
  by (auto simp: resetSensor_def sensorsOK_def distinct_map_filter)

lemma removeInvalid_of:
  "sensorsOK z \<Longrightarrow> sensorOf (removeInvalidZoneSensors z) t =
     (case sensorOf z t of Some (r, i) \<Rightarrow> if r \<in> set (sz_devices z) then Some (r, i) else None | None \<Rightarrow> None)"
  by (cases "find (\<lambda>s. ms_sensorType s = t) (sz_MainSensors z)")
    (auto simp: removeInvalidZoneSensors_def sensorOf_def sensorsOK_def find_filter_distinct contains_def)

lemma removeInvalid_ok: "sensorsOK z \<Longrightarrow> sensorsOK (removeInvalidZoneSensors z)"
  by (auto simp: removeInvalidZoneSensors_def sensorsOK_def distinct_map_filter)

lemma unassigned_types: "set (getUnassignedSensorTypes z) = {t. isAllowedSensorType z t \<and> sensorOf z t = None}"
  by (auto simp: getUnassignedSensorTypes_def allowed_table isSensorAssigned_def sensorOf_def)

lemma assigned_types: "sensorsOK z \<Longrightarrow> set (getAssignedSensorTypes z d) = {t. \<exists>i. sensorOf z t = Some (d_dsid d, i)}"
proof -
  assume "sensorsOK z"
  then have f: "\<And>m. m \<in> set (sz_MainSensors z) \<Longrightarrow> find (\<lambda>s. ms_sensorType s = ms_sensorType m) (sz_MainSensors z) = Some m"
    by (simp add: find_key sensorsOK_def)
  show ?thesis
  proof (intro equalityI subsetI)
    fix t assume "t \<in> set (getAssignedSensorTypes z d)"
    then show "t \<in> {t. \<exists>i. sensorOf z t = Some (d_dsid d, i)}" using f by (auto simp: getAssignedSensorTypes_def sensorOf_def)
  next
    fix t assume "t \<in> {t. \<exists>i. sensorOf z t = Some (d_dsid d, i)}"
    then show "t \<in> set (getAssignedSensorTypes z d)"
      by (auto simp: getAssignedSensorTypes_def sensorOf_def find_Some_iff image_iff) (metis nth_mem)
  qed
qed

lemma unassigned_distinct: "distinct (getUnassignedSensorTypes z)"
  by (simp add: getUnassignedSensorTypes_def outdoorSensors_def indoorSensors_def)

text \<open>
  C27: The vector of the sensors of a zone implements a partial function on the kinds the zone may have:
  assigning updates it, resetting and dropping the devices that left restrict it, and the two lists of
  kinds are its undefined part and the part with a given device.
\<close>

theorem zone_sensors_refine:
  assumes "sensorsOK z"
  shows "(\<forall>d t z'. setSensor z d t = Inr z' \<longrightarrow> sensorsOK z' \<and>
      (\<exists>i. getSensorByType d t = Inr i \<and> sensorOf z' = (sensorOf z)(t \<mapsto> (d_dsid d, i)))) \<and>
    (\<forall>t. sensorsOK (resetSensor z t) \<and> sensorOf (resetSensor z t) = (sensorOf z)(t := None)) \<and>
    sensorsOK (removeInvalidZoneSensors z) \<and>
    (\<forall>t. sensorOf (removeInvalidZoneSensors z) t =
      (case sensorOf z t of Some (r, i) \<Rightarrow> if r \<in> set (sz_devices z) then Some (r, i) else None | None \<Rightarrow> None)) \<and>
    set (getUnassignedSensorTypes z) = {t. isAllowedSensorType z t \<and> sensorOf z t = None} \<and>
    (\<forall>d. set (getAssignedSensorTypes z d) = {t. \<exists>i. sensorOf z t = Some (d_dsid d, i)})"
proof -
  have "sensorsOK z' \<and> (\<exists>i. getSensorByType d t = Inr i \<and> sensorOf z' = (sensorOf z)(t \<mapsto> (d_dsid d, i)))"
    if "setSensor z d t = Inr z'" for d t z'
    using that assms by (cases "getSensorByType d t") (auto simp: setSensor_def setMainSensor_of dest: setMainSensor_ok)
  then show ?thesis
    using assms by (simp add: resetSensor_of resetSensor_ok removeInvalid_of removeInvalid_ok unassigned_types assigned_types)
qed

section \<open>Automatic assignment\<close>

text \<open>The device that is found for a kind of sensor: the first of the zone that is present and has it.\<close>

definition deviceFor :: "apartment \<Rightarrow> dset \<Rightarrow> SensorType \<Rightarrow> device option" where
  "deviceFor A D t = find (\<lambda>d. d_isPresent d \<and> hasSensorType d (SensorType_value t)) (map (dev A) D)"

definition sensorAt :: "device \<Rightarrow> SensorType \<Rightarrow> dsuid \<times> int" where
  "sensorAt d t = (d_dsid d, the (sensorPosition 0 (d_sensorInputs d) (SensorType_value t)))"

lemma sensorPosition_has: "sensorPosition i ss v = None \<longleftrightarrow> v \<notin> set ss"
  by (induction ss arbitrary: i) auto

lemma hasSensorType_iff: "hasSensorType d v \<longleftrightarrow> v \<in> set (d_sensorInputs d)"
  by (auto simp: hasSensorType_def find_None_iff)

lemma firstPresent_find: "known A S \<Longrightarrow> firstPresent A S = Inr (find d_isPresent (map (dev A) S))"
  by (induction S) (auto simp: getDevice_known)

lemma find_map_filter: "find P (map f (filter (\<lambda>x. Q (f x)) xs)) = find (\<lambda>x. P x \<and> Q x) (map f xs)"
  by (induction xs) auto

lemma search_result:
  "known A D \<Longrightarrow> distinct D \<Longrightarrow> sbind (getBySensorType A D (SensorType_value t)) (firstPresent A) = Inr (deviceFor A D t)"
proof -
  assume a: "known A D" "distinct D"
  have k: "known A (filter (\<lambda>r. hasSensorType (dev A r) (SensorType_value t)) D)" using a(1) by (auto simp: known_iff)
  show ?thesis
    by (simp add: getBySensorType_def getSubset_known a firstPresent_find [OF k] deviceFor_def
        find_map_filter [where Q = "\<lambda>d. hasSensorType d (SensorType_value t)"])
qed

lemma deviceFor_has: "deviceFor A D t = Some d \<Longrightarrow> SensorType_value t \<in> set (d_sensorInputs d)"
  by (auto simp: deviceFor_def find_Some_iff hasSensorType_iff)

lemma setSensor_result:
  assumes "sensorsOK z" and "isAllowedSensorType z t" and "SensorType_value t \<in> set (d_sensorInputs d)"
  shows "\<exists>z'. setSensor z d t = Inr z' \<and> sensorsOK z' \<and> sz_id z' = sz_id z \<and> sz_devices z' = sz_devices z \<and>
    sensorOf z' = (sensorOf z)(t \<mapsto> sensorAt d t)"
proof -
  let ?v = "SensorType_value t"
  obtain i where i: "sensorPosition 0 (d_sensorInputs d) ?v = Some i" using assms(3) sensorPosition_has [of 0 _ ?v] by blast
  let ?s = "\<lparr>ms_DSUID = d_dsid d, ms_sensorIndex = i, ms_sensorType = t\<rparr>"
  obtain z' where z': "setMainSensor z ?s = Inr z'" using assms(2) by (simp add: setMainSensor_def)
  then have "sz_id z' = sz_id z \<and> sz_devices z' = sz_devices z" by (auto simp: setMainSensor_def split: if_splits)
  then show ?thesis
    using z' i setMainSensor_ok [OF assms(1) z'] setMainSensor_of [OF z']
    by (simp add: setSensor_def getSensorByType_def sensorAt_def)
qed

definition newCommands :: "apartment \<Rightarrow> dset \<Rightarrow> int \<Rightarrow> SensorType list \<Rightarrow> sensorCmd list" where
  "newCommands A D i ts = map (\<lambda>t. SetZoneSensor i t (d_dsid (the (deviceFor A D t)))) (filter (\<lambda>t. deviceFor A D t \<noteq> None) ts)"

lemma assignLoop_result:
  assumes "known A D" and "distinct D" and "sensorsOK z" and "\<forall>t \<in> set ts. isAllowedSensorType z t" and "distinct ts"
  shows "\<exists>z'. assignLoop A (\<lambda>_. None) D ts (z, cs) = (z', cs @ newCommands A D (sz_id z) ts, None) \<and>
    sensorsOK z' \<and> sz_id z' = sz_id z \<and> sz_devices z' = sz_devices z \<and>
    (\<forall>t. sensorOf z' t = (if t \<in> set ts \<and> deviceFor A D t \<noteq> None then Some (sensorAt (the (deviceFor A D t)) t) else sensorOf z t))"
  using assms(3-5)
proof (induction ts arbitrary: z cs)
  case Nil
  then show ?case by (simp add: newCommands_def)
next
  case (Cons t ts)
  note S = search_result [OF assms(1, 2), of t]
  show ?case
  proof (cases "deviceFor A D t")
    case None
    then show ?thesis using Cons.IH [OF Cons.prems(1), of cs] Cons.prems(2, 3) S by (auto simp: newCommands_def)
  next
    case (Some d)
    obtain y where y: "setSensor z d t = Inr y" "sensorsOK y" "sz_id y = sz_id z" "sz_devices y = sz_devices z"
        "sensorOf y = (sensorOf z)(t \<mapsto> sensorAt d t)"
      using setSensor_result [OF Cons.prems(1) _ deviceFor_has [OF Some]] Cons.prems(2) by auto
    have "\<forall>t \<in> set ts. isAllowedSensorType y t" using Cons.prems(2) allowed_cong [OF y(3)] by simp
    then obtain z' where z': "assignLoop A (\<lambda>_. None) D ts (y, cs @ [SetZoneSensor (sz_id z) t (d_dsid d)]) =
        (z', (cs @ [SetZoneSensor (sz_id z) t (d_dsid d)]) @ newCommands A D (sz_id z) ts, None)" "sensorsOK z'" "sz_id z' = sz_id z"
        "sz_devices z' = sz_devices z"
        "\<forall>x. sensorOf z' x = (if x \<in> set ts \<and> deviceFor A D x \<noteq> None then Some (sensorAt (the (deviceFor A D x)) x) else sensorOf y x)"
      using Cons.IH [OF y(2), of "cs @ [SetZoneSensor (sz_id z) t (d_dsid d)]"] Cons.prems(3) y(3, 4) by auto
    show ?thesis
      by (intro exI [of _ z']) (use z' y(5) Some S Cons.prems(3) in \<open>auto simp: setZoneSensor_def y(1, 3) newCommands_def\<close>)
  qed
qed

lemma auto_assign_result:
  assumes "known A (sz_devices z)" and "distinct (sz_devices z)" and "sensorsOK z"
  shows "\<exists>z'. autoAssignZoneSensors A (\<lambda>_. None) (z, cs) =
      (z', cs @ newCommands A (sz_devices z) (sz_id z) (getUnassignedSensorTypes z), None) \<and> sensorsOK z' \<and>
    (\<forall>t. sensorOf z' t =
      (case sensorOf z t of
         Some a \<Rightarrow> Some a
       | None \<Rightarrow> if isAllowedSensorType z t then map_option (\<lambda>d. sensorAt d t) (deviceFor A (sz_devices z) t) else None))"
proof (cases "sz_devices z = []")
  case True
  have none: "deviceFor A [] = (\<lambda>t. None)" by (rule ext) (simp add: deviceFor_def)
  show ?thesis
    by (intro exI [of _ z]) (simp add: autoAssignZoneSensors_def True newCommands_def none assms(3) split: option.split)
next
  case False
  have "\<forall>t \<in> set (getUnassignedSensorTypes z). isAllowedSensorType z t" by (simp add: unassigned_types)
  from assignLoop_result [OF assms this unassigned_distinct, of cs]
  obtain z' where z': "assignLoop A (\<lambda>_. None) (sz_devices z) (getUnassignedSensorTypes z) (z, cs) =
      (z', cs @ newCommands A (sz_devices z) (sz_id z) (getUnassignedSensorTypes z), None)" "sensorsOK z'"
    "\<forall>t. sensorOf z' t = (if t \<in> set (getUnassignedSensorTypes z) \<and> deviceFor A (sz_devices z) t \<noteq> None
       then Some (sensorAt (the (deviceFor A (sz_devices z) t)) t) else sensorOf z t)" by blast
  show ?thesis
    by (intro exI [of _ z']) (use z' False in \<open>auto simp: autoAssignZoneSensors_def unassigned_types split: option.splits\<close>)
qed

text \<open>
  C28: With meters that answer, the automatic assignment fills exactly the kinds that were free and for which
  a device of the zone is present, each with the first such device and the first of its sensors; what was
  assigned stays, and the meters are told of the new assignments only, in the order of the kinds.
\<close>

theorem auto_assign_exact:
  assumes "known A (sz_devices z)" and "distinct (sz_devices z)" and "sensorsOK z"
  shows "\<exists>z'. autoAssignZoneSensors A (\<lambda>_. None) (z, cs) =
      (z', cs @ newCommands A (sz_devices z) (sz_id z) (getUnassignedSensorTypes z), None) \<and> sensorsOK z' \<and>
    (\<forall>t. sensorOf z' t =
      (case sensorOf z t of
         Some a \<Rightarrow> Some a
       | None \<Rightarrow> if isAllowedSensorType z t then map_option (\<lambda>d. sensorAt d t) (deviceFor A (sz_devices z) t) else None))"
  by (rule auto_assign_result [OF assms])

section \<open>Removing a device\<close>

lemma resetLoop_result:
  "sensorsOK z \<Longrightarrow> \<exists>z'. resetLoop (\<lambda>_. None) ts (z, cs) = (z', cs @ map (ResetZoneSensor (sz_id z)) ts, None) \<and> sensorsOK z' \<and>
     sz_id z' = sz_id z \<and> sz_devices z' = sz_devices z \<and> (\<forall>t. sensorOf z' t = (if t \<in> set ts then None else sensorOf z t))"
proof (induction ts arbitrary: z cs)
  case (Cons t ts)
  let ?y = "resetSensor z t"
  have y: "sz_id ?y = sz_id z" "sz_devices ?y = sz_devices z" by (simp_all add: resetSensor_def)
  obtain z' where "resetLoop (\<lambda>_. None) ts (?y, cs @ [ResetZoneSensor (sz_id z) t]) =
      (z', (cs @ [ResetZoneSensor (sz_id z) t]) @ map (ResetZoneSensor (sz_id z)) ts, None)" "sensorsOK z'" "sz_id z' = sz_id z"
      "sz_devices z' = sz_devices z" "\<forall>x. sensorOf z' x = (if x \<in> set ts then None else sensorOf ?y x)"
    using Cons.IH [OF resetSensor_ok [OF Cons.prems], of t "cs @ [ResetZoneSensor (sz_id z) t]"] y by auto
  then show ?case
    by (intro exI [of _ z']) (simp add: resetZoneSensor_def Let_def y resetSensor_of [OF Cons.prems])
qed simp

lemma removal_result:
  assumes "known A (sz_devices z)" and "distinct (sz_devices z)" and "sensorsOK z"
  shows "\<exists>z' cs. checkSensorsOnDeviceRemoval A (\<lambda>_. None) d (z, []) = (z', cs, None) \<and> sensorsOK z' \<and>
    (\<forall>t. sensorOf z' t = (case sensorOf z t of
         Some (r, i) \<Rightarrow> if r \<noteq> d_dsid d then Some (r, i) else map_option (\<lambda>d. sensorAt d t) (deviceFor A (sz_devices z) t)
       | None \<Rightarrow> if isAllowedSensorType z t then map_option (\<lambda>d. sensorAt d t) (deviceFor A (sz_devices z) t) else None))"
proof -
  obtain y cs where y: "resetLoop (\<lambda>_. None) (getAssignedSensorTypes z d) (z, []) = (y, cs, None)" "sensorsOK y" "sz_id y = sz_id z"
      "sz_devices y = sz_devices z" "\<forall>t. sensorOf y t = (if t \<in> set (getAssignedSensorTypes z d) then None else sensorOf z t)"
    using resetLoop_result [OF assms(3)] by blast
  obtain z' where z': "autoAssignZoneSensors A (\<lambda>_. None) (y, cs) =
        (z', cs @ newCommands A (sz_devices y) (sz_id y) (getUnassignedSensorTypes y), None)" "sensorsOK z'"
      "\<forall>t. sensorOf z' t = (case sensorOf y t of Some a \<Rightarrow> Some a
         | None \<Rightarrow> if isAllowedSensorType y t then map_option (\<lambda>d. sensorAt d t) (deviceFor A (sz_devices y) t) else None)"
    using auto_assign_result [of A y cs] assms y(2, 4) by auto
  have al: "isAllowedSensorType z t" if "sensorOf z t = Some a" for t a
    using that assms(3) by (auto simp: sensorOf_def sensorsOK_def dest: find_type)
  have "sensorOf z' t = (case sensorOf z t of
         Some (r, i) \<Rightarrow> if r \<noteq> d_dsid d then Some (r, i) else map_option (\<lambda>d. sensorAt d t) (deviceFor A (sz_devices z) t)
       | None \<Rightarrow> if isAllowedSensorType z t then map_option (\<lambda>d. sensorAt d t) (deviceFor A (sz_devices z) t) else None)" for t
    using z'(3) y(4, 5) assigned_types [OF assms(3)] allowed_cong [OF y(3)] al [of t]
    by (cases "sensorOf z t") auto
  then show ?thesis using y(1) z'(1, 2) by (simp add: checkSensorsOnDeviceRemoval_def)
qed

lemma getByDSID_known:
  "known A D \<Longrightarrow> distinct D \<Longrightarrow> getByDSID A D r = (if r \<in> set D then Inr r else Inl (ItemNotFound (''with dsid '' @ dsuid2str r)))"
proof -
  assume a: "known A D" "distinct D"
  have "filter (\<lambda>x. d_dsid (dev A x) = r) D = filter (\<lambda>x. x = r) D"
    using a(1) dev_dsid by (auto simp: known_def intro!: filter_cong)
  moreover have "filter (\<lambda>x. x = r) D = (if r \<in> set D then [r] else [])" using a(2) by (induction D) auto
  ultimately show ?thesis by (simp add: getByDSID_def getSubset_known a frontOr_def)
qed

text \<open>
  When a device is removed while it is still in the zone and present, as happens to the partners of a
  device that is removed, it is not given up as a sensor: it is found again as the first candidate, and
  once it has left the zone the zone has a sensor whose lookup throws.
\<close>

theorem removal_keeps_sensor:
  assumes "known A (sz_devices z)" and "distinct (sz_devices z)" and "sensorsOK z"
    and "sensorOf z t = Some (d_dsid d, i)" and "deviceFor A (sz_devices z) t = Some d"
  shows "\<exists>z' cs. checkSensorsOnDeviceRemoval A (\<lambda>_. None) d (z, []) = (z', cs, None) \<and> sensorOf z' t = Some (sensorAt d t) \<and>
    (\<forall>d'. isZoneSensor A (z'\<lparr>sz_devices := remove1 (d_dsid d) (sz_devices z)\<rparr>) d' t =
       Inl (ItemNotFound (''with dsid '' @ dsuid2str (d_dsid d))))"
proof -
  obtain z' cs where z': "checkSensorsOnDeviceRemoval A (\<lambda>_. None) d (z, []) = (z', cs, None)" "sensorOf z' t = Some (sensorAt d t)"
    using removal_result [OF assms(1-3), of d] assms(4, 5) by fastforce
  let ?D = "remove1 (d_dsid d) (sz_devices z)"
  have D: "known A ?D" "distinct ?D" "d_dsid d \<notin> set ?D"
    using assms(1, 2) by (auto simp: known_iff distinct_remove1 dest: notin_set_remove1)
  obtain s where s: "find (\<lambda>s. ms_sensorType s = t) (sz_MainSensors z') = Some s" "ms_DSUID s = d_dsid d"
    using z'(2) by (auto simp: sensorOf_def sensorAt_def)
  show ?thesis
    by (intro exI [of _ z'] exI [of _ cs])
      (simp add: z' isZoneSensor_def getAssignedSensorDevice_def s getByDSID_known [OF D(1, 2)] D(3))
qed

section \<open>The meters\<close>

text \<open>The assignment the meters have after a sequence of commands.\<close>

fun busSensors :: "sensorCmd list \<Rightarrow> (int \<times> SensorType \<Rightarrow> dsuid option) \<Rightarrow> (int \<times> SensorType \<Rightarrow> dsuid option)" where
  "busSensors [] m = m"
| "busSensors (SetZoneSensor i t r # cs) m = busSensors cs (m((i, t) \<mapsto> r))"
| "busSensors (ResetZoneSensor i t # cs) m = busSensors cs (m((i, t) := None))"

lemma busSensors_append: "busSensors (cs @ ds) m = busSensors ds (busSensors cs m)"
proof (induction cs arbitrary: m)
  case (Cons c cs)
  then show ?case by (cases c) (simp_all del: fun_upd_apply)
qed simp

lemma busSensors_reset:
  "busSensors (map (ResetZoneSensor i) ts) m (j, t) = (if j = i \<and> t \<in> set ts then None else m (j, t))"
  by (induction ts arbitrary: m) auto

lemma busSensors_set:
  "distinct (map ms_sensorType ms) \<Longrightarrow> busSensors (map (\<lambda>s. SetZoneSensor i (ms_sensorType s) (ms_DSUID s)) ms) m (j, t) =
     (if j = i then (case find (\<lambda>s. ms_sensorType s = t) ms of Some s \<Rightarrow> Some (ms_DSUID s) | None \<Rightarrow> m (j, t)) else m (j, t))"
proof (induction ms arbitrary: m)
  case (Cons s ms)
  have "find (\<lambda>x. ms_sensorType x = ms_sensorType s) ms = None" using Cons.prems by (auto simp: find_None_iff) (metis image_eqI)
  then show ?case using Cons by (auto split: option.split)
qed simp

lemma sendAll_ok: "sendAll (\<lambda>_. None) cs (z, ds) = (z, ds @ cs, None)"
  by (induction cs arbitrary: ds) (simp_all add:)

text \<open>
  C17: Whatever the meters were told before, and whatever of it failed, a synchronisation that gets through
  leaves them with exactly the assignment of the zone, without touching other zones; every assigned device
  is then a member of the zone, so that asking whether a device is the sensor of the zone does not throw.
\<close>

theorem sensor_sync_mirrors:
  assumes "known A (sz_devices z)" and "distinct (sz_devices z)" and "sensorsOK z"
  shows "\<exists>z' cs. synchronizeZoneSensorAssignment (\<lambda>_. None) z = (z', cs) \<and> sensorsOK z' \<and>
    (\<forall>m j t. busSensors cs m (j, t) =
       (if j = sz_id z \<and> isAllowedSensorType z t then map_option fst (sensorOf z' t) else m (j, t))) \<and>
    (\<forall>d t. isZoneSensor A z' d t = Inr (map_option fst (sensorOf z' t) = Some (d_dsid d)))"
proof -
  let ?z = "removeInvalidZoneSensors z"
  let ?cs = "map (ResetZoneSensor (sz_id z)) (getUnassignedSensorTypes ?z) @
    map (\<lambda>s. SetZoneSensor (sz_id z) (ms_sensorType s) (ms_DSUID s)) (sz_MainSensors ?z)"
  have id: "sz_id ?z = sz_id z" "sz_devices ?z = sz_devices z" by (simp_all add: removeInvalidZoneSensors_def)
  note al = allowed_cong [OF id(1)] and ok = removeInvalid_ok [OF assms(3)]
  have all: "isAllowedSensorType z t" if "find (\<lambda>s. ms_sensorType s = t) (sz_MainSensors ?z) = Some s" for t s
    using that ok al by (auto simp: sensorsOK_def dest!: find_type)
  have "busSensors ?cs m (j, t) =
       (if j = sz_id z \<and> isAllowedSensorType z t then map_option fst (sensorOf ?z t) else m (j, t))" for m j t
    using ok all [of t] by (cases "find (\<lambda>s. ms_sensorType s = t) (sz_MainSensors ?z)")
      (auto simp: busSensors_append busSensors_reset busSensors_set sensorsOK_def unassigned_types al, simp_all add: sensorOf_def)
  moreover have "isZoneSensor A ?z d t = Inr (map_option fst (sensorOf ?z t) = Some (d_dsid d))" for d t
  proof (cases "find (\<lambda>s. ms_sensorType s = t) (sz_MainSensors ?z)")
    case None
    then show ?thesis by (simp add: isZoneSensor_def getAssignedSensorDevice_def sensorOf_def)
  next
    case (Some s)
    then have "ms_DSUID s \<in> set (sz_devices z)" by (auto simp: removeInvalidZoneSensors_def contains_def dest!: find_type)
    then show ?thesis
      using Some assms(1) dev_dsid [of A "ms_DSUID s"]
      by (auto simp: isZoneSensor_def getAssignedSensorDevice_def getByDSID_known [OF assms(1, 2)] id known_def getDevice_known sensorOf_def)
  qed
  moreover have "synchronizeZoneSensorAssignment (\<lambda>_. None) z = (?z, ?cs)"
    by (simp add: synchronizeZoneSensorAssignment_def Let_def sendAll_ok id)
  ultimately show ?thesis using ok by blast
qed

section \<open>An example\<close>

text \<open>A zone with two devices, both with a sensor for the temperature, the first of them absent.\<close>

definition exampleDevice :: "dsuid \<Rightarrow> bool \<Rightarrow> device" where
  "exampleDevice r present = \<lparr>d_dsid = r, d_name = [], d_zoneID = 5, d_lastKnownZoneID = 5, d_groupIds = [], d_functionID = 0,
     d_dsMeterDSID = [], d_lastKnownMeterDSID = [], d_isPresent = present, d_shortAddress = 0xFFFF, d_isVdc = False,
     d_sensorInputs = [4, 9], d_consumption = 0, d_tag = (\<lambda>_. False), d_binaryInputs = []\<rparr>"

definition exampleApartment :: apartment where
  "exampleApartment = \<lparr>a_devices = [exampleDevice [1] False, exampleDevice [2] True], a_zones = [], a_dsMeters = []\<rparr>"

definition exampleZone :: sensorZone where
  "exampleZone = \<lparr>sz_id = 5, sz_devices = [[1], [2]],
     sz_MainSensors = [\<lparr>ms_DSUID = [2], ms_sensorIndex = 1, ms_sensorType = ST_TemperatureIndoors\<rparr>]\<rparr>"

lemma example_ok:
  "known exampleApartment (sz_devices exampleZone)" "distinct (sz_devices exampleZone)" "sensorsOK exampleZone"
  "deviceFor exampleApartment (sz_devices exampleZone) ST_TemperatureIndoors = Some (exampleDevice [2] True)"
  "sensorOf exampleZone ST_TemperatureIndoors = Some ([2], 1)"
  by (simp_all add: known_def exampleApartment_def exampleZone_def exampleDevice_def tryGetDeviceByDSID_def sensorsOK_def
      isAllowedSensorType_def deviceFor_def dev_def hasSensorType_def sensorOf_def)

theorem zone_sensors_refine_witness:
  "sensorOf (resetSensor exampleZone ST_TemperatureIndoors) ST_TemperatureIndoors = None \<and>
   ST_TemperatureIndoors \<in> set (getAssignedSensorTypes exampleZone (exampleDevice [2] True))"
  using zone_sensors_refine [OF example_ok(3)] example_ok(5) by (simp add: exampleDevice_def)

theorem auto_assign_exact_witness:
  "\<exists>z'. autoAssignZoneSensors exampleApartment (\<lambda>_. None) (exampleZone, []) = (z', [], None) \<and>
     sensorOf z' ST_TemperatureIndoors = Some ([2], 1) \<and> sensorOf z' ST_HumidityIndoors = None"
proof -
  have "newCommands exampleApartment (sz_devices exampleZone) (sz_id exampleZone) (getUnassignedSensorTypes exampleZone) = []"
    "deviceFor exampleApartment (sz_devices exampleZone) ST_HumidityIndoors = None"
    "sensorOf exampleZone ST_HumidityIndoors = None"
    by (simp_all add: newCommands_def exampleZone_def exampleApartment_def getUnassignedSensorTypes_def indoorSensors_def
        isSensorAssigned_def deviceFor_def dev_def tryGetDeviceByDSID_def exampleDevice_def hasSensorType_def sensorOf_def)
  then show ?thesis using auto_assign_exact [OF example_ok(1-3), of "[]"] example_ok(5) by fastforce
qed

theorem removal_keeps_sensor_witness:
  "\<exists>z' cs. checkSensorsOnDeviceRemoval exampleApartment (\<lambda>_. None) (exampleDevice [2] True) (exampleZone, []) = (z', cs, None) \<and>
     sensorOf z' ST_TemperatureIndoors = Some ([2], 1)"
proof -
  have "sensorAt (exampleDevice [2] True) ST_TemperatureIndoors = ([2], 1)" "d_dsid (exampleDevice [2] True) = [2]"
    by (simp_all add: sensorAt_def exampleDevice_def)
  then show ?thesis
    using removal_keeps_sensor [OF example_ok(1-3) _ example_ok(4), of 1] example_ok(5) by auto
qed

theorem sensor_sync_mirrors_witness:
  "\<exists>z' cs. synchronizeZoneSensorAssignment (\<lambda>_. None) exampleZone = (z', cs) \<and>
     busSensors cs (\<lambda>_. None) (5, ST_TemperatureIndoors) = map_option fst (sensorOf z' ST_TemperatureIndoors)"
proof -
  have "sz_id exampleZone = 5" "isAllowedSensorType exampleZone ST_TemperatureIndoors"
    by (simp_all add: exampleZone_def isAllowedSensorType_def)
  then show ?thesis using sensor_sync_mirrors [OF example_ok(1-3)] by fastforce
qed

end
