(* ===== verification/Group_Membership.thy ===== *)
theory Group_Membership
  imports Bus_Run Apartment_Structure
begin

text \<open>
  Which groups a device is in and how a client changes it: \<^verbatim>\<open>deviceAddToGroup\<close>, \<^verbatim>\<open>deviceRemoveFromGroup\<close>,
  \<^verbatim>\<open>deviceRemoveFromGroups\<close> and \<^verbatim>\<open>setJokerGroup\<close> of \<^verbatim>\<open>src/src/structuremanipulator.cpp\<close>, and the functions of
  \<^verbatim>\<open>src/src/model/device.cpp\<close> they use.  The state is one device; all commands are addressed to it.  The
  groups are those of an apartment, which does not change.
\<close>

section \<open>Data\<close>

record gdevice =
  gd_device :: device
  gd_productID :: u32
  gd_outputMode :: int
  gd_activeGroup :: int
  gd_buttonActiveGroup :: int
  gd_buttonID :: int
  gd_buttonInputMode :: ButtonInputMode
  gd_buttonInputCount :: int

text \<open>
  \<open>ge_locked\<close> says which clusters are locked.  \<open>ge_active\<close> is the active group the device has after
  \<^verbatim>\<open>sleep(3)\<close>, in which another thread reads the device again.
\<close>

record groupEnv =
  ge_apartment :: apartment
  ge_lib :: dsuidlib
  ge_locked :: "int \<Rightarrow> bool"
  ge_active :: int

text \<open>Commands to the meter, and what is pushed to the queues of the server.\<close>

datatype groupCmd =
    BusAddToGroup int
  | BusRemoveFromGroup int
  | BusDeviceConfig int int u8
  | BusButtonActiveGroup u8
  | ConfigChanged int int u8
  | DeviceChanged
  | DeviceEventRaised string int

datatype DeviceTypes =
    TYPE_INVALID | TYPE_KM | TYPE_TKM | TYPE_SDM | TYPE_KL | TYPE_TUP | TYPE_ZWS | TYPE_SDS | TYPE_SK | TYPE_AKM
  | TYPE_TNY | TYPE_UMV | TYPE_UMR

definition CfgClassDevice :: int where "CfgClassDevice = 0x01"
definition CfgClassFunction :: int where "CfgClassFunction = 0x03"
definition CfgFunction_Mode :: int where "CfgFunction_Mode = 0"
definition CfgFunction_ButtonMode :: int where "CfgFunction_ButtonMode = 1"
definition CfgFunction_LedConfig0 :: int where "CfgFunction_LedConfig0 = 0x18"
definition CfgFunction_LTMode :: int where "CfgFunction_LTMode = 0x1E"

definition ButtonId_Area1 :: int where "ButtonId_Area1 = 1"
definition ButtonId_Area4 :: int where "ButtonId_Area4 = 4"
definition ButtonId_Zone :: int where "ButtonId_Zone = 5"
definition ButtonId_Area1_Extended :: int where "ButtonId_Area1_Extended = 10"
definition ButtonId_Area4_Extended :: int where "ButtonId_Area4_Extended = 13"

definition OUTPUT_MODE_SWITCH_2_POL :: u8 where "OUTPUT_MODE_SWITCH_2_POL = 35"
definition OUTPUT_MODE_TEMPCONTROL_SWITCHED :: u8 where "OUTPUT_MODE_TEMPCONTROL_SWITCHED = 65"

section \<open>What a device is\<close>

definition getDeviceType :: "gdevice \<Rightarrow> DeviceTypes" where
  "getDeviceType d =
     (if gd_productID d = 0 then TYPE_INVALID
      else let t = unat (drop_bit 10 (gd_productID d) AND 0x3f)
           in if t = 0 then TYPE_KM else if t = 1 then TYPE_TKM else if t = 2 then TYPE_SDM else if t = 3 then TYPE_KL
              else if t = 4 then TYPE_TUP else if t = 5 then TYPE_ZWS else if t = 6 then TYPE_SDS else if t = 7 then TYPE_SK
              else if t = 8 then TYPE_AKM else if t = 10 then TYPE_TNY else if t = 11 then TYPE_UMV
              else if t = 12 then TYPE_UMR else TYPE_INVALID)"

definition getDeviceNumber :: "gdevice \<Rightarrow> int" where
  "getDeviceNumber d = uint (gd_productID d AND 0x3ff)"

definition functionSubclass :: "gdevice \<Rightarrow> u32" where
  "functionSubclass d = drop_bit 6 (d_functionID (gd_device d) AND 0xfc0)"

definition hasInput :: "gdevice \<Rightarrow> bool" where
  "hasInput d \<longleftrightarrow> functionSubclass d \<in> {0x04, 0x07, 0x08} \<and> d_functionID (gd_device d) AND 0x3 > 0"

definition hasMultibuttons :: "gdevice \<Rightarrow> bool" where
  "hasMultibuttons d \<longleftrightarrow> functionSubclass d \<in> {0x04, 0x07, 0x08} \<and> d_functionID (gd_device d) AND 0x3 > 1"

definition hasOutput :: "gdevice \<Rightarrow> bool" where
  "hasOutput d \<longleftrightarrow> d_functionID (gd_device d) AND 0x10 = 0x10 \<or> d_functionID (gd_device d) = 0x6001"

definition isInternallyControlled :: "gdevice \<Rightarrow> bool" where
  "isInternallyControlled d \<longleftrightarrow> functionSubclass d = 0x08"

definition deviceCount :: "gdevice \<Rightarrow> nat" where
  "deviceCount d =
     (let f = d_functionID (gd_device d) in
      if getDeviceType d = TYPE_UMV \<and> getDeviceNumber d = 200 \<and> getDeviceClass (gd_device d) = CLASS_GE then 4
      else if getDeviceType d = TYPE_UMR \<and> getDeviceNumber d = 200 \<and> getDeviceClass (gd_device d) = CLASS_SW then 4
      else if getDeviceType d = TYPE_SK \<and> getDeviceNumber d = 204 then 2
      else if f AND 0xffc0 = 0x1000 then
        (let k = f AND 0x7 in if k = 1 then 2 else if k = 2 then 4 else 1)
      else if f AND 0x0fc0 = 0x0100 \<or> f AND 0x0fc0 = 0x01c0 \<or> f AND 0x0fc0 = 0x0200 then
        (let k = f AND 0x3 in if k = 2 then 2 else if k = 3 then 4 else 1)
      else 1)"

definition multiDeviceIndex :: "dsuidlib \<Rightarrow> gdevice \<Rightarrow> nat" where
  "multiDeviceIndex L d =
     (case lib_serial_number L (d_dsid (gd_device d)) of
        None \<Rightarrow> 0
      | Some serial \<Rightarrow> unat (serial AND 0xff) mod deviceCount d)"

definition pairedOutputMode :: "int \<Rightarrow> bool" where
  "pairedOutputMode m \<longleftrightarrow> m \<in> {34, 43, 38, 67, 68, 69}"

text \<open>An identifier without a serial number makes \<open>IsEvenDsuid\<close> throw, which is caught and gives \<^verbatim>\<open>false\<close>.\<close>

definition oddDsuid :: "dsuidlib \<Rightarrow> gdevice \<Rightarrow> bool" where
  "oddDsuid L d = (case IsEvenDsuid L (d_dsid (gd_device d)) of Inl _ \<Rightarrow> False | Inr b \<Rightarrow> \<not> b)"

definition is2WaySlave :: "dsuidlib \<Rightarrow> gdevice \<Rightarrow> bool" where
  "is2WaySlave L d =
     (if multiDeviceIndex L d \<noteq> 3 \<and> getDeviceType d = TYPE_UMR \<and> \<not> hasInput d then False
      else if getDeviceType d = TYPE_UMR \<and> multiDeviceIndex L d = 3 then
        pairedOutputMode (gd_outputMode d) \<and> oddDsuid L d
      else if hasInput d then
        getDeviceType d \<in> {TYPE_SDS, TYPE_TKM, TYPE_UMR} \<and>
        (gd_buttonInputMode d \<in> {BIM_TWO_WAY_DW_WITH_INPUT1, BIM_TWO_WAY_DW_WITH_INPUT3, BIM_TWO_WAY_UP_WITH_INPUT1,
           BIM_TWO_WAY_UP_WITH_INPUT3} \<or> gd_buttonInputMode d = BIM_SDS_SLAVE_M1_M2 \<and> oddDsuid L d)
      else False)"

section \<open>Configuring the device\<close>

type_synonym busReply = "groupCmd \<Rightarrow> serror option"

definition setDeviceConfig :: "busReply \<Rightarrow> int \<Rightarrow> int \<Rightarrow> u8 \<Rightarrow> (gdevice, groupCmd) step" where
  "setDeviceConfig bus cls i v = runAll [send bus (BusDeviceConfig cls i v), push (ConfigChanged cls i v)]"

definition buttonModeByte :: "gdevice \<Rightarrow> u8" where
  "buttonModeByte d =
     (word_of_int (gd_buttonID d) AND 0x0f) OR
     (if gd_buttonActiveGroup d < 16 then push_bit 4 (word_of_int (gd_buttonActiveGroup d)) else 0)"

definition setDeviceButtonID :: "busReply \<Rightarrow> int \<Rightarrow> (gdevice, groupCmd) step" where
  "setDeviceButtonID bus i = runAll [
     change (\<lambda>d. d\<lparr>gd_buttonID := i\<rparr>),
     reading (\<lambda>d. setDeviceConfig bus CfgClassFunction CfgFunction_ButtonMode (buttonModeByte d))]"

definition isAreaButton :: "gdevice \<Rightarrow> bool" where
  "isAreaButton d \<longleftrightarrow> gd_buttonID d \<in> {ButtonId_Area1..ButtonId_Area4} \<or>
     gd_buttonID d \<in> {ButtonId_Area1_Extended..ButtonId_Area4_Extended}"

definition setDeviceButtonActiveGroup :: "busReply \<Rightarrow> u8 \<Rightarrow> (gdevice, groupCmd) step" where
  "setDeviceButtonActiveGroup bus g = runAll [
     send bus (BusButtonActiveGroup g),
     change (\<lambda>d. d\<lparr>gd_buttonActiveGroup := uint g\<rparr>),
     onlyIf (\<lambda>d. isAreaButton d \<and> (uint g < GroupIDYellow \<or> uint g > GroupIDGray)) (setDeviceButtonID bus ButtonId_Zone)]"

text \<open>The text for the mode and the publication of the device are left out.\<close>

definition setDeviceButtonInputMode :: "busReply \<Rightarrow> ButtonInputMode \<Rightarrow> (gdevice, groupCmd) step" where
  "setDeviceButtonInputMode bus m = runAll [
     setDeviceConfig bus CfgClassFunction CfgFunction_LTMode (word_of_int (ButtonInputMode_value m)),
     change (\<lambda>d. d\<lparr>gd_buttonInputMode := m\<rparr>)]"

definition setDeviceOutputMode :: "busReply \<Rightarrow> u8 \<Rightarrow> (gdevice, groupCmd) step" where
  "setDeviceOutputMode bus m = setDeviceConfig bus CfgClassFunction CfgFunction_Mode m"

definition onDevice :: "(device \<Rightarrow> device) \<Rightarrow> gdevice \<Rightarrow> gdevice" where
  "onDevice f d = d\<lparr>gd_device := f (gd_device d)\<rparr>"

definition getBinaryInputCount :: "gdevice \<Rightarrow> u8" where
  "getBinaryInputCount d = of_nat (length (d_binaryInputs (gd_device d)))"

definition setDeviceBinaryInputTargetId :: "busReply \<Rightarrow> nat \<Rightarrow> u8 \<Rightarrow> (gdevice, groupCmd) step" where
  "setDeviceBinaryInputTargetId bus i g s =
     (if i \<ge> length (d_binaryInputs (gd_device (fst s))) then failRun (ItemNotFound ''Invalid binary input index'') s
      else setDeviceConfig bus CfgClassDevice (0x40 + 3 * int i + 0) g s)"

definition setBinaryInputTargetId :: "nat \<Rightarrow> u8 \<Rightarrow> (gdevice, groupCmd) step" where
  "setBinaryInputTargetId i g s =
     (if i \<ge> unat (getBinaryInputCount (fst s)) then failRun (ItemNotFound ''Device::getBinaryInput: index out of bounds'') s
      else change (onDevice (\<lambda>d. d\<lparr>d_binaryInputs := (d_binaryInputs d)[i := (d_binaryInputs d ! i)\<lparr>bi_targetGroupId := uint g\<rparr>]\<rparr>)) s)"

definition isZws205 :: "gdevice \<Rightarrow> bool" where
  "isZws205 d \<longleftrightarrow> getDeviceType d = TYPE_ZWS \<and> getDeviceNumber d = 205"

text \<open>\<^verbatim>\<open>static_cast<ApplicationType>\<close>.\<close>

definition toApplicationType :: "int \<Rightarrow> ApplicationType" where
  "toApplicationType i =
     (case find (\<lambda>t. ApplicationType_value t = i)
         [AT_None, AT_Lights, AT_Blinds, AT_Heating, AT_Audio, AT_Video, AT_Joker, AT_Cooling, AT_Ventilation, AT_Window,
          AT_Recirculation, AT_ControlTemperature, AT_ApartmentVentilation, AT_ApartmentRecirculation] of
        Some t \<Rightarrow> t | None \<Rightarrow> AT_other i)"

definition updateLedGroupColor :: "busReply \<Rightarrow> (gdevice, groupCmd) step" where
  "updateLedGroupColor bus = onlyIf isZws205 (reading (\<lambda>d.
     setDeviceConfig bus CfgClassFunction CfgFunction_LedConfig0
       (0x20 OR word_of_int (RgbBitmask_value (getApplicationTypeRgbBitmask (toApplicationType (gd_activeGroup d)))))))"

definition zws205OutputMode :: "ApplicationType \<Rightarrow> u8" where
  "zws205OutputMode t = (case t of AT_ControlTemperature \<Rightarrow> OUTPUT_MODE_TEMPCONTROL_SWITCHED | _ \<Rightarrow> OUTPUT_MODE_SWITCH_2_POL)"

definition updateOutputMode :: "busReply \<Rightarrow> (gdevice, groupCmd) step" where
  "updateOutputMode bus = onlyIf isZws205 (reading (\<lambda>d.
     setDeviceOutputMode bus (zws205OutputMode (toApplicationType (gd_activeGroup d)))))"

definition setDeviceJokerGroup :: "groupEnv \<Rightarrow> busReply \<Rightarrow> u8 \<Rightarrow> (gdevice, groupCmd) step" where
  "setDeviceJokerGroup E bus groupId s =
     (let g = uint groupId; oldGroupId = gd_activeGroup (fst s) in
      if \<not> isDefaultGroup g \<and> \<not> isGlobalAppDsGroup g then failRun (StdRuntime ''Invalid joker group value'') s
      else runAll [
        change (onDevice (\<lambda>d. addToGroup d g)),
        onlyIf (\<lambda>d. gd_buttonInputCount d > 0 \<and> g \<noteq> gd_buttonActiveGroup d) (runAll [
          onlyIf (\<lambda>d. oldGroupId = GroupIDBlack \<and> g \<noteq> GroupIDBlack \<and> hasInput d \<and>
                       gd_buttonInputMode d \<noteq> BIM_STANDARD \<and> \<not> is2WaySlave (ge_lib E) d)
            (setDeviceButtonInputMode bus BIM_STANDARD),
          setDeviceButtonActiveGroup bus groupId]),
        push DeviceChanged,
        change (\<lambda>d. d\<lparr>gd_activeGroup := ge_active E\<rparr>),
        updateLedGroupColor bus,
        updateOutputMode bus] s)"

section \<open>The structure manipulator\<close>

definition groupLocked :: "groupEnv \<Rightarrow> group \<Rightarrow> bool" where
  "groupLocked E g \<longleftrightarrow> g_isCluster g \<and> ge_locked E (g_id g)"

definition variableStandardGroup :: "gdevice \<Rightarrow> bool" where
  "variableStandardGroup d \<longleftrightarrow> d_functionID (gd_device d) AND 0x04 > 0"

definition singleBinaryInput :: "gdevice \<Rightarrow> bool" where
  "singleBinaryInput d \<longleftrightarrow> getDeviceType d \<in> {TYPE_AKM, TYPE_UMR} \<and> getBinaryInputCount d = 1"

definition isHeatingButton :: "gdevice \<Rightarrow> bool" where
  "isHeatingButton d \<longleftrightarrow> getDeviceType d = TYPE_KM \<and> getDeviceClass (gd_device d) = CLASS_BL \<and> getDeviceNumber d = 200"

text \<open>\<open>OutOfFuel\<close> stands for a loop that does not end.\<close>

definition resetGroupsStep :: "(gdevice, groupCmd) step" where
  "resetGroupsStep s =
     (case resetGroups (gd_device (fst s)) of
        None \<Rightarrow> failRun OutOfFuel s
      | Some d \<Rightarrow> change (\<lambda>x. x\<lparr>gd_device := d\<rparr>) s)"

definition deviceAddToGroup :: "groupEnv \<Rightarrow> busReply \<Rightarrow> group \<Rightarrow> (gdevice, groupCmd) step" where
  "deviceAddToGroup E bus grp s =
     (let i = g_id grp; b = (word_of_int i :: u8) in
      if groupLocked E grp then failRun (StdRuntime ''The group is locked and cannot be modified'') s
      else runAll [
        send bus (BusAddToGroup i),
        onlyIf (\<lambda>d. (isDefaultGroup i \<or> isGlobalAppDsGroup i) \<and> variableStandardGroup d) resetGroupsStep,
        change (onDevice (\<lambda>d. addToGroup d i)),
        reading (\<lambda>d. if singleBinaryInput d
              then runAll [setDeviceBinaryInputTargetId bus 0 b, setBinaryInputTargetId 0 b]
              else onlyIf (\<lambda>d. gd_outputMode d = 0) (setDeviceButtonActiveGroup bus b)),
        onlyIf isHeatingButton
          (setDeviceButtonInputMode bus (if i = GroupIDControlTemperature then BIM_HEATING_PUSHBUTTON else BIM_STANDARD)),
        push (DeviceEventRaised ''groupAdd'' i)] s)"

definition deviceRemoveFromGroup :: "groupEnv \<Rightarrow> busReply \<Rightarrow> group \<Rightarrow> bool \<Rightarrow> (gdevice, groupCmd) step" where
  "deviceRemoveFromGroup E bus grp adaptInputs s =
     (let i = g_id grp in
      if groupLocked E grp then failRun (StdRuntime ''The group is locked and cannot be modified'') s
      else runAll [
        send bus (BusRemoveFromGroup i),
        change (onDevice (\<lambda>d. removeFromGroup d i)),
        onlyIf (\<lambda>d. adaptInputs) (runAll [
          onlyIf (\<lambda>d. singleBinaryInput d \<and> i = bi_targetGroupId (d_binaryInputs (gd_device d) ! 0))
            (runAll [setDeviceBinaryInputTargetId bus 0 (word_of_int GroupIDBlack), setBinaryInputTargetId 0 (word_of_int GroupIDBlack)]),
          onlyIf (\<lambda>d. i = gd_buttonActiveGroup d)
            (reading (\<lambda>d. setDeviceButtonActiveGroup bus (word_of_int (gd_activeGroup d))))]),
        push (DeviceEventRaised ''groupRemove'' i)] s)"

text \<open>
  A step on the group a zone has for a number.  \<^verbatim>\<open>Zone::getGroup\<close> gives a null pointer when there is none,
  on which the assertions of the two operations fail.
\<close>

definition withGroup :: "groupEnv \<Rightarrow> int \<Rightarrow> int \<Rightarrow> (group \<Rightarrow> (gdevice, groupCmd) step) \<Rightarrow> (gdevice, groupCmd) step" where
  "withGroup E zoneID i f s =
     (case getZone (ge_apartment E) zoneID of
        Inl e \<Rightarrow> failRun e s
      | Inr z \<Rightarrow> (case zoneGroup z i of None \<Rightarrow> failRun AssertFailed s | Some g \<Rightarrow> f g s))"

definition removeMember :: "groupEnv \<Rightarrow> busReply \<Rightarrow> (gdevice \<Rightarrow> int) \<Rightarrow> bool \<Rightarrow> int \<Rightarrow> (gdevice, groupCmd) step" where
  "removeMember E bus zoneOf adapt g s =
     onlyIf (\<lambda>d. isInGroup (gd_device d) g) (withGroup E (zoneOf (fst s)) g (\<lambda>grp. deviceRemoveFromGroup E bus grp adapt)) s"

definition deviceRemoveFromGroups :: "groupEnv \<Rightarrow> busReply \<Rightarrow> (gdevice, groupCmd) step" where
  "deviceRemoveFromGroups E bus s =
     (case getZone (ge_apartment E) 0 of
        Inl e \<Rightarrow> failRun e s
      | Inr _ \<Rightarrow> runAll (map (removeMember E bus (\<lambda>_. 0) True) [GroupIDAppUserMin..GroupIDAppUserMax]) s)"

text \<open>The clusters of another application type; the flag says whether one was left.\<close>

fun leaveClusters :: "groupEnv \<Rightarrow> busReply \<Rightarrow> zone \<Rightarrow> int \<Rightarrow> int list \<Rightarrow> bool \<Rightarrow> gdevice \<times> groupCmd list \<Rightarrow> (gdevice, groupCmd) run \<times> bool" where
  "leaveClusters E bus zone0 groupId [] m s = (okRun s, m)"
| "leaveClusters E bus zone0 groupId (g # gs) m s =
     (if \<not> isInGroup (gd_device (fst s)) g then leaveClusters E bus zone0 groupId gs m s
      else case zoneGroup zone0 g of
             None \<Rightarrow> (failRun NullPointer s, m)
           | Some grp \<Rightarrow>
               if ApplicationType_value (g_applicationType grp) = groupId then leaveClusters E bus zone0 groupId gs m s
               else (case deviceRemoveFromGroup E bus grp True s of
                       (z, cs, None) \<Rightarrow> leaveClusters E bus zone0 groupId gs True (z, cs)
                     | (z, cs, Some e) \<Rightarrow> ((z, cs, Some e), m)))"

definition ownZone :: "gdevice \<Rightarrow> int" where "ownZone d = d_zoneID (gd_device d)"

definition changeGroup :: "groupEnv \<Rightarrow> busReply \<Rightarrow> int \<Rightarrow> (gdevice, groupCmd) step" where
  "changeGroup E bus groupId = runAll [
     runAll (map (removeMember E bus ownZone False)
       (filter (\<lambda>g. g \<noteq> groupId \<and> g \<noteq> GroupIDBlack) [GroupIDYellow..GroupIDStandardMax])),
     runAll (map (removeMember E bus ownZone False) [GroupIDControlGroupMin..GroupIDControlGroupMax]),
     runAll (map (removeMember E bus (\<lambda>_. 0) False) [GroupIDGlobalAppMin..GroupIDGlobalAppMax]),
     reading (\<lambda>d. withGroup E (if groupId \<ge> GroupIDGlobalAppMin then 0 else ownZone d) groupId (deviceAddToGroup E bus)),
     setDeviceJokerGroup E bus (word_of_int groupId)]"

definition setJokerGroup :: "groupEnv \<Rightarrow> busReply \<Rightarrow> int \<Rightarrow> gdevice \<times> groupCmd list \<Rightarrow> (gdevice, groupCmd) run \<times> bool" where
  "setJokerGroup E bus groupId s =
     (let old = gd_activeGroup (fst s);
          old = (if old = GroupIDNotApplicable then GroupIDBlack else old);
          m = (old \<noteq> groupId)
      in case onlyIf (\<lambda>_. m) (changeGroup E bus groupId) s of
           (z, cs, Some e) \<Rightarrow> ((z, cs, Some e), m)
         | (z, cs, None) \<Rightarrow>
             (case getZone (ge_apartment E) 0 of
                Inl e \<Rightarrow> ((z, cs, Some e), m)
              | Inr zone0 \<Rightarrow> leaveClusters E bus zone0 groupId [GroupIDAppUserMin..GroupIDAppUserMax] m (z, cs)))"

end
