(* ===== verification/Group_Laws.thy ===== *)
theory Group_Laws
  imports Group_Membership Structure_Laws
begin

text \<open>
  Laws of the group membership.  With a bus that takes all commands the operations return; a device that
  is given a joker group is afterwards in that group and in no other that excludes it.
\<close>

section \<open>Steps that return\<close>

definition returns :: "('s \<Rightarrow> 's \<Rightarrow> bool) \<Rightarrow> ('s, 'c) step \<Rightarrow> bool" where
  "returns R f \<longleftrightarrow> (\<forall>z cs. \<exists>z' cs'. f (z, cs) = (z', cs', None) \<and> R z z')"

named_theorems returns_intros \<open>steps that return, and what they do to the groups of the device\<close>

lemma returnsE: "returns R f \<Longrightarrow> (\<And>z' cs'. f (z, cs) = (z', cs', None) \<Longrightarrow> R z z' \<Longrightarrow> thesis) \<Longrightarrow> thesis"
  unfolding returns_def by blast

text \<open>What these steps never change.\<close>

definition sameGroups :: "gdevice \<Rightarrow> gdevice \<Rightarrow> bool" where
  "sameGroups z z' \<longleftrightarrow> d_groupIds (gd_device z') = d_groupIds (gd_device z) \<and> d_zoneID (gd_device z') = d_zoneID (gd_device z)"

lemma sameGroups_trans: "sameGroups x y \<Longrightarrow> sameGroups y z \<Longrightarrow> sameGroups x z"
  by (simp add: sameGroups_def)

lemma sameGroups_refl [simp]: "sameGroups z z"
  by (simp add: sameGroups_def)

lemma returns_nil [returns_intros]: "returns sameGroups (runAll [])"
  by (simp add: returns_def)

lemma returns_cons [returns_intros]: "returns sameGroups f \<Longrightarrow> returns sameGroups (runAll fs) \<Longrightarrow> returns sameGroups (runAll (f # fs))"
  unfolding returns_def
proof (intro allI)
  fix z cs assume a: "\<forall>z cs. \<exists>z' cs'. f (z, cs) = (z', cs', None) \<and> sameGroups z z'"
    "\<forall>z cs. \<exists>z' cs'. runAll fs (z, cs) = (z', cs', None) \<and> sameGroups z z'"
  obtain y ds where y: "f (z, cs) = (y, ds, None)" "sameGroups z y" using a(1) by blast
  obtain x es where "runAll fs (y, ds) = (x, es, None)" "sameGroups y x" using a(2) by blast
  then show "\<exists>z' cs'. runAll (f # fs) (z, cs) = (z', cs', None) \<and> sameGroups z z'"
    using y sameGroups_trans by (intro exI [of _ x] exI [of _ es]) auto
qed

lemma returns_onlyIf [returns_intros]: "returns sameGroups f \<Longrightarrow> returns sameGroups (onlyIf P f)"
  by (simp add: returns_def)

lemma returns_reading [returns_intros]: "(\<And>z. returns sameGroups (f z)) \<Longrightarrow> returns sameGroups (reading f)"
  by (simp add: returns_def)

lemma returns_send [returns_intros]: "returns sameGroups (send (\<lambda>_. None) c)" "returns sameGroups (push c)"
  by (simp_all add: returns_def)

lemma returns_change [returns_intros]: "(\<And>z. sameGroups z (f z)) \<Longrightarrow> returns sameGroups (change f)"
  by (simp add: returns_def)

abbreviation calm :: busReply where "calm \<equiv> \<lambda>_. None"

lemma returns_config [returns_intros]: "returns sameGroups (setDeviceConfig calm c i v)"
  unfolding setDeviceConfig_def by (intro returns_intros)

lemma returns_buttons [returns_intros]:
  "returns sameGroups (setDeviceButtonID calm i)"
  "returns sameGroups (setDeviceButtonInputMode calm m)"
  "returns sameGroups (updateLedGroupColor calm)"
  "returns sameGroups (updateOutputMode calm)"
  unfolding setDeviceButtonID_def setDeviceButtonInputMode_def updateLedGroupColor_def updateOutputMode_def setDeviceOutputMode_def
  by (intro returns_intros; simp add: sameGroups_def)+

lemma returns_active [returns_intros]: "returns sameGroups (setDeviceButtonActiveGroup calm g)"
  unfolding setDeviceButtonActiveGroup_def by (intro returns_intros; simp add: sameGroups_def)

lemma count_nonempty: "getBinaryInputCount z = 1 \<Longrightarrow> d_binaryInputs (gd_device z) \<noteq> []"
  by (auto simp: getBinaryInputCount_def)

text \<open>The two steps on the first of the binary inputs, where there is exactly one.\<close>

lemma target_returns:
  assumes "getBinaryInputCount z = 1"
  shows "\<exists>z' cs'. runAll [setDeviceBinaryInputTargetId calm 0 b, setBinaryInputTargetId 0 b] (z, cs) = (z', cs', None) \<and> sameGroups z z'"
  using count_nonempty [OF assms] assms
  by (simp add: setDeviceBinaryInputTargetId_def setBinaryInputTargetId_def setDeviceConfig_def onDevice_def sameGroups_def)

lemma returns_inputs [returns_intros]:
  "(\<And>d. P d \<Longrightarrow> getBinaryInputCount d = 1) \<Longrightarrow>
     returns sameGroups (onlyIf P (runAll [setDeviceBinaryInputTargetId calm 0 b, setBinaryInputTargetId 0 b]))"
  unfolding returns_def
proof (intro allI)
  fix z cs assume "\<And>d. P d \<Longrightarrow> getBinaryInputCount d = 1"
  then show "\<exists>z' cs'. onlyIf P (runAll [setDeviceBinaryInputTargetId calm 0 b, setBinaryInputTargetId 0 b]) (z, cs) = (z', cs', None) \<and> sameGroups z z'"
    using target_returns [of z b cs] by (cases "P z") (simp_all del: runAll.simps)
qed

section \<open>Leaving and entering groups\<close>

lemma setJoker_returns:
  assumes "isDefaultGroup (uint g) \<or> isGlobalAppDsGroup (uint g)"
  shows "\<exists>z' cs'. setDeviceJokerGroup E calm g (z, cs) = (z', cs', None) \<and>
    d_groupIds (gd_device z') = d_groupIds (addToGroup (gd_device z) (uint g)) \<and> d_zoneID (gd_device z') = d_zoneID (gd_device z)"
proof -
  let ?z = "onDevice (\<lambda>d. addToGroup d (uint g)) z"
  have "returns sameGroups (runAll [
        onlyIf (\<lambda>d. gd_buttonInputCount d > 0 \<and> uint g \<noteq> gd_buttonActiveGroup d) (runAll [
          onlyIf (\<lambda>d. gd_activeGroup z = GroupIDBlack \<and> uint g \<noteq> GroupIDBlack \<and> hasInput d \<and>
                       gd_buttonInputMode d \<noteq> BIM_STANDARD \<and> \<not> is2WaySlave (ge_lib E) d)
            (setDeviceButtonInputMode calm BIM_STANDARD),
          setDeviceButtonActiveGroup calm g]),
        push DeviceChanged,
        change (\<lambda>d. d\<lparr>gd_activeGroup := ge_active E\<rparr>),
        updateLedGroupColor calm,
        updateOutputMode calm])"
    by (intro returns_intros; simp add: sameGroups_def)
  then obtain z' cs' where r: "runAll [
        onlyIf (\<lambda>d. gd_buttonInputCount d > 0 \<and> uint g \<noteq> gd_buttonActiveGroup d) (runAll [
          onlyIf (\<lambda>d. gd_activeGroup z = GroupIDBlack \<and> uint g \<noteq> GroupIDBlack \<and> hasInput d \<and>
                       gd_buttonInputMode d \<noteq> BIM_STANDARD \<and> \<not> is2WaySlave (ge_lib E) d)
            (setDeviceButtonInputMode calm BIM_STANDARD),
          setDeviceButtonActiveGroup calm g]),
        push DeviceChanged,
        change (\<lambda>d. d\<lparr>gd_activeGroup := ge_active E\<rparr>),
        updateLedGroupColor calm,
        updateOutputMode calm] (?z, cs) = (z', cs', None)" "sameGroups ?z z'" by (rule returnsE)
  have "setDeviceJokerGroup E calm g (z, cs) = (z', cs', None)"
    using assms unfolding setDeviceJokerGroup_def Let_def by (subst runAll.simps(2)) (simp add: r(1) del: runAll.simps)
  moreover have "d_zoneID (addToGroup (gd_device z) (uint g)) = d_zoneID (gd_device z)" by (simp add: addToGroup_def)
  ultimately show ?thesis using r(2) by (simp add: sameGroups_def onDevice_def)
qed

lemma removeFrom_returns:
  assumes "\<not> groupLocked E grp"
  shows "\<exists>z' cs'. deviceRemoveFromGroup E calm grp adapt (z, cs) = (z', cs', None) \<and>
    d_groupIds (gd_device z') = d_groupIds (removeFromGroup (gd_device z) (g_id grp)) \<and> d_zoneID (gd_device z') = d_zoneID (gd_device z)"
proof -
  let ?i = "g_id grp" let ?z = "onDevice (\<lambda>d. removeFromGroup d ?i) z"
  let ?rest = "runAll [
        onlyIf (\<lambda>d. adapt) (runAll [
          onlyIf (\<lambda>d. singleBinaryInput d \<and> ?i = bi_targetGroupId (d_binaryInputs (gd_device d) ! 0))
            (runAll [setDeviceBinaryInputTargetId calm 0 (word_of_int GroupIDBlack), setBinaryInputTargetId 0 (word_of_int GroupIDBlack)]),
          onlyIf (\<lambda>d. ?i = gd_buttonActiveGroup d)
            (reading (\<lambda>d. setDeviceButtonActiveGroup calm (word_of_int (gd_activeGroup d))))]),
        push (DeviceEventRaised ''groupRemove'' ?i)]"
  have "returns sameGroups ?rest" by (intro returns_intros; simp add: sameGroups_def singleBinaryInput_def)
  then obtain z' cs' where r: "?rest (?z, cs @ [BusRemoveFromGroup ?i]) = (z', cs', None)" "sameGroups ?z z'" by (rule returnsE)
  have "deviceRemoveFromGroup E calm grp adapt (z, cs) = (z', cs', None)"
    using assms unfolding deviceRemoveFromGroup_def Let_def
    by (simp add: run_first r(1) del: runAll.simps)
  moreover have "d_zoneID (removeFromGroup (gd_device z) ?i) = d_zoneID (gd_device z)" by (simp add: removeFromGroup_def)
  ultimately show ?thesis using r(2) by (simp add: sameGroups_def onDevice_def)
qed

lemma isInGroup_iff: "g \<noteq> 0 \<Longrightarrow> \<forall>h \<in> set (d_groupIds d). isValidGroup h \<Longrightarrow> isInGroup d g \<longleftrightarrow> g \<in> set (d_groupIds d)"
  by (auto simp: isInGroup_def)

lemma remove_filter: "distinct xs \<Longrightarrow> remove1 x xs = filter (\<lambda>y. y \<noteq> x) xs"
  by (simp add: distinct_remove1_removeAll removeAll_filter_not_eq) (metis (no_types))

lemma zoneGroup_id: "zoneGroup zn h = Some g \<Longrightarrow> g_id g = h"
  by (auto simp: zoneGroup_def find_Some_iff)

abbreviation ids :: "gdevice \<Rightarrow> int list" where "ids z \<equiv> d_groupIds (gd_device z)"

text \<open>A group the device is in, that the zone has, is left.\<close>

lemma leave_returns:
  assumes "\<And>i. \<not> ge_locked E i" and "zoneGroup zn h = Some grp" and "\<forall>h \<in> set (ids z). isValidGroup h" and "distinct (ids z)"
    and "h \<in> set (ids z)"
  shows "\<exists>z' cs'. deviceRemoveFromGroup E calm grp adapt (z, cs) = (z', cs', None) \<and> ids z' = filter (\<lambda>x. x \<noteq> h) (ids z) \<and>
    d_zoneID (gd_device z') = d_zoneID (gd_device z)"
proof -
  have "isValidGroup h" using assms(3, 5) by blast
  then have "d_groupIds (removeFromGroup (gd_device z) (g_id grp)) = filter (\<lambda>x. x \<noteq> h) (ids z)"
    using zoneGroup_id [OF assms(2)] remove_filter [OF assms(4)] by (simp add: removeFromGroup_def)
  moreover have "\<not> groupLocked E grp" using assms(1) by (simp add: groupLocked_def)
  ultimately show ?thesis using removeFrom_returns by metis
qed

lemma removeMembers_returns:
  assumes "\<And>i. \<not> ge_locked E i" and "getZone (ge_apartment E) k = Inr zn"
    and "\<And>x. d_zoneID (gd_device x) = d_zoneID (gd_device z) \<Longrightarrow> zoneOf x = k"
    and "\<forall>h \<in> set gs. h \<in> set (ids z) \<longrightarrow> zoneGroup zn h \<noteq> None" and "\<forall>h \<in> set (ids z). isValidGroup h"
    and "distinct (ids z)" and "0 \<notin> set gs"
  shows "\<exists>z' cs'. runAll (map (removeMember E calm zoneOf adapt) gs) (z, cs) = (z', cs', None) \<and>
    ids z' = filter (\<lambda>h. h \<notin> set gs) (ids z) \<and> d_zoneID (gd_device z') = d_zoneID (gd_device z)"
  using assms(3-7)
proof (induction gs arbitrary: z cs)
  case (Cons g gs)
  have g: "isInGroup (gd_device z) g \<longleftrightarrow> g \<in> set (ids z)" using Cons.prems(3, 5) by (intro isInGroup_iff) auto
  show ?case
  proof (cases "g \<in> set (ids z)")
    case True
    obtain grp where grp: "zoneGroup zn g = Some grp" using Cons.prems(2) True by auto
    obtain y ds where y: "deviceRemoveFromGroup E calm grp adapt (z, cs) = (y, ds, None)" "ids y = filter (\<lambda>x. x \<noteq> g) (ids z)"
        "d_zoneID (gd_device y) = d_zoneID (gd_device z)"
      using leave_returns [OF assms(1) grp Cons.prems(3, 4) True] by blast
    have "removeMember E calm zoneOf adapt g (z, cs) = (y, ds, None)"
      using True g y(1) grp assms(2) Cons.prems(1) [of z] by (simp add: removeMember_def withGroup_def)
    moreover obtain z' cs' where "runAll (map (removeMember E calm zoneOf adapt) gs) (y, ds) = (z', cs', None)"
        "ids z' = filter (\<lambda>h. h \<notin> set gs) (ids y)" "d_zoneID (gd_device z') = d_zoneID (gd_device y)"
      using Cons.IH [of y ds] Cons.prems y(2, 3) by auto
    ultimately show ?thesis
      using y(2, 3) by (intro exI [of _ z'] exI [of _ cs']) (simp add: conj_commute)
  next
    case False
    then have "removeMember E calm zoneOf adapt g (z, cs) = (z, cs, None)" using g by (simp add: removeMember_def)
    moreover obtain z' cs' where "runAll (map (removeMember E calm zoneOf adapt) gs) (z, cs) = (z', cs', None)"
        "ids z' = filter (\<lambda>h. h \<notin> set gs) (ids z)" "d_zoneID (gd_device z') = d_zoneID (gd_device z)"
      using Cons.IH [of z cs] Cons.prems by auto
    moreover have "filter (\<lambda>h. h \<notin> set gs) (ids z) = filter (\<lambda>h. h \<notin> set (g # gs)) (ids z)" using False by (intro filter_cong) auto
    ultimately show ?thesis by (intro exI [of _ z'] exI [of _ cs']) simp
  qed
qed simp

lemma leaveClusters_returns:
  assumes "\<And>i. \<not> ge_locked E i" and "\<forall>h \<in> set gs. h \<in> set (ids z) \<longrightarrow> zoneGroup zn h \<noteq> None"
    and "\<forall>h \<in> set (ids z). isValidGroup h" and "distinct (ids z)" and "0 \<notin> set gs" and "distinct gs"
  shows "\<exists>z' cs' m'. leaveClusters E calm zn groupId gs m (z, cs) = ((z', cs', None), m') \<and> (m \<longrightarrow> m') \<and>
    ids z' = filter (\<lambda>h. h \<in> set gs \<longrightarrow> ApplicationType_value (g_applicationType (the (zoneGroup zn h))) = groupId) (ids z)"
  using assms(2-6)
proof (induction gs arbitrary: z cs m)
  case (Cons g gs)
  let ?keep = "\<lambda>h. ApplicationType_value (g_applicationType (the (zoneGroup zn h))) = groupId"
  have g: "isInGroup (gd_device z) g \<longleftrightarrow> g \<in> set (ids z)" using Cons.prems(2, 4) by (intro isInGroup_iff) auto
  show ?case
  proof (cases "g \<in> set (ids z) \<and> \<not> ?keep g")
    case True
    obtain grp where grp: "zoneGroup zn g = Some grp" using Cons.prems(1) True by auto
    obtain y ds where y: "deviceRemoveFromGroup E calm grp True (z, cs) = (y, ds, None)" "ids y = filter (\<lambda>x. x \<noteq> g) (ids z)"
      using leave_returns [OF assms(1) grp Cons.prems(2, 3)] True by blast
    obtain z' cs' m' where "leaveClusters E calm zn groupId gs True (y, ds) = ((z', cs', None), m')" "m'"
        "ids z' = filter (\<lambda>h. h \<in> set gs \<longrightarrow> ?keep h) (ids y)"
      using Cons.IH [of y True ds] Cons.prems y(2) by auto
    moreover have "filter (\<lambda>h. h \<in> set gs \<longrightarrow> ?keep h) (ids y) = filter (\<lambda>h. h \<in> set (g # gs) \<longrightarrow> ?keep h) (ids z)"
      unfolding y(2) filter_filter using True Cons.prems(5) by (intro filter_cong) auto
    ultimately show ?thesis using True g grp y(1) by (intro exI [of _ z'] exI [of _ cs'] exI [of _ m']) simp
  next
    case False
    have "leaveClusters E calm zn groupId (g # gs) m (z, cs) = leaveClusters E calm zn groupId gs m (z, cs)"
      using False g Cons.prems(1) by auto
    moreover obtain z' cs' m' where "leaveClusters E calm zn groupId gs m (z, cs) = ((z', cs', None), m')" "m \<longrightarrow> m'"
        "ids z' = filter (\<lambda>h. h \<in> set gs \<longrightarrow> ?keep h) (ids z)"
      using Cons.IH [of z m cs] Cons.prems by auto
    moreover have "filter (\<lambda>h. h \<in> set gs \<longrightarrow> ?keep h) (ids z) = filter (\<lambda>h. h \<in> set (g # gs) \<longrightarrow> ?keep h) (ids z)"
      using False by (intro filter_cong) auto
    ultimately show ?thesis by (intro exI [of _ z'] exI [of _ cs'] exI [of _ m']) simp
  qed
qed simp

lemma returns_choice [returns_intros]:
  "(\<And>d. P d \<Longrightarrow> getBinaryInputCount d = 1) \<Longrightarrow> returns sameGroups f \<Longrightarrow>
     returns sameGroups (reading (\<lambda>d. if P d then runAll [setDeviceBinaryInputTargetId calm 0 b, setBinaryInputTargetId 0 b] else f))"
  unfolding returns_def
proof (intro allI)
  fix z cs
  assume "\<And>d. P d \<Longrightarrow> getBinaryInputCount d = 1" "\<forall>z cs. \<exists>z' cs'. f (z, cs) = (z', cs', None) \<and> sameGroups z z'"
  then show "\<exists>z' cs'. reading (\<lambda>d. if P d then runAll [setDeviceBinaryInputTargetId calm 0 b, setBinaryInputTargetId 0 b] else f) (z, cs) =
      (z', cs', None) \<and> sameGroups z z'"
    using target_returns [of z b cs] by (cases "P z") (simp_all del: runAll.simps)
qed

definition joined :: "int \<Rightarrow> gdevice \<Rightarrow> int list" where
  "joined i z =
     (if (isDefaultGroup i \<or> isGlobalAppDsGroup i) \<and> variableStandardGroup z then [i]
      else if i \<in> set (ids z) then ids z else ids z @ [i])"

lemma addTo_returns:
  assumes "\<not> groupLocked E grp" and "isValidGroup (g_id grp)" and "\<forall>h \<in> set (ids z). isValidGroup h"
  shows "\<exists>z' cs'. deviceAddToGroup E calm grp (z, cs) = (z', cs', None) \<and> ids z' = joined (g_id grp) z \<and>
    d_zoneID (gd_device z') = d_zoneID (gd_device z)"
proof -
  let ?i = "g_id grp" let ?b = "word_of_int ?i :: u8"
  let ?reset = "(isDefaultGroup ?i \<or> isGlobalAppDsGroup ?i) \<and> variableStandardGroup z"
  let ?y = "if ?reset then z\<lparr>gd_device := (gd_device z)\<lparr>d_groupIds := []\<rparr>\<rparr> else z"
  let ?z = "onDevice (\<lambda>d. addToGroup d ?i) ?y"
  let ?rest = "runAll [
        reading (\<lambda>d. if singleBinaryInput d
              then runAll [setDeviceBinaryInputTargetId calm 0 ?b, setBinaryInputTargetId 0 ?b]
              else onlyIf (\<lambda>d. gd_outputMode d = 0) (setDeviceButtonActiveGroup calm ?b)),
        onlyIf isHeatingButton
          (setDeviceButtonInputMode calm (if ?i = GroupIDControlTemperature then BIM_HEATING_PUSHBUTTON else BIM_STANDARD)),
        push (DeviceEventRaised ''groupAdd'' ?i)]"
  have "returns sameGroups ?rest" by (intro returns_intros; simp add: singleBinaryInput_def)
  then obtain z' cs' where r: "?rest (?z, cs @ [BusAddToGroup ?i]) = (z', cs', None)" "sameGroups ?z z'" by (rule returnsE)
  have "resetGroupsStep (z, ds) = (z\<lparr>gd_device := (gd_device z)\<lparr>d_groupIds := []\<rparr>\<rparr>, ds, None)" for ds
    using assms(3) by (simp add: resetGroupsStep_def resetGroups_returns)
  then have "onlyIf (\<lambda>d. (isDefaultGroup ?i \<or> isGlobalAppDsGroup ?i) \<and> variableStandardGroup d) resetGroupsStep (z, ds) = (?y, ds, None)" for ds
    by simp
  then have "deviceAddToGroup E calm grp (z, cs) = (z', cs', None)"
    using assms(1) r(1) unfolding deviceAddToGroup_def Let_def by (simp add: run_first del: runAll.simps run_simps(8))
  moreover have "ids ?z = joined ?i z" "d_zoneID (gd_device ?z) = d_zoneID (gd_device z)"
    using assms(2) by (simp_all add: onDevice_def addToGroup_def joined_def)
  ultimately show ?thesis using r(2) by (simp add: sameGroups_def)
qed

section \<open>Joker groups\<close>

text \<open>The zones have the groups the device is in, and the one it is to get.\<close>

definition groupPlace :: "int \<Rightarrow> gdevice \<Rightarrow> int" where
  "groupPlace h z = (if isAppUserGroup h \<or> isGlobalAppGroup h then 0 else ownZone z)"

definition groupsPresent :: "groupEnv \<Rightarrow> gdevice \<Rightarrow> int \<Rightarrow> bool" where
  "groupsPresent E z g \<longleftrightarrow>
     (\<exists>zn. getZone (ge_apartment E) (ownZone z) = Inr zn) \<and> (\<exists>z0. getZone (ge_apartment E) 0 = Inr z0) \<and>
     (\<forall>h \<in> insert g (set (ids z)). isValidGroup h \<and>
        (\<forall>zn. getZone (ge_apartment E) (groupPlace h z) = Inr zn \<longrightarrow> zoneGroup zn h \<noteq> None))"

definition exclusive :: "int \<Rightarrow> bool" where
  "exclusive h \<longleftrightarrow> h \<noteq> GroupIDBlack \<and> (h \<in> {GroupIDYellow..GroupIDStandardMax} \<or>
     h \<in> {GroupIDControlGroupMin..GroupIDControlGroupMax} \<or> h \<in> {GroupIDGlobalAppMin..GroupIDGlobalAppMax})"

lemmas group_numbers = GroupIDYellow_def GroupIDStandardMax_def GroupIDBlack_def GroupIDControlGroupMin_def
  GroupIDControlGroupMax_def GroupIDGlobalAppMin_def GroupIDGlobalAppMax_def GroupIDAppUserMin_def GroupIDAppUserMax_def
  GroupIDControlTemperature_def GroupIDGlobalAppDsMin_def GroupIDGlobalAppDsMax_def GroupIDGlobalAppUserMin_def
  GroupIDGlobalAppUserMax_def

lemmas group_classes = isDefaultGroup_def isAppUserGroup_def isControlGroup_def isGlobalAppDsGroup_def isGlobalAppUserGroup_def
  isGlobalAppGroup_def

lemma changeGroup_returns:
  assumes "\<And>i. \<not> ge_locked E i" and "groupsPresent E z g" and "distinct (ids z)" and "isDefaultGroup g \<or> isGlobalAppDsGroup g"
  shows "\<exists>z' cs'. changeGroup E calm g (z, cs) = (z', cs', None) \<and> distinct (ids z') \<and> g \<in> set (ids z') \<and>
    (\<forall>h \<in> set (ids z'). h \<in> insert g (set (ids z)) \<and> (exclusive h \<longrightarrow> h = g)) \<and> d_zoneID (gd_device z') = d_zoneID (gd_device z)"
proof -
  obtain zn where zn: "getZone (ge_apartment E) (ownZone z) = Inr zn" using assms(2) by (auto simp: groupsPresent_def)
  obtain z0 where z0: "getZone (ge_apartment E) 0 = Inr z0" using assms(2) by (auto simp: groupsPresent_def)
  have valid: "\<forall>h \<in> insert g (set (ids z)). isValidGroup h" using assms(2) by (auto simp: groupsPresent_def)
  have inzn: "zoneGroup zn h \<noteq> None" if "h \<in> insert g (set (ids z))" "\<not> isAppUserGroup h" "\<not> isGlobalAppGroup h" for h
    using assms(2) that zn by (auto simp: groupsPresent_def groupPlace_def)
  have inz0: "zoneGroup z0 h \<noteq> None" if "h \<in> insert g (set (ids z))" "isAppUserGroup h \<or> isGlobalAppGroup h" for h
    using assms(2) that z0 by (auto simp: groupsPresent_def groupPlace_def)
  define A where "A = filter (\<lambda>h. h \<noteq> g \<and> h \<noteq> GroupIDBlack) [GroupIDYellow..GroupIDStandardMax]"
  define B where "B = [GroupIDControlGroupMin..GroupIDControlGroupMax]"
  define C where "C = [GroupIDGlobalAppMin..GroupIDGlobalAppMax]"
  have own: "ownZone x = ownZone z" if "d_zoneID (gd_device x) = d_zoneID (gd_device z)" for x using that by (simp add: ownZone_def)
  have zoneGroups: "\<not> isAppUserGroup h" "\<not> isGlobalAppGroup h" "h \<noteq> 0" if "h \<in> set A \<union> set B" for h
    using that unfolding A_def B_def set_filter set_upto group_classes group_numbers by auto
  have globalGroups: "isGlobalAppGroup h" "h \<noteq> 0" if "h \<in> set C" for h
    using that unfolding C_def set_upto group_classes group_numbers by auto
  have inzn': "zoneGroup zn h \<noteq> None" if "h \<in> set A \<union> set B" "h \<in> set (ids z)" for h
    using inzn [of h] zoneGroups(1, 2) [OF that(1)] that(2) by simp
  have inz0': "zoneGroup z0 h \<noteq> None" if "h \<in> set C" "h \<in> set (ids z)" for h
    using inz0 [of h] globalGroups(1) [OF that(1)] that(2) by simp
  have memA: "\<forall>h \<in> set A. h \<in> set (ids z) \<longrightarrow> zoneGroup zn h \<noteq> None" "0 \<notin> set A"
    by (intro ballI impI inzn' UnI1) (assumption, assumption, metis zoneGroups(3) UnI1)
  obtain z1 c1 where z1: "runAll (map (removeMember E calm ownZone False) A) (z, cs) = (z1, c1, None)"
      "ids z1 = filter (\<lambda>h. h \<notin> set A) (ids z)" "d_zoneID (gd_device z1) = d_zoneID (gd_device z)"
    using removeMembers_returns [where z = z and gs = A and zoneOf = ownZone and adapt = False and cs = cs,
        OF assms(1) zn own memA(1) _ assms(3) memA(2)] valid by blast
  have v1: "\<forall>h \<in> set (ids z1). isValidGroup h" "distinct (ids z1)" "set (ids z1) \<subseteq> set (ids z)" using valid assms(3) z1(2) by auto
  have memB: "\<forall>h \<in> set B. h \<in> set (ids z1) \<longrightarrow> zoneGroup zn h \<noteq> None" "0 \<notin> set B"
    by (intro ballI impI inzn' UnI2) (assumption, metis v1(3) subsetD, metis zoneGroups(3) UnI2)
  have own1: "ownZone x = ownZone z" if "d_zoneID (gd_device x) = d_zoneID (gd_device z1)" for x
    by (rule own) (simp add: that z1(3))
  obtain z2 c2 where z2: "runAll (map (removeMember E calm ownZone False) B) (z1, c1) = (z2, c2, None)"
      "ids z2 = filter (\<lambda>h. h \<notin> set B) (ids z1)" "d_zoneID (gd_device z2) = d_zoneID (gd_device z1)"
    using removeMembers_returns [where z = z1 and gs = B and zoneOf = ownZone and adapt = False and cs = c1,
        OF assms(1) zn own1 memB(1) v1(1, 2) memB(2)] by blast
  have v2: "\<forall>h \<in> set (ids z2). isValidGroup h" "distinct (ids z2)" "set (ids z2) \<subseteq> set (ids z)" using v1 z2(2) by auto
  have memC: "\<forall>h \<in> set C. h \<in> set (ids z2) \<longrightarrow> zoneGroup z0 h \<noteq> None" "0 \<notin> set C"
    by (intro ballI impI inz0') (assumption, metis v2(3) subsetD, metis globalGroups(2))
  obtain z3 c3 where z3: "runAll (map (removeMember E calm (\<lambda>_. 0) False) C) (z2, c2) = (z3, c3, None)"
      "ids z3 = filter (\<lambda>h. h \<notin> set C) (ids z2)" "d_zoneID (gd_device z3) = d_zoneID (gd_device z2)"
    using removeMembers_returns [where z = z2 and gs = C and zoneOf = "\<lambda>_. 0" and adapt = False and cs = c2,
        OF assms(1) z0 refl memC(1) v2(1, 2) memC(2)] by blast
  have v3: "\<forall>h \<in> set (ids z3). isValidGroup h" "distinct (ids z3)" using v2 z3(2) by auto
  have sub: "set (ids z3) \<subseteq> {h \<in> set (ids z). exclusive h \<longrightarrow> h = g}"
    unfolding z3(2) z2(2) z1(2) exclusive_def A_def B_def C_def by auto
  let ?zone = "if g \<ge> GroupIDGlobalAppMin then 0 else ownZone z3"
  have own3: "ownZone z3 = ownZone z" by (rule own) (simp add: z1(3) z2(3) z3(3))
  obtain zg grp where grp: "getZone (ge_apartment E) ?zone = Inr zg" "zoneGroup zg g = Some grp"
    using zn z0 inzn [of g] inz0 [of g] assms(4) own3
    by (cases "g \<ge> GroupIDGlobalAppMin") (auto simp: group_numbers group_classes)
  have gi: "g_id grp = g" by (rule zoneGroup_id [OF grp(2)])
  have "\<not> groupLocked E grp" using assms(1) by (simp add: groupLocked_def)
  then obtain z4 c4 where z4: "deviceAddToGroup E calm grp (z3, c3) = (z4, c4, None)" "ids z4 = joined g z3"
      "d_zoneID (gd_device z4) = d_zoneID (gd_device z3)"
    using addTo_returns [of E grp z3 c3] valid v3(1) gi by auto
  have g8: "uint (word_of_int g :: u8) = g"
    using assms(4) by (intro uint_word_of_int_eq [THEN trans] take_bit_int_eq_self) (auto simp: group_numbers group_classes)
  obtain z5 c5 where z5: "setDeviceJokerGroup E calm (word_of_int g) (z4, c4) = (z5, c5, None)"
      "ids z5 = d_groupIds (addToGroup (gd_device z4) g)" "d_zoneID (gd_device z5) = d_zoneID (gd_device z4)"
    using setJoker_returns [of "word_of_int g" E z4 c4] assms(4) g8 by auto
  have j: "distinct (joined g z3)" "g \<in> set (joined g z3)" "set (joined g z3) \<subseteq> insert g (set (ids z3))"
    using v3(2) by (auto simp: joined_def)
  then have i5: "ids z5 = joined g z3" using z5(2) z4(2) by (simp add: addToGroup_def)
  have w: "withGroup E ?zone g (deviceAddToGroup E calm) (z3, c3) = (z4, c4, None)"
    using grp z4(1) by (simp add: withGroup_def)
  have "changeGroup E calm g (z, cs) = (z5, c5, None)"
    unfolding changeGroup_def A_def [symmetric] B_def [symmetric] C_def [symmetric] by (simp only: runAll.simps z1(1) z2(1) z3(1) w z5(1) run_simps)
  then show ?thesis using i5 j sub z1(3) z2(3) z3(3) z4(3) z5(3) by (intro exI [of _ z5] exI [of _ c5]) auto
qed

text \<open>
  C18: A device that is given a joker group other than its own is afterwards in that group and in no other
  that excludes it: no other standard group but the black one, no control group, no group of the
  apartment; and the clusters it stays in have the application of the group.  The operation returns when
  the groups of the device are there and no cluster is locked.
\<close>

theorem joker_one_group:
  assumes "\<And>i. \<not> ge_locked E i" and "groupsPresent E d g" and "distinct (ids d)" and "isDefaultGroup g \<or> isGlobalAppDsGroup g"
    and "gd_activeGroup d \<noteq> g" and "gd_activeGroup d = GroupIDNotApplicable \<longrightarrow> g \<noteq> GroupIDBlack"
  shows "\<exists>d' cs'. setJokerGroup E (\<lambda>_. None) g (d, cs) = ((d', cs', None), True) \<and> isInGroup (gd_device d') g \<and>
    (\<forall>h. exclusive h \<and> h \<noteq> g \<longrightarrow> \<not> isInGroup (gd_device d') h) \<and>
    (\<forall>h z0. isAppUserGroup h \<and> isInGroup (gd_device d') h \<and> getZone (ge_apartment E) 0 = Inr z0 \<longrightarrow>
       ApplicationType_value (g_applicationType (the (zoneGroup z0 h))) = g)"
proof -
  obtain z0 where z0: "getZone (ge_apartment E) 0 = Inr z0" using assms(2) by (auto simp: groupsPresent_def)
  obtain y ds where y: "changeGroup E calm g (d, cs) = (y, ds, None)" "distinct (ids y)" "g \<in> set (ids y)"
      "\<forall>h \<in> set (ids y). h \<in> insert g (set (ids d)) \<and> (exclusive h \<longrightarrow> h = g)"
    using changeGroup_returns [OF assms(1-4)] by blast
  define C where "C = [GroupIDAppUserMin..GroupIDAppUserMax]"
  have C: "h \<in> set C \<longleftrightarrow> isAppUserGroup h" for h unfolding C_def set_upto by (auto simp: isAppUserGroup_def)
  have valid: "\<forall>h \<in> set (ids y). isValidGroup h" using y(4) assms(2) by (auto simp: groupsPresent_def)
  have "\<forall>h \<in> set C. h \<in> set (ids y) \<longrightarrow> zoneGroup z0 h \<noteq> None"
  proof (intro ballI impI)
    fix h assume "h \<in> set C" "h \<in> set (ids y)"
    then have "groupPlace h d = 0" "h \<in> insert g (set (ids d))" using y(4) C by (auto simp: groupPlace_def)
    then show "zoneGroup z0 h \<noteq> None" using assms(2) z0 unfolding groupsPresent_def by metis
  qed
  moreover have "0 \<notin> set C" "distinct C" unfolding C_def set_upto by (simp_all add: group_numbers)
  ultimately obtain x es m where x: "leaveClusters E calm z0 g C True (y, ds) = ((x, es, None), m)" "m"
      "ids x = filter (\<lambda>h. h \<in> set C \<longrightarrow> ApplicationType_value (g_applicationType (the (zoneGroup z0 h))) = g) (ids y)"
    using leaveClusters_returns [OF assms(1) _ valid y(2), of C z0 g True ds] by blast
  have gC: "g \<notin> set C" using assms(4) unfolding C by (auto simp: group_numbers group_classes)
  have nz: "exclusive h \<Longrightarrow> h \<noteq> 0" "isAppUserGroup h \<Longrightarrow> h \<noteq> 0" for h by (auto simp: exclusive_def group_numbers group_classes)
  have "isInGroup (gd_device x) g" using y(3) valid x(3) gC by (simp add: isInGroup_def)
  moreover have "\<not> isInGroup (gd_device x) h" if "exclusive h" "h \<noteq> g" for h
    using that y(4) x(3) nz by (auto simp: isInGroup_def)
  moreover have "ApplicationType_value (g_applicationType (the (zoneGroup z0 h))) = g" if "isAppUserGroup h" "isInGroup (gd_device x) h" for h
    using that x(3) nz C [of h] by (auto simp: isInGroup_def split: if_splits)
  moreover have "setJokerGroup E calm g (d, cs) = ((x, es, None), True)"
    using assms(5, 6) y(1) x(1, 2) z0 unfolding setJokerGroup_def Let_def C_def [symmetric] by auto
  ultimately show ?thesis using z0 by (intro exI [of _ x] exI [of _ es]) auto
qed

section \<open>The mode of a button\<close>

definition modeKept :: "gdevice \<Rightarrow> gdevice \<Rightarrow> bool" where
  "modeKept z z' \<longleftrightarrow> gd_buttonInputMode z' = gd_buttonInputMode z \<and> gd_outputMode z' = gd_outputMode z \<and>
     gd_productID z' = gd_productID z \<and> d_functionID (gd_device z') = d_functionID (gd_device z) \<and>
     length (d_binaryInputs (gd_device z')) = length (d_binaryInputs (gd_device z))"

lemma modeKept_order [step_intros]: "reflp modeKept" "transp modeKept"
  by (auto simp: modeKept_def reflp_def transp_def)

lemma modeKept_kind: "modeKept z z' \<Longrightarrow> singleBinaryInput z' = singleBinaryInput z \<and> isHeatingButton z' = isHeatingButton z"
  by (simp add: modeKept_def singleBinaryInput_def isHeatingButton_def getDeviceType_def getBinaryInputCount_def getDeviceNumber_def
      getDeviceClass_def)

lemma modeKept_config [step_intros]: "stepRel modeKept (setDeviceConfig bus c i v)"
  unfolding setDeviceConfig_def by (intro step_intros)

lemma modeKept_buttons [step_intros]:
  "stepRel modeKept (setDeviceButtonID bus i)" "stepRel modeKept (updateLedGroupColor bus)" "stepRel modeKept (updateOutputMode bus)"
  unfolding setDeviceButtonID_def updateLedGroupColor_def updateOutputMode_def setDeviceOutputMode_def
  by (intro step_intros; simp add: modeKept_def)+

lemma modeKept_active [step_intros]: "stepRel modeKept (setDeviceButtonActiveGroup bus g)"
  unfolding setDeviceButtonActiveGroup_def by (intro step_intros; simp add: modeKept_def)

lemma modeKept_inputs [step_intros]:
  "stepRel modeKept (setDeviceBinaryInputTargetId bus i g)" "stepRel modeKept (setBinaryInputTargetId i g)"
proof -
  show "stepRel modeKept (setBinaryInputTargetId i g)"
    by (simp add: stepRel_def setBinaryInputTargetId_def onDevice_def modeKept_def)
  have "modeKept z (fst (setDeviceBinaryInputTargetId bus i g (z, cs)))" for z cs
    using modeKept_config [of bus CfgClassDevice "0x40 + 3 * int i + 0" g]
    by (simp add: setDeviceBinaryInputTargetId_def stepRel_def) (simp add: modeKept_def)
  then show "stepRel modeKept (setDeviceBinaryInputTargetId bus i g)" by (simp add: stepRel_def)
qed

lemma groups_fields [simp]:
  "d_functionID (addToGroup d g) = d_functionID d" "d_binaryInputs (addToGroup d g) = d_binaryInputs d"
  "d_functionID (removeFromGroup d g) = d_functionID d" "d_binaryInputs (removeFromGroup d g) = d_binaryInputs d"
  by (simp_all add: addToGroup_def removeFromGroup_def)

lemma modeKept_reset [step_intros]: "stepRel modeKept resetGroupsStep"
  by (auto simp: stepRel_def resetGroupsStep_def resetGroups_returns modeKept_def)

lemma modeKept_remove [step_intros]: "stepRel modeKept (deviceRemoveFromGroup E bus grp adapt)"
proof -
  have "stepRel modeKept (runAll [
        send bus (BusRemoveFromGroup i),
        change (onDevice (\<lambda>d. removeFromGroup d i)),
        onlyIf (\<lambda>d. adapt) (runAll [
          onlyIf (\<lambda>d. singleBinaryInput d \<and> i = bi_targetGroupId (d_binaryInputs (gd_device d) ! 0))
            (runAll [setDeviceBinaryInputTargetId bus 0 (word_of_int GroupIDBlack), setBinaryInputTargetId 0 (word_of_int GroupIDBlack)]),
          onlyIf (\<lambda>d. i = gd_buttonActiveGroup d)
            (reading (\<lambda>d. setDeviceButtonActiveGroup bus (word_of_int (gd_activeGroup d))))]),
        push (DeviceEventRaised ''groupRemove'' i)])" for i
    by (intro step_intros; simp add: modeKept_def onDevice_def)
  then show ?thesis using modeKept_order(1)
    by (simp add: stepRel_def deviceRemoveFromGroup_def Let_def reflp_def del: runAll.simps)
qed

lemma modeKept_member [step_intros]: "stepRel modeKept (removeMember E bus zoneOf adapt g)"
  using modeKept_order(1) modeKept_remove [of E bus _ adapt]
  by (auto simp: stepRel_def removeMember_def withGroup_def reflp_def split: sum.split option.split)

lemma modeKept_members [step_intros]: "stepRel modeKept (runAll (map (removeMember E bus zoneOf adapt) gs))"
  by (induction gs) (auto simp del: runAll.simps intro: step_intros)

lemma modeKept_clusters: "modeKept (fst s) (fst (fst (leaveClusters E bus zn g gs m s)))"
proof (induction gs arbitrary: m s)
  case Nil
  then show ?case using modeKept_order(1) by (cases s) (simp add: reflp_def)
next
  case (Cons h gs)
  obtain z cs where s: "s = (z, cs)" by (cases s)
  have r: "modeKept z z" using modeKept_order(1) by (simp add: reflp_def)
  have "modeKept z (fst (deviceRemoveFromGroup E bus grp True (z, cs)))" for grp
    using modeKept_remove [of E bus grp True] unfolding stepRel_def by blast
  then show ?case
    using Cons.IH r modeKept_order(2) unfolding s
    by (auto split: option.split prod.split) (metis fst_conv transpD)+
qed

lemma setActive_sets: "setDeviceButtonActiveGroup bus g (z, cs) = (z', cs', None) \<Longrightarrow> gd_buttonActiveGroup z' = uint g"
  by (auto simp: setDeviceButtonActiveGroup_def setDeviceButtonID_def setDeviceConfig_def thenRun_def split: option.splits prod.splits if_splits)

lemma modeKept_then:
  assumes "modeKept z (fst r)" and "\<And>y ds. r = (y, ds, None) \<Longrightarrow> modeKept z y \<Longrightarrow> modeKept y (fst (f (y, ds)))"
  shows "modeKept z (fst (thenRun r f))"
proof -
  obtain y ds e where r: "r = (y, ds, e)" by (cases r)
  then show ?thesis
    using assms transpD [OF modeKept_order(2), of z y] by (cases e) auto
qed

lemma modeKept_step: "stepRel modeKept f \<Longrightarrow> modeKept z (fst (f (z, cs)))"
  by (simp add: stepRel_def)

lemma enter_group:
  assumes "gd_outputMode z = 0" and "\<not> singleBinaryInput z" and "\<not> isHeatingButton z"
  shows "modeKept z (fst (deviceAddToGroup E bus grp (z, cs))) \<and>
    (\<forall>z' cs'. deviceAddToGroup E bus grp (z, cs) = (z', cs', None) \<longrightarrow> gd_buttonActiveGroup z' = uint (word_of_int (g_id grp) :: u8))"
proof (cases "groupLocked E grp")
  case True
  then show ?thesis using modeKept_order(1) by (simp add: deviceAddToGroup_def Let_def reflp_def)
next
  case False
  let ?i = "g_id grp" let ?b = "word_of_int ?i :: u8"
  define rest where "rest = runAll [
        reading (\<lambda>d. if singleBinaryInput d
              then runAll [setDeviceBinaryInputTargetId bus 0 ?b, setBinaryInputTargetId 0 ?b]
              else onlyIf (\<lambda>d. gd_outputMode d = 0) (setDeviceButtonActiveGroup bus ?b)),
        onlyIf isHeatingButton
          (setDeviceButtonInputMode bus (if ?i = GroupIDControlTemperature then BIM_HEATING_PUSHBUTTON else BIM_STANDARD)),
        push (DeviceEventRaised ''groupAdd'' ?i)]"
  define first where "first = runAll [
        send bus (BusAddToGroup ?i),
        onlyIf (\<lambda>d. (isDefaultGroup ?i \<or> isGlobalAppDsGroup ?i) \<and> variableStandardGroup d) resetGroupsStep,
        change (onDevice (\<lambda>d. addToGroup d ?i))]"
  have split: "deviceAddToGroup E bus grp (z, cs) = thenRun (first (z, cs)) rest"
    using False unfolding deviceAddToGroup_def Let_def first_def rest_def runAll_append [symmetric] by simp
  have f: "modeKept z (fst (first (z, cs)))"
    by (rule modeKept_step) (unfold first_def, intro step_intros; simp add: modeKept_def onDevice_def)
  have r: "modeKept y (fst (rest (y, ds))) \<and> (\<forall>z' cs'. rest (y, ds) = (z', cs', None) \<longrightarrow> gd_buttonActiveGroup z' = uint ?b)"
    if y: "modeKept z y" for y ds
  proof -
    have k: "gd_outputMode y = 0" "\<not> singleBinaryInput y" using y assms modeKept_kind [OF y] by (simp_all add: modeKept_def)
    obtain x es e where x: "setDeviceButtonActiveGroup bus ?b (y, ds) = (x, es, e)" by (cases "setDeviceButtonActiveGroup bus ?b (y, ds)")
    have yx: "modeKept y x" using modeKept_step [OF modeKept_active, of y bus ?b ds] x by simp
    then have "\<not> isHeatingButton x" using modeKept_kind [OF yx] modeKept_kind [OF y] assms(3) by simp
    then show ?thesis using k x yx setActive_sets [of bus ?b y ds x es] by (cases e) (auto simp: rest_def)
  qed
  have "modeKept z (fst (thenRun (first (z, cs)) rest))" using f r by (intro modeKept_then) auto
  moreover have "gd_buttonActiveGroup z' = uint ?b" if "thenRun (first (z, cs)) rest = (z', cs', None)" for z' cs'
  proof -
    obtain y ds e where y: "first (z, cs) = (y, ds, e)" by (cases "first (z, cs)")
    then show ?thesis using that r [of y ds] f by (cases e) auto
  qed
  ultimately show ?thesis using split by simp
qed

lemma joker_active:
  assumes "gd_buttonActiveGroup z = uint g"
  shows "modeKept z (fst (setDeviceJokerGroup E bus g (z, cs)))"
proof (cases "isDefaultGroup (uint g) \<or> isGlobalAppDsGroup (uint g)")
  case True
  let ?z = "onDevice (\<lambda>d. addToGroup d (uint g)) z"
  let ?rest = "runAll [push DeviceChanged, change (\<lambda>d. d\<lparr>gd_activeGroup := ge_active E\<rparr>), updateLedGroupColor bus, updateOutputMode bus]"
  have "stepRel modeKept ?rest" by (intro step_intros; simp add: modeKept_def)
  then have "modeKept ?z (fst (?rest (?z, cs)))" by (rule modeKept_step)
  moreover have "modeKept z ?z" by (simp add: modeKept_def onDevice_def)
  moreover have "setDeviceJokerGroup E bus g (z, cs) = ?rest (?z, cs)"
  proof -
    have v: "(\<not> isDefaultGroup (uint g) \<and> \<not> isGlobalAppDsGroup (uint g)) = False" using True by simp
    show ?thesis
      using assms unfolding setDeviceJokerGroup_def Let_def v if_False by (simp add: run_first onDevice_def del: runAll.simps)
  qed
  ultimately show ?thesis using transpD [OF modeKept_order(2)] by metis
next
  case False
  then show ?thesis using modeKept_order(1) by (auto simp: setDeviceJokerGroup_def Let_def reflp_def)
qed

lemma changeGroup_mode:
  assumes "gd_outputMode z = 0" and "\<not> singleBinaryInput z" and "\<not> isHeatingButton z"
  shows "modeKept z (fst (changeGroup E bus g (z, cs)))"
proof -
  have enter: "modeKept y (fst (withGroup E k g (deviceAddToGroup E bus) (y, ds))) \<and>
      (\<forall>z' cs'. withGroup E k g (deviceAddToGroup E bus) (y, ds) = (z', cs', None) \<longrightarrow> gd_buttonActiveGroup z' = uint (word_of_int g :: u8))"
    if y: "modeKept z y" for y ds k
    using enter_group [of y E bus _ ds] y modeKept_kind [OF y] assms modeKept_order(1)
    by (auto simp: withGroup_def reflp_def modeKept_def dest: zoneGroup_id split: sum.split option.split)
  let ?first = "[runAll (map (removeMember E bus ownZone False)
       (filter (\<lambda>h. h \<noteq> g \<and> h \<noteq> GroupIDBlack) [GroupIDYellow..GroupIDStandardMax])),
     runAll (map (removeMember E bus ownZone False) [GroupIDControlGroupMin..GroupIDControlGroupMax]),
     runAll (map (removeMember E bus (\<lambda>_. 0) False) [GroupIDGlobalAppMin..GroupIDGlobalAppMax])]"
  let ?add = "reading (\<lambda>d. withGroup E (if g \<ge> GroupIDGlobalAppMin then 0 else ownZone d) g (deviceAddToGroup E bus))"
  let ?joker = "setDeviceJokerGroup E bus (word_of_int g)"
  have split: "changeGroup E bus g (z, cs) = thenRun (runAll ?first (z, cs)) (runAll [?add, ?joker])"
    unfolding changeGroup_def runAll_append [symmetric] by (simp del: runAll.simps)
  have first: "modeKept z (fst (runAll ?first (z, cs)))" by (rule modeKept_step) (intro step_intros)
  have rest: "modeKept y (fst (runAll [?add, ?joker] (y, ds)))" if y: "modeKept z y" for y ds
  proof -
    have add: "?add (y, ds) = withGroup E (if g \<ge> GroupIDGlobalAppMin then 0 else ownZone y) g (deviceAddToGroup E bus) (y, ds)" by simp
    have "modeKept y (fst (thenRun (?add (y, ds)) (runAll [?joker])))"
      by (rule modeKept_then) (use enter [OF y] joker_active in \<open>simp_all only: add runAll_single\<close>)
    then show ?thesis by simp
  qed
  show ?thesis unfolding split using first rest by (rule modeKept_then)
qed

text \<open>
  A device without an output that leaves the black group keeps the mode of its button: entering the new
  group has made the button active for it, so that the test in \<^verbatim>\<open>setDeviceJokerGroup\<close>, which would reset
  the mode, finds nothing to do.  This holds for every answer of the bus.
\<close>

theorem joker_mode_kept:
  assumes "gd_outputMode d = 0" and "\<not> singleBinaryInput d" and "\<not> isHeatingButton d"
  shows "gd_buttonInputMode (fst (fst (setJokerGroup E bus g (d, cs)))) = gd_buttonInputMode d"
proof -
  define m where "m \<longleftrightarrow> (if gd_activeGroup d = GroupIDNotApplicable then GroupIDBlack else gd_activeGroup d) \<noteq> g"
  obtain y ds e where y: "onlyIf (\<lambda>_. m) (changeGroup E bus g) (d, cs) = (y, ds, e)" by (cases "onlyIf (\<lambda>_. m) (changeGroup E bus g) (d, cs)")
  have dy: "modeKept d y" using changeGroup_mode [OF assms(1-3), of E bus g cs] y modeKept_order(1) by (cases m) (auto simp: reflp_def)
  have "modeKept y (fst (fst (leaveClusters E bus zn g gs m (y, ds))))" for zn gs
    using modeKept_clusters [of "(y, ds)"] by simp
  then have "modeKept d (fst (fst (setJokerGroup E bus g (d, cs))))"
    using dy transpD [OF modeKept_order(2) dy] unfolding setJokerGroup_def Let_def fst_conv m_def [symmetric] y
    by (cases e; cases "getZone (ge_apartment E) 0") simp_all
  then show ?thesis by (simp add: modeKept_def)
qed

section \<open>An example\<close>

text \<open>A button without an output in the black group of zone 5.\<close>

definition exampleButton :: gdevice where
  "exampleButton = \<lparr>gd_device = (newDevice [1])\<lparr>d_zoneID := 5, d_groupIds := [8]\<rparr>, gd_productID = 1224, gd_outputMode = 0,
     gd_activeGroup = 8, gd_buttonActiveGroup = 8, gd_buttonID = 5, gd_buttonInputMode = BIM_TWO_WAY, gd_buttonInputCount = 1\<rparr>"

definition exampleEnv :: groupEnv where
  "exampleEnv = \<lparr>ge_apartment = \<lparr>a_devices = [], a_zones = [newZone 0, (newZone 5)\<lparr>z_groups := [newGroup 1 5, newGroup 8 5]\<rparr>],
       a_dsMeters = []\<rparr>,
     ge_lib = \<lparr>lib_from_string = (\<lambda>_. None), lib_from_dsid = (\<lambda>_. []), lib_to_dsid = (\<lambda>_. None), lib_serial_number = (\<lambda>_. None),
       lib_next_dsuid = (\<lambda>_. None), lib_null = []\<rparr>,
     ge_locked = (\<lambda>_. False), ge_active = 1\<rparr>"

lemma example_present: "groupsPresent exampleEnv exampleButton 1"
  by (auto simp: groupsPresent_def exampleEnv_def exampleButton_def groupPlace_def ownZone_def newDevice_def newZone_def newGroup_def
      getZone_def tryGetZone_def zoneGroup_def isValidGroup_def group_classes group_numbers isZoneUserGroup_def)

theorem joker_one_group_witness:
  "\<exists>d' cs'. setJokerGroup exampleEnv (\<lambda>_. None) 1 (exampleButton, []) = ((d', cs', None), True) \<and> isInGroup (gd_device d') 1 \<and>
     (\<forall>h. exclusive h \<and> h \<noteq> 1 \<longrightarrow> \<not> isInGroup (gd_device d') h)"
proof -
  have "distinct (ids exampleButton)" "isDefaultGroup 1 \<or> isGlobalAppDsGroup 1" "gd_activeGroup exampleButton \<noteq> 1"
    "gd_activeGroup exampleButton = GroupIDNotApplicable \<longrightarrow> 1 \<noteq> GroupIDBlack" "\<And>i. \<not> ge_locked exampleEnv i"
    by (simp_all add: exampleButton_def exampleEnv_def group_classes group_numbers GroupIDNotApplicable_def)
  then show ?thesis using joker_one_group [OF _ example_present, of "[]"] by blast
qed

theorem joker_mode_kept_witness:
  "gd_buttonInputMode (fst (fst (setJokerGroup exampleEnv (\<lambda>_. None) 1 (exampleButton, [])))) = BIM_TWO_WAY"
proof -
  have "gd_outputMode exampleButton = 0" "\<not> singleBinaryInput exampleButton" "\<not> isHeatingButton exampleButton"
    by (simp_all add: exampleButton_def singleBinaryInput_def isHeatingButton_def getBinaryInputCount_def newDevice_def
        getDeviceType_def getDeviceClass_def Let_def)
  from joker_mode_kept [OF this, of exampleEnv "\<lambda>_. None" 1 "[]"] show ?thesis by (simp add: exampleButton_def)
qed

end
