(* ===== verification/Group_Admin.thy ===== *)
theory Group_Admin
  imports Bus_Run Apartment_Structure Scene_Access
begin

text \<open>
  Creating, changing and removing groups and clusters, and groups made from sets, the operations of
  \<^verbatim>\<open>src/src/structuremanipulator.cpp\<close> on the apartment.  A \<^verbatim>\<open>DSSException\<close> is a \<open>StdRuntime\<close>.  A failing
  command whose exception is caught and logged is \<open>push\<close>ed.
\<close>

section \<open>Data\<close>

text \<open>
  \<open>as_locked\<close> is the lock of a cluster, \<open>as_sets\<close> the set a group of zone 0 was made from, \<open>as_sceneNames\<close> the
  names of the scenes of a group (given by zone and number), whose keys are bytes; \<open>as_published\<close> says whether the zones have a
  node in the property tree.
\<close>

record adminState =
  as_apartment :: apartment
  as_locked :: "int \<Rightarrow> bool"
  as_sets :: "int \<Rightarrow> string"
  as_sceneNames :: "int \<times> int \<Rightarrow> (int \<rightharpoonup> string)"
  as_published :: bool

datatype adminCmd =
    BusCreateCluster int ApplicationType u32 string
  | BusRemoveCluster int
  | BusCreateGroup int int ApplicationType u32 string
  | BusRemoveGroup int int
  | BusGroupSetName int int string
  | BusGroupSetApplication int int ApplicationType u32
  | BusClusterSetName int string
  | BusClusterSetApplication int ApplicationType u32
  | BusClusterSetConfigurationLock int bool
  | BusSceneSetName int int int string
  | BusMemberAdd dsuid int u16
  | BusMemberRemove dsuid int u16
  | SceneNameChanged int int int string

type_synonym adminReply = "adminCmd \<Rightarrow> serror option"

section \<open>The groups of the apartment\<close>

fun updFirst :: "('a \<Rightarrow> bool) \<Rightarrow> ('a \<Rightarrow> 'a) \<Rightarrow> 'a list \<Rightarrow> 'a list" where
  "updFirst P f [] = []"
| "updFirst P f (x # xs) = (if P x then f x # xs else x # updFirst P f xs)"

definition updGroup :: "int \<Rightarrow> int \<Rightarrow> (group \<Rightarrow> group) \<Rightarrow> adminState \<Rightarrow> adminState" where
  "updGroup zoneID i f S = S\<lparr>as_apartment := updZone (as_apartment S) zoneID (\<lambda>z. z\<lparr>z_groups := updFirst (\<lambda>g. g_id g = i) f (z_groups z)\<rparr>)\<rparr>"

definition applyType :: "ApplicationType \<Rightarrow> group \<Rightarrow> group" where
  "applyType at g = fst (setApplicationType g at)"

definition applyConfiguration :: "u32 \<Rightarrow> group \<Rightarrow> group" where
  "applyConfiguration c g = g\<lparr>g_behavior := setConfiguration (g_behavior g) c\<rparr>"

definition reservedGroup :: "int \<Rightarrow> bool" where
  "reservedGroup i \<longleftrightarrow> isDefaultGroup i \<or> isGlobalAppDsGroup i"

definition refuse :: "string \<Rightarrow> int \<Rightarrow> string \<Rightarrow> (adminState, adminCmd) step" where
  "refuse pre i post = failRun (StdRuntime (pre @ print_int i @ post))"

text \<open>\<^verbatim>\<open>Zone::getGroup\<close> does not throw: it gives a null pointer when the zone has no such group.\<close>

definition zoneGetGroup :: "adminState \<Rightarrow> int \<Rightarrow> int \<Rightarrow> serror + group option" where
  "zoneGetGroup S zoneID i = Inr (case tryGetZone (as_apartment S) zoneID of None \<Rightarrow> None | Some z \<Rightarrow> zoneGroup z i)"

definition addGroupStep :: "int \<Rightarrow> group \<Rightarrow> (adminState, adminCmd) step" where
  "addGroupStep zoneID g = reading (\<lambda>S.
     case getZone (as_apartment S) zoneID of
       Inl e \<Rightarrow> failRun e
     | Inr z \<Rightarrow>
         (case addGroup z g of
            Inl e \<Rightarrow> failRun e
          | Inr z' \<Rightarrow> change (\<lambda>S. S\<lparr>as_apartment := updZone (as_apartment S) zoneID (\<lambda>_. z')\<rparr>)))"

section \<open>Creating and removing\<close>

text \<open>
  The group is looked up inside a \<^verbatim>\<open>try\<close>: if that returns an exception says that the group exists, and
  if it throws \<^verbatim>\<open>ItemNotFoundException\<close> the group is made.
\<close>

definition createUnlessFound :: "adminReply \<Rightarrow> int \<Rightarrow> group \<Rightarrow> ApplicationType \<Rightarrow> u32 \<Rightarrow> string \<Rightarrow> (adminState, adminCmd) step" where
  "createUnlessFound bus zoneID g at config name = reading (\<lambda>S.
     case zoneGetGroup S zoneID (g_id g) of
       Inr _ \<Rightarrow> refuse ''Group id '' (g_id g) '' already exists''
     | Inl (ItemNotFound _) \<Rightarrow> runAll [addGroupStep zoneID g, send bus (BusCreateGroup zoneID (g_id g) at config name)]
     | Inl e \<Rightarrow> failRun e)"

definition createCluster :: "int \<Rightarrow> ApplicationType \<Rightarrow> u32 \<Rightarrow> string \<Rightarrow> (adminState, adminCmd) step" where
  "createCluster i at config name = reading (\<lambda>S.
     case getCluster (as_apartment S) i of
       Inl (ItemNotFound _) \<Rightarrow> okRun
     | Inl e \<Rightarrow> failRun e
     | Inr _ \<Rightarrow> runAll [change (updGroup 0 i (\<lambda>g. applyType at (g\<lparr>g_name := name\<rparr>))), push (BusCreateCluster i at config name)])"

definition createGroup :: "adminReply \<Rightarrow> int \<Rightarrow> int \<Rightarrow> ApplicationType \<Rightarrow> u32 \<Rightarrow> string \<Rightarrow> (adminState, adminCmd) step" where
  "createGroup bus zoneID i at config name =
     (if reservedGroup i then refuse ''Group with id '' i '' is reserved''
      else if isAppUserGroup i then
        (if zoneID \<noteq> 0 then refuse ''Group with id '' i '' only allowed in Zone 0''
         else createCluster i at config name)
      else if isZoneUserGroup i then createUnlessFound bus zoneID (newGroup i zoneID) at config name
      else if isGlobalAppUserGroup i then
        (if zoneID \<noteq> 0 then refuse ''Group with id '' i '' only allowed in Zone 0''
         else createUnlessFound bus zoneID (applyType at ((newGroup i zoneID)\<lparr>g_name := name\<rparr>)) at config name)
      else refuse ''Create group: id '' i '' too large'')"

text \<open>The zone removes its node for the group, whose number it asks the group for.\<close>

definition zoneRemoveGroup :: "int \<Rightarrow> group option \<Rightarrow> (adminState, adminCmd) step" where
  "zoneRemoveGroup zoneID pGroup = reading (\<lambda>S.
     case pGroup of
       None \<Rightarrow> if as_published S then failRun NullPointer else okRun
     | Some g \<Rightarrow> change (\<lambda>S. S\<lparr>as_apartment := updZone (as_apartment S) zoneID (\<lambda>z. removeGroup z g)\<rparr>))"

definition removeFoundGroup :: "int \<Rightarrow> int \<Rightarrow> (adminState, adminCmd) step" where
  "removeFoundGroup zoneID i = reading (\<lambda>S.
     case zoneGetGroup S zoneID i of
       Inl (ItemNotFound _) \<Rightarrow> refuse ''Group id '' i '' does not exist''
     | Inl e \<Rightarrow> failRun e
     | Inr pGroup \<Rightarrow> runAll [zoneRemoveGroup zoneID pGroup, push (BusRemoveGroup zoneID i)])"

definition removeClusterGroup :: "int \<Rightarrow> (adminState, adminCmd) step" where
  "removeClusterGroup i = reading (\<lambda>S.
     case getCluster (as_apartment S) i of
       Inl (ItemNotFound _) \<Rightarrow> refuse ''Remove group: id '' i '' does not exist''
     | Inl e \<Rightarrow> failRun e
     | Inr _ \<Rightarrow>
         if as_locked S i then failRun (StdRuntime ''The group is locked and cannot be modified'')
         else runAll [change (updGroup 0 i resetCluster), change (\<lambda>S. S\<lparr>as_locked := (as_locked S)(i := False)\<rparr>), push (BusRemoveCluster i)])"

definition removeGroupByID :: "int \<Rightarrow> int \<Rightarrow> (adminState, adminCmd) step" where
  "removeGroupByID zoneID i =
     (if reservedGroup i then refuse ''Group with id '' i '' is reserved''
      else if isAppUserGroup i then
        (if zoneID \<noteq> 0 then refuse ''Group with id '' i '' only allowed in Zone 0'' else removeClusterGroup i)
      else if isZoneUserGroup i then removeFoundGroup zoneID i
      else if isGlobalAppUserGroup i then
        (if zoneID \<noteq> 0 then refuse ''Group with id '' i '' only allowed in Zone 0'' else removeFoundGroup zoneID i)
      else refuse ''Remove group: id '' i '' not found'')"

section \<open>Changing\<close>

text \<open>The group is one of the zone \<open>zoneID\<close>; the cluster is a group of zone 0.\<close>

definition groupSetName :: "adminReply \<Rightarrow> int \<Rightarrow> int \<Rightarrow> string \<Rightarrow> (adminState, adminCmd) step" where
  "groupSetName bus zoneID i name =
     (if reservedGroup i then refuse ''Group with id '' i '' is reserved''
      else if isAppUserGroup i \<or> isZoneUserGroup i \<or> isGlobalAppUserGroup i then
        runAll [change (updGroup zoneID i (\<lambda>g. g\<lparr>g_name := name\<rparr>)), send bus (BusGroupSetName zoneID i name)]
      else refuse ''Rename group: id '' i '' too large'')"

definition clusterSetName :: "adminReply \<Rightarrow> int \<Rightarrow> string \<Rightarrow> (adminState, adminCmd) step" where
  "clusterSetName bus i name =
     (if isAppUserGroup i
      then runAll [change (updGroup 0 i (\<lambda>g. g\<lparr>g_name := name\<rparr>)), send bus (BusClusterSetName i name)]
      else refuse ''Rename cluster: id '' i '' not a cluster'')"

definition clusterSetApplication :: "adminReply \<Rightarrow> int \<Rightarrow> ApplicationType \<Rightarrow> u32 \<Rightarrow> (adminState, adminCmd) step" where
  "clusterSetApplication bus i at config =
     (if isAppUserGroup i then reading (\<lambda>S.
        if as_locked S i then failRun (StdRuntime ''The group is locked and cannot be modified'')
        else runAll [change (updGroup 0 i (\<lambda>g. applyConfiguration config (applyType at g))),
                     send bus (BusClusterSetApplication i at config)])
      else refuse ''clusterSetApplication cluster: id '' i '' not a cluster'')"

definition clusterSetConfigurationLock :: "adminReply \<Rightarrow> int \<Rightarrow> bool \<Rightarrow> (adminState, adminCmd) step" where
  "clusterSetConfigurationLock bus i b =
     (if isAppUserGroup i
      then runAll [change (\<lambda>S. S\<lparr>as_locked := (as_locked S)(i := b)\<rparr>), send bus (BusClusterSetConfigurationLock i b)]
      else refuse ''set cluster lock: id '' i '' not a cluster'')"

definition groupSetApplication :: "adminReply \<Rightarrow> int \<Rightarrow> group \<Rightarrow> ApplicationType \<Rightarrow> u32 \<Rightarrow> (adminState, adminCmd) step" where
  "groupSetApplication bus zoneID grp at config =
     (let i = g_id grp in
      if reservedGroup i \<and> g_applicationType grp \<noteq> at then refuse ''Group with id '' i '' cannot be modified''
      else if isAppUserGroup i then reading (\<lambda>S.
        case getCluster (as_apartment S) i of
          Inl e \<Rightarrow> failRun e
        | Inr _ \<Rightarrow> clusterSetApplication bus i at config)
      else if isValidGroup i then
        runAll [change (updGroup zoneID i (\<lambda>g. applyConfiguration config (applyType at g))),
                send bus (BusGroupSetApplication zoneID i at config)]
      else refuse ''groupSetApplication group: id '' i '' not valid'')"

definition sceneSetName :: "adminReply \<Rightarrow> int \<Rightarrow> int \<Rightarrow> int \<Rightarrow> string \<Rightarrow> (adminState, adminCmd) step" where
  "sceneSetName bus zoneID i scene name = runAll [
     change (\<lambda>S. S\<lparr>as_sceneNames := (as_sceneNames S)((zoneID, i) := (as_sceneNames S (zoneID, i))(scene mod 256 \<mapsto> name))\<rparr>),
     send bus (BusSceneSetName zoneID i scene name),
     push (SceneNameChanged zoneID i scene name)]"

definition groupSceneName :: "adminState \<Rightarrow> int \<Rightarrow> int \<Rightarrow> int \<Rightarrow> string" where
  "groupSceneName S zoneID i scene = (case as_sceneNames S (zoneID, i) (scene mod 256) of None \<Rightarrow> [] | Some n \<Rightarrow> n)"

section \<open>Groups made from sets\<close>

text \<open>Each device is changed in the model, then its meter is told.\<close>

fun memberLoop :: "adminReply \<Rightarrow> (device \<Rightarrow> device) \<Rightarrow> (device \<Rightarrow> adminCmd) \<Rightarrow> dset \<Rightarrow> (adminState, adminCmd) step" where
  "memberLoop bus f command [] s = okRun s"
| "memberLoop bus f command (r # rs) s =
     (case getDeviceByDSID (as_apartment (fst s)) r of
        Inl e \<Rightarrow> failRun e s
      | Inr d \<Rightarrow> thenRun
          (runAll [change (\<lambda>S. S\<lparr>as_apartment := updDevice (as_apartment S) r f\<rparr>), send bus (command d)] s)
          (memberLoop bus f command rs))"

definition joinAll :: "adminReply \<Rightarrow> int \<Rightarrow> dset \<Rightarrow> (adminState, adminCmd) step" where
  "joinAll bus i = memberLoop bus (\<lambda>d. addToGroup d i) (\<lambda>d. BusMemberAdd (d_dsMeterDSID d) i (d_shortAddress d))"

definition quitAll :: "adminReply \<Rightarrow> int \<Rightarrow> dset \<Rightarrow> (adminState, adminCmd) step" where
  "quitAll bus i = memberLoop bus (\<lambda>d. removeFromGroup d i) (\<lambda>d. BusMemberRemove (d_dsMeterDSID d) i (d_shortAddress d))"

definition persistSetAs :: "adminReply \<Rightarrow> dset \<Rightarrow> string \<Rightarrow> int \<Rightarrow> (adminState, adminCmd) step" where
  "persistSetAs bus devices original i = runAll [
     reading (\<lambda>S. case getGroup (as_apartment S) i of
         Inr _ \<Rightarrow> okRun
       | Inl (ItemNotFound _) \<Rightarrow> runAll [
           addGroupStep 0 (newGroup i 0),
           send bus (BusCreateGroup 0 i AT_None 0 []),
           change (\<lambda>S. S\<lparr>as_sets := (as_sets S)(i := original)\<rparr>)]
       | Inl e \<Rightarrow> failRun e),
     joinAll bus i devices]"

text \<open>The first number for which looking the group up throws; \<open>None\<close> is the result -1.\<close>

definition freeUserGroup :: "apartment \<Rightarrow> int option" where
  "freeUserGroup A =
     find (\<lambda>i. case getGroup A i of Inl (ItemNotFound _) \<Rightarrow> True | _ \<Rightarrow> False) [GroupIDUserGroupStart..GroupIDUserGroupEnd]"

definition persistSet :: "adminReply \<Rightarrow> dset \<Rightarrow> string \<Rightarrow> (adminState, adminCmd) step" where
  "persistSet bus devices original = reading (\<lambda>S.
     case freeUserGroup (as_apartment S) of None \<Rightarrow> okRun | Some i \<Rightarrow> persistSetAs bus devices original i)"

definition unpersistSet :: "adminReply \<Rightarrow> string \<Rightarrow> (adminState, adminCmd) step" where
  "unpersistSet bus description = reading (\<lambda>S.
     case getZone (as_apartment S) 0 of
       Inl e \<Rightarrow> failRun e
     | Inr z \<Rightarrow>
         (case find (\<lambda>g. as_sets S (g_id g) = description) (z_groups z) of
            None \<Rightarrow> okRun
          | Some g \<Rightarrow>
              (case groupDevices (as_apartment S) g of
                 Inl e \<Rightarrow> failRun e
               | Inr devs \<Rightarrow> runAll [
                   quitAll bus (g_id g) devs,
                   send bus (BusRemoveGroup (g_zoneID g) (g_id g)),
                   zoneRemoveGroup 0 (Some g)])))"

end
