(* ===== verification/Admin_Laws.thy ===== *)
theory Admin_Laws
  imports Group_Admin
begin

text \<open>
  Laws of the administration of groups: creating a group of users never succeeds, a locked cluster cannot
  be removed or given another application, and a group that was made from a set is taken back without a
  trace.
\<close>

section \<open>Refusals\<close>

lemma user_groups: "isZoneUserGroup i \<or> isGlobalAppUserGroup i \<Longrightarrow> \<not> reservedGroup i \<and> \<not> isAppUserGroup i"
  by (auto simp: isZoneUserGroup_def isGlobalAppUserGroup_def reservedGroup_def isDefaultGroup_def isGlobalAppDsGroup_def
      isAppUserGroup_def GroupIDYellow_def GroupIDStandardMax_def GroupIDControlTemperature_def GroupIDGlobalAppDsMin_def
      GroupIDGlobalAppDsMax_def GroupIDAppUserMin_def GroupIDAppUserMax_def GroupIDUserGroupStart_def GroupIDUserGroupEnd_def
      GroupIDGlobalAppUserMin_def GroupIDGlobalAppUserMax_def)

text \<open>
  Creating a user group of a zone, or one of the apartment, always throws that the group exists, whether
  it does or not: the code waits for an exception of a lookup that gives a null pointer instead.
\<close>

theorem create_refused:
  assumes "isZoneUserGroup i \<or> isGlobalAppUserGroup i \<and> zoneID = 0"
  shows "createGroup bus zoneID i at config name (S, cs) =
    (S, cs, Some (StdRuntime (''Group id '' @ print_int i @ '' already exists'')))"
proof -
  have "g_id (applyType at ((newGroup i zoneID)\<lparr>g_name := name\<rparr>)) = i" for zoneID
    by (simp add: applyType_def setApplicationType_def newGroup_def Let_def split: ApplicationType.split)
  then show ?thesis
    using assms user_groups [of i]
    by (auto simp: createGroup_def createUnlessFound_def zoneGetGroup_def refuse_def newGroup_def)
qed

theorem create_refused_witness:
  "createGroup (\<lambda>_. None) 5 40 AT_Lights 0 ''mine''
     (\<lparr>as_apartment = \<lparr>a_devices = [], a_zones = [newZone 0, newZone 5], a_dsMeters = []\<rparr>, as_locked = (\<lambda>_. False), as_sets = (\<lambda>_. []),
       as_sceneNames = (\<lambda>_. Map.empty), as_published = True\<rparr>, []) =
   (\<lparr>as_apartment = \<lparr>a_devices = [], a_zones = [newZone 0, newZone 5], a_dsMeters = []\<rparr>, as_locked = (\<lambda>_. False), as_sets = (\<lambda>_. []),
       as_sceneNames = (\<lambda>_. Map.empty), as_published = True\<rparr>, [], Some (StdRuntime (''Group id '' @ print_int 40 @ '' already exists'')))"
  by (rule create_refused) (simp add: isZoneUserGroup_def GroupIDUserGroupStart_def GroupIDUserGroupEnd_def GroupIDAppUserMax_def)

text \<open>
  A cluster whose configuration is locked cannot be removed or given another application, directly or as
  a group: an exception says so, nothing changes and no command is sent.
\<close>

theorem locked_cluster_kept:
  assumes "isAppUserGroup i" and "as_locked S i" and "getCluster (as_apartment S) i = Inr g" and "g_id grp = i"
  shows "(\<exists>e. removeGroupByID 0 i (S, cs) = (S, cs, Some e)) \<and>
    (\<exists>e. clusterSetApplication bus i at config (S, cs) = (S, cs, Some e)) \<and>
    (\<exists>e. groupSetApplication bus zoneID grp at config (S, cs) = (S, cs, Some e))"
proof -
  have "\<not> reservedGroup i"
    using assms(1) by (auto simp: reservedGroup_def isDefaultGroup_def isGlobalAppDsGroup_def isAppUserGroup_def
      GroupIDYellow_def GroupIDStandardMax_def GroupIDControlTemperature_def GroupIDGlobalAppDsMin_def
      GroupIDGlobalAppDsMax_def GroupIDAppUserMin_def GroupIDAppUserMax_def)
  then show ?thesis
    using assms by (simp add: removeGroupByID_def removeClusterGroup_def clusterSetApplication_def groupSetApplication_def Let_def)
qed

definition lockedExample :: adminState where
  "lockedExample = \<lparr>as_apartment = \<lparr>a_devices = [], a_zones = [(newZone 0)\<lparr>z_groups := [newCluster 16]\<rparr>], a_dsMeters = []\<rparr>,
     as_locked = (\<lambda>i. i = 16), as_sets = (\<lambda>_. []), as_sceneNames = (\<lambda>_. Map.empty), as_published = True\<rparr>"

theorem locked_cluster_kept_witness:
  "(\<exists>e. removeGroupByID 0 16 (lockedExample, []) = (lockedExample, [], Some e)) \<and>
    (\<exists>e. clusterSetApplication (\<lambda>_. None) 16 AT_Lights 0 (lockedExample, []) = (lockedExample, [], Some e)) \<and>
    (\<exists>e. groupSetApplication (\<lambda>_. None) 0 (newCluster 16) AT_Lights 0 (lockedExample, []) = (lockedExample, [], Some e))"
  by (rule locked_cluster_kept [where g = "newCluster 16"])
    (simp_all add: lockedExample_def getCluster_def getGroup_def getZone_def tryGetZone_def newZone_def zoneGroup_def newCluster_def newGroup_def
      isAppUserGroup_def GroupIDAppUserMin_def GroupIDAppUserMax_def)

section \<open>Groups made from sets\<close>

definition withMembers :: "dset \<Rightarrow> (device \<Rightarrow> device) \<Rightarrow> apartment \<Rightarrow> apartment" where
  "withMembers D f A = A\<lparr>a_devices := map (\<lambda>d. if d_dsid d \<in> set D then f d else d) (a_devices A)\<rparr>"

lemma member_lookup:
  assumes "\<And>d. d_dsid (f d) = d_dsid d"
  shows "tryGetDeviceByDSID (updDevice A r f) x = map_option (\<lambda>d. if x = r then f d else d) (tryGetDeviceByDSID A x)"
proof -
  have "find (\<lambda>d. d_dsid d = x) (map (\<lambda>d. if d_dsid d = r then f d else d) ds) =
      map_option (\<lambda>d. if x = r then f d else d) (find (\<lambda>d. d_dsid d = x) ds)" for ds
    by (induction ds) (auto simp: assms)
  then show ?thesis by (simp add: tryGetDeviceByDSID_def updDevice_def)
qed

lemma known_upd: "(\<And>d. d_dsid (f d) = d_dsid d) \<Longrightarrow> known (updDevice A r f) D = known A D"
  by (simp add: known_def member_lookup)

lemma withMembers_cons:
  "r \<notin> set D \<Longrightarrow> (\<And>d. d_dsid (f d) = d_dsid d) \<Longrightarrow> withMembers D f (updDevice A r f) = withMembers (r # D) f A"
  by (auto simp: withMembers_def updDevice_def)

lemma memberLoop_result:
  assumes "\<And>d. d_dsid (f d) = d_dsid d"
  shows "known (as_apartment S) D \<Longrightarrow> distinct D \<Longrightarrow>
     \<exists>cs'. memberLoop (\<lambda>_. None) f command D (S, cs) = (S\<lparr>as_apartment := withMembers D f (as_apartment S)\<rparr>, cs', None)"
proof (induction D arbitrary: S cs)
  case Nil
  then show ?case by (simp add: withMembers_def)
next
  case (Cons r D)
  let ?S = "S\<lparr>as_apartment := updDevice (as_apartment S) r f\<rparr>"
  have "known (as_apartment ?S) D" using Cons.prems(1) known_upd [of f, OF assms] by (simp add: known_def)
  then obtain cs' where "memberLoop (\<lambda>_. None) f command D (?S, cs @ [command (dev (as_apartment S) r)]) =
      (?S\<lparr>as_apartment := withMembers D f (as_apartment ?S)\<rparr>, cs', None)"
    using Cons.IH [of ?S] Cons.prems(2) by auto
  then show ?case
    using Cons.prems getDevice_known [of "as_apartment S" r] withMembers_cons [of r D f, OF _ assms]
    by (simp add: known_def)
qed

lemma group_dsid: "d_dsid (addToGroup d i) = d_dsid d" "d_dsid (removeFromGroup d i) = d_dsid d"
  by (simp_all add: addToGroup_def removeFromGroup_def)

lemma joinAll_result:
  assumes "known (as_apartment S) D" and "distinct D"
  shows "\<exists>cs'. joinAll (\<lambda>_. None) i D (S, cs) = (S\<lparr>as_apartment := withMembers D (\<lambda>d. addToGroup d i) (as_apartment S)\<rparr>, cs', None)"
  unfolding joinAll_def by (rule memberLoop_result [OF group_dsid(1) assms])

lemma quitAll_result:
  assumes "known (as_apartment S) D" and "distinct D"
  shows "\<exists>cs'. quitAll (\<lambda>_. None) i D (S, cs) = (S\<lparr>as_apartment := withMembers D (\<lambda>d. removeFromGroup d i) (as_apartment S)\<rparr>, cs', None)"
  unfolding quitAll_def by (rule memberLoop_result [OF group_dsid(2) assms])

lemma find_map_dsid:
  assumes "\<And>d. d_dsid (f d) = d_dsid d"
  shows "find (\<lambda>d. d_dsid d = x) (map f ds) = map_option f (find (\<lambda>d. d_dsid d = x) ds)"
  by (induction ds) (auto simp: assms)

lemma withMembers_lookup:
  assumes "\<And>d. d_dsid (f d) = d_dsid d"
  shows "tryGetDeviceByDSID (withMembers D f A) x = map_option (\<lambda>d. if x \<in> set D then f d else d) (tryGetDeviceByDSID A x)"
proof -
  have "tryGetDeviceByDSID (withMembers D f A) x = map_option (\<lambda>d. if d_dsid d \<in> set D then f d else d) (tryGetDeviceByDSID A x)"
    unfolding withMembers_def tryGetDeviceByDSID_def using assms by (simp add: find_map_dsid [of "\<lambda>d. if d_dsid d \<in> set D then f d else d"])
  moreover have "d_dsid d = x" if "tryGetDeviceByDSID A x = Some d" for d using tryGet_dsid [OF that] by simp
  ultimately show ?thesis by (cases "tryGetDeviceByDSID A x") auto
qed

lemma join_quit:
  assumes "isValidGroup i" and "\<forall>d \<in> set (a_devices A). i \<notin> set (d_groupIds d)" and "set E = set D"
  shows "withMembers E (\<lambda>d. removeFromGroup d i) (withMembers D (\<lambda>d. addToGroup d i) A) = A"
proof -
  have "removeFromGroup (addToGroup d i) i = d" if "d \<in> set (a_devices A)" for d
    using that assms(1, 2) by (simp add: addToGroup_def removeFromGroup_def remove1_append)
  then have "map (\<lambda>d. if d_dsid d \<in> set E then removeFromGroup d i else d) (map (\<lambda>d. if d_dsid d \<in> set D then addToGroup d i else d) (a_devices A)) =
      a_devices A"
    by (auto simp: assms(3) group_dsid intro!: map_idI)
  then show ?thesis by (simp add: withMembers_def)
qed

lemma updZone_get: "tryGetZone A i = Some z \<Longrightarrow> z_id z' = i \<Longrightarrow> tryGetZone (updZone A i (\<lambda>_. z')) i = Some z'"
proof -
  assume a: "tryGetZone A i = Some z" "z_id z' = i"
  have "find (\<lambda>z. z_id z = i) zs = Some z \<Longrightarrow> find (\<lambda>z. z_id z = i) (map (\<lambda>z. if z_id z = i then z' else z) zs) = Some z'" for zs
    by (induction zs) (auto simp: a(2))
  then show ?thesis using a(1) by (simp add: tryGetZone_def updZone_def)
qed

lemma updZone_back:
  assumes "tryGetZone A i = Some z" and "distinct (map z_id (a_zones A))" and "z_id z' = i" and "f z' = z"
  shows "updZone (updZone A i (\<lambda>_. z')) i f = A"
proof -
  have only: "x = z" if "x \<in> set (a_zones A)" "z_id x = i" for x
    using find_key [of z_id "a_zones A" x] that assms(1, 2) by (simp add: tryGetZone_def)
  have "(if z_id (if z_id x = i then z' else x) = i then f (if z_id x = i then z' else x) else (if z_id x = i then z' else x)) = x"
    if "x \<in> set (a_zones A)" for x
    using only [OF that] assms(3, 4) by auto
  then have "map (\<lambda>x. if z_id x = i then f x else x) (map (\<lambda>x. if z_id x = i then z' else x) (a_zones A)) = a_zones A"
    unfolding map_map o_def by (intro map_idI) blast
  then show ?thesis by (simp add: updZone_def)
qed

lemma find_last: "find P xs = None \<Longrightarrow> P y \<Longrightarrow> find P (xs @ [y]) = Some y"
  by (induction xs) (auto split: if_splits)

lemma withMembers_zones [simp]: "tryGetZone (withMembers D f A) i = tryGetZone A i"
  by (simp add: withMembers_def tryGetZone_def)

lemma updZone_devices [simp]: "tryGetDeviceByDSID (updZone A i f) r = tryGetDeviceByDSID A r" "a_devices (updZone A i f) = a_devices A"
  by (simp_all add: updZone_def tryGetDeviceByDSID_def)

definition withGroup0 :: "int \<Rightarrow> zone \<Rightarrow> apartment \<Rightarrow> apartment" where
  "withGroup0 i z0 A = updZone A 0 (\<lambda>_. z0\<lparr>z_groups := z_groups z0 @ [newGroup i 0]\<rparr>)"

definition grouped :: "int \<Rightarrow> zone \<Rightarrow> dset \<Rightarrow> apartment \<Rightarrow> apartment" where
  "grouped i z0 D A = withMembers D (\<lambda>d. addToGroup d i) (withGroup0 i z0 A)"

lemma newGroup_fields [simp]: "g_id (newGroup i zoneID) = i" "g_zoneID (newGroup i zoneID) = zoneID"
  by (simp_all add: newGroup_def)

lemma getZone0: "getZone A 0 = Inr z0 \<Longrightarrow> tryGetZone A 0 = Some z0" "getZone A 0 = Inr z0 \<Longrightarrow> z_id z0 = 0"
  by (auto simp: getZone_def tryGetZone_def find_Some_iff split: option.splits)

lemma known_withGroup0 [simp]: "known (withGroup0 i z0 A) D = known A D"
  by (simp add: known_def withGroup0_def)

lemma known_grouped [simp]: "known (grouped i z0 D A) E = known A E"
  using withMembers_lookup [of "\<lambda>d. addToGroup d i" D "withGroup0 i z0 A", OF group_dsid(1)]
  by (simp add: known_def grouped_def withGroup0_def)

lemma grouped_zone: "getZone A 0 = Inr z0 \<Longrightarrow> getZone (grouped i z0 D A) 0 = Inr (z0\<lparr>z_groups := z_groups z0 @ [newGroup i 0]\<rparr>)"
  using updZone_get [of A 0 z0 "z0\<lparr>z_groups := z_groups z0 @ [newGroup i 0]\<rparr>"] getZone0 [of A z0]
  by (simp add: grouped_def getZone_def withGroup0_def)

lemma persist_run:
  assumes "getZone (as_apartment S) 0 = Inr z0" and "known (as_apartment S) D" and "distinct D"
    and "isZoneUserGroup i" and "zoneGroup z0 i = None"
  shows "\<exists>cs1. persistSetAs (\<lambda>_. None) D description i (S, cs) =
    (S\<lparr>as_apartment := grouped i z0 D (as_apartment S), as_sets := (as_sets S)(i := description)\<rparr>, cs1, None)"
proof -
  let ?S = "S\<lparr>as_apartment := withGroup0 i z0 (as_apartment S), as_sets := (as_sets S)(i := description)\<rparr>"
  have "addGroup z0 (newGroup i 0) = Inr (z0\<lparr>z_groups := z_groups z0 @ [newGroup i 0]\<rparr>)"
    using getZone0(2) [OF assms(1)] assms(4)
    by (simp add: addGroup_def isZoneUserGroup_def GroupIDUserGroupEnd_def GroupIDGlobalAppDsVentilation_def)
  moreover obtain cs1 where "joinAll (\<lambda>_. None) i D (?S, cs @ [BusCreateGroup 0 i AT_None 0 []]) =
      (?S\<lparr>as_apartment := grouped i z0 D (as_apartment S)\<rparr>, cs1, None)"
    using joinAll_result [of ?S D i "cs @ [BusCreateGroup 0 i AT_None 0 []]"] assms(2, 3) by (auto simp: grouped_def)
  moreover have "getGroup (as_apartment S) i = Inl (ItemNotFound (print_int i))" using assms(1, 5) by (simp add: getGroup_def)
  ultimately show ?thesis using assms(1) by (simp add: persistSetAs_def addGroupStep_def withGroup0_def)
qed

lemma grouped_member:
  assumes "known A [r]" and "isZoneUserGroup i" and "\<forall>d \<in> set (a_devices A). i \<notin> set (d_groupIds d)"
  shows "isInGroup (dev (grouped i z0 D A) r) i \<longleftrightarrow> r \<in> set D"
proof -
  obtain d where d: "tryGetDeviceByDSID A r = Some d" using assms(1) by (auto simp: known_def)
  then have "i \<notin> set (d_groupIds d)" using assms(3) by (auto simp: tryGetDeviceByDSID_def find_Some_iff)
  moreover have "tryGetDeviceByDSID (grouped i z0 D A) r = Some (if r \<in> set D then addToGroup d i else d)"
    using d withMembers_lookup [of "\<lambda>d. addToGroup d i" D "withGroup0 i z0 A", OF group_dsid(1)]
    by (simp add: grouped_def withGroup0_def)
  ultimately show ?thesis using assms(2)
    by (auto simp: dev_def isInGroup_def addToGroup_def isValidGroup_def isZoneUserGroup_def GroupIDUserGroupStart_def GroupIDAppUserMax_def)
qed

text \<open>
  C22: Making a group from a set and taking it back leaves the apartment as it was.  In between exactly the
  devices of the set are in the group, which is what its members are asked for by.
\<close>

theorem persist_roundtrip:
  assumes "getZone (as_apartment S) 0 = Inr z0" and "distinct (map z_id (a_zones (as_apartment S)))"
    and "known (as_apartment S) (z_devices z0)" and "distinct (z_devices z0)"
    and "isZoneUserGroup i" and "zoneGroup z0 i = None" and "\<forall>d \<in> set (a_devices (as_apartment S)). i \<notin> set (d_groupIds d)"
    and "set D \<subseteq> set (z_devices z0)" and "distinct D" and "\<forall>g \<in> set (z_groups z0). as_sets S (g_id g) \<noteq> description"
  shows "\<exists>S1 cs1 S2 cs2. persistSetAs (\<lambda>_. None) D description i (S, cs) = (S1, cs1, None) \<and>
    (\<forall>r \<in> set (z_devices z0). isInGroup (dev (as_apartment S1) r) i \<longleftrightarrow> r \<in> set D) \<and>
    unpersistSet (\<lambda>_. None) description (S1, cs1) = (S2, cs2, None) \<and> as_apartment S2 = as_apartment S"
proof -
  let ?A = "as_apartment S" let ?g = "newGroup i 0" let ?C = "grouped i z0 D ?A"
  let ?S1 = "S\<lparr>as_apartment := ?C, as_sets := (as_sets S)(i := description)\<rparr>"
  let ?E = "filter (\<lambda>r. r \<in> set D) (z_devices z0)"
  have D: "known ?A D" by (rule known_subset [OF assms(3, 8)])
  obtain cs1 where p: "persistSetAs (\<lambda>_. None) D description i (S, cs) = (?S1, cs1, None)"
    using persist_run [OF assms(1) D assms(9, 5, 6)] by blast
  have mem: "isInGroup (dev ?C r) i \<longleftrightarrow> r \<in> set D" if "r \<in> set (z_devices z0)" for r
    using grouped_member [OF _ assms(5, 7)] assms(3) that by (simp add: known_def)
  have others: "g_id x \<noteq> i" if "x \<in> set (z_groups z0)" for x
    using assms(6) that by (auto simp: zoneGroup_def find_None_iff)
  have "groupDevices ?C ?g = Inr ?E"
    using grouped_zone [OF assms(1)] assms(3, 4) mem by (simp add: groupDevices_def getByGroup_known cong: filter_cong)
  moreover have "find (\<lambda>g. as_sets ?S1 (g_id g) = description) (z_groups z0 @ [?g]) = Some ?g"
    using assms(10) others by (intro find_last) (auto simp: find_None_iff)
  moreover obtain cs2 where "quitAll (\<lambda>_. None) i ?E (?S1, cs1) = (?S1\<lparr>as_apartment := withGroup0 i z0 ?A\<rparr>, cs2, None)"
  proof -
    have "withMembers ?E (\<lambda>d. removeFromGroup d i) ?C = withGroup0 i z0 ?A"
      unfolding grouped_def using assms(5, 7, 8) by (intro join_quit) (auto simp: isValidGroup_def withGroup0_def)
    then show ?thesis
      using quitAll_result [of ?S1 ?E i cs1] assms(4) known_subset [OF assms(3), of ?E] that by auto
  qed
  moreover have "updZone (withGroup0 i z0 ?A) 0 (\<lambda>z. removeGroup z ?g) = ?A"
    unfolding withGroup0_def using others [of ?g] getZone0 [OF assms(1)]
    by (intro updZone_back [OF _ assms(2)]) (auto simp: removeGroup_def remove1_append)
  ultimately obtain S2 cs2 where "unpersistSet (\<lambda>_. None) description (?S1, cs1) = (S2, cs2, None) \<and> as_apartment S2 = ?A"
    using grouped_zone [OF assms(1)] by (simp add: unpersistSet_def zoneRemoveGroup_def)
  then show ?thesis using p mem by (intro exI [of _ ?S1] exI [of _ cs1] exI [of _ S2] exI [of _ cs2]) simp
qed

definition exampleAdmin :: adminState where
  "exampleAdmin = \<lparr>as_apartment = \<lparr>a_devices = [newDevice [7], newDevice [8]], a_zones = [(newZone 0)\<lparr>z_devices := [[7], [8]]\<rparr>], a_dsMeters = []\<rparr>,
     as_locked = (\<lambda>_. False), as_sets = (\<lambda>_. []), as_sceneNames = (\<lambda>_. Map.empty), as_published = True\<rparr>"

theorem persist_roundtrip_witness:
  "\<exists>S1 cs1 S2 cs2. persistSetAs (\<lambda>_. None) [[8]] ''set'' 40 (exampleAdmin, []) = (S1, cs1, None) \<and>
    (\<forall>r \<in> set (z_devices ((newZone 0)\<lparr>z_devices := [[7], [8]]\<rparr>)). isInGroup (dev (as_apartment S1) r) 40 \<longleftrightarrow> r \<in> set [[8]]) \<and>
    unpersistSet (\<lambda>_. None) ''set'' (S1, cs1) = (S2, cs2, None) \<and> as_apartment S2 = as_apartment exampleAdmin"
  by (rule persist_roundtrip)
    (simp_all add: exampleAdmin_def getZone_def tryGetZone_def newZone_def newDevice_def known_def tryGetDeviceByDSID_def
      isZoneUserGroup_def zoneGroup_def GroupIDUserGroupStart_def GroupIDUserGroupEnd_def GroupIDAppUserMax_def)

end
