(* ===== verification/Data_Types.thy ===== *)
theory Data_Types
  imports Dss_Prelude
begin

text \<open>
  Cardinal directions and classes of wind protection, \<^verbatim>\<open>src/src/model/data_types.cpp\<close>: their numbers, their
  texts and their parsers.  A number outside the enumeration, which a cast can give, has a constructor of
  its own.
\<close>

section \<open>Cardinal directions\<close>

datatype CardinalDirection =
    cd_none | cd_north | cd_north_east | cd_east | cd_south_east | cd_south | cd_south_west | cd_west | cd_north_west
  | cd_other int

fun CardinalDirection_value :: "CardinalDirection \<Rightarrow> int" where
  "CardinalDirection_value cd_none = 0"
| "CardinalDirection_value cd_north = 1"
| "CardinalDirection_value cd_north_east = 2"
| "CardinalDirection_value cd_east = 3"
| "CardinalDirection_value cd_south_east = 4"
| "CardinalDirection_value cd_south = 5"
| "CardinalDirection_value cd_south_west = 6"
| "CardinalDirection_value cd_west = 7"
| "CardinalDirection_value cd_north_west = 8"
| "CardinalDirection_value (cd_other i) = i"

definition validDirection :: "CardinalDirection \<Rightarrow> bool" where
  "validDirection d \<longleftrightarrow> 0 \<le> CardinalDirection_value d \<and> CardinalDirection_value d < 9"

fun directionToString :: "CardinalDirection \<Rightarrow> string" where
  "directionToString cd_north = ''north''"
| "directionToString cd_north_east = ''north east''"
| "directionToString cd_east = ''east''"
| "directionToString cd_south_east = ''south east''"
| "directionToString cd_south = ''south''"
| "directionToString cd_south_west = ''south west''"
| "directionToString cd_west = ''west''"
| "directionToString cd_north_west = ''north west''"
| "directionToString _ = ''none''"

fun directionToUIString :: "CardinalDirection \<Rightarrow> string" where
  "directionToUIString cd_north = ''North''"
| "directionToUIString cd_north_east = ''North-East''"
| "directionToUIString cd_east = ''East''"
| "directionToUIString cd_south_east = ''South-East''"
| "directionToUIString cd_south = ''South''"
| "directionToUIString cd_south_west = ''South-West''"
| "directionToUIString cd_west = ''West''"
| "directionToUIString cd_north_west = ''North-West''"
| "directionToUIString _ = ''none''"

text \<open>\<open>None\<close> is the result false.\<close>

definition parseCardinalDirection :: "string \<Rightarrow> CardinalDirection option" where
  "parseCardinalDirection s =
     (if s = ''none'' then Some cd_none
      else if s = ''north'' then Some cd_north
      else if s = ''north east'' then Some cd_north_east
      else if s = ''east'' then Some cd_east
      else if s = ''south east'' then Some cd_south_east
      else if s = ''south'' then Some cd_south
      else if s = ''south west'' then Some cd_south_west
      else if s = ''west'' then Some cd_west
      else if s = ''north west'' then Some cd_north_west
      else None)"

lemma parse_direction: "validDirection d \<Longrightarrow> (\<forall>i. d \<noteq> cd_other i) \<Longrightarrow> parseCardinalDirection (directionToString d) = Some d"
  by (cases d) (simp_all add: parseCardinalDirection_def)

section \<open>Wind protection\<close>

datatype WindProtectionClass =
    wpc_none | wpc_awning_class_1 | wpc_awning_class_2 | wpc_awning_class_3 | wpc_blind_class_1 | wpc_blind_class_2
  | wpc_blind_class_3 | wpc_blind_class_4 | wpc_blind_class_5 | wpc_blind_class_6 | wpc_other int

fun WindProtectionClass_value :: "WindProtectionClass \<Rightarrow> int" where
  "WindProtectionClass_value wpc_none = 0"
| "WindProtectionClass_value wpc_awning_class_1 = 1"
| "WindProtectionClass_value wpc_awning_class_2 = 2"
| "WindProtectionClass_value wpc_awning_class_3 = 3"
| "WindProtectionClass_value wpc_blind_class_1 = 4"
| "WindProtectionClass_value wpc_blind_class_2 = 5"
| "WindProtectionClass_value wpc_blind_class_3 = 6"
| "WindProtectionClass_value wpc_blind_class_4 = 7"
| "WindProtectionClass_value wpc_blind_class_5 = 8"
| "WindProtectionClass_value wpc_blind_class_6 = 9"
| "WindProtectionClass_value (wpc_other i) = i"

definition validProtection :: "WindProtectionClass \<Rightarrow> bool" where
  "validProtection c \<longleftrightarrow> 0 \<le> WindProtectionClass_value c \<and> WindProtectionClass_value c < 10"

fun protectionToUIString :: "WindProtectionClass \<Rightarrow> string" where
  "protectionToUIString wpc_awning_class_1 = ''Class 1 - 7.8m/s''"
| "protectionToUIString wpc_awning_class_2 = ''Class 2 - 10.6m/s''"
| "protectionToUIString wpc_awning_class_3 = ''Class 3 - 13.6m/s''"
| "protectionToUIString wpc_blind_class_1 = ''Class 1 - 9.0m/s''"
| "protectionToUIString wpc_blind_class_2 = ''Class 2 - 10.7m/s''"
| "protectionToUIString wpc_blind_class_3 = ''Class 3 - 12.8m/s''"
| "protectionToUIString wpc_blind_class_4 = ''Class 4 - 16.7/s''"
| "protectionToUIString wpc_blind_class_5 = ''Class 5 - 21.0m/s''"
| "protectionToUIString wpc_blind_class_6 = ''Class 6 - 25.6m/s''"
| "protectionToUIString _ = ''none''"

definition toProtection :: "int \<Rightarrow> WindProtectionClass" where
  "toProtection i =
     (case find (\<lambda>c. WindProtectionClass_value c = i)
         [wpc_none, wpc_awning_class_1, wpc_awning_class_2, wpc_awning_class_3, wpc_blind_class_1, wpc_blind_class_2,
          wpc_blind_class_3, wpc_blind_class_4, wpc_blind_class_5, wpc_blind_class_6] of
        Some c \<Rightarrow> c | None \<Rightarrow> wpc_other i)"

definition convertWindProtectionClass :: "u32 \<Rightarrow> WindProtectionClass option" where
  "convertWindProtectionClass c = (if 10 \<le> c then None else Some (toProtection (uint c)))"

definition getOutputChannelSize :: "int \<Rightarrow> nat" where
  "getOutputChannelSize t = (if t = 7 \<or> t = 8 then 1 else 0)"

lemma convert_protection:
  "convertWindProtectionClass c = Some w \<Longrightarrow> validProtection w \<and> WindProtectionClass_value w = uint c"
proof -
  assume "convertWindProtectionClass c = Some w"
  then have c: "c < 10" "w = toProtection (uint c)" by (auto simp: convertWindProtectionClass_def not_le split: if_splits)
  then have "uint c < 10" "0 \<le> uint c" by (simp_all add: word_less_def)
  then consider "uint c = 0" | "uint c = 1" | "uint c = 2" | "uint c = 3" | "uint c = 4" | "uint c = 5" | "uint c = 6"
    | "uint c = 7" | "uint c = 8" | "uint c = 9" by (atomize_elim) presburger
  then show ?thesis by cases (simp_all add: c(2) toProtection_def validProtection_def)
qed

end
