(* ===== verification/Auto_Cluster.thy ===== *)
theory Auto_Cluster
  imports Data_Types Group_Admin
begin

text \<open>
  The maintenance of automatic clusters, \<^verbatim>\<open>src/src/model/autoclustermaintenance.cpp\<close>: a cluster that is
  automatic and not locked belongs to one direction and one class of wind protection, and shades are put
  into the cluster they are configured for.  A pointer to a cluster is its number, a pointer to a device
  its identifier.  Every command goes to the bus inside a \<^verbatim>\<open>try\<close> that catches what the bus throws, so a
  command that fails only ends the \<^verbatim>\<open>try\<close>.
\<close>

section \<open>Data\<close>

text \<open>What \<^verbatim>\<open>Cluster\<close> adds to a group.\<close>

record clusterData =
  cl_location :: CardinalDirection
  cl_protection :: WindProtectionClass
  cl_floor :: int
  cl_lockedScenes :: "int list"
  cl_locked :: bool
  cl_automatic :: bool

record autoState =
  au_apartment :: apartment
  au_cluster :: "int \<Rightarrow> clusterData"
  au_direction :: "dsuid \<Rightarrow> CardinalDirection"
  au_protection :: "dsuid \<Rightarrow> WindProtectionClass"

datatype autoCmd =
    AutoAdd dsuid int u16
  | AutoRemove dsuid int u16
  | AutoSetName int string
  | AutoSetApplication int ApplicationType u32
  | AutoSetProperties int CardinalDirection int WindProtectionClass
  | AutoSetLockedScenes int "int list"

type_synonym autoBus = "autoCmd \<Rightarrow> serror option"
type_synonym autoStep = "(autoState, autoCmd) step"

definition newClusterData :: clusterData where
  "newClusterData = \<lparr>cl_location = cd_none, cl_protection = wpc_none, cl_floor = 0, cl_lockedScenes = [],
     cl_locked = False, cl_automatic = False\<rparr>"

definition groupOf :: "autoState \<Rightarrow> int \<Rightarrow> group" where
  "groupOf S i =
     (case tryGetZone (au_apartment S) 0 of
        None \<Rightarrow> newCluster i
      | Some z \<Rightarrow> (case zoneGroup z i of None \<Rightarrow> newCluster i | Some g \<Rightarrow> g))"

definition storeGroup :: "int \<Rightarrow> group \<Rightarrow> autoState \<Rightarrow> autoState" where
  "storeGroup i g S = S\<lparr>au_apartment := updZone (au_apartment S) 0 (\<lambda>z. z\<lparr>z_groups := updFirst (\<lambda>g. g_id g = i) (\<lambda>_. g) (z_groups z)\<rparr>)\<rparr>"

definition storeData :: "int \<Rightarrow> (clusterData \<Rightarrow> clusterData) \<Rightarrow> autoState \<Rightarrow> autoState" where
  "storeData i f S = S\<lparr>au_cluster := (au_cluster S)(i := f (au_cluster S i))\<rparr>"

definition onMember :: "dsuid \<Rightarrow> (device \<Rightarrow> device) \<Rightarrow> autoState \<Rightarrow> autoState" where
  "onMember r f S = S\<lparr>au_apartment := updDevice (au_apartment S) r f\<rparr>"

text \<open>The list of clusters is taken once; a pointer that is no cluster is null.\<close>

definition clusterIds :: "autoState \<Rightarrow> serror + int option list" where
  "clusterIds S = sbind (getClusters (au_apartment S)) (\<lambda>gs. Inr (map (map_option g_id) gs))"

definition withCluster :: "int option \<Rightarrow> (int \<Rightarrow> autoStep) \<Rightarrow> autoStep" where
  "withCluster p f = (case p of None \<Rightarrow> failRun NullPointer | Some i \<Rightarrow> f i)"

definition forClusters :: "(int \<Rightarrow> autoStep) \<Rightarrow> autoStep" where
  "forClusters f = reading (\<lambda>S. case clusterIds S of Inl e \<Rightarrow> failRun e | Inr ps \<Rightarrow> runAll (map (\<lambda>p. withCluster p f) ps))"

definition openCluster :: "int \<Rightarrow> autoState \<Rightarrow> bool" where
  "openCluster i S \<longleftrightarrow> cl_automatic (au_cluster S i) \<and> \<not> cl_locked (au_cluster S i)"

definition fits :: "autoState \<Rightarrow> dsuid \<Rightarrow> int \<Rightarrow> bool" where
  "fits S r i \<longleftrightarrow> cl_location (au_cluster S i) = au_direction S r \<and> cl_protection (au_cluster S i) = au_protection S r"

definition unconfigured :: "autoState \<Rightarrow> dsuid \<Rightarrow> bool" where
  "unconfigured S r \<longleftrightarrow> au_direction S r = cd_none \<and> au_protection S r = wpc_none"

section \<open>The bus\<close>

text \<open>The first command that fails ends the list.\<close>

fun sendCaught :: "autoBus \<Rightarrow> autoCmd list \<Rightarrow> autoStep" where
  "sendCaught bus [] s = okRun s"
| "sendCaught bus (c # cs) s =
     (case bus c of None \<Rightarrow> sendCaught bus cs (fst s, snd s @ [c]) | Some _ \<Rightarrow> (fst s, snd s @ [c], None))"

definition busAddToGroup :: "autoBus \<Rightarrow> dsuid \<Rightarrow> int \<Rightarrow> autoStep" where
  "busAddToGroup bus r i = reading (\<lambda>S. let d = dev (au_apartment S) r
     in sendCaught bus [AutoAdd (d_dsMeterDSID d) i (d_shortAddress d)])"

definition busRemoveFromGroup :: "autoBus \<Rightarrow> dsuid \<Rightarrow> int \<Rightarrow> autoStep" where
  "busRemoveFromGroup bus r i = reading (\<lambda>S. let d = dev (au_apartment S) r
     in sendCaught bus [AutoRemove (d_dsMeterDSID d) i (d_shortAddress d)])"

definition busUpdateCluster :: "autoBus \<Rightarrow> int \<Rightarrow> autoStep" where
  "busUpdateCluster bus i = reading (\<lambda>S. let g = groupOf S i; c = au_cluster S i
     in sendCaught bus
          [AutoSetName i (g_name g),
           AutoSetApplication i (g_applicationType g) (b_configuration (g_behavior g)),
           AutoSetProperties i (cl_location c) (cl_floor c) (cl_protection c),
           AutoSetLockedScenes i (cl_lockedScenes c)])"

section \<open>Removing and assigning\<close>

definition releaseStep :: "autoBus \<Rightarrow> int \<Rightarrow> autoStep" where
  "releaseStep bus i = reading (\<lambda>S.
     case releaseCluster (au_apartment S) (groupOf S i) of
       Inl e \<Rightarrow> failRun e
     | Inr (g, released) \<Rightarrow>
         if released then runAll [change (storeGroup i g), change (storeData i (\<lambda>_. newClusterData)), busUpdateCluster bus i]
         else okRun)"

definition removeEmptyAutomaticCluster :: "autoBus \<Rightarrow> autoStep" where
  "removeEmptyAutomaticCluster bus = forClusters (\<lambda>i. onlyIf (openCluster i) (releaseStep bus i))"

definition cleanupEmptyCluster :: "autoBus \<Rightarrow> autoStep" where
  "cleanupEmptyCluster bus = removeEmptyAutomaticCluster bus"

definition removeDeviceFromCluster :: "autoBus \<Rightarrow> dsuid \<Rightarrow> int \<Rightarrow> autoStep" where
  "removeDeviceFromCluster bus r i = runAll [
     change (onMember r (\<lambda>d. removeFromGroup d i)),
     busRemoveFromGroup bus r i,
     removeEmptyAutomaticCluster bus]"

definition assignDeviceToCluster :: "autoBus \<Rightarrow> dsuid \<Rightarrow> int \<Rightarrow> autoStep" where
  "assignDeviceToCluster bus r i = runAll [change (onMember r (\<lambda>d. addToGroup d i)), busAddToGroup bus r i]"

definition removeInvalidAssignments :: "autoBus \<Rightarrow> dsuid \<Rightarrow> autoStep" where
  "removeInvalidAssignments bus r = forClusters (\<lambda>i. onlyIf (openCluster i) (runAll [
     onlyIf (\<lambda>S. \<not> fits S r i) (removeDeviceFromCluster bus r i),
     onlyIf (\<lambda>S. unconfigured S r \<and> fits S r i) (removeDeviceFromCluster bus r i)]))"

section \<open>The assignments of a device\<close>

definition getUnlockedClusterAssignment :: "autoState \<Rightarrow> dsuid \<Rightarrow> serror + int list" where
  "getUnlockedClusterAssignment S r = sbind (clusterIds S) (\<lambda>ps.
     if None \<in> set ps then Inl NullPointer
     else Inr (filter (\<lambda>i. openCluster i S \<and> fits S r i \<and> isInGroup (dev (au_apartment S) r) i) (map the ps)))"

fun firstLocked :: "autoState \<Rightarrow> dsuid \<Rightarrow> int option list \<Rightarrow> serror + int" where
  "firstLocked S r [] = Inr 0"
| "firstLocked S r (None # ps) = Inl NullPointer"
| "firstLocked S r (Some i # ps) =
     (if cl_locked (au_cluster S i) \<and> cl_automatic (au_cluster S i) \<and> fits S r i \<and> isInGroup (dev (au_apartment S) r) i
      then Inr i else firstLocked S r ps)"

definition getFirstLockedClusterAssignment :: "autoState \<Rightarrow> dsuid \<Rightarrow> serror + int" where
  "getFirstLockedClusterAssignment S r = sbind (clusterIds S) (firstLocked S r)"

section \<open>The cluster for a configuration\<close>

fun findCluster :: "autoState \<Rightarrow> CardinalDirection \<Rightarrow> WindProtectionClass \<Rightarrow> int option list \<Rightarrow> serror + int option" where
  "findCluster S d w [] = Inr None"
| "findCluster S d w (None # ps) = Inl NullPointer"
| "findCluster S d w (Some i # ps) =
     (if g_applicationType (groupOf S i) \<noteq> AT_None \<and> cl_protection (au_cluster S i) = w \<and> cl_location (au_cluster S i) = d \<and>
         cl_automatic (au_cluster S i)
      then Inr (Some i) else findCluster S d w ps)"

definition clusterName :: "CardinalDirection \<Rightarrow> WindProtectionClass \<Rightarrow> string" where
  "clusterName d w = (if d = cd_none then protectionToUIString w else directionToUIString d @ '' - '' @ protectionToUIString w)"

definition setUpCluster :: "autoBus \<Rightarrow> int \<Rightarrow> CardinalDirection \<Rightarrow> WindProtectionClass \<Rightarrow> autoStep" where
  "setUpCluster bus i d w = runAll [
     change (storeData i (\<lambda>c. c\<lparr>cl_location := d, cl_protection := w\<rparr>)),
     change (\<lambda>S. storeGroup i ((fst (setApplicationType (groupOf S i) AT_Blinds))\<lparr>g_name := clusterName d w\<rparr>) S),
     change (storeData i (\<lambda>c. c\<lparr>cl_automatic := True\<rparr>)),
     busUpdateCluster bus i]"

text \<open>The rest of the caller is the last argument: it gets the cluster, or \<open>None\<close> when there is no free one.\<close>

definition findOrCreateCluster ::
  "autoBus \<Rightarrow> CardinalDirection \<Rightarrow> WindProtectionClass \<Rightarrow> (int option \<Rightarrow> autoStep) \<Rightarrow> autoStep" where
  "findOrCreateCluster bus d w rest = reading (\<lambda>S.
     case sbind (clusterIds S) (findCluster S d w) of
       Inl e \<Rightarrow> failRun e
     | Inr (Some i) \<Rightarrow> rest (Some i)
     | Inr None \<Rightarrow>
         (case getEmptyCluster (au_apartment S) of
            Inl e \<Rightarrow> failRun e
          | Inr None \<Rightarrow> rest None
          | Inr (Some g) \<Rightarrow> runAll [setUpCluster bus (g_id g) d w, rest (Some (g_id g))]))"

section \<open>The checks\<close>

text \<open>The device is assigned unless there is no cluster for it or that is locked.\<close>

definition assignIfOpen :: "autoBus \<Rightarrow> dsuid \<Rightarrow> int option \<Rightarrow> autoStep" where
  "assignIfOpen bus r p =
     (case p of
        None \<Rightarrow> okRun
      | Some i \<Rightarrow> onlyIf (\<lambda>S. \<not> cl_locked (au_cluster S i)) (assignDeviceToCluster bus r i))"

definition assignCluster :: "autoBus \<Rightarrow> dsuid \<Rightarrow> autoStep" where
  "assignCluster bus r = reading (\<lambda>S.
     case getFirstLockedClusterAssignment S r of
       Inl e \<Rightarrow> failRun e
     | Inr deviceAssignedInLockedCluster \<Rightarrow>
         (case getUnlockedClusterAssignment S r of
            Inl e \<Rightarrow> failRun e
          | Inr validClusters \<Rightarrow>
              if deviceAssignedInLockedCluster \<noteq> 0 then runAll (map (removeDeviceFromCluster bus r) validClusters)
              else if validClusters \<noteq> [] then
                (if unconfigured S r then runAll (map (removeDeviceFromCluster bus r) validClusters)
                 else runAll (map (removeDeviceFromCluster bus r) (filter (\<lambda>i. i \<noteq> hd validClusters) validClusters)))
              else if unconfigured S r then okRun
              else findOrCreateCluster bus (au_direction S r) (au_protection S r) (assignIfOpen bus r)))"

definition consistencyCheck :: "autoBus \<Rightarrow> dsuid \<Rightarrow> autoStep" where
  "consistencyCheck bus r = runAll [removeInvalidAssignments bus r, assignCluster bus r]"

definition globalConsistencyCheck :: "autoBus \<Rightarrow> autoStep" where
  "globalConsistencyCheck bus = reading (\<lambda>S.
     case getByColor (au_apartment S) (getDevices (au_apartment S)) CLASS_GR of
       Inl e \<Rightarrow> failRun e
     | Inr rs \<Rightarrow> runAll (map (\<lambda>r. reading (\<lambda>S. case getDeviceByDSID (au_apartment S) r of
                                        Inl e \<Rightarrow> failRun e | Inr _ \<Rightarrow> consistencyCheck bus r)) rs))"

section \<open>Joining\<close>

definition moveClusterDevices :: "autoBus \<Rightarrow> int \<Rightarrow> int \<Rightarrow> autoStep" where
  "moveClusterDevices bus source destination = reading (\<lambda>S.
     case groupDevices (au_apartment S) (groupOf S source) of
       Inl e \<Rightarrow> failRun e
     | Inr rs \<Rightarrow> runAll (map (\<lambda>r. runAll [removeDeviceFromCluster bus r source, assignDeviceToCluster bus r destination]) rs))"

definition identical :: "int \<Rightarrow> int \<Rightarrow> autoState \<Rightarrow> bool" where
  "identical i j S \<longleftrightarrow> cl_location (au_cluster S i) = cl_location (au_cluster S j) \<and>
     cl_protection (au_cluster S i) = cl_protection (au_cluster S j)"

text \<open>
  The outer loop runs up to the last but one, which is computed with unsigned numbers: without clusters
  it would read behind the end of the vector.
\<close>

fun joinPairs :: "autoBus \<Rightarrow> int option list \<Rightarrow> autoStep" where
  "joinPairs bus [] s = failRun NullPointer s"
| "joinPairs bus [p] s = okRun s"
| "joinPairs bus (p # q # ps) s = thenRun
     (withCluster p (\<lambda>i. onlyIf (openCluster i)
        (runAll (map (\<lambda>q. withCluster q (\<lambda>j. onlyIf (\<lambda>S. openCluster j S \<and> identical i j S) (moveClusterDevices bus j i))) (q # ps)))) s)
     (joinPairs bus (q # ps))"

definition joinIdenticalClusters :: "autoBus \<Rightarrow> autoStep" where
  "joinIdenticalClusters bus = reading (\<lambda>S. case clusterIds S of Inl e \<Rightarrow> failRun e | Inr ps \<Rightarrow> joinPairs bus ps)"

end
