(* ===== verification/Auto_Laws.thy ===== *)
theory Auto_Laws
  imports Auto_Cluster Structure_Laws
begin

text \<open>
  Laws of automatic clusters: after a check a shade is in no automatic cluster that does not fit its
  configuration and in at most one that does; a check of all shades gives that for all of them; and
  joining two clusters of one configuration loses the cluster when the first of them is empty.
\<close>

section \<open>What the operations look at\<close>

definition zone0 :: "autoState \<Rightarrow> zone" where
  "zone0 S = the (tryGetZone (au_apartment S) 0)"

definition clusters :: "autoState \<Rightarrow> int list" where
  "clusters S = map g_id (filter (\<lambda>g. isAppUserGroup (g_id g)) (z_groups (zone0 S)))"

definition house :: "autoState \<Rightarrow> dset" where "house S = z_devices (zone0 S)"

definition groupsOf :: "autoState \<Rightarrow> dsuid \<Rightarrow> int list" where "groupsOf S r = d_groupIds (dev (au_apartment S) r)"

definition used :: "autoState \<Rightarrow> int \<Rightarrow> bool" where "used S i \<longleftrightarrow> g_applicationType (groupOf S i) \<noteq> AT_None"

definition autoOK :: "autoState \<Rightarrow> bool" where
  "autoOK S \<longleftrightarrow> tryGetZone (au_apartment S) 0 \<noteq> None \<and> distinct (map g_id (z_groups (zone0 S))) \<and>
     (\<forall>g \<in> set (z_groups (zone0 S)). g_zoneID g = 0 \<and> (isAppUserGroup (g_id g) \<longrightarrow> g_isCluster g)) \<and>
     known (au_apartment S) (house S) \<and> distinct (house S) \<and>
     (\<forall>r. tryGetDeviceByDSID (au_apartment S) r \<noteq> None \<longrightarrow> distinct (groupsOf S r))"

lemma autoOKD:
  assumes "autoOK S"
  shows "tryGetZone (au_apartment S) 0 = Some (zone0 S)" "distinct (map g_id (z_groups (zone0 S)))" "known (au_apartment S) (house S)"
    "distinct (house S)" "tryGetDeviceByDSID (au_apartment S) r \<noteq> None \<Longrightarrow> distinct (groupsOf S r)" "g \<in> set (z_groups (zone0 S)) \<Longrightarrow> g_zoneID g = 0"
    "g \<in> set (z_groups (zone0 S)) \<Longrightarrow> isAppUserGroup (g_id g) \<Longrightarrow> g_isCluster g"
    "getZone (au_apartment S) 0 = Inr (zone0 S)"
  using assms by (auto simp: autoOK_def zone0_def getZone_def)

lemma clusters_user: "i \<in> set (clusters S) \<Longrightarrow> isAppUserGroup i \<and> isValidGroup i \<and> i \<noteq> 0"
  by (auto simp: clusters_def isAppUserGroup_def isValidGroup_iff GroupIDAppUserMin_def GroupIDAppUserMax_def)

lemma clusters_distinct: "autoOK S \<Longrightarrow> distinct (clusters S)"
  using autoOKD(2) [of S] by (auto simp: clusters_def distinct_map inj_on_def)

lemma clusterIds_ok: "autoOK S \<Longrightarrow> clusterIds S = Inr (map Some (clusters S))"
  using autoOKD(7, 8) [of S] by (auto simp: clusterIds_def getClusters_def clusters_def sbind_def)

lemma groupOf_ok:
  assumes "autoOK S" and "i \<in> set (clusters S)"
  shows "groupOf S i \<in> set (z_groups (zone0 S))" "g_id (groupOf S i) = i" "zoneGroup (zone0 S) i = Some (groupOf S i)"
proof -
  obtain g where "g \<in> set (z_groups (zone0 S))" "g_id g = i" using assms(2) by (auto simp: clusters_def)
  then have "zoneGroup (zone0 S) i = Some g" "groupOf S i = g"
    using find_key [OF autoOKD(2) [OF assms(1)]] autoOKD(1) [OF assms(1)] by (auto simp: zoneGroup_def groupOf_def)
  then show "groupOf S i \<in> set (z_groups (zone0 S))" "g_id (groupOf S i) = i" "zoneGroup (zone0 S) i = Some (groupOf S i)"
    using \<open>g \<in> set (z_groups (zone0 S))\<close> \<open>g_id g = i\<close> by simp_all
qed

lemma forClusters_yields:
  "autoOK S \<Longrightarrow> yields (runAll (map f (clusters S))) S Q \<Longrightarrow> yields (forClusters f) S Q"
  by (simp add: forClusters_def clusterIds_ok withCluster_def o_def)

lemma inGroup_cluster: "i \<in> set (clusters S) \<Longrightarrow> isInGroup (dev (au_apartment S) r) i \<longleftrightarrow> i \<in> set (groupsOf S r)"
  using clusters_user by (auto simp: isInGroup_def groupsOf_def)

text \<open>The members of a cluster, and releasing it.\<close>

definition clusterMembers :: "autoState \<Rightarrow> int \<Rightarrow> dset" where
  "clusterMembers S i = filter (\<lambda>r. i \<in> set (groupsOf S r)) (house S)"

lemma groupDevices_cluster:
  assumes "autoOK S" and "i \<in> set (clusters S)"
  shows "groupDevices (au_apartment S) (groupOf S i) = Inr (clusterMembers S i)"
  using groupOf_ok [OF assms] autoOKD [OF assms(1)] inGroup_cluster [OF assms(2)]
  by (simp add: groupDevices_def getByGroup_known house_def [symmetric] clusterMembers_def)

lemma release_ok:
  assumes "autoOK S" and "i \<in> set (clusters S)"
  shows "releaseCluster (au_apartment S) (groupOf S i) =
    Inr (if clusterMembers S i = [] then (resetCluster (groupOf S i), True) else (groupOf S i, False))"
  using groupDevices_cluster [OF assms] by (simp add: releaseCluster_def)

lemma yields_caught [simp]: "yields (sendCaught bus cs) S Q \<longleftrightarrow> Q S"
proof -
  have "\<exists>cs''. sendCaught bus cs (S, cs') = (S, cs'', None)" for cs'
    by (induction cs arbitrary: cs') (auto split: option.split)
  then show ?thesis unfolding yields_def by (metis Pair_inject)
qed

lemma bus_yields [simp]:
  "yields (busAddToGroup bus r i) S Q \<longleftrightarrow> Q S" "yields (busRemoveFromGroup bus r i) S Q \<longleftrightarrow> Q S"
  "yields (busUpdateCluster bus i) S Q \<longleftrightarrow> Q S"
  by (simp_all add: busAddToGroup_def busRemoveFromGroup_def busUpdateCluster_def Let_def)

section \<open>What changes leave alone\<close>

lemma find_updFirst:
  assumes "g_id g' = i"
  shows "find (\<lambda>g. g_id g = j) (updFirst (\<lambda>g. g_id g = i) (\<lambda>_. g') gs) =
    (if j = i \<and> i \<in> g_id ` set gs then Some g' else find (\<lambda>g. g_id g = j) gs)"
  using assms by (induction gs) auto

lemma updFirst_ids:
  "g_id g' = i \<Longrightarrow> map g_id (updFirst (\<lambda>g. g_id g = i) (\<lambda>_. g') gs) = map g_id gs"
  "set (updFirst (\<lambda>g. g_id g = i) (\<lambda>_. g') gs) \<subseteq> insert g' (set gs)"
  by (induction gs) auto

lemma user_ids: "map g_id (filter (\<lambda>g. P (g_id g)) gs) = filter P (map g_id gs)"
  by (induction gs) auto

lemma zone0_storeGroup:
  assumes "autoOK S"
  shows "tryGetZone (au_apartment (storeGroup i g' S)) 0 = Some (zone0 (storeGroup i g' S))"
    "zone0 (storeGroup i g' S) = (zone0 S)\<lparr>z_groups := updFirst (\<lambda>g. g_id g = i) (\<lambda>_. g') (z_groups (zone0 S))\<rparr>"
proof -
  have "find (\<lambda>z. z_id z = 0) (map (\<lambda>z. if z_id z = 0 then z\<lparr>z_groups := h (z_groups z)\<rparr> else z) zs) =
      map_option (\<lambda>z. z\<lparr>z_groups := h (z_groups z)\<rparr>) (find (\<lambda>z. z_id z = 0) zs)" for h zs
    by (induction zs) auto
  from this [of "updFirst (\<lambda>g. g_id g = i) (\<lambda>_. g')" "a_zones (au_apartment S)"] have "tryGetZone (au_apartment (storeGroup i g' S)) 0 =
      Some ((zone0 S)\<lparr>z_groups := updFirst (\<lambda>g. g_id g = i) (\<lambda>_. g') (z_groups (zone0 S))\<rparr>)"
    using autoOKD(1) [OF assms] by (simp add: storeGroup_def updZone_def tryGetZone_def)
  then show "tryGetZone (au_apartment (storeGroup i g' S)) 0 = Some (zone0 (storeGroup i g' S))"
    "zone0 (storeGroup i g' S) = (zone0 S)\<lparr>z_groups := updFirst (\<lambda>g. g_id g = i) (\<lambda>_. g') (z_groups (zone0 S))\<rparr>"
    by (simp_all add: zone0_def)
qed

lemma storeGroup_devices [simp]:
  "tryGetDeviceByDSID (au_apartment (storeGroup i g S)) r = tryGetDeviceByDSID (au_apartment S) r"
  "dev (au_apartment (storeGroup i g S)) r = dev (au_apartment S) r" "groupsOf (storeGroup i g S) = groupsOf S"
  "getDevices (au_apartment (storeGroup i g S)) = getDevices (au_apartment S)"
  "au_cluster (storeGroup i g S) = au_cluster S" "au_direction (storeGroup i g S) = au_direction S" "au_protection (storeGroup i g S) = au_protection S"
  by (simp_all add: storeGroup_def updZone_def tryGetDeviceByDSID_def dev_def groupsOf_def getDevices_def fun_eq_iff)

lemma storeGroup_clusters:
  assumes "autoOK S" and "i \<in> set (clusters S)" and "g_id g' = i" and "g_zoneID g' = 0" and "g_isCluster g'"
  shows "autoOK (storeGroup i g' S)" "clusters (storeGroup i g' S) = clusters S" "house (storeGroup i g' S) = house S"
    "groupOf (storeGroup i g' S) j = (if j = i then g' else groupOf S j)" "clusterMembers (storeGroup i g' S) = clusterMembers S"
proof -
  note z = zone0_storeGroup [OF assms(1), of i g']
  show h: "house (storeGroup i g' S) = house S" by (simp add: house_def z(2))
  show "clusters (storeGroup i g' S) = clusters S"
    using updFirst_ids(1) [OF assms(3)] by (simp add: clusters_def z(2) user_ids)
  show "autoOK (storeGroup i g' S)"
    using assms updFirst_ids(1) [OF assms(3), of "z_groups (zone0 S)"] updFirst_ids(2) [of i g' "z_groups (zone0 S)"] z(1)
    by (auto simp: autoOK_def h z(2) known_def)
  have "i \<in> g_id ` set (z_groups (zone0 S))" using assms(2) by (auto simp: clusters_def)
  then show "groupOf (storeGroup i g' S) j = (if j = i then g' else groupOf S j)"
    using z(1) autoOKD(1) [OF assms(1)] by (simp add: groupOf_def z(2) zoneGroup_def find_updFirst [OF assms(3)])
  show "clusterMembers (storeGroup i g' S) = clusterMembers S" by (simp add: clusterMembers_def fun_eq_iff h)
qed

lemma storeData_simps [simp]:
  "au_apartment (storeData i f S) = au_apartment S" "au_direction (storeData i f S) = au_direction S"
  "au_protection (storeData i f S) = au_protection S" "au_cluster (storeData i f S) j = (if j = i then f (au_cluster S i) else au_cluster S j)"
  "groupsOf (storeData i f S) = groupsOf S" "zone0 (storeData i f S) = zone0 S" "clusters (storeData i f S) = clusters S"
  "house (storeData i f S) = house S" "autoOK (storeData i f S) = autoOK S" "groupOf (storeData i f S) = groupOf S"
  "clusterMembers (storeData i f S) = clusterMembers S"
  by (simp_all add: storeData_def groupsOf_def zone0_def clusters_def house_def autoOK_def groupOf_def clusterMembers_def fun_eq_iff known_def)

text \<open>Changing a device.\<close>

definition groupChange :: "(device \<Rightarrow> device) \<Rightarrow> bool" where
  "groupChange f \<longleftrightarrow> (\<forall>d. d_dsid (f d) = d_dsid d \<and> getDeviceClass (f d) = getDeviceClass d \<and>
     (distinct (d_groupIds d) \<longrightarrow> distinct (d_groupIds (f d))))"

lemma groupChanges: "groupChange (\<lambda>d. removeFromGroup d i)" "groupChange (\<lambda>d. addToGroup d i)"
  by (simp_all add: groupChange_def removeFromGroup_def addToGroup_def getDeviceClass_def)

lemma onMember_lookup:
  assumes "groupChange f"
  shows "tryGetDeviceByDSID (au_apartment (onMember r f S)) x =
    map_option (\<lambda>d. if x = r then f d else d) (tryGetDeviceByDSID (au_apartment S) x)"
proof -
  have "find (\<lambda>d. d_dsid d = x) (map (\<lambda>d. if d_dsid d = r then f d else d) ds) =
      map_option (\<lambda>d. if x = r then f d else d) (find (\<lambda>d. d_dsid d = x) ds)" for ds
    using assms by (induction ds) (auto simp: groupChange_def)
  then show ?thesis by (simp add: onMember_def tryGetDeviceByDSID_def updDevice_def)
qed

lemma onMember_simps [simp]:
  "au_cluster (onMember r f S) = au_cluster S" "au_direction (onMember r f S) = au_direction S" "au_protection (onMember r f S) = au_protection S"
  "tryGetZone (au_apartment (onMember r f S)) i = tryGetZone (au_apartment S) i" "groupOf (onMember r f S) = groupOf S"
  "zone0 (onMember r f S) = zone0 S" "clusters (onMember r f S) = clusters S" "house (onMember r f S) = house S"
  by (simp_all add: onMember_def updDevice_def tryGetZone_def groupOf_def zone0_def clusters_def house_def fun_eq_iff)

lemma onMember_dev:
  assumes "groupChange f" and "tryGetDeviceByDSID (au_apartment S) r \<noteq> None"
  shows "dev (au_apartment (onMember r f S)) x = (if x = r then f (dev (au_apartment S) r) else dev (au_apartment S) x)"
    "getDeviceClass (dev (au_apartment (onMember r f S)) x) = getDeviceClass (dev (au_apartment S) x)"
    "groupsOf (onMember r f S) x = (if x = r then d_groupIds (f (dev (au_apartment S) r)) else groupsOf S x)"
    "getDevices (au_apartment (onMember r f S)) = getDevices (au_apartment S)" "autoOK S \<Longrightarrow> autoOK (onMember r f S)"
proof -
  show d: "dev (au_apartment (onMember r f S)) x = (if x = r then f (dev (au_apartment S) r) else dev (au_apartment S) x)" for x
    using onMember_lookup [OF assms(1), of r S x] assms(2) by (cases "tryGetDeviceByDSID (au_apartment S) x") (auto simp: dev_def)
  then show "getDeviceClass (dev (au_apartment (onMember r f S)) x) = getDeviceClass (dev (au_apartment S) x)"
    "groupsOf (onMember r f S) x = (if x = r then d_groupIds (f (dev (au_apartment S) r)) else groupsOf S x)" for x
    using assms(1) by (simp_all add: groupChange_def groupsOf_def)
  show "getDevices (au_apartment (onMember r f S)) = getDevices (au_apartment S)"
    using assms(1) by (simp add: getDevices_def onMember_def updDevice_def groupChange_def)
  assume "autoOK S"
  then show "autoOK (onMember r f S)"
    using assms(1) d onMember_lookup [OF assms(1), of r S] by (auto simp: autoOK_def known_def groupsOf_def groupChange_def)
qed

section \<open>Releasing and removing\<close>

text \<open>
  What an operation that takes the device out of clusters may do: the groups of the device shrink, and a
  cluster stays as it was unless it was open and is now reset, unused and empty.
\<close>

definition released :: "autoState \<Rightarrow> int \<Rightarrow> bool" where
  "released S i \<longleftrightarrow> au_cluster S i = newClusterData \<and> \<not> used S i \<and> clusterMembers S i = []"

definition sameHouse :: "autoState \<Rightarrow> autoState \<Rightarrow> bool" where
  "sameHouse S S' \<longleftrightarrow> clusters S' = clusters S \<and> house S' = house S \<and>
     getDevices (au_apartment S') = getDevices (au_apartment S) \<and> au_direction S' = au_direction S \<and> au_protection S' = au_protection S \<and>
     (\<forall>x. getDeviceClass (dev (au_apartment S') x) = getDeviceClass (dev (au_apartment S) x))"

definition evolves :: "dsuid \<Rightarrow> autoState \<Rightarrow> autoState \<Rightarrow> bool" where
  "evolves r S S' \<longleftrightarrow> sameHouse S S' \<and>
     (\<forall>x. set (groupsOf S' x) \<subseteq> set (groupsOf S x) \<and> (x \<noteq> r \<longrightarrow> groupsOf S' x = groupsOf S x)) \<and>
     (\<forall>i \<in> set (clusters S). au_cluster S' i = au_cluster S i \<and> groupOf S' i = groupOf S i \<or> openCluster i S \<and> released S' i)"

lemma sameHouse_order: "sameHouse S S" "sameHouse S T \<Longrightarrow> sameHouse T U \<Longrightarrow> sameHouse S U"
  by (simp_all add: sameHouse_def)

lemma evolves_refl: "evolves r S S"
  by (simp add: evolves_def sameHouse_order)

lemma members_shrink:
  "evolves r S T \<Longrightarrow> set (clusterMembers T i) \<subseteq> set (clusterMembers S i)"
  by (auto simp: evolves_def sameHouse_def clusterMembers_def)

lemma evolves_trans:
  assumes "evolves r S T" and "evolves r T U"
  shows "evolves r S U"
  unfolding evolves_def
proof (intro conjI ballI allI impI)
  show "sameHouse S U" using assms sameHouse_order(2) unfolding evolves_def by blast
  show "set (groupsOf U x) \<subseteq> set (groupsOf S x)" for x using assms unfolding evolves_def by blast
  show "groupsOf U x = groupsOf S x" if "x \<noteq> r" for x using assms that by (simp add: evolves_def)
  fix i assume i: "i \<in> set (clusters S)"
  then have iT: "i \<in> set (clusters T)" using assms(1) by (simp add: evolves_def sameHouse_def)
  have first: "au_cluster T i = au_cluster S i \<and> groupOf T i = groupOf S i \<or> openCluster i S \<and> released T i"
    and second: "au_cluster U i = au_cluster T i \<and> groupOf U i = groupOf T i \<or> openCluster i T \<and> released U i"
    using assms i iT by (simp_all add: evolves_def)
  have "\<not> openCluster i T" if "released T i" using that by (simp add: released_def openCluster_def newClusterData_def)
  moreover have "released U i" if "released T i" "au_cluster U i = au_cluster T i \<and> groupOf U i = groupOf T i"
    using that members_shrink [OF assms(2), of i] by (simp add: released_def used_def)
  ultimately show "au_cluster U i = au_cluster S i \<and> groupOf U i = groupOf S i \<or> openCluster i S \<and> released U i"
    using first second by (auto simp: openCluster_def)
qed

lemma evolves_order: "reflp (evolves r)" "transp (evolves r)"
  using evolves_refl evolves_trans by (auto intro: reflpI transpI)

text \<open>One step of each kind.\<close>

lemma resetCluster_fields:
  assumes "isAppUserGroup (g_id g)"
  shows "g_id (resetCluster g) = g_id g" "g_zoneID (resetCluster g) = g_zoneID g" "g_isCluster (resetCluster g) = g_isCluster g"
    "g_applicationType (resetCluster g) = AT_None"
  using assms by (auto simp: resetCluster_def setApplicationType_def Let_def isDefaultGroup_def isGlobalAppDsGroup_def isAppUserGroup_def
      GroupIDYellow_def GroupIDStandardMax_def GroupIDControlTemperature_def GroupIDGlobalAppDsMin_def
      GroupIDGlobalAppDsMax_def GroupIDAppUserMin_def GroupIDAppUserMax_def)

lemma release_evolves:
  assumes "autoOK S" and "i \<in> set (clusters S)" and "openCluster i S" and "clusterMembers S i = []"
  shows "evolves r S (storeData i (\<lambda>_. newClusterData) (storeGroup i (resetCluster (groupOf S i)) S))"
    "autoOK (storeGroup i (resetCluster (groupOf S i)) S)"
proof -
  let ?g = "resetCluster (groupOf S i)"
  have g: "g_id ?g = i" "g_zoneID ?g = 0" "g_isCluster ?g" "g_applicationType ?g = AT_None"
    using resetCluster_fields [of "groupOf S i"] groupOf_ok [OF assms(1, 2)] clusters_user [OF assms(2)]
      autoOKD(6, 7) [OF assms(1), of "groupOf S i"] by simp_all
  note st = storeGroup_clusters [OF assms(1, 2) g(1-3)]
  show "autoOK (storeGroup i ?g S)" by (rule st(1))
  show "evolves r S (storeData i (\<lambda>_. newClusterData) (storeGroup i ?g S))"
    using assms(3, 4) st g(4) by (auto simp: evolves_def sameHouse_def released_def used_def)
qed

lemma releaseStep_yields:
  assumes "autoOK S" and "i \<in> set (clusters S)" and "openCluster i S"
  shows "yields (releaseStep bus i) S
    (\<lambda>S'. evolves r S S' \<and> autoOK S' \<and> groupsOf S' = groupsOf S \<and> (openCluster i S' \<longrightarrow> clusterMembers S' i \<noteq> []))"
proof (cases "clusterMembers S i = []")
  case True
  show ?thesis using release_evolves [OF assms True] True release_ok [OF assms(1, 2)]
    by (auto simp: releaseStep_def openCluster_def newClusterData_def intro!: yields_Cons)
next
  case False
  then show ?thesis using assms(1) release_ok [OF assms(1, 2)] by (simp add: releaseStep_def evolves_refl)
qed

text \<open>Every open cluster has a member.\<close>

definition noEmpty :: "autoState \<Rightarrow> bool" where
  "noEmpty S \<longleftrightarrow> (\<forall>i \<in> set (clusters S). openCluster i S \<longrightarrow> clusterMembers S i \<noteq> [])"

definition fades :: "dsuid \<Rightarrow> autoState \<Rightarrow> autoState \<Rightarrow> bool" where
  "fades r S S' \<longleftrightarrow> evolves r S S' \<and> groupsOf S' = groupsOf S"

lemma fades_order: "reflp (fades r)" "transp (fades r)"
  by (auto simp: fades_def intro!: reflpI transpI evolves_refl intro: evolves_trans)

lemma fades_open:
  assumes "fades r S S'" and "i \<in> set (clusters S)" and "openCluster i S'"
  shows "openCluster i S" "clusterMembers S' i = clusterMembers S i"
proof -
  have "\<not> released S' i" using assms(3) by (auto simp: released_def openCluster_def newClusterData_def)
  then show "openCluster i S" using assms by (auto simp: fades_def evolves_def openCluster_def)
  show "clusterMembers S' i = clusterMembers S i" using assms(1) by (simp add: fades_def evolves_def sameHouse_def clusterMembers_def)
qed

lemma removeEmpty_yields:
  assumes "autoOK S"
  shows "yields (removeEmptyAutomaticCluster bus) S (\<lambda>S'. fades r S S' \<and> autoOK S' \<and> noEmpty S')"
proof -
  let ?P = "\<lambda>i T. i \<in> set (clusters T) \<and> (openCluster i T \<longrightarrow> clusterMembers T i \<noteq> [])"
  have "yields (runAll (map (\<lambda>i. onlyIf (openCluster i) (releaseStep bus i)) (clusters S))) S
      (\<lambda>S'. fades r S S' \<and> (autoOK S' \<and> clusters S' = clusters S) \<and> (\<forall>i \<in> set (clusters S). ?P i S'))"
  proof (rule yields_each [OF fades_order])
    fix i T assume i: "i \<in> set (clusters S)" and T: "autoOK T \<and> clusters T = clusters S"
    have "yields (releaseStep bus i) T (\<lambda>T'. fades r T T' \<and> (autoOK T' \<and> clusters T' = clusters S) \<and> ?P i T')" if "openCluster i T"
      by (rule yields_mono [OF releaseStep_yields [of T i bus r]]) (use i T that in \<open>auto simp: fades_def evolves_def sameHouse_def\<close>)
    then show "yields (onlyIf (openCluster i) (releaseStep bus i)) T (\<lambda>T'. fades r T T' \<and> (autoOK T' \<and> clusters T' = clusters S) \<and> ?P i T')"
      using i T by (simp add: fades_def evolves_refl)
  next
    show "?P i T'" if "?P i T" "fades r T T'" for i T T'
      using that fades_open [of r T T' i] by (auto simp: fades_def evolves_def sameHouse_def)
    show "autoOK S \<and> clusters S = clusters S" using assms by simp
  qed
  then show ?thesis unfolding removeEmptyAutomaticCluster_def
    by (intro forClusters_yields assms) (auto simp: noEmpty_def elim: yields_mono)
qed

lemma member_groups:
  assumes "tryGetDeviceByDSID (au_apartment S) r \<noteq> None" and "isValidGroup i"
  shows "groupsOf (onMember r (\<lambda>d. removeFromGroup d i) S) x = (if x = r then remove1 i (groupsOf S r) else groupsOf S x)"
    "groupsOf (onMember r (\<lambda>d. addToGroup d i) S) x =
       (if x = r \<and> i \<notin> set (groupsOf S r) then groupsOf S r @ [i] else groupsOf S x)"
proof -
  have "d_groupIds (removeFromGroup d i) = remove1 i (d_groupIds d)"
    "d_groupIds (addToGroup d i) = (if i \<notin> set (d_groupIds d) then d_groupIds d @ [i] else d_groupIds d)" for d
    using assms(2) by (simp_all add: removeFromGroup_def addToGroup_def)
  then show "groupsOf (onMember r (\<lambda>d. removeFromGroup d i) S) x = (if x = r then remove1 i (groupsOf S r) else groupsOf S x)"
    "groupsOf (onMember r (\<lambda>d. addToGroup d i) S) x =
       (if x = r \<and> i \<notin> set (groupsOf S r) then groupsOf S r @ [i] else groupsOf S x)"
    using onMember_dev(3) [OF groupChanges(1) assms(1)] onMember_dev(3) [OF groupChanges(2) assms(1)] by (auto simp: groupsOf_def)
qed

lemma remove_evolves:
  assumes "tryGetDeviceByDSID (au_apartment S) r \<noteq> None" and "isValidGroup i"
  shows "evolves r S (onMember r (\<lambda>d. removeFromGroup d i) S)"
  using onMember_dev(2, 4) [OF groupChanges(1) assms(1)] set_remove1_subset [of i "groupsOf S r"]
  by (simp add: evolves_def sameHouse_def member_groups [OF assms])

lemma removeDevice_yields:
  assumes "autoOK S" and "tryGetDeviceByDSID (au_apartment S) r \<noteq> None" and "i \<in> set (clusters S)"
  shows "yields (removeDeviceFromCluster bus r i) S (\<lambda>S'. evolves r S S' \<and> autoOK S' \<and> groupsOf S' r = remove1 i (groupsOf S r) \<and> noEmpty S')"
proof -
  let ?T = "onMember r (\<lambda>d. removeFromGroup d i) S"
  have T: "evolves r S ?T" "autoOK ?T" "groupsOf ?T r = remove1 i (groupsOf S r)"
    using remove_evolves [OF assms(2)] onMember_dev(5) [OF groupChanges(1) assms(2), of i] assms(1)
      clusters_user [OF assms(3)] by (simp_all add: member_groups [OF assms(2)])
  have "yields (removeEmptyAutomaticCluster bus) ?T (\<lambda>S'. evolves r S S' \<and> autoOK S' \<and> groupsOf S' r = remove1 i (groupsOf S r) \<and> noEmpty S')"
    by (rule yields_mono [OF removeEmpty_yields [OF T(2), of bus r]]) (use T(3) evolves_trans [OF T(1)] in \<open>auto simp: fades_def\<close>)
  then show ?thesis unfolding removeDeviceFromCluster_def by (intro yields_Cons) (simp add: yields_Cons)
qed

section \<open>The check of a device\<close>

definition present :: "autoState \<Rightarrow> dsuid \<Rightarrow> bool" where
  "present S r \<longleftrightarrow> r \<in> set (getDevices (au_apartment S))"

lemma present_lookup: "present S r \<longleftrightarrow> tryGetDeviceByDSID (au_apartment S) r \<noteq> None"
  using known_iff [of "au_apartment S" "[r]"] by (simp add: present_def)

lemma evolves_present: "evolves r S S' \<Longrightarrow> present S' x = present S x \<and> clusters S' = clusters S \<and> house S' = house S"
  by (simp add: evolves_def sameHouse_def present_def)

text \<open>The device is in an open cluster; and such a cluster fits it.\<close>

definition inOpen :: "autoState \<Rightarrow> dsuid \<Rightarrow> int \<Rightarrow> bool" where
  "inOpen S r i \<longleftrightarrow> i \<in> set (clusters S) \<and> openCluster i S \<and> i \<in> set (groupsOf S r)"

definition settled :: "autoState \<Rightarrow> dsuid \<Rightarrow> int \<Rightarrow> bool" where
  "settled S r i \<longleftrightarrow> (inOpen S r i \<longrightarrow> fits S r i \<and> \<not> unconfigured S r)"

definition placed :: "autoState \<Rightarrow> dsuid \<Rightarrow> bool" where
  "placed S r \<longleftrightarrow> (\<forall>i. settled S r i) \<and> (\<forall>i j. inOpen S r i \<and> inOpen S r j \<longrightarrow> i = j)"

lemma evolves_open:
  assumes "evolves r S S'" and "inOpen S' x i"
  shows "inOpen S x i" "fits S' x i = fits S x i"
proof -
  have i: "i \<in> set (clusters S)" using assms evolves_present by (auto simp: inOpen_def)
  have "\<not> released S' i" using assms(2) by (auto simp: inOpen_def released_def openCluster_def newClusterData_def)
  then have c: "au_cluster S' i = au_cluster S i" using assms(1) i by (auto simp: evolves_def)
  show "inOpen S x i" using assms i c by (auto simp: inOpen_def openCluster_def evolves_def)
  show "fits S' x i = fits S x i" using assms(1) c by (simp add: fits_def evolves_def sameHouse_def)
qed

lemma evolves_unconfigured: "evolves r S S' \<Longrightarrow> unconfigured S' x = unconfigured S x"
  by (simp add: evolves_def sameHouse_def unconfigured_def)

lemma settled_evolves: "settled S x i \<Longrightarrow> evolves r S S' \<Longrightarrow> settled S' x i"
  using evolves_open [of r S S' x i] evolves_unconfigured [of r S S' x] by (auto simp: settled_def)

lemma placed_evolves: "placed S x \<Longrightarrow> evolves r S S' \<Longrightarrow> placed S' x"
  using settled_evolves evolves_open(1) unfolding placed_def by blast

text \<open>Only open clusters are left.\<close>

definition keepsBut :: "int set \<Rightarrow> dsuid \<Rightarrow> autoState \<Rightarrow> autoState \<Rightarrow> bool" where
  "keepsBut X r S T \<longleftrightarrow> (\<forall>k. k \<notin> X \<and> k \<in> set (groupsOf S r) \<longrightarrow> k \<in> set (groupsOf T r))"

lemma removeInvalid_step:
  assumes "autoOK S" and "present S r" and "i \<in> set (clusters S)"
  shows "yields (runAll [onlyIf (\<lambda>S. \<not> fits S r i) (removeDeviceFromCluster bus r i),
     onlyIf (\<lambda>S. unconfigured S r \<and> fits S r i) (removeDeviceFromCluster bus r i)]) S
     (\<lambda>S'. evolves r S S' \<and> autoOK S' \<and> keepsBut {i} r S S' \<and> settled S' r i)"
proof -
  have rem: "yields (removeDeviceFromCluster bus r i) T (\<lambda>T'. evolves r S T' \<and> autoOK T' \<and> keepsBut {i} r S T' \<and> settled T' r i)"
    if "evolves r S T" "autoOK T" "keepsBut {i} r S T" for T
    using that assms(2, 3) evolves_present [OF that(1)] removeDevice_yields [OF that(2), of r i bus]
    by (auto simp: present_lookup settled_def inOpen_def autoOKD(5) keepsBut_def elim!: yields_mono intro: evolves_trans)
  have keep: "keepsBut {i} r S S" by (simp add: keepsBut_def)
  have first: "yields (onlyIf (\<lambda>S. \<not> fits S r i) (removeDeviceFromCluster bus r i)) S
      (\<lambda>T. evolves r S T \<and> autoOK T \<and> keepsBut {i} r S T \<and> (fits T r i \<or> settled T r i))"
    using rem [OF evolves_refl assms(1) keep] assms(1) keep by (auto simp: evolves_refl elim: yields_mono)
  have second: "yields (runAll [onlyIf (\<lambda>S. unconfigured S r \<and> fits S r i) (removeDeviceFromCluster bus r i)]) T
      (\<lambda>T'. evolves r S T' \<and> autoOK T' \<and> keepsBut {i} r S T' \<and> settled T' r i)"
    if "evolves r S T \<and> autoOK T \<and> keepsBut {i} r S T \<and> (fits T r i \<or> settled T r i)" for T
    using rem [of T] that by (intro yields_last) (auto simp: settled_def)
  show ?thesis by (rule yields_then [OF first second])
qed

lemma removeInvalid_yields:
  assumes "autoOK S" and "present S r"
  shows "yields (removeInvalidAssignments bus r) S
    (\<lambda>S'. evolves r S S' \<and> autoOK S' \<and> keepsBut {i. openCluster i S} r S S' \<and> (\<forall>i. settled S' r i))"
proof -
  let ?steps = "\<lambda>i. runAll [onlyIf (\<lambda>S. \<not> fits S r i) (removeDeviceFromCluster bus r i),
     onlyIf (\<lambda>S. unconfigured S r \<and> fits S r i) (removeDeviceFromCluster bus r i)]"
  define I where "I T \<longleftrightarrow> autoOK T \<and> evolves r S T \<and> keepsBut {i. openCluster i S} r S T" for T
  have "yields (runAll (map (\<lambda>i. onlyIf (openCluster i) (?steps i)) (clusters S))) S
      (\<lambda>S'. evolves r S S' \<and> I S' \<and> (\<forall>i \<in> set (clusters S). settled S' r i))"
  proof (rule yields_each [OF evolves_order])
    fix i T assume i: "i \<in> set (clusters S)" and T: "I T"
    then have T': "autoOK T" "present T r" "i \<in> set (clusters T)" "evolves r S T"
      using assms(2) evolves_present by (auto simp: I_def)
    show "yields (onlyIf (openCluster i) (?steps i)) T (\<lambda>T'. evolves r T T' \<and> I T' \<and> settled T' r i)"
    proof (cases "openCluster i T")
      case True
      then have open': "openCluster i S" using T'(4) i by (auto simp: evolves_def openCluster_def released_def newClusterData_def)
      have "evolves r T T' \<and> I T' \<and> settled T' r i"
        if "evolves r T T' \<and> autoOK T' \<and> keepsBut {i} r T T' \<and> settled T' r i" for T'
      proof -
        have "keepsBut {i. openCluster i S} r S T'"
          using that T open' unfolding keepsBut_def I_def by (metis mem_Collect_eq singletonD)
        then show ?thesis using that evolves_trans [OF T'(4)] by (simp add: I_def)
      qed
      then have "yields (?steps i) T (\<lambda>T'. evolves r T T' \<and> I T' \<and> settled T' r i)"
        by (rule yields_mono [OF removeInvalid_step [OF T'(1-3)]])
      then show ?thesis unfolding yields_simps using True by simp
    next
      case False
      then show ?thesis using T unfolding yields_simps by (simp add: settled_def inOpen_def evolves_refl)
    qed
  next
    show "settled T' r i" if "settled T r i" "evolves r T T'" for i T T' using that by (rule settled_evolves)
    show "I S" using assms by (simp add: I_def evolves_refl keepsBut_def)
  qed
  moreover have "evolves r S S' \<and> autoOK S' \<and> keepsBut {i. openCluster i S} r S S' \<and> (\<forall>i. settled S' r i)"
    if "evolves r S S' \<and> I S' \<and> (\<forall>i \<in> set (clusters S). settled S' r i)" for S'
    using that evolves_present [of r S S'] by (auto simp: I_def settled_def inOpen_def)
  ultimately show ?thesis unfolding removeInvalidAssignments_def by (intro forClusters_yields [OF assms(1)]) (rule yields_mono)
qed

text \<open>
  What a check of one device may do as far as others are concerned: their groups stay as they are, and if
  the unused clusters are empty that stays so and the others stay placed.
\<close>

definition freeEmpty :: "autoState \<Rightarrow> bool" where
  "freeEmpty S \<longleftrightarrow> (\<forall>i \<in> set (clusters S). \<not> used S i \<longrightarrow> clusterMembers S i = [])"

definition considerate :: "dsuid \<Rightarrow> autoState \<Rightarrow> autoState \<Rightarrow> bool" where
  "considerate r S T \<longleftrightarrow> autoOK T \<and> sameHouse S T \<and> (\<forall>x. x \<noteq> r \<longrightarrow> groupsOf T x = groupsOf S x) \<and>
     (freeEmpty S \<longrightarrow> freeEmpty T \<and> (\<forall>x \<in> set (house S). x \<noteq> r \<and> placed S x \<longrightarrow> placed T x))"

lemma considerateD:
  assumes "considerate r S T"
  shows "autoOK T" "clusters T = clusters S" "house T = house S" "present T x = present S x" "x \<noteq> r \<Longrightarrow> groupsOf T x = groupsOf S x"
    "freeEmpty S \<Longrightarrow> freeEmpty T" "freeEmpty S \<Longrightarrow> x \<in> set (house S) \<Longrightarrow> x \<noteq> r \<Longrightarrow> placed S x \<Longrightarrow> placed T x"
    "unconfigured T x = unconfigured S x" "sameHouse S T"
  using assms by (simp_all add: considerate_def sameHouse_def present_def unconfigured_def)

lemma considerate_trans: "considerate r S T \<Longrightarrow> considerate r T U \<Longrightarrow> considerate r S U"
  unfolding considerate_def using sameHouse_order(2) by (auto simp: sameHouse_def)

lemma evolves_considerate:
  assumes "evolves r S T" and "autoOK T"
  shows "considerate r S T"
proof -
  have "clusterMembers T i = []" if "freeEmpty S" "i \<in> set (clusters T)" "\<not> used T i" for i
  proof -
    have i: "i \<in> set (clusters S)" using that(2) evolves_present [OF assms(1)] by simp
    then consider "groupOf T i = groupOf S i" | "released T i" using assms(1) by (auto simp: evolves_def)
    then show ?thesis
    proof cases
      case 1
      then have "clusterMembers S i = []" using that i by (simp add: freeEmpty_def used_def)
      then show ?thesis using members_shrink [OF assms(1), of i] by simp
    next
      case 2
      then show ?thesis by (simp add: released_def)
    qed
  qed
  then show ?thesis
    using assms placed_evolves [OF _ assms(1)] by (auto simp: considerate_def evolves_def freeEmpty_def)
qed

text \<open>Adding the device to a cluster in use.\<close>

definition added :: "dsuid \<Rightarrow> int \<Rightarrow> autoState \<Rightarrow> autoState" where
  "added r i S = onMember r (\<lambda>d. addToGroup d i) S"

lemma added_groups:
  assumes "present S r" and "i \<in> set (clusters S)"
  shows "set (groupsOf (added r i S) x) = (if x = r then insert i (set (groupsOf S r)) else set (groupsOf S x))"
    "x \<noteq> r \<Longrightarrow> groupsOf (added r i S) x = groupsOf S x"
  using assms clusters_user [OF assms(2)] by (auto simp: added_def member_groups present_lookup)

lemma added_open:
  assumes "present S r" and "i \<in> set (clusters S)"
  shows "inOpen (added r i S) x j \<longleftrightarrow> inOpen S x j \<or> x = r \<and> j = i \<and> openCluster i S"
    "fits (added r i S) = fits S" "unconfigured (added r i S) = unconfigured S" "openCluster j (added r i S) = openCluster j S"
  using added_groups [OF assms, of x] assms(2)
  by (auto simp: inOpen_def fits_def unconfigured_def openCluster_def added_def fun_eq_iff)

lemma added_considerate:
  assumes "autoOK S" and "present S r" and "i \<in> set (clusters S)" and "used S i"
  shows "considerate r S (added r i S)"
proof -
  have d: "tryGetDeviceByDSID (au_apartment S) r \<noteq> None" using assms(2) by (simp add: present_lookup)
  have "autoOK (added r i S)" "sameHouse S (added r i S)"
    using onMember_dev(2, 4, 5) [OF groupChanges(2) d] assms(1) by (simp_all add: added_def sameHouse_def)
  moreover have "freeEmpty (added r i S)" if "freeEmpty S"
    unfolding freeEmpty_def
  proof (intro ballI impI)
    fix j assume "j \<in> set (clusters (added r i S))" "\<not> used (added r i S) j"
    then have "j \<in> set (clusters S)" "\<not> used S j" "j \<noteq> i" using assms(4) by (auto simp: added_def used_def)
    then have "clusterMembers S j = []" "j \<noteq> i" using that by (simp_all add: freeEmpty_def)
    then show "clusterMembers (added r i S) j = []"
      using added_groups(1) [OF assms(2, 3)] by (auto simp: clusterMembers_def filter_empty_conv added_def split: if_splits)
  qed
  moreover have "placed (added r i S) x" if "x \<noteq> r" "placed S x" for x
    using that added_open [OF assms(2, 3)] by (simp add: placed_def settled_def)
  ultimately show ?thesis using added_groups(2) [OF assms(2, 3)] by (auto simp: considerate_def)
qed

lemma assign_yields: "Q (added r i S) \<Longrightarrow> yields (assignDeviceToCluster bus r i) S Q"
  unfolding assignDeviceToCluster_def added_def by (intro yields_Cons) (simp add: yields_Cons)

text \<open>Setting up a free cluster.\<close>

definition madeUp :: "int \<Rightarrow> CardinalDirection \<Rightarrow> WindProtectionClass \<Rightarrow> autoState \<Rightarrow> autoState" where
  "madeUp i d w S =
     (let S = storeData i (\<lambda>c. c\<lparr>cl_location := d, cl_protection := w\<rparr>) S
      in storeData i (\<lambda>c. c\<lparr>cl_automatic := True\<rparr>)
           (storeGroup i ((fst (setApplicationType (groupOf S i) AT_Blinds))\<lparr>g_name := clusterName d w\<rparr>) S))"

lemma setUp_yields: "Q (madeUp i d w S) \<Longrightarrow> yields (setUpCluster bus i d w) S Q"
  unfolding setUpCluster_def madeUp_def Let_def by (intro yields_Cons) (simp add: yields_Cons)

lemma blinds_fields:
  assumes "isAppUserGroup (g_id g)"
  shows "g_id (fst (setApplicationType g AT_Blinds)) = g_id g" "g_zoneID (fst (setApplicationType g AT_Blinds)) = g_zoneID g"
    "g_isCluster (fst (setApplicationType g AT_Blinds)) = g_isCluster g" "g_applicationType (fst (setApplicationType g AT_Blinds)) = AT_Blinds"
  using assms by (auto simp: setApplicationType_def Let_def isDefaultGroup_def isGlobalAppDsGroup_def isAppUserGroup_def
      GroupIDYellow_def GroupIDStandardMax_def GroupIDControlTemperature_def GroupIDGlobalAppDsMin_def
      GroupIDGlobalAppDsMax_def GroupIDAppUserMin_def GroupIDAppUserMax_def)

lemma madeUp_simps:
  assumes "autoOK S" and "i \<in> set (clusters S)"
  shows "autoOK (madeUp i d w S)" "clusters (madeUp i d w S) = clusters S" "house (madeUp i d w S) = house S" "groupsOf (madeUp i d w S) = groupsOf S"
    "clusterMembers (madeUp i d w S) = clusterMembers S" "used (madeUp i d w S) j \<longleftrightarrow> j = i \<or> used S j" "sameHouse S (madeUp i d w S)"
    "au_cluster (madeUp i d w S) j =
       (if j = i then (au_cluster S i)\<lparr>cl_location := d, cl_protection := w, cl_automatic := True\<rparr> else au_cluster S j)"
proof -
  let ?S = "storeData i (\<lambda>c. c\<lparr>cl_location := d, cl_protection := w\<rparr>) S"
  let ?g = "(fst (setApplicationType (groupOf S i) AT_Blinds))\<lparr>g_name := clusterName d w\<rparr>"
  have g: "g_id ?g = i" "g_zoneID ?g = 0" "g_isCluster ?g" "g_applicationType ?g = AT_Blinds"
    using blinds_fields [of "groupOf S i"] groupOf_ok [OF assms] clusters_user [OF assms(2)] autoOKD(6, 7) [OF assms(1), of "groupOf S i"]
    by simp_all
  have S: "autoOK ?S" "i \<in> set (clusters ?S)" using assms by simp_all
  note st = storeGroup_clusters [OF S g(1-3)]
  show "autoOK (madeUp i d w S)" "clusters (madeUp i d w S) = clusters S" "house (madeUp i d w S) = house S" "groupsOf (madeUp i d w S) = groupsOf S"
    "clusterMembers (madeUp i d w S) = clusterMembers S" "used (madeUp i d w S) j \<longleftrightarrow> j = i \<or> used S j" "sameHouse S (madeUp i d w S)"
    "au_cluster (madeUp i d w S) j =
       (if j = i then (au_cluster S i)\<lparr>cl_location := d, cl_protection := w, cl_automatic := True\<rparr> else au_cluster S j)"
    using st g(4) by (simp_all add: madeUp_def used_def sameHouse_def)
qed

lemma madeUp_considerate:
  assumes "autoOK S" and "i \<in> set (clusters S)" and "\<not> used S i"
  shows "considerate r S (madeUp i d w S)"
proof -
  note m = madeUp_simps [OF assms(1, 2), of d w]
  have "placed (madeUp i d w S) x" if "freeEmpty S" "x \<in> set (house S)" "placed S x" for x
  proof -
    have "i \<notin> set (groupsOf S x)" using that(1, 2) assms(2, 3) by (auto simp: freeEmpty_def clusterMembers_def filter_empty_conv)
    then have "inOpen (madeUp i d w S) x j \<longleftrightarrow> inOpen S x j \<and> j \<noteq> i" for j
      by (auto simp: inOpen_def m openCluster_def)
    moreover have "unconfigured (madeUp i d w S) x = unconfigured S x" using m(7) by (simp add: unconfigured_def sameHouse_def)
    moreover have "fits (madeUp i d w S) x j = fits S x j" if "j \<noteq> i" for j
      using m(7) that by (simp add: fits_def sameHouse_def m)
    ultimately show ?thesis using that(3) by (auto simp: placed_def settled_def)
  qed
  moreover have "freeEmpty (madeUp i d w S)" if "freeEmpty S" using that by (simp add: freeEmpty_def m)
  ultimately show ?thesis using m by (simp add: considerate_def)
qed

section \<open>The assignment\<close>

lemma removeAll_yields:
  assumes "autoOK S" and "present S r" and "set xs \<subseteq> set (clusters S)"
  shows "yields (runAll (map (removeDeviceFromCluster bus r) xs)) S
    (\<lambda>T. evolves r S T \<and> autoOK T \<and> (\<forall>k. k \<in> set (groupsOf T r) \<longleftrightarrow> k \<in> set (groupsOf S r) \<and> k \<notin> set xs))"
proof -
  define I where "I T \<longleftrightarrow> autoOK T \<and> present T r \<and> clusters T = clusters S \<and>
    (\<forall>k. k \<in> set (groupsOf S r) \<and> k \<notin> set xs \<longrightarrow> k \<in> set (groupsOf T r))" for T
  have "yields (runAll (map (removeDeviceFromCluster bus r) xs)) S (\<lambda>T. evolves r S T \<and> I T \<and> (\<forall>i \<in> set xs. i \<notin> set (groupsOf T r)))"
  proof (rule yields_each [OF evolves_order])
    fix i T assume i: "i \<in> set xs" and T: "I T"
    have "evolves r T T' \<and> I T' \<and> i \<notin> set (groupsOf T' r)"
      if "evolves r T T' \<and> autoOK T' \<and> groupsOf T' r = remove1 i (groupsOf T r) \<and> noEmpty T'" for T'
      using that i T evolves_present [of r T T'] autoOKD(5) [of T r] by (auto simp: I_def present_lookup)
    moreover have "yields (removeDeviceFromCluster bus r i) T
        (\<lambda>T'. evolves r T T' \<and> autoOK T' \<and> groupsOf T' r = remove1 i (groupsOf T r) \<and> noEmpty T')"
      using T i assms(3) by (intro removeDevice_yields) (auto simp: I_def present_lookup)
    ultimately show "yields (removeDeviceFromCluster bus r i) T (\<lambda>T'. evolves r T T' \<and> I T' \<and> i \<notin> set (groupsOf T' r))"
      by (rule yields_mono [rotated])
  next
    show "i \<notin> set (groupsOf T' r)" if "i \<notin> set (groupsOf T r)" "evolves r T T'" for i T T' using that by (auto simp: evolves_def)
    show "I S" using assms by (simp add: I_def)
  qed
  then show ?thesis by (rule yields_mono) (auto simp: I_def evolves_def)
qed

lemma firstLocked_ok:
  "firstLocked S r (map Some is) =
    Inr (case find (\<lambda>i. cl_locked (au_cluster S i) \<and> cl_automatic (au_cluster S i) \<and> fits S r i \<and> isInGroup (dev (au_apartment S) r) i) is of
           None \<Rightarrow> 0 | Some i \<Rightarrow> i)"
  by (induction "is") auto

lemma findCluster_ok:
  "findCluster S d w (map Some is) = Inr (find (\<lambda>i. used S i \<and> cl_protection (au_cluster S i) = w \<and> cl_location (au_cluster S i) = d \<and>
     cl_automatic (au_cluster S i)) is)"
  by (induction "is") (auto simp: used_def)

text \<open>The device is in a locked cluster that fits it.\<close>

definition lockedIn :: "autoState \<Rightarrow> dsuid \<Rightarrow> bool" where
  "lockedIn S r \<longleftrightarrow> (\<exists>i \<in> set (clusters S). cl_locked (au_cluster S i) \<and> cl_automatic (au_cluster S i) \<and> fits S r i \<and> i \<in> set (groupsOf S r))"

lemma locked_ok:
  assumes "autoOK S"
  shows "\<exists>i. getFirstLockedClusterAssignment S r = Inr i \<and> (i \<noteq> 0 \<longleftrightarrow> lockedIn S r)"
proof -
  let ?P = "\<lambda>i. cl_locked (au_cluster S i) \<and> cl_automatic (au_cluster S i) \<and> fits S r i \<and> isInGroup (dev (au_apartment S) r) i"
  have "find ?P (clusters S) \<noteq> None \<longleftrightarrow> lockedIn S r"
    using inGroup_cluster by (auto simp: find_None_iff lockedIn_def)
  moreover have "i \<noteq> 0" if "find ?P (clusters S) = Some i" for i
    using that clusters_user [of i S] by (auto simp: find_Some_iff in_set_conv_nth)
  ultimately show ?thesis using assms by (auto simp: getFirstLockedClusterAssignment_def clusterIds_ok sbind_def firstLocked_ok split: option.split)
qed

lemma unlocked_ok:
  assumes "autoOK S" and "\<forall>i. settled S r i"
  shows "getUnlockedClusterAssignment S r = Inr (filter (inOpen S r) (clusters S))"
proof -
  have "filter (\<lambda>i. openCluster i S \<and> fits S r i \<and> isInGroup (dev (au_apartment S) r) i) (clusters S) = filter (inOpen S r) (clusters S)"
    using assms(2) inGroup_cluster by (intro filter_cong) (auto simp: inOpen_def settled_def)
  moreover have "None \<notin> set (map Some (clusters S))" "map the (map Some (clusters S)) = clusters S" by (auto simp: o_def)
  ultimately show ?thesis using assms(1) by (simp add: getUnlockedClusterAssignment_def clusterIds_ok sbind_def)
qed

lemma getEmpty_ok:
  assumes "autoOK S"
  shows "(\<exists>g. getEmptyCluster (au_apartment S) = Inr (Some g) \<and> g_id g \<in> set (clusters S) \<and> \<not> used S (g_id g)) \<or>
    getEmptyCluster (au_apartment S) = Inr None \<and> (\<forall>i \<in> set (clusters S). used S i)"
proof -
  let ?gs = "filter (\<lambda>g. isAppUserGroup (g_id g)) (z_groups (zone0 S))"
  have loop: "emptyClusterLoop (map Some gs) = Inr (find (\<lambda>g. g_applicationType g = AT_None) gs)" for gs
    by (induction gs) auto
  have "getClusters (au_apartment S) = Inr (map Some ?gs)"
    using autoOKD(7, 8) [OF assms] by (auto simp: getClusters_def sbind_def)
  then have e: "getEmptyCluster (au_apartment S) = Inr (find (\<lambda>g. g_applicationType g = AT_None) ?gs)"
    by (simp add: getEmptyCluster_def sbind_def loop)
  have of: "groupOf S (g_id g) = g" if "g \<in> set ?gs" for g
    using that find_key [OF autoOKD(2) [OF assms], of g] autoOKD(1) [OF assms] by (simp add: groupOf_def zoneGroup_def)
  show ?thesis
  proof (cases "find (\<lambda>g. g_applicationType g = AT_None) ?gs")
    case None
    then have "used S i" if "i \<in> set (clusters S)" for i
      using that of by (auto simp: clusters_def used_def find_None_iff)
    then show ?thesis using e None by simp
  next
    case (Some g)
    then have "g \<in> set ?gs" "g_applicationType g = AT_None" by (auto simp: find_Some_iff simp del: set_filter)
    then show ?thesis using e Some of [of g] by (auto simp: clusters_def used_def)
  qed
qed

lemma place_in:
  assumes "autoOK T" and "present T r" and "i \<in> set (clusters T)" and "used T i" and "fits T r i" and "cl_automatic (au_cluster T i)"
    and "\<forall>j. inOpen T r j \<longrightarrow> j = i" and "\<not> unconfigured T r"
  shows "yields (assignIfOpen bus r (Some i)) T
    (\<lambda>U. considerate r T U \<and> placed U r \<and> (\<not> cl_locked (au_cluster T i) \<longrightarrow> inOpen U r i))"
proof (cases "cl_locked (au_cluster T i)")
  case True
  then show ?thesis using assms evolves_considerate [OF evolves_refl assms(1), of r]
    by (auto simp: assignIfOpen_def placed_def settled_def)
next
  case False
  have "considerate r T (added r i T)" by (rule added_considerate [OF assms(1-4)])
  moreover have only: "j = i" if "inOpen (added r i T) r j" for j
    using that added_open(1) [OF assms(2, 3), of r j] assms(7) by blast
  have "placed (added r i T) r"
    unfolding placed_def settled_def
  proof (intro conjI allI impI)
    fix j k assume j: "inOpen (added r i T) r j"
    show "fits (added r i T) r j" using only [OF j] added_open(2) [OF assms(2, 3)] assms(5) by simp
    show "\<not> unconfigured (added r i T) r" using added_open(3) [OF assms(2, 3)] assms(8) by simp
  next
    fix j k assume "inOpen (added r i T) r j \<and> inOpen (added r i T) r k"
    then show "j = k" using only [of j] only [of k] by simp
  qed
  moreover have "inOpen (added r i T) r i" using added_open(1) [OF assms(2, 3)] assms(6) False by (simp add: openCluster_def)
  ultimately show ?thesis using False by (simp add: assignIfOpen_def assign_yields)
qed

text \<open>There is room for the device: it is configured, no cluster is locked and one is free.\<close>

definition room :: "autoState \<Rightarrow> dsuid \<Rightarrow> bool" where
  "room S r \<longleftrightarrow> r \<in> set (house S) \<and> \<not> unconfigured S r \<and> (\<forall>i \<in> set (clusters S). \<not> cl_locked (au_cluster S i)) \<and>
     (\<exists>i \<in> set (clusters S). \<not> used S i)"

definition checked :: "dsuid \<Rightarrow> autoState \<Rightarrow> autoState \<Rightarrow> bool" where
  "checked r S T \<longleftrightarrow> considerate r S T \<and> placed T r \<and> (lockedIn S r \<longrightarrow> (\<forall>i. \<not> inOpen T r i)) \<and> (room S r \<longrightarrow> (\<exists>i. inOpen T r i))"

lemma findOrCreate_yields:
  assumes "autoOK S" and "present S r" and "\<forall>i. \<not> inOpen S r i" and "\<not> unconfigured S r" and "\<not> lockedIn S r"
  shows "yields (findOrCreateCluster bus (au_direction S r) (au_protection S r) (assignIfOpen bus r)) S (checked r S)"
proof -
  let ?d = "au_direction S r" let ?w = "au_protection S r"
  let ?P = "\<lambda>i. used S i \<and> cl_protection (au_cluster S i) = ?w \<and> cl_location (au_cluster S i) = ?d \<and> cl_automatic (au_cluster S i)"
  have f: "sbind (clusterIds S) (findCluster S ?d ?w) = Inr (find ?P (clusters S))"
    using assms(1) by (simp add: clusterIds_ok sbind_def findCluster_ok)
  have idle: "checked r S S" if "\<not> room S r"
    using that assms evolves_considerate [OF evolves_refl assms(1), of r] by (auto simp: checked_def placed_def settled_def)
  consider i where "find ?P (clusters S) = Some i" "i \<in> set (clusters S)" "?P i"
    | "find ?P (clusters S) = None" "getEmptyCluster (au_apartment S) = Inr None" "\<forall>i \<in> set (clusters S). used S i"
    | g where "find ?P (clusters S) = None" "getEmptyCluster (au_apartment S) = Inr (Some g)" "g_id g \<in> set (clusters S)" "\<not> used S (g_id g)"
    using getEmpty_ok [OF assms(1)] by (cases "find ?P (clusters S)") (auto simp: find_Some_iff)
  then show ?thesis
  proof cases
    case 1
    have "yields (assignIfOpen bus r (Some i)) S (\<lambda>U. considerate r S U \<and> placed U r \<and> (\<not> cl_locked (au_cluster S i) \<longrightarrow> inOpen U r i))"
      using 1 assms by (intro place_in) (auto simp: fits_def)
    then have "yields (assignIfOpen bus r (Some i)) S (checked r S)"
      by (rule yields_mono) (use 1(2) assms(5) in \<open>auto simp: checked_def room_def\<close>)
    then show ?thesis using f 1(1) by (simp add: findOrCreateCluster_def)
  next
    case 2
    have "checked r S S" using 2(3) by (intro idle) (auto simp: room_def)
    then show ?thesis unfolding findOrCreateCluster_def yields_simps f 2(1, 2) by (simp add: assignIfOpen_def)
  next
    case 3
    let ?i = "g_id g" let ?T = "madeUp ?i ?d ?w S"
    note m = madeUp_simps [OF assms(1) 3(3), of ?d ?w]
    have c: "considerate r S ?T" by (rule madeUp_considerate [OF assms(1) 3(3, 4)])
    have "inOpen ?T r j \<longrightarrow> j = ?i" for j using assms(3) by (auto simp: inOpen_def m openCluster_def split: if_splits)
    then have "yields (assignIfOpen bus r (Some ?i)) ?T (\<lambda>U. considerate r ?T U \<and> placed U r \<and> (\<not> cl_locked (au_cluster ?T ?i) \<longrightarrow> inOpen U r ?i))"
      using assms 3(3) considerateD [OF c] m(7) by (intro place_in) (auto simp: m fits_def sameHouse_def)
    then have "yields (assignIfOpen bus r (Some ?i)) ?T (checked r S)"
    proof (rule yields_mono)
      fix U assume "considerate r ?T U \<and> placed U r \<and> (\<not> cl_locked (au_cluster ?T ?i) \<longrightarrow> inOpen U r ?i)"
      then show "checked r S U"
        using considerate_trans [OF c] assms(5) 3(3) unfolding checked_def room_def by (auto simp: m)
    qed
    then have "yields (runAll [setUpCluster bus ?i ?d ?w, assignIfOpen bus r (Some ?i)]) S (checked r S)"
      by (intro yields_Cons setUp_yields) (simp add: yields_Cons)
    then show ?thesis unfolding findOrCreateCluster_def yields_simps f 3(1, 2) by simp
  qed
qed

lemma assignCluster_yields:
  assumes "autoOK S" and "present S r" and "\<forall>i. settled S r i"
  shows "yields (assignCluster bus r) S (checked r S)"
proof -
  let ?V = "filter (inOpen S r) (clusters S)"
  obtain l where l: "getFirstLockedClusterAssignment S r = Inr l" "l \<noteq> 0 \<longleftrightarrow> lockedIn S r" using locked_ok [OF assms(1)] by blast
  note u = unlocked_ok [OF assms(1, 3)]
  have remove: "yields (runAll (map (removeDeviceFromCluster bus r) xs)) S
      (\<lambda>T. evolves r S T \<and> autoOK T \<and> (\<forall>k. k \<in> set (groupsOf T r) \<longleftrightarrow> k \<in> set (groupsOf S r) \<and> k \<notin> set xs))"
    if "set xs \<subseteq> set ?V" for xs using removeAll_yields [OF assms(1, 2)] that by auto
  have here: "checked r S T"
    if "evolves r S T" "autoOK T" "\<And>i j. inOpen T r i \<Longrightarrow> inOpen T r j \<Longrightarrow> i = j" "lockedIn S r \<Longrightarrow> \<forall>i. \<not> inOpen T r i"
      "room S r \<Longrightarrow> \<exists>i. inOpen T r i" for T
    using that evolves_considerate [OF that(1, 2)] settled_evolves [OF _ that(1)] assms(3) unfolding checked_def placed_def by blast
  consider "lockedIn S r" | "\<not> lockedIn S r" "?V \<noteq> []" | "\<not> lockedIn S r" "?V = []" by blast
  then show ?thesis
  proof cases
    case 1
    have "checked r S T"
      if "evolves r S T \<and> autoOK T \<and> (\<forall>k. k \<in> set (groupsOf T r) \<longleftrightarrow> k \<in> set (groupsOf S r) \<and> k \<notin> set ?V)" for T
    proof -
      have "\<not> inOpen T r i" for i using that evolves_open(1) [of r S T r i] by (auto simp: inOpen_def)
      moreover have "\<not> room S r" using 1 by (auto simp: room_def lockedIn_def)
      ultimately show ?thesis using that by (intro here) auto
    qed
    from yields_mono [OF remove [OF order.refl] this] show ?thesis
      unfolding assignCluster_def yields_simps l(1) u sum.case using 1 l(2) by simp
  next
    case 2
    let ?k = "hd ?V" let ?X = "filter (\<lambda>i. i \<noteq> ?k) ?V"
    have k: "inOpen S r ?k" using 2(2) hd_in_set [of ?V] by simp
    then have conf: "\<not> unconfigured S r" using assms(3) by (auto simp: settled_def)
    have "checked r S T"
      if T: "evolves r S T \<and> autoOK T \<and> (\<forall>k. k \<in> set (groupsOf T r) \<longleftrightarrow> k \<in> set (groupsOf S r) \<and> k \<notin> set ?X)" for T
    proof -
      have only: "i = ?k" if "inOpen T r i" for i
      proof (rule ccontr)
        assume "i \<noteq> ?k"
        moreover have "inOpen S r i" "i \<in> set (clusters S)" using that T evolves_open(1) [of r S T r i] by (auto simp: inOpen_def)
        ultimately show False using that T by (auto simp: inOpen_def)
      qed
      have stays: "inOpen T r ?k" if "r \<in> set (house S)"
      proof -
        have g: "?k \<in> set (groupsOf T r)" using T k by (auto simp: inOpen_def)
        then have "\<not> released T ?k" using that T evolves_present [of r S T] by (auto simp: released_def clusterMembers_def filter_empty_conv)
        then show ?thesis using T k g evolves_present [of r S T] by (auto simp: inOpen_def openCluster_def evolves_def)
      qed
      show ?thesis
      proof (rule here)
        show "evolves r S T" "autoOK T" using T by simp_all
        show "i = j" if "inOpen T r i" "inOpen T r j" for i j using only [OF that(1)] only [OF that(2)] by simp
        show "\<forall>i. \<not> inOpen T r i" if "lockedIn S r" using 2(1) that by simp
        show "\<exists>i. inOpen T r i" if "room S r" using stays that by (auto simp: room_def)
      qed
    qed
    moreover have "set ?X \<subseteq> set ?V" by auto
    ultimately have "yields (runAll (map (removeDeviceFromCluster bus r) ?X)) S (checked r S)"
      by (intro yields_mono [OF remove])
    moreover have "l = 0" using 2(1) l(2) by blast
    ultimately show ?thesis
      unfolding assignCluster_def yields_simps l(1) u sum.case using 2(2) conf by (simp only: if_False if_True simp_thms)
  next
    case 3
    then have none: "\<forall>i. \<not> inOpen S r i" by (auto simp: filter_empty_conv inOpen_def)
    have "checked r S S" if "unconfigured S r"
      using that none assms(1) by (intro here evolves_refl) (auto simp: room_def)
    then show ?thesis
      unfolding assignCluster_def yields_simps l(1) u sum.case
      using 3 l(2) findOrCreate_yields [OF assms(1, 2) none _ 3(1), of bus] by (cases "unconfigured S r") simp_all
  qed
qed

section \<open>What the checks achieve\<close>

lemma locked_kept:
  assumes "evolves r S T" and "keepsBut {i. openCluster i S} r S T" and "lockedIn S r"
  shows "lockedIn T r"
proof -
  obtain i where i: "i \<in> set (clusters S)" "cl_locked (au_cluster S i)" "cl_automatic (au_cluster S i)" "fits S r i" "i \<in> set (groupsOf S r)"
    using assms(3) by (auto simp: lockedIn_def)
  then have "\<not> openCluster i S" by (simp add: openCluster_def)
  then have "au_cluster T i = au_cluster S i" "i \<in> set (groupsOf T r)" using assms(1, 2) i by (auto simp: evolves_def keepsBut_def)
  moreover have "i \<in> set (clusters T)" "fits T r i"
    using i assms(1) \<open>au_cluster T i = au_cluster S i\<close> by (simp_all add: fits_def evolves_def sameHouse_def)
  ultimately show ?thesis using i unfolding lockedIn_def by (intro bexI [of _ i]) simp_all
qed

lemma room_kept:
  assumes "evolves r S T" and "room S r"
  shows "room T r"
proof -
  have "\<not> cl_locked (au_cluster T i)" if "i \<in> set (clusters S)" for i
    using that assms by (auto simp: room_def evolves_def released_def newClusterData_def)
  moreover have "\<not> used T i" if "i \<in> set (clusters S)" "\<not> used S i" for i
    using that assms(1) by (auto simp: evolves_def released_def used_def)
  ultimately show ?thesis using assms(2) evolves_present [OF assms(1)] evolves_unconfigured [OF assms(1)] by (auto simp: room_def)
qed

lemma check_yields:
  assumes "autoOK S" and "present S r"
  shows "yields (consistencyCheck bus r) S (checked r S)"
  unfolding consistencyCheck_def
proof (rule yields_then [OF removeInvalid_yields [OF assms]])
  fix T assume T: "evolves r S T \<and> autoOK T \<and> keepsBut {i. openCluster i S} r S T \<and> (\<forall>i. settled T r i)"
  have "yields (assignCluster bus r) T (checked r T)"
    using T assms(2) evolves_present [of r S T] by (intro assignCluster_yields) auto
  moreover have "checked r S U" if "checked r T U" for U
    using that T considerate_trans [OF evolves_considerate [of r S T]] locked_kept [of r S T] room_kept [of r S T] by (auto simp: checked_def)
  ultimately show "yields (runAll [assignCluster bus r]) T (checked r S)" by (intro yields_last) (rule yields_mono)
qed

text \<open>
  C8: The check of a shade returns, whatever the bus throws.  Afterwards the shade is in at most one open
  cluster (automatic and not locked), which fits its direction and its class; it is in none when a locked
  cluster that fits has it, and in one when it is configured, no cluster is locked and one is free.  The
  groups of all other devices stay as they are.
\<close>

theorem check_places:
  assumes "autoOK S" and "present S r"
  shows "\<exists>T cs'. consistencyCheck bus r (S, cs) = (T, cs', None) \<and>
    (\<forall>i. inOpen T r i \<longrightarrow> fits T r i \<and> \<not> unconfigured T r) \<and> (\<forall>i j. inOpen T r i \<and> inOpen T r j \<longrightarrow> i = j) \<and>
    (lockedIn S r \<longrightarrow> (\<forall>i. \<not> inOpen T r i)) \<and> (room S r \<longrightarrow> (\<exists>i. inOpen T r i)) \<and>
    (\<forall>x. x \<noteq> r \<longrightarrow> groupsOf T x = groupsOf S x)"
proof -
  obtain T cs' where "consistencyCheck bus r (S, cs) = (T, cs', None)" "checked r S T"
    using yieldsD [OF check_yields [OF assms]] by blast
  then show ?thesis
    by (intro exI [of _ T] exI [of _ cs']) (auto simp: checked_def considerate_def placed_def settled_def)
qed

definition allKept :: "autoState \<Rightarrow> autoState \<Rightarrow> bool" where
  "allKept S T \<longleftrightarrow> sameHouse S T \<and> (freeEmpty S \<longrightarrow> freeEmpty T \<and> (\<forall>x \<in> set (house S). placed S x \<longrightarrow> placed T x))"

lemma allKept_order: "reflp allKept" "transp allKept"
  by (auto simp: allKept_def sameHouse_order reflp_def transp_def) (auto simp: sameHouse_def)

lemma checked_allKept: "checked r S T \<Longrightarrow> allKept S T"
  by (auto simp: checked_def considerate_def allKept_def)

lemma global_yields:
  assumes "autoOK S" and "freeEmpty S" and "set (getDevices (au_apartment S)) \<subseteq> set (house S)" and "distinct (getDevices (au_apartment S))"
  shows "yields (globalConsistencyCheck bus) S (\<lambda>T. autoOK T \<and> sameHouse S T \<and>
    (\<forall>r. present S r \<and> getDeviceClass (dev (au_apartment S) r) = CLASS_GR \<longrightarrow> placed T r))"
proof -
  let ?A = "au_apartment S"
  let ?rs = "filter (\<lambda>r. getDeviceClass (dev ?A r) = CLASS_GR) (getDevices ?A)"
  let ?body = "\<lambda>r. reading (\<lambda>S. case getDeviceByDSID (au_apartment S) r of Inl e \<Rightarrow> failRun e | Inr _ \<Rightarrow> consistencyCheck bus r)"
  define I where "I T \<longleftrightarrow> autoOK T \<and> freeEmpty T \<and> sameHouse S T" for T
  define P where "P r T \<longleftrightarrow> placed T r \<and> freeEmpty T \<and> r \<in> set (house T)" for r T
  have "yields (runAll (map ?body ?rs)) S (\<lambda>T. allKept S T \<and> I T \<and> (\<forall>r \<in> set ?rs. P r T))"
  proof (rule yields_each [OF allKept_order])
    fix r T assume r: "r \<in> set ?rs" and T: "I T"
    have p: "present T r" "autoOK T" "r \<in> set (house T)" using r T assms(3) by (auto simp: I_def present_def sameHouse_def)
    have "allKept T U \<and> I U \<and> P r U" if "checked r T U" for U
      using that checked_allKept [OF that] T p(3) sameHouse_order(2) [of S T U]
      by (auto simp: I_def P_def checked_def considerate_def sameHouse_def)
    then have "yields (consistencyCheck bus r) T (\<lambda>U. allKept T U \<and> I U \<and> P r U)" by (rule yields_mono [OF check_yields [OF p(2, 1)]])
    then show "yields (?body r) T (\<lambda>U. allKept T U \<and> I U \<and> P r U)"
      using p(1) getDevice_known [of "au_apartment T" r] by (simp add: present_lookup)
  next
    show "P r T'" if "P r T" "allKept T T'" for r T T' using that by (auto simp: P_def allKept_def sameHouse_def)
    show "I S" using assms by (simp add: I_def sameHouse_order)
  qed
  then have "yields (runAll (map ?body ?rs)) S (\<lambda>T. autoOK T \<and> sameHouse S T \<and>
      (\<forall>r. present S r \<and> getDeviceClass (dev ?A r) = CLASS_GR \<longrightarrow> placed T r))"
    by (rule yields_mono) (auto simp: I_def P_def present_def)
  moreover have "known ?A (getDevices ?A)" by (simp add: known_iff)
  ultimately show ?thesis
    using assms(4) unfolding globalConsistencyCheck_def yields_simps by (simp add: getByColor_def getSubset_known)
qed


section \<open>Joining\<close>

text \<open>One device moves: what it does to the groups, and to the clusters that are left without a member.\<close>

definition hopped :: "int \<Rightarrow> int \<Rightarrow> dsuid \<Rightarrow> autoState \<Rightarrow> autoState \<Rightarrow> bool" where
  "hopped j i r T U \<longleftrightarrow> autoOK U \<and> sameHouse T U \<and>
     (\<forall>x. set (groupsOf U x) = (if x = r then insert i (set (groupsOf T r) - {j}) else set (groupsOf T x))) \<and>
     (if openCluster i T \<and> clusterMembers T i = []
      then au_cluster U i = newClusterData \<and> \<not> used U i
      else au_cluster U i = au_cluster T i \<and> used U i = used T i)"

lemma hop_yields:
  assumes "autoOK T" and "present T r" and "i \<in> set (clusters T)" and "j \<in> set (clusters T)" and "i \<noteq> j"
  shows "yields (runAll [removeDeviceFromCluster bus r j, assignDeviceToCluster bus r i]) T (hopped j i r T)"
proof (rule yields_then [OF removeDevice_yields [OF assms(1) _ assms(4)]])
  show "tryGetDeviceByDSID (au_apartment T) r \<noteq> None" using assms(2) by (simp add: present_lookup)
  fix U assume U: "evolves r T U \<and> autoOK U \<and> groupsOf U r = remove1 j (groupsOf T r) \<and> noEmpty U"
  then have ev: "evolves r T U" and groups: "set (groupsOf U r) = set (groupsOf T r) - {j}" "\<forall>x. x \<noteq> r \<longrightarrow> groupsOf U x = groupsOf T x"
    using autoOKD(5) [OF assms(1), of r] assms(2) by (simp_all add: evolves_def present_lookup)
  note p = evolves_present [OF ev]
  have "hopped j i r T (added r i U)"
  proof -
    have d: "tryGetDeviceByDSID (au_apartment U) r \<noteq> None" using p assms(2) by (simp add: present_lookup)
    have "autoOK (added r i U)" "sameHouse U (added r i U)"
      using onMember_dev(2, 4, 5) [OF groupChanges(2) d] U by (simp_all add: added_def sameHouse_def)
    moreover have "sameHouse T U" using ev by (simp add: evolves_def)
    moreover have "set (groupsOf (added r i U) x) = (if x = r then insert i (set (groupsOf T r) - {j}) else set (groupsOf T x))" for x
      using added_groups(1) [of U r i x] p assms(2, 3) groups by auto
    moreover have same: "au_cluster (added r i U) i = au_cluster U i" "used (added r i U) i = used U i" by (simp_all add: added_def used_def)
    moreover have "if openCluster i T \<and> clusterMembers T i = []
      then au_cluster U i = newClusterData \<and> \<not> used U i else au_cluster U i = au_cluster T i \<and> used U i = used T i"
    proof (cases "openCluster i T \<and> clusterMembers T i = []")
      case True
      then have "clusterMembers U i = []" using members_shrink [OF ev, of i] by simp
      then have "\<not> openCluster i U" using U p assms(3) by (auto simp: noEmpty_def)
      then have "au_cluster U i \<noteq> au_cluster T i" using True by (auto simp: openCluster_def)
      then have "released U i" using ev assms(3) by (auto simp: evolves_def)
      then show ?thesis using True by (simp add: released_def)
    next
      case False
      have "\<not> (openCluster i T \<and> released U i)"
      proof
        assume a: "openCluster i T \<and> released U i"
        then have "clusterMembers T i \<noteq> []" using False by blast
        then obtain x where x: "x \<in> set (house T)" "i \<in> set (groupsOf T x)" by (auto simp: clusterMembers_def filter_empty_conv)
        then have "i \<in> set (groupsOf U x)" using groups assms(5) by (cases "x = r") simp_all
        then have "x \<in> set (clusterMembers U i)" using x p by (simp add: clusterMembers_def)
        then show False using a by (simp add: released_def)
      qed
      then have "au_cluster U i = au_cluster T i \<and> groupOf U i = groupOf T i" using ev assms(3) by (auto simp: evolves_def)
      then show ?thesis using False by (simp only: used_def if_False simp_thms)
    qed
    ultimately show ?thesis using sameHouse_order(2) [of T U "added r i U"] by (simp add: hopped_def)
  qed
  then show "yields (runAll [assignDeviceToCluster bus r i]) U (hopped j i r T)" by (intro yields_last assign_yields)
qed

text \<open>All devices of a list move, while the destination is not an open cluster without members.\<close>

definition movedAll :: "int \<Rightarrow> int \<Rightarrow> dset \<Rightarrow> autoState \<Rightarrow> autoState \<Rightarrow> bool" where
  "movedAll j i rs T U \<longleftrightarrow> autoOK U \<and> sameHouse T U \<and>
     (\<forall>x. set (groupsOf U x) = (if x \<in> set rs then insert i (set (groupsOf T x) - {j}) else set (groupsOf T x)))"

lemma hops_yield:
  assumes "i \<noteq> j"
  shows "autoOK T \<Longrightarrow> i \<in> set (clusters T) \<Longrightarrow> j \<in> set (clusters T) \<Longrightarrow> set rs \<subseteq> set (house T) \<Longrightarrow>
    \<not> (openCluster i T \<and> clusterMembers T i = []) \<Longrightarrow>
    yields (runAll (map (\<lambda>r. runAll [removeDeviceFromCluster bus r j, assignDeviceToCluster bus r i]) rs)) T
      (\<lambda>U. movedAll j i rs T U \<and> au_cluster U i = au_cluster T i \<and> used U i = used T i)"
proof (induction rs arbitrary: T)
  case Nil
  then show ?case by (simp add: movedAll_def sameHouse_order)
next
  case (Cons r rs)
  have r: "present T r" using Cons.prems(1, 4) autoOKD(3) [OF Cons.prems(1)] by (auto simp: known_def present_lookup)
  show ?case unfolding list.map(2)
  proof (rule yields_then [OF hop_yields [OF Cons.prems(1) r Cons.prems(2, 3) assms]])
    fix U assume U: "hopped j i r T U"
    then have i: "au_cluster U i = au_cluster T i" "used U i = used T i" and sh: "sameHouse T U" "autoOK U"
      and g: "\<forall>x. set (groupsOf U x) = (if x = r then insert i (set (groupsOf T r) - {j}) else set (groupsOf T x))"
      using Cons.prems(5) by (auto simp: hopped_def)
    have "set (clusterMembers T i) \<subseteq> set (clusterMembers U i)" using g sh by (auto simp: clusterMembers_def sameHouse_def)
    then have "\<not> (openCluster i U \<and> clusterMembers U i = [])" using Cons.prems(5) i(1) by (auto simp: openCluster_def)
    then have "yields (runAll (map (\<lambda>r. runAll [removeDeviceFromCluster bus r j, assignDeviceToCluster bus r i]) rs)) U
        (\<lambda>V. movedAll j i rs U V \<and> au_cluster V i = au_cluster U i \<and> used V i = used U i)"
      using Cons.prems sh by (intro Cons.IH) (auto simp: sameHouse_def)
    moreover have "movedAll j i (r # rs) T V" if "movedAll j i rs U V" for V
      using that g sh assms sameHouse_order(2) [of T U V] by (auto simp: movedAll_def)
    ultimately show "yields (runAll (map (\<lambda>r. runAll [removeDeviceFromCluster bus r j, assignDeviceToCluster bus r i]) rs)) U
        (\<lambda>V. movedAll j i (r # rs) T V \<and> au_cluster V i = au_cluster T i \<and> used V i = used T i)"
      using i by (auto elim!: yields_mono)
  qed
qed

lemma moved_members:
  assumes "movedAll j i (clusterMembers S j) S T" and "i \<noteq> j"
  shows "set (clusterMembers T i) = set (clusterMembers S i) \<union> set (clusterMembers S j)" "clusterMembers T j = []"
  using assms by (auto simp: movedAll_def sameHouse_def clusterMembers_def filter_empty_conv split: if_splits)

lemma move_run:
  assumes "autoOK S" and "j \<in> set (clusters S)"
    and "yields (runAll (map (\<lambda>r. runAll [removeDeviceFromCluster bus r j, assignDeviceToCluster bus r i]) (clusterMembers S j))) S Q"
  shows "\<exists>T cs'. moveClusterDevices bus j i (S, cs) = (T, cs', None) \<and> Q T"
proof -
  have "yields (moveClusterDevices bus j i) S Q"
    unfolding moveClusterDevices_def yields_simps groupDevices_cluster [OF assms(1, 2)] sum.case by (rule assms(3))
  then show ?thesis by (rule yieldsD)
qed

text \<open>
  C19: Moving the devices of a cluster into one that has members empties the first, gives all devices to the
  second and leaves its configuration as it was.
\<close>

theorem move_merges:
  assumes "autoOK S" and "i \<in> set (clusters S)" and "j \<in> set (clusters S)" and "i \<noteq> j" and "clusterMembers S i \<noteq> []"
  shows "\<exists>T cs'. moveClusterDevices bus j i (S, cs) = (T, cs', None) \<and> clusterMembers T j = [] \<and>
    set (clusterMembers T i) = set (clusterMembers S i) \<union> set (clusterMembers S j) \<and> au_cluster T i = au_cluster S i"
proof -
  have "yields (runAll (map (\<lambda>r. runAll [removeDeviceFromCluster bus r j, assignDeviceToCluster bus r i]) (clusterMembers S j))) S
      (\<lambda>U. movedAll j i (clusterMembers S j) S U \<and> au_cluster U i = au_cluster S i \<and> used U i = used S i)"
    using assms by (intro hops_yield) (auto simp: clusterMembers_def)
  then show ?thesis using move_run [OF assms(1, 3), of bus i] moved_members [OF _ assms(4), of S] by blast
qed

text \<open>
  C20: When the second is open and has no members it is reset by the very first removal: in the end it has the
  devices, but it is no automatic cluster any more, and a free one, so that the devices are in no cluster
  for their configuration.
\<close>

theorem join_loses:
  assumes "autoOK S" and "i \<in> set (clusters S)" and "j \<in> set (clusters S)" and "i \<noteq> j"
    and "openCluster i S" and "clusterMembers S i = []" and "clusterMembers S j \<noteq> []"
  shows "\<exists>T cs'. moveClusterDevices bus j i (S, cs) = (T, cs', None) \<and> clusterMembers T j = [] \<and>
    set (clusterMembers T i) = set (clusterMembers S j) \<and> \<not> cl_automatic (au_cluster T i) \<and> \<not> used T i"
proof -
  obtain r rs where rs: "clusterMembers S j = r # rs" using assms(7) by (cases "clusterMembers S j") auto
  have house: "set (r # rs) \<subseteq> set (house S)" unfolding rs [symmetric] by (simp add: clusterMembers_def)
  then have r: "present S r" using autoOKD(3) [OF assms(1)] by (auto simp: known_def present_lookup)
  let ?hop = "\<lambda>r. runAll [removeDeviceFromCluster bus r j, assignDeviceToCluster bus r i]"
  have "yields (runAll (?hop r # map ?hop rs)) S (\<lambda>U. movedAll j i (r # rs) S U \<and> au_cluster U i = newClusterData \<and> \<not> used U i)"
  proof (rule yields_then [OF hop_yields [OF assms(1) r assms(2-4)]])
    fix U assume U: "hopped j i r S U"
    then have i: "au_cluster U i = newClusterData" "\<not> used U i" and sh: "sameHouse S U" "autoOK U"
      and g: "\<forall>x. set (groupsOf U x) = (if x = r then insert i (set (groupsOf S r) - {j}) else set (groupsOf S x))"
      using assms(5, 6) by (auto simp: hopped_def)
    have "\<not> openCluster i U" using i(1) by (simp add: openCluster_def newClusterData_def)
    then have "yields (runAll (map ?hop rs)) U (\<lambda>V. movedAll j i rs U V \<and> au_cluster V i = au_cluster U i \<and> used V i = used U i)"
      using assms(2-4) house sh by (intro hops_yield) (auto simp: sameHouse_def)
    moreover have "movedAll j i (r # rs) S V" if "movedAll j i rs U V" for V
      using that g sh assms(4) sameHouse_order(2) [of S U V] by (auto simp: movedAll_def)
    ultimately show "yields (runAll (map ?hop rs)) U (\<lambda>V. movedAll j i (r # rs) S V \<and> au_cluster V i = newClusterData \<and> \<not> used V i)"
      using i by (auto elim!: yields_mono)
  qed
  then obtain T cs' where T: "moveClusterDevices bus j i (S, cs) = (T, cs', None)" "movedAll j i (clusterMembers S j) S T"
      "au_cluster T i = newClusterData" "\<not> used T i"
    using move_run [OF assms(1, 3), of bus i _ cs] unfolding rs list.map(2) by blast
  then show ?thesis using moved_members [OF T(2) assms(4)] assms(6) by (auto simp: newClusterData_def)
qed

section \<open>Examples\<close>

definition exampleShade :: "dsuid \<Rightarrow> int list \<Rightarrow> device" where
  "exampleShade r gs = (newDevice r)\<lparr>d_functionID := 0x2000, d_groupIds := gs\<rparr>"

definition northCluster :: clusterData where
  "northCluster = newClusterData\<lparr>cl_location := cd_north, cl_protection := wpc_blind_class_1, cl_automatic := True\<rparr>"

text \<open>Two shades, of which the second looks to the south; the clusters 16 and 17 of the north, and 18 free.\<close>

definition exampleAuto :: "int list \<Rightarrow> int list \<Rightarrow> autoState" where
  "exampleAuto gs hs = \<lparr>au_apartment = \<lparr>a_devices = [exampleShade [1] gs, exampleShade [2] hs],
       a_zones = [(newZone 0)\<lparr>z_devices := [[1], [2]], z_groups := [(newCluster 16)\<lparr>g_applicationType := AT_Blinds\<rparr>,
         (newCluster 17)\<lparr>g_applicationType := AT_Blinds\<rparr>, newCluster 18]\<rparr>], a_dsMeters = []\<rparr>,
     au_cluster = (\<lambda>i. if i = 16 \<or> i = 17 then northCluster else newClusterData),
     au_direction = (\<lambda>r. if r = [1] then cd_north else cd_south), au_protection = (\<lambda>_. wpc_blind_class_1)\<rparr>"

lemma example_devices:
  "tryGetDeviceByDSID (au_apartment (exampleAuto gs hs)) r =
     (if r = [1] then Some (exampleShade [1] gs) else if r = [2] then Some (exampleShade [2] hs) else None)"
  by (simp add: exampleAuto_def exampleShade_def newDevice_def tryGetDeviceByDSID_def)

lemma example_zone: "zone0 (exampleAuto gs hs) = (newZone 0)\<lparr>z_devices := [[1], [2]], z_groups := [(newCluster 16)\<lparr>g_applicationType := AT_Blinds\<rparr>,
    (newCluster 17)\<lparr>g_applicationType := AT_Blinds\<rparr>, newCluster 18]\<rparr>"
  by (simp add: exampleAuto_def zone0_def tryGetZone_def newZone_def)

lemma exampleAuto_ok: "distinct gs \<Longrightarrow> distinct hs \<Longrightarrow> autoOK (exampleAuto gs hs)"
  by (auto simp: autoOK_def example_zone house_def groupsOf_def dev_def example_devices exampleShade_def newCluster_def newGroup_def
      tryGetZone_def known_def) (simp_all add: exampleAuto_def newZone_def)

lemma example_clusters: "clusters (exampleAuto gs hs) = [16, 17, 18]"
  by (simp add: clusters_def example_zone newCluster_def newGroup_def isAppUserGroup_def GroupIDAppUserMin_def GroupIDAppUserMax_def)

lemma example_members:
  "clusterMembers (exampleAuto gs hs) i = filter (\<lambda>r. r = [1] \<and> i \<in> set gs \<or> r = [2] \<and> i \<in> set hs) [[1], [2]]"
  "house (exampleAuto gs hs) = [[1], [2]]"
  by (simp_all add: clusterMembers_def house_def example_zone groupsOf_def dev_def example_devices exampleShade_def)

lemma example_used: "i \<in> {16, 17, 18} \<Longrightarrow> used (exampleAuto gs hs) i \<longleftrightarrow> i \<noteq> 18"
  by (auto simp: used_def groupOf_def exampleAuto_def tryGetZone_def newZone_def zoneGroup_def newCluster_def newGroup_def)

theorem check_places_witness:
  "\<exists>T cs'. consistencyCheck (\<lambda>_. None) [2] (exampleAuto [16] [16], []) = (T, cs', None) \<and> (\<exists>i. inOpen T [2] i \<and> fits T [2] i) \<and>
     groupsOf T [1] = groupsOf (exampleAuto [16] [16]) [1]"
proof -
  have "autoOK (exampleAuto [16] [16])" "present (exampleAuto [16] [16]) [2]" by (simp_all add: exampleAuto_ok present_lookup example_devices)
  moreover have "room (exampleAuto [16] [16]) [2]"
    by (simp add: room_def example_members example_clusters example_used unconfigured_def)
      (simp add: exampleAuto_def northCluster_def newClusterData_def)
  moreover have "[1] \<noteq> ([2] :: dsuid)" by simp
  ultimately show ?thesis using check_places [of "exampleAuto [16] [16]" "[2]" "\<lambda>_. None" "[]"] by blast
qed


theorem move_merges_witness:
  "\<exists>T cs'. moveClusterDevices (\<lambda>_. None) 17 16 (exampleAuto [16] [17], []) = (T, cs', None) \<and> clusterMembers T 17 = [] \<and>
    set (clusterMembers T 16) = {[1], [2]} \<and> au_cluster T 16 = northCluster"
proof -
  have "autoOK (exampleAuto [16] [17])" by (simp add: exampleAuto_ok)
  from move_merges [OF this, of 16 17 "\<lambda>_. None" "[]"] show ?thesis
    by (simp add: example_clusters example_members insert_commute) (simp add: exampleAuto_def)
qed

theorem join_loses_witness:
  "\<exists>T cs'. moveClusterDevices (\<lambda>_. None) 17 16 (exampleAuto [17] [17], []) = (T, cs', None) \<and> clusterMembers T 17 = [] \<and>
    set (clusterMembers T 16) = {[1], [2]} \<and> \<not> cl_automatic (au_cluster T 16) \<and> \<not> used T 16"
proof -
  have "autoOK (exampleAuto [17] [17])" "openCluster 16 (exampleAuto [17] [17])"
    by (simp_all add: exampleAuto_ok openCluster_def) (simp_all add: exampleAuto_def northCluster_def newClusterData_def)
  from join_loses [OF this(1) _ _ _ this(2), of 17 "\<lambda>_. None" "[]"] show ?thesis
    by (simp add: example_clusters example_members)
qed

end
