(* ===== verification/Event_Create.thy ===== *)
theory Event_Create
  imports Event_Core Zone_Heating Data_Types Model_State
begin

text \<open>
  The constructors of events of \<^verbatim>\<open>src/src/event/event_create.cpp\<close>, with the names of their fields in
  \<^verbatim>\<open>src/src/event/event_fields.cpp\<close>; \<open>createStateChangeEvent\<close> is in \<open>Model_State\<close>.  \<open>fmt\<close> is
  \<^verbatim>\<open>doubleToString\<close>, the printing of a double by the library's streams.  The values of a virtual device
  are what \<^verbatim>\<open>src/src/util.cpp\<close> reads of a message of the protocol buffers library.
\<close>

section \<open>Names of fields\<close>

abbreviation ef_callOrigin :: string where "ef_callOrigin \<equiv> ''callOrigin''"
abbreviation ef_originDSUID :: string where "ef_originDSUID \<equiv> ''originDSUID''"
abbreviation ef_sceneID :: string where "ef_sceneID \<equiv> ''sceneID''"
abbreviation ef_forced :: string where "ef_forced \<equiv> ''forced''"
abbreviation ef_sensorIndex :: string where "ef_sensorIndex \<equiv> ''sensorIndex''"

text \<open>The calls of \<^verbatim>\<open>setProperty\<close> that a constructor makes, one after the other.\<close>

abbreviation filled :: "event \<Rightarrow> (string \<times> string) list \<Rightarrow> event" where
  "filled \<equiv> applyProperties"

definition boolString :: "bool \<Rightarrow> string" where
  "boolString b = (if b then ''true'' else ''false'')"

section \<open>Values of virtual devices\<close>

record propertyValue =
  v_bool :: "bool option"
  v_double :: "real option"
  v_int64 :: "u64 option"
  v_uint64 :: "u64 option"
  v_string :: "string option"

record propertyElement =
  pe_name :: "string option"
  pe_value :: "propertyValue option"

definition propertyValue2String :: "(real \<Rightarrow> string) \<Rightarrow> propertyValue \<Rightarrow> string" where
  "propertyValue2String fmt p =
     (let value = [];
          value = (case v_bool p of Some b \<Rightarrow> if b then ''active'' else ''inactive'' | None \<Rightarrow> value);
          value = (case v_double p of Some x \<Rightarrow> fmt x | None \<Rightarrow> value);
          value = (case v_int64 p of Some i \<Rightarrow> intToString i False | None \<Rightarrow> value);
          value = (case v_uint64 p of Some i \<Rightarrow> uintToString i False | None \<Rightarrow> value)
      in (case v_string p of Some s \<Rightarrow> s | None \<Rightarrow> value))"

fun addParams :: "(real \<Rightarrow> string) \<Rightarrow> properties \<Rightarrow> propertyElement list \<Rightarrow> properties" where
  "addParams fmt ps [] = ps"
| "addParams fmt ps (el # els) =
     (case (pe_name el, pe_value el) of
        (Some n, Some v) \<Rightarrow> addParams fmt (prop_set ps (''params.'' @ n) (propertyValue2String fmt v)) els
      | _ \<Rightarrow> addParams fmt ps els)"

section \<open>Events of devices\<close>

definition createDeviceStatusEvent :: "nat \<Rightarrow> u32 \<Rightarrow> u32 \<Rightarrow> event" where
  "createDeviceStatusEvent devRef index value =
     filled (newDeviceEvent ''deviceStatusEvent'' devRef)
       [(''statusIndex'', int32ToString index), (''statusValue'', int32ToString value)]"

definition createDeviceBinaryInputEvent :: "nat \<Rightarrow> u32 \<Rightarrow> BinaryInputType \<Rightarrow> u32 \<Rightarrow> event" where
  "createDeviceBinaryInputEvent devRef index type state =
     (let e = filled (newDeviceEvent ''deviceBinaryInputEvent'' devRef) [(''inputIndex'', int32ToString index)];
          e = setPropertyInt e ''inputType'' (word_of_int (BinaryInputType_value type))
      in setPropertyInt e ''inputState'' state)"

definition createDeviceCustomActionChangedEvent ::
    "(real \<Rightarrow> string) \<Rightarrow> nat \<Rightarrow> string \<Rightarrow> string \<Rightarrow> string \<Rightarrow> propertyElement list \<Rightarrow> event" where
  "createDeviceCustomActionChangedEvent fmt devRef name action title params =
     (let ps = prop_set Map.empty ''customActionId'' name;
          ps = prop_set ps ''actionId'' action;
          ps = prop_set ps ''customActionTitle'' title
      in setProperties (newDeviceEvent ''deviceCustomActionChangedEvent'' devRef) (addParams fmt ps params))"

definition createDeviceActionEvent :: "(real \<Rightarrow> string) \<Rightarrow> nat \<Rightarrow> string \<Rightarrow> propertyElement list \<Rightarrow> event" where
  "createDeviceActionEvent fmt devRef name params =
     setProperties (newDeviceEvent ''deviceActionEvent'' devRef)
       (addParams fmt (prop_set Map.empty ''actionId'' name) params)"

definition createDeviceStateEvent :: "nat \<Rightarrow> string \<Rightarrow> string \<Rightarrow> event" where
  "createDeviceStateEvent devRef name value =
     filled (newDeviceEvent ''deviceStateEvent'' devRef) [(''stateId'', name), (''value'', value)]"

definition createDeviceEventEvent :: "nat \<Rightarrow> string \<Rightarrow> event" where
  "createDeviceEventEvent devRef name = filled (newDeviceEvent ''deviceEventEvent'' devRef) [(''eventId'', name)]"

definition createDeviceSensorValueEvent ::
    "(real \<Rightarrow> string) \<Rightarrow> nat \<Rightarrow> u32 \<Rightarrow> SensorType \<Rightarrow> u32 \<Rightarrow> event" where
  "createDeviceSensorValueEvent fmt devRef index type value =
     (let floatValue = sensorValueToDouble type (sint value);
          e = filled (newDeviceEvent ''deviceSensorValue'' devRef) [(ef_sensorIndex, int32ToString index)];
          e = setPropertyInt e ''sensorType'' (word_of_int (SensorType_value type))
      in filled e [(''sensorValue'', int32ToString value), (''sensorValueFloat'', fmt floatValue)])"

text \<open>\<open>now\<close> is the time of the clock.\<close>

definition createDeviceSensorValueExEvent ::
    "(real \<Rightarrow> string) \<Rightarrow> DateTime \<Rightarrow> nat \<Rightarrow> u32 \<Rightarrow> SensorType \<Rightarrow> real \<Rightarrow> u32 \<Rightarrow> u32 \<Rightarrow> string \<Rightarrow> event" where
  "createDeviceSensorValueExEvent fmt now devRef index type value age contextId contextMsg =
     (let e = filled (newDeviceEvent ''deviceSensorValue'' devRef) [(ef_sensorIndex, int32ToString index)];
          e = setPropertyInt e ''sensorType'' (word_of_int (SensorType_value type));
          e = filled e [(''sensorValueFloat'', fmt value), (''contextId'', uint32ToString contextId),
                        (''contextMsg'', contextMsg)]
      in if age > 0 then filled e [(''contextTimestamp'', toISO8601_ms (addMilliSeconds now (sint age * (-1))))]
         else e)"

definition createDeviceInvalidSensorEvent :: "nat \<Rightarrow> u32 \<Rightarrow> SensorType \<Rightarrow> DateTime \<Rightarrow> event" where
  "createDeviceInvalidSensorEvent devRef index type ts =
     (let e = filled (newDeviceEvent ''deviceInvalidSensor'' devRef) [(ef_sensorIndex, int32ToString index)];
          e = setPropertyInt e ''sensorType'' (word_of_int (SensorType_value type))
      in filled e [(''lastValueTS'', toISO8601_ms ts)])"

section \<open>Events of groups\<close>

definition createZoneSensorValueEvent ::
    "(real \<Rightarrow> string) \<Rightarrow> nat \<Rightarrow> SensorType \<Rightarrow> u32 \<Rightarrow> dsuid \<Rightarrow> event" where
  "createZoneSensorValueEvent fmt grp type value sourceDevice =
     (let floatValue = sensorValueToDouble type (sint value);
          e = setPropertyInt (newGroupEvent ''zoneSensorValue'' grp) ''sensorType'' (word_of_int (SensorType_value type))
      in filled e [(''sensorValue'', int32ToString value), (''sensorValueFloat'', fmt floatValue),
                   (''originDSID'', dsuid2str sourceDevice)])"

definition createZoneSensorErrorEvent :: "nat \<Rightarrow> SensorType \<Rightarrow> DateTime \<Rightarrow> event" where
  "createZoneSensorErrorEvent grp type ts =
     filled (setPropertyInt (newGroupEvent ''zoneSensorError'' grp) ''sensorType''
               (word_of_int (SensorType_value type)))
       [(''lastValueTS'', toISO8601_ms ts)]"

text \<open>The properties both events of scenes have.\<close>

definition createGroupCallSceneEvent ::
    "nat \<Rightarrow> u32 \<Rightarrow> u32 \<Rightarrow> u32 \<Rightarrow> u32 \<Rightarrow> dsuid \<Rightarrow> string \<Rightarrow> bool \<Rightarrow> event" where
  "createGroupCallSceneEvent grp sceneID groupID zoneID callOrigin originDSUID originToken forced =
     (let e = filled (newGroupEvent ''callScene'' grp)
                [(ef_sceneID, int32ToString sceneID), (''groupID'', int32ToString groupID),
                 (''zoneID'', int32ToString zoneID), (ef_originDSUID, dsuid2str originDSUID),
                 (ef_callOrigin, int32ToString callOrigin), (''originToken'', originToken)]
      in if forced then filled e [(ef_forced, ''true'')] else e)"

definition createGroupUndoSceneEvent ::
    "nat \<Rightarrow> u32 \<Rightarrow> u32 \<Rightarrow> u32 \<Rightarrow> u32 \<Rightarrow> dsuid \<Rightarrow> string \<Rightarrow> event" where
  "createGroupUndoSceneEvent grp sceneID groupID zoneID callOrigin originDSUID originToken =
     filled (newGroupEvent ''undoScene'' grp)
       [(ef_sceneID, int32ToString sceneID), (''groupID'', int32ToString groupID),
        (''zoneID'', int32ToString zoneID), (ef_originDSUID, dsuid2str originDSUID),
        (ef_callOrigin, int32ToString callOrigin), (''originToken'', originToken)]"

text \<open>The lock is a \<^verbatim>\<open>bool\<close> that is promoted to a number.\<close>

definition lockProps :: "u32 \<Rightarrow> u32 \<Rightarrow> bool \<Rightarrow> u32 \<Rightarrow> (string \<times> string) list" where
  "lockProps zoneID groupID lock origin =
     [(''zoneID'', int32ToString zoneID), (''groupID'', int32ToString groupID),
      (''lock'', int32ToString (if lock then 1 else 0)), (ef_callOrigin, int32ToString origin)]"

definition createOperationLockEvent :: "nat \<Rightarrow> u32 \<Rightarrow> u32 \<Rightarrow> bool \<Rightarrow> u32 \<Rightarrow> event" where
  "createOperationLockEvent grp zoneID groupID lock origin =
     filled (newGroupEvent ''operation_lock'' grp) (lockProps zoneID groupID lock origin)"

definition createClusterConfigLockEvent :: "nat \<Rightarrow> u32 \<Rightarrow> u32 \<Rightarrow> bool \<Rightarrow> u32 \<Rightarrow> event" where
  "createClusterConfigLockEvent grp zoneID groupID lock origin =
     filled (newGroupEvent ''cluster_config_lock'' grp) (lockProps zoneID groupID lock origin)"

section \<open>Events of the apartment\<close>

definition createActionDenied :: "string \<Rightarrow> string \<Rightarrow> string \<Rightarrow> string \<Rightarrow> event" where
  "createActionDenied type name source reason =
     filled (newEvent ''executionDenied'')
       [(''action-type'', type), (''action-name'', name), (''source-name'', source), (''reason'', reason)]"

definition createHeatingEnabled :: "bool \<Rightarrow> bool \<Rightarrow> event" where
  "createHeatingEnabled heating cooling =
     filled (newEvent ''HeatingEnabled'')
       [(''HeatingEnabled'', boolString heating), (''CoolingEnabled'', boolString cooling)]"

definition createHeatingSystemCapability :: "bool \<Rightarrow> bool \<Rightarrow> event" where
  "createHeatingSystemCapability heating cooling =
     filled (newEvent ''HeatingSystemCapability'')
       [(''HeatingSupported'', boolString heating), (''CoolingSupported'', boolString cooling)]"

definition createOldStateChange :: "string \<Rightarrow> string \<Rightarrow> string \<Rightarrow> u32 \<Rightarrow> event" where
  "createOldStateChange scriptId name value origin =
     filled (newEvent ''oldStateChange'')
       [(''scriptID'', scriptId), (''statename'', name), (''state'', value), (ef_callOrigin, int32ToString origin)]"

subsection \<open>Temperature control\<close>

text \<open>\<open>w - 100\<close> of a byte is an \<^verbatim>\<open>int\<close>; \<open>Imin\<close> and \<open>Imax\<close> are signed.\<close>

definition percent :: "u8 \<Rightarrow> string" where
  "percent w = int32ToString (ucast w - 100)"

definition createHeatingControllerConfig :: "(real \<Rightarrow> string) \<Rightarrow> u32 \<Rightarrow> dsuid \<Rightarrow> heatingSpec \<Rightarrow> event" where
  "createHeatingControllerConfig fmt zoneID ctrl c =
     (let e = filled (newEvent ''HeatingControllerSetup'')
                [(''ZoneID'', int32ToString zoneID), (''ControlDSUID'', dsuid2str ctrl),
                 (''ControlMode'', int32ToString (ucast (word_of_int (HeatingControlMode_value (hs_mode c)) :: u8))),
                 (''EmergencyValue'', percent (hs_EmergencyValue c))]
      in case hs_mode c of
           HCM_PID \<Rightarrow> filled e
             [(''CtrlKp'', fmt (of_int (uint (hs_Kp c)) * 0.025)),
              (''CtrlTs'', int32ToString (ucast (hs_Ts c))),
              (''CtrlTi'', int32ToString (ucast (hs_Ti c))),
              (''CtrlKd'', int32ToString (ucast (hs_Kd c))),
              (''CtrlImin'', fmt (of_int (sint (hs_Imin c)) * 0.025)),
              (''CtrlImax'', fmt (of_int (sint (hs_Imax c)) * 0.025)),
              (''CtrlYmin'', percent (hs_Ymin c)),
              (''CtrlYmax'', percent (hs_Ymax c)),
              (''CtrlAntiWindUp'', boolString (hs_AntiWindUp c > 0)),
              (''CtrlKeepFloorWarm'', boolString (hs_KeepFloorWarm c > 0))]
         | HCM_ZONE_FOLLOWER \<Rightarrow> filled e
             [(''ReferenceZone'', int32ToString (ucast (hs_SourceZoneId c))),
              (''CtrlOffset'', int32ToString (scast (hs_Offset c)))]
         | HCM_MANUAL \<Rightarrow> filled e [(''ManualValue'', percent (hs_ManualValue c))]
         | _ \<Rightarrow> e)"

text \<open>The names of the twelve modes of operation, in the order of the array.\<close>

definition opModeNames :: "string list" where
  "opModeNames = [''Off'', ''Comfort'', ''Economy'', ''NotUsed'', ''Night'', ''Holiday'', ''Cooling'', ''CoolingOff'',
     ''CoolingEconomy'', ''CoolingNotUsed'', ''CoolingNight'', ''CoolingHoliday'']"

definition modeProps :: "(real \<Rightarrow> string) \<Rightarrow> string \<Rightarrow> SensorType \<Rightarrow> u16 list \<Rightarrow> (string \<times> string) list" where
  "modeProps fmt prefix t opModes =
     map (\<lambda>(n, m). (prefix @ n, fmt (sensorValueToDouble t (uint m)))) (zip opModeNames opModes)"

definition createHeatingControllerValue ::
    "(real \<Rightarrow> string) \<Rightarrow> u32 \<Rightarrow> dsuid \<Rightarrow> heatingProps \<Rightarrow> u16 list \<Rightarrow> event" where
  "createHeatingControllerValue fmt zoneID ctrl p opModes =
     (let e = filled (newEvent ''HeatingControllerValue'')
                [(''ZoneID'', int32ToString zoneID), (''ControlDSUID'', dsuid2str ctrl)]
      in case hp_mode p of
           HCM_PID \<Rightarrow> filled e (modeProps fmt ''NominalTemperature_'' ST_RoomTemperatureSetpoint opModes)
         | HCM_FIXED \<Rightarrow> filled e (modeProps fmt ''ControlValue_'' ST_RoomTemperatureControlVariable opModes)
         | _ \<Rightarrow> e)"

text \<open>
  The value of the zone is a double that becomes the \<^verbatim>\<open>int\<close> argument of \<^verbatim>\<open>sensorValueToDouble\<close>, which
  cuts off its fraction.  There is no name for the modes from eight on.
\<close>

definition hubValue :: "real option \<Rightarrow> real" where
  "hubValue v = sensorValueToDouble ST_RoomTemperatureControlVariable (c_trunc (case v of Some x \<Rightarrow> x | None \<Rightarrow> 0))"

definition hubMode :: "u32 \<Rightarrow> string option" where
  "hubMode m = map_of (zip [0, 1, 2, 3, 4, 5, 6, 7]
     [''Off'', ''Comfort'', ''Eco'', ''NotUsed'', ''Night'', ''Holiday'', ''Cooling'', ''CoolingOff'']) m"

definition createHeatingControllerValueDsHub ::
    "(real \<Rightarrow> string) \<Rightarrow> u32 \<Rightarrow> u32 \<Rightarrow> heatingProps \<Rightarrow> real option \<Rightarrow> real option \<Rightarrow> event" where
  "createHeatingControllerValueDsHub fmt zoneID operationMode p nominal control =
     (let e = filled (newEvent ''HeatingControllerValueDsHub'') [(''ZoneID'', int32ToString zoneID)];
          e = (case hubMode operationMode of Some n \<Rightarrow> filled e [(''OperationMode'', n)] | None \<Rightarrow> e)
      in case hp_mode p of
           HCM_PID \<Rightarrow> filled e [(''NominalTemperature'', fmt (hubValue nominal))]
         | HCM_FIXED \<Rightarrow> filled e [(''ControlValue'', fmt (hubValue control))]
         | _ \<Rightarrow> e)"

definition createHeatingControllerState :: "u32 \<Rightarrow> dsuid \<Rightarrow> u32 \<Rightarrow> event" where
  "createHeatingControllerState zoneID ctrl ctrlState =
     filled (newEvent ''HeatingControllerState'')
       [(''ZoneID'', int32ToString zoneID), (''ControlDSUID'', dsuid2str ctrl),
        (''ControlState'', int32ToString ctrlState)]"

subsection \<open>Signals of the apartment\<close>

text \<open>A call that violates an assertion ends the program.\<close>

definition onOff :: "u8 \<Rightarrow> bool" where
  "onOff value \<longleftrightarrow> value = 1 \<or> value = 2"

definition createGenericSignalSunshine :: "u8 \<Rightarrow> CardinalDirection \<Rightarrow> u32 \<Rightarrow> event option" where
  "createGenericSignalSunshine value direction origin =
     (if onOff value \<and> validOrigin origin \<and> validDirection direction then
        Some (filled (newEvent ''sunshine'')
          [(''value'', int32ToString (ucast value)), (''direction'', directionToString direction),
           (ef_callOrigin, int32ToString origin)])
      else None)"

definition createGenericSignalFrostProtection :: "u8 \<Rightarrow> u32 \<Rightarrow> event option" where
  "createGenericSignalFrostProtection value origin =
     (if onOff value \<and> validOrigin origin then
        Some (filled (newEvent ''frostprotection'')
          [(''value'', int32ToString (ucast value)), (ef_callOrigin, int32ToString origin)])
      else None)"

definition createGenericSignalHeatingModeSwitch :: "u32 \<Rightarrow> u32 \<Rightarrow> event option" where
  "createGenericSignalHeatingModeSwitch value origin =
     (if validOrigin origin then
        Some (filled (newEvent ''heating_mode_switch'')
          [(''value'', int32ToString value), (ef_callOrigin, int32ToString origin)])
      else None)"

definition createGenericSignalBuildingService :: "u8 \<Rightarrow> u32 \<Rightarrow> event option" where
  "createGenericSignalBuildingService value origin =
     (if onOff value \<and> validOrigin origin then
        Some (filled (newEvent ''building_service'')
          [(''value'', int32ToString (ucast value)), (ef_callOrigin, int32ToString origin)])
      else None)"

end
