(* ===== verification/System_States.thy ===== *)
theory System_States
  imports Scene_Call Bus_Run Apartment_Structure Event_Create
begin

text \<open>
  The handler that keeps the states of the apartment, \<^verbatim>\<open>src/src/handler/system_states.cpp\<close>, with the base
  class of \<^verbatim>\<open>src/src/handler/system_handlers.cpp\<close>.  It reads events, sets states, and calls and undoes
  scenes.  A step works on the house of \<open>Scene_Call\<close>; the requests it makes of the bus are its commands,
  the events it raises are in the queue of the house's world.  Logging and the login as system user are
  not modelled.
\<close>

section \<open>Data\<close>

definition coJSScripting :: u32 where "coJSScripting = 1"
definition coSystemBinaryInput :: u32 where "coSystemBinaryInput = 8"
definition coDsmApi :: u32 where "coDsmApi = 9"
definition coSystemStartup :: u32 where "coSystemStartup = 10"

definition BinaryInputId_APP_MODE :: int where "BinaryInputId_APP_MODE = 15"

text \<open>
  What surrounds the handler: the states' environment, the timers' library, the clock, the content of
  the member that a constructor of states leaves uninitialised, the groups (zone and number) and the
  devices that an event's pointers name, and \<^verbatim>\<open>dsuid_from_string\<close> of libdsuid.
\<close>

record 'r shenv =
  sh_env :: senv
  sh_lib :: "'r timelib"
  sh_now :: int
  sh_garbage :: u32
  sh_group :: "nat \<Rightarrow> (int \<times> int) option"
  sh_device :: "nat \<Rightarrow> dsuid option"
  sh_from_string :: "string \<Rightarrow> dsuid option"

record sysEvent =
  se_name :: string
  se_location :: EventRaiseLocation
  se_group :: "(int \<times> int) option"
  se_device :: "dsuid option"
  se_state :: "State option"
  se_props :: properties

type_synonym 'r hstep = "('r house, request, gerror) estep"

section \<open>The event\<close>

definition modelPart :: "serror + 'a \<Rightarrow> gerror + 'a" where
  "modelPart r = (case r of Inl e \<Rightarrow> Inl (GModel e) | Inr x \<Rightarrow> Inr x)"

definition zoneGroupId :: "apartment \<Rightarrow> int \<Rightarrow> int \<Rightarrow> serror + (int \<times> int) option" where
  "zoneGroupId A z i = sbind (getZone A z) (\<lambda>z. Inr (map_option (\<lambda>g. (g_zoneID g, g_id g)) (zoneGroup z i)))"

text \<open>\<^verbatim>\<open>Event::getRaisedAtGroup\<close>; a device has to be in the apartment and in a group.\<close>

definition raisedAtGroup :: "'r shenv \<Rightarrow> apartment \<Rightarrow> event \<Rightarrow> serror + (int \<times> int) option" where
  "raisedAtGroup V A e =
     (case m_RaiseLocation e of
        erlGroup \<Rightarrow> Inr (Option.bind (m_RaisedAtGroup e) (sh_group V))
      | erlDevice \<Rightarrow>
          (case Option.bind (m_RaisedAtDevice e) (sh_device V) of
             None \<Rightarrow> Inl NullPointer
           | Some r \<Rightarrow>
               sbind (getDeviceByDSID A r) (\<lambda>d.
               sbind (getGroupIdByIndex d 0) (\<lambda>i. zoneGroupId A (d_zoneID d) i)))
      | _ \<Rightarrow> zoneGroupId A 0 GroupIDBroadcast)"

text \<open>The state an event was raised at is one of the registry.\<close>

definition stateAt :: "stateEntry list \<Rightarrow> nat \<Rightarrow> State option" where
  "stateAt reg this = map_option (\<lambda>i. stateOf (reg ! i)) (findState (\<lambda>s. s_this s = this) reg)"

definition newSystemState :: "'r shenv \<Rightarrow> 'r house \<Rightarrow> event \<Rightarrow> gerror + sysEvent" where
  "newSystemState V hs e =
     (case raisedAtGroup V (h_apartment hs) e of
        Inl x \<Rightarrow> Inl (GModel x)
      | Inr g \<Rightarrow>
          Inr \<lparr>se_name = m_EventName e, se_location = m_RaiseLocation e, se_group = g,
               se_device = Option.bind (m_RaisedAtDevice e) (sh_device V),
               se_state = Option.bind (m_RaisedAtState e) (stateAt (h_states hs)),
               se_props = m_EventProperties e\<rparr>)"

section \<open>Names\<close>

definition formatZoneName :: "string \<Rightarrow> int \<Rightarrow> string" where
  "formatZoneName name zoneId = ''zone.'' @ print_int zoneId @ ''.'' @ name"

text \<open>The assertions of the next two ask for a group from 16 on; they are called for no other.\<close>

definition formatGroupName :: "string \<Rightarrow> int \<Rightarrow> string" where
  "formatGroupName name groupId = ''cluster.'' @ print_int groupId @ ''.'' @ name"

definition formatAppartmentStateName :: "string \<Rightarrow> int \<Rightarrow> string" where
  "formatAppartmentStateName name groupId = name @ ''.group'' @ print_int groupId"

section \<open>States\<close>

definition onWorld :: "('r world \<Rightarrow> 'r world) \<Rightarrow> 'r hstep" where
  "onWorld f = change (\<lambda>hs. hs\<lparr>h_world := f (h_world hs)\<rparr>)"

definition putState :: "nat \<Rightarrow> State \<Rightarrow> 'r house \<Rightarrow> 'r house" where
  "putState i st hs = hs\<lparr>h_states := (h_states hs)[i := withState (h_states hs ! i) st]\<rparr>"

text \<open>An operation of the state at a position of the registry.\<close>

definition onState :: "nat \<Rightarrow> ('r world \<Rightarrow> State \<Rightarrow> 'r sres) \<Rightarrow> 'r hstep" where
  "onState i f s =
     (let hs = fst s
      in case f (h_world hs) (stateOf (h_states hs ! i)) of
           (w, st, r) \<Rightarrow> (putState i st (hs\<lparr>h_world := w\<rparr>), snd s, map_option GState r))"

definition setTo :: "'r shenv \<Rightarrow> u32 \<Rightarrow> u32 \<Rightarrow> nat \<Rightarrow> 'r hstep" where
  "setTo V origin value i = onState i (\<lambda>w st. setState (sh_env V) (sh_lib V) (sh_now V) w st origin value)"

definition setToName :: "'r shenv \<Rightarrow> u32 \<Rightarrow> string \<Rightarrow> nat \<Rightarrow> 'r hstep" where
  "setToName V origin valueName i =
     onState i (\<lambda>w st. setStateByName (sh_env V) (sh_lib V) (sh_now V) w st origin valueName)"

definition setRange :: "'r shenv \<Rightarrow> string list \<Rightarrow> nat \<Rightarrow> 'r hstep" where
  "setRange V values i =
     onState i (\<lambda>w st. case setValueRange (sh_env V) w st values of (w, st) \<Rightarrow> (w, st, None))"

definition setOrigin :: "'r shenv \<Rightarrow> dsuid \<Rightarrow> nat \<Rightarrow> 'r hstep" where
  "setOrigin V r i = onState i (\<lambda>w st. setOriginDeviceDSUID (sh_env V) w st r)"

text \<open>\<^verbatim>\<open>lookupState\<close>, with what is done when there is such a state.\<close>

definition ifState :: "string \<Rightarrow> (nat \<Rightarrow> 'r hstep) \<Rightarrow> 'r hstep" where
  "ifState name k = reading (\<lambda>hs. case getNonScriptState (h_states hs) name of Inl _ \<Rightarrow> okRun | Inr i \<Rightarrow> k i)"

text \<open>A new object takes a place that no state has.\<close>

definition freshPlace :: "stateEntry list \<Rightarrow> nat" where
  "freshPlace reg = Suc (fold max (map (\<lambda>e. s_this (stateOf e)) reg) 0)"

text \<open>The destructor takes the node away; an exception in it ends the program.\<close>

definition destroyState :: "'r world \<Rightarrow> State \<Rightarrow> 'r world \<times> perror option" where
  "destroyState w st =
     (case removeFromPropertyTree (w_heap w) st of
        (h, Inl e) \<Rightarrow> (w\<lparr>w_heap := h\<rparr>, Some Terminate)
      | (h, Inr _) \<Rightarrow> (w\<lparr>w_heap := h\<rparr>, None))"

text \<open>A state is made, and \<open>k\<close> goes on with it; an exception of the constructor leaves before.\<close>

definition makeState ::
    "'r shenv \<Rightarrow> eStateType \<Rightarrow> string \<Rightarrow> string \<Rightarrow> (State \<Rightarrow> 'r hstep) \<Rightarrow> 'r hstep" where
  "makeState V type name service k s =
     (let hs = fst s
      in case newTypedState (sh_env V) (freshPlace (h_states hs)) (sh_garbage V) (h_world hs) type name service of
           (w, st, Some e) \<Rightarrow> (hs\<lparr>h_world := w\<rparr>, snd s, Some (GState e))
         | (w, st, None) \<Rightarrow> k st (hs\<lparr>h_world := w\<rparr>, snd s))"

text \<open>The new state goes into the registry, or is destroyed with the exception.\<close>

definition enrol :: "State \<Rightarrow> (nat \<Rightarrow> 'r hstep) \<Rightarrow> 'r hstep" where
  "enrol st k s =
     (let hs = fst s
      in case allocateState (h_states hs) (PlainState st) of
           Inl e \<Rightarrow>
             (case destroyState (h_world hs) st of
                (w, Some x) \<Rightarrow> (hs\<lparr>h_world := w\<rparr>, snd s, Some (GState x))
              | (w, None) \<Rightarrow> (hs\<lparr>h_world := w\<rparr>, snd s, Some (GModel e)))
         | Inr reg \<Rightarrow> k (length (h_states hs)) (hs\<lparr>h_states := reg\<rparr>, snd s))"

definition persistState :: "'r shenv \<Rightarrow> bool \<Rightarrow> nat \<Rightarrow> 'r hstep" where
  "persistState V persist i =
     onState i (\<lambda>w st. case setPersistence (sh_env V) w st persist of (w, st) \<Rightarrow> (w, st, None))"

definition registerState :: "'r shenv \<Rightarrow> string \<Rightarrow> bool \<Rightarrow> (nat \<Rightarrow> 'r hstep) \<Rightarrow> 'r hstep" where
  "registerState V name persist k =
     makeState V StateType_Service name [] (\<lambda>st. enrol st (\<lambda>i. runAll [persistState V persist i, k i]))"

definition getOrRegisterState :: "'r shenv \<Rightarrow> string \<Rightarrow> (nat \<Rightarrow> 'r hstep) \<Rightarrow> 'r hstep" where
  "getOrRegisterState V name k =
     reading (\<lambda>hs. case getNonScriptState (h_states hs) name of
        Inr i \<Rightarrow> k i | Inl _ \<Rightarrow> registerState V name True k)"

definition destroyStep :: "State \<Rightarrow> 'r hstep" where
  "destroyStep st s =
     (case destroyState (h_world (fst s)) st of
        (w, r) \<Rightarrow> ((fst s)\<lparr>h_world := w\<rparr>, snd s, map_option GState r))"

text \<open>The persistence is set before the state is in the registry.\<close>

definition loadAndEnrol :: "'r shenv \<Rightarrow> State \<Rightarrow> 'r hstep" where
  "loadAndEnrol V st s =
     (case setPersistence (sh_env V) (h_world (fst s)) st True of
        (w, st) \<Rightarrow> enrol st (\<lambda>_. okRun) ((fst s)\<lparr>h_world := w\<rparr>, snd s))"

definition loadPersistentState :: "'r shenv \<Rightarrow> eStateType \<Rightarrow> string \<Rightarrow> 'r hstep" where
  "loadPersistentState V type name =
     makeState V type name [] (\<lambda>st. reading (\<lambda>hs.
       if hasPersistentData (sh_env V) (w_files (h_world hs)) st then loadAndEnrol V st else destroyStep st))"

section \<open>Scenes\<close>

definition isItemNotFound :: "gerror \<Rightarrow> bool" where
  "isItemNotFound e \<longleftrightarrow> (\<exists>s. e = GModel (ItemNotFound s))"

lemma isItemNotFound_code [code, simp]:
  "isItemNotFound (GModel e) = (case e of ItemNotFound _ \<Rightarrow> True | _ \<Rightarrow> False)"
  "isItemNotFound (GState p) = False"
  by (auto simp: isItemNotFound_def split: serror.split)

text \<open>The operations catch \<^verbatim>\<open>ItemNotFoundException\<close>; a zone without the group gives a null pointer.\<close>

definition onGroup :: "int \<Rightarrow> int \<Rightarrow> (group \<Rightarrow> 'r house \<Rightarrow> 'r house \<times> (gerror + request list)) \<Rightarrow> 'r hstep" where
  "onGroup zoneId groupId f s =
     (case getZone (h_apartment (fst s)) zoneId of
        Inl e \<Rightarrow> if isItemNotFound (GModel e) then okRun s else failRun (GModel e) s
      | Inr z \<Rightarrow>
          (case zoneGroup z groupId of
             None \<Rightarrow> failRun (GModel NullPointer) s
           | Some g \<Rightarrow>
               (case f g (fst s) of
                  (hs, Inl e) \<Rightarrow> (hs, snd s, if isItemNotFound e then None else Some e)
                | (hs, Inr reqs) \<Rightarrow> (hs, snd s @ reqs, None))))"

definition callSceneAt :: "'r shenv \<Rightarrow> int \<Rightarrow> int \<Rightarrow> nat \<Rightarrow> u32 \<Rightarrow> 'r hstep" where
  "callSceneAt V zoneId groupId sceneId origin =
     onGroup zoneId groupId (\<lambda>g hs.
       groupCallScene (sh_env V) (sh_lib V) (sh_now V) hs g origin SAC_MANUAL sceneId [] False)"

definition undoSceneAt :: "'r shenv \<Rightarrow> int \<Rightarrow> int \<Rightarrow> nat \<Rightarrow> u32 \<Rightarrow> 'r hstep" where
  "undoSceneAt V zoneId groupId sceneId origin =
     onGroup zoneId groupId (\<lambda>g hs.
       (hs, modelPart (undoScene (hasInstance (sh_env V)) (h_apartment hs) (h_states hs) (TGroup g) origin
                         SAC_MANUAL sceneId [])))"

section \<open>Start-up\<close>

definition pushNewEvent :: "'r shenv \<Rightarrow> event \<Rightarrow> 'r hstep" where
  "pushNewEvent V e = onWorld (pushNew (sh_lib V) (sh_now V) e)"

definition solarState :: "'r shenv \<Rightarrow> string \<Rightarrow> 'r hstep" where
  "solarState V name = makeState V StateType_Service name ''solar_computer'' (\<lambda>st. enrol st (\<lambda>_. okRun))"

text \<open>What a state is set to when there is no file of it.\<close>

definition unlessSaved :: "'r shenv \<Rightarrow> (nat \<Rightarrow> 'r hstep) \<Rightarrow> nat \<Rightarrow> 'r hstep" where
  "unlessSaved V k i =
     reading (\<lambda>hs. if hasPersistentData (sh_env V) (w_files (h_world hs)) (stateOf (h_states hs ! i))
                   then okRun else k i)"

definition registerOnly :: "'r shenv \<Rightarrow> string \<Rightarrow> 'r hstep" where
  "registerOnly V name = registerState V name True (\<lambda>_. okRun)"

definition bootstrap :: "'r shenv \<Rightarrow> 'r hstep" where
  "bootstrap V = runAll (
     [registerState V ''presence'' True (\<lambda>i. runAll
        [setTo V coSystem st_Active i, setRange V [''unknown'', ''present'', ''absent'', ''invalid''] i]),
      registerState V ''hibernation'' True (\<lambda>i.
        setRange V [''unknown'', ''awake'', ''sleeping'', ''invalid''] i)] @
     map (registerOnly V)
       [''alarm'', ''alarm2'', ''alarm3'', ''alarm4'', ''panic'', ''fire'', ''wind'', ''rain'', ''frost''] @
     map (solarState V) [''daynight_state'', ''twilight_state'', ''daylight_state'', ''daynight_indoors_state''] @
     [registerState V ''heating_system'' True (unlessSaved V (setTo V coSystemStartup st_Active)),
      registerState V ''heating_system_mode'' True (unlessSaved V (setTo V coSystemStartup st_Active)),
      registerState V ''heating_water_system'' True (\<lambda>i. runAll
        [setRange V [''off'', ''hot water'', ''cold water'', ''auto''] i,
         unlessSaved V (setToName V coSystemStartup ''hot water'') i])])"

text \<open>The names of the states that an input of a device registers.\<close>

definition inputStates :: "device \<Rightarrow> binaryInput \<Rightarrow> string list" where
  "inputStates d b =
     (let t = bi_inputType b; i = bi_targetGroupId b; cluster = (i \<ge> GroupIDAppUserMin);
          place = (\<lambda>n. if cluster then formatGroupName n i else formatZoneName n (d_zoneID d));
          facade = (\<lambda>n. if cluster then [formatAppartmentStateName n i] else [])
      in (if t = BI_Movement \<or> t = BI_MovementInDarkness then [place ''motion''] else []) @
         (if t = BI_Presence \<or> t = BI_PresenceInDarkness then [place ''presence''] else []) @
         (if t = BI_WindDetector then facade ''wind'' else []) @
         (if t = BI_RainDetector then facade ''rain'' else []) @
         (if t = BI_FrostDetector then facade ''frost'' else []))"

definition inputSteps :: "'r shenv \<Rightarrow> apartment \<Rightarrow> 'r hstep list" where
  "inputSteps V A = map (\<lambda>n. getOrRegisterState V n (\<lambda>_. okRun))
     (concat (map (\<lambda>d. concat (map (inputStates d) (d_binaryInputs d))) (a_devices A)))"

definition presentGroups :: "apartment \<Rightarrow> group list" where
  "presentGroups A = concat (map z_groups (filter z_isPresent (a_zones A)))"

definition clusterSteps :: "'r shenv \<Rightarrow> apartment \<Rightarrow> 'r hstep list" where
  "clusterSteps V A =
     map (\<lambda>g. if isAppUserGroup (g_id g) \<and> g_applicationType g = AT_Blinds
              then registerOnly V (formatAppartmentStateName ''wind'' (g_id g)) else okRun)
       (presentGroups A)"

text \<open>Whether a scene is the last one of a group that is no cluster.\<close>

definition lastCalled :: "apartment \<Rightarrow> nat \<Rightarrow> bool" where
  "lastCalled A scene = list_ex (\<lambda>g. \<not> isAppUserGroup (g_id g) \<and> g_lastCalledScene g = scene) (presentGroups A)"

text \<open>A state is set to its value after the scene, if it is inactive, or without the scene to the other one.\<close>

definition restore :: "bool \<Rightarrow> 'r hstep \<Rightarrow> 'r hstep \<Rightarrow> nat \<Rightarrow> 'r hstep" where
  "restore called on off i =
     reading (\<lambda>hs. if called then (if getState (stateOf (h_states hs ! i)) = st_Inactive then on else okRun) else off)"

definition persistentClusterSteps :: "'r shenv \<Rightarrow> group option list \<Rightarrow> 'r hstep list" where
  "persistentClusterSteps V gs = map (\<lambda>g. case g of
      None \<Rightarrow> failRun (GModel NullPointer)
    | Some g \<Rightarrow> runAll
        [if g_applicationType g = AT_Blinds
         then loadPersistentState V StateType_Service (formatAppartmentStateName ''wind'' (g_id g)) else okRun,
         loadPersistentState V StateType_Group (formatAppartmentStateName ''operation_lock'' (g_id g))]) gs"

definition CLEAR_ALARM_URLENCODED_JSON :: string where
  "CLEAR_ALARM_URLENCODED_JSON = concat
     [''%7B%20%22name%22%3A%22FireAutoClear%22%2C%20%22id%22%3A%20%22system_state_fire_alarm_reset%22%2C'',
      ''%22triggers%22%3A%5B%7B%20%22type%22%3A%22state-change%22%2C%20%22name%22%3A%22fire%22%2C%20'',
      ''%22state%22%3A%22active%22%7D%5D%2C%22delay%22%3A21600%2C%22actions%22%3A%5B%7B%20%22type%22%3A'',
      ''%22undo-zone-scene%22%2C%20%22zone%22%3A0%2C%20%22group%22%3A0%2C%20%22scene%22%3A76%2C%20'',
      ''%22force%22%3A%22false%22%2C%20%22delay%22%3A0%20%7D%5D%2C%22conditions%22%3A%7B%20%22enabled%22'',
      ''%3Anull%2C%22weekdays%22%3Anull%2C%22timeframe%22%3Anull%2C%22zoneState%22%3Anull%2C'',
      ''%22systemState%22%3A%5B%7B%22name%22%3A%22fire%22%2C%22value%22%3A%221%22%7D%5D%2C'',
      ''%22addonState%22%3Anull%7D%2C%22scope%22%3A%22system_state.auto_cleanup%22%7D'']"

definition fireResetEvent :: event where
  "fireResetEvent = applyProperties (newEvent ''system-addon-scene-responder.config'')
     [(''actions'', ''save''), (''value'', CLEAR_ALARM_URLENCODED_JSON)]"

definition startupSteps :: "'r shenv \<Rightarrow> apartment \<Rightarrow> 'r hstep list" where
  "startupSteps V A =
     inputSteps V A @ clusterSteps V A @
     [ifState ''presence'' (\<lambda>i. restore (lastCalled A SceneAbsent)
        (setToName V coJSScripting ''absent'' i) (setToName V coJSScripting ''present'' i) i),
      ifState ''hibernation'' (\<lambda>i. restore (lastCalled A SceneSleeping)
        (setToName V coJSScripting ''sleeping'' i) (setToName V coJSScripting ''awake'' i) i),
      ifState ''panic'' (\<lambda>i. restore (lastCalled A ScenePanic)
        (setTo V coJSScripting st_Active i) (setTo V coJSScripting st_Inactive i) i),
      ifState ''alarm'' (\<lambda>i. restore (lastCalled A SceneAlarm)
        (setTo V coJSScripting st_Active i) (setTo V coJSScripting st_Inactive i) i),
      reading (\<lambda>hs. case getClusters (h_apartment hs) of
         Inl e \<Rightarrow> failRun (GModel e)
       | Inr gs \<Rightarrow> runAll (persistentClusterSteps V gs)),
      loadPersistentState V StateType_Service ''building_service'',
      pushNewEvent V fireResetEvent]"

definition startup :: "'r shenv \<Rightarrow> 'r hstep" where
  "startup V = reading (\<lambda>hs. runAll (startupSteps V (h_apartment hs)))"

section \<open>What an event says\<close>

record sceneData =
  sd_origin :: string
  sd_zone :: int
  sd_group :: int
  sd_scene :: int
  sd_callOrigin :: u32

definition callOriginOf :: "properties \<Rightarrow> u32" where
  "callOriginOf ps =
     (if prop_has ps ef_callOrigin then strToIntDef (prop_get_default ps ef_callOrigin []) 0 else coUnknown)"

text \<open>The device of a state is in the apartment; the one of a state of another kind is a null pointer.\<close>

definition stateDevice :: "apartment \<Rightarrow> State \<Rightarrow> gerror + device" where
  "stateDevice A st =
     (case Option.bind (m_providerDev st) (\<lambda>p. tryGetDeviceByDSID A (pv_dsuid p)) of
        None \<Rightarrow> Inl (GModel NullPointer) | Some d \<Rightarrow> Inr d)"

definition getData :: "'r shenv \<Rightarrow> apartment \<Rightarrow> sysEvent \<Rightarrow> gerror + sceneData" where
  "getData V A ev =
     (let ps = se_props ev;
          D = \<lparr>sd_origin = (if prop_has ps ef_originDSUID then prop_get_default ps ef_originDSUID [] else []),
               sd_zone = -1, sd_group = -1,
               sd_scene = (if prop_has ps ef_sceneID then sint (strToIntDef (prop_get_default ps ef_sceneID []) (-1)) else -1),
               sd_callOrigin = callOriginOf ps\<rparr>;
          atGroup = (\<lambda>g. case g of None \<Rightarrow> Inr D | Some (z, i) \<Rightarrow> Inr (D\<lparr>sd_zone := z, sd_group := i\<rparr>))
      in case se_location ev of
           erlState \<Rightarrow>
             (case se_state ev of
                None \<Rightarrow> Inr D
              | Some st \<Rightarrow>
                  if m_type st = StateType_Device then
                    (case stateDevice A st of
                       Inl e \<Rightarrow> Inl e
                     | Inr d \<Rightarrow> Inr (D\<lparr>sd_zone := d_zoneID d, sd_origin := dsuid2str (d_dsid d)\<rparr>))
                  else if m_type st = StateType_Group then
                    (case Option.bind (m_providerGroup st) (sh_group V) of
                       None \<Rightarrow> Inl (GModel NullPointer)
                     | Some g \<Rightarrow> atGroup (Some g))
                  else Inr D)
         | erlDevice \<Rightarrow>
             (case se_device ev of None \<Rightarrow> Inr D | Some r \<Rightarrow> Inr (D\<lparr>sd_origin := dsuid2str r\<rparr>))
         | _ \<Rightarrow> atGroup (se_group ev))"

definition valueOf :: "sysEvent \<Rightarrow> int" where
  "valueOf ev =
     (if prop_has (se_props ev) ''value'' then sint (strToIntDef (prop_get_default (se_props ev) ''value'' []) (-1))
      else -1)"

section \<open>Scene calls\<close>

definition setNamed :: "'r shenv \<Rightarrow> string \<Rightarrow> u32 \<Rightarrow> 'r hstep" where
  "setNamed V name value = ifState name (setTo V coSystem value)"

definition setNamedTo :: "'r shenv \<Rightarrow> string \<Rightarrow> string \<Rightarrow> 'r hstep" where
  "setNamedTo V name valueName = ifState name (setToName V coSystem valueName)"

definition setRegistered :: "'r shenv \<Rightarrow> string \<Rightarrow> u32 \<Rightarrow> 'r hstep" where
  "setRegistered V name value = getOrRegisterState V name (setTo V coSystem value)"

text \<open>A scene is undone on the whole apartment while its state is active.\<close>

definition autoClear :: "'r shenv \<Rightarrow> string \<Rightarrow> nat \<Rightarrow> 'r hstep" where
  "autoClear V name scene =
     ifState name (\<lambda>i. onlyIf (\<lambda>hs. isActive (h_states hs) i) (undoSceneAt V 0 0 scene coSystem))"

definition broadcastScene :: "'r shenv \<Rightarrow> int \<Rightarrow> 'r hstep" where
  "broadcastScene V scene =
     (if scene = int SceneAbsent then runAll
        [setNamedTo V ''presence'' ''absent'', autoClear V ''panic'' ScenePanic, autoClear V ''fire'' SceneFire]
      else if scene = int ScenePresent then setNamedTo V ''presence'' ''present''
      else if scene = int SceneSleeping then setNamedTo V ''hibernation'' ''sleeping''
      else if scene = int SceneWakeUp then setNamedTo V ''hibernation'' ''awake''
      else if scene = int ScenePanic then setNamed V ''panic'' st_Active
      else if scene = int SceneFire then setNamed V ''fire'' st_Active
      else if scene = int SceneAlarm then setNamed V ''alarm'' st_Active
      else if scene = int SceneAlarm2 then setNamed V ''alarm2'' st_Active
      else if scene = int SceneAlarm3 then setNamed V ''alarm3'' st_Active
      else if scene = int SceneAlarm4 then setNamed V ''alarm4'' st_Active
      else if scene = int SceneWindActive then setRegistered V ''wind'' st_Active
      else if scene = int SceneWindInactive then setRegistered V ''wind'' st_Inactive
      else if scene = int SceneRainActive then setRegistered V ''rain'' st_Active
      else if scene = int SceneRainInactive then runAll (setRegistered V ''rain'' st_Inactive #
        map (\<lambda>grp. setNamed V (formatAppartmentStateName ''rain'' grp) st_Inactive)
          [GroupIDAppUserMin..GroupIDAppUserMax])
      else okRun)"

definition clusterScene :: "'r shenv \<Rightarrow> int \<Rightarrow> int \<Rightarrow> 'r hstep" where
  "clusterScene V groupId scene =
     (if scene = int SceneWindActive then setRegistered V (formatAppartmentStateName ''wind'' groupId) st_Active
      else if scene = int SceneWindInactive then setRegistered V (formatAppartmentStateName ''wind'' groupId) st_Inactive
      else if scene = int SceneRainActive then setRegistered V (formatAppartmentStateName ''rain'' groupId) st_Active
      else if scene = int SceneRainInactive then setRegistered V (formatAppartmentStateName ''rain'' groupId) st_Inactive
      else okRun)"

definition callscene :: "'r shenv \<Rightarrow> sysEvent \<Rightarrow> 'r hstep" where
  "callscene V ev = reading (\<lambda>hs. case getData V (h_apartment hs) ev of
      Inl e \<Rightarrow> failRun e
    | Inr D \<Rightarrow>
        if sd_callOrigin D = coSystem then okRun
        else if sd_group D = 0 then broadcastScene V (sd_scene D)
        else if isAppUserGroup (sd_group D) then clusterScene V (sd_group D) (sd_scene D)
        else okRun)"

text \<open>A button that undoes one of panic and fire clears the other one too.\<close>

definition undoBroadcast :: "'r shenv \<Rightarrow> dsuid \<Rightarrow> u32 \<Rightarrow> int \<Rightarrow> 'r hstep" where
  "undoBroadcast V r origin scene =
     (let byButton = (r \<noteq> DSUID_NULL (sh_env V) \<and> origin = coDsmApi)
      in if scene = int ScenePanic then runAll
           [setNamed V ''panic'' st_Inactive, if byButton then autoClear V ''fire'' SceneFire else okRun]
         else if scene = int SceneFire then runAll
           [setNamed V ''fire'' st_Inactive, if byButton then autoClear V ''panic'' ScenePanic else okRun]
         else if scene = int SceneAlarm then setNamed V ''alarm'' st_Inactive
         else if scene = int SceneAlarm2 then setNamed V ''alarm2'' st_Inactive
         else if scene = int SceneAlarm3 then setNamed V ''alarm3'' st_Inactive
         else if scene = int SceneAlarm4 then setNamed V ''alarm4'' st_Inactive
         else okRun)"

definition undoscene :: "'r shenv \<Rightarrow> sysEvent \<Rightarrow> 'r hstep" where
  "undoscene V ev = reading (\<lambda>hs. case getData V (h_apartment hs) ev of
      Inl e \<Rightarrow> failRun e
    | Inr D \<Rightarrow>
        (case str2dsuid (sh_from_string V) (sd_origin D) of
           Inl e \<Rightarrow> failRun (liftBase e)
         | Inr r \<Rightarrow> if sd_group D \<noteq> 0 then okRun else undoBroadcast V r (sd_callOrigin D) (sd_scene D)))"

section \<open>Binary inputs\<close>

definition atHeap :: "(pheap \<Rightarrow> 'a result) \<Rightarrow> ('a \<Rightarrow> 'r hstep) \<Rightarrow> 'r hstep" where
  "atHeap f k s =
     (let hs = fst s
      in case f (w_heap (h_world hs)) of
           (h, r) \<Rightarrow>
             (let hs = hs\<lparr>h_world := (h_world hs)\<lparr>w_heap := h\<rparr>\<rparr>
              in case r of Inl e \<Rightarrow> (hs, snd s, Some (GState e)) | Inr x \<Rightarrow> k x (hs, snd s)))"

text \<open>The node that counts the active inputs of a state; a new one counts none.\<close>

definition counterPath :: "string \<Rightarrow> int \<Rightarrow> string" where
  "counterPath stateName targetGroupId = ''/scripts/system_state/'' @ stateName @ ''.'' @ print_int targetGroupId"

definition counterNode :: "string \<Rightarrow> pheap \<Rightarrow> nodeid result" where
  "counterNode path h =
     (case sysGetProperty h path of
        Inl e \<Rightarrow> (h, Inl e)
      | Inr (Some n) \<Rightarrow> (h, Inr n)
      | Inr None \<Rightarrow>
          andThen (sysCreateProperty h path) (\<lambda>h n.
            case n of
              None \<Rightarrow> (h, Inl NullDeref)
            | Some n \<Rightarrow> andThen (setIntegerValue h n 0) (\<lambda>h _. (h, Inr n))))"

definition nodeInt :: "nodeid \<Rightarrow> pheap \<Rightarrow> u32 result" where
  "nodeInt n h = (h, getIntegerValue h n)"

definition setNodeInt :: "nodeid \<Rightarrow> u32 \<Rightarrow> pheap \<Rightarrow> unit result" where
  "setNodeInt n v h = setIntegerValue h n v"

text \<open>\<open>r\<close> is the device that raised the event.\<close>

definition countInput :: "'r shenv \<Rightarrow> nat \<Rightarrow> dsuid \<Rightarrow> int \<Rightarrow> nodeid \<Rightarrow> 'r hstep" where
  "countInput V i r value n =
     (if value = 1 then runAll
        [atHeap (nodeInt n) (\<lambda>c. atHeap (setNodeInt n (c + 1)) (\<lambda>_. okRun)),
         setTo V coSystemBinaryInput st_Active i, setOrigin V r i]
      else if value = 2 then runAll
        [atHeap (nodeInt n) (\<lambda>c. if 0 <s c then atHeap (setNodeInt n (c - 1)) (\<lambda>_. okRun) else okRun),
         atHeap (nodeInt n) (\<lambda>c. if c = 0 then setTo V coSystemBinaryInput st_Inactive i else okRun),
         setOrigin V r i]
      else okRun)"

definition stateBinaryInputGeneric :: "'r shenv \<Rightarrow> sysEvent \<Rightarrow> dsuid \<Rightarrow> int \<Rightarrow> nat \<Rightarrow> 'r hstep" where
  "stateBinaryInputGeneric V ev r targetGroupId i =
     reading (\<lambda>hs. atHeap (counterNode (counterPath (m_name (stateOf (h_states hs ! i))) targetGroupId)) (\<lambda>n.
       if prop_has (se_props ev) ''value'' then countInput V i r (valueOf ev) n else okRun))"

text \<open>The signal for the two states of the heating; the value 3, automatic, is none.\<close>

definition heatingModeValue :: "u32 \<Rightarrow> u32 \<Rightarrow> u32" where
  "heatingModeValue heating mode =
     (if heating = st_Inactive then 0
      else if heating = st_Active then
        (if mode = st_Active then 1 else if mode = st_Inactive then 2 else 3)
      else 3)"

definition evaluateHeating :: "'r shenv \<Rightarrow> 'r hstep" where
  "evaluateHeating V =
     ifState ''heating_system'' (\<lambda>i. ifState ''heating_system_mode'' (\<lambda>j. reading (\<lambda>hs.
       let value = heatingModeValue (getState (stateOf (h_states hs ! i))) (getState (stateOf (h_states hs ! j)))
       in if value \<noteq> 3 then
            (case createGenericSignalHeatingModeSwitch value coSystemBinaryInput of
               None \<Rightarrow> failRun (GModel AssertFailed)
             | Some e \<Rightarrow> pushNewEvent V e)
          else okRun)))"

definition inputReaction :: "'r shenv \<Rightarrow> sysEvent \<Rightarrow> device \<Rightarrow> binaryInput \<Rightarrow> 'r hstep" where
  "inputReaction V ev d b =
     (let t = bi_inputType b; i = bi_targetGroupId b; cluster = (i \<ge> GroupIDAppUserMin);
          count = stateBinaryInputGeneric V ev (d_dsid d) i;
          place = (\<lambda>n. if cluster then formatGroupName n i else formatZoneName n (d_zoneID d));
          facade = (\<lambda>n. if cluster then getOrRegisterState V (formatAppartmentStateName n i) count
                        else ifState n count)
      in runAll
        [if t = BI_Movement \<or> t = BI_MovementInDarkness then getOrRegisterState V (place ''motion'') count else okRun,
         if t = BI_Presence \<or> t = BI_PresenceInDarkness then getOrRegisterState V (place ''presence'') count else okRun,
         if t = BI_SmokeDetector then ifState ''fire'' (\<lambda>f.
           if valueOf ev = 1 then setTo V coSystemBinaryInput st_Active f else okRun) else okRun,
         if t = BI_WindDetector then facade ''wind'' else okRun,
         if t = BI_RainDetector then facade ''rain'' else okRun,
         if t = BI_RoomThermostat \<and> prop_has (se_props ev) ''value'' then
           callSceneAt V (d_zoneID d) GroupIDHeating (if valueOf ev = 1 then Scene1 else SceneOff) coSystemBinaryInput
         else okRun,
         if t = BI_FrostDetector then ifState ''frost'' count else okRun,
         if t = BI_HeatingSystem then ifState ''heating_system'' count else okRun,
         if t = BI_HeatingSystemMode then ifState ''heating_system_mode'' count else okRun,
         if t = BI_HeatingSystem \<or> t = BI_HeatingSystemMode then evaluateHeating V else okRun])"

text \<open>The number of inputs is a byte.\<close>

definition getBinaryInput :: "device \<Rightarrow> u8 \<Rightarrow> serror + binaryInput" where
  "getBinaryInput d i =
     (if unat i \<ge> length (d_binaryInputs d) mod 256
      then Inl (ItemNotFound ''Device::getBinaryInput: index out of bounds'')
      else Inr (d_binaryInputs d ! unat i))"

text \<open>The number of the input is read from the tree: \<open>None\<close> is a node that is missing.\<close>

definition inputIndexOf :: "string \<Rightarrow> pheap \<Rightarrow> u32 option result" where
  "inputIndexOf statename h =
     (h, case sysGetProperty h (''/usr/states/'' @ statename) of
           Inl e \<Rightarrow> Inl e
         | Inr None \<Rightarrow> Inr None
         | Inr (Some n) \<Rightarrow>
             (case getProperty h n ''device/inputIndex'' of
                Inl e \<Rightarrow> Inl e
              | Inr None \<Rightarrow> Inr None
              | Inr (Some c) \<Rightarrow> (case getIntegerValue h c of Inl e \<Rightarrow> Inl e | Inr v \<Rightarrow> Inr (Some v))))"

definition stateBinaryinput :: "'r shenv \<Rightarrow> sysEvent \<Rightarrow> 'r hstep" where
  "stateBinaryinput V ev =
     (case se_state ev of
        None \<Rightarrow> okRun
      | Some st \<Rightarrow>
          if \<not> prop_has (se_props ev) ''statename'' \<or> prop_get_default (se_props ev) ''statename'' [] = [] then okRun
          else atHeap (inputIndexOf (prop_get_default (se_props ev) ''statename'' [])) (\<lambda>v.
            case v of
              None \<Rightarrow> okRun
            | Some v \<Rightarrow> reading (\<lambda>hs.
                case stateDevice (h_apartment hs) st of
                  Inl e \<Rightarrow> failRun e
                | Inr d \<Rightarrow>
                    (case getBinaryInput d (ucast v) of
                       Inl e \<Rightarrow> failRun (GModel e)
                     | Inr b \<Rightarrow> if bi_inputId b \<noteq> BinaryInputId_APP_MODE then okRun else inputReaction V ev d b))))"

section \<open>States of the apartment\<close>

text \<open>The number behind \<^verbatim>\<open>.group\<close> in the name of a state, or zero.\<close>

definition groupOfName :: "string \<Rightarrow> int" where
  "groupOfName statename =
     (case find_sub ''.group'' statename of
        None \<Rightarrow> 0 | Some p \<Rightarrow> sint (strToIntDef (drop (p + 6) statename) 0))"

definition stateApartment :: "'r shenv \<Rightarrow> sysEvent \<Rightarrow> 'r hstep" where
  "stateApartment V ev =
     (let statename = prop_get_default (se_props ev) ''statename'' []
      in if \<not> prop_has (se_props ev) ''statename'' \<or> statename = [] then okRun
         else reading (\<lambda>hs. case getData V (h_apartment hs) ev of
           Inl e \<Rightarrow> failRun e
         | Inr D \<Rightarrow>
             let groupId = groupOfName statename; value = valueOf ev
             in if sd_callOrigin D = coSystem then okRun
                else runAll
                  [if statename = ''fire'' then
                     (if value = 1 then callSceneAt V 0 0 SceneFire coSystem
                      else if value = 2 then undoSceneAt V 0 0 SceneFire coSystem else okRun) else okRun,
                   if take 4 statename = ''rain'' then
                     (if value = 1 then callSceneAt V 0 groupId SceneRainActive coSystem
                      else if value = 2 then callSceneAt V 0 groupId SceneRainInactive coSystem else okRun) else okRun,
                   if take 4 statename = ''wind'' then
                     (if value = 1 then callSceneAt V 0 groupId SceneWindActive coSystem
                      else if value = 2 then callSceneAt V 0 groupId SceneWindInactive coSystem else okRun) else okRun]))"

section \<open>The run\<close>

text \<open>A property that a signal has to have; \<^verbatim>\<open>get\<close> throws when it is missing.\<close>

definition needed :: "sysEvent \<Rightarrow> string \<Rightarrow> (string \<Rightarrow> base_error + 'a) \<Rightarrow> ('a \<Rightarrow> 'r hstep) \<Rightarrow> 'r hstep" where
  "needed ev field parse k =
     (case prop_get (se_props ev) field of
        Inl e \<Rightarrow> failRun (liftBase e)
      | Inr s \<Rightarrow> (case parse s of Inl e \<Rightarrow> failRun (liftBase e) | Inr x \<Rightarrow> k x))"

text \<open>The signal sets a state to active or inactive; another value fails the assertion.\<close>

definition signalState :: "'r shenv \<Rightarrow> sysEvent \<Rightarrow> string \<Rightarrow> 'r hstep" where
  "signalState V ev name =
     needed ev ''value'' strToInt (\<lambda>value.
       if value = st_Active \<or> value = st_Inactive then getOrRegisterState V name (setTo V coDsmApi value)
       else failRun (GModel AssertFailed))"

text \<open>The origin of the signal, if it has one.\<close>

definition originOf :: "sysEvent \<Rightarrow> (u32 \<Rightarrow> 'r hstep) \<Rightarrow> 'r hstep" where
  "originOf ev k =
     (if prop_has (se_props ev) ''callOrigin'' \<and> prop_get_default (se_props ev) ''callOrigin'' [] \<noteq> []
      then needed ev ''callOrigin'' strToInt k else k coDsmApi)"

definition heatingSwitch :: "'r shenv \<Rightarrow> sysEvent \<Rightarrow> 'r hstep" where
  "heatingSwitch V ev =
     getOrRegisterState V ''heating_water_system'' (\<lambda>i.
       needed ev ''value'' strToUInt (\<lambda>value. originOf ev (\<lambda>origin. setTo V origin value i)))"

definition handleSystem :: "'r shenv \<Rightarrow> sysEvent \<Rightarrow> 'r hstep" where
  "handleSystem V ev =
     (if se_name ev = ''running'' then bootstrap V
      else if se_name ev = ''model_ready'' then startup V
      else if se_name ev = ''callScene'' then
        (if se_location ev = erlGroup \<and> se_group ev \<noteq> None then callscene V ev else okRun)
      else if se_name ev = ''undoScene'' then undoscene V ev
      else if se_name ev = ''stateChange'' then
        (case se_state ev of
           None \<Rightarrow> failRun (GModel NullPointer)
         | Some st \<Rightarrow>
             if m_type st = StateType_Device then stateBinaryinput V ev
             else if m_type st = StateType_Service then stateApartment V ev
             else okRun)
      else if se_name ev = ''sunshine'' then
        needed ev ''value'' Inr (\<lambda>_. needed ev ''direction'' Inr (\<lambda>_. okRun))
      else if se_name ev = ''frostprotection'' then signalState V ev ''frost''
      else if se_name ev = ''heating_mode_switch'' then heatingSwitch V ev
      else if se_name ev = ''building_service'' then signalState V ev ''building_service''
      else okRun)"

text \<open>What is derived from \<^verbatim>\<open>std::exception\<close> is caught; the rest ends the program.\<close>

fun isStdException :: "gerror \<Rightarrow> bool" where
  "isStdException (GModel e) = (case e of AssertFailed \<Rightarrow> False | NullPointer \<Rightarrow> False | OutOfFuel \<Rightarrow> False | _ \<Rightarrow> True)"
| "isStdException (GState e) =
     (case e of PropertyTypeMismatch _ \<Rightarrow> True | StdRuntimeError _ \<Rightarrow> True | StdLogicError \<Rightarrow> True
      | StdOutOfRange \<Rightarrow> True | RequireFailed _ \<Rightarrow> True | _ \<Rightarrow> False)"

definition runSystemState :: "'r shenv \<Rightarrow> sysEvent \<Rightarrow> 'r hstep" where
  "runSystemState V ev s =
     (if \<not> hasInstance (sh_env V) then okRun s
      else case handleSystem V ev s of
        (hs, reqs, Some e) \<Rightarrow> (hs, reqs, if isStdException e then None else Some e)
      | r \<Rightarrow> r)"

end
