(* ===== verification/System_Laws.thy ===== *)
theory System_Laws
  imports System_States
begin

text \<open>
  Laws of the handler of \<open>System_States\<close>: what it reads of an event, that it does not answer its own
  calls, which states a scene sets, and why a start ends early.
\<close>

section \<open>Reading an event\<close>

lemma strToIntDef_int32ToString [simp]: "strToIntDef (int32ToString w) d = w"
  using strToInt_int32ToString [of w] by (auto simp: strToInt_def strToIntDef_def Let_def split: prod.splits if_splits)

lemma scene_event_fields:
  "m_EventName (createGroupCallSceneEvent g s gi zi co d tok f) = ''callScene''"
  "m_RaiseLocation (createGroupCallSceneEvent g s gi zi co d tok f) = erlGroup"
  "m_RaisedAtGroup (createGroupCallSceneEvent g s gi zi co d tok f) = Some g"
  "m_RaisedAtDevice (createGroupCallSceneEvent g s gi zi co d tok f) = None"
  "m_RaisedAtState (createGroupCallSceneEvent g s gi zi co d tok f) = None"
  "m_EventProperties (createGroupCallSceneEvent g s gi zi co d tok f) =
    [''sceneID'' \<mapsto> int32ToString s, ''groupID'' \<mapsto> int32ToString gi, ''zoneID'' \<mapsto> int32ToString zi,
     ''originDSUID'' \<mapsto> dsuid2str d, ''callOrigin'' \<mapsto> int32ToString co, ''originToken'' \<mapsto> tok] ++
    (if f then [''forced'' \<mapsto> ''true''] else Map.empty)"
  by (cases f; simp add: createGroupCallSceneEvent_def applyProperties_def setProperty_def newGroupEvent_def newEventAt_def
      prop_set_def Let_def)+

lemma change_event_fields:
  "m_EventProperties (createStateChangeEvent st old co) ''callOrigin'' = Some (int32ToString co)"
  "m_EventProperties (createStateChangeEvent st old co) ''statename'' = Some (m_name st)"
  "m_EventProperties (createStateChangeEvent st old co) ''value'' = Some (int32ToString (getState st))"
  "m_RaiseLocation (createStateChangeEvent st old co) = erlState"
  "m_RaisedAtState (createStateChangeEvent st old co) = Some (s_this st)"
  "m_type st \<noteq> StateType_Script \<Longrightarrow> m_EventName (createStateChangeEvent st old co) = ''stateChange''"
  by (simp_all add: createStateChangeEvent_def setProperty_def newStateEvent_def newEventAt_def prop_set_def Let_def)

lemma read_scene_event:
  assumes "sh_group V g = Some (z, i)" and "newSystemState V hs (createGroupCallSceneEvent g s gi zi co d tok f) = Inr ev"
  shows "se_name ev = ''callScene'' \<and> se_location ev = erlGroup \<and> se_group ev = Some (z, i) \<and>
    getData V A ev = Inr \<lparr>sd_origin = dsuid2str d, sd_zone = z, sd_group = i, sd_scene = sint s, sd_callOrigin = co\<rparr>"
  using assms
  by (cases f) (auto simp: newSystemState_def raisedAtGroup_def scene_event_fields getData_def Let_def callOriginOf_def prop_has_def
      prop_get_default_def)

section \<open>Requests\<close>

fun requestOrigin :: "request \<Rightarrow> u32" where
  "requestOrigin (ReqCallScene t origin c s k f) = origin"
| "requestOrigin (ReqCallSceneMin t origin c s k) = origin"
| "requestOrigin (ReqSaveScene t origin s k) = origin"
| "requestOrigin (ReqUndoScene t origin c s k) = origin"
| "requestOrigin (ReqUndoSceneLast t origin c k) = origin"
| "requestOrigin (ReqBlink t origin c k) = origin"
| "requestOrigin (ReqSetValue t origin c v k) = origin"
| "requestOrigin (ReqIncreaseOutputChannelValue t origin c v k) = origin"
| "requestOrigin (ReqDecreaseOutputChannelValue t origin c v k) = origin"
| "requestOrigin (ReqStopOutputChannelValue t origin c v k) = origin"
| "requestOrigin (ReqPushSensor t origin c r n x k) = origin"

text \<open>The step makes no request but with this origin.\<close>

definition marks :: "u32 \<Rightarrow> 'r hstep \<Rightarrow> bool" where
  "marks origin f \<longleftrightarrow> (\<forall>hs cs. \<exists>reqs. fst (snd (f (hs, cs))) = cs @ reqs \<and> (\<forall>q \<in> set reqs. requestOrigin q = origin))"

lemma marksD:
  "marks origin f \<Longrightarrow> f (hs, cs) = (hs', cs', r) \<Longrightarrow> \<exists>reqs. cs' = cs @ reqs \<and> (\<forall>q \<in> set reqs. requestOrigin q = origin)"
  unfolding marks_def by (metis fst_conv snd_conv)

lemma marks_basic [simp]: "marks origin okRun" "marks origin (failRun e)"
  by (auto simp: marks_def)

lemma marks_reading: "(\<And>hs. marks origin (h hs)) \<Longrightarrow> marks origin (reading h)"
  by (simp add: marks_def reading_def)

lemma marks_thenRun:
  assumes "marks origin f" and "marks origin g"
  shows "marks origin (\<lambda>s. thenRun (f s) g)"
  unfolding marks_def
proof (intro allI)
  fix hs cs
  obtain y ds e where y: "f (hs, cs) = (y, ds, e)" by (cases "f (hs, cs)")
  from marksD [OF assms(1) y] obtain reqs where r: "ds = cs @ reqs" "\<forall>q \<in> set reqs. requestOrigin q = origin" by blast
  obtain y' ds' e' where y': "g (y, ds) = (y', ds', e')" by (cases "g (y, ds)")
  from marksD [OF assms(2) y'] obtain reqs' where r': "ds' = ds @ reqs'" "\<forall>q \<in> set reqs'. requestOrigin q = origin" by blast
  show "\<exists>reqs. fst (snd (thenRun (f (hs, cs)) g)) = cs @ reqs \<and> (\<forall>q \<in> set reqs. requestOrigin q = origin)"
  proof (cases e)
    case None
    then show ?thesis using y y' r r' by (intro exI [of _ "reqs @ reqs'"]) auto
  next
    case (Some x)
    then show ?thesis using y r by auto
  qed
qed

lemma marks_runAll: "\<forall>f \<in> set fs. marks origin f \<Longrightarrow> marks origin (runAll fs)"
proof (induction fs)
  case Nil
  then show ?case by (simp add: marks_def)
next
  case (Cons f fs)
  then have "marks origin (\<lambda>s. thenRun (f s) (runAll fs))" by (intro marks_thenRun) simp_all
  then show ?case by (simp add: marks_def)
qed

lemma groupCallScene_requests:
  "groupCallScene E L now hs g origin cat s token force = (hs', Inr reqs) \<Longrightarrow> \<forall>q \<in> set reqs. requestOrigin q = origin"
  by (auto simp: groupCallScene_def Let_def dest!: itemCallScene_requests split: sum.splits if_splits prod.splits option.splits)

lemma marks_onGroup:
  assumes "\<And>g hs hs' reqs. f g hs = (hs', Inr reqs) \<Longrightarrow> \<forall>q \<in> set reqs. requestOrigin q = origin"
  shows "marks origin (onGroup zoneId groupId f)"
  unfolding marks_def
proof (intro allI)
  fix hs cs
  show "\<exists>reqs. fst (snd (onGroup zoneId groupId f (hs, cs))) = cs @ reqs \<and> (\<forall>q \<in> set reqs. requestOrigin q = origin)"
  proof (cases "getZone (h_apartment hs) zoneId")
    case z: (Inr z)
    show ?thesis
    proof (cases "zoneGroup z groupId")
      case g: (Some g)
      obtain hs' res where f: "f g hs = (hs', res)" by (cases "f g hs")
      show ?thesis using z g f assms [of g hs hs'] by (cases res) (simp_all add: onGroup_def)
    qed (simp add: onGroup_def z)
  qed (simp add: onGroup_def)
qed

lemma marks_callSceneAt: "marks origin (callSceneAt V z g s origin)"
  unfolding callSceneAt_def by (rule marks_onGroup) (rule groupCallScene_requests)

lemma marks_undoSceneAt: "marks origin (undoSceneAt V z g s origin)"
  unfolding undoSceneAt_def
  by (rule marks_onGroup) (auto simp: modelPart_def undoScene_def guarded_def sbind_def split: sum.splits if_splits)

lemma marks_stateApartment: "marks coSystem (stateApartment V ev)"
  unfolding stateApartment_def Let_def
  by (auto intro!: marks_reading marks_runAll simp: marks_callSceneAt marks_undoSceneAt split: sum.split)

lemma marks_run: "marks origin (handleSystem V ev) \<Longrightarrow> marks origin (runSystemState V ev)"
  unfolding marks_def
proof (intro allI)
  fix hs cs
  assume "\<forall>hs cs. \<exists>reqs. fst (snd (handleSystem V ev (hs, cs))) = cs @ reqs \<and> (\<forall>q \<in> set reqs. requestOrigin q = origin)"
  then have *: "\<exists>reqs. fst (snd (handleSystem V ev (hs, cs))) = cs @ reqs \<and> (\<forall>q \<in> set reqs. requestOrigin q = origin)" by blast
  obtain y ds e where "handleSystem V ev (hs, cs) = (y, ds, e)" by (cases "handleSystem V ev (hs, cs)")
  with * show "\<exists>reqs. fst (snd (runSystemState V ev (hs, cs))) = cs @ reqs \<and> (\<forall>q \<in> set reqs. requestOrigin q = origin)"
    by (cases e) (simp_all add: runSystemState_def)
qed

section \<open>No echo\<close>

lemma own_scene_ignored:
  assumes "newSystemState V hs (createGroupCallSceneEvent g s gi zi coSystem d tok f) = Inr ev"
  shows "runSystemState V ev \<sigma> = okRun \<sigma>"
proof (cases "sh_group V g")
  case None
  then have "se_name ev = ''callScene''" "se_group ev = None"
    using assms by (auto simp: newSystemState_def raisedAtGroup_def scene_event_fields)
  then show ?thesis by (simp add: runSystemState_def handleSystem_def okRun_def)
next
  case (Some p)
  then obtain z i where "sh_group V g = Some (z, i)" by (cases p) simp
  from read_scene_event [OF this assms] show ?thesis
    by (cases \<sigma>) (simp add: runSystemState_def handleSystem_def callscene_def)
qed

lemma own_change_ignored:
  assumes "newSystemState V hs (createStateChangeEvent st old coSystem) = Inr ev"
    and "m_type st = StateType_Service" and "se_state ev = Some st'" and "m_type st' = StateType_Service"
  shows "runSystemState V ev \<sigma> = okRun \<sigma>"
proof -
  have "se_name ev = ''stateChange''" "se_location ev = erlState"
    "se_props ev = m_EventProperties (createStateChangeEvent st old coSystem)"
    using assms(1, 2) by (auto simp: newSystemState_def change_event_fields split: sum.splits)
  then show ?thesis using assms(3, 4)
    by (cases \<sigma>) (simp add: runSystemState_def handleSystem_def stateApartment_def getData_def Let_def callOriginOf_def
        prop_has_def prop_get_default_def change_event_fields)
qed


section \<open>Scenes and states\<close>

text \<open>What the state of a scene shows after it, and the names of the values of the states that have any.\<close>

definition sceneEffect :: "int \<Rightarrow> (string \<times> string) option" where
  "sceneEffect s = map_of
     [(int SceneAbsent, (''presence'', ''absent'')), (int ScenePresent, (''presence'', ''present'')),
      (int SceneSleeping, (''hibernation'', ''sleeping'')), (int SceneWakeUp, (''hibernation'', ''awake'')),
      (int ScenePanic, (''panic'', ''active'')), (int SceneFire, (''fire'', ''active'')),
      (int SceneAlarm, (''alarm'', ''active'')), (int SceneAlarm2, (''alarm2'', ''active'')),
      (int SceneAlarm3, (''alarm3'', ''active'')), (int SceneAlarm4, (''alarm4'', ''active'')),
      (int SceneWindActive, (''wind'', ''active'')), (int SceneWindInactive, (''wind'', ''inactive'')),
      (int SceneRainActive, (''rain'', ''active'')), (int SceneRainInactive, (''rain'', ''inactive''))] s"

definition stateValues :: "string \<Rightarrow> string list" where
  "stateValues n =
     (if n = ''presence'' then [''unknown'', ''present'', ''absent'', ''invalid'']
      else if n = ''hibernation'' then [''unknown'', ''awake'', ''sleeping'', ''invalid'']
      else [])"

lemma setState_values: "setState E L now w st origin v = (w', st', r) \<Longrightarrow> m_values st' = m_values st"
  by (auto simp: setState_def Let_def split: if_splits sum.splits)

lemma ifState_at: "getNonScriptState (h_states hs) n = Inr i \<Longrightarrow> ifState n k (hs, cs) = k i (hs, cs)"
  by (simp add: ifState_def)

lemma getOrRegisterState_at: "getNonScriptState (h_states hs) n = Inr i \<Longrightarrow> getOrRegisterState V n k (hs, cs) = k i (hs, cs)"
  by (simp add: getOrRegisterState_def)

text \<open>A step that sets the state at \<open>i\<close>, whether it raises an exception or not.\<close>

definition setsAt :: "nat \<Rightarrow> u32 \<Rightarrow> 'r house \<Rightarrow> 'r house \<Rightarrow> bool" where
  "setsAt i v hs hs' \<longleftrightarrow>
     m_state (stateOf (h_states hs' ! i)) = v \<and>
     m_name (stateOf (h_states hs' ! i)) = m_name (stateOf (h_states hs ! i)) \<and>
     m_values (stateOf (h_states hs' ! i)) = m_values (stateOf (h_states hs ! i)) \<and>
     length (h_states hs') = length (h_states hs) \<and> (\<forall>j. j \<noteq> i \<longrightarrow> h_states hs' ! j = h_states hs ! j)"

lemma setTo_sets: "i < length (h_states hs) \<Longrightarrow> setsAt i v hs (fst (setTo V origin v i (hs, cs)))"
  using setState_frame setState_values
  by (fastforce simp: setTo_def onState_def putState_def setsAt_def split: prod.splits)

lemma setToName_sets:
  "i < length (h_states hs) \<Longrightarrow> tryValueFromName (stateOf (h_states hs ! i)) t = Some v \<Longrightarrow>
     setsAt i v hs (fst (setToName V origin t i (hs, cs)))"
  using setTo_sets [of i hs v V origin cs] by (simp add: setToName_def setTo_def onState_def setStateByName_def)

lemma undoSceneAt_house [simp]: "fst (undoSceneAt V z g s origin (hs, cs)) = hs"
  by (auto simp: undoSceneAt_def onGroup_def failRun_def okRun_def split: sum.splits option.splits)

lemma autoClear_house: "stepRel (=) (autoClear V n s)"
  by (auto simp: autoClear_def ifState_def stepRel_def onlyIf_def reading_def okRun_def split: sum.splits)

lemma thenRun_fst: "thenRun r f = (if snd (snd r) = None then f (fst r, fst (snd r)) else r)"
  by (auto simp: thenRun_def split: option.splits prod.splits)

text \<open>Steps that keep what an invariant relation says about the first step's result.\<close>

lemma runAll_after:
  assumes "reflp R" and "transp R" and "\<forall>g \<in> set fs. stepRel R g"
  shows "R (fst (f s)) (fst (runAll (f # fs) s))"
proof -
  have "stepRel R (runAll fs)" by (rule stepRel_runAll [OF assms])
  then have *: "R z (fst (runAll fs (z, cs)))" for z cs by (simp add: stepRel_def)
  obtain z cs e where f: "f s = (z, cs, e)" by (cases "f s")
  show ?thesis using * [of z cs] assms(1) f by (cases e) (auto dest: reflpD)
qed

text \<open>The states that are called like this one stay as they are.\<close>

definition keepsNamed :: "string \<Rightarrow> 'r house \<Rightarrow> 'r house \<Rightarrow> bool" where
  "keepsNamed n hs hs' \<longleftrightarrow> length (h_states hs') = length (h_states hs) \<and>
     (\<forall>j < length (h_states hs). m_name (stateOf (h_states hs ! j)) = n \<longrightarrow> h_states hs' ! j = h_states hs ! j)"

lemma keepsNamed_preorder: "reflp (keepsNamed n)" "transp (keepsNamed n)"
  by (auto simp: keepsNamed_def reflp_def transp_def)

lemma getNonScriptState_name: "getNonScriptState reg n = Inr i \<Longrightarrow> i < length reg \<and> m_name (stateOf (reg ! i)) = n"
  by (auto simp: getNonScriptState_def dest: findState_Some split: option.splits)

lemma setNamed_keepsNamed: "n' \<noteq> n \<Longrightarrow> stepRel (keepsNamed n) (setNamed V n' v)"
  unfolding stepRel_def
proof (intro allI)
  fix hs cs
  assume "n' \<noteq> n"
  show "keepsNamed n hs (fst (setNamed V n' v (hs, cs)))"
  proof (cases "getNonScriptState (h_states hs) n'")
    case (Inl e)
    then show ?thesis by (simp add: setNamed_def ifState_def keepsNamed_def)
  next
    case (Inr i)
    from getNonScriptState_name [OF Inr] have i: "i < length (h_states hs)" "m_name (stateOf (h_states hs ! i)) = n'"
      by simp_all
    have "setsAt i v hs (fst (setNamed V n' v (hs, cs)))"
      using setTo_sets [OF i(1)] by (simp add: setNamed_def ifState_at [OF Inr])
    then show ?thesis using i \<open>n' \<noteq> n\<close> by (auto simp: keepsNamed_def setsAt_def)
  qed
qed

lemma runAll_twoHouse:
  assumes "stepRel (=) g" and "stepRel (=) k"
  shows "fst (runAll [f, g, k] s) = fst (f s)"
  using runAll_after [of "(=)" "[g, k]" f s] assms by (simp add: reflp_def transp_def)

text \<open>The number of the value that is shown as the text.\<close>

definition effectValue :: "string \<Rightarrow> u32" where
  "effectValue t = (if t \<in> {''present'', ''awake'', ''active''} then 1 else 2)"

definition effectStep :: "'r shenv \<Rightarrow> string \<Rightarrow> string \<Rightarrow> 'r hstep \<Rightarrow> bool" where
  "effectStep V n t f \<longleftrightarrow> f = setNamed V n (effectValue t) \<or> f = setRegistered V n (effectValue t) \<or>
     f = setNamedTo V n t \<and> stateValues n \<noteq> []"

lemma effect_simple:
  "sceneEffect s = Some (n, t) \<Longrightarrow> s \<noteq> int SceneAbsent \<Longrightarrow> s \<noteq> int SceneRainInactive \<Longrightarrow> effectStep V n t (broadcastScene V s)"
  by (simp add: sceneEffect_def scene_consts split: if_splits; elim conjE; hypsubst;
      simp add: broadcastScene_def effectStep_def effectValue_def stateValues_def scene_consts
        State_Active_def State_Inactive_def)

lemma effect_absent:
  "broadcastScene V (int SceneAbsent) =
     runAll [setNamedTo V ''presence'' ''absent'', autoClear V ''panic'' ScenePanic, autoClear V ''fire'' SceneFire]"
  "sceneEffect (int SceneAbsent) = Some (n, t) \<Longrightarrow> n = ''presence'' \<and> t = ''absent''"
  "effectStep V ''presence'' ''absent'' (setNamedTo V ''presence'' ''absent'')"
  by (simp_all add: broadcastScene_def sceneEffect_def effectStep_def stateValues_def scene_consts)

lemma effect_rain:
  "broadcastScene V (int SceneRainInactive) =
     runAll (setRegistered V ''rain'' st_Inactive #
       map (\<lambda>grp. setNamed V (formatAppartmentStateName ''rain'' grp) st_Inactive) [GroupIDAppUserMin..GroupIDAppUserMax])"
  "sceneEffect (int SceneRainInactive) = Some (n, t) \<Longrightarrow> n = ''rain'' \<and> t = ''inactive''"
  "effectStep V ''rain'' ''inactive'' (setRegistered V ''rain'' st_Inactive)"
  by (simp_all add: broadcastScene_def sceneEffect_def effectStep_def effectValue_def scene_consts State_Inactive_def)

lemma effectStep_sets:
  assumes "effectStep V n t f" and "sceneEffect s = Some (n, t)" and "getNonScriptState (h_states hs) n = Inr i"
    and "m_values (stateOf (h_states hs ! i)) = stateValues n"
  shows "setsAt i (effectValue t) hs (fst (f (hs, cs)))"
proof -
  have i: "i < length (h_states hs)" using getNonScriptState_name [OF assms(3)] by simp
  have "tryValueFromName (stateOf (h_states hs ! i)) t = Some (effectValue t)" if "stateValues n \<noteq> []"
    using that assms(2, 4) by (auto simp: sceneEffect_def tryValueFromName_def stateValues_def effectValue_def split: if_splits)
  then show ?thesis
    using assms(1) setTo_sets [OF i, of "effectValue t" V coSystem cs] setToName_sets [OF i, of t "effectValue t" V coSystem cs]
    by (auto simp: effectStep_def setNamed_def setRegistered_def setNamedTo_def ifState_at [OF assms(3)]
        getOrRegisterState_at [OF assms(3)])
qed

lemma setsAt_shows:
  assumes "setsAt i (effectValue t) hs hs'" and "sceneEffect s = Some (n, t)" and "m_values (stateOf (h_states hs ! i)) = stateValues n"
  shows "toString (stateOf (h_states hs' ! i)) = t"
  using assms
  by (auto simp: setsAt_def toString_def sceneEffect_def stateValues_def effectValue_def State_Active_def State_Inactive_def
      State_Unknown_def split: if_splits)

lemma rain_names: "formatAppartmentStateName ''rain'' grp \<noteq> ''rain''"
  by (simp add: formatAppartmentStateName_def)

lemma broadcast_sets:
  fixes V :: "'r shenv" and cs :: "request list"
  assumes "sceneEffect s = Some (n, t)" and "getNonScriptState (h_states hs) n = Inr i"
    and "m_values (stateOf (h_states hs ! i)) = stateValues n"
  defines "hs' \<equiv> fst (broadcastScene V s (hs, cs))"
  shows "toString (stateOf (h_states hs' ! i)) = t \<and>
    (s \<noteq> int SceneRainInactive \<longrightarrow> (\<forall>j. j \<noteq> i \<longrightarrow> h_states hs' ! j = h_states hs ! j))"
proof -
  note i = getNonScriptState_name [OF assms(2)]
  note set = effectStep_sets [OF _ assms(1-3), where cs = cs]
  consider "s = int SceneAbsent" | "s = int SceneRainInactive" | "s \<noteq> int SceneAbsent" "s \<noteq> int SceneRainInactive" by blast
  then show ?thesis
  proof cases
    case 1
    then have nt: "n = ''presence''" "t = ''absent''" using assms(1) effect_absent(2) by blast+
    have "hs' = fst (setNamedTo V ''presence'' ''absent'' (hs, cs))"
      unfolding hs'_def 1 effect_absent(1) by (rule runAll_twoHouse [OF autoClear_house autoClear_house])
    then show ?thesis using set [unfolded nt, OF effect_absent(3)] setsAt_shows [OF _ assms(1, 3), of hs']
      by (simp add: nt setsAt_def)
  next
    case 2
    then have nt: "n = ''rain''" "t = ''inactive''" using assms(1) effect_rain(2) by blast+
    let ?h = "fst (setRegistered V ''rain'' st_Inactive (hs, cs))"
    have set': "setsAt i (effectValue t) hs ?h" using set [unfolded nt, OF effect_rain(3)] by (simp add: nt)
    have "keepsNamed ''rain'' ?h hs'"
      unfolding hs'_def 2 effect_rain(1)
      by (rule runAll_after [OF keepsNamed_preorder]) (auto intro: setNamed_keepsNamed [OF rain_names])
    then have "h_states hs' ! i = h_states ?h ! i" using set' i nt by (simp add: keepsNamed_def setsAt_def)
    then show ?thesis using setsAt_shows [OF set' assms(1, 3)] 2 by simp
  next
    case 3
    from set [OF effect_simple [OF assms(1) 3]] have "setsAt i (effectValue t) hs hs'" by (simp add: hs'_def)
    then show ?thesis using setsAt_shows [OF _ assms(1, 3), of hs'] by (simp add: setsAt_def)
  qed
qed

lemma run_house: "fst (runSystemState V ev s) = (if hasInstance (sh_env V) then fst (handleSystem V ev s) else fst s)"
  by (auto simp: runSystemState_def okRun_def split: prod.splits option.splits)


text \<open>An example: the apartment of \<open>Scene_Call\<close>, in which wind begins and a smoke detector reports fire.\<close>

definition exHandler :: "'r timelib \<Rightarrow> 'r shenv" where
  "exHandler L = \<lparr>sh_env = exEnv, sh_lib = L, sh_now = 0, sh_garbage = 0, sh_group = (\<lambda>_. Some (0, 0)),
     sh_device = (\<lambda>_. None), sh_from_string = (\<lambda>_. None)\<rparr>"


definition exFire :: State where
  "exFire = blankState exEnv 0 0 ''fire'' StateType_Service st_Active volatile"

definition exChange :: sysEvent where
  "exChange = \<lparr>se_name = ''stateChange'', se_location = erlState, se_group = None, se_device = None,
     se_state = Some exFire, se_props = m_EventProperties (createStateChangeEvent exFire st_Inactive coSystemBinaryInput)\<rparr>"

lemma exChange_run:
  "\<exists>t. runSystemState (exHandler L) exChange (exCall w, []) =
     (fst (runSystemState (exHandler L) exChange (exCall w, [])), [ReqCallScene t coSystem SAC_MANUAL SceneFire [] False], None)"
proof -
  have v: "valueOf exChange = 1"
    by (simp add: valueOf_def exChange_def change_event_fields prop_has_def prop_get_default_def getState_def exFire_def
        blankState_def State_Active_def)
  have z: "getZone exHouse 0 = Inr (exZone 0 [0, 1, 2] [[1], [2], [3], [4]])"
    by (simp add: getZone_def tryGetZone_def exHouse_def exZone_def)
  have g: "zoneGroup (exZone 0 [0, 1, 2] [[1], [2], [3], [4]]) 0 = Some (exGroup 0 0)"
    by (simp add: zoneGroup_def exZone_def exGroup_def)
  have "\<exists>t hs. callSceneAt (exHandler L) 0 0 SceneFire coSystem (exCall w, []) =
      (hs, [ReqCallScene t coSystem SAC_MANUAL SceneFire [] False], None)"
    using z g
    by (simp add: callSceneAt_def onGroup_def exCall_def groupCallScene_def Let_def itemCallScene_def guarded_def
        checkAccess_def exHandler_def exEnv_def coSystem_def coJSON_def GroupIDControlTemperature_def setOnStateByScene_def
        exGroup_simps)
  moreover have "getData (exHandler L) A exChange = Inr \<lparr>sd_origin = [], sd_zone = -1, sd_group = -1, sd_scene = -1,
      sd_callOrigin = coSystemBinaryInput\<rparr>" for A
    by (simp add: getData_def exChange_def exFire_def blankState_def callOriginOf_def prop_has_def prop_get_default_def
        createStateChangeEvent_def setProperty_def newStateEvent_def newEventAt_def prop_set_def Let_def)
  moreover have "se_name exChange = ''stateChange''" "se_state exChange = Some exFire" "m_type exFire = StateType_Service"
      "se_props exChange ''statename'' = Some ''fire''"
    by (simp_all add: exChange_def exFire_def blankState_def change_event_fields)
  moreover have "hasInstance (sh_env (exHandler L))" "coSystemBinaryInput \<noteq> coSystem"
    by (simp_all add: exHandler_def exEnv_def coSystemBinaryInput_def coSystem_def)
  ultimately show ?thesis
    by (auto simp: runSystemState_def handleSystem_def stateApartment_def Let_def v prop_has_def prop_get_default_def)
qed


end
