(* ===== verification/Start_Laws.thy ===== *)
theory Start_Laws
  imports System_Laws
begin

text \<open>
  The start of the handler of \<open>System_States\<close>: its steps only add states and files, and registering a
  state twice ends it.
\<close>

section \<open>What a step adds\<close>

definition registeredNames :: "'r house \<Rightarrow> string set" where
  "registeredNames hs = set (map (\<lambda>e. m_name (stateOf e)) (h_states hs))"

definition grows :: "'r house \<Rightarrow> 'r house \<Rightarrow> bool" where
  "grows hs hs' \<longleftrightarrow> h_apartment hs' = h_apartment hs \<and> registeredNames hs \<subseteq> registeredNames hs' \<and>
     dom (w_files (h_world hs)) \<subseteq> dom (w_files (h_world hs'))"

lemma grows_preorder: "reflp grows" "transp grows"
proof -
  show "reflp grows" by (simp add: grows_def reflp_def)
  show "transp grows" unfolding transp_def grows_def by (metis subset_trans)
qed

lemma grows_refl: "grows hs hs"
  by (simp add: grows_def)

text \<open>Operations of a state that keep its name and the files.\<close>

definition tame :: "('r world \<Rightarrow> State \<Rightarrow> 'r sres) \<Rightarrow> bool" where
  "tame f \<longleftrightarrow> (\<forall>w st. m_name (fst (snd (f w st))) = m_name st \<and> dom (w_files w) \<subseteq> dom (w_files (fst (f w st))))"

lemma removeFromPropertyTree_name: "removeFromPropertyTree h st = (h', Inr st') \<Longrightarrow> m_name st' = m_name st"
  by (auto simp: removeFromPropertyTree_def andThen_def split: option.splits prod.splits sum.splits)

lemma publish_frame:
  "publishToPropertyTree E w st = (w', st', r) \<Longrightarrow> m_name st' = m_name st \<and> w_files w' = w_files w"
  by (auto simp: publishToPropertyTree_def fails_def dest!: removeFromPropertyTree_name
      split: prod.splits sum.splits option.splits if_splits)

lemma load_name [simp]: "m_name (load E files st) = m_name st"
  by (simp add: load_def Let_def split: option.split list.split)

lemma newTypedState_frame:
  "newTypedState E this garbage w type name service = (w', st, r) \<Longrightarrow> m_name st = name \<and> w_files w' = w_files w"
  by (auto simp: newTypedState_def finishState_def Let_def resync_def blankState_def dest!: publish_frame)

lemma setState_files: "setState E L now w st origin v = (w', st', r) \<Longrightarrow> dom (w_files w) \<subseteq> dom (w_files w')"
  by (auto simp: setState_def Let_def save_def pushNew_def split: if_splits sum.splits)

lemma tame_setState: "tame (\<lambda>w st. setState E L now w st origin v)"
  unfolding tame_def by (metis prod.collapse setState_files setState_frame)

lemma tame_setStateByName: "tame (\<lambda>w st. setStateByName E L now w st origin t)"
  unfolding tame_def
proof (intro allI)
  fix w :: "'a world" and st
  show "m_name (fst (snd (setStateByName E L now w st origin t))) = m_name st \<and>
      dom (w_files w) \<subseteq> dom (w_files (fst (setStateByName E L now w st origin t)))"
    using tame_setState [of E L now origin, unfolded tame_def] by (simp add: setStateByName_def split: option.split)
qed

lemma tame_setPersistence: "tame (\<lambda>w st. case setPersistence E w st p of (w, st) \<Rightarrow> (w, st, None))"
  by (auto simp: tame_def setPersistence_def resync_def Let_def)

lemma tame_setValueRange: "tame (\<lambda>w st. case setValueRange E w st vs of (w, st) \<Rightarrow> (w, st, None))"
  by (auto simp: tame_def setValueRange_def resync_def Let_def)

lemma names_update:
  "m_name st = m_name (stateOf (xs ! i)) \<Longrightarrow>
     map (\<lambda>e. m_name (stateOf e)) (xs[i := withState (xs ! i) st]) = map (\<lambda>e. m_name (stateOf e)) xs"
  by (cases "i < length xs") (simp_all add: map_update list_update_same_conv list_update_beyond)

lemma onState_grows: "tame f \<Longrightarrow> stepRel grows (onState i f)"
  unfolding stepRel_def
proof (intro allI)
  fix hs :: "'a house" and cs
  assume t: "tame f"
  obtain w st r where f: "f (h_world hs) (stateOf (h_states hs ! i)) = (w, st, r)" by (cases rule: prod_cases3)
  from t f have "m_name st = m_name (stateOf (h_states hs ! i))" "dom (w_files (h_world hs)) \<subseteq> dom (w_files w)"
    unfolding tame_def by (metis fst_conv snd_conv)+
  then show "grows hs (fst (onState i f (hs, cs)))"
    by (simp add: onState_def f putState_def grows_def registeredNames_def names_update del: map_map set_map list.set_map)
qed

lemma setTo_grows: "stepRel grows (setTo V origin v i)"
  unfolding setTo_def by (rule onState_grows) (rule tame_setState)

lemma setToName_grows: "stepRel grows (setToName V origin t i)"
  unfolding setToName_def by (rule onState_grows) (rule tame_setStateByName)

lemma persistState_grows: "stepRel grows (persistState V p i)"
  unfolding persistState_def by (rule onState_grows) (rule tame_setPersistence)

lemma basic_grows: "stepRel grows okRun" "stepRel grows (failRun e)"
  by (simp_all add: stepRel_def grows_refl)

lemma reading_grows: "(\<And>z. stepRel grows (h z)) \<Longrightarrow> stepRel grows (reading h)"
  by (simp add: stepRel_def)

lemma runAll_grows: "\<forall>f \<in> set fs. stepRel grows f \<Longrightarrow> stepRel grows (runAll fs)"
  by (rule stepRel_runAll [OF grows_preorder])

lemma ifState_grows: "(\<And>i. stepRel grows (k i)) \<Longrightarrow> stepRel grows (ifState n k)"
  unfolding ifState_def by (rule reading_grows) (simp add: basic_grows split: sum.split)

lemma destroyState_files: "destroyState w st = (w', r) \<Longrightarrow> w_files w' = w_files w"
  by (auto simp: destroyState_def split: prod.splits sum.splits)

lemma allocateState_names:
  "allocateState reg (PlainState st) = Inr reg' \<Longrightarrow> reg' = reg @ [PlainState st]"
  by (simp add: allocateState_def split: if_splits)

lemma grows_trans: "grows x y \<Longrightarrow> grows y z \<Longrightarrow> grows x z"
  by (rule transpD [OF grows_preorder(2)])

lemma grows_world: "w_files w = w_files (h_world hs) \<Longrightarrow> grows hs (hs\<lparr>h_world := w\<rparr>)"
  by (simp add: grows_def registeredNames_def)

lemma makeState_cases:
  fixes hs :: "'a house"
  obtains w e where "makeState V type name service k (hs, cs) = (hs\<lparr>h_world := w\<rparr>, cs, Some e)"
      "w_files w = w_files (h_world hs)"
  | w st where "makeState V type name service k (hs, cs) = k st (hs\<lparr>h_world := w\<rparr>, cs)" "m_name st = name"
      "w_files w = w_files (h_world hs)"
proof -
  obtain w st r where n: "newTypedState (sh_env V) (freshPlace (h_states hs)) (sh_garbage V) (h_world hs) type name service = (w, st, r)"
    by (cases rule: prod_cases3)
  from newTypedState_frame [OF n] show ?thesis
    using that by (cases r) (simp_all add: makeState_def n)
qed

lemma makeState_grows:
  assumes "\<And>st. stepRel grows (k st)"
  shows "stepRel grows (makeState V type name service k)"
  unfolding stepRel_def
proof (intro allI)
  fix hs :: "'a house" and cs
  show "grows hs (fst (makeState V type name service k (hs, cs)))"
  proof (cases rule: makeState_cases [of V type name service k hs cs])
    case (1 w e)
    then show ?thesis by (simp add: grows_world)
  next
    case (2 w st)
    then show ?thesis using assms [of st] grows_world [of w hs] by (auto simp: stepRel_def intro: grows_trans)
  qed
qed

lemma enrol_grows:
  assumes "\<And>i. stepRel grows (k i)"
  shows "stepRel grows (enrol st k)"
  unfolding stepRel_def
proof (intro allI)
  fix hs :: "'a house" and cs
  show "grows hs (fst (enrol st k (hs, cs)))"
  proof (cases "allocateState (h_states hs) (PlainState st)")
    case (Inl e)
    obtain w r where d: "destroyState (h_world hs) st = (w, r)" by (cases "destroyState (h_world hs) st")
    then show ?thesis using Inl grows_world [OF destroyState_files [OF d]] by (cases r) (simp_all add: enrol_def)
  next
    case (Inr reg)
    have "grows hs (hs\<lparr>h_states := reg\<rparr>)"
      using allocateState_names [OF Inr] by (auto simp: grows_def registeredNames_def)
    then show ?thesis using Inr assms [of "length (h_states hs)"]
      by (auto simp: enrol_def stepRel_def intro: grows_trans)
  qed
qed

lemma registerState_grows: "(\<And>i. stepRel grows (k i)) \<Longrightarrow> stepRel grows (registerState V n p k)"
  unfolding registerState_def
  by (intro makeState_grows enrol_grows runAll_grows) (simp add: persistState_grows)

lemma getOrRegisterState_grows: "(\<And>i. stepRel grows (k i)) \<Longrightarrow> stepRel grows (getOrRegisterState V n k)"
  unfolding getOrRegisterState_def by (rule reading_grows) (simp add: registerState_grows split: sum.split)

lemma destroyStep_grows: "stepRel grows (destroyStep st)"
  unfolding stepRel_def
proof (intro allI)
  fix hs :: "'a house" and cs
  obtain w r where d: "destroyState (h_world hs) st = (w, r)" by (cases "destroyState (h_world hs) st")
  show "grows hs (fst (destroyStep st (hs, cs)))"
    using grows_world [OF destroyState_files [OF d]] by (simp add: destroyStep_def d)
qed

lemma loadAndEnrol_grows: "stepRel grows (loadAndEnrol V st)"
  unfolding stepRel_def
proof (intro allI)
  fix hs :: "'a house" and cs
  obtain w st' where p: "setPersistence (sh_env V) (h_world hs) st True = (w, st')"
    by (cases "setPersistence (sh_env V) (h_world hs) st True")
  then have "w_files w = w_files (h_world hs)" by (auto simp: setPersistence_def resync_def Let_def)
  moreover have "stepRel grows (enrol st' (\<lambda>_. okRun))" by (rule enrol_grows) (rule basic_grows)
  ultimately show "grows hs (fst (loadAndEnrol V st (hs, cs)))"
    using grows_world [of w hs] by (auto simp: loadAndEnrol_def p stepRel_def intro: grows_trans)
qed

lemma loadPersistentState_grows: "stepRel grows (loadPersistentState V type n)"
  unfolding loadPersistentState_def
  by (intro makeState_grows reading_grows) (simp add: loadAndEnrol_grows destroyStep_grows)

lemma restore_grows: "stepRel grows on \<Longrightarrow> stepRel grows off \<Longrightarrow> stepRel grows (restore c on off i)"
  unfolding restore_def by (rule reading_grows) (simp add: basic_grows)

lemma inputSteps_grow: "\<forall>f \<in> set (inputSteps V A). stepRel grows f"
  by (auto simp: inputSteps_def intro!: getOrRegisterState_grows basic_grows)

lemma registerOnly_grows: "stepRel grows (registerOnly V n)"
  unfolding registerOnly_def by (rule registerState_grows) (rule basic_grows)

lemma clusterSteps_grow: "\<forall>f \<in> set (clusterSteps V A). stepRel grows f"
  by (auto simp: clusterSteps_def registerOnly_grows basic_grows)

lemma persistentClusterSteps_grow: "\<forall>f \<in> set (persistentClusterSteps V gs). stepRel grows f"
  by (auto simp: persistentClusterSteps_def basic_grows loadPersistentState_grows
      intro!: runAll_grows [unfolded runAll.simps] split: option.splits)

section \<open>Steps that end a run\<close>

definition raises :: "('s, 'c, 'e) estep \<Rightarrow> 's \<Rightarrow> bool" where
  "raises f z \<longleftrightarrow> (\<forall>cs. \<exists>z' cs' e. f (z, cs) = (z', cs', Some e))"

lemma raises_failRun: "raises (failRun e) z"
  by (simp add: raises_def)

lemma raises_reading: "raises (reading h) z \<longleftrightarrow> raises (h z) z"
  by (simp add: raises_def)

lemma raises_runAll:
  assumes "\<forall>g \<in> set fs. stepRel grows g" and "\<And>y. grows z y \<Longrightarrow> raises f y"
  shows "raises (runAll (fs @ f # gs)) z"
  using assms
proof (induction fs arbitrary: z)
  case Nil
  have "raises f z" by (rule Nil.prems(2)) (rule grows_refl)
  then show ?case unfolding raises_def by (metis append_Nil runAll.simps(2) run_simps(7))
next
  case (Cons h fs)
  show ?case
    unfolding raises_def
  proof
    fix cs
    obtain y ds e where h: "h (z, cs) = (y, ds, e)" by (cases rule: prod_cases3)
    have y: "grows z y" using Cons.prems(1) h unfolding stepRel_def by (metis fst_conv list.set_intros(1))
    show "\<exists>z' cs' e. runAll ((h # fs) @ f # gs) (z, cs) = (z', cs', Some e)"
    proof (cases e)
      case None
      have "raises (runAll (fs @ f # gs)) y"
        by (rule Cons.IH) (use Cons.prems y in \<open>auto intro: grows_trans\<close>)
      then show ?thesis using h None by (simp add: raises_def)
    qed (simp add: h)
  qed
qed

text \<open>A run whose first steps raise an exception does not come to the last ones.\<close>

lemma runAll_cut: "raises (runAll fs) z \<Longrightarrow> runAll (fs @ gs) (z, cs) = runAll fs (z, cs)"
  unfolding raises_def runAll_append by (metis run_simps(7))

lemma raises_append: "raises (runAll fs) z \<Longrightarrow> raises (runAll (fs @ gs)) z"
  using runAll_cut unfolding raises_def by metis

text \<open>A run that returns has established what one of its steps establishes and the others keep.\<close>

lemma runAll_establishes:
  assumes "\<forall>g \<in> set fs. stepRel grows g" and "f \<in> set fs"
    and "\<And>z cs z' cs'. f (z, cs) = (z', cs', None) \<Longrightarrow> P z'" and "\<And>z z'. P z \<Longrightarrow> grows z z' \<Longrightarrow> P z'"
  shows "runAll fs (z, cs) = (z', cs', None) \<Longrightarrow> P z'"
  using assms(1, 2)
proof (induction fs arbitrary: z cs)
  case (Cons h fs)
  from Cons.prems(1) obtain y ds where h: "h (z, cs) = (y, ds, None)" "runAll fs (y, ds) = (z', cs', None)"
    by (cases "h (z, cs)") (auto simp: thenRun_def split: option.splits)
  show ?case
  proof (cases "f = h")
    case True
    have "stepRel grows (runAll fs)" using Cons.prems(2) by (intro runAll_grows) simp
    then have "grows y z'" using h(2) unfolding stepRel_def by (metis fst_conv)
    then show ?thesis using assms(3, 4) h(1) True by blast
  next
    case False
    then show ?thesis using Cons.IH [OF h(2)] Cons.prems(2, 3) by simp
  qed
qed simp

lemma enrol_raises: "m_name st \<in> registeredNames hs \<Longrightarrow> raises (enrol st k) hs"
proof -
  assume n: "m_name st \<in> registeredNames hs"
  have a: "allocateState (h_states hs) (PlainState st) = Inl (ItemDuplicate (''Duplicate state '' @ m_name st))"
    using n by (auto simp: registeredNames_def allocateState_def findState_None)
  show ?thesis unfolding raises_def
    by (cases "destroyState (h_world hs) st"; cases "snd (destroyState (h_world hs) st)") (simp_all add: enrol_def a)
qed

lemma registerState_raises: "n \<in> registeredNames hs \<Longrightarrow> raises (registerState V n p k) hs"
  unfolding raises_def
proof
  fix cs
  assume n: "n \<in> registeredNames hs"
  show "\<exists>z' cs' e. registerState V n p k (hs, cs) = (z', cs', Some e)"
    unfolding registerState_def
  proof (cases rule: makeState_cases [of V StateType_Service n "[]"
        "\<lambda>st. enrol st (\<lambda>i. runAll [persistState V p i, k i])" hs cs])
    case (1 w e)
    then show "\<exists>z' cs' e. makeState V StateType_Service n []
        (\<lambda>st. enrol st (\<lambda>i. runAll [persistState V p i, k i])) (hs, cs) = (z', cs', Some e)" by simp
  next
    case (2 w st)
    have "raises (enrol st (\<lambda>i. runAll [persistState V p i, k i])) (hs\<lparr>h_world := w\<rparr>)"
      by (rule enrol_raises) (use 2 n in \<open>simp add: registeredNames_def\<close>)
    then show "\<exists>z' cs' e. makeState V StateType_Service n []
        (\<lambda>st. enrol st (\<lambda>i. runAll [persistState V p i, k i])) (hs, cs) = (z', cs', Some e)"
      unfolding 2(1) raises_def by blast
  qed
qed

lemma hasPersistentData_name: "m_name a = m_name b \<Longrightarrow> hasPersistentData E F a = hasPersistentData E F b"
  by (simp add: hasPersistentData_def getStorageName_def)

lemma loadPersistentState_raises:
  assumes "n \<in> registeredNames hs" and "m_name st0 = n" and "hasPersistentData (sh_env V) (w_files (h_world hs)) st0"
  shows "raises (loadPersistentState V type n) hs"
  unfolding raises_def
proof
  fix cs
  let ?k = "\<lambda>st. reading (\<lambda>hs. if hasPersistentData (sh_env V) (w_files (h_world hs)) st then loadAndEnrol V st else destroyStep st)"
  show "\<exists>z' cs' e. loadPersistentState V type n (hs, cs) = (z', cs', Some e)"
    unfolding loadPersistentState_def
  proof (cases rule: makeState_cases [of V type n "[]" ?k hs cs])
    case (1 w e)
    then show "\<exists>z' cs' e. makeState V type n [] ?k (hs, cs) = (z', cs', Some e)" by simp
  next
    case (2 w st)
    have p: "hasPersistentData (sh_env V) (w_files w) st"
      using assms(2, 3) 2(2, 3) hasPersistentData_name [of st st0] by simp
    obtain w' st' where s: "setPersistence (sh_env V) w st True = (w', st')" by (cases "setPersistence (sh_env V) w st True")
    then have "m_name st' = n" using 2(2) by (auto simp: setPersistence_def Let_def)
    then have "raises (enrol st' (\<lambda>_. okRun)) (hs\<lparr>h_world := w'\<rparr>)"
      by (intro enrol_raises) (use assms(1) in \<open>simp add: registeredNames_def\<close>)
    then have "\<exists>z' cs' e. enrol st' (\<lambda>_. okRun) (hs\<lparr>h_world := w'\<rparr>, cs) = (z', cs', Some e)" by (simp add: raises_def)
    then show "\<exists>z' cs' e. makeState V type n [] ?k (hs, cs) = (z', cs', Some e)"
      unfolding 2(1) by (simp add: p loadAndEnrol_def s)
  qed
qed

text \<open>A state that was registered without an exception is in the registry.\<close>

lemma registerOnly_establishes: "registerOnly V n (hs, cs) = (hs', cs', None) \<Longrightarrow> n \<in> registeredNames hs'"
  unfolding registerOnly_def registerState_def
proof (cases rule: makeState_cases [of V StateType_Service n "[]"
      "\<lambda>st. enrol st (\<lambda>i. runAll [persistState V True i, okRun])" hs cs])
  case (1 w e)
  assume "makeState V StateType_Service n [] (\<lambda>st. enrol st (\<lambda>i. runAll [persistState V True i, okRun])) (hs, cs) = (hs', cs', None)"
  with 1 show ?thesis by simp
next
  case (2 w st)
  assume r: "makeState V StateType_Service n [] (\<lambda>st. enrol st (\<lambda>i. runAll [persistState V True i, okRun])) (hs, cs) = (hs', cs', None)"
  let ?h = "hs\<lparr>h_world := w\<rparr>"
  have e: "enrol st (\<lambda>i. runAll [persistState V True i, okRun]) (?h, cs) = (hs', cs', None)" using r 2(1) by simp
  have k: "stepRel grows (runAll [persistState V True i, okRun])" for i
    by (rule runAll_grows) (simp add: persistState_grows basic_grows)
  show ?thesis
  proof (cases "allocateState (h_states hs) (PlainState st)")
    case (Inl x)
    then show ?thesis using e by (auto simp: enrol_def split: prod.splits option.splits)
  next
    case (Inr reg)
    then have "runAll [persistState V True (length (h_states hs)), okRun] (?h\<lparr>h_states := reg\<rparr>, cs) = (hs', cs', None)"
      using e by (simp add: enrol_def)
    then have "grows (?h\<lparr>h_states := reg\<rparr>) hs'" using k unfolding stepRel_def by (metis fst_conv)
    moreover have "n \<in> registeredNames (?h\<lparr>h_states := reg\<rparr>)" using allocateState_names [OF Inr] 2(2) by (simp add: registeredNames_def)
    ultimately show ?thesis by (auto simp: grows_def)
  qed
qed

lemma getOrRegister_establishes:
  "getOrRegisterState V n (\<lambda>_. okRun) (hs, cs) = (hs', cs', None) \<Longrightarrow> n \<in> registeredNames hs'"
proof (cases "getNonScriptState (h_states hs) n")
  case (Inl e)
  then show "getOrRegisterState V n (\<lambda>_. okRun) (hs, cs) = (hs', cs', None) \<Longrightarrow> n \<in> registeredNames hs'"
    using registerOnly_establishes [of V n hs cs hs' cs'] by (simp add: getOrRegisterState_def registerOnly_def)
next
  case (Inr i)
  then show "getOrRegisterState V n (\<lambda>_. okRun) (hs, cs) = (hs', cs', None) \<Longrightarrow> n \<in> registeredNames hs'"
    using getNonScriptState_name [OF Inr] by (auto simp: getOrRegisterState_def registeredNames_def)
qed

lemma raises_later:
  assumes "\<forall>g \<in> set fs. stepRel grows g" and "f \<in> set fs"
    and "\<And>z cs z' cs'. f (z, cs) = (z', cs', None) \<Longrightarrow> P z'" and "\<And>z z'. P z \<Longrightarrow> grows z z' \<Longrightarrow> P z'"
    and "\<And>y. P y \<Longrightarrow> grows z y \<Longrightarrow> raises (runAll gs) y"
  shows "raises (runAll (fs @ gs)) z"
  unfolding raises_def runAll_append
proof
  fix cs
  obtain y ds e where r: "runAll fs (z, cs) = (y, ds, e)" by (cases rule: prod_cases3)
  show "\<exists>z' cs' e. thenRun (runAll fs (z, cs)) (runAll gs) = (z', cs', Some e)"
  proof (cases e)
    case None
    have "grows z y" using runAll_grows [OF assms(1)] r unfolding stepRel_def by (metis fst_conv)
    moreover have "P y" by (rule runAll_establishes [OF assms(1-4)]) (use r None in auto)
    ultimately show ?thesis using assms(5) r None by (simp add: raises_def)
  qed (simp add: r)
qed

section \<open>The start\<close>

text \<open>The steps up to the states that are kept in files.\<close>

definition restoreSteps :: "'r shenv \<Rightarrow> apartment \<Rightarrow> 'r hstep list" where
  "restoreSteps V A =
     [ifState ''presence'' (\<lambda>i. restore (lastCalled A SceneAbsent)
        (setToName V coJSScripting ''absent'' i) (setToName V coJSScripting ''present'' i) i),
      ifState ''hibernation'' (\<lambda>i. restore (lastCalled A SceneSleeping)
        (setToName V coJSScripting ''sleeping'' i) (setToName V coJSScripting ''awake'' i) i),
      ifState ''panic'' (\<lambda>i. restore (lastCalled A ScenePanic)
        (setTo V coJSScripting st_Active i) (setTo V coJSScripting st_Inactive i) i),
      ifState ''alarm'' (\<lambda>i. restore (lastCalled A SceneAlarm)
        (setTo V coJSScripting st_Active i) (setTo V coJSScripting st_Inactive i) i)]"

definition savedClusters :: "'r shenv \<Rightarrow> 'r hstep" where
  "savedClusters V = reading (\<lambda>hs. case getClusters (h_apartment hs) of
      Inl e \<Rightarrow> failRun (GModel e) | Inr gs \<Rightarrow> runAll (persistentClusterSteps V gs))"

lemma startupSteps_parts:
  "startupSteps V A = (inputSteps V A @ clusterSteps V A @ restoreSteps V A @ [savedClusters V]) @
     [loadPersistentState V StateType_Service ''building_service'', pushNewEvent V fireResetEvent]"
  by (simp add: startupSteps_def restoreSteps_def savedClusters_def)

lemma restoreSteps_grow: "\<forall>f \<in> set (restoreSteps V A). stepRel grows f"
  by (simp add: restoreSteps_def ifState_grows restore_grows setTo_grows setToName_grows)

text \<open>A cluster of shades of the apartment.\<close>

definition shadeCluster :: "apartment \<Rightarrow> group \<Rightarrow> bool" where
  "shadeCluster A g \<longleftrightarrow> (\<exists>z. getZone A 0 = Inr z \<and> z_isPresent z \<and> g \<in> set (z_groups z)) \<and>
     isAppUserGroup (g_id g) \<and> g_isCluster g \<and> g_applicationType g = AT_Blinds"

lemma shadeCluster_step:
  assumes "shadeCluster A g"
  shows "registerOnly V (formatAppartmentStateName ''wind'' (g_id g)) \<in> set (clusterSteps V A)"
proof -
  obtain z where z: "z \<in> set (a_zones A)" "z_isPresent z" "g \<in> set (z_groups z)"
    using assms by (auto simp: shadeCluster_def getZone_def tryGetZone_def find_Some_iff dest: nth_mem split: option.splits)
  then have "g \<in> set (presentGroups A)" by (auto simp: presentGroups_def)
  then show ?thesis using assms by (force simp: clusterSteps_def shadeCluster_def)
qed

lemma savedClusters_raises:
  assumes "shadeCluster (h_apartment hs) g" and "formatAppartmentStateName ''wind'' (g_id g) \<in> registeredNames hs"
    and "m_name st = formatAppartmentStateName ''wind'' (g_id g)" and "hasPersistentData (sh_env V) (w_files (h_world hs)) st"
  shows "raises (savedClusters V) hs"
proof -
  obtain z where z: "getZone (h_apartment hs) 0 = Inr z" "g \<in> set (z_groups z)" using assms(1) by (auto simp: shadeCluster_def)
  obtain gs where gs: "getClusters (h_apartment hs) = Inr gs" "Some g \<in> set gs"
    using z assms(1) by (force simp: getClusters_def shadeCluster_def)
  then obtain as bs where ab: "gs = as @ Some g # bs" by (meson split_list)
  let ?n = "formatAppartmentStateName ''wind'' (g_id g)"
  let ?f = "runAll [loadPersistentState V StateType_Service ?n,
    loadPersistentState V StateType_Group (formatAppartmentStateName ''operation_lock'' (g_id g))]"
  have "raises ?f y" if "grows hs y" for y
  proof -
    have "?n \<in> registeredNames y" "hasPersistentData (sh_env V) (w_files (h_world y)) st"
      using that assms(2, 4) by (auto simp: grows_def hasPersistentData_def dom_def)
    then have "raises (loadPersistentState V StateType_Service ?n) y" using assms(3) by (intro loadPersistentState_raises)
    then show ?thesis using raises_runAll [of "[]" y "loadPersistentState V StateType_Service ?n"]
      by (simp add: raises_def) (metis run_simps(7))
  qed
  moreover have "persistentClusterSteps V gs = persistentClusterSteps V as @ ?f # persistentClusterSteps V bs"
    using assms(1) by (simp add: persistentClusterSteps_def ab shadeCluster_def)
  ultimately have "raises (runAll (persistentClusterSteps V gs)) hs"
    using raises_runAll [OF persistentClusterSteps_grow] by metis
  then show ?thesis by (simp add: savedClusters_def raises_reading gs(1))
qed

text \<open>A wind detector of the cluster, or a file that keeps the wind state of the cluster.\<close>

definition windDetector :: "apartment \<Rightarrow> group \<Rightarrow> bool" where
  "windDetector A g \<longleftrightarrow> list_ex (\<lambda>d. list_ex (\<lambda>b. bi_inputType b = BI_WindDetector \<and> bi_targetGroupId b = g_id g)
     (d_binaryInputs d)) (a_devices A)"

definition windSaved :: "'r shenv \<Rightarrow> 'r house \<Rightarrow> group \<Rightarrow> bool" where
  "windSaved V hs g \<longleftrightarrow> hasPersistentData (sh_env V) (w_files (h_world hs))
     (blankState (sh_env V) 0 0 (formatAppartmentStateName ''wind'' (g_id g)) StateType_Service st_Inactive volatile)"

lemma hasPersistentData_grows:
  "grows hs hs' \<Longrightarrow> hasPersistentData E (w_files (h_world hs)) st \<Longrightarrow> hasPersistentData E (w_files (h_world hs')) st"
  by (auto simp: grows_def hasPersistentData_def dom_def)

lemma windDetector_step:
  assumes "windDetector A g" and "isAppUserGroup (g_id g)"
  shows "getOrRegisterState V (formatAppartmentStateName ''wind'' (g_id g)) (\<lambda>_. okRun) \<in> set (inputSteps V A)"
proof -
  obtain d b where d: "d \<in> set (a_devices A)" "b \<in> set (d_binaryInputs d)" "bi_inputType b = BI_WindDetector"
      "bi_targetGroupId b = g_id g"
    using assms(1) by (auto simp: windDetector_def list_ex_iff)
  have "formatAppartmentStateName ''wind'' (g_id g) \<in> set (inputStates d b)"
    using d(3, 4) assms(2) by (simp add: inputStates_def Let_def isAppUserGroup_def)
  then show ?thesis using d(1, 2) by (fastforce simp: inputSteps_def)
qed

text \<open>
  C21: The start fails for an apartment with a cluster of shades that has a wind detector, or whose wind state
  is kept in a file.  The state of the cluster is registered twice, first for the detector and then for
  the cluster, or first for the cluster and then from the file, and the second time throws.  So the
  states that are in files are not all loaded, the state of the building service is not, and the event
  that sets up the automatic end of the fire alarm is never raised.
\<close>

theorem startup_aborts:
  assumes "shadeCluster (h_apartment hs) g" and "windDetector (h_apartment hs) g \<or> windSaved V hs g"
  shows "(\<exists>hs' cs' e. startup V (hs, cs) = (hs', cs', Some e)) \<and>
    startup V (hs, cs) = runAll (butlast (butlast (startupSteps V (h_apartment hs)))) (hs, cs)"
proof -
  let ?A = "h_apartment hs" and ?n = "formatAppartmentStateName ''wind'' (g_id g)"
  let ?all = "inputSteps V ?A @ clusterSteps V ?A @ restoreSteps V ?A @ [savedClusters V]"
  have grow: "\<forall>f \<in> set (inputSteps V ?A @ clusterSteps V ?A). stepRel grows f"
    using inputSteps_grow [of V ?A] clusterSteps_grow [of V ?A] by (simp add: ball_Un)
  have mono: "?n \<in> registeredNames z \<Longrightarrow> grows z z' \<Longrightarrow> ?n \<in> registeredNames z'" for z z' :: "'a house" by (auto simp: grows_def)
  have "raises (runAll ?all) hs"
    using assms(2)
  proof
    assume w: "windDetector ?A g"
    obtain as bs where ab: "clusterSteps V ?A = as @ registerOnly V ?n # bs"
      using split_list [OF shadeCluster_step [OF assms(1)]] by blast
    have as: "\<forall>f \<in> set as. stepRel grows f" using clusterSteps_grow [of V ?A] by (simp add: ab)
    have "raises (runAll (clusterSteps V ?A @ restoreSteps V ?A @ [savedClusters V])) y" if "?n \<in> registeredNames y" for y
      unfolding ab append_assoc append_Cons
      by (rule raises_runAll [OF as]) (use that mono in \<open>auto simp: registerOnly_def intro: registerState_raises\<close>)
    then show ?thesis
      using assms(1) by (intro raises_later [where P = "\<lambda>z. ?n \<in> registeredNames z", OF inputSteps_grow windDetector_step [OF w]])
        (auto simp: shadeCluster_def intro: getOrRegister_establishes mono)
  next
    assume w: "windSaved V hs g"
    have "raises (runAll (restoreSteps V ?A @ [savedClusters V])) y" if "?n \<in> registeredNames y" "grows hs y" for y
    proof (rule raises_runAll [OF restoreSteps_grow])
      fix y' assume "grows y y'"
      with that have y': "grows hs y'" "?n \<in> registeredNames y'" by (blast intro: grows_trans mono)+
      show "raises (savedClusters V) y'"
        by (rule savedClusters_raises [OF _ y'(2) _ hasPersistentData_grows [OF y'(1) w [unfolded windSaved_def]]])
           (use y'(1) assms(1) in \<open>simp_all add: grows_def blankState_def\<close>)
    qed
    then have "raises (runAll ((inputSteps V ?A @ clusterSteps V ?A) @ restoreSteps V ?A @ [savedClusters V])) hs"
      using shadeCluster_step [OF assms(1), of V]
      by (intro raises_later [where P = "\<lambda>z. ?n \<in> registeredNames z", OF grow, of "registerOnly V ?n"])
         (auto intro: registerOnly_establishes mono)
    then show ?thesis by simp
  qed
  then have "startup V (hs, cs) = runAll ?all (hs, cs)" "\<exists>hs' cs' e. runAll ?all (hs, cs) = (hs', cs', Some e)"
    using runAll_cut [of ?all hs "[loadPersistentState V StateType_Service ''building_service'', pushNewEvent V fireResetEvent]" cs]
    by (simp_all add: startup_def startupSteps_parts raises_def del: append_assoc)
  moreover have "butlast (butlast (startupSteps V ?A)) = ?all"
    unfolding startupSteps_parts by (simp add: butlast_append)
  ultimately show ?thesis by metis
qed

text \<open>An example: a cluster of shades with a wind detector.\<close>

definition exCluster :: group where
  "exCluster = (exGroup 0 17)\<lparr>g_applicationType := AT_Blinds, g_isCluster := True\<rparr>"

definition exWindy :: apartment where
  "exWindy = \<lparr>
     a_devices = [(exDevice 1 1 [2, 17])\<lparr>d_binaryInputs :=
       [\<lparr>bi_inputType = BI_WindDetector, bi_inputId = 15, bi_targetGroupId = 17\<rparr>]\<rparr>],
     a_zones = [(exZone 0 [0] [[1]])\<lparr>z_groups := [exGroup 0 0, exCluster]\<rparr>], a_dsMeters = []\<rparr>"

theorem startup_aborts_witness:
  "\<forall>V w reg cs. \<exists>hs' cs' e. startup (V :: 'r shenv) (\<lparr>h_world = w, h_states = reg, h_apartment = exWindy\<rparr>, cs) = (hs', cs', Some e)"
proof (intro allI)
  fix V :: "'r shenv" and w :: "'r world" and reg cs
  have s: "shadeCluster (h_apartment \<lparr>h_world = w, h_states = reg, h_apartment = exWindy\<rparr>) exCluster"
    by (simp add: shadeCluster_def exWindy_def exCluster_def exZone_def exGroup_def getZone_def tryGetZone_def
        isAppUserGroup_def GroupIDAppUserMin_def GroupIDAppUserMax_def)
  have w: "windDetector (h_apartment \<lparr>h_world = w, h_states = reg, h_apartment = exWindy\<rparr>) exCluster"
    by (simp add: windDetector_def exWindy_def exCluster_def exGroup_def exDevice_def)
  show "\<exists>hs' cs' e. startup V (\<lparr>h_world = w, h_states = reg, h_apartment = exWindy\<rparr>, cs) = (hs', cs', Some e)"
    by (rule startup_aborts [OF s disjI1 [OF w], THEN conjunct1])
qed

end
