(* ===== verification/Count_Laws.thy ===== *)
theory Count_Laws
  imports System_States State_Laws
begin

text \<open>
  The combination of several inputs into one state in \<open>System_States\<close>: the number that the property tree
  holds for a state is the number of its active inputs as long as each input reports in turn, and goes
  wrong for good when one does not.
\<close>

section \<open>The counter in the tree\<close>

text \<open>A node with an integer of its own.\<close>

definition counterIs :: "pheap \<Rightarrow> nodeid \<Rightarrow> u32 \<Rightarrow> bool" where
  "counterIs h n c \<longleftrightarrow> wf_tree h \<and> n < nextId h \<and> m_AliasTarget (node h n) = None \<and> m_Proxy (node h n) = None \<and>
     m_ValueType (node h n) = vTypeInteger \<and> m_Actual (node h n) = UInteger c"

text \<open>The value of a node stays.\<close>

definition sameValue :: "pheap \<Rightarrow> pheap \<Rightarrow> nodeid \<Rightarrow> bool" where
  "sameValue h h' k \<longleftrightarrow> m_Actual (node h' k) = m_Actual (node h k) \<and> m_ValueType (node h' k) = m_ValueType (node h k) \<and>
     m_Proxy (node h' k) = m_Proxy (node h k) \<and> m_AliasTarget (node h' k) = m_AliasTarget (node h k)"

lemma counter_same:
  "counterIs h n c \<Longrightarrow> wf_tree h' \<Longrightarrow> nextId h \<le> nextId h' \<Longrightarrow> sameValue h h' n \<Longrightarrow> counterIs h' n c"
  by (simp add: counterIs_def sameValue_def)

lemma counter_mem: "counterIs h n c \<Longrightarrow> counterIs (h\<lparr>mem := m\<rparr>) n c"
proof -
  assume c: "counterIs h n c"
  have sh: "same_shape h (h\<lparr>mem := m\<rparr>)" by simp
  have "wf_tree (h\<lparr>mem := m\<rparr>)"
    using wf_extends [OF same_shape_extends [OF sh]] same_shape_tree [OF sh] same_shape_dense [OF sh] c
    by (simp add: counterIs_def wf_tree_def)
  with c show ?thesis by (simp add: counterIs_def)
qed

lemma counter_read: "counterIs h n c \<Longrightarrow> getIntegerValue h n = Inr c"
  by (simp add: counterIs_def getIntegerValue_def forwardGet_def alias_end.simps [of h n] getTyped_def Let_def)

lemma counter_write:
  assumes "counterIs h n c"
  obtains h' where "setIntegerValue h n v = (h', Inr ())" "counterIs h' n v" "extends h h'" "keeps h h'" "same_shape h h'"
proof -
  let ?h = "upd h n (\<lambda>x. x\<lparr>m_Actual := UInteger v, m_ValueType := vTypeInteger\<rparr>)"
  have c: "wf_tree h" "n < nextId h" "m_AliasTarget (node h n) = None" "m_Proxy (node h n) = None"
    "m_ValueType (node h n) = vTypeInteger"
    using assms by (simp_all add: counterIs_def)
  obtain ps where "ancestors h n ps" using c(1) by (auto simp: wf_tree_def tree_ok_def)
  then have ps: "ancestors ?h n ps" by (rule ancestors_cong) simp
  have "setIntegerValue h n v = propertyChanged ?h n"
    using c(3-5) by (simp add: setIntegerValue_def forward_def alias_end.simps [of h n] setTyped_def clearValue_def Let_def upd_def)
  then have run: "setIntegerValue h n v = (changed ?h n ps, Inr ())" by (simp add: propertyChanged_ancestors [OF ps])
  have sh: "same_shape h (changed ?h n ps)" by (simp add: same_shape_def changed_def children_def)
  have k: "keeps h (changed ?h n ps)" using c(4) by (simp add: keeps_def changed_def)
  note e = same_shape_extends [OF sh]
  have "wf_tree (changed ?h n ps)"
    using wf_extends [OF e _ _ c(1)] same_shape_tree [OF sh] same_shape_dense [OF sh] c(1) by (simp add: wf_tree_def)
  then have "counterIs (changed ?h n ps) n v" using c by (simp add: counterIs_def changed_def)
  then show thesis using that run e k sh by blast
qed

lemma createChild_value:
  assumes ok: "tree_ok h" and m: "m < nextId h" "m_AliasTarget (node h m) = None" and a: "plain_name a"
    and run: "createChild h m a p = (h', Inr c)" and k: "k < nextId h"
  shows "sameValue h h' k"
proof -
  let ?k = "nextId h"
  have nm: "getAndRemoveIndexFromPropertyName (stripPlus a) = (0, a)" "a \<noteq> []"
    using a by (simp_all add: plain_strip plain_index) (simp add: plain_name_def)
  from createChild_success [OF ok m nm, of p] plain_c_str [OF a] run
  obtain h1 j where mk: "make_shared h a j = (h1, ?k)" and h': "childAdded (attachChild h1 m ?k) m ?k = (h', Inr ())" by auto
  have nd: "nodes h' = nodes (attachChild h1 m ?k)"
    using h' unfolding childAdded_def by (rule notifyListeners_cases; simp)
  have v: "m_Actual (node (attachChild h1 m ?k) l) = m_Actual (node h1 l)"
    "m_ValueType (node (attachChild h1 m ?k) l) = m_ValueType (node h1 l)"
    "m_Proxy (node (attachChild h1 m ?k) l) = m_Proxy (node h1 l)"
    "m_AliasTarget (node (attachChild h1 m ?k) l) = m_AliasTarget (node h1 l)" for l
    by (simp_all add: attachChild_def Let_def)
  show ?thesis using k by (simp add: sameValue_def nd v make_shared_nodes(3) [OF mk])
qed

text \<open>Linking a child of another node leaves the counter alone.\<close>

lemma linkChild_counter:
  assumes c: "counterIs h n c" and p: "p < nextId h" "m_AliasTarget (node h p) = None" and a: "plain_name a"
    and other: "childNamed h p a \<noteq> Some n"
  obtains h' where "linkChild h p a q = (h', Inr ())" "counterIs h' n c" "extends h h'" "keeps h h'"
    "childNamed h' p a \<noteq> Some n" "\<And>b. b \<noteq> a \<Longrightarrow> childNamed h' p b = childNamed h p b"
proof -
  have wf: "wf_tree h" and n: "n < nextId h" using c by (simp_all add: counterIs_def)
  have ok: "tree_ok h" "dense h" "aliases_end h" using wf by (simp_all add: wf_tree_def)
  show thesis
  proof (cases "childNamed h p a")
    case None
    obtain h1 k where h1: "createChild h p a a = (h1, Inr k)" "tree_ok h1" "dense h1" "extends h h1"
        "childNamed h1 p a = Some k" "k < nextId h1"
      using createChild_plain [OF ok(1) p a ok(2) None, of a] by blast
    note fr = createChild_frame [OF ok(1) p a ok(2) None h1(1)]
    have wf1: "wf_tree h1" using wf_extends [OF h1(4, 2, 3) wf] .
    obtain h2 b where l: "linkToProxy h1 k q = (h2, b)" by fastforce
    note lk = link_child_node [OF wf1 h1(6) fr(4, 3) l]
    have run: "linkChild h p a q = (h2, Inr ())" using createProperty_single [OF a p(2)] None h1(1) l by (simp add: linkChild_def)
    have kn: "k \<noteq> n" using fr(1) n by simp
    have "sameValue h1 h2 n" using l kn by (auto simp: linkToProxy_def sameValue_def split: if_splits)
    then have "sameValue h h2 n" using createChild_value [OF ok(1) p a h1(1) n] by (simp add: sameValue_def)
    then have "counterIs h2 n c" using c lk(1, 3) fr(2) by (intro counter_same [OF c]) (auto simp: keeps_def)
    moreover have "childNamed h2 p d = childNamed h1 p d" for d using same_shape_childNamed [OF lk(4)] .
    ultimately show thesis
      using that [OF run _ extends_trans [OF h1(4) lk(2)] keeps_trans [OF fr(2) lk(3)]] h1(5) kn fr(5) by simp
  next
    case (Some k)
    have kn: "k \<noteq> n" using Some other by simp
    have run: "linkChild h p a q = (fst (linkToProxy h k q), Inr ())"
      using createProperty_single [OF a p(2)] Some by (simp add: linkChild_def)
    show thesis
    proof (cases "IsLinkedToProxy h k \<or> m_AliasTarget (node h k) \<noteq> None")
      case True
      then have "fst (linkToProxy h k q) = h" by (simp add: linkToProxy_def)
      then show thesis using that [OF run] c other by simp
    next
      case False
      obtain h2 b where l: "linkToProxy h k q = (h2, b)" by fastforce
      have k: "k < nextId h" using childNamed_alloc [OF ok(1) Some] .
      have free: "m_AliasTarget (node h k) = None" "m_Proxy (node h k) = None"
        using False by (simp_all add: IsLinkedToProxy_def)
      note lk = link_child_node [OF wf k free l]
      have "sameValue h h2 n" using l kn by (auto simp: linkToProxy_def sameValue_def split: if_splits)
      then have "counterIs h2 n c" using lk(1, 3) by (intro counter_same [OF c]) (auto simp: keeps_def)
      then show thesis
        using that [OF run] lk(2, 3) same_shape_childNamed [OF lk(4)] l other by simp
    qed
  qed
qed

section \<open>The state beside its counter\<close>

definition apart :: "pheap \<Rightarrow> State \<Rightarrow> nodeid \<Rightarrow> bool" where
  "apart h st n \<longleftrightarrow> (\<forall>p. m_pPropertyNode st = Some p \<longrightarrow>
     childNamed h p ''callOrigin'' \<noteq> Some n \<and> childNamed h p ''originDeviceDSUID'' \<noteq> Some n)"

definition counted :: "nodeid \<Rightarrow> u32 \<Rightarrow> 'r world \<Rightarrow> State \<Rightarrow> bool" where
  "counted n c w st \<longleftrightarrow> state_inv w st \<and> counterIs (w_heap w) n c \<and> apart (w_heap w) st n"

lemma plain_origin: "plain_name ''callOrigin''" "plain_name ''originDeviceDSUID''"
  by (rule plain_names(4)) (simp add: plain_name_def)

lemma setState_counted:
  assumes "counted n c w st"
  shows "\<exists>w' o'. setState E L now w st origin v = (w', st\<lparr>m_state := v, m_callOrigin := o'\<rparr>, None) \<and>
    counted n c w' (st\<lparr>m_state := v, m_callOrigin := o'\<rparr>)"
proof (cases "v = m_state st")
  case True
  then show ?thesis using assms by (intro exI [of _ w] exI [of _ "m_callOrigin st"]) (simp add: setState_def)
next
  case False
  define st' where "st' = st\<lparr>m_state := v, m_callOrigin := origin\<rparr>"
  let ?h = "sync E st' (w_heap w)"
  let ?r = "case m_pPropertyNode st' of
      Some p \<Rightarrow> if hasInstance E \<and> m_callOrigin st' \<noteq> coUnknown
                then linkChild ?h p ''callOrigin'' (refProxy vTypeInteger st' 3) else (?h, Inr ())
    | None \<Rightarrow> (?h, Inr ())"
  have cn: "counterIs ?h n c" using assms counter_mem by (simp add: counted_def sync_def)
  have node: "m_pPropertyNode st' = m_pPropertyNode st" by (simp add: st'_def)
  have ap: "apart ?h st' n"
    using assms same_shape_childNamed [of "w_heap w" "(w_heap w)\<lparr>mem := x\<rparr>" for x]
    by (simp add: counted_def apart_def node sync_def)
  have "\<exists>h'. ?r = (h', Inr ()) \<and> state_inv (w\<lparr>w_heap := h'\<rparr>) st' \<and> counterIs h' n c \<and> apart h' st' n"
  proof (cases "m_pPropertyNode st'")
    case None
    then show ?thesis using cn ap by (simp add: state_inv_def)
  next
    case (Some p)
    then have p: "m_pPropertyNode st = Some p" "plain_state st" "view_at (w_heap w) st p"
      using assms by (simp_all add: counted_def state_inv_def node)
    then have v': "view_at ?h st' p" using view_mem [OF p(3, 2)] by (simp add: st'_def sync_def)
    have pl: "plain_state st'" using p(2) by (simp add: st'_def)
    show ?thesis
    proof (cases "hasInstance E \<and> m_callOrigin st' \<noteq> coUnknown")
      case True
      have o: "p < nextId ?h" "m_AliasTarget (node ?h p) = None" using v' by (simp_all add: view_at_def)
      have x: "childNamed ?h p ''callOrigin'' \<noteq> Some n" using ap Some by (simp add: apart_def)
      obtain h' where h': "linkChild ?h p ''callOrigin'' (refProxy vTypeInteger st' 3) = (h', Inr ())" "counterIs h' n c"
          "extends ?h h'" "keeps ?h h'" "childNamed h' p ''callOrigin'' \<noteq> Some n"
          "\<And>b. b \<noteq> ''callOrigin'' \<Longrightarrow> childNamed h' p b = childNamed ?h p b"
        by (rule linkChild_counter [OF cn o plain_origin(1) x, of "refProxy vTypeInteger st' 3"]) blast
      have "wf_tree h'" using h'(2) by (simp add: counterIs_def)
      then have "view_at h' st' p" using view_mono [OF v' _ h'(3, 4) pl] by simp
      moreover have "apart h' st' n" using ap Some h'(5, 6) by (simp add: apart_def)
      ultimately show ?thesis using Some True h'(1, 2) synced_keeps [OF h'(4) synced_sync] pl
        by (simp add: state_inv_def)
    next
      case False
      then have "?r = (?h, Inr ())" using Some by auto
      moreover have "state_inv (w\<lparr>w_heap := ?h\<rparr>) st'" using Some v' pl by (simp add: state_inv_def)
      ultimately show ?thesis using cn ap by blast
    qed
  qed
  then obtain h' where h': "?r = (h', Inr ())" "state_inv (w\<lparr>w_heap := h'\<rparr>) st'" "counterIs h' n c" "apart h' st' n" by blast
  have "setState E L now w st origin v = (afterSet E L now st' (m_state st) origin (w\<lparr>w_heap := h'\<rparr>), st', None)"
    using False h'(1) unfolding setState_def st'_def [symmetric] Let_def by (simp add: afterSet_def Let_def)
  moreover have "counted n c (afterSet E L now st' (m_state st) origin (w\<lparr>w_heap := h'\<rparr>)) st'"
    using h'(2-4) state_inv_heap [of "afterSet E L now st' (m_state st) origin (w\<lparr>w_heap := h'\<rparr>)" "w\<lparr>w_heap := h'\<rparr>" st']
    by (simp add: counted_def)
  ultimately show ?thesis unfolding st'_def by blast
qed

lemma view_origin [simp]:
  "view_at h (st\<lparr>m_originDeviceDSUID := r\<rparr>) p = view_at h st p"
  "plain_state (st\<lparr>m_originDeviceDSUID := r\<rparr>) = plain_state st"
  by (simp_all add: view_at_def plain_state_def stateNames_def refProxy_def memberProxy_def cell_def)

lemma setOrigin_counted:
  assumes "counted n c w st"
  shows "\<exists>w'. setOriginDeviceDSUID E w st r = (w', st\<lparr>m_originDeviceDSUID := r\<rparr>, None) \<and>
    counted n c w' (st\<lparr>m_originDeviceDSUID := r\<rparr>)"
proof -
  define st' where "st' = st\<lparr>m_originDeviceDSUID := r\<rparr>"
  let ?h = "sync E st' (w_heap w)"
  have cn: "counterIs ?h n c" using assms counter_mem by (simp add: counted_def sync_def)
  have node: "m_pPropertyNode st' = m_pPropertyNode st" by (simp add: st'_def)
  have ap: "apart ?h st' n"
    using assms same_shape_childNamed [of "w_heap w" "(w_heap w)\<lparr>mem := x\<rparr>" for x]
    by (simp add: counted_def apart_def node sync_def)
  have fin: "counted n c (w\<lparr>w_heap := ?h\<rparr>) st'"
    using assms cn ap view_mem
    by (auto simp: counted_def state_inv_def node) (simp_all add: st'_def sync_def)
  show ?thesis
  proof (cases "m_pPropertyNode st")
    case None
    then show ?thesis using fin node by (simp add: setOriginDeviceDSUID_def st'_def Let_def)
  next
    case (Some p)
    have v': "view_at ?h st' p" and pl: "plain_state st'"
      using fin Some node by (simp_all add: counted_def state_inv_def)
    have o: "p < nextId ?h" "m_AliasTarget (node ?h p) = None" using v' by (simp_all add: view_at_def)
    have get: "getProperty ?h p ''originDeviceDSUID'' = Inr (childNamed ?h p ''originDeviceDSUID'')"
      using getProperty_single [OF plain_origin(2) alias_end_self [OF o(2)]] by simp
    show ?thesis
    proof (cases "hasInstance E \<and> r \<noteq> DSUID_NULL E \<and> childNamed ?h p ''originDeviceDSUID'' = None")
      case True
      obtain h' where h': "linkChild ?h p ''originDeviceDSUID'' (memberProxy st' 4) = (h', Inr ())" "counterIs h' n c"
          "extends ?h h'" "keeps ?h h'" "childNamed h' p ''originDeviceDSUID'' \<noteq> Some n"
          "\<And>b. b \<noteq> ''originDeviceDSUID'' \<Longrightarrow> childNamed h' p b = childNamed ?h p b"
        by (rule linkChild_counter [OF cn o plain_origin(2), of "memberProxy st' 4"]) (use True in auto)
      have "wf_tree h'" using h'(2) by (simp add: counterIs_def)
      then have "view_at h' st' p" using view_mono [OF v' _ h'(3, 4) pl] by simp
      moreover have "apart h' st' n" using ap Some h'(5, 6) node by (simp add: apart_def)
      ultimately have "counted n c (w\<lparr>w_heap := h'\<rparr>) st'"
        using Some h'(2) synced_keeps [OF h'(4) synced_sync] pl node by (simp add: counted_def state_inv_def)
      moreover have "setOriginDeviceDSUID E w st r = (w\<lparr>w_heap := h'\<rparr>, st', None)"
        using True Some get h'(1) unfolding setOriginDeviceDSUID_def st'_def [symmetric] Let_def
        by (simp add: node fails_def) (simp add: st'_def)
      ultimately show ?thesis unfolding st'_def by blast
    next
      case False
      then have "setOriginDeviceDSUID E w st r = (w\<lparr>w_heap := ?h\<rparr>, st', None)"
        using Some get unfolding setOriginDeviceDSUID_def st'_def [symmetric] Let_def
        by (auto simp: node split: option.split) (simp_all add: st'_def)
      then show ?thesis using fin unfolding st'_def by blast
    qed
  qed
qed

section \<open>Reports of inputs\<close>

text \<open>The state at \<open>i\<close> is counted at the node \<open>n\<close>, and has the value.\<close>

definition countReady :: "nat \<Rightarrow> nodeid \<Rightarrow> u32 \<times> u32 \<Rightarrow> 'r house \<Rightarrow> bool" where
  "countReady i n cs hs \<longleftrightarrow> i < length (h_states hs) \<and> counted n (fst cs) (h_world hs) (stateOf (h_states hs ! i)) \<and>
     m_state (stateOf (h_states hs ! i)) = snd cs"

text \<open>What a report does to the number and the state.\<close>

definition reportSpec :: "int \<Rightarrow> u32 \<times> u32 \<Rightarrow> u32 \<times> u32" where
  "reportSpec v cs =
     (if v = 1 then (fst cs + 1, st_Active)
      else if v = 2 then
        (let c = (if 0 <s fst cs then fst cs - 1 else fst cs) in (c, if c = 0 then st_Inactive else snd cs))
      else cs)"

lemma setTo_ready: "countReady i n (c, s) hs \<Longrightarrow> yields (setTo V origin v i) hs (countReady i n (c, v))"
  unfolding yields_def
proof
  fix cs
  assume r: "countReady i n (c, s) hs"
  then have "counted n c (h_world hs) (stateOf (h_states hs ! i))" by (simp add: countReady_def)
  from setState_counted [OF this, of "sh_env V" "sh_lib V" "sh_now V" origin v] obtain w' o' where
    "setState (sh_env V) (sh_lib V) (sh_now V) (h_world hs) (stateOf (h_states hs ! i)) origin v =
      (w', (stateOf (h_states hs ! i))\<lparr>m_state := v, m_callOrigin := o'\<rparr>, None)"
    "counted n c w' ((stateOf (h_states hs ! i))\<lparr>m_state := v, m_callOrigin := o'\<rparr>)" by blast
  then show "\<exists>z' cs'. setTo V origin v i (hs, cs) = (z', cs', None) \<and> countReady i n (c, v) z'"
    using r by (simp add: setTo_def onState_def putState_def countReady_def)
qed

lemma setOrigin_ready: "countReady i n cs hs \<Longrightarrow> yields (setOrigin V r i) hs (countReady i n cs)"
  unfolding yields_def
proof
  fix ds
  assume r: "countReady i n cs hs"
  then have "counted n (fst cs) (h_world hs) (stateOf (h_states hs ! i))" by (simp add: countReady_def)
  from setOrigin_counted [OF this, of "sh_env V" r] obtain w' where
    "setOriginDeviceDSUID (sh_env V) (h_world hs) (stateOf (h_states hs ! i)) r =
      (w', (stateOf (h_states hs ! i))\<lparr>m_originDeviceDSUID := r\<rparr>, None)"
    "counted n (fst cs) w' ((stateOf (h_states hs ! i))\<lparr>m_originDeviceDSUID := r\<rparr>)" by blast
  then show "\<exists>z' cs'. setOrigin V r i (hs, ds) = (z', cs', None) \<and> countReady i n cs z'"
    using r by (simp add: setOrigin_def onState_def putState_def countReady_def)
qed

lemma read_ready:
  "countReady i n (c, s) hs \<Longrightarrow> atHeap (nodeInt n) k (hs, cs) = k c (hs, cs)"
  using counter_read [of "w_heap (h_world hs)" n c]
  by (simp add: countReady_def counted_def atHeap_def nodeInt_def Let_def)

lemma write_ready:
  assumes "countReady i n (c, s) hs"
  shows "yields (atHeap (setNodeInt n v) (\<lambda>_. okRun)) hs (countReady i n (v, s))"
  unfolding yields_def
proof
  fix cs
  let ?st = "stateOf (h_states hs ! i)"
  have c: "state_inv (h_world hs) ?st" "counterIs (w_heap (h_world hs)) n c" "apart (w_heap (h_world hs)) ?st n"
    using assms by (simp_all add: countReady_def counted_def)
  obtain h' where h': "setIntegerValue (w_heap (h_world hs)) n v = (h', Inr ())" "counterIs h' n v"
      "extends (w_heap (h_world hs)) h'" "keeps (w_heap (h_world hs)) h'" "same_shape (w_heap (h_world hs)) h'"
    by (rule counter_write [OF c(2)])
  have wf: "wf_tree h'" using h'(2) by (simp add: counterIs_def)
  have "state_inv ((h_world hs)\<lparr>w_heap := h'\<rparr>) ?st"
    using c(1) synced_keeps [OF h'(4)] view_mono [OF _ wf h'(3, 4)] by (auto simp: state_inv_def)
  moreover have "apart h' ?st n" using c(3) same_shape_childNamed [OF h'(5)] by (simp add: apart_def)
  ultimately have "countReady i n (v, s) (hs\<lparr>h_world := (h_world hs)\<lparr>w_heap := h'\<rparr>\<rparr>)"
    using assms h'(2) by (simp add: countReady_def counted_def)
  then show "\<exists>z' cs'. atHeap (setNodeInt n v) (\<lambda>_. okRun) (hs, cs) = (z', cs', None) \<and> countReady i n (v, s) z'"
    by (simp add: atHeap_def setNodeInt_def h'(1) Let_def)
qed

lemma yields_read: "countReady i n (c, s) hs \<Longrightarrow> yields (k c) hs Q \<Longrightarrow> yields (atHeap (nodeInt n) k) hs Q"
  by (simp add: yields_def read_ready)

lemma report_ready:
  assumes "countReady i n cs hs"
  shows "yields (countInput V i r v n) hs (countReady i n (reportSpec v cs))"
proof -
  obtain c s where cs: "cs = (c, s)" by (cases cs)
  note ready = assms [unfolded cs]
  consider "v = 1" | "v = 2" | "v \<noteq> 1" "v \<noteq> 2" by blast
  then show ?thesis
  proof cases
    case 1
    have "yields (atHeap (nodeInt n) (\<lambda>c. atHeap (setNodeInt n (c + 1)) (\<lambda>_. okRun))) hs (countReady i n (c + 1, s))"
      by (rule yields_read [OF ready]) (rule write_ready [OF ready])
    then show ?thesis unfolding countInput_def cs 1 reportSpec_def if_P [OF refl] fst_conv
      by (rule yields_then) (rule yields_then, erule setTo_ready, rule yields_last, erule setOrigin_ready)
  next
    case 2
    have two_one: "(2::int) \<noteq> 1" by simp
    let ?c = "if 0 <s c then c - 1 else c" and ?s = "\<lambda>c'. if c' = 0 then st_Inactive else s"
    have a: "yields (atHeap (nodeInt n) (\<lambda>c. if 0 <s c then atHeap (setNodeInt n (c - 1)) (\<lambda>_. okRun) else okRun)) hs
        (countReady i n (?c, s))"
      by (rule yields_read [OF ready]) (use write_ready [OF ready] ready in auto)
    have b: "yields (atHeap (nodeInt n) (\<lambda>c. if c = 0 then setTo V coSystemBinaryInput st_Inactive i else okRun)) z
        (countReady i n (c', ?s c'))" if "countReady i n (c', s) z" for c' z
      by (rule yields_read [OF that]) (use setTo_ready [OF that] that in auto)
    have "yields (countInput V i r v n) hs (countReady i n (?c, ?s ?c))"
      unfolding countInput_def 2 two_one if_P [OF refl] if_not_P [OF two_one]
      by (rule yields_then [OF a]) (rule yields_then, erule b, rule yields_last, erule setOrigin_ready)
    moreover have "reportSpec v cs = (?c, ?s ?c)"
      unfolding reportSpec_def cs 2 Let_def fst_conv snd_conv if_P [OF refl] if_not_P [OF two_one] by (rule refl)
    ultimately show ?thesis by (simp only: 2)
  next
    case 3
    then show ?thesis using assms by (simp add: countInput_def reportSpec_def)
  qed
qed

section \<open>Every input reports in turn\<close>

text \<open>
  An input is a device and a number of its own; its reports say whether it is active.  The inputs that are
  active after the reports, and reports in which each input alternates.
\<close>

fun activeAfter :: "'k set \<Rightarrow> ('k \<times> bool) list \<Rightarrow> 'k set" where
  "activeAfter A [] = A"
| "activeAfter A ((k, a) # rs) = activeAfter (if a then insert k A else A - {k}) rs"

fun inTurn :: "'k set \<Rightarrow> ('k \<times> bool) list \<Rightarrow> bool" where
  "inTurn A [] \<longleftrightarrow> True"
| "inTurn A ((k, a) # rs) \<longleftrightarrow> (k \<in> A) \<noteq> a \<and> inTurn (if a then insert k A else A - {k}) rs"

definition inputReports :: "'r shenv \<Rightarrow> nat \<Rightarrow> nodeid \<Rightarrow> ((dsuid \<times> nat) \<times> bool) list \<Rightarrow> 'r hstep" where
  "inputReports V i n rs = runAll (map (\<lambda>((r, _), a). countInput V i r (if a then 1 else 2) n) rs)"

definition countFor :: "'k set \<Rightarrow> u32 \<times> u32" where
  "countFor A = (word_of_nat (card A), if A = {} then st_Inactive else st_Active)"

lemma small_words:
  fixes c :: nat
  assumes "c < 2 ^ 31"
  shows "(word_of_nat c :: u32) = 0 \<longleftrightarrow> c = 0" "0 <s (word_of_nat c :: u32) \<longleftrightarrow> 0 < c"
proof -
  show "(word_of_nat c :: u32) = 0 \<longleftrightarrow> c = 0"
    using assms nat_dvd_not_less [of c "2 ^ 32"] by (auto simp: word_of_nat_eq_0_iff)
  have "sint (word_of_nat c :: u32) = int c"
    using assms by (simp add: signed_of_nat signed_take_bit_int_eq_self)
  then show "0 <s (word_of_nat c :: u32) \<longleftrightarrow> 0 < c" by (simp add: word_sless_alt)
qed

lemma report_counts:
  assumes "finite A" "card A < 2 ^ 31" "(k \<in> A) \<noteq> a"
  shows "reportSpec (if a then 1 else 2) (countFor A) = countFor (if a then insert k A else A - {k})"
proof (cases a)
  case True
  then show ?thesis using assms by (simp add: reportSpec_def countFor_def add.commute)
next
  case False
  then have k: "k \<in> A" using assms(3) by simp
  obtain c where c: "card A = Suc c" "card (A - {k}) = c" using card_Suc_Diff1 [OF assms(1) k] by metis
  have "c = 0 \<longleftrightarrow> A - {k} = {}" using c(2) assms(1) by auto
  moreover have "0 <s (1 + word_of_nat c :: u32)" using small_words(2) [OF assms(2)] c(1) by simp
  moreover have "(word_of_nat c :: u32) = 0 \<longleftrightarrow> c = 0" using small_words(1) [of c] assms(2) c(1) by simp
  ultimately show ?thesis using k False c by (auto simp: reportSpec_def countFor_def)
qed

lemma reports_count:
  assumes "countReady i n (countFor A) hs" "finite A" "inTurn A rs" "card A + length rs < 2 ^ 31"
  shows "yields (inputReports V i n rs) hs (countReady i n (countFor (activeAfter A rs)))"
  using assms
proof (induction A rs arbitrary: hs rule: inTurn.induct)
  case (1 A)
  then show ?case by (simp add: inputReports_def)
next
  case (2 A k a rs)
  let ?A = "if a then insert k A else A - {k}"
  have k: "(k \<in> A) \<noteq> a" and tl: "inTurn ?A rs" using "2.prems"(3) by simp_all
  have size: "card ?A \<le> Suc (card A)" "card A < 2 ^ 31"
    using "2.prems"(2, 4) card_insert_le_m1 [of "Suc (card A)" A k] by (auto simp: card_insert_if card_Diff_singleton_if)
  have first: "yields (countInput V i (fst k) (if a then 1 else 2) n) hs (countReady i n (countFor ?A))"
    using report_ready [OF "2.prems"(1), of V "fst k" "if a then 1 else 2"] report_counts [OF "2.prems"(2) size(2) k] by simp
  have "yields (inputReports V i n rs) z (countReady i n (countFor (activeAfter ?A rs)))" if "countReady i n (countFor ?A) z" for z
    by (rule "2.IH" [OF that]) (use "2.prems"(2, 4) size(1) tl in simp_all)
  then show ?case
    unfolding inputReports_def list.map case_prod_beta fst_conv snd_conv activeAfter.simps
    by (rule yields_then [OF first]) (simp add: case_prod_beta)
qed

text \<open>
  C11: a state that combines binary inputs is the disjunction of its inputs.  Starting with the counter at
  0 and the state inactive, after any reports in which each input alternates between active and
  inactive, all of them are handled without an error, the counter in the property tree is the number
  of inputs that are active, and the state is active exactly when there is one.
\<close>

theorem inputs_or:
  assumes "countReady i n (0, st_Inactive) hs" and "inTurn {} rs" and "length rs < 2 ^ 31"
  shows "yields (inputReports V i n rs) hs (\<lambda>hs'.
    getIntegerValue (w_heap (h_world hs')) n = Inr (word_of_nat (card (activeAfter {} rs))) \<and>
    m_state (stateOf (h_states hs' ! i)) = (if activeAfter {} rs = {} then st_Inactive else st_Active))"
proof -
  have "yields (inputReports V i n rs) hs (countReady i n (countFor (activeAfter {} rs)))"
    by (rule reports_count) (use assms in \<open>simp_all add: countFor_def\<close>)
  then show ?thesis by (rule yields_mono) (simp add: countReady_def counted_def countFor_def counter_read)
qed

text \<open>An example: the root of the tree as counter of the state \<open>rain\<close>.\<close>

definition exCounter :: pheap where
  "exCounter = upd emptySystem 0 (\<lambda>x. x\<lparr>m_Actual := UInteger 0, m_ValueType := vTypeInteger\<rparr>)"

definition exCounted :: "nat house" where
  "exCounted = \<lparr>h_world = resync exampleEnv (exampleWorld\<lparr>w_heap := exCounter\<rparr>) exampleState,
     h_states = [PlainState exampleState], h_apartment = exHouse\<rparr>"

lemma exCounter_is: "counterIs exCounter 0 0"
proof -
  have sh: "same_shape emptySystem exCounter" by (simp add: same_shape_def exCounter_def children_def)
  have "wf_tree exCounter"
    using exampleWorld_tree wf_extends [OF same_shape_extends [OF sh]] same_shape_tree [OF sh] same_shape_dense [OF sh]
    by (simp add: exampleWorld_def wf_tree_def)
  then show ?thesis
    using exampleWorld_tree by (simp add: counterIs_def exCounter_def exampleWorld_def newPropertyNode_def)
qed

lemma exCounted_ready: "countReady 0 0 (0, st_Inactive) exCounted"
proof -
  have "state_inv (h_world exCounted) exampleState"
    by (simp add: exCounted_def state_inv_def resync_def exampleState_simple(2))
  moreover have "counterIs (w_heap (h_world exCounted)) 0 0"
    using counter_mem [OF exCounter_is] by (simp add: exCounted_def resync_def sync_def)
  moreover have "h_states exCounted = [PlainState exampleState]" "m_state exampleState = st_Inactive"
    by (simp_all add: exCounted_def exampleState_def blankState_def)
  ultimately show ?thesis by (simp add: countReady_def counted_def apart_def exampleState_simple(2))
qed

theorem inputs_or_witness:
  "\<forall>V. yields (inputReports V 0 0 [(([1], 0), True), (([2], 0), True), (([1], 0), False)]) exCounted
     (\<lambda>hs'. getIntegerValue (w_heap (h_world hs')) 0 = Inr 1 \<and> m_state (stateOf (h_states hs' ! 0)) = st_Active)"
proof
  fix V :: "nat shenv"
  have "inTurn {} [(([1], 0), True), (([2], 0), True), (([1::8 word], 0::nat), False)]" by simp
  from inputs_or [OF exCounted_ready this, of V]
  have "yields (inputReports V 0 0 [(([1], 0), True), (([2], 0), True), (([1], 0), False)]) exCounted
     (\<lambda>hs'. getIntegerValue (w_heap (h_world hs')) 0 = Inr (word_of_nat (card {([2::8 word], 0::nat)})) \<and>
        m_state (stateOf (h_states hs' ! 0)) = st_Active)"
    by (simp add: insert_Diff_if)
  then show "yields (inputReports V 0 0 [(([1], 0), True), (([2], 0), True), (([1], 0), False)]) exCounted
     (\<lambda>hs'. getIntegerValue (w_heap (h_world hs')) 0 = Inr 1 \<and> m_state (stateOf (h_states hs' ! 0)) = st_Active)"
    by simp
qed

section \<open>Reports out of turn\<close>

text \<open>
  One input that is active, unknown, active again and then inactive is counted twice: the counter stays
  at 1 and the state stays active although no input is.
\<close>

lemma input_leak:
  assumes "countReady i n (0, s) hs"
  shows "yields (runAll (map (\<lambda>v. countInput V i r v n) [1, 3, 1, 2])) hs (countReady i n (1, st_Active))"
proof -
  have step: "yields (countInput V i r v n) z (countReady i n cs')" if "countReady i n cs z" "reportSpec v cs = cs'" for v z cs cs'
    using report_ready [OF that(1), of V r v] that(2) by simp
  have two: "0 <s (2::u32)" by (simp add: word_sless_alt)
  show ?thesis
    unfolding list.map
    by (rule yields_then, rule step [OF assms], simp add: reportSpec_def, rule yields_then, erule step, simp add: reportSpec_def,
        rule yields_then, erule step, simp add: reportSpec_def, rule yields_last, erule step)
      (simp add: reportSpec_def two)
qed

end
